(* ===== verification/Prelude.thy ===== *)
theory Prelude
  imports Main "HOL-Library.Word"
begin

text \<open>
  Shared material of the development: the machine types of the C sources, the collections of
  rewrite rules that the component theories extend, C's unsigned arithmetic on indices, and
  the list lemmas behind \<^verbatim>\<open>memcpy\<close>, \<^verbatim>\<open>memset\<close> and array loops.
\<close>

unbundle bit_operations_syntax

section \<open>Machine types\<close>

type_synonym u8 = "8 word"
type_synonym u16 = "16 word"
type_synonym u32 = "32 word"
type_synonym char_type = u32
type_synonym color_type = u32
type_synonym hyperlink_id_type = u16
type_synonym combining_type = u16
type_synonym sprite_index = u16

text \<open>
  An \<^verbatim>\<open>unsigned int\<close> or \<^verbatim>\<open>size_t\<close> used as an index or a count is a \<open>nat\<close>. Where a subtraction
  of the source can go below zero it is written with \<open>usub32\<close>, which wraps as C does.
\<close>

definition usub32 :: "nat \<Rightarrow> nat \<Rightarrow> nat" where
  "usub32 a b = (a + (2 ^ 32 - b mod 2 ^ 32)) mod 2 ^ 32"

named_theorems frame_simps \<open>fields an operation does not write\<close>
named_theorems wf_intros \<open>well-formedness preserved by the operations\<close>
named_theorems len_simps \<open>lengths of the arrays an operation returns\<close>

lemma usub32_le [simp]: "b \<le> a \<Longrightarrow> a < 2 ^ 32 \<Longrightarrow> usub32 a b = a - b"
proof -
  assume le: "b \<le> a" and lt: "a < 2 ^ 32"
  then have "b mod 2 ^ 32 = b" by simp
  with le lt have "a + (2 ^ 32 - b mod 2 ^ 32) = (a - b) + 2 ^ 32" by simp
  then have "usub32 a b = ((a - b) + 2 ^ 32) mod 2 ^ 32" by (simp only: usub32_def)
  also have "\<dots> = (a - b) mod 2 ^ 32" by (rule mod_add_self2)
  also have "\<dots> = a - b" using lt by simp
  finally show ?thesis .
qed

lemma usub32_less: "usub32 a b < 2 ^ 32"
  by (simp add: usub32_def)

section \<open>Array writes\<close>

text \<open>\<open>overwrite dst i src\<close> is the array \<open>dst\<close> after \<^verbatim>\<open>memcpy(dst + i, src, length src)\<close>.\<close>

definition overwrite :: "'a list \<Rightarrow> nat \<Rightarrow> 'a list \<Rightarrow> 'a list" where
  "overwrite dst i src = take i dst @ src @ drop (i + length src) dst"

lemma length_overwrite [simp, len_simps]:
  "i + length src \<le> length dst \<Longrightarrow> length (overwrite dst i src) = length dst"
  by (simp add: overwrite_def)

lemma nth_overwrite:
  "i + length src \<le> length dst \<Longrightarrow> k < length dst \<Longrightarrow>
   overwrite dst i src ! k = (if i \<le> k \<and> k < i + length src then src ! (k - i) else dst ! k)"
  by (auto simp: overwrite_def nth_append min_def not_less)

lemma overwrite_Nil [simp]: "overwrite dst i [] = dst"
  by (simp add: overwrite_def)

text \<open>\<open>slice xs i n\<close> reads the \<open>n\<close> elements of an array from index \<open>i\<close>.\<close>

definition slice :: "'a list \<Rightarrow> nat \<Rightarrow> nat \<Rightarrow> 'a list" where
  "slice xs i n = take n (drop i xs)"

lemma length_slice [simp, len_simps]: "i + n \<le> length xs \<Longrightarrow> length (slice xs i n) = n"
  by (simp add: slice_def)

lemma nth_slice [simp]: "i + n \<le> length xs \<Longrightarrow> k < n \<Longrightarrow> slice xs i n ! k = xs ! (i + k)"
  by (simp add: slice_def)

text \<open>\<open>update_range f i n xs\<close> is the loop \<^verbatim>\<open>for (k = i; k < i + n; k++) xs[k] = f(xs[k])\<close>.\<close>

fun update_range :: "('a \<Rightarrow> 'a) \<Rightarrow> nat \<Rightarrow> nat \<Rightarrow> 'a list \<Rightarrow> 'a list" where
  "update_range f i 0 xs = xs"
| "update_range f i (Suc n) xs =
     (if i < length xs then update_range f (Suc i) n (xs[i := f (xs ! i)]) else xs)"

lemma length_update_range [simp, len_simps]: "length (update_range f i n xs) = length xs"
  by (induction f i n xs rule: update_range.induct) auto

lemma nth_update_range:
  "k < length xs \<Longrightarrow> update_range f i n xs ! k = (if i \<le> k \<and> k < i + n then f (xs ! k) else xs ! k)"
proof (induction f i n xs rule: update_range.induct)
  case (1 f i xs)
  then show ?case by auto
next
  case (2 f i n xs)
  show ?case
  proof (cases "i < length xs")
    case True
    with 2 show ?thesis by (auto simp: nth_list_update)
  next
    case False
    with 2 show ?thesis by auto
  qed
qed

section \<open>Words\<close>

lemma unat_less_256 [simp]: "unat (b :: u8) < 256"
  using unsigned_less [of b, where 'a = nat] by simp

lemma or_add_nat: "b < 2 ^ k \<Longrightarrow> (a * 2 ^ k) OR b = a * 2 ^ k + (b::nat)"
proof -
  assume b: "b < 2 ^ k"
  then have tb: "take_bit k b = b" by (simp add: take_bit_nat_eq_self_iff)
  have "push_bit k a OR take_bit k b = push_bit k a + take_bit k b"
    by (rule disjunctive_add [symmetric]) (simp add: bit_simps)
  with tb show ?thesis by (simp add: push_bit_eq_mult)
qed

lemma unat_and_mask: "m = mask k \<Longrightarrow> unat (x AND m) = unat (x::'a::len word) mod 2 ^ k"
proof -
  assume "m = mask k"
  then have "unat (x AND m) = take_bit k (unat x)"
    by (simp only: take_bit_eq_mask [symmetric] unsigned_take_bit_eq)
  then show ?thesis by (simp add: take_bit_eq_mod)
qed

lemma unat_or_disjoint:
  "unat (y::'a::len word) = c * 2 ^ k \<Longrightarrow> unat (x::'a word) < 2 ^ k \<Longrightarrow> unat (x OR y) = c * 2 ^ k + unat x"
  using or_add_nat [of "unat x" k c] by (simp add: unsigned_or_eq or.commute)

lemma unat_drop_bit: "unat (drop_bit k (x::'a::len word)) = unat x div 2 ^ k"
proof -
  have "unat (drop_bit k x) = drop_bit k (take_bit LENGTH('a) (unat x))"
    by (rule unsigned_drop_bit_eq)
  also have "take_bit LENGTH('a) (unat x) = unat x"
    using unsigned_less [of x, where 'a = nat] by (simp only: take_bit_nat_eq_self_iff)
  finally show ?thesis by (simp only: drop_bit_eq_div)
qed

lemma unat_ucast_u8_u32 [simp]: "unat (ucast (b::u8) :: u32) = unat b"
proof -
  have "unat b < 2 ^ 32" by (rule less_trans [OF unat_less_256]) simp
  then show ?thesis by (simp add: unsigned_ucast_eq take_bit_eq_mod)
qed

lemma unat_word_of_nat_u32: "m < 2 ^ 32 \<Longrightarrow> unat (word_of_nat m :: u32) = m"
  by (simp only: unsigned_of_nat) (simp add: take_bit_nat_eq_self_iff)

lemma word_or_eq_0: "(a OR b = (0 :: 'a::len word)) = (a = 0 \<and> b = 0)"
  by (auto simp: bit_eq_iff bit_simps)

lemma list_all_update: "list_all P xs \<Longrightarrow> P x \<Longrightarrow> list_all P (xs[i := x])"
  by (auto simp: list_all_iff dest: set_update_subset_insert [THEN subsetD])

end
