(* ===== verification/Charsets.thy ===== *)
theory Charsets
  imports Prelude
begin

text \<open>
  \<^verbatim>\<open>smelly/charsets.c\<close>: the character set translation tables and the Base64 decoder (the
  UTF-8 routines of the same file are in theory \<open>Utf8\<close>). The Base64 decoder is proved against the
  encoding of RFC 4648 (\<open>rfc4648_encode\<close>).
\<close>

section \<open>Character set translation tables\<close>

definition charset_latin1 :: "u32 list" where
  "charset_latin1 =
    [0x0000, 0x0001, 0x0002, 0x0003, 0x0004, 0x0005, 0x0006, 0x0007, 0x0008, 0x0009, 0x000a, 0x000b,
     0x000c, 0x000d, 0x000e, 0x000f, 0x0010, 0x0011, 0x0012, 0x0013, 0x0014, 0x0015, 0x0016, 0x0017,
     0x0018, 0x0019, 0x001a, 0x001b, 0x001c, 0x001d, 0x001e, 0x001f, 0x0020, 0x0021, 0x0022, 0x0023,
     0x0024, 0x0025, 0x0026, 0x0027, 0x0028, 0x0029, 0x002a, 0x002b, 0x002c, 0x002d, 0x002e, 0x002f,
     0x0030, 0x0031, 0x0032, 0x0033, 0x0034, 0x0035, 0x0036, 0x0037, 0x0038, 0x0039, 0x003a, 0x003b,
     0x003c, 0x003d, 0x003e, 0x003f, 0x0040, 0x0041, 0x0042, 0x0043, 0x0044, 0x0045, 0x0046, 0x0047,
     0x0048, 0x0049, 0x004a, 0x004b, 0x004c, 0x004d, 0x004e, 0x004f, 0x0050, 0x0051, 0x0052, 0x0053,
     0x0054, 0x0055, 0x0056, 0x0057, 0x0058, 0x0059, 0x005a, 0x005b, 0x005c, 0x005d, 0x005e, 0x005f,
     0x0060, 0x0061, 0x0062, 0x0063, 0x0064, 0x0065, 0x0066, 0x0067, 0x0068, 0x0069, 0x006a, 0x006b,
     0x006c, 0x006d, 0x006e, 0x006f, 0x0070, 0x0071, 0x0072, 0x0073, 0x0074, 0x0075, 0x0076, 0x0077,
     0x0078, 0x0079, 0x007a, 0x007b, 0x007c, 0x007d, 0x007e, 0x007f, 0x0080, 0x0081, 0x0082, 0x0083,
     0x0084, 0x0085, 0x0086, 0x0087, 0x0088, 0x0089, 0x008a, 0x008b, 0x008c, 0x008d, 0x008e, 0x008f,
     0x0090, 0x0091, 0x0092, 0x0093, 0x0094, 0x0095, 0x0096, 0x0097, 0x0098, 0x0099, 0x009a, 0x009b,
     0x009c, 0x009d, 0x009e, 0x009f, 0x00a0, 0x00a1, 0x00a2, 0x00a3, 0x00a4, 0x00a5, 0x00a6, 0x00a7,
     0x00a8, 0x00a9, 0x00aa, 0x00ab, 0x00ac, 0x00ad, 0x00ae, 0x00af, 0x00b0, 0x00b1, 0x00b2, 0x00b3,
     0x00b4, 0x00b5, 0x00b6, 0x00b7, 0x00b8, 0x00b9, 0x00ba, 0x00bb, 0x00bc, 0x00bd, 0x00be, 0x00bf,
     0x00c0, 0x00c1, 0x00c2, 0x00c3, 0x00c4, 0x00c5, 0x00c6, 0x00c7, 0x00c8, 0x00c9, 0x00ca, 0x00cb,
     0x00cc, 0x00cd, 0x00ce, 0x00cf, 0x00d0, 0x00d1, 0x00d2, 0x00d3, 0x00d4, 0x00d5, 0x00d6, 0x00d7,
     0x00d8, 0x00d9, 0x00da, 0x00db, 0x00dc, 0x00dd, 0x00de, 0x00df, 0x00e0, 0x00e1, 0x00e2, 0x00e3,
     0x00e4, 0x00e5, 0x00e6, 0x00e7, 0x00e8, 0x00e9, 0x00ea, 0x00eb, 0x00ec, 0x00ed, 0x00ee, 0x00ef,
     0x00f0, 0x00f1, 0x00f2, 0x00f3, 0x00f4, 0x00f5, 0x00f6, 0x00f7, 0x00f8, 0x00f9, 0x00fa, 0x00fb,
     0x00fc, 0x00fd, 0x00fe, 0x00ff]"

definition charset_vt100_graphics :: "u32 list" where
  "charset_vt100_graphics =
    [0x0000, 0x0001, 0x0002, 0x0003, 0x0004, 0x0005, 0x0006, 0x0007, 0x0008, 0x0009, 0x000a, 0x000b,
     0x000c, 0x000d, 0x000e, 0x000f, 0x0010, 0x0011, 0x0012, 0x0013, 0x0014, 0x0015, 0x0016, 0x0017,
     0x0018, 0x0019, 0x001a, 0x001b, 0x001c, 0x001d, 0x001e, 0x001f, 0x0020, 0x0021, 0x0022, 0x0023,
     0x0024, 0x0025, 0x0026, 0x0027, 0x0028, 0x0029, 0x002a, 0x2192, 0x2190, 0x2191, 0x2193, 0x002f,
     0x2588, 0x0031, 0x0032, 0x0033, 0x0034, 0x0035, 0x0036, 0x0037, 0x0038, 0x0039, 0x003a, 0x003b,
     0x003c, 0x003d, 0x003e, 0x003f, 0x0040, 0x0041, 0x0042, 0x0043, 0x0044, 0x0045, 0x0046, 0x0047,
     0x0048, 0x0049, 0x004a, 0x004b, 0x004c, 0x004d, 0x004e, 0x004f, 0x0050, 0x0051, 0x0052, 0x0053,
     0x0054, 0x0055, 0x0056, 0x0057, 0x0058, 0x0059, 0x005a, 0x005b, 0x005c, 0x005d, 0x005e, 0x00a0,
     0x25c6, 0x2592, 0x2409, 0x240c, 0x240d, 0x240a, 0x00b0, 0x00b1, 0x2591, 0x240b, 0x2518, 0x2510,
     0x250c, 0x2514, 0x253c, 0x23ba, 0x23bb, 0x2500, 0x23bc, 0x23bd, 0x251c, 0x2524, 0x2534, 0x252c,
     0x2502, 0x2264, 0x2265, 0x03c0, 0x2260, 0x00a3, 0x00b7, 0x007f, 0x0080, 0x0081, 0x0082, 0x0083,
     0x0084, 0x0085, 0x0086, 0x0087, 0x0088, 0x0089, 0x008a, 0x008b, 0x008c, 0x008d, 0x008e, 0x008f,
     0x0090, 0x0091, 0x0092, 0x0093, 0x0094, 0x0095, 0x0096, 0x0097, 0x0098, 0x0099, 0x009a, 0x009b,
     0x009c, 0x009d, 0x009e, 0x009f, 0x00a0, 0x00a1, 0x00a2, 0x00a3, 0x00a4, 0x00a5, 0x00a6, 0x00a7,
     0x00a8, 0x00a9, 0x00aa, 0x00ab, 0x00ac, 0x00ad, 0x00ae, 0x00af, 0x00b0, 0x00b1, 0x00b2, 0x00b3,
     0x00b4, 0x00b5, 0x00b6, 0x00b7, 0x00b8, 0x00b9, 0x00ba, 0x00bb, 0x00bc, 0x00bd, 0x00be, 0x00bf,
     0x00c0, 0x00c1, 0x00c2, 0x00c3, 0x00c4, 0x00c5, 0x00c6, 0x00c7, 0x00c8, 0x00c9, 0x00ca, 0x00cb,
     0x00cc, 0x00cd, 0x00ce, 0x00cf, 0x00d0, 0x00d1, 0x00d2, 0x00d3, 0x00d4, 0x00d5, 0x00d6, 0x00d7,
     0x00d8, 0x00d9, 0x00da, 0x00db, 0x00dc, 0x00dd, 0x00de, 0x00df, 0x00e0, 0x00e1, 0x00e2, 0x00e3,
     0x00e4, 0x00e5, 0x00e6, 0x00e7, 0x00e8, 0x00e9, 0x00ea, 0x00eb, 0x00ec, 0x00ed, 0x00ee, 0x00ef,
     0x00f0, 0x00f1, 0x00f2, 0x00f3, 0x00f4, 0x00f5, 0x00f6, 0x00f7, 0x00f8, 0x00f9, 0x00fa, 0x00fb,
     0x00fc, 0x00fd, 0x00fe, 0x00ff]"

definition charset_cp437 :: "u32 list" where
  "charset_cp437 =
    [0x0000, 0x263a, 0x263b, 0x2665, 0x2666, 0x2663, 0x2660, 0x2022, 0x25d8, 0x25cb, 0x25d9, 0x2642,
     0x2640, 0x266a, 0x266b, 0x263c, 0x25b6, 0x25c0, 0x2195, 0x203c, 0x00b6, 0x00a7, 0x25ac, 0x21a8,
     0x2191, 0x2193, 0x2192, 0x2190, 0x221f, 0x2194, 0x25b2, 0x25bc, 0x0020, 0x0021, 0x0022, 0x0023,
     0x0024, 0x0025, 0x0026, 0x0027, 0x0028, 0x0029, 0x002a, 0x002b, 0x002c, 0x002d, 0x002e, 0x002f,
     0x0030, 0x0031, 0x0032, 0x0033, 0x0034, 0x0035, 0x0036, 0x0037, 0x0038, 0x0039, 0x003a, 0x003b,
     0x003c, 0x003d, 0x003e, 0x003f, 0x0040, 0x0041, 0x0042, 0x0043, 0x0044, 0x0045, 0x0046, 0x0047,
     0x0048, 0x0049, 0x004a, 0x004b, 0x004c, 0x004d, 0x004e, 0x004f, 0x0050, 0x0051, 0x0052, 0x0053,
     0x0054, 0x0055, 0x0056, 0x0057, 0x0058, 0x0059, 0x005a, 0x005b, 0x005c, 0x005d, 0x005e, 0x005f,
     0x0060, 0x0061, 0x0062, 0x0063, 0x0064, 0x0065, 0x0066, 0x0067, 0x0068, 0x0069, 0x006a, 0x006b,
     0x006c, 0x006d, 0x006e, 0x006f, 0x0070, 0x0071, 0x0072, 0x0073, 0x0074, 0x0075, 0x0076, 0x0077,
     0x0078, 0x0079, 0x007a, 0x007b, 0x007c, 0x007d, 0x007e, 0x2302, 0x00c7, 0x00fc, 0x00e9, 0x00e2,
     0x00e4, 0x00e0, 0x00e5, 0x00e7, 0x00ea, 0x00eb, 0x00e8, 0x00ef, 0x00ee, 0x00ec, 0x00c4, 0x00c5,
     0x00c9, 0x00e6, 0x00c6, 0x00f4, 0x00f6, 0x00f2, 0x00fb, 0x00f9, 0x00ff, 0x00d6, 0x00dc, 0x00a2,
     0x00a3, 0x00a5, 0x20a7, 0x0192, 0x00e1, 0x00ed, 0x00f3, 0x00fa, 0x00f1, 0x00d1, 0x00aa, 0x00ba,
     0x00bf, 0x2310, 0x00ac, 0x00bd, 0x00bc, 0x00a1, 0x00ab, 0x00bb, 0x2591, 0x2592, 0x2593, 0x2502,
     0x2524, 0x2561, 0x2562, 0x2556, 0x2555, 0x2563, 0x2551, 0x2557, 0x255d, 0x255c, 0x255b, 0x2510,
     0x2514, 0x2534, 0x252c, 0x251c, 0x2500, 0x253c, 0x255e, 0x255f, 0x255a, 0x2554, 0x2569, 0x2566,
     0x2560, 0x2550, 0x256c, 0x2567, 0x2568, 0x2564, 0x2565, 0x2559, 0x2558, 0x2552, 0x2553, 0x256b,
     0x256a, 0x2518, 0x250c, 0x2588, 0x2584, 0x258c, 0x2590, 0x2580, 0x03b1, 0x00df, 0x0393, 0x03c0,
     0x03a3, 0x03c3, 0x00b5, 0x03c4, 0x03a6, 0x0398, 0x03a9, 0x03b4, 0x221e, 0x03c6, 0x03b5, 0x2229,
     0x2261, 0x00b1, 0x2265, 0x2264, 0x2320, 0x2321, 0x00f7, 0x2248, 0x00b0, 0x2219, 0x00b7, 0x221a,
     0x207f, 0x00b2, 0x25a0, 0x00a0]"

definition charset_vax42 :: "u32 list" where
  "charset_vax42 =
    [0x0000, 0x263a, 0x263b, 0x2665, 0x2666, 0x2663, 0x2660, 0x2022, 0x25d8, 0x25cb, 0x25d9, 0x2642,
     0x2640, 0x266a, 0x266b, 0x263c, 0x25b6, 0x25c0, 0x2195, 0x203c, 0x00b6, 0x00a7, 0x25ac, 0x21a8,
     0x2191, 0x2193, 0x2192, 0x2190, 0x221f, 0x2194, 0x25b2, 0x25bc, 0x0020, 0x043b, 0x0022, 0x0023,
     0x0024, 0x0025, 0x0026, 0x0027, 0x0028, 0x0029, 0x002a, 0x002b, 0x002c, 0x002d, 0x002e, 0x002f,
     0x0030, 0x0031, 0x0032, 0x0033, 0x0034, 0x0035, 0x0036, 0x0037, 0x0038, 0x0039, 0x003a, 0x003b,
     0x003c, 0x003d, 0x003e, 0x0435, 0x0040, 0x0041, 0x0042, 0x0043, 0x0044, 0x0045, 0x0046, 0x0047,
     0x0048, 0x0049, 0x004a, 0x004b, 0x004c, 0x004d, 0x004e, 0x004f, 0x0050, 0x0051, 0x0052, 0x0053,
     0x0054, 0x0055, 0x0056, 0x0057, 0x0058, 0x0059, 0x005a, 0x005b, 0x005c, 0x005d, 0x005e, 0x005f,
     0x0060, 0x0441, 0x0062, 0x0063, 0x0064, 0x0065, 0x0066, 0x0067, 0x0435, 0x0069, 0x006a, 0x006b,
     0x006c, 0x006d, 0x006e, 0x043a, 0x0070, 0x0071, 0x0442, 0x0073, 0x043b, 0x0435, 0x0076, 0x0077,
     0x0078, 0x0079, 0x007a, 0x007b, 0x007c, 0x007d, 0x007e, 0x2302, 0x00c7, 0x00fc, 0x00e9, 0x00e2,
     0x00e4, 0x00e0, 0x00e5, 0x00e7, 0x00ea, 0x00eb, 0x00e8, 0x00ef, 0x00ee, 0x00ec, 0x00c4, 0x00c5,
     0x00c9, 0x00e6, 0x00c6, 0x00f4, 0x00f6, 0x00f2, 0x00fb, 0x00f9, 0x00ff, 0x00d6, 0x00dc, 0x00a2,
     0x00a3, 0x00a5, 0x20a7, 0x0192, 0x00e1, 0x00ed, 0x00f3, 0x00fa, 0x00f1, 0x00d1, 0x00aa, 0x00ba,
     0x00bf, 0x2310, 0x00ac, 0x00bd, 0x00bc, 0x00a1, 0x00ab, 0x00bb, 0x2591, 0x2592, 0x2593, 0x2502,
     0x2524, 0x2561, 0x2562, 0x2556, 0x2555, 0x2563, 0x2551, 0x2557, 0x255d, 0x255c, 0x255b, 0x2510,
     0x2514, 0x2534, 0x252c, 0x251c, 0x2500, 0x253c, 0x255e, 0x255f, 0x255a, 0x2554, 0x2569, 0x2566,
     0x2560, 0x2550, 0x256c, 0x2567, 0x2568, 0x2564, 0x2565, 0x2559, 0x2558, 0x2552, 0x2553, 0x256b,
     0x256a, 0x2518, 0x250c, 0x2588, 0x2584, 0x258c, 0x2590, 0x2580, 0x03b1, 0x00df, 0x0393, 0x03c0,
     0x03a3, 0x03c3, 0x00b5, 0x03c4, 0x03a6, 0x0398, 0x03a9, 0x03b4, 0x221e, 0x03c6, 0x03b5, 0x2229,
     0x2261, 0x00b1, 0x2265, 0x2264, 0x2320, 0x2321, 0x00f7, 0x2248, 0x00b0, 0x2219, 0x00b7, 0x221a,
     0x207f, 0x00b2, 0x25a0, 0x00a0]"

definition charset_uk :: "u32 list" where
  "charset_uk =
    [0x0000, 0x0001, 0x0002, 0x0003, 0x0004, 0x0005, 0x0006, 0x0007, 0x0008, 0x0009, 0x000a, 0x000b,
     0x000c, 0x000d, 0x000e, 0x000f, 0x0010, 0x0011, 0x0012, 0x0013, 0x0014, 0x0015, 0x0016, 0x0017,
     0x0018, 0x0019, 0x001a, 0x001b, 0x001c, 0x001d, 0x001e, 0x001f, 0x0020, 0x0021, 0x0022, 0x00a3,
     0x0024, 0x0025, 0x0026, 0x0027, 0x0028, 0x0029, 0x002a, 0x002b, 0x002c, 0x002d, 0x002e, 0x002f,
     0x0030, 0x0031, 0x0032, 0x0033, 0x0034, 0x0035, 0x0036, 0x0037, 0x0038, 0x0039, 0x003a, 0x003b,
     0x003c, 0x003d, 0x003e, 0x003f, 0x0040, 0x0041, 0x0042, 0x0043, 0x0044, 0x0045, 0x0046, 0x0047,
     0x0048, 0x0049, 0x004a, 0x004b, 0x004c, 0x004d, 0x004e, 0x004f, 0x0050, 0x0051, 0x0052, 0x0053,
     0x0054, 0x0055, 0x0056, 0x0057, 0x0058, 0x0059, 0x005a, 0x005b, 0x005c, 0x005d, 0x005e, 0x005f,
     0x0060, 0x0061, 0x0062, 0x0063, 0x0064, 0x0065, 0x0066, 0x0067, 0x0068, 0x0069, 0x006a, 0x006b,
     0x006c, 0x006d, 0x006e, 0x006f, 0x0070, 0x0071, 0x0072, 0x0073, 0x0074, 0x0075, 0x0076, 0x0077,
     0x0078, 0x0079, 0x007a, 0x007b, 0x007c, 0x007d, 0x007e, 0x007f, 0x0080, 0x0081, 0x0082, 0x0083,
     0x0084, 0x0085, 0x0086, 0x0087, 0x0088, 0x0089, 0x008a, 0x008b, 0x008c, 0x008d, 0x008e, 0x008f,
     0x0090, 0x0091, 0x0092, 0x0093, 0x0094, 0x0095, 0x0096, 0x0097, 0x0098, 0x0099, 0x009a, 0x009b,
     0x009c, 0x009d, 0x009e, 0x009f, 0x00a0, 0x00a1, 0x00a2, 0x00a3, 0x00a4, 0x00a5, 0x00a6, 0x00a7,
     0x00a8, 0x00a9, 0x00aa, 0x00ab, 0x00ac, 0x00ad, 0x00ae, 0x00af, 0x00b0, 0x00b1, 0x00b2, 0x00b3,
     0x00b4, 0x00b5, 0x00b6, 0x00b7, 0x00b8, 0x00b9, 0x00ba, 0x00bb, 0x00bc, 0x00bd, 0x00be, 0x00bf,
     0x00c0, 0x00c1, 0x00c2, 0x00c3, 0x00c4, 0x00c5, 0x00c6, 0x00c7, 0x00c8, 0x00c9, 0x00ca, 0x00cb,
     0x00cc, 0x00cd, 0x00ce, 0x00cf, 0x00d0, 0x00d1, 0x00d2, 0x00d3, 0x00d4, 0x00d5, 0x00d6, 0x00d7,
     0x00d8, 0x00d9, 0x00da, 0x00db, 0x00dc, 0x00dd, 0x00de, 0x00df, 0x00e0, 0x00e1, 0x00e2, 0x00e3,
     0x00e4, 0x00e5, 0x00e6, 0x00e7, 0x00e8, 0x00e9, 0x00ea, 0x00eb, 0x00ec, 0x00ed, 0x00ee, 0x00ef,
     0x00f0, 0x00f1, 0x00f2, 0x00f3, 0x00f4, 0x00f5, 0x00f6, 0x00f7, 0x00f8, 0x00f9, 0x00fa, 0x00fb,
     0x00fc, 0x00fd, 0x00fe, 0x00ff]"

text \<open>\<^verbatim>\<open>translation_table\<close>: the table a designation character selects, Latin-1 for an unknown one.\<close>

definition translation_table :: "u32 \<Rightarrow> u32 list" where
  "translation_table which =
     (if which = 0x42 then charset_latin1
      else if which = 0x30 then charset_vt100_graphics
      else if which = 0x55 then charset_cp437
      else if which = 0x56 then charset_vax42
      else if which = 0x41 then charset_uk
      else charset_latin1)"

section \<open>Base64\<close>

definition b64_decoding_table :: "u32 list" where
  "b64_decoding_table =
    [0, 0, 0, 0, 0, 0, 0, 0, 0, 0, 0, 0, 0, 0, 0, 0, 0, 0, 0, 0, 0, 0, 0, 0, 0, 0, 0, 0, 0, 0, 0, 0,
     0, 0, 0, 0, 0, 0, 0, 0, 0, 0, 0, 62, 0, 0, 0, 63, 52, 53, 54, 55, 56, 57, 58, 59, 60, 61, 0, 0, 0, 0, 0, 0,
     0, 0, 1, 2, 3, 4, 5, 6, 7, 8, 9, 10, 11, 12, 13, 14, 15, 16, 17, 18, 19, 20, 21, 22, 23, 24, 25, 0, 0, 0, 0, 0,
     0, 26, 27, 28, 29, 30, 31, 32, 33, 34, 35, 36, 37, 38, 39, 40, 41, 42, 43, 44, 45, 46, 47, 48, 49, 50, 51, 0, 0, 0, 0, 0,
     0, 0, 0, 0, 0, 0, 0, 0, 0, 0, 0, 0, 0, 0, 0, 0, 0, 0, 0, 0, 0, 0, 0, 0, 0, 0, 0, 0, 0, 0, 0, 0,
     0, 0, 0, 0, 0, 0, 0, 0, 0, 0, 0, 0, 0, 0, 0, 0, 0, 0, 0, 0, 0, 0, 0, 0, 0, 0, 0, 0, 0, 0, 0, 0,
     0, 0, 0, 0, 0, 0, 0, 0, 0, 0, 0, 0, 0, 0, 0, 0, 0, 0, 0, 0, 0, 0, 0, 0, 0, 0, 0, 0, 0, 0, 0, 0,
     0, 0, 0, 0, 0, 0, 0, 0, 0, 0, 0, 0, 0, 0, 0, 0, 0, 0, 0, 0, 0, 0, 0, 0, 0, 0, 0, 0, 0, 0, 0, 0]"

datatype b64_error = B64_length_error nat | B64_output_buffer_too_small

text \<open>One sextet, and the four sextets of a group packed in a 24 bit integer.\<close>

definition b64_sextet :: "u32 \<Rightarrow> u32" where
  "b64_sextet c = (if c = 0x3d then 0 else b64_decoding_table ! unat (c AND 0xff))"

definition b64_triple :: "u32 \<Rightarrow> u32 \<Rightarrow> u32 \<Rightarrow> u32 \<Rightarrow> u32" where
  "b64_triple a b c d =
     push_bit 18 (b64_sextet a) + push_bit 12 (b64_sextet b)
       + push_bit 6 (b64_sextet c) + push_bit 0 (b64_sextet d)"

fun base64_decode_loop :: "u32 list \<Rightarrow> nat \<Rightarrow> u8 list \<Rightarrow> u8 list" where
  "base64_decode_loop (a # b # c # d # src) dest_sz dest =
     (let triple = b64_triple a b c d;
          dest = (if length dest < dest_sz then dest @ [ucast (drop_bit 16 triple AND 0xFF)] else dest);
          dest = (if length dest < dest_sz then dest @ [ucast (drop_bit 8 triple AND 0xFF)] else dest);
          dest = (if length dest < dest_sz then dest @ [ucast (drop_bit 0 triple AND 0xFF)] else dest)
      in base64_decode_loop src dest_sz dest)"
| "base64_decode_loop _ dest_sz dest = dest"

definition base64_decode :: "u32 list \<Rightarrow> nat \<Rightarrow> b64_error + u8 list" where
  "base64_decode src dest_capacity =
     (if src = [] then Inr []
      else if length src mod 4 \<noteq> 0 then Inl (B64_length_error (length src))
      else
        let dest_sz = (length src div 4) * 3;
            dest_sz = (if src ! (length src - 1) = 0x3d then dest_sz - 1 else dest_sz);
            dest_sz = (if src ! (length src - 2) = 0x3d then dest_sz - 1 else dest_sz)
        in if dest_sz > dest_capacity then Inl B64_output_buffer_too_small
           else Inr (base64_decode_loop src dest_sz []))"

definition b64_alphabet :: "nat \<Rightarrow> u32" where
  "b64_alphabet i =
     (if i < 26 then word_of_nat (0x41 + i) else if i < 52 then word_of_nat (0x61 + (i - 26))
      else if i < 62 then word_of_nat (0x30 + (i - 52)) else if i = 62 then 0x2b else 0x2f)"

fun rfc4648_encode :: "u8 list \<Rightarrow> u32 list" where
  "rfc4648_encode [] = []"
| "rfc4648_encode [a] =
     [b64_alphabet (unat a div 4), b64_alphabet (unat a mod 4 * 16), 0x3d, 0x3d]"
| "rfc4648_encode [a, b] =
     [b64_alphabet (unat a div 4), b64_alphabet (unat a mod 4 * 16 + unat b div 16),
      b64_alphabet (unat b mod 16 * 4), 0x3d]"
| "rfc4648_encode (a # b # c # bs) =
     [b64_alphabet (unat a div 4), b64_alphabet (unat a mod 4 * 16 + unat b div 16),
      b64_alphabet (unat b mod 16 * 4 + unat c div 64), b64_alphabet (unat c mod 64)] @ rfc4648_encode bs"

lemma b64_sextet_alphabet: "i < 64 \<Longrightarrow> b64_sextet (b64_alphabet i) = word_of_nat i"
proof -
  have "list_all (\<lambda>i. b64_sextet (b64_alphabet i) = word_of_nat i) [0..<64]" by code_simp
  then show "i < 64 \<Longrightarrow> b64_sextet (b64_alphabet i) = word_of_nat i" by (simp add: list_all_iff)
qed

lemma b64_alphabet_not_pad: "i < 64 \<Longrightarrow> b64_alphabet i \<noteq> 0x3d"
proof -
  have "list_all (\<lambda>i. b64_alphabet i \<noteq> 0x3d) [0..<64]" by code_simp
  then show "i < 64 \<Longrightarrow> b64_alphabet i \<noteq> 0x3d" by (simp add: list_all_iff)
qed

lemma b64_sextet_pad [simp]: "b64_sextet 0x3d = 0"
  by (simp add: b64_sextet_def)

lemma b64_triple_value:
  assumes "b64_sextet a = word_of_nat i" "b64_sextet b = word_of_nat j"
    and "b64_sextet c = word_of_nat k" "b64_sextet d = word_of_nat l"
    and "i * 262144 + j * 4096 + k * 64 + l = x * 65536 + y * 256 + z"
  shows "b64_triple a b c d = word_of_nat (x * 65536 + y * 256 + z)"
proof -
  have "b64_triple a b c d = word_of_nat (i * 262144 + j * 4096 + k * 64 + l)"
    by (simp add: b64_triple_def assms(1-4) push_bit_eq_mult)
  then show ?thesis by (simp only: assms(5))
qed

lemma b64_byte:
  assumes "x < 256" "y < 256" "z < 256"
  shows "ucast (drop_bit 16 (word_of_nat (x * 65536 + y * 256 + z) :: u32) AND 0xFF) = (word_of_nat x :: u8)"
    and "ucast (drop_bit 8 (word_of_nat (x * 65536 + y * 256 + z) :: u32) AND 0xFF) = (word_of_nat y :: u8)"
    and "ucast ((word_of_nat (x * 65536 + y * 256 + z) :: u32) AND 0xFF) = (word_of_nat z :: u8)"
proof -
  define w :: u32 where "w = word_of_nat (x * 65536 + y * 256 + z)"
  have w: "unat w = x * 65536 + y * 256 + z"
    unfolding w_def using assms by (intro unat_word_of_nat_u32) simp
  have m: "unat (v AND 0xFF) = unat v mod 256" for v :: u32
    using unat_and_mask [of "0xFF" 8 v] by (simp add: mask_eq_exp_minus_1)
  have b: "ucast (drop_bit n w AND 0xFF) = (word_of_nat k :: u8)"
    if "unat w div 2 ^ n mod 256 = k" "k < 256" for n k
  proof -
    have "unat (drop_bit n w AND 0xFF) = k" using that by (simp add: m unat_drop_bit)
    then have "drop_bit n w AND 0xFF = word_of_nat k" by (metis of_nat_unat ucast_id)
    then show ?thesis using that(2) by (simp add: word_unat_eq_iff unsigned_ucast_eq unsigned_of_nat take_bit_eq_mod)
  qed
  have "(x * 65536 + y * 256 + z) div 65536 = x" "(x * 65536 + y * 256 + z) div 256 mod 256 = y"
    "(x * 65536 + y * 256 + z) mod 256 = z"
  proof -
    have e: "x * 65536 + y * 256 + z = (x * 256 + y) * 256 + z" by simp
    have d: "((x * 256 + y) * 256 + z) div 256 = x * 256 + y" using assms(3) by simp
    show "(x * 65536 + y * 256 + z) div 65536 = x"
      using assms div_mult2_eq [of "(x * 256 + y) * 256 + z" 256 256] unfolding e by (simp only: d) simp
    show "(x * 65536 + y * 256 + z) div 256 mod 256 = y" using assms unfolding e by (simp only: d) simp
    show "(x * 65536 + y * 256 + z) mod 256 = z"
      using assms(3) unfolding e by (simp only: mod_mult_self3) simp
  qed
  then show "ucast (drop_bit 16 (word_of_nat (x * 65536 + y * 256 + z) :: u32) AND 0xFF) = (word_of_nat x :: u8)"
    and "ucast (drop_bit 8 (word_of_nat (x * 65536 + y * 256 + z) :: u32) AND 0xFF) = (word_of_nat y :: u8)"
    and "ucast ((word_of_nat (x * 65536 + y * 256 + z) :: u32) AND 0xFF) = (word_of_nat z :: u8)"
    unfolding w_def [symmetric] using assms b [of 16 x] b [of 8 y] b [of 0 z] by (simp_all add: w)
qed

lemma b64_byte_2:
  assumes "x < 256" "y < 256"
  shows "ucast (drop_bit 16 (word_of_nat (x * 65536 + y * 256) :: u32) AND 0xFF) = (word_of_nat x :: u8)"
    and "ucast (drop_bit 8 (word_of_nat (x * 65536 + y * 256) :: u32) AND 0xFF) = (word_of_nat y :: u8)"
  using b64_byte [OF assms, of 0] by (simp_all del: of_nat_add of_nat_mult)

lemma b64_byte_1:
  "x < 256 \<Longrightarrow> ucast (drop_bit 16 (word_of_nat (x * 65536) :: u32) AND 0xFF) = (word_of_nat x :: u8)"
  using b64_byte_2 [of x 0] by (simp del: of_nat_add of_nat_mult)

lemma b64_digits_3:
  assumes "b < 256" "c < (256 :: nat)"
  shows "a div 4 * 262144 + (a mod 4 * 16 + b div 16) * 4096 + (b mod 16 * 4 + c div 64) * 64 + c mod 64
       = a * 65536 + b * 256 + c"
proof -
  have "a div 4 * 262144 + a mod 4 * 65536 = a * 65536" using div_mult_mod_eq [of a 4] by linarith
  moreover have "b div 16 * 4096 + b mod 16 * 256 = b * 256" using div_mult_mod_eq [of b 16] by linarith
  moreover have "c div 64 * 64 + c mod 64 = c" by simp
  ultimately show ?thesis by (simp add: algebra_simps)
qed

lemma b64_index_bounds:
  "unat (a::u8) div 4 < 64" "unat a mod 4 * 16 < 64" "unat a mod 4 * 16 + unat (b::u8) div 16 < 64"
  "unat b mod 16 * 4 < 64" "unat b mod 16 * 4 + unat (c::u8) div 64 < 64" "unat c mod 64 < 64"
proof -
  have "unat a < 256" "unat b < 256" "unat c < 256" by (rule unat_less_256)+
  then have "unat a div 4 < 64" "unat b div 16 < 16" "unat c div 64 < 4"
    by (simp_all add: less_mult_imp_div_less)
  moreover have "unat a mod 4 < 4" "unat b mod 16 < 16" by simp_all
  ultimately show "unat a div 4 < 64" "unat a mod 4 * 16 < 64" "unat a mod 4 * 16 + unat b div 16 < 64"
    "unat b mod 16 * 4 < 64" "unat b mod 16 * 4 + unat c div 64 < 64" "unat c mod 64 < 64"
    by linarith+
qed

lemma b64_sextet_pad_0: "b64_sextet 0x3d = word_of_nat 0"
  by simp

lemma b64_triple_rfc4648_3:
  "b64_triple (b64_alphabet (unat a div 4)) (b64_alphabet (unat a mod 4 * 16 + unat b div 16))
     (b64_alphabet (unat b mod 16 * 4 + unat c div 64)) (b64_alphabet (unat c mod 64))
   = word_of_nat (unat a * 65536 + unat b * 256 + unat c)" for a b c :: u8
  by (rule b64_triple_value [OF b64_sextet_alphabet b64_sextet_alphabet b64_sextet_alphabet b64_sextet_alphabet])
     (rule b64_index_bounds b64_digits_3 unat_less_256)+

lemma b64_triple_rfc4648_2:
  "b64_triple (b64_alphabet (unat a div 4)) (b64_alphabet (unat a mod 4 * 16 + unat b div 16))
     (b64_alphabet (unat b mod 16 * 4)) 0x3d = word_of_nat (unat a * 65536 + unat b * 256 + 0)" for a b :: u8
  by (rule b64_triple_value [OF b64_sextet_alphabet b64_sextet_alphabet b64_sextet_alphabet b64_sextet_pad_0])
     (rule b64_index_bounds | simp add: b64_digits_3 [of "unat b" 0 "unat a", simplified])+

lemma b64_triple_rfc4648_1:
  "b64_triple (b64_alphabet (unat a div 4)) (b64_alphabet (unat a mod 4 * 16)) 0x3d 0x3d
   = word_of_nat (unat a * 65536 + 0 * 256 + 0)" for a :: u8
  by (rule b64_triple_value [OF b64_sextet_alphabet b64_sextet_alphabet b64_sextet_pad_0 b64_sextet_pad_0])
     (rule b64_index_bounds | simp add: b64_digits_3 [of 0 0 "unat a", simplified])+

lemmas b64_triple_rfc4648 = b64_triple_rfc4648_1 b64_triple_rfc4648_2 b64_triple_rfc4648_3

lemma base64_decode_loop_rfc4648:
  "base64_decode_loop (rfc4648_encode bs) (length dest + length bs) dest = dest @ bs"
proof (induction bs arbitrary: dest rule: rfc4648_encode.induct)
  case (4 a b c bs)
  from "4.IH" [of "dest @ [a, b, c]"] show ?case
    by (simp add: b64_triple_rfc4648 b64_byte del: of_nat_add of_nat_mult)
qed (simp_all add: Let_def b64_triple_rfc4648 b64_byte b64_byte_2 b64_byte_1 del: of_nat_add of_nat_mult)

lemma rfc4648_length: "length (rfc4648_encode bs) = (length bs + 2) div 3 * 4"
proof (induction bs rule: rfc4648_encode.induct)
  case (4 a b c bs)
  have "(length bs + 2 + 3) div 3 = Suc ((length bs + 2) div 3)" by (simp only: div_add_self2)
  then have "(5 + length bs) div 3 = Suc ((length bs + 2) div 3)" by (simp add: add.commute)
  with 4 show ?case by simp
qed simp_all

text \<open>The padding at the end of an encoding tells how many bytes its last group holds.\<close>

lemma rfc4648_padding:
  assumes "bs \<noteq> []"
  shows "\<exists>pre c d. rfc4648_encode bs = pre @ [c, d] \<and>
    (d = 0x3d) = (length bs mod 3 \<noteq> 0) \<and> (c = 0x3d) = (length bs mod 3 = 1)"
  using assms
proof (induction bs rule: rfc4648_encode.induct)
  case (4 a b c bs)
  show ?case
  proof (cases "bs = []")
    case True
    then show ?thesis by (simp add: b64_alphabet_not_pad b64_index_bounds)
  next
    case False
    with "4.IH" obtain pre x y where "rfc4648_encode bs = pre @ [x, y]"
      "(y = 0x3d) = (length bs mod 3 \<noteq> 0)" "(x = 0x3d) = (length bs mod 3 = 1)" by blast
    then show ?thesis by simp
  qed
qed (simp_all add: b64_alphabet_not_pad b64_index_bounds)

lemma base64_decode_rfc4648:
  assumes "length bs \<le> capacity"
  shows "base64_decode (rfc4648_encode bs) capacity = Inr bs"
proof (cases "bs = []")
  case True
  then show ?thesis by (simp add: base64_decode_def)
next
  case False
  then obtain pre c d where e: "rfc4648_encode bs = pre @ [c, d]"
    and d: "(d = 0x3d) = (length bs mod 3 \<noteq> 0)" and c: "(c = 0x3d) = (length bs mod 3 = 1)"
    using rfc4648_padding by blast
  let ?n = "(length bs + 2) div 3"
  have len: "length pre + 2 = ?n * 4" using rfc4648_length [of bs] by (simp add: e)
  then have div4: "(length pre + 2) div 4 = ?n" by simp
  have "?n * 3 = length bs + (if length bs mod 3 = 0 then 0 else if length bs mod 3 = 1 then 2 else 1)"
  proof -
    define m where "m = length bs div 3"
    have "length bs mod 3 < 3" by simp
    then consider "length bs mod 3 = 0" | "length bs mod 3 = 1" | "length bs mod 3 = 2" by linarith
    then show ?thesis
    proof cases
      case 1
      with div_mult_mod_eq [of "length bs" 3] have "length bs = m * 3" by (simp add: m_def)
      then show ?thesis by simp
    next
      case 2
      with div_mult_mod_eq [of "length bs" 3] have "length bs = m * 3 + 1" by (simp add: m_def)
      then show ?thesis by (simp add: mod_Suc)
    next
      case 3
      with div_mult_mod_eq [of "length bs" 3] have "length bs = m * 3 + 2" by (simp add: m_def)
      then show ?thesis by (simp add: mod_Suc)
    qed
  qed
  then have sz: "(let n = ?n * 3; n = (if d = 0x3d then n - 1 else n) in if c = 0x3d then n - 1 else n) = length bs"
    unfolding c d Let_def by (auto split: if_splits)
  have loop: "base64_decode_loop (pre @ [c, d]) (length bs) [] = bs"
    using base64_decode_loop_rfc4648 [of bs "[]"] by (simp add: e)
  let ?L = "pre @ [c, d]"
  have l: "length ?L = ?n * 4" using len by simp
  have L: "length ?L mod 4 \<noteq> 0 \<longleftrightarrow> False" "length ?L div 4 = ?n" by (simp_all only: l) simp_all
  have L': "?L ! (length ?L - 1) = d" "?L ! (length ?L - 2) = c" "(?L = []) = False"
    by (simp_all add: nth_append)
  have "(capacity < length bs) = False" using assms by simp
  then show ?thesis
    unfolding base64_decode_def e L L' if_False using sz by (simp only: Let_def loop if_False)
qed

theorem base64_roundtrip:
  assumes "length bs \<le> capacity"
  shows "base64_decode (rfc4648_encode bs) capacity = Inr bs"
  using assms by (rule base64_decode_rfc4648)

theorem base64_roundtrip_witness:
  "base64_decode (rfc4648_encode [0x68, 0x69, 0x21, 0xff]) 16 = Inr [0x68, 0x69, 0x21, 0xff]"
  by (rule base64_roundtrip) simp

lemma base64_decode_loop_length:
  "length dest \<le> dest_sz \<Longrightarrow> length (base64_decode_loop src dest_sz dest) \<le> dest_sz"
  by (induction src dest_sz dest rule: base64_decode_loop.induct) (simp_all add: Let_def)

lemma base64_decode_length: "base64_decode src capacity = Inr out \<Longrightarrow> length out \<le> capacity"
proof -
  assume d: "base64_decode src capacity = Inr out"
  then obtain n where "out = base64_decode_loop src n []" and "n \<le> capacity \<or> out = []"
    by (auto simp: base64_decode_def Let_def not_less split: if_splits)
  with base64_decode_loop_length [of "[]" n src] show ?thesis by auto
qed

theorem base64_decode_within_capacity:
  "case base64_decode src capacity of Inl e \<Rightarrow> True | Inr out \<Rightarrow> length out \<le> capacity"
  by (auto split: sum.splits dest: base64_decode_length)

end
