(* ===== verification/Utf8.thy ===== *)
theory Utf8
  imports Prelude
begin

text \<open>
  \<^verbatim>\<open>decode_utf8\<close>, \<^verbatim>\<open>decode_utf8_string\<close> and \<^verbatim>\<open>encode_utf8\<close> of \<^verbatim>\<open>smelly/charsets.c\<close>, the specification of
  well-formed UTF-8 (\<open>utf8_decode_seq\<close>, \<open>unicode_scalar\<close>), and the proofs that the decoder
  accepts exactly the encodings of Unicode scalar values and inverts the encoder.
\<close>

section \<open>UTF-8\<close>

text \<open>
  The decoder of Bjoern Hoehrmann: 256 byte classes, then one row of 16 entries per state with
  the next state for each class.
\<close>

definition utf8_data :: "nat list" where
  "utf8_data =
    [0, 0, 0, 0, 0, 0, 0, 0, 0, 0, 0, 0, 0, 0, 0, 0, 0, 0, 0, 0, 0, 0, 0, 0, 0, 0, 0, 0, 0, 0, 0, 0,
     0, 0, 0, 0, 0, 0, 0, 0, 0, 0, 0, 0, 0, 0, 0, 0, 0, 0, 0, 0, 0, 0, 0, 0, 0, 0, 0, 0, 0, 0, 0, 0,
     0, 0, 0, 0, 0, 0, 0, 0, 0, 0, 0, 0, 0, 0, 0, 0, 0, 0, 0, 0, 0, 0, 0, 0, 0, 0, 0, 0, 0, 0, 0, 0,
     0, 0, 0, 0, 0, 0, 0, 0, 0, 0, 0, 0, 0, 0, 0, 0, 0, 0, 0, 0, 0, 0, 0, 0, 0, 0, 0, 0, 0, 0, 0, 0,
     1, 1, 1, 1, 1, 1, 1, 1, 1, 1, 1, 1, 1, 1, 1, 1, 9, 9, 9, 9, 9, 9, 9, 9, 9, 9, 9, 9, 9, 9, 9, 9,
     7, 7, 7, 7, 7, 7, 7, 7, 7, 7, 7, 7, 7, 7, 7, 7, 7, 7, 7, 7, 7, 7, 7, 7, 7, 7, 7, 7, 7, 7, 7, 7,
     8, 8, 2, 2, 2, 2, 2, 2, 2, 2, 2, 2, 2, 2, 2, 2, 2, 2, 2, 2, 2, 2, 2, 2, 2, 2, 2, 2, 2, 2, 2, 2,
     10, 3, 3, 3, 3, 3, 3, 3, 3, 3, 3, 3, 3, 4, 3, 3, 11, 6, 6, 6, 5, 8, 8, 8, 8, 8, 8, 8, 8, 8, 8, 8,
     0, 1, 2, 3, 5, 8, 7, 1, 1, 1, 4, 6, 1, 1, 1, 1, 1, 1, 1, 1, 1, 1, 1, 1, 1, 1, 1, 1, 1, 1, 1, 1,
     1, 0, 1, 1, 1, 1, 1, 0, 1, 0, 1, 1, 1, 1, 1, 1, 1, 2, 1, 1, 1, 1, 1, 2, 1, 2, 1, 1, 1, 1, 1, 1,
     1, 1, 1, 1, 1, 1, 1, 2, 1, 1, 1, 1, 1, 1, 1, 1, 1, 2, 1, 1, 1, 1, 1, 1, 1, 2, 1, 1, 1, 1, 1, 1,
     1, 1, 1, 1, 1, 1, 1, 3, 1, 3, 1, 1, 1, 1, 1, 1, 1, 3, 1, 1, 1, 1, 1, 3, 1, 3, 1, 1, 1, 1, 1, 1,
     1, 3, 1, 1, 1, 1, 1, 1, 1, 1, 1, 1, 1, 1, 1, 1]"

abbreviation (input) UTF8_ACCEPT :: nat where "UTF8_ACCEPT \<equiv> 0"
abbreviation (input) UTF8_REJECT :: nat where "UTF8_REJECT \<equiv> 1"

text \<open>One byte: the new state and the new code point accumulator.\<close>

definition decode_utf8 :: "nat \<Rightarrow> u32 \<Rightarrow> u8 \<Rightarrow> nat \<times> u32" where
  "decode_utf8 state codep byte =
     (let type = utf8_data ! unat byte;
          codep' = (if state \<noteq> UTF8_ACCEPT
                    then (ucast byte AND 0x3f) OR push_bit 6 codep
                    else drop_bit type 0xff AND ucast byte)
      in (utf8_data ! (256 + state * 16 + type), codep'))"

text \<open>
  \<^verbatim>\<open>decode_utf8_string\<close>: the loop over the bytes. On a reject in the middle of a sequence the byte is
  looked at again from the start state (\<^verbatim>\<open>i--\<close>). The result is the used part of \<^verbatim>\<open>dest\<close>.
\<close>

function decode_utf8_string_loop ::
  "u8 list \<Rightarrow> nat \<Rightarrow> nat \<Rightarrow> u32 \<Rightarrow> nat \<Rightarrow> u32 list \<Rightarrow> u32 list" where
  "decode_utf8_string_loop src i state codep prev dest =
     (if i < length src then
        (case decode_utf8 state codep (src ! i) of (state', codep') \<Rightarrow>
          if state' = UTF8_ACCEPT then
            decode_utf8_string_loop src (Suc i) state' codep' state' (dest @ [codep'])
          else if state' = UTF8_REJECT then
            (if prev \<noteq> UTF8_ACCEPT \<and> i > 0
             then decode_utf8_string_loop src i UTF8_ACCEPT codep' UTF8_ACCEPT dest
             else decode_utf8_string_loop src (Suc i) UTF8_ACCEPT codep' UTF8_ACCEPT dest)
          else decode_utf8_string_loop src (Suc i) state' codep' state' dest)
      else dest)"
  by pat_completeness auto
termination
  by (relation "measures [\<lambda>(src, i, state, codep, prev, dest). length src - i,
                          \<lambda>(src, i, state, codep, prev, dest). if prev \<noteq> UTF8_ACCEPT then 1 else 0]") auto

declare decode_utf8_string_loop.simps [simp del]

definition decode_utf8_string :: "u8 list \<Rightarrow> u32 list" where
  "decode_utf8_string src = decode_utf8_string_loop src 0 0 0 UTF8_ACCEPT []"

definition encode_utf8 :: "u32 \<Rightarrow> u8 list" where
  "encode_utf8 ch =
     (if ch < 0x80 then [ucast ch]
      else if ch < 0x800 then
        [ucast (drop_bit 6 ch OR 0xC0), ucast ((ch AND 0x3F) OR 0x80)]
      else if ch < 0x10000 then
        [ucast (drop_bit 12 ch OR 0xE0), ucast ((drop_bit 6 ch AND 0x3F) OR 0x80),
         ucast ((ch AND 0x3F) OR 0x80)]
      else if ch < 0x110000 then
        [ucast (drop_bit 18 ch OR 0xF0), ucast ((drop_bit 12 ch AND 0x3F) OR 0x80),
         ucast ((drop_bit 6 ch AND 0x3F) OR 0x80), ucast ((ch AND 0x3F) OR 0x80)]
      else [])"

section \<open>The decoder's tables\<close>

text \<open>The byte classes and the transition table, as case distinctions; both are checked entry by entry.\<close>

lemma unat_cont_byte: "unat (ucast ((x AND 0x3F) OR 0x80 :: u32) :: u8) = 128 + unat x mod 64"
proof -
  have m: "unat (x AND 0x3F) = unat x mod 64"
    using unat_and_mask [of "0x3F" 6 x] by (simp add: mask_eq_exp_minus_1)
  have "unat ((x AND 0x3F) OR 0x80) = 1 * 2 ^ 7 + unat (x AND 0x3F)"
  proof (rule unat_or_disjoint)
    show "unat (x AND 0x3F) < 2 ^ 7" unfolding m by (rule less_trans [of _ 64]) auto
  qed simp
  then have e: "unat ((x AND 0x3F) OR 0x80) = 128 + unat x mod 64" by (simp add: m)
  have "128 + unat x mod 64 < 256" using mod_less_divisor [of 64 "unat x"] by linarith
  then show ?thesis by (simp add: unsigned_ucast_eq e take_bit_eq_mod)
qed


definition utf8_class :: "nat \<Rightarrow> nat" where
  "utf8_class n =
     (if n < 0x80 then 0 else if n < 0x90 then 1 else if n < 0xa0 then 9
      else if n < 0xc0 then 7 else if n < 0xc2 then 8 else if n < 0xe0 then 2
      else if n = 0xe0 then 10 else if n = 0xed then 4 else if n < 0xf0 then 3
      else if n = 0xf0 then 11 else if n < 0xf4 then 6 else if n = 0xf4 then 5 else 8)"

lemma utf8_data_class: "n < 256 \<Longrightarrow> utf8_data ! n = utf8_class n"
proof -
  have "list_all (\<lambda>n. utf8_data ! n = utf8_class n) [0..<256]" by code_simp
  then show "n < 256 \<Longrightarrow> utf8_data ! n = utf8_class n" by (simp add: list_all_iff)
qed

definition utf8_next :: "nat \<Rightarrow> nat \<Rightarrow> nat" where
  "utf8_next s t =
     (if s = 0 then (if t = 0 then 0 else if t = 2 then 2 else if t = 3 then 3 else if t = 4 then 5
        else if t = 5 then 8 else if t = 6 then 7 else if t = 10 then 4 else if t = 11 then 6 else 1)
      else if s = 2 \<and> t \<in> {1, 7, 9} then 0
      else if s = 3 \<and> t \<in> {1, 7, 9} \<or> s = 4 \<and> t = 7 \<or> s = 5 \<and> t \<in> {1, 9} then 2
      else if s = 6 \<and> t \<in> {7, 9} \<or> s = 7 \<and> t \<in> {1, 7, 9} \<or> s = 8 \<and> t = 1 then 3
      else 1)"

lemma utf8_data_next: "s < 9 \<Longrightarrow> t < 16 \<Longrightarrow> utf8_data ! (256 + s * 16 + t) = utf8_next s t"
proof -
  have "list_all (\<lambda>s. list_all (\<lambda>t. utf8_data ! (256 + s * 16 + t) = utf8_next s t) [0..<16]) [0..<9]"
    by code_simp
  then show "s < 9 \<Longrightarrow> t < 16 \<Longrightarrow> utf8_data ! (256 + s * 16 + t) = utf8_next s t"
    by (simp add: list_all_iff)
qed

lemma utf8_class_less: "utf8_class n < 16"
  by (simp add: utf8_class_def)

lemma decode_utf8_state:
  "s < 9 \<Longrightarrow> fst (decode_utf8 s c b) = utf8_next s (utf8_class (unat b))"
  by (simp add: decode_utf8_def Let_def utf8_data_class utf8_data_next utf8_class_less)

lemma unat_push_6: "unat (c::u32) < 2 ^ 26 \<Longrightarrow> unat (push_bit 6 c) = unat c * 2 ^ 6"
proof -
  assume c: "unat c < 2 ^ 26"
  have "unat (push_bit 6 c) = take_bit 32 (push_bit 6 (unat c))"
    by (simp only: unsigned_push_bit_eq) simp
  also have "\<dots> = push_bit 6 (unat c)"
    using c by (simp only: take_bit_nat_eq_self_iff push_bit_eq_mult) simp
  finally show ?thesis by (simp only: push_bit_eq_mult)
qed

lemma drop_bit_ff: "n < 12 \<Longrightarrow> drop_bit n 0xff = (mask (8 - n) :: u32)"
proof -
  have "list_all (\<lambda>n. drop_bit n 0xff = (mask (8 - n) :: u32)) [0..<12]" by code_simp
  then show "n < 12 \<Longrightarrow> drop_bit n 0xff = (mask (8 - n) :: u32)" by (simp add: list_all_iff)
qed

lemma decode_utf8_cont_codep:
  assumes "s \<noteq> UTF8_ACCEPT" and "unat c < 2 ^ 26"
  shows "unat (snd (decode_utf8 s c b)) = unat c * 64 + unat b mod 64"
proof -
  have m: "unat (ucast b AND (0x3f::u32)) = unat b mod 64"
    using unat_and_mask [of "0x3f" 6 "ucast b :: u32"]
    by (simp add: mask_eq_exp_minus_1)
  have "unat ((ucast b AND 0x3f) OR push_bit 6 c) = unat c * 2 ^ 6 + unat (ucast b AND (0x3f::u32))"
    using assms(2) by (intro unat_or_disjoint unat_push_6) (simp_all add: m)
  with assms(1) m show ?thesis by (simp add: decode_utf8_def Let_def)
qed

lemma decode_utf8_lead_codep:
  "unat (snd (decode_utf8 UTF8_ACCEPT c b)) =
     (if utf8_class (unat b) \<le> 8 then unat b mod 2 ^ (8 - utf8_class (unat b)) else 0)"
proof -
  let ?t = "utf8_class (unat b)"
  have "(drop_bit ?t 0xff :: u32) = mask (8 - ?t)"
    by (rule drop_bit_ff) (simp add: utf8_class_def)
  then have "unat (drop_bit ?t 0xff AND (ucast b :: u32)) = unat (ucast b :: u32) mod 2 ^ (8 - ?t)"
    using unat_and_mask [of "drop_bit ?t 0xff" "8 - ?t" "ucast b :: u32"] by (simp add: and.commute)
  then show ?thesis
    by (simp add: decode_utf8_def Let_def utf8_data_class)
qed

lemma decode_utf8_string_loop_step:
  assumes "i < length src" and "decode_utf8 s c (src ! i) = (s', c')"
  shows "s' = UTF8_ACCEPT \<Longrightarrow> decode_utf8_string_loop src i s c p dest =
           decode_utf8_string_loop src (Suc i) UTF8_ACCEPT c' UTF8_ACCEPT (dest @ [c'])"
    and "s' \<noteq> UTF8_ACCEPT \<Longrightarrow> s' \<noteq> UTF8_REJECT \<Longrightarrow> decode_utf8_string_loop src i s c p dest =
           decode_utf8_string_loop src (Suc i) s' c' s' dest"
  using assms by (simp_all add: decode_utf8_string_loop.simps [of src i])

fun utf8_decode_seq :: "nat \<Rightarrow> u32 \<Rightarrow> u8 list \<Rightarrow> u32 option" where
  "utf8_decode_seq s c [] = None"
| "utf8_decode_seq s c (b # bs) =
     (case decode_utf8 s c b of (s', c') \<Rightarrow>
        if s' = UTF8_ACCEPT then (if bs = [] then Some c' else None)
        else if s' = UTF8_REJECT then None
        else utf8_decode_seq s' c' bs)"

lemma decode_utf8_string_loop_seq:
  assumes "utf8_decode_seq s c bs = Some ch" and "drop i src = bs @ rest"
  shows "decode_utf8_string_loop src i s c p dest =
           decode_utf8_string_loop src (i + length bs) UTF8_ACCEPT ch UTF8_ACCEPT (dest @ [ch])"
  using assms
proof (induction bs arbitrary: i s c p)
  case Nil
  then show ?case by simp
next
  case (Cons b bs)
  obtain s' c' where d: "decode_utf8 s c b = (s', c')" by fastforce
  from Cons.prems(2) have i: "i < length src" and b: "src ! i = b"
    and rest: "drop (Suc i) src = bs @ rest"
    by (metis append_Cons drop_eq_Nil linorder_not_less list.distinct(1),
        metis append_Cons nth_via_drop, simp add: drop_Suc drop_tl)
  note step = decode_utf8_string_loop_step [of i src s c s' c' p dest, unfolded b, OF i d]
  show ?case
  proof (cases "s' = UTF8_ACCEPT")
    case True
    with Cons.prems(1) d have "bs = []" "ch = c'" by (auto split: if_splits)
    with step(1) [OF True] show ?thesis by simp
  next
    case False
    with Cons.prems(1) d have "s' \<noteq> UTF8_REJECT" and seq: "utf8_decode_seq s' c' bs = Some ch"
      by (auto split: if_splits)
    with False step(2) Cons.IH [OF seq rest] show ?thesis by simp
  qed
qed

definition unicode_scalar :: "u32 \<Rightarrow> bool" where
  "unicode_scalar ch = (ch < 0x110000 \<and> \<not> (0xD800 \<le> ch \<and> ch \<le> 0xDFFF))"

lemma unat_lead_byte:
  assumes "unat L = c * 2 ^ k" and "unat x < 2 ^ k" and "c * 2 ^ k + unat x < 256"
  shows "unat (ucast (x OR L :: u32) :: u8) = c * 2 ^ k + unat x"
  using assms(3) unat_or_disjoint [OF assms(1,2)] by (simp add: unsigned_ucast_eq take_bit_eq_mod)

lemma decode_utf8_pair:
  assumes "s < 9" and "s' = utf8_next s (utf8_class (unat b))"
    and "unat c' = unat (snd (decode_utf8 s c b))"
  shows "decode_utf8 s c b = (s', c')"
proof (rule prod_eqI)
  show "fst (decode_utf8 s c b) = fst (s', c')" using assms(1,2) by (simp add: decode_utf8_state)
  show "snd (decode_utf8 s c b) = snd (s', c')" using assms(3) by (simp add: word_unat_eq_iff)
qed

lemma decode_utf8_lead:
  "decode_utf8 UTF8_ACCEPT c b =
     (utf8_next 0 (utf8_class (unat b)),
      word_of_nat (if utf8_class (unat b) \<le> 8 then unat b mod 2 ^ (8 - utf8_class (unat b)) else 0))"
proof (rule decode_utf8_pair)
  have "unat b mod n < 2 ^ 32" for n
    by (rule le_less_trans [OF mod_less_eq_dividend], rule less_trans [OF unat_less_256]) simp
  then show "unat (word_of_nat (if utf8_class (unat b) \<le> 8
        then unat b mod 2 ^ (8 - utf8_class (unat b)) else 0) :: u32)
      = unat (snd (decode_utf8 UTF8_ACCEPT c b))"
    by (simp only: decode_utf8_lead_codep unat_word_of_nat_u32 zero_less_numeral zero_less_power split: if_split) simp
qed simp_all

lemma decode_utf8_cont:
  assumes "s < 9" and "s \<noteq> UTF8_ACCEPT" and "n < 2 ^ 26"
  shows "decode_utf8 s (word_of_nat n) b =
     (utf8_next s (utf8_class (unat b)), word_of_nat (n * 64 + unat b mod 64))"
proof (rule decode_utf8_pair)
  have n: "unat (word_of_nat n :: u32) = n"
    by (rule unat_word_of_nat_u32) (rule less_trans [OF assms(3)], simp)
  have "unat b mod 64 < 64" by simp
  with assms(3) have "n * 64 + unat b mod 64 < 2 ^ 32" by simp
  then have "unat (word_of_nat (n * 64 + unat b mod 64) :: u32) = n * 64 + unat b mod 64"
    by (rule unat_word_of_nat_u32)
  also have "\<dots> = unat (snd (decode_utf8 s (word_of_nat n) b))"
    using decode_utf8_cont_codep [OF assms(2), of "word_of_nat n" b] assms(3) by (simp add: n)
  finally show "unat (word_of_nat (n * 64 + unat b mod 64) :: u32)
      = unat (snd (decode_utf8 s (word_of_nat n) b))" .
qed (simp_all add: assms)

lemma utf8_decode_seq_cont:
  assumes "s < 9" and "s \<noteq> UTF8_ACCEPT" and "n < 2 ^ 26"
    and "utf8_next s (utf8_class (unat b)) \<notin> {UTF8_ACCEPT, UTF8_REJECT}"
  shows "utf8_decode_seq s (word_of_nat n) (b # bs) =
    utf8_decode_seq (utf8_next s (utf8_class (unat b))) (word_of_nat (n * 64 + unat b mod 64)) bs"
  using assms(4) by (simp add: decode_utf8_cont [OF assms(1-3)])

lemma utf8_decode_seq_last:
  assumes "s < 9" and "s \<noteq> UTF8_ACCEPT" and "n < 2 ^ 26"
    and "utf8_next s (utf8_class (unat b)) = UTF8_ACCEPT"
  shows "utf8_decode_seq s (word_of_nat n) [b] = Some (word_of_nat (n * 64 + unat b mod 64))"
  using assms(4) by (simp add: decode_utf8_cont [OF assms(1-3)])

lemma utf8_class_cont: "128 \<le> n \<Longrightarrow> n < 192 \<Longrightarrow> utf8_class n \<in> {1, 7, 9}"
  by (simp add: utf8_class_def)

lemma cont_byte_mod: "unat (b::u8) = 128 + d \<Longrightarrow> d < 64 \<Longrightarrow> unat b mod 64 = d"
  using mod_mult_self2 [of d 64 2] by (simp add: add.commute)

lemma utf8_seq_2:
  assumes "n < 2 ^ 26" and b: "unat b = 128 + d" "d < 64"
  shows "utf8_decode_seq 2 (word_of_nat n) [b] = Some (word_of_nat (n * 64 + d))"
proof -
  have "utf8_class (unat b) \<in> {1, 7, 9}" using b by (intro utf8_class_cont) linarith+
  then have "utf8_next 2 (utf8_class (unat b)) = 0" by (auto simp: utf8_next_def)
  then have "utf8_decode_seq 2 (word_of_nat n) [b] = Some (word_of_nat (n * 64 + unat b mod 64))"
    using assms(1) by (intro utf8_decode_seq_last) simp_all
  then show ?thesis by (simp only: cont_byte_mod [OF b])
qed

lemma utf8_seq_to_2:
  assumes n: "n < 2 ^ 20" and b: "unat b = 128 + d" "d < 64"
    and b2: "unat b2 = 128 + d2" "d2 < 64"
    and s: "s < 9" "s \<noteq> UTF8_ACCEPT" and nx: "utf8_next s (utf8_class (128 + d)) = 2"
  shows "utf8_decode_seq s (word_of_nat n) [b, b2] = Some (word_of_nat ((n * 64 + d) * 64 + d2))"
proof -
  have nx': "utf8_next s (utf8_class (unat b)) = 2" by (simp only: b(1) nx)
  have "utf8_decode_seq s (word_of_nat n) [b, b2]
      = utf8_decode_seq 2 (word_of_nat (n * 64 + unat b mod 64)) [b2]"
    using utf8_decode_seq_cont [OF s, of n b "[b2]"] n by (simp only: nx') simp
  also have "\<dots> = utf8_decode_seq 2 (word_of_nat (n * 64 + d)) [b2]"
    by (simp only: cont_byte_mod [OF b])
  also have "\<dots> = Some (word_of_nat ((n * 64 + d) * 64 + d2))"
    by (rule utf8_seq_2 [OF _ b2]) (use n b(2) in simp)
  finally show ?thesis .
qed

lemma utf8_seq_to_3:
  assumes n: "n < 2 ^ 14" and b: "unat b = 128 + d" "d < 64"
    and b2: "unat b2 = 128 + d2" "d2 < 64" and b3: "unat b3 = 128 + d3" "d3 < 64"
    and s: "s < 9" "s \<noteq> UTF8_ACCEPT" and nx: "utf8_next s (utf8_class (128 + d)) = 3"
  shows "utf8_decode_seq s (word_of_nat n) [b, b2, b3] =
           Some (word_of_nat (((n * 64 + d) * 64 + d2) * 64 + d3))"
proof -
  have nx': "utf8_next s (utf8_class (unat b)) = 3" by (simp only: b(1) nx)
  have c: "utf8_next 3 (utf8_class (128 + d2)) = 2"
    using utf8_class_cont [of "128 + d2"] b2(2) by (auto simp: utf8_next_def)
  have "utf8_decode_seq s (word_of_nat n) [b, b2, b3]
      = utf8_decode_seq 3 (word_of_nat (n * 64 + unat b mod 64)) [b2, b3]"
    using utf8_decode_seq_cont [OF s, of n b "[b2, b3]"] n by (simp only: nx') simp
  also have "\<dots> = utf8_decode_seq 3 (word_of_nat (n * 64 + d)) [b2, b3]"
    by (simp only: cont_byte_mod [OF b])
  also have "\<dots> = Some (word_of_nat (((n * 64 + d) * 64 + d2) * 64 + d3))"
    by (rule utf8_seq_to_2 [OF _ b2 b3 _ _ c]) (use n b(2) in simp_all)
  finally show ?thesis .
qed

text \<open>The four lengths of an encoding, in terms of the base 64 digits of the code point.\<close>

lemma encode_utf8_2:
  assumes "0x80 \<le> unat ch" and "unat ch < 0x800"
  shows "\<exists>b0 b1. encode_utf8 ch = [b0, b1] \<and> unat b0 = 0xC0 + unat ch div 64 \<and>
           unat b1 = 128 + unat ch mod 64"
proof -
  have "unat ch div 64 < 32" using assms by (simp add: less_mult_imp_div_less)
  then have "unat (ucast (drop_bit 6 ch OR 0xC0) :: u8) = 3 * 2 ^ 6 + unat (drop_bit 6 ch)"
    by (intro unat_lead_byte) (simp_all add: unat_drop_bit)
  with assms show ?thesis
    by (simp add: encode_utf8_def word_less_nat_alt unat_cont_byte unat_drop_bit)
qed

lemma encode_utf8_3:
  assumes "0x800 \<le> unat ch" and "unat ch < 0x10000"
  shows "\<exists>b0 b1 b2. encode_utf8 ch = [b0, b1, b2] \<and> unat b0 = 0xE0 + unat ch div 4096 \<and>
           unat b1 = 128 + unat ch div 64 mod 64 \<and> unat b2 = 128 + unat ch mod 64"
proof -
  have "unat ch div 4096 < 16" using assms by (simp add: less_mult_imp_div_less)
  then have "unat (ucast (drop_bit 12 ch OR 0xE0) :: u8) = 7 * 2 ^ 5 + unat (drop_bit 12 ch)"
    by (intro unat_lead_byte) (simp_all add: unat_drop_bit)
  with assms show ?thesis
    by (simp add: encode_utf8_def word_less_nat_alt unat_cont_byte unat_drop_bit)
qed

lemma encode_utf8_4:
  assumes "0x10000 \<le> unat ch" and "unat ch < 0x110000"
  shows "\<exists>b0 b1 b2 b3. encode_utf8 ch = [b0, b1, b2, b3] \<and> unat b0 = 0xF0 + unat ch div 262144 \<and>
           unat b1 = 128 + unat ch div 4096 mod 64 \<and> unat b2 = 128 + unat ch div 64 mod 64 \<and>
           unat b3 = 128 + unat ch mod 64"
proof -
  have "unat ch div 262144 < 5" using assms by (simp add: less_mult_imp_div_less)
  then have "unat (ucast (drop_bit 18 ch OR 0xF0) :: u8) = 15 * 2 ^ 4 + unat (drop_bit 18 ch)"
    by (intro unat_lead_byte) (simp_all add: unat_drop_bit)
  with assms show ?thesis
    by (simp add: encode_utf8_def word_less_nat_alt unat_cont_byte unat_drop_bit)
qed

section \<open>Decoding an encoded code point\<close>

lemma base64_digits3: "((n::nat) div 4096 * 64 + n div 64 mod 64) * 64 + n mod 64 = n"
proof -
  have "n div 4096 * 64 + n div 64 mod 64 = n div 64"
    using div_mult2_eq [of n 64 64] by simp
  then show ?thesis by simp
qed

lemma base64_digits4:
  "((((n::nat) div 262144 * 64 + n div 4096 mod 64) * 64 + n div 64 mod 64) * 64 + n mod 64) = n"
proof -
  have "n div 262144 * 64 + n div 4096 mod 64 = n div 4096"
    using div_mult2_eq [of n 4096 64] by simp
  then show ?thesis by (simp only: base64_digits3)
qed

lemma utf8_decode_seq_lead:
  assumes "unat b = l" and "utf8_next 0 (utf8_class l) = s" and "s \<notin> {UTF8_ACCEPT, UTF8_REJECT}"
    and "(if utf8_class l \<le> 8 then l mod 2 ^ (8 - utf8_class l) else 0) = v"
  shows "utf8_decode_seq UTF8_ACCEPT c (b # bs) = utf8_decode_seq s (word_of_nat v) bs"
  using assms(3) by (simp add: decode_utf8_lead assms(1,2) assms(4) [symmetric])

lemma utf8_encode_decode_1:
  assumes "unat ch < 0x80"
  shows "utf8_decode_seq UTF8_ACCEPT c (encode_utf8 ch) = Some ch"
proof -
  have b: "unat (ucast ch :: u8) = unat ch"
    using assms by (simp add: unsigned_ucast_eq take_bit_eq_mod)
  then have "decode_utf8 UTF8_ACCEPT c (ucast ch) = (0, word_of_nat (unat ch mod 256))"
    using assms by (simp add: decode_utf8_lead utf8_class_def utf8_next_def)
  moreover have "unat ch mod 256 = unat ch" using assms by simp
  ultimately show ?thesis
    using assms by (simp add: encode_utf8_def word_less_nat_alt)
qed

lemma utf8_encode_decode_2:
  assumes "0x80 \<le> unat ch" and "unat ch < 0x800"
  shows "utf8_decode_seq UTF8_ACCEPT c (encode_utf8 ch) = Some ch"
proof -
  define q where "q = unat ch div 64"
  have q: "2 \<le> q" "q < 32" using assms by (auto simp: q_def div_le_mono [of 128 _ 64, simplified] less_mult_imp_div_less)
  obtain b0 b1 where e: "encode_utf8 ch = [b0, b1]" "unat b0 = 192 + q" "unat b1 = 128 + unat ch mod 64"
    using encode_utf8_2 [OF assms] by (auto simp: q_def)
  have "utf8_decode_seq UTF8_ACCEPT c [b0, b1] = utf8_decode_seq 2 (word_of_nat q) [b1]"
  proof (rule utf8_decode_seq_lead [OF e(2)])
    have "(192 + q) mod 64 = q" using mod_mult_self2 [of q 64 3] q by (simp add: add.commute)
    then show "(if utf8_class (192 + q) \<le> 8 then (192 + q) mod 2 ^ (8 - utf8_class (192 + q)) else 0) = q"
      using q by (simp add: utf8_class_def)
  qed (use q in \<open>simp_all add: utf8_class_def utf8_next_def\<close>)
  also have "\<dots> = Some (word_of_nat (q * 64 + unat ch mod 64))"
    by (rule utf8_seq_2 [OF _ e(3)]) (use q in simp_all)
  finally show ?thesis by (simp add: e(1) q_def del: of_nat_add of_nat_mult)
qed

lemma utf8_encode_decode_3:
  assumes "0x800 \<le> unat ch" and "unat ch < 0x10000" and "\<not> (0xD800 \<le> unat ch \<and> unat ch \<le> 0xDFFF)"
  shows "utf8_decode_seq UTF8_ACCEPT c (encode_utf8 ch) = Some ch"
proof -
  define q d r where "q = unat ch div 4096" and "d = unat ch div 64 mod 64" and "r = unat ch mod 64"
  define s :: nat where "s = (if q = 0 then 4 else if q = 13 then 5 else 3)"
  have n: "unat ch = (q * 64 + d) * 64 + r"
    unfolding q_def d_def r_def by (rule base64_digits3 [symmetric])
  have q: "q < 16" using assms by (simp add: q_def less_mult_imp_div_less)
  have d: "d < 64" by (simp add: d_def)
  have m: "r < 64" by (simp add: r_def)
  have d0: "32 \<le> d" if "q = 0" using n assms(1) that m by simp
  have d13: "d < 32" if "q = 13" using n assms(3) that d m by simp
  obtain b0 b1 b2 where e: "encode_utf8 ch = [b0, b1, b2]" "unat b0 = 224 + q"
    "unat b1 = 128 + d" "unat b2 = 128 + r"
    using encode_utf8_3 [OF assms(1,2)] by (auto simp: q_def d_def r_def)
  have "utf8_decode_seq UTF8_ACCEPT c [b0, b1, b2] = utf8_decode_seq s (word_of_nat q) [b1, b2]"
  proof (rule utf8_decode_seq_lead [OF e(2)])
    have "(224 + q) mod 32 = q" "q = 13 \<Longrightarrow> (224 + q) mod 16 = q"
      using mod_mult_self2 [of q 32 7] q by (simp_all add: add.commute)
    then show "(if utf8_class (224 + q) \<le> 8 then (224 + q) mod 2 ^ (8 - utf8_class (224 + q)) else 0) = q"
      using q by (auto simp: utf8_class_def)
  qed (use q in \<open>auto simp: utf8_class_def utf8_next_def s_def\<close>)
  also have "\<dots> = Some (word_of_nat ((q * 64 + d) * 64 + r))"
  proof (rule utf8_seq_to_2 [OF _ e(3) d e(4) m])
    show "utf8_next s (utf8_class (128 + d)) = 2"
      using d d0 d13 by (cases "q = 0"; cases "q = 13") (simp_all add: s_def utf8_class_def utf8_next_def)
  qed (use q in \<open>simp_all add: s_def\<close>)
  also have "\<dots> = Some ch" by (simp only: n [symmetric]) simp
  finally show ?thesis by (simp only: e(1))
qed

lemma utf8_encode_decode_4:
  assumes "0x10000 \<le> unat ch" and "unat ch < 0x110000"
  shows "utf8_decode_seq UTF8_ACCEPT c (encode_utf8 ch) = Some ch"
proof -
  define q d e where "q = unat ch div 262144" and "d = unat ch div 4096 mod 64"
    and "e = unat ch div 64 mod 64"
  define r where "r = unat ch mod 64"
  define s :: nat where "s = (if q = 0 then 6 else if q = 4 then 8 else 7)"
  have n: "unat ch = ((q * 64 + d) * 64 + e) * 64 + r"
    unfolding q_def d_def e_def r_def by (rule base64_digits4 [symmetric])
  have q: "q < 5" using assms by (simp add: q_def less_mult_imp_div_less)
  have de: "d < 64" "e < 64" by (simp_all add: d_def e_def)
  have m: "r < 64" by (simp add: r_def)
  have d0: "16 \<le> d" if "q = 0" using n assms(1) that de m by simp
  have d4: "d < 16" if "q = 4" using n assms(2) that de m by simp
  obtain b0 b1 b2 b3 where b: "encode_utf8 ch = [b0, b1, b2, b3]" "unat b0 = 240 + q"
    "unat b1 = 128 + d" "unat b2 = 128 + e" "unat b3 = 128 + r"
    using encode_utf8_4 [OF assms(1,2)] by (auto simp: q_def d_def e_def r_def)
  have "utf8_decode_seq UTF8_ACCEPT c [b0, b1, b2, b3]
      = utf8_decode_seq s (word_of_nat q) [b1, b2, b3]"
  proof (rule utf8_decode_seq_lead [OF b(2)])
    have "q < 4 \<Longrightarrow> (240 + q) mod 4 = q" "(240 + q) mod 8 = q"
      using mod_mult_self2 [of q 4 60] mod_mult_self2 [of q 8 30] q by (simp_all add: add.commute)
    then show "(if utf8_class (240 + q) \<le> 8 then (240 + q) mod 2 ^ (8 - utf8_class (240 + q)) else 0) = q"
      using q by (auto simp: utf8_class_def)
  qed (use q in \<open>auto simp: utf8_class_def utf8_next_def s_def\<close>)
  also have "\<dots> = Some (word_of_nat (((q * 64 + d) * 64 + e) * 64 + r))"
  proof (rule utf8_seq_to_3 [OF _ b(3) de(1) b(4) de(2) b(5) m])
    show "utf8_next s (utf8_class (128 + d)) = 3"
      using de d0 d4 by (cases "q = 0"; cases "q = 4") (simp_all add: s_def utf8_class_def utf8_next_def)
  qed (use q in \<open>simp_all add: s_def\<close>)
  also have "\<dots> = Some ch" by (simp only: n [symmetric]) simp
  finally show ?thesis by (simp only: b(1))
qed

lemma utf8_encode_decode:
  assumes "unicode_scalar ch"
  shows "utf8_decode_seq UTF8_ACCEPT c (encode_utf8 ch) = Some ch"
proof -
  from assms have b: "unat ch < 0x110000" "\<not> (0xD800 \<le> unat ch \<and> unat ch \<le> 0xDFFF)"
    by (simp_all add: unicode_scalar_def word_less_nat_alt word_le_nat_alt)
  consider "unat ch < 0x80" | "0x80 \<le> unat ch" "unat ch < 0x800"
    | "0x800 \<le> unat ch" "unat ch < 0x10000" | "0x10000 \<le> unat ch" by linarith
  then show ?thesis
    using b by cases (blast intro: utf8_encode_decode_1 utf8_encode_decode_2 utf8_encode_decode_3
      utf8_encode_decode_4)+
qed

lemma decode_utf8_string_loop_encoded:
  assumes "list_all unicode_scalar chs" and "drop i src = concat (map encode_utf8 chs)" and "i \<le> length src"
  shows "decode_utf8_string_loop src i UTF8_ACCEPT c UTF8_ACCEPT dest = dest @ chs"
  using assms
proof (induction chs arbitrary: i c dest)
  case Nil
  then show ?case by (simp add: decode_utf8_string_loop.simps)
next
  case (Cons ch chs)
  let ?i = "i + length (encode_utf8 ch)"
  from Cons.prems(2) have src: "drop i src = encode_utf8 ch @ concat (map encode_utf8 chs)" by simp
  then have rest: "drop ?i src = concat (map encode_utf8 chs)"
    by (metis add.commute append_eq_conv_conj drop_drop)
  have le: "?i \<le> length src"
    using arg_cong [OF src, of length] Cons.prems(3) by simp
  have "decode_utf8_string_loop src i UTF8_ACCEPT c UTF8_ACCEPT dest
      = decode_utf8_string_loop src ?i UTF8_ACCEPT ch UTF8_ACCEPT (dest @ [ch])"
    using Cons.prems(1) by (intro decode_utf8_string_loop_seq [OF utf8_encode_decode src]) simp
  also have "\<dots> = (dest @ [ch]) @ chs"
    by (rule Cons.IH [OF _ rest le]) (use Cons.prems(1) in simp)
  finally show ?case by simp
qed

theorem utf8_string_roundtrip:
  "list_all unicode_scalar chs \<Longrightarrow> decode_utf8_string (concat (map encode_utf8 chs)) = chs"
  unfolding decode_utf8_string_def
  by (subst decode_utf8_string_loop_encoded [where chs = chs]) simp_all

theorem utf8_string_roundtrip_witness:
  "decode_utf8_string (concat (map encode_utf8 [0x41, 0xe9, 0x20ac, 0x1f600])) = [0x41, 0xe9, 0x20ac, 0x1f600]"
  by (rule utf8_string_roundtrip) (simp add: unicode_scalar_def)

lemma utf8_next_less: "utf8_next s t < 9"
  by (simp add: utf8_next_def)

section \<open>The decoder accepts only encodings\<close>

lemma cont_classD: "n < 256 \<Longrightarrow> utf8_class n \<in> {1, 7, 9} \<Longrightarrow> 128 \<le> n \<and> n < 192"
  "n < 256 \<Longrightarrow> utf8_class n = 7 \<Longrightarrow> 160 \<le> n \<and> n < 192"
  "n < 256 \<Longrightarrow> utf8_class n \<in> {1, 9} \<Longrightarrow> 128 \<le> n \<and> n < 160"
  "n < 256 \<Longrightarrow> utf8_class n \<in> {7, 9} \<Longrightarrow> 144 \<le> n \<and> n < 192"
  "n < 256 \<Longrightarrow> utf8_class n = 1 \<Longrightarrow> 128 \<le> n \<and> n < 144"
  by (auto simp: utf8_class_def split: if_splits)

text \<open>What a continuation byte adds: its low six bits as a digit.\<close>

lemma cont_digit:
  assumes "128 \<le> unat (b::u8)" and "unat b < 192"
  obtains d where "unat b = 128 + d" "d < 64" "unat b mod 64 = d"
proof
  show "unat b = 128 + (unat b - 128)" "unat b - 128 < 64" using assms by auto
  then show "unat b mod 64 = unat b - 128" by (rule cont_byte_mod)
qed

lemma seq2_inv:
  assumes "utf8_decode_seq 2 (word_of_nat n) bs = Some ch" and "n < 2 ^ 26"
  obtains b d where "bs = [b]" "unat b = 128 + d" "d < 64" "ch = word_of_nat (n * 64 + d)"
proof (cases bs)
  case Nil
  with assms show thesis by simp
next
  case (Cons b bs')
  have dec: "decode_utf8 2 (word_of_nat n) b
      = (utf8_next 2 (utf8_class (unat b)), word_of_nat (n * 64 + unat b mod 64))"
    using assms(2) by (intro decode_utf8_cont) simp_all
  have nx: "utf8_next 2 t \<noteq> 1 \<Longrightarrow> utf8_next 2 t = 0 \<and> t \<in> {1, 7, 9}" for t
    by (auto simp: utf8_next_def split: if_splits)
  have ne: "utf8_next 2 (utf8_class (unat b)) \<noteq> 1"
    using assms(1) dec Cons by (auto split: if_splits)
  with assms(1) dec Cons have bs: "bs = [b]" "ch = word_of_nat (n * 64 + unat b mod 64)"
    using nx by (auto split: if_splits)
  from nx [OF ne] have "128 \<le> unat b" "unat b < 192" using cont_classD(1) [of "unat b"] by auto
  then obtain d where "unat b = 128 + d" "d < 64" "unat b mod 64 = d" by (rule cont_digit)
  with bs show thesis by (intro that) simp_all
qed

lemma seq_cont_inv:
  assumes "utf8_decode_seq s (word_of_nat n) bs = Some ch" and "n < 2 ^ 26" and "s < 9" "s \<noteq> 0" "s \<noteq> 2"
    and nx: "\<And>t. utf8_next s t \<noteq> 1 \<Longrightarrow> utf8_next s t = s' \<and> t \<in> T"
    and s': "s' \<noteq> 0" "s' \<noteq> 1" and T: "T \<subseteq> {1, 7, 9}"
  obtains b bs' d where "bs = b # bs'" "unat b = 128 + d" "d < 64" "utf8_class (128 + d) \<in> T"
    "utf8_decode_seq s' (word_of_nat (n * 64 + d)) bs' = Some ch"
proof (cases bs)
  case Nil
  with assms show thesis by simp
next
  case (Cons b bs')
  have dec: "decode_utf8 s (word_of_nat n) b
      = (utf8_next s (utf8_class (unat b)), word_of_nat (n * 64 + unat b mod 64))"
    using assms by (intro decode_utf8_cont) simp_all
  have ne: "utf8_next s (utf8_class (unat b)) \<noteq> 1"
    using assms(1) dec Cons by (auto split: if_splits)
  with assms(1) dec Cons s' have seq: "utf8_decode_seq s' (word_of_nat (n * 64 + unat b mod 64)) bs' = Some ch"
    using nx by (auto split: if_splits)
  from nx [OF ne] T have c: "utf8_class (unat b) \<in> T" "utf8_class (unat b) \<in> {1, 7, 9}" by auto
  then have "128 \<le> unat b" "unat b < 192" using cont_classD(1) [of "unat b"] by auto
  then obtain d where "unat b = 128 + d" "d < 64" "unat b mod 64 = d" by (rule cont_digit)
  with Cons seq c show thesis by (intro that [of b bs' d]) simp_all
qed

lemma utf8_next_inv:
  "utf8_next 3 t \<noteq> 1 \<Longrightarrow> utf8_next 3 t = 2 \<and> t \<in> {1, 7, 9}"
  "utf8_next 4 t \<noteq> 1 \<Longrightarrow> utf8_next 4 t = 2 \<and> t \<in> {7}"
  "utf8_next 5 t \<noteq> 1 \<Longrightarrow> utf8_next 5 t = 2 \<and> t \<in> {1, 9}"
  "utf8_next 6 t \<noteq> 1 \<Longrightarrow> utf8_next 6 t = 3 \<and> t \<in> {7, 9}"
  "utf8_next 7 t \<noteq> 1 \<Longrightarrow> utf8_next 7 t = 3 \<and> t \<in> {1, 7, 9}"
  "utf8_next 8 t \<noteq> 1 \<Longrightarrow> utf8_next 8 t = 3 \<and> t \<in> {1}"
  by (auto simp: utf8_next_def split: if_splits)

lemma seq345_inv:
  assumes "utf8_decode_seq s (word_of_nat n) bs = Some ch" and "n < 2 ^ 20" and "s \<in> {3, 4, 5}"
  obtains b b2 d d2 where "bs = [b, b2]" "unat b = 128 + d" "d < 64" "unat b2 = 128 + d2" "d2 < 64"
    "ch = word_of_nat ((n * 64 + d) * 64 + d2)" "s = 4 \<Longrightarrow> 32 \<le> d" "s = 5 \<Longrightarrow> d < 32"
proof -
  have n26: "n < 2 ^ 26" using assms(2) by simp
  have "\<exists>b bs' d. bs = b # bs' \<and> unat b = 128 + d \<and> d < 64 \<and> (s = 4 \<longrightarrow> 32 \<le> d) \<and> (s = 5 \<longrightarrow> d < 32) \<and>
      utf8_decode_seq 2 (word_of_nat (n * 64 + d)) bs' = Some ch"
    using assms(3)
  proof (elim insertE emptyE)
    assume s: "s = 3"
    show ?thesis
      by (rule seq_cont_inv [OF assms(1) n26 _ _ _ utf8_next_inv(1) [folded s]]) (use s in auto)
  next
    assume s: "s = 4"
    show ?thesis
      by (rule seq_cont_inv [OF assms(1) n26 _ _ _ utf8_next_inv(2) [folded s]])
         (use s cont_classD(2) in \<open>auto simp: utf8_class_def split: if_splits\<close>)
  next
    assume s: "s = 5"
    show ?thesis
      by (rule seq_cont_inv [OF assms(1) n26 _ _ _ utf8_next_inv(3) [folded s]])
         (use s in \<open>auto simp: utf8_class_def split: if_splits\<close>)
  qed
  then obtain b bs' d where b: "bs = b # bs'" "unat b = 128 + d" "d < 64" "s = 4 \<Longrightarrow> 32 \<le> d" "s = 5 \<Longrightarrow> d < 32"
    and seq: "utf8_decode_seq 2 (word_of_nat (n * 64 + d)) bs' = Some ch" by blast
  from seq2_inv [OF seq] assms(2) b(3) obtain b2 d2 where
    "bs' = [b2]" "unat b2 = 128 + d2" "d2 < 64" "ch = word_of_nat ((n * 64 + d) * 64 + d2)" by auto
  with b show thesis by (intro that) simp_all
qed

lemma seq678_inv:
  assumes "utf8_decode_seq s (word_of_nat n) bs = Some ch" and "n < 2 ^ 14" and "s \<in> {6, 7, 8}"
  obtains b b2 b3 d d2 d3 where "bs = [b, b2, b3]" "unat b = 128 + d" "d < 64"
    "unat b2 = 128 + d2" "d2 < 64" "unat b3 = 128 + d3" "d3 < 64"
    "ch = word_of_nat (((n * 64 + d) * 64 + d2) * 64 + d3)" "s = 6 \<Longrightarrow> 16 \<le> d" "s = 8 \<Longrightarrow> d < 16"
proof -
  have n26: "n < 2 ^ 26" using assms(2) by simp
  have "\<exists>b bs' d. bs = b # bs' \<and> unat b = 128 + d \<and> d < 64 \<and> (s = 6 \<longrightarrow> 16 \<le> d) \<and> (s = 8 \<longrightarrow> d < 16) \<and>
      utf8_decode_seq 3 (word_of_nat (n * 64 + d)) bs' = Some ch"
    using assms(3)
  proof (elim insertE emptyE)
    assume s: "s = 7"
    show ?thesis
      by (rule seq_cont_inv [OF assms(1) n26 _ _ _ utf8_next_inv(5) [folded s]]) (use s in auto)
  next
    assume s: "s = 6"
    show ?thesis
      by (rule seq_cont_inv [OF assms(1) n26 _ _ _ utf8_next_inv(4) [folded s]])
         (use s in \<open>auto simp: utf8_class_def split: if_splits\<close>)
  next
    assume s: "s = 8"
    show ?thesis
      by (rule seq_cont_inv [OF assms(1) n26 _ _ _ utf8_next_inv(6) [folded s]])
         (use s in \<open>auto simp: utf8_class_def split: if_splits\<close>)
  qed
  then obtain b bs' d where b: "bs = b # bs'" "unat b = 128 + d" "d < 64" "s = 6 \<Longrightarrow> 16 \<le> d" "s = 8 \<Longrightarrow> d < 16"
    and seq: "utf8_decode_seq 3 (word_of_nat (n * 64 + d)) bs' = Some ch" by blast
  have lt: "n * 64 + d < 2 ^ 20" using assms(2) b(3) by simp
  show thesis
  proof (rule seq345_inv [OF seq lt])
    fix b2 b3 d2 d3
    assume "bs' = [b2, b3]" "unat b2 = 128 + d2" "d2 < 64" "unat b3 = 128 + d3" "d3 < 64"
      "ch = word_of_nat (((n * 64 + d) * 64 + d2) * 64 + d3)"
    with b show thesis by (intro that) simp_all
  qed simp
qed

text \<open>A byte list is the encoding of a code point once its bytes have the right values.\<close>

lemma encode_utf8_eqI:
  assumes "map unat (encode_utf8 ch) = map unat bs"
  shows "encode_utf8 ch = bs"
proof -
  have "inj (unat :: u8 \<Rightarrow> nat)" by (rule injI) (simp add: word_unat_eq_iff)
  then show ?thesis using assms by (simp add: inj_map_eq_map)
qed

lemma utf8_next_0_inv:
  assumes "n < 256" and "utf8_next 0 (utf8_class n) \<noteq> 1"
  shows "n < 0x80 \<and> utf8_next 0 (utf8_class n) = 0 \<and> utf8_class n = 0
    \<or> (\<exists>q. n = 192 + q \<and> 2 \<le> q \<and> q < 32 \<and> utf8_next 0 (utf8_class n) = 2 \<and> utf8_class n = 2)
    \<or> (\<exists>q. n = 224 + q \<and> q < 16 \<and> utf8_next 0 (utf8_class n) = (if q = 0 then 4 else if q = 13 then 5 else 3) \<and>
           utf8_class n = (if q = 0 then 10 else if q = 13 then 4 else 3))
    \<or> (\<exists>q. n = 240 + q \<and> q < 5 \<and> utf8_next 0 (utf8_class n) = (if q = 0 then 6 else if q = 4 then 8 else 7) \<and>
           utf8_class n = (if q = 0 then 11 else if q = 4 then 5 else 6))"
proof -
  have "n < 0x80 \<or> (\<exists>q. n = 192 + q \<and> 2 \<le> q \<and> q < 32) \<or> (\<exists>q. n = 224 + q \<and> q < 16) \<or> (\<exists>q. n = 240 + q \<and> q < 5)"
    using assms by (auto simp: utf8_class_def utf8_next_def split: if_splits intro: le_Suc_ex
        exI [of _ "n - 192"] exI [of _ "n - 224"] exI [of _ "n - 240"])
  then show ?thesis
    by (elim disjE exE) (simp_all add: utf8_class_def utf8_next_def)
qed

lemma digits_div_mod:
  assumes "d < (64::nat)" shows "(m * 64 + d) div 64 = m" and "(m * 64 + d) mod 64 = d"
  using assms by simp_all

lemma digits_div_4096: "d < (64::nat) \<Longrightarrow> e < 64 \<Longrightarrow> ((m * 64 + d) * 64 + e) div 4096 = m"
  using div_mult2_eq [of "(m * 64 + d) * 64 + e" 64 64] by (simp only: digits_div_mod) simp

lemma digits_div_262144:
  "d < (64::nat) \<Longrightarrow> e < 64 \<Longrightarrow> f < 64 \<Longrightarrow> (((m * 64 + d) * 64 + e) * 64 + f) div 262144 = m"
  using div_mult2_eq [of "((m * 64 + d) * 64 + e) * 64 + f" 64 4096]
  by (simp only: digits_div_mod digits_div_4096) simp

lemma utf8_decode_seq_exact_2:
  assumes b: "unat b0 = 192 + q" "2 \<le> q" "q < 32" "unat b1 = 128 + d" "d < 64"
    and ch: "unat ch = q * 64 + d"
  shows "unicode_scalar ch \<and> encode_utf8 ch = [b0, b1]"
proof
  have n: "0x80 \<le> unat ch" "unat ch < 0x800" using b ch by linarith+
  then show "unicode_scalar ch" by (simp add: unicode_scalar_def word_less_nat_alt word_le_nat_alt)
  show "encode_utf8 ch = [b0, b1]"
    by (rule encode_utf8_eqI) (use encode_utf8_2 [OF n] b in \<open>auto simp: ch\<close>)
qed

lemma utf8_decode_seq_exact_3:
  assumes b: "unat b0 = 224 + q" "q < 16" "unat b1 = 128 + d" "d < 64" "unat b2 = 128 + d2" "d2 < 64"
    and qd: "q = 0 \<Longrightarrow> 32 \<le> d" "q = 13 \<Longrightarrow> d < 32"
    and ch: "unat ch = (q * 64 + d) * 64 + d2"
  shows "unicode_scalar ch \<and> encode_utf8 ch = [b0, b1, b2]"
proof
  have n: "0x800 \<le> unat ch" "unat ch < 0x10000" using b qd(1) ch by (cases "q = 0"; simp)+
  have "unat ch < 0xD800 \<or> 0xE000 \<le> unat ch"
  proof (rule linorder_cases [of q 13])
    assume "q = 13" then show ?thesis using b qd(2) ch by simp
  qed (use b ch in auto)
  with n show "unicode_scalar ch" by (auto simp: unicode_scalar_def word_less_nat_alt word_le_nat_alt)
  have d: "unat ch div 4096 = q" "unat ch div 64 mod 64 = d" "unat ch mod 64 = d2"
    using b unfolding ch by (simp_all only: digits_div_mod digits_div_4096)
  show "encode_utf8 ch = [b0, b1, b2]"
    by (rule encode_utf8_eqI) (use encode_utf8_3 [OF n] b in \<open>auto simp: d\<close>)
qed

lemma utf8_decode_seq_exact_4:
  assumes b: "unat b0 = 240 + q" "q < 5" "unat b1 = 128 + d" "d < 64" "unat b2 = 128 + d2" "d2 < 64"
      "unat b3 = 128 + d3" "d3 < 64"
    and qd: "q = 0 \<Longrightarrow> 16 \<le> d" "q = 4 \<Longrightarrow> d < 16"
    and ch: "unat ch = ((q * 64 + d) * 64 + d2) * 64 + d3"
  shows "unicode_scalar ch \<and> encode_utf8 ch = [b0, b1, b2, b3]"
proof
  have n: "0x10000 \<le> unat ch" using b qd(1) ch by (cases "q = 0"; simp)
  have n': "unat ch < 0x110000" using b qd(2) ch by (cases "q = 4"; simp)
  from n n' show "unicode_scalar ch" by (auto simp: unicode_scalar_def word_less_nat_alt word_le_nat_alt)
  have d: "unat ch div 262144 = q" "unat ch div 4096 mod 64 = d" "unat ch div 64 mod 64 = d2" "unat ch mod 64 = d3"
    using b unfolding ch by (simp_all only: digits_div_mod digits_div_4096 digits_div_262144)
  show "encode_utf8 ch = [b0, b1, b2, b3]"
    by (rule encode_utf8_eqI) (use encode_utf8_4 [OF n n'] b in \<open>auto simp: d\<close>)
qed

lemma utf8_exact_from_2:
  assumes b: "unat b = 192 + q" "2 \<le> q" "q < 32"
    and seq: "utf8_decode_seq 2 (word_of_nat q) bs = Some ch"
  shows "unicode_scalar ch \<and> encode_utf8 ch = b # bs"
proof (rule seq2_inv [OF seq])
  fix b1 d
  assume h: "bs = [b1]" "unat b1 = 128 + d" "d < 64" "ch = word_of_nat (q * 64 + d)"
  have "unat ch = q * 64 + d" unfolding h(4) using b h by (intro unat_word_of_nat_u32) simp
  from utf8_decode_seq_exact_2 [OF b h(2,3) this] show ?thesis by (simp add: h(1))
qed (use b in simp)

lemma utf8_exact_from_345:
  assumes b: "unat b = 224 + q" "q < 16" and s: "s = (if q = 0 then 4 else if q = 13 then 5 else 3)"
    and seq: "utf8_decode_seq s (word_of_nat q) bs = Some ch"
  shows "unicode_scalar ch \<and> encode_utf8 ch = b # bs"
proof (rule seq345_inv [OF seq])
  fix b1 b2 d d2
  assume h: "bs = [b1, b2]" "unat b1 = 128 + d" "d < 64" "unat b2 = 128 + d2" "d2 < 64"
    "ch = word_of_nat ((q * 64 + d) * 64 + d2)" "s = 4 \<Longrightarrow> 32 \<le> d" "s = 5 \<Longrightarrow> d < 32"
  have "unat ch = (q * 64 + d) * 64 + d2" unfolding h(6) using b h by (intro unat_word_of_nat_u32) simp
  then have "unicode_scalar ch \<and> encode_utf8 ch = [b, b1, b2]"
    by (intro utf8_decode_seq_exact_3 [OF b h(2-5)]) (use h(7,8) s in auto)
  then show ?thesis by (simp add: h(1))
qed (use b s in auto)

lemma utf8_exact_from_678:
  assumes b: "unat b = 240 + q" "q < 5" and s: "s = (if q = 0 then 6 else if q = 4 then 8 else 7)"
    and seq: "utf8_decode_seq s (word_of_nat q) bs = Some ch"
  shows "unicode_scalar ch \<and> encode_utf8 ch = b # bs"
proof (rule seq678_inv [OF seq])
  fix b1 b2 b3 d d2 d3
  assume h: "bs = [b1, b2, b3]" "unat b1 = 128 + d" "d < 64" "unat b2 = 128 + d2" "d2 < 64"
    "unat b3 = 128 + d3" "d3 < 64" "ch = word_of_nat (((q * 64 + d) * 64 + d2) * 64 + d3)"
    "s = 6 \<Longrightarrow> 16 \<le> d" "s = 8 \<Longrightarrow> d < 16"
  have "unat ch = ((q * 64 + d) * 64 + d2) * 64 + d3"
    unfolding h(8) using b h by (intro unat_word_of_nat_u32) simp
  then have "unicode_scalar ch \<and> encode_utf8 ch = [b, b1, b2, b3]"
    by (intro utf8_decode_seq_exact_4 [OF b h(2-7)]) (use h(9,10) s in auto)
  then show ?thesis by (simp add: h(1))
qed (use b s in auto)

lemma utf8_exact_from_ascii:
  assumes "unat b < 0x80"
  shows "unicode_scalar (ucast b) \<and> encode_utf8 (ucast b) = [b]"
proof -
  have "ucast (ucast b :: u32) = b" by (rule bit_word_eqI) (auto simp: bit_simps)
  then show ?thesis
    using assms by (simp add: unicode_scalar_def encode_utf8_def word_less_nat_alt word_le_nat_alt)
qed

lemma utf8_exact_forward:
  assumes seq: "utf8_decode_seq UTF8_ACCEPT c (b # bs) = Some ch"
  shows "unicode_scalar ch \<and> encode_utf8 ch = b # bs"
proof -
  let ?t = "utf8_class (unat b)"
  let ?v = "if ?t \<le> 8 then unat b mod 2 ^ (8 - ?t) else 0"
  have ne: "utf8_next 0 ?t \<noteq> 1"
    using seq by (auto simp: decode_utf8_lead split: if_splits)
  have seq': "utf8_next 0 ?t \<noteq> 0 \<Longrightarrow> utf8_decode_seq (utf8_next 0 ?t) (word_of_nat ?v) bs = Some ch"
    using seq ne by (simp add: decode_utf8_lead)
  from utf8_next_0_inv [OF unat_less_256 ne] show ?thesis
  proof (elim disjE exE conjE)
    assume b: "unat b < 0x80" "utf8_next 0 ?t = 0" "?t = 0"
    have "unat b mod 256 = unat b" by (rule mod_less) (rule unat_less_256)
    with b seq have "bs = []" and "ch = ucast b"
      by (auto simp: decode_utf8_lead split: if_splits)
    with utf8_exact_from_ascii [OF b(1)] show ?thesis by simp
  next
    fix q assume b: "unat b = 192 + q" "2 \<le> q" "q < 32" "utf8_next 0 ?t = 2" "?t = 2"
    have "(192 + q) mod 64 = q" using mod_mult_self2 [of q 64 3] b(3) by (simp add: add.commute)
    with b seq' show ?thesis by (intro utf8_exact_from_2 [OF b(1-3)]) simp
  next
    fix q assume b: "unat b = 224 + q" "q < 16" and
      n: "utf8_next 0 ?t = (if q = 0 then 4 else if q = 13 then 5 else 3)"
      and t: "?t = (if q = 0 then 10 else if q = 13 then 4 else 3)"
    have "?v = q" using b t mod_mult_self2 [of q 32 7] by (auto simp: add.commute)
    with n seq' show ?thesis by (intro utf8_exact_from_345 [OF b n]) (simp split: if_splits)
  next
    fix q assume b: "unat b = 240 + q" "q < 5" and
      n: "utf8_next 0 ?t = (if q = 0 then 6 else if q = 4 then 8 else 7)"
      and t: "?t = (if q = 0 then 11 else if q = 4 then 5 else 6)"
    have "?v = q"
      using b t mod_mult_self2 [of q 4 60] mod_mult_self2 [of q 8 30] by (auto simp: add.commute)
    with n seq' show ?thesis by (intro utf8_exact_from_678 [OF b n]) (simp split: if_splits)
  qed
qed

lemma length_encode_utf8: "length (encode_utf8 c) \<le> 4"
  by (simp add: encode_utf8_def)

text \<open>
  C35: The DFA of decode_utf8, run from the accepting state over a byte sequence, accepts with
  value ch exactly when the bytes are the encoding of a Unicode scalar value ch: no overlong form,
  no surrogate and no value above 0x10FFFF is accepted, and no valid sequence is rejected.
\<close>

theorem utf8_decode_seq_exact:
  "(utf8_decode_seq UTF8_ACCEPT c bs = Some ch) = (unicode_scalar ch \<and> encode_utf8 ch = bs)"
proof
  assume seq: "utf8_decode_seq UTF8_ACCEPT c bs = Some ch"
  then obtain b bs' where "bs = b # bs'" by (cases bs) simp_all
  with seq utf8_exact_forward show "unicode_scalar ch \<and> encode_utf8 ch = bs" by blast
next
  assume "unicode_scalar ch \<and> encode_utf8 ch = bs"
  with utf8_encode_decode show "utf8_decode_seq UTF8_ACCEPT c bs = Some ch" by blast
qed

end
