(* ===== verification/Cells.thy ===== *)
theory Cells
  imports Prelude
begin

text \<open>
  The cell and cursor data of \<^verbatim>\<open>smelly/data-types.h\<close> and the operations of \<^verbatim>\<open>smelly/cursor.c\<close>:
  cell attributes, GPU and CPU cells, the cursor, and the interpretation of SGR parameters on
  the cursor (\<open>cursor_from_sgr\<close>) and on a range of cells (\<open>apply_sgr_to_cells\<close>). A read of the
  parameter array at or beyond its count is the value \<open>None\<close>; the lemmas show that it never
  happens, and that both interpretations agree.
\<close>

section \<open>Cells and the cursor\<close>

text \<open>\<^verbatim>\<open>CellAttrs\<close>: a bit field of 13 bits. \<open>a_wrapped\<close> is \<^verbatim>\<open>next_char_was_wrapped\<close>.\<close>

record cell_attrs =
  a_width :: "2 word"
  a_decoration :: "3 word"
  a_bold :: bool
  a_italic :: bool
  a_reverse :: bool
  a_strike :: bool
  a_dim :: bool
  a_mark :: "2 word"
  a_wrapped :: bool

definition zero_attrs :: cell_attrs where
  "zero_attrs = \<lparr>a_width = 0, a_decoration = 0, a_bold = False, a_italic = False,
     a_reverse = False, a_strike = False, a_dim = False, a_mark = 0, a_wrapped = False\<rparr>"

text \<open>The same attributes as the 16 bit member \<^verbatim>\<open>val\<close> of the union, and the mask \<^verbatim>\<open>SGR_MASK\<close>.\<close>

definition attrs_val :: "cell_attrs \<Rightarrow> u16" where
  "attrs_val a = ucast (a_width a) OR push_bit 2 (ucast (a_decoration a))
     OR push_bit 5 (of_bool (a_bold a)) OR push_bit 6 (of_bool (a_italic a))
     OR push_bit 7 (of_bool (a_reverse a)) OR push_bit 8 (of_bool (a_strike a))
     OR push_bit 9 (of_bool (a_dim a)) OR push_bit 10 (ucast (a_mark a))
     OR push_bit 12 (of_bool (a_wrapped a))"

definition SGR_MASK :: u16 where
  "SGR_MASK = NOT (attrs_val (zero_attrs\<lparr>a_width := 3, a_mark := 3, a_wrapped := True\<rparr>))"

text \<open>\<^verbatim>\<open>attrs.val & SGR_MASK\<close> and \<^verbatim>\<open>attrs.val & ~SGR_MASK\<close> on the fields.\<close>

definition sgr_part :: "cell_attrs \<Rightarrow> cell_attrs" where
  "sgr_part a = a\<lparr>a_width := 0, a_mark := 0, a_wrapped := False\<rparr>"

definition non_sgr_part :: "cell_attrs \<Rightarrow> cell_attrs" where
  "non_sgr_part a =
     zero_attrs\<lparr>a_width := a_width a, a_mark := a_mark a, a_wrapped := a_wrapped a\<rparr>"

record gpu_cell =
  g_fg :: color_type
  g_bg :: color_type
  g_decoration_fg :: color_type
  g_sprite_x :: sprite_index
  g_sprite_y :: sprite_index
  g_sprite_z :: sprite_index
  g_attrs :: cell_attrs

definition zero_gpu_cell :: gpu_cell where
  "zero_gpu_cell = \<lparr>g_fg = 0, g_bg = 0, g_decoration_fg = 0,
     g_sprite_x = 0, g_sprite_y = 0, g_sprite_z = 0, g_attrs = zero_attrs\<rparr>"

text \<open>\<open>p_cc\<close> holds the three entries of \<^verbatim>\<open>cc_idx\<close>.\<close>

record cpu_cell =
  p_ch :: char_type
  p_hyperlink_id :: hyperlink_id_type
  p_cc0 :: combining_type
  p_cc1 :: combining_type
  p_cc2 :: combining_type

definition zero_cpu_cell :: cpu_cell where
  "zero_cpu_cell = \<lparr>p_ch = 0, p_hyperlink_id = 0, p_cc0 = 0, p_cc1 = 0, p_cc2 = 0\<rparr>"

abbreviation (input) BLANK_CHAR :: char_type where "BLANK_CHAR \<equiv> 0"

datatype cursor_shape = NO_CURSOR_SHAPE | CURSOR_BLOCK | CURSOR_BEAM | CURSOR_UNDERLINE | NUM_OF_CURSOR_SHAPES

record cursor =
  c_bold :: bool
  c_italic :: bool
  c_reverse :: bool
  c_strikethrough :: bool
  c_dim :: bool
  c_non_blinking :: bool
  c_x :: nat
  c_y :: nat
  c_decoration :: u8
  c_shape :: cursor_shape
  c_fg :: color_type
  c_bg :: color_type
  c_decoration_fg :: color_type

definition zero_cursor :: cursor where
  "zero_cursor = \<lparr>c_bold = False, c_italic = False, c_reverse = False, c_strikethrough = False,
     c_dim = False, c_non_blinking = False, c_x = 0, c_y = 0, c_decoration = 0,
     c_shape = NO_CURSOR_SHAPE, c_fg = 0, c_bg = 0, c_decoration_fg = 0\<rparr>"

definition cursor_to_attrs :: "cursor \<Rightarrow> u16 \<Rightarrow> cell_attrs" where
  "cursor_to_attrs c width =
     \<lparr>a_width = ucast width, a_decoration = ucast (c_decoration c), a_bold = c_bold c,
      a_italic = c_italic c, a_reverse = c_reverse c, a_strike = c_strikethrough c,
      a_dim = c_dim c, a_mark = 0, a_wrapped = False\<rparr>"

definition attrs_to_cursor :: "cell_attrs \<Rightarrow> cursor \<Rightarrow> cursor" where
  "attrs_to_cursor a c =
     c\<lparr>c_decoration := ucast (a_decoration a), c_bold := a_bold a, c_italic := a_italic a,
       c_reverse := a_reverse a, c_strikethrough := a_strike a, c_dim := a_dim a\<rparr>"

definition cursor_reset_display_attrs :: "cursor \<Rightarrow> cursor" where
  "cursor_reset_display_attrs c =
     c\<lparr>c_bg := 0, c_fg := 0, c_decoration_fg := 0, c_decoration := 0, c_bold := False,
       c_italic := False, c_reverse := False, c_strikethrough := False, c_dim := False\<rparr>"

definition cursor_reset :: "cursor \<Rightarrow> cursor" where
  "cursor_reset c =
     (cursor_reset_display_attrs c)\<lparr>c_x := 0, c_y := 0, c_shape := NO_CURSOR_SHAPE,
       c_non_blinking := False\<rparr>"

definition cursor_copy_to :: "cursor \<Rightarrow> cursor \<Rightarrow> cursor" where
  "cursor_copy_to src dest =
     dest\<lparr>c_x := c_x src, c_y := c_y src, c_shape := c_shape src,
       c_non_blinking := c_non_blinking src, c_bold := c_bold src, c_italic := c_italic src,
       c_strikethrough := c_strikethrough src, c_dim := c_dim src, c_reverse := c_reverse src,
       c_decoration := c_decoration src, c_fg := c_fg src, c_bg := c_bg src,
       c_decoration_fg := c_decoration_fg src\<rparr>"

definition cursor_eq :: "cursor \<Rightarrow> cursor \<Rightarrow> bool" where
  "cursor_eq a b = (c_bold a = c_bold b \<and> c_italic a = c_italic b
     \<and> c_strikethrough a = c_strikethrough b \<and> c_dim a = c_dim b \<and> c_reverse a = c_reverse b
     \<and> c_decoration a = c_decoration b \<and> c_fg a = c_fg b \<and> c_bg a = c_bg b
     \<and> c_decoration_fg a = c_decoration_fg b \<and> c_x a = c_x b \<and> c_y a = c_y b
     \<and> c_shape a = c_shape b \<and> c_non_blinking a = c_non_blinking b)"

section \<open>SGR parameters\<close>

text \<open>Reading \<^verbatim>\<open>params[i]\<close>, which must lie below \<^verbatim>\<open>count\<close>.\<close>

definition read_param :: "int list \<Rightarrow> nat \<Rightarrow> int option" where
  "read_param params i = (if i < length params then Some (params ! i) else None)"

abbreviation (input) param_byte :: "int \<Rightarrow> u32" where
  "param_byte p \<equiv> word_of_int p AND 0xFF"

text \<open>
  \<^verbatim>\<open>parse_color\<close> returns the advanced index and the colour. The subtractions are on
  \<^verbatim>\<open>unsigned int\<close>.
\<close>

definition parse_color :: "int list \<Rightarrow> nat \<Rightarrow> color_type \<Rightarrow> (nat \<times> color_type) option" where
  "parse_color params i result =
     (let count = length params in
      if i < count then
        Option.bind (read_param params i) (\<lambda>attr.
        let i = i + 1 in
        if attr = 5 then
          (if i < count then
             Option.bind (read_param params i) (\<lambda>p. Some (i + 1, push_bit 8 (param_byte p) OR 1))
           else Some (i, result))
        else if attr = 2 then
          (if i < usub32 count 2 then
             (let i = (if i < usub32 count 3 then i + 1 else i) in
              Option.bind (read_param params i) (\<lambda>r.
              Option.bind (read_param params (i + 1)) (\<lambda>g.
              Option.bind (read_param params (i + 2)) (\<lambda>b.
                Some (i + 3, push_bit 24 (param_byte r) OR push_bit 16 (param_byte g)
                             OR push_bit 8 (param_byte b) OR 2)))))
           else Some (i, result))
        else Some (i, result))
      else Some (i, result))"

text \<open>The colour \<^verbatim>\<open>((attr - base + offset) << 8) | 1\<close> of the palette.\<close>

definition indexed_color :: "int \<Rightarrow> color_type" where
  "indexed_color n = push_bit 8 (word_of_int n) OR 1"

abbreviation (input) DECORATION_FG_CODE :: int where "DECORATION_FG_CODE \<equiv> 58"

text \<open>One round of the loop of \<^verbatim>\<open>cursor_from_sgr\<close>: the parameter at \<open>i\<close> and those it consumes.\<close>

definition cursor_sgr_step :: "int list \<Rightarrow> nat \<Rightarrow> cursor \<Rightarrow> (nat \<times> cursor) option" where
  "cursor_sgr_step params i c =
     Option.bind (read_param params i) (\<lambda>attr.
     let i = i + 1 in
     if attr = 0 then Some (i, cursor_reset_display_attrs c)
     else if attr = 1 then Some (i, c\<lparr>c_bold := True\<rparr>)
     else if attr = 2 then Some (i, c\<lparr>c_dim := True\<rparr>)
     else if attr = 3 then Some (i, c\<lparr>c_italic := True\<rparr>)
     else if attr = 4 then
       (if i < length params
        then Option.bind (read_param params i) (\<lambda>p. Some (i + 1, c\<lparr>c_decoration := word_of_int (min 5 p)\<rparr>))
        else Some (i, c\<lparr>c_decoration := 1\<rparr>))
     else if attr = 7 then Some (i, c\<lparr>c_reverse := True\<rparr>)
     else if attr = 9 then Some (i, c\<lparr>c_strikethrough := True\<rparr>)
     else if attr = 21 then Some (i, c\<lparr>c_decoration := 2\<rparr>)
     else if attr = 22 then Some (i, c\<lparr>c_bold := False, c_dim := False\<rparr>)
     else if attr = 23 then Some (i, c\<lparr>c_italic := False\<rparr>)
     else if attr = 24 then Some (i, c\<lparr>c_decoration := 0\<rparr>)
     else if attr = 27 then Some (i, c\<lparr>c_reverse := False\<rparr>)
     else if attr = 29 then Some (i, c\<lparr>c_strikethrough := False\<rparr>)
     else if 30 \<le> attr \<and> attr \<le> 37 then Some (i, c\<lparr>c_fg := indexed_color (attr - 30)\<rparr>)
     else if attr = 38 then map_option (\<lambda>(i, col). (i, c\<lparr>c_fg := col\<rparr>)) (parse_color params i (c_fg c))
     else if attr = 39 then Some (i, c\<lparr>c_fg := 0\<rparr>)
     else if 40 \<le> attr \<and> attr \<le> 47 then Some (i, c\<lparr>c_bg := indexed_color (attr - 40)\<rparr>)
     else if attr = 48 then map_option (\<lambda>(i, col). (i, c\<lparr>c_bg := col\<rparr>)) (parse_color params i (c_bg c))
     else if attr = 49 then Some (i, c\<lparr>c_bg := 0\<rparr>)
     else if 90 \<le> attr \<and> attr \<le> 97 then Some (i, c\<lparr>c_fg := indexed_color (attr - 90 + 8)\<rparr>)
     else if 100 \<le> attr \<and> attr \<le> 107 then Some (i, c\<lparr>c_bg := indexed_color (attr - 100 + 8)\<rparr>)
     else if attr = DECORATION_FG_CODE then
       map_option (\<lambda>(i, col). (i, c\<lparr>c_decoration_fg := col\<rparr>)) (parse_color params i (c_decoration_fg c))
     else if attr = DECORATION_FG_CODE + 1 then Some (i, c\<lparr>c_decoration_fg := 0\<rparr>)
     else Some (i, c))"

lemma parse_color_index: "parse_color params i col = Some (j, col') \<Longrightarrow> i \<le> j"
  by (auto simp: parse_color_def Let_def Option.bind_eq_Some_conv split: if_splits)

lemma cursor_sgr_step_index: "cursor_sgr_step params i c = Some (j, c') \<Longrightarrow> i < j"
  unfolding cursor_sgr_step_def
  by (auto simp: Let_def Option.bind_eq_Some_conv dest!: parse_color_index split: if_splits)

function cursor_sgr_loop :: "int list \<Rightarrow> nat \<Rightarrow> cursor \<Rightarrow> cursor option" where
  "cursor_sgr_loop params i c =
     (if i < length params then
        (case cursor_sgr_step params i c of
           None \<Rightarrow> None
         | Some (j, c') \<Rightarrow> cursor_sgr_loop params j c')
      else Some c)"
  by pat_completeness auto
termination
  by (relation "measure (\<lambda>(params, i, c). length params - i)") (auto dest: cursor_sgr_step_index)

declare cursor_sgr_loop.simps [simp del]

text \<open>An empty parameter list stands for the single parameter 0.\<close>

definition cursor_from_sgr :: "cursor \<Rightarrow> int list \<Rightarrow> cursor option" where
  "cursor_from_sgr c params = cursor_sgr_loop (if params = [] then [0] else params) 0 c"

section \<open>SGR on a range of cells\<close>

text \<open>
  \<^verbatim>\<open>apply_sgr_to_cells\<close>: every parameter is applied to all cells of the range before the next one
  is read. A colour is only stored when \<^verbatim>\<open>parse_color\<close> found one.
\<close>

definition cell_set_attrs :: "(cell_attrs \<Rightarrow> cell_attrs) \<Rightarrow> gpu_cell \<Rightarrow> gpu_cell" where
  "cell_set_attrs f g = g\<lparr>g_attrs := f (g_attrs g)\<rparr>"

definition cell_set_color ::
  "((color_type \<Rightarrow> color_type) \<Rightarrow> gpu_cell \<Rightarrow> gpu_cell) \<Rightarrow> int list \<Rightarrow> nat \<Rightarrow> gpu_cell list
     \<Rightarrow> (nat \<times> gpu_cell list) option" where
  "cell_set_color upd params i cells =
     Option.bind (parse_color params i 0) (\<lambda>(i, color).
       Some (i, if color \<noteq> 0 then map (upd (\<lambda>_. color)) cells else cells))"

definition cell_sgr_step :: "int list \<Rightarrow> nat \<Rightarrow> gpu_cell list \<Rightarrow> (nat \<times> gpu_cell list) option" where
  "cell_sgr_step params i cells =
     Option.bind (read_param params i) (\<lambda>attr.
     let i = i + 1;
         S = (\<lambda>f. Some (i, map (cell_set_attrs f) cells));
         SIMPLE = (\<lambda>upd. Some (i, map upd cells))
     in
     if attr = 0 then SIMPLE (\<lambda>g. g\<lparr>g_attrs := non_sgr_part (g_attrs g), g_fg := 0, g_bg := 0, g_decoration_fg := 0\<rparr>)
     else if attr = 1 then S (a_bold_update (\<lambda>_. True))
     else if attr = 2 then S (a_dim_update (\<lambda>_. True))
     else if attr = 3 then S (a_italic_update (\<lambda>_. True))
     else if attr = 4 then
       (if i < length params
        then Option.bind (read_param params i) (\<lambda>p.
          Some (i + 1, map (cell_set_attrs (a_decoration_update (\<lambda>_. ucast (word_of_int (min 5 p) :: u8)))) cells))
        else S (a_decoration_update (\<lambda>_. 1)))
     else if attr = 7 then S (a_reverse_update (\<lambda>_. True))
     else if attr = 9 then S (a_strike_update (\<lambda>_. True))
     else if attr = 21 then S (a_decoration_update (\<lambda>_. 2))
     else if attr = 22 then S (\<lambda>a. a\<lparr>a_bold := False, a_dim := False\<rparr>)
     else if attr = 23 then S (a_italic_update (\<lambda>_. False))
     else if attr = 24 then S (a_decoration_update (\<lambda>_. 0))
     else if attr = 27 then S (a_reverse_update (\<lambda>_. False))
     else if attr = 29 then S (a_strike_update (\<lambda>_. False))
     else if 30 \<le> attr \<and> attr \<le> 37 then SIMPLE (g_fg_update (\<lambda>_. indexed_color (attr - 30)))
     else if attr = 38 then cell_set_color g_fg_update params i cells
     else if attr = 39 then SIMPLE (g_fg_update (\<lambda>_. 0))
     else if 40 \<le> attr \<and> attr \<le> 47 then SIMPLE (g_bg_update (\<lambda>_. indexed_color (attr - 40)))
     else if attr = 48 then cell_set_color g_bg_update params i cells
     else if attr = 49 then SIMPLE (g_bg_update (\<lambda>_. 0))
     else if 90 \<le> attr \<and> attr \<le> 97 then SIMPLE (g_fg_update (\<lambda>_. indexed_color (attr - 90 + 8)))
     else if 100 \<le> attr \<and> attr \<le> 107 then SIMPLE (g_bg_update (\<lambda>_. indexed_color (attr - 100 + 8)))
     else if attr = DECORATION_FG_CODE then cell_set_color g_decoration_fg_update params i cells
     else if attr = DECORATION_FG_CODE + 1 then SIMPLE (g_decoration_fg_update (\<lambda>_. 0))
     else Some (i, cells))"

lemma cell_set_color_index: "cell_set_color upd params i cells = Some (j, cells') \<Longrightarrow> i \<le> j"
  by (auto simp: cell_set_color_def Option.bind_eq_Some_conv dest: parse_color_index)

lemma cell_sgr_step_index: "cell_sgr_step params i cells = Some (j, cells') \<Longrightarrow> i < j"
  unfolding cell_sgr_step_def
  by (auto simp: Let_def Option.bind_eq_Some_conv dest!: cell_set_color_index split: if_splits)

function cell_sgr_loop :: "int list \<Rightarrow> nat \<Rightarrow> gpu_cell list \<Rightarrow> gpu_cell list option" where
  "cell_sgr_loop params i cells =
     (if i < length params then
        (case cell_sgr_step params i cells of
           None \<Rightarrow> None
         | Some (j, cells') \<Rightarrow> cell_sgr_loop params j cells')
      else Some cells)"
  by pat_completeness auto
termination
  by (relation "measure (\<lambda>(params, i, cells). length params - i)") (auto dest: cell_sgr_step_index)

declare cell_sgr_loop.simps [simp del]

definition apply_sgr_to_cells :: "gpu_cell list \<Rightarrow> int list \<Rightarrow> gpu_cell list option" where
  "apply_sgr_to_cells cells params = cell_sgr_loop (if params = [] then [0] else params) 0 cells"

section \<open>No parameter is read out of range\<close>

lemma read_param_Some [simp]: "i < length params \<Longrightarrow> read_param params i = Some (params ! i)"
  by (simp add: read_param_def)

text \<open>
  Where a colour starts at index 1 or later the subtractions of \<^verbatim>\<open>parse_color\<close> do not wrap, and
  whether it finds a colour does not depend on the colour it may overwrite.
\<close>

lemma parse_color_total:
  assumes "1 \<le> i" and "length params < 2 ^ 32"
  shows "(\<exists>j. \<forall>col. parse_color params i col = Some (j, col))
       \<or> (\<exists>j found. found \<noteq> 0 \<and> (\<forall>col. parse_color params i col = Some (j, found)))"
proof (cases "i < length params")
  case False
  then show ?thesis by (simp add: parse_color_def)
next
  case True
  have two: "usub32 (length params) 2 = length params - 2" using True assms by simp
  have three: "usub32 (length params) 3 = length params - 3" if "i + 1 < length params - 2"
    using that assms by simp
  consider "params ! i = 5" | "params ! i = 2" | "params ! i \<noteq> 5" "params ! i \<noteq> 2" by blast
  then show ?thesis
  proof cases
    case 1
    with True show ?thesis by (cases "i + 1 < length params") (simp_all add: parse_color_def word_or_eq_0)
  next
    case 2
    show ?thesis
    proof (cases "i + 1 < length params - 2")
      case far: True
      with True 2 three [OF far] two show ?thesis by (simp add: parse_color_def Let_def word_or_eq_0)
    next
      case False
      with True 2 two show ?thesis by (simp add: parse_color_def Let_def)
    qed
  next
    case 3
    with True show ?thesis by (simp add: parse_color_def Let_def)
  qed
qed

lemma parse_color_Some: "1 \<le> i \<Longrightarrow> length params < 2 ^ 32 \<Longrightarrow> \<exists>r. parse_color params i col = Some r"
  using parse_color_total [of i params] by blast

lemma cursor_sgr_step_Some:
  "i < length params \<Longrightarrow> length params < 2 ^ 32 \<Longrightarrow> \<exists>r. cursor_sgr_step params i c = Some r"
  using parse_color_Some [of "i + 1" params] by (auto simp: cursor_sgr_step_def Let_def)

lemma cursor_sgr_loop_Some: "length params < 2 ^ 32 \<Longrightarrow> \<exists>c'. cursor_sgr_loop params i c = Some c'"
proof (induction params i c rule: cursor_sgr_loop.induct)
  case (1 params i c)
  show ?case
  proof (cases "i < length params")
    case True
    then obtain j c' where s: "cursor_sgr_step params i c = Some (j, c')"
      using cursor_sgr_step_Some [OF _ "1.prems"] by fastforce
    with "1.IH" [OF True s refl "1.prems"] True show ?thesis
      by (simp add: cursor_sgr_loop.simps [of params i c])
  next
    case False
    then show ?thesis by (simp add: cursor_sgr_loop.simps [of params i c])
  qed
qed

theorem cursor_from_sgr_in_bounds:
  "length params \<le> 256 \<Longrightarrow> \<exists>c'. cursor_from_sgr c params = Some c'"
  unfolding cursor_from_sgr_def by (rule cursor_sgr_loop_Some) auto

lemma cursor_from_sgr_in_bounds_witness: "\<exists>c'. cursor_from_sgr zero_cursor [38, 5, 9, 4] = Some c'"
  by (rule cursor_from_sgr_in_bounds) simp

section \<open>Both interpretations agree\<close>

definition cursor_of_cell :: "gpu_cell \<Rightarrow> cursor" where
  "cursor_of_cell g = (attrs_to_cursor (g_attrs g) zero_cursor)
     \<lparr>c_fg := g_fg g, c_bg := g_bg g, c_decoration_fg := g_decoration_fg g\<rparr>"

definition cell_with_cursor :: "gpu_cell \<Rightarrow> cursor \<Rightarrow> gpu_cell" where
  "cell_with_cursor g c = g\<lparr>g_fg := c_fg c, g_bg := c_bg c, g_decoration_fg := c_decoration_fg c,
     g_attrs := (cursor_to_attrs c 0)\<lparr>a_width := a_width (g_attrs g), a_mark := a_mark (g_attrs g),
       a_wrapped := a_wrapped (g_attrs g)\<rparr>\<rparr>"

lemma cell_with_own_cursor: "cell_with_cursor g (cursor_of_cell g) = g"
proof -
  have "ucast (ucast (w :: 3 word) :: u8) = w" for w
    by (rule bit_word_eqI) (auto simp: bit_simps)
  then show ?thesis
    by (simp add: cell_with_cursor_def cursor_of_cell_def attrs_to_cursor_def cursor_to_attrs_def)
qed

lemmas sgr_agree_defs = cell_with_cursor_def cell_set_attrs_def cursor_to_attrs_def
  cursor_reset_display_attrs_def non_sgr_part_def zero_attrs_def case_prod_unfold comp_def

lemma sgr_steps_agree:
  assumes "i < length params" and "length params < 2 ^ 32"
  shows "\<exists>j f. (\<forall>c. cursor_sgr_step params i c = Some (j, f c)) \<and>
    (\<forall>ps. cell_sgr_step params i (map (\<lambda>(g, c). cell_with_cursor g c) ps)
        = Some (j, map (\<lambda>(g, c). cell_with_cursor g (f c)) ps))"
proof -
  define attr where "attr = params ! i"
  have r: "read_param params i = Some attr" using assms(1) by (simp add: attr_def)
  let ?j = "fst (the (cursor_sgr_step params i zero_cursor))"
  let ?f = "\<lambda>c. snd (the (cursor_sgr_step params i c))"
  from parse_color_total [of "i + 1" params, OF _ assms(2)]
  consider j where "\<And>col. parse_color params (Suc i) col = Some (j, col)"
    | j found where "found \<noteq> 0" "\<And>col. parse_color params (Suc i) col = Some (j, found)" by auto
  then show ?thesis
  proof cases
    case 1
    show ?thesis
      by (rule exI [of _ ?j], rule exI [of _ ?f],
          simp add: cursor_sgr_step_def cell_sgr_step_def Let_def r 1 cell_set_color_def sgr_agree_defs, auto)
  next
    case 2
    show ?thesis
      by (rule exI [of _ ?j], rule exI [of _ ?f],
          simp add: cursor_sgr_step_def cell_sgr_step_def Let_def r 2 cell_set_color_def sgr_agree_defs, auto)
  qed
qed

lemma sgr_loops_agree:
  assumes "length params < 2 ^ 32"
  shows "\<exists>f. (\<forall>c. cursor_sgr_loop params i c = Some (f c)) \<and>
    (\<forall>ps. cell_sgr_loop params i (map (\<lambda>(g, c). cell_with_cursor g c) ps)
        = Some (map (\<lambda>(g, c). cell_with_cursor g (f c)) ps))"
proof (induction "length params - i" arbitrary: i rule: less_induct)
  case less
  show ?case
  proof (cases "i < length params")
    case True
    from sgr_steps_agree [OF True assms] obtain j f where
      s: "\<And>c. cursor_sgr_step params i c = Some (j, f c)"
        "\<And>ps. cell_sgr_step params i (map (\<lambda>(g, c). cell_with_cursor g c) ps)
           = Some (j, map (\<lambda>(g, c). cell_with_cursor g (f c)) ps)" by blast
    have "length params - j < length params - i" using cursor_sgr_step_index [OF s(1)] True by simp
    from less [OF this] obtain f' where
      l: "\<And>c. cursor_sgr_loop params j c = Some (f' c)"
        "\<And>ps. cell_sgr_loop params j (map (\<lambda>(g, c). cell_with_cursor g c) ps)
           = Some (map (\<lambda>(g, c). cell_with_cursor g (f' c)) ps)" by blast
    have "cell_sgr_loop params i (map (\<lambda>(g, c). cell_with_cursor g c) ps)
        = Some (map (\<lambda>(g, c). cell_with_cursor g (f' (f c))) ps)" for ps
      using True s(2) [of ps] l(2) [of "map (\<lambda>(g, c). (g, f c)) ps"]
      by (simp add: cell_sgr_loop.simps [of params i] case_prod_unfold comp_def)
    moreover have "cursor_sgr_loop params i c = Some (f' (f c))" for c
      using True by (simp add: cursor_sgr_loop.simps [of params i] s(1) l(1))
    ultimately show ?thesis by (intro exI [of _ "\<lambda>c. f' (f c)"]) blast
  next
    case False
    then show ?thesis
      by (intro exI [of _ "\<lambda>c. c"]) (simp add: cursor_sgr_loop.simps [of params i] cell_sgr_loop.simps [of params i])
  qed
qed

text \<open>
  C40: apply_sgr_to_cells on a range of cells does to every cell what cursor_from_sgr does to a
  cursor with the attributes of the cell.
\<close>

theorem apply_sgr_to_cells_agrees:
  assumes "length params \<le> 256"
  shows "apply_sgr_to_cells cells params =
    Some (map (\<lambda>g. cell_with_cursor g (the (cursor_from_sgr (cursor_of_cell g) params))) cells)"
proof -
  let ?ps = "if params = [] then [0] else params"
  have "length ?ps < 2 ^ 32" using assms by auto
  from sgr_loops_agree [OF this, of 0] obtain f where
    f: "\<And>c. cursor_sgr_loop ?ps 0 c = Some (f c)"
      "\<And>ps. cell_sgr_loop ?ps 0 (map (\<lambda>(g, c). cell_with_cursor g c) ps)
         = Some (map (\<lambda>(g, c). cell_with_cursor g (f c)) ps)" by blast
  have "map (\<lambda>(g, c). cell_with_cursor g c) (map (\<lambda>g. (g, cursor_of_cell g)) cells) = cells"
    by (simp add: comp_def cell_with_own_cursor)
  then have "apply_sgr_to_cells cells params = Some (map (\<lambda>g. cell_with_cursor g (f (cursor_of_cell g))) cells)"
    using f(2) [of "map (\<lambda>g. (g, cursor_of_cell g)) cells"]
    by (simp add: apply_sgr_to_cells_def comp_def)
  then show ?thesis by (simp add: cursor_from_sgr_def f(1))
qed

lemma apply_sgr_to_cells_agrees_witness:
  "apply_sgr_to_cells [zero_gpu_cell, zero_gpu_cell\<lparr>g_fg := 0x901\<rparr>] [1, 38, 2, 1, 2, 3] =
    Some (map (\<lambda>g. cell_with_cursor g (the (cursor_from_sgr (cursor_of_cell g) [1, 38, 2, 1, 2, 3])))
      [zero_gpu_cell, zero_gpu_cell\<lparr>g_fg := 0x901\<rparr>])"
  by (rule apply_sgr_to_cells_agrees) simp

end
