(* ===== verification/Sgr.thy ===== *)
theory Sgr
  imports Cells
begin

text \<open>
  The text form of SGR: \<^verbatim>\<open>utoi\<close> and \<^verbatim>\<open>parse_sgr\<close> of \<^verbatim>\<open>smelly/parser.c\<close>, which split the parameter bytes of
  an SGR sequence into calls of \<^verbatim>\<open>select_graphic_rendition\<close>, and \<^verbatim>\<open>color_as_sgr\<close>,
  \<^verbatim>\<open>decoration_as_sgr\<close>, \<^verbatim>\<open>cell_as_sgr\<close> of \<^verbatim>\<open>smelly/line.c\<close>, which print the difference of two cells. The
  lemmas relate the two: what is printed for a cell, parsed and interpreted on a cursor with the
  attributes of the previous cell, gives the attributes of the cell, except in the cases named.
\<close>

section \<open>Parsing numbers\<close>

abbreviation (input) MAX_PARAMS :: nat where "MAX_PARAMS \<equiv> 256"

definition is_digit :: "u32 \<Rightarrow> bool" where
  "is_digit c = (0x30 \<le> c \<and> c \<le> 0x39)"

fun skip_zeros :: "u32 list \<Rightarrow> u32 list" where
  "skip_zeros [] = []"
| "skip_zeros (c # cs) = (if c = 0x30 then skip_zeros cs else c # cs)"

fun decimal_value :: "u32 list \<Rightarrow> int" where
  "decimal_value [] = 0"
| "decimal_value (c # cs) = int (unat (c - 0x30)) * 10 ^ length cs + decimal_value cs"

text \<open>\<^verbatim>\<open>utoi\<close>: at most ten significant digits, otherwise 0.\<close>

definition utoi :: "u32 list \<Rightarrow> int" where
  "utoi buf =
     (let (mult, p) = (if buf \<noteq> [] \<and> hd buf = 0x2d then (-1, tl buf) else (1, buf));
          p = skip_zeros p
      in (if length p < 11 then decimal_value p else 0) * mult)"

text \<open>The conversion of the 64 bit result to \<^verbatim>\<open>int\<close>.\<close>

definition to_int :: "int \<Rightarrow> int" where
  "to_int v = sint (word_of_int v :: 32 word)"

definition param_value :: "u32 list \<Rightarrow> int" where
  "param_value cur = to_int (utoi cur)"

section \<open>\<^verbatim>\<open>parse_sgr\<close>\<close>

datatype sgr_state = SGR_START | SGR_NORMAL | SGR_MULTIPLE | SGR_COLOR | SGR_COLOR1 | SGR_COLOR3

text \<open>
  \<open>cur\<close> is the text from \<^verbatim>\<open>num_start\<close> to \<^verbatim>\<open>i\<close>, \<open>ps\<close> the \<^verbatim>\<open>num_params\<close> parameters read so far and \<open>sent\<close>
  the parameter lists passed to \<^verbatim>\<open>select_graphic_rendition\<close>, in order. The flag of the result is
  \<open>False\<close> when an error was reported.
\<close>

definition parse_sgr_end ::
  "sgr_state \<Rightarrow> u32 list \<Rightarrow> int list \<Rightarrow> int list list \<Rightarrow> int list list \<times> bool" where
  "parse_sgr_end st cur ps sent =
     (case st of
        SGR_START \<Rightarrow> (sent @ [if length ps < MAX_PARAMS then ps @ [0] else ps], True)
      | SGR_COLOR \<Rightarrow> (sent, False)
      | SGR_COLOR3 \<Rightarrow>
          (let ps = (if cur \<noteq> [] \<and> length ps < MAX_PARAMS then ps @ [param_value cur] else ps)
           in if length ps \<noteq> 5 then (sent, False) else (sent @ [ps], True))
      | _ \<Rightarrow>
          (let ps = (if cur \<noteq> [] \<and> length ps < MAX_PARAMS then ps @ [param_value cur] else ps)
           in if ps \<noteq> [] then (sent @ [ps], True) else (sent, False)))"

fun parse_sgr_loop ::
  "u32 list \<Rightarrow> sgr_state \<Rightarrow> u32 list \<Rightarrow> int list \<Rightarrow> int list list \<Rightarrow> int list list \<times> bool" where
  "parse_sgr_loop [] st cur ps sent = parse_sgr_end st cur ps sent"
| "parse_sgr_loop (b # rest) st cur ps sent =
     (if length ps \<ge> MAX_PARAMS then parse_sgr_end st cur ps sent
      else if is_digit b then
        (case st of
           SGR_START \<Rightarrow> parse_sgr_loop rest SGR_NORMAL [b] [] sent
         | _ \<Rightarrow> parse_sgr_loop rest st (cur @ [b]) ps sent)
      else if b = 0x3b then
        (let ps' = ps @ [param_value cur] in
         case st of
           SGR_START \<Rightarrow> parse_sgr_loop rest SGR_START [] [] (sent @ [ps @ [0]])
         | SGR_NORMAL \<Rightarrow>
             if ps' ! 0 = 38 \<or> ps' ! 0 = 48 \<or> ps' ! 0 = 58
             then parse_sgr_loop rest SGR_COLOR [] ps' sent
             else parse_sgr_loop rest SGR_START [] [] (sent @ [ps'])
         | SGR_MULTIPLE \<Rightarrow> parse_sgr_loop rest SGR_START [] [] (sent @ [ps'])
         | SGR_COLOR \<Rightarrow>
             if ps' ! 1 = 2 then parse_sgr_loop rest SGR_COLOR3 [] ps' sent
             else if ps' ! 1 = 5 then parse_sgr_loop rest SGR_COLOR1 [] ps' sent
             else (sent, False)
         | SGR_COLOR1 \<Rightarrow> parse_sgr_loop rest SGR_START [] [] (sent @ [ps'])
         | SGR_COLOR3 \<Rightarrow>
             if length ps' = 5 then parse_sgr_loop rest SGR_START [] [] (sent @ [ps'])
             else parse_sgr_loop rest SGR_COLOR3 [] ps' sent)
      else if b = 0x3a then
        (case st of
           SGR_NORMAL \<Rightarrow> parse_sgr_loop rest SGR_MULTIPLE [] (ps @ [param_value cur]) sent
         | SGR_MULTIPLE \<Rightarrow> parse_sgr_loop rest SGR_MULTIPLE [] (ps @ [param_value cur]) sent
         | _ \<Rightarrow> (sent, False))
      else (sent, False))"

definition parse_sgr :: "u32 list \<Rightarrow> int list list \<times> bool" where
  "parse_sgr buf = parse_sgr_loop buf SGR_START [] [] []"

section \<open>\<^verbatim>\<open>cell_as_sgr\<close>\<close>

text \<open>\<^verbatim>\<open>"%lu"\<close>.\<close>

fun decimal :: "nat \<Rightarrow> u32 list" where
  "decimal n = (if n < 10 then [word_of_nat (0x30 + n)]
                else decimal (n div 10) @ [word_of_nat (0x30 + n mod 10)])"

declare decimal.simps [simp del]

text \<open>\<^verbatim>\<open>color_as_sgr\<close>; 0x3b is the semicolon and 0x3a the colon.\<close>

definition color_as_sgr :: "color_type \<Rightarrow> nat \<Rightarrow> nat \<Rightarrow> nat \<Rightarrow> u32 list" where
  "color_as_sgr val simple_code aix_code complex_code =
     (if val AND 0xff = 1 then
        (let val = unat (drop_bit 8 val) in
         if val < 16 \<and> simple_code \<noteq> 0 then
           decimal (if val < 8 then simple_code + val else aix_code + (val - 8)) @ [0x3b]
         else decimal complex_code @ [0x3a, 0x35, 0x3a] @ decimal val @ [0x3b])
      else if val AND 0xff = 2 then
        decimal complex_code @ [0x3a, 0x32, 0x3a] @ decimal (unat (drop_bit 24 val AND 0xff))
          @ [0x3a] @ decimal (unat (drop_bit 16 val AND 0xff))
          @ [0x3a] @ decimal (unat (drop_bit 8 val AND 0xff)) @ [0x3b]
      else decimal (complex_code + 1) @ [0x3b])"

definition decoration_as_sgr :: "u8 \<Rightarrow> u32 list" where
  "decoration_as_sgr decoration =
     (if decoration = 1 then [0x34, 0x3b]
      else if decoration = 2 then [0x34, 0x3a, 0x32, 0x3b]
      else if decoration = 3 then [0x34, 0x3a, 0x33, 0x3b]
      else [0x32, 0x34, 0x3b])"

text \<open>\<^verbatim>\<open>P(s)\<close> appends to the buffer of 128 bytes if there is room for it.\<close>

definition sgr_P :: "u32 list \<Rightarrow> u32 list \<Rightarrow> u32 list" where
  "sgr_P s p = (if 128 - length p - 2 > length s then p @ s else p)"

definition cell_as_sgr :: "gpu_cell \<Rightarrow> gpu_cell \<Rightarrow> u32 list" where
  "cell_as_sgr cell prev =
     (let CA = g_attrs cell; PA = g_attrs prev;
          p = [];
          intensity_differs = (a_bold CA \<noteq> a_bold PA \<or> a_dim CA \<noteq> a_dim PA);
          p = (if intensity_differs then
                 (if \<not> a_bold CA \<and> \<not> a_dim CA then sgr_P [0x32, 0x32, 0x3b] p
                  else (let p = (if a_bold CA then sgr_P [0x31, 0x3b] p else p)
                        in if a_dim CA then sgr_P [0x32, 0x3b] p else p))
               else p);
          p = (if a_italic CA \<noteq> a_italic PA
               then sgr_P (if a_italic CA then [0x33, 0x3b] else [0x32, 0x33, 0x3b]) p else p);
          p = (if a_reverse CA \<noteq> a_reverse PA
               then sgr_P (if a_reverse CA then [0x37, 0x3b] else [0x32, 0x37, 0x3b]) p else p);
          p = (if a_strike CA \<noteq> a_strike PA
               then sgr_P (if a_strike CA then [0x39, 0x3b] else [0x32, 0x39, 0x3b]) p else p);
          p = (if g_fg cell \<noteq> g_fg prev then p @ color_as_sgr (g_fg cell) 30 90 38 else p);
          p = (if g_bg cell \<noteq> g_bg prev then p @ color_as_sgr (g_bg cell) 40 100 48 else p);
          p = (if g_decoration_fg cell \<noteq> g_decoration_fg prev
               then p @ color_as_sgr (g_decoration_fg cell) 0 0 58 else p);
          p = (if a_decoration CA \<noteq> a_decoration PA
               then sgr_P (decoration_as_sgr (ucast (a_decoration CA))) p else p)
      in if p \<noteq> [] then butlast p else p)"

definition cursor_as_sgr :: "cursor \<Rightarrow> u32 list" where
  "cursor_as_sgr c =
     cell_as_sgr (zero_gpu_cell\<lparr>g_attrs := cursor_to_attrs c 1, g_fg := c_fg c AND 0xFFFFFFFF,
        g_bg := c_bg c AND 0xFFFFFFFF, g_decoration_fg := c_decoration_fg c AND 0xFFFFFFFF\<rparr>)
       zero_gpu_cell"

section \<open>Printed numbers are read back\<close>

lemma is_digit_of_nat: "d < 10 \<Longrightarrow> is_digit (word_of_nat (0x30 + d)) \<and> unat (word_of_nat (0x30 + d) - 0x30 :: u32) = d"
proof -
  assume d: "d < 10"
  have "(word_of_nat (0x30 + d) - 0x30 :: u32) = word_of_nat d" by simp
  moreover have "unat (word_of_nat d :: u32) = d" using d by (intro unat_word_of_nat_u32) simp
  moreover have "unat (word_of_nat (0x30 + d) :: u32) = 0x30 + d" using d by (intro unat_word_of_nat_u32) simp
  ultimately show ?thesis using d by (simp only: is_digit_def word_le_nat_alt) simp
qed

lemma decimal_value_snoc:
  "decimal_value (cs @ [c]) = decimal_value cs * 10 + int (unat (c - 0x30))"
  by (induction cs) (simp_all add: algebra_simps)

lemma decimal_digits: "list_all is_digit (decimal n) \<and> decimal n \<noteq> [] \<and> decimal_value (decimal n) = int n"
proof (induction n rule: decimal.induct)
  case (1 n)
  show ?case
  proof (cases "n < 10")
    case True
    with is_digit_of_nat [OF True] show ?thesis by (subst (1 2 3) decimal.simps) simp
  next
    case False
    have "int (n div 10) * 10 + int (n mod 10) = int n"
      by (metis div_mult_mod_eq of_nat_add of_nat_mult of_nat_numeral)
    with False 1 is_digit_of_nat [of "n mod 10"] show ?thesis
      by (subst (1 2 3) decimal.simps) (simp add: decimal_value_snoc)
  qed
qed

lemma length_decimal: "n < 10 ^ Suc k \<Longrightarrow> length (decimal n) \<le> Suc k"
proof (induction k arbitrary: n)
  case 0
  then show ?case by (subst decimal.simps) simp
next
  case (Suc k)
  show ?case
  proof (cases "n < 10")
    case True
    then show ?thesis by (subst decimal.simps) simp
  next
    case False
    from Suc.prems have "n div 10 < 10 ^ Suc k" by (simp add: less_mult_imp_div_less)
    with Suc.IH False show ?thesis by (subst decimal.simps) simp
  qed
qed

lemma hd_decimal: "0 < n \<Longrightarrow> hd (decimal n) \<noteq> 0x30"
proof (induction n rule: decimal.induct)
  case (1 n)
  show ?case
  proof (cases "n < 10")
    case True
    have "unat (word_of_nat (0x30 + n) :: u32) = 0x30 + n" using True by (intro unat_word_of_nat_u32) simp
    with True 1 show ?thesis by (subst decimal.simps) (auto simp: word_unat_eq_iff)
  next
    case False
    with 1 decimal_digits show ?thesis by (subst decimal.simps) simp
  qed
qed

lemma skip_zeros_decimal: "decimal_value (skip_zeros (decimal n)) = int n \<and>
    length (skip_zeros (decimal n)) \<le> length (decimal n)"
proof (cases "n = 0")
  case True
  then show ?thesis by (simp add: decimal.simps)
next
  case False
  with hd_decimal [of n] have "skip_zeros (decimal n) = decimal n"
    by (cases "decimal n") auto
  then show ?thesis by (simp add: decimal_digits)
qed

lemma param_value_decimal: "n < 2 ^ 31 \<Longrightarrow> param_value (decimal n) = int n"
proof -
  assume n: "n < 2 ^ 31"
  have "hd (decimal n) \<noteq> 0x2d"
    using decimal_digits [of n] by (cases "decimal n") (auto simp: is_digit_def)
  moreover have "length (decimal n) \<le> Suc 9" by (rule length_decimal) (use n in simp)
  ultimately have u: "utoi (decimal n) = int n"
    using skip_zeros_decimal [of n] by (simp add: utoi_def)
  have "signed_take_bit 31 (int n) = int n"
    using n by (simp add: signed_take_bit_int_eq_self_iff)
  then have "sint (word_of_int (int n) :: 32 word) = int n" by (simp only: sint_sbintrunc') simp
  then show ?thesis by (simp only: param_value_def to_int_def u)
qed

section \<open>Printed items are read back\<close>

text \<open>An item is a list of numbers joined by colons and ended by a semicolon.\<close>

fun print_params :: "nat list \<Rightarrow> u32 list" where
  "print_params [] = []"
| "print_params [n] = decimal n"
| "print_params (n # ns) = decimal n @ 0x3a # print_params ns"

abbreviation print_item :: "nat list \<Rightarrow> u32 list" where
  "print_item ns \<equiv> print_params ns @ [0x3b]"

text \<open>The items \<^verbatim>\<open>parse_sgr\<close> passes on unchanged.\<close>

definition plain_item :: "nat list \<Rightarrow> bool" where
  "plain_item ns = (ns \<noteq> [] \<and> length ns < MAX_PARAMS \<and> list_all (\<lambda>n. n < 2 ^ 31) ns
     \<and> (ns = [hd ns] \<longrightarrow> hd ns \<notin> {38, 48, 58}))"

lemma sgr_loop_digits:
  "list_all is_digit ds \<Longrightarrow> st \<noteq> SGR_START \<Longrightarrow> length ps < MAX_PARAMS \<Longrightarrow>
   parse_sgr_loop (ds @ rest) st cur ps sent = parse_sgr_loop rest st (cur @ ds) ps sent"
  by (induction ds arbitrary: cur) (auto split: sgr_state.splits)

lemma sgr_loop_number_start:
  "parse_sgr_loop (decimal n @ rest) SGR_START [] [] sent = parse_sgr_loop rest SGR_NORMAL (decimal n) [] sent"
proof -
  obtain d ds where d: "decimal n = d # ds" "is_digit d" "list_all is_digit ds"
    using decimal_digits [of n] by (cases "decimal n") auto
  then show ?thesis using sgr_loop_digits [OF d(3), of SGR_NORMAL "[]" rest "[d]" sent] by simp
qed

lemma sep_not_digit [simp]: "\<not> is_digit 0x3a" "\<not> is_digit 0x3b"
  by (simp_all add: is_digit_def)

lemma sgr_loop_multiple:
  assumes "ns \<noteq> []" and "list_all (\<lambda>n. n < 2 ^ 31) ns" and "length ps + length ns \<le> MAX_PARAMS"
  shows "parse_sgr_loop (print_item ns @ rest) SGR_MULTIPLE [] ps sent
       = parse_sgr_loop rest SGR_START [] [] (sent @ [ps @ map int ns])"
    and "parse_sgr_loop (print_params ns) SGR_MULTIPLE [] ps sent = (sent @ [ps @ map int ns], True)"
  using assms
proof (induction ns arbitrary: ps rule: print_params.induct)
  case 1
  { case 1 then show ?case by simp next case 2 then show ?case by simp }
next
  case (2 n)
  have d: "list_all is_digit (decimal n)" by (simp add: decimal_digits)
  { case 1 then show ?case
      using sgr_loop_digits [OF d, of SGR_MULTIPLE ps "0x3b # rest"] by (simp add: param_value_decimal)
  next case 2 then show ?case
      using sgr_loop_digits [OF d, of SGR_MULTIPLE ps "[]"]
      by (simp add: param_value_decimal parse_sgr_end_def decimal_digits) }
next
  case (3 n m ns)
  have d: "list_all is_digit (decimal n)" by (simp add: decimal_digits)
  { case 1 then show ?case
      using sgr_loop_digits [OF d, of SGR_MULTIPLE ps] 3(1) [of "ps @ [int n]"] by (simp add: param_value_decimal)
  next case 2 then show ?case
      using sgr_loop_digits [OF d, of SGR_MULTIPLE ps] 3(2) [of "ps @ [int n]"] by (simp add: param_value_decimal) }
qed

lemma sgr_loop_item:
  assumes "plain_item ns"
  shows "parse_sgr_loop (print_item ns @ rest) SGR_START [] [] sent
       = parse_sgr_loop rest SGR_START [] [] (sent @ [map int ns])"
    and "parse_sgr_loop (print_params ns) SGR_START [] [] sent = (sent @ [map int ns], True)"
proof -
  from assms obtain n ms where ns: "ns = n # ms" by (cases ns) (auto simp: plain_item_def)
  show "parse_sgr_loop (print_item ns @ rest) SGR_START [] [] sent
       = parse_sgr_loop rest SGR_START [] [] (sent @ [map int ns])"
    "parse_sgr_loop (print_params ns) SGR_START [] [] sent = (sent @ [map int ns], True)"
    using assms sgr_loop_multiple [of ms "[int n]"] sgr_loop_number_start [of n "[]"]
    by (cases ms; auto simp: ns plain_item_def sgr_loop_number_start param_value_decimal
          parse_sgr_end_def decimal_digits)+
qed

lemma parse_sgr_items:
  assumes "list_all plain_item items" and "items \<noteq> []"
  shows "parse_sgr (butlast (concat (map (\<lambda>ns. print_item ns) items))) = (map (map int) items, True)"
proof -
  have "list_all plain_item items \<Longrightarrow> items \<noteq> [] \<Longrightarrow>
    parse_sgr_loop (butlast (concat (map (\<lambda>ns. print_item ns) items))) SGR_START [] [] sent
      = (sent @ map (map int) items, True)" for items sent
  proof (induction items arbitrary: sent)
    case (Cons ns items)
    show ?case
    proof (cases "items = []")
      case True
      with Cons.prems show ?thesis by (simp add: butlast_append sgr_loop_item(2))
    next
      case False
      then have ne: "concat (map (\<lambda>ns. print_item ns) items) \<noteq> []" by (cases items) auto
      have "butlast (concat (map (\<lambda>ns. print_item ns) (ns # items)))
          = print_item ns @ butlast (concat (map (\<lambda>ns. print_item ns) items))"
        using ne by (simp add: butlast_append)
      with Cons False show ?thesis using sgr_loop_item(1) [of ns "butlast (concat (map (\<lambda>ns. print_item ns) items))" sent] by simp
    qed
  qed simp
  from this [OF assms, of "[]"] show ?thesis by (simp add: parse_sgr_def)
qed


section \<open>The printed difference of two cells\<close>

text \<open>The items \<open>cell_as_sgr\<close> prints, before the separators are added.\<close>

definition color_item :: "color_type \<Rightarrow> nat \<Rightarrow> nat \<Rightarrow> nat \<Rightarrow> nat list" where
  "color_item val simple aix complex =
     (if val AND 0xff = 1 then
        (let n = unat (drop_bit 8 val) in
         if n < 16 \<and> simple \<noteq> 0 then [if n < 8 then simple + n else aix + (n - 8)]
         else [complex, 5, n])
      else if val AND 0xff = 2 then
        [complex, 2, unat (drop_bit 24 val AND 0xff), unat (drop_bit 16 val AND 0xff), unat (drop_bit 8 val AND 0xff)]
      else [complex + 1])"

definition decoration_item :: "u8 \<Rightarrow> nat list" where
  "decoration_item d = (if d = 1 then [4] else if d = 2 then [4, 2] else if d = 3 then [4, 3] else [24])"

definition intensity_items :: "cell_attrs \<Rightarrow> cell_attrs \<Rightarrow> nat list list" where
  "intensity_items C P =
     (if a_bold C \<noteq> a_bold P \<or> a_dim C \<noteq> a_dim P then
        (if \<not> a_bold C \<and> \<not> a_dim C then [[22]]
         else (if a_bold C then [[1]] else []) @ (if a_dim C then [[2]] else []))
      else [])"

definition flag_items :: "bool \<Rightarrow> bool \<Rightarrow> nat \<Rightarrow> nat list list" where
  "flag_items new old on = (if new \<noteq> old then [[if new then on else 20 + on]] else [])"

definition color_items :: "color_type \<Rightarrow> color_type \<Rightarrow> nat \<Rightarrow> nat \<Rightarrow> nat \<Rightarrow> nat list list" where
  "color_items new old simple aix complex = (if new \<noteq> old then [color_item new simple aix complex] else [])"

definition decoration_items :: "3 word \<Rightarrow> 3 word \<Rightarrow> nat list list" where
  "decoration_items new old = (if new \<noteq> old then [decoration_item (ucast new)] else [])"

definition sgr_items :: "gpu_cell \<Rightarrow> gpu_cell \<Rightarrow> nat list list" where
  "sgr_items cell prev =
     (let C = g_attrs cell; P = g_attrs prev in
      intensity_items C P
      @ flag_items (a_italic C) (a_italic P) 3 @ flag_items (a_reverse C) (a_reverse P) 7
      @ flag_items (a_strike C) (a_strike P) 9
      @ color_items (g_fg cell) (g_fg prev) 30 90 38 @ color_items (g_bg cell) (g_bg prev) 40 100 48
      @ color_items (g_decoration_fg cell) (g_decoration_fg prev) 0 0 58
      @ decoration_items (a_decoration C) (a_decoration P))"

abbreviation print_items :: "nat list list \<Rightarrow> u32 list" where
  "print_items items \<equiv> concat (map (\<lambda>ns. print_item ns) items)"

lemma decimal_small [simp]: "n < 10 \<Longrightarrow> decimal n = [word_of_nat (0x30 + n)]"
  by (simp add: decimal.simps)

lemma decimal_two [simp]: "10 \<le> n \<Longrightarrow> n < 100 \<Longrightarrow> decimal n = [word_of_nat (0x30 + n div 10), word_of_nat (0x30 + n mod 10)]"
  by (simp add: decimal.simps [of n] decimal.simps [of "n div 10"])

lemma print_color_item: "color_as_sgr val simple aix complex = print_item (color_item val simple aix complex)"
  by (simp add: color_as_sgr_def color_item_def Let_def)

lemma print_decoration_item: "decoration_as_sgr d = print_item (decoration_item d)"
  by (simp add: decoration_as_sgr_def decoration_item_def)

lemma unat_drop_8: "unat (drop_bit 8 (v :: u32)) < 2 ^ 24"
  using unsigned_less [of v, where 'a = nat] by (simp add: unat_drop_bit less_mult_imp_div_less)

lemma unat_and_255: "unat ((v :: u32) AND 0xff) < 256"
  by (subst unat_and_mask [where k = 8]) (simp_all add: mask_eq_exp_minus_1)

lemma length_print_color_item:
  assumes "simple < 100" "aix < 110" "complex < 99"
  shows "length (print_item (color_item val simple aix complex)) \<le> 17"
proof -
  have c: "length (decimal n) \<le> 3" if "n < 256" for n by (rule length_decimal [of n 2, simplified]) (use that in simp)
  have n: "length (decimal n) \<le> 8" if "n < 2 ^ 24" for n by (rule length_decimal [of n 7, simplified]) (use that in simp)
  have t: "length (decimal n) \<le> 2" if "n < 100" for n using length_decimal [of n 1] that by (simp del: decimal_two)
  let ?n = "unat (drop_bit 8 val)"
  consider "val AND 0xff = 1" "?n < 16" "simple \<noteq> 0" | "val AND 0xff = 1" "\<not> (?n < 16 \<and> simple \<noteq> 0)"
    | "val AND 0xff = 2" "val AND 0xff \<noteq> 1" | "val AND 0xff \<noteq> 1" "val AND 0xff \<noteq> 2" by auto
  then show ?thesis
  proof cases
    case 1
    then have "aix + ?n - 8 < 256" using assms by linarith
    with 1 show ?thesis using c [of "simple + ?n"] c [of "aix + ?n - 8"] assms
      by (cases "?n < 8") (simp_all add: color_item_def Let_def)
  next
    case 2
    then have "color_item val simple aix complex = [complex, 5, ?n]" by (auto simp: color_item_def Let_def)
    then show ?thesis using n [OF unat_drop_8, of val] t [of complex] assms by simp
  next
    case 3
    then show ?thesis
      using c [OF unat_and_255, of "drop_bit 24 val"] c [OF unat_and_255, of "drop_bit 16 val"]
        c [OF unat_and_255, of "drop_bit 8 val"] t [of complex] assms by (simp add: color_item_def)
  next
    case 4
    then show ?thesis using t [of "complex + 1"] assms by (simp add: color_item_def)
  qed
qed

lemma length_print_flag_items: "on < 10 \<Longrightarrow> length (print_items (flag_items new old on)) \<le> 3"
  by (simp add: flag_items_def)

lemma length_print_intensity_items: "length (print_items (intensity_items C P)) \<le> 4"
  by (simp add: intensity_items_def)

lemma length_print_color_items:
  "simple < 100 \<Longrightarrow> aix < 110 \<Longrightarrow> complex < 99 \<Longrightarrow> length (print_items (color_items new old simple aix complex)) \<le> 17"
  using length_print_color_item [of simple aix complex new] by (simp add: color_items_def)

lemma length_decoration_as_sgr: "length (decoration_as_sgr d) \<le> 4"
  by (simp add: decoration_as_sgr_def)

lemma sgr_P_fits: "length p + length s < 126 \<Longrightarrow> sgr_P s p = p @ s"
proof -
  assume "length p + length s < 126"
  then have "128 - length p - 2 > length s" by linarith
  then show ?thesis by (simp only: sgr_P_def if_True)
qed

lemma sgr_P_intensity:
  "(if a_bold C \<noteq> a_bold P \<or> a_dim C \<noteq> a_dim P then
      (if \<not> a_bold C \<and> \<not> a_dim C then sgr_P [0x32, 0x32, 0x3b] []
       else (let p = (if a_bold C then sgr_P [0x31, 0x3b] [] else [])
             in if a_dim C then sgr_P [0x32, 0x3b] p else p))
    else []) = print_items (intensity_items C P)"
  by (simp add: sgr_P_def intensity_items_def)

lemma sgr_P_flag:
  assumes "length p < 100"
  shows "(if new \<noteq> old then sgr_P (if new then [0x33, 0x3b] else [0x32, 0x33, 0x3b]) p else p) = p @ print_items (flag_items new old 3)"
    and "(if new \<noteq> old then sgr_P (if new then [0x37, 0x3b] else [0x32, 0x37, 0x3b]) p else p) = p @ print_items (flag_items new old 7)"
    and "(if new \<noteq> old then sgr_P (if new then [0x39, 0x3b] else [0x32, 0x39, 0x3b]) p else p) = p @ print_items (flag_items new old 9)"
  using assms by (cases new; cases old; simp add: flag_items_def sgr_P_fits)+

lemma print_color:
  "(if new \<noteq> old then p @ color_as_sgr new s a x else p) = p @ print_items (color_items new old s a x)"
  by (simp add: color_items_def print_color_item)

lemma sgr_P_decoration:
  "length p < 100 \<Longrightarrow>
   (if new \<noteq> old then sgr_P (decoration_as_sgr (ucast new)) p else p) = p @ print_items (decoration_items new old)"
  using length_decoration_as_sgr [of "ucast new"]
  by (auto simp: decoration_items_def sgr_P_fits print_decoration_item simp del: length_decoration_as_sgr)

text \<open>The buffer of 128 bytes is long enough for every item.\<close>

lemma cell_as_sgr_items: "cell_as_sgr cell prev = butlast (print_items (sgr_items cell prev))"
proof -
  let ?C = "g_attrs cell" and ?P = "g_attrs prev"
  let ?i = "print_items (intensity_items ?C ?P)"
  let ?f = "\<lambda>g on. print_items (flag_items (g ?C) (g ?P) on)"
  let ?c = "\<lambda>g s a x. print_items (color_items (g cell) (g prev) s a x)"
  have l: "length ?i \<le> 4" "length (?f a_italic 3) \<le> 3" "length (?f a_reverse 7) \<le> 3" "length (?f a_strike 9) \<le> 3"
    "length (?c g_fg 30 90 38) \<le> 17" "length (?c g_bg 40 100 48) \<le> 17" "length (?c g_decoration_fg 0 0 58) \<le> 17"
    by (intro length_print_intensity_items length_print_flag_items length_print_color_items; simp)+
  define p1 where "p1 = (if a_bold ?C \<noteq> a_bold ?P \<or> a_dim ?C \<noteq> a_dim ?P then
      (if \<not> a_bold ?C \<and> \<not> a_dim ?C then sgr_P [0x32, 0x32, 0x3b] []
       else (let p = (if a_bold ?C then sgr_P [0x31, 0x3b] [] else [])
             in if a_dim ?C then sgr_P [0x32, 0x3b] p else p))
    else [])"
  define p2 where "p2 = (if a_italic ?C \<noteq> a_italic ?P then sgr_P (if a_italic ?C then [0x33, 0x3b] else [0x32, 0x33, 0x3b]) p1 else p1)"
  define p3 where "p3 = (if a_reverse ?C \<noteq> a_reverse ?P then sgr_P (if a_reverse ?C then [0x37, 0x3b] else [0x32, 0x37, 0x3b]) p2 else p2)"
  define p4 where "p4 = (if a_strike ?C \<noteq> a_strike ?P then sgr_P (if a_strike ?C then [0x39, 0x3b] else [0x32, 0x39, 0x3b]) p3 else p3)"
  define p5 where "p5 = (if g_fg cell \<noteq> g_fg prev then p4 @ color_as_sgr (g_fg cell) 30 90 38 else p4)"
  define p6 where "p6 = (if g_bg cell \<noteq> g_bg prev then p5 @ color_as_sgr (g_bg cell) 40 100 48 else p5)"
  define p7 where "p7 = (if g_decoration_fg cell \<noteq> g_decoration_fg prev then p6 @ color_as_sgr (g_decoration_fg cell) 0 0 58 else p6)"
  define p8 where "p8 = (if a_decoration ?C \<noteq> a_decoration ?P then sgr_P (decoration_as_sgr (ucast (a_decoration ?C))) p7 else p7)"
  have b: "cell_as_sgr cell prev = (if p8 \<noteq> [] then butlast p8 else p8)"
    unfolding cell_as_sgr_def p1_def p2_def p3_def p4_def p5_def p6_def p7_def p8_def Let_def by (rule refl)
  have e1: "p1 = ?i" by (simp only: p1_def sgr_P_intensity)
  with l have e2: "p2 = p1 @ ?f a_italic 3" unfolding p2_def by (intro sgr_P_flag) simp
  with e1 l have e3: "p3 = p2 @ ?f a_reverse 7" unfolding p3_def by (intro sgr_P_flag) simp
  with e1 e2 l have e4: "p4 = p3 @ ?f a_strike 9" unfolding p4_def by (intro sgr_P_flag) simp
  have e5: "p5 = p4 @ ?c g_fg 30 90 38" unfolding p5_def by (rule print_color)
  have e6: "p6 = p5 @ ?c g_bg 40 100 48" unfolding p6_def by (rule print_color)
  have e7: "p7 = p6 @ ?c g_decoration_fg 0 0 58" unfolding p7_def by (rule print_color)
  have "length p7 < 100" using l by (simp add: e1 e2 e3 e4 e5 e6 e7)
  then have e8: "p8 = p7 @ print_items (decoration_items (a_decoration ?C) (a_decoration ?P))"
    unfolding p8_def by (rule sgr_P_decoration)
  show ?thesis by (simp add: b e1 e2 e3 e4 e5 e6 e7 e8 sgr_items_def Let_def)
qed

section \<open>Reading the difference back\<close>

definition load_cell :: "gpu_cell \<Rightarrow> cursor \<Rightarrow> cursor" where
  "load_cell g c = (attrs_to_cursor (g_attrs g) c)
     \<lparr>c_fg := g_fg g, c_bg := g_bg g, c_decoration_fg := g_decoration_fg g\<rparr>"

fun run_sgrs :: "int list list \<Rightarrow> cursor \<Rightarrow> cursor option" where
  "run_sgrs [] c = Some c"
| "run_sgrs (ps # pss) c = Option.bind (cursor_from_sgr c ps) (run_sgrs pss)"

text \<open>The cursor after the text of an SGR sequence; nothing is sent for an empty text.\<close>

definition sgr_text_effect :: "u32 list \<Rightarrow> cursor \<Rightarrow> cursor option" where
  "sgr_text_effect s c = (if s = [] then Some c else run_sgrs (fst (parse_sgr s)) c)"

text \<open>The colours SGR can express: the default, the palette and RGB.\<close>

definition sgr_color :: "color_type \<Rightarrow> bool" where
  "sgr_color v = (v = 0 \<or> (\<exists>n < 256. v = push_bit 8 (word_of_nat n) OR 1)
     \<or> (\<exists>r < 256. \<exists>g < 256. \<exists>b < 256. v = push_bit 24 (word_of_nat r) OR push_bit 16 (word_of_nat g)
          OR push_bit 8 (word_of_nat b) OR 2))"

lemma run_sgrs_append: "run_sgrs (xs @ ys) c = Option.bind (run_sgrs xs c) (run_sgrs ys)"
  by (induction xs arbitrary: c) (auto split: bind_splits)

lemma param_byte_nat: "n < 256 \<Longrightarrow> param_byte (int n) = word_of_nat n"
proof -
  assume n: "n < 256"
  then have "unat (word_of_nat n AND 0xff :: u32) = unat (word_of_nat n :: u32)"
    by (subst unat_and_mask [where k = 8]) (simp_all add: mask_eq_exp_minus_1 unat_word_of_nat_u32)
  then show ?thesis by (simp only: word_unat_eq_iff of_int_of_nat_eq)
qed

lemma unat_push_byte: "n < 256 \<Longrightarrow> k \<le> 24 \<Longrightarrow> unat (push_bit k (word_of_nat n) :: u32) = n * 2 ^ k"
proof -
  assume n: "n < 256" and k: "k \<le> 24"
  have "n * 2 ^ k < 2 ^ 8 * 2 ^ k" using n by simp
  also have "\<dots> \<le> 2 ^ 8 * 2 ^ 24" using k by (intro mult_left_mono power_increasing) simp_all
  finally have lt: "n * 2 ^ k < 2 ^ 32" by simp
  have "unat (push_bit k (word_of_nat n) :: u32) = take_bit 32 (push_bit k (unat (word_of_nat n :: u32)))"
    by (simp only: unsigned_push_bit_eq) simp
  also have "\<dots> = take_bit 32 (n * 2 ^ k)" using n by (simp add: unat_word_of_nat_u32 push_bit_eq_mult)
  also have "\<dots> = n * 2 ^ k" using lt by (simp only: take_bit_nat_eq_self_iff)
  finally show ?thesis .
qed

lemma palette_color:
  assumes "n < 256"
  defines "v \<equiv> push_bit 8 (word_of_nat n) OR 1 :: u32"
  shows "v AND 0xff = 1" and "unat (drop_bit 8 v) = n"
proof -
  have "unat (push_bit 8 (word_of_nat n) :: u32) = n * 2 ^ 8"
    using assms by (intro unat_push_byte) simp_all
  then have u: "unat v = n * 2 ^ 8 + 1"
    using unat_or_disjoint [of "push_bit 8 (word_of_nat n) :: u32" n 8 1] by (simp add: v_def or.commute)
  then show "unat (drop_bit 8 v) = n" by (simp add: unat_drop_bit)
  have "unat v mod 2 ^ 8 = 1" by (simp only: u mod_mult_self3) simp
  then have "unat (v AND 0xff) = unat (1 :: u32)"
    by (subst unat_and_mask [where k = 8]) (simp_all add: mask_eq_exp_minus_1)
  then show "v AND 0xff = 1" by (simp only: word_unat_eq_iff)
qed

lemma rgb_color:
  assumes "r < 256" "g < 256" "b < 256"
  defines "v \<equiv> push_bit 24 (word_of_nat r) OR push_bit 16 (word_of_nat g) OR push_bit 8 (word_of_nat b) OR 2 :: u32"
  shows "v AND 0xff = 2" "unat (drop_bit 24 v AND 0xff) = r" "unat (drop_bit 16 v AND 0xff) = g"
    "unat (drop_bit 8 v AND 0xff) = b"
proof -
  let ?p = "\<lambda>k n. push_bit k (word_of_nat n) :: u32"
  have b: "unat (?p 8 b OR 2) = b * 2 ^ 8 + 2"
    using unat_or_disjoint [of "?p 8 b" b 8 2] unat_push_byte [of b 8] assms by (simp add: or.commute)
  have g: "unat (?p 16 g OR (?p 8 b OR 2)) = g * 2 ^ 16 + (b * 2 ^ 8 + 2)"
    using unat_or_disjoint [of "?p 16 g" g 16 "?p 8 b OR 2"] unat_push_byte [of g 16] assms b by (simp add: or.commute)
  have u: "unat v = r * 2 ^ 24 + (g * 2 ^ 16 + (b * 2 ^ 8 + 2))"
    using unat_or_disjoint [of "?p 24 r" r 24 "?p 16 g OR (?p 8 b OR 2)"] unat_push_byte [of r 24] assms g
    by (simp add: v_def or.commute or.assoc)
  have d: "unat (drop_bit k v AND 0xff) = unat v div 2 ^ k mod 2 ^ 8" for k
    by (subst unat_and_mask [where k = 8]) (simp_all add: mask_eq_exp_minus_1 unat_drop_bit)
  have "unat v = (r * 2 ^ 16 + g * 2 ^ 8 + b) * 2 ^ 8 + 2" by (simp add: u)
  then have "unat v div 2 ^ 8 = r * 2 ^ 16 + g * 2 ^ 8 + b" "unat v mod 2 ^ 8 = 2" by (simp_all only: mod_mult_self3) simp_all
  note m = this(2) and dv = this(1)
  moreover have "unat v = (r * 2 ^ 8 + g) * 2 ^ 16 + (b * 2 ^ 8 + 2)" by (simp add: u)
  then have "unat v div 2 ^ 16 = r * 2 ^ 8 + g" using assms by simp
  moreover have "g * 2 ^ 16 + (b * 2 ^ 8 + 2) < 2 ^ 24" using assms by simp
  then have "unat v div 2 ^ 24 = r" by (simp only: u div_mult_self3 div_less)
  moreover have "(r * 2 ^ 16 + g * 2 ^ 8 + b) mod 2 ^ 8 = b"
    using assms mod_mult_self2 [of b "2 ^ 8" "r * 2 ^ 8 + g"] by (simp add: algebra_simps)
  ultimately show "unat (drop_bit 24 v AND 0xff) = r" "unat (drop_bit 16 v AND 0xff) = g"
    "unat (drop_bit 8 v AND 0xff) = b" using assms(1-3) by (simp_all only: d) simp_all
  have "unat (v AND 0xff) = unat (2 :: u32)"
    by (subst unat_and_mask [where k = 8]) (simp add: mask_eq_exp_minus_1, simp only: m, simp)
  then show "v AND 0xff = 2" by (simp only: word_unat_eq_iff)
qed

lemma bit_0_and [simp]: "(0 :: u32) AND 0xff = 0"
  by simp

lemma sgr_color_item_cases:
  assumes "sgr_color v"
  obtains "color_item v s a x = [x + 1]" "v = 0"
  | n where "n < 8" "s \<noteq> 0" "color_item v s a x = [s + n]" "v = indexed_color (int n)"
  | n where "8 \<le> n" "n < 16" "s \<noteq> 0" "color_item v s a x = [a + (n - 8)]" "v = indexed_color (int n)"
  | n where "n < 256" "color_item v s a x = [x, 5, n]" "v = push_bit 8 (param_byte (int n)) OR 1"
  | r g b where "r < 256" "g < 256" "b < 256" "color_item v s a x = [x, 2, r, g, b]"
      "v = push_bit 24 (param_byte (int r)) OR push_bit 16 (param_byte (int g)) OR push_bit 8 (param_byte (int b)) OR 2"
proof -
  from assms consider "v = 0" | n where "n < 256" "v = push_bit 8 (word_of_nat n) OR 1"
    | r g b where "r < 256" "g < 256" "b < 256" "v = push_bit 24 (word_of_nat r) OR push_bit 16 (word_of_nat g) OR push_bit 8 (word_of_nat b) OR 2"
    unfolding sgr_color_def by blast
  then show thesis
  proof cases
    case 1
    then show thesis by (intro that(1)) (simp_all add: color_item_def)
  next
    case (2 n)
    have p: "v AND 0xff = 1" "unat (drop_bit 8 v) = n" using palette_color [OF 2(1)] 2(2) by simp_all
    have i: "v = indexed_color (int n)" by (simp only: indexed_color_def 2(2) of_int_of_nat_eq)
    have b: "v = push_bit 8 (param_byte (int n)) OR 1" by (simp only: param_byte_nat [OF 2(1)] 2(2))
    consider "s \<noteq> 0" "n < 8" | "s \<noteq> 0" "8 \<le> n" "n < 16" | "\<not> (n < 16 \<and> s \<noteq> 0)" by linarith
    then show thesis
    proof cases
      case 1
      then show thesis using p i by (intro that(2) [of n]) (simp_all add: color_item_def)
    next
      case 2
      then show thesis using p i by (intro that(3) [of n]) (simp_all add: color_item_def)
    next
      case 3
      then have "color_item v s a x = [x, 5, n]"
        by (simp only: color_item_def Let_def p if_False if_True simp_thms)
      then show thesis using b by (rule that(4) [OF \<open>n < 256\<close>])
    qed
  next
    case (3 r g b)
    show thesis
      by (rule that(5) [OF 3(1-3)])
        (use rgb_color [OF 3(1-3)] 3(4) in \<open>simp_all only: color_item_def param_byte_nat [OF 3(1)] param_byte_nat [OF 3(2)] param_byte_nat [OF 3(3)]\<close>, simp)
  qed
qed

lemma usub32_5 [simp]: "usub32 5 2 = 3" "usub32 5 3 = 2"
  by (simp_all add: usub32_def)

lemmas one_sgr_defs = cursor_from_sgr_def cursor_sgr_loop.simps cursor_sgr_step_def parse_color_def read_param_def Let_def

lemma sgr_fg:
  assumes "sgr_color v"
  shows "cursor_from_sgr c (map int (color_item v 30 90 38)) = Some (c\<lparr>c_fg := v\<rparr>)"
  using assms by (cases rule: sgr_color_item_cases [of v 30 90 38]) (simp_all add: one_sgr_defs)

lemma sgr_bg:
  assumes "sgr_color v"
  shows "cursor_from_sgr c (map int (color_item v 40 100 48)) = Some (c\<lparr>c_bg := v\<rparr>)"
  using assms by (cases rule: sgr_color_item_cases [of v 40 100 48]) (simp_all add: one_sgr_defs)

lemma sgr_decoration_fg:
  assumes "sgr_color v"
  shows "cursor_from_sgr c (map int (color_item v 0 0 58)) = Some (c\<lparr>c_decoration_fg := v\<rparr>)"
  using assms by (cases rule: sgr_color_item_cases [of v 0 0 58]) (simp_all add: one_sgr_defs)

lemma run_intensity:
  assumes "c_bold c = a_bold P" "c_dim c = a_dim P"
    and "\<not> a_bold C \<and> \<not> a_dim C \<or> (a_bold P \<longrightarrow> a_bold C) \<and> (a_dim P \<longrightarrow> a_dim C)"
  shows "run_sgrs (map (map int) (intensity_items C P)) c = Some (c\<lparr>c_bold := a_bold C, c_dim := a_dim C\<rparr>)"
  using assms by (cases "a_bold C"; cases "a_dim C"; cases "a_bold P"; cases "a_dim P"; simp add: intensity_items_def one_sgr_defs)

lemma run_flags:
  "c_italic c = old \<Longrightarrow> run_sgrs (map (map int) (flag_items new old 3)) c = Some (c\<lparr>c_italic := new\<rparr>)"
  "c_reverse c = old \<Longrightarrow> run_sgrs (map (map int) (flag_items new old 7)) c = Some (c\<lparr>c_reverse := new\<rparr>)"
  "c_strikethrough c = old \<Longrightarrow> run_sgrs (map (map int) (flag_items new old 9)) c = Some (c\<lparr>c_strikethrough := new\<rparr>)"
  by (cases new; cases old; simp add: flag_items_def one_sgr_defs)+

lemma run_colors:
  "c_fg c = old \<Longrightarrow> sgr_color new \<Longrightarrow>
     run_sgrs (map (map int) (color_items new old 30 90 38)) c = Some (c\<lparr>c_fg := new\<rparr>)"
  "c_bg c = old \<Longrightarrow> sgr_color new \<Longrightarrow>
     run_sgrs (map (map int) (color_items new old 40 100 48)) c = Some (c\<lparr>c_bg := new\<rparr>)"
  "c_decoration_fg c = old \<Longrightarrow> sgr_color new \<Longrightarrow>
     run_sgrs (map (map int) (color_items new old 0 0 58)) c = Some (c\<lparr>c_decoration_fg := new\<rparr>)"
  by (auto simp: color_items_def sgr_fg sgr_bg sgr_decoration_fg)

lemma decoration_cases: "(w :: 3 word) \<le> 3 \<Longrightarrow> w = 0 \<or> w = 1 \<or> w = 2 \<or> w = 3"
proof -
  assume "w \<le> 3"
  then have "unat w \<le> 3" by (simp add: word_le_nat_alt)
  then have "unat w = unat (0 :: 3 word) \<or> unat w = unat (1 :: 3 word) \<or> unat w = unat (2 :: 3 word) \<or> unat w = unat (3 :: 3 word)"
    by simp linarith
  then show ?thesis by (simp only: word_unat_eq_iff)
qed

lemma run_decoration:
  "c_decoration c = ucast old \<Longrightarrow> new \<le> 3 \<Longrightarrow>
   run_sgrs (map (map int) (decoration_items new old)) c = Some (c\<lparr>c_decoration := ucast new\<rparr>)"
  by (drule decoration_cases) (auto simp: decoration_items_def decoration_item_def one_sgr_defs)

lemma plain_color_item:
  "s < 1000 \<Longrightarrow> a < 1000 \<Longrightarrow> x < 1000 \<Longrightarrow> x + 1 \<notin> {38, 48, 58} \<Longrightarrow> s + 7 < 38 \<or> 38 < s \<and> s + 7 < 48 \<Longrightarrow> 58 < a \<or> s = 0 \<Longrightarrow>
   plain_item (color_item v s a x)"
  using unat_and_255 [of "drop_bit 24 v"] unat_and_255 [of "drop_bit 16 v"] unat_and_255 [of "drop_bit 8 v"] unat_drop_8 [of v]
  by (auto simp: plain_item_def color_item_def Let_def)

lemma plain_small: "n < 38 \<Longrightarrow> plain_item [n]" "n < 38 \<Longrightarrow> m < 38 \<Longrightarrow> plain_item [n, m]"
  by (simp_all add: plain_item_def)

lemma plain_sgr_items: "list_all plain_item (sgr_items cell prev)"
proof -
  have "plain_item (color_item v 30 90 38)" "plain_item (color_item v 40 100 48)" "plain_item (color_item v 0 0 58)" for v
    by (rule plain_color_item; simp)+
  then have "list_all plain_item (color_items v w 30 90 38)" "list_all plain_item (color_items v w 40 100 48)"
    "list_all plain_item (color_items v w 0 0 58)" for v w
    by (simp_all add: color_items_def)
  moreover have "list_all plain_item (intensity_items C P)" for C P
    by (simp add: intensity_items_def plain_small)
  moreover have "on < 10 \<Longrightarrow> list_all plain_item (flag_items b b' on)" for b b' on
    by (simp add: flag_items_def plain_small)
  moreover have "list_all plain_item (decoration_items d d')" for d d'
    by (simp add: decoration_items_def decoration_item_def plain_small)
  ultimately show ?thesis by (simp add: sgr_items_def Let_def)
qed

lemma print_items_eq_Nil: "butlast (print_items items) = [] \<longleftrightarrow> items = []" if "list_all plain_item items"
proof (cases items)
  case (Cons ns rest)
  with that obtain n ms where "ns = n # ms" by (cases ns) (auto simp: plain_item_def)
  with Cons decimal_digits [of n] show ?thesis
    by (cases ms; cases "print_items rest = []") (auto simp: butlast_append)
qed simp

lemma sgr_text_effect_items: "sgr_text_effect (cell_as_sgr cell prev) c = run_sgrs (map (map int) (sgr_items cell prev)) c"
proof (cases "sgr_items cell prev = []")
  case True
  then show ?thesis by (simp add: sgr_text_effect_def cell_as_sgr_items)
next
  case False
  then show ?thesis using parse_sgr_items [OF plain_sgr_items False] print_items_eq_Nil [OF plain_sgr_items, of cell prev]
    by (simp add: sgr_text_effect_def cell_as_sgr_items)
qed

text \<open>
  C37: The SGR text printed for the difference of two cells, parsed by parse_sgr and interpreted
  on a cursor with the attributes of the previous cell, gives the attributes and colours of the
  cell, when the underline is none, single, double or curly and bold or dim is not switched off
  while the other stays on.
\<close>

theorem sgr_text_roundtrip:
  assumes "sgr_color (g_fg cell)" "sgr_color (g_bg cell)" "sgr_color (g_decoration_fg cell)"
    and "a_decoration (g_attrs cell) \<le> 3"
    and "\<not> a_bold (g_attrs cell) \<and> \<not> a_dim (g_attrs cell)
      \<or> (a_bold (g_attrs prev) \<longrightarrow> a_bold (g_attrs cell)) \<and> (a_dim (g_attrs prev) \<longrightarrow> a_dim (g_attrs cell))"
  shows "sgr_text_effect (cell_as_sgr cell prev) (load_cell prev c) = Some (load_cell cell c)"
  unfolding sgr_text_effect_items sgr_items_def Let_def map_append run_sgrs_append
  using assms
  by (simp add: run_intensity [of _ "g_attrs prev" "g_attrs cell"] run_flags run_colors run_decoration load_cell_def attrs_to_cursor_def)

definition example_cell :: gpu_cell where
  "example_cell = zero_gpu_cell\<lparr>g_fg := 0x901, g_bg := 0x10203002,
     g_attrs := zero_attrs\<lparr>a_bold := True, a_italic := True, a_decoration := 3\<rparr>\<rparr>"

lemma sgr_text_roundtrip_witness:
  "sgr_text_effect (cell_as_sgr example_cell zero_gpu_cell) (load_cell zero_gpu_cell zero_cursor)
     = Some (load_cell example_cell zero_cursor)"
proof (rule sgr_text_roundtrip)
  have "\<exists>n < 256. (0x901 :: u32) = push_bit 8 (word_of_nat n) OR 1" by (intro exI [where x = "9::nat"]) simp
  then show "sgr_color (g_fg example_cell)" by (simp add: sgr_color_def example_cell_def)
  have "\<exists>r < 256. \<exists>g < 256. \<exists>b < 256. (0x10203002 :: u32) = push_bit 24 (word_of_nat r)
      OR push_bit 16 (word_of_nat g) OR push_bit 8 (word_of_nat b) OR 2"
    by (rule exI [where x = "0x10::nat"], simp, rule exI [where x = "0x20::nat"], simp, rule exI [where x = "0x30::nat"], simp)
  then show "sgr_color (g_bg example_cell)" by (simp add: sgr_color_def example_cell_def zero_gpu_cell_def)
qed (simp_all add: example_cell_def zero_gpu_cell_def zero_attrs_def sgr_color_def)

text \<open>The two differences that the text does not carry.\<close>

lemma dotted_underline_lost:
  "sgr_text_effect (cell_as_sgr (zero_gpu_cell\<lparr>g_attrs := zero_attrs\<lparr>a_decoration := 4\<rparr>\<rparr>) zero_gpu_cell) zero_cursor
     = Some zero_cursor"
  by (simp add: sgr_text_effect_items sgr_items_def intensity_items_def flag_items_def color_items_def
      decoration_items_def decoration_item_def zero_gpu_cell_def zero_attrs_def zero_cursor_def one_sgr_defs)

lemma bold_kept_when_only_dim:
  "sgr_text_effect (cell_as_sgr (zero_gpu_cell\<lparr>g_attrs := zero_attrs\<lparr>a_dim := True\<rparr>\<rparr>)
       (zero_gpu_cell\<lparr>g_attrs := zero_attrs\<lparr>a_bold := True\<rparr>\<rparr>)) (zero_cursor\<lparr>c_bold := True\<rparr>)
     = Some (zero_cursor\<lparr>c_bold := True, c_dim := True\<rparr>)"
  by (simp add: sgr_text_effect_items sgr_items_def intensity_items_def flag_items_def color_items_def
      decoration_items_def decoration_item_def zero_gpu_cell_def zero_attrs_def zero_cursor_def one_sgr_defs)

end
