(* ===== verification/Unicode.thy ===== *)
theory Unicode
  imports Prelude
begin

text \<open>
  The generated Unicode tables of \<^verbatim>\<open>smelly/unicode-data.c\<close> and \<^verbatim>\<open>smelly/wcwidth-std.h\<close> and the
  functions over them: the classes of characters, the numbering of combining characters
  (\<open>mark_for_codepoint\<close>, \<open>codepoint_for_mark\<close>) that a cell stores in 16 bits, and \<open>wcwidth_std\<close>.
  A \<^verbatim>\<open>switch\<close> is the list of its ranges, in the order of the source. The lemmas show that the
  tables, which are generated separately, are consistent with each other.
\<close>

section \<open>Tables\<close>

definition combining_ranges :: "(nat \<times> nat) list" where
  "combining_ranges =
    [(173,173), (768,879), (1155,1161), (1425,1469), (1471,1471), (1473,1474), (1476,1477), (1479,1479),
     (1536,1541), (1552,1562), (1564,1564), (1611,1631), (1648,1648), (1750,1757), (1759,1764),
     (1767,1768), (1770,1773), (1807,1807), (1809,1809), (1840,1866), (1958,1968), (2027,2035),
     (2045,2045), (2070,2073), (2075,2083), (2085,2087), (2089,2093), (2137,2139), (2192,2193),
     (2200,2207), (2250,2307), (2362,2364), (2366,2383), (2385,2391), (2402,2403), (2433,2435),
     (2492,2492), (2494,2500), (2503,2504), (2507,2509), (2519,2519), (2530,2531), (2558,2558),
     (2561,2563), (2620,2620), (2622,2626), (2631,2632), (2635,2637), (2641,2641), (2672,2673),
     (2677,2677), (2689,2691), (2748,2748), (2750,2757), (2759,2761), (2763,2765), (2786,2787),
     (2810,2815), (2817,2819), (2876,2876), (2878,2884), (2887,2888), (2891,2893), (2901,2903),
     (2914,2915), (2946,2946), (3006,3010), (3014,3016), (3018,3021), (3031,3031), (3072,3076),
     (3132,3132), (3134,3140), (3142,3144), (3146,3149), (3157,3158), (3170,3171), (3201,3203),
     (3260,3260), (3262,3268), (3270,3272), (3274,3277), (3285,3286), (3298,3299), (3315,3315),
     (3328,3331), (3387,3388), (3390,3396), (3398,3400), (3402,3405), (3415,3415), (3426,3427),
     (3457,3459), (3530,3530), (3535,3540), (3542,3542), (3544,3551), (3570,3571), (3633,3633),
     (3636,3642), (3655,3662), (3761,3761), (3764,3772), (3784,3790), (3864,3865), (3893,3893),
     (3895,3895), (3897,3897), (3902,3903), (3953,3972), (3974,3975), (3981,3991), (3993,4028),
     (4038,4038), (4139,4158), (4182,4185), (4190,4192), (4194,4196), (4199,4205), (4209,4212),
     (4226,4237), (4239,4239), (4250,4253), (4447,4448), (4957,4959), (5906,5909), (5938,5940),
     (5970,5971), (6002,6003), (6068,6099), (6109,6109), (6155,6159), (6277,6278), (6313,6313),
     (6432,6443), (6448,6459), (6679,6683), (6741,6750), (6752,6780), (6783,6783), (6832,6862),
     (6912,6916), (6964,6980), (7019,7027), (7040,7042), (7073,7085), (7142,7155), (7204,7223),
     (7376,7378), (7380,7400), (7405,7405), (7412,7412), (7415,7417), (7616,7679), (8203,8207),
     (8234,8238), (8288,8303), (8400,8432), (11503,11505), (11647,11647), (11744,11775), (12330,12335),
     (12441,12442), (12644,12644), (42607,42610), (42612,42621), (42654,42655), (42736,42737),
     (43010,43010), (43014,43014), (43019,43019), (43043,43047), (43052,43052), (43136,43137),
     (43188,43205), (43232,43249), (43263,43263), (43302,43309), (43335,43347), (43392,43395),
     (43443,43456), (43493,43493), (43561,43574), (43587,43587), (43596,43597), (43643,43645),
     (43696,43696), (43698,43700), (43703,43704), (43710,43711), (43713,43713), (43755,43759),
     (43765,43766), (44003,44010), (44012,44013), (64286,64286), (65024,65039), (65056,65071),
     (65279,65279), (65440,65440), (65520,65531), (66045,66045), (66272,66272), (66422,66426),
     (68097,68099), (68101,68102), (68108,68111), (68152,68154), (68159,68159), (68325,68326),
     (68900,68903), (69291,69292), (69373,69375), (69446,69456), (69506,69509), (69632,69634),
     (69688,69702), (69744,69744), (69747,69748), (69759,69762), (69808,69818), (69821,69821),
     (69826,69826), (69837,69837), (69888,69890), (69927,69940), (69957,69958), (70003,70003),
     (70016,70018), (70067,70080), (70089,70092), (70094,70095), (70188,70199), (70206,70206),
     (70209,70209), (70367,70378), (70400,70403), (70459,70460), (70462,70468), (70471,70472),
     (70475,70477), (70487,70487), (70498,70499), (70502,70508), (70512,70516), (70709,70726),
     (70750,70750), (70832,70851), (71087,71093), (71096,71104), (71132,71133), (71216,71232),
     (71339,71351), (71453,71467), (71724,71738), (71984,71989), (71991,71992), (71995,71998),
     (72000,72000), (72002,72003), (72145,72151), (72154,72160), (72164,72164), (72193,72202),
     (72243,72249), (72251,72254), (72263,72263), (72273,72283), (72330,72345), (72751,72758),
     (72760,72767), (72850,72871), (72873,72886), (73009,73014), (73018,73018), (73020,73021),
     (73023,73029), (73031,73031), (73098,73102), (73104,73105), (73107,73111), (73459,73462),
     (73472,73473), (73475,73475), (73524,73530), (73534,73538), (78896,78912), (78919,78933),
     (92912,92916), (92976,92982), (94031,94031), (94033,94087), (94095,94098), (94180,94180),
     (94192,94193), (113821,113822), (113824,113827), (118528,118573), (118576,118598), (119141,119145),
     (119149,119170), (119173,119179), (119210,119213), (119362,119364), (121344,121398),
     (121403,121452), (121461,121461), (121476,121476), (121499,121503), (121505,121519),
     (122880,122886), (122888,122904), (122907,122913), (122915,122916), (122918,122922),
     (123023,123023), (123184,123190), (123566,123566), (123628,123631), (124140,124143),
     (125136,125142), (125252,125258), (127462,127487), (127995,127999), (917504,921599)]"

definition ignored_ranges :: "(nat \<times> nat) list" where
  "ignored_ranges =
    [(0,31), (127,159), (55296,57343), (64976,65007), (65534,65535), (131070,131071), (196606,196607),
     (262142,262143), (327678,327679), (393214,393215), (458750,458751), (524286,524287),
     (589822,589823), (655358,655359), (720894,720895), (786430,786431), (851966,851967),
     (917502,917503), (983038,983039), (1048574,1048575), (1114110,1114111)]"

definition non_rendered_ranges :: "(nat \<times> nat) list" where
  "non_rendered_ranges =
    [(0,31), (127,159), (173,173), (847,847), (1536,1541), (1564,1564), (1757,1757), (1807,1807),
     (2192,2193), (2274,2274), (4447,4448), (6068,6069), (6158,6158), (8203,8207), (8234,8238),
     (8288,8303), (12644,12644), (55296,57343), (65024,65039), (65279,65279), (65440,65440),
     (65520,65531), (69821,69821), (69837,69837), (78896,78911), (113824,113827), (119155,119162),
     (917504,917759), (918000,921599)]"

definition word_ranges :: "(nat \<times> nat) list" where
  "word_ranges =
    [(48,57), (65,90), (97,122), (170,170), (178,179), (181,181), (185,186), (188,190), (192,214),
     (216,246), (248,705), (710,721), (736,740), (748,748), (750,750), (880,884), (886,887), (890,893),
     (895,895), (902,902), (904,906), (908,908), (910,929), (931,1013), (1015,1153), (1162,1327),
     (1329,1366), (1369,1369), (1376,1416), (1488,1514), (1519,1522), (1568,1610), (1632,1641),
     (1646,1647), (1649,1747), (1749,1749), (1765,1766), (1774,1788), (1791,1791), (1808,1808),
     (1810,1839), (1869,1957), (1969,1969), (1984,2026), (2036,2037), (2042,2042), (2048,2069),
     (2074,2074), (2084,2084), (2088,2088), (2112,2136), (2144,2154), (2160,2183), (2185,2190),
     (2208,2249), (2308,2361), (2365,2365), (2384,2384), (2392,2401), (2406,2415), (2417,2432),
     (2437,2444), (2447,2448), (2451,2472), (2474,2480), (2482,2482), (2486,2489), (2493,2493),
     (2510,2510), (2524,2525), (2527,2529), (2534,2545), (2548,2553), (2556,2556), (2565,2570),
     (2575,2576), (2579,2600), (2602,2608), (2610,2611), (2613,2614), (2616,2617), (2649,2652),
     (2654,2654), (2662,2671), (2674,2676), (2693,2701), (2703,2705), (2707,2728), (2730,2736),
     (2738,2739), (2741,2745), (2749,2749), (2768,2768), (2784,2785), (2790,2799), (2809,2809),
     (2821,2828), (2831,2832), (2835,2856), (2858,2864), (2866,2867), (2869,2873), (2877,2877),
     (2908,2909), (2911,2913), (2918,2927), (2929,2935), (2947,2947), (2949,2954), (2958,2960),
     (2962,2965), (2969,2970), (2972,2972), (2974,2975), (2979,2980), (2984,2986), (2990,3001),
     (3024,3024), (3046,3058), (3077,3084), (3086,3088), (3090,3112), (3114,3129), (3133,3133),
     (3160,3162), (3165,3165), (3168,3169), (3174,3183), (3192,3198), (3200,3200), (3205,3212),
     (3214,3216), (3218,3240), (3242,3251), (3253,3257), (3261,3261), (3293,3294), (3296,3297),
     (3302,3311), (3313,3314), (3332,3340), (3342,3344), (3346,3386), (3389,3389), (3406,3406),
     (3412,3414), (3416,3425), (3430,3448), (3450,3455), (3461,3478), (3482,3505), (3507,3515),
     (3517,3517), (3520,3526), (3558,3567), (3585,3632), (3634,3635), (3648,3654), (3664,3673),
     (3713,3714), (3716,3716), (3718,3722), (3724,3747), (3749,3749), (3751,3760), (3762,3763),
     (3773,3773), (3776,3780), (3782,3782), (3792,3801), (3804,3807), (3840,3840), (3872,3891),
     (3904,3911), (3913,3948), (3976,3980), (4096,4138), (4159,4169), (4176,4181), (4186,4189),
     (4193,4193), (4197,4198), (4206,4208), (4213,4225), (4238,4238), (4240,4249), (4256,4293),
     (4295,4295), (4301,4301), (4304,4346), (4348,4680), (4682,4685), (4688,4694), (4696,4696),
     (4698,4701), (4704,4744), (4746,4749), (4752,4784), (4786,4789), (4792,4798), (4800,4800),
     (4802,4805), (4808,4822), (4824,4880), (4882,4885), (4888,4954), (4969,4988), (4992,5007),
     (5024,5109), (5112,5117), (5121,5740), (5743,5759), (5761,5786), (5792,5866), (5870,5880),
     (5888,5905), (5919,5937), (5952,5969), (5984,5996), (5998,6000), (6016,6067), (6103,6103),
     (6108,6108), (6112,6121), (6128,6137), (6160,6169), (6176,6264), (6272,6276), (6279,6312),
     (6314,6314), (6320,6389), (6400,6430), (6470,6509), (6512,6516), (6528,6571), (6576,6601),
     (6608,6618), (6656,6678), (6688,6740), (6784,6793), (6800,6809), (6823,6823), (6917,6963),
     (6981,6988), (6992,7001), (7043,7072), (7086,7141), (7168,7203), (7232,7241), (7245,7293),
     (7296,7304), (7312,7354), (7357,7359), (7401,7404), (7406,7411), (7413,7414), (7418,7418),
     (7424,7615), (7680,7957), (7960,7965), (7968,8005), (8008,8013), (8016,8023), (8025,8025),
     (8027,8027), (8029,8029), (8031,8061), (8064,8116), (8118,8124), (8126,8126), (8130,8132),
     (8134,8140), (8144,8147), (8150,8155), (8160,8172), (8178,8180), (8182,8188), (8304,8305),
     (8308,8313), (8319,8329), (8336,8348), (8450,8450), (8455,8455), (8458,8467), (8469,8469),
     (8473,8477), (8484,8484), (8486,8486), (8488,8488), (8490,8493), (8495,8505), (8508,8511),
     (8517,8521), (8526,8526), (8528,8585), (9312,9371), (9450,9471), (10102,10131), (11264,11492),
     (11499,11502), (11506,11507), (11517,11517), (11520,11557), (11559,11559), (11565,11565),
     (11568,11623), (11631,11631), (11648,11670), (11680,11686), (11688,11694), (11696,11702),
     (11704,11710), (11712,11718), (11720,11726), (11728,11734), (11736,11742), (11823,11823),
     (12293,12295), (12321,12329), (12337,12341), (12344,12348), (12353,12438), (12445,12447),
     (12449,12538), (12540,12543), (12549,12591), (12593,12686), (12690,12693), (12704,12735),
     (12784,12799), (12832,12841), (12872,12879), (12881,12895), (12928,12937), (12977,12991),
     (13312,19903), (19968,42124), (42192,42237), (42240,42508), (42512,42539), (42560,42606),
     (42623,42653), (42656,42735), (42775,42783), (42786,42888), (42891,42954), (42960,42961),
     (42963,42963), (42965,42969), (42994,43009), (43011,43013), (43015,43018), (43020,43042),
     (43056,43061), (43072,43123), (43138,43187), (43216,43225), (43250,43255), (43259,43259),
     (43261,43262), (43264,43301), (43312,43334), (43360,43388), (43396,43442), (43471,43481),
     (43488,43492), (43494,43518), (43520,43560), (43584,43586), (43588,43595), (43600,43609),
     (43616,43638), (43642,43642), (43646,43695), (43697,43697), (43701,43702), (43705,43709),
     (43712,43712), (43714,43714), (43739,43741), (43744,43754), (43762,43764), (43777,43782),
     (43785,43790), (43793,43798), (43808,43814), (43816,43822), (43824,43866), (43868,43881),
     (43888,44002), (44016,44025), (44032,55203), (55216,55238), (55243,55291), (63744,64109),
     (64112,64217), (64256,64262), (64275,64279), (64285,64285), (64287,64296), (64298,64310),
     (64312,64316), (64318,64318), (64320,64321), (64323,64324), (64326,64433), (64467,64829),
     (64848,64911), (64914,64967), (65008,65019), (65136,65140), (65142,65276), (65296,65305),
     (65313,65338), (65345,65370), (65382,65470), (65474,65479), (65482,65487), (65490,65495),
     (65498,65500), (65536,65547), (65549,65574), (65576,65594), (65596,65597), (65599,65613),
     (65616,65629), (65664,65786), (65799,65843), (65856,65912), (65930,65931), (66176,66204),
     (66208,66256), (66273,66299), (66304,66339), (66349,66378), (66384,66421), (66432,66461),
     (66464,66499), (66504,66511), (66513,66517), (66560,66717), (66720,66729), (66736,66771),
     (66776,66811), (66816,66855), (66864,66915), (66928,66938), (66940,66954), (66956,66962),
     (66964,66965), (66967,66977), (66979,66993), (66995,67001), (67003,67004), (67072,67382),
     (67392,67413), (67424,67431), (67456,67461), (67463,67504), (67506,67514), (67584,67589),
     (67592,67592), (67594,67637), (67639,67640), (67644,67644), (67647,67669), (67672,67702),
     (67705,67742), (67751,67759), (67808,67826), (67828,67829), (67835,67867), (67872,67897),
     (67968,68023), (68028,68047), (68050,68096), (68112,68115), (68117,68119), (68121,68149),
     (68160,68168), (68192,68222), (68224,68255), (68288,68295), (68297,68324), (68331,68335),
     (68352,68405), (68416,68437), (68440,68466), (68472,68497), (68521,68527), (68608,68680),
     (68736,68786), (68800,68850), (68858,68899), (68912,68921), (69216,69246), (69248,69289),
     (69296,69297), (69376,69415), (69424,69445), (69457,69460), (69488,69505), (69552,69579),
     (69600,69622), (69635,69687), (69714,69743), (69745,69746), (69749,69749), (69763,69807),
     (69840,69864), (69872,69881), (69891,69926), (69942,69951), (69956,69956), (69959,69959),
     (69968,70002), (70006,70006), (70019,70066), (70081,70084), (70096,70106), (70108,70108),
     (70113,70132), (70144,70161), (70163,70187), (70207,70208), (70272,70278), (70280,70280),
     (70282,70285), (70287,70301), (70303,70312), (70320,70366), (70384,70393), (70405,70412),
     (70415,70416), (70419,70440), (70442,70448), (70450,70451), (70453,70457), (70461,70461),
     (70480,70480), (70493,70497), (70656,70708), (70727,70730), (70736,70745), (70751,70753),
     (70784,70831), (70852,70853), (70855,70855), (70864,70873), (71040,71086), (71128,71131),
     (71168,71215), (71236,71236), (71248,71257), (71296,71338), (71352,71352), (71360,71369),
     (71424,71450), (71472,71483), (71488,71494), (71680,71723), (71840,71922), (71935,71942),
     (71945,71945), (71948,71955), (71957,71958), (71960,71983), (71999,71999), (72001,72001),
     (72016,72025), (72096,72103), (72106,72144), (72161,72161), (72163,72163), (72192,72192),
     (72203,72242), (72250,72250), (72272,72272), (72284,72329), (72349,72349), (72368,72440),
     (72704,72712), (72714,72750), (72768,72768), (72784,72812), (72818,72847), (72960,72966),
     (72968,72969), (72971,73008), (73030,73030), (73040,73049), (73056,73061), (73063,73064),
     (73066,73097), (73112,73112), (73120,73129), (73440,73458), (73474,73474), (73476,73488),
     (73490,73523), (73552,73561), (73648,73648), (73664,73684), (73728,74649), (74752,74862),
     (74880,75075), (77712,77808), (77824,78895), (78913,78918), (82944,83526), (92160,92728),
     (92736,92766), (92768,92777), (92784,92862), (92864,92873), (92880,92909), (92928,92975),
     (92992,92995), (93008,93017), (93019,93025), (93027,93047), (93053,93071), (93760,93846),
     (93952,94026), (94032,94032), (94099,94111), (94176,94177), (94179,94179), (94208,100343),
     (100352,101589), (101632,101640), (110576,110579), (110581,110587), (110589,110590),
     (110592,110882), (110898,110898), (110928,110930), (110933,110933), (110948,110951),
     (110960,111355), (113664,113770), (113776,113788), (113792,113800), (113808,113817),
     (119488,119507), (119520,119539), (119648,119672), (119808,119892), (119894,119964),
     (119966,119967), (119970,119970), (119973,119974), (119977,119980), (119982,119993),
     (119995,119995), (119997,120003), (120005,120069), (120071,120074), (120077,120084),
     (120086,120092), (120094,120121), (120123,120126), (120128,120132), (120134,120134),
     (120138,120144), (120146,120485), (120488,120512), (120514,120538), (120540,120570),
     (120572,120596), (120598,120628), (120630,120654), (120656,120686), (120688,120712),
     (120714,120744), (120746,120770), (120772,120779), (120782,120831), (122624,122654),
     (122661,122666), (122928,122989), (123136,123180), (123191,123197), (123200,123209),
     (123214,123214), (123536,123565), (123584,123627), (123632,123641), (124112,124139),
     (124144,124153), (124896,124902), (124904,124907), (124909,124910), (124912,124926),
     (124928,125124), (125127,125135), (125184,125251), (125259,125259), (125264,125273),
     (126065,126123), (126125,126127), (126129,126132), (126209,126253), (126255,126269),
     (126464,126467), (126469,126495), (126497,126498), (126500,126500), (126503,126503),
     (126505,126514), (126516,126519), (126521,126521), (126523,126523), (126530,126530),
     (126535,126535), (126537,126537), (126539,126539), (126541,126543), (126545,126546),
     (126548,126548), (126551,126551), (126553,126553), (126555,126555), (126557,126557),
     (126559,126559), (126561,126562), (126564,126564), (126567,126570), (126572,126578),
     (126580,126583), (126585,126588), (126590,126590), (126592,126601), (126603,126619),
     (126625,126627), (126629,126633), (126635,126651), (127232,127244), (130032,130041),
     (131072,173791), (173824,177977), (177984,178205), (178208,183969), (183984,191456),
     (194560,195101), (196608,201546), (201552,205743)]"

definition CZ_ranges :: "(nat \<times> nat) list" where
  "CZ_ranges =
    [(0,32), (127,160), (173,173), (1536,1541), (1564,1564), (1757,1757), (1807,1807), (2192,2193),
     (2274,2274), (5760,5760), (6158,6158), (8192,8207), (8232,8239), (8287,8292), (8294,8303),
     (12288,12288), (55296,63743), (65279,65279), (65529,65531), (69821,69821), (69837,69837),
     (78896,78911), (113824,113827), (119155,119162), (917505,917505), (917536,917631),
     (983040,1048573), (1048576,1114109)]"

definition P_ranges :: "(nat \<times> nat) list" where
  "P_ranges =
    [(33,35), (37,42), (44,47), (58,59), (63,64), (91,93), (95,95), (123,123), (125,125), (161,161),
     (167,167), (171,171), (182,183), (187,187), (191,191), (894,894), (903,903), (1370,1375),
     (1417,1418), (1470,1470), (1472,1472), (1475,1475), (1478,1478), (1523,1524), (1545,1546),
     (1548,1549), (1563,1563), (1565,1567), (1642,1645), (1748,1748), (1792,1805), (2039,2041),
     (2096,2110), (2142,2142), (2404,2405), (2416,2416), (2557,2557), (2678,2678), (2800,2800),
     (3191,3191), (3204,3204), (3572,3572), (3663,3663), (3674,3675), (3844,3858), (3860,3860),
     (3898,3901), (3973,3973), (4048,4052), (4057,4058), (4170,4175), (4347,4347), (4960,4968),
     (5120,5120), (5742,5742), (5787,5788), (5867,5869), (5941,5942), (6100,6102), (6104,6106),
     (6144,6154), (6468,6469), (6686,6687), (6816,6822), (6824,6829), (7002,7008), (7037,7038),
     (7164,7167), (7227,7231), (7294,7295), (7360,7367), (7379,7379), (8208,8231), (8240,8259),
     (8261,8273), (8275,8286), (8317,8318), (8333,8334), (8968,8971), (9001,9002), (10088,10101),
     (10181,10182), (10214,10223), (10627,10648), (10712,10715), (10748,10749), (11513,11516),
     (11518,11519), (11632,11632), (11776,11822), (11824,11855), (11858,11869), (12289,12291),
     (12296,12305), (12308,12319), (12336,12336), (12349,12349), (12448,12448), (12539,12539),
     (42238,42239), (42509,42511), (42611,42611), (42622,42622), (42738,42743), (43124,43127),
     (43214,43215), (43256,43258), (43260,43260), (43310,43311), (43359,43359), (43457,43469),
     (43486,43487), (43612,43615), (43742,43743), (43760,43761), (44011,44011), (64830,64831),
     (65040,65049), (65072,65106), (65108,65121), (65123,65123), (65128,65128), (65130,65131),
     (65281,65283), (65285,65290), (65292,65295), (65306,65307), (65311,65312), (65339,65341),
     (65343,65343), (65371,65371), (65373,65373), (65375,65381), (65792,65794), (66463,66463),
     (66512,66512), (66927,66927), (67671,67671), (67871,67871), (67903,67903), (68176,68184),
     (68223,68223), (68336,68342), (68409,68415), (68505,68508), (69293,69293), (69461,69465),
     (69510,69513), (69703,69709), (69819,69820), (69822,69825), (69952,69955), (70004,70005),
     (70085,70088), (70093,70093), (70107,70107), (70109,70111), (70200,70205), (70313,70313),
     (70731,70735), (70746,70747), (70749,70749), (70854,70854), (71105,71127), (71233,71235),
     (71264,71276), (71353,71353), (71484,71486), (71739,71739), (72004,72006), (72162,72162),
     (72255,72262), (72346,72348), (72350,72354), (72448,72457), (72769,72773), (72816,72817),
     (73463,73464), (73539,73551), (73727,73727), (74864,74868), (77809,77810), (92782,92783),
     (92917,92917), (92983,92987), (92996,92996), (93847,93850), (94178,94178), (113823,113823),
     (121479,121483), (125278,125279)]"

definition mark_ranges :: "(nat \<times> nat \<times> nat) list" where
  "mark_ranges =
    [(0,0,0), (173,173,1), (768,879,2), (1155,1161,114), (1425,1469,121), (1471,1471,166),
     (1473,1474,167), (1476,1477,169), (1479,1479,171), (1536,1541,172), (1552,1562,178),
     (1564,1564,189), (1611,1631,190), (1648,1648,211), (1750,1757,212), (1759,1764,220),
     (1767,1768,226), (1770,1773,228), (1807,1807,232), (1809,1809,233), (1840,1866,234),
     (1958,1968,261), (2027,2035,272), (2045,2045,281), (2070,2073,282), (2075,2083,286),
     (2085,2087,295), (2089,2093,298), (2137,2139,303), (2192,2193,306), (2200,2207,308),
     (2250,2307,316), (2362,2364,374), (2366,2383,377), (2385,2391,395), (2402,2403,402),
     (2433,2435,404), (2492,2492,407), (2494,2500,408), (2503,2504,415), (2507,2509,417),
     (2519,2519,420), (2530,2531,421), (2558,2558,423), (2561,2563,424), (2620,2620,427),
     (2622,2626,428), (2631,2632,433), (2635,2637,435), (2641,2641,438), (2672,2673,439),
     (2677,2677,441), (2689,2691,442), (2748,2748,445), (2750,2757,446), (2759,2761,454),
     (2763,2765,457), (2786,2787,460), (2810,2815,462), (2817,2819,468), (2876,2876,471),
     (2878,2884,472), (2887,2888,479), (2891,2893,481), (2901,2903,484), (2914,2915,487),
     (2946,2946,489), (3006,3010,490), (3014,3016,495), (3018,3021,498), (3031,3031,502),
     (3072,3076,503), (3132,3132,508), (3134,3140,509), (3142,3144,516), (3146,3149,519),
     (3157,3158,523), (3170,3171,525), (3201,3203,527), (3260,3260,530), (3262,3268,531),
     (3270,3272,538), (3274,3277,541), (3285,3286,545), (3298,3299,547), (3315,3315,549),
     (3328,3331,550), (3387,3388,554), (3390,3396,556), (3398,3400,563), (3402,3405,566),
     (3415,3415,570), (3426,3427,571), (3457,3459,573), (3530,3530,576), (3535,3540,577),
     (3542,3542,583), (3544,3551,584), (3570,3571,592), (3633,3633,594), (3636,3642,595),
     (3655,3662,602), (3761,3761,610), (3764,3772,611), (3784,3790,620), (3864,3865,627),
     (3893,3893,629), (3895,3895,630), (3897,3897,631), (3902,3903,632), (3953,3972,634),
     (3974,3975,654), (3981,3991,656), (3993,4028,667), (4038,4038,703), (4139,4158,704),
     (4182,4185,724), (4190,4192,728), (4194,4196,731), (4199,4205,734), (4209,4212,741),
     (4226,4237,745), (4239,4239,757), (4250,4253,758), (4447,4448,762), (4957,4959,764),
     (5906,5909,767), (5938,5940,771), (5970,5971,774), (6002,6003,776), (6068,6099,778),
     (6109,6109,810), (6155,6159,811), (6277,6278,816), (6313,6313,818), (6432,6443,819),
     (6448,6459,831), (6679,6683,843), (6741,6750,848), (6752,6780,858), (6783,6783,887),
     (6832,6862,888), (6912,6916,919), (6964,6980,924), (7019,7027,941), (7040,7042,950),
     (7073,7085,953), (7142,7155,966), (7204,7223,980), (7376,7378,1000), (7380,7400,1003),
     (7405,7405,1024), (7412,7412,1025), (7415,7417,1026), (7616,7679,1029), (8203,8207,1093),
     (8234,8238,1098), (8288,8303,1103), (8400,8432,1119), (11503,11505,1152), (11647,11647,1155),
     (11744,11775,1156), (12330,12335,1188), (12441,12442,1194), (12644,12644,1196), (42607,42610,1197),
     (42612,42621,1201), (42654,42655,1211), (42736,42737,1213), (43010,43010,1215), (43014,43014,1216),
     (43019,43019,1217), (43043,43047,1218), (43052,43052,1223), (43136,43137,1224), (43188,43205,1226),
     (43232,43249,1244), (43263,43263,1262), (43302,43309,1263), (43335,43347,1271), (43392,43395,1284),
     (43443,43456,1288), (43493,43493,1302), (43561,43574,1303), (43587,43587,1317), (43596,43597,1318),
     (43643,43645,1320), (43696,43696,1323), (43698,43700,1324), (43703,43704,1327), (43710,43711,1329),
     (43713,43713,1331), (43755,43759,1332), (43765,43766,1337), (44003,44010,1339), (44012,44013,1347),
     (64286,64286,1349), (65024,65039,1350), (65056,65071,1366), (65279,65279,1382), (65440,65440,1383),
     (65520,65531,1384), (66045,66045,1396), (66272,66272,1397), (66422,66426,1398), (68097,68099,1403),
     (68101,68102,1406), (68108,68111,1408), (68152,68154,1412), (68159,68159,1415), (68325,68326,1416),
     (68900,68903,1418), (69291,69292,1422), (69373,69375,1424), (69446,69456,1427), (69506,69509,1438),
     (69632,69634,1442), (69688,69702,1445), (69744,69744,1460), (69747,69748,1461), (69759,69762,1463),
     (69808,69818,1467), (69821,69821,1478), (69826,69826,1479), (69837,69837,1480), (69888,69890,1481),
     (69927,69940,1484), (69957,69958,1498), (70003,70003,1500), (70016,70018,1501), (70067,70080,1504),
     (70089,70092,1518), (70094,70095,1522), (70188,70199,1524), (70206,70206,1536), (70209,70209,1537),
     (70367,70378,1538), (70400,70403,1550), (70459,70460,1554), (70462,70468,1556), (70471,70472,1563),
     (70475,70477,1565), (70487,70487,1568), (70498,70499,1569), (70502,70508,1571), (70512,70516,1578),
     (70709,70726,1583), (70750,70750,1601), (70832,70851,1602), (71087,71093,1622), (71096,71104,1629),
     (71132,71133,1638), (71216,71232,1640), (71339,71351,1657), (71453,71467,1670), (71724,71738,1685),
     (71984,71989,1700), (71991,71992,1706), (71995,71998,1708), (72000,72000,1712), (72002,72003,1713),
     (72145,72151,1715), (72154,72160,1722), (72164,72164,1729), (72193,72202,1730), (72243,72249,1740),
     (72251,72254,1747), (72263,72263,1751), (72273,72283,1752), (72330,72345,1763), (72751,72758,1779),
     (72760,72767,1787), (72850,72871,1795), (72873,72886,1817), (73009,73014,1831), (73018,73018,1837),
     (73020,73021,1838), (73023,73029,1840), (73031,73031,1847), (73098,73102,1848), (73104,73105,1853),
     (73107,73111,1855), (73459,73462,1860), (73472,73473,1864), (73475,73475,1866), (73524,73530,1867),
     (73534,73538,1874), (78896,78912,1879), (78919,78933,1896), (92912,92916,1911), (92976,92982,1916),
     (94031,94031,1923), (94033,94087,1924), (94095,94098,1979), (94180,94180,1983), (94192,94193,1984),
     (113821,113822,1986), (113824,113827,1988), (118528,118573,1992), (118576,118598,2038),
     (119141,119145,2061), (119149,119170,2066), (119173,119179,2088), (119210,119213,2095),
     (119362,119364,2099), (121344,121398,2102), (121403,121452,2157), (121461,121461,2207),
     (121476,121476,2208), (121499,121503,2209), (121505,121519,2214), (122880,122886,2229),
     (122888,122904,2236), (122907,122913,2253), (122915,122916,2260), (122918,122922,2262),
     (123023,123023,2267), (123184,123190,2268), (123566,123566,2275), (123628,123631,2276),
     (124140,124143,2280), (125136,125142,2284), (125252,125258,2291), (127462,127487,2298),
     (127995,127999,2324), (917504,921599,2329)]"

definition codepoint_runs :: "(nat \<times> nat) list" where
  "codepoint_runs =
    [(0,0), (173,173), (768,879), (1155,1161), (1425,1469), (1471,1471), (1473,1474), (1476,1477),
     (1479,1479), (1536,1541), (1552,1562), (1564,1564), (1611,1631), (1648,1648), (1750,1757),
     (1759,1764), (1767,1768), (1770,1773), (1807,1807), (1809,1809), (1840,1866), (1958,1968),
     (2027,2035), (2045,2045), (2070,2073), (2075,2083), (2085,2087), (2089,2093), (2137,2139),
     (2192,2193), (2200,2207), (2250,2307), (2362,2364), (2366,2383), (2385,2391), (2402,2403),
     (2433,2435), (2492,2492), (2494,2500), (2503,2504), (2507,2509), (2519,2519), (2530,2531),
     (2558,2558), (2561,2563), (2620,2620), (2622,2626), (2631,2632), (2635,2637), (2641,2641),
     (2672,2673), (2677,2677), (2689,2691), (2748,2748), (2750,2757), (2759,2761), (2763,2765),
     (2786,2787), (2810,2815), (2817,2819), (2876,2876), (2878,2884), (2887,2888), (2891,2893),
     (2901,2903), (2914,2915), (2946,2946), (3006,3010), (3014,3016), (3018,3021), (3031,3031),
     (3072,3076), (3132,3132), (3134,3140), (3142,3144), (3146,3149), (3157,3158), (3170,3171),
     (3201,3203), (3260,3260), (3262,3268), (3270,3272), (3274,3277), (3285,3286), (3298,3299),
     (3315,3315), (3328,3331), (3387,3388), (3390,3396), (3398,3400), (3402,3405), (3415,3415),
     (3426,3427), (3457,3459), (3530,3530), (3535,3540), (3542,3542), (3544,3551), (3570,3571),
     (3633,3633), (3636,3642), (3655,3662), (3761,3761), (3764,3772), (3784,3790), (3864,3865),
     (3893,3893), (3895,3895), (3897,3897), (3902,3903), (3953,3972), (3974,3975), (3981,3991),
     (3993,4028), (4038,4038), (4139,4158), (4182,4185), (4190,4192), (4194,4196), (4199,4205),
     (4209,4212), (4226,4237), (4239,4239), (4250,4253), (4447,4448), (4957,4959), (5906,5909),
     (5938,5940), (5970,5971), (6002,6003), (6068,6099), (6109,6109), (6155,6159), (6277,6278),
     (6313,6313), (6432,6443), (6448,6459), (6679,6683), (6741,6750), (6752,6780), (6783,6783),
     (6832,6862), (6912,6916), (6964,6980), (7019,7027), (7040,7042), (7073,7085), (7142,7155),
     (7204,7223), (7376,7378), (7380,7400), (7405,7405), (7412,7412), (7415,7417), (7616,7679),
     (8203,8207), (8234,8238), (8288,8303), (8400,8432), (11503,11505), (11647,11647), (11744,11775),
     (12330,12335), (12441,12442), (12644,12644), (42607,42610), (42612,42621), (42654,42655),
     (42736,42737), (43010,43010), (43014,43014), (43019,43019), (43043,43047), (43052,43052),
     (43136,43137), (43188,43205), (43232,43249), (43263,43263), (43302,43309), (43335,43347),
     (43392,43395), (43443,43456), (43493,43493), (43561,43574), (43587,43587), (43596,43597),
     (43643,43645), (43696,43696), (43698,43700), (43703,43704), (43710,43711), (43713,43713),
     (43755,43759), (43765,43766), (44003,44010), (44012,44013), (64286,64286), (65024,65039),
     (65056,65071), (65279,65279), (65440,65440), (65520,65531), (66045,66045), (66272,66272),
     (66422,66426), (68097,68099), (68101,68102), (68108,68111), (68152,68154), (68159,68159),
     (68325,68326), (68900,68903), (69291,69292), (69373,69375), (69446,69456), (69506,69509),
     (69632,69634), (69688,69702), (69744,69744), (69747,69748), (69759,69762), (69808,69818),
     (69821,69821), (69826,69826), (69837,69837), (69888,69890), (69927,69940), (69957,69958),
     (70003,70003), (70016,70018), (70067,70080), (70089,70092), (70094,70095), (70188,70199),
     (70206,70206), (70209,70209), (70367,70378), (70400,70403), (70459,70460), (70462,70468),
     (70471,70472), (70475,70477), (70487,70487), (70498,70499), (70502,70508), (70512,70516),
     (70709,70726), (70750,70750), (70832,70851), (71087,71093), (71096,71104), (71132,71133),
     (71216,71232), (71339,71351), (71453,71467), (71724,71738), (71984,71989), (71991,71992),
     (71995,71998), (72000,72000), (72002,72003), (72145,72151), (72154,72160), (72164,72164),
     (72193,72202), (72243,72249), (72251,72254), (72263,72263), (72273,72283), (72330,72345),
     (72751,72758), (72760,72767), (72850,72871), (72873,72886), (73009,73014), (73018,73018),
     (73020,73021), (73023,73029), (73031,73031), (73098,73102), (73104,73105), (73107,73111),
     (73459,73462), (73472,73473), (73475,73475), (73524,73530), (73534,73538), (78896,78912),
     (78919,78933), (92912,92916), (92976,92982), (94031,94031), (94033,94087), (94095,94098),
     (94180,94180), (94192,94193), (113821,113822), (113824,113827), (118528,118573), (118576,118598),
     (119141,119145), (119149,119170), (119173,119179), (119210,119213), (119362,119364),
     (121344,121398), (121403,121452), (121461,121461), (121476,121476), (121499,121503),
     (121505,121519), (122880,122886), (122888,122904), (122907,122913), (122915,122916),
     (122918,122922), (123023,123023), (123184,123190), (123566,123566), (123628,123631),
     (124140,124143), (125136,125142), (125252,125258), (127462,127487), (127995,127999), (917504,921599)]"

definition width_flags :: "(nat \<times> nat) list" where
  "width_flags =
    [(127462,127487)]"

definition width_marks :: "(nat \<times> nat) list" where
  "width_marks =
    [(0,0), (173,173), (768,879), (1155,1161), (1425,1469), (1471,1471), (1473,1474), (1476,1477),
     (1479,1479), (1536,1541), (1552,1562), (1564,1564), (1611,1631), (1648,1648), (1750,1757),
     (1759,1764), (1767,1768), (1770,1773), (1807,1807), (1809,1809), (1840,1866), (1958,1968),
     (2027,2035), (2045,2045), (2070,2073), (2075,2083), (2085,2087), (2089,2093), (2137,2139),
     (2192,2193), (2200,2207), (2250,2307), (2362,2364), (2366,2383), (2385,2391), (2402,2403),
     (2433,2435), (2492,2492), (2494,2500), (2503,2504), (2507,2509), (2519,2519), (2530,2531),
     (2558,2558), (2561,2563), (2620,2620), (2622,2626), (2631,2632), (2635,2637), (2641,2641),
     (2672,2673), (2677,2677), (2689,2691), (2748,2748), (2750,2757), (2759,2761), (2763,2765),
     (2786,2787), (2810,2815), (2817,2819), (2876,2876), (2878,2884), (2887,2888), (2891,2893),
     (2901,2903), (2914,2915), (2946,2946), (3006,3010), (3014,3016), (3018,3021), (3031,3031),
     (3072,3076), (3132,3132), (3134,3140), (3142,3144), (3146,3149), (3157,3158), (3170,3171),
     (3201,3203), (3260,3260), (3262,3268), (3270,3272), (3274,3277), (3285,3286), (3298,3299),
     (3315,3315), (3328,3331), (3387,3388), (3390,3396), (3398,3400), (3402,3405), (3415,3415),
     (3426,3427), (3457,3459), (3530,3530), (3535,3540), (3542,3542), (3544,3551), (3570,3571),
     (3633,3633), (3636,3642), (3655,3662), (3761,3761), (3764,3772), (3784,3790), (3864,3865),
     (3893,3893), (3895,3895), (3897,3897), (3902,3903), (3953,3972), (3974,3975), (3981,3991),
     (3993,4028), (4038,4038), (4139,4158), (4182,4185), (4190,4192), (4194,4196), (4199,4205),
     (4209,4212), (4226,4237), (4239,4239), (4250,4253), (4447,4448), (4957,4959), (5906,5909),
     (5938,5940), (5970,5971), (6002,6003), (6068,6099), (6109,6109), (6155,6159), (6277,6278),
     (6313,6313), (6432,6443), (6448,6459), (6679,6683), (6741,6750), (6752,6780), (6783,6783),
     (6832,6862), (6912,6916), (6964,6980), (7019,7027), (7040,7042), (7073,7085), (7142,7155),
     (7204,7223), (7376,7378), (7380,7400), (7405,7405), (7412,7412), (7415,7417), (7616,7679),
     (8203,8207), (8234,8238), (8288,8303), (8400,8432), (11503,11505), (11647,11647), (11744,11775),
     (12330,12335), (12441,12442), (12644,12644), (42607,42610), (42612,42621), (42654,42655),
     (42736,42737), (43010,43010), (43014,43014), (43019,43019), (43043,43047), (43052,43052),
     (43136,43137), (43188,43205), (43232,43249), (43263,43263), (43302,43309), (43335,43347),
     (43392,43395), (43443,43456), (43493,43493), (43561,43574), (43587,43587), (43596,43597),
     (43643,43645), (43696,43696), (43698,43700), (43703,43704), (43710,43711), (43713,43713),
     (43755,43759), (43765,43766), (44003,44010), (44012,44013), (64286,64286), (65024,65039),
     (65056,65071), (65279,65279), (65440,65440), (65520,65531), (66045,66045), (66272,66272),
     (66422,66426), (68097,68099), (68101,68102), (68108,68111), (68152,68154), (68159,68159),
     (68325,68326), (68900,68903), (69291,69292), (69373,69375), (69446,69456), (69506,69509),
     (69632,69634), (69688,69702), (69744,69744), (69747,69748), (69759,69762), (69808,69818),
     (69821,69821), (69826,69826), (69837,69837), (69888,69890), (69927,69940), (69957,69958),
     (70003,70003), (70016,70018), (70067,70080), (70089,70092), (70094,70095), (70188,70199),
     (70206,70206), (70209,70209), (70367,70378), (70400,70403), (70459,70460), (70462,70468),
     (70471,70472), (70475,70477), (70487,70487), (70498,70499), (70502,70508), (70512,70516),
     (70709,70726), (70750,70750), (70832,70851), (71087,71093), (71096,71104), (71132,71133),
     (71216,71232), (71339,71351), (71453,71467), (71724,71738), (71984,71989), (71991,71992),
     (71995,71998), (72000,72000), (72002,72003), (72145,72151), (72154,72160), (72164,72164),
     (72193,72202), (72243,72249), (72251,72254), (72263,72263), (72273,72283), (72330,72345),
     (72751,72758), (72760,72767), (72850,72871), (72873,72886), (73009,73014), (73018,73018),
     (73020,73021), (73023,73029), (73031,73031), (73098,73102), (73104,73105), (73107,73111),
     (73459,73462), (73472,73473), (73475,73475), (73524,73530), (73534,73538), (78896,78912),
     (78919,78933), (92912,92916), (92976,92982), (94031,94031), (94033,94087), (94095,94098),
     (94180,94180), (94192,94193), (113821,113822), (113824,113827), (118528,118573), (118576,118598),
     (119141,119145), (119149,119170), (119173,119179), (119210,119213), (119362,119364),
     (121344,121398), (121403,121452), (121461,121461), (121476,121476), (121499,121503),
     (121505,121519), (122880,122886), (122888,122904), (122907,122913), (122915,122916),
     (122918,122922), (123023,123023), (123184,123190), (123566,123566), (123628,123631),
     (124140,124143), (125136,125142), (125252,125258), (127995,127999), (917504,921599)]"

definition width_non_printing :: "(nat \<times> nat) list" where
  "width_non_printing =
    [(1,31), (127,159), (55296,57343)]"

definition width_private_use :: "(nat \<times> nat) list" where
  "width_private_use =
    [(57344,63743), (983040,1048573), (1048576,1114109)]"

definition width_text_presentation :: "(nat \<times> nat) list" where
  "width_text_presentation =
    [(35,35), (42,42), (48,57), (169,169), (174,174), (8252,8252), (8265,8265), (8482,8482),
     (8505,8505), (8596,8601), (8617,8618), (9000,9000), (9167,9167), (9197,9199), (9201,9202),
     (9208,9210), (9410,9410), (9642,9643), (9654,9654), (9664,9664), (9723,9724), (9728,9732),
     (9742,9742), (9745,9745), (9752,9752), (9757,9757), (9760,9760), (9762,9763), (9766,9766),
     (9770,9770), (9774,9775), (9784,9786), (9792,9792), (9794,9794), (9823,9824), (9827,9827),
     (9829,9830), (9832,9832), (9851,9851), (9854,9854), (9874,9874), (9876,9879), (9881,9881),
     (9883,9884), (9888,9888), (9895,9895), (9904,9905), (9928,9928), (9935,9935), (9937,9937),
     (9939,9939), (9961,9961), (9968,9969), (9972,9972), (9975,9977), (9986,9986), (9992,9993),
     (9996,9997), (9999,9999), (10002,10002), (10004,10004), (10006,10006), (10013,10013),
     (10017,10017), (10035,10036), (10052,10052), (10055,10055), (10083,10084), (10145,10145),
     (10548,10549), (11013,11015), (12336,12336), (12349,12349), (12951,12951), (12953,12953),
     (127344,127345), (127358,127359), (127490,127490), (127543,127543), (127777,127777),
     (127780,127788), (127798,127798), (127869,127869), (127894,127895), (127897,127899),
     (127902,127903), (127947,127950), (127956,127967), (127987,127987), (127989,127989),
     (127991,127991), (128063,128063), (128065,128065), (128253,128253), (128329,128330),
     (128367,128368), (128371,128377), (128391,128391), (128394,128397), (128400,128400),
     (128421,128421), (128424,128424), (128433,128434), (128444,128444), (128450,128452),
     (128465,128467), (128476,128478), (128481,128481), (128483,128483), (128488,128488),
     (128495,128495), (128499,128499), (128506,128506), (128715,128715), (128717,128719),
     (128736,128741), (128745,128745), (128752,128752), (128755,128755)]"

definition width_ambiguous :: "(nat \<times> nat) list" where
  "width_ambiguous =
    [(161,161), (164,164), (167,168), (170,170), (176,180), (182,186), (188,191), (198,198), (208,208),
     (215,216), (222,225), (230,230), (232,234), (236,237), (240,240), (242,243), (247,250), (252,252),
     (254,254), (257,257), (273,273), (275,275), (283,283), (294,295), (299,299), (305,307), (312,312),
     (319,322), (324,324), (328,331), (333,333), (338,339), (358,359), (363,363), (462,462), (464,464),
     (466,466), (468,468), (470,470), (472,472), (474,474), (476,476), (593,593), (609,609), (708,708),
     (711,711), (713,715), (717,717), (720,720), (728,731), (733,733), (735,735), (913,929), (931,937),
     (945,961), (963,969), (1025,1025), (1040,1103), (1105,1105), (8208,8208), (8211,8214), (8216,8217),
     (8220,8221), (8224,8226), (8228,8231), (8240,8240), (8242,8243), (8245,8245), (8251,8251),
     (8254,8254), (8308,8308), (8319,8319), (8321,8324), (8364,8364), (8451,8451), (8453,8453),
     (8457,8457), (8467,8467), (8470,8470), (8481,8481), (8486,8486), (8491,8491), (8531,8532),
     (8539,8542), (8544,8555), (8560,8569), (8585,8585), (8592,8595), (8632,8633), (8658,8658),
     (8660,8660), (8679,8679), (8704,8704), (8706,8707), (8711,8712), (8715,8715), (8719,8719),
     (8721,8721), (8725,8725), (8730,8730), (8733,8736), (8739,8739), (8741,8741), (8743,8748),
     (8750,8750), (8756,8759), (8764,8765), (8776,8776), (8780,8780), (8786,8786), (8800,8801),
     (8804,8807), (8810,8811), (8814,8815), (8834,8835), (8838,8839), (8853,8853), (8857,8857),
     (8869,8869), (8895,8895), (8978,8978), (9312,9409), (9411,9449), (9451,9547), (9552,9587),
     (9600,9615), (9618,9621), (9632,9633), (9635,9641), (9650,9651), (9655,9655), (9660,9661),
     (9665,9665), (9670,9672), (9675,9675), (9678,9681), (9698,9701), (9711,9711), (9733,9734),
     (9737,9737), (9743,9743), (9756,9756), (9758,9758), (9825,9825), (9828,9828), (9831,9831),
     (9833,9834), (9836,9837), (9839,9839), (9886,9887), (9919,9919), (9926,9927), (9929,9933),
     (9936,9936), (9938,9938), (9941,9953), (9955,9955), (9960,9960), (9963,9967), (9974,9974),
     (9979,9980), (9982,9983), (10045,10045), (10102,10111), (11094,11097), (12872,12879),
     (65533,65533), (127232,127242), (127248,127277), (127280,127337), (127346,127357), (127360,127373),
     (127375,127376), (127387,127404)]"

definition width_double_width :: "(nat \<times> nat) list" where
  "width_double_width =
    [(4352,4446), (8986,8987), (9001,9002), (9193,9196), (9200,9200), (9203,9203), (9725,9726),
     (9748,9749), (9800,9811), (9855,9855), (9875,9875), (9889,9889), (9898,9899), (9917,9918),
     (9924,9925), (9934,9934), (9940,9940), (9962,9962), (9970,9971), (9973,9973), (9978,9978),
     (9981,9981), (9989,9989), (9994,9995), (10024,10024), (10060,10060), (10062,10062), (10067,10069),
     (10071,10071), (10133,10135), (10160,10160), (10175,10175), (11035,11036), (11088,11088),
     (11093,11093), (11904,11929), (11931,12019), (12032,12245), (12272,12283), (12288,12329),
     (12337,12348), (12350,12350), (12353,12438), (12443,12543), (12549,12591), (12593,12643),
     (12645,12686), (12688,12771), (12784,12830), (12832,12871), (12880,12950), (12952,12952),
     (12954,19903), (19968,42124), (42128,42182), (43360,43388), (44032,55203), (63744,64255),
     (65040,65049), (65072,65106), (65108,65126), (65128,65131), (65281,65376), (65504,65510),
     (94176,94179), (94208,100343), (100352,101589), (101632,101640), (110576,110579), (110581,110587),
     (110589,110590), (110592,110882), (110898,110898), (110928,110930), (110933,110933),
     (110948,110951), (110960,111355), (126980,126980), (127183,127183), (127374,127374),
     (127377,127386), (127488,127489), (127504,127542), (127544,127547), (127552,127560),
     (127568,127569), (127584,127589), (127744,127776), (127789,127797), (127799,127868),
     (127870,127891), (127904,127946), (127951,127955), (127968,127984), (127988,127988),
     (127992,127994), (128000,128062), (128064,128064), (128066,128252), (128255,128317),
     (128331,128334), (128336,128359), (128378,128378), (128405,128406), (128420,128420),
     (128507,128591), (128640,128709), (128716,128716), (128720,128722), (128725,128727),
     (128732,128735), (128747,128748), (128756,128764), (128992,129003), (129008,129008),
     (129292,129338), (129340,129349), (129351,129535), (129648,129660), (129664,129672),
     (129680,129725), (129727,129733), (129742,129755), (129760,129768), (129776,129784),
     (131072,196605), (196608,262141)]"

definition width_unassigned :: "(nat \<times> nat) list" where
  "width_unassigned =
    [(888,889), (896,899), (907,907), (909,909), (930,930), (1328,1328), (1367,1368), (1419,1420),
     (1424,1424), (1480,1487), (1515,1518), (1525,1535), (1806,1806), (1867,1868), (1970,1983),
     (2043,2044), (2094,2095), (2111,2111), (2140,2141), (2143,2143), (2155,2159), (2191,2191),
     (2194,2199), (2436,2436), (2445,2446), (2449,2450), (2473,2473), (2481,2481), (2483,2485),
     (2490,2491), (2501,2502), (2505,2506), (2511,2518), (2520,2523), (2526,2526), (2532,2533),
     (2559,2560), (2564,2564), (2571,2574), (2577,2578), (2601,2601), (2609,2609), (2612,2612),
     (2615,2615), (2618,2619), (2621,2621), (2627,2630), (2633,2634), (2638,2640), (2642,2648),
     (2653,2653), (2655,2661), (2679,2688), (2692,2692), (2702,2702), (2706,2706), (2729,2729),
     (2737,2737), (2740,2740), (2746,2747), (2758,2758), (2762,2762), (2766,2767), (2769,2783),
     (2788,2789), (2802,2808), (2816,2816), (2820,2820), (2829,2830), (2833,2834), (2857,2857),
     (2865,2865), (2868,2868), (2874,2875), (2885,2886), (2889,2890), (2894,2900), (2904,2907),
     (2910,2910), (2916,2917), (2936,2945), (2948,2948), (2955,2957), (2961,2961), (2966,2968),
     (2971,2971), (2973,2973), (2976,2978), (2981,2983), (2987,2989), (3002,3005), (3011,3013),
     (3017,3017), (3022,3023), (3025,3030), (3032,3045), (3067,3071), (3085,3085), (3089,3089),
     (3113,3113), (3130,3131), (3141,3141), (3145,3145), (3150,3156), (3159,3159), (3163,3164),
     (3166,3167), (3172,3173), (3184,3190), (3213,3213), (3217,3217), (3241,3241), (3252,3252),
     (3258,3259), (3269,3269), (3273,3273), (3278,3284), (3287,3292), (3295,3295), (3300,3301),
     (3312,3312), (3316,3327), (3341,3341), (3345,3345), (3397,3397), (3401,3401), (3408,3411),
     (3428,3429), (3456,3456), (3460,3460), (3479,3481), (3506,3506), (3516,3516), (3518,3519),
     (3527,3529), (3531,3534), (3541,3541), (3543,3543), (3552,3557), (3568,3569), (3573,3584),
     (3643,3646), (3676,3712), (3715,3715), (3717,3717), (3723,3723), (3748,3748), (3750,3750),
     (3774,3775), (3781,3781), (3783,3783), (3791,3791), (3802,3803), (3808,3839), (3912,3912),
     (3949,3952), (3992,3992), (4029,4029), (4045,4045), (4059,4095), (4294,4294), (4296,4300),
     (4302,4303), (4681,4681), (4686,4687), (4695,4695), (4697,4697), (4702,4703), (4745,4745),
     (4750,4751), (4785,4785), (4790,4791), (4799,4799), (4801,4801), (4806,4807), (4823,4823),
     (4881,4881), (4886,4887), (4955,4956), (4989,4991), (5018,5023), (5110,5111), (5118,5119),
     (5789,5791), (5881,5887), (5910,5918), (5943,5951), (5972,5983), (5997,5997), (6001,6001),
     (6004,6015), (6110,6111), (6122,6127), (6138,6143), (6170,6175), (6265,6271), (6315,6319),
     (6390,6399), (6431,6431), (6444,6447), (6460,6463), (6465,6467), (6510,6511), (6517,6527),
     (6572,6575), (6602,6607), (6619,6621), (6684,6685), (6751,6751), (6781,6782), (6794,6799),
     (6810,6815), (6830,6831), (6863,6911), (6989,6991), (7039,7039), (7156,7163), (7224,7226),
     (7242,7244), (7305,7311), (7355,7356), (7368,7375), (7419,7423), (7958,7959), (7966,7967),
     (8006,8007), (8014,8015), (8024,8024), (8026,8026), (8028,8028), (8030,8030), (8062,8063),
     (8117,8117), (8133,8133), (8148,8149), (8156,8156), (8176,8177), (8181,8181), (8191,8191),
     (8306,8307), (8335,8335), (8349,8351), (8385,8399), (8433,8447), (8588,8591), (9255,9279),
     (9291,9311), (11124,11125), (11158,11158), (11508,11512), (11558,11558), (11560,11564),
     (11566,11567), (11624,11630), (11633,11646), (11671,11679), (11687,11687), (11695,11695),
     (11703,11703), (11711,11711), (11719,11719), (11727,11727), (11735,11735), (11743,11743),
     (11870,11903), (11930,11930), (12020,12031), (12246,12271), (12284,12287), (12352,12352),
     (12439,12440), (12544,12548), (12592,12592), (12687,12687), (12772,12783), (12831,12831),
     (42125,42127), (42183,42191), (42540,42559), (42744,42751), (42955,42959), (42962,42962),
     (42964,42964), (42970,42993), (43053,43055), (43066,43071), (43128,43135), (43206,43213),
     (43226,43231), (43348,43358), (43389,43391), (43470,43470), (43482,43485), (43519,43519),
     (43575,43583), (43598,43599), (43610,43611), (43715,43738), (43767,43776), (43783,43784),
     (43791,43792), (43799,43807), (43815,43815), (43823,43823), (43884,43887), (44014,44015),
     (44026,44031), (55204,55215), (55239,55242), (55292,55295), (64263,64274), (64280,64284),
     (64311,64311), (64317,64317), (64319,64319), (64322,64322), (64325,64325), (64451,64466),
     (64912,64913), (64968,64974), (64976,65007), (65050,65055), (65107,65107), (65127,65127),
     (65132,65135), (65141,65141), (65277,65278), (65280,65280), (65471,65473), (65480,65481),
     (65488,65489), (65496,65497), (65501,65503), (65511,65511), (65519,65519), (65534,65535),
     (65548,65548), (65575,65575), (65595,65595), (65598,65598), (65614,65615), (65630,65663),
     (65787,65791), (65795,65798), (65844,65846), (65935,65935), (65949,65951), (65953,65999),
     (66046,66175), (66205,66207), (66257,66271), (66300,66303), (66340,66348), (66379,66383),
     (66427,66431), (66462,66462), (66500,66503), (66518,66559), (66718,66719), (66730,66735),
     (66772,66775), (66812,66815), (66856,66863), (66916,66926), (66939,66939), (66955,66955),
     (66963,66963), (66966,66966), (66978,66978), (66994,66994), (67002,67002), (67005,67071),
     (67383,67391), (67414,67423), (67432,67455), (67462,67462), (67505,67505), (67515,67583),
     (67590,67591), (67593,67593), (67638,67638), (67641,67643), (67645,67646), (67670,67670),
     (67743,67750), (67760,67807), (67827,67827), (67830,67834), (67868,67870), (67898,67902),
     (67904,67967), (68024,68027), (68048,68049), (68100,68100), (68103,68107), (68116,68116),
     (68120,68120), (68150,68151), (68155,68158), (68169,68175), (68185,68191), (68256,68287),
     (68327,68330), (68343,68351), (68406,68408), (68438,68439), (68467,68471), (68498,68504),
     (68509,68520), (68528,68607), (68681,68735), (68787,68799), (68851,68857), (68904,68911),
     (68922,69215), (69247,69247), (69290,69290), (69294,69295), (69298,69372), (69416,69423),
     (69466,69487), (69514,69551), (69580,69599), (69623,69631), (69710,69713), (69750,69758),
     (69827,69836), (69838,69839), (69865,69871), (69882,69887), (69941,69941), (69960,69967),
     (70007,70015), (70112,70112), (70133,70143), (70162,70162), (70210,70271), (70279,70279),
     (70281,70281), (70286,70286), (70302,70302), (70314,70319), (70379,70383), (70394,70399),
     (70404,70404), (70413,70414), (70417,70418), (70441,70441), (70449,70449), (70452,70452),
     (70458,70458), (70469,70470), (70473,70474), (70478,70479), (70481,70486), (70488,70492),
     (70500,70501), (70509,70511), (70517,70655), (70748,70748), (70754,70783), (70856,70863),
     (70874,71039), (71094,71095), (71134,71167), (71237,71247), (71258,71263), (71277,71295),
     (71354,71359), (71370,71423), (71451,71452), (71468,71471), (71495,71679), (71740,71839),
     (71923,71934), (71943,71944), (71946,71947), (71956,71956), (71959,71959), (71990,71990),
     (71993,71994), (72007,72015), (72026,72095), (72104,72105), (72152,72153), (72165,72191),
     (72264,72271), (72355,72367), (72441,72447), (72458,72703), (72713,72713), (72759,72759),
     (72774,72783), (72813,72815), (72848,72849), (72872,72872), (72887,72959), (72967,72967),
     (72970,72970), (73015,73017), (73019,73019), (73022,73022), (73032,73039), (73050,73055),
     (73062,73062), (73065,73065), (73103,73103), (73106,73106), (73113,73119), (73130,73439),
     (73465,73471), (73489,73489), (73531,73533), (73562,73647), (73649,73663), (73714,73726),
     (74650,74751), (74863,74863), (74869,74879), (75076,77711), (77811,77823), (78934,82943),
     (83527,92159), (92729,92735), (92767,92767), (92778,92781), (92863,92863), (92874,92879),
     (92910,92911), (92918,92927), (92998,93007), (93018,93018), (93026,93026), (93048,93052),
     (93072,93759), (93851,93951), (94027,94030), (94088,94094), (94112,94175), (94181,94191),
     (94194,94207), (100344,100351), (101590,101631), (101641,110575), (110580,110580), (110588,110588),
     (110591,110591), (110883,110897), (110899,110927), (110931,110932), (110934,110947),
     (110952,110959), (111356,113663), (113771,113775), (113789,113791), (113801,113807),
     (113818,113819), (113828,118527), (118574,118575), (118599,118607), (118724,118783),
     (119030,119039), (119079,119080), (119275,119295), (119366,119487), (119508,119519),
     (119540,119551), (119639,119647), (119673,119807), (119893,119893), (119965,119965),
     (119968,119969), (119971,119972), (119975,119976), (119981,119981), (119994,119994),
     (119996,119996), (120004,120004), (120070,120070), (120075,120076), (120085,120085),
     (120093,120093), (120122,120122), (120127,120127), (120133,120133), (120135,120137),
     (120145,120145), (120486,120487), (120780,120781), (121484,121498), (121504,121504),
     (121520,122623), (122655,122660), (122667,122879), (122887,122887), (122905,122906),
     (122914,122914), (122917,122917), (122923,122927), (122990,123022), (123024,123135),
     (123181,123183), (123198,123199), (123210,123213), (123216,123535), (123567,123583),
     (123642,123646), (123648,124111), (124154,124895), (124903,124903), (124908,124908),
     (124911,124911), (124927,124927), (125125,125126), (125143,125183), (125260,125263),
     (125274,125277), (125280,126064), (126133,126208), (126270,126463), (126468,126468),
     (126496,126496), (126499,126499), (126501,126502), (126504,126504), (126515,126515),
     (126520,126520), (126522,126522), (126524,126529), (126531,126534), (126536,126536),
     (126538,126538), (126540,126540), (126544,126544), (126547,126547), (126549,126550),
     (126552,126552), (126554,126554), (126556,126556), (126558,126558), (126560,126560),
     (126563,126563), (126565,126566), (126571,126571), (126579,126579), (126584,126584),
     (126589,126589), (126591,126591), (126602,126602), (126620,126624), (126628,126628),
     (126634,126634), (126652,126703), (126706,126975), (127020,127023), (127124,127135),
     (127151,127152), (127168,127168), (127184,127184), (127222,127231), (127406,127461),
     (127491,127503), (127548,127551), (127561,127567), (127570,127583), (127590,127743),
     (128728,128731), (128749,128751), (128765,128767), (128887,128890), (128986,128991),
     (129004,129007), (129009,129023), (129036,129039), (129096,129103), (129114,129119),
     (129160,129167), (129198,129199), (129202,129279), (129620,129631), (129646,129647),
     (129661,129663), (129673,129679), (129726,129726), (129734,129741), (129756,129759),
     (129769,129775), (129785,129791), (129939,129939), (129995,130031), (130042,131071),
     (196606,196607), (262142,917503), (921600,983039), (1048574,1048575), (1114110,1114110)]"

definition emoji_base_ranges :: "(nat \<times> nat) list" where
  "emoji_base_ranges =
    [(35,35), (42,42), (48,57), (169,169), (174,174), (8252,8252), (8265,8265), (8482,8482),
     (8505,8505), (8596,8601), (8617,8618), (8986,8987), (9000,9000), (9167,9167), (9193,9203),
     (9208,9210), (9410,9410), (9642,9643), (9654,9654), (9664,9664), (9723,9726), (9728,9732),
     (9742,9742), (9745,9745), (9748,9749), (9752,9752), (9757,9757), (9760,9760), (9762,9763),
     (9766,9766), (9770,9770), (9774,9775), (9784,9786), (9792,9792), (9794,9794), (9800,9811),
     (9823,9824), (9827,9827), (9829,9830), (9832,9832), (9851,9851), (9854,9855), (9874,9879),
     (9881,9881), (9883,9884), (9888,9889), (9895,9895), (9898,9899), (9904,9905), (9917,9918),
     (9924,9925), (9928,9928), (9934,9935), (9937,9937), (9939,9940), (9961,9962), (9968,9973),
     (9975,9978), (9981,9981), (9986,9986), (9989,9989), (9992,9997), (9999,9999), (10002,10002),
     (10004,10004), (10006,10006), (10013,10013), (10017,10017), (10024,10024), (10035,10036),
     (10052,10052), (10055,10055), (10060,10060), (10062,10062), (10067,10069), (10071,10071),
     (10083,10084), (10133,10135), (10145,10145), (10160,10160), (10175,10175), (10548,10549),
     (11013,11015), (11035,11036), (11088,11088), (11093,11093), (12336,12336), (12349,12349),
     (12951,12951), (12953,12953), (126980,126980), (127183,127183), (127344,127345), (127358,127359),
     (127374,127374), (127377,127386), (127462,127487), (127489,127490), (127514,127514),
     (127535,127535), (127538,127546), (127568,127569), (127744,127777), (127780,127891),
     (127894,127895), (127897,127899), (127902,127984), (127987,127989), (127991,128253),
     (128255,128317), (128329,128334), (128336,128359), (128367,128368), (128371,128378),
     (128391,128391), (128394,128397), (128400,128400), (128405,128406), (128420,128421),
     (128424,128424), (128433,128434), (128444,128444), (128450,128452), (128465,128467),
     (128476,128478), (128481,128481), (128483,128483), (128488,128488), (128495,128495),
     (128499,128499), (128506,128591), (128640,128709), (128715,128722), (128725,128727),
     (128732,128741), (128745,128745), (128747,128748), (128752,128752), (128755,128764),
     (128992,129003), (129008,129008), (129292,129338), (129340,129349), (129351,129535),
     (129648,129660), (129664,129672), (129680,129725), (129727,129733), (129742,129755),
     (129760,129768), (129776,129784)]"

section \<open>Functions\<close>

fun in_ranges :: "nat \<Rightarrow> (nat \<times> nat) list \<Rightarrow> bool" where
  "in_ranges c [] = False"
| "in_ranges c ((lo, hi) # rs) = (lo \<le> c \<and> c \<le> hi \<or> in_ranges c rs)"

definition is_combining_char :: "char_type \<Rightarrow> bool" where
  "is_combining_char code = (if code < 173 then False else in_ranges (unat code) combining_ranges)"

definition is_ignored_char :: "char_type \<Rightarrow> bool" where
  "is_ignored_char code =
     (if 0x20 \<le> code \<and> code \<le> 0x7e then False else in_ranges (unat code) ignored_ranges)"

definition is_non_rendered_char :: "char_type \<Rightarrow> bool" where
  "is_non_rendered_char code =
     (if 0x20 \<le> code \<and> code \<le> 0x7e then False else in_ranges (unat code) non_rendered_ranges)"

definition is_word_char :: "char_type \<Rightarrow> bool" where
  "is_word_char code = in_ranges (unat code) word_ranges"

definition is_CZ_category :: "char_type \<Rightarrow> bool" where
  "is_CZ_category code = in_ranges (unat code) CZ_ranges"

definition is_P_category :: "char_type \<Rightarrow> bool" where
  "is_P_category code = in_ranges (unat code) P_ranges"

text \<open>The array of \<^verbatim>\<open>codepoint_for_mark\<close> is kept as its runs of consecutive code points.\<close>

fun nth_in_runs :: "nat \<Rightarrow> (nat \<times> nat) list \<Rightarrow> nat option" where
  "nth_in_runs m [] = None"
| "nth_in_runs m ((lo, hi) # rs) = (if m \<le> hi - lo then Some (lo + m) else nth_in_runs (m - Suc (hi - lo)) rs)"

definition codepoint_for_mark :: "combining_type \<Rightarrow> char_type" where
  "codepoint_for_mark m =
     (case nth_in_runs (unat m) codepoint_runs of Some c \<Rightarrow> word_of_nat c | None \<Rightarrow> 0)"

fun mark_lookup :: "nat \<Rightarrow> (nat \<times> nat \<times> nat) list \<Rightarrow> nat" where
  "mark_lookup c [] = 0"
| "mark_lookup c ((lo, hi, base) # rs) =
     (if lo \<le> c \<and> c \<le> hi then base + c - lo else mark_lookup c rs)"

definition mark_for_codepoint :: "char_type \<Rightarrow> combining_type" where
  "mark_for_codepoint c = word_of_nat (mark_lookup (unat c) mark_ranges)"

abbreviation (input) VS15 :: combining_type where "VS15 \<equiv> 1364"
abbreviation (input) VS16 :: combining_type where "VS16 \<equiv> 1365"

definition wcwidth_std :: "char_type \<Rightarrow> int" where
  "wcwidth_std code =
     (let c = unat code in
      if 0x20 \<le> c \<and> c \<le> 0x7e then 1
      else if in_ranges c width_flags then 2
      else if in_ranges c width_marks then 0
      else if in_ranges c width_non_printing then -1
      else if in_ranges c width_private_use then -3
      else if in_ranges c width_text_presentation then 1
      else if in_ranges c width_ambiguous then -2
      else if in_ranges c width_double_width then 2
      else if in_ranges c width_unassigned then -4
      else 1)"

definition is_emoji_presentation_base :: "char_type \<Rightarrow> bool" where
  "is_emoji_presentation_base code = in_ranges (unat code) emoji_base_ranges"

definition is_flag_codepoint :: "char_type \<Rightarrow> bool" where
  "is_flag_codepoint ch = (0x1F1E6 \<le> ch \<and> ch \<le> 0x1F1FF)"

definition is_private_use :: "char_type \<Rightarrow> bool" where
  "is_private_use ch = (0xe000 \<le> ch \<and> ch \<le> 0xf8ff \<or> 0xF0000 \<le> ch \<and> ch \<le> 0xFFFFF
     \<or> 0x100000 \<le> ch \<and> ch \<le> 0x10FFFF)"

text \<open>\<^verbatim>\<open>OPT(url_excluded_characters)\<close> is the argument \<open>excluded\<close>.\<close>

definition is_excluded_from_url :: "char_type list \<Rightarrow> char_type \<Rightarrow> bool" where
  "is_excluded_from_url excluded ch = (ch \<in> set excluded)"

definition is_url_char :: "char_type list \<Rightarrow> char_type \<Rightarrow> bool" where
  "is_url_char excluded ch = (ch \<noteq> 0 \<and> \<not> is_CZ_category ch \<and> \<not> is_excluded_from_url excluded ch)"

definition can_strip_from_end_of_url :: "char_type \<Rightarrow> bool" where
  "can_strip_from_end_of_url ch = (is_P_category ch \<and> ch \<noteq> 0x2f \<and> ch \<noteq> 0x26 \<and> ch \<noteq> 0x2d
     \<and> ch \<noteq> 0x29 \<and> ch \<noteq> 0x5d \<and> ch \<noteq> 0x7d)"

section \<open>The tables are consistent\<close>

text \<open>Two sorted tables without a common element, by one pass over both.\<close>

fun apart :: "(nat \<times> nat) list \<Rightarrow> (nat \<times> nat) list \<Rightarrow> bool" where
  "apart [] ys = True"
| "apart xs [] = True"
| "apart ((a, b) # xs) ((c, d) # ys) =
     (if b < c then apart xs ((c, d) # ys)
      else if d < a then apart ((a, b) # xs) ys
      else False)"

fun ascending :: "nat \<Rightarrow> (nat \<times> nat) list \<Rightarrow> bool" where
  "ascending n [] = True"
| "ascending n ((a, b) # xs) = (n \<le> a \<and> a \<le> b \<and> ascending (Suc b) xs)"

lemma in_ranges_ge: "ascending n rs \<Longrightarrow> in_ranges c rs \<Longrightarrow> n \<le> c"
proof (induction n rs rule: ascending.induct)
  case (2 n a b xs)
  then show ?case by auto
qed simp

lemma apart_disjoint:
  "apart xs ys \<Longrightarrow> ascending m xs \<Longrightarrow> ascending n ys \<Longrightarrow> in_ranges e xs \<Longrightarrow> \<not> in_ranges e ys"
proof (induction xs ys arbitrary: m n rule: apart.induct)
  case (3 a b xs c d ys)
  show ?case
  proof (cases "b < c")
    case True
    with 3 have "in_ranges e xs \<Longrightarrow> \<not> in_ranges e ((c, d) # ys)" by auto
    moreover have "in_ranges e ((c, d) # ys) \<Longrightarrow> c \<le> e" using 3 in_ranges_ge [of c "(c, d) # ys" e] by simp
    ultimately show ?thesis using 3 True by fastforce
  next
    case False
    with 3(3) have da: "d < a" and ap: "apart ((a, b) # xs) ys" by (auto split: if_splits)
    have "\<not> in_ranges e ys" using 3(2) [OF False da ap] 3(4-6) by auto
    moreover have "a \<le> e" using 3(4,6) in_ranges_ge [of a "(a, b) # xs" e] by simp
    ultimately show ?thesis using da by auto
  qed
qed auto

abbreviation strip_mark :: "(nat \<times> nat \<times> nat) list \<Rightarrow> (nat \<times> nat) list" where
  "strip_mark \<equiv> map (\<lambda>(lo, hi, base). (lo, hi))"

text \<open>The bases of the ranges count the code points before them.\<close>

fun chained :: "nat \<Rightarrow> (nat \<times> nat \<times> nat) list \<Rightarrow> bool" where
  "chained n [] = True"
| "chained n ((lo, hi, base) # rs) = (base = n \<and> chained (n + Suc (hi - lo)) rs)"

fun total_length :: "(nat \<times> nat) list \<Rightarrow> nat" where
  "total_length [] = 0"
| "total_length ((lo, hi) # rs) = Suc (hi - lo) + total_length rs"

lemma nth_in_runs_None: "nth_in_runs k rs = None \<longleftrightarrow> total_length rs \<le> k"
  by (induction k rs rule: nth_in_runs.induct) auto

lemma mark_lookup_not_in: "\<not> in_ranges c (strip_mark tbl) \<Longrightarrow> mark_lookup c tbl = 0"
  by (induction c tbl rule: mark_lookup.induct) auto

lemma mark_lookup_nth:
  "chained n tbl \<Longrightarrow> ascending a (strip_mark tbl) \<Longrightarrow> nth_in_runs k (strip_mark tbl) = Some c \<Longrightarrow>
   in_ranges c (strip_mark tbl) \<and> mark_lookup c tbl = n + k"
proof (induction n tbl arbitrary: a k rule: chained.induct)
  case (2 n lo hi base rs)
  show ?case
  proof (cases "k \<le> hi - lo")
    case True
    with 2 show ?thesis by auto
  next
    case False
    with 2 have "in_ranges c (strip_mark rs)" "mark_lookup c rs = n + Suc (hi - lo) + (k - Suc (hi - lo))"
      by (auto simp del: add_Suc_right)
    moreover from this 2 have "Suc hi \<le> c" using in_ranges_ge [of "Suc hi" "strip_mark rs" c] by simp
    ultimately show ?thesis using False by auto
  qed
qed simp

lemma nth_of_mark_lookup:
  "chained n tbl \<Longrightarrow> ascending a (strip_mark tbl) \<Longrightarrow> in_ranges c (strip_mark tbl) \<Longrightarrow>
   \<exists>k. mark_lookup c tbl = n + k \<and> nth_in_runs k (strip_mark tbl) = Some c"
proof (induction n tbl arbitrary: a rule: chained.induct)
  case (2 n lo hi base rs)
  show ?case
  proof (cases "lo \<le> c \<and> c \<le> hi")
    case True
    with 2 show ?thesis by (intro exI [of _ "c - lo"]) auto
  next
    case False
    with 2 obtain k where "mark_lookup c rs = n + Suc (hi - lo) + k" "nth_in_runs k (strip_mark rs) = Some c" by auto
    with False show ?thesis by (intro exI [of _ "Suc (hi - lo) + k"]) auto
  qed
qed simp

lemma mark_tables:
  shows chained_marks: "chained 0 mark_ranges"
    and ascending_marks: "ascending 0 (strip_mark mark_ranges)"
    and codepoint_runs_marks: "codepoint_runs = strip_mark mark_ranges"
    and combining_ranges_marks: "strip_mark mark_ranges = (0, 0) # combining_ranges"
    and total_codepoints: "total_length codepoint_runs = 6425"
  subgoal by (simp add: mark_ranges_def)
  subgoal by (simp add: mark_ranges_def)
  subgoal by (simp add: mark_ranges_def codepoint_runs_def)
  subgoal by (simp add: mark_ranges_def combining_ranges_def)
  subgoal by (simp add: codepoint_runs_def)
  done

lemma small_codepoints: "list_all (\<lambda>(lo, hi). hi < 0x110000) codepoint_runs"
  by (simp add: codepoint_runs_def)

lemma nth_in_runs_bound:
  "list_all (\<lambda>(lo, hi). hi < u) rs \<Longrightarrow> ascending a rs \<Longrightarrow> nth_in_runs k rs = Some c \<Longrightarrow> c < u"
proof (induction k rs arbitrary: a rule: nth_in_runs.induct)
  case (2 m lo hi rs)
  then show ?case by (cases "m \<le> hi - lo") auto
qed simp

lemma codepoint_nth: "nth_in_runs k codepoint_runs = Some c \<Longrightarrow> k < 6425 \<and> c < 2 ^ 32"
proof -
  assume n: "nth_in_runs k codepoint_runs = Some c"
  have "ascending 0 codepoint_runs" using ascending_marks codepoint_runs_marks by simp
  from nth_in_runs_bound [OF small_codepoints this n] have "c < 0x110000" .
  moreover have "\<not> total_length codepoint_runs \<le> k" using n nth_in_runs_None [of k codepoint_runs] by simp
  ultimately show ?thesis using total_codepoints by simp
qed

lemma unat_mark: "k < 6425 \<Longrightarrow> unat (word_of_nat k :: u16) = k"
  by (simp only: unsigned_of_nat) (simp add: take_bit_nat_eq_self_iff)

lemma ascending_combining: "ascending 173 combining_ranges"
  by (simp add: combining_ranges_def)

lemma is_combining_char_ranges: "is_combining_char c = in_ranges (unat c) combining_ranges"
proof -
  have "in_ranges (unat c) combining_ranges \<Longrightarrow> \<not> c < 173"
    using in_ranges_ge [OF ascending_combining, of "unat c"] by (simp add: word_less_nat_alt)
  then show ?thesis by (auto simp: is_combining_char_def)
qed

lemma mark_ranges_cover: "in_ranges (unat c) (strip_mark mark_ranges) = (c = 0 \<or> is_combining_char c)"
  by (simp add: combining_ranges_marks is_combining_char_ranges unat_eq_0)

lemma codepoint_for_mark_0: "codepoint_for_mark 0 = 0"
  by (simp add: codepoint_for_mark_def codepoint_runs_marks combining_ranges_marks)

lemma codepoint_of_mark_aux:
  assumes "c = 0 \<or> is_combining_char c"
  shows "codepoint_for_mark (mark_for_codepoint c) = c"
proof -
  from assms have "in_ranges (unat c) (strip_mark mark_ranges)" by (simp only: mark_ranges_cover)
  from nth_of_mark_lookup [OF chained_marks ascending_marks this] obtain k where
    k: "mark_lookup (unat c) mark_ranges = k" "nth_in_runs k codepoint_runs = Some (unat c)"
    by (auto simp: codepoint_runs_marks)
  then show ?thesis using codepoint_nth [OF k(2)] by (simp add: mark_for_codepoint_def codepoint_for_mark_def unat_mark)
qed

theorem codepoint_for_mark_of_codepoint:
  "codepoint_for_mark (mark_for_codepoint c) = (if is_combining_char c then c else 0)"
proof (cases "c = 0 \<or> is_combining_char c")
  case True
  then show ?thesis using codepoint_of_mark_aux [OF True] by auto
next
  case False
  then have "mark_lookup (unat c) mark_ranges = 0" by (intro mark_lookup_not_in) (simp add: mark_ranges_cover)
  with False show ?thesis by (simp add: mark_for_codepoint_def codepoint_for_mark_0)
qed

theorem mark_of_codepoint_for_mark:
  "mark_for_codepoint (codepoint_for_mark m) = (if m < 6425 then m else 0)"
proof (cases "nth_in_runs (unat m) codepoint_runs")
  case None
  then have "\<not> m < 6425" using nth_in_runs_None [of "unat m" codepoint_runs] total_codepoints
    by (simp add: word_less_nat_alt)
  moreover have "mark_lookup 0 mark_ranges = 0"
    using mark_lookup_nth [OF chained_marks ascending_marks, of 0 0] by (simp add: combining_ranges_marks)
  ultimately show ?thesis using None by (simp add: codepoint_for_mark_def mark_for_codepoint_def)
next
  case (Some c)
  have "mark_lookup c mark_ranges = unat m"
    using mark_lookup_nth [OF chained_marks ascending_marks] Some by (simp add: codepoint_runs_marks)
  moreover have "m < 6425" using codepoint_nth [OF Some] by (simp add: word_less_nat_alt)
  ultimately show ?thesis using Some codepoint_nth [OF Some]
    by (simp add: codepoint_for_mark_def mark_for_codepoint_def unat_word_of_nat_u32)
qed

lemma ascending_member: "ascending n rs \<Longrightarrow> (lo, hi) \<in> set rs \<Longrightarrow> in_ranges lo rs \<and> lo \<le> hi"
  by (induction n rs rule: ascending.induct) auto

lemma in_ranges_remove:
  "ascending n rs \<Longrightarrow> (lo, hi) \<in> set rs \<Longrightarrow>
   in_ranges c (filter (\<lambda>r. r \<noteq> (lo, hi)) rs) = (in_ranges c rs \<and> \<not> (lo \<le> c \<and> c \<le> hi))"
proof (induction n rs rule: ascending.induct)
  case (2 n a b xs)
  show ?case
  proof (cases "(a, b) = (lo, hi)")
    case True
    with 2 have "in_ranges c xs \<Longrightarrow> hi < c" using in_ranges_ge [of "Suc b" xs c] by auto
    moreover have "(lo, hi) \<notin> set xs"
    proof
      assume m: "(lo, hi) \<in> set xs"
      have "in_ranges lo xs" using ascending_member [of "Suc b" xs lo hi] m 2(2) by simp
      with 2(2) True in_ranges_ge [of "Suc b" xs lo] show False by auto
    qed
    then have "filter (\<lambda>r. r \<noteq> (lo, hi)) xs = xs" by (auto simp: filter_id_conv)
    ultimately show ?thesis using True by auto
  next
    case False
    with 2 have m: "(lo, hi) \<in> set xs" and asc: "ascending (Suc b) xs" by auto
    have "in_ranges lo xs" using ascending_member [OF asc m] by simp
    then have "b < lo" using in_ranges_ge [OF asc, of lo] by simp
    then show ?thesis using 2(1) [OF asc m] False by auto
  qed
qed simp

lemma width_marks_combining: "width_marks = (0, 0) # filter (\<lambda>r. r \<noteq> (0x1f1e6, 0x1f1ff)) combining_ranges"
  by (simp add: width_marks_def combining_ranges_def)

lemma flag_range_combining: "(0x1f1e6, 0x1f1ff) \<in> set combining_ranges"
  by (simp add: combining_ranges_def)

lemma width_flags_eq: "in_ranges (unat c) width_flags = is_flag_codepoint c"
  by (simp add: width_flags_def is_flag_codepoint_def word_le_nat_alt)

lemma in_width_marks: "in_ranges (unat c) width_marks = (c = 0 \<or> is_combining_char c \<and> \<not> is_flag_codepoint c)"
  using in_ranges_remove [OF ascending_combining flag_range_combining, of "unat c"]
  by (simp add: width_marks_combining is_combining_char_ranges is_flag_codepoint_def word_le_nat_alt unat_eq_0)

theorem wcwidth_std_zero:
  "wcwidth_std c = 0 \<longleftrightarrow> c = 0 \<or> is_combining_char c \<and> \<not> is_flag_codepoint c"
proof -
  have "\<not> (0x20 \<le> unat c \<and> unat c \<le> 0x7e)" if "in_ranges (unat c) width_marks"
    using that in_ranges_ge [OF ascending_combining, of "unat c"]
    by (auto simp: in_width_marks is_combining_char_ranges)
  then have "wcwidth_std c = 0 \<longleftrightarrow> \<not> in_ranges (unat c) width_flags \<and> in_ranges (unat c) width_marks"
    by (auto simp: wcwidth_std_def Let_def)
  then show ?thesis
    by (auto simp: width_flags_eq in_width_marks is_flag_codepoint_def)
qed

lemma ascending_classes: "ascending 0 CZ_ranges" "ascending 0 P_ranges" "ascending 0 ignored_ranges"
  subgoal by (simp add: CZ_ranges_def)
  subgoal by (simp add: P_ranges_def)
  subgoal by (simp add: ignored_ranges_def)
  done

lemma apart_CZ_P: "apart CZ_ranges P_ranges"
  by (simp add: CZ_ranges_def P_ranges_def)

lemma apart_ignored_combining: "apart ignored_ranges combining_ranges"
  by (simp add: ignored_ranges_def combining_ranges_def)

theorem character_classes_disjoint:
  "\<not> (is_CZ_category c \<and> is_P_category c) \<and> \<not> (is_ignored_char c \<and> is_combining_char c)"
  using apart_disjoint [OF apart_CZ_P ascending_classes(1,2)]
    apart_disjoint [OF apart_ignored_combining ascending_classes(3) ascending_combining]
  by (auto simp: is_CZ_category_def is_P_category_def is_ignored_char_def is_combining_char_ranges)

end
