(* ===== verification/Lines.thy ===== *)
theory Lines
  imports Sgr Unicode Utf8
begin

text \<open>
  A line of cells: \<^verbatim>\<open>smelly/line.c\<close> and \<^verbatim>\<open>smelly/lineops.h\<close>. The two arrays of a \<^verbatim>\<open>Line\<close> are the lists
  \<open>l_cpu\<close> and \<open>l_gpu\<close>, both of length \<^verbatim>\<open>xnum\<close> (\<open>line_wf\<close>). The first part edits cells, the second
  finds URLs, the third produces text with and without escape codes, the last sets marks.
\<close>

section \<open>Lines\<close>

datatype prompt_kind = UNKNOWN_PROMPT_KIND | PROMPT_START | SECONDARY_PROMPT | OUTPUT_START

record line_attrs =
  la_is_continued :: bool
  la_has_dirty_text :: bool
  la_prompt_kind :: prompt_kind

definition zero_line_attrs :: line_attrs where
  "zero_line_attrs = \<lparr>la_is_continued = False, la_has_dirty_text = False, la_prompt_kind = UNKNOWN_PROMPT_KIND\<rparr>"

record cell_line =
  l_cpu :: "cpu_cell list"
  l_gpu :: "gpu_cell list"
  l_xnum :: nat
  l_ynum :: nat
  l_attrs :: line_attrs

definition line_wf :: "cell_line \<Rightarrow> bool" where
  "line_wf l = (length (l_cpu l) = l_xnum l \<and> length (l_gpu l) = l_xnum l)"

text \<open>The exceptions of the methods called from Python.\<close>

datatype py_error = ValueError | IndexError | KeyError | TypeError

abbreviation line_ch :: "cell_line \<Rightarrow> nat \<Rightarrow> char_type" where
  "line_ch l x \<equiv> p_ch (l_cpu l ! x)"

abbreviation line_width :: "cell_line \<Rightarrow> nat \<Rightarrow> 2 word" where
  "line_width l x \<equiv> a_width (g_attrs (l_gpu l ! x))"

definition map_cpu :: "nat \<Rightarrow> (cpu_cell \<Rightarrow> cpu_cell) \<Rightarrow> cell_line \<Rightarrow> cell_line" where
  "map_cpu x f l = l\<lparr>l_cpu := (l_cpu l)[x := f (l_cpu l ! x)]\<rparr>"

definition map_gpu :: "nat \<Rightarrow> (gpu_cell \<Rightarrow> gpu_cell) \<Rightarrow> cell_line \<Rightarrow> cell_line" where
  "map_gpu x f l = l\<lparr>l_gpu := (l_gpu l)[x := f (l_gpu l ! x)]\<rparr>"

definition clear_cc :: "cpu_cell \<Rightarrow> cpu_cell" where
  "clear_cc p = p\<lparr>p_cc0 := 0, p_cc1 := 0, p_cc2 := 0\<rparr>"

definition clear_sprite_position :: "gpu_cell \<Rightarrow> gpu_cell" where
  "clear_sprite_position g = g\<lparr>g_sprite_x := 0, g_sprite_y := 0, g_sprite_z := 0\<rparr>"

text \<open>\<^verbatim>\<open>COPY_CELL(src, s, dest, d)\<close>\<close>

definition copy_cell :: "cell_line \<Rightarrow> nat \<Rightarrow> cell_line \<Rightarrow> nat \<Rightarrow> cell_line" where
  "copy_cell src s dest d =
     dest\<lparr>l_cpu := (l_cpu dest)[d := l_cpu src ! s], l_gpu := (l_gpu dest)[d := l_gpu src ! s]\<rparr>"

section \<open>Editing cells\<close>

fun line_length_from :: "cell_line \<Rightarrow> nat \<Rightarrow> nat" where
  "line_length_from l 0 = 0"
| "line_length_from l (Suc n) = (if line_ch l n \<noteq> BLANK_CHAR then Suc n else line_length_from l n)"

definition line_length :: "cell_line \<Rightarrow> nat" where
  "line_length l = line_length_from l (l_xnum l)"

fun strip_blank_from :: "cell_line \<Rightarrow> nat \<Rightarrow> nat" where
  "strip_blank_from l 0 = 0"
| "strip_blank_from l (Suc n) = (if line_ch l n = BLANK_CHAR then strip_blank_from l n else Suc n)"

definition xlimit_for_line :: "cell_line \<Rightarrow> nat" where
  "xlimit_for_line l =
     (let xlimit = strip_blank_from l (l_xnum l)
      in if xlimit < l_xnum l \<and> line_width l (if xlimit > 0 then xlimit - 1 else xlimit) = 2
         then xlimit + 1 else xlimit)"

definition line_is_empty :: "cell_line \<Rightarrow> bool" where
  "line_is_empty l = list_all (\<lambda>i. line_ch l i = BLANK_CHAR) [0 ..< l_xnum l]"

definition line_get_char :: "cell_line \<Rightarrow> nat \<Rightarrow> char_type" where
  "line_get_char l at =
     (let ch = line_ch l at
      in if ch = 0 \<and> at > 0 \<and> line_width l (at - 1) > 1 then line_ch l (at - 1) else ch)"

text \<open>\<open>None\<close> for the cursor is the null pointer.\<close>

definition line_set_char ::
  "cell_line \<Rightarrow> nat \<Rightarrow> char_type \<Rightarrow> nat \<Rightarrow> cursor option \<Rightarrow> hyperlink_id_type \<Rightarrow> cell_line" where
  "line_set_char l at ch width cur hyperlink_id =
     (let l = map_gpu at (\<lambda>g. case cur of
            None \<Rightarrow> cell_set_attrs (a_width_update (\<lambda>_. word_of_nat width)) g
          | Some c \<Rightarrow> g\<lparr>g_attrs := cursor_to_attrs c (word_of_nat width), g_fg := c_fg c,
                        g_bg := c_bg c, g_decoration_fg := c_decoration_fg c\<rparr>) l
      in map_cpu at (\<lambda>p. clear_cc (p\<lparr>p_ch := ch, p_hyperlink_id := hyperlink_id\<rparr>)) l)"

definition set_char ::
  "cell_line \<Rightarrow> nat \<Rightarrow> char_type \<Rightarrow> nat \<Rightarrow> cursor option \<Rightarrow> hyperlink_id_type \<Rightarrow> py_error + cell_line" where
  "set_char l at ch width cur hyperlink_id =
     (if at \<ge> l_xnum l then Inl ValueError else Inr (line_set_char l at ch width cur hyperlink_id))"

definition line_clear_text :: "cell_line \<Rightarrow> nat \<Rightarrow> nat \<Rightarrow> char_type \<Rightarrow> cell_line" where
  "line_clear_text l at num ch =
     (let n = min (l_xnum l) (at + num) - at;
          w = (if ch \<noteq> 0 then 1 else 0)
      in l\<lparr>l_cpu := update_range (\<lambda>p. clear_cc (p\<lparr>p_ch := ch, p_hyperlink_id := 0\<rparr>)) at n (l_cpu l),
           l_gpu := update_range (cell_set_attrs (a_width_update (\<lambda>_. w))) at n (l_gpu l)\<rparr>)"

definition line_apply_cursor :: "cell_line \<Rightarrow> cursor \<Rightarrow> nat \<Rightarrow> nat \<Rightarrow> bool \<Rightarrow> cell_line" where
  "line_apply_cursor l c at num clear_char =
     (let attrs = cursor_to_attrs c 0;
          n = min (l_xnum l) (at + num) - at;
          cols = (\<lambda>g. g\<lparr>g_fg := c_fg c, g_bg := c_bg c, g_decoration_fg := c_decoration_fg c\<rparr>)
      in l\<lparr>l_cpu := (if clear_char
             then update_range (\<lambda>p. clear_cc (p\<lparr>p_ch := BLANK_CHAR, p_hyperlink_id := 0\<rparr>)) at n (l_cpu l)
             else l_cpu l),
           l_gpu := update_range (\<lambda>g. cols
             (if clear_char then clear_sprite_position (g\<lparr>g_attrs := attrs\<rparr>)
              else g\<lparr>g_attrs := attrs\<lparr>a_width := a_width (g_attrs g), a_mark := a_mark (g_attrs g)\<rparr>\<rparr>)) at n (l_gpu l)\<rparr>)"

text \<open>The cell that shifting may have cut in half is blanked.\<close>

definition blank_split_cell :: "nat \<Rightarrow> cell_line \<Rightarrow> cell_line" where
  "blank_split_cell x l =
     map_gpu x (\<lambda>g. clear_sprite_position (g\<lparr>g_attrs := zero_attrs\<rparr>))
       (map_cpu x (\<lambda>p. p\<lparr>p_ch := BLANK_CHAR, p_hyperlink_id := 0\<rparr>) l)"

text \<open>The loop \<^verbatim>\<open>for (i = xnum - 1; i >= at + num; i--)\<close>; \<open>n\<close> rounds are left.\<close>

fun right_shift_loop :: "nat \<Rightarrow> nat \<Rightarrow> nat \<Rightarrow> cell_line \<Rightarrow> cell_line" where
  "right_shift_loop 0 i num l = l"
| "right_shift_loop (Suc n) i num l = right_shift_loop n (i - 1) num (copy_cell l (i - num) l i)"

definition line_right_shift :: "cell_line \<Rightarrow> nat \<Rightarrow> nat \<Rightarrow> cell_line" where
  "line_right_shift l at num =
     (let l = right_shift_loop (l_xnum l - (at + num)) (l_xnum l - 1) num l;
          last = l_xnum l - 1
      in if line_width l last \<noteq> 1 then blank_split_cell last l else l)"

fun left_shift_loop :: "nat \<Rightarrow> nat \<Rightarrow> nat \<Rightarrow> cell_line \<Rightarrow> cell_line" where
  "left_shift_loop 0 i num l = l"
| "left_shift_loop (Suc n) i num l = left_shift_loop n (Suc i) num (copy_cell l (i + num) l i)"

definition left_shift_line :: "cell_line \<Rightarrow> nat \<Rightarrow> nat \<Rightarrow> cell_line" where
  "left_shift_line l at num =
     (let l = left_shift_loop (l_xnum l - num - at) at num l
      in if at < l_xnum l \<and> line_width l at \<noteq> 1 then blank_split_cell at l else l)"

definition right_shift :: "cell_line \<Rightarrow> nat \<Rightarrow> nat \<Rightarrow> py_error + cell_line" where
  "right_shift l at num =
     (if at \<ge> l_xnum l \<or> at + num > l_xnum l then Inl ValueError
      else Inr (if num > 0 then line_right_shift l at num else l))"

definition left_shift :: "cell_line \<Rightarrow> nat \<Rightarrow> nat \<Rightarrow> py_error + cell_line" where
  "left_shift l at num =
     (if at \<ge> l_xnum l \<or> at + num > l_xnum l then Inl ValueError
      else Inr (if num > 0 then left_shift_line l at num else l))"

definition add_cc :: "combining_type \<Rightarrow> cpu_cell \<Rightarrow> cpu_cell" where
  "add_cc m p =
     (if p_cc0 p = 0 then p\<lparr>p_cc0 := m\<rparr>
      else if p_cc1 p = 0 then p\<lparr>p_cc1 := m\<rparr>
      else if p_cc2 p = 0 then p\<lparr>p_cc2 := m\<rparr>
      else p\<lparr>p_cc2 := m\<rparr>)"

definition line_add_combining_char :: "cell_line \<Rightarrow> char_type \<Rightarrow> nat \<Rightarrow> cell_line" where
  "line_add_combining_char l ch x =
     (if line_ch l x = 0
      then (if x > 0 \<and> line_width l (x - 1) = 2 \<and> line_ch l (x - 1) \<noteq> 0
            then map_cpu (x - 1) (add_cc (mark_for_codepoint ch)) l else l)
      else map_cpu x (add_cc (mark_for_codepoint ch)) l)"

definition add_combining_char :: "cell_line \<Rightarrow> nat \<Rightarrow> char_type \<Rightarrow> py_error + cell_line" where
  "add_combining_char l x ch =
     (if x \<ge> l_xnum l then Inl ValueError else Inr (line_add_combining_char l ch x))"

text \<open>\<open>text\<close> is the part of the Python string that \<^verbatim>\<open>offset\<close> and \<^verbatim>\<open>sz\<close> select.\<close>

fun set_text_loop :: "char_type list \<Rightarrow> nat \<Rightarrow> cursor \<Rightarrow> cell_line \<Rightarrow> cell_line" where
  "set_text_loop [] i c l = l"
| "set_text_loop (ch # chs) i c l =
     (if i < l_xnum l then
        set_text_loop chs (i + 1) c
          (map_gpu i (\<lambda>g. g\<lparr>g_attrs := cursor_to_attrs c 1, g_fg := c_fg c, g_bg := c_bg c,
                            g_decoration_fg := c_decoration_fg c\<rparr>)
            (map_cpu i (\<lambda>p. clear_cc (p\<lparr>p_ch := ch, p_hyperlink_id := 0\<rparr>)) l))
      else l)"

definition set_text :: "cell_line \<Rightarrow> char_type list \<Rightarrow> nat \<Rightarrow> nat \<Rightarrow> cursor \<Rightarrow> py_error + cell_line" where
  "set_text l src offset sz c =
     (if length src < offset + sz then Inl ValueError
      else Inr (set_text_loop (slice src offset sz) (c_x c) c l))"

definition cursor_from :: "cell_line \<Rightarrow> nat \<Rightarrow> nat \<Rightarrow> py_error + cursor" where
  "cursor_from l x y =
     (if x \<ge> l_xnum l then Inl ValueError
      else let g = l_gpu l ! x in
        Inr ((attrs_to_cursor (g_attrs g) (zero_cursor\<lparr>c_x := x, c_y := y\<rparr>))
          \<lparr>c_fg := g_fg g, c_bg := g_bg g, c_decoration_fg := g_decoration_fg g\<rparr>))"

definition copy_line :: "cell_line \<Rightarrow> cell_line \<Rightarrow> cell_line" where
  "copy_line src dest =
     (let n = min (l_xnum src) (l_xnum dest)
      in dest\<lparr>l_cpu := overwrite (l_cpu dest) 0 (take n (l_cpu src)),
              l_gpu := overwrite (l_gpu dest) 0 (take n (l_gpu src))\<rparr>)"

definition copy_char :: "cell_line \<Rightarrow> nat \<Rightarrow> cell_line \<Rightarrow> nat \<Rightarrow> py_error + cell_line" where
  "copy_char l src to dest =
     (if src \<ge> l_xnum l \<or> dest \<ge> l_xnum to then Inl ValueError else Inr (copy_cell l src to dest))"

definition clear_chars_in_line :: "cpu_cell list \<Rightarrow> gpu_cell list \<Rightarrow> nat \<Rightarrow> char_type \<Rightarrow> cpu_cell list \<times> gpu_cell list" where
  "clear_chars_in_line cpu gpu xnum ch =
     (if ch \<noteq> 0 then
        (update_range (\<lambda>p. p\<lparr>p_ch := ch, p_hyperlink_id := 0\<rparr>) 0 xnum cpu,
         update_range (\<lambda>g. g\<lparr>g_attrs := zero_attrs\<lparr>a_width := 1\<rparr>\<rparr>) 0 xnum gpu)
      else (cpu, gpu))"

definition line_save_cells :: "cell_line \<Rightarrow> nat \<Rightarrow> nat \<Rightarrow> gpu_cell list \<Rightarrow> cpu_cell list \<Rightarrow> gpu_cell list \<times> cpu_cell list" where
  "line_save_cells l start num gpu cpu =
     (overwrite gpu start (slice (l_gpu l) start num), overwrite cpu start (slice (l_cpu l) start num))"

definition line_reset_cells :: "cell_line \<Rightarrow> nat \<Rightarrow> nat \<Rightarrow> gpu_cell list \<Rightarrow> cpu_cell list \<Rightarrow> cell_line" where
  "line_reset_cells l start num gpu cpu =
     l\<lparr>l_gpu := overwrite (l_gpu l) start (slice gpu start num), l_cpu := overwrite (l_cpu l) start (slice cpu start num)\<rparr>"

definition line_eq :: "cell_line \<Rightarrow> cell_line \<Rightarrow> bool" where
  "line_eq a b = (l_xnum a = l_xnum b \<and> take (l_xnum a) (l_cpu a) = take (l_xnum a) (l_cpu b)
     \<and> take (l_xnum a) (l_gpu a) = take (l_xnum a) (l_gpu b))"

text \<open>Colours: \<open>table\<close> is the colour table of the profile.\<close>

definition resolve_color :: "(nat \<Rightarrow> color_type) \<Rightarrow> color_type \<Rightarrow> color_type \<Rightarrow> color_type" where
  "resolve_color table val defval =
     (if val AND 0xff = 1 then table (unat (drop_bit 8 val AND 0xff))
      else if val AND 0xff = 2 then drop_bit 8 val
      else defval)"

text \<open>The result is the changed \<^verbatim>\<open>*x\<close>, \<^verbatim>\<open>*fg\<close>, \<^verbatim>\<open>*bg\<close>, \<^verbatim>\<open>*reversed\<close>; \<open>None\<close> is \<^verbatim>\<open>false\<close>.\<close>

definition colors_for_cell ::
  "cell_line \<Rightarrow> (nat \<Rightarrow> color_type) \<Rightarrow> nat \<Rightarrow> color_type \<Rightarrow> color_type \<Rightarrow> bool
     \<Rightarrow> (nat \<times> color_type \<times> color_type \<times> bool) option" where
  "colors_for_cell l table x fg bg reversed =
     (if x \<ge> l_xnum l then None
      else
        (let x = (if x > 0 \<and> line_width l x = 0 \<and> line_width l (x - 1) = 2 then x - 1 else x);
             fg = resolve_color table (g_fg (l_gpu l ! x)) fg;
             bg = resolve_color table (g_bg (l_gpu l ! x)) bg
         in if a_reverse (g_attrs (l_gpu l ! x)) then Some (x, bg, fg, True) else Some (x, fg, bg, reversed)))"

datatype attribute_name = AN_reverse | AN_width | AN_strike | AN_dim | AN_mark | AN_bold | AN_italic | AN_decoration
  | AN_unknown

text \<open>A bit field keeps the low bits of what is stored in it.\<close>

definition set_attribute_of :: "attribute_name \<Rightarrow> u16 \<Rightarrow> cell_attrs \<Rightarrow> cell_attrs" where
  "set_attribute_of which val a =
     (case which of
        AN_reverse \<Rightarrow> a\<lparr>a_reverse := bit val 0\<rparr>
      | AN_width \<Rightarrow> a\<lparr>a_width := ucast val\<rparr>
      | AN_strike \<Rightarrow> a\<lparr>a_strike := bit val 0\<rparr>
      | AN_dim \<Rightarrow> a\<lparr>a_dim := bit val 0\<rparr>
      | AN_mark \<Rightarrow> a\<lparr>a_mark := ucast val\<rparr>
      | AN_bold \<Rightarrow> a\<lparr>a_bold := bit val 0\<rparr>
      | AN_italic \<Rightarrow> a\<lparr>a_italic := bit val 0\<rparr>
      | AN_decoration \<Rightarrow> a\<lparr>a_decoration := ucast val\<rparr>
      | AN_unknown \<Rightarrow> a)"

definition set_named_attribute_on_line :: "gpu_cell list \<Rightarrow> attribute_name \<Rightarrow> u16 \<Rightarrow> nat \<Rightarrow> (gpu_cell list) option" where
  "set_named_attribute_on_line cells which val xnum =
     (if which = AN_unknown then None
      else Some (update_range (cell_set_attrs (set_attribute_of which val)) 0 xnum cells))"


section \<open>URLs\<close>

text \<open>
  \<open>excluded\<close> and \<open>prefixes\<close> are the options \<^verbatim>\<open>url_excluded_characters\<close> and \<^verbatim>\<open>url_prefixes\<close>.
\<close>

datatype url_parser_state = ANY | FIRST_SLASH | SECOND_SLASH

definition colon_slash_start :: "cell_line \<Rightarrow> nat \<Rightarrow> nat \<Rightarrow> char_type \<Rightarrow> url_parser_state \<Rightarrow> url_parser_state" where
  "colon_slash_start l x pos ch st =
     (if pos = x then
        (if ch = 0x3a then
           (if pos + 2 < l_xnum l \<and> line_ch l (pos + 1) = 0x2f \<and> line_ch l (pos + 2) = 0x2f
            then SECOND_SLASH else st)
         else if ch = 0x2f then
           (if pos + 1 < l_xnum l \<and> line_ch l (pos + 1) = 0x2f then FIRST_SLASH else st)
         else st)
      else st)"

text \<open>The loop at \<open>pos\<close>; it continues while the next \<open>pos\<close> is at least \<open>limit\<close>, which is at least 2.\<close>

fun colon_slash_loop :: "char_type list \<Rightarrow> cell_line \<Rightarrow> nat \<Rightarrow> nat \<Rightarrow> nat \<Rightarrow> url_parser_state \<Rightarrow> nat" where
  "colon_slash_loop excluded l x limit 0 st = 0"
| "colon_slash_loop excluded l x limit (Suc p) st =
     (let pos = Suc p; ch = line_ch l pos in
      if \<not> is_url_char excluded ch then 0
      else
        (let st = colon_slash_start l x pos ch st;
             continue = (\<lambda>st. if limit \<le> p then colon_slash_loop excluded l x limit p st else 0)
         in case st of
              ANY \<Rightarrow> continue (if ch = 0x2f then FIRST_SLASH else ANY)
            | FIRST_SLASH \<Rightarrow> continue (if ch = 0x2f then SECOND_SLASH else ANY)
            | SECOND_SLASH \<Rightarrow>
                if ch = 0x3a then pos else continue (if ch = 0x2f then SECOND_SLASH else ANY)))"

definition find_colon_slash :: "char_type list \<Rightarrow> cell_line \<Rightarrow> nat \<Rightarrow> nat \<Rightarrow> nat" where
  "find_colon_slash excluded l x limit =
     (let pos = min x (usub32 (l_xnum l) 1); limit = max 2 limit
      in if pos < limit then 0 else colon_slash_loop excluded l x limit pos ANY)"

definition prefix_matches :: "cell_line \<Rightarrow> nat \<Rightarrow> char_type list \<Rightarrow> bool" where
  "prefix_matches l at prefix =
     (length prefix \<le> at \<and>
      list_all (\<lambda>i. at - length prefix + i < l_xnum l \<and> line_ch l (at - length prefix + i) = prefix ! i)
        [0 ..< length prefix])"

fun has_url_prefix_at :: "char_type list list \<Rightarrow> cell_line \<Rightarrow> nat \<Rightarrow> nat \<Rightarrow> nat option" where
  "has_url_prefix_at [] l at min_prefix_len = None"
| "has_url_prefix_at (prefix # prefixes) l at min_prefix_len =
     (if at < length prefix \<or> length prefix < min_prefix_len then has_url_prefix_at prefixes l at min_prefix_len
      else if prefix_matches l at prefix then Some (at - length prefix)
      else has_url_prefix_at prefixes l at min_prefix_len)"

abbreviation (input) MIN_URL_LEN :: nat where "MIN_URL_LEN \<equiv> 5"

definition has_url_beyond :: "char_type list \<Rightarrow> cell_line \<Rightarrow> nat \<Rightarrow> bool" where
  "has_url_beyond excluded l x =
     list_all (\<lambda>i. is_url_char excluded (line_ch l i)) [x ..< min (x + MIN_URL_LEN + 3) (l_xnum l)]"

definition line_url_start_at :: "char_type list \<Rightarrow> char_type list list \<Rightarrow> nat \<Rightarrow> cell_line \<Rightarrow> nat \<Rightarrow> nat" where
  "line_url_start_at excluded prefixes max_prefix_len l x =
     (if x \<ge> l_xnum l \<or> l_xnum l \<le> MIN_URL_LEN + 3 then l_xnum l
      else
        (let ds_pos = find_colon_slash excluded l (x + max_prefix_len + 3) (if x < 2 then 0 else x - 2);
             ahead = (if ds_pos \<noteq> 0 \<and> has_url_beyond excluded l ds_pos
                      then has_url_prefix_at prefixes l ds_pos (if ds_pos > x then ds_pos - x else 0) else None)
         in case ahead of
              Some t \<Rightarrow> t
            | None \<Rightarrow>
                (let ds_pos = find_colon_slash excluded l x 0 in
                 if ds_pos = 0 \<or> l_xnum l < ds_pos + MIN_URL_LEN + 3 \<or> \<not> has_url_beyond excluded l ds_pos
                 then l_xnum l
                 else case has_url_prefix_at prefixes l ds_pos 0 of Some t \<Rightarrow> t | None \<Rightarrow> l_xnum l)))"

function url_end_forward :: "char_type list \<Rightarrow> cell_line \<Rightarrow> char_type \<Rightarrow> nat \<Rightarrow> nat" where
  "url_end_forward excluded l sentinel ans =
     (if ans < l_xnum l \<and> (sentinel = 0 \<or> line_ch l ans \<noteq> sentinel) \<and> is_url_char excluded (line_ch l ans)
      then url_end_forward excluded l sentinel (Suc ans) else ans)"
  by pat_completeness auto
termination by (relation "measure (\<lambda>(e, l, s, ans). l_xnum l - ans)") auto

declare url_end_forward.simps [simp del]

fun url_end_strip :: "cell_line \<Rightarrow> nat \<Rightarrow> nat \<Rightarrow> nat" where
  "url_end_strip l x 0 = 0"
| "url_end_strip l x (Suc ans) =
     (if Suc ans > x \<and> can_strip_from_end_of_url (line_ch l (Suc ans)) then url_end_strip l x ans else Suc ans)"

definition line_url_end_at :: "char_type list \<Rightarrow> cell_line \<Rightarrow> nat \<Rightarrow> bool \<Rightarrow> char_type \<Rightarrow> bool \<Rightarrow> nat" where
  "line_url_end_at excluded l x check_short sentinel next_line_starts_with_url_chars =
     (if x \<ge> l_xnum l \<or> (check_short \<and> l_xnum l \<le> MIN_URL_LEN + 3) then 0
      else
        (let ans = url_end_forward excluded l sentinel x;
             ans = (if ans > 0 then ans - 1 else ans)
         in if ans < l_xnum l - 1 \<or> \<not> next_line_starts_with_url_chars then url_end_strip l x ans else ans))"

definition line_startswith_url_chars :: "char_type list \<Rightarrow> cell_line \<Rightarrow> bool" where
  "line_startswith_url_chars excluded l = is_url_char excluded (line_ch l 0)"

section \<open>Text\<close>

text \<open>The combining characters of a cell, up to the first unused entry.\<close>

definition cell_marks :: "cpu_cell \<Rightarrow> combining_type list" where
  "cell_marks p = takeWhile (\<lambda>m. m \<noteq> 0) [p_cc0 p, p_cc1 p, p_cc2 p]"

definition cell_text :: "cpu_cell \<Rightarrow> char_type list" where
  "cell_text p = p_ch p # map codepoint_for_mark (cell_marks p)"

definition text_at :: "cell_line \<Rightarrow> nat \<Rightarrow> py_error + char_type list" where
  "text_at l x = (if x \<ge> l_xnum l then Inl IndexError else Inr (cell_text (l_cpu l ! x)))"

definition cell_as_unicode :: "cpu_cell \<Rightarrow> bool \<Rightarrow> char_type \<Rightarrow> char_type list" where
  "cell_as_unicode p include_cc zero_char =
     (if p_ch p \<noteq> 0 then p_ch p else zero_char)
       # (if include_cc then map codepoint_for_mark (cell_marks p) else [])"

definition cell_as_unicode_for_fallback :: "cpu_cell \<Rightarrow> char_type list" where
  "cell_as_unicode_for_fallback p =
     (let ch = (if p_ch p \<noteq> 0 then p_ch p else 0x20) in
      if ch \<noteq> 9 then ch # map codepoint_for_mark (filter (\<lambda>m. m \<noteq> VS15 \<and> m \<noteq> VS16) (cell_marks p))
      else [0x20])"

definition cell_as_utf8 :: "cpu_cell \<Rightarrow> bool \<Rightarrow> char_type \<Rightarrow> u8 list" where
  "cell_as_utf8 p include_cc zero_char =
     (let ch = (if p_ch p \<noteq> 0 then p_ch p else zero_char);
          include_cc = (if ch = 9 then False else include_cc)
      in encode_utf8 ch @ (if include_cc then concat (map (\<lambda>m. encode_utf8 (codepoint_for_mark m)) (cell_marks p)) else []))"

definition cell_as_utf8_for_fallback :: "cpu_cell \<Rightarrow> u8 list" where
  "cell_as_utf8_for_fallback p =
     (let ch = (if p_ch p \<noteq> 0 then p_ch p else 0x20);
          include_cc = (ch \<noteq> 9);
          ch = (if ch = 9 then 0x20 else ch)
      in encode_utf8 ch @ (if include_cc then concat (map (\<lambda>m. encode_utf8 (codepoint_for_mark m))
           (filter (\<lambda>m. m \<noteq> VS15 \<and> m \<noteq> VS16) (cell_marks p))) else []))"

text \<open>The cells after a tab that belong to it: at most \<open>n\<close> spaces after cell \<open>i\<close>. The result is the last one.\<close>

fun skip_tab_cells :: "cell_line \<Rightarrow> nat \<Rightarrow> nat \<Rightarrow> nat \<Rightarrow> nat" where
  "skip_tab_cells l limit i 0 = i"
| "skip_tab_cells l limit i (Suc n) =
     (if i + 1 < limit \<and> line_ch l (i + 1) = 0x20 then skip_tab_cells l limit (i + 1) n else i)"

lemma skip_tab_cells_ge: "i \<le> skip_tab_cells l limit i n"
proof (induction l limit i n rule: skip_tab_cells.induct)
  case (2 l limit i n)
  then show ?case by (auto intro: le_trans [of i "i + 1"])
qed simp

abbreviation (input) text_buf_size :: nat where "text_buf_size \<equiv> 4096"

function unicode_loop ::
  "cell_line \<Rightarrow> nat \<Rightarrow> bool \<Rightarrow> bool \<Rightarrow> nat \<Rightarrow> 2 word \<Rightarrow> char_type list \<Rightarrow> char_type list" where
  "unicode_loop l limit include_cc skip_zero_cells i previous_width buf =
     (if i < limit \<and> length buf < text_buf_size - 2 - 3 then
        (let ch = line_ch l i in
         if ch = 0 \<and> previous_width = 2 then unicode_loop l limit include_cc skip_zero_cells (i + 1) 0 buf
         else if ch = 0 \<and> skip_zero_cells then unicode_loop l limit include_cc skip_zero_cells (i + 1) previous_width buf
         else if ch = 9 then
           (let j = skip_tab_cells l limit i (unat (p_cc0 (l_cpu l ! i)))
            in unicode_loop l limit include_cc skip_zero_cells (j + 1) (line_width l j) (buf @ [9]))
         else unicode_loop l limit include_cc skip_zero_cells (i + 1) (line_width l i)
                (buf @ cell_as_unicode (l_cpu l ! i) include_cc 0x20))
      else buf)"
  by pat_completeness auto
termination
  by (relation "measure (\<lambda>(l, limit, a, b, i, c, d). limit - i)")
    (auto simp: less_Suc_eq_le intro!: diff_less_mono2 le_imp_less_Suc skip_tab_cells_ge
      elim: less_le_trans [rotated])

declare unicode_loop.simps [simp del]

definition unicode_in_range :: "cell_line \<Rightarrow> nat \<Rightarrow> nat \<Rightarrow> bool \<Rightarrow> bool \<Rightarrow> bool \<Rightarrow> char_type list" where
  "unicode_in_range l start limit include_cc add_trailing_newline skip_zero_cells =
     (let buf = unicode_loop l limit include_cc skip_zero_cells start 0 []
      in if add_trailing_newline \<and> \<not> a_wrapped (g_attrs (l_gpu l ! (l_xnum l - 1))) \<and> length buf < text_buf_size
         then buf @ [10] else buf)"

definition line_as_unicode :: "cell_line \<Rightarrow> bool \<Rightarrow> char_type list" where
  "line_as_unicode l skip_zero_cells = unicode_in_range l 0 (xlimit_for_line l) True False skip_zero_cells"


section \<open>Text with escape codes\<close>

text \<open>
  \<open>mark\<close> and \<open>sgr\<close> are bounded as the source bounds them; the pool is \<open>None\<close> when it is the null
  pointer, and maps an id to its key \<^verbatim>\<open>id:url\<close> otherwise. 0x1b is ESC.
\<close>

definition write_sgr :: "u32 list \<Rightarrow> char_type list" where
  "write_sgr val = [0x1b, 0x5b] @ take 122 val @ [0x6d]"

definition write_mark :: "char_type list \<Rightarrow> char_type list" where
  "write_mark mark = [0x1b, 0x5d, 0x31, 0x33, 0x33, 0x3b] @ take 32 mark @ [0x1b, 0x5c]"

type_synonym hyperlink_keys = "hyperlink_id_type \<Rightarrow> char_type list option"

text \<open>The result is the text and the new \<^verbatim>\<open>active_hyperlink_id\<close>.\<close>

definition write_hyperlink :: "hyperlink_keys \<Rightarrow> hyperlink_id_type \<Rightarrow> char_type list \<times> hyperlink_id_type" where
  "write_hyperlink keys hid =
     (case (if hid \<noteq> 0 then keys hid else None) of
        None \<Rightarrow> ([0x1b, 0x5d, 0x38, 0x3b, 0x3b, 0x1b, 0x5c], 0)
      | Some key \<Rightarrow>
          (let ident = takeWhile (\<lambda>c. c \<noteq> 0x3a) key;
               url = drop (Suc (length ident)) key
           in ([0x1b, 0x5d, 0x38, 0x3b]
                @ (if ident \<noteq> [] then [0x69, 0x64, 0x3d] @ ident else [])
                @ [0x3b] @ url @ [0x1b, 0x5c], hid)))"

record ansi_state =
  as_buf :: "char_type list"
  as_active_hyperlink :: hyperlink_id_type
  as_prev_cell :: gpu_cell
  as_escape_written :: bool

definition ansi_write :: "char_type list \<Rightarrow> ansi_state \<Rightarrow> ansi_state" where
  "ansi_write t s = s\<lparr>as_buf := as_buf s @ t\<rparr>"

definition ansi_escape :: "char_type list \<Rightarrow> ansi_state \<Rightarrow> ansi_state" where
  "ansi_escape t s = (ansi_write t s)\<lparr>as_escape_written := True\<rparr>"

definition ansi_hyperlink :: "hyperlink_keys option \<Rightarrow> hyperlink_id_type \<Rightarrow> ansi_state \<Rightarrow> ansi_state" where
  "ansi_hyperlink pool hid s =
     (case pool of
        None \<Rightarrow> s
      | Some keys \<Rightarrow>
          if hid \<noteq> as_active_hyperlink s
          then (let (t, active) = write_hyperlink keys hid in (ansi_escape t s)\<lparr>as_active_hyperlink := active\<rparr>)
          else s)"

definition sgr_differs :: "gpu_cell \<Rightarrow> gpu_cell \<Rightarrow> bool" where
  "sgr_differs cell prev = (sgr_part (g_attrs cell) \<noteq> sgr_part (g_attrs prev) \<or> g_fg cell \<noteq> g_fg prev
     \<or> g_bg cell \<noteq> g_bg prev \<or> g_decoration_fg cell \<noteq> g_decoration_fg prev)"

definition ansi_sgr :: "gpu_cell \<Rightarrow> ansi_state \<Rightarrow> ansi_state" where
  "ansi_sgr cell s =
     (let sgr = (if sgr_differs cell (as_prev_cell s) then cell_as_sgr cell (as_prev_cell s) else []);
          s = (if sgr \<noteq> [] then ansi_escape (write_sgr sgr) s else s)
      in s\<lparr>as_prev_cell := cell\<rparr>)"

function ansi_loop :: "hyperlink_keys option \<Rightarrow> cell_line \<Rightarrow> nat \<Rightarrow> nat \<Rightarrow> 2 word \<Rightarrow> ansi_state \<Rightarrow> ansi_state" where
  "ansi_loop pool l limit pos previous_width s =
     (if pos < limit then
        (let ch = line_ch l pos in
         if ch = 0 \<and> previous_width = 2 then ansi_loop pool l limit (pos + 1) 0 s
         else
           (let ch = (if ch = 0 then 0x20 else ch);
                cell = l_gpu l ! pos;
                s = ansi_write [ch] (ansi_sgr cell (ansi_hyperlink pool (p_hyperlink_id (l_cpu l ! pos)) s))
            in if ch = 9
               then ansi_loop pool l limit (skip_tab_cells l limit pos (unat (p_cc0 (l_cpu l ! pos))) + 1)
                      (a_width (g_attrs cell)) s
               else ansi_loop pool l limit (pos + 1) (a_width (g_attrs cell))
                      (ansi_write (map codepoint_for_mark (cell_marks (l_cpu l ! pos))) s)))
      else s)"
  by pat_completeness auto
termination
  by (relation "measure (\<lambda>(p, l, limit, pos, c, d). limit - pos)")
    (auto simp: less_Suc_eq_le intro!: diff_less_mono2 le_imp_less_Suc skip_tab_cells_ge)

declare ansi_loop.simps [simp del]

definition prompt_mark :: "prompt_kind \<Rightarrow> char_type list option" where
  "prompt_mark k = (case k of
      UNKNOWN_PROMPT_KIND \<Rightarrow> None
    | PROMPT_START \<Rightarrow> Some [0x41]
    | SECONDARY_PROMPT \<Rightarrow> Some [0x41, 0x3b, 0x6b, 0x3d, 0x73]
    | OUTPUT_START \<Rightarrow> Some [0x43])"

text \<open>
  \<open>prev\<close> is \<open>None\<close> for the null pointer. The result is the text, the last cell, the active hyperlink
  and whether an escape code was written.
\<close>

definition line_as_ansi ::
  "hyperlink_keys option \<Rightarrow> hyperlink_id_type \<Rightarrow> cell_line \<Rightarrow> gpu_cell option \<Rightarrow> nat \<Rightarrow> nat \<Rightarrow> char_type
     \<Rightarrow> char_type list \<times> gpu_cell option \<times> hyperlink_id_type \<times> bool" where
  "line_as_ansi pool active l prev start_at stop_before prefix_char =
     (let limit = min stop_before (xlimit_for_line l);
          s = \<lparr>as_buf = (if prefix_char \<noteq> 0 then [prefix_char] else []), as_active_hyperlink = active,
               as_prev_cell = zero_gpu_cell, as_escape_written = False\<rparr>;
          previous_width = (if prefix_char \<noteq> 0 then word_of_int (wcwidth_std prefix_char) else 0);
          s = (case prompt_mark (la_prompt_kind (l_attrs l)) of None \<Rightarrow> s | Some m \<Rightarrow> ansi_escape (write_mark m) s)
      in if limit \<le> start_at then (as_buf s, prev, as_active_hyperlink s, as_escape_written s)
         else
           (let s = s\<lparr>as_prev_cell := (case prev of None \<Rightarrow> zero_gpu_cell | Some c \<Rightarrow> c)\<rparr>;
                s = ansi_loop pool l limit start_at previous_width s
            in (as_buf s, Some (as_prev_cell s), as_active_hyperlink s, as_escape_written s)))"

section \<open>Marks\<close>

definition line_has_mark :: "cell_line \<Rightarrow> 2 word \<Rightarrow> bool" where
  "line_has_mark l mark =
     list_ex (\<lambda>x. let m = a_mark (g_attrs (l_gpu l ! x)) in m \<noteq> 0 \<and> (mark = 0 \<or> mark = m)) [0 ..< l_xnum l]"

definition set_mark :: "2 word \<Rightarrow> nat \<Rightarrow> cell_line \<Rightarrow> cell_line" where
  "set_mark mark x l = map_gpu x (cell_set_attrs (a_mark_update (\<lambda>_. mark))) l"

fun mark_tab_cells :: "2 word \<Rightarrow> nat \<Rightarrow> nat \<Rightarrow> cell_line \<Rightarrow> nat \<times> cell_line" where
  "mark_tab_cells mark 0 x l = (x, l)"
| "mark_tab_cells mark (Suc n) x l =
     (if x + 1 < l_xnum l \<and> line_ch l (x + 1) = 0x20
      then mark_tab_cells mark n (x + 1) (set_mark mark (x + 1) l) else (x, l))"

text \<open>The result is the next cell, the next match position and the line.\<close>

definition apply_mark :: "2 word \<Rightarrow> nat \<Rightarrow> nat \<Rightarrow> cell_line \<Rightarrow> nat \<times> nat \<times> cell_line" where
  "apply_mark mark x match_pos l =
     (let l = set_mark mark x l;
          match_pos = match_pos + 1;
          p = l_cpu l ! x
      in if p_ch p \<noteq> 0 then
           (if p_ch p = 9 then
              (let (x, l) = mark_tab_cells mark (unat (p_cc0 p)) x l in (x + 1, match_pos, l))
            else if line_width l x > 1 \<and> x + 1 < l_xnum l \<and> line_ch l (x + 1) = 0 then
              (x + 2, match_pos, set_mark mark (x + 1) l)
            else (x + 1, match_pos + length (filter (\<lambda>m. m \<noteq> 0) [p_cc0 p, p_cc1 p, p_cc2 p]), l))
         else (x + 1, match_pos, l))"

lemma mark_tab_cells_ge: "x \<le> fst (mark_tab_cells mark n x l) \<and> l_xnum (snd (mark_tab_cells mark n x l)) = l_xnum l"
  by (induction mark n x l rule: mark_tab_cells.induct)
    (auto simp: set_mark_def map_gpu_def elim: le_trans [rotated])

lemma apply_mark_ge: "apply_mark mark x m l = (x', m', l') \<Longrightarrow> x < x' \<and> l_xnum l' = l_xnum l"
  using mark_tab_cells_ge [of x mark _ "set_mark mark x l"]
  by (auto simp: apply_mark_def Let_def set_mark_def map_gpu_def less_Suc_eq_le split: prod.splits if_splits)
    (metis fst_conv snd_conv)+

text \<open>The loop \<^verbatim>\<open>while (x < xnum && go(match_pos)) apply_mark(...)\<close>.\<close>

function mark_while :: "(nat \<Rightarrow> bool) \<Rightarrow> 2 word \<Rightarrow> nat \<Rightarrow> nat \<Rightarrow> cell_line \<Rightarrow> nat \<times> nat \<times> cell_line" where
  "mark_while go mark x match_pos l =
     (if x < l_xnum l \<and> go match_pos then
        (case apply_mark mark x match_pos l of (x', m', l') \<Rightarrow> mark_while go mark x' m' l')
      else (x, match_pos, l))"
  by pat_completeness auto
termination
  by (relation "measure (\<lambda>(g, mk, x, m, l). l_xnum l - x)") (auto split: prod.splits dest: apply_mark_ge [OF sym] apply_mark_ge)

declare mark_while.simps [simp del]

text \<open>\<open>matches\<close> is what the marker yields: the first and the last position and the colour.\<close>

fun apply_matches :: "(nat \<times> nat \<times> nat) list \<Rightarrow> nat \<Rightarrow> nat \<Rightarrow> cell_line \<Rightarrow> nat \<times> cell_line" where
  "apply_matches [] x match_pos l = (x, l)"
| "apply_matches ((lft, rgt, col) # ms) x match_pos l =
     (if x < l_xnum l then
        (case mark_while (\<lambda>p. p < lft) 0 x match_pos l of (x, match_pos, l) \<Rightarrow>
         case mark_while (\<lambda>p. p \<le> rgt) (word_of_nat col) x match_pos l of (x, match_pos, l) \<Rightarrow>
           apply_matches ms x match_pos l)
      else (x, l))"

definition clear_marks_from :: "nat \<Rightarrow> cell_line \<Rightarrow> cell_line" where
  "clear_marks_from x l =
     l\<lparr>l_gpu := update_range (cell_set_attrs (a_mark_update (\<lambda>_. 0))) x (l_xnum l - x) (l_gpu l)\<rparr>"

definition apply_marker :: "(char_type list \<Rightarrow> (nat \<times> nat \<times> nat) list) \<Rightarrow> cell_line \<Rightarrow> char_type list \<Rightarrow> cell_line" where
  "apply_marker marker l text = (case apply_matches (marker text) 0 0 l of (x, l) \<Rightarrow> clear_marks_from x l)"

definition mark_text_in_line :: "(char_type list \<Rightarrow> (nat \<times> nat \<times> nat) list) option \<Rightarrow> cell_line \<Rightarrow> cell_line" where
  "mark_text_in_line marker l =
     (case marker of
        None \<Rightarrow> clear_marks_from 0 l
      | Some marker \<Rightarrow>
          (let text = line_as_unicode l False
           in if text \<noteq> [] then apply_marker marker l text else clear_marks_from 0 l))"


section \<open>Well-formed lines\<close>

lemma line_ops_wf [wf_intros]:
  "line_wf l \<Longrightarrow> line_wf (map_cpu x f l)" "line_wf l \<Longrightarrow> line_wf (map_gpu x g l)"
  "line_wf l \<Longrightarrow> line_wf (copy_cell src s l d)"
  "line_wf l \<Longrightarrow> line_wf (line_set_char l at ch width cur hid)"
  "line_wf l \<Longrightarrow> line_wf (line_clear_text l at num ch)"
  "line_wf l \<Longrightarrow> line_wf (line_apply_cursor l c at num clear)"
  "line_wf l \<Longrightarrow> line_wf (blank_split_cell x l)"
  "line_wf l \<Longrightarrow> line_wf (line_add_combining_char l ch x)"
  by (auto simp: line_wf_def map_cpu_def map_gpu_def copy_cell_def line_set_char_def Let_def
      line_clear_text_def line_apply_cursor_def blank_split_cell_def line_add_combining_char_def)

lemma line_ops_xnum [frame_simps, simp]:
  "l_xnum (map_cpu x f l) = l_xnum l" "l_xnum (map_gpu x g l) = l_xnum l"
  "l_xnum (copy_cell src s l d) = l_xnum l" "l_xnum (blank_split_cell x l) = l_xnum l"
  "l_xnum (line_set_char l at ch width cur hid) = l_xnum l"
  "l_xnum (line_clear_text l at num ch) = l_xnum l" "l_xnum (line_apply_cursor l c at num clear) = l_xnum l"
  by (simp_all add: map_cpu_def map_gpu_def copy_cell_def blank_split_cell_def line_set_char_def
      line_clear_text_def line_apply_cursor_def Let_def)

section \<open>Shifting\<close>

lemma right_shift_loop_cells:
  assumes "n + num \<le> Suc i" "i < l_xnum l" "line_wf l"
  shows "line_wf (right_shift_loop n i num l) \<and> l_xnum (right_shift_loop n i num l) = l_xnum l \<and>
    (\<forall>k < l_xnum l.
      l_cpu (right_shift_loop n i num l) ! k = (if Suc i - n \<le> k \<and> k \<le> i then l_cpu l ! (k - num) else l_cpu l ! k) \<and>
      l_gpu (right_shift_loop n i num l) ! k = (if Suc i - n \<le> k \<and> k \<le> i then l_gpu l ! (k - num) else l_gpu l ! k))"
  using assms
proof (induction n arbitrary: i l)
  case (Suc n)
  let ?l = "copy_cell l (i - num) l i"
  have wf: "line_wf ?l" using Suc.prems by (intro line_ops_wf)
  show ?case
  proof (cases i)
    case 0
    with Suc.prems have "n = 0" "num = 0" by auto
    with 0 Suc.prems show ?thesis by (auto simp: copy_cell_def line_wf_def)
  next
    case (Suc j)
    have *: "n + num \<le> Suc j" "j < l_xnum ?l" using Suc.prems Suc by auto
    note IH = Suc.IH [OF * wf]
    show ?thesis
      using IH Suc.prems Suc
      by (auto simp: copy_cell_def line_wf_def nth_list_update)
  qed
qed auto

lemma left_shift_loop_cells:
  assumes "i + n + num \<le> l_xnum l" "line_wf l"
  shows "line_wf (left_shift_loop n i num l) \<and> l_xnum (left_shift_loop n i num l) = l_xnum l \<and>
    (\<forall>k < l_xnum l.
      l_cpu (left_shift_loop n i num l) ! k = (if i \<le> k \<and> k < i + n then l_cpu l ! (k + num) else l_cpu l ! k) \<and>
      l_gpu (left_shift_loop n i num l) ! k = (if i \<le> k \<and> k < i + n then l_gpu l ! (k + num) else l_gpu l ! k))"
  using assms
proof (induction n arbitrary: i l)
  case (Suc n)
  have *: "Suc i + n + num \<le> l_xnum (copy_cell l (i + num) l i)" using Suc.prems by simp
  have wf: "line_wf (copy_cell l (i + num) l i)" using Suc.prems by (intro line_ops_wf)
  show ?case
    using Suc.IH [OF * wf] Suc.prems by (auto simp: copy_cell_def line_wf_def nth_list_update)
qed auto

lemma blank_split_cell_cells:
  "line_wf l \<Longrightarrow> x < l_xnum l \<Longrightarrow> k < l_xnum l \<Longrightarrow>
   l_cpu (blank_split_cell x l) ! k = (if k = x then (l_cpu l ! k)\<lparr>p_ch := 0, p_hyperlink_id := 0\<rparr> else l_cpu l ! k)"
  "line_wf l \<Longrightarrow> x < l_xnum l \<Longrightarrow> k < l_xnum l \<Longrightarrow> k \<noteq> x \<Longrightarrow> l_gpu (blank_split_cell x l) ! k = l_gpu l ! k"
  "line_wf l \<Longrightarrow> x < l_xnum l \<Longrightarrow> line_width (blank_split_cell x l) x = 0"
  by (auto simp: blank_split_cell_def map_cpu_def map_gpu_def line_wf_def clear_sprite_position_def zero_attrs_def)

text \<open>The cells after a shift, but for the one that may have been cut in half.\<close>

lemma line_right_shift_cells:
  assumes "line_wf l" "0 < num" "at + num \<le> l_xnum l"
  shows "line_wf (line_right_shift l at num)" "l_xnum (line_right_shift l at num) = l_xnum l"
    "k < l_xnum l \<Longrightarrow> src = (if at + num \<le> k then k - num else k) \<Longrightarrow> k < l_xnum l - 1 \<or> line_width l src = 1 \<Longrightarrow>
     l_cpu (line_right_shift l at num) ! k = l_cpu l ! src \<and> l_gpu (line_right_shift l at num) ! k = l_gpu l ! src"
    "src = (if at + num \<le> l_xnum l - 1 then l_xnum l - 1 - num else l_xnum l - 1) \<Longrightarrow> line_width l src \<noteq> 1 \<Longrightarrow>
     line_ch (line_right_shift l at num) (l_xnum l - 1) = 0 \<and> line_width (line_right_shift l at num) (l_xnum l - 1) = 0"
proof -
  let ?n = "l_xnum l - (at + num)" and ?last = "l_xnum l - 1"
  define sl where "sl = right_shift_loop ?n ?last num l"
  have last: "?last < l_xnum l" using assms by linarith
  have "?n + num \<le> Suc ?last" using assms by linarith
  note c = right_shift_loop_cells [OF this last assms(1), folded sl_def]
  have wf: "line_wf sl" and x: "l_xnum sl = l_xnum l" using c by blast+
  have r: "line_right_shift l at num = (if line_width sl ?last \<noteq> 1 then blank_split_cell ?last sl else sl)"
    by (simp only: line_right_shift_def Let_def x sl_def [symmetric])
  show "line_wf (line_right_shift l at num)" using wf by (simp add: r line_ops_wf)
  show "l_xnum (line_right_shift l at num) = l_xnum l" by (simp add: r x)
  have cells: "l_cpu sl ! k = l_cpu l ! (if at + num \<le> k then k - num else k) \<and>
      l_gpu sl ! k = l_gpu l ! (if at + num \<le> k then k - num else k)" if "k < l_xnum l" for k
  proof -
    have "(Suc ?last - ?n \<le> k \<and> k \<le> ?last) = (at + num \<le> k)" using that assms by linarith
    with c that show ?thesis by simp
  qed
  show "k < l_xnum l \<Longrightarrow> src = (if at + num \<le> k then k - num else k) \<Longrightarrow> k < l_xnum l - 1 \<or> line_width l src = 1 \<Longrightarrow>
     l_cpu (line_right_shift l at num) ! k = l_cpu l ! src \<and> l_gpu (line_right_shift l at num) ! k = l_gpu l ! src"
  proof -
    assume k: "k < l_xnum l" and src: "src = (if at + num \<le> k then k - num else k)"
      and w: "k < l_xnum l - 1 \<or> line_width l src = 1"
    show ?thesis
    proof (cases "line_width sl ?last \<noteq> 1")
      case False
      then show ?thesis using cells [OF k] src by (simp add: r)
    next
      case True
      have "k \<noteq> ?last"
      proof
        assume "k = ?last"
        with w cells [OF k] src True show False by simp
      qed
      then show ?thesis
        using True cells [OF k] src blank_split_cell_cells(1,2) [OF wf, of ?last k] last k x by (simp add: r)
    qed
  qed
  show "src = (if at + num \<le> l_xnum l - 1 then l_xnum l - 1 - num else l_xnum l - 1) \<Longrightarrow> line_width l src \<noteq> 1 \<Longrightarrow>
     line_ch (line_right_shift l at num) (l_xnum l - 1) = 0 \<and> line_width (line_right_shift l at num) (l_xnum l - 1) = 0"
    using cells [OF last] last blank_split_cell_cells(1) [OF wf, of ?last ?last] blank_split_cell_cells(3) [OF wf, of ?last] x
    by (simp add: r)
qed

lemma left_shift_line_cells:
  assumes "line_wf l" "0 < num" "at < l_xnum l" "at + num \<le> l_xnum l"
  shows "line_wf (left_shift_line l at num)" "l_xnum (left_shift_line l at num) = l_xnum l"
    "k < l_xnum l \<Longrightarrow> src = (if at \<le> k \<and> k + num < l_xnum l then k + num else k) \<Longrightarrow> k \<noteq> at \<or> line_width l src = 1 \<Longrightarrow>
     l_cpu (left_shift_line l at num) ! k = l_cpu l ! src \<and> l_gpu (left_shift_line l at num) ! k = l_gpu l ! src"
proof -
  let ?n = "l_xnum l - num - at"
  define sl where "sl = left_shift_loop ?n at num l"
  have "at + ?n + num \<le> l_xnum l" using assms by linarith
  note c = left_shift_loop_cells [OF this assms(1), folded sl_def]
  have wf: "line_wf sl" and x: "l_xnum sl = l_xnum l" using c by blast+
  have r: "left_shift_line l at num = (if line_width sl at \<noteq> 1 then blank_split_cell at sl else sl)"
    using assms x by (simp only: left_shift_line_def Let_def sl_def [symmetric] simp_thms)
  show "line_wf (left_shift_line l at num)" using wf by (simp add: r line_ops_wf)
  show "l_xnum (left_shift_line l at num) = l_xnum l" by (simp add: r x)
  show "k < l_xnum l \<Longrightarrow> src = (if at \<le> k \<and> k + num < l_xnum l then k + num else k) \<Longrightarrow> k \<noteq> at \<or> line_width l src = 1 \<Longrightarrow>
     l_cpu (left_shift_line l at num) ! k = l_cpu l ! src \<and> l_gpu (left_shift_line l at num) ! k = l_gpu l ! src"
  proof -
    assume k: "k < l_xnum l" and src: "src = (if at \<le> k \<and> k + num < l_xnum l then k + num else k)"
      and w: "k \<noteq> at \<or> line_width l src = 1"
    have "(at \<le> k \<and> k < at + ?n) = (at \<le> k \<and> k + num < l_xnum l)" using assms by linarith
    with c k src have cells: "l_cpu sl ! k = l_cpu l ! src" "l_gpu sl ! k = l_gpu l ! src" by simp_all
    show ?thesis
    proof (cases "line_width sl at \<noteq> 1")
      case True
      then have "k \<noteq> at" using w cells by auto
      then show ?thesis
        using True cells blank_split_cell_cells(1,2) [OF wf, of at k] assms k x by (simp add: r)
    qed (simp add: r cells)
  qed
qed

theorem shift_right_then_left:
  assumes "line_wf l" "0 < num" "at + num < l_xnum l" "line_width l at = 1"
  shows "\<exists>l' l''. right_shift l at num = Inr l' \<and> left_shift l' at num = Inr l'' \<and> line_wf l'' \<and>
    (\<forall>k < l_xnum l - num - 1. l_cpu l'' ! k = l_cpu l ! k \<and> l_gpu l'' ! k = l_gpu l ! k)"
proof -
  let ?l' = "line_right_shift l at num"
  have le: "at + num \<le> l_xnum l" using assms by simp
  note R = line_right_shift_cells [OF assms(1,2) le]
  have "at < l_xnum ?l'" "at + num \<le> l_xnum ?l'" using R(2) assms by simp_all
  note L = left_shift_line_cells [OF R(1) assms(2) this]
  have "l_cpu (left_shift_line ?l' at num) ! k = l_cpu l ! k \<and> l_gpu (left_shift_line ?l' at num) ! k = l_gpu l ! k"
    if k: "k < l_xnum l - num - 1" for k
  proof (cases "at \<le> k")
    case True
    have "k + num < l_xnum l - 1" "at + num \<le> k + num" using True k by linarith+
    with R(3) [of "k + num" k] have r: "l_cpu ?l' ! (k + num) = l_cpu l ! k \<and> l_gpu ?l' ! (k + num) = l_gpu l ! k"
      by simp
    have "k + num < l_xnum l" "k < l_xnum l" using k by linarith+
    then show ?thesis using L(3) [of k "k + num"] r True R(2) assms(4) by auto
  next
    case False
    have "k < l_xnum l" "k < l_xnum l - 1" using k by linarith+
    with R(3) [of k k] have "l_cpu ?l' ! k = l_cpu l ! k \<and> l_gpu ?l' ! k = l_gpu l ! k" using False k by simp
    then show ?thesis using L(3) [of k k] False k R(2) by simp
  qed
  then show ?thesis using assms R(2) L(1) by (simp add: right_shift_def left_shift_def)
qed

definition example_line :: cell_line where
  "example_line = \<lparr>l_cpu = map (\<lambda>c. zero_cpu_cell\<lparr>p_ch := c\<rparr>) [0x61, 0x62, 0x63, 0x64, 0x65],
     l_gpu = replicate 5 (zero_gpu_cell\<lparr>g_attrs := zero_attrs\<lparr>a_width := 1\<rparr>\<rparr>), l_xnum = 5, l_ynum = 0,
     l_attrs = zero_line_attrs\<rparr>"

lemma shift_right_then_left_witness:
  "\<exists>l' l''. right_shift example_line 1 2 = Inr l' \<and> left_shift l' 1 2 = Inr l'' \<and> line_wf l'' \<and>
    line_ch l'' 0 = 0x61 \<and> line_ch l'' 1 = 0x62"
proof -
  have "line_wf example_line" "(0::nat) < 2" "1 + 2 < l_xnum example_line" "line_width example_line 1 = 1"
    by (simp_all add: example_line_def line_wf_def)
  from shift_right_then_left [OF this] obtain l' l'' where l: "right_shift example_line 1 2 = Inr l'"
    "left_shift l' 1 2 = Inr l''" "line_wf l''"
    "\<forall>k < l_xnum example_line - 2 - 1. l_cpu l'' ! k = l_cpu example_line ! k \<and> l_gpu l'' ! k = l_gpu example_line ! k"
    by blast
  then have "l_cpu l'' ! 0 = l_cpu example_line ! 0" "l_cpu l'' ! 1 = l_cpu example_line ! 1"
    by (simp_all add: example_line_def)
  with l(1-3) show ?thesis by (simp add: example_line_def)
qed

section \<open>URL properties\<close>

lemma is_url_char_nonzero: "is_url_char ex c \<Longrightarrow> c \<noteq> 0"
  by (simp add: is_url_char_def)

definition colon_slash_at :: "cell_line \<Rightarrow> nat \<Rightarrow> bool" where
  "colon_slash_at l p = (p + 2 < l_xnum l \<and> line_ch l p = 0x3a \<and> line_ch l (p + 1) = 0x2f \<and> line_ch l (p + 2) = 0x2f)"

text \<open>What the state of the backward scan says of the cells after \<open>pos\<close>.\<close>

definition slash_inv :: "cell_line \<Rightarrow> nat \<Rightarrow> url_parser_state \<Rightarrow> bool" where
  "slash_inv l pos st = (pos < l_xnum l \<and>
     (st \<noteq> ANY \<longrightarrow> pos + 1 < l_xnum l \<and> line_ch l (pos + 1) = 0x2f) \<and>
     (st = SECOND_SLASH \<longrightarrow> pos + 2 < l_xnum l \<and> line_ch l (pos + 2) = 0x2f))"

lemma colon_slash_start_inv: "slash_inv l pos st \<Longrightarrow> slash_inv l pos (colon_slash_start l x pos (line_ch l pos) st)"
  by (auto simp: slash_inv_def colon_slash_start_def)

lemma slash_inv_back:
  "slash_inv l (Suc q) st \<Longrightarrow> st \<noteq> FIRST_SLASH \<Longrightarrow> st \<noteq> SECOND_SLASH \<Longrightarrow>
     slash_inv l q (if line_ch l (Suc q) = 0x2f then FIRST_SLASH else ANY)"
  "slash_inv l (Suc q) st \<Longrightarrow> st \<noteq> ANY \<Longrightarrow>
     slash_inv l q (if line_ch l (Suc q) = 0x2f then SECOND_SLASH else ANY)"
  by (auto simp: slash_inv_def)

lemma colon_slash_loop_found:
  "slash_inv l pos st \<Longrightarrow> colon_slash_loop ex l x limit pos st = p \<Longrightarrow> p \<noteq> 0 \<Longrightarrow> colon_slash_at l p"
proof (induction pos arbitrary: st)
  case (Suc q)
  define st' where "st' = colon_slash_start l x (Suc q) (line_ch l (Suc q)) st"
  have inv: "slash_inv l (Suc q) st'" unfolding st'_def by (rule colon_slash_start_inv [OF Suc.prems(1)])
  have found: "st' = SECOND_SLASH \<Longrightarrow> line_ch l (Suc q) = 0x3a \<Longrightarrow> colon_slash_at l (Suc q)"
    using inv by (simp add: slash_inv_def colon_slash_at_def)
  show ?case
    using Suc.prems(2,3) Suc.IH slash_inv_back [OF inv] found
    by (cases st') (auto simp: Let_def st'_def [symmetric] split: if_splits)
qed simp

lemma find_colon_slash_found:
  assumes "0 < l_xnum l" "l_xnum l < 2 ^ 32" "find_colon_slash ex l x limit = p" "p \<noteq> 0"
  shows "colon_slash_at l p"
proof -
  let ?pos = "min x (usub32 (l_xnum l) 1)"
  have "usub32 (l_xnum l) 1 = l_xnum l - 1" using assms(1,2) by (intro usub32_le) auto
  then have "slash_inv l ?pos ANY" using assms(1) by (simp add: slash_inv_def)
  from colon_slash_loop_found [OF this] assms(3,4) show ?thesis
    by (auto simp: find_colon_slash_def Let_def split: if_splits)
qed

lemma has_url_prefix_at_found:
  "has_url_prefix_at prefixes l at m = Some t \<Longrightarrow>
   \<exists>p \<in> set prefixes. t + length p = at \<and> (\<forall>i < length p. line_ch l (t + i) = p ! i)"
proof (induction prefixes)
  case (Cons p prefixes)
  then show ?case by (auto simp: prefix_matches_def list_all_iff split: if_splits)
qed simp

theorem line_url_start_at_prefix:
  assumes "l_xnum l < 2 ^ 32" and "line_url_start_at ex prefixes max_len l x = t" and "t < l_xnum l"
  shows "\<exists>p \<in> set prefixes. t + length p + 2 < l_xnum l \<and> (\<forall>i < length p. line_ch l (t + i) = p ! i) \<and>
    map (line_ch l) [t + length p ..< t + length p + 3] = [0x3a, 0x2f, 0x2f]"
proof -
  have pos: "0 < l_xnum l" using assms(3) by simp
  define ds1 where "ds1 = find_colon_slash ex l (x + max_len + 3) (if x < 2 then 0 else x - 2)"
  define ds2 where "ds2 = find_colon_slash ex l x 0"
  define m where "m = (if ds1 > x then ds1 - x else 0)"
  define ahead where "ahead = (if ds1 \<noteq> 0 \<and> has_url_beyond ex l ds1 then has_url_prefix_at prefixes l ds1 m else None)"
  have t: "t = (if x \<ge> l_xnum l \<or> l_xnum l \<le> MIN_URL_LEN + 3 then l_xnum l else
      case ahead of Some t \<Rightarrow> t | None \<Rightarrow>
        if ds2 = 0 \<or> l_xnum l < ds2 + MIN_URL_LEN + 3 \<or> \<not> has_url_beyond ex l ds2 then l_xnum l
        else case has_url_prefix_at prefixes l ds2 0 of Some t \<Rightarrow> t | None \<Rightarrow> l_xnum l)"
    unfolding assms(2) [symmetric] line_url_start_at_def Let_def ds1_def ds2_def m_def ahead_def by (rule refl)
  have f: "ds1 \<noteq> 0 \<Longrightarrow> colon_slash_at l ds1" "ds2 \<noteq> 0 \<Longrightarrow> colon_slash_at l ds2"
    unfolding ds1_def ds2_def using find_colon_slash_found [OF pos assms(1) refl] by blast+
  have "\<exists>ds m. colon_slash_at l ds \<and> has_url_prefix_at prefixes l ds m = Some t"
  proof (cases ahead)
    case (Some t')
    then have "t' = t" using t assms(3) by (auto split: if_splits)
    then show ?thesis using Some f(1) by (auto simp: ahead_def split: if_splits)
  next
    case None
    then have "ds2 \<noteq> 0" "has_url_prefix_at prefixes l ds2 0 = Some t" using t assms(3) by (auto split: if_splits option.splits)
    then show ?thesis using f(2) by blast
  qed
  then obtain ds m where ds: "colon_slash_at l ds" "has_url_prefix_at prefixes l ds m = Some t" by blast
  from has_url_prefix_at_found [OF ds(2)] ds(1) show ?thesis
    by (auto simp: colon_slash_at_def upt_rec)
qed

definition url_line :: cell_line where
  "url_line = \<lparr>l_cpu = map (\<lambda>c. zero_cpu_cell\<lparr>p_ch := c\<rparr>)
       [0x20, 0x66, 0x74, 0x70, 0x3a, 0x2f, 0x2f, 0x61, 0x2e, 0x62, 0x63, 0x64, 0x2e, 0x20],
     l_gpu = replicate 14 zero_gpu_cell, l_xnum = 14, l_ynum = 0, l_attrs = zero_line_attrs\<rparr>"

lemma url_char_examples [simp]:
  "is_url_char [] 0x66" "is_url_char [] 0x74" "is_url_char [] 0x70" "is_url_char [] 0x3a" "is_url_char [] 0x2f"
  "is_url_char [] 0x61" "is_url_char [] 0x62" "is_url_char [] 0x63" "is_url_char [] 0x64" "is_url_char [] 0x2e"
  "\<not> is_url_char [] 0x20"
  by (simp_all add: is_url_char_def is_excluded_from_url_def is_CZ_category_def CZ_ranges_def)

lemma colon_slash_loop_unfold:
  "0 < pos \<Longrightarrow> colon_slash_loop ex l x limit pos st =
     (let ch = line_ch l pos in
      if \<not> is_url_char ex ch then 0
      else
        (let st = colon_slash_start l x pos ch st;
             continue = (\<lambda>st. if limit \<le> pos - 1 then colon_slash_loop ex l x limit (pos - 1) st else 0)
         in case st of
              ANY \<Rightarrow> continue (if ch = 0x2f then FIRST_SLASH else ANY)
            | FIRST_SLASH \<Rightarrow> continue (if ch = 0x2f then SECOND_SLASH else ANY)
            | SECOND_SLASH \<Rightarrow>
                if ch = 0x3a then pos else continue (if ch = 0x2f then SECOND_SLASH else ANY)))"
  by (cases pos) (simp, simp only: colon_slash_loop.simps diff_Suc_1 Let_def)

lemma line_url_start_at_prefix_witness:
  "line_url_start_at [] [[0x66, 0x74, 0x70]] 3 url_line 8 = 1 \<and>
   (\<exists>p \<in> set [[0x66 :: u32, 0x74, 0x70]]. 1 + length p + 2 < l_xnum url_line \<and>
     map (line_ch url_line) [1 + length p ..< 1 + length p + 3] = [0x3a, 0x2f, 0x2f])"
proof -
  have len: "l_xnum url_line = 14" by (simp add: url_line_def)
  have one: "usub32 14 1 = 13" by (simp add: usub32_def)
  have loop: "colon_slash_loop [] url_line 8 2 8 ANY = 4"
    by (simp add: colon_slash_loop_unfold colon_slash_start_def url_line_def)
  have miss: "colon_slash_loop [] url_line 14 6 13 ANY = 0"
    by (simp add: colon_slash_loop_unfold colon_slash_start_def url_line_def)
  have "has_url_beyond [] url_line 4" "prefix_matches url_line 4 [0x66, 0x74, 0x70]"
    by (simp_all add: has_url_beyond_def prefix_matches_def len upt_rec url_line_def)
  with loop miss have s: "line_url_start_at [] [[0x66, 0x74, 0x70]] 3 url_line 8 = 1"
    by (simp add: line_url_start_at_def find_colon_slash_def len one)
  have "l_xnum url_line < 2 ^ 32" "1 < l_xnum url_line" by (simp_all add: len)
  from line_url_start_at_prefix [OF this(1) s this(2)] obtain p where
    p: "p \<in> set [[0x66 :: u32, 0x74, 0x70]]" "1 + length p + 2 < l_xnum url_line"
      "map (line_ch url_line) [1 + length p ..< 1 + length p + 3] = [0x3a, 0x2f, 0x2f]" by (elim bexE conjE)
  show ?thesis by (intro conjI s bexI [OF _ p(1)] p(2,3))
qed
lemma url_end_forward_chars:
  "x \<le> url_end_forward ex l s x \<and> (\<forall>i. x \<le> i \<and> i < url_end_forward ex l s x \<longrightarrow>
     i < l_xnum l \<and> is_url_char ex (line_ch l i) \<and> (s = 0 \<or> line_ch l i \<noteq> s))"
proof (induction ex l s x rule: url_end_forward.induct)
  case (1 ex l s x)
  show ?case
  proof (cases "x < l_xnum l \<and> (s = 0 \<or> line_ch l x \<noteq> s) \<and> is_url_char ex (line_ch l x)")
    case True
    then have e: "url_end_forward ex l s x = url_end_forward ex l s (Suc x)" by (subst url_end_forward.simps) simp
    show ?thesis
    proof (intro conjI allI impI)
      show "x \<le> url_end_forward ex l s x" using 1 [OF True] e by simp
      fix i assume i: "x \<le> i \<and> i < url_end_forward ex l s x"
      then have "i = x \<or> Suc x \<le> i \<and> i < url_end_forward ex l s (Suc x)" using e by auto
      then show "i < l_xnum l" "is_url_char ex (line_ch l i)" "s = 0 \<or> line_ch l i \<noteq> s" using True 1 [OF True] by blast+
    qed
  next
    case False
    then have "url_end_forward ex l s x = x" by (subst url_end_forward.simps) auto
    then show ?thesis by auto
  qed
qed

lemma url_end_strip_range: "x \<le> a \<Longrightarrow> x \<le> url_end_strip l x a \<and> url_end_strip l x a \<le> a"
  by (induction a) auto

lemma url_end_strip_stops: "x < url_end_strip l x a \<Longrightarrow> \<not> can_strip_from_end_of_url (line_ch l (url_end_strip l x a))"
  by (induction a) (auto split: if_splits)

theorem line_url_end_at_chars:
  assumes "x < l_xnum l" "check_short \<longrightarrow> 8 < l_xnum l" "is_url_char ex (line_ch l x)" "s = 0 \<or> line_ch l x \<noteq> s"
  shows "x \<le> line_url_end_at ex l x check_short s next_line \<and> line_url_end_at ex l x check_short s next_line < l_xnum l \<and>
    (\<forall>i \<in> {x .. line_url_end_at ex l x check_short s next_line}. is_url_char ex (line_ch l i) \<and> (s = 0 \<or> line_ch l i \<noteq> s)) \<and>
    (x < line_url_end_at ex l x check_short s next_line \<and> can_strip_from_end_of_url (line_ch l (line_url_end_at ex l x check_short s next_line))
      \<longrightarrow> next_line \<and> line_url_end_at ex l x check_short s next_line = l_xnum l - 1)"
proof -
  define f where "f = url_end_forward ex l s x"
  define a where "a = f - 1"
  note F = url_end_forward_chars [of x ex l s, folded f_def]
  have "x < f"
  proof -
    have "url_end_forward ex l s x = url_end_forward ex l s (Suc x)"
      using assms by (subst url_end_forward.simps) simp
    then show ?thesis using url_end_forward_chars [of "Suc x" ex l s] by (simp add: f_def)
  qed
  then have xa: "x \<le> a" and af: "a < f" by (simp_all add: a_def)
  with F have ax: "a < l_xnum l" by auto
  have e: "\<not> a < l_xnum l - 1 \<Longrightarrow> a = l_xnum l - 1" using ax by linarith
  have r: "line_url_end_at ex l x check_short s next_line =
      (if a < l_xnum l - 1 \<or> \<not> next_line then url_end_strip l x a else a)"
    using assms \<open>x < f\<close> by (auto simp: line_url_end_at_def Let_def f_def [symmetric] a_def)
  show ?thesis
    using url_end_strip_range [OF xa, of l] url_end_strip_stops [of x l a] F xa af ax e unfolding r by auto
qed

lemma line_url_end_at_chars_witness:
  "1 \<le> line_url_end_at [] url_line 1 True 0 False \<and> line_url_end_at [] url_line 1 True 0 False < l_xnum url_line \<and>
   is_url_char [] (line_ch url_line 1)"
proof -
  have "1 < l_xnum url_line" "True \<longrightarrow> 8 < l_xnum url_line" "is_url_char [] (line_ch url_line 1)"
    "(0 :: u32) = 0 \<or> line_ch url_line 1 \<noteq> 0" by (simp_all add: url_line_def)
  from line_url_end_at_chars [OF this, of False] show ?thesis by auto
qed

section \<open>Text properties\<close>

lemma length_cell_as_unicode: "length (cell_as_unicode p cc z) \<le> 4"
  by (simp add: cell_as_unicode_def cell_marks_def)

lemma unicode_loop_length: "length buf \<le> 4094 \<Longrightarrow> length (unicode_loop l limit cc sk i pw buf) \<le> 4094"
proof (induction l limit cc sk i pw buf rule: unicode_loop.induct)
  case (1 l limit cc sk i pw buf)
  show ?case
  proof (cases "i < limit \<and> length buf < text_buf_size - 2 - 3")
    case True
    then have "length (buf @ cell_as_unicode (l_cpu l ! i) cc 0x20) \<le> 4094" "length (buf @ [9]) \<le> 4094"
      using length_cell_as_unicode [of "l_cpu l ! i" cc "0x20"] by simp_all
    with 1 True show ?thesis by (subst unicode_loop.simps) (simp add: Let_def)
  next
    case False
    with 1 show ?thesis by (subst unicode_loop.simps) auto
  qed
qed

theorem unicode_in_range_fits: "length (unicode_in_range l start limit cc newline sk) < text_buf_size"
  using unicode_loop_length [of "[]" l limit cc sk start 0] by (simp add: unicode_in_range_def Let_def)

definition plain_cell :: "gpu_cell \<Rightarrow> bool" where
  "plain_cell g = (g_fg g = 0 \<and> g_bg g = 0 \<and> g_decoration_fg g = 0 \<and> sgr_part (g_attrs g) = zero_attrs)"

lemma ansi_sgr_plain: "plain_cell g \<Longrightarrow> plain_cell (as_prev_cell s) \<Longrightarrow> ansi_sgr g s = s\<lparr>as_prev_cell := g\<rparr>"
  by (simp add: plain_cell_def ansi_sgr_def sgr_differs_def)

lemma skip_tab_cells_space:
  "skip_tab_cells l limit i n = i \<or>
   skip_tab_cells l limit i n < limit \<and> line_ch l (skip_tab_cells l limit i n) = 0x20"
  by (induction l limit i n rule: skip_tab_cells.induct) auto

lemma ansi_loop_plain:
  "(\<And>i. i < limit \<Longrightarrow> plain_cell (l_gpu l ! i) \<and> (line_ch l i \<in> {9, 0x20} \<longrightarrow> line_width l i \<noteq> 2)) \<Longrightarrow>
   plain_cell (as_prev_cell s) \<Longrightarrow> (pw = 2) = (pw' = 2) \<Longrightarrow> length (as_buf s) + 4 * (limit - pos) < 4091 \<Longrightarrow>
   as_buf (ansi_loop None l limit pos pw s) = unicode_loop l limit True False pos pw' (as_buf s) \<and>
   as_escape_written (ansi_loop None l limit pos pw s) = as_escape_written s"
proof (induction "limit - pos" arbitrary: pos pw pw' s rule: less_induct)
  case less
  show ?case
  proof (cases "pos < limit")
    case False
    then show ?thesis by (simp add: ansi_loop.simps [of None l limit pos] unicode_loop.simps [of l limit True False pos])
  next
    case True
    have buf: "length (as_buf s) < text_buf_size - 2 - 3" using less.prems(4) True by simp
    have g: "plain_cell (l_gpu l ! pos)" using less.prems(1) True by blast
    let ?sk = "skip_tab_cells l limit pos (unat (p_cc0 (l_cpu l ! pos)))"
    consider "line_ch l pos = 0" "pw = 2" | "line_ch l pos = 9" | "line_ch l pos \<noteq> 9" "line_ch l pos \<noteq> 0 \<or> pw \<noteq> 2" by auto
    then show ?thesis
    proof cases
      case 1
      have *: "length (as_buf s) + 4 * (limit - (pos + 1)) < 4091" "limit - (pos + 1) < limit - pos" using less.prems(4) True by auto
      have IH: "as_buf (ansi_loop None l limit (pos + 1) 0 s) = unicode_loop l limit True False (pos + 1) 0 (as_buf s) \<and>
          as_escape_written (ansi_loop None l limit (pos + 1) 0 s) = as_escape_written s"
        by (rule less.hyps [OF *(2) less.prems(1,2) refl *(1)])
      show ?thesis
        using IH 1 True buf less.prems(3)
        by (subst (1 2) ansi_loop.simps, subst unicode_loop.simps) simp
    next
      case 2
      define s' where "s' = ansi_write [9] (ansi_sgr (l_gpu l ! pos) s)"
      have s': "as_buf s' = as_buf s @ [9]" "plain_cell (as_prev_cell s')" "as_escape_written s' = as_escape_written s"
        using g less.prems(2) by (simp_all add: s'_def ansi_write_def ansi_sgr_plain)
      have sk: "pos \<le> ?sk" by (rule skip_tab_cells_ge)
      have "limit - (?sk + 1) < limit - pos" "length (as_buf s') + 4 * (limit - (?sk + 1)) < 4091"
        using less.prems(4) True sk s'(1) by auto
      note lt = this
      have w: "(line_width l pos = 2) = (line_width l ?sk = 2)"
        using skip_tab_cells_space [of l limit pos "unat (p_cc0 (l_cpu l ! pos))"] less.prems(1) True 2 by auto
      have IH: "as_buf (ansi_loop None l limit (?sk + 1) (line_width l pos) s')
            = unicode_loop l limit True False (?sk + 1) (line_width l ?sk) (as_buf s') \<and>
          as_escape_written (ansi_loop None l limit (?sk + 1) (line_width l pos) s') = as_escape_written s'"
        by (rule less.hyps [OF lt(1) less.prems(1) s'(2) w lt(2)])
      show ?thesis
        using IH 2 True buf less.prems(3) s'
        by (subst (1 2) ansi_loop.simps, subst unicode_loop.simps) (simp add: Let_def ansi_hyperlink_def s'_def [symmetric])
    next
      case 3
      let ?ch = "if line_ch l pos = 0 then 0x20 else line_ch l pos"
      define s' where "s' = ansi_write (map codepoint_for_mark (cell_marks (l_cpu l ! pos))) (ansi_write [?ch] (ansi_sgr (l_gpu l ! pos) s))"
      have s': "as_buf s' = as_buf s @ cell_as_unicode (l_cpu l ! pos) True 0x20" "plain_cell (as_prev_cell s')"
        "as_escape_written s' = as_escape_written s"
        using g less.prems(2) by (simp_all add: s'_def ansi_write_def ansi_sgr_plain cell_as_unicode_def)
      have "limit - (pos + 1) < limit - pos" "length (as_buf s') + 4 * (limit - (pos + 1)) < 4091"
        using less.prems(4) True s'(1) length_cell_as_unicode [of "l_cpu l ! pos" True "0x20"] by auto
      then have IH: "as_buf (ansi_loop None l limit (pos + 1) (line_width l pos) s')
            = unicode_loop l limit True False (pos + 1) (line_width l pos) (as_buf s') \<and>
          as_escape_written (ansi_loop None l limit (pos + 1) (line_width l pos) s') = as_escape_written s'"
        by (intro less.hyps [OF _ less.prems(1) s'(2) refl])
      show ?thesis
        using IH 3 True buf less.prems(3) s'
        by (subst (1 2) ansi_loop.simps, subst unicode_loop.simps) (simp add: Let_def ansi_hyperlink_def s'_def [symmetric])
    qed
  qed
qed

lemma strip_blank_from_le: "strip_blank_from l n \<le> n"
  by (induction n) auto

lemma xlimit_for_line_le: "xlimit_for_line l \<le> l_xnum l"
  using strip_blank_from_le [of l "l_xnum l"] by (auto simp: xlimit_for_line_def Let_def)

theorem line_as_ansi_plain:
  assumes "\<forall>i < xlimit_for_line l. plain_cell (l_gpu l ! i) \<and> (line_ch l i \<in> {9, 0x20} \<longrightarrow> line_width l i \<noteq> 2)"
    and "la_prompt_kind (l_attrs l) = UNKNOWN_PROMPT_KIND" and "xlimit_for_line l \<le> 1000"
  shows "fst (line_as_ansi None active l None 0 (l_xnum l) 0) = line_as_unicode l False \<and>
    \<not> snd (snd (snd (line_as_ansi None active l None 0 (l_xnum l) 0)))"
proof -
  define s where "s = \<lparr>as_buf = [], as_active_hyperlink = active, as_prev_cell = zero_gpu_cell, as_escape_written = False\<rparr>"
  have lim: "min (l_xnum l) (xlimit_for_line l) = xlimit_for_line l" using xlimit_for_line_le [of l] by simp
  have p: "plain_cell (as_prev_cell s)" by (simp add: s_def plain_cell_def zero_gpu_cell_def zero_attrs_def sgr_part_def)
  have "length (as_buf s) + 4 * (xlimit_for_line l - 0) < 4091" using assms(3) by (simp add: s_def)
  from ansi_loop_plain [OF _ p refl this, of l 0] assms(1)
  have "as_buf (ansi_loop None l (xlimit_for_line l) 0 0 s) = unicode_loop l (xlimit_for_line l) True False 0 0 []"
    "\<not> as_escape_written (ansi_loop None l (xlimit_for_line l) 0 0 s)" by (auto simp: s_def)
  moreover have "unicode_loop l 0 True False 0 0 [] = []" by (simp add: unicode_loop.simps)
  ultimately show ?thesis
    using assms(2)
    by (auto simp: line_as_ansi_def lim prompt_mark_def line_as_unicode_def unicode_in_range_def Let_def s_def)
qed

lemma line_as_ansi_plain_witness:
  "fst (line_as_ansi None 3 example_line None 0 (l_xnum example_line) 0) = line_as_unicode example_line False \<and>
   \<not> snd (snd (snd (line_as_ansi None 3 example_line None 0 (l_xnum example_line) 0)))"
proof (rule line_as_ansi_plain)
  have le: "xlimit_for_line example_line \<le> 5" using xlimit_for_line_le [of example_line] by (simp add: example_line_def)
  then show "xlimit_for_line example_line \<le> 1000" by simp
  show "\<forall>i < xlimit_for_line example_line. plain_cell (l_gpu example_line ! i) \<and>
      (line_ch example_line i \<in> {9, 0x20} \<longrightarrow> line_width example_line i \<noteq> 2)"
    using le by (auto simp: example_line_def plain_cell_def zero_gpu_cell_def zero_attrs_def sgr_part_def)
qed (simp add: example_line_def zero_line_attrs_def)

end
