(* ===== verification/Line_Buf.thy ===== *)
theory Line_Buf
  imports Lines "HOL-Library.Multiset"
begin

text \<open>
  The screen's line buffer, \<^verbatim>\<open>smelly/line-buf.c\<close>. The two cell buffers are lists of rows (row \<open>y\<close>
  is the memory at \<^verbatim>\<open>y * xnum\<close>); \<open>b_map\<close> is \<^verbatim>\<open>line_map\<close>, which gives for every line of the screen the row
  that holds it. Scrolling, inserting and deleting lines only permute \<^verbatim>\<open>line_map\<close> and clear rows.
  The lemmas show that \<^verbatim>\<open>line_map\<close> stays a permutation and that the operations are the expected
  ones on the list of lines (\<open>rows\<close>).
\<close>

section \<open>Array loops\<close>

text \<open>
  \<open>copy_up n i k\<close> is \<^verbatim>\<open>for (; n > 0; n--, i++) xs[i] = xs[i + k]\<close> and \<open>copy_down n i k\<close> is
  \<^verbatim>\<open>for (; n > 0; n--, i--) xs[i] = xs[i - k]\<close>.
\<close>

fun copy_up :: "nat \<Rightarrow> nat \<Rightarrow> nat \<Rightarrow> 'a list \<Rightarrow> 'a list" where
  "copy_up 0 i k xs = xs"
| "copy_up (Suc n) i k xs = copy_up n (Suc i) k (xs[i := xs ! (i + k)])"

fun copy_down :: "nat \<Rightarrow> nat \<Rightarrow> nat \<Rightarrow> 'a list \<Rightarrow> 'a list" where
  "copy_down 0 i k xs = xs"
| "copy_down (Suc n) i k xs = copy_down n (i - 1) k (xs[i := xs ! (i - k)])"

lemma length_copy [simp, len_simps]: "length (copy_up n i k xs) = length xs" "length (copy_down n i k xs) = length xs"
  subgoal by (induction n i k xs rule: copy_up.induct) auto
  subgoal by (induction n i k xs rule: copy_down.induct) auto
  done

lemma nth_copy_up:
  "i + n + k \<le> length xs \<Longrightarrow> j < length xs \<Longrightarrow>
   copy_up n i k xs ! j = (if i \<le> j \<and> j < i + n then xs ! (j + k) else xs ! j)"
  by (induction n i k xs rule: copy_up.induct) (auto simp: nth_list_update)

lemma nth_copy_down:
  "n + k \<le> Suc i \<Longrightarrow> i < length xs \<Longrightarrow> 0 < k \<Longrightarrow> j < length xs \<Longrightarrow>
   copy_down n i k xs ! j = (if Suc i - n \<le> j \<and> j \<le> i then xs ! (j - k) else xs ! j)"
proof (induction n i k xs rule: copy_down.induct)
  case (2 n i k xs)
  show ?case
  proof (cases i)
    case 0
    with 2 show ?thesis by auto
  next
    case (Suc i')
    with 2 show ?thesis by (auto simp: nth_list_update)
  qed
qed auto

text \<open>The elements \<open>lo..hi\<close> moved down by one index, the first one becoming the last, and the inverse.\<close>

definition scroll_up :: "nat \<Rightarrow> nat \<Rightarrow> 'a list \<Rightarrow> 'a list" where
  "scroll_up lo hi xs = take lo xs @ rotate1 (slice xs lo (hi + 1 - lo)) @ drop (hi + 1) xs"

definition scroll_down :: "nat \<Rightarrow> nat \<Rightarrow> 'a list \<Rightarrow> 'a list" where
  "scroll_down lo hi xs = take lo xs @ (xs ! hi # slice xs lo (hi - lo)) @ drop (hi + 1) xs"

lemma copy_up_rotate:
  assumes "lo \<le> hi" "hi < length xs"
  shows "(copy_up (hi - lo) lo 1 xs)[hi := xs ! lo]
    = scroll_up lo hi xs"
  unfolding scroll_up_def
proof (rule nth_equalityI)
  show "length ((copy_up (hi - lo) lo 1 xs)[hi := xs ! lo])
    = length (take lo xs @ rotate1 (slice xs lo (hi + 1 - lo)) @ drop (hi + 1) xs)" using assms by simp
  fix j assume "j < length ((copy_up (hi - lo) lo 1 xs)[hi := xs ! lo])"
  then have j: "j < length xs" by simp
  have len: "length (slice xs lo (hi + 1 - lo)) = hi + 1 - lo" using assms by simp
  show "(copy_up (hi - lo) lo 1 xs)[hi := xs ! lo] ! j
    = (take lo xs @ rotate1 (slice xs lo (hi + 1 - lo)) @ drop (hi + 1) xs) ! j"
  proof -
    consider "j < lo" | "lo \<le> j" "j < hi" | "j = hi" | "hi < j" by linarith
    then show ?thesis
    proof cases
      case 2
      have "rotate1 (slice xs lo (hi + 1 - lo)) ! (j - lo) = xs ! (j + 1)"
        using assms 2 by (subst nth_rotate1) (simp_all add: slice_def)
      moreover have "j - lo < Suc hi - lo" using 2 by linarith
      ultimately show ?thesis using assms j 2 by (simp add: nth_append nth_copy_up len)
    next
      case 3
      have "hi + 1 - lo = Suc (hi - lo)" using assms by simp
      then have "rotate1 (slice xs lo (hi + 1 - lo)) ! (j - lo) = xs ! lo"
        using assms 3 by (subst nth_rotate1) (simp_all add: slice_def)
      moreover have "j - lo < Suc hi - lo" using 3 assms by linarith
      ultimately show ?thesis using assms j 3 by (simp add: nth_append len)
    next
      case 4
      then have "\<not> j - lo < Suc hi - lo" using assms by linarith
      then show ?thesis using assms j 4 by (simp add: nth_append nth_copy_up len)
    qed (use assms j in \<open>simp_all add: nth_append nth_copy_up len\<close>)
  qed
qed

lemma copy_down_rotate:
  assumes "lo \<le> hi" "hi < length xs"
  shows "(copy_down (hi - lo) hi 1 xs)[lo := xs ! hi] = scroll_down lo hi xs"
  unfolding scroll_down_def
proof (rule nth_equalityI)
  show "length ((copy_down (hi - lo) hi 1 xs)[lo := xs ! hi])
    = length (take lo xs @ (xs ! hi # slice xs lo (hi - lo)) @ drop (hi + 1) xs)" using assms by simp
  fix j assume "j < length ((copy_down (hi - lo) hi 1 xs)[lo := xs ! hi])"
  then have j: "j < length xs" by simp
  consider "j < lo" | "j = lo" | "lo < j" "j \<le> hi" | "hi < j" by linarith
  then show "(copy_down (hi - lo) hi 1 xs)[lo := xs ! hi] ! j
    = (take lo xs @ (xs ! hi # slice xs lo (hi - lo)) @ drop (hi + 1) xs) ! j"
  proof cases
    case 3
    then have "j - lo = Suc (j - 1 - lo)" "j - 1 - lo < hi - lo" by simp_all
    with assms j 3 show ?thesis by (simp add: nth_append nth_copy_down)
  next
    case 4
    then have "\<not> j - Suc lo < hi - lo" "\<not> j < lo" using assms by linarith+
    with assms j 4 show ?thesis by (simp add: nth_append nth_copy_down Suc_diff_le)
  qed (use assms j in \<open>simp_all add: nth_append nth_copy_down Suc_diff_le\<close>)
qed

section \<open>The buffer\<close>

record line_buf =
  b_cpu :: "cpu_cell list list"
  b_gpu :: "gpu_cell list list"
  b_xnum :: nat
  b_ynum :: nat
  b_map :: "nat list"
  b_attrs :: "line_attrs list"

type_synonym row = "cpu_cell list \<times> gpu_cell list \<times> line_attrs"

definition lb_wf :: "line_buf \<Rightarrow> bool" where
  "lb_wf b = (0 < b_xnum b \<and> 0 < b_ynum b \<and> length (b_cpu b) = b_ynum b \<and> length (b_gpu b) = b_ynum b
     \<and> list_all (\<lambda>r. length r = b_xnum b) (b_cpu b) \<and> list_all (\<lambda>r. length r = b_xnum b) (b_gpu b)
     \<and> length (b_attrs b) = b_ynum b \<and> mset (b_map b) = mset [0 ..< b_ynum b])"

definition row_of :: "line_buf \<Rightarrow> nat \<Rightarrow> row" where
  "row_of b y = (b_cpu b ! (b_map b ! y), b_gpu b ! (b_map b ! y), b_attrs b ! y)"

text \<open>The lines of the screen, from top to bottom.\<close>

definition rows :: "line_buf \<Rightarrow> row list" where
  "rows b = map (row_of b) [0 ..< b_ynum b]"

definition blank_row :: "nat \<Rightarrow> line_attrs \<Rightarrow> row" where
  "blank_row xnum a = (replicate xnum zero_cpu_cell, replicate xnum zero_gpu_cell, a)"

text \<open>\<^verbatim>\<open>new\<close>; the two limits are checked first.\<close>

definition linebuf_new :: "nat \<Rightarrow> nat \<Rightarrow> py_error + line_buf" where
  "linebuf_new ynum xnum =
     (if xnum > 5000 \<or> ynum > 50000 then Inl ValueError
      else if xnum * ynum = 0 then Inl ValueError
      else Inr \<lparr>b_cpu = replicate ynum (replicate xnum zero_cpu_cell),
                b_gpu = replicate ynum (replicate xnum zero_gpu_cell),
                b_xnum = xnum, b_ynum = ynum, b_map = [0 ..< ynum], b_attrs = replicate ynum zero_line_attrs\<rparr>)"

definition clear_chars_to :: "nat \<Rightarrow> char_type \<Rightarrow> line_buf \<Rightarrow> line_buf" where
  "clear_chars_to y ch b =
     (let (cpu, gpu) = clear_chars_in_line (b_cpu b ! y) (b_gpu b ! y) (b_xnum b) ch
      in b\<lparr>b_cpu := (b_cpu b)[y := cpu], b_gpu := (b_gpu b)[y := gpu]\<rparr>)"

fun clear_chars_loop :: "nat \<Rightarrow> nat \<Rightarrow> char_type \<Rightarrow> line_buf \<Rightarrow> line_buf" where
  "clear_chars_loop 0 i ch b = b"
| "clear_chars_loop (Suc n) i ch b =
     clear_chars_loop n (Suc i) ch ((clear_chars_to i ch b)
       \<lparr>b_attrs := (b_attrs b)[i := zero_line_attrs\<lparr>la_has_dirty_text := True\<rparr>]\<rparr>)"

definition linebuf_clear :: "line_buf \<Rightarrow> char_type \<Rightarrow> line_buf" where
  "linebuf_clear b ch =
     (let b = b\<lparr>b_cpu := replicate (b_ynum b) (replicate (b_xnum b) zero_cpu_cell),
                b_gpu := replicate (b_ynum b) (replicate (b_xnum b) zero_gpu_cell),
                b_attrs := replicate (b_ynum b) zero_line_attrs, b_map := [0 ..< b_ynum b]\<rparr>
      in if ch \<noteq> 0 then clear_chars_loop (b_ynum b) 0 ch b else b)"

definition update_line_attrs :: "nat \<Rightarrow> (line_attrs \<Rightarrow> line_attrs) \<Rightarrow> line_buf \<Rightarrow> line_buf" where
  "update_line_attrs y f b = b\<lparr>b_attrs := (b_attrs b)[y := f (b_attrs b ! y)]\<rparr>"

definition linebuf_mark_line_dirty :: "line_buf \<Rightarrow> nat \<Rightarrow> line_buf" where
  "linebuf_mark_line_dirty b y = update_line_attrs y (\<lambda>a. a\<lparr>la_has_dirty_text := True\<rparr>) b"

definition linebuf_mark_line_clean :: "line_buf \<Rightarrow> nat \<Rightarrow> line_buf" where
  "linebuf_mark_line_clean b y = update_line_attrs y (\<lambda>a. a\<lparr>la_has_dirty_text := False\<rparr>) b"

definition linebuf_clear_attrs_and_dirty :: "line_buf \<Rightarrow> nat \<Rightarrow> line_buf" where
  "linebuf_clear_attrs_and_dirty b y = update_line_attrs y (\<lambda>a. zero_line_attrs\<lparr>la_has_dirty_text := True\<rparr>) b"

definition ends_wrapped :: "gpu_cell list \<Rightarrow> nat \<Rightarrow> bool" where
  "ends_wrapped gpu xnum = a_wrapped (g_attrs (gpu ! (xnum - 1)))"

text \<open>\<^verbatim>\<open>linebuf_init_line\<close>: the line object for line \<open>idx\<close>. It is a view; \<open>put_line\<close> writes one back.\<close>

definition linebuf_init_line :: "line_buf \<Rightarrow> nat \<Rightarrow> cell_line" where
  "linebuf_init_line b idx =
     \<lparr>l_cpu = b_cpu b ! (b_map b ! idx), l_gpu = b_gpu b ! (b_map b ! idx), l_xnum = b_xnum b, l_ynum = idx,
      l_attrs = (b_attrs b ! idx)\<lparr>la_is_continued :=
        (if idx > 0 then ends_wrapped (b_gpu b ! (b_map b ! (idx - 1))) (b_xnum b) else False)\<rparr>\<rparr>"

definition put_line :: "line_buf \<Rightarrow> nat \<Rightarrow> cell_line \<Rightarrow> line_buf" where
  "put_line b idx l =
     b\<lparr>b_cpu := (b_cpu b)[b_map b ! idx := l_cpu l], b_gpu := (b_gpu b)[b_map b ! idx := l_gpu l]\<rparr>"

definition linebuf_line :: "line_buf \<Rightarrow> nat \<Rightarrow> py_error + cell_line" where
  "linebuf_line b idx = (if idx \<ge> b_ynum b then Inl IndexError else Inr (linebuf_init_line b idx))"

definition linebuf_char_width_at :: "line_buf \<Rightarrow> nat \<Rightarrow> nat \<Rightarrow> 2 word" where
  "linebuf_char_width_at b x y = a_width (g_attrs (b_gpu b ! (b_map b ! y) ! x))"

definition linebuf_line_ends_with_continuation :: "line_buf \<Rightarrow> nat \<Rightarrow> bool" where
  "linebuf_line_ends_with_continuation b y =
     (if y < b_ynum b then ends_wrapped (b_gpu b ! (b_map b ! y)) (b_xnum b) else False)"

definition linebuf_set_last_char_as_continuation :: "line_buf \<Rightarrow> nat \<Rightarrow> bool \<Rightarrow> line_buf" where
  "linebuf_set_last_char_as_continuation b y continued =
     (if y < b_ynum b then
        (let m = b_map b ! y; r = b_gpu b ! m; x = b_xnum b - 1
         in b\<lparr>b_gpu := (b_gpu b)[m := r[x := cell_set_attrs (a_wrapped_update (\<lambda>_. continued)) (r ! x)]]\<rparr>)
      else b)"

definition set_continued :: "line_buf \<Rightarrow> nat \<Rightarrow> bool \<Rightarrow> py_error + line_buf" where
  "set_continued b y val =
     (if y > b_ynum b \<or> y < 1 then Inl ValueError else Inr (linebuf_set_last_char_as_continuation b (y - 1) val))"

definition is_continued :: "line_buf \<Rightarrow> nat \<Rightarrow> py_error + bool" where
  "is_continued b y =
     (if y \<ge> b_ynum b then Inl ValueError
      else Inr (y > 0 \<and> linebuf_line_ends_with_continuation b (y - 1)))"

text \<open>An unknown attribute is an error at the first row, before anything is written.\<close>

fun set_attribute_loop :: "nat \<Rightarrow> nat \<Rightarrow> attribute_name \<Rightarrow> u16 \<Rightarrow> line_buf \<Rightarrow> py_error + line_buf" where
  "set_attribute_loop 0 y which val b = Inr b"
| "set_attribute_loop (Suc n) y which val b =
     (case set_named_attribute_on_line (b_gpu b ! y) which val (b_xnum b) of
        None \<Rightarrow> Inl KeyError
      | Some r \<Rightarrow> set_attribute_loop n (Suc y) which val
          (linebuf_mark_line_dirty (b\<lparr>b_gpu := (b_gpu b)[y := r]\<rparr>) y))"

definition linebuf_set_attribute :: "line_buf \<Rightarrow> attribute_name \<Rightarrow> u16 \<Rightarrow> py_error + line_buf" where
  "linebuf_set_attribute b which val = set_attribute_loop (b_ynum b) 0 which val b"

definition dirty_lines :: "line_buf \<Rightarrow> nat list" where
  "dirty_lines b = filter (\<lambda>i. la_has_dirty_text (b_attrs b ! i)) [0 ..< b_ynum b]"

definition create_line_copy :: "line_buf \<Rightarrow> nat \<Rightarrow> py_error + cell_line" where
  "create_line_copy b y =
     (if y \<ge> b_ynum b then Inl ValueError
      else Inr \<lparr>l_cpu = b_cpu b ! (b_map b ! y), l_gpu = b_gpu b ! (b_map b ! y), l_xnum = b_xnum b,
                l_ynum = y, l_attrs = b_attrs b ! y\<rparr>)"

text \<open>\<^verbatim>\<open>clear_line_\<close> on the row of line \<open>y\<close>; its attributes are those of a temporary line.\<close>

definition clear_row :: "nat \<Rightarrow> line_buf \<Rightarrow> line_buf" where
  "clear_row y b =
     b\<lparr>b_cpu := (b_cpu b)[b_map b ! y := replicate (b_xnum b) zero_cpu_cell],
       b_gpu := (b_gpu b)[b_map b ! y := replicate (b_xnum b) zero_gpu_cell]\<rparr>"

definition linebuf_clear_line :: "line_buf \<Rightarrow> nat \<Rightarrow> bool \<Rightarrow> line_buf" where
  "linebuf_clear_line b y clear_attrs =
     (let b = clear_row y b in if clear_attrs then update_line_attrs y (\<lambda>_. zero_line_attrs) b else b)"

definition linebuf_index :: "line_buf \<Rightarrow> nat \<Rightarrow> nat \<Rightarrow> line_buf" where
  "linebuf_index b lo hi =
     (if lo \<ge> b_ynum b - 1 \<or> hi \<ge> b_ynum b \<or> hi \<le> lo then b
      else b\<lparr>b_map := (copy_up (hi - lo) lo 1 (b_map b))[hi := b_map b ! lo],
             b_attrs := (copy_up (hi - lo) lo 1 (b_attrs b))[hi := b_attrs b ! lo]\<rparr>)"

definition linebuf_reverse_index :: "line_buf \<Rightarrow> nat \<Rightarrow> nat \<Rightarrow> line_buf" where
  "linebuf_reverse_index b lo hi =
     (if lo \<ge> b_ynum b - 1 \<or> hi \<ge> b_ynum b \<or> hi \<le> lo then b
      else b\<lparr>b_map := (copy_down (hi - lo) hi 1 (b_map b))[lo := b_map b ! hi],
             b_attrs := (copy_down (hi - lo) hi 1 (b_attrs b))[lo := b_attrs b ! hi]\<rparr>)"

fun clear_rows_loop :: "nat \<Rightarrow> nat \<Rightarrow> line_buf \<Rightarrow> line_buf" where
  "clear_rows_loop 0 i b = b"
| "clear_rows_loop (Suc n) i b = clear_rows_loop n (Suc i) (update_line_attrs i (\<lambda>_. zero_line_attrs) (clear_row i b))"

definition linebuf_insert_lines :: "line_buf \<Rightarrow> nat \<Rightarrow> nat \<Rightarrow> nat \<Rightarrow> line_buf" where
  "linebuf_insert_lines b num y hi =
     (if y \<ge> b_ynum b \<or> y > hi \<or> hi \<ge> b_ynum b then b
      else
        (let ylimit = hi + 1; num = min (ylimit - y) num in
         if num > 0 then
           (let scratch = slice (b_map b) (ylimit - num) num;
                b = b\<lparr>b_map := copy_down (ylimit - (y + num)) (ylimit - 1) num (b_map b),
                      b_attrs := copy_down (ylimit - (y + num)) (ylimit - 1) num (b_attrs b)\<rparr>;
                b = b\<lparr>b_map := overwrite (b_map b) y scratch\<rparr>
            in clear_rows_loop num y b)
         else b))"

definition linebuf_delete_lines :: "line_buf \<Rightarrow> nat \<Rightarrow> nat \<Rightarrow> nat \<Rightarrow> line_buf" where
  "linebuf_delete_lines b num y hi =
     (let ylimit = hi + 1; num = min (usub32 (hi + 1) y) num in
      if y \<ge> b_ynum b \<or> y > hi \<or> hi \<ge> b_ynum b \<or> num < 1 then b
      else
        (let scratch = slice (b_map b) y num;
             n = min ylimit (b_ynum b - num) - y;
             b = b\<lparr>b_map := copy_up n y num (b_map b), b_attrs := copy_up n y num (b_attrs b)\<rparr>;
             b = b\<lparr>b_map := overwrite (b_map b) (ylimit - num) scratch\<rparr>
         in clear_rows_loop num (ylimit - num) b))"

definition linebuf_copy_line_to :: "line_buf \<Rightarrow> cell_line \<Rightarrow> nat \<Rightarrow> line_buf" where
  "linebuf_copy_line_to b l pos =
     (let dest = copy_line l (linebuf_init_line b pos)
      in update_line_attrs pos (\<lambda>_. (l_attrs l)\<lparr>la_has_dirty_text := True\<rparr>) (put_line b pos dest))"

text \<open>\<^verbatim>\<open>copy_old\<close>: the bottom lines of \<open>other\<close> are copied to the bottom of \<open>b\<close>; \<open>n\<close> rounds are left.\<close>

fun copy_old_loop :: "nat \<Rightarrow> nat \<Rightarrow> line_buf \<Rightarrow> line_buf \<Rightarrow> line_buf" where
  "copy_old_loop 0 i other b = b"
| "copy_old_loop (Suc n) i other b =
     (let s = b_ynum b - 1 - i; r = b_ynum other - 1 - i;
          b = b\<lparr>b_attrs := (b_attrs b)[s := b_attrs other ! r]\<rparr>
      in copy_old_loop n (Suc i) other
           (put_line b s (copy_line (linebuf_init_line other r) (linebuf_init_line b s))))"

definition copy_old :: "line_buf \<Rightarrow> line_buf \<Rightarrow> py_error + line_buf" where
  "copy_old b other =
     (if b_xnum other \<noteq> b_xnum b then Inl ValueError
      else Inr (copy_old_loop (min (b_ynum b) (b_ynum other)) 0 other b))"

text \<open>The fast path of \<^verbatim>\<open>linebuf_rewrap\<close> and the search for the last line with content.\<close>

definition linebuf_rewrap_fast :: "line_buf \<Rightarrow> line_buf \<Rightarrow> line_buf" where
  "linebuf_rewrap_fast b other =
     other\<lparr>b_map := b_map b, b_attrs := b_attrs b, b_cpu := b_cpu b, b_gpu := b_gpu b\<rparr>"

fun last_content_line :: "line_buf \<Rightarrow> nat \<Rightarrow> nat option" where
  "last_content_line b 0 = None"
| "last_content_line b (Suc y) =
     (if list_ex (\<lambda>c. p_ch c \<noteq> BLANK_CHAR) (take (b_xnum b) (b_cpu b ! (b_map b ! y))) then Some y
      else last_content_line b y)"

section \<open>\<open>line_map\<close> is a permutation\<close>

lemma lb_wf_map:
  assumes "lb_wf b"
  shows "length (b_map b) = b_ynum b" "distinct (b_map b)" "y < b_ynum b \<Longrightarrow> b_map b ! y < b_ynum b"
    "length (b_cpu b) = b_ynum b" "length (b_gpu b) = b_ynum b" "length (b_attrs b) = b_ynum b"
proof -
  have m: "mset (b_map b) = mset [0 ..< b_ynum b]" using assms by (simp add: lb_wf_def)
  show l: "length (b_map b) = b_ynum b" using mset_eq_length [OF m] by simp
  show "distinct (b_map b)" using mset_eq_imp_distinct_iff [OF m] by simp
  have "set (b_map b) = {0 ..< b_ynum b}" using mset_eq_setD [OF m] by simp
  then show "y < b_ynum b \<Longrightarrow> b_map b ! y < b_ynum b" using l nth_mem [of y "b_map b"] by auto
qed (use assms in \<open>simp_all add: lb_wf_def\<close>)

lemma lb_wf_row_lengths:
  assumes "lb_wf b" "y < b_ynum b"
  shows "length (b_cpu b ! y) = b_xnum b" "length (b_gpu b ! y) = b_xnum b"
  using assms by (auto simp: lb_wf_def list_all_length)

lemma lb_wf_xnum: "lb_wf b \<Longrightarrow> 0 < b_xnum b \<and> 0 < b_ynum b"
  by (simp add: lb_wf_def)

lemma lb_wf_cong:
  "lb_wf b \<Longrightarrow> mset m = mset (b_map b) \<Longrightarrow> length a = length (b_attrs b) \<Longrightarrow> lb_wf (b\<lparr>b_map := m, b_attrs := a\<rparr>)"
  by (simp add: lb_wf_def)

lemma length_rows [simp, len_simps]: "length (rows b) = b_ynum b"
  by (simp add: rows_def)

lemma nth_rows: "y < b_ynum b \<Longrightarrow> rows b ! y = row_of b y"
  by (simp add: rows_def)

subsection \<open>Single lines\<close>

lemma row_of_update_attrs:
  "lb_wf b \<Longrightarrow> y < b_ynum b \<Longrightarrow> row_of (update_line_attrs y f b) j =
     (if j = y then (fst (row_of b y), fst (snd (row_of b y)), f (b_attrs b ! y)) else row_of b j)"
  using lb_wf_map(6) [of b] by (auto simp: row_of_def update_line_attrs_def)

lemma update_attrs_wf [wf_intros]: "lb_wf b \<Longrightarrow> lb_wf (update_line_attrs y f b)"
  by (simp add: lb_wf_def update_line_attrs_def)

lemma update_attrs_frame [frame_simps, simp]:
  "b_ynum (update_line_attrs y f b) = b_ynum b" "b_xnum (update_line_attrs y f b) = b_xnum b"
  "b_map (update_line_attrs y f b) = b_map b"
  by (simp_all add: update_line_attrs_def)

lemma clear_row_frame [frame_simps, simp]:
  "b_ynum (clear_row y b) = b_ynum b" "b_xnum (clear_row y b) = b_xnum b" "b_map (clear_row y b) = b_map b"
  "b_attrs (clear_row y b) = b_attrs b"
  by (simp_all add: clear_row_def)

lemma clear_row_wf [wf_intros]: "lb_wf b \<Longrightarrow> lb_wf (clear_row y b)"
  by (simp add: lb_wf_def clear_row_def list_all_update)

text \<open>Rows are distinct, so writing the row of line \<open>y\<close> changes no other line.\<close>

lemma map_inj: "lb_wf b \<Longrightarrow> j < b_ynum b \<Longrightarrow> y < b_ynum b \<Longrightarrow> (b_map b ! j = b_map b ! y) = (j = y)"
  by (simp add: lb_wf_map nth_eq_iff_index_eq)

lemma row_of_clear_row:
  assumes "lb_wf b" "y < b_ynum b" "j < b_ynum b"
  shows "row_of (clear_row y b) j = (if j = y then blank_row (b_xnum b) (b_attrs b ! y) else row_of b j)"
  using assms map_inj [OF assms(1,3,2)] lb_wf_map [OF assms(1)]
  by (auto simp: row_of_def clear_row_def blank_row_def nth_list_update)

lemma linebuf_init_line_wf [wf_intros]: "lb_wf b \<Longrightarrow> y < b_ynum b \<Longrightarrow> line_wf (linebuf_init_line b y)"
  by (simp add: line_wf_def linebuf_init_line_def lb_wf_row_lengths lb_wf_map)

lemma put_line_wf [wf_intros]: "lb_wf b \<Longrightarrow> line_wf l \<Longrightarrow> l_xnum l = b_xnum b \<Longrightarrow> lb_wf (put_line b y l)"
  by (simp add: lb_wf_def put_line_def line_wf_def list_all_update)

lemma row_of_put_line:
  assumes "lb_wf b" "y < b_ynum b" "j < b_ynum b"
  shows "row_of (put_line b y l) j = (if j = y then (l_cpu l, l_gpu l, b_attrs b ! y) else row_of b j)"
  using assms map_inj [OF assms(1,3,2)] lb_wf_map [OF assms(1)]
  by (auto simp: row_of_def put_line_def nth_list_update)

subsection \<open>Clearing rows\<close>

lemma clear_rows_loop_rows:
  assumes "lb_wf b" "i + n \<le> b_ynum b"
  shows "lb_wf (clear_rows_loop n i b) \<and> b_ynum (clear_rows_loop n i b) = b_ynum b \<and>
    b_xnum (clear_rows_loop n i b) = b_xnum b \<and>
    (\<forall>j < b_ynum b. row_of (clear_rows_loop n i b) j =
      (if i \<le> j \<and> j < i + n then blank_row (b_xnum b) zero_line_attrs else row_of b j))"
  using assms
proof (induction n i b rule: clear_rows_loop.induct)
  case (2 n i b)
  let ?b = "update_line_attrs i (\<lambda>_. zero_line_attrs) (clear_row i b)"
  have wf: "lb_wf ?b" by (intro wf_intros 2(2))
  have i: "i < b_ynum b" using 2(3) by simp
  have "row_of ?b j = (if j = i then blank_row (b_xnum b) zero_line_attrs else row_of b j)" if "j < b_ynum b" for j
    using row_of_update_attrs [OF clear_row_wf [OF 2(2)], of i i "\<lambda>_. zero_line_attrs" j]
      row_of_clear_row [OF 2(2) i that] row_of_clear_row [OF 2(2) i i] i
    by (simp add: blank_row_def)
  with 2(1) [OF wf] 2(3) show ?case by (auto simp: blank_row_def)
qed auto

subsection \<open>Scrolling\<close>

lemma slice_Suc: "i + n < length xs \<Longrightarrow> slice xs i (Suc n) = slice xs i n @ [xs ! (i + n)]"
  by (simp add: slice_def take_Suc_conv_app_nth)

lemma slice_Cons: "i < length xs \<Longrightarrow> slice xs i (Suc n) = xs ! i # slice xs (Suc i) n"
  by (simp add: slice_def Cons_nth_drop_Suc [symmetric])

lemma take_slice_drop: "i + n \<le> length xs \<Longrightarrow> take i xs @ slice xs i n @ drop (i + n) xs = xs"
  by (metis add.commute append_take_drop_id drop_drop slice_def)

lemma mset_rotate1_eq: "mset (rotate1 xs) = mset xs"
  by (cases xs) simp_all

lemma mset_scroll: "lo \<le> hi \<Longrightarrow> hi < length xs \<Longrightarrow> mset (scroll_up lo hi xs) = mset xs \<and> mset (scroll_down lo hi xs) = mset xs"
proof -
  assume a: "lo \<le> hi" "hi < length xs"
  have "mset xs = mset (take lo xs @ slice xs lo (hi + 1 - lo) @ drop (lo + (hi + 1 - lo)) xs)"
    using a by (subst take_slice_drop) simp_all
  then have m: "mset xs = mset (take lo xs) + mset (slice xs lo (hi + 1 - lo)) + mset (drop (hi + 1) xs)" using a by simp
  have "hi + 1 - lo = Suc (hi - lo)" "lo + (hi - lo) = hi" using a by simp_all
  then have "mset (slice xs lo (hi + 1 - lo)) = mset (xs ! hi # slice xs lo (hi - lo))"
    using slice_Suc [of lo "hi - lo" xs] a by simp
  with m show ?thesis by (simp add: scroll_up_def scroll_down_def mset_rotate1_eq)
qed

lemma length_scroll [simp, len_simps]:
  "lo \<le> hi \<Longrightarrow> hi < length xs \<Longrightarrow> length (scroll_up lo hi xs) = length xs"
  "lo \<le> hi \<Longrightarrow> hi < length xs \<Longrightarrow> length (scroll_down lo hi xs) = length xs"
  using mset_scroll [of lo hi xs] by (metis size_mset)+

lemma scroll_up_down:
  assumes "lo \<le> hi" "hi < length xs"
  shows "scroll_down lo hi (scroll_up lo hi xs) = xs"
proof -
  define A M x B where v: "A = take lo xs" "M = slice xs (Suc lo) (hi - lo)" "x = xs ! lo" "B = drop (hi + 1) xs"
  have "hi + 1 - lo = Suc (hi - lo)" using assms by simp
  then have xs: "xs = A @ (x # M) @ B"
    using take_slice_drop [of lo "hi + 1 - lo" xs] slice_Cons [of lo xs "hi - lo"] assms by (simp add: v)
  have l: "length A = lo" "length M = hi - lo" using assms by (simp_all add: v)
  have "slice xs lo (hi + 1 - lo) = x # M" using assms by (simp add: v Suc_diff_le slice_Cons)
  then have "scroll_up lo hi xs = A @ (M @ [x]) @ B" by (simp add: scroll_up_def v(1,4))
  then show ?thesis using l assms
    by (simp add: scroll_down_def nth_append slice_def xs Suc_diff_le)
qed

text \<open>A permutation of \<^verbatim>\<open>line_map\<close> and \<^verbatim>\<open>line_attrs\<close> by the same function permutes the lines.\<close>

lemma rows_alt: "length (b_map b) = b_ynum b \<Longrightarrow> length (b_attrs b) = b_ynum b \<Longrightarrow>
   rows b = map (\<lambda>(m, a). (b_cpu b ! m, b_gpu b ! m, a)) (zip (b_map b) (b_attrs b))"
  by (auto simp: rows_def row_of_def intro!: nth_equalityI)

lemma map_scroll:
  "lo \<le> hi \<Longrightarrow> hi < length xs \<Longrightarrow> map f (scroll_up lo hi xs) = scroll_up lo hi (map f xs)"
  "lo \<le> hi \<Longrightarrow> hi < length xs \<Longrightarrow> map f (scroll_down lo hi xs) = scroll_down lo hi (map f xs)"
  by (simp_all add: scroll_up_def scroll_down_def slice_def rotate1_map take_map drop_map)

lemma zip_rotate1: "length xs = length ys \<Longrightarrow> zip (rotate1 xs) (rotate1 ys) = rotate1 (zip xs ys)"
  by (cases xs; cases ys) simp_all

lemma zip_scroll:
  "length xs = length ys \<Longrightarrow> lo \<le> hi \<Longrightarrow> hi < length xs \<Longrightarrow> zip (scroll_up lo hi xs) (scroll_up lo hi ys) = scroll_up lo hi (zip xs ys)"
  "length xs = length ys \<Longrightarrow> lo \<le> hi \<Longrightarrow> hi < length xs \<Longrightarrow> zip (scroll_down lo hi xs) (scroll_down lo hi ys) = scroll_down lo hi (zip xs ys)"
  by (simp_all add: scroll_up_def scroll_down_def slice_def zip_append1 zip_append take_zip drop_zip zip_rotate1)

lemma linebuf_index_rows:
  assumes "lb_wf b" "lo < hi" "hi < b_ynum b"
  shows "lb_wf (linebuf_index b lo hi)" "b_ynum (linebuf_index b lo hi) = b_ynum b" "b_xnum (linebuf_index b lo hi) = b_xnum b"
    "rows (linebuf_index b lo hi) = scroll_up lo hi (rows b)"
proof -
  note l = lb_wf_map [OF assms(1)]
  have d: "linebuf_index b lo hi = b\<lparr>b_map := scroll_up lo hi (b_map b), b_attrs := scroll_up lo hi (b_attrs b)\<rparr>"
    using assms l copy_up_rotate [of lo hi "b_map b"] copy_up_rotate [of lo hi "b_attrs b"]
    by (simp add: linebuf_index_def)
  show "lb_wf (linebuf_index b lo hi)" unfolding d using assms l mset_scroll [of lo hi "b_map b"]
    by (intro lb_wf_cong) simp_all
  show "b_ynum (linebuf_index b lo hi) = b_ynum b" "b_xnum (linebuf_index b lo hi) = b_xnum b" by (simp_all add: d)
  show "rows (linebuf_index b lo hi) = scroll_up lo hi (rows b)"
    using assms l by (simp add: d rows_alt zip_scroll map_scroll)
qed

lemma linebuf_reverse_index_rows:
  assumes "lb_wf b" "lo < hi" "hi < b_ynum b"
  shows "lb_wf (linebuf_reverse_index b lo hi)" "b_ynum (linebuf_reverse_index b lo hi) = b_ynum b"
    "b_xnum (linebuf_reverse_index b lo hi) = b_xnum b"
    "rows (linebuf_reverse_index b lo hi) = scroll_down lo hi (rows b)"
proof -
  note l = lb_wf_map [OF assms(1)]
  have d: "linebuf_reverse_index b lo hi = b\<lparr>b_map := scroll_down lo hi (b_map b), b_attrs := scroll_down lo hi (b_attrs b)\<rparr>"
    using assms l copy_down_rotate [of lo hi "b_map b"] copy_down_rotate [of lo hi "b_attrs b"]
    by (simp add: linebuf_reverse_index_def)
  show "lb_wf (linebuf_reverse_index b lo hi)" unfolding d using assms l mset_scroll [of lo hi "b_map b"]
    by (intro lb_wf_cong) simp_all
  show "b_ynum (linebuf_reverse_index b lo hi) = b_ynum b" "b_xnum (linebuf_reverse_index b lo hi) = b_xnum b"
    by (simp_all add: d)
  show "rows (linebuf_reverse_index b lo hi) = scroll_down lo hi (rows b)"
    using assms l by (simp add: d rows_alt zip_scroll map_scroll)
qed

subsection \<open>Inserting and deleting lines\<close>

lemma mset_blocks:
  assumes "y + n \<le> hi" "hi \<le> length xs"
  shows "mset (take y xs @ slice xs (hi - n) n @ slice xs y (hi - n - y) @ drop hi xs) = mset xs"
    and "mset (take y xs @ slice xs (y + n) (hi - n - y) @ slice xs y n @ drop hi xs) = mset xs"
proof -
  have xs: "xs = take y xs @ slice xs y (hi - y) @ drop hi xs"
    using take_slice_drop [of y "hi - y" xs] assms by simp
  have split: "slice xs i (p + q) = slice xs i p @ slice xs (i + p) q" for i p q
    by (simp add: slice_def take_add add.commute)
  have "slice xs y (hi - y) = slice xs y (hi - n - y) @ slice xs (hi - n) n"
    using split [of y "hi - n - y" n] assms by simp
  then have e1: "mset (slice xs y (hi - y)) = mset (slice xs y (hi - n - y)) + mset (slice xs (hi - n) n)" by simp
  have "slice xs y (hi - y) = slice xs y n @ slice xs (y + n) (hi - n - y)"
    using split [of y n "hi - n - y"] assms by simp
  then have e2: "mset (slice xs y (hi - y)) = mset (slice xs y n) + mset (slice xs (y + n) (hi - n - y))" by simp
  have "mset xs = mset (take y xs) + mset (slice xs y (hi - y)) + mset (drop hi xs)"
    by (subst xs) simp
  then have
    "mset xs = mset (take y xs) + mset (slice xs (hi - n) n) + mset (slice xs y (hi - n - y)) + mset (drop hi xs)"
    "mset xs = mset (take y xs) + mset (slice xs (y + n) (hi - n - y)) + mset (slice xs y n) + mset (drop hi xs)"
    by (simp_all only: e1, simp_all only: e1 [symmetric] e2 ac_simps)
  then show
    "mset (take y xs @ slice xs (hi - n) n @ slice xs y (hi - n - y) @ drop hi xs) = mset xs"
    "mset (take y xs @ slice xs (y + n) (hi - n - y) @ slice xs y n @ drop hi xs) = mset xs"
    by simp_all
qed

lemma insert_map_eq:
  assumes "y + n \<le> hi" "hi \<le> length xs" "0 < n"
  shows "overwrite (copy_down (hi - (y + n)) (hi - 1) n xs) y (slice xs (hi - n) n)
    = take y xs @ slice xs (hi - n) n @ slice xs y (hi - n - y) @ drop hi xs"
proof (rule nth_equalityI)
  show "length (overwrite (copy_down (hi - (y + n)) (hi - 1) n xs) y (slice xs (hi - n) n))
    = length (take y xs @ slice xs (hi - n) n @ slice xs y (hi - n - y) @ drop hi xs)" using assms by simp
  fix j assume "j < length (overwrite (copy_down (hi - (y + n)) (hi - 1) n xs) y (slice xs (hi - n) n))"
  then have j: "j < length xs" using assms by simp
  have l: "length (slice xs (hi - n) n) = n" using assms by simp
  consider "j < y" | "y \<le> j" "j < y + n" | "y + n \<le> j" "j < hi" | "hi \<le> j" by linarith
  then show "overwrite (copy_down (hi - (y + n)) (hi - 1) n xs) y (slice xs (hi - n) n) ! j
    = (take y xs @ slice xs (hi - n) n @ slice xs y (hi - n - y) @ drop hi xs) ! j"
  proof cases
    case 1
    then show ?thesis using assms j l by (simp add: nth_overwrite nth_append nth_copy_down)
  next
    case 2
    then have "j - y < n" by linarith
    then show ?thesis using assms j l 2 by (simp add: nth_overwrite nth_append)
  next
    case 3
    then have "j - y - n < hi - n - y" "\<not> j - y < n" "y + (j - y - n) = j - n" "j \<le> hi - 1"
      "Suc (hi - 1) - (hi - (y + n)) \<le> j" "\<not> j < y + n" using assms by linarith+
    then show ?thesis using assms j l 3 by (simp add: nth_overwrite nth_append nth_copy_down)
  next
    case 4
    then have "\<not> j - y < n" "\<not> j - y - n < hi - n - y" "hi + (j - y - n - (hi - n - y)) = j" "\<not> j \<le> hi - 1" "\<not> j < y" "\<not> j < y + n" using assms by linarith+
    then show ?thesis using assms j l 4 by (simp add: nth_overwrite nth_append nth_copy_down)
  qed
qed

lemma delete_map_eq:
  assumes "y + n \<le> hi" "hi \<le> length xs" "0 < n" "m = min hi (length xs - n) - y"
  shows "overwrite (copy_up m y n xs) (hi - n) (slice xs y n)
    = take y xs @ slice xs (y + n) (hi - n - y) @ slice xs y n @ drop hi xs"
proof (rule nth_equalityI)
  have m: "y + m + n \<le> length xs" "hi - n \<le> y + m" "y + m \<le> hi" using assms by simp_all
  note assms = assms(1-3)
  show "length (overwrite (copy_up m y n xs) (hi - n) (slice xs y n))
    = length (take y xs @ slice xs (y + n) (hi - n - y) @ slice xs y n @ drop hi xs)" using assms by simp
  fix j assume "j < length (overwrite (copy_up m y n xs) (hi - n) (slice xs y n))"
  then have j: "j < length xs" using assms by simp
  have l: "length (slice xs y n) = n" "length (slice xs (y + n) (hi - n - y)) = hi - n - y" using assms by simp_all
  consider "j < y" | "y \<le> j" "j < hi - n" | "hi - n \<le> j" "j < hi" | "hi \<le> j" by linarith
  then show "overwrite (copy_up m y n xs) (hi - n) (slice xs y n) ! j
    = (take y xs @ slice xs (y + n) (hi - n - y) @ slice xs y n @ drop hi xs) ! j"
  proof cases
    case 1
    then have "\<not> hi - n \<le> j" using assms by linarith
    then show ?thesis using 1 assms m j l by (simp add: nth_overwrite nth_append nth_copy_up)
  next
    case 2
    then have "j - y < hi - n - y" "j < y + m" "y + n + (j - y) = j + n" using assms m by linarith+
    then show ?thesis using assms m j l 2 by (simp add: nth_overwrite nth_append nth_copy_up add.commute)
  next
    case 3
    then have "\<not> j - y < hi - n - y" "j - y - (hi - n - y) = j - (hi - n)" "j - (hi - n) < n" "\<not> j < y" using assms by linarith+
    then show ?thesis using assms m j l 3 by (simp add: nth_overwrite nth_append)
  next
    case 4
    then have "\<not> j - y < hi - n - y" "\<not> j - y - (hi - n - y) < n" "hi + (j - y - (hi - n - y) - n) = j"
      "\<not> j < y + m" "\<not> j < hi - n + n" "\<not> j < y" using assms m by linarith+
    then show ?thesis using assms m j l 4 by (simp add: nth_overwrite nth_append nth_copy_up)
  qed
qed

lemma linebuf_insert_lines_rows:
  assumes "lb_wf b" "y \<le> hi" "hi < b_ynum b" and n_def: "n = min (hi + 1 - y) num"
  shows "lb_wf (linebuf_insert_lines b num y hi)" "b_ynum (linebuf_insert_lines b num y hi) = b_ynum b"
    "b_xnum (linebuf_insert_lines b num y hi) = b_xnum b"
    "rows (linebuf_insert_lines b num y hi) = take y (rows b) @ replicate n (blank_row (b_xnum b) zero_line_attrs)
       @ slice (rows b) y (hi + 1 - y - n) @ drop (hi + 1) (rows b)"
proof -
  note l = lb_wf_map [OF assms(1)]
  have n: "y + n \<le> hi + 1" using assms by simp
  note assms = assms(1-3)
  let ?m = "take y (b_map b) @ slice (b_map b) (hi + 1 - n) n @ slice (b_map b) y (hi + 1 - n - y) @ drop (hi + 1) (b_map b)"
  let ?a = "copy_down (hi + 1 - (y + n)) (hi + 1 - 1) n (b_attrs b)"
  define c where "c = (if n = 0 then b else b\<lparr>b_attrs := ?a, b_map := ?m\<rparr>)"
  have d: "linebuf_insert_lines b num y hi = clear_rows_loop n y c"
  proof (cases "n = 0")
    case True
    then show ?thesis using assms by (auto simp: linebuf_insert_lines_def Let_def c_def n_def)
  next
    case False
    have "n \<noteq> 0 \<Longrightarrow> linebuf_insert_lines b num y hi = clear_rows_loop n y
        (b\<lparr>b_attrs := ?a, b_map := overwrite (copy_down (hi + 1 - (y + n)) (hi + 1 - 1) n (b_map b)) y (slice (b_map b) (hi + 1 - n) n)\<rparr>)"
      using assms(2,3) by (simp add: linebuf_insert_lines_def Let_def n_def)
    with False insert_map_eq [of y n "hi + 1" "b_map b"] n l assms(3) show ?thesis by (simp add: c_def)
  qed
  have mset: "mset ?m = mset (b_map b)" using mset_blocks(1) [of y n "hi + 1" "b_map b"] n l assms(3) by simp
  have c: "lb_wf c" "b_ynum c = b_ynum b" "b_xnum c = b_xnum b"
    using mset assms(1) by (auto simp: c_def lb_wf_def)
  note clr = clear_rows_loop_rows [OF c(1), of y n]
  show "lb_wf (linebuf_insert_lines b num y hi)" "b_ynum (linebuf_insert_lines b num y hi) = b_ynum b"
    "b_xnum (linebuf_insert_lines b num y hi) = b_xnum b" using clr n c assms(3) by (simp_all add: d)
  show "rows (linebuf_insert_lines b num y hi) = take y (rows b) @ replicate n (blank_row (b_xnum b) zero_line_attrs)
       @ slice (rows b) y (hi + 1 - y - n) @ drop (hi + 1) (rows b)"
  proof (rule nth_equalityI)
    fix j assume "j < length (rows (linebuf_insert_lines b num y hi))"
    then have j: "j < b_ynum b" using clr n c assms(3) by (simp add: d)
    have r: "rows (linebuf_insert_lines b num y hi) ! j = (if y \<le> j \<and> j < y + n then blank_row (b_xnum b) zero_line_attrs else row_of c j)"
      using clr n c assms(3) j by (simp add: d nth_rows)
    have cj: "row_of c j = row_of b (if y + n \<le> j \<and> j \<le> hi then j - n else j)" if nin: "\<not> (y \<le> j \<and> j < y + n)"
    proof (cases "n = 0")
      case False
      have s: "length (take y (b_map b)) = y" "length (slice (b_map b) (hi + 1 - n) n) = n"
        "length (slice (b_map b) y (hi + 1 - n - y)) = hi + 1 - n - y" using n l assms by simp_all
      consider "j < y" | "y + n \<le> j" "j \<le> hi" | "hi < j" "y \<le> j" using nin assms(2) by linarith
      then show ?thesis
      proof cases
        case 2
        then have "\<not> j - y < n" "j - y - n < hi + 1 - n - y" "y + (j - y - n) = j - n" "Suc hi - (hi + 1 - (y + n)) \<le> j" "\<not> j < y"
          using n by linarith+
        then show ?thesis using 2 False n l j assms(2,3) s
          by (simp add: row_of_def c_def nth_append nth_copy_down)
      next
        case 3
        then have "\<not> j - y < n" "\<not> j - y - n < hi + 1 - n - y" "hi + 1 + (j - y - n - (hi + 1 - n - y)) = j" "\<not> j \<le> hi"
          using n by linarith+
        then show ?thesis using 3 False n l j assms(2,3) s
          by (simp add: row_of_def c_def nth_append nth_copy_down)
      qed (use False n l j assms(2,3) in \<open>simp add: row_of_def c_def nth_append nth_copy_down\<close>)
    qed (simp add: c_def)
    consider "j < y" | "y \<le> j" "j < y + n" | "y + n \<le> j" "j \<le> hi" | "hi < j" "y \<le> j" using assms(2) by linarith
    then show "rows (linebuf_insert_lines b num y hi) ! j = (take y (rows b) @ replicate n (blank_row (b_xnum b) zero_line_attrs)
       @ slice (rows b) y (hi + 1 - y - n) @ drop (hi + 1) (rows b)) ! j"
    proof cases
      case 3
      then have "\<not> j - y < n" "j - y - n < hi + 1 - y - n" "y + (j - y - n) = j - n" using n by linarith+
      then show ?thesis using 3 r cj j n assms(2,3) by (simp add: nth_append nth_rows)
    next
      case 4
      then have "\<not> j - y < n" "\<not> j - y - n < hi + 1 - y - n" "hi + 1 + (j - y - n - (hi + 1 - y - n)) = j" using n by linarith+
      then show ?thesis using 4 r cj j n assms(2,3) by (simp add: nth_append nth_rows)
    next
      case 2
      then have "j - y < n" by linarith
      then show ?thesis using 2 r j n assms(2,3) by (simp add: nth_append nth_rows)
    qed (use r cj j n assms(2,3) in \<open>simp add: nth_append nth_rows\<close>)
  qed (use n assms(2,3) clr c in \<open>simp add: d\<close>)
qed

lemma linebuf_delete_lines_rows:
  assumes "lb_wf b" "y \<le> hi" "hi < b_ynum b" "b_ynum b < 2 ^ 32" and n_def: "n = min (hi + 1 - y) num"
  shows "lb_wf (linebuf_delete_lines b num y hi)" "b_ynum (linebuf_delete_lines b num y hi) = b_ynum b"
    "b_xnum (linebuf_delete_lines b num y hi) = b_xnum b"
    "rows (linebuf_delete_lines b num y hi) = take y (rows b) @ slice (rows b) (y + n) (hi + 1 - y - n)
       @ replicate n (blank_row (b_xnum b) zero_line_attrs) @ drop (hi + 1) (rows b)"
proof -
  note l = lb_wf_map [OF assms(1)]
  have us: "usub32 (hi + 1) y = hi + 1 - y" using assms(2-4) by (intro usub32_le) simp_all
  have n: "y + n \<le> hi + 1" using assms by simp
  note assms = assms(1-3)
  define k where "k = min (hi + 1) (b_ynum b - n) - y"
  have k: "y + k + n \<le> b_ynum b" "hi + 1 - n \<le> y + k" "y + k \<le> hi + 1" using n assms by (simp_all add: k_def)
  let ?m = "take y (b_map b) @ slice (b_map b) (y + n) (hi + 1 - n - y) @ slice (b_map b) y n @ drop (hi + 1) (b_map b)"
  let ?a = "copy_up k y n (b_attrs b)"
  define c where "c = (if n = 0 then b else b\<lparr>b_attrs := ?a, b_map := ?m\<rparr>)"
  have d: "linebuf_delete_lines b num y hi = clear_rows_loop n (hi + 1 - n) c"
  proof (cases "n = 0")
    case True
    then show ?thesis using assms us by (auto simp: linebuf_delete_lines_def Let_def c_def n_def)
  next
    case False
    then have "linebuf_delete_lines b num y hi = clear_rows_loop n (hi + 1 - n)
        (b\<lparr>b_attrs := ?a, b_map := overwrite (copy_up k y n (b_map b)) (hi + 1 - n) (slice (b_map b) y n)\<rparr>)"
      using assms(2,3) us by (simp add: linebuf_delete_lines_def Let_def n_def k_def)
    with False delete_map_eq [of y n "hi + 1" "b_map b" k] n l assms(3) show ?thesis by (simp add: c_def k_def)
  qed
  have mset: "mset ?m = mset (b_map b)" using mset_blocks(2) [of y n "hi + 1" "b_map b"] n l assms(3) by simp
  have c: "lb_wf c" "b_ynum c = b_ynum b" "b_xnum c = b_xnum b"
    using mset assms(1) by (auto simp: c_def lb_wf_def)
  have le: "hi + 1 - n + n \<le> b_ynum c" using n c assms(3) by simp
  note clr = clear_rows_loop_rows [OF c(1) le]
  show "lb_wf (linebuf_delete_lines b num y hi)" "b_ynum (linebuf_delete_lines b num y hi) = b_ynum b"
    "b_xnum (linebuf_delete_lines b num y hi) = b_xnum b" using clr c by (simp_all add: d)
  show "rows (linebuf_delete_lines b num y hi) = take y (rows b) @ slice (rows b) (y + n) (hi + 1 - y - n)
       @ replicate n (blank_row (b_xnum b) zero_line_attrs) @ drop (hi + 1) (rows b)"
  proof (rule nth_equalityI)
    fix j assume "j < length (rows (linebuf_delete_lines b num y hi))"
    then have j: "j < b_ynum b" using clr c by (simp add: d)
    have r: "rows (linebuf_delete_lines b num y hi) ! j
        = (if hi + 1 - n \<le> j \<and> j < hi + 1 - n + n then blank_row (b_xnum b) zero_line_attrs else row_of c j)"
      using clr c j by (simp add: d nth_rows)
    have cj: "row_of c j = row_of b (if y \<le> j \<and> j < hi + 1 - n then j + n else j)" if nin: "\<not> (hi + 1 - n \<le> j \<and> j < hi + 1 - n + n)"
    proof (cases "n = 0")
      case False
      have s: "length (take y (b_map b)) = y" "length (slice (b_map b) y n) = n"
        "length (slice (b_map b) (y + n) (hi + 1 - n - y)) = hi + 1 - n - y" using n l assms by simp_all
      consider "j < y" | "y \<le> j" "j < hi + 1 - n" | "hi < j" "y \<le> j" using nin assms(2) by linarith
      then show ?thesis
      proof cases
        case 1
        then have "\<not> (y \<le> j \<and> j < y + k)" by linarith
        then show ?thesis using 1 False n l j assms(2,3) k by (simp add: row_of_def c_def nth_append nth_copy_up)
      next
        case 2
        then have "j - y < hi + 1 - n - y" "y + n + (j - y) = j + n" "y \<le> j \<and> j < y + k"
          using n assms(2,3) k by linarith+
        then show ?thesis using 2 False n l j assms(2,3) s k
          by (simp add: row_of_def c_def nth_append nth_copy_up add.commute)
      next
        case 3
        then have "\<not> j - y < hi + 1 - n - y" "\<not> j - y - (hi + 1 - n - y) < n"
          "hi + 1 + (j - y - (hi + 1 - n - y) - n) = j" "\<not> (y \<le> j \<and> j < y + k)" "\<not> j < hi + 1 - n"
          using n assms(2,3) k by linarith+
        then show ?thesis using 3 False n l j assms(2,3) s k
          by (simp add: row_of_def c_def nth_append nth_copy_up)
      qed
    qed (simp add: c_def)
    consider "j < y" | "y \<le> j" "j < hi + 1 - n" | "hi + 1 - n \<le> j" "j \<le> hi" | "hi < j" using assms(2) by linarith
    then show "rows (linebuf_delete_lines b num y hi) ! j = (take y (rows b) @ slice (rows b) (y + n) (hi + 1 - y - n)
       @ replicate n (blank_row (b_xnum b) zero_line_attrs) @ drop (hi + 1) (rows b)) ! j"
    proof cases
      case 1
      then have "\<not> hi + 1 - n \<le> j" using n by linarith
      then show ?thesis using 1 r cj j n assms(2,3) by (simp add: nth_append nth_rows)
    next
      case 2
      then have "j - y < hi + 1 - y - n" "y + n + (j - y) = j + n" using n by linarith+
      then show ?thesis using 2 r cj j n assms(2,3) by (simp add: nth_append nth_rows add.commute)
    next
      case 3
      then have "\<not> j - y < hi + 1 - y - n" "j - y - (hi + 1 - y - n) < n" "\<not> j < y" "j < hi + 1 - n + n" using n by linarith+
      then show ?thesis using 3 r j n assms(2,3) by (simp add: nth_append nth_rows)
    next
      case 4
      then have "\<not> j - y < hi + 1 - y - n" "\<not> j - y - (hi + 1 - y - n) < n" "\<not> j < y" "\<not> j < hi + 1 - n + n" "\<not> j < hi + 1 - n"
        "hi + 1 + (j - y - (hi + 1 - y - n) - n) = j" using n assms(2) by linarith+
      then show ?thesis using 4 r cj j n assms(2,3) by (simp add: nth_append nth_rows)
    qed
  qed (use n assms(2,3) clr c in \<open>simp add: d\<close>)
qed

section \<open>The interface of a scrolled buffer\<close>

text \<open>
  What the screen relies on when it scrolls: the two operations rotate the lines of the region and
  keep the invariant.
\<close>

locale row_store =
  fixes inv :: "'s \<Rightarrow> bool"
    and lines :: "'s \<Rightarrow> 'r list"
    and up :: "'s \<Rightarrow> nat \<Rightarrow> nat \<Rightarrow> 's"
    and down :: "'s \<Rightarrow> nat \<Rightarrow> nat \<Rightarrow> 's"
  assumes up_inv: "inv s \<Longrightarrow> lo < hi \<Longrightarrow> hi < length (lines s) \<Longrightarrow> inv (up s lo hi)"
    and up_lines: "inv s \<Longrightarrow> lo < hi \<Longrightarrow> hi < length (lines s) \<Longrightarrow> lines (up s lo hi) = scroll_up lo hi (lines s)"
    and down_inv: "inv s \<Longrightarrow> lo < hi \<Longrightarrow> hi < length (lines s) \<Longrightarrow> inv (down s lo hi)"
    and down_lines: "inv s \<Longrightarrow> lo < hi \<Longrightarrow> hi < length (lines s) \<Longrightarrow> lines (down s lo hi) = scroll_down lo hi (lines s)"
begin

lemma down_of_up:
  "inv s \<Longrightarrow> lo < hi \<Longrightarrow> hi < length (lines s) \<Longrightarrow> lines (down (up s lo hi) lo hi) = lines s"
  by (simp add: up_inv up_lines down_lines scroll_up_down)

lemma up_times:
  assumes "inv s" "lo < hi" "hi < length (lines s)"
  shows "inv (((\<lambda>s. up s lo hi) ^^ n) s) \<and> lines (((\<lambda>s. up s lo hi) ^^ n) s) = (scroll_up lo hi ^^ n) (lines s)
    \<and> length (lines (((\<lambda>s. up s lo hi) ^^ n) s)) = length (lines s)"
  using assms by (induction n) (auto simp: up_inv up_lines)

lemma up_mset:
  "inv s \<Longrightarrow> lo < hi \<Longrightarrow> hi < length (lines s) \<Longrightarrow> mset (lines (up s lo hi)) = mset (lines s)"
  by (simp add: up_lines mset_scroll)

end

interpretation lb: row_store lb_wf rows linebuf_index linebuf_reverse_index
  by unfold_locales (simp_all add: linebuf_index_rows linebuf_reverse_index_rows)

section \<open>Every operation keeps the buffer well formed\<close>

lemma linebuf_new_wf: "linebuf_new ynum xnum = Inr b \<Longrightarrow> lb_wf b"
  by (auto simp: linebuf_new_def lb_wf_def list_all_iff split: if_splits)

lemma clear_chars_loop_wf:
  "lb_wf b \<Longrightarrow> i + n \<le> b_ynum b \<Longrightarrow> lb_wf (clear_chars_loop n i ch b)"
proof (induction n i ch b rule: clear_chars_loop.induct)
  case (2 n i ch b)
  then have i: "i < b_ynum b" by simp
  have "lb_wf ((clear_chars_to i ch b)\<lparr>b_attrs := (b_attrs b)[i := zero_line_attrs\<lparr>la_has_dirty_text := True\<rparr>]\<rparr>)"
    using 2(2) lb_wf_row_lengths [OF 2(2) i]
    by (simp add: lb_wf_def clear_chars_to_def clear_chars_in_line_def list_all_update)
  with 2 show ?case by (simp add: clear_chars_to_def split: prod.splits)
qed simp

lemma linebuf_clear_wf [wf_intros]: "lb_wf b \<Longrightarrow> lb_wf (linebuf_clear b ch)"
proof -
  assume "lb_wf b"
  then have "lb_wf (b\<lparr>b_cpu := replicate (b_ynum b) (replicate (b_xnum b) zero_cpu_cell),
                b_gpu := replicate (b_ynum b) (replicate (b_xnum b) zero_gpu_cell),
                b_attrs := replicate (b_ynum b) zero_line_attrs, b_map := [0 ..< b_ynum b]\<rparr>)"
    by (simp add: lb_wf_def list_all_iff)
  from clear_chars_loop_wf [OF this, of 0 "b_ynum b" ch] this show ?thesis
    by (simp add: linebuf_clear_def Let_def)
qed

lemma linebuf_clear_line_wf [wf_intros]: "lb_wf b \<Longrightarrow> lb_wf (linebuf_clear_line b y clear_attrs)"
  by (simp add: linebuf_clear_line_def Let_def wf_intros)

lemma set_continuation_wf [wf_intros]: "lb_wf b \<Longrightarrow> lb_wf (linebuf_set_last_char_as_continuation b y c)"
  using lb_wf_row_lengths [of b "b_map b ! y"] lb_wf_map(3) [of b y]
  by (simp add: linebuf_set_last_char_as_continuation_def Let_def lb_wf_def list_all_update)

lemma set_attribute_loop_wf:
  "set_attribute_loop n y which val b = Inr b' \<Longrightarrow> y + n \<le> b_ynum b \<Longrightarrow> lb_wf b \<Longrightarrow> lb_wf b'"
proof (induction n y which val b rule: set_attribute_loop.induct)
  case (2 n y which val b)
  from 2(2) obtain r where r: "set_named_attribute_on_line (b_gpu b ! y) which val (b_xnum b) = Some r"
    by (auto split: option.splits)
  then have "length r = b_xnum b" using 2(3,4) lb_wf_row_lengths [of b y]
    by (auto simp: set_named_attribute_on_line_def split: if_splits)
  then have "lb_wf (b\<lparr>b_gpu := (b_gpu b)[y := r]\<rparr>)" using 2(4) by (simp add: lb_wf_def list_all_update)
  then have "lb_wf (linebuf_mark_line_dirty (b\<lparr>b_gpu := (b_gpu b)[y := r]\<rparr>) y)"
    by (simp add: linebuf_mark_line_dirty_def wf_intros)
  with 2 r show ?case by (simp add: linebuf_mark_line_dirty_def)
qed simp

lemma copy_line_wf: "line_wf src \<Longrightarrow> line_wf dest \<Longrightarrow> line_wf (copy_line src dest) \<and> l_xnum (copy_line src dest) = l_xnum dest"
  by (simp add: line_wf_def copy_line_def Let_def)

lemma linebuf_init_line_xnum [frame_simps, simp]: "l_xnum (linebuf_init_line b y) = b_xnum b"
  by (simp add: linebuf_init_line_def)

lemma linebuf_copy_line_to_wf: "lb_wf b \<Longrightarrow> line_wf l \<Longrightarrow> y < b_ynum b \<Longrightarrow> lb_wf (linebuf_copy_line_to b l y)"
  using copy_line_wf [of l "linebuf_init_line b y"]
  by (simp add: linebuf_copy_line_to_def Let_def wf_intros)

lemma copy_old_loop_wf:
  "lb_wf b \<Longrightarrow> lb_wf other \<Longrightarrow> i + n \<le> b_ynum b \<Longrightarrow> i + n \<le> b_ynum other \<Longrightarrow> lb_wf (copy_old_loop n i other b)"
proof (induction n arbitrary: i b)
  case (Suc n)
  let ?s = "b_ynum b - 1 - i" and ?r = "b_ynum other - 1 - i"
  let ?b = "b\<lparr>b_attrs := (b_attrs b)[?s := b_attrs other ! ?r]\<rparr>"
  have wf: "lb_wf ?b" using Suc.prems(1) by (simp add: lb_wf_def)
  have "line_wf (linebuf_init_line ?b ?s)" by (rule linebuf_init_line_wf [OF wf]) (use Suc.prems in simp)
  moreover have "line_wf (linebuf_init_line other ?r)" by (rule linebuf_init_line_wf) (use Suc.prems in simp_all)
  ultimately have "lb_wf (put_line ?b ?s (copy_line (linebuf_init_line other ?r) (linebuf_init_line ?b ?s)))"
    using copy_line_wf [of "linebuf_init_line other ?r" "linebuf_init_line ?b ?s"] wf by (intro wf_intros) simp_all
  then show ?case using Suc by (simp add: Let_def put_line_def)
qed simp

text \<open>
  The operations the screen and the Python methods perform on a buffer, as a step relation. Writing
  through the line object of line \<open>y\<close> is the rule \<open>write\<close>.
\<close>

inductive linebuf_step :: "line_buf \<Rightarrow> line_buf \<Rightarrow> bool" where
  index: "linebuf_step b (linebuf_index b lo hi)"
| reverse: "linebuf_step b (linebuf_reverse_index b lo hi)"
| insert_lines: "linebuf_step b (linebuf_insert_lines b num y hi)"
| delete_lines: "linebuf_step b (linebuf_delete_lines b num y hi)"
| clear: "linebuf_step b (linebuf_clear b ch)"
| clear_line: "y < b_ynum b \<Longrightarrow> linebuf_step b (linebuf_clear_line b y clear_attrs)"
| attrs: "linebuf_step b (update_line_attrs y f b)"
| continuation: "linebuf_step b (linebuf_set_last_char_as_continuation b y c)"
| set_attr: "linebuf_set_attribute b which val = Inr b' \<Longrightarrow> linebuf_step b b'"
| copy_to: "line_wf l \<Longrightarrow> y < b_ynum b \<Longrightarrow> linebuf_step b (linebuf_copy_line_to b l y)"
| copy_from: "lb_wf other \<Longrightarrow> copy_old b other = Inr b' \<Longrightarrow> linebuf_step b b'"
| write_line: "line_wf l \<Longrightarrow> l_xnum l = b_xnum b \<Longrightarrow> y < b_ynum b \<Longrightarrow> linebuf_step b (put_line b y l)"

inductive linebuf_reachable :: "line_buf \<Rightarrow> bool" where
  new: "linebuf_new ynum xnum = Inr b \<Longrightarrow> linebuf_reachable b"
| step: "linebuf_reachable b \<Longrightarrow> linebuf_step b b' \<Longrightarrow> linebuf_reachable b'"

lemma linebuf_index_wf [wf_intros]: "lb_wf b \<Longrightarrow> lb_wf (linebuf_index b lo hi)" 
  using linebuf_index_rows(1) [of b lo hi] by (cases "lo < hi \<and> hi < b_ynum b") (auto simp: linebuf_index_def)

lemma linebuf_reverse_index_wf [wf_intros]: "lb_wf b \<Longrightarrow> lb_wf (linebuf_reverse_index b lo hi)"
  using linebuf_reverse_index_rows(1) [of b lo hi] by (cases "lo < hi \<and> hi < b_ynum b") (auto simp: linebuf_reverse_index_def)

lemma linebuf_insert_lines_wf [wf_intros]: "lb_wf b \<Longrightarrow> lb_wf (linebuf_insert_lines b num y hi)"
  using linebuf_insert_lines_rows(1) [of b y hi _ num] by (cases "y \<le> hi \<and> hi < b_ynum b") (auto simp: linebuf_insert_lines_def)

lemma linebuf_delete_lines_wf [wf_intros]: "lb_wf b \<Longrightarrow> b_ynum b < 2 ^ 32 \<Longrightarrow> lb_wf (linebuf_delete_lines b num y hi)"
  using linebuf_delete_lines_rows(1) [of b y hi _ num]
  by (cases "y \<le> hi \<and> hi < b_ynum b") (auto simp: linebuf_delete_lines_def Let_def)

lemma clear_rows_loop_frame [frame_simps]:
  "b_ynum (clear_rows_loop n i b) = b_ynum b \<and> b_xnum (clear_rows_loop n i b) = b_xnum b"
  by (induction n i b rule: clear_rows_loop.induct) simp_all

lemma clear_chars_loop_frame [frame_simps]:
  "b_ynum (clear_chars_loop n i ch b) = b_ynum b \<and> b_xnum (clear_chars_loop n i ch b) = b_xnum b"
  by (induction n i ch b rule: clear_chars_loop.induct) (simp_all add: clear_chars_to_def split: prod.splits)

lemma set_attribute_loop_frame:
  "set_attribute_loop n y which val b = Inr b' \<Longrightarrow> b_ynum b' = b_ynum b \<and> b_xnum b' = b_xnum b"
  by (induction n y which val b rule: set_attribute_loop.induct) (auto simp: linebuf_mark_line_dirty_def split: option.splits)

lemma copy_old_loop_frame:
  "b_ynum (copy_old_loop n i other b) = b_ynum b \<and> b_xnum (copy_old_loop n i other b) = b_xnum b"
  by (induction n arbitrary: i b) (simp_all add: Let_def put_line_def)

lemma linebuf_step_frame: "linebuf_step b b' \<Longrightarrow> b_ynum b' = b_ynum b \<and> b_xnum b' = b_xnum b"
proof (induction rule: linebuf_step.induct)
  case (copy_from other b b')
  then show ?case using copy_old_loop_frame by (auto simp: copy_old_def split: if_splits)
qed (auto simp: linebuf_index_def linebuf_reverse_index_def linebuf_insert_lines_def linebuf_delete_lines_def
    linebuf_clear_def linebuf_clear_line_def linebuf_set_last_char_as_continuation_def linebuf_copy_line_to_def
    put_line_def Let_def clear_rows_loop_frame clear_chars_loop_frame linebuf_set_attribute_def
    dest: set_attribute_loop_frame)

lemma linebuf_step_wf: "linebuf_step b b' \<Longrightarrow> lb_wf b \<Longrightarrow> b_ynum b < 2 ^ 32 \<Longrightarrow> lb_wf b'"
proof (induction rule: linebuf_step.induct)
  case (set_attr b which val b')
  then show ?case using set_attribute_loop_wf [of "b_ynum b" 0 which val b b'] by (simp add: linebuf_set_attribute_def)
next
  case (copy_from other b b')
  then show ?case using copy_old_loop_wf [of b other 0 "min (b_ynum b) (b_ynum other)"]
    by (auto simp: copy_old_def split: if_splits)
qed (simp_all add: wf_intros linebuf_copy_line_to_wf)

lemma linebuf_new_ynum: "linebuf_new ynum xnum = Inr b \<Longrightarrow> b_ynum b \<le> 50000 \<and> b_xnum b \<le> 5000"
  by (auto simp: linebuf_new_def split: if_splits)

text \<open>
  C36: In every state of a line buffer reached from its constructor by any sequence of operations,
  line_map is a permutation of the row indices and all rows and arrays have their sizes.
\<close>

theorem linebuf_reachable_wf:
  assumes "linebuf_reachable b"
  shows "lb_wf b \<and> b_ynum b \<le> 50000 \<and> b_xnum b \<le> 5000"
  using assms
proof (induction rule: linebuf_reachable.induct)
  case (new ynum xnum b)
  then show ?case using linebuf_new_wf linebuf_new_ynum by blast
next
  case (step b b')
  then show ?case using linebuf_step_wf [OF step(2)] linebuf_step_frame [OF step(2)] by simp
qed

definition example_buf :: line_buf where
  "example_buf = \<lparr>b_cpu = map (\<lambda>c. [zero_cpu_cell\<lparr>p_ch := c\<rparr>, zero_cpu_cell]) [0x61, 0x62, 0x63, 0x64],
     b_gpu = replicate 4 (replicate 2 zero_gpu_cell), b_xnum = 2, b_ynum = 4, b_map = [2, 0, 3, 1],
     b_attrs = replicate 4 zero_line_attrs\<rparr>"

lemma example_buf_wf: "lb_wf example_buf" "b_ynum example_buf = 4"
  by (simp_all add: lb_wf_def example_buf_def upt_rec eval_nat_numeral add_mset_commute)

lemma linebuf_reachable_wf_witness:
  "\<exists>b. linebuf_new 3 2 = Inr b \<and> lb_wf (linebuf_index b 0 2) \<and> b_ynum (linebuf_index b 0 2) \<le> 50000 \<and> b_xnum (linebuf_index b 0 2) \<le> 5000"
proof -
  obtain b where b: "linebuf_new 3 2 = Inr b" by (simp add: linebuf_new_def)
  then have "linebuf_reachable (linebuf_index b 0 2)"
    by (blast intro: linebuf_reachable.intros linebuf_step.index)
  from linebuf_reachable_wf [OF this] b show ?thesis by blast
qed

section \<open>Refinement of the list of lines\<close>

theorem linebuf_scroll_inverse:
  assumes "lb_wf b" "lo < hi" "hi < b_ynum b"
  shows "rows (linebuf_index b lo hi) = take lo (rows b) @ slice (rows b) (lo + 1) (hi - lo) @ [rows b ! lo] @ drop (hi + 1) (rows b)
    \<and> rows (linebuf_reverse_index (linebuf_index b lo hi) lo hi) = rows b"
proof -
  have "hi + 1 - lo = Suc (hi - lo)" using assms by simp
  then have "rotate1 (slice (rows b) lo (hi + 1 - lo)) = slice (rows b) (lo + 1) (hi - lo) @ [rows b ! lo]"
    using assms slice_Cons [of lo "rows b" "hi - lo"] by simp
  then show ?thesis
    using assms lb.down_of_up [of b lo hi] lb.up_lines [of b lo hi] by (simp add: scroll_up_def)
qed

lemma linebuf_scroll_inverse_witness:
  "rows (linebuf_index example_buf 1 3) = take 1 (rows example_buf) @ slice (rows example_buf) (1 + 1) (3 - 1)
      @ [rows example_buf ! 1] @ drop (3 + 1) (rows example_buf)
    \<and> rows (linebuf_reverse_index (linebuf_index example_buf 1 3) 1 3) = rows example_buf"
  by (rule linebuf_scroll_inverse) (simp_all add: example_buf_wf)

text \<open>
  C38: linebuf_insert_lines on the list of lines inserts min(num, bottom + 1 - y) blank lines at y
  and drops as many at the bottom of the region; no line outside the region changes.
\<close>

theorem linebuf_insert_lines_spec:
  assumes "lb_wf b" "y \<le> hi" "hi < b_ynum b" "n = min (hi + 1 - y) num"
  shows "rows (linebuf_insert_lines b num y hi) = take y (rows b) @ replicate n (blank_row (b_xnum b) zero_line_attrs)
       @ slice (rows b) y (hi + 1 - y - n) @ drop (hi + 1) (rows b)"
  using assms by (rule linebuf_insert_lines_rows)

lemma linebuf_insert_lines_spec_witness:
  "rows (linebuf_insert_lines example_buf 2 1 3) = take 1 (rows example_buf) @ replicate 2 (blank_row 2 zero_line_attrs)
       @ slice (rows example_buf) 1 (3 + 1 - 1 - 2) @ drop (3 + 1) (rows example_buf)"
  using linebuf_insert_lines_spec [of example_buf 1 3 2 2] example_buf_wf by (simp add: example_buf_def)

text \<open>
  C39: linebuf_delete_lines on the list of lines removes min(num, bottom + 1 - y) lines at y and
  adds as many blank lines at the bottom of the region; no line outside the region changes.
\<close>

theorem linebuf_delete_lines_spec:
  assumes "lb_wf b" "y \<le> hi" "hi < b_ynum b" "b_ynum b < 2 ^ 32" "n = min (hi + 1 - y) num"
  shows "rows (linebuf_delete_lines b num y hi) = take y (rows b) @ slice (rows b) (y + n) (hi + 1 - y - n)
       @ replicate n (blank_row (b_xnum b) zero_line_attrs) @ drop (hi + 1) (rows b)"
  using assms by (rule linebuf_delete_lines_rows)

lemma linebuf_delete_lines_spec_witness:
  "rows (linebuf_delete_lines example_buf 2 1 3) = take 1 (rows example_buf) @ slice (rows example_buf) (1 + 2) (3 + 1 - 1 - 2)
       @ replicate 2 (blank_row 2 zero_line_attrs) @ drop (3 + 1) (rows example_buf)"
  using linebuf_delete_lines_spec [of example_buf 1 3 2 2] example_buf_wf by (simp add: example_buf_def)

end
