(* ===== verification/Colors.thy ===== *)
theory Colors
  imports Prelude
begin

text \<open>
  The colour profile of a window, \<^verbatim>\<open>smelly/colors.c\<close>: the table of 256 colours, the dynamic colours
  with their configured defaults, and the stack of saved colours. The conversions to and from
  Python objects are not modelled.
\<close>

datatype dynamic_color_type = COLOR_NOT_SET | COLOR_IS_SPECIAL | COLOR_IS_INDEX | COLOR_IS_RGB

record dynamic_color =
  dc_rgb :: "24 word"
  dc_type :: dynamic_color_type

record dynamic_colors =
  default_fg :: dynamic_color
  default_bg :: dynamic_color
  cursor_color :: dynamic_color
  cursor_text_color :: dynamic_color
  highlight_fg :: dynamic_color
  highlight_bg :: dynamic_color
  visual_bell_color :: dynamic_color

definition zero_dynamic_color :: dynamic_color where
  "zero_dynamic_color = \<lparr>dc_rgb = 0, dc_type = COLOR_NOT_SET\<rparr>"

definition zero_dynamic_colors :: dynamic_colors where
  "zero_dynamic_colors =
     \<lparr>default_fg = zero_dynamic_color, default_bg = zero_dynamic_color, cursor_color = zero_dynamic_color,
      cursor_text_color = zero_dynamic_color, highlight_fg = zero_dynamic_color,
      highlight_bg = zero_dynamic_color, visual_bell_color = zero_dynamic_color\<rparr>"

record color_stack_entry =
  cs_dynamic_colors :: dynamic_colors
  cs_color_table :: "u32 list"

record color_profile =
  cp_dirty :: bool
  color_table :: "u32 list"
  orig_color_table :: "u32 list"
  color_stack :: "color_stack_entry list"
  color_stack_idx :: nat
  configured :: dynamic_colors
  overridden :: dynamic_colors

section \<open>The default colours\<close>

definition basic_colors :: "u32 list" where
  "basic_colors =
     [0x000000, 0xcd0000, 0x00cd00, 0xcdcd00, 0x0000ee, 0xcd00cd, 0x00cdcd, 0xe5e5e5,
      0x7f7f7f, 0xff0000, 0x00ff00, 0xffff00, 0x5c5cff, 0xff00ff, 0x00ffff, 0xffffff]"

definition valuerange :: "u32 list" where
  "valuerange = [0x00, 0x5f, 0x87, 0xaf, 0xd7, 0xff]"

definition rgb :: "u32 \<Rightarrow> u32 \<Rightarrow> u32 \<Rightarrow> u32" where
  "rgb r g b = push_bit 16 r OR push_bit 8 g OR b"

text \<open>The table after \<^verbatim>\<open>init_FG_BG_table\<close>: basic colours, colour cube, grays.\<close>

definition FG_BG_256 :: "u32 list" where
  "FG_BG_256 =
     basic_colors
     @ map (\<lambda>i. rgb (valuerange ! (i div 36 mod 6)) (valuerange ! (i div 6 mod 6)) (valuerange ! (i mod 6))) [0 ..< 216]
     @ map (\<lambda>i. let v = 8 + word_of_nat i * 10 in rgb v v v) [0 ..< 24]"

definition new_cp :: color_profile where
  "new_cp =
     \<lparr>cp_dirty = True, color_table = FG_BG_256, orig_color_table = FG_BG_256, color_stack = [],
      color_stack_idx = 0, configured = zero_dynamic_colors, overridden = zero_dynamic_colors\<rparr>"

definition update_ansi_color_table :: "color_profile \<Rightarrow> u32 list \<Rightarrow> color_profile" where
  "update_ansi_color_table cp table =
     cp\<lparr>color_table := take 256 table, orig_color_table := take 256 table, cp_dirty := True\<rparr>"

definition copy_color_profile :: "color_profile \<Rightarrow> color_profile \<Rightarrow> color_profile" where
  "copy_color_profile dest src =
     dest\<lparr>color_table := color_table src, orig_color_table := orig_color_table src,
          configured := configured src, overridden := overridden src, cp_dirty := True\<rparr>"

section \<open>Lookup\<close>

definition colorprofile_to_color :: "color_profile \<Rightarrow> dynamic_color \<Rightarrow> dynamic_color \<Rightarrow> dynamic_color" where
  "colorprofile_to_color cp entry defval =
     (case dc_type entry of
        COLOR_NOT_SET \<Rightarrow> defval
      | COLOR_IS_INDEX \<Rightarrow>
          \<lparr>dc_rgb = ucast (color_table cp ! unat (dc_rgb entry AND 0xff)), dc_type = COLOR_IS_RGB\<rparr>
      | COLOR_IS_RGB \<Rightarrow> entry
      | COLOR_IS_SPECIAL \<Rightarrow> entry)"

definition colorprofile_to_color_with_fallback ::
  "color_profile \<Rightarrow> dynamic_color \<Rightarrow> dynamic_color \<Rightarrow> dynamic_color \<Rightarrow> dynamic_color \<Rightarrow> u32" where
  "colorprofile_to_color_with_fallback cp entry defval fallback fallback_defval =
     (case dc_type entry of
        COLOR_IS_RGB \<Rightarrow> ucast (dc_rgb entry)
      | COLOR_IS_INDEX \<Rightarrow> (color_table cp ! unat (dc_rgb entry AND 0xff)) AND 0xffffff
      | _ \<Rightarrow>
          if dc_type defval = COLOR_IS_SPECIAL
          then ucast (dc_rgb (colorprofile_to_color cp fallback fallback_defval))
          else ucast (dc_rgb defval))"

text \<open>\<^verbatim>\<open>as_color\<close> on the number of a terminal colour: \<open>None\<close> when it is neither an index nor a colour.\<close>

definition as_color :: "color_profile \<Rightarrow> u32 \<Rightarrow> u32 option" where
  "as_color cp entry =
     (let t = entry AND 0xff in
      if t = 1 then Some (color_table cp ! unat (drop_bit 8 entry AND 0xff))
      else if t = 2 then Some (drop_bit 8 entry)
      else None)"

definition reset_color_table :: "color_profile \<Rightarrow> color_profile" where
  "reset_color_table cp = cp\<lparr>color_table := orig_color_table cp, cp_dirty := True\<rparr>"

definition reset_color :: "color_profile \<Rightarrow> u32 \<Rightarrow> color_profile" where
  "reset_color cp val =
     (let i = unat (val AND 0xff)
      in cp\<lparr>color_table := (color_table cp)[i := orig_color_table cp ! i], cp_dirty := True\<rparr>)"

definition set_color :: "color_profile \<Rightarrow> u8 \<Rightarrow> u32 \<Rightarrow> color_profile" where
  "set_color cp i val = cp\<lparr>color_table := (color_table cp)[unat i := val], cp_dirty := True\<rparr>"

definition configured_color :: "u32 \<Rightarrow> dynamic_color" where
  "configured_color val =
     \<lparr>dc_rgb = ucast val, dc_type = (if val AND 0xff000000 \<noteq> 0 then COLOR_IS_RGB else COLOR_IS_SPECIAL)\<rparr>"

definition set_configured_colors ::
  "color_profile \<Rightarrow> u32 \<Rightarrow> u32 \<Rightarrow> u32 \<Rightarrow> u32 \<Rightarrow> u32 \<Rightarrow> u32 \<Rightarrow> u32 \<Rightarrow> color_profile" where
  "set_configured_colors cp fg bg cur curtext hfg hbg bell =
     cp\<lparr>configured := \<lparr>default_fg = configured_color fg, default_bg = configured_color bg,
          cursor_color = configured_color cur, cursor_text_color = configured_color curtext,
          highlight_fg = configured_color hfg, highlight_bg = configured_color hbg,
          visual_bell_color = configured_color bell\<rparr>, cp_dirty := True\<rparr>"

section \<open>The stack\<close>

definition zero_entry :: color_stack_entry where
  "zero_entry = \<lparr>cs_dynamic_colors = zero_dynamic_colors, cs_color_table = replicate 256 0\<rparr>"

definition push_onto_color_stack_at :: "color_profile \<Rightarrow> nat \<Rightarrow> color_profile" where
  "push_onto_color_stack_at cp i =
     cp\<lparr>color_stack := (color_stack cp)
          [i := \<lparr>cs_dynamic_colors = overridden cp, cs_color_table = color_table cp\<rparr>]\<rparr>"

definition copy_from_color_stack_at :: "color_profile \<Rightarrow> nat \<Rightarrow> color_profile" where
  "copy_from_color_stack_at cp i =
     cp\<lparr>overridden := cs_dynamic_colors (color_stack cp ! i), color_table := cs_color_table (color_stack cp ! i)\<rparr>"

definition colorprofile_push_colors :: "color_profile \<Rightarrow> nat \<Rightarrow> bool \<times> color_profile" where
  "colorprofile_push_colors cp idx =
     (if idx > 10 then (False, cp)
      else
        (let sz = min 10 (if idx \<noteq> 0 then idx else color_stack_idx cp + 1);
             cp = (if length (color_stack cp) < sz
                   then cp\<lparr>color_stack := color_stack cp @ replicate (sz - length (color_stack cp)) zero_entry\<rparr>
                   else cp);
             n = length (color_stack cp)
         in if idx = 0 then
              (if color_stack_idx cp \<ge> n then
                 (True, push_onto_color_stack_at
                    (cp\<lparr>color_stack := overwrite (color_stack cp) 0 (slice (color_stack cp) 1 (n - 1))\<rparr>) (n - 1))
               else
                 (True, push_onto_color_stack_at (cp\<lparr>color_stack_idx := color_stack_idx cp + 1\<rparr>) (color_stack_idx cp)))
            else if idx - 1 < n then (True, push_onto_color_stack_at cp (idx - 1))
            else (False, cp)))"

definition colorprofile_pop_colors :: "color_profile \<Rightarrow> nat \<Rightarrow> bool \<times> color_profile" where
  "colorprofile_pop_colors cp idx =
     (if idx = 0 then
        (if color_stack_idx cp = 0 then (False, cp)
         else
           (let i = color_stack_idx cp - 1; cp = copy_from_color_stack_at (cp\<lparr>color_stack_idx := i\<rparr>) i
            in (True, cp\<lparr>color_stack := (color_stack cp)[i := zero_entry]\<rparr>)))
      else if idx - 1 < length (color_stack cp) then (True, copy_from_color_stack_at cp (idx - 1))
      else (False, cp))"

text \<open>The index and the count.\<close>

definition colorprofile_report_stack :: "color_profile \<Rightarrow> nat \<times> nat" where
  "colorprofile_report_stack cp = (color_stack_idx cp - 1, color_stack_idx cp)"

section \<open>Correctness\<close>

definition cp_wf :: "color_profile \<Rightarrow> bool" where
  "cp_wf cp = (length (color_table cp) = 256 \<and> length (orig_color_table cp) = 256
     \<and> color_stack_idx cp \<le> length (color_stack cp) \<and> length (color_stack cp) \<le> 10
     \<and> list_all (\<lambda>e. length (cs_color_table e) = 256) (color_stack cp))"

lemma new_cp_wf: "cp_wf new_cp"
  by (simp add: cp_wf_def new_cp_def FG_BG_256_def basic_colors_def)

lemma list_all_take_drop: "list_all P xs \<Longrightarrow> list_all P (take n xs)" "list_all P xs \<Longrightarrow> list_all P (drop n xs)"
  by (auto simp: list_all_iff dest: in_set_takeD in_set_dropD)

lemma list_all_replicate: "P x \<Longrightarrow> list_all P (replicate n x)"
  by (simp add: list_all_iff)

lemma push_wf: "cp_wf cp \<Longrightarrow> cp_wf (snd (colorprofile_push_colors cp idx))"
  by (auto simp: cp_wf_def colorprofile_push_colors_def push_onto_color_stack_at_def Let_def zero_entry_def
      overwrite_def slice_def intro!: list_all_update list_all_take_drop list_all_replicate)

lemma pop_wf: "cp_wf cp \<Longrightarrow> cp_wf (snd (colorprofile_pop_colors cp idx))"
  by (auto simp: cp_wf_def colorprofile_pop_colors_def copy_from_color_stack_at_def Let_def zero_entry_def
      list_all_update) (auto simp: list_all_length)

text \<open>The saved colours, and the colours that would be saved.\<close>

definition saved_colors :: "color_profile \<Rightarrow> color_stack_entry list" where
  "saved_colors cp = take (color_stack_idx cp) (color_stack cp)"

definition current_colors :: "color_profile \<Rightarrow> color_stack_entry" where
  "current_colors cp = \<lparr>cs_dynamic_colors = overridden cp, cs_color_table = color_table cp\<rparr>"

lemma push_saved:
  assumes "cp_wf cp" and "colorprofile_push_colors cp 0 = (ok, q)"
  shows "ok \<and> saved_colors q = drop (color_stack_idx cp + 1 - 10) (saved_colors cp @ [current_colors cp])"
proof (cases "color_stack_idx cp < 10")
  case True
  define st where "st = color_stack cp @ replicate (color_stack_idx cp + 1 - length (color_stack cp)) zero_entry"
  have "color_stack_idx cp < length st" using assms(1) by (auto simp: st_def cp_wf_def)
  moreover have "colorprofile_push_colors cp 0 =
      (True, push_onto_color_stack_at (cp\<lparr>color_stack := st, color_stack_idx := color_stack_idx cp + 1\<rparr>) (color_stack_idx cp))"
    using True by (cases cp) (auto simp: colorprofile_push_colors_def Let_def st_def not_less)
  ultimately show ?thesis
    using True assms by (auto simp: push_onto_color_stack_at_def saved_colors_def current_colors_def
        take_Suc_conv_app_nth st_def cp_wf_def)
next
  case False
  then have n: "color_stack_idx cp = 10" "length (color_stack cp) = 10" using assms(1) by (auto simp: cp_wf_def)
  then obtain x where x: "drop 9 (color_stack cp) = [x]"
    by (cases "drop 9 (color_stack cp)") (auto dest: arg_cong [of _ _ length])
  have "overwrite (color_stack cp) 0 (slice (color_stack cp) 1 9) = drop 1 (color_stack cp) @ [x]"
    using n x by (simp add: overwrite_def slice_def)
  with n assms(2) show ?thesis
    by (auto simp: colorprofile_push_colors_def push_onto_color_stack_at_def saved_colors_def current_colors_def
        list_update_append)
qed

lemma pop_saved:
  assumes "cp_wf cp" and "saved_colors cp = es @ [e]"
  shows "\<exists>q. colorprofile_pop_colors cp 0 = (True, q) \<and> saved_colors q = es \<and> current_colors q = e"
proof -
  have len: "color_stack_idx cp = Suc (length es)"
    using arg_cong [OF assms(2), of length] assms(1) by (simp add: saved_colors_def cp_wf_def)
  have "color_stack cp ! length es = (saved_colors cp) ! length es" by (simp add: saved_colors_def len)
  then have e: "color_stack cp ! length es = e" by (simp add: assms(2))
  have "take (length es) (color_stack cp) = take (length es) (saved_colors cp)" by (simp add: saved_colors_def len)
  then have es: "take (length es) (color_stack cp) = es" by (simp add: assms(2))
  show ?thesis
    by (simp add: colorprofile_pop_colors_def len copy_from_color_stack_at_def saved_colors_def current_colors_def e es Let_def)
qed

text \<open>Any number of changes of the colours that leave the stack alone.\<close>

theorem color_stack_push_pop:
  assumes "cp_wf cp" and "colorprofile_push_colors cp 0 = (ok, q)"
    and "cp_wf r" and "color_stack r = color_stack q" "color_stack_idx r = color_stack_idx q"
  shows "\<exists>s. colorprofile_pop_colors r 0 = (True, s) \<and> overridden s = overridden cp \<and> color_table s = color_table cp
    \<and> saved_colors s = drop (color_stack_idx cp + 1 - 10) (saved_colors cp)"
proof -
  have "color_stack_idx cp \<le> 10" using assms(1) by (simp add: cp_wf_def)
  then have "drop (color_stack_idx cp + 1 - 10) (saved_colors cp @ [current_colors cp])
      = drop (color_stack_idx cp + 1 - 10) (saved_colors cp) @ [current_colors cp]"
    using assms(1) by (simp add: saved_colors_def cp_wf_def)
  then have "saved_colors r = drop (color_stack_idx cp + 1 - 10) (saved_colors cp) @ [current_colors cp]"
    using push_saved [OF assms(1,2)] assms(4,5) by (simp add: saved_colors_def)
  from pop_saved [OF assms(3) this] show ?thesis by (auto simp: current_colors_def)
qed

theorem color_stack_push_pop_witness:
  "\<exists>q s. colorprofile_push_colors new_cp 0 = (True, q)
     \<and> colorprofile_pop_colors (set_color q 1 0xff00ff) 0 = (True, s) \<and> color_table s = FG_BG_256"
proof -
  obtain ok q where q: "colorprofile_push_colors new_cp 0 = (ok, q)" by fastforce
  have wf: "cp_wf q" using push_wf [OF new_cp_wf, of 0] q by simp
  then have "cp_wf (set_color q 1 0xff00ff)" by (simp add: cp_wf_def set_color_def)
  from color_stack_push_pop [OF new_cp_wf q this] q show ?thesis
    by (simp add: set_color_def) (auto simp: new_cp_def colorprofile_push_colors_def)
qed

end
