(* ===== verification/Ringbuf.thy ===== *)
theory Ringbuf
  imports Prelude
begin

text \<open>
  The byte ring buffer \<^verbatim>\<open>smelly/ringbuf.c\<close>, with the memory and the head and tail offsets of the C
  code. The loops that copy in at most two pieces are shown to be operations on the list of the
  bytes held, in which the oldest bytes are lost when there is no room. \<open>None\<close> is a failed assertion
  of the code. Reading from and writing to file descriptors is not modelled.
\<close>

section \<open>The buffer\<close>

record ringbuf =
  rb_buf :: "u8 list"
  rb_head :: nat
  rb_tail :: nat

definition ringbuf_buffer_size :: "ringbuf \<Rightarrow> nat" where
  "ringbuf_buffer_size rb = length (rb_buf rb)"

definition ringbuf_reset :: "ringbuf \<Rightarrow> ringbuf" where
  "ringbuf_reset rb = rb\<lparr>rb_head := 0, rb_tail := 0\<rparr>"

definition ringbuf_new :: "nat \<Rightarrow> ringbuf" where
  "ringbuf_new capacity = ringbuf_reset \<lparr>rb_buf = replicate (capacity + 1) 0, rb_head = 0, rb_tail = 0\<rparr>"

definition ringbuf_capacity :: "ringbuf \<Rightarrow> nat" where
  "ringbuf_capacity rb = ringbuf_buffer_size rb - 1"

definition ringbuf_bytes_free :: "ringbuf \<Rightarrow> nat" where
  "ringbuf_bytes_free rb =
     (if rb_head rb \<ge> rb_tail rb then ringbuf_capacity rb - (rb_head rb - rb_tail rb)
      else rb_tail rb - rb_head rb - 1)"

definition ringbuf_bytes_used :: "ringbuf \<Rightarrow> nat" where
  "ringbuf_bytes_used rb = ringbuf_capacity rb - ringbuf_bytes_free rb"

definition ringbuf_is_full :: "ringbuf \<Rightarrow> bool" where
  "ringbuf_is_full rb = (ringbuf_bytes_free rb = 0)"

definition ringbuf_is_empty :: "ringbuf \<Rightarrow> bool" where
  "ringbuf_is_empty rb = (ringbuf_bytes_free rb = ringbuf_capacity rb)"

definition ringbuf_nextp :: "ringbuf \<Rightarrow> nat \<Rightarrow> nat" where
  "ringbuf_nextp rb p = (p + 1) mod ringbuf_buffer_size rb"

text \<open>A pointer that reached the end of the memory is set back to its start.\<close>

definition wrap_ptr :: "ringbuf \<Rightarrow> nat \<Rightarrow> nat" where
  "wrap_ptr rb p = (if p = ringbuf_buffer_size rb then 0 else p)"

text \<open>One round of the loops: write \<open>bs\<close> at the head, read \<open>n\<close> bytes at the tail.\<close>

definition write_piece :: "ringbuf \<Rightarrow> u8 list \<Rightarrow> ringbuf" where
  "write_piece rb bs =
     rb\<lparr>rb_buf := overwrite (rb_buf rb) (rb_head rb) bs, rb_head := wrap_ptr rb (rb_head rb + length bs)\<rparr>"

definition skip_piece :: "ringbuf \<Rightarrow> nat \<Rightarrow> ringbuf" where
  "skip_piece rb n = rb\<lparr>rb_tail := wrap_ptr rb (rb_tail rb + n)\<rparr>"

function memcpy_into_loop :: "ringbuf \<Rightarrow> u8 list \<Rightarrow> ringbuf option" where
  "memcpy_into_loop rb src =
     (if src = [] then Some rb
      else if \<not> rb_head rb < ringbuf_buffer_size rb then None
      else
        let n = min (ringbuf_buffer_size rb - rb_head rb) (length src)
        in memcpy_into_loop (write_piece rb (take n src)) (drop n src))"
  by pat_completeness auto
termination
  by (relation "measure (\<lambda>(rb, src). length src)") auto

declare memcpy_into_loop.simps [simp del]

text \<open>After an overflow the tail follows the head.\<close>

definition fix_tail :: "bool \<Rightarrow> ringbuf \<Rightarrow> ringbuf" where
  "fix_tail overflow rb = (if overflow then rb\<lparr>rb_tail := ringbuf_nextp rb (rb_head rb)\<rparr> else rb)"

definition ringbuf_memcpy_into :: "ringbuf \<Rightarrow> u8 list \<Rightarrow> ringbuf option" where
  "ringbuf_memcpy_into dst src =
     (let overflow = length src > ringbuf_bytes_free dst
      in map_option (fix_tail overflow) (memcpy_into_loop dst src))"

text \<open>\<^verbatim>\<open>memset\<close> is the same loop over equal bytes, at most as many as the memory holds.\<close>

definition ringbuf_memset :: "ringbuf \<Rightarrow> u8 \<Rightarrow> nat \<Rightarrow> ringbuf option" where
  "ringbuf_memset dst c len =
     (let count = min len (ringbuf_buffer_size dst); overflow = count > ringbuf_bytes_free dst
      in map_option (fix_tail overflow) (memcpy_into_loop dst (replicate count c)))"

text \<open>The bytes read by the loop of \<^verbatim>\<open>ringbuf_memmove_from\<close> and \<^verbatim>\<open>ringbuf_memcpy_from\<close>, and the new tail.\<close>

function read_loop :: "ringbuf \<Rightarrow> nat \<Rightarrow> u8 list \<Rightarrow> (u8 list \<times> ringbuf) option" where
  "read_loop rb count dst =
     (if count = 0 then Some (dst, rb)
      else if \<not> rb_tail rb < ringbuf_buffer_size rb then None
      else
        let n = min (ringbuf_buffer_size rb - rb_tail rb) count
        in read_loop (skip_piece rb n) (count - n) (dst @ slice (rb_buf rb) (rb_tail rb) n))"
  by pat_completeness auto
termination
  by (relation "measure (\<lambda>(rb, count, dst). count)") auto

declare read_loop.simps [simp del]

text \<open>\<^verbatim>\<open>0\<close> (here no bytes and the buffer unchanged) when there are fewer bytes than asked for.\<close>

definition ringbuf_memmove_from :: "ringbuf \<Rightarrow> nat \<Rightarrow> (u8 list \<times> ringbuf) option" where
  "ringbuf_memmove_from src count =
     (if count > ringbuf_bytes_used src then Some ([], src) else read_loop src count [])"

definition ringbuf_memcpy_from :: "ringbuf \<Rightarrow> nat \<Rightarrow> u8 list option" where
  "ringbuf_memcpy_from src count =
     map_option fst (read_loop src (min count (ringbuf_bytes_used src)) [])"

definition ringbuf_move_char :: "ringbuf \<Rightarrow> (u8 \<times> ringbuf) option" where
  "ringbuf_move_char src =
     (if ringbuf_is_empty src \<or> \<not> rb_tail src < ringbuf_buffer_size src then None
      else Some (rb_buf src ! rb_tail src, skip_piece src 1))"

text \<open>\<^verbatim>\<open>ringbuf_findchr\<close>: the offset of a byte at or after an offset, or the number of bytes used.\<close>

definition memchr :: "u8 list \<Rightarrow> u8 \<Rightarrow> nat option" where
  "memchr bs c = (let i = length (takeWhile (\<lambda>b. b \<noteq> c) bs) in if i < length bs then Some i else None)"

function ringbuf_findchr :: "ringbuf \<Rightarrow> u8 \<Rightarrow> nat \<Rightarrow> nat option" where
  "ringbuf_findchr rb c offset =
     (let bytes_used = ringbuf_bytes_used rb in
      if offset \<ge> bytes_used then Some bytes_used
      else
        let start = (rb_tail rb + offset) mod ringbuf_buffer_size rb in
        if \<not> start < ringbuf_buffer_size rb then None
        else
          let n = min (ringbuf_buffer_size rb - start) (bytes_used - offset)
          in case memchr (slice (rb_buf rb) start n) c of
               Some i \<Rightarrow> Some (offset + i)
             | None \<Rightarrow> ringbuf_findchr rb c (offset + n))"
  by pat_completeness auto
termination
  by (relation "measure (\<lambda>(rb, c, offset). ringbuf_bytes_used rb - offset)") auto

declare ringbuf_findchr.simps [simp del]

text \<open>\<^verbatim>\<open>ringbuf_copy\<close>: pieces that are contiguous in both buffers.\<close>

function copy_loop :: "ringbuf \<Rightarrow> ringbuf \<Rightarrow> nat \<Rightarrow> (ringbuf \<times> ringbuf) option" where
  "copy_loop dst src count =
     (if count = 0 then Some (dst, src)
      else if \<not> rb_tail src < ringbuf_buffer_size src \<or> \<not> rb_head dst < ringbuf_buffer_size dst then None
      else
        let nsrc = min (ringbuf_buffer_size src - rb_tail src) count;
            n = min (ringbuf_buffer_size dst - rb_head dst) nsrc
        in copy_loop (write_piece dst (slice (rb_buf src) (rb_tail src) n)) (skip_piece src n) (count - n))"
  by pat_completeness auto
termination
  by (relation "measure (\<lambda>(dst, src, count). count)") auto

declare copy_loop.simps [simp del]

definition ringbuf_copy :: "ringbuf \<Rightarrow> ringbuf \<Rightarrow> nat \<Rightarrow> (ringbuf \<times> ringbuf) option" where
  "ringbuf_copy dst src count =
     (if count > ringbuf_bytes_used src then Some (dst, src)
      else
        let overflow = count > ringbuf_bytes_free dst
        in map_option (map_prod (fix_tail overflow) id) (copy_loop dst src count))"

section \<open>The bytes held\<close>

definition rb_wf :: "ringbuf \<Rightarrow> bool" where
  "rb_wf rb = (rb_head rb < ringbuf_buffer_size rb \<and> rb_tail rb < ringbuf_buffer_size rb)"

text \<open>The index \<open>j\<close> bytes after the tail and \<open>j\<close> bytes before the head.\<close>

definition fwd :: "nat \<Rightarrow> nat \<Rightarrow> nat \<Rightarrow> nat" where
  "fwd sz t j = (if t + j < sz then t + j else t + j - sz)"

definition behind :: "nat \<Rightarrow> nat \<Rightarrow> nat \<Rightarrow> nat" where
  "behind sz h j = (if j \<le> h then h - j else h + sz - j)"

text \<open>The bytes from the tail to the head, oldest first.\<close>

definition rb_bytes :: "ringbuf \<Rightarrow> u8 list" where
  "rb_bytes rb =
     map (\<lambda>j. rb_buf rb ! fwd (ringbuf_buffer_size rb) (rb_tail rb) j) [0 ..< ringbuf_bytes_used rb]"

lemma length_rb_bytes [simp]: "length (rb_bytes rb) = ringbuf_bytes_used rb"
  by (simp add: rb_bytes_def)

lemma used_cases:
  "rb_wf rb \<Longrightarrow> ringbuf_bytes_used rb =
     (if rb_tail rb \<le> rb_head rb then rb_head rb - rb_tail rb
      else rb_head rb + ringbuf_buffer_size rb - rb_tail rb)"
  by (auto simp: rb_wf_def ringbuf_bytes_used_def ringbuf_bytes_free_def ringbuf_capacity_def)

lemma used_free: "rb_wf rb \<Longrightarrow> ringbuf_bytes_used rb + ringbuf_bytes_free rb = ringbuf_capacity rb"
  by (auto simp: rb_wf_def ringbuf_bytes_used_def ringbuf_bytes_free_def ringbuf_capacity_def)

lemma used_le: "rb_wf rb \<Longrightarrow> ringbuf_bytes_used rb < ringbuf_buffer_size rb"
  by (auto simp: used_cases rb_wf_def)

text \<open>The last \<open>n\<close> bytes written.\<close>

definition last_bytes :: "ringbuf \<Rightarrow> nat \<Rightarrow> u8 list" where
  "last_bytes rb n = map (\<lambda>j. rb_buf rb ! behind (ringbuf_buffer_size rb) (rb_head rb) (n - j)) [0 ..< n]"

lemma length_last_bytes [simp]: "length (last_bytes rb n) = n"
  by (simp add: last_bytes_def)

lemma rb_bytes_last: "rb_wf rb \<Longrightarrow> rb_bytes rb = last_bytes rb (ringbuf_bytes_used rb)"
  unfolding rb_bytes_def last_bytes_def
  by (rule map_cong) (auto simp: used_cases fwd_def behind_def rb_wf_def add.commute split: if_splits)

lemma last_bytes_drop: "m \<le> n \<Longrightarrow> last_bytes rb m = drop (n - m) (last_bytes rb n)"
  by (rule nth_equalityI) (auto simp: last_bytes_def)

text \<open>One byte at the head.\<close>

lemma last_bytes_write1:
  assumes h: "rb_head rb < ringbuf_buffer_size rb" and n: "n < ringbuf_buffer_size rb"
  shows "last_bytes (write_piece rb [b]) (Suc n) = last_bytes rb n @ [b]"
proof (rule nth_equalityI)
  define sz where "sz = ringbuf_buffer_size rb"
  define hd' where "hd' = (if Suc (rb_head rb) = sz then 0 else Suc (rb_head rb))"
  have len: "length (rb_buf rb) = sz" by (simp add: sz_def ringbuf_buffer_size_def)
  have buf: "rb_buf (write_piece rb [b]) = (rb_buf rb)[rb_head rb := b]"
    using h by (simp add: write_piece_def overwrite_def upd_conv_take_nth_drop ringbuf_buffer_size_def)
  have sz': "ringbuf_buffer_size (write_piece rb [b]) = sz" by (simp add: ringbuf_buffer_size_def buf len)
  have hd: "rb_head (write_piece rb [b]) = hd'" by (simp add: write_piece_def wrap_ptr_def hd'_def sz_def)
  fix i assume "i < length (last_bytes (write_piece rb [b]) (Suc n))"
  then have i: "i \<le> n" by simp
  have nth: "last_bytes (write_piece rb [b]) (Suc n) ! i = (rb_buf rb)[rb_head rb := b] ! behind sz hd' (Suc n - i)"
    using i by (simp add: last_bytes_def buf sz' hd del: upt_Suc)
  show "last_bytes (write_piece rb [b]) (Suc n) ! i = (last_bytes rb n @ [b]) ! i"
  proof (cases "i = n")
    case True
    then have "behind sz hd' (Suc n - i) = rb_head rb" using h by (auto simp: behind_def hd'_def sz_def)
    with nth have "last_bytes (write_piece rb [b]) (Suc n) ! i = (rb_buf rb)[rb_head rb := b] ! rb_head rb" by simp
    then show ?thesis using True h by (simp add: nth_append nth_list_update_eq ringbuf_buffer_size_def)
  next
    case False
    then have lt: "i < n" using i by simp
    have "behind sz hd' (Suc n - i) = behind sz (rb_head rb) (n - i)"
      using lt h n by (auto simp: behind_def hd'_def sz_def)
    moreover have "behind sz (rb_head rb) (n - i) \<noteq> rb_head rb"
      using lt h n by (auto simp: behind_def sz_def)
    ultimately show ?thesis using lt unfolding nth by (simp add: nth_append last_bytes_def sz_def)
  qed
qed simp

text \<open>All the bytes of the memory in the order they were written: what a write does to them.\<close>

definition written :: "ringbuf \<Rightarrow> u8 list" where
  "written rb = last_bytes rb (ringbuf_buffer_size rb)"

lemma length_written [simp]: "length (written rb) = ringbuf_buffer_size rb"
  by (simp add: written_def)

lemma rb_bytes_written: "rb_wf rb \<Longrightarrow> rb_bytes rb = drop (ringbuf_buffer_size rb - ringbuf_bytes_used rb) (written rb)"
  by (simp add: rb_bytes_last written_def last_bytes_drop [OF less_imp_le [OF used_le], symmetric])

lemma size_write_piece [simp]:
  "rb_head rb + length bs \<le> ringbuf_buffer_size rb \<Longrightarrow>
   ringbuf_buffer_size (write_piece rb bs) = ringbuf_buffer_size rb"
  by (simp add: write_piece_def ringbuf_buffer_size_def)

lemma tail_write_piece [simp]: "rb_tail (write_piece rb bs) = rb_tail rb"
  by (simp add: write_piece_def)

lemma head_write_piece:
  "rb_head rb + length bs \<le> ringbuf_buffer_size rb \<Longrightarrow> rb_head rb < ringbuf_buffer_size rb \<Longrightarrow>
   rb_head (write_piece rb bs) = (rb_head rb + length bs) mod ringbuf_buffer_size rb"
  by (auto simp: write_piece_def wrap_ptr_def)

lemma written_write1:
  assumes "rb_head rb < ringbuf_buffer_size rb"
  shows "written (write_piece rb [b]) = drop 1 (written rb @ [b])"
proof -
  obtain n where n: "ringbuf_buffer_size rb = Suc n"
    using assms by (cases "ringbuf_buffer_size rb") auto
  have "written (write_piece rb [b]) = last_bytes rb n @ [b]"
    using last_bytes_write1 [OF assms, of n b] assms by (simp add: written_def n)
  also have "last_bytes rb n = drop 1 (written rb)"
    using last_bytes_drop [of n "Suc n" rb] by (simp add: written_def n)
  finally show ?thesis by (simp add: n)
qed

lemma write_piece_snoc:
  "rb_head rb + length (bs @ [b]) \<le> ringbuf_buffer_size rb \<Longrightarrow>
   write_piece rb (bs @ [b]) = write_piece (write_piece rb bs) [b]"
  by (cases rb) (auto simp: write_piece_def wrap_ptr_def ringbuf_buffer_size_def overwrite_def min_def)

lemma written_write_piece:
  assumes "rb_head rb < ringbuf_buffer_size rb" and "rb_head rb + length bs \<le> ringbuf_buffer_size rb"
  shows "written (write_piece rb bs) = drop (length bs) (written rb @ bs)"
  using assms
proof (induction bs rule: rev_induct)
  case Nil
  then have "write_piece rb [] = rb" by (simp add: write_piece_def wrap_ptr_def)
  then show ?case by simp
next
  case (snoc b bs)
  have "rb_head (write_piece rb bs) < ringbuf_buffer_size (write_piece rb bs)"
    using snoc.prems by (auto simp: head_write_piece)
  then have "written (write_piece rb (bs @ [b])) = drop 1 (drop (length bs) (written rb @ bs) @ [b])"
    using snoc by (subst write_piece_snoc) (auto simp: written_write1)
  also have "\<dots> = drop (length (bs @ [b])) (written rb @ bs @ [b])"
    using snoc.prems by (simp add: Suc_diff_Suc not_less)
  finally show ?case .
qed

section \<open>The copying loops\<close>

lemma used_mod:
  "rb_wf rb \<Longrightarrow> ringbuf_bytes_used rb =
     (rb_head rb + ringbuf_buffer_size rb - rb_tail rb) mod ringbuf_buffer_size rb"
  by (auto simp: used_cases rb_wf_def mod_if)

lemma used_le_capacity: "rb_wf rb \<Longrightarrow> ringbuf_bytes_used rb \<le> ringbuf_capacity rb"
  using used_free [of rb] by simp

text \<open>\<open>q\<close> is \<open>rb\<close> after \<open>src\<close> was written at the head, in pieces.\<close>

definition wrote :: "ringbuf \<Rightarrow> u8 list \<Rightarrow> ringbuf \<Rightarrow> bool" where
  "wrote rb src q =
     (ringbuf_buffer_size q = ringbuf_buffer_size rb \<and> rb_tail q = rb_tail rb
      \<and> rb_head q = (rb_head rb + length src) mod ringbuf_buffer_size rb
      \<and> written q = drop (length src) (written rb @ src))"

lemma wrote_Nil: "rb_head rb < ringbuf_buffer_size rb \<Longrightarrow> wrote rb [] rb"
  by (simp add: wrote_def)

lemma wrote_piece:
  "rb_head rb < ringbuf_buffer_size rb \<Longrightarrow> rb_head rb + length bs \<le> ringbuf_buffer_size rb \<Longrightarrow>
   wrote rb bs (write_piece rb bs)"
  by (simp add: wrote_def head_write_piece written_write_piece del: drop_append)

lemma wrote_head: "wrote rb bs q \<Longrightarrow> rb_head rb < ringbuf_buffer_size rb \<Longrightarrow> rb_head q < ringbuf_buffer_size q"
  by (simp add: wrote_def)

lemma drop_drop_append: "k \<le> length xs \<Longrightarrow> drop m (drop k xs @ ys) = drop (k + m) (xs @ ys)"
  by (simp add: add.commute)

lemma wrote_trans:
  assumes "wrote rb xs q" and "wrote q ys r"
  shows "wrote rb (xs @ ys) r"
proof -
  have "drop (length ys) (drop (length xs) (written rb @ xs) @ ys)
      = drop (length xs + length ys) (written rb @ xs @ ys)"
    by (subst drop_drop_append) simp_all
  with assms show ?thesis
    using mod_add_left_eq [of "rb_head rb + length xs" "ringbuf_buffer_size rb" "length ys"]
    by (simp add: wrote_def add.assoc del: drop_append)
qed

lemma memcpy_into_loop_spec:
  "rb_head rb < ringbuf_buffer_size rb \<Longrightarrow> \<exists>rb'. memcpy_into_loop rb src = Some rb' \<and> wrote rb src rb'"
proof (induction rb src rule: memcpy_into_loop.induct)
  case (1 rb src)
  show ?case
  proof (cases "src = []")
    case True
    with 1 show ?thesis by (simp add: memcpy_into_loop.simps wrote_Nil)
  next
    case False
    define n where "n = min (ringbuf_buffer_size rb - rb_head rb) (length src)"
    have w: "wrote rb (take n src) (write_piece rb (take n src))"
      using "1.prems" by (intro wrote_piece) (auto simp: n_def)
    then obtain rb' where rb': "memcpy_into_loop (write_piece rb (take n src)) (drop n src) = Some rb'"
      "wrote (write_piece rb (take n src)) (drop n src) rb'"
      using "1.IH" [OF False _ n_def] "1.prems" by (auto dest: wrote_head)
    with False "1.prems" have "memcpy_into_loop rb src = Some rb'"
      by (subst memcpy_into_loop.simps) (simp add: n_def)
    with wrote_trans [OF w rb'(2)] show ?thesis by simp
  qed
qed

text \<open>Fixing the tail after the write: the oldest bytes are lost when there was no room.\<close>

definition appended :: "ringbuf \<Rightarrow> u8 list \<Rightarrow> ringbuf \<Rightarrow> bool" where
  "appended rb src rb' =
     (rb_wf rb' \<and> ringbuf_capacity rb' = ringbuf_capacity rb
      \<and> rb_bytes rb' = drop (length (rb_bytes rb) + length src - ringbuf_capacity rb) (rb_bytes rb @ src))"

lemma wrote_used:
  assumes wf: "rb_wf rb" and q: "wrote rb src q" and wf': "rb_wf q"
    and le: "ringbuf_bytes_used rb + length src < ringbuf_buffer_size rb"
  shows "ringbuf_bytes_used q = ringbuf_bytes_used rb + length src"
proof -
  define sz where "sz = ringbuf_buffer_size rb"
  have lt: "rb_head rb < sz" "rb_tail rb < sz" using wf by (auto simp: rb_wf_def sz_def)
  have "ringbuf_bytes_used q = ((rb_head rb + length src) mod sz + (sz - rb_tail rb)) mod sz"
    using q lt by (simp add: used_mod [OF wf'] wrote_def flip: sz_def)
  also have "\<dots> = (rb_head rb + (sz - rb_tail rb) + length src) mod sz"
    using mod_add_left_eq [of "rb_head rb + length src" sz "sz - rb_tail rb"] by (simp add: add_ac)
  also have "\<dots> = ((rb_head rb + (sz - rb_tail rb)) mod sz + length src) mod sz"
    by (simp add: mod_add_left_eq)
  also have "(rb_head rb + (sz - rb_tail rb)) mod sz = ringbuf_bytes_used rb"
    using lt by (simp add: used_mod [OF wf] sz_def)
  finally show ?thesis using le by (simp add: sz_def)
qed

lemma appended_fix_tail:
  assumes wf: "rb_wf rb" and q: "wrote rb src q"
  shows "appended rb src (fix_tail (length src > ringbuf_bytes_free rb) q)"
proof -
  define sz where "sz = ringbuf_buffer_size rb"
  define rb' where "rb' = fix_tail (length src > ringbuf_bytes_free rb) q"
  have lt: "rb_head rb < sz" "rb_tail rb < sz" using wf by (auto simp: rb_wf_def sz_def)
  have sz': "ringbuf_buffer_size rb' = sz" and hd': "rb_head rb' = (rb_head rb + length src) mod sz"
    and wr': "written rb' = drop (length src) (written rb @ src)"
    using q by (auto simp: rb'_def fix_tail_def written_def last_bytes_def ringbuf_buffer_size_def wrote_def sz_def)
  have cap: "ringbuf_capacity rb = sz - 1" by (simp add: ringbuf_capacity_def sz_def)
  have wf': "rb_wf rb'"
    using lt q hd' sz' unfolding rb_wf_def
    by (simp add: rb'_def fix_tail_def ringbuf_nextp_def wrote_def sz_def)
  have used: "ringbuf_bytes_used rb' = min (ringbuf_bytes_used rb + length src) (sz - 1)"
  proof (cases "length src > ringbuf_bytes_free rb")
    case True
    then have "rb_tail rb' = Suc (rb_head rb') mod sz"
      using q by (simp add: rb'_def fix_tail_def ringbuf_nextp_def wrote_def sz_def)
    then have "ringbuf_bytes_used rb' = sz - 1"
      using lt hd' sz' by (auto simp: used_cases [OF wf'] mod_Suc)
    then show ?thesis using True used_free [OF wf] by (simp add: cap)
  next
    case False
    then have "rb' = q" by (simp add: rb'_def fix_tail_def)
    then show ?thesis
      using wrote_used [OF wf q] wf' False used_free [OF wf] lt by (simp add: cap flip: sz_def)
  qed
  have "rb_bytes rb' = drop (sz - ringbuf_bytes_used rb' + length src) (written rb @ src)"
    by (simp add: rb_bytes_written [OF wf'] sz' wr' add.commute del: drop_append)
  also have "\<dots> = drop (ringbuf_bytes_used rb + length src - (sz - 1)) (drop (sz - ringbuf_bytes_used rb) (written rb @ src))"
    using lt used_le [OF wf] by (auto simp: used sz_def min_def simp del: drop_append)
  also have "drop (sz - ringbuf_bytes_used rb) (written rb @ src) = rb_bytes rb @ src"
    using lt by (simp add: rb_bytes_written [OF wf] sz_def)
  finally show ?thesis
    using wf' sz' cap by (simp add: appended_def ringbuf_capacity_def flip: rb'_def)
qed

lemma memcpy_into_list: "rb_wf rb \<Longrightarrow> \<exists>rb'. ringbuf_memcpy_into rb src = Some rb' \<and> appended rb src rb'"
  using memcpy_into_loop_spec [of rb src] appended_fix_tail [of rb src]
  by (auto simp: ringbuf_memcpy_into_def rb_wf_def)

text \<open>Taking bytes from the front.\<close>

definition taken :: "ringbuf \<Rightarrow> nat \<Rightarrow> ringbuf \<Rightarrow> bool" where
  "taken rb n rb' = (rb_wf rb' \<and> ringbuf_capacity rb' = ringbuf_capacity rb \<and> rb_bytes rb' = drop n (rb_bytes rb))"

lemma taken_used: "taken rb n q \<Longrightarrow> ringbuf_bytes_used q = ringbuf_bytes_used rb - n"
  using length_rb_bytes [of q] by (simp add: taken_def del: length_rb_bytes) simp

lemma taken_trans: "taken rb n q \<Longrightarrow> taken q m r \<Longrightarrow> taken rb (n + m) r"
  by (simp add: taken_def add.commute)

lemma skip_piece_taken:
  assumes wf: "rb_wf rb" and n: "n \<le> ringbuf_bytes_used rb" "rb_tail rb + n \<le> ringbuf_buffer_size rb"
  shows "taken rb n (skip_piece rb n)" and "slice (rb_buf rb) (rb_tail rb) n = take n (rb_bytes rb)"
proof -
  define w where "w = skip_piece rb n"
  have sz: "ringbuf_buffer_size w = ringbuf_buffer_size rb" "rb_head w = rb_head rb" "rb_buf w = rb_buf rb"
    by (simp_all add: w_def skip_piece_def ringbuf_buffer_size_def)
  have lt: "rb_head rb < ringbuf_buffer_size rb" "rb_tail rb < ringbuf_buffer_size rb"
    using wf by (auto simp: rb_wf_def)
  have wf': "rb_wf w"
    using lt n by (auto simp: rb_wf_def sz) (auto simp: w_def skip_piece_def wrap_ptr_def)
  have used: "ringbuf_bytes_used w = ringbuf_bytes_used rb - n"
    using n lt by (auto simp: used_cases [OF wf'] used_cases [OF wf] sz)
      (auto simp: w_def skip_piece_def wrap_ptr_def split: if_splits)
  have fwd: "fwd (ringbuf_buffer_size rb) (rb_tail w) i = fwd (ringbuf_buffer_size rb) (rb_tail rb) (n + i)"
    if "i < ringbuf_bytes_used rb" for i
    using n lt used_le [OF wf] that by (auto simp: fwd_def w_def skip_piece_def wrap_ptr_def)
  have "rb_bytes w = drop n (rb_bytes rb)"
    using n fwd by (intro nth_equalityI) (simp_all add: used rb_bytes_def sz less_diff_conv add.commute)
  then show "taken rb n (skip_piece rb n)"
    using wf' sz by (simp add: taken_def ringbuf_capacity_def w_def)
  show "slice (rb_buf rb) (rb_tail rb) n = take n (rb_bytes rb)"
    using n lt by (intro nth_equalityI) (auto simp: rb_bytes_def fwd_def slice_def ringbuf_buffer_size_def)
qed

lemma read_loop_spec:
  "rb_wf rb \<Longrightarrow> count \<le> ringbuf_bytes_used rb \<Longrightarrow>
   \<exists>rb'. read_loop rb count dst = Some (dst @ take count (rb_bytes rb), rb') \<and> taken rb count rb'"
proof (induction rb count dst rule: read_loop.induct)
  case (1 rb count dst)
  show ?case
  proof (cases "count = 0")
    case True
    with 1 show ?thesis by (simp add: read_loop.simps taken_def)
  next
    case False
    define n where "n = min (ringbuf_buffer_size rb - rb_tail rb) count"
    have lt: "rb_tail rb < ringbuf_buffer_size rb" using "1.prems" by (simp add: rb_wf_def)
    have n: "n \<le> count" "n \<le> ringbuf_bytes_used rb" "rb_tail rb + n \<le> ringbuf_buffer_size rb"
      using lt "1.prems" by (auto simp: n_def)
    note sk = skip_piece_taken [OF "1.prems"(1) n(2,3)]
    have b: "rb_bytes (skip_piece rb n) = drop n (rb_bytes rb)" and wf: "rb_wf (skip_piece rb n)"
      using sk(1) by (simp_all add: taken_def)
    obtain rb' where rb': "read_loop (skip_piece rb n) (count - n) (dst @ take n (rb_bytes rb))
        = Some ((dst @ take n (rb_bytes rb)) @ take (count - n) (drop n (rb_bytes rb)), rb')"
      "taken (skip_piece rb n) (count - n) rb'"
      using "1.IH" [OF False _ n_def] "1.prems" lt wf taken_used [OF sk(1)] diff_le_mono [OF "1.prems"(2), of n]
      by (auto simp: sk(2) b)
    have "take n (rb_bytes rb) @ take (count - n) (drop n (rb_bytes rb)) = take count (rb_bytes rb)"
      using n take_add [of n "count - n" "rb_bytes rb"] by simp
    moreover have "read_loop rb count dst
        = read_loop (skip_piece rb n) (count - n) (dst @ take n (rb_bytes rb))"
      using False lt by (subst read_loop.simps) (simp add: n_def [symmetric] sk(2))
    ultimately show ?thesis using rb' n taken_trans [OF sk(1) rb'(2)] by simp
  qed
qed

lemma memmove_from_list:
  "rb_wf rb \<Longrightarrow> count \<le> ringbuf_bytes_used rb \<Longrightarrow>
   \<exists>rb'. ringbuf_memmove_from rb count = Some (take count (rb_bytes rb), rb') \<and> taken rb count rb'"
  using read_loop_spec [of rb count "[]"] by (simp add: ringbuf_memmove_from_def)

lemma memcpy_from_list: "rb_wf rb \<Longrightarrow> ringbuf_memcpy_from rb count = Some (take count (rb_bytes rb))"
  using read_loop_spec [of rb "min count (ringbuf_bytes_used rb)" "[]"]
  by (auto simp: ringbuf_memcpy_from_def min_def)

lemma is_empty_iff: "rb_wf rb \<Longrightarrow> ringbuf_is_empty rb \<longleftrightarrow> rb_bytes rb = []"
  using used_free [of rb] by (auto simp: ringbuf_is_empty_def rb_bytes_def)

lemma move_char_list:
  assumes "rb_wf rb" and "rb_bytes rb = b # bs"
  shows "\<exists>rb'. ringbuf_move_char rb = Some (b, rb') \<and> taken rb 1 rb'"
proof -
  have lt: "rb_tail rb < ringbuf_buffer_size rb" using assms by (simp add: rb_wf_def)
  have one: "1 \<le> ringbuf_bytes_used rb" using assms(2) length_rb_bytes [of rb] by simp
  have "rb_buf rb ! rb_tail rb = b"
    using skip_piece_taken(2) [OF assms(1) one] lt assms(2) nth_slice [of "rb_tail rb" 1 "rb_buf rb" 0]
    by (simp add: ringbuf_buffer_size_def)
  with assms lt show ?thesis
    using skip_piece_taken(1) [OF assms(1) one] by (simp add: ringbuf_move_char_def is_empty_iff)
qed

text \<open>Copying between two buffers.\<close>

lemma copy_loop_spec:
  "rb_wf src \<Longrightarrow> rb_head dst < ringbuf_buffer_size dst \<Longrightarrow> count \<le> ringbuf_bytes_used src \<Longrightarrow>
   \<exists>dst' src'. copy_loop dst src count = Some (dst', src')
     \<and> wrote dst (take count (rb_bytes src)) dst' \<and> taken src count src'"
proof (induction dst src count rule: copy_loop.induct)
  case (1 dst src count)
  show ?case
  proof (cases "count = 0")
    case True
    with 1 show ?thesis by (simp add: copy_loop.simps taken_def wrote_Nil)
  next
    case False
    define nsrc where "nsrc = min (ringbuf_buffer_size src - rb_tail src) count"
    define n where "n = min (ringbuf_buffer_size dst - rb_head dst) nsrc"
    define d where "d = write_piece dst (slice (rb_buf src) (rb_tail src) n)"
    have lt: "rb_tail src < ringbuf_buffer_size src" using "1.prems" by (simp add: rb_wf_def)
    have n: "n \<le> count" "n \<le> ringbuf_bytes_used src" "rb_tail src + n \<le> ringbuf_buffer_size src"
      "rb_head dst + n \<le> ringbuf_buffer_size dst"
      using lt "1.prems" by (auto simp: n_def nsrc_def)
    note sk = skip_piece_taken [OF "1.prems"(1) n(2,3)]
    have w: "wrote dst (take n (rb_bytes src)) d"
      using "1.prems" n unfolding d_def sk(2) by (intro wrote_piece) auto
    have b: "rb_bytes (skip_piece src n) = drop n (rb_bytes src)" and wf: "rb_wf (skip_piece src n)"
      using sk(1) by (simp_all add: taken_def)
    obtain dst' src' where r: "copy_loop d (skip_piece src n) (count - n) = Some (dst', src')"
      "wrote d (take (count - n) (drop n (rb_bytes src))) dst'" "taken (skip_piece src n) (count - n) src'"
      using "1.IH" [OF False _ nsrc_def n_def] "1.prems" lt wf taken_used [OF sk(1)]
        diff_le_mono [OF "1.prems"(3), of n] wrote_head [OF w] by (auto simp: b d_def)
    have "take n (rb_bytes src) @ take (count - n) (drop n (rb_bytes src)) = take count (rb_bytes src)"
      using n take_add [of n "count - n" "rb_bytes src"] by simp
    moreover have "copy_loop dst src count = copy_loop d (skip_piece src n) (count - n)"
      using False lt "1.prems" by (subst copy_loop.simps) (simp add: Let_def d_def flip: nsrc_def n_def)
    ultimately show ?thesis using r n taken_trans [OF sk(1) r(3)] wrote_trans [OF w r(2)] by simp
  qed
qed

lemma copy_list:
  "rb_wf src \<Longrightarrow> rb_wf dst \<Longrightarrow> count \<le> ringbuf_bytes_used src \<Longrightarrow>
   \<exists>dst' src'. ringbuf_copy dst src count = Some (dst', src')
     \<and> appended dst (take count (rb_bytes src)) dst' \<and> taken src count src'"
  using copy_loop_spec [of src dst count] appended_fix_tail [of dst "take count (rb_bytes src)"]
  by (auto simp: ringbuf_copy_def rb_wf_def)

text \<open>Searching: the first occurrence at or after the offset, or the number of bytes.\<close>

lemma memchr_eq:
  "memchr bs c = (let i = length (takeWhile (\<lambda>b. b \<noteq> c) bs) in if i = length bs then None else Some i)"
  using length_takeWhile_le [of "\<lambda>b. b \<noteq> c" bs] by (auto simp: memchr_def Let_def)

lemma takeWhile_drop_split:
  "takeWhile P (drop k xs) =
     (if takeWhile P (take n (drop k xs)) = take n (drop k xs)
      then take n (drop k xs) @ takeWhile P (drop (k + n) xs) else takeWhile P (take n (drop k xs)))"
proof -
  have "drop k xs = take n (drop k xs) @ drop (k + n) xs"
    using append_take_drop_id [of n "drop k xs"] by (simp add: add.commute)
  then have "takeWhile P (drop k xs) = takeWhile P (take n (drop k xs) @ drop (k + n) xs)" by simp
  then show ?thesis unfolding takeWhile_append takeWhile_eq_all_conv .
qed

lemma findchr_list:
  "rb_wf rb \<Longrightarrow> offset \<le> ringbuf_bytes_used rb \<Longrightarrow>
   ringbuf_findchr rb c offset = Some (offset + length (takeWhile (\<lambda>b. b \<noteq> c) (drop offset (rb_bytes rb))))"
proof (induction rb c offset rule: ringbuf_findchr.induct)
  case (1 rb c offset)
  define used where "used = ringbuf_bytes_used rb"
  show ?case
  proof (cases "offset \<ge> used")
    case True
    with 1 show ?thesis by (subst ringbuf_findchr.simps) (simp add: used_def)
  next
    case False
    define sz where "sz = ringbuf_buffer_size rb"
    define start where "start = (rb_tail rb + offset) mod sz"
    define n where "n = min (sz - start) (used - offset)"
    have wf: "rb_wf rb" by (rule "1.prems")
    have lt: "rb_tail rb < sz" "used < sz" "start < sz"
      using wf used_le [OF wf] by (auto simp: rb_wf_def sz_def used_def start_def intro: mod_less_divisor)
    have n: "start + n \<le> sz" "offset + n \<le> used" using lt False by (auto simp: n_def)
    have st: "start = fwd sz (rb_tail rb) offset"
      using lt False by (auto simp: start_def fwd_def mod_if)
    have sl: "slice (rb_buf rb) start n = take n (drop offset (rb_bytes rb))"
      using n lt False by (intro nth_equalityI)
        (auto simp: rb_bytes_def slice_def used_def sz_def ringbuf_buffer_size_def st fwd_def add.assoc split: if_splits)
    have len: "length (take n (drop offset (rb_bytes rb))) = n" using n by (simp add: used_def)
    have eq: "ringbuf_findchr rb c offset =
      (case memchr (take n (drop offset (rb_bytes rb))) c of Some i \<Rightarrow> Some (offset + i)
       | None \<Rightarrow> ringbuf_findchr rb c (offset + n))"
      using False lt by (subst ringbuf_findchr.simps) (simp add: Let_def flip: used_def sz_def start_def n_def sl)
    let ?p = "\<lambda>b. b \<noteq> c"
    let ?piece = "take n (drop offset (rb_bytes rb))"
    show ?thesis
    proof (cases "takeWhile ?p ?piece = ?piece")
      case all: True
      have "ringbuf_findchr rb c (offset + n)
          = Some (offset + n + length (takeWhile ?p (drop (offset + n) (rb_bytes rb))))"
        using "1.IH" [OF refl _ refl _ refl] False lt n wf all len
        by (simp add: memchr_eq sl flip: used_def sz_def start_def n_def)
      then show ?thesis
        unfolding eq memchr_eq Let_def all takeWhile_drop_split [of ?p offset "rb_bytes rb" n] if_True len
        using len by simp
    next
      case part: False
      then have "length (takeWhile ?p ?piece) \<noteq> length ?piece"
        by (metis takeWhile_eq_take take_all order_refl)
      then show ?thesis
        unfolding eq memchr_eq Let_def takeWhile_drop_split [of ?p offset "rb_bytes rb" n] if_not_P [OF part]
        by simp
    qed
  qed
qed

section \<open>The queue of bytes\<close>

text \<open>
  What the users of a bounded buffer rely on: it holds at most \<open>capacity\<close> elements, and appending a
  piece loses the oldest ones. \<open>fits\<close> is the condition on a piece, \<open>piece\<close> its elements.
\<close>

locale bounded_queue =
  fixes ok :: "'q \<Rightarrow> bool" and content :: "'q \<Rightarrow> 'a list" and capacity :: "'q \<Rightarrow> nat"
    and fits :: "'q \<Rightarrow> 'p \<Rightarrow> bool" and piece :: "'p \<Rightarrow> 'a list" and put :: "'q \<Rightarrow> 'p \<Rightarrow> 'q option"
  assumes content_le: "ok q \<Longrightarrow> length (content q) \<le> capacity q"
    and put_law: "ok q \<Longrightarrow> fits q p \<Longrightarrow> \<exists>q'. put q p = Some q' \<and> ok q' \<and> capacity q' = capacity q \<and> fits q' = fits q
      \<and> content q' = drop (length (content q) + length (piece p) - capacity q) (content q @ piece p)"
begin

text \<open>Pieces appended one after the other.\<close>

primrec puts :: "'q \<Rightarrow> 'p list \<Rightarrow> 'q option" where
  "puts q [] = Some q"
| "puts q (p # ps) = Option.bind (put q p) (\<lambda>q. puts q ps)"

definition stream :: "'p list \<Rightarrow> 'a list" where
  "stream ps = concat (map piece ps)"

text \<open>The buffer holds the last \<open>capacity\<close> elements of all that was ever appended.\<close>

lemma puts_content:
  "ok q \<Longrightarrow> list_all (fits q) ps \<Longrightarrow> \<exists>q'. puts q ps = Some q' \<and> ok q' \<and> capacity q' = capacity q
     \<and> content q' = drop (length (content q) + length (stream ps) - capacity q) (content q @ stream ps)"
proof (induction ps arbitrary: q)
  case Nil
  then show ?case using content_le by (simp add: stream_def)
next
  case (Cons p ps)
  obtain q1 where q1: "put q p = Some q1" "ok q1" "capacity q1 = capacity q" "fits q1 = fits q"
    "content q1 = drop (length (content q) + length (piece p) - capacity q) (content q @ piece p)"
    using put_law [OF Cons.prems(1), of p] Cons.prems(2) by auto
  obtain q' where q': "puts q1 ps = Some q'" "ok q'" "capacity q' = capacity q1"
    "content q' = drop (length (content q1) + length (stream ps) - capacity q1) (content q1 @ stream ps)"
    using Cons.IH [OF q1(2)] Cons.prems(2) q1(4) by auto
  define k where "k = length (content q) + length (piece p) - capacity q"
  have "k \<le> length (content q @ piece p)" by (simp add: k_def)
  then have "drop m (drop k (content q @ piece p) @ stream ps) = drop (k + m) ((content q @ piece p) @ stream ps)" for m
    by (rule drop_drop_append)
  then have "content q' = drop (k + (length (content q1) + length (stream ps) - capacity q1)) ((content q @ piece p) @ stream ps)"
    unfolding q' q1(5) k_def [symmetric] .
  also have "k + (length (content q1) + length (stream ps) - capacity q1)
      = length (content q) + length (stream (p # ps)) - capacity q"
    using content_le [OF Cons.prems(1)] by (simp add: q1(3,5) k_def stream_def)
  finally show ?case using q1 q' by (simp add: stream_def)
qed

lemma puts_room:
  assumes "ok q" and "list_all (fits q) ps" and "content q = []" and "length (stream ps) \<le> capacity q"
  shows "\<exists>q'. puts q ps = Some q' \<and> content q' = stream ps"
  using puts_content [OF assms(1,2)] assms(3,4) by auto

end

text \<open>Taking from the front as well.\<close>

locale fifo = bounded_queue ok content capacity fits piece put
  for ok :: "'q \<Rightarrow> bool" and content :: "'q \<Rightarrow> 'a list" and capacity :: "'q \<Rightarrow> nat"
    and fits :: "'q \<Rightarrow> 'p \<Rightarrow> bool" and piece :: "'p \<Rightarrow> 'a list" and put :: "'q \<Rightarrow> 'p \<Rightarrow> 'q option" +
  fixes get :: "'q \<Rightarrow> nat \<Rightarrow> ('a list \<times> 'q) option"
  assumes get_law: "ok q \<Longrightarrow> n \<le> length (content q) \<Longrightarrow> \<exists>q'. get q n = Some (take n (content q), q') \<and> ok q'
      \<and> capacity q' = capacity q \<and> content q' = drop n (content q)"
begin

lemma puts_get:
  assumes "ok q" and "list_all (fits q) ps" and "content q = []" and "length (stream ps) \<le> capacity q"
  shows "\<exists>q1 q2. puts q ps = Some q1 \<and> get q1 (length (stream ps)) = Some (stream ps, q2) \<and> content q2 = []"
proof -
  obtain q1 where "puts q ps = Some q1" "ok q1" "content q1 = stream ps"
    using puts_content [OF assms(1,2)] assms(3,4) by auto
  with get_law [of q1 "length (stream ps)"] show ?thesis by auto
qed

end

interpretation rq: fifo rb_wf rb_bytes ringbuf_capacity "\<lambda>q p. True" "\<lambda>p. p" ringbuf_memcpy_into ringbuf_memmove_from
proof
  fix q bs n
  assume wf: "rb_wf q"
  show "length (rb_bytes q) \<le> ringbuf_capacity q" using used_le_capacity [OF wf] by simp
  show "\<exists>q'. ringbuf_memcpy_into q bs = Some q' \<and> rb_wf q' \<and> ringbuf_capacity q' = ringbuf_capacity q
      \<and> (\<lambda>p::u8 list. True) = (\<lambda>p. True)
      \<and> rb_bytes q' = drop (length (rb_bytes q) + length bs - ringbuf_capacity q) (rb_bytes q @ bs)"
    using memcpy_into_list [OF wf, of bs] by (auto simp: appended_def)
  show "\<exists>q'. ringbuf_memmove_from q n = Some (take n (rb_bytes q), q') \<and> rb_wf q'
      \<and> ringbuf_capacity q' = ringbuf_capacity q \<and> rb_bytes q' = drop n (rb_bytes q)"
    if "n \<le> length (rb_bytes q)"
    using memmove_from_list [OF wf, of n] that by (auto simp: taken_def)
qed

lemma ringbuf_new_wf: "rb_wf (ringbuf_new n)" "rb_bytes (ringbuf_new n) = []" "ringbuf_capacity (ringbuf_new n) = n"
  by (simp_all add: ringbuf_new_def ringbuf_reset_def rb_wf_def ringbuf_capacity_def ringbuf_buffer_size_def
      rb_bytes_def ringbuf_bytes_used_def ringbuf_bytes_free_def)

lemma ringbuf_reset_wf:
  "rb_wf rb \<Longrightarrow> rb_wf (ringbuf_reset rb)"
  "rb_wf rb \<Longrightarrow> rb_bytes (ringbuf_reset rb) = []"
  by (auto simp: ringbuf_reset_def rb_wf_def ringbuf_capacity_def ringbuf_buffer_size_def
      rb_bytes_def ringbuf_bytes_used_def ringbuf_bytes_free_def)

text \<open>
  C28: A ring buffer of capacity n that was written any pieces holds the last n bytes of their
  concatenation.
\<close>

theorem ringbuf_keeps_last_bytes:
  "\<exists>rb. rq.puts (ringbuf_new n) bss = Some rb \<and> rb_wf rb
     \<and> rb_bytes rb = drop (length (concat bss) - n) (concat bss)"
  using rq.puts_content [OF ringbuf_new_wf(1), of bss n] by (auto simp: ringbuf_new_wf rq.stream_def list_all_iff)

theorem ringbuf_copy_spec:
  assumes "rb_wf src" and "rb_wf dst" and "count \<le> ringbuf_bytes_used src"
  shows "\<exists>dst' src'. ringbuf_copy dst src count = Some (dst', src') \<and> rb_wf dst' \<and> rb_wf src'
    \<and> rb_bytes src' = drop count (rb_bytes src)
    \<and> rb_bytes dst' = drop (length (rb_bytes dst) + count - ringbuf_capacity dst)
        (rb_bytes dst @ take count (rb_bytes src))"
  using copy_list [OF assms] assms(3) by (auto simp: appended_def taken_def min_def)

text \<open>A full buffer and one whose contents wrap around the end of the memory.\<close>

theorem ringbuf_copy_spec_witness:
  "\<exists>dst' src'. ringbuf_copy \<lparr>rb_buf = [1, 2, 3], rb_head = 1, rb_tail = 2\<rparr>
     \<lparr>rb_buf = [4, 5, 6, 7], rb_head = 1, rb_tail = 2\<rparr> 3 = Some (dst', src') \<and> rb_wf dst' \<and> rb_wf src'
     \<and> rb_bytes src' = [] \<and> rb_bytes dst' = [7, 4]"
  using ringbuf_copy_spec [of "\<lparr>rb_buf = [4, 5, 6, 7], rb_head = 1, rb_tail = 2\<rparr>"
      "\<lparr>rb_buf = [1, 2, 3], rb_head = 1, rb_tail = 2\<rparr>" 3]
  by (simp add: rb_wf_def ringbuf_bytes_used_def ringbuf_bytes_free_def ringbuf_capacity_def
      ringbuf_buffer_size_def rb_bytes_def fwd_def eval_nat_numeral upt_rec)

end
