(* ===== verification/Wcswidth.thy ===== *)
theory Wcswidth
  imports Unicode
begin

text \<open>
  The width of a text with escape codes, \<^verbatim>\<open>smelly/wcswidth.c\<close>: a state machine that skips escape codes
  and corrects the width of emoji when a variation selector follows. The widths are \<open>int\<close>, the sum
  of the C code is a \<open>size_t\<close>; that the sum never falls below zero is shown.
\<close>

datatype wcs_parser_state = WCS_NORMAL | IN_ESC | IN_CSI | FLAG_PAIR_STARTED | IN_ST_TERMINATED

record wcs_state =
  wcs_prev_ch :: char_type
  wcs_prev_width :: int
  wcs_parser_state :: wcs_parser_state

definition initialize_wcs_state :: wcs_state where
  "initialize_wcs_state = \<lparr>wcs_prev_ch = 0, wcs_prev_width = 0, wcs_parser_state = WCS_NORMAL\<rparr>"

definition is_flag_pair :: "char_type \<Rightarrow> char_type \<Rightarrow> bool" where
  "is_flag_pair a b = (is_flag_codepoint a \<and> is_flag_codepoint b)"

text \<open>The case \<^verbatim>\<open>NORMAL\<close>: the width added and the state, with \<^verbatim>\<open>prev_ch\<close> still to be set.\<close>

definition wcswidth_normal :: "wcs_state \<Rightarrow> char_type \<Rightarrow> int \<times> wcs_state" where
  "wcswidth_normal s c =
     (if c = 0x1b then (0, s\<lparr>wcs_prev_width := 0, wcs_parser_state := IN_ESC\<rparr>)
      else if c = 0xfe0f then
        (if is_emoji_presentation_base (wcs_prev_ch s) \<and> wcs_prev_width s = 1 then (1, s\<lparr>wcs_prev_width := 2\<rparr>)
         else (0, s\<lparr>wcs_prev_width := 0\<rparr>))
      else if c = 0xfe0e then
        (if is_emoji_presentation_base (wcs_prev_ch s) \<and> wcs_prev_width s = 2 then (-1, s\<lparr>wcs_prev_width := 1\<rparr>)
         else (0, s\<lparr>wcs_prev_width := 0\<rparr>))
      else
        (let w = wcwidth_std c;
             pw = (if w = -1 \<or> w = 0 then 0 else if w = 2 then 2 else 1)
         in (pw, s\<lparr>wcs_prev_width := pw, wcs_parser_state :=
               (if is_flag_codepoint c then FLAG_PAIR_STARTED else wcs_parser_state s)\<rparr>)))"

text \<open>The characters of two character escape codes.\<close>

definition is_esc_pair_char :: "char_type \<Rightarrow> bool" where
  "is_esc_pair_char c =
     (c \<in> {0x44, 0x45, 0x48, 0x4d, 0x4e, 0x4f, 0x5a, 0x36, 0x37, 0x38, 0x39, 0x3d, 0x3e, 0x46,
           0x63, 0x6c, 0x6d, 0x6e, 0x6f, 0x7c, 0x7d, 0x7e})"

text \<open>In the last case of \<^verbatim>\<open>IN_ESC\<close> the character is looked at again in the state \<^verbatim>\<open>NORMAL\<close>.\<close>

definition wcswidth_step :: "wcs_state \<Rightarrow> char_type \<Rightarrow> int \<times> wcs_state" where
  "wcswidth_step s c =
     (let (w, s) =
       (case wcs_parser_state s of
          IN_CSI \<Rightarrow> (0, s\<lparr>wcs_prev_width := 0,
            wcs_parser_state := (if 0x40 \<le> c \<and> c \<le> 0x7e then WCS_NORMAL else IN_CSI)\<rparr>)
        | IN_ST_TERMINATED \<Rightarrow> (0, s\<lparr>wcs_prev_width := 0,
            wcs_parser_state := (if c = 0x9c \<or> (c = 0x5c \<and> wcs_prev_ch s = 0x1b) then WCS_NORMAL else IN_ST_TERMINATED)\<rparr>)
        | FLAG_PAIR_STARTED \<Rightarrow>
            (let s = s\<lparr>wcs_parser_state := WCS_NORMAL\<rparr>
             in if is_flag_pair (wcs_prev_ch s) c then (0, s) else wcswidth_normal s c)
        | WCS_NORMAL \<Rightarrow> wcswidth_normal s c
        | IN_ESC \<Rightarrow>
            (if c = 0x5b then (0, s\<lparr>wcs_parser_state := IN_CSI\<rparr>)
             else if c \<in> {0x50, 0x5d, 0x58, 0x5e, 0x5f} then (0, s\<lparr>wcs_parser_state := IN_ST_TERMINATED\<rparr>)
             else if is_esc_pair_char c then (0, s)
             else wcswidth_normal (s\<lparr>wcs_prev_ch := 0x1b, wcs_prev_width := 0, wcs_parser_state := WCS_NORMAL\<rparr>) c))
      in (w, s\<lparr>wcs_prev_ch := c\<rparr>))"

fun wcswidth_loop :: "char_type list \<Rightarrow> wcs_state \<Rightarrow> int \<Rightarrow> int \<times> wcs_state" where
  "wcswidth_loop [] s ans = (ans, s)"
| "wcswidth_loop (c # cs) s ans = (case wcswidth_step s c of (w, s) \<Rightarrow> wcswidth_loop cs s (ans + w))"

text \<open>\<^verbatim>\<open>wcswidth_string\<close> and the Python function \<^verbatim>\<open>wcswidth\<close>.\<close>

definition wcswidth_string :: "char_type list \<Rightarrow> int" where
  "wcswidth_string cs = fst (wcswidth_loop cs initialize_wcs_state 0)"

text \<open>The width of the last character is part of the sum.\<close>

definition wcs_inv :: "int \<Rightarrow> wcs_state \<Rightarrow> bool" where
  "wcs_inv ans s = (0 \<le> wcs_prev_width s \<and> wcs_prev_width s \<le> 2 \<and> wcs_prev_width s \<le> ans)"

lemma wcs_inv_normal:
  "wcs_inv ans s \<Longrightarrow> wcswidth_normal s c = (w, s') \<Longrightarrow> wcs_inv (ans + w) s'"
  by (auto simp: wcswidth_normal_def wcs_inv_def Let_def split: if_splits)

lemma wcs_inv_step:
  assumes "wcs_inv ans s" and "wcswidth_step s c = (w, s')"
  shows "wcs_inv (ans + w) s'"
proof -
  have n: "wcs_inv (ans + w) (s'\<lparr>wcs_prev_ch := c\<rparr>)"
    if "wcs_inv ans t" "wcswidth_normal t c = (w, s')" for t w s'
    using wcs_inv_normal [OF that] by (simp add: wcs_inv_def)
  show ?thesis
    using assms n [of "s"] n [of "s\<lparr>wcs_parser_state := WCS_NORMAL\<rparr>"]
      n [of "s\<lparr>wcs_prev_ch := 0x1b, wcs_prev_width := 0, wcs_parser_state := WCS_NORMAL\<rparr>"]
    by (auto simp: wcswidth_step_def wcs_inv_def Let_def split: wcs_parser_state.splits prod.splits if_splits)
qed

lemma wcs_inv_loop: "wcs_inv ans s \<Longrightarrow> wcs_inv (fst (wcswidth_loop cs s ans)) (snd (wcswidth_loop cs s ans))"
  by (induction cs s ans rule: wcswidth_loop.induct) (auto split: prod.splits dest: wcs_inv_step)

lemma wcswidth_normal_le: "fst (wcswidth_normal s c) \<le> 2"
  unfolding wcswidth_normal_def Let_def by simp

lemma wcswidth_step_le: "fst (wcswidth_step s c) \<le> 2"
  using wcswidth_normal_le
  by (cases "wcs_parser_state s") (simp_all add: wcswidth_step_def Let_def case_prod_beta)

theorem wcswidth_string_nonneg: "0 \<le> wcswidth_string cs \<and> wcswidth_string cs \<le> 2 * int (length cs)"
proof -
  have "fst (wcswidth_loop cs s ans) \<le> ans + 2 * int (length cs)" for s ans
  proof (induction cs s ans rule: wcswidth_loop.induct)
    case (2 c cs s ans)
    obtain w s' where e: "wcswidth_step s c = (w, s')" by fastforce
    show ?case using "2.IH" [OF e [symmetric]] wcswidth_step_le [of s c] by (simp add: e)
  qed simp
  from this [of initialize_wcs_state 0] show ?thesis
    using wcs_inv_loop [of 0 initialize_wcs_state cs]
    by (auto simp: wcs_inv_def wcswidth_string_def initialize_wcs_state_def)
qed

text \<open>The sum is only added to.\<close>

lemma wcswidth_loop_shift:
  "wcswidth_loop cs s ans = (ans + fst (wcswidth_loop cs s 0), snd (wcswidth_loop cs s 0))"
proof (induction cs arbitrary: s ans)
  case (Cons c cs)
  obtain w s' where e: "wcswidth_step s c = (w, s')" by fastforce
  show ?case using Cons [of s' "ans + w"] Cons [of s' w] by (simp add: e)
qed simp

lemma wcswidth_loop_append:
  "wcswidth_loop (xs @ ys) s ans = (case wcswidth_loop xs s ans of (a, s) \<Rightarrow> wcswidth_loop ys s a)"
  by (induction xs s ans rule: wcswidth_loop.induct) (auto split: prod.splits)

text \<open>Without a visible previous character the machine does not depend on it.\<close>

definition wcs_fresh :: "wcs_state \<Rightarrow> bool" where
  "wcs_fresh s = (wcs_parser_state s = WCS_NORMAL \<and> wcs_prev_width s = 0)"

lemma wcs_fresh_step: "wcs_fresh s \<Longrightarrow> wcs_fresh t \<Longrightarrow> wcswidth_step s c = wcswidth_step t c"
  by (cases s; cases t) (simp add: wcs_fresh_def wcswidth_step_def wcswidth_normal_def Let_def)

lemma wcs_fresh_loop: "wcs_fresh s \<Longrightarrow> wcs_fresh t \<Longrightarrow> fst (wcswidth_loop cs s ans) = fst (wcswidth_loop cs t ans)"
  by (cases cs) (simp_all add: wcs_fresh_step [of s t])

lemma wcs_csi_body_loop:
  "list_all (\<lambda>c. \<not> (0x40 \<le> c \<and> c \<le> 0x7e)) body \<Longrightarrow> wcs_parser_state s = IN_CSI \<Longrightarrow> 0x40 \<le> f \<Longrightarrow> f \<le> 0x7e \<Longrightarrow>
   fst (wcswidth_loop (body @ [f]) s ans) = ans \<and> wcs_fresh (snd (wcswidth_loop (body @ [f]) s ans))"
  by (induction body arbitrary: s ans) (auto simp: wcswidth_step_def wcs_fresh_def)

lemma wcs_st_body_loop:
  "list_all (\<lambda>c. c \<noteq> 0x9c \<and> c \<noteq> 0x1b) body \<Longrightarrow> wcs_parser_state s = IN_ST_TERMINATED \<Longrightarrow> wcs_prev_ch s \<noteq> 0x1b \<Longrightarrow>
   fst (wcswidth_loop (body @ [0x1b, 0x5c]) s ans) = ans
     \<and> wcs_fresh (snd (wcswidth_loop (body @ [0x1b, 0x5c]) s ans))"
  by (induction body arbitrary: s ans) (auto simp: wcswidth_step_def wcs_fresh_def)

text \<open>A CSI code, and an OSC, DCS, APC, PM or SOS code ended by \<^verbatim>\<open>ESC \\<close>.\<close>

definition csi_code :: "char_type list \<Rightarrow> char_type \<Rightarrow> char_type list" where
  "csi_code body f = [0x1b, 0x5b] @ body @ [f]"

definition st_code :: "char_type \<Rightarrow> char_type list \<Rightarrow> char_type list" where
  "st_code k body = [0x1b, k] @ body @ [0x1b, 0x5c]"

lemma skip_code:
  assumes q: "wcs_parser_state (snd (wcswidth_loop xs initialize_wcs_state 0)) = WCS_NORMAL"
    and code: "\<And>s ans. wcs_parser_state s = WCS_NORMAL \<Longrightarrow>
      fst (wcswidth_loop code s ans) = ans \<and> wcs_fresh (snd (wcswidth_loop code s ans))"
  shows "wcswidth_string (xs @ code @ ys) = wcswidth_string xs + wcswidth_string ys"
proof -
  obtain a s where xs: "wcswidth_loop xs initialize_wcs_state 0 = (a, s)" by fastforce
  obtain t where t: "wcswidth_loop code s a = (a, t)" "wcs_fresh t"
    using code [of s a] q by (cases "wcswidth_loop code s a") (auto simp: xs)
  have "wcs_fresh initialize_wcs_state" by (simp add: wcs_fresh_def initialize_wcs_state_def)
  from wcs_fresh_loop [OF t(2) this] show ?thesis
    using wcswidth_loop_shift [of ys t a]
    by (simp add: wcswidth_string_def wcswidth_loop_append xs t)
qed

lemma csi_code_quiet:
  "list_all (\<lambda>c. \<not> (0x40 \<le> c \<and> c \<le> 0x7e)) body \<Longrightarrow> 0x40 \<le> f \<Longrightarrow> f \<le> 0x7e \<Longrightarrow> wcs_parser_state s = WCS_NORMAL \<Longrightarrow>
   fst (wcswidth_loop (csi_code body f) s ans) = ans \<and> wcs_fresh (snd (wcswidth_loop (csi_code body f) s ans))"
  using wcs_csi_body_loop [of body "s\<lparr>wcs_prev_width := 0, wcs_parser_state := IN_CSI, wcs_prev_ch := 0x5b\<rparr>" f ans]
  by (cases s) (simp add: csi_code_def wcswidth_step_def wcswidth_normal_def)

lemma st_code_quiet:
  "k \<in> {0x50, 0x5d, 0x58, 0x5e, 0x5f} \<Longrightarrow> list_all (\<lambda>c. c \<noteq> 0x9c \<and> c \<noteq> 0x1b) body \<Longrightarrow>
   wcs_parser_state s = WCS_NORMAL \<Longrightarrow>
   fst (wcswidth_loop (st_code k body) s ans) = ans \<and> wcs_fresh (snd (wcswidth_loop (st_code k body) s ans))"
  using wcs_st_body_loop [of body "s\<lparr>wcs_prev_width := 0, wcs_parser_state := IN_ST_TERMINATED, wcs_prev_ch := k\<rparr>" ans]
  by (cases s) (auto simp: st_code_def wcswidth_step_def wcswidth_normal_def)

theorem wcswidth_skips_codes:
  assumes "wcs_parser_state (snd (wcswidth_loop xs initialize_wcs_state 0)) = WCS_NORMAL"
    and "list_all (\<lambda>c. \<not> (0x40 \<le> c \<and> c \<le> 0x7e)) params" "0x40 \<le> f" "f \<le> 0x7e"
    and "k \<in> {0x50, 0x5d, 0x58, 0x5e, 0x5f}" "list_all (\<lambda>c. c \<noteq> 0x9c \<and> c \<noteq> 0x1b) body"
  shows "wcswidth_string (xs @ csi_code params f @ ys) = wcswidth_string xs + wcswidth_string ys
    \<and> wcswidth_string (xs @ st_code k body @ ys) = wcswidth_string xs + wcswidth_string ys"
  using skip_code [OF assms(1), of "csi_code params f"] csi_code_quiet [OF assms(2-4)]
    skip_code [OF assms(1), of "st_code k body"] st_code_quiet [OF assms(5,6)]
  by blast+

text \<open>\<open>ab\<close>, a colour change or a hyperlink, and two Chinese characters.\<close>

theorem wcswidth_skips_codes_witness:
  "wcswidth_string ([0x61, 0x62] @ csi_code [0x33, 0x31] 0x6d @ [0x4e2d, 0x6587])
     = wcswidth_string [0x61, 0x62] + wcswidth_string [0x4e2d, 0x6587]
   \<and> wcswidth_string ([0x61, 0x62] @ st_code 0x5d [0x38, 0x3b, 0x3b, 0x41] @ [0x4e2d, 0x6587])
     = wcswidth_string [0x61, 0x62] + wcswidth_string [0x4e2d, 0x6587]"
proof -
  have "\<not> is_flag_codepoint 0x61" "\<not> is_flag_codepoint 0x62" by (simp_all add: is_flag_codepoint_def)
  then have "wcs_parser_state (snd (wcswidth_loop [0x61, 0x62] initialize_wcs_state 0)) = WCS_NORMAL"
    by (simp add: initialize_wcs_state_def wcswidth_step_def wcswidth_normal_def Let_def)
  from wcswidth_skips_codes [OF this, of "[0x33, 0x31]" "0x6d" "0x5d" "[0x38, 0x3b, 0x3b, 0x41]"]
  show ?thesis by simp
qed

end
