(* ===== verification/History.thy ===== *)
theory History
  imports Ringbuf Wcswidth Line_Buf Utf8
begin

text \<open>
  The scrollback buffer, \<^verbatim>\<open>smelly/history.c\<close>: a ring of lines in segments that are allocated on demand,
  and the pager history, a byte ring buffer with the ANSI text of the lines that left the first
  ring. The lines, from oldest to newest, are shown to be a queue of bounded length.
\<close>

section \<open>State\<close>

text \<open>\<^verbatim>\<open>PagerHistoryBuf\<close> and \<^verbatim>\<open>HistoryBuf\<close>. \<open>h_rows\<close> are the lines of all segments, \<open>SEGMENT_SIZE\<close> per segment.\<close>

record pager_history =
  ph_ringbuf :: ringbuf
  ph_maximum_size :: nat
  ph_rewrap_needed :: bool

record history_buf =
  h_xnum :: nat
  h_ynum :: nat
  h_rows :: "row list"
  h_pagerhist :: "pager_history option"
  h_start_of_data :: nat
  h_count :: nat

abbreviation (input) SEGMENT_SIZE :: nat where "SEGMENT_SIZE \<equiv> 2048"

text \<open>The memory of a new segment is zero.\<close>

definition zero_row :: "nat \<Rightarrow> row" where
  "zero_row xnum = blank_row xnum zero_line_attrs"

definition num_segments :: "history_buf \<Rightarrow> nat" where
  "num_segments h = length (h_rows h) div SEGMENT_SIZE"

definition add_segment :: "history_buf \<Rightarrow> history_buf" where
  "add_segment h = h\<lparr>h_rows := h_rows h @ replicate SEGMENT_SIZE (zero_row (h_xnum h))\<rparr>"

text \<open>
  \<^verbatim>\<open>segment_for\<close>: segments are added while line \<open>y\<close> is beyond them; \<open>None\<close> is the call of \<^verbatim>\<open>fatal\<close>.
\<close>

function segment_for :: "history_buf \<Rightarrow> nat \<Rightarrow> history_buf option" where
  "segment_for h y =
     (if length (h_rows h) \<le> y \<and> length (h_rows h) < h_ynum h then segment_for (add_segment h) y
      else if length (h_rows h) \<le> y then None else Some h)"
  by pat_completeness auto
termination
  by (relation "measure (\<lambda>(h, y). h_ynum h - length (h_rows h))") (auto simp: add_segment_def)

declare segment_for.simps [simp del]

text \<open>Reading a line; one in a segment still to be allocated reads as zeros.\<close>

definition row_at :: "history_buf \<Rightarrow> nat \<Rightarrow> row" where
  "row_at h y = (if y < length (h_rows h) then h_rows h ! y else zero_row (h_xnum h))"

definition put_row :: "nat \<Rightarrow> row \<Rightarrow> history_buf \<Rightarrow> history_buf" where
  "put_row y r h = (case segment_for h y of Some h \<Rightarrow> h\<lparr>h_rows := (h_rows h)[y := r]\<rparr> | None \<Rightarrow> h)"

section \<open>The pager history\<close>

text \<open>The assertions of \<^verbatim>\<open>ringbuf.c\<close> do not fail on well-formed buffers (\<open>memcpy_into_list\<close>), so their
  failure is not a case here.\<close>

definition rb_append :: "ringbuf \<Rightarrow> u8 list \<Rightarrow> ringbuf" where
  "rb_append rb bs = (case ringbuf_memcpy_into rb bs of Some rb \<Rightarrow> rb | None \<Rightarrow> rb)"

definition initial_pagerhist_ringbuf_sz :: "nat \<Rightarrow> nat" where
  "initial_pagerhist_ringbuf_sz pagerhist_sz = min (1024 * 1024) pagerhist_sz"

definition alloc_pagerhist :: "nat \<Rightarrow> pager_history option" where
  "alloc_pagerhist pagerhist_sz =
     (if pagerhist_sz = 0 then None
      else Some \<lparr>ph_ringbuf = ringbuf_new (initial_pagerhist_ringbuf_sz pagerhist_sz),
                 ph_maximum_size = pagerhist_sz, ph_rewrap_needed = False\<rparr>)"

definition pagerhist_extend :: "pager_history \<Rightarrow> nat \<Rightarrow> pager_history" where
  "pagerhist_extend ph minsz =
     (let buffer_size = ringbuf_capacity (ph_ringbuf ph) in
      if buffer_size \<ge> ph_maximum_size ph then ph
      else
        (let newsz = min (ph_maximum_size ph) (buffer_size + max (1024 * 1024) minsz);
             newbuf = ringbuf_new newsz;
             n = ringbuf_bytes_used (ph_ringbuf ph)
         in ph\<lparr>ph_ringbuf := (if n \<noteq> 0 then (case ringbuf_copy newbuf (ph_ringbuf ph) n of
                                 Some (newbuf, _) \<Rightarrow> newbuf | None \<Rightarrow> newbuf) else newbuf)\<rparr>))"

definition pagerhist_clear :: "history_buf \<Rightarrow> history_buf" where
  "pagerhist_clear h =
     h\<lparr>h_pagerhist := map_option (\<lambda>ph. ph\<lparr>ph_ringbuf :=
         ringbuf_new (initial_pagerhist_ringbuf_sz (ph_maximum_size ph))\<rparr>) (h_pagerhist h)\<rparr>"

definition pagerhist_write_bytes :: "pager_history \<Rightarrow> u8 list \<Rightarrow> bool \<times> pager_history" where
  "pagerhist_write_bytes ph buf =
     (if length buf > ph_maximum_size ph then (False, ph)
      else if buf = [] then (True, ph)
      else
        (let space_in_ringbuf = ringbuf_bytes_free (ph_ringbuf ph);
             ph = (if length buf > space_in_ringbuf then pagerhist_extend ph (length buf) else ph)
         in (True, ph\<lparr>ph_ringbuf := rb_append (ph_ringbuf ph) buf\<rparr>)))"

fun pagerhist_write_ucs4 :: "pager_history \<Rightarrow> u32 list \<Rightarrow> bool \<times> pager_history" where
  "pagerhist_write_ucs4 ph [] = (True, ph)"
| "pagerhist_write_ucs4 ph (c # cs) =
     (case pagerhist_write_bytes ph (encode_utf8 c) of
        (True, ph) \<Rightarrow> pagerhist_write_ucs4 ph cs
      | (False, ph) \<Rightarrow> (False, ph))"

text \<open>
  The first bytes up to the last reject before a character is complete; \<open>num\<close> bytes were copied to
  \<^verbatim>\<open>scratch\<close>, which is dropped as far as the result says.
\<close>

fun start_scan :: "u8 list \<Rightarrow> nat \<Rightarrow> u32 \<Rightarrow> nat \<Rightarrow> nat \<Rightarrow> nat" where
  "start_scan [] state codep cnt last_reject_at = last_reject_at"
| "start_scan (b # bs) state codep cnt last_reject_at =
     (case decode_utf8 state codep b of (state, codep) \<Rightarrow>
        if state = UTF8_ACCEPT then last_reject_at
        else if state = UTF8_REJECT then start_scan bs UTF8_ACCEPT codep (cnt + 1) (cnt + 1)
        else start_scan bs state codep (cnt + 1) last_reject_at)"

definition rb_drop :: "ringbuf \<Rightarrow> nat \<Rightarrow> ringbuf" where
  "rb_drop rb n = (case ringbuf_memmove_from rb n of Some (_, rb) \<Rightarrow> rb | None \<Rightarrow> rb)"

definition pagerhist_ensure_start_is_valid_utf8 :: "pager_history \<Rightarrow> bool \<times> pager_history" where
  "pagerhist_ensure_start_is_valid_utf8 ph =
     (case ringbuf_memcpy_from (ph_ringbuf ph) 8 of
        None \<Rightarrow> (False, ph)
      | Some scratch \<Rightarrow>
          (let last_reject_at = start_scan scratch UTF8_ACCEPT 0 0 0
           in if last_reject_at \<noteq> 0 then (True, ph\<lparr>ph_ringbuf := rb_drop (ph_ringbuf ph) last_reject_at\<rparr>)
              else (False, ph)))"

text \<open>\<^verbatim>\<open>pagerhist_remove_char\<close>: the code point, the bytes taken (\<^verbatim>\<open>record\<close>) and the buffer.\<close>

fun remove_char_loop :: "nat \<Rightarrow> nat \<Rightarrow> u32 \<Rightarrow> u8 list \<Rightarrow> ringbuf \<Rightarrow> u32 \<times> u8 list \<times> ringbuf" where
  "remove_char_loop 0 state codep rec rb = (codep, rec, rb)"
| "remove_char_loop (Suc num) state codep rec rb =
     (case ringbuf_move_char rb of
        None \<Rightarrow> (codep, rec, rb)
      | Some (b, rb) \<Rightarrow>
          (case decode_utf8 state codep b of (state, codep) \<Rightarrow>
             if state = UTF8_REJECT then (0, rec @ [b], rb)
             else if state = UTF8_ACCEPT then (codep, rec @ [b], rb)
             else remove_char_loop num state codep (rec @ [b]) rb))"

definition pagerhist_remove_char :: "ringbuf \<Rightarrow> u32 \<times> u8 list \<times> ringbuf" where
  "pagerhist_remove_char rb = remove_char_loop (ringbuf_bytes_used rb) UTF8_ACCEPT 0 [] rb"

text \<open>\<^verbatim>\<open>WRITE_CHAR\<close>: a carriage return before a character that does not fit.\<close>

definition write_char :: "int \<Rightarrow> int \<Rightarrow> u8 list \<Rightarrow> int \<Rightarrow> pager_history \<Rightarrow> int \<times> pager_history" where
  "write_char cells_in_line ch_width rec num_in_current_line nph =
     (let (num_in_current_line, nph) =
            (if num_in_current_line + ch_width > cells_in_line then (0, snd (pagerhist_write_bytes nph [13]))
             else (num_in_current_line, nph));
          num_in_current_line =
            (if ch_width \<ge> 0 \<or> num_in_current_line \<ge> - ch_width then num_in_current_line + ch_width
             else num_in_current_line)
      in (num_in_current_line, snd (pagerhist_write_bytes nph rec)))"

text \<open>The loop of \<^verbatim>\<open>pagerhist_rewrap_to\<close>; every round takes a byte, so \<open>fuel\<close> is the number of bytes.\<close>

fun rewrap_loop :: "nat \<Rightarrow> int \<Rightarrow> wcs_state \<Rightarrow> int \<Rightarrow> ringbuf \<Rightarrow> pager_history \<Rightarrow> pager_history" where
  "rewrap_loop 0 cells_in_line s num rb nph = nph"
| "rewrap_loop (Suc fuel) cells_in_line s num rb nph =
     (if ringbuf_bytes_used rb = 0 then nph
      else case pagerhist_remove_char rb of (c, rec, rb) \<Rightarrow>
        if c = 10 then
          (case write_char cells_in_line 1 rec num nph of (num, nph) \<Rightarrow>
             rewrap_loop fuel cells_in_line initialize_wcs_state 0 rb nph)
        else if c \<noteq> 13 then
          (case wcswidth_step s c of (ch_width, s) \<Rightarrow>
             case write_char cells_in_line ch_width rec num nph of (num, nph) \<Rightarrow>
               rewrap_loop fuel cells_in_line s num rb nph)
        else rewrap_loop fuel cells_in_line s num rb nph)"

definition pagerhist_rewrap_to :: "pager_history \<Rightarrow> nat \<Rightarrow> pager_history" where
  "pagerhist_rewrap_to ph cells_in_line =
     (let rb = ph_ringbuf ph in
      if ringbuf_bytes_used rb = 0 then ph
      else
        (let nph = \<lparr>ph_ringbuf = ringbuf_new (min (ph_maximum_size ph) (ringbuf_capacity rb + 4096)),
                    ph_maximum_size = ph_maximum_size ph, ph_rewrap_needed = False\<rparr>
         in rewrap_loop (ringbuf_bytes_used rb) (int cells_in_line) initialize_wcs_state 0 rb nph))"

text \<open>\<^verbatim>\<open>reverse_find\<close>: the last position of a needle.\<close>

fun reverse_find_from :: "nat \<Rightarrow> u8 list \<Rightarrow> u8 list \<Rightarrow> nat option" where
  "reverse_find_from 0 haystack needle = None"
| "reverse_find_from (Suc p) haystack needle =
     (if slice haystack p (length needle) = needle then Some p else reverse_find_from p haystack needle)"

definition reverse_find :: "u8 list \<Rightarrow> u8 list \<Rightarrow> nat option" where
  "reverse_find haystack needle =
     (if needle = [] \<or> length needle > length haystack then None
      else reverse_find_from (length haystack - (length needle - 1)) haystack needle)"

definition pagerhist_as_bytes :: "history_buf \<Rightarrow> bool \<Rightarrow> u8 list \<times> history_buf" where
  "pagerhist_as_bytes h upto_output_start =
     (case h_pagerhist h of
        None \<Rightarrow> ([], h)
      | Some ph \<Rightarrow>
          if ringbuf_bytes_used (ph_ringbuf ph) = 0 then ([], h)
          else
            (let ph = snd (pagerhist_ensure_start_is_valid_utf8 ph);
                 ph = (if ph_rewrap_needed ph then pagerhist_rewrap_to ph (h_xnum h) else ph);
                 buf = (case ringbuf_memcpy_from (ph_ringbuf ph) (ringbuf_bytes_used (ph_ringbuf ph)) of
                          Some bs \<Rightarrow> bs | None \<Rightarrow> []);
                 buf = (if upto_output_start then
                          (case reverse_find buf [0x1b, 0x5d, 0x31, 0x33, 0x33, 0x3b, 0x43, 0x1b, 0x5c] of
                             Some p \<Rightarrow> drop p buf | None \<Rightarrow> buf)
                        else buf)
             in (buf, h\<lparr>h_pagerhist := Some ph\<rparr>)))"

section \<open>The ring of lines\<close>

definition create_historybuf :: "nat \<Rightarrow> nat \<Rightarrow> nat \<Rightarrow> py_error + history_buf" where
  "create_historybuf xnum ynum pagerhist_sz =
     (if xnum = 0 \<or> ynum = 0 then Inl ValueError
      else Inr (add_segment \<lparr>h_xnum = xnum, h_ynum = ynum, h_rows = [],
        h_pagerhist = alloc_pagerhist pagerhist_sz, h_start_of_data = 0, h_count = 0\<rparr>))"

definition index_of :: "history_buf \<Rightarrow> nat \<Rightarrow> nat" where
  "index_of h lnum =
     (if h_count h = 0 then 0
      else (h_start_of_data h + (h_count h - 1 - min (h_count h - 1) lnum)) mod h_ynum h)"

text \<open>Whether the pager history ends inside a line.\<close>

definition pagerhist_open_line :: "history_buf \<Rightarrow> bool" where
  "pagerhist_open_line h =
     (case h_pagerhist h of
        None \<Rightarrow> False
      | Some ph \<Rightarrow>
          (let sz = ringbuf_bytes_used (ph_ringbuf ph)
           in sz > 0 \<and> (case ringbuf_findchr (ph_ringbuf ph) 10 (sz - 1) of Some pos \<Rightarrow> pos \<ge> sz | None \<Rightarrow> False)))"

definition history_init_line :: "history_buf \<Rightarrow> nat \<Rightarrow> cell_line" where
  "history_init_line h num =
     (case row_at h num of (cpu, gpu, a) \<Rightarrow>
        \<lparr>l_cpu = cpu, l_gpu = gpu, l_xnum = h_xnum h, l_ynum = 0,
         l_attrs = a\<lparr>la_is_continued :=
           (if num > 0 then ends_wrapped (fst (snd (row_at h (num - 1)))) (h_xnum h) else pagerhist_open_line h)\<rparr>\<rparr>)"

definition historybuf_init_line :: "history_buf \<Rightarrow> nat \<Rightarrow> cell_line" where
  "historybuf_init_line h lnum = history_init_line h (index_of h lnum)"

definition history_buf_endswith_wrap :: "history_buf \<Rightarrow> bool" where
  "history_buf_endswith_wrap h = ends_wrapped (fst (snd (row_at h (index_of h 0)))) (h_xnum h)"

definition historybuf_cpu_cells :: "history_buf \<Rightarrow> nat \<Rightarrow> cpu_cell list" where
  "historybuf_cpu_cells h lnum = fst (row_at h (index_of h lnum))"

definition update_row_attrs :: "nat \<Rightarrow> (line_attrs \<Rightarrow> line_attrs) \<Rightarrow> history_buf \<Rightarrow> history_buf" where
  "update_row_attrs y f h = (case row_at h y of (cpu, gpu, a) \<Rightarrow> put_row y (cpu, gpu, f a) h)"

definition historybuf_mark_line_clean :: "history_buf \<Rightarrow> nat \<Rightarrow> history_buf" where
  "historybuf_mark_line_clean h y = update_row_attrs (index_of h y) (\<lambda>a. a\<lparr>la_has_dirty_text := False\<rparr>) h"

definition historybuf_mark_line_dirty :: "history_buf \<Rightarrow> nat \<Rightarrow> history_buf" where
  "historybuf_mark_line_dirty h y = update_row_attrs (index_of h y) (\<lambda>a. a\<lparr>la_has_dirty_text := True\<rparr>) h"

text \<open>All segments but the first are freed.\<close>

definition historybuf_clear :: "history_buf \<Rightarrow> history_buf" where
  "historybuf_clear h =
     (pagerhist_clear h)\<lparr>h_count := 0, h_start_of_data := 0, h_rows := take SEGMENT_SIZE (h_rows h)\<rparr>"

text \<open>
  \<^verbatim>\<open>pagerhist_push\<close>. \<open>pool\<close> and \<open>active\<close> are the hyperlink pool and the active hyperlink of the ANSI
  buffer; the result has the new active hyperlink.
\<close>

definition pagerhist_push ::
  "hyperlink_keys option \<Rightarrow> hyperlink_id_type \<Rightarrow> history_buf \<Rightarrow> hyperlink_id_type \<times> history_buf" where
  "pagerhist_push pool active h =
     (case h_pagerhist h of
        None \<Rightarrow> (active, h)
      | Some ph \<Rightarrow>
          (let l = history_init_line h (h_start_of_data h);
               (buf, _, active, _) = line_as_ansi pool active l None 0 (l_xnum l) 0;
               ph = snd (pagerhist_write_bytes ph [0x1b, 0x5b, 0x6d]);
               (ok, ph) = pagerhist_write_ucs4 ph buf;
               ph = (if ok then snd (pagerhist_write_bytes ph
                       (13 # (if ends_wrapped (l_gpu l) (l_xnum l) then [] else [10]))) else ph)
           in (active, h\<lparr>h_pagerhist := Some ph\<rparr>)))"

text \<open>The result is the buffer position, the active hyperlink and the buffer.\<close>

definition historybuf_push ::
  "hyperlink_keys option \<Rightarrow> hyperlink_id_type \<Rightarrow> history_buf \<Rightarrow> nat \<times> hyperlink_id_type \<times> history_buf" where
  "historybuf_push pool active h =
     (let idx = (h_start_of_data h + h_count h) mod h_ynum h in
      if h_count h = h_ynum h then
        (case pagerhist_push pool active h of (active, h) \<Rightarrow>
           (idx, active, h\<lparr>h_start_of_data := (h_start_of_data h + 1) mod h_ynum h\<rparr>))
      else (idx, active, h\<lparr>h_count := h_count h + 1\<rparr>))"

definition historybuf_add_line ::
  "hyperlink_keys option \<Rightarrow> hyperlink_id_type \<Rightarrow> cell_line \<Rightarrow> history_buf \<Rightarrow> hyperlink_id_type \<times> history_buf" where
  "historybuf_add_line pool active l h =
     (case historybuf_push pool active h of (idx, active, h) \<Rightarrow>
        (let dest = copy_line l (history_init_line h idx)
         in (active, put_row idx (l_cpu dest, l_gpu dest, l_attrs l) h)))"

text \<open>\<open>None\<close> is the result \<^verbatim>\<open>false\<close>.\<close>

definition historybuf_pop_line :: "history_buf \<Rightarrow> (cell_line \<times> history_buf) option" where
  "historybuf_pop_line h =
     (if h_count h \<le> 0 then None
      else Some (history_init_line h ((h_start_of_data h + h_count h - 1) mod h_ynum h),
                 h\<lparr>h_count := h_count h - 1\<rparr>))"

definition history_buf_set_last_char_as_continuation :: "history_buf \<Rightarrow> nat \<Rightarrow> bool \<Rightarrow> history_buf" where
  "history_buf_set_last_char_as_continuation h y wrapped =
     (if h_count h > 0 then
        (let i = index_of h y; x = h_xnum h - 1 in
         case row_at h i of (cpu, gpu, a) \<Rightarrow>
           put_row i (cpu, gpu[x := cell_set_attrs (a_wrapped_update (\<lambda>_. wrapped)) (gpu ! x)], a) h)
      else h)"

definition history_line :: "history_buf \<Rightarrow> nat \<Rightarrow> py_error + cell_line" where
  "history_line h lnum =
     (if h_count h = 0 then Inl IndexError
      else if lnum \<ge> h_count h then Inl IndexError
      else Inr (history_init_line h (index_of h lnum)))"

text \<open>The lines of \<^verbatim>\<open>str()\<close>, newest first, and \<^verbatim>\<open>dirty_lines\<close>, which looks at buffer positions.\<close>

definition history_str :: "history_buf \<Rightarrow> char_type list list" where
  "history_str h = map (\<lambda>i. line_as_unicode (history_init_line h (index_of h i)) False) [0 ..< h_count h]"

definition history_dirty_lines :: "history_buf \<Rightarrow> nat list" where
  "history_dirty_lines h = filter (\<lambda>i. la_has_dirty_text (snd (snd (row_at h i)))) [0 ..< h_count h]"

text \<open>\<^verbatim>\<open>as_ansi\<close>: the arguments of the callback, line by line.\<close>

fun history_as_ansi_loop :: "history_buf \<Rightarrow> nat list \<Rightarrow> gpu_cell option \<Rightarrow> char_type list list" where
  "history_as_ansi_loop h [] prev = []"
| "history_as_ansi_loop h (i # ys) prev =
     (let l = history_init_line h i; (buf, prev, _, _) = line_as_ansi None 0 l prev 0 (l_xnum l) 0
      in (buf @ (if ends_wrapped (l_gpu l) (l_xnum l) then [] else [10])) # history_as_ansi_loop h ys prev)"

definition history_as_ansi :: "history_buf \<Rightarrow> char_type list list" where
  "history_as_ansi h = history_as_ansi_loop h [0 ..< h_count h] None"

text \<open>The fast path of \<^verbatim>\<open>historybuf_rewrap\<close>, for a buffer of the same size.\<close>

definition historybuf_rewrap_fast :: "history_buf \<Rightarrow> history_buf \<Rightarrow> history_buf" where
  "historybuf_rewrap_fast h other =
     other\<lparr>h_rows := h_rows h @ drop (length (h_rows h)) (h_rows other), h_count := h_count h,
            h_start_of_data := h_start_of_data h\<rparr>"

section \<open>The lines are a bounded queue\<close>

lemma segment_for_spec:
  "y < h_ynum h \<Longrightarrow> \<exists>n. segment_for h y = Some (h\<lparr>h_rows := h_rows h @ replicate n (zero_row (h_xnum h))\<rparr>)
     \<and> y < length (h_rows h) + n"
proof (induction h y rule: segment_for.induct)
  case (1 h y)
  show ?case
  proof (cases "length (h_rows h) \<le> y")
    case True
    with 1 obtain n where n: "segment_for (add_segment h) y = Some ((add_segment h)
        \<lparr>h_rows := h_rows (add_segment h) @ replicate n (zero_row (h_xnum h))\<rparr>)"
      "y < length (h_rows (add_segment h)) + n" by (auto simp: add_segment_def)
    have "segment_for h y = Some (h\<lparr>h_rows := h_rows h @ replicate (SEGMENT_SIZE + n) (zero_row (h_xnum h))\<rparr>)"
      using True "1.prems" n(1) by (subst segment_for.simps) (simp add: add_segment_def replicate_add)
    then show ?thesis using n(2) by (intro exI [of _ "SEGMENT_SIZE + n"]) (simp add: add_segment_def)
  next
    case False
    then show ?thesis by (subst segment_for.simps) (auto intro: exI [of _ 0])
  qed
qed

lemma row_at_put_row:
  assumes "y < h_ynum h"
  shows "row_at (put_row y r h) z = (if z = y then r else row_at h z)"
proof -
  obtain n where n: "segment_for h y = Some (h\<lparr>h_rows := h_rows h @ replicate n (zero_row (h_xnum h))\<rparr>)"
    "y < length (h_rows h) + n" using segment_for_spec [OF assms] by blast
  then show ?thesis
    by (auto simp: put_row_def row_at_def nth_list_update nth_append)
qed

lemma put_row_frame [simp, frame_simps]:
  "h_xnum (put_row y r h) = h_xnum h" "h_ynum (put_row y r h) = h_ynum h" "h_count (put_row y r h) = h_count h"
  "h_start_of_data (put_row y r h) = h_start_of_data h" "h_pagerhist (put_row y r h) = h_pagerhist h"
proof -
  have seg: "segment_for h y = Some h' \<Longrightarrow> h_xnum h' = h_xnum h \<and> h_ynum h' = h_ynum h \<and> h_count h' = h_count h
      \<and> h_start_of_data h' = h_start_of_data h \<and> h_pagerhist h' = h_pagerhist h" for h'
  proof (induction h y rule: segment_for.induct)
    case (1 h y)
    show ?case
    proof (cases "length (h_rows h) \<le> y")
      case True
      with "1.prems" have lt: "length (h_rows h) < h_ynum h"
        by (subst (asm) segment_for.simps) (simp split: if_splits)
      then have "segment_for (add_segment h) y = Some h'"
        using "1.prems" True by (subst (asm) segment_for.simps) simp
      with "1.IH" True lt show ?thesis by (simp add: add_segment_def)
    next
      case False
      with "1.prems" show ?thesis by (subst (asm) segment_for.simps) simp
    qed
  qed
  show "h_xnum (put_row y r h) = h_xnum h" "h_ynum (put_row y r h) = h_ynum h"
    "h_count (put_row y r h) = h_count h" "h_start_of_data (put_row y r h) = h_start_of_data h"
    "h_pagerhist (put_row y r h) = h_pagerhist h"
    unfolding put_row_def by (cases "segment_for h y"; simp; drule seg; simp)+
qed

definition row_ok :: "nat \<Rightarrow> row \<Rightarrow> bool" where
  "row_ok xnum r = (length (fst r) = xnum \<and> length (fst (snd r)) = xnum)"

definition ph_wf :: "pager_history \<Rightarrow> bool" where
  "ph_wf ph = (rb_wf (ph_ringbuf ph) \<and> ringbuf_capacity (ph_ringbuf ph) \<le> ph_maximum_size ph)"

definition history_wf :: "history_buf \<Rightarrow> bool" where
  "history_wf h = (0 < h_xnum h \<and> 0 < h_ynum h \<and> h_start_of_data h < h_ynum h \<and> h_count h \<le> h_ynum h
     \<and> (\<forall>y < h_ynum h. row_ok (h_xnum h) (row_at h y))
     \<and> (\<forall>ph. h_pagerhist h = Some ph \<longrightarrow> ph_wf ph))"

text \<open>The lines from the oldest to the newest.\<close>

definition h_lines :: "history_buf \<Rightarrow> row list" where
  "h_lines h = map (\<lambda>i. row_at h ((h_start_of_data h + i) mod h_ynum h)) [0 ..< h_count h]"

lemma length_h_lines [simp]: "length (h_lines h) = h_count h"
  by (simp add: h_lines_def)

lemma zero_row_ok [simp]: "row_ok xnum (zero_row xnum)"
  by (simp add: row_ok_def zero_row_def blank_row_def)

lemma create_historybuf_wf:
  "create_historybuf xnum ynum sz = Inr h \<Longrightarrow> history_wf h \<and> h_lines h = []"
  by (auto simp: create_historybuf_def add_segment_def history_wf_def row_at_def h_lines_def alloc_pagerhist_def
      ph_wf_def ringbuf_new_wf initial_pagerhist_ringbuf_sz_def split: if_splits)

text \<open>The pager history: a queue of at most \<^verbatim>\<open>maximum_size\<close> bytes whose memory grows on demand.\<close>

definition ph_bytes :: "pager_history \<Rightarrow> u8 list" where
  "ph_bytes ph = rb_bytes (ph_ringbuf ph)"

lemma rb_append_appended: "rb_wf rb \<Longrightarrow> appended rb bs (rb_append rb bs)"
  using memcpy_into_list [of rb bs] by (auto simp: rb_append_def)

lemma extend_bytes:
  assumes "ph_wf ph"
  shows "ph_wf (pagerhist_extend ph n) \<and> ph_bytes (pagerhist_extend ph n) = ph_bytes ph
    \<and> ph_maximum_size (pagerhist_extend ph n) = ph_maximum_size ph
    \<and> (ringbuf_capacity (ph_ringbuf (pagerhist_extend ph n)) = ph_maximum_size ph
       \<or> length (ph_bytes ph) + n \<le> ringbuf_capacity (ph_ringbuf (pagerhist_extend ph n)))"
proof (cases "ringbuf_capacity (ph_ringbuf ph) \<ge> ph_maximum_size ph")
  case True
  with assms show ?thesis by (simp add: pagerhist_extend_def ph_wf_def)
next
  case False
  define rb where "rb = ph_ringbuf ph"
  define sz where "sz = min (ph_maximum_size ph) (ringbuf_capacity rb + max (1024 * 1024) n)"
  define used where "used = ringbuf_bytes_used rb"
  have wf: "rb_wf rb" using assms by (simp add: ph_wf_def rb_def)
  have used: "used \<le> ringbuf_capacity rb" using used_le_capacity [OF wf] by (simp add: used_def)
  have le: "ringbuf_capacity rb < ph_maximum_size ph" "sz \<le> ph_maximum_size ph" "ringbuf_capacity rb \<le> sz"
    using False by (auto simp: rb_def sz_def)
  have sz: "sz = ph_maximum_size ph \<or> used + n \<le> sz"
    using used unfolding sz_def by (cases "ringbuf_capacity rb + max (1024 * 1024) n \<le> ph_maximum_size ph") auto
  obtain nb where nb: "(if used \<noteq> 0 then case ringbuf_copy (ringbuf_new sz) rb used of
        Some (nb, _) \<Rightarrow> nb | None \<Rightarrow> ringbuf_new sz else ringbuf_new sz) = nb"
    "rb_wf nb" "ringbuf_capacity nb = sz" "rb_bytes nb = rb_bytes rb"
  proof (cases "used = 0")
    case True
    then have "rb_bytes rb = []" by (simp add: used_def flip: length_0_conv)
    with True that show ?thesis by (simp add: ringbuf_new_wf)
  next
    case False
    obtain d s where "ringbuf_copy (ringbuf_new sz) rb used = Some (d, s)"
      "appended (ringbuf_new sz) (take used (rb_bytes rb)) d"
      using copy_list [OF wf ringbuf_new_wf(1) [of sz], of used] by (auto simp: used_def)
    then show ?thesis using that False used le by (simp add: appended_def ringbuf_new_wf used_def)
  qed
  have "pagerhist_extend ph n = ph\<lparr>ph_ringbuf := nb\<rparr>"
    using False nb(1) unfolding pagerhist_extend_def Let_def sz_def rb_def used_def by simp
  with nb le sz show ?thesis by (simp add: ph_wf_def ph_bytes_def rb_def used_def)
qed

lemma write_bytes_list:
  assumes "ph_wf ph" and "pagerhist_write_bytes ph buf = (ok, ph')"
  shows "ph_wf ph' \<and> ph_maximum_size ph' = ph_maximum_size ph \<and> (ok \<longleftrightarrow> length buf \<le> ph_maximum_size ph)
    \<and> ph_bytes ph' = (if ok then drop (length (ph_bytes ph) + length buf - ph_maximum_size ph) (ph_bytes ph @ buf)
                      else ph_bytes ph)"
proof (cases "length buf > ph_maximum_size ph \<or> buf = []")
  case True
  have "length (ph_bytes ph) \<le> ph_maximum_size ph"
    using assms(1) used_le_capacity [of "ph_ringbuf ph"] by (simp add: ph_wf_def ph_bytes_def)
  with True assms show ?thesis by (auto simp: pagerhist_write_bytes_def split: if_splits)
next
  case False
  define q where "q = (if length buf > ringbuf_bytes_free (ph_ringbuf ph) then pagerhist_extend ph (length buf) else ph)"
  have q: "ph_wf q" "ph_bytes q = ph_bytes ph" "ph_maximum_size q = ph_maximum_size ph"
    using extend_bytes [OF assms(1), of "length buf"] assms(1) by (auto simp: q_def)
  have "length (ph_bytes ph) + ringbuf_bytes_free (ph_ringbuf ph) = ringbuf_capacity (ph_ringbuf ph)"
    using used_free [of "ph_ringbuf ph"] assms(1) by (simp add: ph_bytes_def ph_wf_def)
  then have room: "ringbuf_capacity (ph_ringbuf q) = ph_maximum_size ph
      \<or> length (ph_bytes ph) + length buf \<le> ringbuf_capacity (ph_ringbuf q)"
    using extend_bytes [OF assms(1), of "length buf"] by (auto simp: q_def)
  have "ok" "ph' = q\<lparr>ph_ringbuf := rb_append (ph_ringbuf q) buf\<rparr>"
    using assms(2) False by (auto simp: pagerhist_write_bytes_def q_def Let_def split: if_splits)
  moreover have "appended (ph_ringbuf q) buf (rb_append (ph_ringbuf q) buf)"
    using q(1) by (intro rb_append_appended) (simp add: ph_wf_def)
  moreover have "ringbuf_bytes_used (ph_ringbuf q) = ringbuf_bytes_used (ph_ringbuf ph)"
    using arg_cong [OF q(2), of length] by (simp add: ph_bytes_def)
  ultimately show ?thesis
    using q room False by (auto simp: appended_def ph_wf_def ph_bytes_def)
qed

lemma write_ucs4_wf:
  "ph_wf ph \<Longrightarrow> ph_wf (snd (pagerhist_write_ucs4 ph cs))
    \<and> ph_maximum_size (snd (pagerhist_write_ucs4 ph cs)) = ph_maximum_size ph"
proof (induction ph cs rule: pagerhist_write_ucs4.induct)
  case (2 ph c cs)
  obtain ok q where q: "pagerhist_write_bytes ph (encode_utf8 c) = (ok, q)" by fastforce
  with 2 write_bytes_list [OF "2.prems" q] show ?case by (cases ok) auto
qed simp

text \<open>Adding and removing lines.\<close>

lemma write_bytes_wf: "ph_wf ph \<Longrightarrow> ph_wf (snd (pagerhist_write_bytes ph bs))
    \<and> ph_maximum_size (snd (pagerhist_write_bytes ph bs)) = ph_maximum_size ph"
  using write_bytes_list [of ph bs] by (cases "pagerhist_write_bytes ph bs") simp

lemma pagerhist_push_frame:
  assumes "pagerhist_push pool active h = (a, h')" and "\<forall>ph. h_pagerhist h = Some ph \<longrightarrow> ph_wf ph"
  shows "\<exists>p. h' = h\<lparr>h_pagerhist := p\<rparr> \<and> (\<forall>ph. p = Some ph \<longrightarrow> ph_wf ph)"
proof (cases "h_pagerhist h")
  case None
  with assms show ?thesis by (auto simp: pagerhist_push_def intro!: exI [of _ None])
next
  case (Some ph)
  have "\<exists>ph'. h' = h\<lparr>h_pagerhist := Some ph'\<rparr> \<and> ph_wf ph'"
    using assms Some write_bytes_wf write_ucs4_wf
    by (auto simp: pagerhist_push_def Let_def case_prod_beta split del: if_split)
       (auto split: if_split)
  then show ?thesis by auto
qed

lemma historybuf_push_spec:
  assumes "history_wf h" and "historybuf_push pool active h = (idx, a, h')"
  shows "\<exists>p. h' = h\<lparr>h_pagerhist := p, h_start_of_data := h_start_of_data h', h_count := h_count h'\<rparr>
     \<and> (\<forall>ph. p = Some ph \<longrightarrow> ph_wf ph) \<and> idx = (h_start_of_data h + h_count h) mod h_ynum h
     \<and> h_count h' = min (h_count h + 1) (h_ynum h)
     \<and> h_start_of_data h' = (h_start_of_data h + (h_count h + 1 - h_ynum h)) mod h_ynum h"
proof (cases "h_count h = h_ynum h")
  case True
  obtain a' q where q: "pagerhist_push pool active h = (a', q)" by fastforce
  then obtain p where "q = h\<lparr>h_pagerhist := p\<rparr>" "\<forall>ph. p = Some ph \<longrightarrow> ph_wf ph"
    using pagerhist_push_frame [OF q] assms(1) by (auto simp: history_wf_def)
  with q True assms show ?thesis
    by (auto simp: historybuf_push_def Let_def history_wf_def intro!: exI [of _ p])
next
  case False
  with assms show ?thesis
    by (auto simp: historybuf_push_def Let_def history_wf_def intro!: exI [of _ "h_pagerhist h"])
qed

lemma mod_eq_shift:
  assumes "i < n" "j < n" "(s + i) mod n = (s + j) mod n"
  shows "i = (j::nat)"
proof -
  have le: "i = j" if "i \<le> j" "j < n" "(s + i) mod n = (s + j) mod n" for i j :: nat
  proof -
    have "n dvd (s + j) - (s + i)"
      using mod_eq_dvd_iff_nat [of "s + i" "s + j" n] that by simp
    then have "n dvd j - i" by simp
    moreover have "j - i < n" using that by simp
    ultimately have "j - i = 0" using nat_dvd_not_less by blast
    with that show ?thesis by simp
  qed
  from assms le [of i j] le [of j i] show ?thesis by (cases "i \<le> j") auto
qed

definition line_row :: "cell_line \<Rightarrow> row" where
  "line_row l = (l_cpu l, l_gpu l, l_attrs l)"

lemma historybuf_add_line_spec:
  assumes wf: "history_wf h" and l: "line_wf l" "l_xnum l = h_xnum h"
    and add: "historybuf_add_line pool active l h = (a, h')"
  shows "history_wf h' \<and> h_xnum h' = h_xnum h \<and> h_ynum h' = h_ynum h
     \<and> h_lines h' = drop (h_count h + 1 - h_ynum h) (h_lines h @ [line_row l])"
proof -
  obtain idx a' q where q: "historybuf_push pool active h = (idx, a', q)" by (metis prod_cases3)
  define n where "n = h_ynum h"
  define s where "s = h_start_of_data h"
  define k where "k = h_count h + 1 - n"
  have n: "0 < n" "s < n" "h_count h \<le> n" using wf by (simp_all add: history_wf_def n_def s_def)
  obtain p where p: "q = h\<lparr>h_pagerhist := p, h_start_of_data := h_start_of_data q, h_count := h_count q\<rparr>"
    "\<forall>ph. p = Some ph \<longrightarrow> ph_wf ph" "idx = (s + h_count h) mod n"
    "h_count q = min (h_count h + 1) n" "h_start_of_data q = (s + k) mod n"
    using historybuf_push_spec [OF wf q] by (auto simp: n_def s_def k_def)
  have idx: "idx < n" using n p(3) by simp
  have rq: "row_at q z = row_at h z" "h_ynum q = n" "h_xnum q = h_xnum h" for z
    by (subst p(1), simp add: row_at_def n_def)+
  have ok: "row_ok (h_xnum h) (row_at h idx)" using wf idx by (simp add: history_wf_def n_def)
  have new: "h' = put_row idx (line_row l) q"
    using add q l ok idx
    by (simp add: historybuf_add_line_def Let_def copy_line_def history_init_line_def rq line_row_def line_wf_def
        row_ok_def case_prod_beta overwrite_def)
  have row: "row_at h' z = (if z = idx then line_row l else row_at h z)" for z
    unfolding new using idx by (subst row_at_put_row) (simp_all add: rq)
  have "history_wf h'"
    unfolding history_wf_def row using wf l p n idx
    by (auto simp: new rq history_wf_def row_ok_def line_row_def line_wf_def n_def)
  moreover have "h_lines h' = drop k (h_lines h @ [line_row l])"
  proof (rule nth_equalityI)
    show "length (h_lines h') = length (drop k (h_lines h @ [line_row l]))"
      using n p(4) by (auto simp: new k_def)
    fix i assume "i < length (h_lines h')"
    then have i: "i < h_count q" "k + i < n \<or> k + i = h_count h" "k + i \<le> h_count h"
      using n p(4) by (auto simp: new k_def)
    have "h_lines h' ! i = row_at h' ((h_start_of_data q + i) mod n)"
      using i by (simp add: h_lines_def new rq)
    also have "(h_start_of_data q + i) mod n = (s + (k + i)) mod n"
      by (simp add: p(5) mod_add_left_eq add.assoc)
    also have "row_at h' ((s + (k + i)) mod n) = (h_lines h @ [line_row l]) ! (k + i)"
    proof (cases "k + i = h_count h")
      case True
      then show ?thesis by (simp add: row p(3) nth_append)
    next
      case False
      then have lt: "k + i < h_count h" using i by simp
      have "(s + (k + i)) mod n \<noteq> idx \<or> h_count h = n"
        using mod_eq_shift [of "k + i" n "h_count h" s] lt n(3) p(3) by (cases "h_count h < n") auto
      moreover have "(s + (k + i)) mod n \<noteq> idx" if "h_count h = n"
        using mod_eq_shift [of "k + i" n 0 s] that lt n p(3) by (auto simp: k_def)
      ultimately show ?thesis using lt by (auto simp: row nth_append h_lines_def s_def n_def)
    qed
    finally show "h_lines h' ! i = drop k (h_lines h @ [line_row l]) ! i" using i n by (simp add: k_def del: drop_append)
  qed
  ultimately show ?thesis by (simp add: k_def n_def new rq)
qed

lemma historybuf_pop_line_spec:
  assumes wf: "history_wf h" and pop: "historybuf_pop_line h = Some (l, h')"
  shows "history_wf h' \<and> h_lines h = h_lines h' @ [last (h_lines h)]
    \<and> (l_cpu l, l_gpu l) = (fst (last (h_lines h)), fst (snd (last (h_lines h))))"
proof -
  have c: "h_count h \<noteq> 0" and h': "h' = h\<lparr>h_count := h_count h - 1\<rparr>"
    and l: "l = history_init_line h ((h_start_of_data h + h_count h - 1) mod h_ynum h)"
    using pop by (auto simp: historybuf_pop_line_def split: if_splits)
  obtain m where m: "h_count h = Suc m" using c by (cases "h_count h") auto
  have "row_at h' z = row_at h z" for z by (simp add: h' row_at_def)
  moreover have last: "last (h_lines h) = row_at h ((h_start_of_data h + m) mod h_ynum h)"
    by (simp add: h_lines_def m)
  ultimately have "history_wf h'" "h_lines h = h_lines h' @ [last (h_lines h)]"
    using wf by (auto simp: history_wf_def h_lines_def h' m)
  with last show ?thesis by (simp add: l m history_init_line_def case_prod_beta)
qed

text \<open>Line numbers count from the newest line.\<close>

lemma row_at_index_of:
  assumes "history_wf h" and "lnum < h_count h"
  shows "row_at h (index_of h lnum) = h_lines h ! (h_count h - 1 - lnum)"
  using assms by (simp add: index_of_def h_lines_def)

lemma historybuf_clear_wf: "history_wf h \<Longrightarrow> history_wf (historybuf_clear h) \<and> h_lines (historybuf_clear h) = []"
proof -
  assume wf: "history_wf h"
  have "row_ok (h_xnum h) (row_at (historybuf_clear h) y)" if "y < h_ynum h" for y
    using wf that by (auto simp: history_wf_def row_at_def historybuf_clear_def pagerhist_clear_def)
  then show ?thesis
    using wf by (auto simp: history_wf_def h_lines_def historybuf_clear_def pagerhist_clear_def ph_wf_def
        ringbuf_new_wf initial_pagerhist_ringbuf_sz_def)
qed

section \<open>The two rings as bounded queues\<close>

interpretation hq: bounded_queue "\<lambda>(a, h). history_wf h" "\<lambda>(a, h). h_lines h" "\<lambda>(a, h). h_ynum h"
  "\<lambda>(a, h) l. line_wf l \<and> l_xnum l = h_xnum h" "\<lambda>l. [line_row l]"
  "\<lambda>(a, h) l. Some (historybuf_add_line pool a l h)" for pool :: "hyperlink_keys option"
proof
  fix q :: "hyperlink_id_type \<times> history_buf" and p :: cell_line
  assume ok: "case q of (a, h) \<Rightarrow> history_wf h"
  obtain a h where q: "q = (a, h)" by fastforce
  show "length (case q of (a, h) \<Rightarrow> h_lines h) \<le> (case q of (a, h) \<Rightarrow> h_ynum h)"
    using ok by (auto simp: q history_wf_def)
  obtain a' h' where e: "historybuf_add_line pool a p h = (a', h')" by fastforce
  assume fits: "(case q of (a, h) \<Rightarrow> \<lambda>l. line_wf l \<and> l_xnum l = h_xnum h) p"
  show "\<exists>q'. (case q of (a, h) \<Rightarrow> \<lambda>l. Some (historybuf_add_line pool a l h)) p = Some q' \<and>
      (case q' of (a, h) \<Rightarrow> history_wf h) \<and>
      (case q' of (a, h) \<Rightarrow> h_ynum h) = (case q of (a, h) \<Rightarrow> h_ynum h) \<and>
      (case q' of (a, h) \<Rightarrow> \<lambda>l. line_wf l \<and> l_xnum l = h_xnum h) = (case q of (a, h) \<Rightarrow> \<lambda>l. line_wf l \<and> l_xnum l = h_xnum h) \<and>
      (case q' of (a, h) \<Rightarrow> h_lines h) =
        drop (length (case q of (a, h) \<Rightarrow> h_lines h) + length [line_row p] - (case q of (a, h) \<Rightarrow> h_ynum h))
         ((case q of (a, h) \<Rightarrow> h_lines h) @ [line_row p])"
    using historybuf_add_line_spec [of h p pool a a' h'] ok fits e by (simp add: q del: drop_append)
qed

definition pagerhist_put :: "pager_history \<Rightarrow> u8 list \<Rightarrow> pager_history option" where
  "pagerhist_put ph bs = (case pagerhist_write_bytes ph bs of (True, ph) \<Rightarrow> Some ph | (False, ph) \<Rightarrow> None)"

interpretation pq: bounded_queue ph_wf ph_bytes ph_maximum_size "\<lambda>ph bs. length bs \<le> ph_maximum_size ph" "\<lambda>bs. bs"
  pagerhist_put
proof
  fix q :: pager_history and p :: "u8 list"
  assume wf: "ph_wf q"
  then show "length (ph_bytes q) \<le> ph_maximum_size q"
    using used_le_capacity [of "ph_ringbuf q"] by (simp add: ph_wf_def ph_bytes_def)
  obtain b q' where w: "pagerhist_write_bytes q p = (b, q')" by fastforce
  assume "length p \<le> ph_maximum_size q"
  with write_bytes_list [OF wf w] w
  show "\<exists>q'. pagerhist_put q p = Some q' \<and> ph_wf q' \<and> ph_maximum_size q' = ph_maximum_size q
      \<and> (\<lambda>bs::u8 list. length bs \<le> ph_maximum_size q') = (\<lambda>bs. length bs \<le> ph_maximum_size q)
      \<and> ph_bytes q' = drop (length (ph_bytes q) + length p - ph_maximum_size q) (ph_bytes q @ p)"
    by (auto simp: pagerhist_put_def)
qed

text \<open>
  C26: After adding any lines to a new history buffer of ynum lines it holds the last ynum of
  them, in order, whatever its segments and its start index.
\<close>

theorem history_keeps_last_lines:
  assumes "create_historybuf xnum ynum sz = Inr h" and "list_all (\<lambda>l. line_wf l \<and> l_xnum l = xnum) ls"
  shows "\<exists>a' h'. hq.puts pool (a, h) ls = Some (a', h') \<and> history_wf h'
    \<and> h_lines h' = drop (length ls - ynum) (map line_row ls)"
proof -
  have h: "history_wf h" "h_lines h = []" "h_xnum h = xnum" "h_ynum h = ynum"
    using create_historybuf_wf [OF assms(1)] assms(1) by (auto simp: create_historybuf_def add_segment_def split: if_splits)
  have "hq.stream ls = map line_row ls" by (induction ls) (simp_all add: hq.stream_def)
  with hq.puts_content [of "(a, h)" ls pool] assms(2) h show ?thesis by auto
qed

text \<open>Three lines in a buffer of two.\<close>

theorem history_keeps_last_lines_witness:
  "\<exists>h a' h'. create_historybuf 2 2 0 = Inr h \<and>
     hq.puts None (0, h) (map (\<lambda>y. \<lparr>l_cpu = replicate 2 (zero_cpu_cell\<lparr>p_ch := y\<rparr>), l_gpu = replicate 2 zero_gpu_cell,
        l_xnum = 2, l_ynum = 0, l_attrs = zero_line_attrs\<rparr>) [1, 2, 3]) = Some (a', h')
     \<and> map (map p_ch \<circ> fst) (h_lines h') = [[2, 2], [3, 3]]"
proof -
  let ?l = "\<lambda>y. \<lparr>l_cpu = replicate 2 (zero_cpu_cell\<lparr>p_ch := y\<rparr>), l_gpu = replicate 2 zero_gpu_cell,
        l_xnum = 2, l_ynum = 0, l_attrs = zero_line_attrs\<rparr>"
  obtain h where h: "create_historybuf 2 2 0 = Inr h" by (simp add: create_historybuf_def)
  have "list_all (\<lambda>l. line_wf l \<and> l_xnum l = 2) (map ?l [1, 2, 3])" by (simp add: line_wf_def)
  from history_keeps_last_lines [OF h this, of None 0] show ?thesis
    using h by (auto simp: line_row_def numeral_2_eq_2)
qed

text \<open>
  C27: Writing pieces of text to the pager history, which grows its ring buffer as needed, leaves
  the last maximum_size bytes of everything written.
\<close>

theorem pagerhist_keeps_last_bytes:
  assumes "ph_wf ph" and "list_all (\<lambda>bs. length bs \<le> ph_maximum_size ph) bss"
  shows "\<exists>ph'. pq.puts ph bss = Some ph' \<and> ph_wf ph'
    \<and> ph_bytes ph' = drop (length (ph_bytes ph) + length (concat bss) - ph_maximum_size ph) (ph_bytes ph @ concat bss)"
  using pq.puts_content [OF assms] by (auto simp: pq.stream_def)

theorem pagerhist_keeps_last_bytes_witness:
  "\<exists>ph'. pq.puts \<lparr>ph_ringbuf = ringbuf_new 2, ph_maximum_size = 4, ph_rewrap_needed = False\<rparr> [[1, 2, 3], [4, 5]] = Some ph'
     \<and> ph_bytes ph' = [2, 3, 4, 5]"
  using pagerhist_keeps_last_bytes [of "\<lparr>ph_ringbuf = ringbuf_new 2, ph_maximum_size = 4, ph_rewrap_needed = False\<rparr>"
      "[[1, 2, 3], [4, 5]]"]
  by (auto simp: ph_wf_def ph_bytes_def ringbuf_new_wf)

text \<open>Removing the newest line gives back what was added.\<close>

theorem history_add_pop:
  assumes "history_wf h" and "line_wf l" "l_xnum l = h_xnum h" and "historybuf_add_line pool a l h = (a', h')"
  shows "\<exists>l' h''. historybuf_pop_line h' = Some (l', h'') \<and> l_cpu l' = l_cpu l \<and> l_gpu l' = l_gpu l
    \<and> h_lines h'' = drop (h_count h + 1 - h_ynum h) (h_lines h)"
proof -
  define k where "k = h_count h + 1 - h_ynum h"
  have h': "history_wf h'" "h_lines h' = drop k (h_lines h @ [line_row l])"
    using historybuf_add_line_spec [OF assms] by (auto simp: k_def)
  have k: "k \<le> length (h_lines h)" using assms(1) by (auto simp: history_wf_def k_def)
  then have ls: "h_lines h' = drop k (h_lines h) @ [line_row l]" by (simp add: h')
  then have "h_count h' \<noteq> 0" using length_h_lines [of h'] by simp
  then obtain l' h'' where pop: "historybuf_pop_line h' = Some (l', h'')"
    by (auto simp: historybuf_pop_line_def)
  from historybuf_pop_line_spec [OF h'(1) pop] ls show ?thesis
    by (auto simp: pop line_row_def k_def)
qed

theorem history_add_pop_witness:
  "\<exists>h a' h' l' h''. create_historybuf 2 1 0 = Inr h \<and> historybuf_add_line None 0 \<lparr>l_cpu = replicate 2 (zero_cpu_cell\<lparr>p_ch := 7\<rparr>),
        l_gpu = replicate 2 zero_gpu_cell, l_xnum = 2, l_ynum = 0, l_attrs = zero_line_attrs\<rparr> h = (a', h')
     \<and> historybuf_pop_line h' = Some (l', h'') \<and> map p_ch (l_cpu l') = [7, 7] \<and> h_lines h'' = []"
proof -
  let ?l = "\<lparr>l_cpu = replicate 2 (zero_cpu_cell\<lparr>p_ch := 7\<rparr>),
        l_gpu = replicate 2 zero_gpu_cell, l_xnum = 2, l_ynum = 0, l_attrs = zero_line_attrs\<rparr>"
  obtain h where h: "create_historybuf 2 1 0 = Inr h" by (simp add: create_historybuf_def)
  then have wf: "history_wf h" "h_xnum h = 2" "h_lines h = []"
    using create_historybuf_wf [OF h] by (auto simp: create_historybuf_def add_segment_def)
  obtain a' h' where e: "historybuf_add_line None 0 ?l h = (a', h')" by fastforce
  have "line_wf ?l" by (simp add: line_wf_def)
  from history_add_pop [OF wf(1) this _ e] wf obtain l' h'' where
    "historybuf_pop_line h' = Some (l', h'')" "l_cpu l' = replicate 2 (zero_cpu_cell\<lparr>p_ch := 7\<rparr>)" "h_lines h'' = []"
    by auto
  with h e show ?thesis by (auto simp: numeral_2_eq_2)
qed

section \<open>The pager history as text\<close>

text \<open>Bytes of the middle of a character are rejected one by one.\<close>

definition is_cont :: "u8 \<Rightarrow> bool" where
  "is_cont b = (0x80 \<le> unat b \<and> unat b < 0xc0)"

lemma reject_cont: "is_cont b \<Longrightarrow> \<exists>c'. decode_utf8 UTF8_ACCEPT c b = (UTF8_REJECT, c')"
proof -
  assume b: "is_cont b"
  then have "utf8_class (unat b) \<in> {1, 7, 9}" by (auto simp: utf8_class_def is_cont_def)
  then have "utf8_next 0 (utf8_class (unat b)) = 1" by (auto simp: utf8_next_def)
  moreover have "utf8_data ! (256 + utf8_class (unat b)) = utf8_next 0 (utf8_class (unat b))"
    using utf8_data_next [of 0 "utf8_class (unat b)"] by (simp add: utf8_class_def)
  ultimately show ?thesis by (simp add: decode_utf8_def utf8_data_class)
qed

lemma start_scan_conts:
  "list_all is_cont bs \<Longrightarrow> bs \<noteq> [] \<Longrightarrow>
   \<exists>c'. start_scan (bs @ rest) UTF8_ACCEPT c n z = start_scan rest UTF8_ACCEPT c' (n + length bs) (n + length bs)"
proof (induction bs arbitrary: c n z)
  case (Cons b bs)
  obtain c' where "decode_utf8 UTF8_ACCEPT c b = (UTF8_REJECT, c')" using reject_cont [of b c] Cons.prems by auto
  with Cons.prems Cons.IH [of c' "Suc n" "Suc n"] show ?case by (cases "bs = []") auto
qed simp

text \<open>A sequence that decodes is scanned without a reject, also when it is cut.\<close>

lemma start_scan_seq:
  "utf8_decode_seq st c bs = Some ch \<Longrightarrow> start_scan (take k (bs @ rest)) st c n z = z"
proof (induction bs arbitrary: st c n k)
  case (Cons b bs)
  obtain st' c' where d: "decode_utf8 st c b = (st', c')" by fastforce
  with Cons show ?case by (cases k) (auto split: if_splits)
qed simp

definition text_bytes :: "u32 list \<Rightarrow> u8 list" where
  "text_bytes cs = concat (map encode_utf8 cs)"

lemma text_bytes_simps [simp]: "text_bytes [] = []" "text_bytes (c # cs) = encode_utf8 c @ text_bytes cs"
  by (simp_all add: text_bytes_def)

lemma start_scan_text: "list_all unicode_scalar cs \<Longrightarrow> start_scan (take k (text_bytes cs)) UTF8_ACCEPT c n z = z"
  by (cases cs) (auto intro!: start_scan_seq utf8_encode_decode simp del: take_append)

theorem pagerhist_start_valid:
  assumes "ph_wf ph" and "ph_bytes ph = conts @ text_bytes cs"
    and "list_all is_cont conts" "length conts \<le> 3" and "list_all unicode_scalar cs"
  shows "ph_bytes (snd (pagerhist_ensure_start_is_valid_utf8 ph)) = text_bytes cs
    \<and> fst (pagerhist_ensure_start_is_valid_utf8 ph) = (conts \<noteq> [])"
proof -
  have wf: "rb_wf (ph_ringbuf ph)" using assms(1) by (simp add: ph_wf_def)
  have take8: "take 8 (rb_bytes (ph_ringbuf ph)) = conts @ take (8 - length conts) (text_bytes cs)"
    using assms(2,4) by (simp add: ph_bytes_def)
  have scan: "start_scan (take 8 (rb_bytes (ph_ringbuf ph))) UTF8_ACCEPT 0 0 0 = length conts"
  proof (cases "conts = []")
    case True
    then show ?thesis unfolding take8 by (simp add: start_scan_text [OF assms(5)])
  next
    case False
    then show ?thesis
      using start_scan_conts [OF assms(3) False, of "take (8 - length conts) (text_bytes cs)" 0 0 0]
      unfolding take8 by (auto simp: start_scan_text [OF assms(5)])
  qed
  obtain rb' where rb': "ringbuf_memmove_from (ph_ringbuf ph) (length conts) = Some (take (length conts) (rb_bytes (ph_ringbuf ph)), rb')"
    "taken (ph_ringbuf ph) (length conts) rb'"
    using memmove_from_list [OF wf, of "length conts"] arg_cong [OF assms(2), of length]
    by (auto simp: ph_bytes_def)
  have "pagerhist_ensure_start_is_valid_utf8 ph =
      (if conts \<noteq> [] then (True, ph\<lparr>ph_ringbuf := rb_drop (ph_ringbuf ph) (length conts)\<rparr>) else (False, ph))"
    by (simp add: pagerhist_ensure_start_is_valid_utf8_def memcpy_from_list [OF wf] scan Let_def)
  then show ?thesis
    using assms(2) rb' by (auto simp: rb_drop_def taken_def ph_bytes_def)
qed

text \<open>The euro sign cut after its first byte.\<close>

theorem pagerhist_start_valid_witness:
  "ph_bytes (snd (pagerhist_ensure_start_is_valid_utf8
     \<lparr>ph_ringbuf = \<lparr>rb_buf = [0x82, 0xac, 0x41, 0], rb_head = 3, rb_tail = 0\<rparr>, ph_maximum_size = 3, ph_rewrap_needed = False\<rparr>)) = [0x41]"
  using pagerhist_start_valid [of "\<lparr>ph_ringbuf = \<lparr>rb_buf = [0x82, 0xac, 0x41, 0], rb_head = 3, rb_tail = 0\<rparr>,
      ph_maximum_size = 3, ph_rewrap_needed = False\<rparr>" "[0x82, 0xac]" "[0x41]"]
  by (simp add: ph_wf_def rb_wf_def ph_bytes_def rb_bytes_def ringbuf_bytes_used_def ringbuf_bytes_free_def
      ringbuf_capacity_def ringbuf_buffer_size_def fwd_def encode_utf8_def is_cont_def unicode_scalar_def
      upt_rec [of _ 3])

text \<open>Rewrapping: the characters stay, only carriage returns change.\<close>

lemma remove_char_seq:
  "utf8_decode_seq st c bs = Some ch \<Longrightarrow> rb_wf rb \<Longrightarrow> rb_bytes rb = bs @ rest \<Longrightarrow> length bs \<le> n \<Longrightarrow>
   \<exists>rb'. remove_char_loop n st c rec rb = (ch, rec @ bs, rb') \<and> rb_wf rb' \<and> rb_bytes rb' = rest"
proof (induction bs arbitrary: st c n rec rb)
  case (Cons b bs)
  obtain m where m: "n = Suc m" using Cons.prems(4) by (cases n) auto
  obtain rb1 where rb1: "ringbuf_move_char rb = Some (b, rb1)" "rb_wf rb1" "rb_bytes rb1 = bs @ rest"
    using move_char_list [of rb b "bs @ rest"] Cons.prems(2,3) by (auto simp: taken_def)
  obtain st' c' where d: "decode_utf8 st c b = (st', c')" by fastforce
  show ?case
  proof (cases "st' = 0")
    case True
    with Cons.prems rb1 d show ?thesis by (auto simp: m split: if_splits)
  next
    case False
    with Cons.prems d have n: "st' \<noteq> 1" and "utf8_decode_seq st' c' bs = Some ch" by (auto split: if_splits)
    from Cons.IH [OF this(2) rb1(2,3), of m "rec @ [b]"] Cons.prems(4) obtain rb' where
      "remove_char_loop m st' c' (rec @ [b]) rb1 = (ch, (rec @ [b]) @ bs, rb')" "rb_wf rb'" "rb_bytes rb' = rest"
      by (auto simp: m)
    with False n d rb1 show ?thesis by (simp add: m)
  qed
qed simp

lemma remove_char_text:
  assumes "rb_wf rb" and "rb_bytes rb = encode_utf8 c @ rest" and "unicode_scalar c"
  shows "\<exists>rb'. pagerhist_remove_char rb = (c, encode_utf8 c, rb') \<and> rb_wf rb' \<and> rb_bytes rb' = rest"
proof -
  have "length (encode_utf8 c) \<le> ringbuf_bytes_used rb"
    using arg_cong [OF assms(2), of length] by simp
  from remove_char_seq [OF utf8_encode_decode [OF assms(3)] assms(1,2) this, of 0 "[]"]
  show ?thesis by (auto simp: pagerhist_remove_char_def)
qed

definition ph_wrote :: "pager_history \<Rightarrow> u8 list \<Rightarrow> pager_history \<Rightarrow> bool" where
  "ph_wrote ph bs ph' = (ph_wf ph' \<and> ph_maximum_size ph' = ph_maximum_size ph
     \<and> ph_bytes ph' = drop (length (ph_bytes ph) + length bs - ph_maximum_size ph) (ph_bytes ph @ bs))"

lemma ph_wrote_Nil: "ph_wf ph \<Longrightarrow> ph_wrote ph [] ph"
  using used_le_capacity [of "ph_ringbuf ph"] by (simp add: ph_wrote_def ph_wf_def ph_bytes_def)

lemma ph_wrote_trans:
  assumes "ph_wrote ph xs q" and "ph_wrote q ys r" and "ph_wf ph"
  shows "ph_wrote ph (xs @ ys) r"
proof -
  define k where "k = length (ph_bytes ph) + length xs - ph_maximum_size ph"
  have le: "length (ph_bytes ph) \<le> ph_maximum_size ph"
    using used_le_capacity [of "ph_ringbuf ph"] assms(3) by (simp add: ph_wf_def ph_bytes_def)
  have q: "ph_bytes q = drop k (ph_bytes ph @ xs)" using assms(1) by (simp add: ph_wrote_def k_def)
  have "k \<le> length (ph_bytes ph @ xs)" by (simp add: k_def)
  then have "drop m (drop k (ph_bytes ph @ xs) @ ys) = drop (k + m) (ph_bytes ph @ xs @ ys)" for m
    using drop_drop_append [of k "ph_bytes ph @ xs" m ys] by (simp del: drop_append)
  moreover have "k + (length (ph_bytes q) + length ys - ph_maximum_size ph)
      = length (ph_bytes ph) + length (xs @ ys) - ph_maximum_size ph"
    using le by (simp add: q k_def)
  moreover have "ph_bytes r = drop (length (ph_bytes q) + length ys - ph_maximum_size ph) (ph_bytes q @ ys)"
    using assms(1,2) by (simp add: ph_wrote_def del: drop_append)
  ultimately have "ph_bytes r = drop (length (ph_bytes ph) + length (xs @ ys) - ph_maximum_size ph) (ph_bytes ph @ xs @ ys)"
    unfolding q [symmetric] by metis
  then show ?thesis using assms(1,2) by (simp add: ph_wrote_def del: drop_append)
qed

lemma ph_wrote_write:
  "ph_wf ph \<Longrightarrow> length bs \<le> ph_maximum_size ph \<Longrightarrow> ph_wrote ph bs (snd (pagerhist_write_bytes ph bs))"
  using write_bytes_list [of ph bs] by (cases "pagerhist_write_bytes ph bs") (auto simp: ph_wrote_def)

lemma write_char_wrote:
  assumes "ph_wf nph" and "length rec \<le> ph_maximum_size nph" and "1 \<le> ph_maximum_size nph"
  shows "\<exists>cr \<in> {[], [13]}. ph_wrote nph (cr @ rec) (snd (write_char cells w rec num nph))"
proof -
  have 1: "ph_wrote nph [13] (snd (pagerhist_write_bytes nph [13]))"
    using assms by (intro ph_wrote_write) auto
  then have "ph_wrote (snd (pagerhist_write_bytes nph [13])) rec
      (snd (pagerhist_write_bytes (snd (pagerhist_write_bytes nph [13])) rec))"
    using assms by (intro ph_wrote_write) (auto simp: ph_wrote_def)
  from ph_wrote_trans [OF 1 this assms(1)] ph_wrote_write [OF assms(1,2)]
  show ?thesis by (auto simp: write_char_def Let_def split: prod.splits)
qed

lemma encode_utf8_13 [simp]: "encode_utf8 13 = [13]"
  by (simp add: encode_utf8_def)

lemma length_encode_le: "length (encode_utf8 c) \<le> 4"
  by (simp add: encode_utf8_def)

lemma rewrap_loop_text:
  "rb_wf rb \<Longrightarrow> rb_bytes rb = text_bytes cs \<Longrightarrow> list_all unicode_scalar cs \<Longrightarrow> length cs \<le> fuel \<Longrightarrow>
   ph_wf nph \<Longrightarrow> 4 \<le> ph_maximum_size nph \<Longrightarrow>
   \<exists>ws. filter (\<lambda>c. c \<noteq> 13) ws = filter (\<lambda>c. c \<noteq> 13) cs
     \<and> ph_wrote nph (text_bytes ws) (rewrap_loop fuel cells s num rb nph)"
proof (induction cs arbitrary: fuel s num rb nph)
  case Nil
  then have "ringbuf_bytes_used rb = 0" using length_rb_bytes [of rb] by simp
  then have "rewrap_loop fuel cells s num rb nph = nph" by (cases fuel) auto
  with Nil show ?case by (auto intro!: exI [of _ "[]"] ph_wrote_Nil)
next
  case (Cons c cs)
  obtain f where f: "fuel = Suc f" using Cons.prems(4) by (cases fuel) auto
  obtain rb' where rb': "pagerhist_remove_char rb = (c, encode_utf8 c, rb')" "rb_wf rb'" "rb_bytes rb' = text_bytes cs"
    using remove_char_text [of rb c "text_bytes cs"] Cons.prems by auto
  have "encode_utf8 c \<noteq> []" using utf8_encode_decode [of c 0] Cons.prems(3) by auto
  then have used: "ringbuf_bytes_used rb \<noteq> 0"
    using arg_cong [OF Cons.prems(2), of length] by auto
  show ?case
  proof (cases "c = 13")
    case True
    then have "rewrap_loop fuel cells s num rb nph = rewrap_loop f cells s num rb' nph"
      using used rb'(1) by (simp add: f)
    with Cons.IH [OF rb'(2,3), of f nph s num] Cons.prems True show ?thesis by (auto simp: f)
  next
    case False
    obtain w s' where step: "rewrap_loop fuel cells s num rb nph =
        (case write_char cells w (encode_utf8 c) num nph of (num, nph) \<Rightarrow>
           rewrap_loop f cells s' (if c = 10 then 0 else num) rb' nph)"
    proof (cases "c = 10")
      case True
      with used rb'(1) that [where w = 1 and s' = initialize_wcs_state] show ?thesis by (simp add: f)
    next
      case F: False
      obtain w s' where "wcswidth_step s c = (w, s')" by fastforce
      with F False used rb'(1) that [where w = w and s' = s'] show ?thesis by (simp add: f)
    qed
    obtain num' q where q: "write_char cells w (encode_utf8 c) num nph = (num', q)" by fastforce
    have "length (encode_utf8 c) \<le> ph_maximum_size nph" using length_encode_le [of c] Cons.prems(6) by simp
    then have "\<exists>cr \<in> {[], [13]}. ph_wrote nph (cr @ encode_utf8 c) q"
      using write_char_wrote [OF Cons.prems(5), of "encode_utf8 c" cells w num] Cons.prems(6) q by simp
    then obtain cr where cr: "cr \<in> {[], [13]}" "ph_wrote nph (cr @ encode_utf8 c) q" by blast
    then have "ph_wf q" "4 \<le> ph_maximum_size q" using Cons.prems(6) by (simp_all add: ph_wrote_def)
    with Cons.IH [OF rb'(2,3), of f q s' "if c = 10 then 0 else num'"] Cons.prems obtain ws where
      ws: "filter (\<lambda>c. c \<noteq> 13) ws = filter (\<lambda>c. c \<noteq> 13) cs"
        "ph_wrote q (text_bytes ws) (rewrap_loop f cells s' (if c = 10 then 0 else num') rb' q)" by (auto simp: f)
    define vs where "vs = (if cr = [] then c # ws else 13 # c # ws)"
    have "text_bytes vs = (cr @ encode_utf8 c) @ text_bytes ws" using cr(1) by (auto simp: vs_def)
    then have "ph_wrote nph (text_bytes vs) (rewrap_loop fuel cells s num rb nph)"
      using ph_wrote_trans [OF cr(2) ws(2) Cons.prems(5)] by (simp add: step q)
    moreover have "filter (\<lambda>c. c \<noteq> 13) vs = filter (\<lambda>c. c \<noteq> 13) (c # cs)"
      using False ws(1) by (auto simp: vs_def)
    ultimately show ?thesis by blast
  qed
qed

lemma length_text_bytes: "list_all unicode_scalar cs \<Longrightarrow> length cs \<le> length (text_bytes cs)"
proof (induction cs)
  case (Cons c cs)
  then have "encode_utf8 c \<noteq> []" using utf8_encode_decode [of c 0] by auto
  with Cons show ?case by (cases "encode_utf8 c") auto
qed simp

text \<open>
  C32: Rewrapping the pager history to a new width only moves its carriage returns: all other
  characters stay, in order, and the last maximum_size bytes are kept.
\<close>

theorem pagerhist_rewrap_text:
  assumes "ph_wf ph" and "ph_bytes ph = text_bytes cs" "list_all unicode_scalar cs" and "4 \<le> ph_maximum_size ph"
  shows "\<exists>ws. filter (\<lambda>c. c \<noteq> 13) ws = filter (\<lambda>c. c \<noteq> 13) cs
    \<and> ph_bytes (pagerhist_rewrap_to ph cells) = drop (length (text_bytes ws) - ph_maximum_size ph) (text_bytes ws)"
proof (cases "ringbuf_bytes_used (ph_ringbuf ph) = 0")
  case True
  then have "text_bytes cs = []" using arg_cong [OF assms(2), of length] by (simp add: ph_bytes_def)
  with True assms show ?thesis by (auto simp: pagerhist_rewrap_to_def intro!: exI [of _ cs])
next
  case False
  define rb where "rb = ph_ringbuf ph"
  define nph where "nph = \<lparr>ph_ringbuf = ringbuf_new (min (ph_maximum_size ph) (ringbuf_capacity rb + 4096)),
                    ph_maximum_size = ph_maximum_size ph, ph_rewrap_needed = False\<rparr>"
  have nph: "ph_wf nph" "ph_bytes nph = []" "ph_maximum_size nph = ph_maximum_size ph"
    by (simp_all add: nph_def ph_wf_def ph_bytes_def ringbuf_new_wf)
  have rb: "rb_wf rb" "rb_bytes rb = text_bytes cs"
    using assms by (simp_all add: rb_def ph_wf_def ph_bytes_def)
  have len: "length cs \<le> ringbuf_bytes_used rb"
    using length_text_bytes [OF assms(3)] arg_cong [OF rb(2), of length] by simp
  have "pagerhist_rewrap_to ph cells
      = rewrap_loop (ringbuf_bytes_used rb) (int cells) initialize_wcs_state 0 rb nph"
    using False by (simp add: pagerhist_rewrap_to_def Let_def nph_def rb_def)
  with rewrap_loop_text [OF rb assms(3) len nph(1)] assms(4) nph show ?thesis
    by (fastforce simp: ph_wrote_def)
qed

text \<open>Four characters on lines of two cells.\<close>

theorem pagerhist_rewrap_text_witness:
  "\<exists>ws. filter (\<lambda>c. c \<noteq> 13) ws = [0x41, 0x42, 0x43, 0x44]
    \<and> ph_bytes (pagerhist_rewrap_to \<lparr>ph_ringbuf = \<lparr>rb_buf = [0x41, 0x42, 0x43, 0x44, 0], rb_head = 4, rb_tail = 0\<rparr>,
        ph_maximum_size = 100, ph_rewrap_needed = True\<rparr> 2) = drop (length (text_bytes ws) - 100) (text_bytes ws)"
  using pagerhist_rewrap_text [of "\<lparr>ph_ringbuf = \<lparr>rb_buf = [0x41, 0x42, 0x43, 0x44, 0], rb_head = 4, rb_tail = 0\<rparr>,
        ph_maximum_size = 100, ph_rewrap_needed = True\<rparr>" "[0x41, 0x42, 0x43, 0x44]" 2]
  by (simp add: ph_wf_def rb_wf_def ph_bytes_def rb_bytes_def ringbuf_bytes_used_def ringbuf_bytes_free_def
      ringbuf_capacity_def ringbuf_buffer_size_def fwd_def encode_utf8_def unicode_scalar_def
      upt_rec [of _ 4])

end
