(* ===== verification/Graphics_Command.thy ===== *)
theory Graphics_Command
  imports Sgr Charsets
begin

text \<open>
  \<^verbatim>\<open>smelly/parse-graphics-command.h\<close>: the parser of the graphics APC code, a list of
  \<^verbatim>\<open>key=value\<close> pairs separated by commas, a semicolon and a base64 payload. The lemmas show that it
  ends, that what it reports lies in the declared sets of flags and widths, and that it inverts the
  printed form of a command.
\<close>

section \<open>The command\<close>

text \<open>
  \<^verbatim>\<open>GraphicsCommand\<close> of \<^verbatim>\<open>graphics.h\<close>; of the unions the first name. \<^verbatim>\<open>z_index\<close> is read as a signed
  number.
\<close>

record graphics_command =
  g_action :: u8
  g_transmission_type :: u8
  g_compressed :: u8
  g_delete_action :: u8
  g_format :: u32
  g_more :: u32
  g_id :: u32
  g_image_number :: u32
  g_data_sz :: u32
  g_data_offset :: u32
  g_placement_id :: u32
  g_quiet :: u32
  g_width :: u32
  g_height :: u32
  g_x_offset :: u32
  g_y_offset :: u32
  g_cursor_movement :: u32
  g_cell_x_offset :: u32
  g_cell_y_offset :: u32
  g_data_width :: u32
  g_data_height :: u32
  g_num_lines :: u32
  g_num_cells :: u32
  g_z_index :: u32
  g_payload_sz :: nat

definition zero_graphics_command :: graphics_command where
  "zero_graphics_command =
     \<lparr>g_action = 0, g_transmission_type = 0, g_compressed = 0, g_delete_action = 0,
      g_format = 0, g_more = 0, g_id = 0, g_image_number = 0, g_data_sz = 0, g_data_offset = 0,
      g_placement_id = 0, g_quiet = 0, g_width = 0, g_height = 0, g_x_offset = 0, g_y_offset = 0,
      g_cursor_movement = 0, g_cell_x_offset = 0, g_cell_y_offset = 0, g_data_width = 0,
      g_data_height = 0, g_num_lines = 0, g_num_cells = 0, g_z_index = 0,
      g_payload_sz = 0\<rparr>"

datatype graphics_state =
  GS_KEY | GS_EQUAL | GS_UINT | GS_INT | GS_FLAG | GS_AFTER_VALUE | GS_PAYLOAD

datatype graphics_error =
  Invalid_key u32 | No_equal_after_key u32 | Unknown_flag u32 u8 | Expecting_integer u32
  | Number_too_large | Expecting_separator u32 | Payload_error b64_error
  | Truncated_after_key | Truncated_integer | Truncated_flag

section \<open>The parser\<close>

text \<open>The \<^verbatim>\<open>switch (key)\<close> of state \<^verbatim>\<open>KEY\<close>: the state that reads the value.\<close>

definition key_value_state :: "u32 \<Rightarrow> graphics_state option" where
  "key_value_state key =
     (if key \<in> {0x61, 0x64, 0x74, 0x6f} then Some GS_FLAG
      else if key \<in> {0x66, 0x6d, 0x69, 0x49, 0x70, 0x71, 0x77, 0x68, 0x78, 0x79,
                      0x76, 0x73, 0x53, 0x4f, 0x63, 0x72, 0x58, 0x59, 0x43} then Some GS_UINT
      else if key = 0x7a then Some GS_INT
      else None)"

text \<open>The flag values allowed for a key: \<^verbatim>\<open>a\<close>, \<^verbatim>\<open>d\<close>, \<^verbatim>\<open>t\<close> and \<^verbatim>\<open>o\<close>.\<close>

definition flag_values :: "u32 \<Rightarrow> u8 list" where
  "flag_values key =
     (if key = 0x61 then [0x54, 0x61, 0x63, 0x64, 0x66, 0x70, 0x71, 0x74]
      else if key = 0x64 then [0x41, 0x43, 0x46, 0x49, 0x4e, 0x50, 0x51, 0x58, 0x59, 0x5a,
        0x61, 0x63, 0x66, 0x69, 0x6e, 0x70, 0x71, 0x78, 0x79, 0x7a]
      else if key = 0x74 then [0x64, 0x66, 0x73, 0x74]
      else if key = 0x6f then [0x7a]
      else [])"

definition set_flag :: "u32 \<Rightarrow> u8 \<Rightarrow> graphics_command \<Rightarrow> graphics_command" where
  "set_flag key v g =
     (if key = 0x61 then g\<lparr>g_action := v\<rparr>
      else if key = 0x64 then g\<lparr>g_delete_action := v\<rparr>
      else if key = 0x74 then g\<lparr>g_transmission_type := v\<rparr>
      else if key = 0x6f then g\<lparr>g_compressed := v\<rparr>
      else g)"

definition set_uint :: "u32 \<Rightarrow> u32 \<Rightarrow> graphics_command \<Rightarrow> graphics_command" where
  "set_uint key code g =
     (if key = 0x66 then g\<lparr>g_format := code\<rparr>
      else if key = 0x6d then g\<lparr>g_more := code\<rparr>
      else if key = 0x69 then g\<lparr>g_id := code\<rparr>
      else if key = 0x49 then g\<lparr>g_image_number := code\<rparr>
      else if key = 0x70 then g\<lparr>g_placement_id := code\<rparr>
      else if key = 0x71 then g\<lparr>g_quiet := code\<rparr>
      else if key = 0x77 then g\<lparr>g_width := code\<rparr>
      else if key = 0x68 then g\<lparr>g_height := code\<rparr>
      else if key = 0x78 then g\<lparr>g_x_offset := code\<rparr>
      else if key = 0x79 then g\<lparr>g_y_offset := code\<rparr>
      else if key = 0x76 then g\<lparr>g_data_height := code\<rparr>
      else if key = 0x73 then g\<lparr>g_data_width := code\<rparr>
      else if key = 0x53 then g\<lparr>g_data_sz := code\<rparr>
      else if key = 0x4f then g\<lparr>g_data_offset := code\<rparr>
      else if key = 0x63 then g\<lparr>g_num_cells := code\<rparr>
      else if key = 0x72 then g\<lparr>g_num_lines := code\<rparr>
      else if key = 0x58 then g\<lparr>g_cell_x_offset := code\<rparr>
      else if key = 0x59 then g\<lparr>g_cell_y_offset := code\<rparr>
      else if key = 0x43 then g\<lparr>g_cursor_movement := code\<rparr>
      else g)"

text \<open>\<^verbatim>\<open>READ_UINT\<close>: at most ten digits; the number and the rest of the text.\<close>

definition read_uint :: "u32 \<Rightarrow> u32 list \<Rightarrow> graphics_error + (u32 \<times> u32 list)" where
  "read_uint key xs =
     (let ds = takeWhile is_digit (take 10 xs); rest = drop (length ds) xs; lcode = utoi ds
      in if ds = [] then Inl (Expecting_integer key)
         else if lcode > 2 ^ 32 - 1 then Inl Number_too_large
         else Inr (word_of_int lcode, rest))"

lemma read_uint_shorter: "read_uint key xs = Inr (n, rest) \<Longrightarrow> length rest < length xs"
proof -
  assume r: "read_uint key xs = Inr (n, rest)"
  define ds where "ds = takeWhile is_digit (take 10 xs)"
  from r have ne: "ds \<noteq> []" and rest: "rest = drop (length ds) xs"
    by (auto simp: read_uint_def Let_def ds_def split: if_splits)
  then have "0 < length ds" by simp
  moreover have "length ds \<le> length (take 10 xs)" unfolding ds_def by (rule length_takeWhile_le)
  ultimately have "0 < length ds \<and> length ds \<le> length xs" by simp
  with rest show ?thesis by (cases xs) auto
qed

text \<open>
  The loop and the \<^verbatim>\<open>switch\<close> after it. The text that is left is \<^verbatim>\<open>parser_buf\<close> from \<^verbatim>\<open>pos\<close> to
  \<^verbatim>\<open>parser_buf_pos\<close>; the result is the command with its payload, or the error reported.
\<close>

function parse_graphics_loop ::
  "graphics_state \<Rightarrow> u32 \<Rightarrow> graphics_command \<Rightarrow> u8 list \<Rightarrow> u32 list \<Rightarrow>
   graphics_error + (graphics_command \<times> u8 list)" where
  "parse_graphics_loop st key g payload [] =
     (case st of
        GS_EQUAL \<Rightarrow> Inl Truncated_after_key
      | GS_INT \<Rightarrow> Inl Truncated_integer
      | GS_UINT \<Rightarrow> Inl Truncated_integer
      | GS_FLAG \<Rightarrow> Inl Truncated_flag
      | _ \<Rightarrow> Inr (g, payload))"
| "parse_graphics_loop GS_KEY key g payload (c # cs) =
     (case key_value_state c of
        None \<Rightarrow> Inl (Invalid_key c)
      | Some _ \<Rightarrow> parse_graphics_loop GS_EQUAL c g payload cs)"
| "parse_graphics_loop GS_EQUAL key g payload (c # cs) =
     (if c \<noteq> 0x3d then Inl (No_equal_after_key c)
      else case key_value_state key of
             None \<Rightarrow> parse_graphics_loop GS_FLAG key g payload cs
           | Some vs \<Rightarrow> parse_graphics_loop vs key g payload cs)"
| "parse_graphics_loop GS_FLAG key g payload (c # cs) =
     (if key \<in> {0x61, 0x64, 0x74, 0x6f} then
        let v = ucast (c AND 0xff)
        in if v \<notin> set (flag_values key) then Inl (Unknown_flag key v)
           else parse_graphics_loop GS_AFTER_VALUE key (set_flag key v g) payload cs
      else parse_graphics_loop GS_AFTER_VALUE key g payload (c # cs))"
| "parse_graphics_loop GS_INT key g payload (c # cs) =
     (let is_negative = (c = 0x2d)
      in case read_uint key (if is_negative then cs else c # cs) of
           Inl e \<Rightarrow> Inl e
         | Inr (code, rest) \<Rightarrow>
             parse_graphics_loop GS_AFTER_VALUE key
               (if key = 0x7a then g\<lparr>g_z_index := if is_negative then 0 - code else code\<rparr> else g)
               payload rest)"
| "parse_graphics_loop GS_UINT key g payload (c # cs) =
     (case read_uint key (c # cs) of
        Inl e \<Rightarrow> Inl e
      | Inr (code, rest) \<Rightarrow> parse_graphics_loop GS_AFTER_VALUE key (set_uint key code g) payload rest)"
| "parse_graphics_loop GS_AFTER_VALUE key g payload (c # cs) =
     (if c = 0x2c then parse_graphics_loop GS_KEY key g payload cs
      else if c = 0x3b then parse_graphics_loop GS_PAYLOAD key g payload cs
      else Inl (Expecting_separator c))"
| "parse_graphics_loop GS_PAYLOAD key g payload (c # cs) =
     (case base64_decode (c # cs) 4096 of
        Inl e \<Rightarrow> Inl (Payload_error e)
      | Inr bytes \<Rightarrow> Inr (g\<lparr>g_payload_sz := length bytes\<rparr>, bytes))"
  by pat_completeness auto
termination
  by (relation "measures [\<lambda>(st, key, g, payload, xs). length xs,
                          \<lambda>(st, key, g, payload, xs). if st = GS_FLAG then 1 else 0]")
     (auto dest!: read_uint_shorter split: if_splits)

text \<open>\<^verbatim>\<open>parse_graphics_code\<close>, on the text after the \<^verbatim>\<open>G\<close>.\<close>

definition parse_graphics_code :: "u32 list \<Rightarrow> graphics_error + (graphics_command \<times> u8 list)" where
  "parse_graphics_code s =
     parse_graphics_loop (if s \<noteq> [] \<and> hd s = 0x3b then GS_AFTER_VALUE else GS_KEY)
       0x61 zero_graphics_command [] s"

section \<open>What a parsed command can hold\<close>

text \<open>Every flag that was given is one of its key's values.\<close>

definition flags_ok :: "graphics_command \<Rightarrow> bool" where
  "flags_ok g =
     (g_action g \<in> insert 0 (set (flag_values 0x61))
      \<and> g_delete_action g \<in> insert 0 (set (flag_values 0x64))
      \<and> g_transmission_type g \<in> insert 0 (set (flag_values 0x74))
      \<and> g_compressed g \<in> insert 0 (set (flag_values 0x6f)))"

lemma flags_ok_set_flag: "flags_ok g \<Longrightarrow> v \<in> set (flag_values key) \<Longrightarrow> flags_ok (set_flag key v g)"
  by (auto simp: flags_ok_def set_flag_def)

lemma flags_ok_set_uint [simp]: "flags_ok (set_uint key code g) = flags_ok g"
  by (simp add: flags_ok_def set_uint_def)

lemma flags_ok_update [simp]:
  "flags_ok (g\<lparr>g_z_index := z\<rparr>) = flags_ok g" "flags_ok (g\<lparr>g_payload_sz := n\<rparr>) = flags_ok g"
  by (simp_all add: flags_ok_def)

lemma payload_sz_set_flag [simp]: "g_payload_sz (set_flag key v g) = g_payload_sz g"
  by (simp add: set_flag_def)

lemma payload_sz_set_uint [simp]: "g_payload_sz (set_uint key v g) = g_payload_sz g"
  by (simp add: set_uint_def)

lemma parse_graphics_loop_sound:
  "parse_graphics_loop st key g payload xs = Inr (g', out) \<Longrightarrow> flags_ok g \<Longrightarrow>
   g_payload_sz g = length payload \<Longrightarrow> length payload \<le> 4096 \<Longrightarrow>
   flags_ok g' \<and> g_payload_sz g' = length out \<and> length out \<le> 4096"
proof (induction st key g payload xs rule: parse_graphics_loop.induct)
  case (4 key g payload c cs)
  then show ?case by (auto simp: Let_def flags_ok_set_flag split: if_splits)
next
  case (8 key g payload c cs)
  then show ?case by (auto split: sum.splits dest: base64_decode_length)
qed (auto simp: Let_def split: if_splits option.splits sum.splits graphics_state.splits)

text \<open>
  C33: Whatever the text, a graphics command that is accepted has only flag values its keys allow
  and a payload of at most 4096 bytes whose length it states; everything else is reported as an
  error.
\<close>

theorem parse_graphics_code_sound:
  "case parse_graphics_code s of
     Inl e \<Rightarrow> True
   | Inr (g, payload) \<Rightarrow> flags_ok g \<and> g_payload_sz g = length payload \<and> length payload \<le> 4096"
proof (cases "parse_graphics_code s")
  case (Inr r)
  obtain g payload where r: "r = (g, payload)" by (cases r)
  have "flags_ok zero_graphics_command" "g_payload_sz zero_graphics_command = length ([] :: u8 list)"
    by (simp_all add: flags_ok_def zero_graphics_command_def)
  then show ?thesis
    using Inr r parse_graphics_loop_sound [of _ _ zero_graphics_command "[]" s g payload]
    by (simp add: parse_graphics_code_def)
qed simp

section \<open>Printed commands are read back\<close>

text \<open>The control block as an application writes it: items separated by commas.\<close>

datatype graphics_item = Flag_item u32 u8 | Uint_item u32 u32 | Int_item int

fun item_ok :: "graphics_item \<Rightarrow> bool" where
  "item_ok (Flag_item key v) = (key_value_state key = Some GS_FLAG \<and> v \<in> set (flag_values key))"
| "item_ok (Uint_item key n) = (key_value_state key = Some GS_UINT)"
| "item_ok (Int_item z) = (\<bar>z\<bar> < 2 ^ 32)"

fun print_graphics_item :: "graphics_item \<Rightarrow> u32 list" where
  "print_graphics_item (Flag_item key v) = [key, 0x3d, ucast v]"
| "print_graphics_item (Uint_item key n) = [key, 0x3d] @ decimal (unat n)"
| "print_graphics_item (Int_item z) =
     [0x7a, 0x3d] @ (if z < 0 then [0x2d] else []) @ decimal (nat \<bar>z\<bar>)"

fun apply_graphics_item :: "graphics_item \<Rightarrow> graphics_command \<Rightarrow> graphics_command" where
  "apply_graphics_item (Flag_item key v) g = set_flag key v g"
| "apply_graphics_item (Uint_item key n) g = set_uint key n g"
| "apply_graphics_item (Int_item z) g = g\<lparr>g_z_index := word_of_int z\<rparr>"

fun print_graphics_items :: "graphics_item list \<Rightarrow> u32 list" where
  "print_graphics_items [] = []"
| "print_graphics_items [i] = print_graphics_item i"
| "print_graphics_items (i # its) = print_graphics_item i @ [0x2c] @ print_graphics_items its"

lemma utoi_decimal: "n < 2 ^ 32 \<Longrightarrow> utoi (decimal n) = int n"
proof -
  assume n: "n < 2 ^ 32"
  have "hd (decimal n) \<noteq> 0x2d"
    using decimal_digits [of n] by (cases "decimal n") (auto simp: is_digit_def)
  moreover have "length (decimal n) \<le> Suc 9" by (rule length_decimal) (use n in simp)
  ultimately show ?thesis using skip_zeros_decimal [of n] by (simp add: utoi_def)
qed

lemma takeWhile_digits:
  "list_all is_digit ds \<Longrightarrow> (rest = [] \<or> \<not> is_digit (hd rest)) \<Longrightarrow> length ds \<le> k \<Longrightarrow>
   takeWhile is_digit (take k (ds @ rest)) = ds"
proof (induction ds arbitrary: k)
  case Nil
  then show ?case by (cases k; cases rest) auto
next
  case (Cons d ds)
  then show ?case by (cases k) auto
qed

lemma read_uint_decimal:
  assumes n: "n < 2 ^ 32" and rest: "rest = [] \<or> \<not> is_digit (hd rest)"
  shows "read_uint key (decimal n @ rest) = Inr (word_of_nat n, rest)"
proof -
  have len: "length (decimal n) \<le> 10" using length_decimal [of n 9] n by simp
  have d: "takeWhile is_digit (take 10 (decimal n @ rest)) = decimal n"
    by (rule takeWhile_digits) (use len rest decimal_digits in auto)
  have "\<not> int n > 2 ^ 32 - 1" using n by simp
  moreover have "decimal n \<noteq> []" using decimal_digits by blast
  ultimately show ?thesis
    by (simp add: read_uint_def Let_def d utoi_decimal [OF n] del: take_append)
qed

lemma hd_decimal_digit: "is_digit (hd (decimal n @ rest)) \<and> decimal n @ rest \<noteq> []"
  using decimal_digits [of n] by (cases "decimal n") auto

lemma parse_graphics_item:
  assumes ok: "item_ok i" and rest: "rest = [] \<or> \<not> is_digit (hd rest)"
  shows "\<exists>key'. parse_graphics_loop GS_KEY key g payload (print_graphics_item i @ rest)
       = parse_graphics_loop GS_AFTER_VALUE key' (apply_graphics_item i g) payload rest"
proof (cases i)
  case (Flag_item k v)
  with ok have k: "k \<in> {0x61, 0x64, 0x74, 0x6f}"
    by (auto simp: key_value_state_def split: if_splits)
  have m: "(0xff :: u32) = mask 8" by (simp add: mask_eq_exp_minus_1)
  have v: "ucast ((ucast v :: u32) AND 0xff) = v"
    unfolding m by (rule bit_word_eqI) (auto simp: bit_simps)
  from ok Flag_item k show ?thesis by (intro exI [of _ k]) (simp add: Let_def v)
next
  case (Uint_item k n)
  have r: "read_uint k (decimal (unat n) @ rest) = Inr (n, rest)"
    using read_uint_decimal [OF _ rest, of "unat n" k] unsigned_less [of n, where 'a = nat] by simp
  obtain d ds where d: "decimal (unat n) @ rest = d # ds"
    using hd_decimal_digit [of "unat n" rest] by (cases "decimal (unat n) @ rest") auto
  from ok Uint_item show ?thesis
    by (intro exI [of _ k]) (simp add: d r [unfolded d])
next
  case (Int_item z)
  define n where "n = nat \<bar>z\<bar>"
  have n: "n < 2 ^ 32" using ok Int_item by (simp add: n_def nat_less_iff)
  have r: "read_uint 0x7a (decimal n @ rest) = Inr (word_of_nat n, rest)"
    by (rule read_uint_decimal [OF n rest])
  obtain d ds where d: "decimal n @ rest = d # ds" and "is_digit d"
    using hd_decimal_digit [of n rest] by (cases "decimal n @ rest") auto
  then have nd: "d \<noteq> 0x2d" by (auto simp: is_digit_def)
  have ks: "key_value_state 0x7a = Some GS_INT" by (simp add: key_value_state_def)
  show ?thesis
  proof (cases "z < 0")
    case True
    then have z: "(0 - word_of_nat n :: u32) = word_of_int z" and nz: "nat (- z) = n"
      by (simp_all add: n_def)
    show ?thesis using Int_item True r ks
      by (intro exI [of _ "0x7a"]) (simp add: nz Let_def z [simplified])
  next
    case False
    then have z: "(word_of_nat n :: u32) = word_of_int z" and nz: "nat z = n" by (simp_all add: n_def)
    show ?thesis using Int_item False r ks nd
      by (intro exI [of _ "0x7a"]) (simp add: nz Let_def d z)
  qed
qed


lemma parse_graphics_items:
  assumes "its \<noteq> []" and "list_all item_ok its" and "rest = [] \<or> hd rest = 0x3b"
  shows "\<exists>key'. parse_graphics_loop GS_KEY key g payload (print_graphics_items its @ rest)
       = parse_graphics_loop GS_AFTER_VALUE key' (fold apply_graphics_item its g) payload rest"
  using assms
proof (induction "its" arbitrary: key g rule: print_graphics_items.induct)
  case (2 i)
  then have "rest = [] \<or> \<not> is_digit (hd rest)" by (auto simp: is_digit_def)
  with 2 parse_graphics_item [of i rest key g payload] show ?case by simp
next
  case (3 i j js)
  define rest' where "rest' = 0x2c # print_graphics_items (j # js) @ rest"
  have "rest' = [] \<or> \<not> is_digit (hd rest')" by (simp add: rest'_def is_digit_def)
  with 3 parse_graphics_item [of i rest' key g payload] obtain key' where
    "parse_graphics_loop GS_KEY key g payload (print_graphics_item i @ rest')
       = parse_graphics_loop GS_AFTER_VALUE key' (apply_graphics_item i g) payload rest'" by auto
  moreover from 3 obtain key'' where
    "parse_graphics_loop GS_KEY key' (apply_graphics_item i g) payload (print_graphics_items (j # js) @ rest)
       = parse_graphics_loop GS_AFTER_VALUE key'' (fold apply_graphics_item (i # j # js) g) payload rest"
    by fastforce
  ultimately show ?case by (auto simp: rest'_def)
qed simp

lemma print_graphics_items_hd:
  "its \<noteq> [] \<Longrightarrow> list_all item_ok its \<Longrightarrow>
   print_graphics_items its \<noteq> [] \<and> hd (print_graphics_items its) \<noteq> 0x3b"
proof (induction "its" rule: print_graphics_items.induct)
  case (2 i)
  then show ?case by (cases i) (auto simp: key_value_state_def)
next
  case (3 i j js)
  then show ?case by (cases i) (auto simp: key_value_state_def)
qed simp

text \<open>
  C29: The key=value text of a graphics command with its base64 payload parses back to the fields
  and the payload it was printed from.
\<close>

theorem graphics_command_roundtrip:
  assumes items: "its \<noteq> []" "list_all item_ok its" and room: "length payload \<le> 4096"
  shows "parse_graphics_code (print_graphics_items its @ 0x3b # rfc4648_encode payload)
       = Inr ((fold apply_graphics_item its zero_graphics_command)\<lparr>g_payload_sz := length payload\<rparr>, payload)"
proof -
  define g where "g = fold apply_graphics_item its zero_graphics_command"
  have sz: "g_payload_sz (fold apply_graphics_item its h) = g_payload_sz h" for h
  proof (induction "its" arbitrary: h)
    case (Cons i its)
    then show ?case by (cases i) simp_all
  qed simp
  then have g: "g_payload_sz g = 0" by (simp add: g_def zero_graphics_command_def)
  obtain key where loop:
    "parse_graphics_loop GS_KEY 0x61 zero_graphics_command [] (print_graphics_items its @ 0x3b # rfc4648_encode payload)
      = parse_graphics_loop GS_AFTER_VALUE key g [] (0x3b # rfc4648_encode payload)"
    using parse_graphics_items [OF items, of "0x3b # rfc4648_encode payload" "0x61" zero_graphics_command "[]"]
    by (auto simp: g_def)
  have last: "parse_graphics_loop GS_PAYLOAD key g [] (rfc4648_encode payload)
      = Inr (g\<lparr>g_payload_sz := length payload\<rparr>, payload)"
  proof (cases "payload = []")
    case True
    with g show ?thesis by simp
  next
    case False
    then obtain c cs where e: "rfc4648_encode payload = c # cs"
      by (cases payload rule: rfc4648_encode.cases) auto
    show ?thesis using base64_decode_rfc4648 [OF room] by (simp add: e)
  qed
  have "print_graphics_items its \<noteq> []" and "hd (print_graphics_items its) \<noteq> 0x3b"
    using print_graphics_items_hd [OF items] by auto
  then show ?thesis
    by (simp add: parse_graphics_code_def loop last [unfolded g_def] g_def)
qed

theorem graphics_command_roundtrip_witness:
  "parse_graphics_code
     (print_graphics_items [Flag_item 0x61 0x54, Uint_item 0x66 100, Int_item (-7)] @ 0x3b # rfc4648_encode [1, 2, 255])
   = Inr ((fold apply_graphics_item [Flag_item 0x61 0x54, Uint_item 0x66 100, Int_item (-7)] zero_graphics_command)
            \<lparr>g_payload_sz := length [1 :: u8, 2, 255]\<rparr>, [1, 2, 255])"
  by (rule graphics_command_roundtrip) (simp_all add: key_value_state_def flag_values_def)

end
