(* ===== verification/Parser_Dispatch.thy ===== *)
theory Parser_Dispatch
  imports Graphics_Command Utf8
begin

text \<open>
  The dispatch half of \<^verbatim>\<open>smelly/parser.c\<close>: what a complete escape code asks the screen to do. Each
  \<^verbatim>\<open>dispatch_*\<close> function reads the accumulated code from \<^verbatim>\<open>parser_buf\<close> and calls functions of
  \<^verbatim>\<open>screen.c\<close>; it is modelled as the list of these calls, in order, over the array and the position
  of the parser. A report of \<^verbatim>\<open>REPORT_ERROR\<close> is a call too.
\<close>

section \<open>Control codes\<close>

abbreviation (input) NUL :: u32 where "NUL \<equiv> 0"
abbreviation (input) BEL :: u32 where "BEL \<equiv> 0x07"
abbreviation (input) BS :: u32 where "BS \<equiv> 0x08"
abbreviation (input) HT :: u32 where "HT \<equiv> 0x09"
abbreviation (input) LF :: u32 where "LF \<equiv> 0x0a"
abbreviation (input) VT :: u32 where "VT \<equiv> 0x0b"
abbreviation (input) FF :: u32 where "FF \<equiv> 0x0c"
abbreviation (input) CR :: u32 where "CR \<equiv> 0x0d"
abbreviation (input) SO :: u32 where "SO \<equiv> 0x0e"
abbreviation (input) SI :: u32 where "SI \<equiv> 0x0f"
abbreviation (input) ESC :: u32 where "ESC \<equiv> 0x1b"
abbreviation (input) DEL :: u32 where "DEL \<equiv> 0x7f"
abbreviation (input) IND :: u32 where "IND \<equiv> 0x84"
abbreviation (input) NEL :: u32 where "NEL \<equiv> 0x85"
abbreviation (input) HTS :: u32 where "HTS \<equiv> 0x88"
abbreviation (input) RI :: u32 where "RI \<equiv> 0x8d"
abbreviation (input) DCS :: u32 where "DCS \<equiv> 0x90"
abbreviation (input) CSI :: u32 where "CSI \<equiv> 0x9b"
abbreviation (input) ST :: u32 where "ST \<equiv> 0x9c"
abbreviation (input) OSC :: u32 where "OSC \<equiv> 0x9d"
abbreviation (input) PM :: u32 where "PM \<equiv> 0x9e"
abbreviation (input) APC :: u32 where "APC \<equiv> 0x9f"

text \<open>The code of an ASCII character: \<open>ch CHR ''A''\<close> is \<^verbatim>\<open>'A'\<close>.\<close>

definition ch :: "char \<Rightarrow> u32" where
  "ch c = word_of_nat (of_char c)"

lemma ch_ascii [code_unfold]:
  "ch CHR '' '' = 0x20" "ch CHR ''!'' = 0x21" "ch CHR ''#'' = 0x23" "ch CHR ''$'' = 0x24"
  "ch CHR ''%'' = 0x25" "ch CHR ''&'' = 0x26" "ch CHR ''('' = 0x28" "ch CHR '')'' = 0x29"
  "ch CHR ''*'' = 0x2a" "ch CHR ''+'' = 0x2b" "ch CHR '','' = 0x2c" "ch CHR ''-'' = 0x2d"
  "ch CHR ''.'' = 0x2e" "ch CHR ''/'' = 0x2f" "ch CHR ''0'' = 0x30" "ch CHR ''1'' = 0x31"
  "ch CHR ''2'' = 0x32" "ch CHR ''3'' = 0x33" "ch CHR ''4'' = 0x34" "ch CHR ''5'' = 0x35"
  "ch CHR ''6'' = 0x36" "ch CHR ''7'' = 0x37" "ch CHR ''8'' = 0x38" "ch CHR ''9'' = 0x39"
  "ch CHR '':'' = 0x3a" "ch CHR '';'' = 0x3b" "ch CHR ''<'' = 0x3c" "ch CHR ''='' = 0x3d"
  "ch CHR ''>'' = 0x3e" "ch CHR ''?'' = 0x3f" "ch CHR ''@'' = 0x40" "ch CHR ''A'' = 0x41"
  "ch CHR ''B'' = 0x42" "ch CHR ''C'' = 0x43" "ch CHR ''D'' = 0x44" "ch CHR ''E'' = 0x45"
  "ch CHR ''F'' = 0x46" "ch CHR ''G'' = 0x47" "ch CHR ''H'' = 0x48" "ch CHR ''I'' = 0x49"
  "ch CHR ''J'' = 0x4a" "ch CHR ''K'' = 0x4b" "ch CHR ''L'' = 0x4c" "ch CHR ''M'' = 0x4d"
  "ch CHR ''N'' = 0x4e" "ch CHR ''O'' = 0x4f" "ch CHR ''P'' = 0x50" "ch CHR ''Q'' = 0x51"
  "ch CHR ''R'' = 0x52" "ch CHR ''S'' = 0x53" "ch CHR ''T'' = 0x54" "ch CHR ''U'' = 0x55"
  "ch CHR ''V'' = 0x56" "ch CHR ''W'' = 0x57" "ch CHR ''X'' = 0x58" "ch CHR ''Y'' = 0x59"
  "ch CHR ''Z'' = 0x5a" "ch CHR ''['' = 0x5b" "ch CHR '']'' = 0x5d" "ch CHR ''^'' = 0x5e"
  "ch CHR ''_'' = 0x5f" "ch CHR ''a'' = 0x61" "ch CHR ''b'' = 0x62" "ch CHR ''c'' = 0x63"
  "ch CHR ''d'' = 0x64" "ch CHR ''e'' = 0x65" "ch CHR ''f'' = 0x66" "ch CHR ''g'' = 0x67"
  "ch CHR ''h'' = 0x68" "ch CHR ''i'' = 0x69" "ch CHR ''j'' = 0x6a" "ch CHR ''k'' = 0x6b"
  "ch CHR ''l'' = 0x6c" "ch CHR ''m'' = 0x6d" "ch CHR ''n'' = 0x6e" "ch CHR ''o'' = 0x6f"
  "ch CHR ''p'' = 0x70" "ch CHR ''q'' = 0x71" "ch CHR ''r'' = 0x72" "ch CHR ''s'' = 0x73"
  "ch CHR ''t'' = 0x74" "ch CHR ''u'' = 0x75" "ch CHR ''v'' = 0x76" "ch CHR ''w'' = 0x77"
  "ch CHR ''x'' = 0x78" "ch CHR ''y'' = 0x79" "ch CHR ''z'' = 0x7a" "ch CHR ''{'' = 0x7b"
  "ch CHR ''|'' = 0x7c" "ch CHR ''}'' = 0x7d" "ch CHR ''~'' = 0x7e" "ch CHR 0x5c = 0x5c"
  "ch CHR 0x60 = 0x60"
  by (simp_all add: ch_def)

definition chars :: "string \<Rightarrow> u32 list" where
  "chars s = map ch s"

section \<open>The calls\<close>

record region =
  r_top :: nat
  r_left :: nat
  r_bottom :: nat
  r_right :: nat

text \<open>
  Errors carry the character or code they report. \<open>Csi_error\<close> stands for the reports of
  \<^verbatim>\<open>dispatch_csi\<close>: the code, the start and end modifiers and the parameters.
\<close>

datatype csi_error_kind =
  Too_many_parameters nat | Negative_parameter int | Unsupported_modifiers | Unknown_code
  | Hyphen_inside_number | Invalid_sgr | Resize_not_supported

datatype parse_error =
  Unknown_char_after_ESC u32 | Unhandled_ESC_code u32 u32 | Unknown_charset u32
  | Malformed_OSC_8 | Unknown_OSC int | OSC_697
  | Csi_error u32 csi_error_kind
  | Unrecognized_DCS u32 u32 | Pending_stop_without_start | Unrecognized_DCS_at "u32 list"
  | Unrecognized_APC u32 | Unrecognized_PM u32 | Graphics_error graphics_error
  | Sequence_too_long u32 | Sequence_invalid_char u32 u32

text \<open>
  One constructor per function of \<^verbatim>\<open>screen.c\<close> that the parser calls: the functions of the screen alone,
  those with one number, those with a mode, the OSC handlers with their text, and the others.
\<close>

datatype screen_call0 =
  Screen_bell | Screen_backspace | Screen_tab | Screen_carriage_return | Screen_linefeed
  | Screen_index | Screen_reverse_index | Screen_set_tab_stop | Screen_reset | Screen_save_cursor
  | Screen_restore_cursor | Screen_normal_keypad_mode | Screen_alternate_keypad_mode
  | Screen_align | Screen_report_color_stack | Screen_save_modes | Screen_restore_modes
  | Screen_report_key_encoding_flags

datatype screen_call1 =
  Screen_insert_characters | Screen_repeat_character | Screen_cursor_up2 | Screen_cursor_down
  | Screen_cursor_forward | Screen_cursor_back1 | Screen_cursor_down1 | Screen_cursor_up1
  | Screen_cursor_to_column | Screen_cursor_to_line | Screen_backtab | Screen_tabn
  | Screen_insert_lines | Screen_delete_lines | Screen_delete_characters
  | Screen_erase_characters | Screen_clear_tab_stop | Screen_scroll | Screen_reverse_scroll
  | Screen_reverse_scroll_and_fill_from_scrollback | Screen_push_colors | Screen_pop_colors
  | Screen_report_size | Screen_decsace | Screen_xtversion | Screen_push_key_encoding_flags
  | Screen_pop_key_encoding_flags | Screen_change_charset

datatype mode_call =
  Screen_set_mode | Screen_reset_mode | Screen_save_mode | Screen_restore_mode

datatype osc_call =
  Set_title "u32 list" | Set_icon "u32 list" | Set_color_table_color int "u32 list"
  | Process_cwd_notification int "u32 list" | Desktop_notify int "u32 list"
  | Set_dynamic_color int "u32 list" | Clipboard_control int "u32 list"
  | Shell_prompt_marking "u32 list" | File_transmission "u32 list"
  | Set_active_hyperlink "u32 list option" "u32 list option"

datatype screen_call =
  Call0 screen_call0 | Call1 screen_call1 nat | Call_mode mode_call nat | Call_osc osc_call
  | Screen_designate_charset nat u32 | Screen_draw u32
  | Screen_use_latin1 bool | Screen_set_8bit_controls bool
  | Select_graphic_rendition "int list" "region option"
  | Screen_cursor_position nat nat | Screen_set_margins nat nat
  | Screen_erase_in_display nat bool | Screen_erase_in_line nat bool
  | Screen_manipulate_title_stack nat nat | Screen_set_key_encoding_flags nat nat
  | Screen_set_cursor nat u32
  | Report_device_attributes nat u32 | Report_device_status nat bool | Report_mode_status nat bool
  | Screen_request_capabilities u32 "u32 list"
  | Screen_handle_cmd "u32 list" | Screen_handle_smelly_dcs string "u32 list"
  | Screen_handle_graphics_command graphics_command "u8 list"
  | Report_error parse_error

section \<open>Normal mode and ESC mode\<close>

text \<open>\<^verbatim>\<open>screen_nel\<close>.\<close>

definition screen_nel :: "screen_call list" where
  "screen_nel = [Call0 Screen_carriage_return, Call0 Screen_linefeed]"

text \<open>\<open>Inl s\<close> is \<^verbatim>\<open>SET_STATE(s)\<close>, \<open>Inr cs\<close> the calls.\<close>

definition normal_mode_char :: "u32 \<Rightarrow> u32 + screen_call list" where
  "normal_mode_char c =
     (if c = BEL then Inr [Call0 Screen_bell]
      else if c = BS then Inr [Call0 Screen_backspace]
      else if c = HT then Inr [Call0 Screen_tab]
      else if c = NEL then Inr screen_nel
      else if c = LF \<or> c = VT \<or> c = FF then Inr [Call0 Screen_linefeed]
      else if c = CR then Inr [Call0 Screen_carriage_return]
      else if c = SI then Inr [Call1 Screen_change_charset 0]
      else if c = SO then Inr [Call1 Screen_change_charset 1]
      else if c = IND then Inr [Call0 Screen_index]
      else if c = RI then Inr [Call0 Screen_reverse_index]
      else if c = HTS then Inr [Call0 Screen_set_tab_stop]
      else if c \<in> {ESC, CSI, OSC, DCS, APC, PM} then Inl c
      else if c = NUL \<or> c = DEL then Inr []
      else Inr [Screen_draw c])"

text \<open>The characters after ESC that start an escape code of their own.\<close>

definition esc_start_state :: "u32 \<Rightarrow> u32 option" where
  "esc_start_state c =
     (if c = ch CHR ''P'' then Some DCS
      else if c = ch CHR '']'' then Some OSC
      else if c = ch CHR ''['' then Some CSI
      else if c = ch CHR ''_'' then Some APC
      else if c = ch CHR ''^'' then Some PM
      else None)"

definition esc_is_intermediate :: "u32 \<Rightarrow> bool" where
  "esc_is_intermediate c = (c \<in> set (chars ''%()*+-./ #''))"

text \<open>The first character after ESC, when it does not start another state or an ESC code of two characters.\<close>

definition esc_single_calls :: "u32 \<Rightarrow> screen_call list" where
  "esc_single_calls c =
     (if c = ch CHR ''c'' then [Call0 Screen_reset]
      else if c = ch CHR ''D'' then [Call0 Screen_index]
      else if c = ch CHR ''E'' then screen_nel
      else if c = ch CHR ''M'' then [Call0 Screen_reverse_index]
      else if c = ch CHR ''H'' then [Call0 Screen_set_tab_stop]
      else if c = ch CHR ''7'' then [Call0 Screen_save_cursor]
      else if c = ch CHR ''8'' then [Call0 Screen_restore_cursor]
      else if c = ch CHR ''>'' then [Call0 Screen_normal_keypad_mode]
      else if c = ch CHR ''='' then [Call0 Screen_alternate_keypad_mode]
      else [Report_error (Unknown_char_after_ESC c)])"

text \<open>ESC, an intermediate character \<open>c0\<close> and \<open>c\<close>.\<close>

definition esc_pair_calls :: "u32 \<Rightarrow> u32 \<Rightarrow> screen_call list" where
  "esc_pair_calls c0 c =
     (if c0 = ch CHR ''%'' then
        (if c = ch CHR ''@'' then [Screen_use_latin1 True]
         else if c = ch CHR ''G'' then [Screen_use_latin1 False]
         else [Report_error (Unhandled_ESC_code c0 c)])
      else if c0 = ch CHR ''#'' then
        (if c = ch CHR ''8'' then [Call0 Screen_align] else [Report_error (Unhandled_ESC_code c0 c)])
      else if c0 = ch CHR ''('' \<or> c0 = ch CHR '')'' then
        (if c \<in> set (chars ''AB0UV'')
         then [Screen_designate_charset (unat (c0 - ch CHR ''('')) c]
         else [Report_error (Unknown_charset c)])
      else if c0 = ch CHR '' '' then
        (if c = ch CHR ''F'' \<or> c = ch CHR ''G''
         then [Screen_set_8bit_controls (c = ch CHR ''G'')]
         else [Report_error (Unhandled_ESC_code c0 c)])
      else [Report_error (Unhandled_ESC_code c0 c)])"

section \<open>OSC\<close>

text \<open>\<^verbatim>\<open>strtok_r(buf, ":", ..)\<close>: the nonempty tokens.\<close>

fun strtok :: "u32 list \<Rightarrow> u32 list \<Rightarrow> u32 list list" where
  "strtok [] cur = (if cur = [] then [] else [cur])"
| "strtok (c # cs) cur =
     (if c = ch CHR '':'' then (if cur = [] then strtok cs [] else cur # strtok cs [])
      else strtok cs (cur @ [c]))"

definition osc_8_id :: "u32 list list \<Rightarrow> u32 list option" where
  "osc_8_id tokens =
     map_option (drop 3) (List.find (\<lambda>t. length t > 3 \<and> take 3 t = chars ''id='') tokens)"

text \<open>\<^verbatim>\<open>parse_osc_8\<close>: the id and the URL, or \<open>None\<close> when there is no semicolon.\<close>

definition parse_osc_8 :: "u32 list \<Rightarrow> (u32 list option \<times> u32 list option) option" where
  "parse_osc_8 buf =
     (if ch CHR '';'' \<notin> set buf then None
      else
        let before = takeWhile (\<lambda>c. c \<noteq> ch CHR '';'') buf;
            after = tl (dropWhile (\<lambda>c. c \<noteq> ch CHR '';'') buf)
        in Some (osc_8_id (strtok before []), if after = [] then None else Some after))"

definition hyperlink_byte :: "u32 \<Rightarrow> u32" where
  "hyperlink_byte c = (let d = c AND 0x7f in if d < 32 \<or> d > 126 then ch CHR ''_'' else d)"

definition dispatch_hyperlink :: "u32 list \<Rightarrow> screen_call list" where
  "dispatch_hyperlink s =
     (if s = [] then []
      else case parse_osc_8 (map hyperlink_byte s) of
             Some (i, u) \<Rightarrow> [Call_osc (Set_active_hyperlink i u)]
           | None \<Rightarrow> [Report_error Malformed_OSC_8])"

text \<open>\<^verbatim>\<open>PyUnicode_FromKindAndData\<close> fails on values that are not code points.\<close>

definition py_unicode :: "u32 list \<Rightarrow> u32 list option" where
  "py_unicode s = (if (\<forall>c\<in>set s. c \<le> 0x10ffff) then Some s else None)"

text \<open>\<^verbatim>\<open>START_DISPATCH .. END_DISPATCH\<close>.\<close>

definition with_string :: "u32 list \<Rightarrow> (u32 list \<Rightarrow> screen_call list) \<Rightarrow> screen_call list" where
  "with_string s f = (case py_unicode s of None \<Rightarrow> [] | Some str \<Rightarrow> f str)"

definition is_extended_osc :: "u32 list \<Rightarrow> nat \<Rightarrow> bool" where
  "is_extended_osc buf pos =
     (pos > 2 \<and> buf ! 0 = 0x1b \<and> buf ! 1 = 1 \<and> buf ! 2 = ch CHR '';'')"

text \<open>The code and the index at which the text of the OSC code starts.\<close>

definition osc_code :: "u32 list \<Rightarrow> nat \<Rightarrow> int \<times> nat" where
  "osc_code buf limit =
     (let i = length (takeWhile is_digit (take (min limit 5) buf)) in
      if i > 0 then
        (utoi (take i buf), if i < limit \<and> buf ! i = ch CHR '';'' then i + 1 else i)
      else if is_extended_osc buf limit then (-52, 3)
      else (0, 0))"

abbreviation (input) FILE_TRANSFER_CODE :: int where "FILE_TRANSFER_CODE \<equiv> 5113"

definition osc_calls :: "int \<Rightarrow> u32 list \<Rightarrow> screen_call list" where
  "osc_calls code s =
     (if code = 0 then with_string s (\<lambda>s. [Call_osc (Set_title s), Call_osc (Set_icon s)])
      else if code = 1 then with_string s (\<lambda>s. [Call_osc (Set_icon s)])
      else if code = 2 then with_string s (\<lambda>s. [Call_osc (Set_title s)])
      else if code \<in> {4, 104} then with_string s (\<lambda>s. [Call_osc (Set_color_table_color code s)])
      else if code \<in> {6, 7} then with_string s (\<lambda>s. [Call_osc (Process_cwd_notification code s)])
      else if code = 8 then dispatch_hyperlink s
      else if code \<in> {9, 99, 777} then with_string s (\<lambda>s. [Call_osc (Desktop_notify code s)])
      else if code \<in> {10, 11, 12, 17, 19, 110, 111, 112, 117, 119}
        then with_string s (\<lambda>s. [Call_osc (Set_dynamic_color code s)])
      else if code \<in> {52, -52, 5522} then with_string s (\<lambda>s. [Call_osc (Clipboard_control code s)])
      else if code = 133 then with_string s (\<lambda>s. [Call_osc (Shell_prompt_marking s)])
      else if code = FILE_TRANSFER_CODE then with_string s (\<lambda>s. [Call_osc (File_transmission s)])
      else if code = 30001 then [Call1 Screen_push_colors 0]
      else if code = 30101 then [Call1 Screen_pop_colors 0]
      else if code = 697 then [Report_error OSC_697]
      else [Report_error (Unknown_OSC code)])"

text \<open>The calls, and whether \<^verbatim>\<open>continue_osc_52\<close> follows.\<close>

definition dispatch_osc :: "u32 list \<Rightarrow> nat \<Rightarrow> screen_call list \<times> bool" where
  "dispatch_osc buf limit =
     (let (code, i) = osc_code buf limit; s = slice buf i (limit - i)
      in (osc_calls code s, code = -52 \<and> py_unicode s \<noteq> None))"

section \<open>CSI\<close>

text \<open>
  \<^verbatim>\<open>parse_region\<close>: the numbers, at most four, and the text after them. A number counts only when a
  separator follows it.
\<close>

fun parse_region_loop :: "u32 list \<Rightarrow> u32 list \<Rightarrow> int list \<Rightarrow> int list \<times> u32 list" where
  "parse_region_loop [] cur ps = (ps, [])"
| "parse_region_loop (c # cs) cur ps =
     (if length ps \<ge> 4 then (ps, c # cs)
      else if is_digit c then parse_region_loop cs (cur @ [c]) ps
      else parse_region_loop cs []
             (if cur \<noteq> [] then ps @ [param_value cur] else if c = ch CHR '';'' then ps @ [0] else ps))"

definition to_unsigned :: "int \<Rightarrow> nat" where
  "to_unsigned x = nat (x mod 2 ^ 32)"

definition parse_region :: "u32 list \<Rightarrow> region \<times> u32 list" where
  "parse_region buf =
     (let (ps, rest) = parse_region_loop buf [] [];
          p = (\<lambda>k. if k < length ps then to_unsigned (ps ! k) else 0)
      in (\<lparr>r_top = p 0, r_left = p 1, r_bottom = p 2, r_right = p 3\<rparr>, rest))"

text \<open>The parameters of the other codes; \<open>None\<close> when a hyphen is inside a number.\<close>

fun csi_params :: "u32 list \<Rightarrow> u32 list \<Rightarrow> int list \<Rightarrow> int list option" where
  "csi_params [] cur ps = Some (if cur \<noteq> [] then ps @ [param_value cur] else ps)"
| "csi_params (c # cs) cur ps =
     (if is_digit c then csi_params cs (cur @ [c]) ps
      else if c = ch CHR ''-'' then (if cur \<noteq> [] then None else csi_params cs [c] ps)
      else
        let ps = (if cur \<noteq> [] then ps @ [param_value cur] else if c = ch CHR '';'' then ps @ [0] else ps)
        in if length ps \<ge> MAX_PARAMS then Some ps else csi_params cs [] ps)"

definition csi_report :: "u32 \<Rightarrow> csi_error_kind \<Rightarrow> screen_call list" where
  "csi_report code k = [Report_error (Csi_error code k)]"

text \<open>\<^verbatim>\<open>CALL_CSI_HANDLER1\<close> and its variants; the modifiers are part of \<open>f\<close>.\<close>

definition csi_handler1 :: "u32 \<Rightarrow> (nat \<Rightarrow> screen_call) \<Rightarrow> int \<Rightarrow> int list \<Rightarrow> screen_call list" where
  "csi_handler1 code f defval ps =
     (if length ps > 1 then csi_report code (Too_many_parameters (length ps))
      else
        let p1 = (if length ps > 0 then ps ! 0 else defval)
        in if p1 < 0 then csi_report code (Negative_parameter p1) else [f (nat p1)])"

definition csi_handler2 ::
  "u32 \<Rightarrow> (nat \<Rightarrow> nat \<Rightarrow> screen_call) \<Rightarrow> int \<Rightarrow> int \<Rightarrow> int list \<Rightarrow> screen_call list" where
  "csi_handler2 code f defval1 defval2 ps =
     (if length ps > 2 then csi_report code (Too_many_parameters (length ps))
      else
        let p1 = (if length ps > 0 then ps ! 0 else defval1);
            p2 = (if length ps > 1 then ps ! 1 else defval2)
        in if p1 < 0 then csi_report code (Negative_parameter p1)
           else if p2 < 0 then csi_report code (Negative_parameter p2)
           else [f (nat p1) (nat p2)])"

text \<open>\<^verbatim>\<open>SET_MODE\<close>: a private mode is the number shifted by 5.\<close>

fun csi_set_mode :: "u32 \<Rightarrow> (nat \<Rightarrow> screen_call) \<Rightarrow> bool \<Rightarrow> int list \<Rightarrow> screen_call list" where
  "csi_set_mode code f private [] = []"
| "csi_set_mode code f private (p # ps) =
     (if p < 0 then csi_report code (Negative_parameter p)
      else f (to_unsigned (if private then p * 2 ^ 5 else p)) # csi_set_mode code f private ps)"

definition sgr_calls :: "u32 \<Rightarrow> u32 list \<Rightarrow> region option \<Rightarrow> screen_call list" where
  "sgr_calls code buf r =
     (let (sent, ok) = parse_sgr buf
      in map (\<lambda>ps. Select_graphic_rendition ps r) sent @ (if ok then [] else csi_report code Invalid_sgr))"

text \<open>
  The \<^verbatim>\<open>switch (code)\<close>. \<open>sm\<close> and \<open>em\<close> are the start and end modifiers, 0 when there is none. The
  codes with one handler, default 1 and no condition on the modifiers come first.
\<close>

definition csi_simple :: "(char \<times> screen_call1 \<times> int) list" where
  "csi_simple =
     [(CHR ''b'', Screen_repeat_character, 1), (CHR ''B'', Screen_cursor_down, 1),
      (CHR ''e'', Screen_cursor_down, 1), (CHR ''C'', Screen_cursor_forward, 1),
      (CHR ''a'', Screen_cursor_forward, 1), (CHR ''D'', Screen_cursor_back1, 1),
      (CHR ''E'', Screen_cursor_down1, 1), (CHR ''F'', Screen_cursor_up1, 1),
      (CHR ''G'', Screen_cursor_to_column, 1), (CHR 0x60, Screen_cursor_to_column, 1),
      (CHR ''d'', Screen_cursor_to_line, 1), (CHR ''Z'', Screen_backtab, 1),
      (CHR ''I'', Screen_tabn, 1), (CHR ''L'', Screen_insert_lines, 1),
      (CHR ''M'', Screen_delete_lines, 1), (CHR ''X'', Screen_erase_characters, 1),
      (CHR ''g'', Screen_clear_tab_stop, 0)]"

definition csi_window_calls :: "u32 \<Rightarrow> u32 \<Rightarrow> u32 \<Rightarrow> int list \<Rightarrow> screen_call list" where
  "csi_window_calls code sm em ps =
     (if ps = [] then csi_report code Unknown_code
      else if sm \<noteq> 0 \<or> em \<noteq> 0 then csi_report code Unsupported_modifiers
      else if ps ! 0 = 4 \<or> ps ! 0 = 8 then csi_report code Resize_not_supported
      else if ps ! 0 = 14 \<or> ps ! 0 = 16 \<or> ps ! 0 = 18 then csi_handler1 code (Call1 Screen_report_size) 0 ps
      else if ps ! 0 = 22 \<or> ps ! 0 = 23 then
        csi_handler2 code Screen_manipulate_title_stack 22 0
          (if length ps = 3 \<and> ps ! 2 = 0 then take 2 ps else ps)
      else csi_report code Unknown_code)"

definition csi_key_encoding_calls :: "u32 \<Rightarrow> u32 \<Rightarrow> u32 \<Rightarrow> int list \<Rightarrow> screen_call list" where
  "csi_key_encoding_calls code sm em ps =
     (if sm = 0 \<and> em = 0 \<and> ps = [] then [Call0 Screen_restore_cursor]
      else if em = 0 \<and> sm = ch CHR ''?'' then [Call0 Screen_report_key_encoding_flags]
      else if em = 0 \<and> sm = ch CHR ''='' then csi_handler2 code Screen_set_key_encoding_flags 0 1 ps
      else if em = 0 \<and> sm = ch CHR ''>'' then csi_handler1 code (Call1 Screen_push_key_encoding_flags) 0 ps
      else if em = 0 \<and> sm = ch CHR ''<'' then csi_handler1 code (Call1 Screen_pop_key_encoding_flags) 1 ps
      else csi_report code Unsupported_modifiers)"

definition csi_code_calls :: "u32 \<Rightarrow> u32 \<Rightarrow> u32 \<Rightarrow> int list \<Rightarrow> screen_call list" where
  "csi_code_calls code sm em ps =
     (let private = (sm = ch CHR ''?''); plain = (sm = 0 \<and> em = 0);
          hash = (em = ch CHR ''#'' \<and> sm = 0)
      in case List.find (\<lambda>e. code = ch (fst e)) csi_simple of
        Some (_, f, defval) \<Rightarrow> csi_handler1 code (Call1 f) defval ps
      | None \<Rightarrow>
          if code = ch CHR ''@'' then
            (if plain then csi_handler1 code (Call1 Screen_insert_characters) 1 ps
             else csi_report code Unsupported_modifiers)
          else if code = ch CHR ''A'' then
            (if plain then csi_handler1 code (Call1 Screen_cursor_up2) 1 ps
             else csi_report code Unsupported_modifiers)
          else if code = ch CHR ''H'' \<or> code = ch CHR ''f'' then
            csi_handler2 code Screen_cursor_position 1 1 ps
          else if code = ch CHR ''J'' then
            csi_handler1 code (\<lambda>n. Screen_erase_in_display n private) 0 ps
          else if code = ch CHR ''K'' then
            csi_handler1 code (\<lambda>n. Screen_erase_in_line n private) 0 ps
          else if code = ch CHR ''P'' then
            (if hash then csi_handler1 code (Call1 Screen_push_colors) 0 ps
             else csi_handler1 code (Call1 Screen_delete_characters) 1 ps)
          else if code = ch CHR ''Q'' then
            (if hash then csi_handler1 code (Call1 Screen_pop_colors) 0 ps
             else csi_report code Unsupported_modifiers)
          else if code = ch CHR ''R'' then
            (if hash then [Call0 Screen_report_color_stack] else csi_report code Unsupported_modifiers)
          else if code = ch CHR ''c'' then
            csi_handler1 code (\<lambda>n. Report_device_attributes n sm) 0 ps
          else if code = ch CHR ''h'' then csi_set_mode code (Call_mode Screen_set_mode) private ps
          else if code = ch CHR ''l'' then csi_set_mode code (Call_mode Screen_reset_mode) private ps
          else if code = ch CHR ''n'' then
            csi_handler1 code (\<lambda>n. Report_device_status n private) 0 ps
          else if code = ch CHR ''s'' then
            (if plain \<and> ps = [] then [Call0 Screen_save_cursor]
             else if private \<and> em = 0 then
               (if ps = [] then [Call0 Screen_save_modes] else csi_set_mode code (Call_mode Screen_save_mode) True ps)
             else csi_report code Unsupported_modifiers)
          else if code = ch CHR ''t'' then csi_window_calls code sm em ps
          else if code = ch CHR ''u'' then csi_key_encoding_calls code sm em ps
          else if code = ch CHR ''r'' then
            (if plain then csi_handler2 code Screen_set_margins 0 0 ps
             else if private \<and> em = 0 then
               (if ps = [] then [Call0 Screen_restore_modes] else csi_set_mode code (Call_mode Screen_restore_mode) True ps)
             else csi_report code Unsupported_modifiers)
          else if code = ch CHR ''x'' then
            (if sm = 0 \<and> em = ch CHR ''*'' then csi_handler1 code (Call1 Screen_decsace) 0 ps
             else csi_report code Unsupported_modifiers)
          else if code = ch CHR ''q'' then
            (if sm = 0 \<and> em = ch CHR '' '' then csi_handler1 code (\<lambda>n. Screen_set_cursor n em) 1 ps
             else if sm = ch CHR ''>'' \<and> em = 0 then csi_handler1 code (Call1 Screen_xtversion) 0 ps
             else csi_report code Unsupported_modifiers)
          else if code = ch CHR ''S'' then
            (if plain then csi_handler1 code (Call1 Screen_scroll) 1 ps
             else csi_report code Unsupported_modifiers)
          else if code = ch CHR ''T'' then
            (if sm = 0 \<and> em = ch CHR ''+''
             then csi_handler1 code (Call1 Screen_reverse_scroll_and_fill_from_scrollback) 1 ps
             else if plain then csi_handler1 code (Call1 Screen_reverse_scroll) 1 ps
             else csi_report code Unsupported_modifiers)
          else if code = ch CHR ''p'' then
            (if em = ch CHR ''$'' then csi_handler1 code (\<lambda>n. Report_mode_status n private) 0 ps
             else csi_report code Unsupported_modifiers)
          else csi_report code Unknown_code)"

text \<open>The start modifier is the first character of the array, the end modifier the last one before the code.\<close>

definition csi_split :: "u32 list \<Rightarrow> nat \<Rightarrow> u32 \<times> u32 list \<times> u32" where
  "csi_split buf pos =
     (let has_start = buf ! 0 \<in> set (chars ''><?!='');
          start_modifier = (if has_start then buf ! 0 else 0);
          s = (if has_start then slice buf 1 (usub32 pos 1) else slice buf 0 pos);
          has_end = s \<noteq> [] \<and> 0x20 \<le> last s \<and> last s \<le> 0x2f
      in (start_modifier, if has_end then butlast s else s, if has_end then last s else 0))"

text \<open>\<^verbatim>\<open>dispatch_csi\<close>, for the code in \<^verbatim>\<open>parser_buf[parser_buf_pos]\<close>.\<close>

definition dispatch_csi :: "u32 list \<Rightarrow> nat \<Rightarrow> u32 \<Rightarrow> screen_call list" where
  "dispatch_csi buf pos code =
     (let (sm, s, em) = csi_split buf pos in
      if code = ch CHR ''m'' \<and> sm = 0 \<and> em = 0 then sgr_calls code s None
      else if code = ch CHR ''r'' \<and> sm = 0 \<and> em = ch CHR ''$'' then
        (let (r, rest) = parse_region s in sgr_calls code rest (Some r))
      else case csi_params s [] [] of
             None \<Rightarrow> csi_report code Hyphen_inside_number
           | Some ps \<Rightarrow> csi_code_calls code sm em ps)"

section \<open>DCS, APC and PM\<close>

definition startswith :: "u32 list \<Rightarrow> nat \<Rightarrow> nat \<Rightarrow> string \<Rightarrow> bool" where
  "startswith buf off sz prefix =
     (length prefix \<le> sz \<and> slice buf off (length prefix) = chars prefix)"

text \<open>
  \<^verbatim>\<open>IF_SIMPLE_PREFIX\<close>: the prefixes and the names of their handlers. The text is the one after
  \<^verbatim>\<open>sizeof("smelly") + sizeof(prefix)\<close> characters.
\<close>

definition smelly_dcs_handlers :: "(string \<times> string) list" where
  "smelly_dcs_handlers =
     [(''overlay-ready|'', ''handle_overlay_ready''), (''kitten-result|'', ''handle_kitten_result''),
      (''print|'', ''handle_remote_print''), (''echo|'', ''handle_remote_echo''),
      (''ssh|'', ''handle_remote_ssh''), (''ask|'', ''handle_remote_askpass''),
      (''clone|'', ''handle_remote_clone''), (''edit|'', ''handle_remote_edit'')]"

definition smelly_dcs_calls :: "u32 list \<Rightarrow> nat \<Rightarrow> screen_call list" where
  "smelly_dcs_calls buf pos =
     (if startswith buf 7 (pos - 2) ''cmd{'' then
        with_string (slice buf 10 (pos - 10)) (\<lambda>s. [Screen_handle_cmd s])
      else case List.find (\<lambda>e. startswith buf 7 (pos - 1) (fst e)) smelly_dcs_handlers of
             Some (prefix, name) \<Rightarrow>
               (let pp_size = 7 + (length prefix + 1)
                in with_string (slice buf pp_size (pos - pp_size)) (\<lambda>s. [Screen_handle_smelly_dcs name s]))
           | None \<Rightarrow> [Report_error (Unrecognized_DCS_at (slice buf 0 pos))])"

text \<open>The calls, and whether pending mode starts.\<close>

definition dispatch_dcs :: "u32 list \<Rightarrow> nat \<Rightarrow> screen_call list \<times> bool" where
  "dispatch_dcs buf pos =
     (if pos < 2 then ([], False)
      else if buf ! 0 = ch CHR ''+'' \<or> buf ! 0 = ch CHR ''$'' then
        (if buf ! 1 = ch CHR ''q''
         then (with_string (slice buf 2 (pos - 2)) (\<lambda>s. [Screen_request_capabilities (buf ! 0) s]), False)
         else ([Report_error (Unrecognized_DCS (buf ! 0) (buf ! 1))], False))
      else if buf ! 0 = ch CHR ''='' then
        (if pos > 2 \<and> (buf ! 1 = ch CHR ''1'' \<or> buf ! 1 = ch CHR ''2'') \<and> buf ! 2 = ch CHR ''s'' then
           (if buf ! 1 = ch CHR ''1'' then ([], True)
            else ([Report_error Pending_stop_without_start], False))
         else ([Report_error (Unrecognized_DCS (buf ! 0) (buf ! 1))], False))
      else if buf ! 0 = ch CHR ''@'' then
        (if startswith buf 1 (pos - 2) ''smelly-'' then (smelly_dcs_calls buf pos, False) else ([], False))
      else ([Report_error (Unrecognized_DCS (buf ! 0) 0)], False))"

definition dispatch_apc :: "u32 list \<Rightarrow> nat \<Rightarrow> screen_call list" where
  "dispatch_apc buf pos =
     (if pos < 2 then []
      else if buf ! 0 = ch CHR ''G'' then
        (case parse_graphics_code (slice buf 1 (pos - 1)) of
           Inl e \<Rightarrow> [Report_error (Graphics_error e)]
         | Inr (g, payload) \<Rightarrow> [Screen_handle_graphics_command g payload])
      else [Report_error (Unrecognized_APC (buf ! 0))])"

definition dispatch_pm :: "u32 list \<Rightarrow> nat \<Rightarrow> screen_call list" where
  "dispatch_pm buf pos =
     (if pos < 2 then [] else [Report_error (Unrecognized_PM (buf ! 0))])"

section \<open>CSI parameters\<close>

lemma ch_simps [simp]:
  "ch CHR '';'' = 0x3b" "ch CHR '':'' = 0x3a" "ch CHR ''-'' = 0x2d" "ch CHR ''['' = 0x5b"
  "ch CHR ''m'' = 0x6d" "ch CHR ''r'' = 0x72" "ch CHR ''$'' = 0x24" "ch CHR ''@'' = 0x40"
  "ch CHR ''='' = 0x3d" "ch CHR ''?'' = 0x3f" "ch CHR ''>'' = 0x3e" "ch CHR ''<'' = 0x3c"
  by (simp_all add: ch_def)

text \<open>At most \<open>MAX_PARAMS\<close> parameters are stored, the size of the array.\<close>

lemma csi_params_bound:
  "csi_params s cur ps = Some out \<Longrightarrow> length ps < MAX_PARAMS \<Longrightarrow> length out \<le> MAX_PARAMS"
proof (induction s cur ps rule: csi_params.induct)
  case (2 c cs cur ps)
  then show ?case by (auto simp: Let_def split: if_splits)
qed (auto split: if_splits)

theorem csi_params_within_array:
  "case csi_params s [] [] of None \<Rightarrow> True | Some ps \<Rightarrow> length ps \<le> 256"
  by (auto split: option.splits dest: csi_params_bound)

text \<open>Parameters as an application prints them.\<close>

fun print_csi_params :: "int list \<Rightarrow> u32 list" where
  "print_csi_params [] = []"
| "print_csi_params [n] = (if n < 0 then [0x2d] else []) @ decimal (nat \<bar>n\<bar>)"
| "print_csi_params (n # ns) =
     (if n < 0 then [0x2d] else []) @ decimal (nat \<bar>n\<bar>) @ [0x3b] @ print_csi_params ns"

lemma to_int_small: "\<bar>n\<bar> < 2 ^ 31 \<Longrightarrow> to_int n = n"
proof -
  assume n: "\<bar>n\<bar> < 2 ^ 31"
  then have "signed_take_bit 31 n = n" by (auto simp: signed_take_bit_int_eq_self_iff)
  then have "sint (word_of_int n :: 32 word) = n" by (simp only: sint_sbintrunc') simp
  then show ?thesis by (simp only: to_int_def)
qed

lemma param_value_signed:
  assumes n: "\<bar>n\<bar> < 2 ^ 31"
  shows "param_value ((if n < 0 then [0x2d] else []) @ decimal (nat \<bar>n\<bar>)) = n"
proof (cases "n < 0")
  case True
  have "length (decimal (nat (- n))) \<le> Suc 9" by (rule length_decimal) (use n True in simp)
  then have "utoi (0x2d # decimal (nat (- n))) = n"
    using skip_zeros_decimal [of "nat (- n)"] True by (simp add: utoi_def)
  with True to_int_small [OF n] show ?thesis by (simp add: param_value_def)
next
  case False
  then show ?thesis using n param_value_decimal [of "nat n"] by simp
qed

lemma csi_params_digits:
  "list_all is_digit ds \<Longrightarrow> csi_params (ds @ rest) cur ps = csi_params rest (cur @ ds) ps"
  by (induction ds arbitrary: cur) auto

lemma csi_params_number:
  "csi_params ((if n < 0 then [0x2d] else []) @ decimal (nat \<bar>n\<bar>) @ rest) [] ps
     = csi_params rest ((if n < 0 then [0x2d] else []) @ decimal (nat \<bar>n\<bar>)) ps"
proof -
  define ds where "ds = decimal (nat \<bar>n\<bar>)"
  have d: "list_all is_digit ds" by (simp add: ds_def decimal_digits)
  have "\<not> is_digit 0x2d" by (simp add: is_digit_def)
  then show ?thesis unfolding ds_def [symmetric]
    using csi_params_digits [OF d, of rest "[0x2d]"] csi_params_digits [OF d, of rest "[]"] by simp
qed

lemma csi_params_print:
  "list_all (\<lambda>n. \<bar>n\<bar> < 2 ^ 31) ns \<Longrightarrow> length ps + length ns \<le> MAX_PARAMS \<Longrightarrow>
   csi_params (print_csi_params ns) [] ps = Some (ps @ ns)"
proof (induction ns arbitrary: ps rule: print_csi_params.induct)
  case (2 n)
  define t where "t = (if n < 0 then [0x2d] else []) @ decimal (nat \<bar>n\<bar>)"
  have "csi_params t [] ps = csi_params [] t ps"
    using csi_params_number [of n "[]" ps] by (simp add: t_def)
  moreover have "t \<noteq> []" using decimal_digits by (simp add: t_def)
  moreover have "param_value t = n" using 2 by (simp add: t_def param_value_signed del: append.simps)
  ultimately show ?case by (simp add: t_def [symmetric] del: append.simps)
next
  case (3 n m ns)
  define t where "t = (if n < 0 then [0x2d] else []) @ decimal (nat \<bar>n\<bar>)"
  define rest where "rest = print_csi_params (m # ns)"
  have "csi_params (t @ 0x3b # rest) [] ps = csi_params (0x3b # rest) t ps"
    using csi_params_number [of n "0x3b # rest" ps] by (simp add: t_def)
  moreover have "t \<noteq> []" using decimal_digits by (simp add: t_def)
  moreover have "param_value t = n" using 3 by (simp add: t_def param_value_signed del: append.simps)
  moreover have "\<not> is_digit 0x3b" by (simp add: is_digit_def)
  ultimately have "csi_params (t @ 0x3b # rest) [] ps = csi_params rest [] (ps @ [n])"
    using 3 by simp
  with 3 show ?case by (simp add: t_def rest_def)
qed simp

section \<open>Remote control\<close>

text \<open>
  The texts after the prefix \<^verbatim>\<open>smelly-\<close> are looked for at offset 7, which is the position of the
  hyphen: the offset belongs to a prefix of six characters. No handler is ever found.
\<close>

lemma startswith_head: "startswith buf off sz (c # cs) \<Longrightarrow> off < length buf \<Longrightarrow> buf ! off = ch c"
  by (auto simp: startswith_def slice_def chars_def Cons_nth_drop_Suc [symmetric])

lemma startswith_length: "startswith buf off sz prefix \<Longrightarrow> length prefix \<le> length buf - off"
proof -
  assume "startswith buf off sz prefix"
  then have "length (slice buf off (length prefix)) = length prefix"
    by (simp add: startswith_def chars_def)
  then show ?thesis by (simp add: slice_def)
qed

lemma startswith_nth:
  "startswith buf off sz prefix \<Longrightarrow> k < length prefix \<Longrightarrow> buf ! (off + k) = ch (prefix ! k)"
proof -
  assume s: "startswith buf off sz prefix" and k: "k < length prefix"
  have len: "off + k < length buf" using startswith_length [OF s] k by linarith
  have "slice buf off (length prefix) ! k = ch (prefix ! k)"
    using s k by (simp add: startswith_def chars_def)
  moreover have "slice buf off (length prefix) ! k = buf ! (off + k)"
    using k len by (simp add: slice_def)
  ultimately show ?thesis by simp
qed

text \<open>
  C34: Every DCS code with the prefix @smelly- is reported as unrecognized: the handlers compare
  their prefixes one character too early.
\<close>

theorem smelly_dcs_never_dispatched:
  assumes "length buf = 8192" and "buf ! 0 = ch CHR ''@''" and "startswith buf 1 (pos - 2) ''smelly-''"
  shows "dispatch_dcs buf pos = ([Report_error (Unrecognized_DCS_at (slice buf 0 pos))], False)"
proof -
  have c: "buf ! 7 = ch CHR ''-''" using startswith_nth [OF assms(3), of 6] by simp
  have no: "\<not> startswith buf 7 sz (x # xs)" if "ch x \<noteq> ch CHR ''-''" for sz x xs
    using startswith_head [of buf 7 sz x xs] assms(1) c that by auto
  have "length ''smelly-'' \<le> pos - 2" using assms(3) by (simp only: startswith_def)
  then have pos: "\<not> pos < 2" by simp
  have "smelly_dcs_calls buf pos = [Report_error (Unrecognized_DCS_at (slice buf 0 pos))]"
    by (simp add: smelly_dcs_calls_def smelly_dcs_handlers_def no) (simp add: no ch_def)
  then show ?thesis
    using assms pos by (simp add: dispatch_dcs_def) (simp add: ch_def)
qed

theorem smelly_dcs_never_dispatched_witness:
  "dispatch_dcs (chars ''@smelly-print|x'' @ replicate 8177 0) 15
     = ([Report_error (Unrecognized_DCS_at (slice (chars ''@smelly-print|x'' @ replicate 8177 0) 0 15))], False)"
  by (rule smelly_dcs_never_dispatched)
     (simp_all add: chars_def startswith_def slice_def take_Cons' drop_Cons')

section \<open>Hyperlinks\<close>

lemma strtok_no_separator: "ch CHR '':'' \<notin> set cs \<Longrightarrow> cur @ cs \<noteq> [] \<Longrightarrow> strtok cs cur = [cur @ cs]"
  by (induction cs arbitrary: cur) auto

theorem parse_osc_8_roundtrip:
  assumes "i \<noteq> []" and "ch CHR '':'' \<notin> set i" and "ch CHR '';'' \<notin> set i"
  shows "parse_osc_8 (chars ''id='' @ i @ [ch CHR '';''] @ url)
       = Some (Some i, if url = [] then None else Some url)"
proof -
  define key where "key = chars ''id=''"
  have key: "length key = 3" "0x3a \<notin> set key" "0x3b \<notin> set key"
    by (simp_all add: key_def chars_def ch_def)
  have keyi: "\<forall>c\<in>set (key @ i). c \<noteq> 0x3b" "0x3a \<notin> set (key @ i)" using key assms by auto
  have tw: "takeWhile (\<lambda>c. c \<noteq> 0x3b) ((key @ i) @ 0x3b # url) = key @ i"
    and dw: "dropWhile (\<lambda>c. c \<noteq> 0x3b) ((key @ i) @ 0x3b # url) = 0x3b # url"
    using keyi(1) by (simp_all add: takeWhile_append2 dropWhile_append2)
  have "strtok (key @ i) [] = [key @ i]"
    using strtok_no_separator [of "key @ i" "[]"] keyi(2) assms(1) by simp
  then have "osc_8_id (strtok (key @ i) []) = Some i"
    using key(1) assms(1) by (simp add: osc_8_id_def key_def [symmetric])
  with tw dw show ?thesis
    by (simp add: parse_osc_8_def key_def [symmetric])
qed

theorem parse_osc_8_roundtrip_witness:
  "parse_osc_8 (chars ''id='' @ chars ''a1'' @ [ch CHR '';''] @ chars ''x:/y'') = Some (Some (chars ''a1''), if chars ''x:/y'' = [] then None else Some (chars ''x:/y''))"
  by (rule parse_osc_8_roundtrip) (simp_all add: chars_def ch_def)

end
