(* ===== verification/Parser.thy ===== *)
theory Parser
  imports Parser_Dispatch
begin

text \<open>
  The state machine of \<^verbatim>\<open>smelly/parser.c\<close>: bytes are decoded to code points, a code point goes to
  the handler of the parser's state, a complete escape code is dispatched. In pending mode the
  same decoding runs with handlers that write the codes back, as UTF-8, to a buffer that is parsed
  when pending mode ends. The screen is the type \<open>'s\<close>, and \<open>exec\<close> performs a call on it.
\<close>

section \<open>State\<close>

abbreviation (input) PARSER_BUF_SZ :: nat where "PARSER_BUF_SZ \<equiv> 8 * 1024"
abbreviation (input) READ_BUF_SZ :: nat where "READ_BUF_SZ \<equiv> 1024 * 1024"
abbreviation (input) PENDING_BUF_INCREMENT :: nat where "PENDING_BUF_INCREMENT \<equiv> 16 * 1024"

text \<open>
  The fields of \<^verbatim>\<open>Screen\<close> that both the parser and the functions of \<^verbatim>\<open>screen.c\<close> write.
  \<open>now_monotonic\<close> is what \<^verbatim>\<open>monotonic()\<close> returns.
\<close>

record decoder =
  utf8_state :: nat
  utf8_codepoint :: u32
  use_latin1 :: bool
  pending_activated_at :: int
  now_monotonic :: int

text \<open>
  The other parser fields: \<open>parser_buf\<close> is the array of \<open>PARSER_BUF_SZ\<close> elements, \<open>pending_buf\<close> the
  used part of the pending buffer. \<open>buf_overrun\<close> records a write beyond the end of \<open>parser_buf\<close>,
  after which the C program has no defined behaviour.
\<close>

record 's parser =
  dec :: decoder
  parser_state :: u32
  parser_buf :: "u32 list"
  parser_buf_pos :: nat
  buf_overrun :: bool
  pending_buf :: "u8 list"
  pending_capacity :: nat
  pending_wait_time :: int
  pending_stop_type :: u32
  scr :: 's

type_synonym 's exec = "screen_call \<Rightarrow> decoder \<times> 's \<Rightarrow> decoder \<times> 's"

definition set_state :: "u32 \<Rightarrow> 's parser \<Rightarrow> 's parser" where
  "set_state s p = p\<lparr>parser_state := s, parser_buf_pos := 0\<rparr>"

text \<open>\<^verbatim>\<open>parser_buf[parser_buf_pos] = ch\<close>, and \<^verbatim>\<open>parser_buf[parser_buf_pos++] = ch\<close>.\<close>

definition put_char :: "u32 \<Rightarrow> 's parser \<Rightarrow> 's parser" where
  "put_char c p =
     (if parser_buf_pos p < PARSER_BUF_SZ then p\<lparr>parser_buf := (parser_buf p)[parser_buf_pos p := c]\<rparr>
      else p\<lparr>buf_overrun := True\<rparr>)"

definition push_char :: "u32 \<Rightarrow> 's parser \<Rightarrow> 's parser" where
  "push_char c p = (put_char c p)\<lparr>parser_buf_pos := parser_buf_pos p + 1\<rparr>"

text \<open>
  A call of the screen. \<^verbatim>\<open>screen_reset\<close> is the only function of \<^verbatim>\<open>screen.c\<close> that writes the parser's own
  fields.
\<close>

definition call :: "'s exec \<Rightarrow> screen_call \<Rightarrow> 's parser \<Rightarrow> 's parser" where
  "call exec c p =
     (let (d, s) = exec c (dec p, scr p); p = p\<lparr>dec := d, scr := s\<rparr>
      in if c = Call0 Screen_reset then set_state 0 p else p)"

definition calls :: "'s exec \<Rightarrow> screen_call list \<Rightarrow> 's parser \<Rightarrow> 's parser" where
  "calls exec cs p = fold (call exec) cs p"

abbreviation report :: "'s exec \<Rightarrow> parse_error \<Rightarrow> 's parser \<Rightarrow> 's parser" where
  "report exec e \<equiv> call exec (Report_error e)"

section \<open>Dispatching to the screen\<close>

definition dispatch_normal_mode_char :: "'s exec \<Rightarrow> u32 \<Rightarrow> 's parser \<Rightarrow> 's parser" where
  "dispatch_normal_mode_char exec c p =
     (case normal_mode_char c of Inl s \<Rightarrow> set_state s p | Inr cs \<Rightarrow> calls exec cs p)"

definition dispatch_esc_mode_char :: "'s exec \<Rightarrow> u32 \<Rightarrow> 's parser \<Rightarrow> 's parser" where
  "dispatch_esc_mode_char exec c p =
     (if parser_buf_pos p = 0 then
        (case esc_start_state c of
           Some s \<Rightarrow> set_state s p
         | None \<Rightarrow> if esc_is_intermediate c then push_char c p
                  else set_state 0 (calls exec (esc_single_calls c) p))
      else set_state 0 (calls exec (esc_pair_calls (parser_buf p ! 0) c) p))"

definition continue_osc_52 :: "'s parser \<Rightarrow> 's parser" where
  "continue_osc_52 p =
     p\<lparr>parser_buf := (parser_buf p)[0 := ch CHR ''5'', 1 := ch CHR ''2'', 2 := ch CHR '';'', 3 := ch CHR '';''],
       parser_buf_pos := 4\<rparr>"

section \<open>Accumulating escape codes\<close>

text \<open>\<open>True\<close> when the code is complete.\<close>

definition handle_extended_osc_code :: "'s parser \<Rightarrow> 's parser option" where
  "handle_extended_osc_code p =
     (if parser_buf p ! 0 \<noteq> ch CHR ''5'' \<or> parser_buf p ! 1 \<noteq> ch CHR ''2'' \<or> parser_buf p ! 2 \<noteq> ch CHR '';''
      then None
      else Some (p\<lparr>parser_buf := (parser_buf p)[0 := 0x1b, 1 := 1]\<rparr>))"

definition prev_is_ESC :: "'s parser \<Rightarrow> bool" where
  "prev_is_ESC p = (parser_buf_pos p > 0 \<and> parser_buf p ! (parser_buf_pos p - 1) = ESC)"

definition drop_char :: "'s parser \<Rightarrow> 's parser" where
  "drop_char p = p\<lparr>parser_buf_pos := parser_buf_pos p - 1\<rparr>"

text \<open>The second component is \<^verbatim>\<open>*extended_osc_code\<close>.\<close>

definition accumulate_osc :: "'s exec \<Rightarrow> u32 \<Rightarrow> 's parser \<Rightarrow> bool \<times> bool \<times> 's parser" where
  "accumulate_osc exec c p =
     (if c = ST \<or> c = BEL then (True, False, p)
      else if c = NUL \<or> c = DEL then (False, False, p)
      else if c = ch CHR 0x5c \<and> prev_is_ESC p then (True, False, drop_char p)
      else if parser_buf_pos p \<ge> PARSER_BUF_SZ - 1 then
        (case handle_extended_osc_code p of
           Some p \<Rightarrow> (True, True, p)
         | None \<Rightarrow> (True, False, report exec (Sequence_too_long OSC) p))
      else (False, False, push_char c p))"

definition accumulate_dcs :: "'s exec \<Rightarrow> u32 \<Rightarrow> 's parser \<Rightarrow> bool \<times> 's parser" where
  "accumulate_dcs exec c p =
     (if c = ST then (True, p)
      else if c = NUL \<or> c = DEL then (False, p)
      else if c = ESC \<or> (32 \<le> c \<and> c \<le> 126) then
        (if prev_is_ESC p then
           (if c = ch CHR 0x5c then (True, drop_char p)
            else (False, set_state ESC (report exec (Sequence_invalid_char DCS c) p)))
         else if parser_buf_pos p \<ge> PARSER_BUF_SZ - 1 then (True, report exec (Sequence_too_long DCS) p)
         else (False, push_char c p))
      else (False, report exec (Sequence_invalid_char DCS c) p))"

definition accumulate_oth :: "'s exec \<Rightarrow> u32 \<Rightarrow> 's parser \<Rightarrow> bool \<times> 's parser" where
  "accumulate_oth exec c p =
     (if c = ST then (True, p)
      else if c = DEL \<or> c = NUL then (False, p)
      else if c = ch CHR 0x5c \<and> prev_is_ESC p then (True, drop_char p)
      else if parser_buf_pos p \<ge> PARSER_BUF_SZ - 1 then (True, report exec (Sequence_too_long APC) p)
      else (False, push_char c p))"

definition csi_is_final :: "u32 \<Rightarrow> bool" where
  "csi_is_final c =
     ((ch CHR ''a'' \<le> c \<and> c \<le> ch CHR ''z'') \<or> (ch CHR ''A'' \<le> c \<and> c \<le> ch CHR ''Z'')
      \<or> c \<in> {0x40, 0x60, 0x7b, 0x7c, 0x7d, 0x7e})"

definition csi_is_control :: "u32 \<Rightarrow> bool" where
  "csi_is_control c = (c \<in> {BEL, BS, HT, LF, VT, FF, NEL, CR, SO, SI, IND, RI, HTS})"

text \<open>\<^verbatim>\<open>ENSURE_SPACE\<close>, then the write.\<close>

definition csi_push :: "'s exec \<Rightarrow> u32 \<Rightarrow> 's parser \<Rightarrow> 's parser" where
  "csi_push exec c p =
     (if parser_buf_pos p > PARSER_BUF_SZ - 1 then set_state 0 (report exec (Sequence_too_long CSI) p)
      else push_char c p)"

definition accumulate_csi :: "'s exec \<Rightarrow> u32 \<Rightarrow> 's parser \<Rightarrow> bool \<times> 's parser" where
  "accumulate_csi exec c p =
     (if is_digit c \<or> (0x20 \<le> c \<and> c \<le> 0x2f) \<or> c = ch CHR '':'' \<or> c = ch CHR '';'' then
        (False, csi_push exec c p)
      else if c \<in> set (chars ''?><='') then
        (if parser_buf_pos p \<noteq> 0 then (False, set_state 0 (report exec (Sequence_invalid_char CSI c) p))
         else (False, csi_push exec c p))
      else if csi_is_final c then (True, put_char c p)
      else if csi_is_control c then (False, dispatch_normal_mode_char exec c p)
      else if c = NUL \<or> c = DEL then (False, set_state 0 p)
      else (False, set_state 0 (report exec (Sequence_invalid_char CSI c) p)))"

section \<open>One code point\<close>

text \<open>The functions that \<^verbatim>\<open>dispatch_unicode_char\<close> is instantiated with: \<^verbatim>\<open>dispatch_*\<close> or \<^verbatim>\<open>pending_*\<close>.\<close>

record 'p dispatcher =
  on_normal :: "u32 \<Rightarrow> 'p \<Rightarrow> 'p"
  on_esc :: "u32 \<Rightarrow> 'p \<Rightarrow> 'p"
  on_csi :: "'p \<Rightarrow> 'p"
  on_osc :: "'p \<Rightarrow> 'p"
  on_apc :: "'p \<Rightarrow> 'p"
  on_pm :: "'p \<Rightarrow> 'p"
  on_dcs :: "'p \<Rightarrow> 'p"

definition osc_char :: "'s exec \<Rightarrow> 's parser dispatcher \<Rightarrow> u32 \<Rightarrow> 's parser \<Rightarrow> 's parser" where
  "osc_char exec D c p =
     (case accumulate_osc exec c p of
        (False, _, p) \<Rightarrow> p
      | (True, False, p) \<Rightarrow> set_state 0 (on_osc D p)
      | (True, True, p) \<Rightarrow>
          (case accumulate_osc exec c (on_osc D p) of
             (False, _, p) \<Rightarrow> p
           | (True, _, p) \<Rightarrow> set_state 0 (on_osc D p)))"

text \<open>
  The flag of the result is the \<^verbatim>\<open>goto end\<close> of \<^verbatim>\<open>watch_for_pending\<close>; \<open>watch\<close> is its condition.
\<close>

definition dispatch_unicode_char ::
  "'s exec \<Rightarrow> 's parser dispatcher \<Rightarrow> ('s parser \<Rightarrow> bool) \<Rightarrow> u32 \<Rightarrow> 's parser \<Rightarrow> bool \<times> 's parser" where
  "dispatch_unicode_char exec D watch c p =
     (if parser_state p = ESC then (False, on_esc D c p)
      else if parser_state p = CSI then
        (case accumulate_csi exec c p of
           (True, p) \<Rightarrow> (let p = set_state 0 (on_csi D p) in (watch p, p))
         | (False, p) \<Rightarrow> (False, p))
      else if parser_state p = OSC then (False, osc_char exec D c p)
      else if parser_state p = APC then
        (False, case accumulate_oth exec c p of (True, p) \<Rightarrow> set_state 0 (on_apc D p) | (False, p) \<Rightarrow> p)
      else if parser_state p = PM then
        (False, case accumulate_oth exec c p of (True, p) \<Rightarrow> set_state 0 (on_pm D p) | (False, p) \<Rightarrow> p)
      else if parser_state p = DCS then
        (case accumulate_dcs exec c p of
           (True, p) \<Rightarrow> (let p = set_state 0 (on_dcs D p) in (watch p, p))
         | (False, p) \<Rightarrow> (False, if parser_state p = ESC then on_esc D c p else p))
      else (False, on_normal D c p))"

section \<open>The decoding loop\<close>

definition set_utf8 :: "nat \<Rightarrow> u32 \<Rightarrow> 's parser \<Rightarrow> 's parser" where
  "set_utf8 st cp p = p\<lparr>dec := (dec p)\<lparr>utf8_state := st, utf8_codepoint := cp\<rparr>\<rparr>"

text \<open>
  \<^verbatim>\<open>decode_loop\<close>: \<open>step\<close> handles a code point, the result is the bytes that are left (after a \<^verbatim>\<open>goto end\<close>)
  and the state. On a reject inside a sequence the byte is looked at again.
\<close>

function decode_loop ::
  "(u32 \<Rightarrow> 's parser \<Rightarrow> bool \<times> 's parser) \<Rightarrow> nat \<Rightarrow> u8 list \<Rightarrow> 's parser \<Rightarrow> u8 list \<times> 's parser" where
  "decode_loop step prev [] p = ([], p)"
| "decode_loop step prev (b # bs) p =
     (if use_latin1 (dec p) then
        (case step (charset_latin1 ! unat b) p of
           (True, p) \<Rightarrow> (bs, p)
         | (False, p) \<Rightarrow> decode_loop step prev bs p)
      else
        case decode_utf8 (utf8_state (dec p)) (utf8_codepoint (dec p)) b of (st, cp) \<Rightarrow>
          if st = UTF8_ACCEPT then
            (case step cp (set_utf8 st cp p) of
               (True, p) \<Rightarrow> (bs, p)
             | (False, p) \<Rightarrow> decode_loop step (utf8_state (dec p)) bs p)
          else if st = UTF8_REJECT then
            (if prev \<noteq> UTF8_ACCEPT then decode_loop step UTF8_ACCEPT (b # bs) (set_utf8 UTF8_ACCEPT cp p)
             else decode_loop step UTF8_ACCEPT bs (set_utf8 UTF8_ACCEPT cp p))
          else decode_loop step st bs (set_utf8 st cp p))"
  by pat_completeness auto
termination
  by (relation "measures [\<lambda>(step, prev, bs, p). length bs, \<lambda>(step, prev, bs, p). prev]") auto

declare decode_loop.simps [simp del]

section \<open>Parsing\<close>

definition dispatch_dcs_code :: "'s exec \<Rightarrow> 's parser \<Rightarrow> 's parser" where
  "dispatch_dcs_code exec p =
     (let (cs, start) = dispatch_dcs (parser_buf p) (parser_buf_pos p)
      in if start then p\<lparr>dec := (dec p)\<lparr>pending_activated_at := now_monotonic (dec p)\<rparr>\<rparr>
         else calls exec cs p)"

definition dispatch_osc_code :: "'s exec \<Rightarrow> 's parser \<Rightarrow> 's parser" where
  "dispatch_osc_code exec p =
     (let (cs, continue) = dispatch_osc (parser_buf p) (parser_buf_pos p); p = calls exec cs p
      in if continue then continue_osc_52 p else p)"

definition dispatch_to_screen :: "'s exec \<Rightarrow> 's parser dispatcher" where
  "dispatch_to_screen exec =
     \<lparr>on_normal = dispatch_normal_mode_char exec, on_esc = dispatch_esc_mode_char exec,
      on_csi = (\<lambda>p. calls exec (dispatch_csi (parser_buf p) (parser_buf_pos p)
                                 (parser_buf p ! parser_buf_pos p)) p),
      on_osc = dispatch_osc_code exec,
      on_apc = (\<lambda>p. calls exec (dispatch_apc (parser_buf p) (parser_buf_pos p)) p),
      on_pm = (\<lambda>p. calls exec (dispatch_pm (parser_buf p) (parser_buf_pos p)) p),
      on_dcs = dispatch_dcs_code exec\<rparr>"

definition screen_step :: "'s exec \<Rightarrow> ('s parser \<Rightarrow> bool) \<Rightarrow> u32 \<Rightarrow> 's parser \<Rightarrow> bool \<times> 's parser" where
  "screen_step exec watch = dispatch_unicode_char exec (dispatch_to_screen exec) watch"

text \<open>\<^verbatim>\<open>_parse_bytes\<close> and \<^verbatim>\<open>_parse_bytes_watching_for_pending\<close>; the latter returns the bytes that are left.\<close>

definition parse_bytes :: "'s exec \<Rightarrow> u8 list \<Rightarrow> 's parser \<Rightarrow> 's parser" where
  "parse_bytes exec bs p =
     snd (decode_loop (screen_step exec (\<lambda>p. False)) (utf8_state (dec p)) bs p)"

definition is_pending :: "'s parser \<Rightarrow> bool" where
  "is_pending p = (pending_activated_at (dec p) \<noteq> 0)"

definition parse_bytes_watching_for_pending :: "'s exec \<Rightarrow> u8 list \<Rightarrow> 's parser \<Rightarrow> u8 list \<times> 's parser" where
  "parse_bytes_watching_for_pending exec bs p =
     decode_loop (screen_step exec is_pending) (utf8_state (dec p)) bs p"

section \<open>Pending mode\<close>

definition grow_capacity :: "nat \<Rightarrow> nat" where
  "grow_capacity c =
     (if c \<noteq> 0 then c + (if c \<ge> READ_BUF_SZ then PENDING_BUF_INCREMENT else c)
      else PENDING_BUF_INCREMENT)"

definition write_pending_char :: "u32 \<Rightarrow> 's parser \<Rightarrow> 's parser" where
  "write_pending_char c p =
     p\<lparr>pending_capacity := (if pending_capacity p < length (pending_buf p) + 8
                            then grow_capacity (pending_capacity p) else pending_capacity p),
       pending_buf := pending_buf p @ encode_utf8 c\<rparr>"

definition pending_normal_mode_char :: "u32 \<Rightarrow> 's parser \<Rightarrow> 's parser" where
  "pending_normal_mode_char c p =
     (if c \<in> {ESC, CSI, OSC, DCS, APC, PM} then set_state c p else write_pending_char c p)"

definition pending_esc_mode_char :: "u32 \<Rightarrow> 's parser \<Rightarrow> 's parser" where
  "pending_esc_mode_char c p =
     (if parser_buf_pos p > 0 then
        set_state 0 (write_pending_char c
          (write_pending_char (parser_buf p ! (parser_buf_pos p - 1)) (write_pending_char ESC p)))
      else case esc_start_state c of
             Some s \<Rightarrow> set_state s p
           | None \<Rightarrow> if esc_is_intermediate c then push_char c p
                    else set_state 0 (write_pending_char c (write_pending_char ESC p)))"

definition write_pending_chars :: "u32 list \<Rightarrow> 's parser \<Rightarrow> 's parser" where
  "write_pending_chars cs p = fold write_pending_char cs p"

definition pending_escape_code :: "u32 \<Rightarrow> u32 \<Rightarrow> 's parser \<Rightarrow> 's parser" where
  "pending_escape_code start_ch end_ch p =
     write_pending_char end_ch
       (write_pending_chars (slice (parser_buf p) 0 (parser_buf_pos p)) (write_pending_char start_ch p))"

definition pending_osc :: "'s parser \<Rightarrow> 's parser" where
  "pending_osc p =
     (let extended = is_extended_osc (parser_buf p) (parser_buf_pos p); p = pending_escape_code OSC ST p
      in if extended then continue_osc_52 p else p)"

definition set_activated_at :: "int \<Rightarrow> 's parser \<Rightarrow> 's parser" where
  "set_activated_at t p = p\<lparr>dec := (dec p)\<lparr>pending_activated_at := t\<rparr>\<rparr>"

definition pending_dcs :: "'s parser \<Rightarrow> 's parser" where
  "pending_dcs p =
     (if parser_buf_pos p \<ge> 3 \<and> parser_buf p ! 0 = ch CHR ''=''
         \<and> (parser_buf p ! 1 = ch CHR ''1'' \<or> parser_buf p ! 1 = ch CHR ''2'')
         \<and> parser_buf p ! 2 = ch CHR ''s''
      then if parser_buf p ! 1 = ch CHR ''1'' then set_activated_at (now_monotonic (dec p)) p
           else set_activated_at 0 (p\<lparr>pending_stop_type := DCS\<rparr>)
      else pending_escape_code DCS ST p)"

definition pending_csi :: "'s parser \<Rightarrow> 's parser" where
  "pending_csi p =
     (if parser_buf_pos p = 5 \<and> slice (parser_buf p) 0 5 = chars ''?2026''
         \<and> (parser_buf p ! 5 = ch CHR ''h'' \<or> parser_buf p ! 5 = ch CHR ''l'')
      then if parser_buf p ! 5 = ch CHR ''h'' then set_activated_at (now_monotonic (dec p)) p
           else set_activated_at 0 (p\<lparr>pending_stop_type := CSI\<rparr>)
      else pending_escape_code CSI (parser_buf p ! parser_buf_pos p) p)"

definition dispatch_to_pending :: "'s parser dispatcher" where
  "dispatch_to_pending =
     \<lparr>on_normal = pending_normal_mode_char, on_esc = pending_esc_mode_char, on_csi = pending_csi,
      on_osc = pending_osc, on_apc = pending_escape_code APC ST, on_pm = pending_escape_code PM ST,
      on_dcs = pending_dcs\<rparr>"

text \<open>\<^verbatim>\<open>queue_pending_bytes\<close>: the bytes that are left.\<close>

definition queue_pending_bytes :: "'s exec \<Rightarrow> u8 list \<Rightarrow> 's parser \<Rightarrow> u8 list \<times> 's parser" where
  "queue_pending_bytes exec bs p =
     decode_loop (dispatch_unicode_char exec dispatch_to_pending (\<lambda>p. \<not> is_pending p))
       (utf8_state (dec p)) bs p"

definition dump_partial_escape_code_to_pending :: "'s parser \<Rightarrow> 's parser" where
  "dump_partial_escape_code_to_pending p =
     (if parser_buf_pos p \<noteq> 0 then
        write_pending_chars (slice (parser_buf p) 0 (parser_buf_pos p)) (write_pending_char (parser_state p) p)
      else p)"

section \<open>\<^verbatim>\<open>do_parse_bytes\<close>\<close>

datatype parse_phase = PS_START | PS_PARSE_PENDING | PS_PARSE_READ_BUF | PS_QUEUE_PENDING

text \<open>
  One round of the loop, a function per phase. A round works on the phase,
  \<^verbatim>\<open>parser_state_at_start_of_pending\<close>, the rest of the read buffer and the parser.
\<close>

definition parse_pending_phase :: "'s exec \<Rightarrow> u32 \<Rightarrow> 's parser \<Rightarrow> 's parser" where
  "parse_pending_phase exec start_state p =
     (let p = parse_bytes exec (pending_buf p) (p\<lparr>parser_state := start_state\<rparr>);
          p = set_activated_at 0 (p\<lparr>pending_buf := []\<rparr>);
          p = (if pending_capacity p > READ_BUF_SZ + PENDING_BUF_INCREMENT
               then p\<lparr>pending_capacity := READ_BUF_SZ\<rparr> else p)
      in p\<lparr>pending_stop_type := 0\<rparr>)"

definition start_phase :: "int \<Rightarrow> u32 \<Rightarrow> u8 list \<Rightarrow> 's parser \<Rightarrow> parse_phase \<times> u32 \<times> u8 list \<times> 's parser" where
  "start_phase now start_state bs p =
     (if is_pending p then
        if pending_activated_at (dec p) + pending_wait_time p < now then
          (PS_START, start_state, bs, set_activated_at 0 (dump_partial_escape_code_to_pending p))
        else (PS_QUEUE_PENDING, start_state, bs, p)
      else (if pending_buf p \<noteq> [] then PS_PARSE_PENDING else PS_PARSE_READ_BUF, start_state, bs, p))"

definition read_phase :: "'s exec \<Rightarrow> u32 \<Rightarrow> u8 list \<Rightarrow> 's parser \<Rightarrow> parse_phase \<times> u32 \<times> u8 list \<times> 's parser" where
  "read_phase exec start_state bs p =
     (case parse_bytes_watching_for_pending exec bs (set_activated_at 0 p) of
        (bs, p) \<Rightarrow> (PS_START, start_state, bs, p))"

definition queue_phase :: "'s exec \<Rightarrow> u32 \<Rightarrow> u8 list \<Rightarrow> 's parser \<Rightarrow> parse_phase \<times> u32 \<times> u8 list \<times> 's parser" where
  "queue_phase exec start_state bs p =
     (let p = p\<lparr>pending_stop_type := 0\<rparr> in
      if length (pending_buf p) \<ge> READ_BUF_SZ then
        (PS_START, start_state, bs, set_activated_at 0 (dump_partial_escape_code_to_pending p))
      else
        let start_state = (if pending_buf p = [] then parser_state p else start_state)
        in case queue_pending_bytes exec bs p of (bs, p) \<Rightarrow> (PS_START, start_state, bs, p))"

definition parse_round ::
  "'s exec \<Rightarrow> int \<Rightarrow> parse_phase \<times> u32 \<times> u8 list \<times> 's parser \<Rightarrow> parse_phase \<times> u32 \<times> u8 list \<times> 's parser" where
  "parse_round exec now r =
     (case r of (ph, start_state, bs, p) \<Rightarrow>
       (case ph of
          PS_START \<Rightarrow> start_phase now start_state bs p
        | PS_PARSE_PENDING \<Rightarrow> (PS_START, 0, bs, parse_pending_phase exec start_state p)
        | PS_PARSE_READ_BUF \<Rightarrow> read_phase exec start_state bs p
        | PS_QUEUE_PENDING \<Rightarrow> queue_phase exec start_state bs p))"

text \<open>The loop condition, and the loop with a bound on the number of rounds.\<close>

definition parse_more :: "parse_phase \<times> u32 \<times> u8 list \<times> 's parser \<Rightarrow> bool" where
  "parse_more r = (case r of (ph, start_state, bs, p) \<Rightarrow>
     bs \<noteq> [] \<or> (\<not> is_pending p \<and> pending_buf p \<noteq> []))"

fun parse_rounds ::
  "'s exec \<Rightarrow> int \<Rightarrow> nat \<Rightarrow> parse_phase \<times> u32 \<times> u8 list \<times> 's parser \<Rightarrow> 's parser option" where
  "parse_rounds exec now 0 r = None"
| "parse_rounds exec now (Suc fuel) r =
     (let r = parse_round exec now r
      in if parse_more r then parse_rounds exec now fuel r
         else case r of (ph, start_state, bs, p) \<Rightarrow> Some p)"

definition do_parse_bytes :: "'s exec \<Rightarrow> int \<Rightarrow> u8 list \<Rightarrow> 's parser \<Rightarrow> 's parser option" where
  "do_parse_bytes exec now bs p =
     parse_rounds exec now (6 * length bs + 12) (PS_START, 0, bs, p)"

end
