(* ===== verification/Parser_Bounds.thy ===== *)
theory Parser_Bounds
  imports Parser
begin

text \<open>
  Bounds and termination of the parser, for every way of executing the calls of the screen: the
  buffers are never exceeded except in one case, which is exhibited, and \<^verbatim>\<open>do_parse_bytes\<close> returns.
\<close>

section \<open>What a call does not write\<close>

lemma set_state_frame [frame_simps]:
  "parser_buf (set_state s p) = parser_buf p" "buf_overrun (set_state s p) = buf_overrun p"
  "pending_buf (set_state s p) = pending_buf p" "pending_capacity (set_state s p) = pending_capacity p"
  "parser_buf_pos (set_state s p) = 0" "parser_state (set_state s p) = s"
  "dec (set_state s p) = dec p" "scr (set_state s p) = scr p"
  by (simp_all add: set_state_def)

lemma call_frame [frame_simps]:
  "parser_buf (call exec c p) = parser_buf p" "buf_overrun (call exec c p) = buf_overrun p"
  "pending_buf (call exec c p) = pending_buf p" "pending_capacity (call exec c p) = pending_capacity p"
  "parser_buf_pos (call exec c p) = (if c = Call0 Screen_reset then 0 else parser_buf_pos p)"
  by (simp_all add: call_def Let_def set_state_def split: prod.splits)

lemma calls_Nil [simp]: "calls exec [] p = p"
  by (simp add: calls_def)

lemma calls_Cons [simp]: "calls exec (c # cs) p = calls exec cs (call exec c p)"
  by (simp add: calls_def)

lemma calls_frame [frame_simps]:
  "parser_buf (calls exec cs p) = parser_buf p" "buf_overrun (calls exec cs p) = buf_overrun p"
  "pending_buf (calls exec cs p) = pending_buf p" "pending_capacity (calls exec cs p) = pending_capacity p"
  by (induction cs arbitrary: p) (simp_all add: frame_simps)

lemma calls_pos: "parser_buf_pos (calls exec cs p) \<le> parser_buf_pos p"
proof (induction cs arbitrary: p)
  case (Cons c cs)
  have "parser_buf_pos (call exec c p) \<le> parser_buf_pos p" by (simp add: call_frame)
  with Cons [of "call exec c p"] show ?case by simp
qed simp

lemma set_utf8_frame [frame_simps]:
  "parser_buf (set_utf8 st cp p) = parser_buf p" "buf_overrun (set_utf8 st cp p) = buf_overrun p"
  "pending_buf (set_utf8 st cp p) = pending_buf p" "pending_capacity (set_utf8 st cp p) = pending_capacity p"
  "parser_buf_pos (set_utf8 st cp p) = parser_buf_pos p" "parser_state (set_utf8 st cp p) = parser_state p"
  by (simp_all add: set_utf8_def)

lemma set_activated_at_frame [frame_simps]:
  "parser_buf (set_activated_at t p) = parser_buf p" "buf_overrun (set_activated_at t p) = buf_overrun p"
  "pending_buf (set_activated_at t p) = pending_buf p"
  "pending_capacity (set_activated_at t p) = pending_capacity p"
  "parser_buf_pos (set_activated_at t p) = parser_buf_pos p"
  by (simp_all add: set_activated_at_def)

section \<open>Rules for the decoding loop\<close>

lemma decode_loop_Nil [simp]: "decode_loop step prev [] p = ([], p)"
  by (simp add: decode_loop.simps)

text \<open>The five cases of a byte, as equations and as an induction rule.\<close>

lemma decode_loop_latin1:
  "use_latin1 (dec p) \<Longrightarrow> step (charset_latin1 ! unat b) p = (stop, q) \<Longrightarrow>
   decode_loop step prev (b # bs) p = (if stop then (bs, q) else decode_loop step prev bs q)"
  by (simp add: decode_loop.simps)

lemma decode_loop_accept:
  "\<not> use_latin1 (dec p) \<Longrightarrow> decode_utf8 (utf8_state (dec p)) (utf8_codepoint (dec p)) b = (0, cp) \<Longrightarrow>
   step cp (set_utf8 0 cp p) = (stop, q) \<Longrightarrow>
   decode_loop step prev (b # bs) p = (if stop then (bs, q) else decode_loop step (utf8_state (dec q)) bs q)"
  by (simp add: decode_loop.simps)

lemma decode_loop_again:
  "\<not> use_latin1 (dec p) \<Longrightarrow> decode_utf8 (utf8_state (dec p)) (utf8_codepoint (dec p)) b = (1, cp) \<Longrightarrow>
   prev \<noteq> 0 \<Longrightarrow> decode_loop step prev (b # bs) p = decode_loop step 0 (b # bs) (set_utf8 0 cp p)"
  by (subst decode_loop.simps) simp

lemma decode_loop_reject:
  "\<not> use_latin1 (dec p) \<Longrightarrow> decode_utf8 (utf8_state (dec p)) (utf8_codepoint (dec p)) b = (1, cp) \<Longrightarrow>
   decode_loop step 0 (b # bs) p = decode_loop step 0 bs (set_utf8 0 cp p)"
  by (simp add: decode_loop.simps)

lemma decode_loop_more:
  "\<not> use_latin1 (dec p) \<Longrightarrow> decode_utf8 (utf8_state (dec p)) (utf8_codepoint (dec p)) b = (st, cp) \<Longrightarrow>
   st \<noteq> 0 \<Longrightarrow> st \<noteq> 1 \<Longrightarrow> decode_loop step prev (b # bs) p = decode_loop step st bs (set_utf8 st cp p)"
  by (simp add: decode_loop.simps)

lemma decode_loop_induct [case_names Nil Latin1 Accept Again Reject More]:
  assumes Nil: "\<And>prev p. P prev [] p"
    and Latin1: "\<And>prev b bs p stop q. use_latin1 (dec p) \<Longrightarrow>
       step (charset_latin1 ! unat b) p = (stop, q) \<Longrightarrow> (\<not> stop \<Longrightarrow> P prev bs q) \<Longrightarrow> P prev (b # bs) p"
    and Accept: "\<And>prev b bs p cp stop q. \<not> use_latin1 (dec p) \<Longrightarrow>
       decode_utf8 (utf8_state (dec p)) (utf8_codepoint (dec p)) b = (0, cp) \<Longrightarrow>
       step cp (set_utf8 0 cp p) = (stop, q) \<Longrightarrow> (\<not> stop \<Longrightarrow> P (utf8_state (dec q)) bs q) \<Longrightarrow>
       P prev (b # bs) p"
    and Again: "\<And>prev b bs p cp. \<not> use_latin1 (dec p) \<Longrightarrow>
       decode_utf8 (utf8_state (dec p)) (utf8_codepoint (dec p)) b = (1, cp) \<Longrightarrow> prev \<noteq> 0 \<Longrightarrow>
       P 0 (b # bs) (set_utf8 0 cp p) \<Longrightarrow> P prev (b # bs) p"
    and Reject: "\<And>b bs p cp. \<not> use_latin1 (dec p) \<Longrightarrow>
       decode_utf8 (utf8_state (dec p)) (utf8_codepoint (dec p)) b = (1, cp) \<Longrightarrow>
       P 0 bs (set_utf8 0 cp p) \<Longrightarrow> P 0 (b # bs) p"
    and More: "\<And>prev b bs p st cp. \<not> use_latin1 (dec p) \<Longrightarrow>
       decode_utf8 (utf8_state (dec p)) (utf8_codepoint (dec p)) b = (st, cp) \<Longrightarrow> st \<noteq> 0 \<Longrightarrow> st \<noteq> 1 \<Longrightarrow>
       P st bs (set_utf8 st cp p) \<Longrightarrow> P prev (b # bs) p"
  shows "P prev bs p"
  using assms
proof (induction step prev bs p rule: decode_loop.induct)
  case (1 step prev p)
  show ?case by (rule "1.prems"(1))
next
  case (2 step prev b bs p)
  obtain st cp where d: "decode_utf8 (utf8_state (dec p)) (utf8_codepoint (dec p)) b = (st, cp)"
    by fastforce
  consider (latin1) "use_latin1 (dec p)" | (accept) "\<not> use_latin1 (dec p)" "st = 0"
    | (again) "\<not> use_latin1 (dec p)" "st = 1" "prev \<noteq> 0" | (reject) "\<not> use_latin1 (dec p)" "st = 1" "prev = 0"
    | (more) "\<not> use_latin1 (dec p)" "st \<noteq> 0" "st \<noteq> 1" by blast
  then show ?case
  proof cases
    case latin1
    obtain stop q where s: "step (charset_latin1 ! unat b) p = (stop, q)" by fastforce
    show ?thesis
      by (rule "2.prems"(2) [OF latin1 s]) (rule "2.IH"(1) [OF latin1 s [symmetric] _ "2.prems"], simp)
  next
    case accept
    obtain stop q where s: "step cp (set_utf8 0 cp p) = (stop, q)" by fastforce
    show ?thesis
      by (rule "2.prems"(3) [OF accept(1) d [unfolded accept(2)] s])
         (rule "2.IH"(2) [OF accept(1) d [symmetric] accept(2) s [unfolded accept(2) [symmetric], symmetric] _ "2.prems"], simp)
  next
    case again
    show ?thesis
      by (rule "2.prems"(4) [OF again(1) d [unfolded again(2)] again(3)])
         (rule "2.IH"(3) [OF again(1) d [symmetric] _ again(2) again(3) "2.prems"], simp add: again)
  next
    case reject
    have "P 0 (b # bs) p"
      by (rule "2.prems"(5) [OF reject(1) d [unfolded reject(2)]])
         (rule "2.IH"(4) [OF reject(1) d [symmetric] _ reject(2) _ "2.prems"], simp_all add: reject)
    with reject(3) show ?thesis by simp
  next
    case more
    show ?thesis
      by (rule "2.prems"(6) [OF more(1) d more(2) more(3)])
         (rule "2.IH"(5) [OF more(1) d [symmetric] more(2) more(3) "2.prems"])
  qed
qed

lemmas decode_loop_eqs =
  decode_loop_Nil decode_loop_latin1 decode_loop_accept decode_loop_again decode_loop_reject decode_loop_more

lemma decode_loop_invariant:
  assumes step: "\<And>c p. P p \<Longrightarrow> P (snd (step c p))"
    and utf8: "\<And>st cp p. P p \<Longrightarrow> P (set_utf8 st cp p)"
  shows "P p \<Longrightarrow> P (snd (decode_loop step prev bs p))"
proof (induction prev bs p rule: decode_loop_induct [of _ step])
  case (Latin1 prev b bs p stop q)
  then show ?case using step [of p "charset_latin1 ! unat b"] by (simp add: decode_loop_latin1)
next
  case (Accept prev b bs p cp stop q)
  then show ?case using step [of "set_utf8 0 cp p" cp] utf8 [of p] by (simp add: decode_loop_accept)
qed (simp_all add: decode_loop_again decode_loop_reject decode_loop_more utf8)

text \<open>The bytes that are left are a suffix, and at least one is consumed.\<close>

lemma decode_loop_rest: "length (fst (decode_loop step prev bs p)) \<le> length bs - 1"
proof (induction prev bs p rule: decode_loop_induct [of _ step])
  case (Latin1 prev b bs p stop q)
  then show ?case by (cases stop) (auto simp: decode_loop_latin1)
next
  case (Accept prev b bs p cp stop q)
  then show ?case by (cases stop) (auto simp: decode_loop_accept)
next
  case (Again prev b bs p cp)
  then show ?case by (simp add: decode_loop_again)
next
  case (Reject b bs p cp)
  then show ?case by (simp add: decode_loop_reject)
next
  case (More prev b bs p st cp)
  then show ?case by (simp add: decode_loop_more)
qed simp

section \<open>The buffers\<close>

definition parser_bounds :: "'s parser \<Rightarrow> bool" where
  "parser_bounds p =
     (length (parser_buf p) = PARSER_BUF_SZ \<and> parser_buf_pos p \<le> PARSER_BUF_SZ
      \<and> length (pending_buf p) \<le> pending_capacity p
      \<and> (pending_capacity p = 0 \<or> PENDING_BUF_INCREMENT \<le> pending_capacity p))"

lemma parser_bounds_frame:
  "parser_bounds p \<Longrightarrow> parser_buf q = parser_buf p \<Longrightarrow> parser_buf_pos q \<le> parser_buf_pos p \<Longrightarrow>
   pending_buf q = pending_buf p \<Longrightarrow> pending_capacity q = pending_capacity p \<Longrightarrow> parser_bounds q"
  by (simp add: parser_bounds_def)

lemma bounds_set_state [wf_intros]: "parser_bounds p \<Longrightarrow> parser_bounds (set_state s p)"
  by (rule parser_bounds_frame) (simp_all add: frame_simps)

lemma bounds_call [wf_intros]: "parser_bounds p \<Longrightarrow> parser_bounds (call exec c p)"
  by (rule parser_bounds_frame) (simp_all add: frame_simps)

lemma bounds_calls [wf_intros]: "parser_bounds p \<Longrightarrow> parser_bounds (calls exec cs p)"
  by (rule parser_bounds_frame) (simp_all add: frame_simps calls_pos)

lemma bounds_set_utf8 [wf_intros]: "parser_bounds p \<Longrightarrow> parser_bounds (set_utf8 st cp p)"
  by (rule parser_bounds_frame) (simp_all add: frame_simps)

lemma bounds_set_activated_at [wf_intros]: "parser_bounds p \<Longrightarrow> parser_bounds (set_activated_at t p)"
  by (rule parser_bounds_frame) (simp_all add: frame_simps)

lemma bounds_drop_char [wf_intros]: "parser_bounds p \<Longrightarrow> parser_bounds (drop_char p)"
  by (rule parser_bounds_frame) (simp_all add: drop_char_def)

lemma bounds_put_char [wf_intros]: "parser_bounds p \<Longrightarrow> parser_bounds (put_char c p)"
  by (simp add: parser_bounds_def put_char_def)

lemma put_char_frame [frame_simps]:
  "parser_buf_pos (put_char c p) = parser_buf_pos p" "pending_buf (put_char c p) = pending_buf p"
  "pending_capacity (put_char c p) = pending_capacity p"
  "length (parser_buf (put_char c p)) = length (parser_buf p)"
  by (simp_all add: put_char_def)

lemma bounds_push_char [wf_intros]:
  "parser_bounds p \<Longrightarrow> parser_buf_pos p < PARSER_BUF_SZ \<Longrightarrow> parser_bounds (push_char c p)"
  by (simp add: parser_bounds_def push_char_def frame_simps)

lemma bounds_continue_osc_52 [wf_intros]: "parser_bounds p \<Longrightarrow> parser_bounds (continue_osc_52 p)"
  by (simp add: parser_bounds_def continue_osc_52_def)

lemma bounds_handle_extended:
  "parser_bounds p \<Longrightarrow> handle_extended_osc_code p = Some q \<Longrightarrow> parser_bounds q"
  by (auto simp: parser_bounds_def handle_extended_osc_code_def split: if_splits)

lemma bounds_accumulate_osc [wf_intros]:
  "parser_bounds p \<Longrightarrow> parser_bounds (snd (snd (accumulate_osc exec c p)))"
  by (auto simp: accumulate_osc_def intro!: wf_intros elim: bounds_handle_extended split: option.splits)

lemma bounds_accumulate_dcs [wf_intros]: "parser_bounds p \<Longrightarrow> parser_bounds (snd (accumulate_dcs exec c p))"
  by (auto simp: accumulate_dcs_def intro!: wf_intros)

lemma bounds_accumulate_oth [wf_intros]: "parser_bounds p \<Longrightarrow> parser_bounds (snd (accumulate_oth exec c p))"
  by (auto simp: accumulate_oth_def intro!: wf_intros)

lemma bounds_normal [wf_intros]: "parser_bounds p \<Longrightarrow> parser_bounds (dispatch_normal_mode_char exec c p)"
  by (auto simp: dispatch_normal_mode_char_def intro!: wf_intros split: sum.splits)

lemma bounds_accumulate_csi [wf_intros]: "parser_bounds p \<Longrightarrow> parser_bounds (snd (accumulate_csi exec c p))"
  by (auto simp: accumulate_csi_def csi_push_def intro!: wf_intros)

lemma bounds_esc [wf_intros]: "parser_bounds p \<Longrightarrow> parser_bounds (dispatch_esc_mode_char exec c p)"
  by (auto simp: dispatch_esc_mode_char_def intro!: wf_intros split: option.splits)

text \<open>A set of handlers that stays within the buffers.\<close>

definition dispatcher_bounds :: "'s parser dispatcher \<Rightarrow> bool" where
  "dispatcher_bounds D =
     (\<forall>p. parser_bounds p \<longrightarrow>
        (\<forall>c. parser_bounds (on_normal D c p) \<and> parser_bounds (on_esc D c p))
        \<and> parser_bounds (on_csi D p) \<and> parser_bounds (on_osc D p) \<and> parser_bounds (on_apc D p)
        \<and> parser_bounds (on_pm D p) \<and> parser_bounds (on_dcs D p))"

lemma bounds_osc_char:
  assumes D: "dispatcher_bounds D" and p: "parser_bounds p"
  shows "parser_bounds (osc_char exec D c p)"
proof -
  obtain fin ext q where a: "accumulate_osc exec c p = (fin, ext, q)" by (cases "accumulate_osc exec c p")
  then have q: "parser_bounds q" using bounds_accumulate_osc [OF p, of exec c] by simp
  with D have o: "parser_bounds (on_osc D q)" by (simp add: dispatcher_bounds_def)
  obtain fin' ext' q' where a': "accumulate_osc exec c (on_osc D q) = (fin', ext', q')"
    by (cases "accumulate_osc exec c (on_osc D q)")
  then have q': "parser_bounds q'" using bounds_accumulate_osc [OF o, of exec c] by simp
  with D have "parser_bounds (on_osc D q')" by (simp add: dispatcher_bounds_def)
  with q o q' show ?thesis
    by (auto simp: osc_char_def a a' intro!: wf_intros split: bool.splits)
qed

lemma bounds_dispatch:
  assumes D: "dispatcher_bounds D" and p: "parser_bounds p"
  shows "parser_bounds (snd (dispatch_unicode_char exec D watch c p))"
proof -
  have csi: "parser_bounds (snd (accumulate_csi exec c p))"
    and dcs: "parser_bounds (snd (accumulate_dcs exec c p))"
    and oth: "parser_bounds (snd (accumulate_oth exec c p))"
    and osc: "parser_bounds (osc_char exec D c p)"
    using p D by (auto intro!: wf_intros bounds_osc_char)
  obtain f1 q1 where a1: "accumulate_csi exec c p = (f1, q1)" by fastforce
  obtain f2 q2 where a2: "accumulate_oth exec c p = (f2, q2)" by fastforce
  obtain f3 q3 where a3: "accumulate_dcs exec c p = (f3, q3)" by fastforce
  have q: "parser_bounds q1" "parser_bounds q2" "parser_bounds q3"
    using csi oth dcs by (simp_all add: a1 a2 a3)
  have D': "parser_bounds (on_normal D c r)" "parser_bounds (on_esc D c r)" "parser_bounds (on_csi D r)"
    "parser_bounds (on_apc D r)" "parser_bounds (on_pm D r)" "parser_bounds (on_dcs D r)"
    if "parser_bounds r" for r
    using D that by (simp_all add: dispatcher_bounds_def)
  show ?thesis
    unfolding dispatch_unicode_char_def a1 a2 a3
    by (cases f1; cases f2; cases f3) (simp_all add: Let_def p q osc D' bounds_set_state)
qed

lemma bounds_dispatch_to_screen: "dispatcher_bounds (dispatch_to_screen exec)"
  by (auto simp: dispatcher_bounds_def dispatch_to_screen_def dispatch_osc_code_def dispatch_dcs_code_def
      Let_def set_activated_at_def [symmetric] intro!: wf_intros split: prod.splits)

lemma grow_capacity_bounds:
  "c = 0 \<or> PENDING_BUF_INCREMENT \<le> c \<Longrightarrow>
   c + PENDING_BUF_INCREMENT \<le> grow_capacity c \<and> PENDING_BUF_INCREMENT \<le> grow_capacity c"
  unfolding grow_capacity_def by (cases "c = 0"; cases "READ_BUF_SZ \<le> c") simp_all

lemma bounds_write_pending_char [wf_intros]:
  assumes p: "parser_bounds p"
  shows "parser_bounds (write_pending_char c p)"
proof -
  define cap where "cap = pending_capacity p"
  define used where "used = length (pending_buf p)"
  have c: "used \<le> cap" "cap = 0 \<or> PENDING_BUF_INCREMENT \<le> cap"
    using p unfolding parser_bounds_def cap_def used_def by blast+
  have "used + length (encode_utf8 c) \<le> (if cap < used + 8 then grow_capacity cap else cap)"
    using c(1) grow_capacity_bounds [OF c(2)] length_encode_utf8 [of c] by (auto split: if_splits)
  moreover have "(if cap < used + 8 then grow_capacity cap else cap) = 0
      \<or> PENDING_BUF_INCREMENT \<le> (if cap < used + 8 then grow_capacity cap else cap)"
    using c(2) grow_capacity_bounds [OF c(2)] by (auto split: if_splits)
  ultimately show ?thesis
    using p unfolding parser_bounds_def write_pending_char_def cap_def used_def by simp
qed

lemma bounds_write_pending_chars [wf_intros]: "parser_bounds p \<Longrightarrow> parser_bounds (write_pending_chars cs p)"
  by (induction cs arbitrary: p) (simp_all add: write_pending_chars_def bounds_write_pending_char)

lemma bounds_pending_escape_code [wf_intros]: "parser_bounds p \<Longrightarrow> parser_bounds (pending_escape_code a b p)"
  by (simp add: pending_escape_code_def wf_intros)

lemma bounds_set_stop_type [wf_intros]: "parser_bounds p \<Longrightarrow> parser_bounds (p\<lparr>pending_stop_type := t\<rparr>)"
  by (simp add: parser_bounds_def)

lemma bounds_pending_normal: "parser_bounds p \<Longrightarrow> parser_bounds (pending_normal_mode_char c p)"
  by (simp add: pending_normal_mode_char_def wf_intros)

lemma bounds_pending_esc:
  assumes p: "parser_bounds p"
  shows "parser_bounds (pending_esc_mode_char c p)"
proof (cases "parser_buf_pos p > 0")
  case True
  with p show ?thesis by (simp add: pending_esc_mode_char_def wf_intros)
next
  case False
  with p show ?thesis
    by (cases "esc_start_state c") (simp_all add: pending_esc_mode_char_def wf_intros)
qed

lemma bounds_pending_csi: "parser_bounds p \<Longrightarrow> parser_bounds (pending_csi p)"
  by (simp add: pending_csi_def wf_intros)

lemma bounds_pending_dcs: "parser_bounds p \<Longrightarrow> parser_bounds (pending_dcs p)"
  by (simp add: pending_dcs_def wf_intros)

lemma bounds_pending_osc: "parser_bounds p \<Longrightarrow> parser_bounds (pending_osc p)"
  by (simp add: pending_osc_def Let_def wf_intros)

lemma bounds_dispatch_to_pending: "dispatcher_bounds dispatch_to_pending"
  by (simp add: dispatcher_bounds_def dispatch_to_pending_def bounds_pending_normal bounds_pending_esc
      bounds_pending_csi bounds_pending_dcs bounds_pending_osc bounds_pending_escape_code)

lemma bounds_decode_loop:
  assumes D: "dispatcher_bounds D" and p: "parser_bounds p"
  shows "parser_bounds (snd (decode_loop (dispatch_unicode_char exec D watch) prev bs p))"
  by (rule decode_loop_invariant [of parser_bounds]) (auto intro: p bounds_dispatch [OF D] wf_intros)

lemma bounds_parse_bytes [wf_intros]: "parser_bounds p \<Longrightarrow> parser_bounds (parse_bytes exec bs p)"
  by (simp add: parse_bytes_def screen_step_def bounds_decode_loop bounds_dispatch_to_screen)

lemma bounds_parse_watching [wf_intros]:
  "parser_bounds p \<Longrightarrow> parser_bounds (snd (parse_bytes_watching_for_pending exec bs p))"
  by (simp add: parse_bytes_watching_for_pending_def screen_step_def bounds_decode_loop bounds_dispatch_to_screen)

lemma bounds_queue [wf_intros]: "parser_bounds p \<Longrightarrow> parser_bounds (snd (queue_pending_bytes exec bs p))"
  by (simp add: queue_pending_bytes_def bounds_decode_loop bounds_dispatch_to_pending)

lemma bounds_dump [wf_intros]: "parser_bounds p \<Longrightarrow> parser_bounds (dump_partial_escape_code_to_pending p)"
  by (simp add: dump_partial_escape_code_to_pending_def wf_intros)

lemma bounds_parse_pending_phase [wf_intros]:
  assumes p: "parser_bounds p"
  shows "parser_bounds (parse_pending_phase exec s p)"
proof -
  define q where "q = parse_bytes exec (pending_buf p) (p\<lparr>parser_state := s\<rparr>)"
  have "parser_bounds (p\<lparr>parser_state := s\<rparr>)" using p by (simp add: parser_bounds_def)
  then have "parser_bounds q" unfolding q_def by (rule bounds_parse_bytes)
  then show ?thesis
    by (simp add: parse_pending_phase_def q_def [symmetric] Let_def parser_bounds_def set_activated_at_def)
qed

lemma bounds_start_phase:
  "parser_bounds p \<Longrightarrow> parser_bounds (snd (snd (snd (start_phase now s bs p))))"
  by (auto simp: start_phase_def intro!: wf_intros)

lemma bounds_read_phase:
  assumes "parser_bounds p"
  shows "parser_bounds (snd (snd (snd (read_phase exec s bs p))))"
  using bounds_parse_watching [OF bounds_set_activated_at [OF assms], of exec bs 0]
  by (simp add: read_phase_def case_prod_unfold)

lemma bounds_queue_phase:
  assumes "parser_bounds p"
  shows "parser_bounds (snd (snd (snd (queue_phase exec s bs p))))"
proof -
  define q where "q = p\<lparr>pending_stop_type := 0\<rparr>"
  have q: "parser_bounds q" unfolding q_def by (rule bounds_set_stop_type [OF assms])
  have "parser_bounds (snd (queue_pending_bytes exec bs q))" by (rule bounds_queue [OF q])
  moreover have "parser_bounds (set_activated_at 0 (dump_partial_escape_code_to_pending q))"
    by (intro wf_intros q)
  ultimately show ?thesis
    unfolding queue_phase_def q_def [symmetric] Let_def by (simp add: case_prod_unfold)
qed

lemma bounds_parse_round:
  assumes "parser_bounds p"
  shows "parser_bounds (snd (snd (snd (parse_round exec now (ph, s, bs, p)))))"
  using assms
  by (cases ph) (simp_all add: parse_round_def bounds_start_phase bounds_read_phase bounds_queue_phase wf_intros)

lemma bounds_parse_rounds:
  "parse_rounds exec now fuel r = Some p' \<Longrightarrow> parser_bounds (snd (snd (snd r))) \<Longrightarrow> parser_bounds p'"
proof (induction fuel arbitrary: r)
  case (Suc fuel)
  have "parser_bounds (snd (snd (snd (parse_round exec now r))))"
    using bounds_parse_round Suc.prems(2) by (cases r) simp
  with Suc show ?case by (auto simp: Let_def split: if_splits prod.splits)
qed simp

lemma bounds_do_parse_bytes:
  assumes "parser_bounds p" and "do_parse_bytes exec now bs p = Some p'"
  shows "parser_bounds p'"
  using assms bounds_parse_rounds unfolding do_parse_bytes_def by fastforce

section \<open>\<^verbatim>\<open>do_parse_bytes\<close> returns\<close>

text \<open>
  How many rounds there are at most before a byte is consumed or the loop ends. The worst case is a
  full pending buffer: it is left, parsed, and then the read buffer is.
\<close>

fun rounds_left :: "parse_phase \<Rightarrow> 's parser \<Rightarrow> nat" where
  "rounds_left PS_START p = (if is_pending p then 6 else if pending_buf p \<noteq> [] then 4 else 2)"
| "rounds_left PS_QUEUE_PENDING p = 5"
| "rounds_left PS_PARSE_PENDING p = 3"
| "rounds_left PS_PARSE_READ_BUF p = 1"

fun round_measure :: "parse_phase \<times> u32 \<times> u8 list \<times> 's parser \<Rightarrow> nat" where
  "round_measure (ph, s, bs, p) = 6 * length bs + rounds_left ph p"

fun phase_ok :: "parse_phase \<times> u32 \<times> u8 list \<times> 's parser \<Rightarrow> bool" where
  "phase_ok (ph, s, bs, p) =
     ((ph = PS_QUEUE_PENDING \<longrightarrow> is_pending p) \<and> (ph = PS_PARSE_READ_BUF \<longrightarrow> pending_buf p = []))"

lemma is_pending_set_activated_at [simp]: "is_pending (set_activated_at t p) = (t \<noteq> 0)"
  by (simp add: is_pending_def set_activated_at_def)

lemma rounds_left_le: "rounds_left PS_START p \<le> 6"
  by simp

lemma consumed_measure:
  "length bs' \<le> length bs - 1 \<Longrightarrow> bs \<noteq> [] \<Longrightarrow> 0 < k \<Longrightarrow>
   round_measure (PS_START, s', bs', p') < 6 * length bs + k"
  using rounds_left_le [of p'] by (cases bs) (auto simp del: rounds_left.simps)

lemma start_phase_measure:
  "phase_ok (start_phase now s bs p)
   \<and> round_measure (start_phase now s bs p) < 6 * length bs + rounds_left PS_START p"
  by (simp add: start_phase_def)

lemma read_phase_measure:
  assumes "pending_buf p = []" and "parse_more (read_phase exec s bs p)"
  shows "phase_ok (read_phase exec s bs p) \<and> round_measure (read_phase exec s bs p) < 6 * length bs + 1"
proof -
  define q where "q = set_activated_at 0 p"
  obtain bs' p' where r: "parse_bytes_watching_for_pending exec bs q = (bs', p')" by fastforce
  have rd: "read_phase exec s bs p = (PS_START, s, bs', p')"
    by (simp add: read_phase_def q_def [symmetric] r)
  have len: "length bs' \<le> length bs - 1"
    using decode_loop_rest [of "screen_step exec is_pending" "utf8_state (dec q)" bs q] r
    by (simp add: parse_bytes_watching_for_pending_def)
  have "bs \<noteq> []"
  proof
    assume "bs = []"
    with r have "bs' = []" "p' = q" by (auto simp: parse_bytes_watching_for_pending_def)
    with assms rd show False by (simp add: parse_more_def q_def frame_simps)
  qed
  with consumed_measure [OF len, of 1 s p'] show ?thesis by (simp add: rd del: round_measure.simps)
qed

lemma queue_phase_measure:
  assumes "is_pending p" and "parse_more (queue_phase exec s bs p)"
  shows "phase_ok (queue_phase exec s bs p) \<and> round_measure (queue_phase exec s bs p) < 6 * length bs + 5"
proof -
  define q where "q = p\<lparr>pending_stop_type := 0\<rparr>"
  show ?thesis
  proof (cases "length (pending_buf q) \<ge> READ_BUF_SZ")
    case True
    then show ?thesis by (simp add: queue_phase_def q_def [symmetric] Let_def)
  next
    case False
    obtain bs' p' where r: "queue_pending_bytes exec bs q = (bs', p')" by fastforce
    then obtain s' where rd: "queue_phase exec s bs p = (PS_START, s', bs', p')"
      using False by (simp add: queue_phase_def q_def [symmetric] Let_def)
    have len: "length bs' \<le> length bs - 1"
      using decode_loop_rest [of _ "utf8_state (dec q)" bs q] r by (simp add: queue_pending_bytes_def) (metis fst_conv)
    have "bs \<noteq> []"
    proof
      assume "bs = []"
      with r have "bs' = []" "p' = q" by (auto simp: queue_pending_bytes_def)
      with assms rd show False by (simp add: parse_more_def q_def is_pending_def)
    qed
    with consumed_measure [OF len, of 5 s' p'] show ?thesis by (simp add: rd del: round_measure.simps)
  qed
qed

lemma parse_pending_phase_frame:
  "pending_buf (parse_pending_phase exec s p) = []" "\<not> is_pending (parse_pending_phase exec s p)"
  by (simp_all add: parse_pending_phase_def Let_def set_activated_at_def is_pending_def)

lemma parse_round_measure:
  assumes "phase_ok r" and "parse_more (parse_round exec now r)"
  shows "phase_ok (parse_round exec now r) \<and> round_measure (parse_round exec now r) < round_measure r"
proof -
  obtain ph s bs p where r: "r = (ph, s, bs, p)" by (cases r)
  show ?thesis
  proof (cases ph)
    case PS_START
    then show ?thesis using start_phase_measure [of now s bs p] by (simp add: r parse_round_def)
  next
    case PS_PARSE_PENDING
    then show ?thesis by (simp add: r parse_round_def parse_pending_phase_frame)
  next
    case PS_PARSE_READ_BUF
    then show ?thesis using assms read_phase_measure [of p exec s bs] by (simp add: r parse_round_def)
  next
    case PS_QUEUE_PENDING
    then show ?thesis using assms queue_phase_measure [of p exec s bs] by (simp add: r parse_round_def)
  qed
qed

lemma parse_rounds_enough:
  "phase_ok r \<Longrightarrow> round_measure r \<le> fuel \<Longrightarrow> 0 < fuel \<Longrightarrow> \<exists>p. parse_rounds exec now fuel r = Some p"
proof (induction fuel arbitrary: r)
  case (Suc fuel)
  define r' where "r' = parse_round exec now r"
  show ?case
  proof (cases "parse_more r'")
    case True
    with parse_round_measure [OF Suc.prems(1)] Suc.prems(2)
    have "phase_ok r'" and less: "round_measure r' < Suc fuel" by (fastforce simp: r'_def)+
    moreover have "0 < round_measure r'"
    proof -
      obtain ph s bs p where "r' = (ph, s, bs, p)" by (cases r')
      then show ?thesis by (cases ph) auto
    qed
    ultimately have "\<exists>p. parse_rounds exec now fuel r' = Some p" by (intro Suc.IH) linarith+
    with True show ?thesis by (simp add: r'_def Let_def)
  next
    case False
    then show ?thesis by (simp add: r'_def Let_def split: prod.splits)
  qed
qed simp

lemma do_parse_bytes_terminates: "\<exists>p'. do_parse_bytes exec now bs p = Some p'"
  unfolding do_parse_bytes_def
proof (rule parse_rounds_enough)
  show "round_measure (PS_START, 0, bs, p) \<le> 6 * length bs + 12" by simp
qed simp_all

text \<open>A parser in its initial state, with the list of its calls as the screen.\<close>

definition record_call :: "screen_call list exec" where
  "record_call c x = (case x of (d, s) \<Rightarrow> (d, s @ [c]))"

definition fresh_parser :: "'s \<Rightarrow> 's parser" where
  "fresh_parser s =
     \<lparr>dec = \<lparr>utf8_state = 0, utf8_codepoint = 0, use_latin1 = False, pending_activated_at = 0, now_monotonic = 1\<rparr>,
      parser_state = 0, parser_buf = replicate PARSER_BUF_SZ 0, parser_buf_pos = 0, buf_overrun = False,
      pending_buf = [], pending_capacity = 0, pending_wait_time = 2, pending_stop_type = 0, scr = s\<rparr>"

lemma fresh_parser_bounds: "parser_bounds (fresh_parser s)"
  by (simp add: fresh_parser_def parser_bounds_def)

text \<open>
  C4: do_parse_bytes returns for every input, every state of the parser and of pending mode, and
  every behaviour of the screen.
\<close>

theorem do_parse_bytes_returns: "\<exists>p'. do_parse_bytes exec now bs p = Some p'"
  by (rule do_parse_bytes_terminates)

section \<open>The one write beyond \<^verbatim>\<open>parser_buf\<close>\<close>

text \<open>
  \<^verbatim>\<open>ENSURE_SPACE\<close> lets \<^verbatim>\<open>parser_buf_pos\<close> reach the size of the array, and the final character of a CSI
  sequence is written without a check.
\<close>

lemma overrun_put_char: "buf_overrun (put_char c p) = (buf_overrun p \<or> \<not> parser_buf_pos p < PARSER_BUF_SZ)"
  by (simp add: put_char_def)

lemma overrun_push_char: "buf_overrun (push_char c p) = (buf_overrun p \<or> \<not> parser_buf_pos p < PARSER_BUF_SZ)"
  by (simp add: push_char_def overrun_put_char)

lemma accumulate_overrun:
  "buf_overrun (snd (snd (accumulate_osc exec c p))) = buf_overrun p"
  "buf_overrun (snd (accumulate_oth exec c p)) = buf_overrun p"
  "buf_overrun (snd (accumulate_dcs exec c p)) = buf_overrun p"
  by (auto simp: accumulate_osc_def accumulate_oth_def accumulate_dcs_def overrun_push_char frame_simps
      drop_char_def handle_extended_osc_code_def split: option.splits if_splits)

lemma accumulate_csi_overrun:
  "buf_overrun (snd (accumulate_csi exec c p)) =
     (buf_overrun p \<or> csi_is_final c \<and> fst (accumulate_csi exec c p) \<and> \<not> parser_buf_pos p < PARSER_BUF_SZ)"
  by (auto simp: accumulate_csi_def csi_push_def overrun_push_char overrun_put_char frame_simps
      dispatch_normal_mode_char_def split: sum.splits)

lemma overrun_write_pending [frame_simps]:
  "buf_overrun (write_pending_char c p) = buf_overrun p" "buf_overrun (continue_osc_52 p) = buf_overrun p"
  by (simp_all add: write_pending_char_def continue_osc_52_def)

text \<open>
  C30: Handling a character writes outside parser_buf only for the final character of a CSI code
  that already fills the array.
\<close>

theorem overrun_only_by_final_csi_char:
  assumes "\<not> buf_overrun p" and "buf_overrun (snd (screen_step exec watch c p))"
  shows "parser_state p = CSI \<and> PARSER_BUF_SZ \<le> parser_buf_pos p \<and> csi_is_final c"
proof -
  have esc: "buf_overrun (dispatch_esc_mode_char exec c q) = buf_overrun q" for c q
    by (simp add: dispatch_esc_mode_char_def frame_simps overrun_push_char split: option.splits)
  have nrm: "buf_overrun (dispatch_normal_mode_char exec c q) = buf_overrun q" for c q
    by (simp add: dispatch_normal_mode_char_def frame_simps split: sum.splits)
  have osc: "buf_overrun (dispatch_osc_code exec q) = buf_overrun q" for q
    by (simp add: dispatch_osc_code_def Let_def frame_simps split: prod.splits)
  have dcs: "buf_overrun (dispatch_dcs_code exec q) = buf_overrun q" for q
    by (simp add: dispatch_dcs_code_def Let_def frame_simps split: prod.splits)
  have osc_char: "buf_overrun (osc_char exec (dispatch_to_screen exec) c q) = buf_overrun q" for q
  proof -
    obtain f e r where a: "accumulate_osc exec c q = (f, e, r)" by (cases "accumulate_osc exec c q")
    obtain f' e' r' where a': "accumulate_osc exec c (dispatch_osc_code exec r) = (f', e', r')"
      by (cases "accumulate_osc exec c (dispatch_osc_code exec r)")
    have "buf_overrun r = buf_overrun q" using accumulate_overrun(1) [of exec c q] by (simp add: a)
    moreover have "buf_overrun r' = buf_overrun r"
      using accumulate_overrun(1) [of exec c "dispatch_osc_code exec r"] by (simp add: a' osc)
    ultimately show ?thesis
      by (cases f; cases e; cases f') (simp_all add: osc_char_def a a' dispatch_to_screen_def osc frame_simps)
  qed
  obtain f1 q1 where a1: "accumulate_csi exec c p = (f1, q1)" by fastforce
  obtain f2 q2 where a2: "accumulate_oth exec c p = (f2, q2)" by fastforce
  obtain f3 q3 where a3: "accumulate_dcs exec c p = (f3, q3)" by fastforce
  have "buf_overrun q2 = buf_overrun p" "buf_overrun q3 = buf_overrun p"
    using accumulate_overrun(2,3) [of exec c p] by (simp_all add: a2 a3)
  with assms osc_char have "parser_state p = CSI" and "buf_overrun q1"
    unfolding screen_step_def dispatch_unicode_char_def a1 a2 a3
    by (auto simp: dispatch_to_screen_def esc nrm dcs Let_def frame_simps split: if_splits bool.splits)
  with accumulate_csi_overrun [of exec c p] assms(1) a1 show ?thesis by auto
qed

text \<open>A parser that has read a CSI code of 8192 digits.\<close>

theorem overrun_only_by_final_csi_char_witness:
  "\<exists>p :: screen_call list parser. \<not> buf_overrun p \<and> buf_overrun (snd (screen_step record_call (\<lambda>p. False) 0x6d p))
     \<and> parser_state p = CSI \<and> PARSER_BUF_SZ \<le> parser_buf_pos p \<and> csi_is_final 0x6d"
proof -
  define p :: "screen_call list parser" where "p = (fresh_parser [])\<lparr>parser_state := CSI, parser_buf_pos := PARSER_BUF_SZ\<rparr>"
  have no: "\<not> buf_overrun p" by (simp add: p_def fresh_parser_def)
  have acc: "accumulate_csi record_call 0x6d p = (True, put_char 0x6d p)"
    by (simp add: accumulate_csi_def is_digit_def ch_def chars_def csi_is_final_def)
  have "buf_overrun (snd (screen_step record_call (\<lambda>p. False) 0x6d p))"
    unfolding screen_step_def dispatch_unicode_char_def
    by (simp add: acc dispatch_to_screen_def frame_simps overrun_put_char) (simp add: p_def)
  with overrun_only_by_final_csi_char [OF no this] no show ?thesis by blast
qed

end
