(* ===== verification/Parser_Text.thy ===== *)
theory Parser_Text
  imports Parser_Bounds
begin

text \<open>
  What the parser makes of text that is well-formed: UTF-8 encoded characters reach the step function
  one by one, and a CSI sequence is dispatched with the parameters that were printed.
\<close>

section \<open>Encoded characters\<close>

definition utf8_text :: "u32 list \<Rightarrow> u8 list" where
  "utf8_text cs = concat (map encode_utf8 cs)"

lemma utf8_text_simps [simp]:
  "utf8_text [] = []" "utf8_text (c # cs) = encode_utf8 c @ utf8_text cs"
  "utf8_text (cs @ ds) = utf8_text cs @ utf8_text ds"
  by (simp_all add: utf8_text_def)

text \<open>Between two characters, with UTF-8 switched on.\<close>

definition utf8_ready :: "'s parser \<Rightarrow> bool" where
  "utf8_ready p = (utf8_state (dec p) = 0 \<and> \<not> use_latin1 (dec p))"

lemma set_utf8_collapse [simp]: "set_utf8 st cp (set_utf8 st' cp' p) = set_utf8 st cp p"
  by (simp add: set_utf8_def)

lemma dec_set_utf8 [simp]: "dec (set_utf8 st cp p) = (dec p)\<lparr>utf8_state := st, utf8_codepoint := cp\<rparr>"
  by (simp add: set_utf8_def)

lemma utf8_ready_set_utf8 [simp]: "utf8_ready p \<Longrightarrow> utf8_ready (set_utf8 0 c p)"
  by (simp add: utf8_ready_def)

lemma decode_loop_seq:
  "utf8_decode_seq (utf8_state (dec p)) (utf8_codepoint (dec p)) bs = Some c \<Longrightarrow> \<not> use_latin1 (dec p) \<Longrightarrow>
   decode_loop step prev (bs @ rest) p =
     (case step c (set_utf8 0 c p) of
        (True, q) \<Rightarrow> (rest, q)
      | (False, q) \<Rightarrow> decode_loop step (utf8_state (dec q)) rest q)"
proof (induction bs arbitrary: p prev)
  case (Cons b bs)
  obtain st cp where d: "decode_utf8 (utf8_state (dec p)) (utf8_codepoint (dec p)) b = (st, cp)"
    by fastforce
  show ?case
  proof (cases "st = 0")
    case True
    with Cons.prems d have "bs = []" "cp = c" by (auto split: if_splits)
    moreover obtain stop q where s: "step cp (set_utf8 0 cp p) = (stop, q)" by fastforce
    ultimately show ?thesis
      using Cons.prems(2) d True
      by (cases stop) (auto simp: decode_loop_accept [of p b cp step stop q])
  next
    case False
    with Cons.prems d have n: "st \<noteq> 1" and "utf8_decode_seq st cp bs = Some c" by (auto split: if_splits)
    with Cons.prems(2) have "decode_loop step st (bs @ rest) (set_utf8 st cp p) =
     (case step c (set_utf8 0 c p) of
        (True, q) \<Rightarrow> (rest, q)
      | (False, q) \<Rightarrow> decode_loop step (utf8_state (dec q)) rest q)"
      using Cons.IH [of "set_utf8 st cp p" st] by simp
    then show ?thesis using decode_loop_more [OF Cons.prems(2) d False n] by simp
  qed
qed simp

lemma decode_loop_char:
  "unicode_scalar c \<Longrightarrow> utf8_ready p \<Longrightarrow>
   decode_loop step prev (encode_utf8 c @ rest) p =
     (case step c (set_utf8 0 c p) of
        (True, q) \<Rightarrow> (rest, q)
      | (False, q) \<Rightarrow> decode_loop step (utf8_state (dec q)) rest q)"
  using decode_loop_seq [of p "encode_utf8 c" c step prev rest] utf8_encode_decode
  by (simp add: utf8_ready_def)

lemma unicode_scalar_small: "c < 0xd800 \<Longrightarrow> unicode_scalar c"
  by (simp add: unicode_scalar_def word_less_nat_alt word_le_nat_alt)

section \<open>The body of an escape code\<close>

text \<open>Characters that are stored one after the other.\<close>

definition load_chars :: "u32 list \<Rightarrow> 's parser \<Rightarrow> 's parser" where
  "load_chars cs p = fold (\<lambda>c p. push_char c (set_utf8 0 c p)) cs p"

lemma load_chars_simps [simp]:
  "load_chars [] p = p" "load_chars (c # cs) p = load_chars cs (push_char c (set_utf8 0 c p))"
  by (simp_all add: load_chars_def)

lemma push_char_frame [frame_simps]:
  "dec (push_char c p) = dec p" "scr (push_char c p) = scr p" "parser_state (push_char c p) = parser_state p"
  "parser_buf_pos (push_char c p) = parser_buf_pos p + 1"
  "length (parser_buf (push_char c p)) = length (parser_buf p)"
  "pending_buf (push_char c p) = pending_buf p" "pending_capacity (push_char c p) = pending_capacity p"
  by (simp_all add: push_char_def put_char_def)

lemma load_chars_frame [frame_simps]:
  "scr (load_chars cs p) = scr p" "parser_state (load_chars cs p) = parser_state p"
  "parser_buf_pos (load_chars cs p) = parser_buf_pos p + length cs"
  "length (parser_buf (load_chars cs p)) = length (parser_buf p)"
  "pending_buf (load_chars cs p) = pending_buf p"
  by (induction cs arbitrary: p) (simp_all add: frame_simps set_utf8_def)

lemma load_chars_dec:
  "dec (load_chars cs p) = (if cs = [] then dec p else (dec p)\<lparr>utf8_state := 0, utf8_codepoint := last cs\<rparr>)"
  by (induction cs arbitrary: p) (simp_all add: frame_simps)

lemma load_chars_ready [simp]: "utf8_ready p \<Longrightarrow> utf8_ready (load_chars cs p)"
  by (simp add: utf8_ready_def load_chars_dec)

lemma load_chars_buf:
  "length (parser_buf p) = PARSER_BUF_SZ \<Longrightarrow> parser_buf_pos p + length cs \<le> PARSER_BUF_SZ \<Longrightarrow>
   parser_buf (load_chars cs p) = overwrite (parser_buf p) (parser_buf_pos p) cs
   \<and> buf_overrun (load_chars cs p) = buf_overrun p"
proof (induction cs arbitrary: p)
  case (Cons c cs)
  define q where "q = push_char c (set_utf8 0 c p)"
  have b: "parser_buf q = (parser_buf p)[parser_buf_pos p := c]" "buf_overrun q = buf_overrun p"
    using Cons.prems by (simp_all add: q_def push_char_def put_char_def set_utf8_def)
  have pos: "parser_buf_pos q = parser_buf_pos p + 1"
    by (simp add: q_def frame_simps set_utf8_def)
  have "parser_buf (load_chars cs q) = overwrite (parser_buf q) (parser_buf_pos q) cs
    \<and> buf_overrun (load_chars cs q) = buf_overrun q"
    by (rule Cons.IH) (use Cons.prems b pos in simp_all)
  moreover have "overwrite ((parser_buf p)[parser_buf_pos p := c]) (parser_buf_pos p + 1) cs
      = overwrite (parser_buf p) (parser_buf_pos p) (c # cs)"
    using Cons.prems by (simp add: overwrite_def take_Suc_conv_app_nth drop_update_cancel)
  ultimately show ?case by (simp add: q_def [symmetric] b pos)
qed simp

section \<open>CSI sequences\<close>

definition is_csi_param :: "u32 \<Rightarrow> bool" where
  "is_csi_param c = (is_digit c \<or> (0x20 \<le> c \<and> c \<le> 0x2f) \<or> c = 0x3a \<or> c = 0x3b)"

text \<open>A body: an optional private marker, then parameter and intermediate characters.\<close>

definition csi_body :: "u32 list \<Rightarrow> bool" where
  "csi_body cs =
     (case cs of [] \<Rightarrow> True
      | c # cs \<Rightarrow> (is_csi_param c \<or> c \<in> set (chars ''?><='')) \<and> list_all is_csi_param cs)"

lemma csi_body_params: "list_all is_csi_param cs \<Longrightarrow> csi_body cs"
  by (cases cs) (simp_all add: csi_body_def)

lemma set_utf8_frame_dec [frame_simps]: "scr (set_utf8 st c p) = scr p"
  by (simp add: set_utf8_def)

lemma csi_param_scalar: "is_csi_param c \<Longrightarrow> unicode_scalar c"
  by (rule unicode_scalar_small) (auto simp: is_csi_param_def is_digit_def word_le_nat_alt word_less_nat_alt)

lemma csi_param_step:
  assumes "parser_state p = CSI" and "parser_buf_pos p < PARSER_BUF_SZ" and "is_csi_param c"
  shows "dispatch_unicode_char exec D watch c p = (False, push_char c p)"
  using assms by (simp add: dispatch_unicode_char_def accumulate_csi_def csi_push_def is_csi_param_def)

lemma csi_private_step:
  assumes "parser_state p = CSI" and "parser_buf_pos p = 0" and "c \<in> set (chars ''?><='')"
  shows "dispatch_unicode_char exec D watch c p = (False, push_char c p)"
  using assms by (auto simp: dispatch_unicode_char_def accumulate_csi_def csi_push_def)

lemma csi_params_loop:
  assumes "utf8_ready p" and "parser_state p = CSI" and "list_all is_csi_param cs"
    and "parser_buf_pos p + length cs \<le> PARSER_BUF_SZ"
  shows "decode_loop (dispatch_unicode_char exec D watch) 0 (utf8_text cs @ rest) p
       = decode_loop (dispatch_unicode_char exec D watch) 0 rest (load_chars cs p)"
  using assms
proof (induction cs arbitrary: p)
  case (Cons c cs)
  define q where "q = push_char c (set_utf8 0 c p)"
  have "dispatch_unicode_char exec D watch c (set_utf8 0 c p) = (False, q)"
    unfolding q_def by (rule csi_param_step) (use Cons.prems in \<open>simp_all add: frame_simps\<close>)
  then have "decode_loop (dispatch_unicode_char exec D watch) 0 (encode_utf8 c @ utf8_text cs @ rest) p
      = decode_loop (dispatch_unicode_char exec D watch) 0 (utf8_text cs @ rest) q"
    using Cons.prems by (simp add: decode_loop_char csi_param_scalar) (simp add: q_def frame_simps)
  also have "\<dots> = decode_loop (dispatch_unicode_char exec D watch) 0 rest (load_chars cs q)"
    by (rule Cons.IH) (use Cons.prems in \<open>simp_all add: q_def frame_simps utf8_ready_def\<close>)
  finally show ?case by (simp add: q_def)
qed simp

lemma csi_body_loop:
  assumes "utf8_ready p" and "parser_state p = CSI" and "parser_buf_pos p = 0" and "csi_body cs"
    and "length cs \<le> PARSER_BUF_SZ"
  shows "decode_loop (dispatch_unicode_char exec D watch) 0 (utf8_text cs @ rest) p
       = decode_loop (dispatch_unicode_char exec D watch) 0 rest (load_chars cs p)"
proof (cases cs)
  case Nil
  then show ?thesis by simp
next
  case (Cons c ds)
  define q where "q = push_char c (set_utf8 0 c p)"
  have c: "is_csi_param c \<or> c \<in> set (chars ''?><='')" and ds: "list_all is_csi_param ds"
    using assms(4) Cons by (simp_all add: csi_body_def)
  have sc: "unicode_scalar c"
    using c
  proof
    assume "c \<in> set (chars ''?><='')"
    then show ?thesis by (intro unicode_scalar_small) (auto simp: chars_def)
  qed (rule csi_param_scalar)
  have "dispatch_unicode_char exec D watch c (set_utf8 0 c p) = (False, q)"
    unfolding q_def using c
  proof
    assume "is_csi_param c"
    then show "dispatch_unicode_char exec D watch c (set_utf8 0 c p) = (False, push_char c (set_utf8 0 c p))"
      by (intro csi_param_step) (simp_all add: assms frame_simps)
  next
    assume "c \<in> set (chars ''?><='')"
    then show "dispatch_unicode_char exec D watch c (set_utf8 0 c p) = (False, push_char c (set_utf8 0 c p))"
      by (intro csi_private_step) (simp_all add: assms frame_simps)
  qed
  then have "decode_loop (dispatch_unicode_char exec D watch) 0 (encode_utf8 c @ utf8_text ds @ rest) p
      = decode_loop (dispatch_unicode_char exec D watch) 0 (utf8_text ds @ rest) q"
    using assms sc by (simp add: decode_loop_char) (simp add: q_def frame_simps)
  also have "\<dots> = decode_loop (dispatch_unicode_char exec D watch) 0 rest (load_chars ds q)"
    by (rule csi_params_loop) (use assms ds Cons in \<open>simp_all add: q_def frame_simps utf8_ready_def\<close>)
  finally show ?thesis by (simp add: Cons q_def)
qed

text \<open>The state when the code of a sequence arrives.\<close>

definition csi_loaded :: "u32 list \<Rightarrow> u32 \<Rightarrow> 's parser \<Rightarrow> 's parser" where
  "csi_loaded body code p = put_char code (set_utf8 0 code (load_chars body (set_state CSI p)))"

lemma csi_final_scalar: "csi_is_final c \<Longrightarrow> unicode_scalar c"
  by (rule unicode_scalar_small) (auto simp: csi_is_final_def ch_def word_le_nat_alt word_less_nat_alt)

lemma csi_final_not_param:
  "csi_is_final c \<Longrightarrow> \<not> is_digit c \<and> \<not> (0x20 \<le> c \<and> c \<le> 0x2f) \<and> c \<noteq> 0x3a \<and> c \<noteq> 0x3b \<and> c \<notin> set (chars ''?><='')
     \<and> c \<notin> set (chars ''><?!='')"
  by (auto simp: csi_is_final_def ch_def chars_def is_digit_def word_le_nat_alt word_less_nat_alt)

lemma csi_final_step:
  assumes "parser_state p = CSI" and "csi_is_final c"
  shows "dispatch_unicode_char exec D watch c p
       = (let q = set_state 0 (on_csi D (put_char c p)) in (watch q, q))"
  using assms csi_final_not_param [of c] by (auto simp: dispatch_unicode_char_def accumulate_csi_def)

lemma csi_sequence_loop:
  assumes p: "utf8_ready p" and body: "csi_body body" "length body < PARSER_BUF_SZ" and code: "csi_is_final code"
  shows "decode_loop (dispatch_unicode_char exec D watch) 0 (utf8_text (body @ [code]) @ rest) (set_state CSI p)
       = (let q = set_state 0 (on_csi D (csi_loaded body code p))
          in if watch q then (rest, q)
             else decode_loop (dispatch_unicode_char exec D watch) (utf8_state (dec q)) rest q)"
proof -
  define step where "step = dispatch_unicode_char exec D watch"
  define l where "l = load_chars body (set_state CSI p)"
  have s: "utf8_ready (set_state CSI p)" using p by (simp add: utf8_ready_def frame_simps)
  have "decode_loop step 0 (utf8_text body @ encode_utf8 code @ rest) (set_state CSI p)
      = decode_loop step 0 (encode_utf8 code @ rest) l"
    unfolding step_def l_def by (rule csi_body_loop [OF s]) (use body in \<open>simp_all add: frame_simps\<close>)
  also have "\<dots> = (let q = set_state 0 (on_csi D (put_char code (set_utf8 0 code l)))
          in if watch q then (rest, q) else decode_loop step (utf8_state (dec q)) rest q)"
  proof -
    have l: "utf8_ready l" using s by (simp add: l_def)
    have "step code (set_utf8 0 code l)
        = (let q = set_state 0 (on_csi D (put_char code (set_utf8 0 code l))) in (watch q, q))"
      unfolding step_def by (rule csi_final_step) (simp_all add: l_def frame_simps code)
    then show ?thesis
      using decode_loop_char [OF csi_final_scalar [OF code] l, of step 0 rest] by (simp add: Let_def)
  qed
  finally show ?thesis unfolding step_def l_def csi_loaded_def by simp
qed

lemma overwrite_snoc:
  "length body < length xs \<Longrightarrow> (overwrite xs 0 body)[length body := c] = overwrite xs 0 (body @ [c])"
  by (rule nth_equalityI) (auto simp: nth_overwrite nth_list_update nth_append)

lemma csi_loaded_frame:
  assumes "length (parser_buf p) = PARSER_BUF_SZ" and "length body < PARSER_BUF_SZ"
  shows "scr (csi_loaded body code p) = scr p"
    and "dec (csi_loaded body code p) = (dec p)\<lparr>utf8_state := 0, utf8_codepoint := code\<rparr>"
    and "parser_buf_pos (csi_loaded body code p) = length body"
    and "slice (parser_buf (csi_loaded body code p)) 0 (length body) = body"
    and "parser_buf (csi_loaded body code p) ! length body = code"
    and "buf_overrun (csi_loaded body code p) = buf_overrun p"
    and "parser_buf (csi_loaded body code p) = overwrite (parser_buf p) 0 (body @ [code])"
proof -
  define q where "q = set_utf8 0 code (load_chars body (set_state CSI p))"
  have pos: "parser_buf_pos q = length body" by (simp add: q_def frame_simps)
  have b: "parser_buf q = overwrite (parser_buf p) 0 body" "buf_overrun q = buf_overrun p"
    using load_chars_buf [of "set_state CSI p" body] assms by (simp_all add: q_def frame_simps)
  have c: "csi_loaded body code p = q\<lparr>parser_buf := (parser_buf q)[length body := code]\<rparr>"
    using assms(2) by (simp add: csi_loaded_def q_def [symmetric] put_char_def pos)
  show "scr (csi_loaded body code p) = scr p"
    by (simp add: c) (simp add: q_def frame_simps)
  show "dec (csi_loaded body code p) = (dec p)\<lparr>utf8_state := 0, utf8_codepoint := code\<rparr>"
    by (simp add: c) (simp add: q_def load_chars_dec frame_simps)
  show "parser_buf_pos (csi_loaded body code p) = length body" by (simp add: c pos)
  show o: "parser_buf (csi_loaded body code p) = overwrite (parser_buf p) 0 (body @ [code])"
    using assms by (simp add: c b overwrite_snoc)
  show "slice (parser_buf (csi_loaded body code p)) 0 (length body) = body"
    by (simp add: o slice_def overwrite_def)
  show "parser_buf (csi_loaded body code p) ! length body = code"
    by (simp add: o overwrite_def nth_append)
  show "buf_overrun (csi_loaded body code p) = buf_overrun p" by (simp add: c b)
qed

text \<open>Both introducers, \<^verbatim>\<open>ESC [\<close> and the C1 control \<^verbatim>\<open>0x9b\<close>, lead to the state CSI.\<close>

lemma esc_introducer:
  assumes p: "utf8_ready p" "parser_state p = 0" and s: "esc_start_state c = Some s" and c: "unicode_scalar c"
  shows "decode_loop (screen_step exec watch) 0 (utf8_text [0x1b, c] @ rest) p
       = decode_loop (screen_step exec watch) 0 rest (set_state s (set_utf8 0 c p))"
proof -
  define q where "q = set_state ESC (set_utf8 0 0x1b p)"
  have "screen_step exec watch 0x1b (set_utf8 0 0x1b p) = (False, q)"
    using p by (simp add: screen_step_def dispatch_unicode_char_def frame_simps dispatch_to_screen_def
        dispatch_normal_mode_char_def normal_mode_char_def q_def)
  moreover have q: "utf8_ready q" using p by (simp add: q_def utf8_ready_def frame_simps)
  moreover have "screen_step exec watch c (set_utf8 0 c q) = (False, set_state s (set_utf8 0 c p))"
    by (simp add: screen_step_def dispatch_unicode_char_def frame_simps dispatch_to_screen_def
        dispatch_esc_mode_char_def s) (simp add: q_def frame_simps set_state_def set_utf8_def)
  ultimately show ?thesis
    using p by (simp add: decode_loop_char unicode_scalar_small c) (simp add: utf8_ready_def frame_simps)
qed

lemma set_state_set_utf8: "set_state s (set_utf8 st c p) = set_utf8 st c (set_state s p)"
  by (simp add: set_state_def set_utf8_def)

lemma csi_loaded_set_utf8 [simp]: "csi_loaded body code (set_utf8 0 c p) = csi_loaded body code p"
proof -
  have "set_utf8 0 code (load_chars body (set_utf8 0 c (set_state CSI p)))
      = set_utf8 0 code (load_chars body (set_state CSI p))"
    by (cases body) simp_all
  then show ?thesis by (simp add: csi_loaded_def set_state_set_utf8)
qed

text \<open>\<^verbatim>\<open>dispatch_csi\<close> reads nothing but the body and the code.\<close>

definition csi_calls :: "u32 list \<Rightarrow> u32 \<Rightarrow> screen_call list" where
  "csi_calls body code = dispatch_csi (body @ [code]) (length body) code"

lemma dispatch_csi_loaded:
  assumes len: "length (parser_buf p) = PARSER_BUF_SZ" "length body < PARSER_BUF_SZ" and code: "csi_is_final code"
  shows "dispatch_csi (parser_buf (csi_loaded body code p)) (length body) code = csi_calls body code"
proof -
  define xs where "xs = overwrite (parser_buf p) 0 (body @ [code])"
  have b: "parser_buf (csi_loaded body code p) = xs"
    unfolding xs_def by (rule csi_loaded_frame(7) [OF len])
  have h: "xs ! 0 = (body @ [code]) ! 0" by (simp add: xs_def overwrite_def nth_append)
  have s0: "slice xs 0 (length body) = slice (body @ [code]) 0 (length body)"
    by (simp add: xs_def slice_def overwrite_def)
  have s1: "slice xs 1 (usub32 (length body) 1) = slice (body @ [code]) 1 (usub32 (length body) 1)"
    if "(body @ [code]) ! 0 \<in> set (chars ''><?!='')"
  proof -
    have "body \<noteq> []" using that csi_final_not_param [OF code] by auto
    then have u: "usub32 (length body) 1 = length body - 1" using len(2) by (simp add: Suc_leI)
    obtain c ds where "body = c # ds" using \<open>body \<noteq> []\<close> by (cases body) auto
    then show ?thesis unfolding u by (simp add: xs_def slice_def overwrite_def)
  qed
  have "csi_split xs (length body) = csi_split (body @ [code]) (length body)"
    unfolding csi_split_def h s0 Let_def using s1
    by (cases "(body @ [code]) ! 0 \<in> set (chars ''><?!='')") simp_all
  then show ?thesis by (simp add: b csi_calls_def dispatch_csi_def)
qed

text \<open>The effect of the calls on what is outside the parser.\<close>

lemma call_effect: "(dec (call exec c p), scr (call exec c p)) = exec c (dec p, scr p)"
  by (simp add: call_def set_state_def Let_def split: prod.splits)

lemma calls_effect: "(dec (calls exec cs p), scr (calls exec cs p)) = fold exec cs (dec p, scr p)"
  by (induction cs arbitrary: p) (simp_all add: call_effect)

lemma parse_csi_seq:
  assumes p: "utf8_ready p" "parser_state p = 0" "length (parser_buf p) = PARSER_BUF_SZ"
    and body: "csi_body body" "length body < PARSER_BUF_SZ" and code: "csi_is_final code"
  shows "\<exists>q. parse_bytes exec (utf8_text ([0x1b, 0x5b] @ body @ [code])) p = q
       \<and> (dec q, scr q) = fold exec (csi_calls body code)
           ((dec p)\<lparr>utf8_state := 0, utf8_codepoint := code\<rparr>, scr p)
       \<and> parser_state q = 0 \<and> parser_buf_pos q = 0 \<and> buf_overrun q = buf_overrun p"
proof -
  define l where "l = csi_loaded body code p"
  note l = csi_loaded_frame [OF _ body(2), of p code, folded l_def]
  have d: "dispatch_csi (parser_buf l) (length body) code = csi_calls body code"
    unfolding l_def by (rule dispatch_csi_loaded) (use assms in simp_all)
  have esc: "esc_start_state 0x5b = Some CSI" by (simp add: esc_start_state_def ch_def)
  define q where "q = set_state 0 (calls exec (csi_calls body code) l)"
  have "decode_loop (screen_step exec (\<lambda>p. False)) 0 (utf8_text ([0x1b, 0x5b] @ body @ [code])) p
      = decode_loop (screen_step exec (\<lambda>p. False)) 0 (utf8_text (body @ [code]) @ []) (set_state CSI (set_utf8 0 0x5b p))"
    using esc_introducer [OF p(1,2) esc, of exec "\<lambda>p. False" "utf8_text (body @ [code])"]
    by (simp add: unicode_scalar_small)
  also have "\<dots> = ([], q)"
    unfolding screen_step_def
    using csi_sequence_loop [OF utf8_ready_set_utf8 [OF p(1), of "0x5b"] body(1) _ code, of exec
        "dispatch_to_screen exec" "\<lambda>p. False" "[]"] body(2) l p(3) d
    by (simp add: Let_def dispatch_to_screen_def l_def [symmetric] q_def)
  finally have "parse_bytes exec (utf8_text ([0x1b, 0x5b] @ body @ [code])) p = q"
    using p(1) by (simp add: parse_bytes_def utf8_ready_def)
  moreover have "(dec q, scr q) = fold exec (csi_calls body code)
           ((dec p)\<lparr>utf8_state := 0, utf8_codepoint := code\<rparr>, scr p)"
    using calls_effect [of exec "csi_calls body code" l] l p(3) by (simp add: q_def frame_simps)
  ultimately show ?thesis using l p(3) by (simp add: q_def frame_simps)
qed

section \<open>Printed parameters\<close>

lemma digit_is_param: "list_all is_digit ds \<Longrightarrow> list_all is_csi_param ds"
  by (auto simp: list_all_iff is_csi_param_def)

lemma decimal_params: "list_all is_csi_param (decimal n)"
  by (rule digit_is_param) (simp add: decimal_digits)

lemma print_csi_params_chars: "list_all is_csi_param (print_csi_params ns)"
  by (induction ns rule: print_csi_params.induct)
     (simp_all add: decimal_params is_csi_param_def [of "0x2d"] is_csi_param_def [of "0x3b"])

lemma print_csi_params_ends:
  "ns \<noteq> [] \<Longrightarrow> print_csi_params ns \<noteq> [] \<and> (hd (print_csi_params ns) = 0x2d \<or> is_digit (hd (print_csi_params ns)))
     \<and> is_digit (last (print_csi_params ns))"
proof (induction ns rule: print_csi_params.induct)
  case (2 n)
  obtain d ds where "decimal (nat \<bar>n\<bar>) = d # ds" "list_all is_digit (d # ds)"
    using decimal_digits [of "nat \<bar>n\<bar>"] by (cases "decimal (nat \<bar>n\<bar>)") auto
  then show ?case by (auto simp: list_all_iff)
next
  case (3 n m ns)
  obtain d ds where "decimal (nat \<bar>n\<bar>) = d # ds" "list_all is_digit (d # ds)"
    using decimal_digits [of "nat \<bar>n\<bar>"] by (cases "decimal (nat \<bar>n\<bar>)") auto
  with 3 show ?case by auto
qed simp

lemma length_decimal_abs: "\<bar>n\<bar> < 2 ^ 31 \<Longrightarrow> length (decimal (nat \<bar>n\<bar>)) \<le> 10"
  using length_decimal [of "nat \<bar>n\<bar>" 9] by (simp add: nat_less_iff)

lemma length_print_csi_params:
  "list_all (\<lambda>n. \<bar>n\<bar> < 2 ^ 31) ns \<Longrightarrow> length (print_csi_params ns) \<le> 12 * length ns"
proof (induction ns rule: print_csi_params.induct)
  case (2 n)
  then have "length (decimal (nat \<bar>n\<bar>)) \<le> 10" by (simp add: length_decimal_abs)
  then show ?case by (auto simp: abs_if split: if_splits)
next
  case (3 n m ns)
  then have "length (decimal (nat \<bar>n\<bar>)) \<le> 10" by (simp add: length_decimal_abs)
  with 3 show ?case by (auto simp: abs_if split: if_splits)
qed simp

lemma csi_calls_print:
  assumes ns: "list_all (\<lambda>n. \<bar>n\<bar> < 2 ^ 31) ns" "length ns \<le> MAX_PARAMS"
    and code: "csi_is_final code" "code \<noteq> ch CHR ''m''"
  shows "csi_calls (print_csi_params ns) code = csi_code_calls code 0 0 ns"
proof -
  define body where "body = print_csi_params ns"
  have h: "(body @ [code]) ! 0 \<notin> set (chars ''><?!='')"
  proof (cases "ns = []")
    case True
    then show ?thesis using csi_final_not_param [OF code(1)] by (simp add: body_def)
  next
    case False
    with print_csi_params_ends [of ns] have "body \<noteq> []" "hd body = 0x2d \<or> is_digit (hd body)"
      by (simp_all add: body_def)
    then obtain c cs where "body = c # cs" "c = 0x2d \<or> is_digit c" by (cases body) auto
    then show ?thesis by (auto simp: chars_def ch_def is_digit_def)
  qed
  have e: "\<not> (body \<noteq> [] \<and> 0x20 \<le> last body \<and> last body \<le> 0x2f)"
  proof (cases "ns = []")
    case False
    then have "is_digit (last body)" using print_csi_params_ends [of ns] by (simp add: body_def)
    then have "0x30 \<le> last body" by (simp add: is_digit_def)
    then have "\<not> last body \<le> 0x2f" by (simp add: word_le_nat_alt)
    then show ?thesis by simp
  qed (simp add: body_def)
  have s: "slice (body @ [code]) 0 (length body) = body" by (simp add: slice_def)
  have split: "csi_split (body @ [code]) (length body) = (0, body, 0)"
    unfolding csi_split_def Let_def using h s e by auto
  have "csi_params body [] [] = Some ns" using csi_params_print [OF ns(1), of "[]"] ns(2) by (simp add: body_def)
  with split code(2) show ?thesis
    by (simp add: csi_calls_def dispatch_csi_def body_def [symmetric])
qed

text \<open>
  C25: A CSI code printed with up to 256 decimal parameters and any final character but m is
  parsed to exactly one dispatch of that code with these parameters, and the parser is back in its
  initial state.
\<close>

theorem parse_printed_csi:
  assumes p: "utf8_ready p" "parser_state p = 0" "length (parser_buf p) = PARSER_BUF_SZ"
    and ns: "list_all (\<lambda>n. \<bar>n\<bar> < 2 ^ 31) ns" "length ns \<le> 256"
    and code: "csi_is_final code" "code \<noteq> ch CHR ''m''"
  shows "\<exists>q. parse_bytes exec (utf8_text ([0x1b, 0x5b] @ print_csi_params ns @ [code])) p = q
       \<and> (dec q, scr q) = fold exec (csi_code_calls code 0 0 ns)
           ((dec p)\<lparr>utf8_state := 0, utf8_codepoint := code\<rparr>, scr p)
       \<and> parser_state q = 0"
proof -
  define l where "l = length (print_csi_params ns)"
  have "l \<le> 12 * length ns" unfolding l_def by (rule length_print_csi_params [OF ns(1)])
  with ns(2) have "l < PARSER_BUF_SZ" by simp
  moreover have "csi_body (print_csi_params ns)"
    using print_csi_params_chars by (rule csi_body_params)
  ultimately show ?thesis
    using parse_csi_seq [OF p _ _ code(1), of "print_csi_params ns" exec] csi_calls_print [OF ns code]
    by (auto simp: l_def)
qed

section \<open>The overrun can happen\<close>

text \<open>
  C31: A CSI code with 8192 digits, sent to a parser in its initial state, makes it write outside
  parser_buf: the check of ENSURE_SPACE leaves no room for the final character.
\<close>

theorem csi_overrun_reachable:
  assumes p: "utf8_ready p" "parser_state p = 0" "length (parser_buf p) = PARSER_BUF_SZ"
  shows "buf_overrun (snd (decode_loop (screen_step exec (\<lambda>p. False)) 0
           (utf8_text ([0x1b, 0x5b] @ replicate 8192 0x31 @ [0x6d])) p))"
proof -
  define q where "q = set_state CSI (set_utf8 0 0x5b p)"
  define l where "l = load_chars (replicate 8192 0x31) q"
  define r where "r = set_state 0 (on_csi (dispatch_to_screen exec) (put_char 0x6d (set_utf8 0 0x6d l)))"
  have esc: "esc_start_state 0x5b = Some CSI" by (simp add: esc_start_state_def ch_def)
  have q: "utf8_ready q" "parser_state q = CSI" "parser_buf_pos q = 0"
    using p(1) by (simp_all add: q_def frame_simps utf8_ready_def)
  have body: "csi_body (replicate 8192 0x31)"
  proof -
    have "list_all is_csi_param (replicate n 0x31)" for n
      by (induction n) (simp_all add: is_csi_param_def is_digit_def)
    then show ?thesis by (rule csi_body_params)
  qed
  have l: "utf8_ready l" "parser_state l = CSI" "parser_buf_pos l = 8192"
    using q by (simp_all add: l_def frame_simps)
  have step: "screen_step exec (\<lambda>p. False) 0x6d (set_utf8 0 0x6d l) = (False, r)"
    unfolding screen_step_def r_def
    by (subst csi_final_step) (simp_all add: frame_simps l csi_is_final_def ch_def)
  have "decode_loop (screen_step exec (\<lambda>p. False)) 0 (utf8_text ([0x1b, 0x5b] @ replicate 8192 0x31 @ [0x6d])) p
      = decode_loop (screen_step exec (\<lambda>p. False)) 0 (utf8_text (replicate 8192 0x31) @ utf8_text [0x6d]) q"
    using esc_introducer [OF p(1,2) esc, of exec "\<lambda>p. False"] by (simp add: q_def unicode_scalar_small)
  also have "\<dots> = decode_loop (screen_step exec (\<lambda>p. False)) 0 (utf8_text [0x6d]) l"
    unfolding screen_step_def l_def by (rule csi_body_loop [OF q body]) simp
  also have "\<dots> = ([], r)"
    using decode_loop_char [OF _ l(1), of "0x6d" "screen_step exec (\<lambda>p. False)" 0 "[]"] step
    by (simp add: unicode_scalar_small)
  finally show ?thesis
    by (simp add: r_def frame_simps dispatch_to_screen_def overrun_put_char l(3))
qed

section \<open>Instances\<close>

lemma fresh_parser_ready:
  "utf8_ready (fresh_parser s)" "parser_state (fresh_parser s) = 0"
  "length (parser_buf (fresh_parser s)) = PARSER_BUF_SZ"
  by (simp_all add: fresh_parser_def utf8_ready_def)

lemma scr_fresh_parser [simp]: "scr (fresh_parser s) = s"
  by (simp add: fresh_parser_def)

text \<open>\<^verbatim>\<open>ESC [ 5 ; 3 H\<close>.\<close>

theorem parse_printed_csi_witness:
  "scr (parse_bytes record_call (utf8_text ([0x1b, 0x5b] @ print_csi_params [5, 3] @ [0x48])) (fresh_parser []))
    = snd (fold record_call (csi_code_calls 0x48 0 0 [5, 3])
        ((dec (fresh_parser ([] :: screen_call list)))\<lparr>utf8_state := 0, utf8_codepoint := 0x48\<rparr>, []))"
proof -
  have "list_all (\<lambda>n. \<bar>n\<bar> < 2 ^ 31) [5, 3 :: int]" "length [5, 3 :: int] \<le> 256"
    "csi_is_final 0x48" "(0x48 :: u32) \<noteq> ch CHR ''m''"
    by (simp_all add: csi_is_final_def ch_def)
  from parse_printed_csi [OF fresh_parser_ready this, of record_call "[]"]
  show ?thesis by (auto dest!: arg_cong [of "(_, _)" _ snd])
qed

theorem csi_overrun_reachable_witness:
  "buf_overrun (snd (decode_loop (screen_step record_call (\<lambda>p. False)) 0
     (utf8_text ([0x1b, 0x5b] @ replicate 8192 0x31 @ [0x6d])) (fresh_parser [])))"
  by (rule csi_overrun_reachable [OF fresh_parser_ready])

end
