(* ===== verification/Parser_Chunks.thy ===== *)
theory Parser_Chunks
  imports Parser_Text
begin

text \<open>
  The contract between the parser and the screen as locales: what the calls keep of the decoder's
  state. Under it the result of \<^verbatim>\<open>_parse_bytes\<close> does not depend on how the input is cut into reads, and
  a text of complete escape codes has the effect of their calls in order.
\<close>

lemma dispatch_to_screen_simps:
  "on_normal (dispatch_to_screen exec) = dispatch_normal_mode_char exec"
  "on_esc (dispatch_to_screen exec) = dispatch_esc_mode_char exec"
  "on_csi (dispatch_to_screen exec) p =
     calls exec (dispatch_csi (parser_buf p) (parser_buf_pos p) (parser_buf p ! parser_buf_pos p)) p"
  "on_osc (dispatch_to_screen exec) = dispatch_osc_code exec"
  "on_apc (dispatch_to_screen exec) p = calls exec (dispatch_apc (parser_buf p) (parser_buf_pos p)) p"
  "on_pm (dispatch_to_screen exec) p = calls exec (dispatch_pm (parser_buf p) (parser_buf_pos p)) p"
  "on_dcs (dispatch_to_screen exec) = dispatch_dcs_code exec"
  by (simp_all add: dispatch_to_screen_def)

section \<open>The screen keeps the decoder between two characters\<close>

text \<open>
  Every call happens between two characters. \<open>ok\<close> is the part of the screen's invariant that this
  needs: saved decoder states are between two characters as well.
\<close>

locale decoder_screen =
  fixes exec :: "'s exec" and ok :: "'s \<Rightarrow> bool"
  assumes exec_ok: "ok s \<Longrightarrow> utf8_state d = 0 \<Longrightarrow> exec c (d, s) = (d', s') \<Longrightarrow> ok s' \<and> utf8_state d' = 0"
begin

definition at_char :: "'s parser \<Rightarrow> bool" where
  "at_char p = (ok (scr p) \<and> utf8_state (dec p) = 0)"

text \<open>Inside a character the decoder is not in Latin-1 mode.\<close>

definition chunk_ok :: "'s parser \<Rightarrow> bool" where
  "chunk_ok p = (ok (scr p) \<and> (use_latin1 (dec p) \<longrightarrow> utf8_state (dec p) = 0))"

lemma at_char_chunk_ok: "at_char p \<Longrightarrow> chunk_ok p"
  by (simp add: at_char_def chunk_ok_def)

lemma at_char_frame: "at_char p \<Longrightarrow> scr q = scr p \<Longrightarrow> dec q = dec p \<Longrightarrow> at_char q"
  by (simp add: at_char_def)

lemma at_char_set_state [simp]: "at_char (set_state s p) = at_char p"
  by (simp add: at_char_def frame_simps)

lemma at_char_push_char [simp]: "at_char (push_char c p) = at_char p"
  by (simp add: at_char_def frame_simps)

lemma at_char_put_char [simp]: "at_char (put_char c p) = at_char p"
  by (simp add: at_char_def put_char_def)

lemma at_char_drop_char [simp]: "at_char (drop_char p) = at_char p"
  by (simp add: at_char_def drop_char_def)

lemma at_char_continue_osc_52 [simp]: "at_char (continue_osc_52 p) = at_char p"
  by (simp add: at_char_def continue_osc_52_def)

lemma at_char_handle_extended: "handle_extended_osc_code p = Some q \<Longrightarrow> at_char p \<Longrightarrow> at_char q"
  by (auto simp: at_char_def handle_extended_osc_code_def split: if_splits)

lemma at_char_call [simp]: "at_char p \<Longrightarrow> at_char (call exec c p)"
  using exec_ok [of "scr p" "dec p" c] by (auto simp: at_char_def call_def Let_def frame_simps split: prod.splits)

lemma at_char_calls [simp]: "at_char p \<Longrightarrow> at_char (calls exec cs p)"
  by (induction cs arbitrary: p) simp_all

lemma at_char_set_utf8 [simp]: "chunk_ok p \<Longrightarrow> at_char (set_utf8 0 c p)"
  by (simp add: at_char_def chunk_ok_def set_utf8_def)

lemma at_char_normal [simp]: "at_char p \<Longrightarrow> at_char (dispatch_normal_mode_char exec c p)"
  by (simp add: dispatch_normal_mode_char_def split: sum.splits)

lemma at_char_esc [simp]: "at_char p \<Longrightarrow> at_char (dispatch_esc_mode_char exec c p)"
  by (simp add: dispatch_esc_mode_char_def split: option.splits)

lemma at_char_osc [simp]: "at_char p \<Longrightarrow> at_char (dispatch_osc_code exec p)"
  by (simp add: dispatch_osc_code_def Let_def split: prod.splits)

lemma at_char_dcs [simp]: "at_char p \<Longrightarrow> at_char (dispatch_dcs_code exec p)"
proof -
  assume p: "at_char p"
  then have "at_char (p\<lparr>dec := (dec p)\<lparr>pending_activated_at := t\<rparr>\<rparr>)" for t by (simp add: at_char_def)
  with p show ?thesis by (simp add: dispatch_dcs_code_def Let_def split: prod.splits)
qed

lemma at_char_accumulate_osc [simp]: "at_char p \<Longrightarrow> at_char (snd (snd (accumulate_osc exec c p)))"
  by (auto simp: accumulate_osc_def split: option.splits dest: at_char_handle_extended)

lemma at_char_accumulate_dcs [simp]: "at_char p \<Longrightarrow> at_char (snd (accumulate_dcs exec c p))"
  by (simp add: accumulate_dcs_def)

lemma at_char_accumulate_oth [simp]: "at_char p \<Longrightarrow> at_char (snd (accumulate_oth exec c p))"
  by (simp add: accumulate_oth_def)

lemma at_char_accumulate_csi [simp]: "at_char p \<Longrightarrow> at_char (snd (accumulate_csi exec c p))"
  by (simp add: accumulate_csi_def csi_push_def)

lemma at_char_osc_char [simp]:
  assumes p: "at_char p"
  shows "at_char (osc_char exec (dispatch_to_screen exec) c p)"
proof -
  obtain f e q where a: "accumulate_osc exec c p = (f, e, q)" by (cases "accumulate_osc exec c p")
  then have q: "at_char q" using at_char_accumulate_osc [OF p, of c] by simp
  obtain f' e' q' where a': "accumulate_osc exec c (dispatch_osc_code exec q) = (f', e', q')"
    by (cases "accumulate_osc exec c (dispatch_osc_code exec q)")
  then have "at_char q'" using at_char_accumulate_osc [OF at_char_osc [OF q], of c] by simp
  with q show ?thesis
    by (cases f; cases e; cases f') (simp_all add: osc_char_def a a' dispatch_to_screen_simps)
qed

lemma at_char_step:
  assumes p: "at_char p"
  shows "at_char (snd (screen_step exec watch c p))"
proof -
  obtain f1 q1 where a1: "accumulate_csi exec c p = (f1, q1)" by fastforce
  obtain f2 q2 where a2: "accumulate_oth exec c p = (f2, q2)" by fastforce
  obtain f3 q3 where a3: "accumulate_dcs exec c p = (f3, q3)" by fastforce
  have "at_char q1" "at_char q2" "at_char q3"
    using at_char_accumulate_csi [OF p, of c] at_char_accumulate_oth [OF p, of c]
      at_char_accumulate_dcs [OF p, of c] by (simp_all add: a1 a2 a3)
  with p show ?thesis
    unfolding screen_step_def dispatch_unicode_char_def a1 a2 a3
    by (cases f1; cases f2; cases f3) (simp_all add: Let_def dispatch_to_screen_simps)
qed

lemma screen_step_goes_on [simp]: "fst (screen_step exec (\<lambda>p. False) c p) = False"
  by (simp add: screen_step_def dispatch_unicode_char_def Let_def split: prod.splits bool.splits)

text \<open>Cutting the input anywhere, also inside a character or an escape code, makes no difference.\<close>

lemma decode_loop_append:
  assumes "chunk_ok p" and "prev = utf8_state (dec p)"
  shows "decode_loop (screen_step exec (\<lambda>p. False)) prev (xs @ ys) p
       = (let q = snd (decode_loop (screen_step exec (\<lambda>p. False)) prev xs p)
          in decode_loop (screen_step exec (\<lambda>p. False)) (utf8_state (dec q)) ys q)"
  using assms
proof (induction prev xs p rule: decode_loop_induct [of _ "screen_step exec (\<lambda>p. False)"])
  case (Nil prev p)
  then show ?case by simp
next
  case (Latin1 prev b xs p stop q)
  have go: "\<not> stop" using Latin1.hyps(2) screen_step_goes_on by (metis fst_conv)
  have "at_char p" using Latin1.prems Latin1.hyps(1) by (simp add: at_char_def chunk_ok_def)
  then have "at_char q" using at_char_step [of p "\<lambda>p. False" "charset_latin1 ! unat b"] Latin1.hyps(2) by simp
  then have "chunk_ok q" "prev = utf8_state (dec q)"
    using Latin1.prems Latin1.hyps(1) by (auto simp: at_char_def chunk_ok_def)
  with Latin1 go show ?case by (simp add: decode_loop_latin1)
next
  case (Accept prev b xs p cp stop q)
  have go: "\<not> stop" using Accept.hyps(3) screen_step_goes_on by (metis fst_conv)
  have "at_char (set_utf8 0 cp p)" using Accept.prems by simp
  then have "chunk_ok q" using at_char_step [of _ "\<lambda>p. False" cp] Accept.hyps(3) by (metis at_char_chunk_ok snd_conv)
  with Accept go show ?case by (simp add: decode_loop_accept)
next
  case (Again prev b xs p cp)
  have "chunk_ok (set_utf8 0 cp p)" using Again.prems by (simp add: at_char_chunk_ok)
  with Again show ?case by (simp add: decode_loop_again)
next
  case (Reject b xs p cp)
  have "chunk_ok (set_utf8 0 cp p)" using Reject.prems by (simp add: at_char_chunk_ok)
  with Reject show ?case by (simp add: decode_loop_reject)
next
  case (More prev b xs p st cp)
  have "chunk_ok (set_utf8 st cp p)" using More.prems More.hyps(1) by (simp add: chunk_ok_def frame_simps)
  with More show ?case by (simp add: decode_loop_more)
qed

lemma parse_bytes_append:
  "chunk_ok p \<Longrightarrow> parse_bytes exec (xs @ ys) p = parse_bytes exec ys (parse_bytes exec xs p)"
  by (simp add: parse_bytes_def decode_loop_append Let_def)

end

section \<open>A screen that stays in UTF-8 mode\<close>

locale utf8_screen = decoder_screen exec ok
  for exec :: "'s exec" and ok :: "'s \<Rightarrow> bool" +
  fixes utf8_only :: "'s \<Rightarrow> bool"
  assumes exec_utf8: "ok s \<Longrightarrow> utf8_only s \<Longrightarrow> utf8_state d = 0 \<Longrightarrow> \<not> use_latin1 d \<Longrightarrow>
    c \<noteq> Screen_use_latin1 True \<Longrightarrow> exec c (d, s) = (d', s') \<Longrightarrow> utf8_only s' \<and> \<not> use_latin1 d'"
begin

definition ready :: "decoder \<times> 's \<Rightarrow> bool" where
  "ready x = (ok (snd x) \<and> utf8_only (snd x) \<and> utf8_state (fst x) = 0 \<and> \<not> use_latin1 (fst x))"

lemma ready_exec: "ready x \<Longrightarrow> c \<noteq> Screen_use_latin1 True \<Longrightarrow> ready (exec c x)"
  using exec_ok [of "snd x" "fst x" c] exec_utf8 [of "snd x" "fst x" c]
  by (cases "exec c x") (auto simp: ready_def)

lemma ready_fold: "ready x \<Longrightarrow> Screen_use_latin1 True \<notin> set cs \<Longrightarrow> ready (fold exec cs x)"
proof (induction cs arbitrary: x)
  case (Cons c cs)
  then have "ready (exec c x)" by (intro ready_exec) auto
  with Cons show ?case by simp
qed simp

end

end
