(* ===== verification/Pending.thy ===== *)
theory Pending
  imports Parser_Chunks
begin

text \<open>
  Texts of complete escape codes: what the parser does with them, and what pending mode does. The
  text written to the pending buffer has, when it is parsed, the effect the original text has
  without pending mode. The exceptions of the code (a code cut by the start of pending mode, control
  characters inside a code, Latin-1 mode) are shown by evaluation.
\<close>

section \<open>Texts\<close>

text \<open>A character that starts no code, an ESC code of two characters, a CSI code.\<close>

datatype token = Text u32 | Esc u32 | Csi "u32 list" u32

fun token_ok :: "token \<Rightarrow> bool" where
  "token_ok (Text c) = (unicode_scalar c \<and> c \<notin> {ESC, CSI, OSC, DCS, APC, PM})"
| "token_ok (Esc c) = (unicode_scalar c \<and> esc_start_state c = None \<and> \<not> esc_is_intermediate c)"
| "token_ok (Csi body code) = (csi_body body \<and> length body < 8192 \<and> csi_is_final code)"

text \<open>The token as applications write it, and as pending mode writes it back, with the C1 control.\<close>

fun token_chars :: "token \<Rightarrow> u32 list" where
  "token_chars (Text c) = [c]"
| "token_chars (Esc c) = [0x1b, c]"
| "token_chars (Csi body code) = [0x1b, 0x5b] @ body @ [code]"

fun token_chars_c1 :: "token \<Rightarrow> u32 list" where
  "token_chars_c1 (Text c) = [c]"
| "token_chars_c1 (Esc c) = [0x1b, c]"
| "token_chars_c1 (Csi body code) = [0x9b] @ body @ [code]"

fun token_calls :: "token \<Rightarrow> screen_call list" where
  "token_calls (Text c) = (case normal_mode_char c of Inl s \<Rightarrow> [] | Inr cs \<Rightarrow> cs)"
| "token_calls (Esc c) = esc_single_calls c"
| "token_calls (Csi body code) = csi_calls body code"

definition run_token :: "'s exec \<Rightarrow> token \<Rightarrow> decoder \<times> 's \<Rightarrow> decoder \<times> 's" where
  "run_token exec t x =
     fold exec (token_calls t) ((fst x)\<lparr>utf8_state := 0, utf8_codepoint := last (token_chars t)\<rparr>, snd x)"

definition run_tokens :: "'s exec \<Rightarrow> token list \<Rightarrow> decoder \<times> 's \<Rightarrow> decoder \<times> 's" where
  "run_tokens exec ts x = fold (run_token exec) ts x"

definition text_of :: "token list \<Rightarrow> u8 list" where
  "text_of ts = utf8_text (concat (map token_chars ts))"

definition c1_text_of :: "token list \<Rightarrow> u8 list" where
  "c1_text_of ts = utf8_text (concat (map token_chars_c1 ts))"

section \<open>No token switches to Latin-1\<close>

lemma no_latin1_if: "x \<notin> set A \<Longrightarrow> x \<notin> set B \<Longrightarrow> x \<notin> set (if C then A else B)"
  by simp

lemma no_latin1_csi [simp]:
  "Screen_use_latin1 b \<notin> set (csi_report code k)"
  "(\<And>n. Screen_use_latin1 b \<noteq> f n) \<Longrightarrow> Screen_use_latin1 b \<notin> set (csi_handler1 code f dv ps)"
  "(\<And>n m. Screen_use_latin1 b \<noteq> g n m) \<Longrightarrow> Screen_use_latin1 b \<notin> set (csi_handler2 code g dv1 dv2 ps)"
  by (auto simp: csi_report_def csi_handler1_def csi_handler2_def Let_def)

lemma no_latin1_set_mode [simp]:
  "(\<And>n. Screen_use_latin1 b \<noteq> f n) \<Longrightarrow> Screen_use_latin1 b \<notin> set (csi_set_mode code f private ps)"
  by (induction ps) auto

lemma no_latin1_window [simp]:
  "Screen_use_latin1 b \<notin> set (csi_window_calls code sm em ps)"
  "Screen_use_latin1 b \<notin> set (csi_key_encoding_calls code sm em ps)"
  by (simp_all add: csi_window_calls_def csi_key_encoding_calls_def)

lemma no_latin1_code [simp]: "Screen_use_latin1 b \<notin> set (csi_code_calls code sm em ps)"
proof (cases "List.find (\<lambda>e. code = ch (fst e)) csi_simple")
  case None
  show ?thesis unfolding csi_code_calls_def Let_def None option.case
    by (intro no_latin1_if) simp_all
next
  case (Some e)
  then show ?thesis by (cases e) (simp add: csi_code_calls_def)
qed

lemma no_latin1_csi_calls: "Screen_use_latin1 b \<notin> set (csi_calls body code)"
  by (auto simp: csi_calls_def dispatch_csi_def sgr_calls_def Let_def split: prod.splits option.splits if_splits)

lemma no_latin1_token: "Screen_use_latin1 b \<notin> set (token_calls t)"
proof (cases t)
  case (Text c)
  have "Screen_use_latin1 b \<notin> set cs" if "normal_mode_char c = Inr cs" for cs
    using that by (auto simp: normal_mode_char_def screen_nel_def split: if_splits)
  with Text show ?thesis by (auto split: sum.splits)
next
  case (Esc c)
  then show ?thesis by (simp add: esc_single_calls_def screen_nel_def)
next
  case (Csi body code)
  then show ?thesis by (simp add: no_latin1_csi_calls)
qed

section \<open>The effect of a token\<close>

lemma state_calls: "parser_state p = 0 \<Longrightarrow> parser_state (calls exec cs p) = 0"
proof (induction cs arbitrary: p)
  case (Cons c cs)
  have "parser_state (call exec c p) = 0"
    using Cons.prems by (simp add: call_def Let_def set_state_def split: prod.splits)
  with Cons show ?case by simp
qed simp

lemma normal_mode_char_text:
  assumes "c \<notin> {ESC, CSI, OSC, DCS, APC, PM}"
  shows "\<exists>cs. normal_mode_char c = Inr cs"
proof (cases "normal_mode_char c")
  case (Inl s)
  with assms show ?thesis by (auto simp: normal_mode_char_def split: if_splits)
qed simp

lemma c1_introducer:
  assumes p: "utf8_ready p" "parser_state p = 0"
  shows "decode_loop (screen_step exec watch) 0 (encode_utf8 0x9b @ rest) p
       = decode_loop (screen_step exec watch) 0 rest (set_state CSI (set_utf8 0 0x9b p))"
proof -
  have "screen_step exec watch 0x9b (set_utf8 0 0x9b p) = (False, set_state CSI (set_utf8 0 0x9b p))"
    using p by (simp add: screen_step_def dispatch_unicode_char_def frame_simps dispatch_to_screen_simps
        dispatch_normal_mode_char_def normal_mode_char_def)
  then show ?thesis
    using decode_loop_char [of "0x9b" p "screen_step exec watch" 0 rest] p
    by (simp add: unicode_scalar_small frame_simps)
qed

lemma csi_token_loop:
  fixes exec :: "'s exec" and p :: "'s parser"
  assumes p: "utf8_ready p" "length (parser_buf p) = PARSER_BUF_SZ" and ok: "token_ok (Csi body code)"
  defines "q \<equiv> set_state 0 (calls exec (csi_calls body code) (csi_loaded body code p))"
  shows "decode_loop (screen_step exec (\<lambda>p. False)) 0 (utf8_text (body @ [code]) @ rest) (set_state CSI p)
       = decode_loop (screen_step exec (\<lambda>p. False)) (utf8_state (dec q)) rest q"
    and "parser_state q = 0" and "length (parser_buf q) = PARSER_BUF_SZ"
    and "(dec q, scr q) = run_token exec (Csi body code) (dec p, scr p)"
proof -
  have b: "csi_body body" "length body < PARSER_BUF_SZ" "csi_is_final code" using ok by simp_all
  note l = csi_loaded_frame [OF p(2) b(2), of code]
  show "decode_loop (screen_step exec (\<lambda>p. False)) 0 (utf8_text (body @ [code]) @ rest) (set_state CSI p)
       = decode_loop (screen_step exec (\<lambda>p. False)) (utf8_state (dec q)) rest q"
    using csi_sequence_loop [OF p(1) b, of exec "dispatch_to_screen exec" "\<lambda>p. False" rest]
      dispatch_csi_loaded [OF p(2) b(2,3)] l
    by (simp add: screen_step_def [symmetric] dispatch_to_screen_simps q_def Let_def)
  show "parser_state q = 0" by (simp add: q_def frame_simps)
  show "length (parser_buf q) = PARSER_BUF_SZ"
    using p(2) b(2) l(7) by (simp add: q_def frame_simps)
  show "(dec q, scr q) = run_token exec (Csi body code) (dec p, scr p)"
    using calls_effect [of exec "csi_calls body code" "csi_loaded body code p"] l
    by (simp add: q_def frame_simps run_token_def)
qed

context utf8_screen
begin

definition at_token :: "'s parser \<Rightarrow> bool" where
  "at_token p = (parser_state p = 0 \<and> length (parser_buf p) = PARSER_BUF_SZ \<and> ready (dec p, scr p))"

lemma at_token_ready: "at_token p \<Longrightarrow> utf8_ready p"
  by (simp add: at_token_def ready_def utf8_ready_def)

lemma ready_run_token: "ready x \<Longrightarrow> ready (run_token exec t x)"
  unfolding run_token_def by (rule ready_fold) (simp_all add: no_latin1_token ready_def)

lemma run_token_set_utf8: "run_token exec t (dec (set_utf8 0 c p), scr p) = run_token exec t (dec p, scr p)"
  by (simp add: run_token_def)

lemma token_effect:
  assumes p: "at_token p" and ok: "token_ok t" and cs: "cs = token_chars t \<or> cs = token_chars_c1 t"
  shows "\<exists>q. decode_loop (screen_step exec (\<lambda>p. False)) 0 (utf8_text cs @ rest) p
           = decode_loop (screen_step exec (\<lambda>p. False)) 0 rest q
         \<and> at_token q \<and> (dec q, scr q) = run_token exec t (dec p, scr p)"
proof -
  define step where "step = screen_step exec (\<lambda>p. False)"
  have r: "utf8_ready p" "parser_state p = 0" "length (parser_buf p) = PARSER_BUF_SZ"
    using p at_token_ready by (simp_all add: at_token_def)
  have run: "ready (run_token exec t (dec p, scr p))" using p by (simp add: at_token_def ready_run_token)
  have zero: "utf8_state (dec q) = 0" if "(dec q, scr q) = run_token exec t (dec p, scr p)" for q
    using run that by (metis fst_conv ready_def)
  have "\<exists>q. decode_loop step 0 (utf8_text cs @ rest) p = decode_loop step (utf8_state (dec q)) rest q
     \<and> parser_state q = 0 \<and> length (parser_buf q) = PARSER_BUF_SZ
     \<and> (dec q, scr q) = run_token exec t (dec p, scr p)"
  proof (cases t)
    case (Text c)
    have sc: "unicode_scalar c" using ok Text by simp
    obtain ds where n: "normal_mode_char c = Inr ds"
      using ok Text normal_mode_char_text by auto
    define q where "q = calls exec ds (set_utf8 0 c p)"
    have "step c (set_utf8 0 c p) = (False, q)"
      using r n by (simp add: step_def screen_step_def dispatch_unicode_char_def frame_simps
          dispatch_to_screen_simps dispatch_normal_mode_char_def q_def)
    then have "decode_loop step 0 (encode_utf8 c @ rest) p = decode_loop step (utf8_state (dec q)) rest q"
      using decode_loop_char [OF sc r(1), of step 0 rest] by simp
    moreover have "(dec q, scr q) = run_token exec t (dec p, scr p)"
      using calls_effect [of exec ds "set_utf8 0 c p"] by (simp add: q_def Text run_token_def n frame_simps)
    ultimately show ?thesis
      using r cs Text by (intro exI [of _ q]) (auto simp: q_def frame_simps state_calls)
  next
    case (Esc c)
    define l where "l = set_utf8 0 c (set_state ESC (set_utf8 0 0x1b p))"
    define q where "q = set_state 0 (calls exec (esc_single_calls c) l)"
    have sc: "unicode_scalar c" "esc_start_state c = None" "\<not> esc_is_intermediate c" using ok Esc by simp_all
    have "step 0x1b (set_utf8 0 0x1b p) = (False, set_state ESC (set_utf8 0 0x1b p))"
      using r by (simp add: step_def screen_step_def dispatch_unicode_char_def frame_simps
          dispatch_to_screen_simps dispatch_normal_mode_char_def normal_mode_char_def)
    moreover have "utf8_ready (set_state ESC (set_utf8 0 0x1b p))"
      using r by (simp add: utf8_ready_def frame_simps)
    moreover have "step c l = (False, q)"
      using sc by (simp add: step_def screen_step_def dispatch_unicode_char_def frame_simps l_def
          dispatch_to_screen_simps dispatch_esc_mode_char_def q_def)
    ultimately have "decode_loop step 0 (encode_utf8 0x1b @ encode_utf8 c @ rest) p
        = decode_loop step (utf8_state (dec q)) rest q"
      using decode_loop_char [of "0x1b" p step 0] decode_loop_char [OF sc(1), of _ step 0 rest] r(1)
      by (simp add: unicode_scalar_small l_def frame_simps)
    moreover have "(dec q, scr q) = run_token exec t (dec p, scr p)"
      using calls_effect [of exec "esc_single_calls c" l]
      by (simp add: q_def Esc run_token_def l_def frame_simps)
    ultimately show ?thesis
      using r cs Esc by (intro exI [of _ q]) (auto simp: q_def l_def frame_simps)
  next
    case (Csi body code)
    have r': "utf8_ready (set_utf8 0 c p)" "length (parser_buf (set_utf8 0 c p)) = PARSER_BUF_SZ" for c
      using r by (simp_all add: frame_simps)
    note seq_esc = csi_token_loop [where exec = exec, OF r' [of "0x5b"] ok [unfolded Csi], folded step_def]
    note seq_c1 = csi_token_loop [where exec = exec, OF r' [of "0x9b"] ok [unfolded Csi], folded step_def]
    have esc: "esc_start_state 0x5b = Some CSI" by (simp add: esc_start_state_def ch_def)
    consider "cs = [0x1b, 0x5b] @ body @ [code]" | "cs = [0x9b] @ body @ [code]" using cs Csi by auto
    then show ?thesis
    proof cases
      case 1
      then show ?thesis
        using esc_introducer [OF r(1,2) esc, of exec "\<lambda>p. False" "utf8_text (body @ [code]) @ rest"] Csi
          seq_esc(1) [where rest = rest] seq_esc(2-4)
        by (intro exI [of _ "set_state 0 (calls exec (csi_calls body code) (csi_loaded body code p))"])
           (auto simp: unicode_scalar_small step_def [symmetric] frame_simps run_token_def)
    next
      case 2
      then show ?thesis
        using c1_introducer [OF r(1,2), of exec "\<lambda>p. False" "utf8_text (body @ [code]) @ rest"] Csi
          seq_c1(1) [where rest = rest] seq_c1(2-4)
        by (intro exI [of _ "set_state 0 (calls exec (csi_calls body code) (csi_loaded body code p))"])
           (auto simp: step_def [symmetric] frame_simps run_token_def)
    qed
  qed
  then obtain q where q: "decode_loop step 0 (utf8_text cs @ rest) p = decode_loop step (utf8_state (dec q)) rest q"
    "parser_state q = 0" "length (parser_buf q) = PARSER_BUF_SZ"
    "(dec q, scr q) = run_token exec t (dec p, scr p)" by blast
  with run zero [OF q(4)] show ?thesis unfolding step_def [symmetric] by (auto simp: at_token_def)
qed

lemma tokens_effect:
  assumes "at_token p" and "list_all token_ok ts" and f: "f = token_chars \<or> f = token_chars_c1"
  shows "\<exists>q. decode_loop (screen_step exec (\<lambda>p. False)) 0 (utf8_text (concat (map f ts))) p = ([], q)
         \<and> at_token q \<and> (dec q, scr q) = run_tokens exec ts (dec p, scr p)"
  using assms(1,2)
proof (induction ts arbitrary: p)
  case Nil
  then show ?case by (simp add: run_tokens_def)
next
  case (Cons t ts)
  obtain q where q: "decode_loop (screen_step exec (\<lambda>p. False)) 0 (utf8_text (f t) @ utf8_text (concat (map f ts))) p
      = decode_loop (screen_step exec (\<lambda>p. False)) 0 (utf8_text (concat (map f ts))) q"
    "at_token q" "(dec q, scr q) = run_token exec t (dec p, scr p)"
    using token_effect [OF Cons.prems(1), of t "f t"] Cons.prems(2) f by auto
  with Cons.IH [OF q(2)] Cons.prems(2) show ?case by (auto simp: run_tokens_def)
qed

lemma parse_tokens:
  assumes "at_token p" and "list_all token_ok ts" and "bs = text_of ts \<or> bs = c1_text_of ts"
  shows "at_token (parse_bytes exec bs p)
       \<and> (dec (parse_bytes exec bs p), scr (parse_bytes exec bs p)) = run_tokens exec ts (dec p, scr p)"
proof -
  have "utf8_state (dec p) = 0" using at_token_ready [OF assms(1)] by (simp add: utf8_ready_def)
  then show ?thesis
    using tokens_effect [OF assms(1,2), of token_chars] tokens_effect [OF assms(1,2), of token_chars_c1] assms(3)
    by (auto simp: parse_bytes_def text_of_def c1_text_of_def)
qed

end

section \<open>Queueing a token\<close>

text \<open>The codes that start and stop pending mode itself.\<close>

definition is_sync_code :: "token \<Rightarrow> bool" where
  "is_sync_code t = (t = Csi (chars ''?2026'') (ch CHR ''h'') \<or> t = Csi (chars ''?2026'') (ch CHR ''l''))"

definition queueing :: "'s parser \<Rightarrow> bool" where
  "queueing p = (utf8_ready p \<and> parser_state p = 0 \<and> length (parser_buf p) = PARSER_BUF_SZ \<and> is_pending p)"

abbreviation pending_step :: "'s exec \<Rightarrow> u32 \<Rightarrow> 's parser \<Rightarrow> bool \<times> 's parser" where
  "pending_step exec \<equiv> dispatch_unicode_char exec dispatch_to_pending (\<lambda>p. \<not> is_pending p)"

lemma write_pending_char_frame [frame_simps]:
  "dec (write_pending_char c p) = dec p" "scr (write_pending_char c p) = scr p"
  "parser_state (write_pending_char c p) = parser_state p" "parser_buf (write_pending_char c p) = parser_buf p"
  "parser_buf_pos (write_pending_char c p) = parser_buf_pos p"
  "pending_buf (write_pending_char c p) = pending_buf p @ encode_utf8 c"
  by (simp_all add: write_pending_char_def)

lemma write_pending_chars_frame [frame_simps]:
  "dec (write_pending_chars cs p) = dec p" "scr (write_pending_chars cs p) = scr p"
  "parser_state (write_pending_chars cs p) = parser_state p" "parser_buf (write_pending_chars cs p) = parser_buf p"
  "pending_buf (write_pending_chars cs p) = pending_buf p @ utf8_text cs"
  by (induction cs arbitrary: p) (simp_all add: write_pending_chars_def frame_simps)

lemma is_pending_dec: "dec q = (dec p)\<lparr>utf8_state := st, utf8_codepoint := c\<rparr> \<Longrightarrow> is_pending q = is_pending p"
  by (simp add: is_pending_def)

lemma pending_intro:
  assumes p: "queueing p"
  shows "decode_loop (pending_step exec) 0 (encode_utf8 0x1b @ rest) p
       = decode_loop (pending_step exec) 0 rest (set_state ESC (set_utf8 0 0x1b p))"
proof -
  have "pending_step exec 0x1b (set_utf8 0 0x1b p) = (False, set_state ESC (set_utf8 0 0x1b p))"
    using p by (simp add: queueing_def dispatch_unicode_char_def frame_simps dispatch_to_pending_def
        pending_normal_mode_char_def)
  then show ?thesis
    using decode_loop_char [of "0x1b" p "pending_step exec" 0 rest] p
    by (simp add: queueing_def unicode_scalar_small frame_simps)
qed

lemma queue_token:
  assumes p: "queueing p" and ok: "token_ok t" "\<not> is_sync_code t"
  shows "\<exists>q. decode_loop (pending_step exec) 0 (utf8_text (token_chars t) @ rest) p
           = decode_loop (pending_step exec) 0 rest q
         \<and> queueing q \<and> scr q = scr p \<and> pending_buf q = pending_buf p @ utf8_text (token_chars_c1 t)
         \<and> dec q = (dec p)\<lparr>utf8_state := 0, utf8_codepoint := last (token_chars t)\<rparr>"
proof -
  define step where "step = pending_step exec"
  have r: "utf8_ready p" "parser_state p = 0" "length (parser_buf p) = PARSER_BUF_SZ" "is_pending p"
    using p by (simp_all add: queueing_def)
  have zero: "utf8_state (dec p) = 0" "\<not> use_latin1 (dec p)" using r(1) by (simp_all add: utf8_ready_def)
  have "\<exists>q. decode_loop step 0 (utf8_text (token_chars t) @ rest) p = decode_loop step 0 rest q
         \<and> parser_state q = 0 \<and> length (parser_buf q) = PARSER_BUF_SZ
         \<and> scr q = scr p \<and> pending_buf q = pending_buf p @ utf8_text (token_chars_c1 t)
         \<and> dec q = (dec p)\<lparr>utf8_state := 0, utf8_codepoint := last (token_chars t)\<rparr>"
  proof (cases t)
    case (Text c)
    define q where "q = write_pending_char c (set_utf8 0 c p)"
    have "step c (set_utf8 0 c p) = (False, q)"
      using r ok Text by (auto simp: step_def dispatch_unicode_char_def frame_simps dispatch_to_pending_def
          pending_normal_mode_char_def q_def)
    then have "decode_loop step 0 (encode_utf8 c @ rest) p = decode_loop step 0 rest q"
      using decode_loop_char [of c p step 0 rest] r(1) ok Text by (simp add: q_def frame_simps)
    then show ?thesis using r Text by (intro exI [of _ q]) (simp add: q_def frame_simps)
  next
    case (Esc c)
    define l where "l = set_utf8 0 c (set_state ESC (set_utf8 0 0x1b p))"
    define q where "q = set_state 0 (write_pending_char c (write_pending_char ESC l))"
    have "step c l = (False, q)"
      using ok Esc by (simp add: step_def dispatch_unicode_char_def frame_simps l_def
          dispatch_to_pending_def pending_esc_mode_char_def q_def)
    moreover have "utf8_ready (set_state ESC (set_utf8 0 0x1b p))"
      using r(1) by (simp add: utf8_ready_def frame_simps)
    ultimately have "decode_loop step 0 (encode_utf8 0x1b @ encode_utf8 c @ rest) p = decode_loop step 0 rest q"
      using pending_intro [OF p, of exec] decode_loop_char [of c _ step 0 rest] ok Esc
      by (simp add: step_def [symmetric]) (simp add: q_def l_def frame_simps)
    then show ?thesis using r Esc by (intro exI [of _ q]) (simp add: q_def l_def frame_simps)
  next
    case (Csi body code)
    define l where "l = csi_loaded body code p"
    define q where "q = set_state 0 (pending_escape_code CSI code l)"
    have b: "csi_body body" "length body < PARSER_BUF_SZ" "csi_is_final code" using ok Csi by simp_all
    note lf = csi_loaded_frame [OF r(3) b(2), of code, folded l_def]
    have l: "pending_buf l = pending_buf p"
      by (simp add: l_def csi_loaded_def frame_simps)
    have "pending_csi l = pending_escape_code CSI code l"
    proof -
      have "\<not> (length body = 5 \<and> body = chars ''?2026'' \<and> (code = ch CHR ''h'' \<or> code = ch CHR ''l''))"
        using ok(2) Csi by (auto simp: is_sync_code_def)
      then show ?thesis using lf by (auto simp: pending_csi_def)
    qed
    then have on: "on_csi dispatch_to_pending l = pending_escape_code CSI code l"
      by (simp add: dispatch_to_pending_def)
    have qf: "scr q = scr p" "dec q = (dec p)\<lparr>utf8_state := 0, utf8_codepoint := code\<rparr>" "parser_state q = 0"
      "length (parser_buf q) = PARSER_BUF_SZ"
      "pending_buf q = pending_buf p @ encode_utf8 CSI @ utf8_text body @ encode_utf8 code"
      using lf r(3) b(2) l by (simp_all add: q_def pending_escape_code_def frame_simps)
    have "is_pending q" using r(4) qf(2) by (simp add: is_pending_def)
    have esc: "esc_start_state 0x5b = Some CSI" by (simp add: esc_start_state_def ch_def)
    define m where "m = set_state ESC (set_utf8 0 0x1b p)"
    have m: "utf8_ready m" using r(1) by (simp add: m_def utf8_ready_def frame_simps)
    have "step 0x5b (set_utf8 0 0x5b m) = (False, set_state CSI (set_utf8 0 0x5b p))"
      by (simp add: step_def dispatch_unicode_char_def frame_simps dispatch_to_pending_def
          pending_esc_mode_char_def esc) (simp add: m_def frame_simps set_state_def set_utf8_def)
    then have "decode_loop step 0 (encode_utf8 0x1b @ encode_utf8 0x5b @ utf8_text (body @ [code]) @ rest) p
        = decode_loop step 0 (utf8_text (body @ [code]) @ rest) (set_state CSI (set_utf8 0 0x5b p))"
      using pending_intro [OF p, of exec] decode_loop_char [OF _ m, of "0x5b" step 0]
      by (simp add: step_def [symmetric] m_def [symmetric] unicode_scalar_small) (simp add: frame_simps)
    also have "\<dots> = decode_loop step 0 rest q"
      using csi_sequence_loop [OF utf8_ready_set_utf8 [OF r(1), of "0x5b"] b, of exec dispatch_to_pending
          "\<lambda>p. \<not> is_pending p" rest] \<open>is_pending q\<close> qf(2)
      by (simp add: step_def Let_def l_def [symmetric] on q_def [symmetric])
    finally show ?thesis using qf Csi by (intro exI [of _ q]) simp
  qed
  then show ?thesis unfolding step_def [symmetric] using zero r(4)
    by (auto simp: queueing_def utf8_ready_def is_pending_def)
qed

lemma queue_tokens:
  "queueing p \<Longrightarrow> list_all token_ok ts \<Longrightarrow> list_all (\<lambda>t. \<not> is_sync_code t) ts \<Longrightarrow>
   \<exists>q. queue_pending_bytes exec (text_of ts) p = ([], q) \<and> queueing q \<and> scr q = scr p
     \<and> pending_buf q = pending_buf p @ c1_text_of ts
     \<and> dec q = (dec p)\<lparr>utf8_state := 0,
         utf8_codepoint := (if ts = [] then utf8_codepoint (dec p) else last (token_chars (last ts)))\<rparr>"
proof (induction ts arbitrary: p)
  case Nil
  then have "utf8_state (dec p) = 0" by (simp add: queueing_def utf8_ready_def)
  then have "dec p = (dec p)\<lparr>utf8_state := 0, utf8_codepoint := utf8_codepoint (dec p)\<rparr>" by simp
  with Nil show ?case by (simp add: queue_pending_bytes_def text_of_def c1_text_of_def)
next
  case (Cons t ts)
  have z: "utf8_state (dec p) = 0" using Cons.prems(1) by (simp add: queueing_def utf8_ready_def)
  obtain q where q: "decode_loop (pending_step exec) 0 (utf8_text (token_chars t) @ text_of ts) p
           = decode_loop (pending_step exec) 0 (text_of ts) q"
    "queueing q" "scr q = scr p" "pending_buf q = pending_buf p @ utf8_text (token_chars_c1 t)"
    "dec q = (dec p)\<lparr>utf8_state := 0, utf8_codepoint := last (token_chars t)\<rparr>"
    using queue_token [OF Cons.prems(1), of t] Cons.prems(2,3) by auto
  obtain r where "queue_pending_bytes exec (text_of ts) q = ([], r)" "queueing r" "scr r = scr q"
    "pending_buf r = pending_buf q @ c1_text_of ts"
    "dec r = (dec q)\<lparr>utf8_state := 0,
         utf8_codepoint := (if ts = [] then utf8_codepoint (dec q) else last (token_chars (last ts)))\<rparr>"
    using Cons.IH [OF q(2)] Cons.prems(2,3) by auto
  with q z show ?case
    by (intro exI [of _ r]) (auto simp: queue_pending_bytes_def text_of_def c1_text_of_def)
qed

lemma run_tokens_codepoint:
  "utf8_state d = 0 \<Longrightarrow> ts \<noteq> [] \<Longrightarrow> run_tokens exec ts (d\<lparr>utf8_state := 0, utf8_codepoint := c\<rparr>, s) = run_tokens exec ts (d, s)"
  by (cases ts) (simp_all add: run_tokens_def run_token_def)

context utf8_screen
begin

lemma pending_transparent:
  assumes p: "at_token p" "is_pending p" "pending_buf p = []"
    and ts: "list_all token_ok ts" "list_all (\<lambda>t. \<not> is_sync_code t) ts"
  shows "\<exists>q. queue_pending_bytes exec (text_of ts) p = ([], q) \<and> scr q = scr p
     \<and> dec (parse_bytes exec (pending_buf q) q) = dec (parse_bytes exec (text_of ts) p)
     \<and> scr (parse_bytes exec (pending_buf q) q) = scr (parse_bytes exec (text_of ts) p)"
proof -
  have "queueing p" using p at_token_ready by (simp add: queueing_def at_token_def)
  then obtain q where q: "queue_pending_bytes exec (text_of ts) p = ([], q)" "queueing q" "scr q = scr p"
    "pending_buf q = c1_text_of ts"
    "dec q = (dec p)\<lparr>utf8_state := 0,
         utf8_codepoint := (if ts = [] then utf8_codepoint (dec p) else last (token_chars (last ts)))\<rparr>"
    using queue_tokens [OF _ ts, of p exec] p(3) by auto
  have z: "utf8_state (dec p) = 0" using at_token_ready [OF p(1)] by (simp add: utf8_ready_def)
  have at: "at_token q"
    using q p(1) by (simp add: queueing_def at_token_def ready_def)
  have same: "run_tokens exec ts (dec q, scr q) = run_tokens exec ts (dec p, scr p)"
  proof (cases "ts = []")
    case True
    then have "dec q = dec p" using q(5) z by (cases "dec p") simp
    with q(3) show ?thesis by simp
  next
    case False
    with q(3,5) z show ?thesis by (simp add: run_tokens_codepoint)
  qed
  have "(dec (parse_bytes exec (pending_buf q) q), scr (parse_bytes exec (pending_buf q) q))
      = (dec (parse_bytes exec (text_of ts) p), scr (parse_bytes exec (text_of ts) p))"
    using parse_tokens [OF at ts(1)] parse_tokens [OF p(1) ts(1)] same q(4) by metis
  with q show ?thesis by blast
qed

text \<open>
  A code cut by the end of a read: when pending mode is on, nothing is queued yet and the read ended
  after \<^verbatim>\<open>ESC [\<close>, the next read takes the state CSI for the state before the queued text. The queued
  code is then parsed as the inside of a CSI code, and its text is drawn.
\<close>

lemma stale_csi_state:
  assumes p: "parser_state p = CSI" "length (parser_buf p) = PARSER_BUF_SZ" "ready (dec p, scr p)"
    and cs: "list_all (\<lambda>c. token_ok (Text c)) cs"
  shows "(dec (parse_bytes exec (utf8_text (0x9b # cs)) p), scr (parse_bytes exec (utf8_text (0x9b # cs)) p))
       = run_tokens exec (map Text cs)
           (exec (Report_error (Sequence_invalid_char CSI 0x9b))
              ((dec p)\<lparr>utf8_state := 0, utf8_codepoint := 0x9b\<rparr>, scr p))"
proof -
  define q where "q = set_state 0 (report exec (Sequence_invalid_char CSI 0x9b) (set_utf8 0 0x9b p))"
  have rp: "utf8_ready p" using p(3) by (simp add: ready_def utf8_ready_def)
  have step: "screen_step exec (\<lambda>p. False) 0x9b (set_utf8 0 0x9b p) = (False, q)"
    using p(1) by (simp add: screen_step_def dispatch_unicode_char_def frame_simps accumulate_csi_def
        is_digit_def chars_def ch_def csi_is_final_def csi_is_control_def q_def)
  have eff: "(dec q, scr q) = exec (Report_error (Sequence_invalid_char CSI 0x9b))
      ((dec p)\<lparr>utf8_state := 0, utf8_codepoint := 0x9b\<rparr>, scr p)"
    using call_effect [of exec "Report_error (Sequence_invalid_char CSI 0x9b)" "set_utf8 0 0x9b p"]
    by (simp add: q_def frame_simps)
  have "ready ((dec p)\<lparr>utf8_state := 0, utf8_codepoint := 0x9b\<rparr>, scr p)" using p(3) by (simp add: ready_def)
  from ready_exec [OF this, of "Report_error (Sequence_invalid_char CSI 0x9b)"]
  have rq: "ready (dec q, scr q)" by (simp add: eff)
  then have q: "at_token q" using p(2) by (simp add: at_token_def q_def frame_simps)
  have z: "utf8_state (dec p) = 0" "utf8_state (dec q) = 0" using p(3) rq by (simp_all add: ready_def)
  have "parse_bytes exec (utf8_text (0x9b # cs)) p = parse_bytes exec (text_of (map Text cs)) q"
    using decode_loop_char [OF _ rp, of "0x9b" "screen_step exec (\<lambda>p. False)" 0 "utf8_text cs"] step z
    by (simp add: parse_bytes_def text_of_def comp_def concat_map_singleton unicode_scalar_small)
  moreover have "list_all token_ok (map Text cs)" using cs by (simp add: list_all_iff)
  ultimately show ?thesis using parse_tokens [OF q, of "map Text cs"] eff by metis
qed

end

end
