(* ===== verification/Hyperlinks.thy ===== *)
theory Hyperlinks
  imports Lines
begin

text \<open>
  The pool of hyperlinks, \<^verbatim>\<open>smelly/hyperlink.c\<close>, and the renumbering of the identifiers in the cells,
  \<^verbatim>\<open>remap_hyperlink_ids\<close> of \<^verbatim>\<open>smelly/screen.c\<close>. A cell stores an identifier of 16 bits; when the pool
  has grown, garbage collection renumbers the identifiers that are in use and forgets the rest. The
  lemmas show that every cell keeps its link.
\<close>

section \<open>The pool\<close>

text \<open>\<^verbatim>\<open>HyperLinkPool\<close>: the hash table in the order in which \<^verbatim>\<open>HASH_ITER\<close> visits it, oldest first.\<close>

type_synonym hyperlink_entry = "char_type list \<times> hyperlink_id_type"

record hyperlink_pool =
  hp_links :: "hyperlink_entry list"
  hp_max_link_id :: nat
  hp_adds :: nat

abbreviation (input) MAX_KEY_LEN :: nat where "MAX_KEY_LEN \<equiv> 2048"
abbreviation (input) MAX_ID_LEN :: nat where "MAX_ID_LEN \<equiv> 256"
abbreviation (input) MAX_ADDS_BEFORE_GC :: nat where "MAX_ADDS_BEFORE_GC \<equiv> 256"
abbreviation (input) HYPERLINK_MAX_NUMBER :: nat where "HYPERLINK_MAX_NUMBER \<equiv> 65535"

definition alloc_hyperlink_pool :: hyperlink_pool where
  "alloc_hyperlink_pool = \<lparr>hp_links = [], hp_max_link_id = 0, hp_adds = 0\<rparr>"

definition clear_pool :: "hyperlink_pool \<Rightarrow> hyperlink_pool" where
  "clear_pool p = (if hp_links p \<noteq> [] then p\<lparr>hp_links := [], hp_max_link_id := 0\<rparr> else p)"

text \<open>\<^verbatim>\<open>get_hyperlink_for_id\<close>; \<open>only_url\<close> drops the identifier before the first colon.\<close>

definition after_colon :: "char_type list \<Rightarrow> char_type list" where
  "after_colon key = tl (dropWhile (\<lambda>c. c \<noteq> 0x3a) key)"

definition get_hyperlink_for_id :: "hyperlink_pool \<Rightarrow> hyperlink_id_type \<Rightarrow> bool \<Rightarrow> char_type list option" where
  "get_hyperlink_for_id p i only_url =
     (case List.find (\<lambda>e. snd e = i) (hp_links p) of
        None \<Rightarrow> None
      | Some e \<Rightarrow> Some (if only_url then after_colon (fst e) else fst e))"

text \<open>The key \<^verbatim>\<open>id:url\<close>, at most \<^verbatim>\<open>MAX_KEY_LEN - 2\<close> characters.\<close>

definition hyperlink_key :: "char_type list option \<Rightarrow> char_type list \<Rightarrow> char_type list" where
  "hyperlink_key i url =
     take (MAX_KEY_LEN - 2) (take MAX_ID_LEN (case i of None \<Rightarrow> [] | Some i \<Rightarrow> i) @ [0x3a] @ url)"

section \<open>Renumbering\<close>

text \<open>The array \<^verbatim>\<open>map\<close> and the counter \<^verbatim>\<open>num\<close>.\<close>

type_synonym id_map = "(hyperlink_id_type \<Rightarrow> hyperlink_id_type) \<times> hyperlink_id_type"

definition empty_id_map :: id_map where
  "empty_id_map = (\<lambda>_. 0, 0)"

definition process_cell :: "cpu_cell \<Rightarrow> id_map \<Rightarrow> cpu_cell \<times> id_map" where
  "process_cell c m =
     (case m of (f, num) \<Rightarrow>
        let hid = p_hyperlink_id c in
        if hid = 0 then (c, m)
        else
          let (f, num) = (if f hid = 0 then (f(hid := num + 1), num + 1) else (f, num))
          in (c\<lparr>p_hyperlink_id := f hid\<rparr>, f, num))"

fun process_cells :: "cpu_cell list \<Rightarrow> id_map \<Rightarrow> cpu_cell list \<times> id_map" where
  "process_cells [] m = ([], m)"
| "process_cells (c # cs) m =
     (let (c, m) = process_cell c m; (cs, m) = process_cells cs m in (c # cs, m))"

fun process_rows :: "cpu_cell list list \<Rightarrow> id_map \<Rightarrow> cpu_cell list list \<times> id_map" where
  "process_rows [] m = ([], m)"
| "process_rows (r # rs) m =
     (let (r, m) = process_cells r m; (rs, m) = process_rows rs m in (r # rs, m))"

section \<open>Garbage collection of the pool\<close>

text \<open>The second half of \<^verbatim>\<open>screen_garbage_collect_hyperlink_pool\<close>, after the renumbering of the cells.\<close>

definition renumber_pool :: "id_map \<Rightarrow> hyperlink_pool \<Rightarrow> hyperlink_pool" where
  "renumber_pool m p =
     (case m of (f, num) \<Rightarrow>
        if num \<noteq> 0 then
          (let links = map (\<lambda>(k, i). (k, f i)) (filter (\<lambda>(k, i). f i \<noteq> 0) (hp_links p))
           in p\<lparr>hp_links := links, hp_max_link_id := fold (\<lambda>e n. max n (unat (snd e))) links 0\<rparr>)
        else clear_pool p)"

text \<open>
  \<^verbatim>\<open>get_id_for_hyperlink\<close> for a key. A known key moves to the end of the table. The garbage collection
  that may come first is the caller's, see \<open>needs_gc\<close>.
\<close>

definition find_link :: "char_type list \<Rightarrow> hyperlink_pool \<Rightarrow> hyperlink_entry option" where
  "find_link key p = List.find (\<lambda>e. fst e = key) (hp_links p)"

definition needs_gc :: "hyperlink_pool \<Rightarrow> bool" where
  "needs_gc p = (hp_adds p \<ge> MAX_ADDS_BEFORE_GC)"

definition touch_link :: "hyperlink_entry \<Rightarrow> hyperlink_pool \<Rightarrow> hyperlink_pool" where
  "touch_link e p = p\<lparr>hp_links := filter (\<lambda>e'. fst e' \<noteq> fst e) (hp_links p) @ [e]\<rparr>"

definition add_link :: "char_type list \<Rightarrow> hyperlink_pool \<Rightarrow> hyperlink_id_type \<times> hyperlink_pool" where
  "add_link key p =
     (let (new_id, p) =
            (if hp_max_link_id p \<ge> HYPERLINK_MAX_NUMBER \<and> hp_links p \<noteq> []
             then (snd (hd (hp_links p)), p\<lparr>hp_links := tl (hp_links p)\<rparr>)
             else (0, p));
          (i, p) = (if new_id \<noteq> 0 then (new_id, p)
                    else (word_of_nat (hp_max_link_id p + 1), p\<lparr>hp_max_link_id := hp_max_link_id p + 1\<rparr>))
      in (i, p\<lparr>hp_links := hp_links p @ [(key, i)], hp_adds := hp_adds p + 1\<rparr>))"

section \<open>Identifiers are unique\<close>

definition pool_wf :: "hyperlink_pool \<Rightarrow> bool" where
  "pool_wf p = (distinct (map fst (hp_links p)) \<and> distinct (map snd (hp_links p))
     \<and> hp_max_link_id p \<le> HYPERLINK_MAX_NUMBER
     \<and> list_all (\<lambda>e. snd e \<noteq> 0 \<and> unat (snd e) \<le> hp_max_link_id p) (hp_links p)
     \<and> (hp_links p = [] \<longrightarrow> hp_max_link_id p = 0))"

lemma pool_wf_alloc [simp, wf_intros]: "pool_wf alloc_hyperlink_pool"
  by (simp add: pool_wf_def alloc_hyperlink_pool_def)

lemma pool_wf_clear [wf_intros]: "pool_wf p \<Longrightarrow> pool_wf (clear_pool p)"
  by (simp add: pool_wf_def clear_pool_def)

lemma find_Some_iff_distinct:
  assumes "distinct (map g xs)"
  shows "List.find (\<lambda>e. g e = v) xs = Some x \<longleftrightarrow> x \<in> set xs \<and> g x = v"
proof -
  have "x \<in> set xs \<Longrightarrow> g x = v \<Longrightarrow> List.find (\<lambda>e. g e = v) xs = Some x" using assms
    by (induction xs) (auto simp: rev_image_eqI)
  then show ?thesis by (auto simp: find_Some_iff)
qed

lemma find_eq_None: "List.find (\<lambda>e. g e = v) xs = None \<longleftrightarrow> v \<notin> g ` set xs"
  by (auto simp: find_None_iff)

lemma pool_wf_touch [wf_intros]:
  assumes "pool_wf p" "find_link key p = Some e"
  shows "pool_wf (touch_link e p)"
proof -
  define old where "old = filter (\<lambda>e'. fst e' \<noteq> fst e) (hp_links p)"
  have e: "e \<in> set (hp_links p)" using assms(2) by (auto simp: find_link_def find_Some_iff)
  have keys: "distinct (map fst old)" and ids: "distinct (map snd old)"
    using assms(1) by (simp_all add: pool_wf_def old_def distinct_map_filter)
  have "inj_on snd (set (hp_links p))" using assms(1) by (simp add: pool_wf_def distinct_map)
  then have new: "fst e \<notin> fst ` set old" "snd e \<notin> snd ` set old"
    using e by (auto simp: old_def dest: inj_onD)
  have "set (hp_links (touch_link e p)) \<subseteq> set (hp_links p)" using e by (auto simp: touch_link_def)
  with assms(1) have all: "list_all (\<lambda>e. snd e \<noteq> 0 \<and> unat (snd e) \<le> hp_max_link_id p) (hp_links (touch_link e p))"
    by (auto simp: pool_wf_def list_all_iff)
  have "hp_links (touch_link e p) = old @ [e]" by (simp add: touch_link_def old_def)
  with keys ids new have "distinct (map fst (hp_links (touch_link e p)))" "distinct (map snd (hp_links (touch_link e p)))"
    by simp_all
  with all assms(1) show ?thesis by (simp add: pool_wf_def touch_link_def)
qed

lemma unat_word_of_nat_u16: "m < 2 ^ 16 \<Longrightarrow> unat (word_of_nat m :: u16) = m"
  by (simp only: unsigned_of_nat) (simp add: take_bit_nat_eq_self_iff)

lemma add_link_wf:
  assumes "pool_wf p" "find_link key p = None" "add_link key p = (i, p')"
  shows "pool_wf p'" "i \<noteq> 0" "(key, i) \<in> set (hp_links p')"
proof -
  have key: "key \<notin> fst ` set (hp_links p)" using assms(2) by (simp add: find_link_def find_eq_None)
  have le: "hp_max_link_id p \<le> HYPERLINK_MAX_NUMBER"
    and ids: "list_all (\<lambda>e. snd e \<noteq> 0 \<and> unat (snd e) \<le> hp_max_link_id p) (hp_links p)"
    and keys: "distinct (map fst (hp_links p))" "distinct (map snd (hp_links p))"
    using assms(1) by (simp_all add: pool_wf_def)
  have "pool_wf p' \<and> i \<noteq> 0 \<and> (key, i) \<in> set (hp_links p')"
  proof (cases "hp_max_link_id p \<ge> HYPERLINK_MAX_NUMBER \<and> hp_links p \<noteq> []")
    case True
    then obtain k j rest where links: "hp_links p = (k, j) # rest" by (metis list.exhaust surj_pair)
    then have j: "j \<noteq> 0" using ids by simp
    with True links assms(3) have i: "i = j" "p' = p\<lparr>hp_links := rest @ [(key, j)], hp_adds := hp_adds p + 1\<rparr>"
      by (auto simp: add_link_def)
    with j links key keys ids le show ?thesis by (auto simp: pool_wf_def list_all_iff)
  next
    case False
    have bound: "hp_max_link_id p < HYPERLINK_MAX_NUMBER" using False assms(1) by (auto simp: pool_wf_def)
    have i: "i = word_of_nat (hp_max_link_id p + 1)"
      "p' = p\<lparr>hp_max_link_id := hp_max_link_id p + 1, hp_links := hp_links p @ [(key, i)], hp_adds := hp_adds p + 1\<rparr>"
      using assms(3) False by (auto simp: add_link_def)
    have "hp_max_link_id p + 1 < 2 ^ 16" using bound by simp
    then have u: "unat i = hp_max_link_id p + 1" unfolding i(1) by (rule unat_word_of_nat_u16)
    then have "i \<noteq> 0" by (intro notI) simp
    moreover have "i \<notin> snd ` set (hp_links p)" using ids u by (auto simp: list_all_iff)
    ultimately show ?thesis using key keys ids bound u
      by (auto simp: pool_wf_def i(2) list_all_iff intro: le_SucI)
  qed
  then show "pool_wf p'" "i \<noteq> 0" "(key, i) \<in> set (hp_links p')" by blast+
qed

section \<open>Renumbering keeps the links\<close>

text \<open>The numbers in use are \<open>1..num\<close>, each given to one old identifier.\<close>

definition id_map_ok :: "id_map \<Rightarrow> bool" where
  "id_map_ok m = (case m of (f, num) \<Rightarrow> f 0 = 0 \<and> bij_betw f {i. f i \<noteq> 0} {i. i \<noteq> 0 \<and> i \<le> num})"

definition extends :: "id_map \<Rightarrow> id_map \<Rightarrow> bool" where
  "extends m m' = (\<forall>i. fst m i \<noteq> 0 \<longrightarrow> fst m' i = fst m i)"

definition rename_cell :: "(hyperlink_id_type \<Rightarrow> hyperlink_id_type) \<Rightarrow> cpu_cell \<Rightarrow> cpu_cell" where
  "rename_cell f c = c\<lparr>p_hyperlink_id := f (p_hyperlink_id c)\<rparr>"

definition numbered :: "id_map \<Rightarrow> cpu_cell \<Rightarrow> bool" where
  "numbered m c = (p_hyperlink_id c \<noteq> 0 \<longrightarrow> fst m (p_hyperlink_id c) \<noteq> 0)"

lemma extends_refl [simp]: "extends m m"
  by (simp add: extends_def)

lemma extends_trans: "extends m m' \<Longrightarrow> extends m' m'' \<Longrightarrow> extends m m''"
  by (simp add: extends_def)

lemma rename_cell_extends:
  "extends m m' \<Longrightarrow> numbered m c \<Longrightarrow> fst m 0 = 0 \<Longrightarrow> fst m' 0 = 0 \<Longrightarrow> rename_cell (fst m) c = rename_cell (fst m') c"
  by (cases "p_hyperlink_id c = 0") (auto simp: extends_def numbered_def rename_cell_def)

lemma numbered_extends: "extends m m' \<Longrightarrow> numbered m c \<Longrightarrow> numbered m' c"
  by (auto simp: extends_def numbered_def)

lemma id_map_ok_empty: "id_map_ok empty_id_map"
  by (simp add: id_map_ok_def empty_id_map_def bij_betw_def)

lemma u16_positive_card: "card {i :: u16. i \<noteq> 0 \<and> i \<le> num} = unat num"
proof -
  have "{i :: u16. i \<noteq> 0 \<and> i \<le> num} = word_of_nat ` {1 .. unat num}" (is "?A = ?B")
  proof (intro set_eqI iffI)
    fix i assume "i \<in> ?A"
    then have "unat i \<in> {1 .. unat num}" by (simp add: word_le_nat_alt unat_gt_0 Suc_le_eq)
    then show "i \<in> ?B" by (intro image_eqI [of _ _ "unat i"]) simp_all
  next
    fix i assume "i \<in> ?B"
    then obtain n where n: "1 \<le> n" "n \<le> unat num" "i = word_of_nat n" by auto
    moreover have "unat num < 2 ^ 16" using unsigned_less [of num, where 'a = nat] by simp
    ultimately have "unat i = n" by (simp add: unat_word_of_nat_u16)
    with n show "i \<in> ?A" by (auto simp: word_le_nat_alt)
  qed
  moreover have "inj_on (word_of_nat :: nat \<Rightarrow> u16) {1 .. unat num}"
  proof (rule inj_on_inverseI [of _ unat])
    fix n assume "n \<in> {1 .. unat num}"
    moreover have "unat num < 2 ^ 16" using unsigned_less [of num, where 'a = nat] by simp
    ultimately show "unat (word_of_nat n :: u16) = n" by (simp add: unat_word_of_nat_u16)
  qed
  ultimately show ?thesis by (simp add: card_image)
qed

lemma next_number_fresh:
  assumes "id_map_ok (f, num)" "f hid = 0" "hid \<noteq> 0"
  shows "unat (num + 1) = unat num + 1" "num + 1 \<noteq> 0"
proof -
  have "card {i. f i \<noteq> 0} = unat num"
    using assms(1) by (auto simp: id_map_ok_def u16_positive_card dest: bij_betw_same_card)
  moreover have "{i. f i \<noteq> 0} \<subseteq> UNIV - {0, hid}" using assms by (auto simp: id_map_ok_def)
  then have "card {i. f i \<noteq> 0} \<le> card (UNIV - {0, hid} :: u16 set)" by (intro card_mono) auto
  moreover have "card (UNIV - {0, hid} :: u16 set) = 65534"
    using assms(3) by (subst card_Diff_subset) (auto simp: card_word)
  ultimately have "unat num + 1 < 2 ^ 16" by simp
  then show *: "unat (num + 1) = unat num + 1"
    by (simp add: unat_word_ariths)
  then show "num + 1 \<noteq> 0" by (metis Suc_eq_plus1 Zero_not_Suc unat_0)
qed

lemma process_cell_spec:
  assumes "id_map_ok m" "process_cell c m = (c', m')"
  shows "id_map_ok m' \<and> extends m m' \<and> numbered m' c \<and> c' = rename_cell (fst m') c"
proof -
  obtain f num where m: "m = (f, num)" by (cases m)
  define hid where "hid = p_hyperlink_id c"
  consider "hid = 0" | "hid \<noteq> 0" "f hid \<noteq> 0" | "hid \<noteq> 0" "f hid = 0" by blast
  then show ?thesis
  proof cases
    case 1
    with assms have "c' = c" "m' = m" "f 0 = 0" by (simp_all add: process_cell_def m hid_def id_map_ok_def)
    with 1 assms(1) m show ?thesis by (cases c) (simp add: numbered_def rename_cell_def hid_def)
  next
    case 2
    with assms show ?thesis by (auto simp: process_cell_def m hid_def numbered_def rename_cell_def)
  next
    case 3
    have fresh: "unat (num + 1) = unat num + 1" "num + 1 \<noteq> 0"
      using next_number_fresh assms(1) 3 m by blast+
    with 3 assms(2) have m': "m' = (f(hid := num + 1), num + 1)" and c': "c' = c\<lparr>p_hyperlink_id := num + 1\<rparr>"
      by (auto simp: process_cell_def m hid_def)
    have dom: "{i. (f(hid := num + 1)) i \<noteq> 0} = insert hid {i. f i \<noteq> 0}" using fresh 3 by auto
    have ran: "{i. i \<noteq> 0 \<and> i \<le> num + 1} = insert (num + 1) {i. i \<noteq> 0 \<and> i \<le> num}"
      using fresh by (auto simp: word_le_nat_alt word_unat_eq_iff)
    have bij: "bij_betw f {i. f i \<noteq> 0} {i. i \<noteq> 0 \<and> i \<le> num}" "f 0 = 0" using assms(1) m by (auto simp: id_map_ok_def)
    have "\<not> num + 1 \<le> num" using fresh by (simp add: word_le_nat_alt)
    moreover have "bij_betw (f(hid := num + 1)) {i. f i \<noteq> 0} {i. i \<noteq> 0 \<and> i \<le> num}"
      using bij(1) 3 by (subst bij_betw_cong [where g = f]) auto
    ultimately have "bij_betw (f(hid := num + 1)) ({i. f i \<noteq> 0} \<union> {hid}) ({i. i \<noteq> 0 \<and> i \<le> num} \<union> {(f(hid := num + 1)) hid})"
      using 3 by (intro notIn_Un_bij_betw) auto
    then have "id_map_ok m'" using 3 bij(2) dom ran by (simp add: id_map_ok_def m')
    moreover have "extends m m'" using 3 by (auto simp: extends_def m m')
    ultimately show ?thesis using 3 fresh by (simp add: m' c' numbered_def rename_cell_def hid_def)
  qed
qed

lemma id_map_ok_0: "id_map_ok m \<Longrightarrow> fst m 0 = 0"
  by (auto simp: id_map_ok_def)

lemma process_cells_spec:
  "id_map_ok m \<Longrightarrow> process_cells cs m = (cs', m') \<Longrightarrow>
   id_map_ok m' \<and> extends m m' \<and> list_all (numbered m') cs \<and> cs' = map (rename_cell (fst m')) cs"
proof (induction cs m arbitrary: cs' m' rule: process_cells.induct)
  case (2 c cs m)
  obtain c1 m1 cs2 m2 where p: "process_cell c m = (c1, m1)" "process_cells cs m1 = (cs2, m2)"
    by (metis surj_pair)
  with 2(3) have r: "cs' = c1 # cs2" "m' = m2" by simp_all
  from process_cell_spec [OF 2(2) p(1)] have c: "id_map_ok m1" "extends m m1" "numbered m1 c" "c1 = rename_cell (fst m1) c"
    by simp_all
  have cs: "id_map_ok m2" "extends m1 m2" "list_all (numbered m2) cs" "cs2 = map (rename_cell (fst m2)) cs"
    using 2(1) [OF p(1) [symmetric] refl c(1) p(2)] by simp_all
  with c show ?case
    by (simp add: r numbered_extends rename_cell_extends id_map_ok_0 extends_trans [of m m1 m2])
qed simp

lemma process_rows_spec:
  "id_map_ok m \<Longrightarrow> process_rows rs m = (rs', m') \<Longrightarrow>
   id_map_ok m' \<and> extends m m' \<and> list_all (list_all (numbered m')) rs \<and> rs' = map (map (rename_cell (fst m'))) rs"
proof (induction rs m arbitrary: rs' m' rule: process_rows.induct)
  case (2 r rs m)
  obtain r1 m1 rs2 m2 where p: "process_cells r m = (r1, m1)" "process_rows rs m1 = (rs2, m2)"
    by (metis surj_pair)
  with 2(3) have r: "rs' = r1 # rs2" "m' = m2" by simp_all
  from process_cells_spec [OF 2(2) p(1)] have c: "id_map_ok m1" "extends m m1" "list_all (numbered m1) r"
    "r1 = map (rename_cell (fst m1)) r" by simp_all
  have rs: "id_map_ok m2" "extends m1 m2" "list_all (list_all (numbered m2)) rs"
    "rs2 = map (map (rename_cell (fst m2))) rs" using 2(1) [OF p(1) [symmetric] refl c(1) p(2)] by simp_all
  have "list_all (numbered m2) r" "map (rename_cell (fst m1)) r = map (rename_cell (fst m2)) r"
    using c rs by (auto simp: list_all_iff intro: numbered_extends rename_cell_extends id_map_ok_0)
  with c rs show ?case by (simp add: r extends_trans [of m m1 m2])
qed simp

text \<open>After the renumbering a link that is in use is found under its new number.\<close>

lemma id_map_ok_inj:
  "id_map_ok m \<Longrightarrow> fst m i \<noteq> 0 \<Longrightarrow> fst m i = fst m j \<Longrightarrow> i = j"
  by (cases m) (auto simp: id_map_ok_def bij_betw_def dest: inj_onD)

lemma id_map_ok_num: "id_map_ok m \<Longrightarrow> fst m i \<noteq> 0 \<Longrightarrow> snd m \<noteq> 0"
  by (cases m) (auto simp: id_map_ok_def bij_betw_def)

lemma fold_max_ge:
  "fold (\<lambda>e n. max n (g e)) es n \<ge> n" "e \<in> set es \<Longrightarrow> g e \<le> fold (\<lambda>e n. max n (g e)) es (n :: nat)"
proof -
  show *: "fold (\<lambda>e n. max n (g e)) es n \<ge> n" for n
  proof (induction es arbitrary: n)
    case (Cons a es)
    from Cons [of "max n (g a)"] show ?case by simp
  qed simp
  show "e \<in> set es \<Longrightarrow> g e \<le> fold (\<lambda>e n. max n (g e)) es n"
  proof (induction es arbitrary: n)
    case (Cons a es)
    show ?case
    proof (cases "e = a")
      case True
      have "g a \<le> max n (g a)" by simp
      also have "\<dots> \<le> fold (\<lambda>e n. max n (g e)) es (max n (g a))"
      proof (induction es arbitrary: n)
        case (Cons b es)
        from Cons [of "max n (g b)"] show ?case by (simp add: max.assoc max.commute max.left_commute)
      qed simp
      finally show ?thesis using True by simp
    next
      case False
      with Cons show ?thesis by simp
    qed
  qed simp
qed

lemma fold_max_le: "n \<le> b \<Longrightarrow> (\<And>e. e \<in> set es \<Longrightarrow> g e \<le> b) \<Longrightarrow> fold (\<lambda>e n. max n (g e)) es n \<le> (b :: nat)"
  by (induction es arbitrary: n) auto

lemma renumber_pool_wf:
  assumes "pool_wf p" "id_map_ok m"
  shows "pool_wf (renumber_pool m p)"
proof (cases "snd m = 0")
  case True
  then show ?thesis using assms(1) by (cases m) (simp add: renumber_pool_def pool_wf_clear)
next
  case False
  obtain f num where m: "m = (f, num)" by (cases m)
  define old where "old = filter (\<lambda>(k, i). f i \<noteq> 0) (hp_links p)"
  define links where "links = map (\<lambda>(k, i). (k, f i)) old"
  have p: "renumber_pool m p = p\<lparr>hp_links := links, hp_max_link_id := fold (\<lambda>e n. max n (unat (snd e))) links 0\<rparr>"
    using False by (simp add: renumber_pool_def m links_def old_def Let_def)
  have keys: "map fst links = map fst old" by (simp add: links_def comp_def case_prod_beta)
  have ids: "map snd links = map f (map snd old)" by (simp add: links_def comp_def case_prod_beta)
  have d: "distinct (map fst old)" "distinct (map snd old)"
    using assms(1) by (simp_all add: old_def pool_wf_def distinct_map_filter)
  have "inj_on f (set (map snd old))"
    using id_map_ok_inj [OF assms(2)] m by (auto simp: inj_on_def old_def)
  then have dm: "distinct (map f (map snd old))" using d(2) by (simp only: distinct_map)
  have nz: "\<forall>e\<in>set links. snd e \<noteq> 0" by (auto simp: links_def old_def)
  have le: "unat (i :: u16) \<le> HYPERLINK_MAX_NUMBER" for i
    using unsigned_less [of i, where 'a = nat] by simp
  have "\<forall>e\<in>set links. unat (snd e) \<le> fold (\<lambda>e n. max n (unat (snd e))) links 0"
    by (intro ballI fold_max_ge(2))
  then have "distinct (map fst links)" "distinct (map snd links)"
    "list_all (\<lambda>e. snd e \<noteq> 0 \<and> unat (snd e) \<le> fold (\<lambda>e n. max n (unat (snd e))) links 0) links"
    using d(1) keys ids dm nz by (simp_all add: list_all_iff)
  moreover have "fold (\<lambda>e n. max n (unat (snd e))) links 0 \<le> HYPERLINK_MAX_NUMBER"
    by (intro fold_max_le le) simp
  ultimately show ?thesis by (simp add: pool_wf_def p)
qed

lemma renumber_pool_lookup:
  assumes "id_map_ok m" "fst m i \<noteq> 0"
  shows "get_hyperlink_for_id (renumber_pool m p) (fst m i) only_url = get_hyperlink_for_id p i only_url"
proof -
  obtain f num where m: "m = (f, num)" by (cases m)
  have fi: "f i \<noteq> 0" using assms(2) m by simp
  have inj: "f j = f i \<longleftrightarrow> i = j" for j
  proof
    assume "f j = f i"
    then show "i = j" using id_map_ok_inj [OF assms, of j] m by simp
  qed simp
  have "num \<noteq> 0" using id_map_ok_num [OF assms] m by simp
  moreover have "List.find (\<lambda>e. snd e = f i) (map (\<lambda>e. (fst e, f (snd e))) (filter (\<lambda>e. f (snd e) \<noteq> 0) es))
      = map_option (\<lambda>e. (fst e, f (snd e))) (List.find (\<lambda>e. snd e = i) es)" for es :: "hyperlink_entry list"
  proof (induction es)
    case (Cons e es)
    then show ?case using inj [of "snd e"] fi by (cases "snd e = i") auto
  qed simp
  moreover have "(\<lambda>(k, i). (k, f i)) = (\<lambda>e :: hyperlink_entry. (fst e, f (snd e)))"
    "(\<lambda>(k, i). f i \<noteq> 0) = (\<lambda>e :: hyperlink_entry. f (snd e) \<noteq> 0)" by (simp_all add: fun_eq_iff)
  ultimately show ?thesis
    by (cases "List.find (\<lambda>e. snd e = i) (hp_links p)")
      (simp_all add: get_hyperlink_for_id_def renumber_pool_def m Let_def)
qed

end
