(* ===== verification/Selection.thy ===== *)
theory Selection
  imports Lines
begin

text \<open>
  The selections of \<^verbatim>\<open>smelly/screen.c\<close>: their boundaries, how they follow the text when the screen
  scrolls, the range of cells they stand for and the order of boundaries. Coordinates are \<^verbatim>\<open>unsigned
  int\<close>; a line above the screen is one whose \<^verbatim>\<open>y - scrolled_by\<close> is negative.
\<close>

section \<open>State\<close>

record selection_boundary =
  sb_x :: u32
  sb_y :: u32
  sb_in_left_half :: bool

definition zero_boundary :: selection_boundary where
  "zero_boundary = \<lparr>sb_x = 0, sb_y = 0, sb_in_left_half = False\<rparr>"

datatype selection_extend_mode = EXTEND_CELL | EXTEND_WORD | EXTEND_LINE | EXTEND_LINE_FROM_POINT

record xrange =
  xr_x :: u32
  xr_x_limit :: u32

record iteration_data =
  id_y :: int
  id_y_limit :: int
  id_first :: xrange
  id_body :: xrange
  id_last :: xrange

definition zero_xrange :: xrange where
  "zero_xrange = \<lparr>xr_x = 0, xr_x_limit = 0\<rparr>"

definition zero_iteration_data :: iteration_data where
  "zero_iteration_data =
     \<lparr>id_y = 0, id_y_limit = 0, id_first = zero_xrange, id_body = zero_xrange, id_last = zero_xrange\<rparr>"

text \<open>\<^verbatim>\<open>initial_extent\<close> is \<open>sel_initial_start\<close>, \<open>sel_initial_end\<close> and \<open>sel_initial_scrolled_by\<close>.\<close>

record selection =
  sel_start :: selection_boundary
  sel_end :: selection_boundary
  sel_input_start :: selection_boundary
  sel_input_current :: selection_boundary
  sel_start_scrolled_by :: u32
  sel_end_scrolled_by :: u32
  sel_rectangle_select :: bool
  sel_adjusting_start :: bool
  sel_last_rendered :: iteration_data
  sel_sort_y :: int
  sel_sort_x :: int
  sel_initial_start :: selection_boundary
  sel_initial_end :: selection_boundary
  sel_initial_scrolled_by :: u32

definition zero_selection :: selection where
  "zero_selection =
     \<lparr>sel_start = zero_boundary, sel_end = zero_boundary, sel_input_start = zero_boundary,
      sel_input_current = zero_boundary, sel_start_scrolled_by = 0, sel_end_scrolled_by = 0,
      sel_rectangle_select = False, sel_adjusting_start = False, sel_last_rendered = zero_iteration_data,
      sel_sort_y = 0, sel_sort_x = 0, sel_initial_start = zero_boundary, sel_initial_end = zero_boundary,
      sel_initial_scrolled_by = 0\<rparr>"

text \<open>\<open>sels_items\<close> are the first \<^verbatim>\<open>count\<close> elements of \<^verbatim>\<open>items\<close>.\<close>

record selections =
  sels_items :: "selection list"
  sels_last_rendered_count :: nat
  sels_in_progress :: bool
  sels_extension_in_progress :: bool
  sels_extend_mode :: selection_extend_mode

definition zero_selections :: selections where
  "zero_selections = \<lparr>sels_items = [], sels_last_rendered_count = 0, sels_in_progress = False,
     sels_extension_in_progress = False, sels_extend_mode = EXTEND_CELL\<rparr>"

definition clear_selection :: "selections \<Rightarrow> selections" where
  "clear_selection ss = ss\<lparr>sels_in_progress := False, sels_extend_mode := EXTEND_CELL, sels_items := []\<rparr>"

section \<open>Following the text\<close>

definition is_selection_empty :: "selection \<Rightarrow> bool" where
  "is_selection_empty s =
     (let start_y = sint (sb_y (sel_start s)) - sint (sel_start_scrolled_by s);
          end_y = sint (sb_y (sel_end s)) - sint (sel_end_scrolled_by s)
      in sb_x (sel_start s) = sb_x (sel_end s)
         \<and> sb_in_left_half (sel_start s) = sb_in_left_half (sel_end s) \<and> start_y = end_y)"

text \<open>The lines of the boundaries relative to the top of the screen: \<^verbatim>\<open>(int)y - scrolled_by\<close> in unsigned arithmetic.\<close>

definition start_line :: "selection \<Rightarrow> int" where
  "start_line s = sint (sb_y (sel_start s) - sel_start_scrolled_by s)"

definition end_line :: "selection \<Rightarrow> int" where
  "end_line s = sint (sb_y (sel_end s) - sel_end_scrolled_by s)"

definition selection_has_screen_line :: "selections \<Rightarrow> int \<Rightarrow> bool" where
  "selection_has_screen_line ss y =
     list_ex (\<lambda>s. \<not> is_selection_empty s \<and> min (start_line s) (end_line s) \<le> y
                   \<and> y \<le> max (start_line s) (end_line s)) (sels_items ss)"

text \<open>\<^verbatim>\<open>if (b.y) b.y--\<close> and \<^verbatim>\<open>if (b.y < lines - 1) b.y++\<close>.\<close>

definition boundary_up :: "selection_boundary \<Rightarrow> selection_boundary" where
  "boundary_up b = (if sb_y b \<noteq> 0 then b\<lparr>sb_y := sb_y b - 1\<rparr> else b)"

definition boundary_down :: "u32 \<Rightarrow> selection_boundary \<Rightarrow> selection_boundary" where
  "boundary_down lines b = (if sb_y b < lines - 1 then b\<lparr>sb_y := sb_y b + 1\<rparr> else b)"

definition index_selection_up :: "selection \<Rightarrow> selection" where
  "index_selection_up s =
     (let s = (if sb_y (sel_start s) = 0 then s\<lparr>sel_start_scrolled_by := sel_start_scrolled_by s + 1\<rparr>
               else s\<lparr>sel_start := (sel_start s)\<lparr>sb_y := sb_y (sel_start s) - 1\<rparr>,
                      sel_input_start := boundary_up (sel_input_start s),
                      sel_input_current := boundary_up (sel_input_current s),
                      sel_initial_start := boundary_up (sel_initial_start s),
                      sel_initial_end := boundary_up (sel_initial_end s)\<rparr>)
      in if sb_y (sel_end s) = 0 then s\<lparr>sel_end_scrolled_by := sel_end_scrolled_by s + 1\<rparr>
         else s\<lparr>sel_end := (sel_end s)\<lparr>sb_y := sb_y (sel_end s) - 1\<rparr>\<rparr>)"

definition index_selection_down :: "u32 \<Rightarrow> selection \<Rightarrow> selection" where
  "index_selection_down lines s =
     (let s = (if sb_y (sel_start s) \<ge> lines - 1 then s\<lparr>sel_start_scrolled_by := sel_start_scrolled_by s - 1\<rparr>
               else s\<lparr>sel_start := (sel_start s)\<lparr>sb_y := sb_y (sel_start s) + 1\<rparr>,
                      sel_input_start := boundary_down lines (sel_input_start s),
                      sel_input_current := boundary_down lines (sel_input_current s)\<rparr>)
      in if sb_y (sel_end s) \<ge> lines - 1 then s\<lparr>sel_end_scrolled_by := sel_end_scrolled_by s - 1\<rparr>
         else s\<lparr>sel_end := (sel_end s)\<lparr>sb_y := sb_y (sel_end s) + 1\<rparr>\<rparr>)"

definition index_selection :: "nat \<Rightarrow> selections \<Rightarrow> bool \<Rightarrow> selections" where
  "index_selection lines ss up =
     ss\<lparr>sels_items := map (if up then index_selection_up else index_selection_down (word_of_nat lines)) (sels_items ss)\<rparr>"

end
