(* ===== verification/Key_Flags.thy ===== *)
theory Key_Flags
  imports Prelude
begin

text \<open>
  The stack of key encoding flags of a screen (\<^verbatim>\<open>smelly/screen.c\<close>): eight bytes, whose bit 7 marks the
  entries in use. The lemmas show that pushing, popping and setting flags are the operations of a
  stack that holds at least the flags 0 and at most eight entries.
\<close>

section \<open>Operations\<close>

text \<open>The highest entry in use; bit 7 marks the entries in use.\<close>

fun top_key :: "u8 list \<Rightarrow> nat \<Rightarrow> nat option" where
  "top_key ks 0 = None"
| "top_key ks (Suc i) = (if ks ! i AND 0x80 \<noteq> 0 then Some i else top_key ks i)"

definition key_index :: "u8 list \<Rightarrow> nat" where
  "key_index ks = (case top_key ks (length ks) of Some i \<Rightarrow> i | None \<Rightarrow> 0)"

definition current_key_flags :: "u8 list \<Rightarrow> u8" where
  "current_key_flags ks = (case top_key ks (length ks) of Some i \<Rightarrow> ks ! i AND 0x7f | None \<Rightarrow> 0)"

definition set_keys :: "nat \<Rightarrow> nat \<Rightarrow> u8 list \<Rightarrow> u8 list" where
  "set_keys val how ks =
     (let i = key_index ks; q = word_of_nat val AND 0x7f :: u8;
          k = (if how = 1 then q else if how = 2 then ks ! i OR q
               else if how = 3 then ks ! i AND NOT q else ks ! i)
      in ks[i := k OR 0x80])"

definition push_keys :: "nat \<Rightarrow> u8 list \<Rightarrow> u8 list" where
  "push_keys val ks =
     (let q = word_of_nat val AND 0x7f :: u8; i = key_index ks; sz = length ks
      in if i = sz - 1 then (drop 1 ks @ [ks ! (sz - 1)])[i := 0x80 OR q]
         else ks[i := ks ! i OR 0x80, i + 1 := 0x80 OR q])"

text \<open>The loop of \<^verbatim>\<open>screen_pop_key_encoding_flags\<close>; \<open>i\<close> entries are left to look at.\<close>

fun pop_keys :: "nat \<Rightarrow> nat \<Rightarrow> u8 list \<Rightarrow> u8 list" where
  "pop_keys n 0 ks = ks"
| "pop_keys n (Suc i) ks =
     (if n = 0 then ks
      else if ks ! i AND 0x80 \<noteq> 0 then pop_keys (n - 1) i (ks[i := 0]) else pop_keys n i ks)"

section \<open>The stack\<close>

text \<open>The entries in use come first, the others are 0.\<close>

definition keys_ok :: "u8 list \<Rightarrow> bool" where
  "keys_ok ks = (length ks = 8 \<and> list_all (\<lambda>k. k = 0 \<or> k AND 0x80 \<noteq> 0) ks
     \<and> list_all (\<lambda>i. ks ! (i + 1) AND 0x80 \<noteq> 0 \<longrightarrow> ks ! i AND 0x80 \<noteq> 0) [0 ..< 7])"

text \<open>An empty stack stands for the flags 0.\<close>

definition key_stack :: "u8 list \<Rightarrow> u8 list" where
  "key_stack ks =
     (case top_key ks (length ks) of
        None \<Rightarrow> [0] | Some i \<Rightarrow> map (\<lambda>k. k AND 0x7f) (take (i + 1) ks))"

definition used_prefix :: "nat \<Rightarrow> u8 list \<Rightarrow> bool" where
  "used_prefix n ks = (length ks = 8 \<and> n \<le> 8 \<and> (\<forall>i < 8. if i < n then ks ! i AND 0x80 \<noteq> 0 else ks ! i = 0))"

lemma used_prefix_nth:
  assumes "used_prefix n ks" "i < 8"
  shows "(ks ! i AND 0x80 = 0) = (n \<le> i)" "n \<le> i \<Longrightarrow> ks ! i = 0"
  using assms by (auto simp: used_prefix_def not_less split: if_splits dest!: spec [where x = i])

lemma used_prefixI:
  "length ks = 8 \<Longrightarrow> n \<le> 8 \<Longrightarrow> (\<And>i. i < n \<Longrightarrow> ks ! i AND 0x80 \<noteq> 0) \<Longrightarrow>
   (\<And>i. n \<le> i \<Longrightarrow> i < 8 \<Longrightarrow> ks ! i = 0) \<Longrightarrow> used_prefix n ks"
  by (simp add: used_prefix_def)

lemma keys_ok_prefix: "keys_ok ks \<longleftrightarrow> (\<exists>n. used_prefix n ks)"
proof
  assume ok: "keys_ok ks"
  define n where "n = (LEAST i. i = 8 \<or> ks ! i AND 0x80 = 0)"
  have n: "n = 8 \<or> ks ! n AND 0x80 = 0" "n \<le> 8"
    unfolding n_def by (rule LeastI [of _ 8], simp, rule Least_le, simp)
  have below: "ks ! i AND 0x80 \<noteq> 0" if "i < n" for i
    using not_less_Least [of i "\<lambda>i. i = 8 \<or> ks ! i AND 0x80 = 0"] that by (simp add: n_def)
  have step: "ks ! Suc i AND 0x80 \<noteq> 0 \<Longrightarrow> ks ! i AND 0x80 \<noteq> 0" if "i < 7" for i
    using ok that by (auto simp: keys_ok_def list_all_iff)
  have down: "n + k < 8 \<Longrightarrow> ks ! (n + k) AND 0x80 = 0" for k
  proof (induction k)
    case 0
    with n show ?case by simp
  next
    case (Suc k)
    with step [of "n + k"] show ?case by auto
  qed
  have zero: "ks ! i = 0" if "i < 8" "ks ! i AND 0x80 = 0" for i
    using ok that by (auto simp: keys_ok_def list_all_length)
  have "if i < n then ks ! i AND 0x80 \<noteq> 0 else ks ! i = 0" if "i < 8" for i
    using below [of i] down [of "i - n"] zero [of i] that by (cases "i < n") simp_all
  with ok n show "\<exists>n. used_prefix n ks" by (auto simp: used_prefix_def keys_ok_def)
next
  assume "\<exists>n. used_prefix n ks"
  then obtain n where n: "length ks = 8" "\<And>i. i < 8 \<Longrightarrow> if i < n then ks ! i AND 0x80 \<noteq> 0 else ks ! i = 0"
    by (auto simp: used_prefix_def)
  have "ks ! Suc i AND 0x80 \<noteq> 0 \<Longrightarrow> ks ! i AND 0x80 \<noteq> 0" if "i < 7" for i
    using n(2) [of i] n(2) [of "Suc i"] that by (auto split: if_splits)
  moreover have "ks ! i = 0 \<or> ks ! i AND 0x80 \<noteq> 0" if "i < 8" for i
    using n(2) [OF that] by (auto split: if_splits)
  ultimately show "keys_ok ks"
    using n(1) by (simp add: keys_ok_def list_all_length)
qed

lemma top_key_prefix: "used_prefix n ks \<Longrightarrow> n \<le> m \<Longrightarrow> m \<le> 8 \<Longrightarrow> top_key ks m = (if n = 0 then None else Some (n - 1))"
proof (induction m)
  case (Suc m)
  have "(ks ! m AND 0x80 = 0) = (n \<le> m)" using Suc.prems by (intro used_prefix_nth) simp_all
  with Suc show ?case by (auto simp: le_Suc_eq)
qed simp

lemma prefix_ops:
  assumes "used_prefix n ks"
  shows "key_index ks = n - 1" "key_stack ks = (if n = 0 then [0] else map (\<lambda>k. k AND 0x7f) (take n ks))"
    "current_key_flags ks = last (key_stack ks)"
proof -
  have t: "top_key ks (length ks) = (if n = 0 then None else Some (n - 1))"
    using top_key_prefix [OF assms, of 8] assms by (simp add: used_prefix_def)
  show "key_index ks = n - 1" "key_stack ks = (if n = 0 then [0] else map (\<lambda>k. k AND 0x7f) (take n ks))"
    by (simp_all add: key_index_def key_stack_def t)
  have "take n ks = take (n - 1) ks @ [ks ! (n - 1)]" if "n \<noteq> 0"
    using assms that take_Suc_conv_app_nth [of "n - 1" ks] by (simp add: used_prefix_def less_eq_Suc_le)
  then have "n \<noteq> 0 \<Longrightarrow> last (take n ks) = ks ! (n - 1)" "n \<noteq> 0 \<Longrightarrow> take n ks \<noteq> []"
    by (metis last_snoc, metis snoc_eq_iff_butlast)
  then show "current_key_flags ks = last (key_stack ks)"
    by (simp add: current_key_flags_def key_stack_def t last_map)
qed

lemma flag_bits [simp]:
  "((0x80 OR (q AND 0x7f)) AND 0x80 :: u8) = 0x80" "((0x80 OR (q AND 0x7f)) AND 0x7f :: u8) = q AND 0x7f"
  "((k OR 0x80) AND 0x80 :: u8) = 0x80" "((k OR 0x80) AND 0x7f :: u8) = k AND 0x7f"
  by (simp_all add: bit.conj_disj_distrib2 and.assoc)

lemma push_keys_prefix:
  assumes p: "used_prefix n ks"
  shows "used_prefix (min 8 (max n 1 + 1)) (push_keys val ks)"
    and "key_stack (push_keys val ks)
       = drop (length (key_stack ks) + 1 - 8) (key_stack ks @ [word_of_nat val AND 0x7f])"
proof -
  let ?q = "word_of_nat val AND 0x7f :: u8" let ?x = "0x80 OR ?q"
  have l: "length ks = 8" "n \<le> 8" using p by (simp_all add: used_prefix_def)
  note u = used_prefix_nth [OF p] and k = prefix_ops(1,2) [OF p]
  have r: "used_prefix (min 8 (max n 1 + 1)) (push_keys val ks) \<and>
     key_stack (push_keys val ks) = drop (length (key_stack ks) + 1 - 8) (key_stack ks @ [?q])"
  proof (cases "n = 8")
    case True
    then have v: "push_keys val ks = drop 1 ks @ [?x]"
      using l k by (simp add: push_keys_def Let_def list_update_append)
    have p': "used_prefix 8 (push_keys val ks)"
      using u True l by (intro used_prefixI) (auto simp: v nth_append)
    show ?thesis
      using True l p' k(2) prefix_ops(2) [OF p'] by (simp add: v drop_map)
  next
    case False
    define m where "m = n - 1"
    have m: "m < 7" "m \<le> n" using False l by (auto simp: m_def)
    have v: "push_keys val ks = ks[m := ks ! m OR 0x80, m + 1 := ?x]"
      using l k m by (simp add: push_keys_def Let_def m_def)
    have p': "used_prefix (m + 2) (push_keys val ks)"
      using m l u by (intro used_prefixI) (auto simp: v nth_list_update m_def)
    have "map (\<lambda>k. k AND 0x7f) (take (m + 2) (push_keys val ks)) = key_stack ks @ [?q]"
    proof (rule nth_equalityI)
      show "length (map (\<lambda>k. k AND 0x7f) (take (m + 2) (push_keys val ks))) = length (key_stack ks @ [?q])"
        using m l k by (auto simp: v m_def)
      fix i assume "i < length (map (\<lambda>k. k AND 0x7f) (take (m + 2) (push_keys val ks)))"
      then show "map (\<lambda>k. k AND 0x7f) (take (m + 2) (push_keys val ks)) ! i = (key_stack ks @ [?q]) ! i"
        using m l k u(2) [of 0] by (auto simp: v m_def nth_append nth_list_update less_Suc_eq)
    qed
    moreover have "min 8 (max n 1 + 1) = m + 2" using m by (auto simp: m_def)
    moreover have "length (key_stack ks) + 1 \<le> 8" using m l k by (auto simp: m_def)
    ultimately show ?thesis using p' prefix_ops(2) [OF p'] by simp
  qed
  then show "used_prefix (min 8 (max n 1 + 1)) (push_keys val ks)"
    "key_stack (push_keys val ks) = drop (length (key_stack ks) + 1 - 8) (key_stack ks @ [?q])" by blast+
qed

lemma pop_keys_length [simp]: "length (pop_keys n i ks) = length ks"
  by (induction n i ks rule: pop_keys.induct) auto

lemma pop_keys_nth:
  assumes "used_prefix n ks" "n \<le> m" "m \<le> 8" "i < 8"
  shows "pop_keys k m ks ! i = (if n - k \<le> i \<and> i < n then 0 else ks ! i)"
  using assms
proof (induction k m ks arbitrary: n rule: pop_keys.induct)
  case (2 k m ks)
  have l: "length ks = 8" using "2.prems" by (simp add: used_prefix_def)
  show ?case
  proof (cases "k = 0 \<or> n \<le> m")
    case True
    then have "n \<le> m \<or> k = 0" by blast
    then show ?thesis
    proof
      assume "n \<le> m"
      then have "ks ! m AND 0x80 = 0" using used_prefix_nth [OF "2.prems"(1), of m] "2.prems"(3) by simp
      with "2.IH"(2) "2.prems" \<open>n \<le> m\<close> show ?thesis by auto
    qed (use "2.prems" in auto)
  next
    case False
    then have n: "n = Suc m" and k: "k \<noteq> 0" using "2.prems"(2) by auto
    have b: "ks ! m AND 0x80 \<noteq> 0" using used_prefix_nth [OF "2.prems"(1), of m] "2.prems"(3) n by simp
    have "used_prefix m (ks[m := 0])"
      using used_prefix_nth [OF "2.prems"(1)] l n "2.prems"(3)
      by (intro used_prefixI) (auto simp: nth_list_update)
    from "2.IH"(1) [OF k b this] "2.prems"
    have "pop_keys (k - 1) m (ks[m := 0]) ! i = (if m - (k - 1) \<le> i \<and> i < m then 0 else ks[m := 0] ! i)" by simp
    with k b n l "2.prems" show ?thesis by (auto simp: nth_list_update)
  qed
qed auto

lemma pop_keys_prefix:
  assumes p: "used_prefix n ks"
  shows "used_prefix (n - k) (pop_keys k 8 ks)"
    and "key_stack (pop_keys k 8 ks)
       = (if k < length (key_stack ks) then take (length (key_stack ks) - k) (key_stack ks) else [0])"
proof -
  have l: "length ks = 8" "n \<le> 8" using p by (simp_all add: used_prefix_def)
  note nth = pop_keys_nth [OF p l(2) order_refl, of _ k]
  show q: "used_prefix (n - k) (pop_keys k 8 ks)"
    using l used_prefix_nth [OF p] by (intro used_prefixI) (auto simp: nth)
  have "take (n - k) (pop_keys k 8 ks) = take (n - k) ks"
    using l by (intro nth_equalityI) (auto simp: nth)
  then show "key_stack (pop_keys k 8 ks)
       = (if k < length (key_stack ks) then take (length (key_stack ks) - k) (key_stack ks) else [0])"
    using prefix_ops(2) [OF p] prefix_ops(2) [OF q] l by (auto simp: take_map)
qed

lemma set_keys_prefix:
  assumes p: "used_prefix n ks"
  shows "used_prefix (max n 1) (set_keys val how ks)"
    and "key_stack (set_keys val 1 ks) = butlast (key_stack ks) @ [word_of_nat val AND 0x7f]"
proof -
  have l: "length ks = 8" "n \<le> 8" using p by (simp_all add: used_prefix_def)
  note u = used_prefix_nth [OF p] and k = prefix_ops(1,2) [OF p]
  have q: "used_prefix (max n 1) (set_keys val how ks)" for how
    using l u by (intro used_prefixI) (auto simp: set_keys_def Let_def k nth_list_update)
  then show "used_prefix (max n 1) (set_keys val how ks)" .
  have v: "set_keys val 1 ks = ks[n - 1 := (word_of_nat val AND 0x7f) OR 0x80]"
    by (simp add: set_keys_def Let_def k)
  show "key_stack (set_keys val 1 ks) = butlast (key_stack ks) @ [word_of_nat val AND 0x7f]"
  proof (cases "n = 0")
    case True
    have "take 1 (set_keys val 1 ks) = [(word_of_nat val AND 0x7f) OR 0x80]"
      unfolding v using True l by (cases ks) simp_all
    with True prefix_ops(2) [OF q, of 1] k(2) show ?thesis by (simp add: and.assoc)
  next
    case False
    then have "take n (ks[n - 1 := x]) = take (n - 1) ks @ [x]" for x
      using l by (intro nth_equalityI) (auto simp: nth_append nth_list_update)
    then have "take (max n 1) (set_keys val 1 ks) = take (n - 1) ks @ [(word_of_nat val AND 0x7f) OR 0x80]"
      using False unfolding v by (metis One_nat_def Suc_leI max.absorb1 not_gr_zero)
    moreover have "butlast (take n ks) = take (n - 1) ks" using l by (simp add: butlast_take)
    ultimately show ?thesis using False prefix_ops(2) [OF q, of 1] k(2)
      by (simp add: and.assoc map_butlast [symmetric] del: take_map)
  qed
qed

text \<open>
  C17: The eight bytes of key encoding flags are a stack: pushing appends and drops the oldest
  beyond eight entries, popping removes as many as asked and leaves the flags 0, setting replaces
  the top, and the current flags are the top.
\<close>

theorem key_stack_refinement:
  assumes "keys_ok ks"
  shows "keys_ok (push_keys val ks) \<and> keys_ok (pop_keys n 8 ks) \<and> keys_ok (set_keys val how ks)
    \<and> current_key_flags ks = last (key_stack ks)
    \<and> key_stack (push_keys val ks)
        = drop (length (key_stack ks) + 1 - 8) (key_stack ks @ [word_of_nat val AND 0x7f])
    \<and> key_stack (pop_keys n 8 ks)
        = (if n < length (key_stack ks) then take (length (key_stack ks) - n) (key_stack ks) else [0])
    \<and> key_stack (set_keys val 1 ks) = butlast (key_stack ks) @ [word_of_nat val AND 0x7f]"
proof -
  obtain k where k: "used_prefix k ks" using assms keys_ok_prefix by blast
  show ?thesis
    using push_keys_prefix [OF k] pop_keys_prefix [OF k] set_keys_prefix [OF k] prefix_ops(3) [OF k] keys_ok_prefix
    by blast
qed

lemma key_stack_refinement_witness:
  "keys_ok (push_keys 5 (replicate 8 0)) \<and> keys_ok (pop_keys 1 8 (replicate 8 0)) \<and> keys_ok (set_keys 5 2 (replicate 8 0))
    \<and> current_key_flags (replicate 8 0) = last (key_stack (replicate 8 0))
    \<and> key_stack (push_keys 5 (replicate 8 0))
        = drop (length (key_stack (replicate 8 0)) + 1 - 8) (key_stack (replicate 8 0) @ [word_of_nat 5 AND 0x7f])
    \<and> key_stack (pop_keys 1 8 (replicate 8 0))
        = (if 1 < length (key_stack (replicate 8 0)) then take (length (key_stack (replicate 8 0)) - 1) (key_stack (replicate 8 0)) else [0])
    \<and> key_stack (set_keys 5 1 (replicate 8 0)) = butlast (key_stack (replicate 8 0)) @ [word_of_nat 5 AND 0x7f]"
  by (rule key_stack_refinement) (simp add: keys_ok_def list_all_iff)

lemma keys_ok_ops [wf_intros]:
  assumes "keys_ok ks"
  shows "keys_ok (push_keys val ks)" "keys_ok (pop_keys n (length ks) ks)" "keys_ok (set_keys val how ks)"
proof -
  obtain k where k: "used_prefix k ks" using assms keys_ok_prefix by blast
  then have "length ks = 8" by (simp add: used_prefix_def)
  with push_keys_prefix(1) [OF k] pop_keys_prefix(1) [OF k] set_keys_prefix(1) [OF k]
  show "keys_ok (push_keys val ks)" "keys_ok (pop_keys n (length ks) ks)" "keys_ok (set_keys val how ks)"
    unfolding keys_ok_prefix by metis+
qed

lemma keys_ok_zero [simp]: "keys_ok (replicate 8 0)"
  by (simp add: keys_ok_def list_all_iff)

end
