(* ===== verification/Screen_State.thy ===== *)
theory Screen_State
  imports History Colors Parser Hyperlinks Selection Key_Flags
begin

text \<open>
  The state of \<^verbatim>\<open>smelly/screen.c\<close>: the record \<^verbatim>\<open>Screen\<close> with its modes, savepoints, tab stops, charsets,
  key encoding flags and the buffers of the main and the alternate screen, its constructor, and the
  invariant that the operations keep. What the screen does outside itself (writes to the child,
  Python callbacks, calls of the graphics manager) is a log of events. The overlay line of input
  methods is taken to be inactive.
\<close>

section \<open>Parts of the state\<close>

datatype mouse_tracking_mode = NO_TRACKING | BUTTON_MODE | MOTION_MODE | ANY_MODE

datatype mouse_tracking_protocol =
  NORMAL_PROTOCOL | UTF8_PROTOCOL | SGR_PROTOCOL | URXVT_PROTOCOL | SGR_PIXEL_PROTOCOL

record screen_modes =
  mLNM :: bool
  mIRM :: bool
  mDECTCEM :: bool
  mDECSCNM :: bool
  mDECOM :: bool
  mDECAWM :: bool
  mDECCOLM :: bool
  mDECARM :: bool
  mDECCKM :: bool
  mBRACKETED_PASTE :: bool
  mFOCUS_TRACKING :: bool
  mDECSACE :: bool
  mHANDLE_TERMIOS_SIGNALS :: bool
  mouse_mode :: mouse_tracking_mode
  mouse_protocol :: mouse_tracking_protocol
  eight_bit_controls :: bool

definition empty_modes :: screen_modes where
  "empty_modes =
     \<lparr>mLNM = False, mIRM = False, mDECTCEM = True, mDECSCNM = False, mDECOM = False, mDECAWM = True,
      mDECCOLM = False, mDECARM = True, mDECCKM = False, mBRACKETED_PASTE = False,
      mFOCUS_TRACKING = False, mDECSACE = False, mHANDLE_TERMIOS_SIGNALS = False,
      mouse_mode = NO_TRACKING, mouse_protocol = NORMAL_PROTOCOL, eight_bit_controls = False\<rparr>"

text \<open>A charset is its table of 256 code points.\<close>

record charset_state =
  cs_g0 :: "u32 list"
  cs_g1 :: "u32 list"
  cs_g :: "u32 list"
  cs_current :: nat

record savepoint =
  sp_utf8_state :: nat
  sp_utf8_codepoint :: u32
  sp_g0 :: "u32 list"
  sp_g1 :: "u32 list"
  sp_current :: nat
  sp_use_latin1 :: bool
  sp_cursor :: cursor
  sp_mDECOM :: bool
  sp_mDECAWM :: bool
  sp_mDECSCNM :: bool
  sp_is_valid :: bool

definition zero_savepoint :: savepoint where
  "zero_savepoint = \<lparr>sp_utf8_state = 0, sp_utf8_codepoint = 0, sp_g0 = [], sp_g1 = [], sp_current = 0,
     sp_use_latin1 = False, sp_cursor = zero_cursor, sp_mDECOM = False, sp_mDECAWM = False,
     sp_mDECSCNM = False, sp_is_valid = False\<rparr>"

record visited_prompt =
  vp_scrolled_by :: nat
  vp_y :: nat
  vp_is_set :: bool

record bell_state =
  bell_ignore_start :: int
  bell_ignore_duration :: int
  bell_visual_start :: int

section \<open>The outside\<close>

datatype callback_arg = Arg_string "u32 list" | Arg_int int | Arg_bool bool | Arg_none

text \<open>The graphics manager of the main screen is \<open>True\<close>, that of the alternate screen \<open>False\<close>.\<close>

datatype screen_event =
  Child_write "u8 list"
| Callback string "callback_arg list"
| Window_attention
| Log_error
| Grman_clear bool bool
| Grman_scroll bool int int bool nat nat
| Grman_command bool graphics_command "u8 list"
| Grman_resize bool nat nat nat nat

text \<open>
  The parts of the program the screen depends on. \<open>e_graphics\<close> is \<^verbatim>\<open>grman_handle_command\<close>: from the
  events so far, the command with its payload and the position of the cursor it computes the response,
  the new position and whether the screen gets dirty. \<open>e_activity\<close> is whether the callback
  \<^verbatim>\<open>on_activity_since_last_focus\<close> returns true. The others are options and constants of the build.
\<close>

record env =
  e_graphics :: "screen_event list \<Rightarrow> graphics_command \<Rightarrow> u8 list \<Rightarrow> nat \<times> nat \<Rightarrow> u8 list option \<times> (nat \<times> nat) \<times> bool"
  e_activity :: "screen_event list \<Rightarrow> bool"
  e_has_callbacks :: bool
  e_allow_hyperlinks :: bool
  e_visual_bell :: bool
  e_fill_enlarged_window :: bool
  e_primary_version :: string
  e_secondary_version :: string
  e_xt_version :: string

section \<open>The screen\<close>

text \<open>
  \<open>s_on_main\<close> is \<^verbatim>\<open>linebuf == main_linebuf\<close>, and \<open>s_tabs_main\<close> is \<^verbatim>\<open>tabstops == main_tabstops\<close>.
  \<^verbatim>\<open>key_encoding_flags\<close> and \<^verbatim>\<open>grman\<close> always switch together with \<^verbatim>\<open>linebuf\<close>. \<open>s_ansi_active\<close> is the active
  hyperlink of \<^verbatim>\<open>as_ansi_buf\<close>.
\<close>

record screen =
  s_columns :: nat
  s_lines :: nat
  s_margin_top :: nat
  s_margin_bottom :: nat
  s_scrolled_by :: nat
  s_cell_width :: nat
  s_cell_height :: nat
  s_charsets :: charset_state
  s_selections :: selections
  s_url_ranges :: selections
  s_is_dirty :: bool
  s_scroll_changed :: bool
  s_cursor :: cursor
  s_main_savepoint :: savepoint
  s_alt_savepoint :: savepoint
  s_on_main :: bool
  s_main_linebuf :: line_buf
  s_alt_linebuf :: line_buf
  s_historybuf :: history_buf
  s_history_line_added_count :: nat
  s_tabs_main :: bool
  s_main_tabstops :: "bool list"
  s_alt_tabstops :: "bool list"
  s_modes :: screen_modes
  s_saved_modes :: screen_modes
  s_color_profile :: color_profile
  s_has_focus :: bool
  s_has_activity :: bool
  s_active_hyperlink_id :: hyperlink_id_type
  s_pool :: hyperlink_pool
  s_ansi_active :: hyperlink_id_type
  s_last_graphic_char :: char_type
  s_main_keys :: "u8 list"
  s_alt_keys :: "u8 list"
  s_bell :: bell_state
  s_redraws_prompts :: bool
  s_last_visited_prompt :: visited_prompt
  s_last_reported_cwd :: "u32 list option"
  s_dec :: decoder
  s_env :: env
  s_log :: "screen_event list"

text \<open>The current line buffer and tab stops, and updates of them.\<close>

definition s_linebuf :: "screen \<Rightarrow> line_buf" where
  "s_linebuf s = (if s_on_main s then s_main_linebuf s else s_alt_linebuf s)"

definition upd_linebuf :: "(line_buf \<Rightarrow> line_buf) \<Rightarrow> screen \<Rightarrow> screen" where
  "upd_linebuf f s =
     (if s_on_main s then s\<lparr>s_main_linebuf := f (s_main_linebuf s)\<rparr>
      else s\<lparr>s_alt_linebuf := f (s_alt_linebuf s)\<rparr>)"

definition s_tabstops :: "screen \<Rightarrow> bool list" where
  "s_tabstops s = (if s_tabs_main s then s_main_tabstops s else s_alt_tabstops s)"

definition upd_tabstops :: "(bool list \<Rightarrow> bool list) \<Rightarrow> screen \<Rightarrow> screen" where
  "upd_tabstops f s =
     (if s_tabs_main s then s\<lparr>s_main_tabstops := f (s_main_tabstops s)\<rparr>
      else s\<lparr>s_alt_tabstops := f (s_alt_tabstops s)\<rparr>)"

text \<open>\<^verbatim>\<open>linebuf_init_line\<close>, an operation on the line, which writes to the cells of the buffer.\<close>

definition edit_line :: "(cell_line \<Rightarrow> cell_line) \<Rightarrow> nat \<Rightarrow> screen \<Rightarrow> screen" where
  "edit_line f y s = upd_linebuf (\<lambda>b. put_line b y (f (linebuf_init_line b y))) s"

abbreviation upd_cursor :: "(cursor \<Rightarrow> cursor) \<Rightarrow> screen \<Rightarrow> screen" where
  "upd_cursor f s \<equiv> s\<lparr>s_cursor := f (s_cursor s)\<rparr>"

abbreviation cx :: "screen \<Rightarrow> nat" where "cx s \<equiv> c_x (s_cursor s)"
abbreviation cy :: "screen \<Rightarrow> nat" where "cy s \<equiv> c_y (s_cursor s)"

definition set_cursor :: "nat \<Rightarrow> nat \<Rightarrow> screen \<Rightarrow> screen" where
  "set_cursor x y s = s\<lparr>s_cursor := (s_cursor s)\<lparr>c_x := x, c_y := y\<rparr>\<rparr>"

definition emit :: "screen_event \<Rightarrow> screen \<Rightarrow> screen" where
  "emit e s = s\<lparr>s_log := e # s_log s\<rparr>"

text \<open>\<^verbatim>\<open>CALLBACK(..)\<close>.\<close>

definition callback :: "string \<Rightarrow> callback_arg list \<Rightarrow> screen \<Rightarrow> screen" where
  "callback name args s = (if e_has_callbacks (s_env s) then emit (Callback name args) s else s)"

section \<open>Charsets and tab stops\<close>

definition init_tabstops :: "nat \<Rightarrow> bool list" where
  "init_tabstops n = map (\<lambda>t. t mod 8 = 0) [0 ..< n]"

definition RESET_CHARSETS :: "screen \<Rightarrow> screen" where
  "RESET_CHARSETS s =
     (let g = translation_table 0
      in s\<lparr>s_charsets := \<lparr>cs_g0 = g, cs_g1 = g, cs_g = g, cs_current = 0\<rparr>,
           s_dec := (s_dec s)\<lparr>utf8_state := 0, utf8_codepoint := 0, use_latin1 := False\<rparr>\<rparr>)"

definition screen_change_charset :: "nat \<Rightarrow> screen \<Rightarrow> screen" where
  "screen_change_charset which s =
     (let c = s_charsets s in
      if which = 0 then s\<lparr>s_charsets := c\<lparr>cs_current := 0, cs_g := cs_g0 c\<rparr>\<rparr>
      else if which = 1 then s\<lparr>s_charsets := c\<lparr>cs_current := 1, cs_g := cs_g1 c\<rparr>\<rparr>
      else s)"

definition screen_designate_charset :: "nat \<Rightarrow> u32 \<Rightarrow> screen \<Rightarrow> screen" where
  "screen_designate_charset which as s =
     (let c = s_charsets s; t = translation_table as in
      if which = 0 then
        s\<lparr>s_charsets := (let c = c\<lparr>cs_g0 := t\<rparr> in if cs_current c = 0 then c\<lparr>cs_g := t\<rparr> else c)\<rparr>
      else if which = 1 then
        s\<lparr>s_charsets := (let c = c\<lparr>cs_g1 := t\<rparr> in if cs_current c = 1 then c\<lparr>cs_g := t\<rparr> else c)\<rparr>
      else s)"

section \<open>The constructor\<close>

text \<open>\<^verbatim>\<open>new\<close>. The size of the pager history is an option; \<open>d\<close> holds the clock.\<close>

definition screen_new ::
  "env \<Rightarrow> decoder \<Rightarrow> nat \<Rightarrow> nat \<Rightarrow> nat \<Rightarrow> nat \<Rightarrow> nat \<Rightarrow> nat \<Rightarrow> py_error + screen" where
  "screen_new e d lines columns scrollback cell_width cell_height pagerhist_sz =
     (case linebuf_new lines columns of
        Inl err \<Rightarrow> Inl err
      | Inr lb \<Rightarrow>
          (case create_historybuf columns (max scrollback lines) pagerhist_sz of
             Inl err \<Rightarrow> Inl err
           | Inr hb \<Rightarrow> Inr (RESET_CHARSETS
               \<lparr>s_columns = columns, s_lines = lines, s_margin_top = 0, s_margin_bottom = lines - 1,
                s_scrolled_by = 0, s_cell_width = cell_width, s_cell_height = cell_height,
                s_charsets = \<lparr>cs_g0 = [], cs_g1 = [], cs_g = [], cs_current = 0\<rparr>,
                s_selections = zero_selections, s_url_ranges = zero_selections, s_is_dirty = True,
                s_scroll_changed = False, s_cursor = zero_cursor, s_main_savepoint = zero_savepoint,
                s_alt_savepoint = zero_savepoint, s_on_main = True, s_main_linebuf = lb,
                s_alt_linebuf = lb, s_historybuf = hb, s_history_line_added_count = 0,
                s_tabs_main = True, s_main_tabstops = init_tabstops columns,
                s_alt_tabstops = init_tabstops columns, s_modes = empty_modes,
                s_saved_modes = empty_modes, s_color_profile = new_cp, s_has_focus = False,
                s_has_activity = False, s_active_hyperlink_id = 0, s_pool = alloc_hyperlink_pool,
                s_ansi_active = 0, s_last_graphic_char = 0, s_main_keys = replicate 8 0,
                s_alt_keys = replicate 8 0,
                s_bell = \<lparr>bell_ignore_start = 0, bell_ignore_duration = 0, bell_visual_start = 0\<rparr>,
                s_redraws_prompts = False,
                s_last_visited_prompt = \<lparr>vp_scrolled_by = 0, vp_y = 0, vp_is_set = False\<rparr>,
                s_last_reported_cwd = None, s_dec = d, s_env = e, s_log = []\<rparr>)))"

section \<open>The invariant\<close>

definition lb_size :: "nat \<Rightarrow> nat \<Rightarrow> line_buf \<Rightarrow> bool" where
  "lb_size c l b = (lb_wf b \<and> b_xnum b = c \<and> b_ynum b = l)"

definition charsets_ok :: "charset_state \<Rightarrow> bool" where
  "charsets_ok c = (length (cs_g0 c) = 256 \<and> length (cs_g1 c) = 256 \<and> length (cs_g c) = 256)"

text \<open>A valid savepoint was taken between two characters.\<close>

definition savepoint_ok :: "savepoint \<Rightarrow> bool" where
  "savepoint_ok sp = (sp_is_valid sp \<longrightarrow> sp_utf8_state sp = 0 \<and> length (sp_g0 sp) = 256 \<and> length (sp_g1 sp) = 256)"

text \<open>
  The cursor may stand one column beyond the last, after drawing there. Drawing a wide character
  needs two columns.
\<close>

definition screen_wf :: "screen \<Rightarrow> bool" where
  "screen_wf s =
     (2 \<le> s_columns s \<and> s_columns s \<le> 5000 \<and> 1 \<le> s_lines s \<and> s_lines s \<le> 50000
      \<and> lb_size (s_columns s) (s_lines s) (s_main_linebuf s) \<and> lb_size (s_columns s) (s_lines s) (s_alt_linebuf s)
      \<and> history_wf (s_historybuf s) \<and> h_xnum (s_historybuf s) = s_columns s
      \<and> cx s \<le> s_columns s \<and> cy s < s_lines s
      \<and> s_margin_top s \<le> s_margin_bottom s \<and> s_margin_bottom s < s_lines s
      \<and> charsets_ok (s_charsets s) \<and> savepoint_ok (s_main_savepoint s) \<and> savepoint_ok (s_alt_savepoint s)
      \<and> length (s_main_tabstops s) = s_columns s \<and> length (s_alt_tabstops s) = s_columns s
      \<and> keys_ok (s_main_keys s) \<and> keys_ok (s_alt_keys s)
      \<and> cp_wf (s_color_profile s) \<and> pool_wf (s_pool s) \<and> utf8_state (s_dec s) = 0)"

lemma length_charsets [simp]:
  "length charset_latin1 = 256" "length charset_vt100_graphics = 256" "length charset_cp437 = 256"
  "length charset_vax42 = 256" "length charset_uk = 256"
  by (simp_all add: charset_latin1_def charset_vt100_graphics_def charset_cp437_def charset_vax42_def charset_uk_def)

lemma length_translation_table [simp]: "length (translation_table c) = 256"
  by (simp add: translation_table_def)

lemma init_tabstops_length [simp]: "length (init_tabstops n) = n"
  by (simp add: init_tabstops_def)

lemma RESET_CHARSETS_keeps_wf [wf_intros]: "screen_wf s \<Longrightarrow> screen_wf (RESET_CHARSETS s)"
  by (simp add: RESET_CHARSETS_def Let_def screen_wf_def charsets_ok_def)

lemma screen_new_wf:
  assumes "screen_new e d lines columns scrollback cw cht psz = Inr s" "2 \<le> columns"
  shows "screen_wf s"
proof -
  obtain lb hb where lb: "linebuf_new lines columns = Inr lb" and hb: "create_historybuf columns (max scrollback lines) psz = Inr hb"
    using assms(1) by (auto simp: screen_new_def split: sum.splits)
  have "b_xnum lb = columns" "b_ynum lb = lines" "columns \<le> 5000" "lines \<le> 50000" "0 < lines"
    using lb by (auto simp: linebuf_new_def split: if_splits)
  moreover have "h_xnum hb = columns" using hb by (auto simp: create_historybuf_def add_segment_def split: if_splits)
  ultimately show ?thesis
    using assms linebuf_new_wf [OF lb] create_historybuf_wf [OF hb] new_cp_wf
    by (auto simp: screen_new_def lb hb screen_wf_def RESET_CHARSETS_def charsets_ok_def savepoint_ok_def
        zero_savepoint_def lb_size_def zero_cursor_def Let_def)
qed

lemma wf_bounds:
  assumes "screen_wf s"
  shows "2 \<le> s_columns s" "0 < s_columns s" "s_columns s \<le> 5000" "0 < s_lines s" "s_lines s \<le> 50000"
    "cx s \<le> s_columns s" "cy s < s_lines s" "s_margin_top s \<le> s_margin_bottom s" "s_margin_bottom s < s_lines s"
    "s_margin_top s < s_lines s"
  using assms by (simp_all add: screen_wf_def)

section \<open>Editing the buffers\<close>

lemma s_linebuf_size: "screen_wf s \<Longrightarrow> lb_size (s_columns s) (s_lines s) (s_linebuf s)"
  by (simp add: screen_wf_def s_linebuf_def)

lemma upd_linebuf_wf:
  "screen_wf s \<Longrightarrow> (\<And>b. lb_size (s_columns s) (s_lines s) b \<Longrightarrow> lb_size (s_columns s) (s_lines s) (f b)) \<Longrightarrow>
   screen_wf (upd_linebuf f s)"
  by (simp add: screen_wf_def upd_linebuf_def)

lemma edit_line_wf:
  assumes "screen_wf s" "y < s_lines s"
    "\<And>l. line_wf l \<Longrightarrow> l_xnum l = s_columns s \<Longrightarrow> line_wf (f l) \<and> l_xnum (f l) = s_columns s"
  shows "screen_wf (edit_line f y s)"
  unfolding edit_line_def
proof (rule upd_linebuf_wf [OF assms(1)])
  fix b assume b: "lb_size (s_columns s) (s_lines s) b"
  then have "line_wf (linebuf_init_line b y)" using assms(2) by (simp add: lb_size_def linebuf_init_line_wf)
  with assms(3) [of "linebuf_init_line b y"] b
  show "lb_size (s_columns s) (s_lines s) (put_line b y (f (linebuf_init_line b y)))"
    by (simp add: lb_size_def put_line_wf) (simp add: put_line_def)
qed

lemma upd_linebuf_frame [simp, frame_simps]:
  "s_columns (upd_linebuf f s) = s_columns s" "s_lines (upd_linebuf f s) = s_lines s"
  "s_cursor (upd_linebuf f s) = s_cursor s" "s_modes (upd_linebuf f s) = s_modes s"
  "s_margin_top (upd_linebuf f s) = s_margin_top s" "s_margin_bottom (upd_linebuf f s) = s_margin_bottom s"
  "s_dec (upd_linebuf f s) = s_dec s" "s_main_savepoint (upd_linebuf f s) = s_main_savepoint s"
  "s_alt_savepoint (upd_linebuf f s) = s_alt_savepoint s" "s_on_main (upd_linebuf f s) = s_on_main s"
  "s_selections (upd_linebuf f s) = s_selections s" "s_env (upd_linebuf f s) = s_env s"
  "s_active_hyperlink_id (upd_linebuf f s) = s_active_hyperlink_id s" "s_charsets (upd_linebuf f s) = s_charsets s"
  "s_historybuf (upd_linebuf f s) = s_historybuf s"
  by (simp_all add: upd_linebuf_def)

lemma edit_line_frame [simp, frame_simps]:
  "s_columns (edit_line f y s) = s_columns s" "s_lines (edit_line f y s) = s_lines s"
  "s_cursor (edit_line f y s) = s_cursor s" "s_modes (edit_line f y s) = s_modes s"
  "s_margin_top (edit_line f y s) = s_margin_top s" "s_margin_bottom (edit_line f y s) = s_margin_bottom s"
  "s_dec (edit_line f y s) = s_dec s" "s_main_savepoint (edit_line f y s) = s_main_savepoint s"
  "s_alt_savepoint (edit_line f y s) = s_alt_savepoint s" "s_on_main (edit_line f y s) = s_on_main s"
  "s_selections (edit_line f y s) = s_selections s" "s_env (edit_line f y s) = s_env s"
  "s_active_hyperlink_id (edit_line f y s) = s_active_hyperlink_id s" "s_charsets (edit_line f y s) = s_charsets s"
  "s_historybuf (edit_line f y s) = s_historybuf s"
  by (simp_all add: edit_line_def)

text \<open>The parts outside the grid do not matter for the invariant.\<close>

lemma screen_wf_plain [simp]:
  "screen_wf (s\<lparr>s_is_dirty := a\<rparr>) = screen_wf s" "screen_wf (s\<lparr>s_selections := b\<rparr>) = screen_wf s"
  "screen_wf (s\<lparr>s_scroll_changed := a\<rparr>) = screen_wf s" "screen_wf (s\<lparr>s_scrolled_by := n\<rparr>) = screen_wf s"
  "screen_wf (s\<lparr>s_url_ranges := b\<rparr>) = screen_wf s" "screen_wf (s\<lparr>s_modes := m\<rparr>) = screen_wf s"
  "screen_wf (s\<lparr>s_saved_modes := m\<rparr>) = screen_wf s" "screen_wf (s\<lparr>s_on_main := a\<rparr>) = screen_wf s"
  "screen_wf (s\<lparr>s_tabs_main := a\<rparr>) = screen_wf s" "screen_wf (s\<lparr>s_active_hyperlink_id := h\<rparr>) = screen_wf s"
  "screen_wf (s\<lparr>s_log := l\<rparr>) = screen_wf s" "screen_wf (s\<lparr>s_last_graphic_char := c\<rparr>) = screen_wf s"
  "screen_wf (s\<lparr>s_has_activity := a\<rparr>) = screen_wf s" "screen_wf (s\<lparr>s_ansi_active := h\<rparr>) = screen_wf s"
  "screen_wf (s\<lparr>s_last_visited_prompt := vp\<rparr>) = screen_wf s" "screen_wf (s\<lparr>s_redraws_prompts := a\<rparr>) = screen_wf s"
  "screen_wf (s\<lparr>s_last_reported_cwd := w\<rparr>) = screen_wf s" "screen_wf (s\<lparr>s_bell := bell\<rparr>) = screen_wf s"
  "screen_wf (s\<lparr>s_history_line_added_count := n\<rparr>) = screen_wf s"
  by (simp_all add: screen_wf_def)

lemma emit_wf [simp]: "screen_wf (emit e s) = screen_wf s"
  by (simp add: emit_def)

lemma callback_wf [simp]: "screen_wf (callback name args s) = screen_wf s"
  by (simp add: callback_def)

lemma charset_ops_wf [wf_intros]:
  "screen_wf s \<Longrightarrow> screen_wf (screen_change_charset which s)"
  "screen_wf s \<Longrightarrow> screen_wf (screen_designate_charset which as s)"
  by (simp_all add: screen_wf_def screen_change_charset_def screen_designate_charset_def charsets_ok_def Let_def)

section \<open>A small screen for examples\<close>

definition quiet_env :: env where
  "quiet_env = \<lparr>e_graphics = \<lambda>_ _ _ xy. (None, xy, False), e_activity = \<lambda>_. False, e_has_callbacks = True,
     e_allow_hyperlinks = True, e_visual_bell = False, e_fill_enlarged_window = False,
     e_primary_version = ''4000'', e_secondary_version = ''27'', e_xt_version = ''0.27.1''\<rparr>"

definition zero_decoder :: decoder where
  "zero_decoder = \<lparr>utf8_state = 0, utf8_codepoint = 0, use_latin1 = False, pending_activated_at = 0, now_monotonic = 0\<rparr>"

definition example_screen :: screen where
  "example_screen = projr (screen_new quiet_env zero_decoder 3 4 5 10 20 0)"

lemma example_screen_new: "screen_new quiet_env zero_decoder 3 4 5 10 20 0 = Inr example_screen"
  by (simp add: example_screen_def screen_new_def linebuf_new_def create_historybuf_def Let_def)

lemma example_screen_wf: "screen_wf example_screen"
  by (rule screen_new_wf [OF example_screen_new]) simp

lemma example_screen_fields:
  "s_on_main example_screen" "s_margin_top example_screen = 0" "s_margin_bottom example_screen = 2"
  "s_lines example_screen = 3" "s_columns example_screen = 4" "s_dec example_screen = zero_decoder"
  "s_env example_screen = quiet_env" "s_modes example_screen = empty_modes" "s_cursor example_screen = zero_cursor"
  "s_active_hyperlink_id example_screen = 0" "s_pool example_screen = alloc_hyperlink_pool"
  "s_main_keys example_screen = replicate 8 0" "s_selections example_screen = zero_selections"
  by (simp_all add: example_screen_def screen_new_def linebuf_new_def create_historybuf_def Let_def RESET_CHARSETS_def
      zero_decoder_def)

end
