(* ===== verification/Screen_Cursor.thy ===== *)
theory Screen_Cursor
  imports Screen_State
begin

text \<open>
  Cursor movement of \<^verbatim>\<open>smelly/screen.c\<close>: relative and absolute positioning, margins, tab stops, the
  shape of the cursor and scrolling the view over the history. Every operation leaves the cursor on
  the screen.
\<close>

section \<open>Positioning\<close>

definition cursor_within_margins :: "screen \<Rightarrow> bool" where
  "cursor_within_margins s = (s_margin_top s \<le> cy s \<and> cy s \<le> s_margin_bottom s)"

definition screen_ensure_bounds :: "bool \<Rightarrow> bool \<Rightarrow> screen \<Rightarrow> screen" where
  "screen_ensure_bounds force_use_margins in_margins s =
     (let (mtop, mbot) = (if in_margins \<and> (force_use_margins \<or> mDECOM (s_modes s))
                        then (s_margin_top s, s_margin_bottom s) else (0, s_lines s - 1))
      in set_cursor (min (cx s) (s_columns s - 1)) (max mtop (min (cy s) mbot)) s)"

text \<open>\<^verbatim>\<open>x += move_direction * count\<close> on an \<^verbatim>\<open>unsigned int\<close>, which stops at 0 when it moves back.\<close>

definition move_by :: "nat \<Rightarrow> nat \<Rightarrow> int \<Rightarrow> nat" where
  "move_by x n move_direction =
     (let n = (if n = 0 then 1 else n) in
      if move_direction < 0 \<and> n > x then 0 else nat ((int x + move_direction * int n) mod 2 ^ 32))"

definition screen_cursor_back :: "nat \<Rightarrow> int \<Rightarrow> screen \<Rightarrow> screen" where
  "screen_cursor_back n move_direction s =
     (let s = set_cursor (move_by (cx s) n move_direction) (cy s) s
      in screen_ensure_bounds False (cursor_within_margins s) s)"

definition screen_cursor_forward :: "nat \<Rightarrow> screen \<Rightarrow> screen" where
  "screen_cursor_forward n s = screen_cursor_back n 1 s"

definition screen_backspace :: "screen \<Rightarrow> screen" where
  "screen_backspace s = screen_cursor_back 1 (- 1) s"

definition screen_cursor_up :: "nat \<Rightarrow> bool \<Rightarrow> int \<Rightarrow> screen \<Rightarrow> screen" where
  "screen_cursor_up n do_carriage_return move_direction s =
     (let in_margins = cursor_within_margins s;
          s = set_cursor (cx s) (move_by (cy s) n move_direction) s;
          s = screen_ensure_bounds True in_margins s
      in if do_carriage_return then set_cursor 0 (cy s) s else s)"

definition screen_cursor_up1 :: "nat \<Rightarrow> screen \<Rightarrow> screen" where
  "screen_cursor_up1 n s = screen_cursor_up n True (- 1) s"

definition screen_cursor_down :: "nat \<Rightarrow> screen \<Rightarrow> screen" where
  "screen_cursor_down n s = screen_cursor_up n False 1 s"

definition screen_cursor_down1 :: "nat \<Rightarrow> screen \<Rightarrow> screen" where
  "screen_cursor_down1 n s = screen_cursor_up n True 1 s"

definition screen_cursor_to_column :: "nat \<Rightarrow> screen \<Rightarrow> screen" where
  "screen_cursor_to_column column s =
     (let x = max column 1 - 1 in
      if x \<noteq> cx s then
        (let s = set_cursor x (cy s) s in screen_ensure_bounds False (cursor_within_margins s) s)
      else s)"

definition screen_carriage_return :: "screen \<Rightarrow> screen" where
  "screen_carriage_return s = (if cx s \<noteq> 0 then set_cursor 0 (cy s) s else s)"

definition screen_cursor_position :: "nat \<Rightarrow> nat \<Rightarrow> screen \<Rightarrow> screen" where
  "screen_cursor_position line column s =
     (let in_margins = cursor_within_margins s;
          line = (if line = 0 then 1 else line) - 1;
          column = (if column = 0 then 1 else column) - 1;
          line = (if mDECOM (s_modes s)
                  then max (s_margin_top s) (min ((line + s_margin_top s) mod 2 ^ 32) (s_margin_bottom s))
                  else line)
      in screen_ensure_bounds False in_margins (set_cursor column line s))"

definition screen_cursor_to_line :: "nat \<Rightarrow> screen \<Rightarrow> screen" where
  "screen_cursor_to_line line s = screen_cursor_position line (cx s + 1) s"

definition screen_set_margins :: "nat \<Rightarrow> nat \<Rightarrow> screen \<Rightarrow> screen" where
  "screen_set_margins mtop mbot s =
     (let mtop = (if mtop = 0 then 1 else mtop); mbot = (if mbot = 0 then s_lines s else mbot);
          mtop = min (s_lines s) mtop - 1; mbot = min (s_lines s) mbot - 1
      in if mbot > mtop
         then screen_cursor_position 1 1 (s\<lparr>s_margin_top := mtop, s_margin_bottom := mbot\<rparr>)
         else s)"

section \<open>Tab stops\<close>

text \<open>\<^verbatim>\<open>cpu_cell\<close> and the \<open>diff\<close> cells from it, when they are blank, become a tab and its filling.\<close>

definition tab_cells :: "nat \<Rightarrow> nat \<Rightarrow> cell_line \<Rightarrow> cell_line" where
  "tab_cells x diff l =
     (if list_all (\<lambda>c. p_ch c = 0x20 \<or> p_ch c = 0) (slice (l_cpu l) x diff)
      then map_cpu x (\<lambda>p. p\<lparr>p_ch := 0x09, p_cc0 := word_of_nat diff\<rparr>)
             (l\<lparr>l_cpu := update_range (\<lambda>p. clear_cc (p\<lparr>p_ch := 0x20\<rparr>)) x diff (l_cpu l)\<rparr>)
      else l)"

definition next_tabstop :: "screen \<Rightarrow> nat" where
  "next_tabstop s =
     (case List.find (\<lambda>i. s_tabstops s ! i) [cx s + 1 ..< s_columns s] of
        Some i \<Rightarrow> i | None \<Rightarrow> s_columns s - 1)"

definition screen_tab :: "screen \<Rightarrow> screen" where
  "screen_tab s =
     (let found = next_tabstop s in
      if found \<noteq> cx s then
        (let s = (if cx s < s_columns s
                  then edit_line (tab_cells (cx s) (unat (word_of_nat (found - cx s) :: combining_type))) (cy s) s
                  else s)
         in set_cursor found (cy s) s)
      else s)"

text \<open>The last tab stop before column \<open>i\<close>, or column 0.\<close>

fun prev_tabstop :: "bool list \<Rightarrow> nat \<Rightarrow> nat" where
  "prev_tabstop ts 0 = 0"
| "prev_tabstop ts (Suc i) = (if ts ! i then i else prev_tabstop ts i)"

fun backtab_loop :: "bool list \<Rightarrow> nat \<Rightarrow> nat \<Rightarrow> nat" where
  "backtab_loop ts 0 x = x"
| "backtab_loop ts (Suc n) x = (if x > 0 then backtab_loop ts n (prev_tabstop ts x) else x)"

definition screen_backtab :: "nat \<Rightarrow> screen \<Rightarrow> screen" where
  "screen_backtab n s =
     set_cursor (backtab_loop (s_tabstops s) (if n = 0 then 1 else n) (cx s)) (cy s) s"

definition screen_clear_tab_stop :: "nat \<Rightarrow> screen \<Rightarrow> screen" where
  "screen_clear_tab_stop how s =
     (if how = 0 then (if cx s < s_columns s then upd_tabstops (\<lambda>ts. ts[cx s := False]) s else s)
      else if how = 2 then s
      else if how = 3 then upd_tabstops (update_range (\<lambda>_. False) 0 (s_columns s)) s
      else emit Log_error s)"

definition screen_set_tab_stop :: "screen \<Rightarrow> screen" where
  "screen_set_tab_stop s =
     (if cx s < s_columns s then upd_tabstops (\<lambda>ts. ts[cx s := True]) s else s)"

section \<open>The shape of the cursor\<close>

definition cursor_shape_of_mode :: "nat \<Rightarrow> cursor_shape" where
  "cursor_shape_of_mode mode =
     (if mode = 0 then NO_CURSOR_SHAPE
      else if mode < 3 then CURSOR_BLOCK
      else if mode < 5 then CURSOR_UNDERLINE
      else if mode < 7 then CURSOR_BEAM
      else NO_CURSOR_SHAPE)"

definition screen_set_cursor :: "nat \<Rightarrow> u32 \<Rightarrow> screen \<Rightarrow> screen" where
  "screen_set_cursor mode secondary s =
     (if secondary = ch CHR '' '' then
        (let shape = cursor_shape_of_mode mode; blink = (mode > 0 \<longrightarrow> mode mod 2 \<noteq> 0)
         in upd_cursor (\<lambda>c. c\<lparr>c_shape := shape, c_non_blinking := \<not> blink\<rparr>) s)
      else s)"

definition screen_is_cursor_visible :: "screen \<Rightarrow> bool" where
  "screen_is_cursor_visible s = mDECTCEM (s_modes s)"

definition screen_current_char_width :: "screen \<Rightarrow> nat" where
  "screen_current_char_width s =
     (if cx s < s_columns s - 1 \<and> cy s < s_lines s
      then unat (linebuf_char_width_at (s_linebuf s) (cx s) (cy s)) else 1)"

text \<open>\<open>None\<close> is -1. The loop runs from the line of the cursor upwards.\<close>

fun prompt_line_from :: "line_buf \<Rightarrow> nat \<Rightarrow> nat option" where
  "prompt_line_from b 0 = None"
| "prompt_line_from b (Suc y) =
     (case la_prompt_kind (b_attrs b ! y) of
        OUTPUT_START \<Rightarrow> None
      | PROMPT_START \<Rightarrow> Some y
      | SECONDARY_PROMPT \<Rightarrow> Some y
      | UNKNOWN_PROMPT_KIND \<Rightarrow> prompt_line_from b y)"

definition screen_cursor_at_a_shell_prompt :: "screen \<Rightarrow> nat option" where
  "screen_cursor_at_a_shell_prompt s =
     (if cy s \<ge> s_lines s \<or> \<not> s_on_main s \<or> \<not> screen_is_cursor_visible s then None
      else prompt_line_from (s_linebuf s) (cy s + 1))"

section \<open>Scrolling the view\<close>

abbreviation (input) SCROLL_LINE :: int where "SCROLL_LINE \<equiv> - 999999"
abbreviation (input) SCROLL_PAGE :: int where "SCROLL_PAGE \<equiv> - 999998"
abbreviation (input) SCROLL_FULL :: int where "SCROLL_FULL \<equiv> - 999997"

definition screen_history_scroll :: "int \<Rightarrow> bool \<Rightarrow> screen \<Rightarrow> bool \<times> screen" where
  "screen_history_scroll amt upwards s =
     (let n = (if amt = SCROLL_LINE then 1
               else if amt = SCROLL_PAGE then s_lines s - 1
               else if amt = SCROLL_FULL then h_count (s_historybuf s)
               else nat (max 0 amt));
          amt = (if upwards then int n else - int (min n (s_scrolled_by s)))
      in if amt = 0 then (False, s)
         else
           (let new_scroll = min (nat ((int (s_scrolled_by s) + amt) mod 2 ^ 32)) (h_count (s_historybuf s))
            in if new_scroll \<noteq> s_scrolled_by s
               then (True, s\<lparr>s_scrolled_by := new_scroll, s_scroll_changed := True\<rparr>)
               else (False, s)))"

section \<open>The cursor stays on the screen\<close>

lemma set_cursor_frame [simp, frame_simps]:
  "s_columns (set_cursor x y s) = s_columns s" "s_lines (set_cursor x y s) = s_lines s"
  "c_x (s_cursor (set_cursor x y s)) = x" "c_y (s_cursor (set_cursor x y s)) = y"
  "s_modes (set_cursor x y s) = s_modes s" "s_margin_top (set_cursor x y s) = s_margin_top s"
  "s_margin_bottom (set_cursor x y s) = s_margin_bottom s" "s_dec (set_cursor x y s) = s_dec s"
  "s_main_savepoint (set_cursor x y s) = s_main_savepoint s" "s_alt_savepoint (set_cursor x y s) = s_alt_savepoint s"
  "s_linebuf (set_cursor x y s) = s_linebuf s" "s_on_main (set_cursor x y s) = s_on_main s"
  "s_historybuf (set_cursor x y s) = s_historybuf s" "s_tabstops (set_cursor x y s) = s_tabstops s"
  by (simp_all add: set_cursor_def s_linebuf_def s_tabstops_def)

lemma set_cursor_wf [wf_intros]:
  "screen_wf s \<Longrightarrow> x \<le> s_columns s \<Longrightarrow> y < s_lines s \<Longrightarrow> screen_wf (set_cursor x y s)"
  by (simp add: screen_wf_def set_cursor_def)

text \<open>Bounding the cursor repairs any position; only the margins and the sizes matter.\<close>

lemma ensure_bounds_wf:
  assumes "screen_wf s"
  shows "screen_wf (screen_ensure_bounds force in_margins (set_cursor x y s))"
proof -
  have "set_cursor a b (set_cursor x y s) = set_cursor a b s" for a b by (simp add: set_cursor_def)
  moreover have "max 0 (min y (s_lines s - 1)) < s_lines s" "min x (s_columns s - 1) \<le> s_columns s"
    "max (s_margin_top s) (min y (s_margin_bottom s)) < s_lines s"
    using assms by (auto simp: screen_wf_def)
  ultimately show ?thesis
    using assms by (simp add: screen_ensure_bounds_def set_cursor_wf)
qed

lemma set_cursor_same [simp]: "set_cursor (cx s) (cy s) s = s"
  by (simp add: set_cursor_def)

lemma ensure_bounds_wf' [wf_intros]: "screen_wf s \<Longrightarrow> screen_wf (screen_ensure_bounds force in_margins s)"
  using ensure_bounds_wf [of s force in_margins "cx s" "cy s"] by simp

lemma screen_cursor_ops_wf [wf_intros]:
  assumes "screen_wf s"
  shows "screen_wf (screen_cursor_back n d s)" "screen_wf (screen_cursor_up n cr d s)"
    "screen_wf (screen_cursor_to_column n s)" "screen_wf (screen_carriage_return s)"
    "screen_wf (screen_cursor_position line column s)"
  using assms ensure_bounds_wf [OF assms]
proof -
  have "screen_wf (screen_ensure_bounds True (cursor_within_margins s) (set_cursor (cx s) (move_by (cy s) n d) s))"
    by (rule ensure_bounds_wf [OF assms])
  then show "screen_wf (screen_cursor_up n cr d s)"
    by (auto simp: screen_cursor_up_def Let_def intro!: set_cursor_wf) (simp add: screen_wf_def)
qed (simp_all add: screen_cursor_back_def screen_cursor_to_column_def screen_carriage_return_def
    screen_cursor_position_def Let_def set_cursor_wf screen_wf_def [of s])

lemma margins_wf:
  "screen_wf s \<Longrightarrow> t \<le> b \<Longrightarrow> b < s_lines s \<Longrightarrow> screen_wf (s\<lparr>s_margin_top := t, s_margin_bottom := b\<rparr>)"
  by (simp add: screen_wf_def)

lemma screen_set_margins_wf [wf_intros]:
  assumes "screen_wf s"
  shows "screen_wf (screen_set_margins mtop mbot s)"
proof -
  have "0 < s_lines s" using assms by (simp add: screen_wf_def)
  then have "min (s_lines s) b - 1 < s_lines s" for b by linarith
  then show ?thesis
    using assms by (simp add: screen_set_margins_def Let_def margins_wf screen_cursor_ops_wf(5))
qed

lemma edit_then_wf: "screen_wf s \<Longrightarrow> s_lines s' = s_lines s \<Longrightarrow> s_columns s' = s_columns s \<Longrightarrow> screen_wf s' \<Longrightarrow>
  x \<le> s_columns s \<Longrightarrow> y < s_lines s \<Longrightarrow> screen_wf (set_cursor x y s')"
  by (simp add: set_cursor_wf)

lemma tab_cells_wf: "line_wf l \<Longrightarrow> line_wf (tab_cells x n l) \<and> l_xnum (tab_cells x n l) = l_xnum l"
  by (simp add: tab_cells_def) (simp add: line_wf_def map_cpu_def)

lemma next_tabstop_less: "0 < s_columns s \<Longrightarrow> next_tabstop s < s_columns s"
  by (auto simp: next_tabstop_def find_Some_iff split: option.splits)

lemma screen_tab_wf [wf_intros]:
  assumes "screen_wf s"
  shows "screen_wf (screen_tab s)"
proof -
  have c: "0 < s_columns s" "cy s < s_lines s" using assms by (simp_all add: screen_wf_def)
  have "screen_wf (edit_line (tab_cells (cx s) n) (cy s) s)" for n
    using assms c(2) by (intro edit_line_wf) (auto dest: tab_cells_wf)
  then show ?thesis
    using assms c next_tabstop_less [OF c(1)] by (auto simp: screen_tab_def Let_def intro!: set_cursor_wf)
qed

lemma prev_tabstop_le: "prev_tabstop ts x \<le> x"
  by (induction ts x rule: prev_tabstop.induct) auto

lemma backtab_loop_le: "backtab_loop ts n x \<le> x"
  by (induction ts n x rule: backtab_loop.induct) (auto intro: order_trans [OF _ prev_tabstop_le])

lemma screen_backtab_wf [wf_intros]:
  assumes "screen_wf s"
  shows "screen_wf (screen_backtab n s)"
proof -
  have "backtab_loop (s_tabstops s) m (cx s) \<le> s_columns s" for m
    using backtab_loop_le [of "s_tabstops s" m "cx s"] wf_bounds(6) [OF assms] by linarith
  then show ?thesis using assms unfolding screen_backtab_def by (intro set_cursor_wf wf_bounds)
qed

lemma upd_tabstops_wf:
  "screen_wf s \<Longrightarrow> (\<And>ts. length (f ts) = length ts) \<Longrightarrow> screen_wf (upd_tabstops f s)"
  by (simp add: screen_wf_def upd_tabstops_def)

lemma tab_stop_ops_wf [wf_intros]:
  "screen_wf s \<Longrightarrow> screen_wf (screen_clear_tab_stop how s)" "screen_wf s \<Longrightarrow> screen_wf (screen_set_tab_stop s)"
  by (simp_all add: screen_clear_tab_stop_def screen_set_tab_stop_def upd_tabstops_wf)

lemma screen_set_cursor_wf [wf_intros]: "screen_wf s \<Longrightarrow> screen_wf (screen_set_cursor mode sec s)"
  by (simp add: screen_set_cursor_def screen_wf_def Let_def)

lemma screen_history_scroll_cases:
  "snd (screen_history_scroll amt up s) = s \<or>
   (\<exists>n. snd (screen_history_scroll amt up s) = s\<lparr>s_scrolled_by := n, s_scroll_changed := True\<rparr>)"
  unfolding screen_history_scroll_def Let_def
  by (simp only: if_distrib [of snd] snd_conv split: if_split) blast

lemma screen_history_scroll_wf [wf_intros]: "screen_wf s \<Longrightarrow> screen_wf (snd (screen_history_scroll amt up s))"
  using screen_history_scroll_cases [of amt up s] by (elim disjE exE) simp_all

end
