(* ===== verification/Screen_Scroll.thy ===== *)
theory Screen_Scroll
  imports Screen_Cursor
begin

text \<open>
  Scrolling in \<^verbatim>\<open>smelly/screen.c\<close>: \<^verbatim>\<open>INDEX_UP\<close> and \<^verbatim>\<open>INDEX_DOWN\<close>, which move the lines of the scrolling
  region, the line that leaves the top of the main screen for the history, and line feeds. The
  lines of the history and of the screen together are shown to be one text that scrolling only
  extends.
\<close>

section \<open>The operations\<close>

definition index_graphics :: "int \<Rightarrow> nat \<Rightarrow> nat \<Rightarrow> screen \<Rightarrow> screen" where
  "index_graphics amt t b s =
     emit (Grman_scroll (s_on_main s) amt (if s_on_main s then - int (h_ynum (s_historybuf s)) else 0)
       (s_margin_top s \<noteq> 0 \<or> s_margin_bottom s \<noteq> s_lines s - 1) t b) s"

definition pool_keys :: "hyperlink_pool \<Rightarrow> hyperlink_keys" where
  "pool_keys p = (\<lambda>i. get_hyperlink_for_id p i False)"

text \<open>The line at the bottom of the region, already scrolled, is added to the history.\<close>

definition prompt_scrolled_up :: "nat \<Rightarrow> visited_prompt \<Rightarrow> visited_prompt" where
  "prompt_scrolled_up n vp =
     (if vp_is_set vp then
        (if vp_scrolled_by vp < n then vp\<lparr>vp_scrolled_by := vp_scrolled_by vp + 1\<rparr> else vp\<lparr>vp_is_set := False\<rparr>)
      else vp)"

definition add_to_history :: "nat \<Rightarrow> screen \<Rightarrow> screen" where
  "add_to_history b s =
     (let l = linebuf_init_line (s_linebuf s) b;
          (active, h) = historybuf_add_line (Some (pool_keys (s_pool s))) (s_ansi_active s) l (s_historybuf s)
      in s\<lparr>s_historybuf := h, s_ansi_active := active,
           s_history_line_added_count := (s_history_line_added_count s + 1) mod 2 ^ 32,
           s_last_visited_prompt := prompt_scrolled_up (h_count h) (s_last_visited_prompt s)\<rparr>)"

text \<open>\<^verbatim>\<open>INDEX_UP\<close>, with \<^verbatim>\<open>top\<close> and \<^verbatim>\<open>bottom\<close>.\<close>

definition index_up :: "nat \<Rightarrow> nat \<Rightarrow> screen \<Rightarrow> screen" where
  "index_up t b s =
     (let s = upd_linebuf (\<lambda>lb. linebuf_index lb t b) s;
          s = index_graphics (- 1) t b s;
          s = (if s_on_main s \<and> s_margin_top s = 0 then add_to_history b s else s);
          s = upd_linebuf (\<lambda>lb. linebuf_clear_line lb b True) s
      in s\<lparr>s_is_dirty := True, s_selections := index_selection (s_lines s) (s_selections s) True\<rparr>)"

definition prompt_scrolled_down :: "nat \<Rightarrow> visited_prompt \<Rightarrow> visited_prompt" where
  "prompt_scrolled_down lines vp =
     (if vp_is_set vp then
        (if vp_scrolled_by vp > 0 then vp\<lparr>vp_scrolled_by := vp_scrolled_by vp - 1\<rparr>
         else if vp_y vp < lines - 1 then vp\<lparr>vp_y := vp_y vp + 1\<rparr>
         else vp\<lparr>vp_is_set := False\<rparr>)
      else vp)"

text \<open>\<^verbatim>\<open>INDEX_DOWN\<close>.\<close>

definition index_down :: "nat \<Rightarrow> nat \<Rightarrow> screen \<Rightarrow> screen" where
  "index_down t b s =
     (let s = upd_linebuf (\<lambda>lb. linebuf_clear_line (linebuf_reverse_index lb t b) t True) s;
          s = (if s_on_main s
               then s\<lparr>s_last_visited_prompt := prompt_scrolled_down (s_lines s) (s_last_visited_prompt s)\<rparr> else s);
          s = index_graphics 1 t b s
      in s\<lparr>s_is_dirty := True, s_selections := index_selection (s_lines s) (s_selections s) False\<rparr>)"

definition screen_index :: "screen \<Rightarrow> screen" where
  "screen_index s =
     (if cy s = s_margin_bottom s then index_up (s_margin_top s) (s_margin_bottom s) s
      else screen_cursor_down 1 s)"

fun scroll_loop :: "nat \<Rightarrow> nat \<Rightarrow> nat \<Rightarrow> screen \<Rightarrow> screen" where
  "scroll_loop 0 t b s = s"
| "scroll_loop (Suc n) t b s = scroll_loop n t b (index_up t b s)"

definition screen_scroll :: "nat \<Rightarrow> screen \<Rightarrow> screen" where
  "screen_scroll n s = scroll_loop n (s_margin_top s) (s_margin_bottom s) s"

definition screen_reverse_index :: "screen \<Rightarrow> screen" where
  "screen_reverse_index s =
     (if cy s = s_margin_top s then index_down (s_margin_top s) (s_margin_bottom s) s
      else screen_cursor_up 1 False (- 1) s)"

text \<open>One round of \<^verbatim>\<open>_reverse_scroll\<close>: the newest line of the history may come back at the top.\<close>

definition reverse_scroll_step :: "bool \<Rightarrow> nat \<Rightarrow> nat \<Rightarrow> screen \<Rightarrow> screen" where
  "reverse_scroll_step fill_from_scrollback t b s =
     (case (if fill_from_scrollback then historybuf_pop_line (s_historybuf s) else None) of
        None \<Rightarrow> index_down t b s
      | Some (l, h) \<Rightarrow>
          (let s = index_down t b (s\<lparr>s_historybuf := h\<rparr>)
           in s\<lparr>s_main_linebuf := linebuf_copy_line_to (s_main_linebuf s) l 0\<rparr>))"

fun reverse_scroll_loop :: "nat \<Rightarrow> bool \<Rightarrow> nat \<Rightarrow> nat \<Rightarrow> screen \<Rightarrow> screen" where
  "reverse_scroll_loop 0 fill t b s = s"
| "reverse_scroll_loop (Suc n) fill t b s = reverse_scroll_loop n fill t b (reverse_scroll_step fill t b s)"

definition reverse_scroll :: "nat \<Rightarrow> bool \<Rightarrow> screen \<Rightarrow> screen" where
  "reverse_scroll n fill_from_scrollback s =
     (let fill = (fill_from_scrollback \<and> s_on_main s);
          n = (if fill then min (max (s_lines s) (h_count (s_historybuf s))) n else min (s_lines s) n)
      in reverse_scroll_loop n fill (s_margin_top s) (s_margin_bottom s) s)"

definition screen_reverse_scroll :: "nat \<Rightarrow> screen \<Rightarrow> screen" where
  "screen_reverse_scroll n s = reverse_scroll n False s"

definition screen_reverse_scroll_and_fill_from_scrollback :: "nat \<Rightarrow> screen \<Rightarrow> screen" where
  "screen_reverse_scroll_and_fill_from_scrollback n s = reverse_scroll n True s"

definition screen_linefeed :: "screen \<Rightarrow> screen" where
  "screen_linefeed s =
     (let in_margins = cursor_within_margins s;
          s = screen_index s;
          s = (if mLNM (s_modes s) then screen_carriage_return s else s)
      in screen_ensure_bounds False in_margins s)"

fun index_times :: "nat \<Rightarrow> screen \<Rightarrow> screen" where
  "index_times 0 s = s"
| "index_times (Suc n) s = index_times n (screen_index s)"

definition screen_scroll_until_cursor_prompt :: "screen \<Rightarrow> screen" where
  "screen_scroll_until_cursor_prompt s =
     (let y = (case screen_cursor_at_a_shell_prompt s of Some q \<Rightarrow> q | None \<Rightarrow> cy s);
          n = min (s_margin_bottom s) y;
          final_y = (if n \<le> cy s then cy s - n else 0);
          s = index_times n (set_cursor (cx s) (s_margin_bottom s) s)
      in set_cursor (cx s) final_y s)"

section \<open>Sizes and frames\<close>

lemma lb_size_ops [wf_intros]:
  assumes "lb_size c l b"
  shows "lb_size c l (linebuf_index b lo hi)" "lb_size c l (linebuf_reverse_index b lo hi)"
    "lb_size c l (linebuf_clear_line b y clr)" "lb_size c l (update_line_attrs y f b)"
    "lb_size c l (linebuf_set_last_char_as_continuation b y w)" "lb_size c l (linebuf_clear b char)"
  using assms linebuf_index_wf [of b lo hi] linebuf_reverse_index_wf [of b lo hi] linebuf_clear_line_wf [of b y clr]
    update_attrs_wf [of b y f] set_continuation_wf [of b y w] linebuf_clear_wf [of b char]
  by (auto simp: lb_size_def linebuf_index_def linebuf_reverse_index_def linebuf_clear_line_def clear_row_def
      update_line_attrs_def Let_def linebuf_set_last_char_as_continuation_def linebuf_clear_def clear_chars_loop_frame)

lemma index_graphics_frame [simp, frame_simps]:
  "s_columns (index_graphics a t b s) = s_columns s" "s_lines (index_graphics a t b s) = s_lines s"
  "s_cursor (index_graphics a t b s) = s_cursor s" "s_modes (index_graphics a t b s) = s_modes s"
  "s_margin_top (index_graphics a t b s) = s_margin_top s" "s_margin_bottom (index_graphics a t b s) = s_margin_bottom s"
  "s_dec (index_graphics a t b s) = s_dec s" "s_main_savepoint (index_graphics a t b s) = s_main_savepoint s"
  "s_alt_savepoint (index_graphics a t b s) = s_alt_savepoint s" "s_on_main (index_graphics a t b s) = s_on_main s"
  "s_linebuf (index_graphics a t b s) = s_linebuf s" "s_historybuf (index_graphics a t b s) = s_historybuf s"
  "s_selections (index_graphics a t b s) = s_selections s"
  "s_main_linebuf (index_graphics a t b s) = s_main_linebuf s" "s_alt_linebuf (index_graphics a t b s) = s_alt_linebuf s"
  "screen_wf (index_graphics a t b s) = screen_wf s"
  by (simp_all add: index_graphics_def s_linebuf_def) (simp_all add: emit_def)

lemma add_to_history_frame [simp, frame_simps]:
  "s_columns (add_to_history b s) = s_columns s" "s_lines (add_to_history b s) = s_lines s"
  "s_cursor (add_to_history b s) = s_cursor s" "s_modes (add_to_history b s) = s_modes s"
  "s_margin_top (add_to_history b s) = s_margin_top s" "s_margin_bottom (add_to_history b s) = s_margin_bottom s"
  "s_dec (add_to_history b s) = s_dec s" "s_main_savepoint (add_to_history b s) = s_main_savepoint s"
  "s_alt_savepoint (add_to_history b s) = s_alt_savepoint s" "s_on_main (add_to_history b s) = s_on_main s"
  "s_linebuf (add_to_history b s) = s_linebuf s" "s_selections (add_to_history b s) = s_selections s"
  "s_main_linebuf (add_to_history b s) = s_main_linebuf s" "s_alt_linebuf (add_to_history b s) = s_alt_linebuf s"
  by (simp_all add: add_to_history_def s_linebuf_def Let_def split: prod.splits)

lemma add_to_history_wf:
  assumes wf: "screen_wf s" and b: "b < s_lines s"
  shows "screen_wf (add_to_history b s)"
proof -
  let ?l = "linebuf_init_line (s_linebuf s) b"
  obtain a h where h: "historybuf_add_line (Some (pool_keys (s_pool s))) (s_ansi_active s) ?l (s_historybuf s) = (a, h)"
    by (cases "historybuf_add_line (Some (pool_keys (s_pool s))) (s_ansi_active s) ?l (s_historybuf s)")
  have l: "line_wf ?l" "l_xnum ?l = h_xnum (s_historybuf s)"
    using s_linebuf_size [OF wf] b wf by (simp_all add: lb_size_def linebuf_init_line_wf screen_wf_def)
  have "history_wf (s_historybuf s)" using wf by (simp add: screen_wf_def)
  from historybuf_add_line_spec [OF this l h] have "history_wf h \<and> h_xnum h = h_xnum (s_historybuf s)" by simp
  with wf show ?thesis by (simp add: add_to_history_def h screen_wf_def)
qed

lemma index_up_frame [simp, frame_simps]:
  "s_columns (index_up t b s) = s_columns s" "s_lines (index_up t b s) = s_lines s"
  "s_cursor (index_up t b s) = s_cursor s" "s_modes (index_up t b s) = s_modes s"
  "s_margin_top (index_up t b s) = s_margin_top s" "s_margin_bottom (index_up t b s) = s_margin_bottom s"
  "s_dec (index_up t b s) = s_dec s" "s_main_savepoint (index_up t b s) = s_main_savepoint s"
  "s_alt_savepoint (index_up t b s) = s_alt_savepoint s" "s_on_main (index_up t b s) = s_on_main s"
  by (simp_all add: index_up_def Let_def)

lemma index_down_frame [simp, frame_simps]:
  "s_columns (index_down t b s) = s_columns s" "s_lines (index_down t b s) = s_lines s"
  "s_cursor (index_down t b s) = s_cursor s" "s_modes (index_down t b s) = s_modes s"
  "s_margin_top (index_down t b s) = s_margin_top s" "s_margin_bottom (index_down t b s) = s_margin_bottom s"
  "s_dec (index_down t b s) = s_dec s" "s_main_savepoint (index_down t b s) = s_main_savepoint s"
  "s_alt_savepoint (index_down t b s) = s_alt_savepoint s" "s_on_main (index_down t b s) = s_on_main s"
  by (simp_all add: index_down_def Let_def)

lemma index_up_wf [wf_intros]:
  assumes "screen_wf s" "b < s_lines s"
  shows "screen_wf (index_up t b s)"
  using assms by (simp add: index_up_def Let_def upd_linebuf_wf wf_intros add_to_history_wf)

lemma index_down_wf [wf_intros]:
  assumes "screen_wf s"
  shows "screen_wf (index_down t b s)"
  using assms by (simp add: index_down_def Let_def upd_linebuf_wf wf_intros)

lemma screen_index_wf [wf_intros]: "screen_wf s \<Longrightarrow> screen_wf (screen_index s)"
  by (simp add: screen_index_def screen_cursor_down_def index_up_wf screen_cursor_ops_wf wf_bounds)

lemma scroll_loop_wf: "screen_wf s \<Longrightarrow> b < s_lines s \<Longrightarrow> screen_wf (scroll_loop n t b s)"
  by (induction n t b s rule: scroll_loop.induct) (auto simp: index_up_wf)

lemma screen_scroll_wf [wf_intros]: "screen_wf s \<Longrightarrow> screen_wf (screen_scroll n s)"
  by (simp add: screen_scroll_def scroll_loop_wf wf_bounds)

lemma screen_reverse_index_wf [wf_intros]: "screen_wf s \<Longrightarrow> screen_wf (screen_reverse_index s)"
  by (simp add: screen_reverse_index_def index_down_wf screen_cursor_ops_wf)

lemma pop_line_wf:
  assumes "history_wf h" "historybuf_pop_line h = Some (l, h')"
  shows "history_wf h'" "line_wf l" "l_xnum l = h_xnum h" "h_xnum h' = h_xnum h"
proof -
  let ?i = "(h_start_of_data h + h_count h - 1) mod h_ynum h"
  have l: "l = history_init_line h ?i" "h' = h\<lparr>h_count := h_count h - 1\<rparr>"
    using assms(2) by (auto simp: historybuf_pop_line_def split: if_splits)
  have "row_ok (h_xnum h) (row_at h ?i)" using assms(1) by (simp add: history_wf_def)
  then show "line_wf l" "l_xnum l = h_xnum h" "h_xnum h' = h_xnum h"
    by (auto simp: l history_init_line_def line_wf_def row_ok_def Let_def split: prod.splits)
  show "history_wf h'" using historybuf_pop_line_spec [OF assms] by simp
qed

lemma lb_size_copy_line_to:
  "lb_size c n b \<Longrightarrow> line_wf l \<Longrightarrow> y < n \<Longrightarrow> lb_size c n (linebuf_copy_line_to b l y)"
  using linebuf_copy_line_to_wf [of b l y]
  by (auto simp: lb_size_def linebuf_copy_line_to_def Let_def put_line_def)

lemma reverse_scroll_step_wf:
  assumes "screen_wf s"
  shows "screen_wf (reverse_scroll_step fill t b s)"
proof (cases "if fill then historybuf_pop_line (s_historybuf s) else None")
  case None
  then show ?thesis using assms by (simp add: reverse_scroll_step_def index_down_wf)
next
  case (Some p)
  obtain l h where p: "p = (l, h)" by (cases p)
  with Some have pop: "historybuf_pop_line (s_historybuf s) = Some (l, h)" by (simp split: if_splits)
  have hwf: "history_wf (s_historybuf s)" "h_xnum (s_historybuf s) = s_columns s"
    using assms by (simp_all add: screen_wf_def)
  note l = pop_line_wf [OF hwf(1) pop]
  have "screen_wf (index_down t b (s\<lparr>s_historybuf := h\<rparr>))"
    using assms l hwf by (intro index_down_wf) (simp add: screen_wf_def)
  moreover have "0 < s_lines s" using assms by (rule wf_bounds)
  ultimately show ?thesis
    using Some l p by (simp add: reverse_scroll_step_def Let_def) (simp add: screen_wf_def lb_size_copy_line_to)
qed

lemma reverse_scroll_loop_wf: "screen_wf s \<Longrightarrow> screen_wf (reverse_scroll_loop n fill t b s)"
  by (induction n fill t b s rule: reverse_scroll_loop.induct) (auto simp: reverse_scroll_step_wf)

lemma screen_reverse_scroll_wf [wf_intros]:
  "screen_wf s \<Longrightarrow> screen_wf (screen_reverse_scroll n s)"
  "screen_wf s \<Longrightarrow> screen_wf (screen_reverse_scroll_and_fill_from_scrollback n s)"
  by (simp_all add: screen_reverse_scroll_def screen_reverse_scroll_and_fill_from_scrollback_def
      reverse_scroll_def Let_def reverse_scroll_loop_wf)

lemma screen_linefeed_wf [wf_intros]: "screen_wf s \<Longrightarrow> screen_wf (screen_linefeed s)"
  by (simp add: screen_linefeed_def Let_def wf_intros)

lemma index_times_wf: "screen_wf s \<Longrightarrow> screen_wf (index_times n s)"
  by (induction n s rule: index_times.induct) (auto simp: screen_index_wf)

lemma bounds_frame [simp, frame_simps]:
  "s_columns (screen_ensure_bounds f m s) = s_columns s" "s_lines (screen_ensure_bounds f m s) = s_lines s"
  "s_modes (screen_ensure_bounds f m s) = s_modes s" "s_margin_top (screen_ensure_bounds f m s) = s_margin_top s"
  "s_margin_bottom (screen_ensure_bounds f m s) = s_margin_bottom s"
  "s_linebuf (screen_ensure_bounds f m s) = s_linebuf s" "s_on_main (screen_ensure_bounds f m s) = s_on_main s"
  "s_historybuf (screen_ensure_bounds f m s) = s_historybuf s"
  by (simp_all add: screen_ensure_bounds_def split: prod.splits)

lemma screen_index_frame [simp, frame_simps]:
  "s_columns (screen_index s) = s_columns s" "s_lines (screen_index s) = s_lines s"
  "s_modes (screen_index s) = s_modes s" "s_margin_top (screen_index s) = s_margin_top s"
  "s_margin_bottom (screen_index s) = s_margin_bottom s" "s_on_main (screen_index s) = s_on_main s"
  by (simp_all add: screen_index_def screen_cursor_down_def screen_cursor_up_def Let_def)

lemma index_times_lines [simp]: "s_lines (index_times n s) = s_lines s"
  by (induction n s rule: index_times.induct) auto

lemma screen_scroll_until_cursor_prompt_wf [wf_intros]:
  assumes "screen_wf s"
  shows "screen_wf (screen_scroll_until_cursor_prompt s)"
proof -
  have "screen_wf (index_times n (set_cursor (cx s) (s_margin_bottom s) s))" for n
    using assms by (intro index_times_wf set_cursor_wf wf_bounds)
  moreover have "cy s - n < s_lines s" for n using wf_bounds(7) [OF assms] by linarith
  ultimately show ?thesis
    using wf_bounds(4) [OF assms] wf_bounds(6)
    by (simp add: screen_scroll_until_cursor_prompt_def Let_def set_cursor_wf)
qed

section \<open>The text of history and screen\<close>

text \<open>The cells of a row without its attributes, which are recomputed where a line is read.\<close>

definition cells_of :: "row \<Rightarrow> cpu_cell list \<times> gpu_cell list" where
  "cells_of r = (fst r, fst (snd r))"

definition screen_text :: "screen \<Rightarrow> (cpu_cell list \<times> gpu_cell list) list" where
  "screen_text s = map cells_of (h_lines (s_historybuf s)) @ map cells_of (rows (s_main_linebuf s))"

definition blank_cells :: "nat \<Rightarrow> cpu_cell list \<times> gpu_cell list" where
  "blank_cells n = (replicate n zero_cpu_cell, replicate n zero_gpu_cell)"

lemma rows_clear_line:
  assumes "lb_wf b" "y < b_ynum b"
  shows "rows (linebuf_clear_line b y True) = (rows b)[y := blank_row (b_xnum b) zero_line_attrs]"
proof (rule nth_equalityI)
  fix j assume "j < length (rows (linebuf_clear_line b y True))"
  then have "j < b_ynum b" by (simp add: linebuf_clear_line_def Let_def clear_row_frame)
  then show "rows (linebuf_clear_line b y True) ! j = (rows b)[y := blank_row (b_xnum b) zero_line_attrs] ! j"
    using assms lb_wf_map(6) [OF assms(1)]
    by (simp add: linebuf_clear_line_def Let_def clear_row_frame nth_rows row_of_update_attrs row_of_clear_row clear_row_wf nth_list_update
        blank_row_def)
qed (simp add: linebuf_clear_line_def Let_def clear_row_frame)

lemma cells_init_line: "y < b_ynum b \<Longrightarrow> cells_of (line_row (linebuf_init_line b y)) = cells_of (rows b ! y)"
  by (simp add: cells_of_def line_row_def linebuf_init_line_def nth_rows row_of_def)

lemma rows_index_single: "lb_wf b \<Longrightarrow> hi < b_ynum b \<Longrightarrow> rows (linebuf_index b 0 hi) = scroll_up 0 hi (rows b)"
proof (cases "hi = 0")
  case True
  then have "scroll_up 0 hi (rows b) = rows b" if "rows b \<noteq> []" using that by (cases "rows b") (simp_all add: scroll_up_def slice_def)
  moreover assume "hi < b_ynum b"
  then have "rows b \<noteq> []" by (metis length_rows list.size(3) not_less_zero)
  ultimately show ?thesis using True by (simp add: linebuf_index_def)
qed (simp add: linebuf_index_rows)

lemma index_up_text:
  assumes wf: "screen_wf s" and main: "s_on_main s" "s_margin_top s = 0" and b: "b < s_lines s"
  defines "h \<equiv> s_historybuf s" and "rs \<equiv> map cells_of (rows (s_main_linebuf s))"
  shows "screen_text (index_up 0 b s) = drop (h_count h + 1 - h_ynum h)
      (map cells_of (h_lines h) @ take (b + 1) rs @ [blank_cells (s_columns s)] @ drop (b + 1) rs)"
    and "h_ynum (s_historybuf (index_up 0 b s)) = h_ynum h"
    and "h_count (s_historybuf (index_up 0 b s)) = min (h_count h + 1) (h_ynum h)"
proof -
  let ?m = "s_main_linebuf s" let ?i = "linebuf_index ?m 0 b"
  have lb: "lb_wf ?m" "b_ynum ?m = s_lines s" "b_xnum ?m = s_columns s"
    using wf by (simp_all add: screen_wf_def lb_size_def)
  have i: "lb_wf ?i" "b_ynum ?i = s_lines s" "b_xnum ?i = s_columns s"
    using lb_size_ops(1) [of "s_columns s" "s_lines s" ?m 0 b] lb by (simp_all add: lb_size_def)
  have hwf: "history_wf h" "h_xnum h = s_columns s" using wf by (simp_all add: screen_wf_def h_def)
  obtain a h' where add: "historybuf_add_line (Some (pool_keys (s_pool s))) (s_ansi_active s) (linebuf_init_line ?i b) h = (a, h')"
    by (cases "historybuf_add_line (Some (pool_keys (s_pool s))) (s_ansi_active s) (linebuf_init_line ?i b) h")
  have l: "line_wf (linebuf_init_line ?i b)" "l_xnum (linebuf_init_line ?i b) = h_xnum h"
    using i b hwf by (simp_all add: linebuf_init_line_wf)
  note spec = historybuf_add_line_spec [OF hwf(1) l add]
  let ?k = "h_count h + 1 - h_ynum h"
  have hist: "s_historybuf (index_up 0 b s) = h'" and lbuf: "s_main_linebuf (index_up 0 b s) = linebuf_clear_line ?i b True"
    using main add by (simp_all add: index_up_def Let_def upd_linebuf_def index_graphics_def emit_def add_to_history_def
        s_linebuf_def h_def)
  from spec hist show "h_ynum (s_historybuf (index_up 0 b s)) = h_ynum h" by simp
  have cnt: "h_count h \<le> h_ynum h" using hwf(1) by (simp add: history_wf_def)
  have "length (h_lines h') = min (h_count h + 1) (h_ynum h)" using spec cnt by simp
  then show "h_count (s_historybuf (index_up 0 b s)) = min (h_count h + 1) (h_ynum h)" by (simp add: hist)
  obtain r ss where rb: "take (b + 1) (rows ?m) = r # ss"
    using b lb by (cases "take (b + 1) (rows ?m)") (auto dest: arg_cong [where f = length])
  have ls: "length ss = b" using arg_cong [OF rb, of length] b lb by simp
  have ri: "rows ?i = ss @ [r] @ drop (b + 1) (rows ?m)"
    using rows_index_single [of ?m b] lb b rb by (simp add: scroll_up_def slice_def)
  then have "cells_of (line_row (linebuf_init_line ?i b)) = cells_of r"
    using cells_init_line [of b ?i] b i ls by (simp add: nth_append)
  then have hl: "map cells_of (h_lines h') = drop ?k (map cells_of (h_lines h) @ [cells_of r])"
    using spec by (simp add: drop_map [symmetric] del: drop_append)
  have "rows (linebuf_clear_line ?i b True) = ss @ [blank_row (s_columns s) zero_line_attrs] @ drop (b + 1) (rows ?m)"
    using rows_clear_line [of ?i b] i b ls by (simp add: ri list_update_append)
  then have new: "map cells_of (rows (linebuf_clear_line ?i b True))
      = map cells_of ss @ [blank_cells (s_columns s)] @ drop (b + 1) rs"
    by (simp add: blank_cells_def cells_of_def blank_row_def rs_def drop_map)
  have "take (b + 1) rs = cells_of r # map cells_of ss" using rb by (simp add: rs_def take_map)
  moreover have "Suc 0 - h_ynum h = 0" using hwf(1) by (simp add: history_wf_def)
  ultimately show "screen_text (index_up 0 b s) = drop ?k
      (map cells_of (h_lines h) @ take (b + 1) rs @ [blank_cells (s_columns s)] @ drop (b + 1) rs)"
    using hl new by (simp add: screen_text_def hist lbuf)
qed

text \<open>
  C6: Scrolling the main screen up by n lines without margins only appends n blank lines to the
  text of the scrollback and the screen together, and drops lines at the old end of the scrollback
  only when it is full.
\<close>

theorem scrolling_keeps_text:
  assumes "screen_wf s" and "s_on_main s" and "s_margin_top s = 0" and "s_margin_bottom s = s_lines s - 1"
  shows "screen_text (screen_scroll n s)
       = drop (h_count (s_historybuf s) + n - h_ynum (s_historybuf s))
           (screen_text s @ replicate n (blank_cells (s_columns s)))"
  using assms
proof (induction n arbitrary: s)
  case 0
  have "h_count (s_historybuf s) \<le> h_ynum (s_historybuf s)" using 0(1) by (simp add: screen_wf_def history_wf_def)
  then show ?case by (simp add: screen_scroll_def)
next
  case (Suc n)
  let ?b = "s_lines s - 1" let ?s = "index_up 0 ?b s" let ?h = "s_historybuf s"
  have b: "?b < s_lines s" "?b + 1 = s_lines s" using wf_bounds(4) [OF Suc.prems(1)] by simp_all
  have wf: "screen_wf ?s" using Suc.prems(1) b by (simp add: index_up_wf)
  note t = index_up_text [OF Suc.prems(1-3) b(1)]
  have "b_ynum (s_main_linebuf s) = s_lines s" using Suc.prems(1) by (simp add: screen_wf_def lb_size_def)
  with t(1) b(2) have new_text: "screen_text ?s = drop (h_count ?h + 1 - h_ynum ?h) (screen_text s @ [blank_cells (s_columns s)])"
    by (simp add: screen_text_def)
  have le: "h_count ?h \<le> h_ynum ?h" "0 < h_ynum ?h" using Suc.prems(1) by (simp_all add: screen_wf_def history_wf_def)
  have "screen_text (screen_scroll n ?s)
      = drop (h_count (s_historybuf ?s) + n - h_ynum (s_historybuf ?s)) (screen_text ?s @ replicate n (blank_cells (s_columns s)))"
    using Suc.IH [OF wf] Suc.prems by simp
  also have "\<dots> = drop (h_count ?h + Suc n - h_ynum ?h) (screen_text s @ blank_cells (s_columns s) # replicate n (blank_cells (s_columns s)))"
  proof -
    let ?X = "screen_text s @ [blank_cells (s_columns s)]" and ?Y = "replicate n (blank_cells (s_columns s))"
    have "h_count ?h \<le> length (screen_text s)" by (simp add: screen_text_def)
    then have "drop (h_count ?h + 1 - h_ynum ?h) ?X @ ?Y = drop (h_count ?h + 1 - h_ynum ?h) (?X @ ?Y)"
      using le by simp
    then have "screen_text ?s @ ?Y = drop (h_count ?h + 1 - h_ynum ?h) (?X @ ?Y)" by (simp only: new_text)
    then have "drop (h_count (s_historybuf ?s) + n - h_ynum (s_historybuf ?s)) (screen_text ?s @ ?Y)
        = drop (min (h_count ?h + 1) (h_ynum ?h) + n - h_ynum ?h + (h_count ?h + 1 - h_ynum ?h)) (?X @ ?Y)"
      by (simp only: t(2,3) drop_drop)
    moreover have "min (h_count ?h + 1) (h_ynum ?h) + n - h_ynum ?h + (h_count ?h + 1 - h_ynum ?h) = h_count ?h + Suc n - h_ynum ?h"
      using le by linarith
    ultimately show ?thesis by simp
  qed
  finally show ?case using Suc.prems by (simp add: screen_scroll_def)
qed

lemma scrolling_keeps_text_witness:
  "screen_text (screen_scroll 2 example_screen)
     = drop (h_count (s_historybuf example_screen) + 2 - h_ynum (s_historybuf example_screen))
         (screen_text example_screen @ replicate 2 (blank_cells (s_columns example_screen)))"
  by (rule scrolling_keeps_text) (simp_all add: example_screen_wf example_screen_fields)

section \<open>Lines by their number\<close>

text \<open>\<^verbatim>\<open>init_line\<close>, and \<^verbatim>\<open>range_line_\<close>, for which a negative number is a line of the history.\<close>

definition init_line :: "screen \<Rightarrow> nat \<Rightarrow> cell_line" where
  "init_line s y =
     (let l = linebuf_init_line (s_linebuf s) y in
      if y = 0 \<and> s_on_main s \<and> history_buf_endswith_wrap (s_historybuf s)
      then l\<lparr>l_attrs := (l_attrs l)\<lparr>la_is_continued := True\<rparr>\<rparr> else l)"

definition range_line :: "screen \<Rightarrow> int \<Rightarrow> cell_line" where
  "range_line s y = (if y < 0 then historybuf_init_line (s_historybuf s) (nat (- (y + 1))) else init_line s (nat y))"

end
