(* ===== verification/Screen_Edit.thy ===== *)
theory Screen_Edit
  imports Screen_Scroll
begin

text \<open>
  Editing the screen (\<^verbatim>\<open>smelly/screen.c\<close>): erasing, inserting and deleting characters and lines, the
  alignment pattern and SGR codes, for the cursor and for regions of cells. A line that changes is
  marked dirty and drops the selections that touch it.
\<close>

section \<open>Operations\<close>

text \<open>The three statements after every change of the line \<open>y\<close>.\<close>

definition damage_line :: "nat \<Rightarrow> screen \<Rightarrow> screen" where
  "damage_line y s =
     (let s = s\<lparr>s_is_dirty := True\<rparr>;
          s = (if selection_has_screen_line (s_selections s) (int y)
               then s\<lparr>s_selections := clear_selection (s_selections s)\<rparr> else s)
      in upd_linebuf (\<lambda>b. linebuf_mark_line_dirty b y) s)"

definition screen_erase_in_line :: "nat \<Rightarrow> bool \<Rightarrow> screen \<Rightarrow> screen" where
  "screen_erase_in_line how private_mode s =
     (let (a, n) = (if how = 0 then (cx s, s_columns s - cx s)
                    else if how = 1 then (0, cx s + 1)
                    else if how = 2 then (0, s_columns s)
                    else (0, 0))
      in if n > 0 then
           damage_line (cy s)
             (edit_line (\<lambda>l. if private_mode then line_clear_text l a n BLANK_CHAR
                             else line_apply_cursor l (s_cursor s) a n True) (cy s) s)
         else s)"

definition screen_clear_scrollback :: "screen \<Rightarrow> screen" where
  "screen_clear_scrollback s =
     (let s = s\<lparr>s_historybuf := historybuf_clear (s_historybuf s)\<rparr>
      in if s_scrolled_by s \<noteq> 0 then s\<lparr>s_scrolled_by := 0, s_scroll_changed := True\<rparr> else s)"

definition erase_row :: "bool \<Rightarrow> nat \<Rightarrow> screen \<Rightarrow> screen" where
  "erase_row private_mode i s =
     (let s = (if private_mode
               then upd_linebuf (\<lambda>b. linebuf_set_last_char_as_continuation b i False)
                      (edit_line (\<lambda>l. line_clear_text l 0 (s_columns s) BLANK_CHAR) i s)
               else edit_line (\<lambda>l. line_apply_cursor l (s_cursor s) 0 (s_columns s) True) i s)
      in upd_linebuf (\<lambda>b. linebuf_clear_attrs_and_dirty b i) s)"

definition erase_rows :: "bool \<Rightarrow> nat \<Rightarrow> nat \<Rightarrow> screen \<Rightarrow> screen" where
  "erase_rows private_mode a b s =
     (if b > a then
        (let s = fold (erase_row private_mode) [a ..< b] s
         in s\<lparr>s_is_dirty := True, s_selections := clear_selection (s_selections s)\<rparr>)
      else s)"

definition screen_erase_in_display :: "nat \<Rightarrow> bool \<Rightarrow> screen \<Rightarrow> screen" where
  "screen_erase_in_display how private_mode s =
     (if how > 3 then s
      else
        (let s = (if how \<ge> 2 then emit (Grman_clear (s_on_main s) (how = 3)) s else s);
             (a, b) = (if how = 0 then (cy s + 1, s_lines s)
                       else if how = 1 then (0, cy s)
                       else (0, s_lines s));
             s = erase_rows private_mode a b s;
             s = (if how \<noteq> 2 then
                    (let s = screen_erase_in_line how private_mode s
                     in if how = 1 then upd_linebuf (\<lambda>b. linebuf_clear_attrs_and_dirty b (cy s)) s else s)
                  else s)
         in if how = 3 \<and> s_on_main s then screen_clear_scrollback s else s))"

abbreviation (input) at_least_one :: "nat \<Rightarrow> nat" where
  "at_least_one n \<equiv> (if n = 0 then 1 else n)"

definition edit_lines_at_cursor :: "(line_buf \<Rightarrow> nat \<Rightarrow> nat \<Rightarrow> nat \<Rightarrow> line_buf) \<Rightarrow> nat \<Rightarrow> screen \<Rightarrow> screen" where
  "edit_lines_at_cursor op n s =
     (if s_margin_top s \<le> cy s \<and> cy s \<le> s_margin_bottom s then
        (let s = upd_linebuf (\<lambda>b. op b (at_least_one n) (cy s) (s_margin_bottom s)) s
         in screen_carriage_return
              (s\<lparr>s_is_dirty := True, s_selections := clear_selection (s_selections s)\<rparr>))
      else s)"

definition screen_insert_lines :: "nat \<Rightarrow> screen \<Rightarrow> screen" where
  "screen_insert_lines n s = edit_lines_at_cursor linebuf_insert_lines n s"

definition screen_delete_lines :: "nat \<Rightarrow> screen \<Rightarrow> screen" where
  "screen_delete_lines n s = edit_lines_at_cursor linebuf_delete_lines n s"

definition screen_insert_characters :: "nat \<Rightarrow> screen \<Rightarrow> screen" where
  "screen_insert_characters n s =
     (if cy s \<le> s_lines s - 1 then
        (let x = cx s; num = min (s_columns s - x) (at_least_one n)
         in damage_line (cy s)
              (edit_line (\<lambda>l. line_apply_cursor (line_right_shift l x num) (s_cursor s) x num True) (cy s) s))
      else s)"

definition screen_delete_characters :: "nat \<Rightarrow> screen \<Rightarrow> screen" where
  "screen_delete_characters n s =
     (if cy s \<le> s_lines s - 1 then
        (let x = cx s; num = min (s_columns s - x) (at_least_one n)
         in damage_line (cy s)
              (edit_line (\<lambda>l. line_apply_cursor (left_shift_line l x num) (s_cursor s) (s_columns s - num) num True) (cy s) s))
      else s)"

definition screen_erase_characters :: "nat \<Rightarrow> screen \<Rightarrow> screen" where
  "screen_erase_characters n s =
     (let x = cx s; num = min (s_columns s - x) (at_least_one n)
      in damage_line (cy s) (edit_line (\<lambda>l. line_apply_cursor l (s_cursor s) x num True) (cy s) s))"

definition screen_align :: "screen \<Rightarrow> screen" where
  "screen_align s =
     (let s = s\<lparr>s_margin_top := 0, s_margin_bottom := s_lines s - 1\<rparr>
      in upd_linebuf (\<lambda>b. linebuf_clear b (ch CHR ''E'')) (screen_cursor_position 1 1 s))"

definition align_row :: "nat \<Rightarrow> screen \<Rightarrow> screen" where
  "align_row y s =
     upd_linebuf (\<lambda>b. linebuf_mark_line_dirty b y)
       (edit_line (\<lambda>l. line_clear_text l 0 (s_columns s) (ch CHR ''E'')) y s)"

definition screen_alignment_display :: "screen \<Rightarrow> screen" where
  "screen_alignment_display s =
     (let s = screen_cursor_position 1 1 s;
          s = s\<lparr>s_margin_top := 0, s_margin_bottom := s_lines s - 1\<rparr>
      in fold align_row [0 ..< s_lines s] s)"

section \<open>SGR\<close>

text \<open>The \<open>num\<close> cells at \<open>x\<close> of the line \<open>y\<close>. \<open>None\<close> would be a read outside the parameters.\<close>

definition sgr_on_line :: "int list \<Rightarrow> nat \<Rightarrow> nat \<Rightarrow> cell_line \<Rightarrow> cell_line" where
  "sgr_on_line params x num l =
     (case apply_sgr_to_cells (slice (l_gpu l) x num) params of
        Some cells \<Rightarrow> l\<lparr>l_gpu := take x (l_gpu l) @ cells @ drop (x + num) (l_gpu l)\<rparr>
      | None \<Rightarrow> l)"

text \<open>The bounds of the region in cells, from 0; additions and subtractions on \<^verbatim>\<open>unsigned int\<close> wrap around.\<close>

definition sgr_region :: "screen \<Rightarrow> region \<Rightarrow> region" where
  "sgr_region s r =
     (let wrap = (\<lambda>n. n mod 2 ^ 32);
          one = (\<lambda>n d. if n = 0 then d else n);
          m = (if mDECOM (s_modes s) then s_margin_top s else 0)
      in \<lparr>r_top = wrap (one (r_top r) 1 + m + (2 ^ 32 - 1)), r_left = one (r_left r) 1 - 1,
          r_bottom = wrap (one (r_bottom r) (s_lines s) + m + (2 ^ 32 - 1)),
          r_right = one (r_right r) (s_columns s) - 1\<rparr>)"

text \<open>The first column and the number of cells in line \<open>y\<close>: a rectangle, or a stream of characters.\<close>

definition sgr_columns :: "bool \<Rightarrow> nat \<Rightarrow> region \<Rightarrow> nat \<Rightarrow> nat \<times> nat" where
  "sgr_columns rectangle columns r y =
     (if rectangle then
        (let x = min (r_left r) (columns - 1); num = (if r_right r \<ge> x then r_right r - x + 1 else 0)
         in (x, min num (columns - x)))
      else if y = r_top r then (let x = min (r_left r) (columns - 1) in (x, columns - x))
      else if y = r_bottom r then (0, min (r_right r + 1) columns)
      else (0, columns))"

definition sgr_row :: "int list \<Rightarrow> region \<Rightarrow> nat \<Rightarrow> screen \<Rightarrow> screen" where
  "sgr_row params r y s =
     (let (x, num) = sgr_columns (mDECSACE (s_modes s)) (s_columns s) r y
      in edit_line (sgr_on_line params x num) y s)"

definition select_graphic_rendition :: "int list \<Rightarrow> region option \<Rightarrow> screen \<Rightarrow> screen" where
  "select_graphic_rendition params region s =
     (case region of
        Some r \<Rightarrow>
          (let r = sgr_region s r
           in fold (sgr_row params r) [r_top r ..< min ((r_bottom r + 1) mod 2 ^ 32) (s_lines s)] s)
      | None \<Rightarrow>
          (case cursor_from_sgr (s_cursor s) params of
             Some c \<Rightarrow> s\<lparr>s_cursor := c\<rparr> | None \<Rightarrow> s))"

section \<open>The invariant\<close>

lemma damage_line_frame [simp, frame_simps]:
  "s_columns (damage_line y s) = s_columns s" "s_lines (damage_line y s) = s_lines s"
  "s_cursor (damage_line y s) = s_cursor s" "s_modes (damage_line y s) = s_modes s"
  "s_margin_top (damage_line y s) = s_margin_top s" "s_margin_bottom (damage_line y s) = s_margin_bottom s"
  "s_dec (damage_line y s) = s_dec s" "s_main_savepoint (damage_line y s) = s_main_savepoint s"
  "s_alt_savepoint (damage_line y s) = s_alt_savepoint s" "s_on_main (damage_line y s) = s_on_main s"
  "s_historybuf (damage_line y s) = s_historybuf s"
  by (simp_all add: damage_line_def Let_def)

lemma update_attrs_size: "lb_size c l b \<Longrightarrow> lb_size c l (linebuf_mark_line_dirty b y)"
  "lb_size c l b \<Longrightarrow> lb_size c l (linebuf_clear_attrs_and_dirty b y)"
  by (simp_all add: linebuf_mark_line_dirty_def linebuf_clear_attrs_and_dirty_def lb_size_ops)

lemma damage_line_wf [wf_intros]: "screen_wf s \<Longrightarrow> screen_wf (damage_line y s)"
  by (simp add: damage_line_def Let_def upd_linebuf_wf update_attrs_size)

text \<open>What an operation on a line has to keep.\<close>

definition keeps_line :: "(cell_line \<Rightarrow> cell_line) \<Rightarrow> bool" where
  "keeps_line f = (\<forall>l. line_wf l \<longrightarrow> line_wf (f l) \<and> l_xnum (f l) = l_xnum l)"

lemma edit_line_keeps: "screen_wf s \<Longrightarrow> y < s_lines s \<Longrightarrow> keeps_line f \<Longrightarrow> screen_wf (edit_line f y s)"
  by (rule edit_line_wf) (auto simp: keeps_line_def)

lemma right_shift_loop_wf: "line_wf l \<Longrightarrow> line_wf (right_shift_loop n i num l) \<and> l_xnum (right_shift_loop n i num l) = l_xnum l"
  by (induction n i num l rule: right_shift_loop.induct) (simp_all add: line_ops_wf)

lemma left_shift_loop_wf: "line_wf l \<Longrightarrow> line_wf (left_shift_loop n i num l) \<and> l_xnum (left_shift_loop n i num l) = l_xnum l"
  by (induction n i num l rule: left_shift_loop.induct) (simp_all add: line_ops_wf)

lemma line_shifts_wf:
  "line_wf l \<Longrightarrow> line_wf (line_right_shift l x num) \<and> l_xnum (line_right_shift l x num) = l_xnum l"
  "line_wf l \<Longrightarrow> line_wf (left_shift_line l x num) \<and> l_xnum (left_shift_line l x num) = l_xnum l"
  using right_shift_loop_wf [of l "l_xnum l - (x + num)" "l_xnum l - 1" num]
    left_shift_loop_wf [of l "l_xnum l - num - x" x num]
  by (auto simp: line_right_shift_def left_shift_line_def Let_def line_ops_wf)

lemma cell_sgr_length:
  "cell_set_color upd params i cells = Some (j, cells') \<Longrightarrow> length cells' = length cells"
  "cell_sgr_step params i cells = Some (j, cells') \<Longrightarrow> length cells' = length cells"
  "cell_sgr_loop params i cells = Some cells' \<Longrightarrow> length cells' = length cells"
proof -
  show c: "length cells' = length cells" if "cell_set_color upd params i cells = Some (j, cells')" for upd params i j cells cells'
    using that by (auto simp: cell_set_color_def Option.bind_eq_Some_conv split: if_splits)
  show s: "length cells' = length cells" if "cell_sgr_step params i cells = Some (j, cells')" for params i j cells cells'
    using that unfolding cell_sgr_step_def
    by (auto simp: Let_def Option.bind_eq_Some_conv dest: c split: if_splits)
  show "length cells' = length cells" if "cell_sgr_loop params i cells = Some cells'"
    using that
  proof (induction params i cells arbitrary: cells' rule: cell_sgr_loop.induct)
    case (1 params i cells)
    show ?case
    proof (cases "i < length params")
      case True
      then obtain j c where jc: "cell_sgr_step params i cells = Some (j, c)" "cell_sgr_loop params j c = Some cells'"
        using "1.prems" cell_sgr_loop.simps [of params i cells] by (auto split: option.splits)
      from "1.IH" [OF True jc(1) refl jc(2)] s [OF jc(1)] show ?thesis by simp
    qed (use "1.prems" cell_sgr_loop.simps [of params i cells] in simp)
  qed
qed

lemma sgr_on_line_keeps [wf_intros]: "keeps_line (sgr_on_line params x num)"
  by (auto simp: keeps_line_def sgr_on_line_def line_wf_def apply_sgr_to_cells_def slice_def
      dest!: cell_sgr_length(3) split: option.splits)

lemma cursor_sgr_position:
  assumes "cursor_sgr_step params i c = Some (j, c')"
  shows "c_x c' = c_x c \<and> c_y c' = c_y c"
proof -
  let ?Q = "\<lambda>(j :: nat, c'). c_x c' = c_x c \<and> c_y c' = c_y c"
  have "pred_option ?Q (cursor_sgr_step params i c)"
    unfolding cursor_sgr_step_def
    by (cases "read_param params i")
      (simp_all add: Let_def if_distrib [of "pred_option ?Q"] option.pred_map option.pred_True comp_def case_prod_unfold
        cursor_reset_display_attrs_def)
  with assms show ?thesis by simp
qed

lemma cursor_from_sgr_position:
  "cursor_from_sgr c params = Some c' \<Longrightarrow> c_x c' = c_x c \<and> c_y c' = c_y c"
proof -
  have "cursor_sgr_loop params i c = Some c' \<Longrightarrow> c_x c' = c_x c \<and> c_y c' = c_y c" for params i
  proof (induction params i c arbitrary: c' rule: cursor_sgr_loop.induct)
    case (1 params i c)
    show ?case
    proof (cases "i < length params")
      case True
      then obtain j d where jd: "cursor_sgr_step params i c = Some (j, d)" "cursor_sgr_loop params j d = Some c'"
        using "1.prems" cursor_sgr_loop.simps [of params i c] by (auto split: option.splits)
      from "1.IH" [OF True jd(1) refl jd(2)] cursor_sgr_position [OF jd(1)] show ?thesis by simp
    qed (use "1.prems" cursor_sgr_loop.simps [of params i c] in simp)
  qed
  then show "cursor_from_sgr c params = Some c' \<Longrightarrow> c_x c' = c_x c \<and> c_y c' = c_y c"
    by (simp add: cursor_from_sgr_def)
qed

text \<open>The operations on lines.\<close>

lemma keeps_line_ops [wf_intros]:
  "keeps_line (\<lambda>l. line_clear_text l a n char)" "keeps_line (\<lambda>l. line_apply_cursor l c a n clear)"
  "keeps_line (\<lambda>l. if p then line_clear_text l a n char else line_apply_cursor l c a n clear)"
  "keeps_line (\<lambda>l. line_apply_cursor (line_right_shift l x num) c a n clear)"
  "keeps_line (\<lambda>l. line_apply_cursor (left_shift_line l x num) c a n clear)"
  by (auto simp: keeps_line_def line_ops_wf line_shifts_wf)

text \<open>A loop over lines.\<close>

lemma fold_lines_wf:
  assumes "screen_wf s" "\<And>s y. screen_wf s \<Longrightarrow> y < s_lines s \<Longrightarrow> screen_wf (f y s) \<and> s_lines (f y s) = s_lines s"
    "\<forall>y \<in> set ys. y < s_lines s"
  shows "screen_wf (fold f ys s) \<and> s_lines (fold f ys s) = s_lines s"
  using assms
proof (induction ys arbitrary: s)
  case (Cons y ys)
  then have "screen_wf (f y s)" "s_lines (f y s) = s_lines s" by auto
  with Cons show ?case by simp
qed simp

lemma screen_erase_in_line_wf [wf_intros]: "screen_wf s \<Longrightarrow> screen_wf (screen_erase_in_line how p s)"
  by (auto simp: screen_erase_in_line_def Let_def split: prod.splits intro!: damage_line_wf edit_line_keeps keeps_line_ops wf_bounds)

lemma screen_erase_in_line_frame [simp]:
  "s_lines (screen_erase_in_line how p s) = s_lines s" "s_on_main (screen_erase_in_line how p s) = s_on_main s"
  "s_cursor (screen_erase_in_line how p s) = s_cursor s"
  by (auto simp: screen_erase_in_line_def Let_def split: prod.splits)

lemma erase_row_wf:
  assumes "screen_wf s" "y < s_lines s"
  shows "screen_wf (erase_row p y s) \<and> s_lines (erase_row p y s) = s_lines s"
proof -
  have "screen_wf (edit_line f y s)" if "keeps_line f" for f using assms that by (rule edit_line_keeps)
  then show ?thesis
    by (simp add: erase_row_def Let_def) (intro conjI impI upd_linebuf_wf lb_size_ops update_attrs_size; simp add: keeps_line_ops)
qed

lemma erase_row_frame [simp]:
  "s_on_main (erase_row p y s) = s_on_main s" "s_cursor (erase_row p y s) = s_cursor s"
  by (simp_all add: erase_row_def Let_def)

lemma erase_rows_wf:
  "screen_wf s \<Longrightarrow> b \<le> s_lines s \<Longrightarrow> screen_wf (erase_rows p a b s) \<and> s_lines (erase_rows p a b s) = s_lines s"
  using fold_lines_wf [of s "erase_row p" "[a ..< b]"] erase_row_wf by (auto simp: erase_rows_def Let_def)

lemma erase_rows_frame [simp]:
  "s_on_main (erase_rows p a b s) = s_on_main s" "s_cursor (erase_rows p a b s) = s_cursor s"
proof -
  have "s_on_main (fold (erase_row p) ys s) = s_on_main s \<and> s_cursor (fold (erase_row p) ys s) = s_cursor s" for ys
    by (induction ys arbitrary: s) auto
  then show "s_on_main (erase_rows p a b s) = s_on_main s" "s_cursor (erase_rows p a b s) = s_cursor s"
    by (simp_all add: erase_rows_def Let_def)
qed

lemma screen_clear_scrollback_wf [wf_intros]: "screen_wf s \<Longrightarrow> screen_wf (screen_clear_scrollback s)"
proof -
  assume wf: "screen_wf s"
  then have "screen_wf (s\<lparr>s_historybuf := historybuf_clear (s_historybuf s)\<rparr>)"
    using historybuf_clear_wf [of "s_historybuf s"]
    by (simp add: screen_wf_def) (simp add: historybuf_clear_def pagerhist_clear_def)
  then show ?thesis by (simp add: screen_clear_scrollback_def Let_def)
qed

lemma screen_erase_in_display_wf [wf_intros]:
  assumes "screen_wf s"
  shows "screen_wf (screen_erase_in_display how p s)"
proof -
  define s1 where "s1 = (if how \<ge> 2 then emit (Grman_clear (s_on_main s) (how = 3)) s else s)"
  define a where "a = (if how = 0 then cy s1 + 1 else 0)"
  define b where "b = (if how = 1 then cy s1 else s_lines s1)"
  define s2 where "s2 = erase_rows p a b s1"
  define s3 where "s3 = screen_erase_in_line how p s2"
  have s1: "screen_wf s1" using assms by (simp add: s1_def)
  then have "b \<le> s_lines s1" using wf_bounds(7) [OF s1] by (simp add: b_def)
  with s1 have s2: "screen_wf s2" using erase_rows_wf by (simp add: s2_def)
  then have s3: "screen_wf s3" by (simp add: s3_def screen_erase_in_line_wf)
  then have s3': "screen_wf (upd_linebuf (\<lambda>b. linebuf_clear_attrs_and_dirty b (cy s3)) s3)"
    by (rule upd_linebuf_wf) (rule update_attrs_size)
  have "screen_erase_in_display how p s =
      (if how > 3 then s
       else (let s4 = (if how \<noteq> 2 then
                    (if how = 1 then upd_linebuf (\<lambda>b. linebuf_clear_attrs_and_dirty b (cy s3)) s3 else s3)
                  else s2)
             in if how = 3 \<and> s_on_main s4 then screen_clear_scrollback s4 else s4))"
    by (simp add: screen_erase_in_display_def Let_def s1_def s2_def s3_def a_def b_def split: prod.splits) auto
  with assms s2 s3 s3' show ?thesis by (auto simp: Let_def intro: screen_clear_scrollback_wf)
qed

lemma lines_ops_size:
  "lb_size c l b \<Longrightarrow> lb_size c l (linebuf_insert_lines b num y hi)"
  "lb_size c l b \<Longrightarrow> l \<le> 50000 \<Longrightarrow> lb_size c l (linebuf_delete_lines b num y hi)"
  using linebuf_insert_lines_wf [of b num y hi] linebuf_delete_lines_wf [of b num y hi]
  by (auto simp: lb_size_def linebuf_insert_lines_def linebuf_delete_lines_def Let_def clear_rows_loop_frame)

lemma edit_lines_at_cursor_wf:
  assumes "screen_wf s" "\<And>b num y hi. lb_size (s_columns s) (s_lines s) b \<Longrightarrow> lb_size (s_columns s) (s_lines s) (op b num y hi)"
  shows "screen_wf (edit_lines_at_cursor op n s)"
  unfolding edit_lines_at_cursor_def Let_def
  using assms by (auto intro!: screen_cursor_ops_wf upd_linebuf_wf)

lemma screen_lines_ops_wf [wf_intros]:
  "screen_wf s \<Longrightarrow> screen_wf (screen_insert_lines n s)" "screen_wf s \<Longrightarrow> screen_wf (screen_delete_lines n s)"
  by (simp_all add: screen_insert_lines_def screen_delete_lines_def edit_lines_at_cursor_wf lines_ops_size wf_bounds)

lemma screen_characters_ops_wf [wf_intros]:
  "screen_wf s \<Longrightarrow> screen_wf (screen_insert_characters n s)"
  "screen_wf s \<Longrightarrow> screen_wf (screen_delete_characters n s)"
  "screen_wf s \<Longrightarrow> screen_wf (screen_erase_characters n s)"
  unfolding screen_insert_characters_def screen_delete_characters_def screen_erase_characters_def Let_def
  by (simp_all add: damage_line_wf edit_line_keeps keeps_line_ops wf_bounds)

lemma full_margins_wf: "screen_wf s \<Longrightarrow> screen_wf (s\<lparr>s_margin_top := 0, s_margin_bottom := s_lines s - 1\<rparr>)"
  using wf_bounds(4) [of s] by (simp add: margins_wf)

lemma screen_align_wf [wf_intros]: "screen_wf s \<Longrightarrow> screen_wf (screen_align s)"
  unfolding screen_align_def Let_def
  by (intro upd_linebuf_wf lb_size_ops screen_cursor_ops_wf full_margins_wf)

lemma align_row_wf: "screen_wf s \<Longrightarrow> y < s_lines s \<Longrightarrow> screen_wf (align_row y s) \<and> s_lines (align_row y s) = s_lines s"
  unfolding align_row_def
  by (intro conjI upd_linebuf_wf update_attrs_size edit_line_keeps keeps_line_ops) simp_all

lemma screen_alignment_display_wf [wf_intros]:
  assumes "screen_wf s"
  shows "screen_wf (screen_alignment_display s)"
proof -
  let ?s = "screen_cursor_position 1 1 s"
  have "screen_wf (?s\<lparr>s_margin_top := 0, s_margin_bottom := s_lines ?s - 1\<rparr>)"
    using assms by (intro full_margins_wf screen_cursor_ops_wf)
  from fold_lines_wf [OF this, of align_row "[0 ..< s_lines ?s]"] align_row_wf
  show ?thesis by (simp add: screen_alignment_display_def Let_def)
qed

lemma sgr_row_wf: "screen_wf s \<Longrightarrow> y < s_lines s \<Longrightarrow> screen_wf (sgr_row params r y s) \<and> s_lines (sgr_row params r y s) = s_lines s"
  by (simp add: sgr_row_def edit_line_keeps sgr_on_line_keeps split: prod.splits)

lemma select_graphic_rendition_wf [wf_intros]:
  assumes "screen_wf s"
  shows "screen_wf (select_graphic_rendition params region s)"
proof (cases region)
  case None
  have "screen_wf (s\<lparr>s_cursor := c\<rparr>)" if "c_x c = cx s" "c_y c = cy s" for c
    using assms that by (simp add: screen_wf_def)
  with assms None show ?thesis
    by (auto simp: select_graphic_rendition_def dest: cursor_from_sgr_position split: option.splits)
next
  case (Some r)
  have "screen_wf (fold (sgr_row params r) [t ..< min b (s_lines s)] s)" for r t b
    using fold_lines_wf [OF assms, of "sgr_row params r" "[t ..< min b (s_lines s)]"] sgr_row_wf by auto
  with Some show ?thesis by (simp add: select_graphic_rendition_def Let_def)
qed

end
