(* ===== verification/Screen_Modes.thy ===== *)
theory Screen_Modes
  imports Screen_Edit
begin

text \<open>
  Modes of \<^verbatim>\<open>smelly/screen.c\<close> with the numbers of \<^verbatim>\<open>smelly/modes.h\<close>: setting, saving and restoring modes,
  the saved cursor, the alternate screen, the stack of key encoding flags and the reset of the
  terminal.
\<close>

section \<open>The numbers of the modes\<close>

text \<open>Private modes are shifted left by five bits.\<close>

definition mode_number :: "nat \<Rightarrow> nat" where
  "mode_number n = n * 2 ^ 5"

abbreviation "LNM \<equiv> 20 :: nat"
abbreviation "IRM \<equiv> 4 :: nat"
abbreviation "DECCKM \<equiv> mode_number 1"
abbreviation "DECCOLM \<equiv> mode_number 3"
abbreviation "DECSCLM \<equiv> mode_number 4"
abbreviation "DECSCNM \<equiv> mode_number 5"
abbreviation "DECOM \<equiv> mode_number 6"
abbreviation "DECAWM \<equiv> mode_number 7"
abbreviation "DECARM \<equiv> mode_number 8"
abbreviation "CONTROL_CURSOR_BLINK \<equiv> mode_number 12"
abbreviation "DECTCEM \<equiv> mode_number 25"
abbreviation "DECNRCM \<equiv> mode_number 42"
abbreviation "MOUSE_BUTTON_TRACKING \<equiv> mode_number 1000"
abbreviation "MOUSE_MOTION_TRACKING \<equiv> mode_number 1002"
abbreviation "MOUSE_MOVE_TRACKING \<equiv> mode_number 1003"
abbreviation "FOCUS_TRACKING \<equiv> mode_number 1004"
abbreviation "MOUSE_UTF8_MODE \<equiv> mode_number 1005"
abbreviation "MOUSE_SGR_MODE \<equiv> mode_number 1006"
abbreviation "MOUSE_URXVT_MODE \<equiv> mode_number 1015"
abbreviation "MOUSE_SGR_PIXEL_MODE \<equiv> mode_number 1016"
abbreviation "SAVE_CURSOR \<equiv> mode_number 1048"
abbreviation "TOGGLE_ALT_SCREEN_1 \<equiv> mode_number 47"
abbreviation "TOGGLE_ALT_SCREEN_2 \<equiv> mode_number 1047"
abbreviation "ALTERNATE_SCREEN \<equiv> mode_number 1049"
abbreviation "BRACKETED_PASTE \<equiv> mode_number 2004"
abbreviation "PENDING_UPDATE \<equiv> mode_number 2026"
abbreviation "HANDLE_TERMIOS_SIGNALS \<equiv> mode_number 19997"

section \<open>Setting a mode\<close>

abbreviation upd_modes :: "(screen_modes \<Rightarrow> screen_modes) \<Rightarrow> screen \<Rightarrow> screen" where
  "upd_modes f s \<equiv> s\<lparr>s_modes := f (s_modes s)\<rparr>"

text \<open>\<open>SIMPLE_MODE\<close> and \<open>MOUSE_MODE\<close>, and the modes that only store a flag.\<close>

definition set_flag_mode :: "nat \<Rightarrow> bool \<Rightarrow> screen_modes \<Rightarrow> screen_modes option" where
  "set_flag_mode mode val m =
     (if mode = LNM then Some (m\<lparr>mLNM := val\<rparr>)
      else if mode = IRM then Some (m\<lparr>mIRM := val\<rparr>)
      else if mode = DECARM then Some (m\<lparr>mDECARM := val\<rparr>)
      else if mode = BRACKETED_PASTE then Some (m\<lparr>mBRACKETED_PASTE := val\<rparr>)
      else if mode = FOCUS_TRACKING then Some (m\<lparr>mFOCUS_TRACKING := val\<rparr>)
      else if mode = HANDLE_TERMIOS_SIGNALS then Some (m\<lparr>mHANDLE_TERMIOS_SIGNALS := val\<rparr>)
      else if mode = MOUSE_BUTTON_TRACKING then Some (m\<lparr>mouse_mode := if val then BUTTON_MODE else NO_TRACKING\<rparr>)
      else if mode = MOUSE_MOTION_TRACKING then Some (m\<lparr>mouse_mode := if val then MOTION_MODE else NO_TRACKING\<rparr>)
      else if mode = MOUSE_MOVE_TRACKING then Some (m\<lparr>mouse_mode := if val then ANY_MODE else NO_TRACKING\<rparr>)
      else if mode = MOUSE_UTF8_MODE then Some (m\<lparr>mouse_protocol := if val then UTF8_PROTOCOL else NORMAL_PROTOCOL\<rparr>)
      else if mode = MOUSE_SGR_MODE then Some (m\<lparr>mouse_protocol := if val then SGR_PROTOCOL else NORMAL_PROTOCOL\<rparr>)
      else if mode = MOUSE_SGR_PIXEL_MODE
        then Some (m\<lparr>mouse_protocol := if val then SGR_PIXEL_PROTOCOL else NORMAL_PROTOCOL\<rparr>)
      else if mode = MOUSE_URXVT_MODE then Some (m\<lparr>mouse_protocol := if val then URXVT_PROTOCOL else NORMAL_PROTOCOL\<rparr>)
      else if mode = DECSCLM \<or> mode = DECNRCM then Some m
      else if mode = DECCKM then Some (m\<lparr>mDECCKM := val\<rparr>)
      else if mode = DECTCEM then Some (m\<lparr>mDECTCEM := val\<rparr>)
      else if mode = DECAWM then Some (m\<lparr>mDECAWM := val\<rparr>)
      else None)"

text \<open>The pending mode of synchronized updates.\<close>

definition set_pending_mode :: "bool \<Rightarrow> screen \<Rightarrow> screen" where
  "set_pending_mode val s =
     (if val then s\<lparr>s_dec := (s_dec s)\<lparr>pending_activated_at := now_monotonic (s_dec s)\<rparr>\<rparr>
      else if pending_activated_at (s_dec s) = 0 then emit Log_error s
      else s\<lparr>s_dec := (s_dec s)\<lparr>pending_activated_at := 0\<rparr>\<rparr>)"

text \<open>\<^verbatim>\<open>set_mode_from_const\<close>, but for the modes that save the cursor or change the screen.\<close>

definition set_basic_mode :: "nat \<Rightarrow> bool \<Rightarrow> screen \<Rightarrow> screen" where
  "set_basic_mode mode val s =
     (case set_flag_mode mode val (s_modes s) of
        Some m \<Rightarrow> s\<lparr>s_modes := m\<rparr>
      | None \<Rightarrow>
          if mode = DECSCNM then
            (if mDECSCNM (s_modes s) \<noteq> val then (upd_modes (\<lambda>m. m\<lparr>mDECSCNM := val\<rparr>) s)\<lparr>s_is_dirty := True\<rparr> else s)
          else if mode = DECOM then screen_cursor_position 1 1 (upd_modes (\<lambda>m. m\<lparr>mDECOM := val\<rparr>) s)
          else if mode = DECCOLM then
            (let s = upd_modes (\<lambda>m. m\<lparr>mDECCOLM := val\<rparr>) s
             in if val then screen_cursor_position 1 1 (screen_erase_in_display 2 False s) else s)
          else if mode = CONTROL_CURSOR_BLINK then upd_cursor (\<lambda>c. c\<lparr>c_non_blinking := \<not> val\<rparr>) s
          else if mode = PENDING_UPDATE then set_pending_mode val s
          else emit Log_error s)"

section \<open>The saved cursor\<close>

definition upd_savepoint :: "(savepoint \<Rightarrow> savepoint) \<Rightarrow> screen \<Rightarrow> screen" where
  "upd_savepoint f s =
     (if s_on_main s then s\<lparr>s_main_savepoint := f (s_main_savepoint s)\<rparr>
      else s\<lparr>s_alt_savepoint := f (s_alt_savepoint s)\<rparr>)"

definition s_savepoint :: "screen \<Rightarrow> savepoint" where
  "s_savepoint s = (if s_on_main s then s_main_savepoint s else s_alt_savepoint s)"

definition screen_save_cursor :: "screen \<Rightarrow> screen" where
  "screen_save_cursor s =
     upd_savepoint (\<lambda>sp.
       \<lparr>sp_utf8_state = utf8_state (s_dec s), sp_utf8_codepoint = utf8_codepoint (s_dec s),
        sp_g0 = cs_g0 (s_charsets s), sp_g1 = cs_g1 (s_charsets s), sp_current = cs_current (s_charsets s),
        sp_use_latin1 = use_latin1 (s_dec s), sp_cursor = cursor_copy_to (s_cursor s) (sp_cursor sp),
        sp_mDECOM = mDECOM (s_modes s), sp_mDECAWM = mDECAWM (s_modes s), sp_mDECSCNM = mDECSCNM (s_modes s),
        sp_is_valid = True\<rparr>) s"

text \<open>\<^verbatim>\<open>COPY_CHARSETS(sp, self)\<close> and the choice of \<^verbatim>\<open>g_charset\<close>.\<close>

definition load_charsets :: "savepoint \<Rightarrow> screen \<Rightarrow> screen" where
  "load_charsets sp s =
     s\<lparr>s_dec := (s_dec s)\<lparr>utf8_state := sp_utf8_state sp, utf8_codepoint := sp_utf8_codepoint sp,
         use_latin1 := sp_use_latin1 sp\<rparr>,
       s_charsets := \<lparr>cs_g0 = sp_g0 sp, cs_g1 = sp_g1 sp,
         cs_g = (if sp_current sp \<noteq> 0 then sp_g1 sp else sp_g0 sp), cs_current = sp_current sp\<rparr>\<rparr>"

definition screen_restore_cursor :: "screen \<Rightarrow> screen" where
  "screen_restore_cursor s =
     (let sp = s_savepoint s in
      if \<not> sp_is_valid sp then
        set_basic_mode DECSCNM False
          (RESET_CHARSETS (set_basic_mode DECOM False (screen_cursor_position 1 1 s)))
      else
        (let s = load_charsets sp s;
             s = set_basic_mode DECOM (sp_mDECOM sp) s;
             s = set_basic_mode DECAWM (sp_mDECAWM sp) s;
             s = set_basic_mode DECSCNM (sp_mDECSCNM sp) s;
             s = s\<lparr>s_cursor := cursor_copy_to (sp_cursor sp) (s_cursor s)\<rparr>
         in screen_ensure_bounds False False s))"

section \<open>The alternate screen\<close>

definition screen_toggle_screen_buffer :: "bool \<Rightarrow> bool \<Rightarrow> screen \<Rightarrow> screen" where
  "screen_toggle_screen_buffer save_cursor clear_alt_screen s =
     (let to_alt = s_on_main s;
          s = s\<lparr>s_active_hyperlink_id := 0\<rparr>;
          s = (if to_alt then
                 (let s = (if clear_alt_screen
                           then emit (Grman_clear False True)
                                  (s\<lparr>s_alt_linebuf := linebuf_clear (s_alt_linebuf s) BLANK_CHAR\<rparr>) else s);
                      s = (if save_cursor then screen_save_cursor s else s);
                      s = screen_cursor_position 1 1 (s\<lparr>s_on_main := False, s_tabs_main := False\<rparr>)
                  in upd_cursor cursor_reset s)
               else
                 (let s = s\<lparr>s_on_main := True, s_tabs_main := True\<rparr>
                  in if save_cursor then screen_restore_cursor s else s));
          s = snd (screen_history_scroll SCROLL_FULL False s)
      in s\<lparr>s_is_dirty := True, s_selections := clear_selection (s_selections s)\<rparr>)"

definition set_mode_from_const :: "nat \<Rightarrow> bool \<Rightarrow> screen \<Rightarrow> screen" where
  "set_mode_from_const mode val s =
     (if mode = SAVE_CURSOR then screen_save_cursor s
      else if mode = TOGGLE_ALT_SCREEN_1 \<or> mode = TOGGLE_ALT_SCREEN_2 \<or> mode = ALTERNATE_SCREEN then
        (if val \<and> s_on_main s then screen_toggle_screen_buffer (mode = ALTERNATE_SCREEN) (mode = ALTERNATE_SCREEN) s
         else if \<not> val \<and> \<not> s_on_main s then
           screen_toggle_screen_buffer (mode = ALTERNATE_SCREEN) (mode = ALTERNATE_SCREEN) s
         else s)
      else set_basic_mode mode val s)"

definition screen_set_mode :: "nat \<Rightarrow> screen \<Rightarrow> screen" where
  "screen_set_mode mode s = set_mode_from_const mode True s"

definition screen_reset_mode :: "nat \<Rightarrow> screen \<Rightarrow> screen" where
  "screen_reset_mode mode s = set_mode_from_const mode False s"

definition screen_decsace :: "nat \<Rightarrow> screen \<Rightarrow> screen" where
  "screen_decsace val s = upd_modes (\<lambda>m. m\<lparr>mDECSACE := val = 2\<rparr>) s"

definition screen_set_8bit_controls :: "bool \<Rightarrow> screen \<Rightarrow> screen" where
  "screen_set_8bit_controls yes s = upd_modes (\<lambda>m. m\<lparr>eight_bit_controls := yes\<rparr>) s"

section \<open>Saving and restoring modes\<close>

text \<open>The fields \<^verbatim>\<open>copy_specific_mode\<close> copies.\<close>

definition copy_mode_field :: "nat \<Rightarrow> screen_modes \<Rightarrow> screen_modes \<Rightarrow> screen_modes" where
  "copy_mode_field mode src dest =
     (if mode = LNM then dest\<lparr>mLNM := mLNM src\<rparr>
      else if mode = IRM then dest\<lparr>mIRM := mIRM src\<rparr>
      else if mode = DECARM then dest\<lparr>mDECARM := mDECARM src\<rparr>
      else if mode = BRACKETED_PASTE then dest\<lparr>mBRACKETED_PASTE := mBRACKETED_PASTE src\<rparr>
      else if mode = FOCUS_TRACKING then dest\<lparr>mFOCUS_TRACKING := mFOCUS_TRACKING src\<rparr>
      else if mode = DECCKM then dest\<lparr>mDECCKM := mDECCKM src\<rparr>
      else if mode = DECTCEM then dest\<lparr>mDECTCEM := mDECTCEM src\<rparr>
      else if mode = DECAWM then dest\<lparr>mDECAWM := mDECAWM src\<rparr>
      else if mode = MOUSE_BUTTON_TRACKING \<or> mode = MOUSE_MOTION_TRACKING \<or> mode = MOUSE_MOVE_TRACKING
        then dest\<lparr>mouse_mode := mouse_mode src\<rparr>
      else if mode = MOUSE_UTF8_MODE \<or> mode = MOUSE_SGR_MODE \<or> mode = MOUSE_URXVT_MODE
        then dest\<lparr>mouse_protocol := mouse_protocol src\<rparr>
      else if mode = DECSCNM then dest\<lparr>mDECSCNM := mDECSCNM src\<rparr>
      else if mode = DECOM then dest\<lparr>mDECOM := mDECOM src\<rparr>
      else if mode = DECCOLM then dest\<lparr>mDECCOLM := mDECCOLM src\<rparr>
      else dest)"

text \<open>\<^verbatim>\<open>copy_specific_mode\<close> without and with side effects.\<close>

definition screen_save_mode :: "nat \<Rightarrow> screen \<Rightarrow> screen" where
  "screen_save_mode mode s = s\<lparr>s_saved_modes := copy_mode_field mode (s_modes s) (s_saved_modes s)\<rparr>"

definition screen_restore_mode :: "nat \<Rightarrow> screen \<Rightarrow> screen" where
  "screen_restore_mode mode s =
     (let src = s_saved_modes s in
      if mode = DECTCEM then set_mode_from_const DECTCEM (mDECTCEM src) s
      else if mode = DECOM then set_mode_from_const DECOM (mDECOM src) s
      else if mode = DECCOLM then set_mode_from_const DECCOLM (mDECCOLM src) s
      else
        (let s' = s\<lparr>s_modes := copy_mode_field mode src (s_modes s)\<rparr>
         in if mode = DECSCNM \<and> mDECSCNM (s_modes s) \<noteq> mDECSCNM src then s'\<lparr>s_is_dirty := True\<rparr> else s'))"

definition specific_modes :: "nat list" where
  "specific_modes = [LNM, IRM, DECARM, BRACKETED_PASTE, FOCUS_TRACKING, DECCKM, DECTCEM, DECAWM,
     MOUSE_BUTTON_TRACKING, MOUSE_UTF8_MODE, DECSCNM]"

definition screen_save_modes :: "screen \<Rightarrow> screen" where
  "screen_save_modes s = fold screen_save_mode specific_modes s"

definition screen_restore_modes :: "screen \<Rightarrow> screen" where
  "screen_restore_modes s = fold screen_restore_mode specific_modes s"

section \<open>Key encoding flags\<close>

definition s_keys :: "screen \<Rightarrow> u8 list" where
  "s_keys s = (if s_on_main s then s_main_keys s else s_alt_keys s)"

definition upd_keys :: "(u8 list \<Rightarrow> u8 list) \<Rightarrow> screen \<Rightarrow> screen" where
  "upd_keys f s =
     (if s_on_main s then s\<lparr>s_main_keys := f (s_main_keys s)\<rparr> else s\<lparr>s_alt_keys := f (s_alt_keys s)\<rparr>)"

definition screen_current_key_encoding_flags :: "screen \<Rightarrow> u8" where
  "screen_current_key_encoding_flags s = current_key_flags (s_keys s)"

definition screen_set_key_encoding_flags :: "nat \<Rightarrow> nat \<Rightarrow> screen \<Rightarrow> screen" where
  "screen_set_key_encoding_flags val how s = upd_keys (set_keys val how) s"

definition screen_push_key_encoding_flags :: "nat \<Rightarrow> screen \<Rightarrow> screen" where
  "screen_push_key_encoding_flags val s = upd_keys (push_keys val) s"

definition screen_pop_key_encoding_flags :: "nat \<Rightarrow> screen \<Rightarrow> screen" where
  "screen_pop_key_encoding_flags n s = upd_keys (\<lambda>ks. pop_keys n (length ks) ks) s"

section \<open>Reset\<close>

definition reset_overridden_colors :: "color_profile \<Rightarrow> color_profile" where
  "reset_overridden_colors c =
     (let z = zero_dynamic_color
      in c\<lparr>overridden := (overridden c)\<lparr>default_fg := z, default_bg := z, cursor_color := z,
             highlight_fg := z, highlight_bg := z\<rparr>\<rparr>)"

definition screen_reset :: "screen \<Rightarrow> screen" where
  "screen_reset s =
     (let s = (if \<not> s_on_main s then screen_toggle_screen_buffer True True s else s);
          s = s\<lparr>s_last_reported_cwd := None, s_main_keys := replicate 8 0, s_alt_keys := replicate 8 0,
                s_redraws_prompts := False, s_last_graphic_char := 0,
                s_main_savepoint := (s_main_savepoint s)\<lparr>sp_is_valid := False\<rparr>,
                s_alt_savepoint := (s_alt_savepoint s)\<lparr>sp_is_valid := False\<rparr>\<rparr>;
          s = upd_linebuf (\<lambda>b. linebuf_clear b BLANK_CHAR) s;
          s = s\<lparr>s_historybuf := historybuf_clear (s_historybuf s), s_pool := clear_pool (s_pool s)\<rparr>;
          s = emit (Grman_clear (s_on_main s) False) s;
          s = s\<lparr>s_modes := empty_modes, s_saved_modes := empty_modes, s_active_hyperlink_id := 0,
                s_color_profile := reset_overridden_colors (s_color_profile s)\<rparr>;
          s = RESET_CHARSETS s;
          s = s\<lparr>s_margin_top := 0, s_margin_bottom := s_lines s - 1,
                s_main_tabstops := init_tabstops (s_columns s),
                s_alt_tabstops := init_tabstops (s_columns s)\<rparr>;
          s = upd_cursor cursor_reset s;
          s = s\<lparr>s_is_dirty := True, s_selections := clear_selection (s_selections s),
                s_url_ranges := clear_selection (s_url_ranges s)\<rparr>;
          s = screen_cursor_position 1 1 s;
          s = callback ''set_dynamic_color'' [Arg_int 110, Arg_string []] s;
          s = callback ''set_dynamic_color'' [Arg_int 111, Arg_string []] s
      in callback ''set_color_table_color'' [Arg_int 104, Arg_string []] s)"

section \<open>The invariant\<close>

lemma ensure_bounds_set_cursor: "\<exists>x y. screen_ensure_bounds force m s = set_cursor x y s"
  by (auto simp: screen_ensure_bounds_def split: prod.splits)

lemma screen_cursor_position_set_cursor: "\<exists>x y. screen_cursor_position a b s = set_cursor x y s"
proof -
  have "set_cursor x y (set_cursor x' y' s) = set_cursor x y s" for x y x' y' by (simp add: set_cursor_def)
  then show ?thesis
    unfolding screen_cursor_position_def Let_def by (metis ensure_bounds_set_cursor)
qed

lemma screen_cursor_position_frame [simp, frame_simps]:
  "s_columns (screen_cursor_position a b s) = s_columns s" "s_lines (screen_cursor_position a b s) = s_lines s"
  "s_modes (screen_cursor_position a b s) = s_modes s" "s_on_main (screen_cursor_position a b s) = s_on_main s"
  "s_main_linebuf (screen_cursor_position a b s) = s_main_linebuf s"
  "s_historybuf (screen_cursor_position a b s) = s_historybuf s"
  "s_main_savepoint (screen_cursor_position a b s) = s_main_savepoint s"
  "s_alt_savepoint (screen_cursor_position a b s) = s_alt_savepoint s"
  "s_charsets (screen_cursor_position a b s) = s_charsets s" "s_dec (screen_cursor_position a b s) = s_dec s"
  "s_alt_linebuf (screen_cursor_position a b s) = s_alt_linebuf s"
  "s_margin_top (screen_cursor_position a b s) = s_margin_top s"
  "s_margin_bottom (screen_cursor_position a b s) = s_margin_bottom s"
proof -
  obtain x y where *: "screen_cursor_position a b s = set_cursor x y s" using screen_cursor_position_set_cursor by blast
  show "s_columns (screen_cursor_position a b s) = s_columns s" "s_lines (screen_cursor_position a b s) = s_lines s"
    "s_modes (screen_cursor_position a b s) = s_modes s" "s_on_main (screen_cursor_position a b s) = s_on_main s"
    "s_main_linebuf (screen_cursor_position a b s) = s_main_linebuf s"
    "s_historybuf (screen_cursor_position a b s) = s_historybuf s"
    "s_main_savepoint (screen_cursor_position a b s) = s_main_savepoint s"
    "s_alt_savepoint (screen_cursor_position a b s) = s_alt_savepoint s"
    "s_charsets (screen_cursor_position a b s) = s_charsets s" "s_dec (screen_cursor_position a b s) = s_dec s"
    "s_alt_linebuf (screen_cursor_position a b s) = s_alt_linebuf s"
    "s_margin_top (screen_cursor_position a b s) = s_margin_top s"
    "s_margin_bottom (screen_cursor_position a b s) = s_margin_bottom s"
    unfolding * by (simp_all add: set_cursor_def)
qed

lemma dec_wf: "screen_wf s \<Longrightarrow> utf8_state d = 0 \<Longrightarrow> screen_wf (s\<lparr>s_dec := d\<rparr>)"
  by (simp add: screen_wf_def)

lemma screen_wf_state: "screen_wf s \<Longrightarrow> utf8_state (s_dec s) = 0"
  by (simp add: screen_wf_def)

lemma cursor_wf: "screen_wf s \<Longrightarrow> c_x c \<le> s_columns s \<Longrightarrow> c_y c < s_lines s \<Longrightarrow> screen_wf (s\<lparr>s_cursor := c\<rparr>)"
  by (simp add: screen_wf_def)

lemma set_pending_mode_wf [wf_intros]: "screen_wf s \<Longrightarrow> screen_wf (set_pending_mode val s)"
  by (simp add: set_pending_mode_def dec_wf screen_wf_state)

lemma set_basic_mode_wf [wf_intros]:
  assumes "screen_wf s"
  shows "screen_wf (set_basic_mode mode val s)"
proof -
  have "screen_wf (s\<lparr>s_cursor := (s_cursor s)\<lparr>c_non_blinking := b\<rparr>\<rparr>)" for b
    using assms by (simp add: cursor_wf wf_bounds)
  with assms show ?thesis
    by (simp add: set_basic_mode_def Let_def set_pending_mode_wf screen_cursor_ops_wf screen_erase_in_display_wf split: option.split)
qed

lemma screen_save_cursor_wf [wf_intros]:
  "screen_wf s \<Longrightarrow> screen_wf (screen_save_cursor s)"
  by (simp add: screen_save_cursor_def upd_savepoint_def screen_wf_def savepoint_ok_def charsets_ok_def)

lemma load_charsets_wf:
  "screen_wf s \<Longrightarrow> savepoint_ok sp \<Longrightarrow> sp_is_valid sp \<Longrightarrow> screen_wf (load_charsets sp s)"
  by (simp add: load_charsets_def screen_wf_def savepoint_ok_def charsets_ok_def)

text \<open>The saved cursor may be off the screen, when the screen was resized.\<close>

lemma bounded_cursor_wf: "screen_wf s \<Longrightarrow> screen_wf (screen_ensure_bounds False False (s\<lparr>s_cursor := c\<rparr>))"
proof -
  assume wf: "screen_wf s"
  let ?c = "c\<lparr>c_x := min (c_x c) (s_columns s - 1), c_y := max 0 (min (c_y c) (s_lines s - 1))\<rparr>"
  have "screen_ensure_bounds False False (s\<lparr>s_cursor := c\<rparr>) = s\<lparr>s_cursor := ?c\<rparr>"
    by (simp add: screen_ensure_bounds_def set_cursor_def)
  moreover have "c_x ?c \<le> s_columns s" "c_y ?c < s_lines s" using wf_bounds(2,4) [OF wf] by auto
  ultimately show ?thesis using wf by (simp add: cursor_wf)
qed

lemma screen_restore_cursor_wf [wf_intros]:
  assumes "screen_wf s"
  shows "screen_wf (screen_restore_cursor s)"
proof (cases "sp_is_valid (s_savepoint s)")
  case True
  have "savepoint_ok (s_savepoint s)" using assms by (simp add: s_savepoint_def screen_wf_def)
  with True assms show ?thesis
    by (simp add: screen_restore_cursor_def Let_def bounded_cursor_wf set_basic_mode_wf load_charsets_wf)
qed (simp add: screen_restore_cursor_def Let_def assms set_basic_mode_wf RESET_CHARSETS_keeps_wf screen_cursor_ops_wf)

lemma cursor_reset_wf: "screen_wf s \<Longrightarrow> screen_wf (s\<lparr>s_cursor := cursor_reset (s_cursor s)\<rparr>)"
  by (rule cursor_wf) (simp_all add: cursor_reset_def wf_bounds)

lemma alt_linebuf_wf: "screen_wf s \<Longrightarrow> lb_size (s_columns s) (s_lines s) b \<Longrightarrow> screen_wf (s\<lparr>s_alt_linebuf := b\<rparr>)"
  by (simp add: screen_wf_def)

lemma screen_toggle_screen_buffer_wf [wf_intros]:
  assumes "screen_wf s"
  shows "screen_wf (screen_toggle_screen_buffer sc ca s)"
proof -
  have "lb_size (s_columns s) (s_lines s) (linebuf_clear (s_alt_linebuf s) BLANK_CHAR)"
    using assms by (intro lb_size_ops) (simp add: screen_wf_def)
  then have "screen_wf (s\<lparr>s_active_hyperlink_id := 0, s_alt_linebuf := linebuf_clear (s_alt_linebuf s) BLANK_CHAR\<rparr>)"
    using assms by (intro alt_linebuf_wf) simp_all
  with assms show ?thesis
    unfolding screen_toggle_screen_buffer_def Let_def
    by (simp add: screen_history_scroll_wf cursor_reset_wf screen_cursor_ops_wf screen_save_cursor_wf screen_restore_cursor_wf)
qed

lemma set_mode_from_const_wf [wf_intros]: "screen_wf s \<Longrightarrow> screen_wf (set_mode_from_const mode val s)"
  by (simp add: set_mode_from_const_def screen_save_cursor_wf screen_toggle_screen_buffer_wf set_basic_mode_wf)

lemma screen_mode_ops_wf [wf_intros]:
  "screen_wf s \<Longrightarrow> screen_wf (screen_set_mode mode s)" "screen_wf s \<Longrightarrow> screen_wf (screen_reset_mode mode s)"
  "screen_wf s \<Longrightarrow> screen_wf (screen_decsace n s)" "screen_wf s \<Longrightarrow> screen_wf (screen_set_8bit_controls b s)"
  "screen_wf s \<Longrightarrow> screen_wf (screen_save_mode mode s)"
  by (simp_all add: screen_set_mode_def screen_reset_mode_def screen_decsace_def screen_set_8bit_controls_def
      screen_save_mode_def set_mode_from_const_wf)

lemma screen_restore_mode_wf [wf_intros]: "screen_wf s \<Longrightarrow> screen_wf (screen_restore_mode mode s)"
  by (simp add: screen_restore_mode_def Let_def set_mode_from_const_wf)

lemma fold_keeps: "(\<And>x s. P s \<Longrightarrow> P (f x s)) \<Longrightarrow> P s \<Longrightarrow> P (fold f xs s)"
  by (induction xs arbitrary: s) auto

lemma screen_modes_ops_wf [wf_intros]:
  "screen_wf s \<Longrightarrow> screen_wf (screen_save_modes s)" "screen_wf s \<Longrightarrow> screen_wf (screen_restore_modes s)"
  unfolding screen_save_modes_def screen_restore_modes_def
  by (rule fold_keeps [of screen_wf]; simp add: screen_mode_ops_wf screen_restore_mode_wf)+

lemma upd_keys_wf: "screen_wf s \<Longrightarrow> (\<And>ks. keys_ok ks \<Longrightarrow> keys_ok (f ks)) \<Longrightarrow> screen_wf (upd_keys f s)"
  by (simp add: upd_keys_def screen_wf_def)

lemma screen_keys_ops_wf [wf_intros]:
  "screen_wf s \<Longrightarrow> screen_wf (screen_set_key_encoding_flags val how s)"
  "screen_wf s \<Longrightarrow> screen_wf (screen_push_key_encoding_flags val s)"
  "screen_wf s \<Longrightarrow> screen_wf (screen_pop_key_encoding_flags n s)"
  by (simp_all add: screen_set_key_encoding_flags_def screen_push_key_encoding_flags_def
      screen_pop_key_encoding_flags_def upd_keys_wf keys_ok_ops)

lemma screen_reset_wf [wf_intros]:
  assumes "screen_wf s"
  shows "screen_wf (screen_reset s)"
proof -
  define s1 where "s1 = (if \<not> s_on_main s then screen_toggle_screen_buffer True True s else s)"
  define s2 where "s2 = upd_linebuf (\<lambda>b. linebuf_clear b BLANK_CHAR)
      (s1\<lparr>s_last_reported_cwd := None, s_main_keys := replicate 8 0, s_alt_keys := replicate 8 0,
          s_redraws_prompts := False, s_last_graphic_char := 0,
          s_main_savepoint := (s_main_savepoint s1)\<lparr>sp_is_valid := False\<rparr>,
          s_alt_savepoint := (s_alt_savepoint s1)\<lparr>sp_is_valid := False\<rparr>\<rparr>)"
  define s3 where "s3 = s2\<lparr>s_historybuf := historybuf_clear (s_historybuf s2), s_pool := clear_pool (s_pool s2)\<rparr>"
  define s4 where "s4 = (emit (Grman_clear (s_on_main s3) False) s3)\<lparr>s_modes := empty_modes, s_saved_modes := empty_modes,
      s_active_hyperlink_id := 0,
      s_color_profile := reset_overridden_colors (s_color_profile (emit (Grman_clear (s_on_main s3) False) s3))\<rparr>"
  define s5 where "s5 = (RESET_CHARSETS s4)\<lparr>s_margin_top := 0, s_margin_bottom := s_lines (RESET_CHARSETS s4) - 1,
      s_main_tabstops := init_tabstops (s_columns (RESET_CHARSETS s4)),
      s_alt_tabstops := init_tabstops (s_columns (RESET_CHARSETS s4))\<rparr>"
  have "screen_wf s1" using assms by (simp add: s1_def screen_toggle_screen_buffer_wf)
  then have "screen_wf s2"
    unfolding s2_def by (intro upd_linebuf_wf lb_size_ops) (simp_all add: screen_wf_def savepoint_ok_def)
  then have "screen_wf s3"
    using historybuf_clear_wf [of "s_historybuf s2"]
    by (simp add: s3_def screen_wf_def pool_wf_clear) (simp add: historybuf_clear_def pagerhist_clear_def)
  then have "screen_wf s4"
    by (simp add: s4_def screen_wf_def emit_def cp_wf_def reset_overridden_colors_def Let_def)
  then have "screen_wf (RESET_CHARSETS s4)" by (rule RESET_CHARSETS_keeps_wf)
  then have "screen_wf s5" by (auto simp: s5_def screen_wf_def)
  then have "screen_wf (upd_cursor cursor_reset s5)" by (rule cursor_reset_wf)
  moreover have "screen_reset s = (let s = upd_cursor cursor_reset s5;
          s = s\<lparr>s_is_dirty := True, s_selections := clear_selection (s_selections s),
                s_url_ranges := clear_selection (s_url_ranges s)\<rparr>;
          s = screen_cursor_position 1 1 s;
          s = callback ''set_dynamic_color'' [Arg_int 110, Arg_string []] s;
          s = callback ''set_dynamic_color'' [Arg_int 111, Arg_string []] s
      in callback ''set_color_table_color'' [Arg_int 104, Arg_string []] s)"
    by (simp only: screen_reset_def Let_def s1_def s2_def s3_def s4_def s5_def)
  ultimately show ?thesis by (simp add: Let_def screen_cursor_ops_wf)
qed

end
