(* ===== verification/Screen_Links.thy ===== *)
theory Screen_Links
  imports Screen_Modes
begin

text \<open>
  Hyperlinks on the screen: \<^verbatim>\<open>set_active_hyperlink\<close> and \<^verbatim>\<open>remap_hyperlink_ids\<close> of \<^verbatim>\<open>smelly/screen.c\<close> with
  the garbage collection and the lookup of \<^verbatim>\<open>smelly/hyperlink.c\<close>. A collection changes the numbers in the
  cells of the history and of both buffers, but no cell loses its link.
\<close>

section \<open>Operations\<close>

text \<open>The lines of the history, at the indices \<open>ys\<close>.\<close>

fun process_history :: "nat list \<Rightarrow> history_buf \<Rightarrow> id_map \<Rightarrow> history_buf \<times> id_map" where
  "process_history [] h m = (h, m)"
| "process_history (y # ys) h m =
     (let (cells, m) = process_cells (historybuf_cpu_cells h y) m;
          i = index_of h y
      in process_history ys (put_row i (cells, snd (row_at h i)) h) m)"

definition process_linebuf :: "line_buf \<Rightarrow> id_map \<Rightarrow> line_buf \<times> id_map" where
  "process_linebuf b m = (let (cells, m) = process_rows (b_cpu b) m in (b\<lparr>b_cpu := cells\<rparr>, m))"

text \<open>The history from the oldest line on, then the other buffer, then the current one.\<close>

definition remap_hyperlink_ids :: "screen \<Rightarrow> id_map \<Rightarrow> id_map \<times> screen" where
  "remap_hyperlink_ids s m =
     (let (h, m) = process_history (rev [0 ..< h_count (s_historybuf s)]) (s_historybuf s) m
      in if s_on_main s then
           (let (alt, m) = process_linebuf (s_alt_linebuf s) m; (main, m) = process_linebuf (s_main_linebuf s) m
            in (m, s\<lparr>s_historybuf := h, s_main_linebuf := main, s_alt_linebuf := alt\<rparr>))
         else
           (let (main, m) = process_linebuf (s_main_linebuf s) m; (alt, m) = process_linebuf (s_alt_linebuf s) m
            in (m, s\<lparr>s_historybuf := h, s_main_linebuf := main, s_alt_linebuf := alt\<rparr>)))"

definition screen_garbage_collect_hyperlink_pool :: "screen \<Rightarrow> screen" where
  "screen_garbage_collect_hyperlink_pool s =
     (let s = s\<lparr>s_pool := (s_pool s)\<lparr>hp_adds := 0\<rparr>\<rparr> in
      if hp_max_link_id (s_pool s) = 0 then s
      else (let (m, s) = remap_hyperlink_ids s empty_id_map in s\<lparr>s_pool := renumber_pool m (s_pool s)\<rparr>))"

definition get_id_for_hyperlink :: "char_type list option \<Rightarrow> char_type list \<Rightarrow> screen \<Rightarrow> hyperlink_id_type \<times> screen" where
  "get_id_for_hyperlink i url s =
     (let key = hyperlink_key i url in
      case find_link key (s_pool s) of
        Some e \<Rightarrow> (snd e, s\<lparr>s_pool := touch_link e (s_pool s)\<rparr>)
      | None \<Rightarrow>
          (let s = (if needs_gc (s_pool s) then screen_garbage_collect_hyperlink_pool s else s);
               s = (if hp_max_link_id (s_pool s) \<ge> HYPERLINK_MAX_NUMBER \<and> hp_links (s_pool s) \<noteq> []
                    then emit Log_error s else s);
               (new_id, p) = add_link key (s_pool s)
           in (new_id, s\<lparr>s_pool := p\<rparr>)))"

definition set_active_hyperlink :: "char_type list option \<Rightarrow> char_type list option \<Rightarrow> screen \<Rightarrow> screen" where
  "set_active_hyperlink i url s =
     (if e_allow_hyperlinks (s_env s) then
        (case url of
           None \<Rightarrow> s\<lparr>s_active_hyperlink_id := 0\<rparr>
         | Some u \<Rightarrow>
             if u = [] then s\<lparr>s_active_hyperlink_id := 0\<rparr>
             else (let (new_id, s) = get_id_for_hyperlink i u s in s\<lparr>s_active_hyperlink_id := new_id\<rparr>))
      else s)"

section \<open>Renumbering\<close>

definition history_cells :: "history_buf \<Rightarrow> cpu_cell list list" where
  "history_cells h = map fst (h_lines h)"

text \<open>What a renumbering of the cells \<open>rs\<close> does.\<close>

definition renumbers :: "id_map \<Rightarrow> id_map \<Rightarrow> cpu_cell list list \<Rightarrow> cpu_cell list list \<Rightarrow> bool" where
  "renumbers m m' rs rs' =
     (id_map_ok m' \<and> extends m m' \<and> list_all (list_all (numbered m')) rs \<and> rs' = map (map (rename_cell (fst m'))) rs
      \<and> (\<forall>i. fst m' i \<noteq> 0 \<longrightarrow> fst m i \<noteq> 0 \<or> (\<exists>r \<in> set rs. \<exists>c \<in> set r. p_hyperlink_id c = i)))"

lemma process_cells_used:
  "process_cells cs m = (cs', m') \<Longrightarrow> fst m' i \<noteq> 0 \<Longrightarrow> fst m i \<noteq> 0 \<or> (\<exists>c \<in> set cs. p_hyperlink_id c = i)"
proof (induction cs m arbitrary: cs' m' rule: process_cells.induct)
  case (2 c cs m)
  obtain c1 m1 cs2 m2 where p: "process_cell c m = (c1, m1)" "process_cells cs m1 = (cs2, m2)"
    by (metis surj_pair)
  with "2.prems" have m': "m' = m2" by simp
  have "fst m1 i \<noteq> 0 \<Longrightarrow> fst m i \<noteq> 0 \<or> p_hyperlink_id c = i"
    using p(1) by (cases m) (auto simp: process_cell_def Let_def split: if_splits prod.splits)
  with "2.IH" [OF p(1) [symmetric] refl p(2)] "2.prems"(2) m' show ?case by auto
qed simp

lemma process_rows_used:
  "process_rows rs m = (rs', m') \<Longrightarrow> fst m' i \<noteq> 0 \<Longrightarrow> fst m i \<noteq> 0 \<or> (\<exists>r \<in> set rs. \<exists>c \<in> set r. p_hyperlink_id c = i)"
proof (induction rs m arbitrary: rs' m' rule: process_rows.induct)
  case (2 r rs m)
  obtain r1 m1 rs2 m2 where p: "process_cells r m = (r1, m1)" "process_rows rs m1 = (rs2, m2)"
    by (metis surj_pair)
  with "2.prems" have m': "m' = m2" by simp
  from "2.IH" [OF p(1) [symmetric] refl p(2)] process_cells_used [OF p(1)] "2.prems"(2) m' show ?case by auto
qed simp

lemma process_rows_renumbers:
  "id_map_ok m \<Longrightarrow> process_rows rs m = (rs', m') \<Longrightarrow> renumbers m m' rs rs'"
  using process_rows_spec [of m rs rs' m'] process_rows_used [of rs m rs' m'] by (auto simp: renumbers_def)

text \<open>Later renumberings change nothing for the cells that have their numbers.\<close>

lemma renumbers_extends:
  assumes "renumbers m m1 rs rs'" "extends m1 m2" "id_map_ok m2"
  shows "list_all (list_all (numbered m2)) rs" "rs' = map (map (rename_cell (fst m2))) rs"
  using assms by (auto simp: renumbers_def list_all_iff intro: numbered_extends rename_cell_extends id_map_ok_0)

lemma renumbers_append:
  assumes "renumbers m m1 rs rs'" "renumbers m1 m2 ss ss'"
  shows "renumbers m m2 (rs @ ss) (rs' @ ss')"
proof -
  have m2: "extends m1 m2" "id_map_ok m2" "extends m m1" using assms by (simp_all add: renumbers_def)
  show ?thesis
    using assms renumbers_extends [OF assms(1) m2(1,2)] extends_trans [OF m2(3,1)]
    unfolding renumbers_def by (simp add: set_append bex_Un) blast
qed

lemma process_history_spec:
  assumes "history_wf h" "id_map_ok m" "distinct (map (index_of h) ys)" "set (map (index_of h) ys) \<subseteq> {..< h_ynum h}"
    "process_history ys h m = (h', m')"
  shows "renumbers m m' (map (historybuf_cpu_cells h) ys) (map (historybuf_cpu_cells h') ys)
    \<and> history_wf h' \<and> h_xnum h' = h_xnum h \<and> h_ynum h' = h_ynum h \<and> h_count h' = h_count h \<and> h_start_of_data h' = h_start_of_data h
    \<and> (\<forall>j. snd (row_at h' j) = snd (row_at h j) \<and> (j \<notin> set (map (index_of h) ys) \<longrightarrow> row_at h' j = row_at h j))"
  using assms
proof (induction ys h m arbitrary: h' m' rule: process_history.induct)
  case (1 h m)
  then show ?case by (simp add: renumbers_def)
next
  case (2 y ys h m)
  let ?i = "index_of h y"
  obtain cells m1 where c: "process_cells (historybuf_cpu_cells h y) m = (cells, m1)" by (metis surj_pair)
  define h1 where "h1 = put_row ?i (cells, snd (row_at h ?i)) h"
  have rest: "process_history ys h1 m1 = (h', m')" using "2.prems"(5) c by (simp add: h1_def Let_def)
  have i: "?i < h_ynum h" "?i \<notin> set (map (index_of h) ys)" using "2.prems"(3,4) by auto
  have row1: "row_at h1 j = (if j = ?i then (cells, snd (row_at h ?i)) else row_at h j)" for j
    unfolding h1_def by (rule row_at_put_row [OF i(1)])
  have fr: "h_xnum h1 = h_xnum h" "h_ynum h1 = h_ynum h" "h_count h1 = h_count h" "h_start_of_data h1 = h_start_of_data h"
    "h_pagerhist h1 = h_pagerhist h" by (simp_all add: h1_def)
  then have idx: "index_of h1 z = index_of h z" for z by (simp add: index_of_def)
  have "process_rows [historybuf_cpu_cells h y] m = ([cells], m1)" using c by simp
  from process_rows_renumbers [OF "2.prems"(2) this]
  have r1: "renumbers m m1 [historybuf_cpu_cells h y] [cells]" .
  then have m1: "id_map_ok m1" and len: "length cells = length (historybuf_cpu_cells h y)" by (auto simp: renumbers_def)
  have wf1: "history_wf h1"
    using "2.prems"(1) len i(1) by (auto simp: history_wf_def fr row1 row_ok_def historybuf_cpu_cells_def)
  have h: "h1 = put_row ?i (cells, snd (row_at h ?i)) h" by (rule h1_def)
  have IH: "renumbers m1 m' (map (historybuf_cpu_cells h1) ys) (map (historybuf_cpu_cells h') ys)
    \<and> history_wf h' \<and> h_xnum h' = h_xnum h1 \<and> h_ynum h' = h_ynum h1 \<and> h_count h' = h_count h1 \<and> h_start_of_data h' = h_start_of_data h1
    \<and> (\<forall>j. snd (row_at h' j) = snd (row_at h1 j) \<and> (j \<notin> set (map (index_of h1) ys) \<longrightarrow> row_at h' j = row_at h1 j))"
    using "2.prems"(3,4) rest wf1 m1 unfolding h
    by (intro "2.IH" [OF c [symmetric] refl refl]) (simp_all add: h [symmetric] fr idx)
  have same: "map (historybuf_cpu_cells h1) ys = map (historybuf_cpu_cells h) ys"
    using i(2) by (intro map_cong refl) (simp add: historybuf_cpu_cells_def idx row1, metis image_eqI list.set_map)
  have "index_of h' z = index_of h z" for z using IH fr by (simp add: index_of_def)
  then have "historybuf_cpu_cells h' y = cells"
    using IH i(2) by (simp add: historybuf_cpu_cells_def row1 idx)
  with renumbers_append [OF r1, of m' "map (historybuf_cpu_cells h1) ys"] IH same
  have "renumbers m m' (map (historybuf_cpu_cells h) (y # ys)) (map (historybuf_cpu_cells h') (y # ys))" by simp
  with IH fr row1 idx show ?case by auto
qed

lemma history_indices:
  assumes "history_wf h"
  shows "distinct (map (index_of h) (rev [0 ..< h_count h]))" "set (map (index_of h) (rev [0 ..< h_count h])) \<subseteq> {..< h_ynum h}"
    "map (historybuf_cpu_cells h) (rev [0 ..< h_count h]) = history_cells h"
proof -
  let ?f = "\<lambda>i. (h_start_of_data h + i) mod h_ynum h"
  have b: "h_count h \<le> h_ynum h" "0 < h_ynum h" using assms by (simp_all add: history_wf_def)
  have idx: "map (index_of h) (rev [0 ..< h_count h]) = map ?f [0 ..< h_count h]"
    by (rule nth_equalityI) (auto simp: index_of_def rev_nth)
  have "inj_on ?f {..< h_count h}"
    by (rule inj_onI, rule mod_eq_shift [of _ "h_ynum h" _ "h_start_of_data h"]) (use b in auto)
  then show "distinct (map (index_of h) (rev [0 ..< h_count h]))"
    unfolding idx by (simp add: distinct_map atLeast0LessThan)
  show "set (map (index_of h) (rev [0 ..< h_count h])) \<subseteq> {..< h_ynum h}"
    unfolding idx using b by auto
  have "map (historybuf_cpu_cells h) (rev [0 ..< h_count h]) = map (\<lambda>i. fst (row_at h i)) (map (index_of h) (rev [0 ..< h_count h]))"
    by (simp add: historybuf_cpu_cells_def)
  also have "\<dots> = history_cells h" unfolding idx by (simp add: history_cells_def h_lines_def)
  finally show "map (historybuf_cpu_cells h) (rev [0 ..< h_count h]) = history_cells h" .
qed

lemma process_history_cells:
  assumes "history_wf h" "id_map_ok m" "process_history (rev [0 ..< h_count h]) h m = (h', m')"
  shows "renumbers m m' (history_cells h) (history_cells h')" "history_wf h'" "h_xnum h' = h_xnum h"
    "map snd (h_lines h') = map snd (h_lines h)"
proof -
  note s = process_history_spec [OF assms(1,2) history_indices(1,2) [OF assms(1)] assms(3)]
  then have wf: "history_wf h'" and n: "h_count h' = h_count h" by blast+
  from s n history_indices(3) [OF assms(1)] history_indices(3) [OF wf]
  show "renumbers m m' (history_cells h) (history_cells h')" by simp
  from s show "history_wf h'" "h_xnum h' = h_xnum h" "map snd (h_lines h') = map snd (h_lines h)"
    by (simp_all add: h_lines_def)
qed

lemma process_linebuf_spec:
  assumes "lb_size c l b" "id_map_ok m" "process_linebuf b m = (b', m')"
  shows "renumbers m m' (b_cpu b) (b_cpu b')" "b' = b\<lparr>b_cpu := b_cpu b'\<rparr>" "lb_size c l b'"
proof -
  obtain cells where p: "process_rows (b_cpu b) m = (cells, m')" and b': "b' = b\<lparr>b_cpu := cells\<rparr>"
    using assms(3) by (auto simp: process_linebuf_def split: prod.splits)
  from process_rows_renumbers [OF assms(2) p] show r: "renumbers m m' (b_cpu b) (b_cpu b')" by (simp add: b')
  show "b' = b\<lparr>b_cpu := b_cpu b'\<rparr>" by (simp add: b')
  from r have "b_cpu b' = map (map (rename_cell (fst m'))) (b_cpu b)" by (simp add: renumbers_def)
  with assms(1) show "lb_size c l b'" by (simp add: lb_size_def lb_wf_def b' list_all_iff)
qed

text \<open>All three parts are renumbered by the same map.\<close>

lemma renumbers_three:
  assumes "id_map_ok m" "renumbers m m1 rs rs'" "renumbers m1 m2 ss ss'" "renumbers m2 m3 ts ts'"
  shows "rs' = map (map (rename_cell (fst m3))) rs" "ss' = map (map (rename_cell (fst m3))) ss"
    "ts' = map (map (rename_cell (fst m3))) ts" "id_map_ok m3"
    "list_all (list_all (numbered m3)) (rs @ ss @ ts)"
    "fst m3 i \<noteq> 0 \<Longrightarrow> fst m i \<noteq> 0 \<or> (\<exists>r \<in> set (rs @ ss @ ts). \<exists>c \<in> set r. p_hyperlink_id c = i)"
proof -
  have e: "extends m1 m3" "extends m2 m3" "id_map_ok m3"
    using assms extends_trans [of m1 m2 m3] by (simp_all add: renumbers_def)
  note x = renumbers_extends [OF assms(2) e(1,3)] renumbers_extends [OF assms(3) e(2,3)]
  have t: "ts' = map (map (rename_cell (fst m3))) ts" "list_all (list_all (numbered m3)) ts"
    using assms(4) by (simp_all add: renumbers_def)
  with x e show "rs' = map (map (rename_cell (fst m3))) rs" "ss' = map (map (rename_cell (fst m3))) ss"
    "ts' = map (map (rename_cell (fst m3))) ts" "id_map_ok m3" "list_all (list_all (numbered m3)) (rs @ ss @ ts)" by simp_all
  have "renumbers m m3 (rs @ ss @ ts) (rs' @ ss' @ ts')"
    using renumbers_append [OF assms(2) renumbers_append [OF assms(3,4)]] .
  then show "fst m3 i \<noteq> 0 \<Longrightarrow> fst m i \<noteq> 0 \<or> (\<exists>r \<in> set (rs @ ss @ ts). \<exists>c \<in> set r. p_hyperlink_id c = i)"
    by (simp add: renumbers_def)
qed

definition screen_cells :: "screen \<Rightarrow> cpu_cell list list" where
  "screen_cells s = history_cells (s_historybuf s) @ b_cpu (s_main_linebuf s) @ b_cpu (s_alt_linebuf s)"

lemma remap_spec:
  assumes "screen_wf s" "id_map_ok m0" "remap_hyperlink_ids s m0 = (m, s')"
  defines "ren \<equiv> map (map (rename_cell (fst m)))"
  shows "id_map_ok m" "screen_wf s'" "list_all (list_all (numbered m)) (screen_cells s)"
    "history_cells (s_historybuf s') = ren (history_cells (s_historybuf s))"
    "b_cpu (s_main_linebuf s') = ren (b_cpu (s_main_linebuf s))" "b_cpu (s_alt_linebuf s') = ren (b_cpu (s_alt_linebuf s))"
    "fst m i \<noteq> 0 \<Longrightarrow> fst m0 i \<noteq> 0 \<or> (\<exists>r \<in> set (screen_cells s). \<exists>c \<in> set r. p_hyperlink_id c = i)"
    "s_pool s' = s_pool s" "s_lines s' = s_lines s" "s_columns s' = s_columns s"
proof -
  obtain h m1 where h: "process_history (rev [0 ..< h_count (s_historybuf s)]) (s_historybuf s) m0 = (h, m1)" by (metis surj_pair)
  have wf: "history_wf (s_historybuf s)" "lb_size (s_columns s) (s_lines s) (s_main_linebuf s)"
    "lb_size (s_columns s) (s_lines s) (s_alt_linebuf s)" using assms(1) by (simp_all add: screen_wf_def)
  note hs = process_history_cells [OF wf(1) assms(2) h]
  have m1: "id_map_ok m1" using hs(1) by (simp add: renumbers_def)
  have "id_map_ok m \<and> screen_wf s' \<and> list_all (list_all (numbered m)) (screen_cells s)
    \<and> history_cells (s_historybuf s') = ren (history_cells (s_historybuf s))
    \<and> b_cpu (s_main_linebuf s') = ren (b_cpu (s_main_linebuf s)) \<and> b_cpu (s_alt_linebuf s') = ren (b_cpu (s_alt_linebuf s))
    \<and> (fst m i \<noteq> 0 \<longrightarrow> fst m0 i \<noteq> 0 \<or> (\<exists>r \<in> set (screen_cells s). \<exists>c \<in> set r. p_hyperlink_id c = i))
    \<and> s_pool s' = s_pool s \<and> s_lines s' = s_lines s \<and> s_columns s' = s_columns s"
  proof (cases "s_on_main s")
    case True
    obtain a m2 where a: "process_linebuf (s_alt_linebuf s) m1 = (a, m2)" by (metis surj_pair)
    note as = process_linebuf_spec [OF wf(3) m1 a]
    then have m2: "id_map_ok m2" by (simp add: renumbers_def)
    obtain b m3 where b: "process_linebuf (s_main_linebuf s) m2 = (b, m3)" by (metis surj_pair)
    note bs = process_linebuf_spec [OF wf(2) m2 b]
    have r: "m = m3" "s' = s\<lparr>s_historybuf := h, s_main_linebuf := b, s_alt_linebuf := a\<rparr>"
      using assms(3) h a b True by (simp_all add: remap_hyperlink_ids_def)
    note three = renumbers_three [OF assms(2) hs(1) as(1) bs(1)]
    have "screen_wf s'" using assms(1) hs as bs by (simp add: r screen_wf_def)
    moreover have "fst m i \<noteq> 0 \<longrightarrow> fst m0 i \<noteq> 0 \<or> (\<exists>r \<in> set (screen_cells s). \<exists>c \<in> set r. p_hyperlink_id c = i)"
      using three(6) [of i] by (simp add: r screen_cells_def) blast
    ultimately show ?thesis using three by (simp add: r ren_def screen_cells_def)
  next
    case False
    obtain b m2 where b: "process_linebuf (s_main_linebuf s) m1 = (b, m2)" by (metis surj_pair)
    note bs = process_linebuf_spec [OF wf(2) m1 b]
    then have m2: "id_map_ok m2" by (simp add: renumbers_def)
    obtain a m3 where a: "process_linebuf (s_alt_linebuf s) m2 = (a, m3)" by (metis surj_pair)
    note as = process_linebuf_spec [OF wf(3) m2 a]
    have r: "m = m3" "s' = s\<lparr>s_historybuf := h, s_main_linebuf := b, s_alt_linebuf := a\<rparr>"
      using assms(3) h a b False by (simp_all add: remap_hyperlink_ids_def)
    note three = renumbers_three [OF assms(2) hs(1) bs(1) as(1)]
    have "screen_wf s'" using assms(1) hs as bs by (simp add: r screen_wf_def)
    moreover have "fst m i \<noteq> 0 \<longrightarrow> fst m0 i \<noteq> 0 \<or> (\<exists>r \<in> set (screen_cells s). \<exists>c \<in> set r. p_hyperlink_id c = i)"
      using three(6) [of i] by (simp add: r screen_cells_def)
    ultimately show ?thesis using three by (simp add: r ren_def screen_cells_def)
  qed
  then show "id_map_ok m" "screen_wf s'" "list_all (list_all (numbered m)) (screen_cells s)"
    "history_cells (s_historybuf s') = ren (history_cells (s_historybuf s))"
    "b_cpu (s_main_linebuf s') = ren (b_cpu (s_main_linebuf s))" "b_cpu (s_alt_linebuf s') = ren (b_cpu (s_alt_linebuf s))"
    "fst m i \<noteq> 0 \<Longrightarrow> fst m0 i \<noteq> 0 \<or> (\<exists>r \<in> set (screen_cells s). \<exists>c \<in> set r. p_hyperlink_id c = i)"
    "s_pool s' = s_pool s" "s_lines s' = s_lines s" "s_columns s' = s_columns s" by blast+
qed

section \<open>No cell loses its link\<close>

text \<open>A cell without the number of its link, and the link.\<close>

definition cell_link :: "hyperlink_pool \<Rightarrow> cpu_cell \<Rightarrow> cpu_cell \<times> char_type list option" where
  "cell_link p c = (c\<lparr>p_hyperlink_id := 0\<rparr>, get_hyperlink_for_id p (p_hyperlink_id c) False)"

definition screen_links :: "screen \<Rightarrow> (cpu_cell \<times> char_type list option) list list" where
  "screen_links s = map (map (cell_link (s_pool s))) (screen_cells s)"

text \<open>The links that some cell refers to.\<close>

definition used_links :: "screen \<Rightarrow> hyperlink_id_type set" where
  "used_links s = (\<Union>r \<in> set (screen_cells s). p_hyperlink_id ` set r)"

lemma no_link_0: "pool_wf p \<Longrightarrow> get_hyperlink_for_id p 0 only_url = None"
  by (auto simp: get_hyperlink_for_id_def pool_wf_def list_all_iff find_Some_iff split: option.splits)

lemma renamed_link:
  assumes "pool_wf p" "id_map_ok m" "numbered m c"
  shows "cell_link (renumber_pool m p) (rename_cell (fst m) c) = cell_link p c"
proof (cases "p_hyperlink_id c = 0")
  case True
  then show ?thesis
    using assms id_map_ok_0 [OF assms(2)] no_link_0 [OF assms(1)] no_link_0 [OF renumber_pool_wf [OF assms(1,2)]]
    by (simp add: cell_link_def rename_cell_def)
next
  case False
  then show ?thesis
    using assms renumber_pool_lookup [OF assms(2), of "p_hyperlink_id c" p False]
    by (simp add: cell_link_def rename_cell_def numbered_def)
qed

text \<open>
  C16: Garbage collection of the hyperlinks changes no link of any cell of the history and of the
  two buffers, although it renumbers them, and what stays in the pool is in use.
\<close>

theorem gc_keeps_links:
  assumes "screen_wf s"
  shows "screen_links (screen_garbage_collect_hyperlink_pool s) = screen_links s
    \<and> snd ` set (hp_links (s_pool (screen_garbage_collect_hyperlink_pool s)))
        \<subseteq> used_links (screen_garbage_collect_hyperlink_pool s)"
proof -
  let ?s = "s\<lparr>s_pool := (s_pool s)\<lparr>hp_adds := 0\<rparr>\<rparr>"
  have wf: "screen_wf ?s" using assms by (simp add: screen_wf_def pool_wf_def)
  have pool: "pool_wf (s_pool ?s)" using wf by (simp add: screen_wf_def)
  show ?thesis
  proof (cases "hp_max_link_id (s_pool s) = 0")
    case True
    then have "hp_links (s_pool s) = []" using pool by (cases "hp_links (s_pool s)") (auto simp: pool_wf_def unat_eq_zero)
    with True show ?thesis
      by (simp add: screen_garbage_collect_hyperlink_pool_def Let_def screen_links_def screen_cells_def cell_link_def
          get_hyperlink_for_id_def)
  next
    case False
    obtain m s' where r: "remap_hyperlink_ids ?s empty_id_map = (m, s')" by (metis surj_pair)
    note spec = remap_spec [OF wf id_map_ok_empty r]
    have gc: "screen_garbage_collect_hyperlink_pool s = s'\<lparr>s_pool := renumber_pool m (s_pool ?s)\<rparr>"
      using False r spec(8) by (simp add: screen_garbage_collect_hyperlink_pool_def Let_def)
    have cells: "screen_cells s' = map (map (rename_cell (fst m))) (screen_cells s)"
      using spec(4-6) by (simp add: screen_cells_def)
    have num: "numbered m c" if "r \<in> set (screen_cells s)" "c \<in> set r" for r c
      using spec(3) that by (auto simp: list_all_iff screen_cells_def)
    have "screen_links (screen_garbage_collect_hyperlink_pool s) = screen_links s"
      using renamed_link [OF pool spec(1)] num
      by (auto simp: gc screen_links_def screen_cells_def cells [unfolded screen_cells_def] cell_link_def get_hyperlink_for_id_def)
    moreover have "i \<in> used_links s'" if i: "i \<in> snd ` set (hp_links (renumber_pool m (s_pool ?s)))" for i
    proof -
      obtain j where j: "i = fst m j" "fst m j \<noteq> 0"
        using i by (cases m) (auto simp: renumber_pool_def clear_pool_def Let_def split: if_splits)
      then obtain r c where "r \<in> set (screen_cells s)" "c \<in> set r" "p_hyperlink_id c = j"
        using spec(7) [of j] by (auto simp: empty_id_map_def screen_cells_def)
      with j show ?thesis unfolding used_links_def cells
        by (auto simp: rename_cell_def image_iff intro!: bexI [of _ r] bexI [of _ c])
    qed
    moreover have "used_links (screen_garbage_collect_hyperlink_pool s) = used_links s'"
      by (simp add: gc used_links_def screen_cells_def)
    moreover have "s_pool (screen_garbage_collect_hyperlink_pool s) = renumber_pool m (s_pool ?s)" by (simp add: gc)
    ultimately show ?thesis by (metis subsetI)
  qed
qed

lemma gc_keeps_links_witness:
  "screen_links (screen_garbage_collect_hyperlink_pool example_screen) = screen_links example_screen
    \<and> snd ` set (hp_links (s_pool (screen_garbage_collect_hyperlink_pool example_screen)))
        \<subseteq> used_links (screen_garbage_collect_hyperlink_pool example_screen)"
  by (rule gc_keeps_links [OF example_screen_wf])

section \<open>The invariant\<close>

lemma pool_wf_adds [simp]: "pool_wf (p\<lparr>hp_adds := n\<rparr>) = pool_wf p"
  by (simp add: pool_wf_def)

lemma s_pool_wf: "screen_wf s \<Longrightarrow> pool_wf p \<Longrightarrow> screen_wf (s\<lparr>s_pool := p\<rparr>)"
  by (simp add: screen_wf_def)

lemma gc_wf [wf_intros]:
  assumes "screen_wf s"
  shows "screen_wf (screen_garbage_collect_hyperlink_pool s)"
proof -
  have p: "pool_wf ((s_pool s)\<lparr>hp_adds := 0\<rparr>)" using assms by (simp add: screen_wf_def)
  then have wf: "screen_wf (s\<lparr>s_pool := (s_pool s)\<lparr>hp_adds := 0\<rparr>\<rparr>)" by (rule s_pool_wf [OF assms])
  obtain m s' where r: "remap_hyperlink_ids (s\<lparr>s_pool := (s_pool s)\<lparr>hp_adds := 0\<rparr>\<rparr>) empty_id_map = (m, s')" by (metis surj_pair)
  note spec = remap_spec [OF wf id_map_ok_empty r]
  have "screen_wf (s'\<lparr>s_pool := renumber_pool m ((s_pool s)\<lparr>hp_adds := 0\<rparr>)\<rparr>)"
    using spec(1,2) p by (intro s_pool_wf renumber_pool_wf)
  with wf r spec(8) show ?thesis by (simp add: screen_garbage_collect_hyperlink_pool_def Let_def)
qed

text \<open>A collection removes links, so a key that was not found is not found afterwards.\<close>

lemma find_link_renumber: "find_link key p = None \<Longrightarrow> find_link key (renumber_pool m p) = None"
  by (cases m) (auto simp: find_link_def find_eq_None renumber_pool_def clear_pool_def Let_def image_iff split: if_splits)

lemma find_link_gc:
  assumes "screen_wf s" "find_link key (s_pool s) = None"
  shows "find_link key (s_pool (screen_garbage_collect_hyperlink_pool s)) = None"
proof -
  have p: "pool_wf ((s_pool s)\<lparr>hp_adds := 0\<rparr>)" using assms by (simp add: screen_wf_def)
  then have wf: "screen_wf (s\<lparr>s_pool := (s_pool s)\<lparr>hp_adds := 0\<rparr>\<rparr>)" by (rule s_pool_wf [OF assms(1)])
  obtain m s' where r: "remap_hyperlink_ids (s\<lparr>s_pool := (s_pool s)\<lparr>hp_adds := 0\<rparr>\<rparr>) empty_id_map = (m, s')" by (metis surj_pair)
  have "find_link key ((s_pool s)\<lparr>hp_adds := 0\<rparr>) = None" using assms(2) by (simp add: find_link_def)
  with remap_spec(8) [OF wf id_map_ok_empty r] r show ?thesis
    by (simp add: screen_garbage_collect_hyperlink_pool_def Let_def find_link_renumber)
qed

lemma get_id_for_hyperlink_spec:
  assumes "screen_wf s" "get_id_for_hyperlink i url s = (new_id, s')"
  shows "screen_wf s'" "new_id \<noteq> 0" "(hyperlink_key i url, new_id) \<in> set (hp_links (s_pool s'))"
proof -
  let ?key = "hyperlink_key i url"
  have "screen_wf s' \<and> new_id \<noteq> 0 \<and> (?key, new_id) \<in> set (hp_links (s_pool s'))"
  proof (cases "find_link ?key (s_pool s)")
    case (Some e)
    have p: "pool_wf (s_pool s)" using assms(1) by (simp add: screen_wf_def)
    have e: "e \<in> set (hp_links (s_pool s))" "fst e = ?key" using Some by (auto simp: find_link_def find_Some_iff)
    have r: "new_id = snd e" "s' = s\<lparr>s_pool := touch_link e (s_pool s)\<rparr>"
      using Some assms(2) by (simp_all add: get_id_for_hyperlink_def)
    have "snd e \<noteq> 0" using e(1) p by (auto simp: pool_wf_def list_all_iff)
    moreover have "(?key, snd e) \<in> set (hp_links (touch_link e (s_pool s)))" using e(2) by (cases e) (simp add: touch_link_def)
    ultimately show ?thesis using assms(1) pool_wf_touch [OF p Some] by (simp add: r s_pool_wf)
  next
    case None
    define s1 where "s1 = (if needs_gc (s_pool s) then screen_garbage_collect_hyperlink_pool s else s)"
    define s2 where "s2 = (if hp_max_link_id (s_pool s1) \<ge> HYPERLINK_MAX_NUMBER \<and> hp_links (s_pool s1) \<noteq> []
                    then emit Log_error s1 else s1)"
    obtain n p where a: "add_link ?key (s_pool s2) = (n, p)" by (metis surj_pair)
    have s1: "screen_wf s1" "find_link ?key (s_pool s1) = None"
      using assms(1) None by (auto simp: s1_def gc_wf find_link_gc)
    then have s2: "screen_wf s2" "find_link ?key (s_pool s2) = None" by (auto simp: s2_def emit_def)
    then have "pool_wf (s_pool s2)" by (simp add: screen_wf_def)
    from add_link_wf [OF this s2(2) a] have l: "pool_wf p" "n \<noteq> 0" "(?key, n) \<in> set (hp_links p)" by simp_all
    have "(new_id, s') = (n, s2\<lparr>s_pool := p\<rparr>)"
      using assms(2) None a by (simp add: get_id_for_hyperlink_def Let_def s1_def [symmetric] s2_def [symmetric])
    with l s2(1) show ?thesis by (simp add: s_pool_wf)
  qed
  then show "screen_wf s'" "new_id \<noteq> 0" "(?key, new_id) \<in> set (hp_links (s_pool s'))" by blast+
qed

lemma set_active_hyperlink_wf [wf_intros]: "screen_wf s \<Longrightarrow> screen_wf (set_active_hyperlink i url s)"
  by (auto simp: set_active_hyperlink_def split: option.splits prod.splits dest: get_id_for_hyperlink_spec(1))

end
