(* ===== verification/Screen_Draw.thy ===== *)
theory Screen_Draw
  imports Screen_Links
begin

text \<open>
  Drawing characters (\<^verbatim>\<open>draw_codepoint\<close> of \<^verbatim>\<open>smelly/screen.c\<close>): charsets, wide characters, wrapping at the
  right edge, insert mode, combining characters, flags and the variation selectors of emoji.
\<close>

section \<open>Combining characters\<close>

text \<open>The cell before the cursor, in the line above when the cursor is in the first column.\<close>

definition prev_cell :: "screen \<Rightarrow> (nat \<times> nat) option" where
  "prev_cell s =
     (if cx s > 0 then Some (cx s - 1, cy s)
      else if cy s > 0 then Some (s_columns s - 1, cy s - 1)
      else None)"

definition put_cell :: "nat \<Rightarrow> cpu_cell \<Rightarrow> gpu_cell \<Rightarrow> cell_line \<Rightarrow> cell_line" where
  "put_cell x p g l = map_cpu x (\<lambda>_. p) (map_gpu x (\<lambda>_. g) l)"

definition set_width :: "nat \<Rightarrow> 2 word \<Rightarrow> cell_line \<Rightarrow> cell_line" where
  "set_width x w l = map_gpu x (cell_set_attrs (a_width_update (\<lambda>_. w))) l"

definition wrap_line :: "screen \<Rightarrow> screen" where
  "wrap_line s =
     screen_linefeed (screen_carriage_return
       (upd_linebuf (\<lambda>b. linebuf_set_last_char_as_continuation b (cy s) True) s))"

definition move_widened_char :: "nat \<Rightarrow> nat \<Rightarrow> screen \<Rightarrow> screen" where
  "move_widened_char xpos ypos s =
     (let l = linebuf_init_line (s_linebuf s) ypos;
          src_cpu = l_cpu l ! xpos; src_gpu = l_gpu l ! xpos;
          s = edit_line (\<lambda>l. line_clear_text l xpos 1 BLANK_CHAR) ypos (set_cursor xpos ypos s)
      in if mDECAWM (s_modes s) then
           (let s = wrap_line s;
                s = set_cursor (min 2 (s_columns s)) (cy s) s;
                s = upd_linebuf (\<lambda>b. linebuf_mark_line_dirty b (cy s)) s
            in edit_line (put_cell 0 src_cpu src_gpu) (cy s) s)
         else
           edit_line (put_cell (xpos - 1) src_cpu src_gpu) ypos (set_cursor (s_columns s) (cy s) s))"

text \<open>The two variation selectors, after a base character.\<close>

definition apply_emoji_presentation :: "nat \<Rightarrow> nat \<Rightarrow> screen \<Rightarrow> screen" where
  "apply_emoji_presentation xpos ypos s =
     (let l = linebuf_init_line (s_linebuf s) ypos in
      if line_width l xpos \<noteq> 2 \<and> p_cc0 (l_cpu l ! xpos) = VS16 \<and> is_emoji_presentation_base (line_ch l xpos) then
        (let s = (if cx s \<le> s_columns s - 1
                  then edit_line (\<lambda>l. line_set_char l (cx s) 0 0 (Some (s_cursor s)) (s_active_hyperlink_id s)) ypos s
                  else s);
             s = edit_line (set_width xpos 2) ypos s
         in if xpos = s_columns s - 1 then move_widened_char xpos ypos s else set_cursor (cx s + 1) (cy s) s)
      else s)"

definition apply_text_presentation :: "nat \<Rightarrow> nat \<Rightarrow> screen \<Rightarrow> screen" where
  "apply_text_presentation xpos ypos s =
     (let l = linebuf_init_line (s_linebuf s) ypos;
          second_half = (line_width l xpos = 0 \<and> line_ch l xpos = 0 \<and> xpos > 0);
          s = (if second_half \<and> cx s > 0 then set_cursor (cx s - 1) (cy s) s else s);
          xpos = (if second_half then xpos - 1 else xpos)
      in if line_width l xpos = 2 \<and> p_cc0 (l_cpu l ! xpos) = VS15 \<and> is_emoji_presentation_base (line_ch l xpos)
         then edit_line (set_width xpos 1) ypos s else s)"

definition draw_combining_char :: "char_type \<Rightarrow> screen \<Rightarrow> screen" where
  "draw_combining_char cp s =
     (case prev_cell s of
        None \<Rightarrow> s
      | Some (xpos, ypos) \<Rightarrow>
          (let s = damage_line ypos (edit_line (\<lambda>l. line_add_combining_char l cp xpos) ypos s)
           in if cp = 0xfe0f then apply_emoji_presentation xpos ypos s
              else if cp = 0xfe0e then apply_text_presentation xpos ypos s
              else s))"

text \<open>The second half of a flag joins the first one; \<open>None\<close> is the result false.\<close>

definition draw_second_flag_codepoint :: "char_type \<Rightarrow> screen \<Rightarrow> screen option" where
  "draw_second_flag_codepoint cp s =
     (let pos = (if cx s > 1 then Some (cx s - 2, cy s)
                 else if cy s > 0 \<and> s_columns s > 1 then Some (s_columns s - 2, cy s - 1)
                 else None)
      in case pos of
           None \<Rightarrow> None
         | Some (xpos, ypos) \<Rightarrow>
             (let p = l_cpu (linebuf_init_line (s_linebuf s) ypos) ! xpos in
              if \<not> is_flag_pair (p_ch p) cp \<or> p_cc0 p \<noteq> 0 then None
              else Some (damage_line ypos (edit_line (\<lambda>l. line_add_combining_char l cp xpos) ypos s))))"

section \<open>Characters with a width\<close>

definition note_activity :: "screen \<Rightarrow> screen" where
  "note_activity s =
     (if \<not> s_has_activity s \<and> \<not> s_has_focus s \<and> e_has_callbacks (s_env s) then
        (let s = emit (Callback ''on_activity_since_last_focus'' []) s
         in if e_activity (s_env s) (s_log s) then s\<lparr>s_has_activity := True\<rparr> else s)
      else s)"

text \<open>The cells of a character of width \<open>w\<close>.\<close>

definition set_cells :: "bool \<Rightarrow> nat \<Rightarrow> char_type \<Rightarrow> nat \<Rightarrow> cursor \<Rightarrow> hyperlink_id_type \<Rightarrow> cell_line \<Rightarrow> cell_line" where
  "set_cells insert_mode x cp w c link l =
     (let l = (if insert_mode then line_right_shift l x w else l);
          l = line_set_char l x cp w (Some c) link
      in if w = 2 then line_set_char l (x + 1) 0 0 (Some c) link else l)"

definition make_room :: "nat \<Rightarrow> screen \<Rightarrow> screen" where
  "make_room w s =
     (if s_columns s - cx s < w then
        (if mDECAWM (s_modes s) then wrap_line s else set_cursor (s_columns s - w) (cy s) s)
      else s)"

definition draw_base_char :: "char_type \<Rightarrow> bool \<Rightarrow> screen \<Rightarrow> screen" where
  "draw_base_char cp from_input_stream s =
     (if wcwidth_std cp = 0 then s
      else
        (let w = (if wcwidth_std cp < 1 then 1 else nat (wcwidth_std cp));
             s = (if from_input_stream then s\<lparr>s_last_graphic_char := cp\<rparr> else s);
             s = make_room w s;
             s = edit_line (set_cells (mIRM (s_modes s)) (cx s) cp w (s_cursor s) (s_active_hyperlink_id s)) (cy s) s;
             s = set_cursor (cx s + w) (cy s) s
         in damage_line (cy s) s))"

definition draw_codepoint :: "char_type \<Rightarrow> bool \<Rightarrow> screen \<Rightarrow> screen" where
  "draw_codepoint och from_input_stream s =
     (if is_ignored_char och then s
      else
        (let s = note_activity s;
             cp = (if och < 256 then cs_g (s_charsets s) ! unat och else och)
         in if is_combining_char cp then
              (if is_flag_codepoint cp then
                 (case draw_second_flag_codepoint cp s of
                    Some s' \<Rightarrow> s' | None \<Rightarrow> draw_base_char cp from_input_stream s)
               else draw_combining_char cp s)
            else draw_base_char cp from_input_stream s))"

definition screen_draw :: "u32 \<Rightarrow> bool \<Rightarrow> screen \<Rightarrow> screen" where
  "screen_draw och from_input_stream s = draw_codepoint och from_input_stream s"

abbreviation (input) CSI_REP_MAX_REPETITIONS :: nat where "CSI_REP_MAX_REPETITIONS \<equiv> 65535"

fun repeat_loop :: "nat \<Rightarrow> u32 \<Rightarrow> screen \<Rightarrow> screen" where
  "repeat_loop 0 c s = s"
| "repeat_loop (Suc n) c s = repeat_loop n c (screen_draw c False s)"

definition screen_repeat_character :: "nat \<Rightarrow> screen \<Rightarrow> screen" where
  "screen_repeat_character n s =
     (if s_last_graphic_char s \<noteq> 0
      then repeat_loop (min (if n = 0 then 1 else n) CSI_REP_MAX_REPETITIONS) (s_last_graphic_char s) s
      else s)"

section \<open>The invariant\<close>

lemma keeps_line_draw [wf_intros]:
  "keeps_line (put_cell x p g)" "keeps_line (set_width x w)" "keeps_line (\<lambda>l. line_set_char l x cp n c link)"
  "keeps_line (set_cells ins x cp n cur link)"
  by (auto simp: keeps_line_def put_cell_def set_width_def set_cells_def Let_def line_ops_wf line_shifts_wf)

lemma keeps_line_combining [wf_intros]: "keeps_line (\<lambda>l. line_add_combining_char l cp x)"
  by (auto simp: keeps_line_def line_ops_wf) (simp add: line_add_combining_char_def)

lemma screen_cursor_down_x: "cx s = 0 \<Longrightarrow> cx (screen_index s) = 0"
  by (simp add: screen_index_def screen_cursor_down_def screen_cursor_up_def Let_def screen_ensure_bounds_def split: prod.splits)

lemma screen_carriage_return_frame [simp, frame_simps]:
  "s_columns (screen_carriage_return s) = s_columns s" "s_lines (screen_carriage_return s) = s_lines s"
  "s_modes (screen_carriage_return s) = s_modes s" "s_on_main (screen_carriage_return s) = s_on_main s"
  "cx (screen_carriage_return s) = 0" "cy (screen_carriage_return s) = cy s"
  by (simp_all add: screen_carriage_return_def)

lemma screen_linefeed_frame [simp, frame_simps]:
  "s_columns (screen_linefeed s) = s_columns s" "s_lines (screen_linefeed s) = s_lines s"
  "s_modes (screen_linefeed s) = s_modes s" "s_on_main (screen_linefeed s) = s_on_main s"
  "cx s = 0 \<Longrightarrow> cx (screen_linefeed s) = 0"
proof -
  show "s_columns (screen_linefeed s) = s_columns s" "s_lines (screen_linefeed s) = s_lines s"
    "s_modes (screen_linefeed s) = s_modes s" "s_on_main (screen_linefeed s) = s_on_main s"
    by (simp_all add: screen_linefeed_def Let_def)
  have "cx (screen_ensure_bounds f m s) = min (cx s) (s_columns s - 1)" for f m s
    by (simp add: screen_ensure_bounds_def split: prod.splits)
  then show "cx s = 0 \<Longrightarrow> cx (screen_linefeed s) = 0"
    by (simp add: screen_linefeed_def Let_def screen_cursor_down_x)
qed

lemma wrap_line_frame [simp]:
  "s_columns (wrap_line s) = s_columns s" "s_lines (wrap_line s) = s_lines s" "s_modes (wrap_line s) = s_modes s"
  "cx (wrap_line s) = 0"
  by (simp_all add: wrap_line_def)

lemma wrap_line_wf [wf_intros]: "screen_wf s \<Longrightarrow> screen_wf (wrap_line s)"
  unfolding wrap_line_def by (intro screen_linefeed_wf screen_cursor_ops_wf upd_linebuf_wf lb_size_ops)

lemma prev_cell_bounds:
  assumes "screen_wf s" "prev_cell s = Some (x, y)"
  shows "x < s_columns s" "y < s_lines s" "x = s_columns s - 1 \<or> cx s = x + 1"
  using assms(2) wf_bounds(1,6,7) [OF assms(1)] by (auto simp: prev_cell_def split: if_splits)

lemma move_widened_char_wf:
  assumes "screen_wf s" "x < s_columns s" "y < s_lines s"
  shows "screen_wf (move_widened_char x y s)"
proof -
  define s1 where "s1 = edit_line (\<lambda>l. line_clear_text l x 1 BLANK_CHAR) y (set_cursor x y s)"
  have s1: "screen_wf s1" "s_columns s1 = s_columns s" "s_lines s1 = s_lines s" "cy s1 = y"
    using assms unfolding s1_def by (auto intro!: edit_line_keeps keeps_line_ops set_cursor_wf)
  define sc where "sc = set_cursor (min 2 (s_columns (wrap_line s1))) (cy (wrap_line s1)) (wrap_line s1)"
  define s2 where "s2 = upd_linebuf (\<lambda>b. linebuf_mark_line_dirty b (cy sc)) sc"
  have w: "screen_wf (wrap_line s1)" using s1 by (simp add: wrap_line_wf)
  have "screen_wf s2"
    unfolding s2_def sc_def using wf_bounds(7) [OF w]
    by (intro upd_linebuf_wf update_attrs_size set_cursor_wf w) simp_all
  then have a: "screen_wf (edit_line (put_cell 0 p g) (cy s2) s2)" for p g
    by (intro edit_line_keeps keeps_line_draw wf_bounds)
  have b: "screen_wf (edit_line (put_cell (x - 1) p g) y (set_cursor (s_columns s1) y s1))" for p g
    using s1 assms by (intro edit_line_keeps keeps_line_draw set_cursor_wf) simp_all
  show ?thesis
    unfolding move_widened_char_def Let_def s1_def [symmetric] sc_def [symmetric] s2_def [symmetric]
    using a b by (simp only: s1 if_split simp_thms) 
qed

lemma apply_emoji_presentation_wf:
  assumes "screen_wf s" "x < s_columns s" "y < s_lines s" "x = s_columns s - 1 \<or> cx s = x + 1"
  shows "screen_wf (apply_emoji_presentation x y s)"
proof -
  define s1 where "s1 = (if cx s \<le> s_columns s - 1
      then edit_line (\<lambda>l. line_set_char l (cx s) 0 0 (Some (s_cursor s)) (s_active_hyperlink_id s)) y s else s)"
  have s1: "screen_wf s1" "s_columns s1 = s_columns s" "s_lines s1 = s_lines s" "cx s1 = cx s" "cy s1 = cy s"
    using assms by (auto simp: s1_def intro!: edit_line_keeps keeps_line_draw)
  have s2: "screen_wf (edit_line (set_width x 2) y s1)"
    using s1 assms by (intro edit_line_keeps keeps_line_draw) simp_all
  then have "screen_wf (move_widened_char x y (edit_line (set_width x 2) y s1))"
    using s1 assms by (intro move_widened_char_wf) simp_all
  moreover have "screen_wf (set_cursor (cx s + 1) (cy s) (edit_line (set_width x 2) y s1))" if "x \<noteq> s_columns s - 1"
    using s1 s2 assms that wf_bounds(7) [OF assms(1)] by (intro set_cursor_wf) simp_all
  ultimately show ?thesis
    unfolding apply_emoji_presentation_def Let_def s1_def [symmetric]
    using assms(1) s1 by (auto split: if_split)
qed

lemma apply_text_presentation_wf:
  assumes "screen_wf s" "y < s_lines s"
  shows "screen_wf (apply_text_presentation x y s)"
proof -
  have "cx s - 1 \<le> s_columns s" using wf_bounds(6) [OF assms(1)] by simp
  then have "screen_wf (set_cursor (cx s - 1) (cy s) s)"
    using assms wf_bounds(7) by (intro set_cursor_wf)
  with assms show ?thesis
    by (auto simp: apply_text_presentation_def Let_def intro!: edit_line_keeps keeps_line_draw)
qed

lemma draw_combining_char_wf [wf_intros]:
  assumes "screen_wf s"
  shows "screen_wf (draw_combining_char cp s)"
proof (cases "prev_cell s")
  case (Some p)
  obtain x y where p: "p = (x, y)" by (cases p)
  note b = prev_cell_bounds [OF assms Some [unfolded p]]
  define s1 where "s1 = damage_line y (edit_line (\<lambda>l. line_add_combining_char l cp x) y s)"
  have s1: "screen_wf s1" "s_columns s1 = s_columns s" "s_lines s1 = s_lines s" "cx s1 = cx s"
    using assms b by (auto simp: s1_def intro!: damage_line_wf edit_line_keeps keeps_line_combining)
  then have "screen_wf (apply_emoji_presentation x y s1)" "screen_wf (apply_text_presentation x y s1)"
    using b by (intro apply_emoji_presentation_wf apply_text_presentation_wf; simp)+
  with s1(1) show ?thesis
    unfolding draw_combining_char_def Some p option.case prod.case Let_def s1_def [symmetric]
    by (simp split: if_split)
qed (simp add: draw_combining_char_def assms)

lemma draw_second_flag_wf:
  assumes "screen_wf s" "draw_second_flag_codepoint cp s = Some s'"
  shows "screen_wf s'"
  using assms(2) wf_bounds(7) [OF assms(1)]
  by (auto simp: draw_second_flag_codepoint_def Let_def split: option.splits if_splits
      intro!: damage_line_wf edit_line_keeps [OF assms(1)] keeps_line_combining)

lemma wcwidth_std_le: "wcwidth_std c \<le> 2"
  by (simp add: wcwidth_std_def Let_def)

lemma make_room_wf:
  assumes "screen_wf s" "w \<le> 2"
  shows "screen_wf (make_room w s)" "cx (make_room w s) + w \<le> s_columns (make_room w s)" "s_columns (make_room w s) = s_columns s"
proof -
  have c: "w \<le> s_columns s" "cx s \<le> s_columns s" "cy s < s_lines s" using wf_bounds(1,6,7) [OF assms(1)] assms(2) by simp_all
  then have "screen_wf (set_cursor (s_columns s - w) (cy s) s)" using assms(1) by (intro set_cursor_wf) simp_all
  with assms show "screen_wf (make_room w s)" by (simp add: make_room_def wrap_line_wf)
  show "cx (make_room w s) + w \<le> s_columns (make_room w s)" "s_columns (make_room w s) = s_columns s"
    using c by (auto simp: make_room_def)
qed

lemma draw_base_char_wf [wf_intros]:
  assumes "screen_wf s"
  shows "screen_wf (draw_base_char cp from s)"
proof -
  define w where "w = (if wcwidth_std cp < 1 then 1 else nat (wcwidth_std cp))"
  have w: "w \<le> 2" using wcwidth_std_le [of cp] by (auto simp: w_def)
  define s1 where "s1 = make_room w (if from then s\<lparr>s_last_graphic_char := cp\<rparr> else s)"
  have s1: "screen_wf s1" "cx s1 + w \<le> s_columns s1"
    unfolding s1_def using assms w by (intro make_room_wf; simp)+
  define s2 where "s2 = edit_line (set_cells (mIRM (s_modes s1)) (cx s1) cp w (s_cursor s1) (s_active_hyperlink_id s1)) (cy s1) s1"
  have s2: "screen_wf s2" "s_cursor s2 = s_cursor s1" "s_columns s2 = s_columns s1" "s_lines s2 = s_lines s1"
    unfolding s2_def using s1 wf_bounds(7) by (auto intro!: edit_line_keeps keeps_line_draw)
  have "screen_wf (set_cursor (cx s1 + w) (cy s1) s2)"
    using s1 s2 wf_bounds(7) [OF s1(1)] by (intro set_cursor_wf) simp_all
  then have "screen_wf (damage_line y (set_cursor (cx s1 + w) (cy s1) s2))" for y by (rule damage_line_wf)
  with assms s2(2) show ?thesis
    by (simp add: draw_base_char_def Let_def w_def [symmetric] s1_def [symmetric] s2_def [symmetric])
qed

lemma note_activity_wf [wf_intros]: "screen_wf s \<Longrightarrow> screen_wf (note_activity s)"
  by (simp add: note_activity_def Let_def)

lemma screen_draw_wf [wf_intros]: "screen_wf s \<Longrightarrow> screen_wf (screen_draw och from s)"
  by (auto simp: screen_draw_def draw_codepoint_def Let_def draw_base_char_wf draw_combining_char_wf note_activity_wf
      dest: draw_second_flag_wf [OF note_activity_wf] split: option.splits)

lemma screen_repeat_character_wf [wf_intros]: "screen_wf s \<Longrightarrow> screen_wf (screen_repeat_character n s)"
proof -
  have "screen_wf s \<Longrightarrow> screen_wf (repeat_loop n c s)" for n c
    by (induction n c s rule: repeat_loop.induct) (auto simp: screen_draw_wf)
  then show "screen_wf s \<Longrightarrow> screen_wf (screen_repeat_character n s)" by (simp add: screen_repeat_character_def)
qed

section \<open>Drawing text inside a line\<close>

text \<open>What a cell shows: its character, link, attributes and colours.\<close>

type_synonym cell_view = "char_type \<times> hyperlink_id_type \<times> cell_attrs \<times> color_type \<times> color_type \<times> color_type"

definition cell_view :: "cpu_cell \<Rightarrow> gpu_cell \<Rightarrow> cell_view" where
  "cell_view p g = (p_ch p, p_hyperlink_id p, g_attrs g, g_fg g, g_bg g, g_decoration_fg g)"

definition line_view :: "screen \<Rightarrow> nat \<Rightarrow> cell_view list" where
  "line_view s y = (let l = linebuf_init_line (s_linebuf s) y in map2 cell_view (l_cpu l) (l_gpu l))"

definition screen_view :: "screen \<Rightarrow> cell_view list list" where
  "screen_view s = map (line_view s) [0 ..< s_lines s]"

lemma s_linebuf_upd [simp]: "s_linebuf (upd_linebuf f s) = f (s_linebuf s)"
  by (simp add: s_linebuf_def upd_linebuf_def)

lemma cells_put_line:
  assumes "lb_wf b" "y < b_ynum b" "j < b_ynum b"
  shows "l_cpu (linebuf_init_line (put_line b y l) j) = (if j = y then l_cpu l else l_cpu (linebuf_init_line b j))"
    "l_gpu (linebuf_init_line (put_line b y l) j) = (if j = y then l_gpu l else l_gpu (linebuf_init_line b j))"
  using row_of_put_line [OF assms, of l] by (auto simp: row_of_def linebuf_init_line_def split: if_splits)

lemma line_view_edit:
  assumes "screen_wf s" "y < s_lines s" "j < s_lines s"
  shows "line_view (edit_line f y s) j =
    (if j = y then (let l = f (linebuf_init_line (s_linebuf s) y) in map2 cell_view (l_cpu l) (l_gpu l)) else line_view s j)"
proof -
  have b: "lb_wf (s_linebuf s)" "b_ynum (s_linebuf s) = s_lines s" using s_linebuf_size [OF assms(1)] by (simp_all add: lb_size_def)
  show ?thesis
    using cells_put_line [of "s_linebuf s" y j "f (linebuf_init_line (s_linebuf s) y)"] b assms(2,3)
    by (simp add: line_view_def edit_line_def Let_def)
qed

lemma screen_view_edit:
  assumes "screen_wf s" "y < s_lines s"
  shows "screen_view (edit_line f y s) = (screen_view s)
    [y := (let l = f (linebuf_init_line (s_linebuf s) y) in map2 cell_view (l_cpu l) (l_gpu l))]"
  by (rule nth_equalityI) (use assms in \<open>auto simp: screen_view_def line_view_edit nth_list_update\<close>)

lemma line_view_attrs: "line_view (upd_linebuf (update_line_attrs y f) s) j = line_view s j"
  by (simp add: line_view_def linebuf_init_line_def update_line_attrs_def)

lemma s_linebuf_fields [simp]:
  "s_linebuf (s\<lparr>s_is_dirty := d\<rparr>) = s_linebuf s" "s_linebuf (s\<lparr>s_selections := sel\<rparr>) = s_linebuf s"
  "s_linebuf (s\<lparr>s_last_graphic_char := c\<rparr>) = s_linebuf s" "s_linebuf (s\<lparr>s_has_activity := d\<rparr>) = s_linebuf s"
  "s_linebuf (s\<lparr>s_log := lg\<rparr>) = s_linebuf s"
  by (simp_all add: s_linebuf_def)

lemma screen_view_frame [simp]:
  "screen_view (damage_line y s) = screen_view s" "screen_view (set_cursor a b s) = screen_view s"
  "screen_view (s\<lparr>s_last_graphic_char := c\<rparr>) = screen_view s" "screen_view (note_activity s) = screen_view s"
proof -
  have "screen_view (upd_linebuf (update_line_attrs y f) s) = screen_view s" for f s
    by (simp add: screen_view_def line_view_attrs)
  then show "screen_view (damage_line y s) = screen_view s"
    by (simp add: damage_line_def Let_def linebuf_mark_line_dirty_def) (simp add: screen_view_def line_view_def)
qed (simp_all add: screen_view_def line_view_def note_activity_def Let_def emit_def)

lemma length_line_view: "screen_wf s \<Longrightarrow> y < s_lines s \<Longrightarrow> length (line_view s y) = s_columns s"
  using s_linebuf_size [of s] linebuf_init_line_wf [of "s_linebuf s" y]
  by (simp add: line_view_def Let_def lb_size_def line_wf_def)

text \<open>A character that is drawn as it is, in one cell.\<close>

definition plain_char :: "charset_state \<Rightarrow> char_type \<Rightarrow> bool" where
  "plain_char cs c = (\<not> is_ignored_char c \<and> \<not> is_combining_char c \<and> wcwidth_std c = 1
     \<and> (c < 256 \<longrightarrow> cs_g cs ! unat c = c))"

definition drawn_cell :: "screen \<Rightarrow> char_type \<Rightarrow> cell_view" where
  "drawn_cell s c = (c, s_active_hyperlink_id s, cursor_to_attrs (s_cursor s) 1, c_fg (s_cursor s), c_bg (s_cursor s),
     c_decoration_fg (s_cursor s))"

lemma note_activity_frame [simp]:
  "s_columns (note_activity s) = s_columns s" "s_lines (note_activity s) = s_lines s" "s_cursor (note_activity s) = s_cursor s"
  "s_modes (note_activity s) = s_modes s" "s_charsets (note_activity s) = s_charsets s"
  "s_active_hyperlink_id (note_activity s) = s_active_hyperlink_id s" "s_linebuf (note_activity s) = s_linebuf s"
  by (simp_all add: note_activity_def Let_def emit_def)

lemma damage_line_link [simp]: "s_active_hyperlink_id (damage_line y s) = s_active_hyperlink_id s"
  "s_charsets (damage_line y s) = s_charsets s"
  by (simp_all add: damage_line_def Let_def)

lemma set_cursor_link [simp]: "s_active_hyperlink_id (set_cursor a b s) = s_active_hyperlink_id s"
  "s_charsets (set_cursor a b s) = s_charsets s" "s_cursor (set_cursor a b s) = (s_cursor s)\<lparr>c_x := a, c_y := b\<rparr>"
  by (simp_all add: set_cursor_def)

lemma set_one_cell_view:
  assumes "line_wf l" "x < l_xnum l"
  shows "map2 cell_view (l_cpu (line_set_char l x c 1 (Some cur) link)) (l_gpu (line_set_char l x c 1 (Some cur) link))
    = (map2 cell_view (l_cpu l) (l_gpu l))[x := (c, link, cursor_to_attrs cur 1, c_fg cur, c_bg cur, c_decoration_fg cur)]"
  using assms
  by (intro nth_equalityI)
    (auto simp: line_wf_def line_set_char_def map_cpu_def map_gpu_def Let_def cell_view_def clear_cc_def nth_list_update)

lemma draw_plain_char:
  assumes wf: "screen_wf s" and "\<not> mIRM (s_modes s)" "plain_char (s_charsets s) c" "cx s < s_columns s"
  defines "s' \<equiv> screen_draw c True s"
  shows "screen_wf s'" "s_cursor s' = (s_cursor s)\<lparr>c_x := cx s + 1\<rparr>" "s_modes s' = s_modes s" "s_charsets s' = s_charsets s"
    "s_active_hyperlink_id s' = s_active_hyperlink_id s" "s_columns s' = s_columns s" "s_lines s' = s_lines s"
    "screen_view s' = (screen_view s)[cy s := (line_view s (cy s))[cx s := drawn_cell s c]]"
proof -
  define s1 where "s1 = (note_activity s)\<lparr>s_last_graphic_char := c\<rparr>"
  define s2 where "s2 = edit_line (set_cells False (cx s) c 1 (s_cursor s) (s_active_hyperlink_id s)) (cy s) s1"
  have s1: "screen_wf s1" "s_columns s1 = s_columns s" "s_lines s1 = s_lines s" "s_cursor s1 = s_cursor s" "s_modes s1 = s_modes s"
    "s_charsets s1 = s_charsets s" "s_active_hyperlink_id s1 = s_active_hyperlink_id s" "screen_view s1 = screen_view s"
    "s_linebuf s1 = s_linebuf s"
    using wf by (simp_all add: s1_def note_activity_wf)
  have y: "cy s < s_lines s" using wf by (rule wf_bounds)
  have c: "\<not> is_ignored_char c" "\<not> is_combining_char c" "wcwidth_std c = 1" "c < 256 \<Longrightarrow> cs_g (s_charsets s) ! unat c = c"
    using assms(3) by (simp_all add: plain_char_def)
  have room: "make_room 1 s1 = s1" using assms(4) by (simp add: make_room_def s1)
  have "s' = draw_base_char c True (note_activity s)"
    using c by (simp add: s'_def screen_draw_def draw_codepoint_def Let_def)
  also have "\<dots> = damage_line (cy s) (set_cursor (cx s + 1) (cy s) s2)"
    using c(3) assms(2) room [unfolded s1_def]
    by (simp add: draw_base_char_def Let_def s2_def s1_def)
  finally have s': "s' = damage_line (cy s) (set_cursor (cx s + 1) (cy s) s2)" .
  show "screen_wf s'" unfolding s'_def using wf by (rule screen_draw_wf)
  show "s_cursor s' = (s_cursor s)\<lparr>c_x := cx s + 1\<rparr>" "s_modes s' = s_modes s" "s_charsets s' = s_charsets s"
    "s_active_hyperlink_id s' = s_active_hyperlink_id s" "s_columns s' = s_columns s" "s_lines s' = s_lines s"
    by (simp_all add: s' s2_def s1)
  have b: "lb_wf (s_linebuf s)" "b_ynum (s_linebuf s) = s_lines s" "b_xnum (s_linebuf s) = s_columns s"
    using s_linebuf_size [OF wf] by (simp_all add: lb_size_def)
  let ?l = "linebuf_init_line (s_linebuf s) (cy s)"
  have l: "line_wf ?l" "l_xnum ?l = s_columns s" using b y by (simp_all add: linebuf_init_line_wf)
  have "screen_view s' = (screen_view s)[cy s :=
      (let l = set_cells False (cx s) c 1 (s_cursor s) (s_active_hyperlink_id s) ?l in map2 cell_view (l_cpu l) (l_gpu l))]"
    using screen_view_edit [of s1 "cy s"] y s1 by (simp add: s' s2_def)
  then show "screen_view s' = (screen_view s)[cy s := (line_view s (cy s))[cx s := drawn_cell s c]]"
    using set_one_cell_view [OF l(1), of "cx s" c "s_cursor s" "s_active_hyperlink_id s"] l(2) assms(4)
    by (simp add: set_cells_def Let_def line_view_def drawn_cell_def)
qed



end
