(* ===== verification/Screen_Report.thy ===== *)
theory Screen_Report
  imports Screen_Draw
begin

text \<open>
  Device control of \<^verbatim>\<open>smelly/screen.c\<close>: the answers the screen writes to the child, the callbacks to the
  Python side, the bell, prompt marks and the graphics commands.
\<close>

section \<open>Writing escape codes\<close>

definition bytes :: "string \<Rightarrow> u8 list" where
  "bytes s = map of_char s"

definition ascii_bytes :: "u32 list \<Rightarrow> u8 list" where
  "ascii_bytes cs = map ucast cs"

definition print_nat :: "nat \<Rightarrow> u8 list" where
  "print_nat n = ascii_bytes (decimal n)"

text \<open>\<open>None\<close> is the call of \<^verbatim>\<open>fatal\<close>.\<close>

definition get_prefix_and_suffix_for_escape_code :: "bool \<Rightarrow> u32 \<Rightarrow> (u8 list \<times> u8 list) option" where
  "get_prefix_and_suffix_for_escape_code eight_bit which =
     (let suffix = (if eight_bit then [0x9c] else [0x1b, 0x5c]);
          prefix = (\<lambda>c1 c. if eight_bit then [c1] else [0x1b, of_char c])
      in if which = DCS then Some (prefix 0x90 CHR ''P'', suffix)
         else if which = CSI then Some (prefix 0x9b CHR ''['', [])
         else if which = OSC then Some (prefix 0x9d CHR '']'', suffix)
         else if which = PM then Some (prefix 0x9e CHR ''^'', suffix)
         else if which = APC then Some (prefix 0x9f CHR ''_'', suffix)
         else None)"

definition write_escape_code_to_child :: "u32 \<Rightarrow> u8 list \<Rightarrow> screen \<Rightarrow> screen" where
  "write_escape_code_to_child which data s =
     (case get_prefix_and_suffix_for_escape_code (eight_bit_controls (s_modes s)) which of
        Some (prefix, suffix) \<Rightarrow> emit (Child_write (prefix @ data @ suffix)) s
      | None \<Rightarrow> s)"

section \<open>Answers\<close>

definition screen_report_key_encoding_flags :: "screen \<Rightarrow> screen" where
  "screen_report_key_encoding_flags s =
     write_escape_code_to_child CSI
       (bytes ''?'' @ print_nat (unat (screen_current_key_encoding_flags s)) @ bytes ''u'') s"

definition report_device_attributes :: "nat \<Rightarrow> u32 \<Rightarrow> screen \<Rightarrow> screen" where
  "report_device_attributes mode start_modifier s =
     (if mode = 0 then
        (if start_modifier = 0 then write_escape_code_to_child CSI (bytes ''?62;c'') s
         else if start_modifier = ch CHR ''>'' then
           write_escape_code_to_child CSI
             (bytes ''>1;'' @ bytes (e_primary_version (s_env s)) @ bytes '';''
              @ bytes (e_secondary_version (s_env s)) @ bytes ''c'') s
         else s)
      else s)"

definition screen_xtversion :: "nat \<Rightarrow> screen \<Rightarrow> screen" where
  "screen_xtversion mode s =
     (if mode = 0
      then write_escape_code_to_child DCS (bytes ''>|smelly('' @ bytes (e_xt_version (s_env s)) @ bytes '')'') s
      else s)"

definition screen_report_size :: "nat \<Rightarrow> screen \<Rightarrow> screen" where
  "screen_report_size which s =
     (let (code, width, height) =
            (if which = 14 then (4, s_cell_width s * s_columns s, s_cell_height s * s_lines s)
             else if which = 16 then (6, s_cell_width s, s_cell_height s)
             else if which = 18 then (8, s_columns s, s_lines s)
             else (0 :: nat, 0, 0))
      in if code \<noteq> 0 then
           write_escape_code_to_child CSI
             (print_nat code @ bytes '';'' @ print_nat (height mod 2 ^ 32) @ bytes '';''
              @ print_nat (width mod 2 ^ 32) @ bytes ''t'') s
         else s)"

definition report_device_status :: "nat \<Rightarrow> bool \<Rightarrow> screen \<Rightarrow> screen" where
  "report_device_status which private_mode s =
     (if which = 5 then write_escape_code_to_child CSI (bytes ''0n'') s
      else if which = 6 then
        (let (x, y) = (if cx s \<ge> s_columns s
                       then (if cy s < s_lines s - 1 then (0, cy s + 1) else (cx s - 1, cy s))
                       else (cx s, cy s));
             y = (if mDECOM (s_modes s)
                  then unat (word_of_nat y - word_of_nat (max y (s_margin_top s)) :: u32) else y)
         in write_escape_code_to_child CSI
              (bytes (if private_mode then ''?'' else '''') @ print_nat ((y + 1) mod 2 ^ 32) @ bytes '';''
               @ print_nat (x + 1) @ bytes ''R'') s)
      else s)"

text \<open>1 is set, 2 is reset, 0 is unknown.\<close>

definition mode_status :: "screen \<Rightarrow> nat \<Rightarrow> nat" where
  "mode_status s q =
     (let m = s_modes s; flag = (\<lambda>b. if b then 1 else 2) in
      if q = LNM then flag (mLNM m)
      else if q = IRM then flag (mIRM m)
      else if q = DECTCEM then flag (mDECTCEM m)
      else if q = DECSCNM then flag (mDECSCNM m)
      else if q = DECOM then flag (mDECOM m)
      else if q = DECAWM then flag (mDECAWM m)
      else if q = DECCOLM then flag (mDECCOLM m)
      else if q = DECARM then flag (mDECARM m)
      else if q = DECCKM then flag (mDECCKM m)
      else if q = BRACKETED_PASTE then flag (mBRACKETED_PASTE m)
      else if q = FOCUS_TRACKING then flag (mFOCUS_TRACKING m)
      else if q = ALTERNATE_SCREEN then flag (\<not> s_on_main s)
      else if q = MOUSE_BUTTON_TRACKING then flag (mouse_mode m = BUTTON_MODE)
      else if q = MOUSE_MOTION_TRACKING then flag (mouse_mode m = MOTION_MODE)
      else if q = MOUSE_MOVE_TRACKING then flag (mouse_mode m = ANY_MODE)
      else if q = MOUSE_SGR_MODE then flag (mouse_protocol m = SGR_PROTOCOL)
      else if q = MOUSE_UTF8_MODE then flag (mouse_protocol m = UTF8_PROTOCOL)
      else if q = MOUSE_SGR_PIXEL_MODE then flag (mouse_protocol m = SGR_PIXEL_PROTOCOL)
      else if q = PENDING_UPDATE then flag (pending_activated_at (s_dec s) \<noteq> 0)
      else 0)"

definition report_mode_status :: "nat \<Rightarrow> bool \<Rightarrow> screen \<Rightarrow> screen" where
  "report_mode_status which private_mode s =
     (let q = (if private_mode then (which * 2 ^ 5) mod 2 ^ 32 else which)
      in write_escape_code_to_child CSI
           (bytes (if private_mode then ''?'' else '''') @ print_nat which @ bytes '';''
            @ print_nat (mode_status s q) @ bytes ''$y'') s)"

text \<open>\<^verbatim>\<open>snprintf(buf, 128, ..)\<close> cuts the text.\<close>

definition cursor_shape_report :: "cursor \<Rightarrow> nat" where
  "cursor_shape_report c =
     (case c_shape c of
        NO_CURSOR_SHAPE \<Rightarrow> 1
      | CURSOR_BLOCK \<Rightarrow> (if c_non_blinking c then 2 else 0)
      | CURSOR_UNDERLINE \<Rightarrow> (if c_non_blinking c then 4 else 3)
      | CURSOR_BEAM \<Rightarrow> (if c_non_blinking c then 6 else 5))"

definition screen_request_capabilities :: "u32 \<Rightarrow> u32 list \<Rightarrow> screen \<Rightarrow> screen" where
  "screen_request_capabilities c q s =
     (if c = ch CHR ''+'' then callback ''request_capabilities'' [Arg_string q] s
      else if c = ch CHR ''$'' then
        write_escape_code_to_child DCS (take 127
          (if q = chars '' q'' then bytes ''1$r'' @ print_nat (cursor_shape_report (s_cursor s)) @ bytes '' q''
           else if q = chars ''m'' then bytes ''1$r'' @ ascii_bytes (cursor_as_sgr (s_cursor s)) @ bytes ''m''
           else if q = chars ''r'' then
             bytes ''1$r'' @ print_nat (s_margin_top s + 1) @ bytes '';'' @ print_nat (s_margin_bottom s + 1) @ bytes ''r''
           else bytes ''0$r'' @ concat (map encode_utf8 q))) s
      else s)"

section \<open>Bell and colours\<close>

definition screen_bell :: "screen \<Rightarrow> screen" where
  "screen_bell s =
     (let b = s_bell s; now = now_monotonic (s_dec s) in
      if bell_ignore_start b \<noteq> 0 \<and> now < bell_ignore_start b + bell_ignore_duration b
      then s\<lparr>s_bell := b\<lparr>bell_ignore_start := now\<rparr>\<rparr>
      else
        (let b = b\<lparr>bell_ignore_start := 0\<rparr>;
             b = (if e_visual_bell (s_env s) then b\<lparr>bell_visual_start := now\<rparr> else b)
         in callback ''on_bell'' [] (emit Window_attention (s\<lparr>s_bell := b\<rparr>))))"

definition screen_push_colors :: "nat \<Rightarrow> screen \<Rightarrow> screen" where
  "screen_push_colors idx s =
     (let (pushed, c) = colorprofile_push_colors (s_color_profile s) idx
      in s\<lparr>s_color_profile := if pushed then c\<lparr>cp_dirty := True\<rparr> else c\<rparr>)"

definition background_rgb :: "color_profile \<Rightarrow> 24 word" where
  "background_rgb c = dc_rgb (colorprofile_to_color c (default_bg (overridden c)) (default_bg (configured c)))"

definition screen_pop_colors :: "nat \<Rightarrow> screen \<Rightarrow> screen" where
  "screen_pop_colors idx s =
     (let bg_before = background_rgb (s_color_profile s);
          (popped, c) = colorprofile_pop_colors (s_color_profile s) idx
      in if popped then
           callback ''color_profile_popped'' [Arg_bool (bg_before \<noteq> background_rgb c)]
             (s\<lparr>s_color_profile := c\<lparr>cp_dirty := True\<rparr>\<rparr>)
         else s\<lparr>s_color_profile := c\<rparr>)"

definition screen_report_color_stack :: "screen \<Rightarrow> screen" where
  "screen_report_color_stack s =
     (let (idx, n) = colorprofile_report_stack (s_color_profile s)
      in write_escape_code_to_child CSI (print_nat idx @ bytes '';'' @ print_nat n @ bytes ''#Q'') s)"

section \<open>Callbacks\<close>

definition screen_use_latin1 :: "bool \<Rightarrow> screen \<Rightarrow> screen" where
  "screen_use_latin1 on s =
     callback ''use_utf8'' [Arg_bool (\<not> on)]
       (s\<lparr>s_dec := (s_dec s)\<lparr>use_latin1 := on, utf8_state := 0, utf8_codepoint := 0\<rparr>\<rparr>)"

definition screen_manipulate_title_stack :: "nat \<Rightarrow> nat \<Rightarrow> screen \<Rightarrow> screen" where
  "screen_manipulate_title_stack op which s =
     callback ''manipulate_title_stack''
       [Arg_bool (op = 23), Arg_bool (which = 0 \<or> which = 2), Arg_bool (which = 0 \<or> which = 1)] s"

definition set_title :: "u32 list \<Rightarrow> screen \<Rightarrow> screen" where
  "set_title title s = callback ''title_changed'' [Arg_string title] s"

definition set_icon :: "u32 list \<Rightarrow> screen \<Rightarrow> screen" where
  "set_icon icon s = callback ''icon_changed'' [Arg_string icon] s"

definition desktop_notify :: "int \<Rightarrow> u32 list \<Rightarrow> screen \<Rightarrow> screen" where
  "desktop_notify code data s = callback ''desktop_notify'' [Arg_int code, Arg_string data] s"

definition set_dynamic_color :: "int \<Rightarrow> u32 list \<Rightarrow> screen \<Rightarrow> screen" where
  "set_dynamic_color code color s = callback ''set_dynamic_color'' [Arg_int code, Arg_string color] s"

definition set_color_table_color :: "int \<Rightarrow> u32 list \<Rightarrow> screen \<Rightarrow> screen" where
  "set_color_table_color code color s = callback ''set_color_table_color'' [Arg_int code, Arg_string color] s"

definition clipboard_control :: "int \<Rightarrow> u32 list \<Rightarrow> screen \<Rightarrow> screen" where
  "clipboard_control code data s =
     callback ''clipboard_control''
       [Arg_string data, if code = 52 \<or> code = -52 then Arg_bool (code = -52) else Arg_none] s"

definition file_transmission :: "u32 list \<Rightarrow> screen \<Rightarrow> screen" where
  "file_transmission data s = callback ''file_transmission'' [Arg_string data] s"

definition process_cwd_notification :: "int \<Rightarrow> u32 list \<Rightarrow> screen \<Rightarrow> screen" where
  "process_cwd_notification code cwd s = (if code = 7 then s\<lparr>s_last_reported_cwd := Some cwd\<rparr> else s)"

definition screen_handle_cmd :: "u32 list \<Rightarrow> screen \<Rightarrow> screen" where
  "screen_handle_cmd cmd s = callback ''handle_remote_cmd'' [Arg_string cmd] s"

definition screen_handle_smelly_dcs :: "string \<Rightarrow> u32 list \<Rightarrow> screen \<Rightarrow> screen" where
  "screen_handle_smelly_dcs name cmd s = callback name [Arg_string cmd] s"

section \<open>Prompt marks\<close>

fun split_at_semicolons :: "u32 list \<Rightarrow> u32 list \<Rightarrow> u32 list list" where
  "split_at_semicolons cur [] = [cur]"
| "split_at_semicolons cur (c # cs) =
     (if c = ch CHR '';'' then cur # split_at_semicolons [] cs else split_at_semicolons (cur @ [c]) cs)"

text \<open>The kind of the prompt and \<^verbatim>\<open>redraws_prompts_at_all\<close>.\<close>

fun parse_prompt_mark :: "u32 list list \<Rightarrow> prompt_kind \<times> bool \<Rightarrow> prompt_kind \<times> bool" where
  "parse_prompt_mark [] r = r"
| "parse_prompt_mark (token # ts) (pk, redraws) =
     parse_prompt_mark ts
       (if token = chars ''k=s'' then (SECONDARY_PROMPT, redraws)
        else if token = chars ''redraw=0'' then (pk, False) else (pk, redraws))"

definition set_prompt_kind :: "prompt_kind \<Rightarrow> screen \<Rightarrow> screen" where
  "set_prompt_kind pk s = upd_linebuf (update_line_attrs (cy s) (\<lambda>a. a\<lparr>la_prompt_kind := pk\<rparr>)) s"

definition shell_prompt_marking :: "u32 list \<Rightarrow> screen \<Rightarrow> screen" where
  "shell_prompt_marking data s =
     (if data \<noteq> [] \<and> cy s < s_lines s then
        (if hd data = ch CHR ''A'' then
           (let (pk, redraws) = parse_prompt_mark (split_at_semicolons [] data) (PROMPT_START, True)
            in set_prompt_kind pk (s\<lparr>s_redraws_prompts := redraws\<rparr>))
         else if hd data = ch CHR ''C'' then set_prompt_kind OUTPUT_START s
         else s)
      else s)"

function scroll_to_prompt_loop :: "screen \<Rightarrow> bool \<Rightarrow> nat \<Rightarrow> int \<Rightarrow> int option" where
  "scroll_to_prompt_loop s up n y =
     (if n = 0 then Some y
      else
        (let y = (if up then y - 1 else y + 1) in
         if y \<ge> int (s_lines s) \<or> - y > int (h_count (s_historybuf s)) then None
         else scroll_to_prompt_loop s up
                (if la_prompt_kind (l_attrs (range_line s y)) = PROMPT_START then n - 1 else n) y))"
  by pat_completeness auto
termination
  by (relation "measure (\<lambda>(s, up, n, y).
      nat (if up then y + int (h_count (s_historybuf s)) + 1 else int (s_lines s) - y))") auto

declare scroll_to_prompt_loop.simps [simp del]

definition screen_set_last_visited_prompt :: "nat \<Rightarrow> screen \<Rightarrow> screen" where
  "screen_set_last_visited_prompt y s =
     (if y \<ge> s_lines s then s
      else s\<lparr>s_last_visited_prompt := \<lparr>vp_scrolled_by = s_scrolled_by s, vp_y = y, vp_is_set = True\<rparr>\<rparr>)"

definition screen_history_scroll_to_prompt :: "int \<Rightarrow> screen \<Rightarrow> bool \<times> screen" where
  "screen_history_scroll_to_prompt jump s =
     (let old = s_scrolled_by s; count = h_count (s_historybuf s);
          finish = (\<lambda>s. (old \<noteq> s_scrolled_by s, if old \<noteq> s_scrolled_by s then s\<lparr>s_scroll_changed := True\<rparr> else s))
      in if \<not> s_on_main s then (False, s)
         else if jump = 0 then
           (let v = s_last_visited_prompt s in
            if \<not> vp_is_set v \<or> vp_scrolled_by v > count \<or> vp_y v \<ge> s_lines s then (False, s)
            else finish (s\<lparr>s_scrolled_by := vp_scrolled_by v\<rparr>))
         else if s_scrolled_by s > count then (False, s)
         else
           (case scroll_to_prompt_loop s (jump < 0) (nat \<bar>jump\<bar>) (- int (s_scrolled_by s)) of
              None \<Rightarrow> (False, s)
            | Some y \<Rightarrow>
                finish (screen_set_last_visited_prompt 0 (s\<lparr>s_scrolled_by := if y \<ge> 0 then 0 else nat (- y)\<rparr>))))"

section \<open>Graphics\<close>

definition screen_handle_graphics_command :: "graphics_command \<Rightarrow> u8 list \<Rightarrow> screen \<Rightarrow> screen" where
  "screen_handle_graphics_command cmd payload s =
     (let (x, y) = (cx s, cy s);
          (response, (x', y'), dirty) = e_graphics (s_env s) (s_log s) cmd payload (x, y);
          s = emit (Grman_command (s_on_main s) cmd payload) s;
          s = set_cursor x' y' (if dirty then s\<lparr>s_is_dirty := True\<rparr> else s);
          s = (case response of Some r \<Rightarrow> write_escape_code_to_child APC r s | None \<Rightarrow> s)
      in if x' \<noteq> x \<or> y' \<noteq> y then
           (let in_margins = cursor_within_margins s;
                s = (if cx s \<ge> s_columns s then set_cursor 0 (cy s + 1) s else s);
                s = (if cy s > s_margin_bottom s then screen_scroll (cy s - s_margin_bottom s) s else s)
            in screen_ensure_bounds False in_margins s)
         else s)"

section \<open>The invariant\<close>

lemma write_escape_code_wf [simp]: "screen_wf (write_escape_code_to_child which data s) = screen_wf s"
  by (simp add: write_escape_code_to_child_def split: option.split)

lemma write_escape_code_frame [simp, frame_simps]:
  "s_cursor (write_escape_code_to_child w data s) = s_cursor s" "s_columns (write_escape_code_to_child w data s) = s_columns s"
  "s_lines (write_escape_code_to_child w data s) = s_lines s"
  "s_margin_bottom (write_escape_code_to_child w data s) = s_margin_bottom s"
  by (simp_all add: write_escape_code_to_child_def emit_def split: option.split)

lemma report_ops_wf [simp]:
  "screen_wf (screen_report_key_encoding_flags s) = screen_wf s" "screen_wf (report_device_attributes n m s) = screen_wf s"
  "screen_wf (screen_xtversion n s) = screen_wf s" "screen_wf (screen_report_size n s) = screen_wf s"
  "screen_wf (report_device_status n b s) = screen_wf s" "screen_wf (report_mode_status n b s) = screen_wf s"
  "screen_wf (screen_request_capabilities c q s) = screen_wf s" "screen_wf (screen_report_color_stack s) = screen_wf s"
  "screen_wf (screen_manipulate_title_stack n k s) = screen_wf s"
  by (simp_all add: screen_report_key_encoding_flags_def report_device_attributes_def screen_xtversion_def
      screen_report_size_def report_device_status_def report_mode_status_def screen_request_capabilities_def
      screen_report_color_stack_def screen_manipulate_title_stack_def Let_def split: prod.split)

lemma callback_ops_wf [simp]:
  "screen_wf (set_title u s) = screen_wf s" "screen_wf (set_icon u s) = screen_wf s" "screen_wf (desktop_notify i u s) = screen_wf s"
  "screen_wf (set_dynamic_color i u s) = screen_wf s" "screen_wf (set_color_table_color i u s) = screen_wf s"
  "screen_wf (clipboard_control i u s) = screen_wf s" "screen_wf (file_transmission u s) = screen_wf s"
  "screen_wf (process_cwd_notification i u s) = screen_wf s" "screen_wf (screen_handle_cmd u s) = screen_wf s"
  "screen_wf (screen_handle_smelly_dcs name u s) = screen_wf s" "screen_wf (screen_bell s) = screen_wf s"
  by (simp_all add: set_title_def set_icon_def desktop_notify_def set_dynamic_color_def set_color_table_color_def
      clipboard_control_def file_transmission_def process_cwd_notification_def screen_handle_cmd_def
      screen_handle_smelly_dcs_def screen_bell_def Let_def)

lemma screen_use_latin1_wf [wf_intros]: "screen_wf s \<Longrightarrow> screen_wf (screen_use_latin1 on s)"
  by (simp add: screen_use_latin1_def dec_wf)

lemma cp_wf_dirty [simp]: "cp_wf (c\<lparr>cp_dirty := d\<rparr>) = cp_wf c"
  by (simp add: cp_wf_def)

lemma screen_color_ops_wf [wf_intros]:
  "screen_wf s \<Longrightarrow> screen_wf (screen_push_colors n s)" "screen_wf s \<Longrightarrow> screen_wf (screen_pop_colors n s)"
proof -
  have c: "screen_wf s \<Longrightarrow> cp_wf c \<Longrightarrow> screen_wf (s\<lparr>s_color_profile := c\<rparr>)" for s c by (simp add: screen_wf_def)
  have p: "screen_wf s \<Longrightarrow> cp_wf (s_color_profile s)" for s by (simp add: screen_wf_def)
  show "screen_wf s \<Longrightarrow> screen_wf (screen_push_colors n s)" "screen_wf s \<Longrightarrow> screen_wf (screen_pop_colors n s)"
    using push_wf [OF p, of s n] pop_wf [OF p, of s n]
    by (auto simp: screen_push_colors_def screen_pop_colors_def Let_def split: prod.splits intro!: c)
qed

lemma set_prompt_kind_wf: "screen_wf s \<Longrightarrow> screen_wf (set_prompt_kind pk s)"
  unfolding set_prompt_kind_def by (intro upd_linebuf_wf lb_size_ops)

lemma shell_prompt_marking_wf [wf_intros]: "screen_wf s \<Longrightarrow> screen_wf (shell_prompt_marking data s)"
  by (simp add: shell_prompt_marking_def set_prompt_kind_wf split: prod.split)

lemma screen_history_scroll_to_prompt_wf [wf_intros]:
  "screen_wf s \<Longrightarrow> screen_wf (snd (screen_history_scroll_to_prompt n s))"
  by (auto simp: screen_history_scroll_to_prompt_def Let_def screen_set_last_visited_prompt_def split: option.splits)

text \<open>Scrolling does not look at the cursor, which the graphics command may have moved anywhere.\<close>

lemma upd_linebuf_set_cursor: "upd_linebuf f (set_cursor x y s) = set_cursor x y (upd_linebuf f s)"
  by (simp add: upd_linebuf_def set_cursor_def)

lemma add_to_history_set_cursor: "add_to_history b (set_cursor x y s) = set_cursor x y (add_to_history b s)"
  by (simp add: add_to_history_def set_cursor_def s_linebuf_def Let_def split: prod.split)

lemma index_up_set_cursor: "index_up t b (set_cursor x y s) = set_cursor x y (index_up t b s)"
proof -
  have "index_graphics a t b (set_cursor x y s) = set_cursor x y (index_graphics a t b s)" for a s
    by (simp add: index_graphics_def set_cursor_def emit_def)
  moreover have "(set_cursor x y s)\<lparr>s_is_dirty := d, s_selections := sel\<rparr> = set_cursor x y (s\<lparr>s_is_dirty := d, s_selections := sel\<rparr>)" for s d sel
    by (simp add: set_cursor_def)
  moreover have "s_selections (set_cursor x y s) = s_selections s" for s by (simp add: set_cursor_def)
  ultimately show ?thesis
    by (simp add: index_up_def Let_def upd_linebuf_set_cursor add_to_history_set_cursor if_distrib [of "upd_linebuf _"] cong: if_cong)
qed

lemma screen_scroll_set_cursor: "screen_scroll n (set_cursor x y s) = set_cursor x y (screen_scroll n s)"
proof -
  have "scroll_loop n t b (set_cursor x y s) = set_cursor x y (scroll_loop n t b s)" for n t b
    by (induction n t b s rule: scroll_loop.induct) (simp_all add: index_up_set_cursor)
  then show ?thesis by (simp add: screen_scroll_def)
qed

lemma screen_handle_graphics_command_wf [wf_intros]:
  assumes "screen_wf s"
  shows "screen_wf (screen_handle_graphics_command cmd payload s)"
proof -
  obtain response x' y' dirty where g: "e_graphics (s_env s) (s_log s) cmd payload (cx s, cy s) = (response, (x', y'), dirty)"
    by (metis surj_pair)
  define s1 where "s1 = emit (Grman_command (s_on_main s) cmd payload) s"
  define s2 where "s2 = (if dirty then s1\<lparr>s_is_dirty := True\<rparr> else s1)"
  define s3 where "s3 = (case response of Some r \<Rightarrow> write_escape_code_to_child APC r s2 | None \<Rightarrow> s2)"
  have wf: "screen_wf s3" using assms by (simp add: s3_def s2_def s1_def split: option.split)
  have cur: "s_cursor s3 = s_cursor s" by (simp add: s3_def s2_def s1_def emit_def split: option.split)
  have c: "(case response of Some r \<Rightarrow> write_escape_code_to_child APC r (set_cursor x' y' s2) | None \<Rightarrow> set_cursor x' y' s2)
      = set_cursor x' y' s3"
    by (simp add: s3_def write_escape_code_to_child_def set_cursor_def emit_def split: option.split)
  have twice: "set_cursor a b (set_cursor a' b' s) = set_cursor a b s" for a b a' b' s by (simp add: set_cursor_def)
  have moved: "screen_wf (screen_ensure_bounds f m (screen_scroll n (set_cursor a b s3)))"
    "screen_wf (screen_ensure_bounds f m (set_cursor a b s3))" for a b f m n
    using wf by (simp_all add: screen_scroll_set_cursor ensure_bounds_wf screen_scroll_wf)
  have "screen_handle_graphics_command cmd payload s =
      (if x' \<noteq> cx s \<or> y' \<noteq> cy s then
           (let s = set_cursor x' y' s3; in_margins = cursor_within_margins s;
                s = (if cx s \<ge> s_columns s then set_cursor 0 (cy s + 1) s else s);
                s = (if cy s > s_margin_bottom s then screen_scroll (cy s - s_margin_bottom s) s else s)
            in screen_ensure_bounds False in_margins s)
         else set_cursor x' y' s3)"
    unfolding screen_handle_graphics_command_def Let_def prod.case g s1_def [symmetric] s2_def [symmetric] c ..
  moreover have "set_cursor (cx s) (cy s) s3 = s3" by (simp add: cur [symmetric])
  ultimately show ?thesis using wf moved by (auto simp: Let_def twice)
qed

end
