(* ===== verification/Screen_Exec.thy ===== *)
theory Screen_Exec
  imports Screen_Report Pending
begin

text \<open>
  The functions of \<^verbatim>\<open>smelly/screen.c\<close> behind the calls of the parser, and what sequences of calls do: they
  keep the invariant of the screen, they change the decoder and the savepoints only where the code says
  so, and on the alternate screen they leave the main screen alone. The screen is an instance of the
  interface the parser is proved against.
\<close>

section \<open>The calls\<close>

definition screen_tabn :: "nat \<Rightarrow> screen \<Rightarrow> screen" where
  "screen_tabn n s = (screen_tab ^^ max 1 n) s"

fun run_call0 :: "screen_call0 \<Rightarrow> screen \<Rightarrow> screen" where
  "run_call0 Screen_bell s = screen_bell s"
| "run_call0 Screen_backspace s = screen_backspace s"
| "run_call0 Screen_tab s = screen_tab s"
| "run_call0 Screen_carriage_return s = screen_carriage_return s"
| "run_call0 Screen_linefeed s = screen_linefeed s"
| "run_call0 Screen_index s = screen_index s"
| "run_call0 Screen_reverse_index s = screen_reverse_index s"
| "run_call0 Screen_set_tab_stop s = screen_set_tab_stop s"
| "run_call0 Screen_reset s = screen_reset s"
| "run_call0 Screen_save_cursor s = screen_save_cursor s"
| "run_call0 Screen_restore_cursor s = screen_restore_cursor s"
| "run_call0 Screen_normal_keypad_mode s = s"
| "run_call0 Screen_alternate_keypad_mode s = s"
| "run_call0 Screen_align s = screen_align s"
| "run_call0 Screen_report_color_stack s = screen_report_color_stack s"
| "run_call0 Screen_save_modes s = screen_save_modes s"
| "run_call0 Screen_restore_modes s = screen_restore_modes s"
| "run_call0 Screen_report_key_encoding_flags s = screen_report_key_encoding_flags s"

fun run_call1 :: "screen_call1 \<Rightarrow> nat \<Rightarrow> screen \<Rightarrow> screen" where
  "run_call1 Screen_insert_characters n s = screen_insert_characters n s"
| "run_call1 Screen_repeat_character n s = screen_repeat_character n s"
| "run_call1 Screen_cursor_up2 n s = screen_cursor_up n False (- 1) s"
| "run_call1 Screen_cursor_down n s = screen_cursor_down n s"
| "run_call1 Screen_cursor_forward n s = screen_cursor_forward n s"
| "run_call1 Screen_cursor_back1 n s = screen_cursor_back n (- 1) s"
| "run_call1 Screen_cursor_down1 n s = screen_cursor_down1 n s"
| "run_call1 Screen_cursor_up1 n s = screen_cursor_up1 n s"
| "run_call1 Screen_cursor_to_column n s = screen_cursor_to_column n s"
| "run_call1 Screen_cursor_to_line n s = screen_cursor_to_line n s"
| "run_call1 Screen_backtab n s = screen_backtab n s"
| "run_call1 Screen_tabn n s = screen_tabn n s"
| "run_call1 Screen_insert_lines n s = screen_insert_lines n s"
| "run_call1 Screen_delete_lines n s = screen_delete_lines n s"
| "run_call1 Screen_delete_characters n s = screen_delete_characters n s"
| "run_call1 Screen_erase_characters n s = screen_erase_characters n s"
| "run_call1 Screen_clear_tab_stop n s = screen_clear_tab_stop n s"
| "run_call1 Screen_scroll n s = screen_scroll n s"
| "run_call1 Screen_reverse_scroll n s = screen_reverse_scroll n s"
| "run_call1 Screen_reverse_scroll_and_fill_from_scrollback n s = screen_reverse_scroll_and_fill_from_scrollback n s"
| "run_call1 Screen_push_colors n s = screen_push_colors n s"
| "run_call1 Screen_pop_colors n s = screen_pop_colors n s"
| "run_call1 Screen_report_size n s = screen_report_size n s"
| "run_call1 Screen_decsace n s = screen_decsace n s"
| "run_call1 Screen_xtversion n s = screen_xtversion n s"
| "run_call1 Screen_push_key_encoding_flags n s = screen_push_key_encoding_flags n s"
| "run_call1 Screen_pop_key_encoding_flags n s = screen_pop_key_encoding_flags n s"
| "run_call1 Screen_change_charset n s = screen_change_charset n s"

fun run_mode :: "mode_call \<Rightarrow> nat \<Rightarrow> screen \<Rightarrow> screen" where
  "run_mode Screen_set_mode n s = screen_set_mode n s"
| "run_mode Screen_reset_mode n s = screen_reset_mode n s"
| "run_mode Screen_save_mode n s = screen_save_mode n s"
| "run_mode Screen_restore_mode n s = screen_restore_mode n s"

fun run_osc :: "osc_call \<Rightarrow> screen \<Rightarrow> screen" where
  "run_osc (Set_title u) s = set_title u s"
| "run_osc (Set_icon u) s = set_icon u s"
| "run_osc (Set_color_table_color i u) s = set_color_table_color i u s"
| "run_osc (Process_cwd_notification i u) s = process_cwd_notification i u s"
| "run_osc (Desktop_notify i u) s = desktop_notify i u s"
| "run_osc (Set_dynamic_color i u) s = set_dynamic_color i u s"
| "run_osc (Clipboard_control i u) s = clipboard_control i u s"
| "run_osc (Shell_prompt_marking u) s = shell_prompt_marking u s"
| "run_osc (File_transmission u) s = file_transmission u s"
| "run_osc (Set_active_hyperlink i u) s = set_active_hyperlink i u s"

text \<open>\<^verbatim>\<open>REPORT_ERROR\<close> only logs.\<close>

fun run_call :: "screen_call \<Rightarrow> screen \<Rightarrow> screen" where
  "run_call (Call0 c) s = run_call0 c s"
| "run_call (Call1 c n) s = run_call1 c n s"
| "run_call (Call_mode c n) s = run_mode c n s"
| "run_call (Call_osc c) s = run_osc c s"
| "run_call (Screen_designate_charset which as) s = screen_designate_charset which as s"
| "run_call (Screen_draw c) s = screen_draw c True s"
| "run_call (Screen_use_latin1 on) s = screen_use_latin1 on s"
| "run_call (Screen_set_8bit_controls yes) s = screen_set_8bit_controls yes s"
| "run_call (Select_graphic_rendition params region) s = select_graphic_rendition params region s"
| "run_call (Screen_cursor_position line column) s = screen_cursor_position line column s"
| "run_call (Screen_set_margins t b) s = screen_set_margins t b s"
| "run_call (Screen_erase_in_display how p) s = screen_erase_in_display how p s"
| "run_call (Screen_erase_in_line how p) s = screen_erase_in_line how p s"
| "run_call (Screen_manipulate_title_stack op which) s = screen_manipulate_title_stack op which s"
| "run_call (Screen_set_key_encoding_flags val how) s = screen_set_key_encoding_flags val how s"
| "run_call (Screen_set_cursor mode secondary) s = screen_set_cursor mode secondary s"
| "run_call (Report_device_attributes mode m) s = report_device_attributes mode m s"
| "run_call (Report_device_status which p) s = report_device_status which p s"
| "run_call (Report_mode_status which p) s = report_mode_status which p s"
| "run_call (Screen_request_capabilities c q) s = screen_request_capabilities c q s"
| "run_call (Screen_handle_cmd cmd) s = screen_handle_cmd cmd s"
| "run_call (Screen_handle_smelly_dcs name cmd) s = screen_handle_smelly_dcs name cmd s"
| "run_call (Screen_handle_graphics_command cmd payload) s = screen_handle_graphics_command cmd payload s"
| "run_call (Report_error e) s = emit Log_error s"

text \<open>A screen as the parser sees it: the decoder is the parser's.\<close>

definition screen_exec :: "screen exec" where
  "screen_exec c x =
     (case x of (d, s) \<Rightarrow> let s = run_call c (s\<lparr>s_dec := d\<rparr>) in (s_dec s, s\<lparr>s_dec := zero_decoder\<rparr>))"

section \<open>Every call keeps the invariant\<close>

lemma screen_tabn_wf [wf_intros]: "screen_wf s \<Longrightarrow> screen_wf (screen_tabn n s)"
proof -
  have "screen_wf s \<Longrightarrow> screen_wf ((screen_tab ^^ k) s)" for k by (induction k) (auto simp: screen_tab_wf)
  then show "screen_wf s \<Longrightarrow> screen_wf (screen_tabn n s)" by (simp add: screen_tabn_def)
qed

lemma run_call0_wf: "screen_wf s \<Longrightarrow> screen_wf (run_call0 c s)"
  by (cases c) (simp_all add: screen_backspace_def wf_intros)

lemma run_call1_wf: "screen_wf s \<Longrightarrow> screen_wf (run_call1 c n s)"
  by (cases c) (simp_all add: wf_intros screen_cursor_forward_def screen_cursor_down_def screen_cursor_down1_def
      screen_cursor_up1_def screen_cursor_to_line_def)

lemma run_mode_wf: "screen_wf s \<Longrightarrow> screen_wf (run_mode c n s)"
  by (cases c) (simp_all add: wf_intros)

lemma run_osc_wf: "screen_wf s \<Longrightarrow> screen_wf (run_osc c s)"
  by (cases c) (simp_all add: wf_intros)

lemma run_call_wf: "screen_wf s \<Longrightarrow> screen_wf (run_call c s)"
  by (cases c) (simp_all add: run_call0_wf run_call1_wf run_mode_wf run_osc_wf wf_intros)

lemma run_calls_wf: "screen_wf s \<Longrightarrow> screen_wf (fold run_call cs s)"
  by (rule fold_keeps [of screen_wf]) (rule run_call_wf)

end
