(* ===== verification/Screen_Calm.thy ===== *)
theory Screen_Calm
  imports Screen_Exec
begin

text \<open>
  What most calls leave alone: the decoder and the savepoints, and on the alternate screen the main
  buffer, its history and its key encoding flags. The exceptions are the calls that save or restore the
  cursor, switch buffers, reset the terminal, change the encoding or start and stop pending mode, and
  hyperlinks, which may renumber the cells of both buffers.
\<close>

section \<open>Calm steps\<close>

definition main_part :: "screen \<Rightarrow> line_buf \<times> history_buf \<times> u8 list" where
  "main_part s = (s_main_linebuf s, s_historybuf s, s_main_keys s)"

definition calm :: "screen \<Rightarrow> screen \<Rightarrow> bool" where
  "calm s t = (s_dec t = s_dec s \<and> s_main_savepoint t = s_main_savepoint s \<and> s_alt_savepoint t = s_alt_savepoint s
     \<and> s_on_main t = s_on_main s \<and> s_columns t = s_columns s \<and> s_lines t = s_lines s \<and> (\<not> s_on_main s \<longrightarrow> main_part t = main_part s))"

named_theorems calm_intros

lemma calm_refl [calm_intros]: "calm s s"
  by (simp add: calm_def)

lemma calm_trans: "calm s t \<Longrightarrow> calm t u \<Longrightarrow> calm s u"
  by (auto simp: calm_def)

lemma calm_if [calm_intros]: "(b \<Longrightarrow> calm s t) \<Longrightarrow> (\<not> b \<Longrightarrow> calm s u) \<Longrightarrow> calm s (if b then t else u)"
  by simp

lemma calm_on_main: "calm s t \<Longrightarrow> s_on_main t = s_on_main s"
  by (simp add: calm_def)

lemmas calm_defs = calm_def main_part_def

lemma calm_updates [calm_intros]:
  "calm s t \<Longrightarrow> calm s (t\<lparr>s_is_dirty := a\<rparr>)" "calm s t \<Longrightarrow> calm s (t\<lparr>s_selections := sel\<rparr>)"
  "calm s t \<Longrightarrow> calm s (t\<lparr>s_scroll_changed := a\<rparr>)" "calm s t \<Longrightarrow> calm s (t\<lparr>s_scrolled_by := n\<rparr>)"
  "calm s t \<Longrightarrow> calm s (t\<lparr>s_url_ranges := sel\<rparr>)" "calm s t \<Longrightarrow> calm s (t\<lparr>s_modes := m\<rparr>)"
  "calm s t \<Longrightarrow> calm s (t\<lparr>s_saved_modes := m\<rparr>)" "calm s t \<Longrightarrow> calm s (t\<lparr>s_cursor := c\<rparr>)"
  "calm s t \<Longrightarrow> calm s (t\<lparr>s_margin_top := n\<rparr>)" "calm s t \<Longrightarrow> calm s (t\<lparr>s_margin_bottom := n\<rparr>)"
  "calm s t \<Longrightarrow> calm s (t\<lparr>s_log := lg\<rparr>)" "calm s t \<Longrightarrow> calm s (t\<lparr>s_last_graphic_char := ch'\<rparr>)"
  "calm s t \<Longrightarrow> calm s (t\<lparr>s_has_activity := a\<rparr>)" "calm s t \<Longrightarrow> calm s (t\<lparr>s_redraws_prompts := a\<rparr>)"
  "calm s t \<Longrightarrow> calm s (t\<lparr>s_last_reported_cwd := w\<rparr>)" "calm s t \<Longrightarrow> calm s (t\<lparr>s_bell := bell\<rparr>)"
  "calm s t \<Longrightarrow> calm s (t\<lparr>s_charsets := cs\<rparr>)" "calm s t \<Longrightarrow> calm s (t\<lparr>s_color_profile := cp\<rparr>)"
  "calm s t \<Longrightarrow> calm s (t\<lparr>s_active_hyperlink_id := h\<rparr>)" "calm s t \<Longrightarrow> calm s (t\<lparr>s_last_visited_prompt := vp\<rparr>)"
  "calm s t \<Longrightarrow> calm s (t\<lparr>s_main_tabstops := ts\<rparr>)" "calm s t \<Longrightarrow> calm s (t\<lparr>s_alt_tabstops := ts\<rparr>)"
  "calm s t \<Longrightarrow> s_on_main t \<Longrightarrow> calm s (t\<lparr>s_historybuf := h2\<rparr>)"
  "calm s t \<Longrightarrow> s_on_main t \<Longrightarrow> calm s (t\<lparr>s_main_linebuf := lb\<rparr>)"
  by (simp_all add: calm_defs)

lemma calm_basic [calm_intros]:
  "calm s t \<Longrightarrow> calm s (emit e t)" "calm s t \<Longrightarrow> calm s (callback name args t)"
  "calm s t \<Longrightarrow> calm s (set_cursor x y t)" "calm s t \<Longrightarrow> calm s (upd_linebuf f t)"
  "calm s t \<Longrightarrow> calm s (upd_tabstops g t)" "calm s t \<Longrightarrow> calm s (edit_line k y t)"
  "calm s t \<Longrightarrow> calm s (upd_keys kf t)" "calm s t \<Longrightarrow> calm s (damage_line y t)"
  "calm s t \<Longrightarrow> calm s (write_escape_code_to_child which data t)"
  by (auto simp: calm_defs emit_def callback_def set_cursor_def upd_linebuf_def upd_tabstops_def edit_line_def
      upd_keys_def damage_line_def write_escape_code_to_child_def Let_def split: option.split)

lemma calm_fold: "(\<And>x t. calm s t \<Longrightarrow> calm s (f x t)) \<Longrightarrow> calm s t \<Longrightarrow> calm s (fold f xs t)"
  by (rule fold_keeps [of "calm s"])

section \<open>Moving the cursor\<close>

lemma calm_ensure_bounds [calm_intros]: "calm s t \<Longrightarrow> calm s (screen_ensure_bounds f m t)"
  using ensure_bounds_set_cursor [of f m t] by (auto intro: calm_intros)

lemma calm_cursor_ops [calm_intros]:
  "calm s t \<Longrightarrow> calm s (screen_cursor_back n d t)" "calm s t \<Longrightarrow> calm s (screen_cursor_up n cr d t)"
  "calm s t \<Longrightarrow> calm s (screen_cursor_to_column n t)" "calm s t \<Longrightarrow> calm s (screen_carriage_return t)"
  "calm s t \<Longrightarrow> calm s (screen_cursor_position line column t)"
  unfolding screen_cursor_back_def screen_cursor_up_def screen_cursor_to_column_def screen_carriage_return_def
    screen_cursor_position_def Let_def
  by (intro calm_intros; assumption)+

lemma calm_cursor_ops2 [calm_intros]:
  "calm s t \<Longrightarrow> calm s (screen_cursor_forward n t)" "calm s t \<Longrightarrow> calm s (screen_backspace t)"
  "calm s t \<Longrightarrow> calm s (screen_cursor_up1 n t)" "calm s t \<Longrightarrow> calm s (screen_cursor_down n t)"
  "calm s t \<Longrightarrow> calm s (screen_cursor_down1 n t)" "calm s t \<Longrightarrow> calm s (screen_cursor_to_line n t)"
  "calm s t \<Longrightarrow> calm s (screen_set_margins a b t)" "calm s t \<Longrightarrow> calm s (screen_tab t)"
  "calm s t \<Longrightarrow> calm s (screen_backtab n t)" "calm s t \<Longrightarrow> calm s (screen_clear_tab_stop n t)"
  "calm s t \<Longrightarrow> calm s (screen_set_tab_stop t)" "calm s t \<Longrightarrow> calm s (screen_set_cursor n sec t)"
  "calm s t \<Longrightarrow> calm s (screen_change_charset n t)" "calm s t \<Longrightarrow> calm s (screen_designate_charset n as t)"
  "calm s t \<Longrightarrow> calm s (snd (screen_history_scroll i up t))"
  unfolding screen_cursor_forward_def screen_backspace_def screen_cursor_up1_def screen_cursor_down_def
    screen_cursor_down1_def screen_cursor_to_line_def screen_set_margins_def screen_tab_def screen_backtab_def
    screen_clear_tab_stop_def screen_set_tab_stop_def screen_set_cursor_def screen_change_charset_def
    screen_designate_charset_def screen_history_scroll_def Let_def if_distrib [of snd] snd_conv
  by (intro calm_intros; assumption)+

section \<open>Scrolling\<close>

lemma calm_add_to_history [calm_intros]: "calm s t \<Longrightarrow> s_on_main t \<Longrightarrow> calm s (add_to_history b t)"
  by (auto simp: calm_defs add_to_history_def Let_def split: prod.splits)

lemma calm_index_graphics [calm_intros]: "calm s t \<Longrightarrow> calm s (index_graphics a x y t)"
  by (simp add: index_graphics_def calm_intros)

lemma calm_index_ops [calm_intros]:
  "calm s t \<Longrightarrow> calm s (index_up a b t)" "calm s t \<Longrightarrow> calm s (index_down a b t)"
  unfolding index_up_def index_down_def Let_def
  by (intro calm_intros; (assumption | simp))+

lemma calm_scroll_loop [calm_intros]: "calm s t \<Longrightarrow> calm s (scroll_loop n a b t)"
  by (induction n a b t rule: scroll_loop.induct) (auto intro: calm_intros)

lemma calm_scroll_ops [calm_intros]:
  "calm s t \<Longrightarrow> calm s (screen_index t)" "calm s t \<Longrightarrow> calm s (screen_scroll n t)" "calm s t \<Longrightarrow> calm s (screen_reverse_index t)"
  unfolding screen_index_def screen_scroll_def screen_reverse_index_def
  by (intro calm_intros; assumption)+

lemma calm_linefeed [calm_intros]: "calm s t \<Longrightarrow> calm s (screen_linefeed t)"
  unfolding screen_linefeed_def Let_def by (intro calm_intros)

lemma calm_reverse_scroll_step:
  assumes "calm s t" "fill \<Longrightarrow> s_on_main t"
  shows "calm s (reverse_scroll_step fill a b t)"
proof (cases "if fill then historybuf_pop_line (s_historybuf t) else None")
  case None
  then show ?thesis using assms(1) by (simp add: reverse_scroll_step_def calm_intros)
next
  case (Some p)
  then have m: "s_on_main t" using assms(2) by (simp split: if_splits)
  obtain l h where p: "p = (l, h)" by (cases p)
  have "calm s (index_down a b (t\<lparr>s_historybuf := h\<rparr>))" using assms(1) m by (intro calm_intros)
  moreover have "s_on_main (index_down a b (t\<lparr>s_historybuf := h\<rparr>))" using m by simp
  ultimately show ?thesis
    unfolding reverse_scroll_step_def Some p option.case prod.case Let_def by (rule calm_updates)
qed

lemma calm_reverse_scroll_loop: "calm s t \<Longrightarrow> (fill \<Longrightarrow> s_on_main t) \<Longrightarrow> calm s (reverse_scroll_loop n fill a b t)"
proof (induction n fill a b t rule: reverse_scroll_loop.induct)
  case (2 n fill a b t)
  have c: "calm s (reverse_scroll_step fill a b t)" using 2(2,3) by (rule calm_reverse_scroll_step)
  then have "fill \<Longrightarrow> s_on_main (reverse_scroll_step fill a b t)" using 2(2,3) by (simp add: calm_def)
  with 2(1) [OF c] show ?case by simp
qed simp

lemma calm_reverse_scroll [calm_intros]:
  "calm s t \<Longrightarrow> calm s (screen_reverse_scroll n t)" "calm s t \<Longrightarrow> calm s (screen_reverse_scroll_and_fill_from_scrollback n t)"
  by (simp_all add: screen_reverse_scroll_def screen_reverse_scroll_and_fill_from_scrollback_def reverse_scroll_def Let_def
      calm_reverse_scroll_loop)

section \<open>Editing and drawing\<close>

lemma calm_erase_in_line [calm_intros]: "calm s t \<Longrightarrow> calm s (screen_erase_in_line how p t)"
  by (simp add: screen_erase_in_line_def Let_def calm_intros split: prod.split)

lemma calm_erase_row: "calm s t \<Longrightarrow> calm s (erase_row p y t)"
  unfolding erase_row_def Let_def by (intro calm_intros)

lemma calm_erase_rows [calm_intros]: "calm s t \<Longrightarrow> calm s (erase_rows p a b t)"
  unfolding erase_rows_def Let_def by (intro calm_intros calm_fold) (auto intro: calm_erase_row)

lemma calm_clear_scrollback [calm_intros]: "calm s t \<Longrightarrow> s_on_main t \<Longrightarrow> calm s (screen_clear_scrollback t)"
  unfolding screen_clear_scrollback_def Let_def by (intro calm_intros)

lemma calm_erase_in_display [calm_intros]: 
  assumes "calm s t"
  shows "calm s (screen_erase_in_display how p t)"
proof (cases "how > 3")
  case False
  define t1 where "t1 = (if how \<ge> 2 then emit (Grman_clear (s_on_main t) (how = 3)) t else t)"
  define a b where "a = (if how = 0 then cy t1 + 1 else 0)" and "b = (if how = 1 then cy t1 else s_lines t1)"
  define t2 where "t2 = (if how \<noteq> 2 then
      (let u = screen_erase_in_line how p (erase_rows p a b t1)
       in if how = 1 then upd_linebuf (\<lambda>b. linebuf_clear_attrs_and_dirty b (cy u)) u else u)
    else erase_rows p a b t1)"
  have t2: "calm s t2" unfolding t2_def t1_def Let_def using assms by (intro calm_intros)
  have "screen_erase_in_display how p t = (if how = 3 \<and> s_on_main t2 then screen_clear_scrollback t2 else t2)"
    using False by (simp add: screen_erase_in_display_def Let_def t2_def t1_def [symmetric] a_def b_def)
  with t2 show ?thesis by (simp add: calm_clear_scrollback)
qed (simp add: screen_erase_in_display_def assms)

lemma calm_edit_lines [calm_intros]: "calm s t \<Longrightarrow> calm s (edit_lines_at_cursor op n t)"
  unfolding edit_lines_at_cursor_def Let_def by (intro calm_intros)

lemma calm_characters [calm_intros]:
  "calm s t \<Longrightarrow> calm s (screen_insert_lines n t)" "calm s t \<Longrightarrow> calm s (screen_delete_lines n t)"
  "calm s t \<Longrightarrow> calm s (screen_insert_characters n t)" "calm s t \<Longrightarrow> calm s (screen_delete_characters n t)"
  "calm s t \<Longrightarrow> calm s (screen_erase_characters n t)" "calm s t \<Longrightarrow> calm s (screen_align t)"
  unfolding screen_insert_lines_def screen_delete_lines_def screen_insert_characters_def
    screen_delete_characters_def screen_erase_characters_def screen_align_def Let_def
  by (intro calm_intros; assumption)+

lemma calm_alignment_display [calm_intros]: "calm s t \<Longrightarrow> calm s (screen_alignment_display t)"
  unfolding screen_alignment_display_def Let_def
  by (intro calm_intros calm_fold; (assumption | simp add: align_row_def calm_intros))

lemma calm_select_graphic_rendition [calm_intros]: "calm s t \<Longrightarrow> calm s (select_graphic_rendition params region t)"
proof (cases region)
  case None
  then show "calm s t \<Longrightarrow> ?thesis"
    by (simp add: select_graphic_rendition_def calm_intros split: option.split)
next
  case (Some r)
  have "calm s t \<Longrightarrow> calm s (sgr_row params r y t)" for r y t
    by (simp add: sgr_row_def calm_intros split: prod.split)
  with Some show "calm s t \<Longrightarrow> ?thesis"
    by (simp add: select_graphic_rendition_def Let_def calm_fold)
qed

lemma calm_wrap_line [calm_intros]: "calm s t \<Longrightarrow> calm s (wrap_line t)"
  unfolding wrap_line_def by (intro calm_intros)

lemma calm_draw_parts [calm_intros]:
  "calm s t \<Longrightarrow> calm s (move_widened_char x y t)" "calm s t \<Longrightarrow> calm s (make_room n t)" "calm s t \<Longrightarrow> calm s (note_activity t)"
  unfolding move_widened_char_def make_room_def note_activity_def Let_def
  by (intro calm_intros; assumption)+

lemma calm_presentation [calm_intros]:
  "calm s t \<Longrightarrow> calm s (apply_emoji_presentation x y t)" "calm s t \<Longrightarrow> calm s (apply_text_presentation x y t)"
  "calm s t \<Longrightarrow> calm s (draw_base_char c b t)"
  unfolding apply_emoji_presentation_def apply_text_presentation_def draw_base_char_def Let_def
  by (intro calm_intros; assumption)+

lemma calm_draw_combining_char [calm_intros]: "calm s t \<Longrightarrow> calm s (draw_combining_char c t)"
  by (simp add: draw_combining_char_def Let_def calm_intros split: option.split prod.split)

lemma calm_draw_second_flag: "draw_second_flag_codepoint c t = Some u \<Longrightarrow> calm s t \<Longrightarrow> calm s u"
  by (auto simp: draw_second_flag_codepoint_def Let_def calm_intros split: option.splits if_splits)

lemma calm_screen_draw [calm_intros]: "calm s t \<Longrightarrow> calm s (screen_draw c b t)"
  by (auto simp: screen_draw_def draw_codepoint_def Let_def calm_intros split: option.split
      dest: calm_draw_second_flag [OF _ calm_draw_parts(3)])

lemma calm_repeat_character [calm_intros]: "calm s t \<Longrightarrow> calm s (screen_repeat_character n t)"
proof -
  have "calm s t \<Longrightarrow> calm s (repeat_loop k c t)" for k c
    by (induction k c t rule: repeat_loop.induct) (auto intro: calm_intros)
  then show "calm s t \<Longrightarrow> calm s (screen_repeat_character n t)"
    by (simp add: screen_repeat_character_def calm_refl)
qed

lemma calm_tabn [calm_intros]: "calm s t \<Longrightarrow> calm s (screen_tabn n t)"
proof -
  have "calm s t \<Longrightarrow> calm s ((screen_tab ^^ k) t)" for k by (induction k) (auto intro: calm_intros)
  then show "calm s t \<Longrightarrow> calm s (screen_tabn n t)" by (simp add: screen_tabn_def)
qed

section \<open>Modes, reports and callbacks\<close>

lemma calm_reports [calm_intros]:
  "calm s t \<Longrightarrow> calm s (screen_report_key_encoding_flags t)" "calm s t \<Longrightarrow> calm s (report_device_attributes n m t)"
  "calm s t \<Longrightarrow> calm s (screen_xtversion n t)" "calm s t \<Longrightarrow> calm s (screen_report_size n t)"
  "calm s t \<Longrightarrow> calm s (report_device_status n b t)" "calm s t \<Longrightarrow> calm s (report_mode_status n b t)"
  "calm s t \<Longrightarrow> calm s (screen_request_capabilities c q t)" "calm s t \<Longrightarrow> calm s (screen_report_color_stack t)"
  "calm s t \<Longrightarrow> calm s (screen_manipulate_title_stack n k t)"
  by (simp_all add: screen_report_key_encoding_flags_def report_device_attributes_def screen_xtversion_def
      screen_report_size_def report_device_status_def report_mode_status_def screen_request_capabilities_def
      screen_report_color_stack_def screen_manipulate_title_stack_def Let_def calm_intros split: prod.split)

lemma calm_callbacks [calm_intros]:
  "calm s t \<Longrightarrow> calm s (set_title u t)" "calm s t \<Longrightarrow> calm s (set_icon u t)" "calm s t \<Longrightarrow> calm s (desktop_notify i u t)"
  "calm s t \<Longrightarrow> calm s (set_dynamic_color i u t)" "calm s t \<Longrightarrow> calm s (set_color_table_color i u t)"
  "calm s t \<Longrightarrow> calm s (clipboard_control i u t)" "calm s t \<Longrightarrow> calm s (file_transmission u t)"
  "calm s t \<Longrightarrow> calm s (process_cwd_notification i u t)" "calm s t \<Longrightarrow> calm s (screen_handle_cmd u t)"
  "calm s t \<Longrightarrow> calm s (screen_handle_smelly_dcs name u t)" "calm s t \<Longrightarrow> calm s (screen_bell t)"
  unfolding set_title_def set_icon_def desktop_notify_def set_dynamic_color_def set_color_table_color_def
    clipboard_control_def file_transmission_def process_cwd_notification_def screen_handle_cmd_def
    screen_handle_smelly_dcs_def screen_bell_def Let_def
  by (intro calm_intros; assumption)+

lemma calm_colors [calm_intros]:
  "calm s t \<Longrightarrow> calm s (screen_push_colors n t)" "calm s t \<Longrightarrow> calm s (screen_pop_colors n t)"
  by (simp_all add: screen_push_colors_def screen_pop_colors_def Let_def calm_intros split: prod.split)

lemma calm_prompt_marking [calm_intros]: "calm s t \<Longrightarrow> calm s (shell_prompt_marking u t)"
  by (simp add: shell_prompt_marking_def set_prompt_kind_def calm_intros split: prod.split)

lemma calm_graphics_command [calm_intros]: "calm s t \<Longrightarrow> calm s (screen_handle_graphics_command cmd payload t)"
  unfolding screen_handle_graphics_command_def Let_def
  by (simp only: split: prod.split) (intro allI impI calm_intros; (assumption | simp add: calm_intros split: option.split))

lemma calm_key_flags [calm_intros]:
  "calm s t \<Longrightarrow> calm s (screen_set_key_encoding_flags v how t)" "calm s t \<Longrightarrow> calm s (screen_push_key_encoding_flags v t)"
  "calm s t \<Longrightarrow> calm s (screen_pop_key_encoding_flags n t)" "calm s t \<Longrightarrow> calm s (screen_decsace n t)"
  "calm s t \<Longrightarrow> calm s (screen_set_8bit_controls b t)" "calm s t \<Longrightarrow> calm s (screen_save_mode n t)"
  unfolding screen_set_key_encoding_flags_def screen_push_key_encoding_flags_def screen_pop_key_encoding_flags_def
    screen_decsace_def screen_set_8bit_controls_def screen_save_mode_def
  by (intro calm_intros; assumption)+

lemma calm_set_basic_mode: "calm s t \<Longrightarrow> mode \<noteq> PENDING_UPDATE \<Longrightarrow> calm s (set_basic_mode mode v t)"
  unfolding set_basic_mode_def Let_def
  by (simp only: split: option.split) (intro conjI allI impI calm_intros; (assumption | simp))

definition alt_screen_mode :: "nat \<Rightarrow> bool" where
  "alt_screen_mode n = (n = TOGGLE_ALT_SCREEN_1 \<or> n = TOGGLE_ALT_SCREEN_2 \<or> n = ALTERNATE_SCREEN)"

lemma mode_number_eq [simp]: "(mode_number a = mode_number b) = (a = b)"
  by (simp add: mode_number_def)

lemma calm_set_mode:
  "calm s t \<Longrightarrow> mode \<noteq> PENDING_UPDATE \<Longrightarrow> mode \<noteq> SAVE_CURSOR \<Longrightarrow> \<not> alt_screen_mode mode \<Longrightarrow> calm s (set_mode_from_const mode v t)"
  by (simp add: set_mode_from_const_def alt_screen_mode_def calm_set_basic_mode)

lemma calm_restore_mode [calm_intros]: "calm s t \<Longrightarrow> calm s (screen_restore_mode n t)"
  unfolding screen_restore_mode_def Let_def
  by (intro calm_intros calm_set_mode; (assumption | simp add: alt_screen_mode_def))

lemma calm_save_modes [calm_intros]:
  "calm s t \<Longrightarrow> calm s (screen_save_modes t)" "calm s t \<Longrightarrow> calm s (screen_restore_modes t)"
  unfolding screen_save_modes_def screen_restore_modes_def
  by (rule calm_fold; (assumption | intro calm_intros; assumption))+

end
