(* ===== verification/Screen_Session.thy ===== *)
theory Screen_Session
  imports Screen_Calm
begin

text \<open>
  Sequences of calls on a screen, and the parser working on it: what a saved cursor and the alternate
  screen restore, and the properties of the parser (chunk independence, synchronized updates) for the
  screen of \<^verbatim>\<open>smelly/screen.c\<close> itself.
\<close>

section \<open>Quiet calls\<close>

fun quiet :: "screen_call \<Rightarrow> bool" where
  "quiet (Call0 c) = (c \<noteq> Screen_reset \<and> c \<noteq> Screen_save_cursor \<and> c \<noteq> Screen_restore_cursor)"
| "quiet (Call_mode c n) =
     (c = Screen_save_mode \<or> c = Screen_restore_mode
      \<or> (n \<noteq> PENDING_UPDATE \<and> n \<noteq> SAVE_CURSOR \<and> \<not> alt_screen_mode n))"
| "quiet (Call_osc c) = (case c of Set_active_hyperlink i u \<Rightarrow> False | _ \<Rightarrow> True)"
| "quiet (Screen_use_latin1 on) = False"
| "quiet c = True"

lemma quiet_call0_calm: "quiet (Call0 c) \<Longrightarrow> calm s (run_call0 c s)"
  by (cases c) (simp_all add: calm_intros)

lemma quiet_call1_calm: "calm s (run_call1 c n s)"
  by (cases c) (simp_all add: calm_intros)

lemma quiet_mode_calm: "quiet (Call_mode c n) \<Longrightarrow> calm s (run_mode c n s)"
  by (cases c) (simp_all add: calm_intros screen_set_mode_def screen_reset_mode_def calm_set_mode)

lemma quiet_osc_calm: "quiet (Call_osc c) \<Longrightarrow> calm s (run_osc c s)"
  by (cases c) (simp_all add: calm_intros)

lemma quiet_calm: "quiet c \<Longrightarrow> calm s (run_call c s)"
  by (cases c) (simp_all add: quiet_call0_calm quiet_call1_calm quiet_mode_calm quiet_osc_calm calm_intros
      del: quiet.simps(1-3))

lemma quiet_calls_calm: "list_all quiet cs \<Longrightarrow> calm s (fold run_call cs s)"
proof (induction cs arbitrary: s)
  case (Cons c cs)
  then have "calm s (run_call c s)" "calm (run_call c s) (fold run_call cs (run_call c s))" by (simp_all add: quiet_calm)
  then show ?case by (simp add: calm_trans)
qed (simp add: calm_refl)

section \<open>The saved cursor\<close>

lemma set_flag_mode_some:
  "set_flag_mode DECAWM v m = Some (m\<lparr>mDECAWM := v\<rparr>)"
  unfolding set_flag_mode_def mode_number_def by simp

lemma set_flag_mode_none:
  "set_flag_mode DECOM v m = None" "set_flag_mode DECSCNM v m = None" "set_flag_mode PENDING_UPDATE v m = None"
  unfolding set_flag_mode_def mode_number_def by simp_all

lemma set_basic_mode_flags:
  "set_basic_mode DECOM v s = screen_cursor_position 1 1 (upd_modes (\<lambda>m. m\<lparr>mDECOM := v\<rparr>) s)"
  "set_basic_mode DECAWM v s = upd_modes (\<lambda>m. m\<lparr>mDECAWM := v\<rparr>) s"
  "set_basic_mode DECSCNM v s =
     (if mDECSCNM (s_modes s) \<noteq> v then (upd_modes (\<lambda>m. m\<lparr>mDECSCNM := v\<rparr>) s)\<lparr>s_is_dirty := True\<rparr> else s)"
  "set_basic_mode PENDING_UPDATE v s = set_pending_mode v s"
  unfolding set_basic_mode_def set_flag_mode_none set_flag_mode_some option.case mode_number_eq by simp_all

lemma cursor_copy_eq: "cursor_copy_to c d = c"
  by (cases c; cases d) (simp add: cursor_copy_to_def)

text \<open>What a screen has in common with the state saved in \<open>sp\<close>.\<close>

definition restored_from :: "savepoint \<Rightarrow> screen \<Rightarrow> bool" where
  "restored_from sp t =
     (s_cursor t = (sp_cursor sp)\<lparr>c_x := min (c_x (sp_cursor sp)) (s_columns t - 1),
                                   c_y := min (c_y (sp_cursor sp)) (s_lines t - 1)\<rparr>
      \<and> cs_g0 (s_charsets t) = sp_g0 sp \<and> cs_g1 (s_charsets t) = sp_g1 sp \<and> cs_current (s_charsets t) = sp_current sp
      \<and> cs_g (s_charsets t) = (if sp_current sp \<noteq> 0 then sp_g1 sp else sp_g0 sp)
      \<and> mDECOM (s_modes t) = sp_mDECOM sp \<and> mDECAWM (s_modes t) = sp_mDECAWM sp \<and> mDECSCNM (s_modes t) = sp_mDECSCNM sp
      \<and> use_latin1 (s_dec t) = sp_use_latin1 sp \<and> utf8_state (s_dec t) = sp_utf8_state sp)"

lemma restore_valid:
  assumes "sp_is_valid (s_savepoint s)"
  shows "restored_from (s_savepoint s) (screen_restore_cursor s)"
    "s_on_main (screen_restore_cursor s) = s_on_main s" "s_columns (screen_restore_cursor s) = s_columns s"
    "s_lines (screen_restore_cursor s) = s_lines s" "main_part (screen_restore_cursor s) = main_part s"
    "s_main_savepoint (screen_restore_cursor s) = s_main_savepoint s" "s_alt_savepoint (screen_restore_cursor s) = s_alt_savepoint s"
proof -
  let ?sp = "s_savepoint s"
  define s1 where "s1 = screen_cursor_position 1 1 (upd_modes (\<lambda>m. m\<lparr>mDECOM := sp_mDECOM ?sp\<rparr>) (load_charsets ?sp s))"
  define s2 where "s2 = upd_modes (\<lambda>m. m\<lparr>mDECAWM := sp_mDECAWM ?sp\<rparr>) s1"
  define s3 where "s3 = set_basic_mode DECSCNM (sp_mDECSCNM ?sp) s2"
  have keys: "s_main_keys (screen_cursor_position a b t) = s_main_keys t" for a b t
    using screen_cursor_position_set_cursor [of a b t] by (auto simp: set_cursor_def)
  have r: "screen_restore_cursor s = screen_ensure_bounds False False (s3\<lparr>s_cursor := sp_cursor ?sp\<rparr>)"
    using assms by (simp add: screen_restore_cursor_def Let_def set_basic_mode_flags(1,2) s1_def s2_def s3_def cursor_copy_eq)
  have b: "screen_ensure_bounds False False t = t\<lparr>s_cursor := (s_cursor t)\<lparr>c_x := min (cx t) (s_columns t - 1), c_y := min (cy t) (s_lines t - 1)\<rparr>\<rparr>" for t
    by (simp add: screen_ensure_bounds_def set_cursor_def)
  have f: "s_columns s3 = s_columns s" "s_lines s3 = s_lines s" "s_on_main s3 = s_on_main s" "main_part s3 = main_part s"
    "s_main_savepoint s3 = s_main_savepoint s" "s_alt_savepoint s3 = s_alt_savepoint s"
    by (simp_all add: s3_def s2_def s1_def set_basic_mode_flags main_part_def load_charsets_def keys)
  have g: "s_charsets s3 = \<lparr>cs_g0 = sp_g0 ?sp, cs_g1 = sp_g1 ?sp,
      cs_g = (if sp_current ?sp \<noteq> 0 then sp_g1 ?sp else sp_g0 ?sp), cs_current = sp_current ?sp\<rparr>"
    "mDECOM (s_modes s3) = sp_mDECOM ?sp" "mDECAWM (s_modes s3) = sp_mDECAWM ?sp" "mDECSCNM (s_modes s3) = sp_mDECSCNM ?sp"
    "use_latin1 (s_dec s3) = sp_use_latin1 ?sp" "utf8_state (s_dec s3) = sp_utf8_state ?sp"
    by (simp_all add: s3_def s2_def s1_def set_basic_mode_flags load_charsets_def)
  show "restored_from (s_savepoint s) (screen_restore_cursor s)"
    by (simp add: restored_from_def r b f g)
  show "s_on_main (screen_restore_cursor s) = s_on_main s" "s_columns (screen_restore_cursor s) = s_columns s"
    "s_lines (screen_restore_cursor s) = s_lines s" "main_part (screen_restore_cursor s) = main_part s"
    "s_main_savepoint (screen_restore_cursor s) = s_main_savepoint s" "s_alt_savepoint (screen_restore_cursor s) = s_alt_savepoint s"
    using f by (simp_all add: r b main_part_def)
qed

text \<open>The saved state of a well-formed screen.\<close>

lemma restored_from_saved:
  assumes wf: "screen_wf s" and r: "restored_from (s_savepoint (screen_save_cursor s)) t"
    and "s_columns t = s_columns s" "s_lines t = s_lines s"
  shows "s_cursor t = (s_cursor s)\<lparr>c_x := min (cx s) (s_columns s - 1)\<rparr>
    \<and> cs_g0 (s_charsets t) = cs_g0 (s_charsets s) \<and> cs_g1 (s_charsets t) = cs_g1 (s_charsets s)
    \<and> cs_current (s_charsets t) = cs_current (s_charsets s)
    \<and> cs_g (s_charsets t) = (if cs_current (s_charsets s) \<noteq> 0 then cs_g1 (s_charsets s) else cs_g0 (s_charsets s))
    \<and> mDECOM (s_modes t) = mDECOM (s_modes s) \<and> mDECAWM (s_modes t) = mDECAWM (s_modes s)
    \<and> mDECSCNM (s_modes t) = mDECSCNM (s_modes s) \<and> use_latin1 (s_dec t) = use_latin1 (s_dec s)"
proof -
  have y: "min (cy s) (s_lines s - 1) = cy s" using wf_bounds(7) [OF wf] by simp
  have c: "(s_cursor s)\<lparr>c_x := a, c_y := cy s\<rparr> = (s_cursor s)\<lparr>c_x := a\<rparr>" for a by (cases "s_cursor s") simp
  show ?thesis
    using r assms(3,4) y c
    by (simp add: restored_from_def s_savepoint_def screen_save_cursor_def upd_savepoint_def cursor_copy_eq)
qed

text \<open>
  C13: Restoring the saved cursor after any calls that do not save or restore the cursor, reset
  the terminal, switch screens, the encoding or pending mode, or define hyperlinks brings back the
  cursor with its colours and attributes (one beyond the last column comes back in the last), the
  tables G0 and G1, which of them is selected and is the active table, the encoding, and the
  origin, wrap and reverse modes.
\<close>

theorem saved_cursor_restored:
  assumes "screen_wf s" "list_all quiet cs"
    and "t = fold run_call (Call0 Screen_save_cursor # cs @ [Call0 Screen_restore_cursor]) s"
  shows "s_cursor t = (s_cursor s)\<lparr>c_x := min (cx s) (s_columns s - 1)\<rparr>
    \<and> cs_g0 (s_charsets t) = cs_g0 (s_charsets s) \<and> cs_g1 (s_charsets t) = cs_g1 (s_charsets s)
    \<and> cs_current (s_charsets t) = cs_current (s_charsets s)
    \<and> cs_g (s_charsets t) = (if cs_current (s_charsets s) \<noteq> 0 then cs_g1 (s_charsets s) else cs_g0 (s_charsets s))
    \<and> mDECOM (s_modes t) = mDECOM (s_modes s) \<and> mDECAWM (s_modes t) = mDECAWM (s_modes s)
    \<and> mDECSCNM (s_modes t) = mDECSCNM (s_modes s) \<and> use_latin1 (s_dec t) = use_latin1 (s_dec s)"
proof -
  define u where "u = fold run_call cs (screen_save_cursor s)"
  have c: "calm (screen_save_cursor s) u" using quiet_calls_calm [OF assms(2)] by (simp add: u_def)
  have t: "t = screen_restore_cursor u" by (simp add: assms(3) u_def)
  have sp: "s_savepoint u = s_savepoint (screen_save_cursor s)" using c by (simp add: calm_def s_savepoint_def)
  have v: "sp_is_valid (s_savepoint u)" unfolding sp by (simp add: s_savepoint_def screen_save_cursor_def upd_savepoint_def)
  have sz: "s_columns u = s_columns s" "s_lines u = s_lines s"
    using c by (simp_all add: calm_def screen_save_cursor_def upd_savepoint_def)
  from restore_valid [OF v] sz show ?thesis
    unfolding t by (intro restored_from_saved [OF assms(1)]) (simp_all add: sp)
qed

lemma saved_cursor_restored_witness:
  "s_cursor (fold run_call (Call0 Screen_save_cursor # [Screen_draw 0x41, Call1 Screen_scroll 2] @ [Call0 Screen_restore_cursor]) example_screen)
     = (s_cursor example_screen)\<lparr>c_x := min (cx example_screen) (s_columns example_screen - 1)\<rparr>"
  using saved_cursor_restored [OF example_screen_wf, of "[Screen_draw 0x41, Call1 Screen_scroll 2]", OF _ refl] by simp

section \<open>The alternate screen\<close>

text \<open>The calls that stay on the alternate screen and do not renumber links.\<close>

fun alt_safe :: "screen_call \<Rightarrow> bool" where
  "alt_safe (Call0 c) = (c \<noteq> Screen_reset)"
| "alt_safe (Call_mode c n) = (c \<noteq> Screen_reset_mode \<or> \<not> alt_screen_mode n)"
| "alt_safe (Call_osc c) = (case c of Set_active_hyperlink i u \<Rightarrow> False | _ \<Rightarrow> True)"
| "alt_safe c = True"

definition on_alt_kept :: "screen \<Rightarrow> screen \<Rightarrow> bool" where
  "on_alt_kept s t = (\<not> s_on_main s \<longrightarrow> \<not> s_on_main t \<and> main_part t = main_part s \<and> s_main_savepoint t = s_main_savepoint s
     \<and> s_columns t = s_columns s \<and> s_lines t = s_lines s)"

lemma on_alt_kept_calm: "calm s t \<Longrightarrow> on_alt_kept s t"
  by (simp add: calm_def on_alt_kept_def)

lemma on_alt_kept_trans: "on_alt_kept s t \<Longrightarrow> on_alt_kept t u \<Longrightarrow> on_alt_kept s u"
  by (simp add: on_alt_kept_def)

lemma on_alt_kept_save: "on_alt_kept s (screen_save_cursor s)"
  by (simp add: on_alt_kept_def screen_save_cursor_def upd_savepoint_def main_part_def)

lemma main_part_position: "main_part (screen_cursor_position a b s) = main_part s"
  using screen_cursor_position_set_cursor [of a b s] by (auto simp: set_cursor_def main_part_def)

lemma on_alt_kept_restore: "on_alt_kept s (screen_restore_cursor s)"
proof (cases "sp_is_valid (s_savepoint s)")
  case True
  with restore_valid show ?thesis by (simp add: on_alt_kept_def)
next
  case False
  define u where "u = RESET_CHARSETS (set_basic_mode DECOM False (screen_cursor_position 1 1 s))"
  have "main_part u = main_part s" "s_on_main u = s_on_main s" "s_main_savepoint u = s_main_savepoint s"
    "s_columns u = s_columns s" "s_lines u = s_lines s"
  proof -
    have m: "main_part (t\<lparr>s_modes := m\<rparr>) = main_part t" for t m by (simp add: main_part_def)
    have r: "main_part (RESET_CHARSETS t) = main_part t" for t by (simp add: main_part_def RESET_CHARSETS_def Let_def)
    show "main_part u = main_part s" by (simp add: u_def set_basic_mode_flags r m main_part_position)
  qed (simp_all add: u_def set_basic_mode_flags RESET_CHARSETS_def Let_def)
  moreover have "screen_restore_cursor s = set_basic_mode DECSCNM False u"
    using False by (simp add: screen_restore_cursor_def u_def)
  ultimately show ?thesis by (simp add: on_alt_kept_def set_basic_mode_flags main_part_def)
qed

lemma on_alt_kept_pending: "on_alt_kept s (set_basic_mode PENDING_UPDATE v s)"
  by (simp add: on_alt_kept_def set_basic_mode_flags set_pending_mode_def main_part_def emit_def)

lemma on_alt_kept_set_mode:
  assumes "v \<or> \<not> alt_screen_mode n"
  shows "on_alt_kept s (set_mode_from_const n v s)"
proof -
  consider "n = PENDING_UPDATE" | "n = SAVE_CURSOR" | "alt_screen_mode n" | "n \<noteq> PENDING_UPDATE" "n \<noteq> SAVE_CURSOR" "\<not> alt_screen_mode n"
    by blast
  then show ?thesis
  proof cases
    case 1
    then have "set_mode_from_const n v s = set_basic_mode PENDING_UPDATE v s" by (simp add: set_mode_from_const_def)
    then show ?thesis by (simp only: on_alt_kept_pending)
  next
    case 2
    then show ?thesis by (simp add: set_mode_from_const_def on_alt_kept_save)
  next
    case 3
    with assms have "\<not> s_on_main s \<Longrightarrow> set_mode_from_const n v s = s"
      unfolding alt_screen_mode_def set_mode_from_const_def by auto
    then show ?thesis by (cases "s_on_main s") (simp_all add: on_alt_kept_def)
  next
    case 4
    then show ?thesis by (intro on_alt_kept_calm calm_set_mode calm_refl)
  qed
qed

lemma alt_safe_mode_kept: "alt_safe (Call_mode m n) \<Longrightarrow> on_alt_kept s (run_mode m n s)"
  by (cases m) (simp_all add: screen_set_mode_def screen_reset_mode_def on_alt_kept_set_mode on_alt_kept_calm calm_intros)

lemma alt_safe_kept:
  assumes "alt_safe c"
  shows "on_alt_kept s (run_call c s)"
proof (cases "quiet c")
  case True
  then show ?thesis by (rule on_alt_kept_calm [OF quiet_calm])
next
  case False
  show ?thesis
  proof (cases c)
    case (Call0 c0)
    with False assms show ?thesis by (cases c0) (simp_all add: on_alt_kept_save on_alt_kept_restore)
  next
    case (Call_mode m n)
    with assms show ?thesis by (simp only: run_call.simps alt_safe_mode_kept)
  next
    case (Screen_use_latin1 on)
    then show ?thesis by (simp add: on_alt_kept_def screen_use_latin1_def callback_def emit_def main_part_def)
  qed (use False assms in simp_all)
qed

lemma alt_safe_calls_kept: "list_all alt_safe cs \<Longrightarrow> on_alt_kept s (fold run_call cs s)"
proof (induction cs arbitrary: s)
  case (Cons c cs)
  then have "on_alt_kept s (run_call c s)" "on_alt_kept (run_call c s) (fold run_call cs (run_call c s))" by (simp_all add: alt_safe_kept)
  then show ?case by (simp add: on_alt_kept_trans)
qed (simp add: on_alt_kept_def)

lemma history_scroll_shape: "\<exists>a b. snd (screen_history_scroll n up s) = s\<lparr>s_scrolled_by := a, s_scroll_changed := b\<rparr>"
proof -
  have "s = s\<lparr>s_scrolled_by := s_scrolled_by s, s_scroll_changed := s_scroll_changed s\<rparr>" by simp
  then show ?thesis
    unfolding screen_history_scroll_def Let_def if_distrib [of snd] snd_conv by metis
qed

lemma history_scroll_frame:
  "calm s (snd (screen_history_scroll n up s))" "s_cursor (snd (screen_history_scroll n up s)) = s_cursor s"
  "s_charsets (snd (screen_history_scroll n up s)) = s_charsets s" "s_modes (snd (screen_history_scroll n up s)) = s_modes s"
  using history_scroll_shape [of n up s] by (auto simp: calm_refl calm_updates)

lemma history_scroll_main_part: "main_part (snd (screen_history_scroll n up s)) = main_part s"
  using history_scroll_shape [of n up s] by (auto simp: main_part_def)

text \<open>What entering the alternate screen saves, and what leaving it brings back.\<close>

lemma enter_alternate_screen:
  assumes "s_on_main s"
  defines "t \<equiv> run_call (Call_mode Screen_set_mode ALTERNATE_SCREEN) s"
  shows "\<not> s_on_main t" "main_part t = main_part s" "s_main_savepoint t = s_savepoint (screen_save_cursor s)"
    "s_columns t = s_columns s" "s_lines t = s_lines s"
proof -
  define s1 where "s1 = emit (Grman_clear False True) ((s\<lparr>s_active_hyperlink_id := 0\<rparr>)\<lparr>s_alt_linebuf := linebuf_clear (s_alt_linebuf s) BLANK_CHAR\<rparr>)"
  define s2 where "s2 = (screen_save_cursor s1)\<lparr>s_on_main := False, s_tabs_main := False\<rparr>"
  define s3 where "s3 = upd_cursor cursor_reset (screen_cursor_position 1 1 s2)"
  define s4 where "s4 = snd (screen_history_scroll SCROLL_FULL False s3)"
  have t: "t = s4\<lparr>s_is_dirty := True, s_selections := clear_selection (s_selections s4)\<rparr>"
    using assms(1)
    by (simp add: t_def screen_set_mode_def set_mode_from_const_def screen_toggle_screen_buffer_def Let_def
        s4_def s3_def s2_def s1_def)
  have sv: "s_main_savepoint s2 = s_savepoint (screen_save_cursor s)" "main_part s2 = main_part s" "\<not> s_on_main s2"
    "s_columns s2 = s_columns s" "s_lines s2 = s_lines s"
    using assms(1) by (simp_all add: s2_def s1_def screen_save_cursor_def upd_savepoint_def s_savepoint_def emit_def main_part_def)
  obtain x y where s3: "s3 = upd_cursor cursor_reset (set_cursor x y s2)"
    using screen_cursor_position_set_cursor [of 1 1 s2] by (auto simp: s3_def)
  have c: "calm s3 s4" unfolding s4_def by (rule history_scroll_frame(1))
  have m: "main_part s4 = main_part s3" unfolding s4_def by (rule history_scroll_main_part)
  show "\<not> s_on_main t" "main_part t = main_part s" "s_main_savepoint t = s_savepoint (screen_save_cursor s)"
    "s_columns t = s_columns s" "s_lines t = s_lines s"
    using c m sv by (simp_all add: t calm_def s3 set_cursor_def main_part_def)
qed

lemma leave_alternate_screen:
  assumes "\<not> s_on_main s" "sp_is_valid (s_main_savepoint s)"
  defines "t \<equiv> run_call (Call_mode Screen_reset_mode ALTERNATE_SCREEN) s"
  shows "s_on_main t" "main_part t = main_part s" "restored_from (s_main_savepoint s) t"
    "s_columns t = s_columns s" "s_lines t = s_lines s"
proof -
  define s1 where "s1 = s\<lparr>s_active_hyperlink_id := 0, s_on_main := True, s_tabs_main := True\<rparr>"
  define s2 where "s2 = screen_restore_cursor s1"
  define s3 where "s3 = snd (screen_history_scroll SCROLL_FULL False s2)"
  have t: "t = s3\<lparr>s_is_dirty := True, s_selections := clear_selection (s_selections s3)\<rparr>"
    using assms(1)
    by (simp add: t_def screen_reset_mode_def set_mode_from_const_def screen_toggle_screen_buffer_def Let_def
        s3_def s2_def s1_def)
  have sp: "s_savepoint s1 = s_main_savepoint s" by (simp add: s1_def s_savepoint_def)
  then have v: "sp_is_valid (s_savepoint s1)" using assms(2) by simp
  note r = restore_valid [OF v, folded s2_def]
  have c: "calm s2 s3" "s_cursor s3 = s_cursor s2" "s_charsets s3 = s_charsets s2" "s_modes s3 = s_modes s2" "main_part s3 = main_part s2"
    unfolding s3_def by (rule history_scroll_frame history_scroll_main_part)+
  show "s_on_main t" "main_part t = main_part s" "restored_from (s_main_savepoint s) t"
    "s_columns t = s_columns s" "s_lines t = s_lines s"
    using r c sp by (simp_all add: t calm_def s1_def main_part_def restored_from_def)
qed

text \<open>
  C5: An application that enters the alternate screen (mode 1049), does there anything but leave
  it, reset the terminal or define hyperlinks, and leaves it again, finds the main screen, the
  scrollback and the key encoding flags of the main screen unchanged, and restored its cursor (one
  beyond the last column comes back in the last), the tables G0 and G1, which of them is selected
  and is the active table, the encoding, and the origin, wrap and reverse modes.
\<close>

theorem alternate_screen_roundtrip:
  assumes "screen_wf s" "s_on_main s" "list_all alt_safe cs"
    and "t = fold run_call (Call_mode Screen_set_mode ALTERNATE_SCREEN # cs @ [Call_mode Screen_reset_mode ALTERNATE_SCREEN]) s"
  shows "s_on_main t \<and> s_main_linebuf t = s_main_linebuf s \<and> s_historybuf t = s_historybuf s \<and> s_main_keys t = s_main_keys s
    \<and> s_cursor t = (s_cursor s)\<lparr>c_x := min (cx s) (s_columns s - 1)\<rparr>
    \<and> cs_g0 (s_charsets t) = cs_g0 (s_charsets s) \<and> cs_g1 (s_charsets t) = cs_g1 (s_charsets s)
    \<and> cs_current (s_charsets t) = cs_current (s_charsets s)
    \<and> cs_g (s_charsets t) = (if cs_current (s_charsets s) \<noteq> 0 then cs_g1 (s_charsets s) else cs_g0 (s_charsets s))
    \<and> mDECOM (s_modes t) = mDECOM (s_modes s) \<and> mDECAWM (s_modes t) = mDECAWM (s_modes s)
    \<and> mDECSCNM (s_modes t) = mDECSCNM (s_modes s) \<and> use_latin1 (s_dec t) = use_latin1 (s_dec s)"
proof -
  define s1 where "s1 = run_call (Call_mode Screen_set_mode ALTERNATE_SCREEN) s"
  define s2 where "s2 = fold run_call cs s1"
  have t: "t = run_call (Call_mode Screen_reset_mode ALTERNATE_SCREEN) s2" by (simp add: assms(4) s1_def s2_def)
  note e = enter_alternate_screen [OF assms(2), folded s1_def]
  have k: "\<not> s_on_main s2" "main_part s2 = main_part s1" "s_main_savepoint s2 = s_main_savepoint s1"
    "s_columns s2 = s_columns s1" "s_lines s2 = s_lines s1"
    using alt_safe_calls_kept [OF assms(3), of s1] e(1) by (simp_all add: on_alt_kept_def s2_def)
  have "sp_is_valid (s_savepoint (screen_save_cursor s))" by (simp add: s_savepoint_def screen_save_cursor_def upd_savepoint_def)
  then have v: "sp_is_valid (s_main_savepoint s2)" by (simp add: k e)
  note l = leave_alternate_screen [OF k(1) v, folded t]
  have "main_part t = main_part s" using l(2) k e by simp
  moreover have "restored_from (s_savepoint (screen_save_cursor s)) t" using l(3) k e by simp
  then have "s_cursor t = (s_cursor s)\<lparr>c_x := min (cx s) (s_columns s - 1)\<rparr>
    \<and> cs_g0 (s_charsets t) = cs_g0 (s_charsets s) \<and> cs_g1 (s_charsets t) = cs_g1 (s_charsets s)
    \<and> cs_current (s_charsets t) = cs_current (s_charsets s)
    \<and> cs_g (s_charsets t) = (if cs_current (s_charsets s) \<noteq> 0 then cs_g1 (s_charsets s) else cs_g0 (s_charsets s))
    \<and> mDECOM (s_modes t) = mDECOM (s_modes s) \<and> mDECAWM (s_modes t) = mDECAWM (s_modes s)
    \<and> mDECSCNM (s_modes t) = mDECSCNM (s_modes s) \<and> use_latin1 (s_dec t) = use_latin1 (s_dec s)"
    using l(4,5) k e by (intro restored_from_saved [OF assms(1)]) simp_all
  ultimately show ?thesis using l(1) by (simp add: main_part_def)
qed

lemma alternate_screen_roundtrip_witness:
  "s_main_linebuf (fold run_call (Call_mode Screen_set_mode ALTERNATE_SCREEN # [Screen_draw 0x41, Call0 Screen_index]
      @ [Call_mode Screen_reset_mode ALTERNATE_SCREEN]) example_screen) = s_main_linebuf example_screen"
  using alternate_screen_roundtrip [OF example_screen_wf example_screen_fields(1), of "[Screen_draw 0x41, Call0 Screen_index]", OF _ refl]
  by simp

end
