(* ===== verification/Parser_Reads.thy ===== *)
theory Parser_Reads
  imports Parser_Chunks
begin

text \<open>
  Whole reads, the level of \<^verbatim>\<open>do_parse_bytes\<close>: the room that is left in \<^verbatim>\<open>parser_buf\<close> inside a code, for every
  screen that does not leave pending mode by itself; what every read keeps; and independence of how the output of the
  child is cut into reads while pending mode is off.
\<close>

section \<open>Room inside a code\<close>

text \<open>Inside an OSC, DCS, APC or PM code there is an element behind the last character, where the dispatchers write.\<close>

definition code_room :: "'s parser \<Rightarrow> bool" where
  "code_room p = (parser_state p \<in> {OSC, DCS, APC, PM} \<longrightarrow> parser_buf_pos p < PARSER_BUF_SZ)"

lemma code_room_pos: "parser_buf_pos p < PARSER_BUF_SZ \<Longrightarrow> code_room p"
  by (simp add: code_room_def)

lemma code_room_state: "parser_state p \<notin> {OSC, DCS, APC, PM} \<Longrightarrow> code_room p"
  by (simp add: code_room_def)

lemma code_room_frame:
  "code_room p \<Longrightarrow> parser_state q = parser_state p \<Longrightarrow> parser_buf_pos q \<le> parser_buf_pos p \<Longrightarrow> code_room q"
  by (auto simp: code_room_def)

named_theorems room_intros

lemma room_set_state [room_intros]: "code_room (set_state s p)"
  by (simp add: code_room_pos frame_simps)

lemma room_call [room_intros]: "code_room p \<Longrightarrow> code_room (call exec c p)"
  by (auto simp: code_room_def call_def Let_def set_state_def split: prod.splits)

lemma room_calls [room_intros]: "code_room p \<Longrightarrow> code_room (calls exec cs p)"
  by (induction cs arbitrary: p) (simp_all add: room_call)

lemma room_put_char [room_intros]: "code_room p \<Longrightarrow> code_room (put_char c p)"
  by (rule code_room_frame [of p]) (simp_all add: put_char_def)

lemma room_drop_char [room_intros]: "code_room p \<Longrightarrow> code_room (drop_char p)"
  by (auto simp: code_room_def drop_char_def)

lemma room_set_utf8 [room_intros]: "code_room p \<Longrightarrow> code_room (set_utf8 st cp p)"
  by (simp add: code_room_def set_utf8_def)

lemma room_set_activated_at [room_intros]: "code_room p \<Longrightarrow> code_room (set_activated_at t p)"
  by (simp add: code_room_def set_activated_at_def)

lemma room_push_char: "parser_buf_pos p < PARSER_BUF_SZ - 1 \<Longrightarrow> code_room (push_char c p)"
  by (simp add: code_room_def push_char_def)

lemma room_push_csi: "parser_state p \<notin> {OSC, DCS, APC, PM} \<Longrightarrow> code_room (push_char c p)"
  by (simp add: code_room_def push_char_def put_char_def)

lemma room_continue_osc_52 [room_intros]: "code_room (continue_osc_52 p)"
  by (simp add: code_room_def continue_osc_52_def)

lemma room_write_pending_char [room_intros]: "code_room p \<Longrightarrow> code_room (write_pending_char c p)"
  by (simp add: code_room_def write_pending_char_def)

lemma room_write_pending_chars [room_intros]: "code_room p \<Longrightarrow> code_room (write_pending_chars cs p)"
  by (induction cs arbitrary: p) (simp_all add: write_pending_chars_def room_write_pending_char)

lemma room_pending_escape_code [room_intros]: "code_room p \<Longrightarrow> code_room (pending_escape_code a b p)"
  by (simp add: pending_escape_code_def room_intros)

lemma room_set_stop_type [room_intros]: "code_room p \<Longrightarrow> code_room (p\<lparr>pending_stop_type := t\<rparr>)"
  by (simp add: code_room_def)

lemma room_dump [room_intros]: "code_room p \<Longrightarrow> code_room (dump_partial_escape_code_to_pending p)"
  by (simp add: dump_partial_escape_code_to_pending_def room_intros)

lemma room_handle_extended: "handle_extended_osc_code p = Some q \<Longrightarrow> code_room p \<Longrightarrow> code_room q"
  by (auto simp: code_room_def handle_extended_osc_code_def split: if_splits)

lemma room_accumulate_osc [room_intros]: "code_room p \<Longrightarrow> code_room (snd (snd (accumulate_osc exec c p)))"
  by (auto simp: accumulate_osc_def intro!: room_intros room_push_char elim: room_handle_extended split: option.splits)

lemma room_accumulate_dcs [room_intros]: "code_room p \<Longrightarrow> code_room (snd (accumulate_dcs exec c p))"
  by (auto simp: accumulate_dcs_def intro!: room_intros room_push_char)

lemma room_accumulate_oth [room_intros]: "code_room p \<Longrightarrow> code_room (snd (accumulate_oth exec c p))"
  by (auto simp: accumulate_oth_def intro!: room_intros room_push_char)

lemma room_normal [room_intros]: "code_room p \<Longrightarrow> code_room (dispatch_normal_mode_char exec c p)"
  by (auto simp: dispatch_normal_mode_char_def intro!: room_intros split: sum.splits)

lemma room_esc [room_intros]: "code_room p \<Longrightarrow> code_room (dispatch_esc_mode_char exec c p)"
  by (simp add: dispatch_esc_mode_char_def room_intros room_push_char split: option.splits)

lemma room_csi_push: "parser_state p = CSI \<Longrightarrow> code_room (csi_push exec c p)"
  by (simp add: csi_push_def room_set_state room_push_csi)

lemma room_accumulate_csi:
  assumes "parser_state p = CSI"
  shows "code_room (snd (accumulate_csi exec c p))"
proof -
  have "code_room p" using assms by (simp add: code_room_state)
  then show ?thesis
    using room_csi_push [OF assms] by (simp add: accumulate_csi_def room_set_state room_put_char room_normal)
qed

definition dispatcher_room :: "'s parser dispatcher \<Rightarrow> bool" where
  "dispatcher_room D =
     (\<forall>p. code_room p \<longrightarrow>
        (\<forall>c. code_room (on_normal D c p) \<and> code_room (on_esc D c p)) \<and> code_room (on_osc D p))"

lemma room_dispatch_to_screen: "dispatcher_room (dispatch_to_screen exec)"
  by (auto simp: dispatcher_room_def dispatch_to_screen_def dispatch_osc_code_def Let_def intro!: room_intros split: prod.splits)

lemma room_pending_normal [room_intros]: "code_room p \<Longrightarrow> code_room (pending_normal_mode_char c p)"
  by (simp add: pending_normal_mode_char_def room_intros)

lemma room_pending_esc [room_intros]: "code_room p \<Longrightarrow> code_room (pending_esc_mode_char c p)"
  by (cases "esc_start_state c") (simp_all add: pending_esc_mode_char_def room_set_state room_push_char)

lemma room_pending_osc [room_intros]: "code_room p \<Longrightarrow> code_room (pending_osc p)"
  by (simp add: pending_osc_def Let_def room_intros)

lemma room_dispatch_to_pending: "dispatcher_room dispatch_to_pending"
  by (simp add: dispatcher_room_def dispatch_to_pending_def room_intros)

lemma dispatch_to_pending_simps:
  "on_normal dispatch_to_pending = pending_normal_mode_char" "on_esc dispatch_to_pending = pending_esc_mode_char"
  "on_csi dispatch_to_pending = pending_csi" "on_osc dispatch_to_pending = pending_osc"
  "on_apc dispatch_to_pending = pending_escape_code APC ST" "on_pm dispatch_to_pending = pending_escape_code PM ST"
  "on_dcs dispatch_to_pending = pending_dcs"
  by (simp_all add: dispatch_to_pending_def)

lemma room_osc_char:
  assumes D: "dispatcher_room D" and p: "code_room p"
  shows "code_room (osc_char exec D c p)"
proof -
  obtain fin ext q where a: "accumulate_osc exec c p = (fin, ext, q)" by (cases "accumulate_osc exec c p")
  then have q: "code_room q" using room_accumulate_osc [OF p, of exec c] by simp
  with D have o: "code_room (on_osc D q)" by (simp add: dispatcher_room_def)
  obtain fin' ext' q' where a': "accumulate_osc exec c (on_osc D q) = (fin', ext', q')"
    by (cases "accumulate_osc exec c (on_osc D q)")
  then have "code_room q'" using room_accumulate_osc [OF o, of exec c] by simp
  with q show ?thesis
    by (auto simp: osc_char_def a a' intro!: room_intros split: bool.splits)
qed

lemma room_dispatch:
  assumes D: "dispatcher_room D" and p: "code_room p"
  shows "code_room (snd (dispatch_unicode_char exec D watch c p))"
proof -
  obtain f1 q1 where a1: "accumulate_csi exec c p = (f1, q1)" by fastforce
  obtain f2 q2 where a2: "accumulate_oth exec c p = (f2, q2)" by fastforce
  obtain f3 q3 where a3: "accumulate_dcs exec c p = (f3, q3)" by fastforce
  have q: "parser_state p = CSI \<Longrightarrow> code_room q1" "code_room q2" "code_room q3"
    using room_accumulate_csi [of p exec c] room_accumulate_oth [OF p, of exec c] room_accumulate_dcs [OF p, of exec c]
    by (simp_all add: a1 a2 a3)
  have D': "code_room (on_normal D c r)" "code_room (on_esc D c r)" if "code_room r" for r
    using D that by (simp_all add: dispatcher_room_def)
  show ?thesis
    unfolding dispatch_unicode_char_def a1 a2 a3
    by (cases f1; cases f2; cases f3) (simp_all add: Let_def p q D' room_osc_char [OF D p] room_set_state)
qed

lemma room_decode_loop:
  assumes D: "dispatcher_room D" and p: "code_room p"
  shows "code_room (snd (decode_loop (dispatch_unicode_char exec D watch) prev bs p))"
  by (rule decode_loop_invariant [of code_room]) (auto intro: p room_dispatch [OF D] room_intros)

lemma room_parse_bytes [room_intros]: "code_room p \<Longrightarrow> code_room (parse_bytes exec bs p)"
  by (simp add: parse_bytes_def screen_step_def room_decode_loop room_dispatch_to_screen)

lemma room_parse_watching [room_intros]: "code_room p \<Longrightarrow> code_room (snd (parse_bytes_watching_for_pending exec bs p))"
  by (simp add: parse_bytes_watching_for_pending_def screen_step_def room_decode_loop room_dispatch_to_screen)

lemma room_queue [room_intros]: "code_room p \<Longrightarrow> code_room (snd (queue_pending_bytes exec bs p))"
  by (simp add: queue_pending_bytes_def room_decode_loop room_dispatch_to_pending)

section \<open>The position after a loop that was left\<close>

lemma decode_loop_left:
  assumes go: "\<And>c p q. P p \<Longrightarrow> step c p = (False, q) \<Longrightarrow> P q"
    and stop: "\<And>c p q. P p \<Longrightarrow> step c p = (True, q) \<Longrightarrow> Q q"
    and utf8: "\<And>st cp p. P p \<Longrightarrow> P (set_utf8 st cp p)"
  shows "P p \<Longrightarrow> decode_loop step prev bs p = (rest, q) \<Longrightarrow> Q q \<or> P q \<and> rest = []"
proof (induction prev bs p rule: decode_loop_induct [of _ step])
  case (Nil prev p)
  then show ?case by simp
next
  case (Latin1 prev b bs p stop r)
  then show ?case using go [OF Latin1.prems(1)] assms(2) [OF Latin1.prems(1)] by (cases stop) (simp_all add: decode_loop_latin1)
next
  case (Accept prev b bs p cp stop r)
  have "P (set_utf8 0 cp p)" using Accept.prems(1) by (rule utf8)
  note go = go [OF this] and stop = assms(2) [OF this]
  show ?case using Accept go stop by (cases stop) (simp_all add: decode_loop_accept)
next
  case (Again prev b bs p cp)
  then show ?case by (simp add: decode_loop_again utf8)
next
  case (Reject b bs p cp)
  then show ?case by (simp add: decode_loop_reject utf8)
next
  case (More prev b bs p st cp)
  then show ?case by (simp add: decode_loop_more utf8)
qed

lemma dispatch_stops_at_code_end:
  "dispatch_unicode_char exec D watch c p = (True, q) \<Longrightarrow> parser_buf_pos q = 0"
  by (auto simp: dispatch_unicode_char_def Let_def frame_simps split: if_splits prod.splits bool.splits)

lemma read_left:
  assumes "parse_bytes_watching_for_pending exec bs p = (rest, q)" "rest \<noteq> []"
  shows "parser_buf_pos q = 0"
proof -
  have "parser_buf_pos q = 0 \<or> True \<and> rest = []"
    using assms(1) unfolding parse_bytes_watching_for_pending_def screen_step_def
    by (rule decode_loop_left [of "\<lambda>p. True" _ "\<lambda>q. parser_buf_pos q = 0", rotated -1])
      (simp_all add: dispatch_stops_at_code_end)
  with assms(2) show ?thesis by simp
qed

section \<open>Only queueing writes the pending buffer\<close>

lemma pending_buf_accumulate [frame_simps]:
  "pending_buf (snd (snd (accumulate_osc exec c p))) = pending_buf p" "pending_buf (snd (accumulate_dcs exec c p)) = pending_buf p"
  "pending_buf (snd (accumulate_oth exec c p)) = pending_buf p" "pending_buf (snd (accumulate_csi exec c p)) = pending_buf p"
  by (auto simp: accumulate_osc_def accumulate_dcs_def accumulate_oth_def accumulate_csi_def csi_push_def drop_char_def
      handle_extended_osc_code_def dispatch_normal_mode_char_def frame_simps split: option.split sum.split if_splits)

lemma pending_buf_handlers [frame_simps]:
  "pending_buf (dispatch_osc_code exec p) = pending_buf p" "pending_buf (dispatch_dcs_code exec p) = pending_buf p"
  "pending_buf (dispatch_esc_mode_char exec c p) = pending_buf p" "pending_buf (dispatch_normal_mode_char exec c p) = pending_buf p"
  by (simp_all add: dispatch_osc_code_def dispatch_dcs_code_def dispatch_esc_mode_char_def dispatch_normal_mode_char_def
      continue_osc_52_def Let_def frame_simps split: prod.split option.split sum.split)

lemma pending_buf_osc_char [frame_simps]: "pending_buf (osc_char exec (dispatch_to_screen exec) c p) = pending_buf p"
proof -
  obtain f e q where a: "accumulate_osc exec c p = (f, e, q)" by (cases "accumulate_osc exec c p")
  obtain f' e' q' where a': "accumulate_osc exec c (dispatch_osc_code exec q) = (f', e', q')"
    by (cases "accumulate_osc exec c (dispatch_osc_code exec q)")
  have "pending_buf q = pending_buf p" "pending_buf q' = pending_buf q"
    using pending_buf_accumulate(1) [of exec c p] pending_buf_accumulate(1) [of exec c "dispatch_osc_code exec q"]
    by (simp_all add: a a' frame_simps)
  then show ?thesis by (cases f; cases e; cases f') (simp_all add: osc_char_def a a' dispatch_to_screen_simps frame_simps)
qed

lemma pending_buf_step: "pending_buf (snd (screen_step exec watch c p)) = pending_buf p"
proof -
  obtain f1 q1 where a1: "accumulate_csi exec c p = (f1, q1)" by fastforce
  obtain f2 q2 where a2: "accumulate_oth exec c p = (f2, q2)" by fastforce
  obtain f3 q3 where a3: "accumulate_dcs exec c p = (f3, q3)" by fastforce
  have "pending_buf q1 = pending_buf p" "pending_buf q2 = pending_buf p" "pending_buf q3 = pending_buf p"
    using pending_buf_accumulate(2-4) [of exec c p] by (simp_all add: a1 a2 a3)
  then show ?thesis
    unfolding screen_step_def dispatch_unicode_char_def a1 a2 a3
    by (cases f1; cases f2; cases f3) (simp_all add: Let_def dispatch_to_screen_simps frame_simps)
qed

lemma pending_buf_loop: "pending_buf (snd (decode_loop (screen_step exec watch) prev bs p)) = pending_buf p"
  by (rule decode_loop_invariant [of "\<lambda>q. pending_buf q = pending_buf p"]) (simp_all add: pending_buf_step frame_simps)

lemma watching_pending_buf: "pending_buf (snd (parse_bytes_watching_for_pending exec bs p)) = pending_buf p"
  by (simp add: parse_bytes_watching_for_pending_def pending_buf_loop)

section \<open>Queueing does not leave pending mode inside a code\<close>

text \<open>
  While a code is queued, the screen is called only for errors and for the control characters inside a CSI code.
  A screen that does not touch pending mode there leaves it only at the end of a code.
\<close>

locale pending_screen =
  fixes exec :: "'s exec"
  assumes report_pending: "pending_activated_at (fst (exec (Report_error e) x)) = pending_activated_at (fst x)"
    and control_pending: "csi_is_control c \<Longrightarrow> normal_mode_char c = Inr cs \<Longrightarrow> k \<in> set cs \<Longrightarrow>
      pending_activated_at (fst (exec k x)) = pending_activated_at (fst x)"
begin

lemma pending_call:
  "pending_activated_at (fst (exec k (dec p, scr p))) = pending_activated_at (fst (dec p, scr p)) \<Longrightarrow>
   is_pending (call exec k p) = is_pending p"
  by (cases "exec k (dec p, scr p)") (simp add: is_pending_def call_def Let_def set_state_def)

lemma pending_report [simp]: "is_pending (report exec e p) = is_pending p"
  using report_pending by (rule pending_call)

lemma pending_same_calls:
  "(\<And>k x. k \<in> set cs \<Longrightarrow> pending_activated_at (fst (exec k x)) = pending_activated_at (fst x)) \<Longrightarrow>
   is_pending (calls exec cs p) = is_pending p"
proof (induction cs arbitrary: p)
  case (Cons k cs)
  have "is_pending (call exec k p) = is_pending p"
    by (rule pending_call) (simp add: Cons.prems)
  with Cons show ?case by simp
qed simp

lemma pending_frame [simp]:
  "is_pending (set_state st p) = is_pending p" "is_pending (push_char c p) = is_pending p"
  "is_pending (put_char c p) = is_pending p" "is_pending (drop_char p) = is_pending p"
  "is_pending (set_utf8 u cp p) = is_pending p" "is_pending (continue_osc_52 p) = is_pending p"
  "is_pending (write_pending_char c p) = is_pending p"
  by (simp_all add: is_pending_def set_state_def push_char_def put_char_def drop_char_def set_utf8_def
      continue_osc_52_def write_pending_char_def)

lemma pending_write_chars [simp]: "is_pending (write_pending_chars cs p) = is_pending p"
  by (induction cs arbitrary: p) (simp_all add: write_pending_chars_def)

lemma pending_write_code [simp]: "is_pending (pending_escape_code a b p) = is_pending p"
  by (simp add: pending_escape_code_def)

lemma pending_control:
  assumes "csi_is_control c"
  shows "is_pending (dispatch_normal_mode_char exec c p) = is_pending p"
proof (cases "normal_mode_char c")
  case (Inr cs)
  then show ?thesis using pending_same_calls [OF control_pending [OF assms]] by (simp add: dispatch_normal_mode_char_def)
qed (simp add: dispatch_normal_mode_char_def)

lemma pending_handle_extended: "handle_extended_osc_code p = Some q \<Longrightarrow> is_pending q = is_pending p"
  by (auto simp: handle_extended_osc_code_def is_pending_def split: if_splits)

lemma pending_accumulate [simp]:
  "is_pending (snd (snd (accumulate_osc exec c p))) = is_pending p"
  "is_pending (snd (accumulate_dcs exec c p)) = is_pending p" "is_pending (snd (accumulate_oth exec c p)) = is_pending p"
  by (simp_all add: accumulate_osc_def accumulate_dcs_def accumulate_oth_def pending_handle_extended split: option.split)

lemma pending_accumulate_csi [simp]: "is_pending (snd (accumulate_csi exec c p)) = is_pending p"
  by (simp add: accumulate_csi_def csi_push_def pending_control)

lemma pending_osc_char [simp]: "is_pending (osc_char exec dispatch_to_pending c p) = is_pending p"
proof -
  have o: "is_pending (on_osc dispatch_to_pending q) = is_pending q" for q :: "'s parser"
    by (simp add: dispatch_to_pending_def pending_osc_def Let_def)
  obtain f e q where a: "accumulate_osc exec c p = (f, e, q)" by (cases "accumulate_osc exec c p")
  obtain f' e' q' where a': "accumulate_osc exec c (on_osc dispatch_to_pending q) = (f', e', q')"
    by (cases "accumulate_osc exec c (on_osc dispatch_to_pending q)")
  have "is_pending q = is_pending p" "is_pending q' = is_pending q"
    using pending_accumulate(1) [of c p] pending_accumulate(1) [of c "on_osc dispatch_to_pending q"] by (simp_all add: a a' o)
  then show ?thesis by (cases f; cases e; cases f') (simp_all add: osc_char_def a a' o)
qed

lemma pending_handlers [simp]:
  "is_pending (pending_esc_mode_char c p) = is_pending p" "is_pending (pending_normal_mode_char c p) = is_pending p"
  by (simp_all add: pending_esc_mode_char_def pending_normal_mode_char_def split: option.split)

lemma pending_step_goes_on:
  assumes "is_pending p" "dispatch_unicode_char exec dispatch_to_pending (\<lambda>p. \<not> is_pending p) c p = (False, q)"
  shows "is_pending q"
proof -
  obtain f1 q1 where a1: "accumulate_csi exec c p = (f1, q1)" by fastforce
  obtain f2 q2 where a2: "accumulate_oth exec c p = (f2, q2)" by fastforce
  obtain f3 q3 where a3: "accumulate_dcs exec c p = (f3, q3)" by fastforce
  have "is_pending q1" "is_pending q2" "is_pending q3"
    using assms(1) pending_accumulate_csi [of c p] pending_accumulate(2,3) [of c p] by (simp_all add: a1 a2 a3)
  then have "fst d \<or> is_pending (snd d)" if "d = dispatch_unicode_char exec dispatch_to_pending (\<lambda>p. \<not> is_pending p) c p" for d
    using assms(1) unfolding that dispatch_unicode_char_def a1 a2 a3 dispatch_to_pending_simps
    by (cases f1; cases f2; cases f3) (simp_all add: Let_def)
  from this [OF refl] assms(2) show ?thesis by simp
qed

lemma queue_left:
  assumes p: "is_pending p" and r: "queue_pending_bytes exec bs p = (rest, q)"
  shows "parser_buf_pos q = 0 \<or> is_pending q \<and> rest = []"
proof (rule decode_loop_left [of is_pending _ "\<lambda>q. parser_buf_pos q = 0", OF _ _ _ p r [unfolded queue_pending_bytes_def]])
  show "is_pending q" if "is_pending p" "dispatch_unicode_char exec dispatch_to_pending (\<lambda>p. \<not> is_pending p) c p = (False, q)" for c p q
    using that by (rule pending_step_goes_on)
  show "parser_buf_pos q = 0" if "dispatch_unicode_char exec dispatch_to_pending (\<lambda>p. \<not> is_pending p) c p = (True, q)" for c p q
    using that by (rule dispatch_stops_at_code_end)
qed simp

section \<open>Room after a read\<close>

text \<open>
  \<^verbatim>\<open>PARSE_PENDING\<close> sets the state without the position: then the state is the normal one or the position is 0.
\<close>

definition round_room :: "parse_phase \<times> u32 \<times> u8 list \<times> 's parser \<Rightarrow> bool" where
  "round_room r = (case r of (ph, s, bs, p) \<Rightarrow> code_room p \<and> (s = 0 \<or> parser_buf_pos p = 0))"

lemma room_parse_pending_phase:
  assumes "s = 0 \<or> parser_buf_pos p = 0"
  shows "code_room (parse_pending_phase exec s p)"
proof -
  have "code_room (p\<lparr>parser_state := s\<rparr>)" using assms by (auto simp: code_room_def)
  then have "code_room (parse_bytes exec (pending_buf p) (p\<lparr>parser_state := s\<rparr>))" by (rule room_parse_bytes)
  then show ?thesis by (rule code_room_frame) (simp_all add: parse_pending_phase_def Let_def set_activated_at_def)
qed

lemma dump_pos:
  fixes p :: "'s parser"
  shows "parser_buf_pos (dump_partial_escape_code_to_pending p) = parser_buf_pos p"
proof -
  have "parser_buf_pos (write_pending_chars cs q) = parser_buf_pos q" for cs and q :: "'s parser"
    by (induction cs arbitrary: q) (simp_all add: write_pending_chars_def write_pending_char_def)
  moreover have "parser_buf_pos (write_pending_char c p) = parser_buf_pos p" for c by (simp add: write_pending_char_def)
  ultimately show ?thesis by (simp add: dump_partial_escape_code_to_pending_def)
qed

lemma room_start_phase:
  "round_room (PS_START, s, bs, p) \<Longrightarrow> round_room (start_phase now s bs p)"
  by (auto simp: round_room_def start_phase_def dump_pos frame_simps intro!: room_intros)

lemma room_read_phase:
  assumes "round_room (PS_PARSE_READ_BUF, s, bs, p)" "pending_buf p = []" "parse_more (read_phase exec s bs p)"
  shows "round_room (read_phase exec s bs p)"
proof -
  obtain rest q where r: "parse_bytes_watching_for_pending exec bs (set_activated_at 0 p) = (rest, q)" by fastforce
  then have ph: "read_phase exec s bs p = (PS_START, s, rest, q)" by (simp add: read_phase_def)
  have "code_room q"
    using room_parse_watching [of "set_activated_at 0 p" exec bs] assms(1) r by (simp add: round_room_def room_set_activated_at)
  moreover have "pending_buf q = []"
    using watching_pending_buf [of exec bs "set_activated_at 0 p"] assms(2) by (simp add: r frame_simps)
  with assms(3) have "parser_buf_pos q = 0" by (intro read_left [OF r]) (simp add: ph parse_more_def)
  ultimately show ?thesis by (simp add: ph round_room_def)
qed

lemma room_queue_phase:
  assumes "round_room (PS_QUEUE_PENDING, s, bs, p)" "is_pending p" "parse_more (queue_phase exec s bs p)"
  shows "round_room (queue_phase exec s bs p)"
proof -
  define q where "q = p\<lparr>pending_stop_type := 0\<rparr>"
  have q: "code_room q" "is_pending q" "parser_buf_pos q = parser_buf_pos p"
    using assms(1,2) by (simp_all add: q_def round_room_def room_intros is_pending_def)
  show ?thesis
  proof (cases "length (pending_buf q) \<ge> READ_BUF_SZ")
    case True
    then have "queue_phase exec s bs p = (PS_START, s, bs, set_activated_at 0 (dump_partial_escape_code_to_pending q))"
      by (simp add: queue_phase_def q_def [symmetric] Let_def)
    then show ?thesis using q assms(1)
      by (simp add: round_room_def room_set_activated_at room_dump dump_pos set_activated_at_frame)
  next
    case False
    obtain rest r where r: "queue_pending_bytes exec bs q = (rest, r)" by fastforce
    then obtain s' where ph: "queue_phase exec s bs p = (PS_START, s', rest, r)"
      using False by (simp add: queue_phase_def q_def [symmetric] Let_def)
    have "code_room r" using room_queue [OF q(1), of exec bs] by (simp add: r)
    moreover have "parser_buf_pos r = 0"
      using queue_left [OF q(2) r] assms(3) by (auto simp: ph parse_more_def)
    ultimately show ?thesis by (simp add: ph round_room_def)
  qed
qed

lemma room_round:
  assumes "phase_ok r" "round_room r" "parse_more (parse_round exec now r)"
  shows "round_room (parse_round exec now r)"
proof -
  obtain ph s bs p where r: "r = (ph, s, bs, p)" by (cases r)
  show ?thesis
  proof (cases ph)
    case PS_START
    then show ?thesis using assms room_start_phase [of s bs p now] by (simp add: r parse_round_def)
  next
    case PS_PARSE_PENDING
    then show ?thesis using assms(2) by (simp add: r parse_round_def round_room_def room_parse_pending_phase)
  next
    case PS_PARSE_READ_BUF
    then show ?thesis using assms room_read_phase [of s bs p] by (simp add: r parse_round_def)
  next
    case PS_QUEUE_PENDING
    then show ?thesis using assms room_queue_phase [of s bs p] by (simp add: r parse_round_def)
  qed
qed

lemma room_last_round:
  assumes "round_room (ph, s, bs, p)" "parse_round exec now (ph, s, bs, p) = (ph', s', bs', p')"
  shows "code_room p'"
proof (cases ph)
  case PS_START
  then show ?thesis using assms room_start_phase [of s bs p now] by (simp add: parse_round_def round_room_def)
next
  case PS_PARSE_PENDING
  then show ?thesis using assms by (auto simp: parse_round_def round_room_def intro: room_parse_pending_phase)
next
  case PS_PARSE_READ_BUF
  then show ?thesis using assms room_parse_watching [of "set_activated_at 0 p" exec bs]
    by (simp add: parse_round_def round_room_def read_phase_def room_set_activated_at split: prod.splits)
next
  case PS_QUEUE_PENDING
  define q where "q = p\<lparr>pending_stop_type := 0\<rparr>"
  have "code_room q" using assms(1) by (simp add: q_def round_room_def room_set_stop_type)
  then have "code_room (snd (queue_pending_bytes exec bs q))" "code_room (set_activated_at 0 (dump_partial_escape_code_to_pending q))"
    by (simp_all add: room_queue room_set_activated_at room_dump)
  then show ?thesis using assms(2) PS_QUEUE_PENDING
    by (simp add: parse_round_def queue_phase_def q_def [symmetric] Let_def split: prod.splits if_splits)
qed

lemma room_rounds:
  "parse_rounds exec now fuel r = Some p' \<Longrightarrow> phase_ok r \<Longrightarrow> round_room r \<Longrightarrow> code_room p'"
proof (induction fuel arbitrary: r)
  case (Suc fuel)
  obtain ph s bs p where r: "r = (ph, s, bs, p)" by (cases r)
  show ?case
  proof (cases "parse_more (parse_round exec now r)")
    case True
    then show ?thesis
      using Suc.IH [of "parse_round exec now r"] Suc.prems parse_round_measure [of r exec now] room_round [of r now]
      by (simp add: Let_def)
  next
    case False
    then show ?thesis using Suc.prems room_last_round [of ph s bs p now]
      by (cases "parse_round exec now r") (simp add: r Let_def)
  qed
qed simp

lemma do_parse_bytes_room: "do_parse_bytes exec now bs p = Some p' \<Longrightarrow> code_room p \<Longrightarrow> code_room p'"
  using room_rounds [of now "6 * length bs + 12" "(PS_START, 0, bs, p)" p'] by (simp add: do_parse_bytes_def round_room_def)

end

section \<open>Reads while pending mode is off\<close>

text \<open>
  The reads one after the other, each with the time it was made at: \<^verbatim>\<open>parse_worker\<close> hands them to
  \<^verbatim>\<open>do_parse_bytes\<close>.
\<close>

fun run_reads :: "'s exec \<Rightarrow> (int \<times> u8 list) list \<Rightarrow> 's parser \<Rightarrow> 's parser option" where
  "run_reads exec [] p = Some p"
| "run_reads exec ((now, bs) # reads) p =
     (case do_parse_bytes exec now bs p of None \<Rightarrow> None | Some q \<Rightarrow> run_reads exec reads q)"

lemma watch_step: "screen_step exec watch c p = (fst (screen_step exec watch c p), snd (screen_step exec (\<lambda>p. False) c p))"
  by (auto simp: screen_step_def dispatch_unicode_char_def Let_def split: prod.splits bool.splits)

lemma watch_stops: "screen_step exec watch c p = (True, q) \<Longrightarrow> watch q"
  by (auto simp: screen_step_def dispatch_unicode_char_def Let_def split: if_splits prod.splits bool.splits)

text \<open>Looking out for pending mode makes no difference when it is off after every byte.\<close>

lemma decode_loop_unwatched:
  assumes utf8: "\<And>st cp p. watch (set_utf8 st cp p) = watch p"
    and off: "\<And>n. \<not> watch (snd (decode_loop (screen_step exec (\<lambda>p. False)) prev (take n bs) p))"
  shows "decode_loop (screen_step exec watch) prev bs p = ([], snd (decode_loop (screen_step exec (\<lambda>p. False)) prev bs p))"
  using off
proof (induction prev bs p rule: decode_loop_induct [of _ "screen_step exec (\<lambda>p. False)"])
  case (Nil prev p)
  then show ?case by simp
next
  case (Latin1 prev b bs p stop q)
  have go: "screen_step exec (\<lambda>p. False) (charset_latin1 ! unat b) p = (False, q)"
    using Latin1.hyps(2) watch_stops [of exec "\<lambda>p. False"] by (cases stop) auto
  note one = decode_loop_latin1 [where step = "screen_step exec (\<lambda>p. False)", OF Latin1.hyps(1) go]
  have off: "\<not> watch (snd (decode_loop (screen_step exec (\<lambda>p. False)) prev (take n bs) q))" for n
    using Latin1.prems [of "Suc n"] by (simp add: one)
  have "screen_step exec watch (charset_latin1 ! unat b) p = (False, q)"
    using watch_step [of exec watch "charset_latin1 ! unat b" p] watch_stops [of exec watch "charset_latin1 ! unat b" p q] off [of 0] go
    by (metis (mono_tags, lifting) decode_loop_Nil snd_conv take_0)
  then show ?case using Latin1.hyps(2) go Latin1.IH off by (simp add: one decode_loop_latin1 [OF Latin1.hyps(1)])
next
  case (Accept prev b bs p cp stop q)
  have go: "screen_step exec (\<lambda>p. False) cp (set_utf8 0 cp p) = (False, q)"
    using Accept.hyps(3) watch_stops [of exec "\<lambda>p. False"] by (cases stop) auto
  note one = decode_loop_accept [where step = "screen_step exec (\<lambda>p. False)", OF Accept.hyps(1,2) go]
  have off: "\<not> watch (snd (decode_loop (screen_step exec (\<lambda>p. False)) (utf8_state (dec q)) (take n bs) q))" for n
    using Accept.prems [of "Suc n"] by (simp add: one)
  have "screen_step exec watch cp (set_utf8 0 cp p) = (False, q)"
    using watch_step [of exec watch cp "set_utf8 0 cp p"] watch_stops [of exec watch cp "set_utf8 0 cp p" q] off [of 0] go
    by (metis (mono_tags, lifting) decode_loop_Nil snd_conv take_0)
  then show ?case using Accept.hyps(3) go Accept.IH off by (simp add: one decode_loop_accept [OF Accept.hyps(1,2)])
next
  case (Again prev b bs p cp)
  have "\<not> watch (snd (decode_loop (screen_step exec (\<lambda>p. False)) 0 (take n (b # bs)) (set_utf8 0 cp p)))" for n
    using Again.prems [of n] Again.hyps by (cases n) (simp_all add: decode_loop_again utf8)
  then show ?case using Again by (simp add: decode_loop_again)
next
  case (Reject b bs p cp)
  have "\<not> watch (snd (decode_loop (screen_step exec (\<lambda>p. False)) 0 (take n bs) (set_utf8 0 cp p)))" for n
    using Reject.prems [of "Suc n"] Reject.hyps by (simp add: decode_loop_reject)
  then show ?case using Reject by (simp add: decode_loop_reject)
next
  case (More prev b bs p st cp)
  have "\<not> watch (snd (decode_loop (screen_step exec (\<lambda>p. False)) st (take n bs) (set_utf8 st cp p)))" for n
    using More.prems [of "Suc n"] More.hyps by (simp add: decode_loop_more)
  then show ?case using More by (simp add: decode_loop_more)
qed

text \<open>One read.\<close>

lemma set_activated_at_off: "\<not> is_pending p \<Longrightarrow> set_activated_at 0 p = p"
  by (simp add: is_pending_def set_activated_at_def)

lemma do_parse_bytes_unwatched:
  assumes off: "\<And>n. \<not> is_pending (parse_bytes exec (take n bs) p)" and buf: "pending_buf p = []"
  shows "do_parse_bytes exec now bs p = Some (parse_bytes exec bs p)"
proof -
  have p: "\<not> is_pending p" using off [of 0] by (simp add: parse_bytes_def)
  have round1: "parse_round exec now (PS_START, 0, bs, p) = (PS_PARSE_READ_BUF, 0, bs, p)"
    using p buf by (simp add: parse_round_def start_phase_def)
  have "parse_bytes_watching_for_pending exec bs p = ([], parse_bytes exec bs p)"
    unfolding parse_bytes_watching_for_pending_def parse_bytes_def
    by (rule decode_loop_unwatched) (use off in \<open>simp_all add: parse_bytes_def is_pending_def set_utf8_def\<close>)
  then have round2: "parse_round exec now (PS_PARSE_READ_BUF, 0, bs, p) = (PS_START, 0, [], parse_bytes exec bs p)"
    by (simp add: parse_round_def read_phase_def set_activated_at_off [OF p])
  have "pending_buf (parse_bytes exec bs p) = []" using buf by (simp add: parse_bytes_def pending_buf_loop)
  then have "parse_rounds exec now (Suc (Suc k)) (PS_START, 0, bs, p) = Some (parse_bytes exec bs p)" for k
    by (cases "bs = []") (use p round1 round2 in \<open>simp_all add: Let_def parse_more_def buf parse_bytes_def [of exec "[]"]\<close>)
  from this [of "6 * length bs + 10"] show ?thesis by (simp add: do_parse_bytes_def eval_nat_numeral)
qed

context decoder_screen begin

lemma decode_loop_chunk_ok:
  assumes step: "\<And>c p. at_char p \<Longrightarrow> at_char (snd (step c p))"
    and p: "chunk_ok p" "prev = utf8_state (dec p)"
  shows "chunk_ok (snd (decode_loop step prev xs p))"
  using p
proof (induction prev xs p rule: decode_loop_induct [of _ step])
  case (Nil prev p)
  then show ?case by simp
next
  case (Latin1 prev b xs p stop q)
  have "at_char p" using Latin1.prems Latin1.hyps(1) by (simp add: at_char_def chunk_ok_def)
  then have "at_char q" using step [of p "charset_latin1 ! unat b"] Latin1.hyps(2) by simp
  then have "chunk_ok q" "prev = utf8_state (dec q)"
    using Latin1.prems Latin1.hyps(1) by (auto simp: at_char_def chunk_ok_def)
  with Latin1 show ?case by (cases stop) (simp_all add: decode_loop_latin1)
next
  case (Accept prev b xs p cp stop q)
  have "at_char (set_utf8 0 cp p)" using Accept.prems by simp
  then have "at_char q" using step [of "set_utf8 0 cp p" cp] Accept.hyps(3) by simp
  then have "chunk_ok q" by (rule at_char_chunk_ok)
  with Accept show ?case by (cases stop) (simp_all add: decode_loop_accept)
next
  case (Again prev b xs p cp)
  have "chunk_ok (set_utf8 0 cp p)" using Again.prems by (simp add: at_char_chunk_ok)
  with Again show ?case by (simp add: decode_loop_again)
next
  case (Reject b xs p cp)
  have "chunk_ok (set_utf8 0 cp p)" using Reject.prems by (simp add: at_char_chunk_ok)
  with Reject show ?case by (simp add: decode_loop_reject)
next
  case (More prev b xs p st cp)
  have "chunk_ok (set_utf8 st cp p)" using More.prems More.hyps(1) by (simp add: chunk_ok_def frame_simps)
  with More show ?case by (simp add: decode_loop_more)
qed

lemma parse_bytes_chunk_ok: "chunk_ok p \<Longrightarrow> chunk_ok (parse_bytes exec bs p)"
  by (simp add: parse_bytes_def decode_loop_chunk_ok at_char_step)

lemma watching_chunk_ok: "chunk_ok p \<Longrightarrow> chunk_ok (snd (parse_bytes_watching_for_pending exec bs p))"
  by (simp add: parse_bytes_watching_for_pending_def decode_loop_chunk_ok at_char_step)

lemma run_reads_unwatched:
  assumes "chunk_ok p" "pending_buf p = []" "\<And>n. \<not> is_pending (parse_bytes exec (take n (concat (map snd reads))) p)"
  shows "run_reads exec reads p = Some (parse_bytes exec (concat (map snd reads)) p)"
  using assms
proof (induction reads arbitrary: p)
  case Nil
  then show ?case by (simp add: parse_bytes_def)
next
  case (Cons r reads)
  obtain now bs where r: "r = (now, bs)" by (cases r)
  let ?q = "parse_bytes exec bs p"
  have one: "do_parse_bytes exec now bs p = Some ?q"
  proof (rule do_parse_bytes_unwatched [OF _ Cons.prems(2)])
    show "\<not> is_pending (parse_bytes exec (take n bs) p)" for n
      using Cons.prems(3) [of "min n (length bs)"] by (simp add: r min_def split: if_splits)
  qed
  have "\<not> is_pending (parse_bytes exec (take n (concat (map snd reads))) ?q)" for n
    using Cons.prems(3) [of "length bs + n"] by (simp add: r parse_bytes_append [OF Cons.prems(1)])
  moreover have "chunk_ok ?q" using Cons.prems(1) by (rule parse_bytes_chunk_ok)
  moreover have "pending_buf ?q = []" using Cons.prems(2) by (simp add: parse_bytes_def pending_buf_loop)
  ultimately have "run_reads exec reads ?q = Some (parse_bytes exec (concat (map snd reads)) ?q)" by (intro Cons.IH)
  then show ?case by (simp add: r one parse_bytes_append [OF Cons.prems(1)])
qed

section \<open>What every read keeps\<close>

lemma at_char_pending_frame [simp]:
  "at_char (write_pending_char c p) = at_char p" "at_char (p\<lparr>pending_stop_type := t\<rparr>) = at_char p"
  "at_char (set_activated_at a p) = at_char p"
  by (simp_all add: at_char_def write_pending_char_def set_activated_at_def)

lemma at_char_write_chars [simp]: "at_char (write_pending_chars cs p) = at_char p"
  by (induction cs arbitrary: p) (simp_all add: write_pending_chars_def)

lemma at_char_pending_handlers [simp]:
  "at_char (pending_escape_code a b p) = at_char p" "at_char (pending_osc p) = at_char p"
  "at_char (pending_csi p) = at_char p" "at_char (pending_dcs p) = at_char p"
  "at_char (pending_normal_mode_char c p) = at_char p" "at_char (pending_esc_mode_char c p) = at_char p"
  by (simp_all add: pending_escape_code_def pending_osc_def pending_csi_def pending_dcs_def pending_normal_mode_char_def
      pending_esc_mode_char_def Let_def split: option.split)

lemma at_char_queue_osc:
  assumes p: "at_char p"
  shows "at_char (osc_char exec dispatch_to_pending c p)"
proof -
  obtain f e q where a: "accumulate_osc exec c p = (f, e, q)" by (cases "accumulate_osc exec c p")
  then have q: "at_char q" using at_char_accumulate_osc [OF p, of c] by simp
  obtain f' e' q' where a': "accumulate_osc exec c (pending_osc q) = (f', e', q')" by (cases "accumulate_osc exec c (pending_osc q)")
  then have "at_char q'" using at_char_accumulate_osc [of "pending_osc q" c] q by simp
  with q show ?thesis by (cases f; cases e; cases f') (simp_all add: osc_char_def a a' dispatch_to_pending_simps)
qed

lemma at_char_queue_step:
  assumes p: "at_char p"
  shows "at_char (snd (dispatch_unicode_char exec dispatch_to_pending watch c p))"
proof -
  obtain f1 q1 where a1: "accumulate_csi exec c p = (f1, q1)" by fastforce
  obtain f2 q2 where a2: "accumulate_oth exec c p = (f2, q2)" by fastforce
  obtain f3 q3 where a3: "accumulate_dcs exec c p = (f3, q3)" by fastforce
  have "at_char q1" "at_char q2" "at_char q3"
    using at_char_accumulate_csi [OF p, of c] at_char_accumulate_oth [OF p, of c] at_char_accumulate_dcs [OF p, of c]
    by (simp_all add: a1 a2 a3)
  with p at_char_queue_osc [OF p] show ?thesis
    unfolding dispatch_unicode_char_def a1 a2 a3
    by (cases f1; cases f2; cases f3) (simp_all add: Let_def dispatch_to_pending_simps)
qed

lemma queue_chunk_ok: "chunk_ok p \<Longrightarrow> chunk_ok (snd (queue_pending_bytes exec bs p))"
  by (simp add: queue_pending_bytes_def decode_loop_chunk_ok at_char_queue_step)

lemma chunk_ok_frame: "chunk_ok p \<Longrightarrow> scr q = scr p \<Longrightarrow>
   utf8_state (dec q) = utf8_state (dec p) \<Longrightarrow> use_latin1 (dec q) = use_latin1 (dec p) \<Longrightarrow> chunk_ok q"
  by (simp add: chunk_ok_def)

lemma chunk_ok_set_activated_at: "chunk_ok p \<Longrightarrow> chunk_ok (set_activated_at a p)"
  by (rule chunk_ok_frame [of p]) (simp_all add: set_activated_at_def)

lemma chunk_ok_dump: "chunk_ok p \<Longrightarrow> chunk_ok (dump_partial_escape_code_to_pending p)"
proof -
  have w: "dec (write_pending_char c q) = dec q" "scr (write_pending_char c q) = scr q" for c q
    by (simp_all add: write_pending_char_def)
  have ws: "dec (write_pending_chars cs q) = dec q \<and> scr (write_pending_chars cs q) = scr q" for cs q
    by (induction cs arbitrary: q) (simp_all add: write_pending_chars_def w)
  assume "chunk_ok p"
  then show ?thesis by (rule chunk_ok_frame) (simp_all add: dump_partial_escape_code_to_pending_def w ws)
qed

lemma chunk_ok_parse_pending_phase:
  assumes "chunk_ok p"
  shows "chunk_ok (parse_pending_phase exec s p)"
proof -
  have "chunk_ok (p\<lparr>parser_state := s\<rparr>)" using assms by (simp add: chunk_ok_def)
  then have "chunk_ok (parse_bytes exec (pending_buf p) (p\<lparr>parser_state := s\<rparr>))" by (rule parse_bytes_chunk_ok)
  then show ?thesis by (rule chunk_ok_frame) (simp_all add: parse_pending_phase_def Let_def set_activated_at_def)
qed

lemma chunk_ok_round:
  assumes p: "chunk_ok p" and r: "parse_round exec now (ph, s, bs, p) = (ph', s', bs', p')"
  shows "chunk_ok p'"
proof -
  define q where "q = p\<lparr>pending_stop_type := 0\<rparr>"
  have q: "chunk_ok q" using p by (simp add: q_def chunk_ok_def)
  have "chunk_ok (snd (parse_bytes_watching_for_pending exec bs (set_activated_at 0 p)))"
    "chunk_ok (snd (queue_pending_bytes exec bs q))"
    "chunk_ok (set_activated_at 0 (dump_partial_escape_code_to_pending q))"
    "chunk_ok (set_activated_at 0 (dump_partial_escape_code_to_pending p))"
    by (intro watching_chunk_ok queue_chunk_ok chunk_ok_set_activated_at chunk_ok_dump p q)+
  then show ?thesis using p r
    by (cases ph) (auto simp: parse_round_def start_phase_def read_phase_def queue_phase_def q_def [symmetric] Let_def
        chunk_ok_parse_pending_phase split: prod.splits if_splits)
qed

lemma chunk_ok_rounds:
  "parse_rounds exec now fuel r = Some p' \<Longrightarrow> chunk_ok (snd (snd (snd r))) \<Longrightarrow> chunk_ok p'"
proof (induction fuel arbitrary: r)
  case (Suc fuel)
  obtain ph s bs p where r: "r = (ph, s, bs, p)" by (cases r)
  obtain ph' s' bs' q where r': "parse_round exec now r = (ph', s', bs', q)" by (cases "parse_round exec now r")
  then have "chunk_ok q" using chunk_ok_round [of p now ph s bs] Suc.prems(2) by (simp add: r)
  then show ?case using Suc.IH [of "(ph', s', bs', q)"] Suc.prems(1) by (simp add: r' Let_def split: if_splits)
qed simp

lemma do_parse_bytes_chunk_ok: "do_parse_bytes exec now bs p = Some p' \<Longrightarrow> chunk_ok p \<Longrightarrow> chunk_ok p'"
  unfolding do_parse_bytes_def by (drule chunk_ok_rounds) simp_all

end

end
