(* ===== verification/Screen_Parsing.thy ===== *)
theory Screen_Parsing
  imports Screen_Session Parser_Reads
begin

text \<open>
  The parser of \<^verbatim>\<open>smelly/parser.c\<close> working on the screen of \<^verbatim>\<open>smelly/screen.c\<close>: the screen provides what
  the parser's locales ask for, so that what was proved for every screen holds for the real one.
\<close>

section \<open>The encoding\<close>

text \<open>The screen is in UTF-8 mode and so are the states it may restore.\<close>

definition saved_utf8 :: "screen \<Rightarrow> bool" where
  "saved_utf8 s =
     ((sp_is_valid (s_main_savepoint s) \<longrightarrow> \<not> sp_use_latin1 (s_main_savepoint s))
      \<and> (sp_is_valid (s_alt_savepoint s) \<longrightarrow> \<not> sp_use_latin1 (s_alt_savepoint s)))"

definition utf8_mode :: "screen \<Rightarrow> bool" where
  "utf8_mode s = (\<not> use_latin1 (s_dec s) \<and> saved_utf8 s)"

lemma utf8_mode_calm: "calm s t \<Longrightarrow> utf8_mode s \<Longrightarrow> utf8_mode t"
  by (simp add: calm_def utf8_mode_def saved_utf8_def)

lemma utf8_mode_save: "utf8_mode s \<Longrightarrow> utf8_mode (screen_save_cursor s)"
  by (simp add: utf8_mode_def saved_utf8_def screen_save_cursor_def upd_savepoint_def)

lemma utf8_mode_restore: "utf8_mode s \<Longrightarrow> utf8_mode (screen_restore_cursor s)"
proof (cases "sp_is_valid (s_savepoint s)")
  case True
  note r = restore_valid [OF True]
  assume "utf8_mode s"
  moreover from this True have "\<not> sp_use_latin1 (s_savepoint s)"
    by (auto simp: utf8_mode_def saved_utf8_def s_savepoint_def split: if_splits)
  ultimately show ?thesis using r by (simp add: utf8_mode_def saved_utf8_def restored_from_def)
next
  case False
  define u where "u = RESET_CHARSETS (set_basic_mode DECOM False (screen_cursor_position 1 1 s))"
  have "screen_restore_cursor s = set_basic_mode DECSCNM False u"
    using False by (simp add: screen_restore_cursor_def u_def)
  moreover assume "utf8_mode s"
  then have "utf8_mode u"
    by (simp add: u_def set_basic_mode_flags RESET_CHARSETS_def Let_def utf8_mode_def saved_utf8_def)
  ultimately show ?thesis by (simp add: set_basic_mode_flags utf8_mode_def saved_utf8_def)
qed

lemma utf8_mode_toggle:
  assumes "utf8_mode s"
  shows "utf8_mode (screen_toggle_screen_buffer save_cursor clear s)"
proof -
  define s1 where "s1 = s\<lparr>s_active_hyperlink_id := 0\<rparr>"
  define a1 where "a1 = (if clear then emit (Grman_clear False True) (s1\<lparr>s_alt_linebuf := linebuf_clear (s_alt_linebuf s1) BLANK_CHAR\<rparr>) else s1)"
  define a2 where "a2 = (if save_cursor then screen_save_cursor a1 else a1)"
  define a3 where "a3 = upd_cursor cursor_reset (screen_cursor_position 1 1 (a2\<lparr>s_on_main := False, s_tabs_main := False\<rparr>))"
  define m1 where "m1 = s1\<lparr>s_on_main := True, s_tabs_main := True\<rparr>"
  define m2 where "m2 = (if save_cursor then screen_restore_cursor m1 else m1)"
  define t where "t = (if s_on_main s then a3 else m2)"
  have k: "utf8_mode a1" "utf8_mode m1" using assms by (simp_all add: a1_def s1_def m1_def emit_def utf8_mode_def saved_utf8_def)
  have "utf8_mode m2" unfolding m2_def using k(2) by (simp add: utf8_mode_restore)
  moreover have "utf8_mode a2" unfolding a2_def using k(1) by (simp add: utf8_mode_save)
  then have "utf8_mode a3" by (simp add: a3_def utf8_mode_def saved_utf8_def)
  ultimately have "utf8_mode t" by (simp add: t_def)
  then have "utf8_mode (snd (screen_history_scroll SCROLL_FULL False t))" by (rule utf8_mode_calm [OF history_scroll_frame(1)])
  moreover have "screen_toggle_screen_buffer save_cursor clear s =
      (let u = snd (screen_history_scroll SCROLL_FULL False t) in u\<lparr>s_is_dirty := True, s_selections := clear_selection (s_selections u)\<rparr>)"
    by (simp add: screen_toggle_screen_buffer_def Let_def t_def a3_def a2_def a1_def m2_def m1_def s1_def)
  ultimately show ?thesis by (simp add: Let_def utf8_mode_def saved_utf8_def)
qed

lemma utf8_mode_set_mode:
  assumes "utf8_mode s"
  shows "utf8_mode (set_mode_from_const n v s)"
proof -
  consider "n = PENDING_UPDATE" | "n = SAVE_CURSOR" | "alt_screen_mode n" | "n \<noteq> PENDING_UPDATE" "n \<noteq> SAVE_CURSOR" "\<not> alt_screen_mode n"
    by blast
  then show ?thesis
  proof cases
    case 1
    then have "set_mode_from_const n v s = set_pending_mode v s" by (simp add: set_mode_from_const_def set_basic_mode_flags)
    with assms show ?thesis by (simp add: set_pending_mode_def emit_def utf8_mode_def saved_utf8_def)
  next
    case 2
    with assms show ?thesis by (simp add: set_mode_from_const_def utf8_mode_save)
  next
    case 3
    then have "set_mode_from_const n v s = s \<or> (\<exists>a b. set_mode_from_const n v s = screen_toggle_screen_buffer a b s)"
      unfolding alt_screen_mode_def set_mode_from_const_def by auto
    with assms show ?thesis by (auto simp: utf8_mode_toggle)
  next
    case 4
    then have "calm s (set_mode_from_const n v s)" by (intro calm_set_mode calm_refl)
    then show ?thesis using assms by (rule utf8_mode_calm)
  qed
qed

lemma utf8_mode_reset: "utf8_mode s \<Longrightarrow> utf8_mode (screen_reset s)"
proof -
  assume "utf8_mode s"
  define s1 where "s1 = (if \<not> s_on_main s then screen_toggle_screen_buffer True True s else s)"
  have "\<not> use_latin1 (s_dec (screen_reset s))" "\<not> sp_is_valid (s_main_savepoint (screen_reset s))"
    "\<not> sp_is_valid (s_alt_savepoint (screen_reset s))"
    unfolding screen_reset_def Let_def s1_def [symmetric]
    by (simp_all add: callback_def emit_def RESET_CHARSETS_def Let_def)
  then show ?thesis by (simp add: utf8_mode_def saved_utf8_def)
qed

lemma remap_hyperlink_ids_frame:
  "remap_hyperlink_ids s m = (m', t) \<Longrightarrow> \<exists>h a b. t = s\<lparr>s_historybuf := h, s_main_linebuf := a, s_alt_linebuf := b\<rparr>"
  by (auto simp: remap_hyperlink_ids_def Let_def split: prod.splits if_splits)

lemma gc_frame:
  "\<exists>h a b p. screen_garbage_collect_hyperlink_pool s = s\<lparr>s_historybuf := h, s_main_linebuf := a, s_alt_linebuf := b, s_pool := p\<rparr>"
proof (cases "hp_max_link_id (s_pool s) = 0")
  case True
  then have "screen_garbage_collect_hyperlink_pool s = s\<lparr>s_historybuf := s_historybuf s, s_main_linebuf := s_main_linebuf s,
      s_alt_linebuf := s_alt_linebuf s, s_pool := (s_pool s)\<lparr>hp_adds := 0\<rparr>\<rparr>"
    by (simp add: screen_garbage_collect_hyperlink_pool_def Let_def)
  then show ?thesis by blast
next
  case False
  obtain m' t where r: "remap_hyperlink_ids (s\<lparr>s_pool := (s_pool s)\<lparr>hp_adds := 0\<rparr>\<rparr>) empty_id_map = (m', t)" by fastforce
  from remap_hyperlink_ids_frame [OF this] obtain h a b
    where "t = s\<lparr>s_pool := (s_pool s)\<lparr>hp_adds := 0\<rparr>, s_historybuf := h, s_main_linebuf := a, s_alt_linebuf := b\<rparr>" by auto
  with False r have "screen_garbage_collect_hyperlink_pool s =
      s\<lparr>s_historybuf := h, s_main_linebuf := a, s_alt_linebuf := b, s_pool := renumber_pool m' ((s_pool s)\<lparr>hp_adds := 0\<rparr>)\<rparr>"
    by (simp add: screen_garbage_collect_hyperlink_pool_def Let_def)
  then show ?thesis by blast
qed

lemma utf8_mode_gc: "utf8_mode (screen_garbage_collect_hyperlink_pool s) = utf8_mode s"
proof -
  obtain h a b p where "screen_garbage_collect_hyperlink_pool s = s\<lparr>s_historybuf := h, s_main_linebuf := a, s_alt_linebuf := b, s_pool := p\<rparr>"
    using gc_frame by blast
  then show ?thesis by (simp add: utf8_mode_def saved_utf8_def)
qed

lemma utf8_mode_hyperlink: "utf8_mode s \<Longrightarrow> utf8_mode (set_active_hyperlink i u s)"
proof -
  assume s: "utf8_mode s"
  have up: "utf8_mode (t\<lparr>s_pool := p\<rparr>) = utf8_mode t" "utf8_mode (emit e t) = utf8_mode t" "utf8_mode (t\<lparr>s_active_hyperlink_id := j\<rparr>) = utf8_mode t"
    for t p e j by (simp_all add: emit_def utf8_mode_def saved_utf8_def)
  have "utf8_mode (snd (get_id_for_hyperlink i url s))" for url
    using s by (simp add: get_id_for_hyperlink_def Let_def up utf8_mode_gc split: option.split prod.split)
  with s show ?thesis by (simp add: set_active_hyperlink_def Let_def up split: option.split prod.split) (metis snd_conv)
qed

lemma run_call_utf8_mode:
  assumes "utf8_mode s" "c \<noteq> Screen_use_latin1 True"
  shows "utf8_mode (run_call c s)"
proof (cases "quiet c")
  case True
  then show ?thesis using assms(1) by (rule utf8_mode_calm [OF quiet_calm])
next
  case False
  show ?thesis
  proof (cases c)
    case (Call0 c0)
    with False assms show ?thesis by (cases c0) (simp_all add: utf8_mode_save utf8_mode_restore utf8_mode_reset)
  next
    case (Call_mode m n)
    with False have "m = Screen_set_mode \<or> m = Screen_reset_mode" by (cases m) simp_all
    with Call_mode assms(1) show ?thesis
      by (elim disjE) (simp_all only: run_call.simps run_mode.simps screen_set_mode_def screen_reset_mode_def utf8_mode_set_mode)
  next
    case (Call_osc c1)
    with False assms show ?thesis by (cases c1) (simp_all add: utf8_mode_hyperlink)
  next
    case (Screen_use_latin1 on)
    with assms show ?thesis
      by (simp add: screen_use_latin1_def callback_def emit_def utf8_mode_def saved_utf8_def)
  qed (use False in simp_all)
qed

section \<open>The screen as the parser's screen\<close>

interpretation smelly_screen: utf8_screen screen_exec screen_wf saved_utf8
proof unfold_locales
  fix s d c d' s'
  assume x: "screen_exec c (d, s) = (d', s')"
  define t where "t = run_call c (s\<lparr>s_dec := d\<rparr>)"
  have t: "d' = s_dec t" "s' = t\<lparr>s_dec := zero_decoder\<rparr>" using x by (simp_all add: screen_exec_def Let_def t_def)
  show "screen_wf s' \<and> utf8_state d' = 0" if "screen_wf s" "utf8_state d = 0"
  proof -
    have w: "screen_wf t" unfolding t_def by (intro run_call_wf dec_wf that)
    then have "screen_wf s'" unfolding t(2) by (rule dec_wf) (simp add: zero_decoder_def)
    with screen_wf_state [OF w] t(1) show ?thesis by simp
  qed
  show "saved_utf8 s' \<and> \<not> use_latin1 d'" if "saved_utf8 s" "\<not> use_latin1 d" "c \<noteq> Screen_use_latin1 True"
  proof -
    have "utf8_mode (s\<lparr>s_dec := d\<rparr>)" using that by (simp add: utf8_mode_def saved_utf8_def)
    then have "utf8_mode t" unfolding t_def using that(3) by (rule run_call_utf8_mode)
    then show ?thesis using t by (simp add: utf8_mode_def saved_utf8_def)
  qed
qed

text \<open>Errors and control characters do not touch pending mode.\<close>

lemma quiet_exec: "quiet c \<Longrightarrow> fst (screen_exec c x) = fst x"
  using quiet_calm [of c "(snd x)\<lparr>s_dec := fst x\<rparr>"] by (cases x) (simp add: screen_exec_def Let_def calm_def)

lemma control_quiet:
  assumes "csi_is_control c" "normal_mode_char c = Inr cs" "k \<in> set cs"
  shows "quiet k"
proof -
  have "c \<in> {BEL, BS, HT, LF, VT, FF, NEL, CR, SO, SI, IND, RI, HTS}" using assms(1) by (simp add: csi_is_control_def)
  then show ?thesis using assms(2,3) by (elim insertE emptyE) (auto simp: normal_mode_char_def screen_nel_def)
qed

interpretation smelly_pending: pending_screen screen_exec
  by unfold_locales (simp_all add: quiet_exec control_quiet)

section \<open>How the output is cut\<close>

lemma fresh_chunk_ok: "screen_wf s \<Longrightarrow> smelly_screen.chunk_ok (fresh_parser s)"
  by (simp add: smelly_screen.chunk_ok_def fresh_parser_def)


section \<open>Texts of complete codes\<close>

lemma fresh_at_token: "screen_wf s \<Longrightarrow> saved_utf8 s \<Longrightarrow> smelly_screen.at_token (fresh_parser s)"
  by (simp add: smelly_screen.at_token_def smelly_screen.ready_def fresh_parser_def)

text \<open>
  C24: On a new parser with a screen that has no saved state in Latin-1 mode, _parse_bytes of a
  text of printable and control characters, two character ESC codes and CSI codes has on the
  screen and the decoder the effect of the calls of these codes in order, and leaves the parser in
  its normal state, between two characters.
\<close>

theorem terminal_runs_codes:
  assumes "screen_wf s" "saved_utf8 s" "list_all token_ok ts"
    and "p = parse_bytes screen_exec (text_of ts) (fresh_parser s)"
  shows "parser_state p = 0 \<and> utf8_state (dec p) = 0 \<and> (dec p, scr p) = run_tokens screen_exec ts (dec (fresh_parser s), s)"
proof -
  have p: "smelly_screen.at_token p \<and> (dec p, scr p) = run_tokens screen_exec ts (dec (fresh_parser s), scr (fresh_parser s))"
    unfolding assms(4) using smelly_screen.parse_tokens [OF fresh_at_token [OF assms(1,2)] assms(3)] by simp
  then have "utf8_state (dec p) = 0" using smelly_screen.at_token_ready [of p] unfolding utf8_ready_def by blast
  moreover have "parser_state p = 0" using p by (simp add: smelly_screen.at_token_def)
  moreover have "scr (fresh_parser s) = s" by (simp add: fresh_parser_def)
  ultimately show ?thesis using p by metis
qed

text \<open>
  C15: A synchronized update is transparent: on a screen that has no saved state in Latin-1 mode,
  text made of characters, two character ESC codes and CSI codes that is queued in pending mode
  leaves the screen alone, and flushing the queue has the effect the text has without pending
  mode.
\<close>

theorem synchronized_update_transparent:
  assumes "screen_wf s" "saved_utf8 s" "now \<noteq> 0"
    and "list_all token_ok ts" "list_all (\<lambda>t. \<not> is_sync_code t) ts"
    and "p = (fresh_parser s)\<lparr>dec := (dec (fresh_parser s))\<lparr>pending_activated_at := now\<rparr>\<rparr>"
  shows "\<exists>q. queue_pending_bytes screen_exec (text_of ts) p = ([], q) \<and> scr q = s
     \<and> dec (parse_bytes screen_exec (pending_buf q) q) = dec (parse_bytes screen_exec (text_of ts) p)
     \<and> scr (parse_bytes screen_exec (pending_buf q) q) = scr (parse_bytes screen_exec (text_of ts) p)"
proof -
  have "smelly_screen.at_token p" using fresh_at_token [OF assms(1,2)]
    by (simp add: smelly_screen.at_token_def smelly_screen.ready_def assms(6))
  moreover have "is_pending p" "pending_buf p = []" "scr p = s" using assms(3) by (simp_all add: assms(6) is_pending_def fresh_parser_def)
  ultimately show ?thesis using smelly_screen.pending_transparent [OF _ _ _ assms(4,5)] by metis
qed

lemma example_screen_saved_utf8: "saved_utf8 example_screen"
  by (simp add: saved_utf8_def example_screen_def screen_new_def linebuf_new_def create_historybuf_def Let_def RESET_CHARSETS_def zero_savepoint_def)

lemma example_tokens_ok: "list_all token_ok [Text 0x41, Csi [0x32] 0x4a, Esc 0x44]"
  "list_all (\<lambda>t. \<not> is_sync_code t) [Text 0x41, Csi [0x32] 0x4a, Esc 0x44]"
  by (simp_all add: is_sync_code_def ch_def chars_def unicode_scalar_small esc_start_state_def esc_is_intermediate_def
      csi_body_def is_csi_param_def is_digit_def csi_is_final_def)

text \<open>The prefixes of \<^verbatim>\<open>ESC [ 3 m\<close> and a character of two bytes.\<close>

lemma quiet_tokens_pending:
  assumes "list_all token_ok ts" "list_all (\<lambda>t. list_all quiet (token_calls t)) ts"
  shows "\<not> is_pending (parse_bytes screen_exec (text_of ts) (fresh_parser example_screen))"
proof -
  have calls: "fst (fold screen_exec cs x) = fst x" if "list_all quiet cs" for cs x
    using that by (induction cs arbitrary: x) (simp_all add: quiet_exec)
  have run: "pending_activated_at (fst (run_tokens screen_exec ts x)) = pending_activated_at (fst x)" for x
    using assms(2) by (induction ts arbitrary: x) (simp_all add: run_tokens_def run_token_def calls)
  have "dec (parse_bytes screen_exec (text_of ts) (fresh_parser example_screen))
      = fst (run_tokens screen_exec ts (dec (fresh_parser example_screen), example_screen))"
    using smelly_screen.parse_tokens [OF fresh_at_token [OF example_screen_wf example_screen_saved_utf8] assms(1)]
    by (simp add: fresh_parser_def [of example_screen]) (metis fst_conv)
  then show ?thesis using run [of "(dec (fresh_parser example_screen), example_screen)"]
    by (simp add: is_pending_def) (simp add: fresh_parser_def)
qed

lemma example_cut_tokens:
  "list_all token_ok [Csi [0x33] 0x6d, Text 0xe4]" "list_all (\<lambda>t. list_all quiet (token_calls t)) [Csi [0x33] 0x6d, Text 0xe4]"
  "text_of [Csi [0x33] 0x6d] = [0x1b, 0x5b, 0x33, 0x6d]" "text_of [Csi [0x33] 0x6d, Text 0xe4] = [0x1b, 0x5b, 0x33, 0x6d, 0xc3, 0xa4]"
proof -
  show "list_all token_ok [Csi [0x33] 0x6d, Text 0xe4]"
    by (simp add: ch_def chars_def unicode_scalar_def csi_body_def is_csi_param_def is_digit_def csi_is_final_def)
  have "token_calls (Csi [0x33] 0x6d) = [Select_graphic_rendition [3] None]" by code_simp
  moreover have "token_calls (Text 0xe4) = [Screen_draw 0xe4]" by code_simp
  ultimately show "list_all (\<lambda>t. list_all quiet (token_calls t)) [Csi [0x33] 0x6d, Text 0xe4]" by simp
  show "text_of [Csi [0x33] 0x6d] = [0x1b, 0x5b, 0x33, 0x6d]" by code_simp
  show "text_of [Csi [0x33] 0x6d, Text 0xe4] = [0x1b, 0x5b, 0x33, 0x6d, 0xc3, 0xa4]" by code_simp
qed

lemma example_cut_open:
  "\<not> is_pending (parse_bytes screen_exec [] (fresh_parser example_screen))"
  "\<not> is_pending (parse_bytes screen_exec [0x1b] (fresh_parser example_screen))"
  "\<not> is_pending (parse_bytes screen_exec [0x1b, 0x5b] (fresh_parser example_screen))"
  "\<not> is_pending (parse_bytes screen_exec [0x1b, 0x5b, 0x33] (fresh_parser example_screen))"
proof -
  define p where "p = fresh_parser example_screen"
  have p: "parser_state p = 0" "utf8_state (dec p) = 0" "\<not> use_latin1 (dec p)" "utf8_codepoint (dec p) = 0" "pending_activated_at (dec p) = 0"
    by (simp_all add: p_def fresh_parser_def)
  have d: "decode_utf8 0 0 0x1b = (0, 0x1b)" "decode_utf8 0 0x1b 0x5b = (0, 0x5b)" "decode_utf8 0 0x5b 0x33 = (0, 0x33)" by code_simp+
  have esc: "normal_mode_char 0x1b = Inl ESC" "esc_start_state 0x5b = Some CSI" by code_simp+
  define q1 where "q1 = set_state ESC (set_utf8 0 0x1b p)"
  define q2 where "q2 = set_state CSI (set_utf8 0 0x5b q1)"
  define q3 where "q3 = push_char 0x33 (set_utf8 0 0x33 q2)"
  have s1: "screen_step screen_exec (\<lambda>p. False) 0x1b (set_utf8 0 0x1b p) = (False, q1)"
    using p by (simp add: screen_step_def dispatch_unicode_char_def frame_simps dispatch_to_screen_simps dispatch_normal_mode_char_def esc q1_def)
  have s2: "screen_step screen_exec (\<lambda>p. False) 0x5b (set_utf8 0 0x5b q1) = (False, q2)"
    by (simp add: screen_step_def dispatch_unicode_char_def frame_simps dispatch_to_screen_simps dispatch_esc_mode_char_def esc q1_def q2_def)
  have s3: "screen_step screen_exec (\<lambda>p. False) 0x33 (set_utf8 0 0x33 q2) = (False, q3)"
    by (simp add: screen_step_def dispatch_unicode_char_def frame_simps accumulate_csi_def is_digit_def ch_def csi_push_def q2_def q3_def)
  have f: "utf8_state (dec q1) = 0" "utf8_codepoint (dec q1) = 0x1b" "\<not> use_latin1 (dec q1)" "utf8_state (dec q2) = 0"
    "utf8_codepoint (dec q2) = 0x5b" "\<not> use_latin1 (dec q2)"
    using p by (simp_all add: q1_def q2_def set_utf8_def set_state_def)
  have e: "parse_bytes screen_exec [] p = p" "parse_bytes screen_exec [0x1b] p = q1" "parse_bytes screen_exec [0x1b, 0x5b] p = q2"
    "parse_bytes screen_exec [0x1b, 0x5b, 0x33] p = q3"
    using p f by (simp_all add: parse_bytes_def decode_loop_accept [where step = "screen_step screen_exec (\<lambda>p. False)", OF _ _ s1] decode_loop_accept [where step = "screen_step screen_exec (\<lambda>p. False)", OF _ _ s2] decode_loop_accept [where step = "screen_step screen_exec (\<lambda>p. False)", OF _ _ s3] d)
  have "\<not> is_pending p" using p by (simp add: is_pending_def)
  then have "\<not> is_pending q1" "\<not> is_pending q2" "\<not> is_pending q3" by (simp_all add: q1_def q2_def q3_def)
  with \<open>\<not> is_pending p\<close> show
    "\<not> is_pending (parse_bytes screen_exec [] (fresh_parser example_screen))"
    "\<not> is_pending (parse_bytes screen_exec [0x1b] (fresh_parser example_screen))"
    "\<not> is_pending (parse_bytes screen_exec [0x1b, 0x5b] (fresh_parser example_screen))"
    "\<not> is_pending (parse_bytes screen_exec [0x1b, 0x5b, 0x33] (fresh_parser example_screen))"
    unfolding p_def [symmetric] e by simp_all
qed

lemma example_cut_off:
  "\<not> is_pending (parse_bytes screen_exec (take n [0x1b, 0x5b, 0x33, 0x6d, 0xc3, 0xa4]) (fresh_parser example_screen))"
proof -
  let ?p = "fresh_parser example_screen" let ?code = "[0x1b, 0x5b, 0x33, 0x6d] :: u8 list"
  have t: "\<not> is_pending (parse_bytes screen_exec ?code ?p)"
    "\<not> is_pending (parse_bytes screen_exec [0x1b, 0x5b, 0x33, 0x6d, 0xc3, 0xa4] ?p)"
    using quiet_tokens_pending [of "[Csi [0x33] 0x6d]"] quiet_tokens_pending [of "[Csi [0x33] 0x6d, Text 0xe4]"] example_cut_tokens
    by simp_all
  define q where "q = parse_bytes screen_exec ?code ?p"
  have "smelly_screen.at_token q"
    unfolding q_def using smelly_screen.parse_tokens [OF fresh_at_token [OF example_screen_wf example_screen_saved_utf8], of "[Csi [0x33] 0x6d]"]
      example_cut_tokens by simp
  then have "utf8_ready q" by (rule smelly_screen.at_token_ready)
  then have r: "utf8_state (dec q) = 0" "\<not> use_latin1 (dec q)" by (simp_all add: utf8_ready_def)
  have "decode_utf8 0 (utf8_codepoint (dec q)) 0xc3 = decode_utf8 0 0 0xc3" by (simp add: decode_utf8_def)
  moreover obtain st cp where "decode_utf8 0 0 0xc3 = (st, cp)" by fastforce
  moreover have "fst (decode_utf8 0 0 0xc3) \<noteq> 0 \<and> fst (decode_utf8 0 0 0xc3) \<noteq> 1" by code_simp
  ultimately have d: "decode_utf8 (utf8_state (dec q)) (utf8_codepoint (dec q)) 0xc3 = (st, cp)" "st \<noteq> 0" "st \<noteq> 1" using r by simp_all
  have "parse_bytes screen_exec (?code @ [0xc3]) ?p = parse_bytes screen_exec [0xc3] q"
    unfolding q_def by (rule smelly_screen.parse_bytes_append [OF fresh_chunk_ok [OF example_screen_wf]])
  moreover have "\<not> is_pending (parse_bytes screen_exec [0xc3] q)"
    using t(1) unfolding q_def [symmetric] by (simp add: parse_bytes_def [of _ "[0xc3]"] decode_loop_more [OF r(2) d])
  ultimately have five: "\<not> is_pending (parse_bytes screen_exec [0x1b, 0x5b, 0x33, 0x6d, 0xc3] ?p)" by simp
  consider "n = 0" | "n = 1" | "n = 2" | "n = 3" | "n = 4" | "n = 5" | "6 \<le> n" by linarith
  then show ?thesis by cases (use example_cut_open t five in \<open>simp_all add: numeral_2_eq_2 [symmetric]\<close>)
qed


lemma terminal_runs_codes_witness:
  "(dec (parse_bytes screen_exec (text_of [Text 0x41, Csi [0x32] 0x4a, Esc 0x44]) (fresh_parser example_screen)),
    scr (parse_bytes screen_exec (text_of [Text 0x41, Csi [0x32] 0x4a, Esc 0x44]) (fresh_parser example_screen)))
    = run_tokens screen_exec [Text 0x41, Csi [0x32] 0x4a, Esc 0x44] (dec (fresh_parser example_screen), example_screen)"
  using terminal_runs_codes [OF example_screen_wf example_screen_saved_utf8 example_tokens_ok(1) refl] by blast

lemma synchronized_update_transparent_witness:
  "\<exists>p q. queue_pending_bytes screen_exec (text_of [Text 0x41, Csi [0x32] 0x4a, Esc 0x44]) p = ([], q)
     \<and> scr (parse_bytes screen_exec (pending_buf q) q) = scr (parse_bytes screen_exec (text_of [Text 0x41, Csi [0x32] 0x4a, Esc 0x44]) p)"
  using synchronized_update_transparent [OF example_screen_wf example_screen_saved_utf8, of 7, OF _ example_tokens_ok refl] by auto

end
