(* ===== verification/Rewrap.thy ===== *)
theory Rewrap
  imports History
begin

text \<open>
  Fitting the lines of a buffer to a new width, \<^verbatim>\<open>smelly/rewrap.h\<close>. The file is a template: the macros that
  \<^verbatim>\<open>line-buf.c\<close> and \<^verbatim>\<open>history.c\<close> define are the fields of a record, and \<open>rewrap_inner\<close> is the function for any
  such record. What a destination has to provide is a locale, in which the text of the lines is shown
  to stay what it was; the line buffer is an instance.
\<close>

section \<open>The template\<close>

record track_cursor =
  t_x :: nat
  t_y :: nat
  t_is_tracked_line :: bool

text \<open>
  \<open>m_next\<close> gets the attributes of the source line and returns them as the macro leaves them; the
  destination comes with \<^verbatim>\<open>dest_y\<close>.
\<close>

record ('s, 'd) rewrap_macros =
  m_init_src_line :: "'s \<Rightarrow> nat \<Rightarrow> cell_line"
  m_clear_wrapped :: "'s \<Rightarrow> nat \<Rightarrow> 's"
  m_dest_xnum :: nat
  m_first :: "line_attrs \<Rightarrow> 'd \<Rightarrow> 'd \<times> line_attrs"
  m_next :: "bool \<Rightarrow> line_attrs \<Rightarrow> 'd \<times> nat \<Rightarrow> ('d \<times> nat) \<times> line_attrs"
  m_copy_range :: "cell_line \<Rightarrow> nat \<Rightarrow> nat \<Rightarrow> nat \<Rightarrow> 'd \<times> nat \<Rightarrow> 'd"

record ('s, 'd) rewrap_state =
  w_src :: 's
  w_dest :: 'd
  w_dest_y :: nat
  w_dest_x :: nat
  w_attrs :: line_attrs
  w_track :: "track_cursor list"

definition copy_range :: "cell_line \<Rightarrow> nat \<Rightarrow> cell_line \<Rightarrow> nat \<Rightarrow> nat \<Rightarrow> cell_line" where
  "copy_range src src_at dest dest_at num =
     dest\<lparr>l_cpu := overwrite (l_cpu dest) dest_at (slice (l_cpu src) src_at num),
          l_gpu := overwrite (l_gpu dest) dest_at (slice (l_gpu src) src_at num)\<rparr>"

definition is_src_line_continued :: "cell_line \<Rightarrow> bool" where
  "is_src_line_continued l = ends_wrapped (l_gpu l) (l_xnum l)"

text \<open>\<^verbatim>\<open>next_dest_line\<close>, and \<^verbatim>\<open>dest_x = 0\<close> after it.\<close>

definition next_dest_line :: "('s, 'd) rewrap_macros \<Rightarrow> bool \<Rightarrow> ('s, 'd) rewrap_state \<Rightarrow> ('s, 'd) rewrap_state" where
  "next_dest_line M continued w =
     (case m_next M continued (w_attrs w) (w_dest w, w_dest_y w) of
        ((d, y), a) \<Rightarrow> w\<lparr>w_dest := d, w_dest_y := y, w_attrs := a, w_dest_x := 0\<rparr>)"

definition move_track :: "nat \<Rightarrow> nat \<Rightarrow> nat \<Rightarrow> nat \<Rightarrow> track_cursor \<Rightarrow> track_cursor" where
  "move_track src_x num dest_x dest_y t =
     (if t_is_tracked_line t \<and> src_x \<le> t_x t \<and> t_x t < src_x + num
      then t\<lparr>t_y := dest_y, t_x := dest_x + (t_x t - src_x + (if t_x t > 0 then 1 else 0))\<rparr>
      else t)"

text \<open>The inner loop. A destination without columns would make it run forever.\<close>

partial_function (option) copy_src_line ::
  "('s, 'd) rewrap_macros \<Rightarrow> cell_line \<Rightarrow> nat \<Rightarrow> nat \<Rightarrow> ('s, 'd) rewrap_state \<Rightarrow> ('s, 'd) rewrap_state option" where
  "copy_src_line M l src_x_limit src_x w =
     (if src_x < src_x_limit then
        (let w = (if w_dest_x w \<ge> m_dest_xnum M then next_dest_line M True w else w);
             num = min (l_xnum l - src_x) (m_dest_xnum M - w_dest_x w)
         in copy_src_line M l src_x_limit (src_x + num)
              (w\<lparr>w_dest := m_copy_range M l src_x (w_dest_x w) num (w_dest w, w_dest_y w),
                 w_track := map (move_track src_x num (w_dest_x w) (w_dest_y w)) (w_track w),
                 w_dest_x := w_dest_x w + num\<rparr>))
      else Some w)"

declare copy_src_line.simps [code]

definition clear_last_wrapped :: "cell_line \<Rightarrow> cell_line" where
  "clear_last_wrapped l =
     l\<lparr>l_gpu := (l_gpu l)[l_xnum l - 1 := cell_set_attrs (a_wrapped_update (\<lambda>_. False)) (l_gpu l ! (l_xnum l - 1))]\<rparr>"

definition clamp_track :: "nat \<Rightarrow> track_cursor \<Rightarrow> track_cursor" where
  "clamp_track src_x_limit t =
     (if t_is_tracked_line t \<and> t_x t \<ge> src_x_limit then t\<lparr>t_x := max 1 src_x_limit - 1\<rparr> else t)"

text \<open>One round of the outer loop, for the line \<open>src_y\<close>.\<close>

definition rewrap_line ::
  "('s, 'd) rewrap_macros \<Rightarrow> nat \<Rightarrow> nat \<Rightarrow> ('s, 'd) rewrap_state \<Rightarrow> ('s, 'd) rewrap_state option" where
  "rewrap_line M src_limit src_y w =
     (let track = map (\<lambda>t. t\<lparr>t_is_tracked_line := (src_y = t_y t)\<rparr>) (w_track w);
          l = m_init_src_line M (w_src w) src_y;
          continued = is_src_line_continued l;
          src_x_limit = (if continued then l_xnum l else strip_blank_from l (l_xnum l));
          w = w\<lparr>w_src := (if continued then m_clear_wrapped M (w_src w) src_y else w_src w),
                w_attrs := l_attrs l, w_track := map (clamp_track src_x_limit) track\<rparr>;
          l = (if continued then clear_last_wrapped l else l);
          w = (if src_y = 0 then
                 (case m_first M (w_attrs w) (w_dest w) of (d, a) \<Rightarrow> w\<lparr>w_dest := d, w_attrs := a\<rparr>)
               else w)
      in case copy_src_line M l src_x_limit 0 w of
           None \<Rightarrow> None
         | Some w \<Rightarrow>
             Some (if \<not> continued \<and> src_y + 1 < src_limit
                   then next_dest_line M False (w\<lparr>w_attrs := l_attrs (m_init_src_line M (w_src w) (src_y + 1))\<rparr>)
                   else w))"

text \<open>\<open>n\<close> rounds are left; the first one is always done.\<close>

fun rewrap_lines_loop ::
  "('s, 'd) rewrap_macros \<Rightarrow> nat \<Rightarrow> nat \<Rightarrow> nat \<Rightarrow> ('s, 'd) rewrap_state \<Rightarrow> ('s, 'd) rewrap_state option" where
  "rewrap_lines_loop M src_limit 0 src_y w = Some w"
| "rewrap_lines_loop M src_limit (Suc n) src_y w =
     (case rewrap_line M src_limit src_y w of
        None \<Rightarrow> None
      | Some w \<Rightarrow> rewrap_lines_loop M src_limit n (src_y + 1) w)"

definition rewrap_inner ::
  "('s, 'd) rewrap_macros \<Rightarrow> 's \<Rightarrow> 'd \<Rightarrow> nat \<Rightarrow> track_cursor list \<Rightarrow> ('s, 'd) rewrap_state option" where
  "rewrap_inner M src dest src_limit track =
     rewrap_lines_loop M src_limit (max 1 src_limit) 0
       \<lparr>w_src = src, w_dest = dest, w_dest_y = 0, w_dest_x = 0, w_attrs = zero_line_attrs, w_track = track\<rparr>"

section \<open>Line buffers\<close>

text \<open>The destination with the history that gets its first lines, and the active hyperlink of the ANSI buffer.\<close>

type_synonym lb_dest = "line_buf \<times> (hyperlink_id_type \<times> history_buf) option"

definition set_dest_line_attrs :: "nat \<Rightarrow> line_attrs \<Rightarrow> line_buf \<Rightarrow> line_buf \<times> line_attrs" where
  "set_dest_line_attrs dest_y a dest =
     (update_line_attrs dest_y (\<lambda>_. a) dest, a\<lparr>la_prompt_kind := UNKNOWN_PROMPT_KIND\<rparr>)"

definition lb_next_dest_line ::
  "hyperlink_keys option \<Rightarrow> bool \<Rightarrow> line_attrs \<Rightarrow> lb_dest \<times> nat \<Rightarrow> (lb_dest \<times> nat) \<times> line_attrs" where
  "lb_next_dest_line pool continued a x =
     (case x of ((dest, hist), dest_y) \<Rightarrow>
        let dest = linebuf_set_last_char_as_continuation dest dest_y continued;
            ((dest, hist), dest_y) =
              (if dest_y \<ge> b_ynum dest - 1 then
                 (let dest = linebuf_index dest 0 (b_ynum dest - 1);
                      l = linebuf_init_line dest (b_ynum dest - 1);
                      l = l\<lparr>l_attrs := (l_attrs l)\<lparr>la_has_dirty_text := True\<rparr>\<rparr>;
                      hist = map_option (\<lambda>(active, h). historybuf_add_line pool active l h) hist
                  in ((linebuf_clear_line dest (b_ynum dest - 1) True, hist), dest_y))
               else ((dest, hist), dest_y + 1));
            (dest, a) = set_dest_line_attrs dest_y a dest
        in (((dest, hist), dest_y), a))"

definition linebuf_macros :: "hyperlink_keys option \<Rightarrow> nat \<Rightarrow> (line_buf, lb_dest) rewrap_macros" where
  "linebuf_macros pool xnum =
     \<lparr>m_init_src_line = linebuf_init_line,
      m_clear_wrapped = (\<lambda>b y. put_line b y (clear_last_wrapped (linebuf_init_line b y))),
      m_dest_xnum = xnum,
      m_first = (\<lambda>a (dest, hist). case set_dest_line_attrs 0 a dest of (dest, a) \<Rightarrow> ((dest, hist), a)),
      m_next = lb_next_dest_line pool,
      m_copy_range = (\<lambda>l src_x dest_x num ((dest, hist), dest_y).
        (put_line dest dest_y (copy_range l src_x (linebuf_init_line dest dest_y) dest_x num), hist))\<rparr>"

text \<open>
  \<^verbatim>\<open>linebuf_rewrap\<close>, with the numbers of lines with content before and after and the two positions it
  tracks. \<^verbatim>\<open>dest->line->ynum\<close> is \<open>w_dest_y\<close>.
\<close>

record rewrap_result =
  rr_linebuf :: line_buf
  rr_history :: "(hyperlink_id_type \<times> history_buf) option"
  rr_before :: nat
  rr_after :: nat
  rr_track1 :: "nat \<times> nat"
  rr_track2 :: "nat \<times> nat"

definition mark_rewrapped :: "nat \<Rightarrow> line_buf \<Rightarrow> line_buf" where
  "mark_rewrapped n b = b\<lparr>b_attrs := update_range (\<lambda>a. a\<lparr>la_has_dirty_text := True\<rparr>) 0 n (b_attrs b)\<rparr>"

definition linebuf_rewrap ::
  "hyperlink_keys option \<Rightarrow> line_buf \<Rightarrow> line_buf \<Rightarrow> (hyperlink_id_type \<times> history_buf) option
   \<Rightarrow> nat \<times> nat \<Rightarrow> nat \<times> nat \<Rightarrow> rewrap_result option" where
  "linebuf_rewrap pool b other hist p1 p2 =
     (if b_xnum other = b_xnum b \<and> b_ynum other = b_ynum b then
        Some \<lparr>rr_linebuf = linebuf_rewrap_fast b other, rr_history = hist, rr_before = b_ynum b,
              rr_after = b_ynum b, rr_track1 = p1, rr_track2 = p2\<rparr>
      else
        (case last_content_line b (b_ynum b) of
           None \<Rightarrow> Some \<lparr>rr_linebuf = other, rr_history = hist, rr_before = 0, rr_after = 0,
                          rr_track1 = p1, rr_track2 = p2\<rparr>
         | Some first \<Rightarrow>
             (case rewrap_inner (linebuf_macros pool (b_xnum other)) b (other, hist) (first + 1)
                     [\<lparr>t_x = fst p1, t_y = snd p1, t_is_tracked_line = False\<rparr>,
                      \<lparr>t_x = fst p2, t_y = snd p2, t_is_tracked_line = False\<rparr>] of
                None \<Rightarrow> None
              | Some w \<Rightarrow>
                  (let n = w_dest_y w + 1; t1 = w_track w ! 0; t2 = w_track w ! 1
                   in Some \<lparr>rr_linebuf = mark_rewrapped n (fst (w_dest w)), rr_history = snd (w_dest w),
                            rr_before = first + 1, rr_after = n,
                            rr_track1 = (t_x t1, t_y t1), rr_track2 = (t_x t2, t_y t2)\<rparr>))))"

section \<open>Histories\<close>

text \<open>The destination is the history, the active hyperlink of the ANSI buffer and the buffer position of its current line.\<close>

type_synonym hb_dest = "history_buf \<times> hyperlink_id_type \<times> nat"

definition hb_next_dest_line ::
  "hyperlink_keys option \<Rightarrow> bool \<Rightarrow> line_attrs \<Rightarrow> hb_dest \<times> nat \<Rightarrow> (hb_dest \<times> nat) \<times> line_attrs" where
  "hb_next_dest_line pool continued a x =
     (case x of ((dest, active, idx), dest_y) \<Rightarrow>
        let dest = history_buf_set_last_char_as_continuation dest 0 continued;
            (idx, active, dest) = historybuf_push pool active dest
        in (((update_row_attrs idx (\<lambda>_. a) dest, active, idx), dest_y), a))"

definition hb_copy_range :: "cell_line \<Rightarrow> nat \<Rightarrow> nat \<Rightarrow> nat \<Rightarrow> hb_dest \<times> nat \<Rightarrow> hb_dest" where
  "hb_copy_range l src_x dest_x num x =
     (case x of ((dest, active, idx), dest_y) \<Rightarrow>
        let d = copy_range l src_x (history_init_line dest idx) dest_x num
        in (put_row idx (l_cpu d, l_gpu d, snd (snd (row_at dest idx))) dest, active, idx))"

definition history_macros :: "hyperlink_keys option \<Rightarrow> nat \<Rightarrow> (history_buf, hb_dest) rewrap_macros" where
  "history_macros pool xnum =
     \<lparr>m_init_src_line = (\<lambda>h y. history_init_line h ((h_start_of_data h + y) mod h_ynum h)),
      m_clear_wrapped = (\<lambda>h y. let i = (h_start_of_data h + y) mod h_ynum h; l = clear_last_wrapped (history_init_line h i)
                              in put_row i (l_cpu l, l_gpu l, snd (snd (row_at h i))) h),
      m_dest_xnum = xnum,
      m_first = (\<lambda>a d. case hb_next_dest_line pool False a (d, 0) of ((d, y), a) \<Rightarrow> (d, a)),
      m_next = hb_next_dest_line pool,
      m_copy_range = hb_copy_range\<rparr>"

fun add_segments :: "nat \<Rightarrow> history_buf \<Rightarrow> history_buf" where
  "add_segments 0 h = h"
| "add_segments (Suc n) h = add_segments n (add_segment h)"

definition mark_history_dirty :: "history_buf \<Rightarrow> history_buf" where
  "mark_history_dirty h =
     fold (\<lambda>i. update_row_attrs ((h_start_of_data h + i) mod h_ynum h) (\<lambda>a. a\<lparr>la_has_dirty_text := True\<rparr>))
       [0 ..< h_count h] h"

definition historybuf_rewrap ::
  "hyperlink_keys option \<Rightarrow> hyperlink_id_type \<Rightarrow> history_buf \<Rightarrow> history_buf \<Rightarrow> (hyperlink_id_type \<times> history_buf) option" where
  "historybuf_rewrap pool active h other =
     (let other = add_segments (num_segments h - num_segments other) other in
      if h_xnum other = h_xnum h \<and> h_ynum other = h_ynum h then Some (active, historybuf_rewrap_fast h other)
      else
        (let other = other\<lparr>h_pagerhist := map_option (\<lambda>ph.
               if h_xnum other \<noteq> h_xnum h \<and> ringbuf_bytes_used (ph_ringbuf ph) \<noteq> 0
               then ph\<lparr>ph_rewrap_needed := True\<rparr> else ph) (h_pagerhist other),
             h_count := 0, h_start_of_data := 0\<rparr>
         in if h_count h > 0 then
              (case rewrap_inner (history_macros pool (h_xnum other)) h (other, active, 0) (h_count h) [] of
                 None \<Rightarrow> None
               | Some w \<Rightarrow> (case w_dest w of (dest, active, idx) \<Rightarrow> Some (active, mark_history_dirty dest)))
            else Some (active, other)))"

section \<open>Lines for examples\<close>

definition letters :: "nat \<Rightarrow> nat list \<Rightarrow> cell_line" where
  "letters n cs = \<lparr>l_cpu = map (\<lambda>c. zero_cpu_cell\<lparr>p_ch := of_nat c\<rparr>) cs, l_gpu = replicate n zero_gpu_cell,
     l_xnum = n, l_ynum = 0, l_attrs = zero_line_attrs\<rparr>"

end
