(* ===== verification/Rewrap_Text.thy ===== *)
theory Rewrap_Text
  imports Rewrap
begin

text \<open>
  Rewrapping keeps the text. The text of a list of lines is its paragraphs: lines whose last cell is
  marked as wrapped are joined with the next one, blanks at the end of a paragraph do not count. The
  proof is done once, for every source and destination that follow the laws of the locale
  \<open>rewrap_buffers\<close>.
\<close>

section \<open>Paragraphs\<close>

type_synonym cell_row = "cpu_cell list \<times> gpu_cell list"

type_synonym text_cell = "cpu_cell \<times> gpu_cell"

abbreviation unwrapped :: "gpu_cell \<Rightarrow> gpu_cell" where
  "unwrapped g \<equiv> cell_set_attrs (a_wrapped_update (\<lambda>_. False)) g"

definition row_cells :: "cell_row \<Rightarrow> text_cell list" where
  "row_cells r = zip (fst r) (map unwrapped (snd r))"

definition row_wraps :: "cell_row \<Rightarrow> bool" where
  "row_wraps r = ends_wrapped (snd r) (length (snd r))"

definition is_blank :: "text_cell \<Rightarrow> bool" where
  "is_blank c = (p_ch (fst c) = BLANK_CHAR)"

definition strip_blanks :: "text_cell list \<Rightarrow> text_cell list" where
  "strip_blanks cs = rev (dropWhile is_blank (rev cs))"

text \<open>The paragraphs so far, and whether the last one goes on.\<close>

definition add_row :: "text_cell list list \<times> bool \<Rightarrow> text_cell list \<times> bool \<Rightarrow> text_cell list list \<times> bool" where
  "add_row s r = ((if snd s then butlast (fst s) @ [last (fst s) @ fst r] else fst s @ [fst r]), snd r)"

definition joined :: "cell_row list \<Rightarrow> text_cell list list \<times> bool" where
  "joined rs = fold (\<lambda>r s. add_row s (row_cells r, row_wraps r)) rs ([], False)"

definition text_of_rows :: "cell_row list \<Rightarrow> text_cell list list" where
  "text_of_rows rs = map strip_blanks (fst (joined rs))"

lemma joined_snoc: "joined (rs @ [r]) = add_row (joined rs) (row_cells r, row_wraps r)"
  by (simp add: joined_def)

lemma joined_nonempty: "snd (joined rs) \<Longrightarrow> fst (joined rs) \<noteq> []"
  by (cases rs rule: rev_cases) (simp_all add: joined_snoc add_row_def, simp add: joined_def)

lemma strip_append_blanks: "list_all is_blank ys \<Longrightarrow> strip_blanks (xs @ ys) = strip_blanks xs"
proof -
  assume "list_all is_blank ys"
  then have "\<forall>y \<in> set (rev ys). is_blank y" by (simp add: list_all_iff)
  then have "dropWhile is_blank (rev ys @ rev xs) = dropWhile is_blank (rev xs)" by (intro dropWhile_append2) blast
  then show ?thesis by (simp add: strip_blanks_def)
qed

lemma slice_append: "slice xs i m @ slice xs (i + m) n = slice xs i (m + n)"
  by (simp add: slice_def take_add add.commute)

text \<open>Putting \<open>cs\<close> at the end of the text as the beginning of a line.\<close>

definition with_line :: "text_cell list list \<times> bool \<Rightarrow> text_cell list \<Rightarrow> text_cell list list" where
  "with_line s cs = fst (add_row s (cs, False))"

lemma with_line_simps:
  "with_line s cs \<noteq> []" "last (with_line s (xs @ ys)) = last (with_line s xs) @ ys"
  "butlast (with_line s xs) = butlast (with_line s ys)"
  by (simp_all add: with_line_def add_row_def butlast_append)

lemma with_line_add: "fst (add_row s (cs, w)) = with_line s cs"
  by (simp add: with_line_def add_row_def)

text \<open>Two texts of which the last paragraph is not finished.\<close>

definition same_text :: "text_cell list list \<Rightarrow> text_cell list list \<Rightarrow> bool" where
  "same_text ds cs = (ds \<noteq> [] \<and> cs \<noteq> [] \<and> map strip_blanks (butlast ds) = map strip_blanks (butlast cs) \<and> last ds = last cs)"

lemma map_butlast_last: "xs \<noteq> [] \<Longrightarrow> map f xs = map f (butlast xs) @ [f (last xs)]"
  by (cases xs rule: rev_cases) simp_all

lemma same_text_strip: "same_text ds cs \<Longrightarrow> map strip_blanks ds = map strip_blanks cs"
  by (simp add: same_text_def map_butlast_last)

lemma same_text_new:
  assumes "same_text ds cs" "butlast ds' = butlast ds" "ds' \<noteq> []" "strip_blanks (last ds') = strip_blanks (last ds)"
  shows "same_text (ds' @ [[]]) (cs @ [[]])"
  using assms by (simp add: same_text_def map_butlast_last)

section \<open>The laws of sources and destinations\<close>

definition empty_cells :: "nat \<Rightarrow> cell_row" where
  "empty_cells n = (replicate n zero_cpu_cell, replicate n zero_gpu_cell)"

definition set_row_wrapped :: "bool \<Rightarrow> cell_row \<Rightarrow> cell_row" where
  "set_row_wrapped c r =
     (fst r, (snd r)[length (snd r) - 1 := cell_set_attrs (a_wrapped_update (\<lambda>_. c)) (snd r ! (length (snd r) - 1))])"

definition row_len :: "nat \<Rightarrow> cell_row \<Rightarrow> bool" where
  "row_len n r = (length (fst r) = n \<and> length (snd r) = n)"

definition copy_cells :: "cell_line \<Rightarrow> nat \<Rightarrow> nat \<Rightarrow> nat \<Rightarrow> cell_row \<Rightarrow> cell_row" where
  "copy_cells l src_x dest_x num r =
     (overwrite (fst r) dest_x (slice (l_cpu l) src_x num), overwrite (snd r) dest_x (slice (l_gpu l) src_x num))"

text \<open>
  \<open>src s ls\<close>: the source \<open>s\<close> has the lines \<open>ls\<close>. \<open>dest x rs\<close>: the lines that were written so far are \<open>rs\<close>,
  the last one being written; some of the first ones may have left the buffer.
\<close>

locale rewrap_buffers =
  fixes M :: "('s, 'd) rewrap_macros"
    and src :: "'s \<Rightarrow> cell_row list \<Rightarrow> bool" and start :: "'d \<Rightarrow> bool" and dest :: "'d \<times> nat \<Rightarrow> cell_row list \<Rightarrow> bool"
    and sx :: nat and dx :: nat
  assumes dx: "m_dest_xnum M = dx" "0 < dx" and sx: "0 < sx"
    and init: "src s ls \<Longrightarrow> y < length ls \<Longrightarrow>
      line_wf (m_init_src_line M s y) \<and> l_xnum (m_init_src_line M s y) = sx
      \<and> (l_cpu (m_init_src_line M s y), l_gpu (m_init_src_line M s y)) = ls ! y"
    and clear: "src s ls \<Longrightarrow> y < length ls \<Longrightarrow> src (m_clear_wrapped M s y) (ls[y := set_row_wrapped False (ls ! y)])"
    and first: "start d \<Longrightarrow> dest (fst (m_first M a d), 0) [empty_cells dx]"
    and "next": "dest x (rs @ [r]) \<Longrightarrow> row_len dx r \<Longrightarrow>
      dest (fst (m_next M c a x)) (rs @ [set_row_wrapped c r, empty_cells dx])"
    and copy: "dest (d, y) (rs @ [r]) \<Longrightarrow> row_len dx r \<Longrightarrow> line_wf l \<Longrightarrow> src_x + num \<le> l_xnum l \<Longrightarrow> dest_x + num \<le> dx \<Longrightarrow>
      dest (m_copy_range M l src_x dest_x num (d, y), y) (rs @ [copy_cells l src_x dest_x num r])"
begin

text \<open>The text written so far is \<open>cs\<close>; the rest of the line being written is blank.\<close>

definition inv :: "('s, 'd) rewrap_state \<Rightarrow> text_cell list list \<Rightarrow> bool" where
  "inv w cs = (\<exists>rs r. dest (w_dest w, w_dest_y w) (rs @ [r]) \<and> row_len dx r \<and> w_dest_x w \<le> dx
     \<and> list_all is_blank (drop (w_dest_x w) (row_cells r))
     \<and> same_text (with_line (joined rs) (take (w_dest_x w) (row_cells r))) cs)"

lemma row_cells_simps:
  "row_len n r \<Longrightarrow> length (row_cells r) = n"
  "row_len n r \<Longrightarrow> row_cells (set_row_wrapped c r) = row_cells r"
  "0 < n \<Longrightarrow> row_len n r \<Longrightarrow> row_wraps (set_row_wrapped c r) = c"
  "row_len n r \<Longrightarrow> row_len n (set_row_wrapped c r)"
  "row_len n (empty_cells n)" "list_all is_blank (row_cells (empty_cells n))"
  by (auto simp: row_len_def row_cells_def set_row_wrapped_def row_wraps_def ends_wrapped_def empty_cells_def
      cell_set_attrs_def list_all_length is_blank_def zero_cpu_cell_def nth_list_update
      intro!: nth_equalityI arg_cong2 [where f = zip])

text \<open>Beginning a new line of the destination.\<close>

lemma next_goes_on:
  assumes "inv w cs" "w_dest_x w = dx"
  shows "inv (next_dest_line M True w) cs \<and> w_dest_x (next_dest_line M True w) = 0"
proof -
  obtain rs r where i: "dest (w_dest w, w_dest_y w) (rs @ [r])" "row_len dx r"
    "same_text (with_line (joined rs) (take dx (row_cells r))) cs"
    using assms by (auto simp: inv_def)
  obtain d y a where n: "m_next M True (w_attrs w) (w_dest w, w_dest_y w) = ((d, y), a)" by (metis surj_pair)
  have "dest (d, y) ((rs @ [set_row_wrapped True r]) @ [empty_cells dx])" using "next" [OF i(1,2), of True "w_attrs w"] n by simp
  moreover have "with_line (joined (rs @ [set_row_wrapped True r])) [] = with_line (joined rs) (take dx (row_cells r))"
    using i(2) dx(2) by (simp add: joined_snoc row_cells_simps with_line_def add_row_def)
  ultimately show ?thesis
    using i(3) unfolding inv_def next_dest_line_def n
    by (intro conjI exI [of _ "rs @ [set_row_wrapped True r]"] exI [of _ "empty_cells dx"]) (simp_all add: row_cells_simps)
qed

lemma line_finished:
  assumes "row_len dx r" "list_all is_blank (drop x (row_cells r))"
  shows "strip_blanks (last (with_line s (row_cells r))) = strip_blanks (last (with_line s (take x (row_cells r))))"
proof -
  have "last (with_line s (take x (row_cells r) @ drop x (row_cells r))) = last (with_line s (take x (row_cells r))) @ drop x (row_cells r)"
    by (rule with_line_simps)
  then show ?thesis using strip_append_blanks [OF assms(2)] by simp
qed

lemma next_ends:
  assumes "inv w cs"
  shows "inv (next_dest_line M False w) (cs @ [[]]) \<and> w_dest_x (next_dest_line M False w) = 0"
proof -
  obtain rs r where i: "dest (w_dest w, w_dest_y w) (rs @ [r])" "row_len dx r"
    "list_all is_blank (drop (w_dest_x w) (row_cells r))"
    "same_text (with_line (joined rs) (take (w_dest_x w) (row_cells r))) cs"
    using assms by (auto simp: inv_def)
  obtain d y a where n: "m_next M False (w_attrs w) (w_dest w, w_dest_y w) = ((d, y), a)" by (metis surj_pair)
  have "dest (d, y) ((rs @ [set_row_wrapped False r]) @ [empty_cells dx])" using "next" [OF i(1,2), of False "w_attrs w"] n by simp
  moreover have "with_line (joined (rs @ [set_row_wrapped False r])) [] = with_line (joined rs) (row_cells r) @ [[]]"
    using i(2) dx(2) by (simp add: joined_snoc row_cells_simps with_line_def add_row_def)
  moreover have "same_text (with_line (joined rs) (row_cells r) @ [[]]) (cs @ [[]])"
    by (rule same_text_new [OF i(4) with_line_simps(3) with_line_simps(1) line_finished [OF i(2,3)]])
  ultimately show ?thesis
    unfolding inv_def next_dest_line_def n
    by (intro conjI exI [of _ "rs @ [set_row_wrapped False r]"] exI [of _ "empty_cells dx"]) (simp_all add: row_cells_simps)
qed

text \<open>Copying cells into the line.\<close>

lemma copy_goes_on:
  assumes i: "inv w cs" and l: "line_wf l" "l_xnum l = sx" and fits: "src_x + num \<le> sx" "w_dest_x w + num \<le> dx"
  shows "inv (w\<lparr>w_dest := m_copy_range M l src_x (w_dest_x w) num (w_dest w, w_dest_y w), w_track := ts,
           w_dest_x := w_dest_x w + num\<rparr>)
         (butlast cs @ [last cs @ slice (row_cells (l_cpu l, l_gpu l)) src_x num])"
proof -
  let ?x = "w_dest_x w" and ?cs = "row_cells (l_cpu l, l_gpu l)"
  obtain rs r where d: "dest (w_dest w, w_dest_y w) (rs @ [r])" "row_len dx r"
    "list_all is_blank (drop ?x (row_cells r))"
    "same_text (with_line (joined rs) (take ?x (row_cells r))) cs"
    using i by (auto simp: inv_def)
  let ?r = "copy_cells l src_x ?x num r"
  have len: "length (l_cpu l) = sx" "length (l_gpu l) = sx" using l by (simp_all add: line_wf_def)
  have parts: "row_cells ?r = take ?x (row_cells r) @ slice ?cs src_x num @ drop (?x + num) (row_cells r)"
    using fits len d(2)
    by (simp add: row_cells_def copy_cells_def overwrite_def zip_append take_map drop_map take_zip drop_zip row_len_def)
      (simp add: slice_def take_map drop_map take_zip drop_zip)
  have x: "length (take ?x (row_cells r)) = ?x" "length (slice ?cs src_x num) = num"
    using d(2) fits len by (simp_all add: row_cells_simps row_cells_def slice_def row_len_def)
  have "list_all is_blank (drop (?x + num) (row_cells r))"
    using d(3) by (metis add.commute drop_drop append_take_drop_id list_all_append)
  moreover have "take (?x + num) (row_cells ?r) = take ?x (row_cells r) @ slice ?cs src_x num"
    "drop (?x + num) (row_cells ?r) = drop (?x + num) (row_cells r)"
    unfolding parts using x by simp_all
  moreover have "same_text (with_line (joined rs) (take ?x (row_cells r) @ ys)) (butlast cs @ [last cs @ ys])" for ys
    using d(4) by (simp add: same_text_def with_line_simps) (metis with_line_simps(3))
  moreover have "row_len dx ?r" using d(2) fits len by (simp add: row_len_def copy_cells_def)
  moreover have "dest (m_copy_range M l src_x ?x num (w_dest w, w_dest_y w), w_dest_y w) (rs @ [?r])"
    by (rule copy [OF d(1,2) l(1)]) (use fits l in simp_all)
  ultimately show ?thesis
    unfolding inv_def by (intro exI [of _ rs] exI [of _ ?r]) (use fits in simp)
qed

text \<open>The inner loop ends, whatever the line is, and copies at least up to the limit.\<close>

lemma copy_src_line_spec:
  assumes "inv w cs" "line_wf l" "l_xnum l = sx" "src_x \<le> sx" "limit \<le> sx"
  shows "\<exists>w' k. copy_src_line M l limit src_x w = Some w' \<and> w_src w' = w_src w \<and> k \<le> sx \<and> limit \<le> k \<and> src_x \<le> k
     \<and> inv w' (butlast cs @ [last cs @ slice (row_cells (l_cpu l, l_gpu l)) src_x (k - src_x)])"
  using assms(1,4)
proof (induction "limit - src_x" arbitrary: src_x w cs rule: less_induct)
  case less
  let ?c = "row_cells (l_cpu l, l_gpu l)"
  show ?case
  proof (cases "src_x < limit")
    case False
    moreover have "cs \<noteq> []" using less.prems by (auto simp: inv_def same_text_def)
    ultimately show ?thesis
      using less.prems by (intro exI [of _ w] exI [of _ src_x]) (simp add: copy_src_line.simps slice_def)
  next
    case True
    define w1 where "w1 = (if w_dest_x w \<ge> m_dest_xnum M then next_dest_line M True w else w)"
    define num where "num = min (l_xnum l - src_x) (m_dest_xnum M - w_dest_x w1)"
    define w2 where "w2 = w1\<lparr>w_dest := m_copy_range M l src_x (w_dest_x w1) num (w_dest w1, w_dest_y w1),
                 w_track := map (move_track src_x num (w_dest_x w1) (w_dest_y w1)) (w_track w1),
                 w_dest_x := w_dest_x w1 + num\<rparr>"
    have "w_dest_x w \<le> dx" using less.prems by (auto simp: inv_def)
    then have w1: "inv w1 cs" "w_dest_x w1 < dx" "w_src w1 = w_src w"
      using next_goes_on [OF less.prems(1)] less.prems(1) dx
      by (auto simp: w1_def next_dest_line_def split: prod.splits)
    have num: "0 < num" "src_x + num \<le> sx" "w_dest_x w1 + num \<le> dx"
      using True w1 assms dx by (auto simp: num_def)
    let ?cs = "butlast cs @ [last cs @ slice ?c src_x num]"
    have i2: "inv w2 ?cs" unfolding w2_def by (rule copy_goes_on [OF w1(1) assms(2,3) num(2,3)])
    have "limit - (src_x + num) < limit - src_x" using True num by simp
    from less.hyps [OF this i2 num(2)] obtain w' k where
      k: "copy_src_line M l limit (src_x + num) w2 = Some w'" "w_src w' = w_src w2" "k \<le> sx" "limit \<le> k" "src_x + num \<le> k"
        "inv w' (butlast ?cs @ [last ?cs @ slice ?c (src_x + num) (k - (src_x + num))])" by blast
    have "slice ?c src_x num @ slice ?c (src_x + num) (k - (src_x + num)) = slice ?c src_x (k - src_x)"
      using k(5) by (simp add: slice_append)
    then have "inv w' (butlast cs @ [last cs @ slice ?c src_x (k - src_x)])" using k(6) by simp
    moreover have "copy_src_line M l limit src_x w = Some w'"
      using True k(1) by (subst copy_src_line.simps) (simp add: Let_def w1_def [symmetric] num_def [symmetric] w2_def [symmetric])
    moreover have "w_src w' = w_src w" using k(2) w1 by (simp add: w2_def)
    ultimately show ?thesis using k by (intro exI [of _ w'] exI [of _ k]) simp
  qed
qed

text \<open>One line of the source: \<open>cs\<close> is the text before it, with the place its cells are put.\<close>

lemma inv_fields [simp]: "inv (w\<lparr>w_attrs := a\<rparr>) cs = inv w cs" "inv (w\<lparr>w_track := t\<rparr>) cs = inv w cs" "inv (w\<lparr>w_src := s\<rparr>) cs = inv w cs"
  by (simp_all add: inv_def)

lemma inv_same_text: "inv w cs \<Longrightarrow> same_text cs cs' \<Longrightarrow> inv w cs'"
  unfolding inv_def same_text_def by (metis (no_types, lifting))

lemma blank_after_limit:
  "n \<le> length (l_cpu l) \<Longrightarrow> length (l_gpu l) = length (l_cpu l) \<Longrightarrow>
   list_all is_blank (drop (strip_blank_from l n) (take n (row_cells (l_cpu l, l_gpu l))))"
proof (induction n)
  case (Suc n)
  have len: "length (row_cells (l_cpu l, l_gpu l)) = length (l_cpu l)" using Suc.prems by (simp add: row_cells_def)
  have t: "take (Suc n) (row_cells (l_cpu l, l_gpu l)) = take n (row_cells (l_cpu l, l_gpu l)) @ [row_cells (l_cpu l, l_gpu l) ! n]"
    using Suc.prems len by (simp add: take_Suc_conv_app_nth)
  show ?case
  proof (cases "line_ch l n = BLANK_CHAR")
    case True
    moreover have "is_blank (row_cells (l_cpu l, l_gpu l) ! n) = (line_ch l n = BLANK_CHAR)"
      using Suc.prems by (simp add: is_blank_def row_cells_def)
    ultimately show ?thesis using Suc strip_blank_from_le [of l n] len unfolding t by (simp add: drop_append)
  next
    case False
    then show ?thesis using len Suc.prems by simp
  qed
qed simp

lemma row_cells_cleared:
  "length (l_gpu l) = l_xnum l \<Longrightarrow> row_cells (l_cpu (clear_last_wrapped l), l_gpu (clear_last_wrapped l)) = row_cells (l_cpu l, l_gpu l)"
  by (auto simp: row_cells_def clear_last_wrapped_def cell_set_attrs_def nth_list_update intro!: nth_equalityI arg_cong2 [where f = zip])

lemma rewrap_line_spec:
  assumes ls: "src (w_src w) ls" "length ls = length ls0" "drop y ls = drop y ls0" "y < length ls0"
    and w: "if y = 0 then start (w_dest w) \<and> w_dest_y w = 0 \<and> w_dest_x w = 0 else inv w (with_line (joined (take y ls0)) [])"
  shows "\<exists>w' ls'. rewrap_line M limit y w = Some w' \<and> src (w_src w') ls' \<and> length ls' = length ls0
    \<and> drop (Suc y) ls' = drop (Suc y) ls0
    \<and> (Suc y < limit \<longrightarrow> inv w' (with_line (joined (take (Suc y) ls0)) []))
    \<and> (\<not> Suc y < limit \<longrightarrow> (\<exists>cs. inv w' cs \<and> map strip_blanks cs = map strip_blanks (fst (joined (take (Suc y) ls0)))))"
proof -
  define s where "s = joined (take y ls0)"
  define l where "l = m_init_src_line M (w_src w) y"
  define c where "c = row_cells (ls0 ! y)"
  define cont where "cont = is_src_line_continued l"
  define limit_x where "limit_x = (if cont then l_xnum l else strip_blank_from l (l_xnum l))"
  define l' where "l' = (if cont then clear_last_wrapped l else l)"
  have y: "ls ! y = ls0 ! y" using ls by (metis hd_drop_conv_nth)
  have l: "line_wf l" "l_xnum l = sx" "(l_cpu l, l_gpu l) = ls0 ! y" using init [OF ls(1), of y] ls(2,4) y by (simp_all add: l_def)
  have len: "length (l_gpu l) = sx" "length (l_cpu l) = sx" "length c = sx"
    using l by (simp_all add: line_wf_def c_def row_cells_def flip: l(3))
  have l': "line_wf l'" "l_xnum l' = sx" "row_cells (l_cpu l', l_gpu l') = c"
    using l len row_cells_cleared [of l] by (simp_all add: l'_def line_wf_def clear_last_wrapped_def c_def)
  have cont: "row_wraps (ls0 ! y) = cont"
    using l(3) len l(2) by (simp add: cont_def is_src_line_continued_def row_wraps_def flip: l(3))
  have lx: "limit_x \<le> sx" "list_all is_blank (drop limit_x c)"
    using strip_blank_from_le [of l sx] blank_after_limit [of sx l] len l by (auto simp: limit_x_def c_def)
  have J: "joined (take (Suc y) ls0) = add_row s (c, cont)"
    using ls(4) cont by (simp add: take_Suc_conv_app_nth joined_snoc s_def c_def)
  define w1 where "w1 = w\<lparr>w_src := (if cont then m_clear_wrapped M (w_src w) y else w_src w),
                w_attrs := l_attrs l, w_track := map (clamp_track limit_x) (map (\<lambda>t. t\<lparr>t_is_tracked_line := (y = t_y t)\<rparr>) (w_track w))\<rparr>"
  define w2 where "w2 = (if y = 0 then (case m_first M (w_attrs w1) (w_dest w1) of (d, a) \<Rightarrow> w1\<lparr>w_dest := d, w_attrs := a\<rparr>) else w1)"
  have "\<exists>ls'. src (w_src w2) ls' \<and> length ls' = length ls0 \<and> drop (Suc y) ls' = drop (Suc y) ls0"
  proof -
    have "drop (Suc y) ls = drop (Suc y) ls0" using ls(3) by (metis drop_Suc drop_tl)
    moreover have "w_src w2 = (if cont then m_clear_wrapped M (w_src w) y else w_src w)" by (simp add: w2_def w1_def split: prod.splits)
    ultimately show ?thesis using ls clear [OF ls(1), of y] by (cases cont) (auto intro: exI [of _ "ls[y := set_row_wrapped False (ls ! y)]"])
  qed
  then obtain ls' where ls': "src (w_src w2) ls'" "length ls' = length ls0" "drop (Suc y) ls' = drop (Suc y) ls0" by blast
  have i2: "inv w2 (with_line s [])"
  proof (cases "y = 0")
    case True
    obtain d a where f: "m_first M (l_attrs l) (w_dest w) = (d, a)" by (metis surj_pair)
    have "dest (d, 0) [empty_cells dx]" using first [of "w_dest w" "l_attrs l"] w f True by simp
    moreover have "w_dest w2 = d" "w_dest_y w2 = 0" "w_dest_x w2 = 0" using True f w by (simp_all add: w2_def w1_def)
    ultimately show ?thesis
      using True unfolding inv_def
      by (intro exI [of _ "[]"] exI [of _ "empty_cells dx"]) (simp add: row_cells_simps s_def same_text_def with_line_simps)
  next
    case False
    then show ?thesis using w by (simp add: w2_def w1_def s_def)
  qed
  from copy_src_line_spec [OF i2 l'(1,2) _ lx(1), of 0] l'(3) obtain w3 k where
    w3: "copy_src_line M l' limit_x 0 w2 = Some w3" "w_src w3 = w_src w2" "k \<le> sx" "limit_x \<le> k"
      "inv w3 (butlast (with_line s []) @ [last (with_line s []) @ take k c])" by (auto simp: slice_def)
  have wl: "butlast (with_line s []) @ [last (with_line s []) @ xs] = with_line s xs" for xs
    by (metis append_butlast_last_id append_self_conv2 with_line_simps)
  have i3: "inv w3 (with_line s (take k c))" using w3(5) unfolding wl .
  have sp: "strip_blanks (last (with_line s c)) = strip_blanks (last (with_line s (take k c)))"
  proof -
    have "list_all is_blank (drop k c)" using lx(2) w3(4) by (metis append_take_drop_id drop_drop le_add_diff_inverse2 list_all_append)
    moreover have "last (with_line s (take k c @ drop k c)) = last (with_line s (take k c)) @ drop k c" by (rule with_line_simps)
    ultimately show ?thesis using strip_append_blanks by simp
  qed
  define w4 where "w4 = (if \<not> cont \<and> y + 1 < limit
    then next_dest_line M False (w3\<lparr>w_attrs := l_attrs (m_init_src_line M (w_src w3) (y + 1))\<rparr>) else w3)"
  have run: "rewrap_line M limit y w = Some w4"
    unfolding rewrap_line_def Let_def l_def [symmetric] cont_def [symmetric] limit_x_def [symmetric] l'_def [symmetric]
      w1_def [symmetric] w2_def [symmetric] w3(1) w4_def by simp
  have s4: "w_src w4 = w_src w2" using w3(2) by (simp add: w4_def next_dest_line_def split: prod.splits)
  have go: "inv w4 (with_line (joined (take (Suc y) ls0)) [])" if "Suc y < limit"
  proof (cases cont)
    case True
    then have "k = sx" using w3(3,4) l by (simp add: limit_x_def)
    then have "inv w4 (with_line s c)" using i3 len True by (simp add: w4_def)
    moreover have "with_line (add_row s (c, True)) [] = with_line s c" by (simp add: with_line_def add_row_def)
    ultimately show ?thesis using True by (simp add: J)
  next
    case False
    have "inv w4 (with_line s (take k c) @ [[]])"
      using False that next_ends [of "w3\<lparr>w_attrs := l_attrs (m_init_src_line M (w_src w3) (y + 1))\<rparr>"] i3 by (simp add: w4_def)
    moreover have "same_text (with_line s (take k c) @ [[]]) (with_line s c @ [[]])"
      by (rule same_text_new [of "with_line s c" "with_line s c"])
        (simp_all add: same_text_def with_line_simps(1) with_line_simps(3) [of s "take k c" c] sp)
    moreover have "with_line (add_row s (c, False)) [] = with_line s c @ [[]]" by (simp add: with_line_def add_row_def)
    ultimately show ?thesis using False inv_same_text by (simp add: J)
  qed
  have stop: "\<exists>cs. inv w4 cs \<and> map strip_blanks cs = map strip_blanks (fst (joined (take (Suc y) ls0)))" if "\<not> Suc y < limit"
  proof (intro exI conjI)
    show "inv w4 (with_line s (take k c))" using i3 that by (simp add: w4_def)
    show "map strip_blanks (with_line s (take k c)) = map strip_blanks (fst (joined (take (Suc y) ls0)))"
      unfolding J with_line_add using sp by (simp add: map_butlast_last with_line_simps with_line_simps(3) [of s "take k c" c])
  qed
  show ?thesis
    by (intro exI [of _ w4] exI [of _ ls']) (use run s4 ls' go stop in simp)
qed

text \<open>The outer loop, from a line after the first one.\<close>

lemma rewrap_loop_spec:
  assumes "src (w_src w) ls" "length ls = length ls0" "drop y ls = drop y ls0" "Suc y + n = limit" "limit \<le> length ls0"
    and "if y = 0 then start (w_dest w) \<and> w_dest_y w = 0 \<and> w_dest_x w = 0 else inv w (with_line (joined (take y ls0)) [])"
  shows "\<exists>w' cs. rewrap_lines_loop M limit (Suc n) y w = Some w' \<and> inv w' cs
    \<and> map strip_blanks cs = text_of_rows (take limit ls0)"
  using assms
proof (induction n arbitrary: y w ls)
  case 0
  have "y < length ls0" using 0 by simp
  from rewrap_line_spec [OF 0(1-3) this 0(6), of limit] obtain w' cs where
    "rewrap_line M limit y w = Some w'" "inv w' cs" "map strip_blanks cs = map strip_blanks (fst (joined (take (Suc y) ls0)))"
    using 0(4) by auto
  then show ?case using 0(4) by (auto simp: text_of_rows_def)
next
  case (Suc n)
  have "y < length ls0" using Suc.prems by simp
  from rewrap_line_spec [OF Suc.prems(1-3) this Suc.prems(6), of limit] obtain w' ls' where
    r: "rewrap_line M limit y w = Some w'" "src (w_src w') ls'" "length ls' = length ls0" "drop (Suc y) ls' = drop (Suc y) ls0"
      "inv w' (with_line (joined (take (Suc y) ls0)) [])"
    using Suc.prems(4) by auto
  have "\<exists>w'' cs. rewrap_lines_loop M limit (Suc n) (Suc y) w' = Some w'' \<and> inv w'' cs \<and> map strip_blanks cs = text_of_rows (take limit ls0)"
    by (rule Suc.IH [OF r(2-4)]) (use Suc.prems r in simp_all)
  then show ?case using r(1) by simp
qed

lemma inv_text:
  assumes "inv w cs"
  shows "\<exists>rs r. dest (w_dest w, w_dest_y w) (rs @ [r]) \<and> row_len dx r \<and> text_of_rows (rs @ [r]) = map strip_blanks cs"
proof -
  obtain rs r where d: "dest (w_dest w, w_dest_y w) (rs @ [r])" "row_len dx r" "list_all is_blank (drop (w_dest_x w) (row_cells r))"
    "same_text (with_line (joined rs) (take (w_dest_x w) (row_cells r))) cs"
    using assms by (auto simp: inv_def)
  have "text_of_rows (rs @ [r]) = map strip_blanks (with_line (joined rs) (row_cells r))"
    by (simp add: text_of_rows_def joined_snoc with_line_add)
  also have "\<dots> = map strip_blanks (with_line (joined rs) (take (w_dest_x w) (row_cells r)))"
    using line_finished [OF d(2,3), of "joined rs"]
    by (simp add: map_butlast_last with_line_simps with_line_simps(3) [of "joined rs" "row_cells r" "take (w_dest_x w) (row_cells r)"])
  also have "\<dots> = map strip_blanks cs" by (rule same_text_strip [OF d(4)])
  finally show ?thesis using d by blast
qed

text \<open>The whole function returns and the lines it wrote have the text of the lines it read.\<close>

theorem rewrap_inner_text:
  assumes "src s ls" "start d" "0 < limit" "limit \<le> length ls"
  shows "\<exists>w rows. rewrap_inner M s d limit track = Some w \<and> dest (w_dest w, w_dest_y w) rows
    \<and> text_of_rows rows = text_of_rows (take limit ls)"
proof -
  let ?w = "\<lparr>w_src = s, w_dest = d, w_dest_y = 0, w_dest_x = 0, w_attrs = zero_line_attrs, w_track = track\<rparr>"
  obtain n where n: "limit = Suc n" using assms by (cases limit) auto
  obtain w cs where w: "rewrap_lines_loop M limit (Suc n) 0 ?w = Some w" "inv w cs" "map strip_blanks cs = text_of_rows (take limit ls)"
    using rewrap_loop_spec [of ?w ls ls 0 n limit] assms n by auto
  show ?thesis using inv_text [OF w(2)] w n by (auto simp: rewrap_inner_def)
qed

end

end
