(* ===== verification/Rewrap_Lines.thy ===== *)
theory Rewrap_Lines
  imports Rewrap_Text
begin

text \<open>
  Line buffers as source and destination of rewrapping: the laws of \<open>rewrap_buffers\<close> hold for the
  macros of \<^verbatim>\<open>line-buf.c\<close>, so \<open>linebuf_rewrap\<close> keeps the text of the screen. Lines that do not fit are at the
  end of the history.
\<close>

section \<open>The cells of the lines\<close>

definition row_body :: "row \<Rightarrow> cell_row" where
  "row_body r = (fst r, fst (snd r))"

abbreviation bodies :: "line_buf \<Rightarrow> cell_row list" where
  "bodies b \<equiv> map row_body (rows b)"

lemma row_body_row_of: "row_body (row_of b y) = (b_cpu b ! (b_map b ! y), b_gpu b ! (b_map b ! y))"
  by (simp add: row_body_def row_of_def)

lemma row_body_len: "lb_wf b \<Longrightarrow> y < b_ynum b \<Longrightarrow> row_len (b_xnum b) (row_body (row_of b y))"
  by (simp add: row_body_row_of row_len_def lb_wf_row_lengths lb_wf_map)

lemma bodies_eqI:
  assumes "b_ynum b = length rs" "\<And>y. y < length rs \<Longrightarrow> row_body (row_of b y) = rs ! y"
  shows "bodies b = rs"
  using assms by (auto simp: nth_rows intro!: nth_equalityI)

lemma nth_bodies: "y < b_ynum b \<Longrightarrow> bodies b ! y = row_body (row_of b y)"
  by (simp add: nth_rows)

lemma bodies_put_line:
  assumes "lb_wf b" "y < b_ynum b"
  shows "bodies (put_line b y l) = (bodies b)[y := (l_cpu l, l_gpu l)]"
proof (rule bodies_eqI)
  fix j assume "j < length ((bodies b)[y := (l_cpu l, l_gpu l)])"
  then have "j < b_ynum b" by simp
  then show "row_body (row_of (put_line b y l) j) = (bodies b)[y := (l_cpu l, l_gpu l)] ! j"
    using row_of_put_line [OF assms] by (auto simp: nth_list_update nth_rows row_body_def)
qed (simp add: put_line_def)

lemma bodies_update_line_attrs [simp]: "bodies (update_line_attrs y f b) = bodies b"
  by (rule bodies_eqI) (simp_all add: update_line_attrs_def nth_rows row_body_row_of)

lemma bodies_set_continuation:
  assumes "lb_wf b" "y < b_ynum b"
  shows "bodies (linebuf_set_last_char_as_continuation b y c) = (bodies b)[y := set_row_wrapped c (bodies b ! y)]"
proof (rule bodies_eqI)
  fix j assume "j < length ((bodies b)[y := set_row_wrapped c (bodies b ! y)])"
  then have j: "j < b_ynum b" by simp
  show "row_body (row_of (linebuf_set_last_char_as_continuation b y c) j) = (bodies b)[y := set_row_wrapped c (bodies b ! y)] ! j"
    using assms j map_inj [OF assms(1) j assms(2)] lb_wf_map [OF assms(1)] lb_wf_row_lengths [OF assms(1)]
    by (auto simp: linebuf_set_last_char_as_continuation_def Let_def nth_list_update nth_rows row_body_row_of set_row_wrapped_def)
qed (use assms in \<open>simp add: linebuf_set_last_char_as_continuation_def Let_def\<close>)

lemma set_continuation_frame:
  "b_ynum (linebuf_set_last_char_as_continuation b y c) = b_ynum b"
  "b_xnum (linebuf_set_last_char_as_continuation b y c) = b_xnum b"
  by (simp_all add: linebuf_set_last_char_as_continuation_def Let_def)

text \<open>Moving all lines up by one and clearing the last one, also with one line only.\<close>

lemma bodies_index_clear:
  assumes wf: "lb_wf b"
  defines "b1 \<equiv> linebuf_index b 0 (b_ynum b - 1)"
  shows "lb_wf b1" "b_ynum b1 = b_ynum b" "b_xnum b1 = b_xnum b"
    "row_body (row_of b1 (b_ynum b - 1)) = hd (bodies b)"
    "bodies (linebuf_clear_line b1 (b_ynum b - 1) True) = tl (bodies b) @ [empty_cells (b_xnum b)]"
proof -
  have n: "0 < b_ynum b" using wf by (simp add: lb_wf_def)
  have ne: "rows b \<noteq> []" using n by (metis length_rows length_0_conv not_less_zero)
  have r: "lb_wf b1 \<and> b_ynum b1 = b_ynum b \<and> b_xnum b1 = b_xnum b \<and> rows b1 = tl (rows b) @ [hd (rows b)]"
  proof (cases "b_ynum b = 1")
    case True
    then have "length (rows b) = 1" by simp
    then have "rows b = tl (rows b) @ [hd (rows b)]" by (cases "rows b") simp_all
    then show ?thesis using wf True by (simp add: b1_def linebuf_index_def)
  next
    case False
    then have lt: "0 < b_ynum b - 1" "b_ynum b - 1 < b_ynum b" using n by simp_all
    have "scroll_up 0 (b_ynum b - 1) (rows b) = tl (rows b) @ [hd (rows b)]"
      using n ne by (simp add: scroll_up_def slice_def rotate1_hd_tl)
    then show ?thesis using linebuf_index_rows [OF wf lt] by (simp add: b1_def)
  qed
  then show "lb_wf b1" "b_ynum b1 = b_ynum b" "b_xnum b1 = b_xnum b" by simp_all
  have "rows b1 ! (b_ynum b - 1) = hd (rows b)" using r n by (simp add: nth_append)
  then show "row_body (row_of b1 (b_ynum b - 1)) = hd (bodies b)"
    using r n ne by (simp add: nth_rows [symmetric] hd_map)
  show "bodies (linebuf_clear_line b1 (b_ynum b - 1) True) = tl (bodies b) @ [empty_cells (b_xnum b)]"
  proof (rule bodies_eqI)
    fix j assume "j < length (tl (bodies b) @ [empty_cells (b_xnum b)])"
    then have j: "j < b_ynum b" using n by simp
    then have "row_of b1 j = (tl (rows b) @ [hd (rows b)]) ! j" using r by (metis nth_rows)
    have "row_body (row_of (linebuf_clear_line b1 (b_ynum b - 1) True) j) = row_body (row_of (clear_row (b_ynum b - 1) b1) j)"
      by (simp add: linebuf_clear_line_def Let_def row_body_row_of update_line_attrs_def)
    then show "row_body (row_of (linebuf_clear_line b1 (b_ynum b - 1) True) j) = (tl (bodies b) @ [empty_cells (b_xnum b)]) ! j"
      using j r n row_of_clear_row [of b1 "b_ynum b - 1" j] \<open>row_of b1 j = _\<close>
      by (auto simp: row_body_def nth_append nth_tl blank_row_def empty_cells_def)
  qed (use r n in \<open>simp add: linebuf_clear_line_def Let_def\<close>)
qed

section \<open>The laws for line buffers\<close>

definition lb_has :: "nat \<Rightarrow> line_buf \<Rightarrow> cell_row list \<Rightarrow> bool" where
  "lb_has xn b ls = (lb_wf b \<and> b_xnum b = xn \<and> bodies b = ls)"

text \<open>What the history got.\<close>

definition hist_got ::
  "(hyperlink_id_type \<times> history_buf) option \<Rightarrow> (hyperlink_id_type \<times> history_buf) option \<Rightarrow> cell_row list \<Rightarrow> bool" where
  "hist_got h0 h over =
     (case (h0, h) of
        (None, None) \<Rightarrow> True
      | (Some (_, g0), Some (_, g)) \<Rightarrow>
          history_wf g \<and> h_xnum g = h_xnum g0 \<and> h_ynum g = h_ynum g0
          \<and> map row_body (h_lines g) =
              drop (length (map row_body (h_lines g0) @ over) - h_ynum g0) (map row_body (h_lines g0) @ over)
      | _ \<Rightarrow> False)"

definition hist_fits :: "nat \<Rightarrow> (hyperlink_id_type \<times> history_buf) option \<Rightarrow> bool" where
  "hist_fits xn h = (case h of None \<Rightarrow> True | Some (_, g) \<Rightarrow> history_wf g \<and> h_xnum g = xn)"

definition lb_fresh :: "nat \<Rightarrow> nat \<Rightarrow> (hyperlink_id_type \<times> history_buf) option \<Rightarrow> lb_dest \<Rightarrow> bool" where
  "lb_fresh xn yn h0 d =
     (lb_wf (fst d) \<and> b_xnum (fst d) = xn \<and> b_ynum (fst d) = yn \<and> hist_fits xn h0 \<and> snd d = h0
      \<and> (\<forall>r \<in> set (bodies (fst d)). r = empty_cells xn))"

text \<open>The lines written are those that went to the history and those of the buffer up to the current one.\<close>

definition lb_written :: "nat \<Rightarrow> nat \<Rightarrow> (hyperlink_id_type \<times> history_buf) option \<Rightarrow> lb_dest \<times> nat \<Rightarrow> cell_row list \<Rightarrow> bool" where
  "lb_written xn yn h0 x rs =
     (case x of ((b, h), y) \<Rightarrow>
        lb_wf b \<and> b_xnum b = xn \<and> b_ynum b = yn \<and> hist_fits xn h0 \<and> y < b_ynum b
        \<and> (\<exists>over. rs = over @ take (Suc y) (bodies b) \<and> hist_got h0 h over)
        \<and> (\<forall>r \<in> set (drop (Suc y) (bodies b)). r = empty_cells xn))"

lemma hist_got_start: "hist_fits xn h \<Longrightarrow> hist_got h h []"
  by (auto simp: hist_got_def hist_fits_def history_wf_def split: option.splits prod.splits)

lemma drop_drop_snoc:
  "drop (Suc (length (drop (length A - N) A)) - N) (drop (length A - N) A @ [z]) = drop (length (A @ [z]) - N) (A @ [z])"
  by (cases "length A < N") (auto simp: Suc_diff_le)

lemma hist_got_add:
  assumes got: "hist_got h0 h over" and h0: "hist_fits xn h0" and l: "line_wf l" "l_xnum l = xn"
  shows "hist_got h0 (map_option (\<lambda>(active, h). historybuf_add_line pool active l h) h) (over @ [(l_cpu l, l_gpu l)])"
proof (cases h0)
  case None
  then show ?thesis using got by (auto simp: hist_got_def split: option.splits)
next
  case (Some p)
  obtain a0 g0 where p: "p = (a0, g0)" by force
  obtain a g where h: "h = Some (a, g)" "history_wf g" "h_xnum g = h_xnum g0" "h_ynum g = h_ynum g0"
    and g: "map row_body (h_lines g) =
      drop (length (map row_body (h_lines g0) @ over) - h_ynum g0) (map row_body (h_lines g0) @ over)"
    using got Some p by (auto simp: hist_got_def split: option.splits prod.splits)
  obtain a1 g1 where g1: "historybuf_add_line pool a l g = (a1, g1)" by force
  have s: "history_wf g1 \<and> h_xnum g1 = h_xnum g \<and> h_ynum g1 = h_ynum g
     \<and> h_lines g1 = drop (h_count g + 1 - h_ynum g) (h_lines g @ [line_row l])"
    using historybuf_add_line_spec [OF h(2) l(1) _ g1] l(2) h(3) h0 Some p by (simp add: hist_fits_def)
  have "map row_body (h_lines g1) = drop (Suc (length (map row_body (h_lines g))) - h_ynum g) (map row_body (h_lines g) @ [(l_cpu l, l_gpu l)])"
    using s by (simp add: line_row_def row_body_def flip: drop_map del: drop_append)
  also have "\<dots> = drop (length (map row_body (h_lines g0) @ over @ [(l_cpu l, l_gpu l)]) - h_ynum g0)
      (map row_body (h_lines g0) @ over @ [(l_cpu l, l_gpu l)])"
    unfolding g h(4) using drop_drop_snoc [of "map row_body (h_lines g0) @ over"] by simp
  finally show ?thesis using s h Some p g1 by (simp add: hist_got_def)
qed

text \<open>Each law is a lemma about the macros.\<close>

lemma linebuf_macros_init:
  assumes "lb_has xn b ls" "y < length ls"
  shows "line_wf (m_init_src_line (linebuf_macros pool n) b y) \<and> l_xnum (m_init_src_line (linebuf_macros pool n) b y) = xn
    \<and> (l_cpu (m_init_src_line (linebuf_macros pool n) b y), l_gpu (m_init_src_line (linebuf_macros pool n) b y)) = ls ! y"
proof -
  have y: "y < b_ynum b" "lb_wf b" "ls = bodies b" "b_xnum b = xn" using assms by (auto simp: lb_has_def)
  have "(l_cpu (linebuf_init_line b y), l_gpu (linebuf_init_line b y)) = ls ! y"
    unfolding y(3) nth_bodies [OF y(1)] by (simp add: row_body_row_of linebuf_init_line_def)
  then show ?thesis using linebuf_init_line_wf [OF y(2,1)] y(4) by (simp add: linebuf_macros_def)
qed

lemma linebuf_macros_clear:
  assumes "lb_has xn b ls" "y < length ls"
  shows "lb_has xn (m_clear_wrapped (linebuf_macros pool n) b y) (ls[y := set_row_wrapped False (ls ! y)])"
proof -
  have y: "y < b_ynum b" "lb_wf b" "ls = bodies b" "b_xnum b = xn" using assms by (auto simp: lb_has_def)
  define l where "l = clear_last_wrapped (linebuf_init_line b y)"
  have "line_wf (linebuf_init_line b y)" by (rule linebuf_init_line_wf [OF y(2,1)])
  then have l: "line_wf l" "l_xnum l = b_xnum b" "(l_cpu l, l_gpu l) = set_row_wrapped False (ls ! y)"
    unfolding y(3) nth_bodies [OF y(1)]
    by (simp_all add: l_def line_wf_def clear_last_wrapped_def set_row_wrapped_def row_body_row_of)
      (simp add: linebuf_init_line_def)
  have "lb_wf (put_line b y l)" by (rule put_line_wf [OF y(2) l(1,2)])
  moreover have "bodies (put_line b y l) = ls[y := set_row_wrapped False (ls ! y)]"
    unfolding bodies_put_line [OF y(2,1)] l(3) y(3) ..
  moreover have "b_xnum (put_line b y l) = xn" using y by (simp add: put_line_def)
  ultimately show ?thesis by (simp add: lb_has_def linebuf_macros_def l_def)
qed

lemma linebuf_macros_first:
  assumes "lb_fresh xn yn h0 d"
  shows "lb_written xn yn h0 (fst (m_first (linebuf_macros pool xn) a d), 0) [empty_cells xn]"
proof -
  obtain b h where d: "d = (b, h)" by force
  have b: "lb_wf b" "b_xnum b = xn" "b_ynum b = yn" "hist_fits xn h0" "h = h0" "\<forall>r \<in> set (bodies b). r = empty_cells xn"
    using assms by (simp_all add: lb_fresh_def d)
  have n: "0 < b_ynum b" using b by (simp add: lb_wf_def)
  then have "take (Suc 0) (bodies b) = [empty_cells xn]"
    using b(6) by (cases "bodies b") (auto dest: arg_cong [where f = length])
  then show ?thesis
    using b n hist_got_start [OF b(4)] in_set_dropD [of _ "Suc 0" "bodies b"]
    by (auto simp: lb_written_def linebuf_macros_def set_dest_line_attrs_def d wf_intros intro!: exI [of _ "[]"])
qed

lemma linebuf_macros_copy:
  assumes w: "lb_written xn yn h0 (d, y) (rs @ [r])" and r: "row_len xn r" and l: "line_wf l" "src_x + num \<le> l_xnum l" "dest_x + num \<le> xn"
  shows "lb_written xn yn h0 (m_copy_range (linebuf_macros pool xn) l src_x dest_x num (d, y), y) (rs @ [copy_cells l src_x dest_x num r])"
proof -
  obtain b h where d: "d = (b, h)" by force
  obtain over where on: "b_ynum b = yn" and o: "lb_wf b" "b_xnum b = xn" "hist_fits xn h0" "y < b_ynum b" "rs @ [r] = over @ take (Suc y) (bodies b)"
      "hist_got h0 h over" "\<forall>r \<in> set (drop (Suc y) (bodies b)). r = empty_cells xn"
    using w by (auto simp: lb_written_def d)
  let ?l = "copy_range l src_x (linebuf_init_line b y) dest_x num"
  have "take (Suc y) (bodies b) = take y (bodies b) @ [row_body (row_of b y)]"
    using o(4) by (simp add: take_Suc_conv_app_nth nth_rows)
  then have rs: "rs = over @ take y (bodies b)" "r = row_body (row_of b y)" using o(5) by simp_all
  have l1: "line_wf (linebuf_init_line b y)" by (rule linebuf_init_line_wf [OF o(1,4)])
  then have "line_wf ?l" using l o(2) by (simp add: line_wf_def copy_range_def linebuf_init_line_xnum)
  then have wf: "lb_wf (put_line b y ?l)" by (rule put_line_wf [OF o(1)]) (simp add: copy_range_def)
  have "(l_cpu ?l, l_gpu ?l) = copy_cells l src_x dest_x num r"
    by (simp add: copy_range_def copy_cells_def rs(2) row_body_row_of linebuf_init_line_def)
  then have bod: "bodies (put_line b y ?l) = (bodies b)[y := copy_cells l src_x dest_x num r]"
    using bodies_put_line [OF o(1,4)] by simp
  then have "take (Suc y) (bodies (put_line b y ?l)) = take y (bodies b) @ [copy_cells l src_x dest_x num r]"
    using o(4) by (simp add: take_Suc_conv_app_nth)
  then show ?thesis
    using wf o on bod rs(1) by (auto simp: lb_written_def linebuf_macros_def d put_line_def)
qed

lemma linebuf_macros_next:
  assumes w: "lb_written xn yn h0 x (rs @ [r])" and r: "row_len xn r"
  shows "lb_written xn yn h0 (fst (m_next (linebuf_macros pool xn) c a x)) (rs @ [set_row_wrapped c r, empty_cells xn])"
proof -
  obtain b h y where x: "x = ((b, h), y)" by (metis surj_pair)
  obtain over where on: "b_ynum b = yn" and o: "lb_wf b" "b_xnum b = xn" "hist_fits xn h0" "y < b_ynum b" "rs @ [r] = over @ take (Suc y) (bodies b)"
      "hist_got h0 h over" "\<forall>r \<in> set (drop (Suc y) (bodies b)). r = empty_cells xn"
    using w by (auto simp: lb_written_def x)
  let ?b = "linebuf_set_last_char_as_continuation b y c"
  have "take (Suc y) (bodies b) = take y (bodies b) @ [bodies b ! y]"
    using o(4) by (simp add: take_Suc_conv_app_nth)
  then have rs: "rs = over @ take y (bodies b)" "r = bodies b ! y" using o(5) by simp_all
  have wf: "lb_wf ?b" by (rule set_continuation_wf [OF o(1)])
  have bod: "bodies ?b = (bodies b)[y := set_row_wrapped c r]" using bodies_set_continuation [OF o(1,4)] rs(2) by simp
  have tk: "take (Suc y) (bodies ?b) = take y (bodies b) @ [set_row_wrapped c r]"
    using o(4) unfolding bod by (simp add: take_Suc_conv_app_nth)
  have dr: "drop (Suc y) (bodies ?b) = drop (Suc y) (bodies b)" unfolding bod by simp
  show ?thesis
  proof (cases "y \<ge> b_ynum b - 1")
    case False
    then have y: "Suc y < b_ynum b" by simp
    have "bodies ?b ! Suc y = empty_cells xn"
      using o(7) y bod Cons_nth_drop_Suc [of "Suc y" "bodies b"]
      by (metis length_map length_rows list.set_intros(1) nth_list_update_neq n_not_Suc_n)
    then have "take (Suc (Suc y)) (bodies ?b) = take y (bodies b) @ [set_row_wrapped c r, empty_cells xn]"
      using y tk by (subst take_Suc_conv_app_nth) (simp_all add: set_continuation_frame)
    moreover have "\<forall>r \<in> set (drop (Suc (Suc y)) (bodies ?b)). r = empty_cells xn"
      using o(7) dr by (metis drop_Suc in_set_dropD drop_drop add_Suc_right drop_tl list.set_sel(2) drop_Nil tl_drop)
    ultimately show ?thesis
      using False y o on wf rs(1)
      by (auto simp: lb_written_def linebuf_macros_def lb_next_dest_line_def x Let_def set_continuation_frame set_dest_line_attrs_def
          wf_intros intro!: exI [of _ over])
  next
    case True
    then have y: "Suc y = b_ynum b" "y = b_ynum b - 1" using o(4) by simp_all
    let ?i = "linebuf_index ?b 0 (b_ynum b - 1)"
    define l where "l = linebuf_init_line ?i (b_ynum b - 1)"
    note ix = bodies_index_clear [OF wf, unfolded set_continuation_frame]
    have l: "line_wf l" "l_xnum l = xn" "(l_cpu l, l_gpu l) = hd (bodies ?b)"
      using linebuf_init_line_wf [OF ix(1), of "b_ynum b - 1"] ix(2,3,4) o(2,4)
      by (simp_all add: l_def row_body_row_of) (simp add: linebuf_init_line_def)
    have got: "hist_got h0 (map_option (\<lambda>(active, h). historybuf_add_line pool active
        (l\<lparr>l_attrs := (l_attrs l)\<lparr>la_has_dirty_text := True\<rparr>\<rparr>) h) h) (over @ [hd (bodies ?b)])"
      using hist_got_add [OF o(6,3), of "l\<lparr>l_attrs := (l_attrs l)\<lparr>la_has_dirty_text := True\<rparr>\<rparr>"] l by (simp add: line_wf_def)
    have ne: "bodies ?b \<noteq> []" using o(4) by (metis length_map length_rows set_continuation_frame(1) list.size(3) not_less_zero)
    have all: "take (Suc y) (bodies ?b) = bodies ?b" using y by (simp add: set_continuation_frame)
    have "rs @ [set_row_wrapped c r, empty_cells xn] = over @ bodies ?b @ [empty_cells xn]"
      using tk rs(1) unfolding all by simp
    also have "\<dots> = (over @ [hd (bodies ?b)]) @ (tl (bodies ?b) @ [empty_cells xn])" using ne by simp
    finally have rs': "rs @ [set_row_wrapped c r, empty_cells xn] = (over @ [hd (bodies ?b)]) @ (tl (bodies ?b) @ [empty_cells xn])" .
    define nb where "nb = linebuf_clear_line ?i (b_ynum b - 1) True"
    have nb: "lb_wf nb" "b_xnum nb = xn" "b_ynum nb = b_ynum b" "bodies nb = tl (bodies ?b) @ [empty_cells xn]"
      using ix o(2) by (simp_all add: nb_def linebuf_clear_line_wf) (simp_all add: linebuf_clear_line_def Let_def)
    have step: "fst (m_next (linebuf_macros pool xn) c a x) =
        ((update_line_attrs y (\<lambda>_. a) nb, map_option (\<lambda>(active, h). historybuf_add_line pool active
        (l\<lparr>l_attrs := (l_attrs l)\<lparr>la_has_dirty_text := True\<rparr>\<rparr>) h) h), y)"
      using True ix(2) by (simp add: linebuf_macros_def lb_next_dest_line_def x Let_def set_continuation_frame set_dest_line_attrs_def
          nb_def l_def)
    have whole: "take (Suc y) (bodies nb) = bodies nb" "drop (Suc y) (bodies nb) = []" using nb(3) y(1) by simp_all
    show ?thesis
      unfolding lb_written_def step prod.case bodies_update_line_attrs whole
      by (intro conjI exI [of _ "over @ [hd (bodies ?b)]"])
        (use nb(1-3) o(3,4) on got rs' [folded nb(4)] in \<open>simp_all add: wf_intros del: append_assoc\<close>)
  qed
qed

interpretation line_buffers: rewrap_buffers "linebuf_macros pool (Suc xn)" "lb_has (Suc n)" "lb_fresh (Suc xn) yn h0"
    "lb_written (Suc xn) yn h0" "Suc n" "Suc xn" for pool xn yn n h0
proof unfold_locales
qed (simp_all add: linebuf_macros_init linebuf_macros_clear linebuf_macros_first linebuf_macros_next linebuf_macros_copy,
     simp add: linebuf_macros_def)

section \<open>Rewrapping the lines of the screen\<close>

lemma last_content_line_spec:
  "last_content_line b n = None \<Longrightarrow> y < n \<Longrightarrow> list_all (\<lambda>c. p_ch c = BLANK_CHAR) (take (b_xnum b) (b_cpu b ! (b_map b ! y)))"
  "last_content_line b n = Some k \<Longrightarrow> k < n"
  "last_content_line b n = Some k \<Longrightarrow> k < y \<Longrightarrow> y < n \<Longrightarrow> list_all (\<lambda>c. p_ch c = BLANK_CHAR) (take (b_xnum b) (b_cpu b ! (b_map b ! y)))"
  by (induction n) (auto simp: list_ex_iff list_all_iff less_Suc_eq split: if_splits)

lemma blank_body:
  "list_all (\<lambda>c. p_ch c = BLANK_CHAR) (take xn cpu) \<Longrightarrow> length cpu = xn \<Longrightarrow> list_all is_blank (row_cells (cpu, gpu))"
  by (auto simp: list_all_iff row_cells_def is_blank_def dest!: set_zip_leftD)

lemma rewrap_inner_lines:
  assumes b: "lb_wf b" "0 < limit" "limit \<le> b_ynum b" and d: "lb_fresh xn yn h0 (other, hist)"
  shows "\<exists>w rs. rewrap_inner (linebuf_macros pool xn) b (other, hist) limit track = Some w
    \<and> lb_written xn yn h0 (w_dest w, w_dest_y w) rs \<and> text_of_rows rs = text_of_rows (take limit (bodies b))"
proof -
  obtain n where n: "b_xnum b = Suc n" using b by (cases "b_xnum b") (auto simp: lb_wf_def)
  obtain m where m: "xn = Suc m" using d by (cases xn) (auto simp: lb_fresh_def lb_wf_def)
  have "lb_has (Suc n) b (bodies b)" using b n by (simp add: lb_has_def)
  from line_buffers.rewrap_inner_text [OF this, where xn = m and yn = yn and ?h0.0 = h0 and d = "(other, hist)" and limit = limit and track = track and pool = pool] show ?thesis
    using b d unfolding m by auto
qed

lemma mark_rewrapped_frame:
  "bodies (mark_rewrapped n b) = bodies b" "lb_wf b \<Longrightarrow> lb_wf (mark_rewrapped n b)" "b_xnum (mark_rewrapped n b) = b_xnum b"
  "b_ynum (mark_rewrapped n b) = b_ynum b"
  by (auto simp: mark_rewrapped_def lb_wf_def rows_def row_body_row_of)

lemma linebuf_rewrap_text:
  assumes "lb_wf b" and "lb_fresh (b_xnum other) (b_ynum other) hist (other, hist)"
  shows "\<exists>r over. linebuf_rewrap pool b other hist p1 p2 = Some r
    \<and> lb_wf (rr_linebuf r) \<and> b_xnum (rr_linebuf r) = b_xnum other \<and> b_ynum (rr_linebuf r) = b_ynum other
    \<and> text_of_rows (over @ take (rr_after r) (bodies (rr_linebuf r))) = text_of_rows (take (rr_before r) (bodies b))
    \<and> list_all (\<lambda>l. list_all is_blank (row_cells l)) (drop (rr_before r) (bodies b))
    \<and> hist_got hist (rr_history r) over"
proof -
  have fresh: "lb_wf other" "hist_fits (b_xnum other) hist" using assms(2) by (simp_all add: lb_fresh_def)
  note len = lb_wf_row_lengths [OF assms(1)] lb_wf_map [OF assms(1)]
  have blank: "list_all (\<lambda>l. list_all is_blank (row_cells l)) (drop n (bodies b))"
    if "\<And>y. n \<le> y \<Longrightarrow> y < b_ynum b \<Longrightarrow> list_all (\<lambda>c. p_ch c = BLANK_CHAR) (take (b_xnum b) (b_cpu b ! (b_map b ! y)))" for n
    using that len
    by (subst list_all_length) (auto simp: nth_rows row_body_row_of intro!: blank_body)
  consider (fast) "b_xnum other = b_xnum b \<and> b_ynum other = b_ynum b"
    | (empty) "\<not> (b_xnum other = b_xnum b \<and> b_ynum other = b_ynum b)" "last_content_line b (b_ynum b) = None"
    | (some) f where "\<not> (b_xnum other = b_xnum b \<and> b_ynum other = b_ynum b)" "last_content_line b (b_ynum b) = Some f"
    by fastforce
  then show ?thesis
  proof cases
    case fast
    then have "lb_wf (linebuf_rewrap_fast b other)" "bodies (linebuf_rewrap_fast b other) = bodies b"
      using assms(1) by (auto simp: lb_wf_def linebuf_rewrap_fast_def rows_def row_body_row_of)
    moreover obtain r where "linebuf_rewrap pool b other hist p1 p2 = Some r" "rr_linebuf r = linebuf_rewrap_fast b other"
      "rr_history r = hist" "rr_before r = b_ynum b" "rr_after r = b_ynum b"
      using fast by (simp add: linebuf_rewrap_def)
    moreover have "b_xnum (linebuf_rewrap_fast b other) = b_xnum other" "b_ynum (linebuf_rewrap_fast b other) = b_ynum other" by (simp_all add: linebuf_rewrap_fast_def)
    ultimately show ?thesis using hist_got_start [OF fresh(2)] by (intro exI [of _ r] exI [of _ "[]"]) simp
  next
    case empty
    then obtain r where "linebuf_rewrap pool b other hist p1 p2 = Some r" "rr_linebuf r = other"
      "rr_history r = hist" "rr_before r = 0" "rr_after r = 0"
      by (simp add: linebuf_rewrap_def)
    then show ?thesis
      using hist_got_start [OF fresh(2)] fresh(1) blank [of 0] last_content_line_spec(1) [OF empty(2)]
      by (intro exI [of _ r] exI [of _ "[]"]) simp
  next
    case some
    have f: "f < b_ynum b" by (rule last_content_line_spec(2) [OF some(2)])
    define track where "track = [\<lparr>t_x = fst p1, t_y = snd p1, t_is_tracked_line = False\<rparr>,
        \<lparr>t_x = fst p2, t_y = snd p2, t_is_tracked_line = False\<rparr>]"
    obtain w rs where w: "rewrap_inner (linebuf_macros pool (b_xnum other)) b (other, hist) (f + 1) track = Some w"
      "lb_written (b_xnum other) (b_ynum other) hist (w_dest w, w_dest_y w) rs" "text_of_rows rs = text_of_rows (take (f + 1) (bodies b))"
      using rewrap_inner_lines [OF assms(1) _ _ assms(2), where limit = "f + 1" and pool = pool and track = track] f by auto
    obtain d h where d: "w_dest w = (d, h)" by force
    obtain over where o: "lb_wf d" "b_xnum d = b_xnum other" "b_ynum d = b_ynum other" "rs = over @ take (Suc (w_dest_y w)) (bodies d)" "hist_got hist h over"
      using w(2) by (auto simp: lb_written_def d)
    obtain r where r: "linebuf_rewrap pool b other hist p1 p2 = Some r"
      "rr_linebuf r = mark_rewrapped (w_dest_y w + 1) d" "rr_history r = h" "rr_before r = f + 1" "rr_after r = w_dest_y w + 1"
      using some w(1) d by (simp add: linebuf_rewrap_def track_def [symmetric] Let_def)
    show ?thesis
      unfolding r(1)
      by (intro exI [of _ r] exI [of _ over])
        (use r(2-5) o w(3) blank [of "f + 1"] last_content_line_spec(3) [OF some(2)] mark_rewrapped_frame
          in \<open>simp add: Suc_le_eq\<close>)
  qed
qed

lemma linebuf_new_fresh:
  "linebuf_new y x = Inr b \<Longrightarrow> hist_fits x h \<Longrightarrow> lb_fresh x y h (b, h) \<and> lb_wf b \<and> b_xnum b = x \<and> b_ynum b = y"
  by (auto simp: lb_fresh_def linebuf_new_def lb_wf_def list_all_iff rows_def row_body_row_of empty_cells_def split: if_splits)

text \<open>Three columns with a wrapped line, brought to two columns.\<close>

definition abc_line :: cell_line where
  "abc_line = \<lparr>l_cpu = map (\<lambda>c. zero_cpu_cell\<lparr>p_ch := c\<rparr>) [97, 98, 99],
     l_gpu = [zero_gpu_cell, zero_gpu_cell, cell_set_attrs (a_wrapped_update (\<lambda>_. True)) zero_gpu_cell],
     l_xnum = 3, l_ynum = 0, l_attrs = zero_line_attrs\<rparr>"

text \<open>
  C10: Rewrapping a line buffer into an empty one of any size returns, gives a well-formed buffer
  of that size, and keeps the text: the paragraphs of the lines handed to the history followed by
  the lines of the new buffer are those of the old one, cell by cell, except for trailing blanks;
  the lines left out were blank.
\<close>

theorem linebuf_rewrap_keeps_text:
  assumes "lb_wf b" and "lb_fresh (b_xnum other) (b_ynum other) hist (other, hist)"
  shows "\<exists>r over. linebuf_rewrap pool b other hist p1 p2 = Some r
    \<and> lb_wf (rr_linebuf r) \<and> b_xnum (rr_linebuf r) = b_xnum other \<and> b_ynum (rr_linebuf r) = b_ynum other
    \<and> text_of_rows (over @ take (rr_after r) (bodies (rr_linebuf r))) = text_of_rows (take (rr_before r) (bodies b))
    \<and> list_all (\<lambda>l. list_all is_blank (row_cells l)) (drop (rr_before r) (bodies b))
    \<and> hist_got hist (rr_history r) over"
  by (rule linebuf_rewrap_text [OF assms])

lemma linebuf_rewrap_keeps_text_witness:
  "\<exists>b other r over. linebuf_new 2 3 = Inr b \<and> linebuf_new 2 2 = Inr other
    \<and> linebuf_rewrap None (put_line b 0 abc_line) other None (0, 0) (1, 0) = Some r
    \<and> lb_wf (rr_linebuf r) \<and> b_xnum (rr_linebuf r) = 2
    \<and> text_of_rows (over @ take (rr_after r) (bodies (rr_linebuf r)))
        = text_of_rows (take (rr_before r) (bodies (put_line b 0 abc_line)))"
proof -
  obtain b other where n: "linebuf_new 2 3 = Inr b" "linebuf_new 2 2 = Inr other" by (simp add: linebuf_new_def)
  have b: "lb_wf b" "b_xnum b = 3" and f: "lb_fresh 2 2 None (other, None)" "b_xnum other = 2" "b_ynum other = 2"
    using linebuf_new_fresh [OF n(1), of None] linebuf_new_fresh [OF n(2), of None] by (simp_all add: hist_fits_def)
  have "lb_wf (put_line b 0 abc_line)" by (rule put_line_wf [OF b(1)]) (simp_all add: line_wf_def abc_line_def b(2))
  from linebuf_rewrap_keeps_text [OF this, of other None None "(0, 0)" "(1, 0)"] f n show ?thesis by auto
qed

section \<open>Examples\<close>

text \<open>
  Two lines of four columns, brought to two columns. A position in the first line is moved with its cell to the
  second line, and again when the second line of the source is copied, since its number is the one the position
  has now.
\<close>

definition blank_lines :: "nat \<Rightarrow> nat \<Rightarrow> line_buf" where
  "blank_lines yn xn = \<lparr>b_cpu = replicate yn (replicate xn zero_cpu_cell), b_gpu = replicate yn (replicate xn zero_gpu_cell),
     b_xnum = xn, b_ynum = yn, b_map = [0 ..< yn], b_attrs = replicate yn zero_line_attrs\<rparr>"

definition two_lines :: line_buf where
  "two_lines = put_line (put_line (blank_lines 4 4) 0 (letters 4 [1, 2, 3, 4])) 1 (letters 4 [5, 6, 7, 8])"

lemma rewrap_moves_position_twice:
  "map_option (\<lambda>r. (rr_track1 r, map (\<lambda>l. map p_ch (fst l)) (take (rr_after r) (bodies (rr_linebuf r)))))
     (linebuf_rewrap None two_lines (blank_lines 5 2) None (2, 0) (0, 0))
   = Some ((1, 3), [[1, 2], [3, 4], [5, 6], [7, 8]])"
  by code_simp

text \<open>The mark of a prompt comes twice when the line after a hard break is broken in two.\<close>

lemma rewrap_repeats_prompt_mark:
  "map_option (\<lambda>r. map la_prompt_kind (take (rr_after r) (b_attrs (rr_linebuf r))))
     (linebuf_rewrap None (update_line_attrs 1 (\<lambda>a. a\<lparr>la_prompt_kind := PROMPT_START\<rparr>) two_lines)
        (blank_lines 5 2) None (0, 0) (0, 0))
   = Some [UNKNOWN_PROMPT_KIND, UNKNOWN_PROMPT_KIND, PROMPT_START, PROMPT_START]"
  by code_simp

end
