(* ===== verification/Rewrap_History.thy ===== *)
theory Rewrap_History
  imports Rewrap
begin

text \<open>
  Rewrapping the history returns, and keeps its invariant. The lines of a history are not cleared
  when they are pushed, so the text is kept only until the buffer is full: an example shows what is
  left of an older line after that.
\<close>

section \<open>Rewrapping returns\<close>

text \<open>
  The weaker contract of a source and a destination: invariants of the two that the macros keep. With
  it the loops end, because every round of the inner one copies at least one cell.
\<close>

locale rewrap_returns =
  fixes M :: "('s, 'd) rewrap_macros" and ok_src :: "'s \<Rightarrow> bool" and start :: "'d \<Rightarrow> bool" and ok :: "'d \<times> nat \<Rightarrow> bool" and dx :: nat
  assumes dx: "m_dest_xnum M = dx" "0 < dx"
    and init: "ok_src s \<Longrightarrow> line_wf (m_init_src_line M s y)"
    and clear: "ok_src s \<Longrightarrow> ok_src (m_clear_wrapped M s y)"
    and first: "start d \<Longrightarrow> ok (fst (m_first M a d), 0)"
    and "next": "ok x \<Longrightarrow> ok (fst (m_next M c a x))"
    and copy: "ok (d, y) \<Longrightarrow> line_wf l \<Longrightarrow> src_x + num \<le> l_xnum l \<Longrightarrow> dest_x + num \<le> dx \<Longrightarrow>
      ok (m_copy_range M l src_x dest_x num (d, y), y)"
begin

definition good :: "('s, 'd) rewrap_state \<Rightarrow> bool" where
  "good w = (ok_src (w_src w) \<and> ok (w_dest w, w_dest_y w) \<and> w_dest_x w \<le> dx)"

lemma good_next: "good w \<Longrightarrow> good (next_dest_line M c w) \<and> w_dest_x (next_dest_line M c w) = 0"
  using "next" [of "(w_dest w, w_dest_y w)" c "w_attrs w"]
  by (auto simp: good_def next_dest_line_def split: prod.splits)

lemma copy_src_line_returns:
  assumes "good w" "line_wf l" "src_x \<le> l_xnum l" "limit \<le> l_xnum l"
  shows "\<exists>w'. copy_src_line M l limit src_x w = Some w' \<and> good w'"
  using assms(1,3)
proof (induction "limit - src_x" arbitrary: src_x w rule: less_induct)
  case less
  show ?case
  proof (cases "src_x < limit")
    case False
    then show ?thesis using less.prems by (simp add: copy_src_line.simps)
  next
    case True
    define w1 where "w1 = (if w_dest_x w \<ge> m_dest_xnum M then next_dest_line M True w else w)"
    define num where "num = min (l_xnum l - src_x) (m_dest_xnum M - w_dest_x w1)"
    define w2 where "w2 = w1\<lparr>w_dest := m_copy_range M l src_x (w_dest_x w1) num (w_dest w1, w_dest_y w1),
                 w_track := map (move_track src_x num (w_dest_x w1) (w_dest_y w1)) (w_track w1),
                 w_dest_x := w_dest_x w1 + num\<rparr>"
    have w1: "good w1" "w_dest_x w1 < dx" using good_next [OF less.prems(1)] less.prems(1) dx by (auto simp: w1_def good_def)
    have num: "0 < num" "src_x + num \<le> l_xnum l" "w_dest_x w1 + num \<le> dx"
      using True w1 assms dx by (auto simp: num_def)
    have "ok (w_dest w1, w_dest_y w1)" using w1 by (simp add: good_def)
    from copy [OF this assms(2) num(2,3)] have i2: "good w2" using w1 num by (simp add: w2_def good_def)
    have "limit - (src_x + num) < limit - src_x" using True num by simp
    from less.hyps [OF this i2 num(2)] obtain w' where "copy_src_line M l limit (src_x + num) w2 = Some w'" "good w'" by blast
    moreover have "copy_src_line M l limit src_x w = copy_src_line M l limit (src_x + num) w2"
      using True by (subst copy_src_line.simps) (simp add: Let_def w1_def [symmetric] num_def [symmetric] w2_def [symmetric])
    ultimately show ?thesis by simp
  qed
qed

lemma rewrap_line_returns:
  assumes "ok_src (w_src w)" and "if y = 0 then start (w_dest w) \<and> w_dest_y w = 0 \<and> w_dest_x w = 0 else good w"
  shows "\<exists>w'. rewrap_line M limit y w = Some w' \<and> good w'"
proof -
  define l where "l = m_init_src_line M (w_src w) y"
  define cont where "cont = is_src_line_continued l"
  define limit_x where "limit_x = (if cont then l_xnum l else strip_blank_from l (l_xnum l))"
  define l' where "l' = (if cont then clear_last_wrapped l else l)"
  define w1 where "w1 = w\<lparr>w_src := (if cont then m_clear_wrapped M (w_src w) y else w_src w),
                w_attrs := l_attrs l, w_track := map (clamp_track limit_x) (map (\<lambda>t. t\<lparr>t_is_tracked_line := (y = t_y t)\<rparr>) (w_track w))\<rparr>"
  define w2 where "w2 = (if y = 0 then (case m_first M (w_attrs w1) (w_dest w1) of (d, a) \<Rightarrow> w1\<lparr>w_dest := d, w_attrs := a\<rparr>) else w1)"
  have l: "line_wf l'" "limit_x \<le> l_xnum l'"
    using init [OF assms(1), of y] strip_blank_from_le [of l "l_xnum l"]
    by (auto simp: l'_def l_def line_wf_def clear_last_wrapped_def limit_x_def)
  have "good w2"
    using assms clear [OF assms(1)] first [of "w_dest w" "l_attrs l"]
    by (auto simp: w2_def w1_def good_def split: prod.splits if_splits)
  from copy_src_line_returns [OF this l(1) _ l(2), of 0] obtain w3 where
    w3: "copy_src_line M l' limit_x 0 w2 = Some w3" "good w3" by auto
  have "good (next_dest_line M False (w3\<lparr>w_attrs := a\<rparr>))" for a
    using good_next [of "w3\<lparr>w_attrs := a\<rparr>" False] w3(2) by (simp add: good_def)
  then show ?thesis
    using w3
    unfolding rewrap_line_def Let_def l_def [symmetric] cont_def [symmetric] limit_x_def [symmetric] l'_def [symmetric]
      w1_def [symmetric] w2_def [symmetric] by simp
qed

lemma rewrap_loop_returns:
  assumes "ok_src (w_src w)" and "if y = 0 then start (w_dest w) \<and> w_dest_y w = 0 \<and> w_dest_x w = 0 else good w"
  shows "\<exists>w'. rewrap_lines_loop M limit (Suc n) y w = Some w' \<and> good w'"
  using assms
proof (induction n arbitrary: y w)
  case 0
  from rewrap_line_returns [OF 0, of limit] obtain w' where "rewrap_line M limit y w = Some w'" "good w'" by blast
  then show ?case by simp
next
  case (Suc n)
  from rewrap_line_returns [OF Suc.prems, of limit] obtain w' where w': "rewrap_line M limit y w = Some w'" "good w'" by blast
  then have "\<exists>w''. rewrap_lines_loop M limit (Suc n) (Suc y) w' = Some w'' \<and> good w''"
    by (intro Suc.IH) (auto simp: good_def)
  then show ?case using w'(1) by simp
qed

theorem rewrap_inner_returns:
  assumes "ok_src s" "start d"
  shows "\<exists>w. rewrap_inner M s d limit track = Some w \<and> ok (w_dest w, w_dest_y w)"
proof -
  obtain n where n: "max 1 limit = Suc n" by (cases "max 1 limit") auto
  let ?w = "\<lparr>w_src = s, w_dest = d, w_dest_y = 0, w_dest_x = 0, w_attrs = zero_line_attrs, w_track = track\<rparr>"
  obtain w where "rewrap_lines_loop M limit (Suc n) 0 ?w = Some w" "good w"
    using rewrap_loop_returns [of ?w 0 limit n] assms by auto
  then show ?thesis unfolding rewrap_inner_def n good_def by blast
qed

end

section \<open>Histories\<close>

definition history_size :: "nat \<Rightarrow> nat \<Rightarrow> history_buf \<Rightarrow> bool" where
  "history_size xn yn h = (history_wf h \<and> h_xnum h = xn \<and> h_ynum h = yn)"

lemma history_size_put_row:
  "history_size xn yn h \<Longrightarrow> i < yn \<Longrightarrow> row_ok xn r \<Longrightarrow> history_size xn yn (put_row i r h)"
  by (auto simp: history_size_def history_wf_def row_at_put_row)

lemma history_size_row: "history_size xn yn h \<Longrightarrow> i < yn \<Longrightarrow> row_ok xn (row_at h i)"
  by (auto simp: history_size_def history_wf_def)

lemma history_size_attrs: "history_size xn yn h \<Longrightarrow> i < yn \<Longrightarrow> history_size xn yn (update_row_attrs i f h)"
  using history_size_row [of xn yn h i]
  by (auto simp: update_row_attrs_def row_ok_def split: prod.splits intro!: history_size_put_row)

lemma history_size_push:
  assumes "history_size xn yn h" "historybuf_push pool active h = (i, a, h')"
  shows "history_size xn yn h' \<and> i < yn"
proof -
  obtain p where p: "h' = h\<lparr>h_pagerhist := p, h_start_of_data := h_start_of_data h', h_count := h_count h'\<rparr>"
     "\<forall>ph. p = Some ph \<longrightarrow> ph_wf ph" "i = (h_start_of_data h + h_count h) mod h_ynum h"
     "h_count h' = min (h_count h + 1) (h_ynum h)"
     "h_start_of_data h' = (h_start_of_data h + (h_count h + 1 - h_ynum h)) mod h_ynum h"
    using historybuf_push_spec [of h pool active i a h'] assms by (auto simp: history_size_def)
  have "row_at h' y = row_at h y" "h_xnum h' = h_xnum h" "h_ynum h' = h_ynum h" "h_pagerhist h' = p" for y
    by (subst p(1), simp add: row_at_def)+
  then show ?thesis using assms(1) p(2-5) by (auto simp: history_size_def history_wf_def)
qed

lemma index_of_less: "history_size xn yn h \<Longrightarrow> index_of h y < yn"
  by (auto simp: index_of_def history_size_def history_wf_def)

lemma history_init_line_size: "history_size xn yn h \<Longrightarrow> i < yn \<Longrightarrow> line_wf (history_init_line h i) \<and> l_xnum (history_init_line h i) = xn"
  using history_size_row [of xn yn h i]
  by (auto simp: history_init_line_def line_wf_def row_ok_def history_size_def split: prod.splits)

definition hb_ok :: "nat \<Rightarrow> nat \<Rightarrow> hb_dest \<times> nat \<Rightarrow> bool" where
  "hb_ok xn yn x = (case x of ((h, active, i), y) \<Rightarrow> history_size xn yn h \<and> i < yn)"

lemma hb_next_ok: "history_size xn yn (fst (fst x)) \<Longrightarrow> hb_ok xn yn (fst (hb_next_dest_line pool c a x))"
proof -
  assume h: "history_size xn yn (fst (fst x))"
  obtain h active i y where x: "x = ((h, active, i), y)" by (metis surj_pair)
  let ?h = "history_buf_set_last_char_as_continuation h 0 c"
  have "history_size xn yn ?h"
    using h history_size_row [of xn yn h "index_of h 0"] index_of_less [of xn yn h 0]
    by (auto simp: x history_buf_set_last_char_as_continuation_def Let_def row_ok_def split: prod.splits intro!: history_size_put_row)
  then show ?thesis
    by (auto simp: x hb_next_dest_line_def hb_ok_def Let_def split: prod.splits dest: history_size_push intro: history_size_attrs)
qed

lemma hb_copy_ok:
  assumes h: "hb_ok xn yn (d, y)" and l: "line_wf l" "src_x + num \<le> l_xnum l" "dest_x + num \<le> xn"
  shows "hb_ok xn yn (hb_copy_range l src_x dest_x num (d, y), y)"
proof -
  obtain h active i where d: "d = (h, active, i)" by (metis surj_pair)
  have h: "history_size xn yn h" "i < yn" using h by (simp_all add: hb_ok_def d)
  have "length (l_cpu (history_init_line h i)) = xn" "length (l_gpu (history_init_line h i)) = xn"
    using history_init_line_size [OF h] by (simp_all add: line_wf_def)
  then have "row_ok xn (l_cpu (copy_range l src_x (history_init_line h i) dest_x num),
      l_gpu (copy_range l src_x (history_init_line h i) dest_x num), snd (snd (row_at h i)))"
    using l by (simp add: row_ok_def copy_range_def line_wf_def)
  from history_size_put_row [OF h this] h(2) show ?thesis by (simp add: hb_copy_range_def hb_ok_def d Let_def)
qed

interpretation histories: rewrap_returns "history_macros pool (Suc xn)" "\<lambda>h. history_size sx (Suc sy) h"
    "\<lambda>d :: hb_dest. history_size (Suc xn) (Suc yn) (fst d)" "hb_ok (Suc xn) (Suc yn)" "Suc xn" for pool xn yn sx sy
proof unfold_locales
  fix s y assume s: "history_size sx (Suc sy) s"
  let ?i = "(h_start_of_data s + y) mod h_ynum s"
  have i: "?i < Suc sy" using s by (simp add: history_size_def)
  note l = history_init_line_size [OF s i]
  show "line_wf (m_init_src_line (history_macros pool (Suc xn)) s y)" using l by (simp add: history_macros_def)
  show "history_size sx (Suc sy) (m_clear_wrapped (history_macros pool (Suc xn)) s y)"
    using l by (auto simp: history_macros_def Let_def row_ok_def clear_last_wrapped_def line_wf_def intro!: history_size_put_row [OF s i])
next
  fix d :: hb_dest and a assume "history_size (Suc xn) (Suc yn) (fst d)"
  then show "hb_ok (Suc xn) (Suc yn) (fst (m_first (history_macros pool (Suc xn)) a d), 0)"
    using hb_next_ok [of "Suc xn" "Suc yn" "(d, 0)" pool False a]
    by (auto simp: history_macros_def hb_ok_def split: prod.splits)
next
  fix x c a assume "hb_ok (Suc xn) (Suc yn) x"
  then show "hb_ok (Suc xn) (Suc yn) (fst (m_next (history_macros pool (Suc xn)) c a x))"
    using hb_next_ok [of "Suc xn" "Suc yn" x pool c a] by (auto simp: history_macros_def hb_ok_def split: prod.splits)
qed (simp_all add: history_macros_def hb_copy_ok)

lemma add_segments_frame: "history_size xn yn h \<Longrightarrow> history_size xn yn (add_segments n h)
    \<and> h_pagerhist (add_segments n h) = h_pagerhist h \<and> h_count (add_segments n h) = h_count h"
proof (induction n arbitrary: h)
  case (Suc n)
  have "history_size xn yn (add_segment h)"
    using Suc.prems by (auto simp: history_size_def history_wf_def add_segment_def row_at_def nth_append)
  from Suc.IH [OF this] show ?case by (simp add: add_segment_def)
qed simp

lemma mark_history_dirty_size:
  assumes "history_size xn yn h"
  shows "history_size xn yn (mark_history_dirty h)"
proof -
  let ?i = "\<lambda>i. (h_start_of_data h + i) mod h_ynum h"
  have "history_size xn yn (fold (\<lambda>i. update_row_attrs (?i i) (\<lambda>a. a\<lparr>la_has_dirty_text := True\<rparr>)) is g)"
    if "history_size xn yn g" for "is" g
    using that
  proof (induction "is" arbitrary: g)
    case (Cons i "is")
    have "history_size xn yn (update_row_attrs (?i i) (\<lambda>a. a\<lparr>la_has_dirty_text := True\<rparr>) g)"
      by (rule history_size_attrs [OF Cons.prems]) (use assms in \<open>auto simp: history_size_def history_wf_def\<close>)
    then show ?case using Cons.IH by simp
  qed simp
  then show ?thesis using assms by (simp add: mark_history_dirty_def)
qed

lemma historybuf_rewrap_ends:
  assumes "history_wf h" and "history_wf other"
  shows "\<exists>active' h'. historybuf_rewrap pool active h other = Some (active', h') \<and> history_wf h'
    \<and> h_xnum h' = h_xnum other \<and> h_ynum h' = h_ynum other"
proof -
  define o1 where "o1 = add_segments (num_segments h - num_segments other) other"
  obtain xn where xn: "h_xnum other = Suc xn" using assms(2) by (cases "h_xnum other") (auto simp: history_wf_def)
  obtain yn where yn: "h_ynum other = Suc yn" using assms(2) by (cases "h_ynum other") (auto simp: history_wf_def)
  obtain sy where sy: "h_ynum h = Suc sy" using assms(1) by (cases "h_ynum h") (auto simp: history_wf_def)
  have o1: "history_size (Suc xn) (Suc yn) o1"
    using add_segments_frame [of "Suc xn" "Suc yn" other] assms(2) xn yn by (simp add: o1_def history_size_def)
  then have num: "h_xnum o1 = Suc xn" "h_ynum o1 = Suc yn" by (simp_all add: history_size_def)
  show ?thesis
  proof (cases "h_xnum o1 = h_xnum h \<and> h_ynum o1 = h_ynum h")
    case True
    then have "history_size (Suc xn) (Suc yn) (historybuf_rewrap_fast h o1)"
      using o1 assms(1)
      by (auto simp: history_size_def history_wf_def historybuf_rewrap_fast_def row_at_def nth_append split: if_splits)
    then show ?thesis using True by (simp add: historybuf_rewrap_def o1_def [symmetric] history_size_def xn yn)
  next
    case False
    define o2 where "o2 = o1\<lparr>h_pagerhist := map_option (\<lambda>ph.
               if h_xnum o1 \<noteq> h_xnum h \<and> ringbuf_bytes_used (ph_ringbuf ph) \<noteq> 0
               then ph\<lparr>ph_rewrap_needed := True\<rparr> else ph) (h_pagerhist o1), h_count := 0, h_start_of_data := 0\<rparr>"
    have o2: "history_size (Suc xn) (Suc yn) o2"
      using o1 by (auto simp: o2_def history_size_def history_wf_def row_at_def ph_wf_def)
    have eq: "historybuf_rewrap pool active h other =
        (if h_count h > 0 then
           (case rewrap_inner (history_macros pool (h_xnum o2)) h (o2, active, 0) (h_count h) [] of
              None \<Rightarrow> None
            | Some w \<Rightarrow> (case w_dest w of (dest, active, idx) \<Rightarrow> Some (active, mark_history_dirty dest)))
         else Some (active, o2))"
      unfolding historybuf_rewrap_def o1_def [symmetric] Let_def if_not_P [OF False] o2_def [symmetric] ..
    show ?thesis
    proof (cases "h_count h > 0")
      case True
      have "history_size (h_xnum h) (Suc sy) h" using assms(1) sy by (simp add: history_size_def)
      from histories.rewrap_inner_returns [OF this, where xn = xn and yn = yn and d = "(o2, active, 0)" and pool = pool and limit = "h_count h" and track = "[]"]
      obtain w where w: "rewrap_inner (history_macros pool (Suc xn)) h (o2, active, 0) (h_count h) [] = Some w"
        "hb_ok (Suc xn) (Suc yn) (w_dest w, w_dest_y w)" using o2 by auto
      obtain d a i where d: "w_dest w = (d, a, i)" by (metis surj_pair)
      have "history_size (Suc xn) (Suc yn) (mark_history_dirty d)"
        using w(2) by (intro mark_history_dirty_size) (simp add: hb_ok_def d)
      moreover have "h_xnum o2 = Suc xn" using o2 by (simp add: history_size_def)
      ultimately show ?thesis using True w(1) d unfolding eq by (simp add: history_size_def xn yn)
    next
      case no: False
      then show ?thesis using o2 unfolding eq by (simp add: history_size_def xn yn)
    qed
  qed
qed

section \<open>An example\<close>

text \<open>Three lines of four columns that all end with a hard break.\<close>

definition add_letters :: "nat list \<Rightarrow> history_buf \<Rightarrow> history_buf" where
  "add_letters cs h = snd (historybuf_add_line None 0 (letters (length cs) cs) h)"

definition three_lines :: "nat list list \<Rightarrow> history_buf" where
  "three_lines xs = fold add_letters xs \<lparr>h_xnum = length (hd xs), h_ynum = 3, h_rows = replicate 3 (zero_row (length (hd xs))),
     h_pagerhist = None, h_start_of_data = 0, h_count = 0\<rparr>"

definition history_chars :: "history_buf \<Rightarrow> char_type list list" where
  "history_chars h = map (\<lambda>r. map p_ch (fst r)) (h_lines h)"

text \<open>
  In a history of three lines of three columns they need four lines, so the ring starts over. The line that is
  then used again is not cleared: its old cells come back behind the new ones.
\<close>

lemma rewrap_brings_old_cells_back:
  "history_chars (three_lines [[1, 2, 3, 4], [5, 6, 7, 8], [9, 10, 11, 12]]) = [[1, 2, 3, 4], [5, 6, 7, 8], [9, 10, 11, 12]]"
  "map_option (history_chars \<circ> snd) (historybuf_rewrap None 0 (three_lines [[1, 2, 3, 4], [5, 6, 7, 8], [9, 10, 11, 12]])
     (three_lines [[0, 0, 0]]\<lparr>h_count := 0\<rparr>)) = Some [[8, 2, 3], [9, 10, 11], [12, 6, 7]]"
  by code_simp+

theorem historybuf_rewrap_returns:
  assumes "history_wf h" and "history_wf other"
  shows "\<exists>active' h'. historybuf_rewrap pool active h other = Some (active', h') \<and> history_wf h'
    \<and> h_xnum h' = h_xnum other \<and> h_ynum h' = h_ynum other"
  by (rule historybuf_rewrap_ends [OF assms])

lemma historybuf_rewrap_returns_witness:
  "\<exists>active' h'. historybuf_rewrap None 0 \<lparr>h_xnum = 4, h_ynum = 3, h_rows = [], h_pagerhist = None, h_start_of_data = 0, h_count = 2\<rparr>
     \<lparr>h_xnum = 3, h_ynum = 3, h_rows = [], h_pagerhist = None, h_start_of_data = 0, h_count = 0\<rparr> = Some (active', h') \<and> history_wf h'
    \<and> h_xnum h' = 3 \<and> h_ynum h' = 3"
  using historybuf_rewrap_returns
    [of "\<lparr>h_xnum = 4, h_ynum = 3, h_rows = [], h_pagerhist = None, h_start_of_data = 0, h_count = 2\<rparr>"
        "\<lparr>h_xnum = 3, h_ynum = 3, h_rows = [], h_pagerhist = None, h_start_of_data = 0, h_count = 0\<rparr>" None 0]
  by (simp add: history_wf_def row_at_def)

end
