(* ===== verification/Screen_Resize.thy ===== *)
theory Screen_Resize
  imports Screen_Scroll Rewrap_Lines Rewrap_History
begin

text \<open>
  Changing the size of the screen, \<^verbatim>\<open>screen_resize\<close> of \<^verbatim>\<open>smelly/screen.c\<close>: the history and the two line
  buffers are fitted to the new width, the cursors follow their cells, and the window may be filled from
  the history. It returns, and the screen is well formed for the new size. When the new size is
  refused the history has already been replaced.
\<close>

section \<open>The operations\<close>

definition realloc_hb ::
  "hyperlink_keys option \<Rightarrow> hyperlink_id_type \<Rightarrow> history_buf \<Rightarrow> nat \<Rightarrow> nat \<Rightarrow> (py_error + hyperlink_id_type \<times> history_buf) option" where
  "realloc_hb pool active old lines columns =
     (case create_historybuf columns lines 0 of
        Inl err \<Rightarrow> Some (Inl err)
      | Inr ans \<Rightarrow> map_option Inr (historybuf_rewrap pool active old (ans\<lparr>h_pagerhist := h_pagerhist old\<rparr>)))"

record cursor_track =
  ct_num_content_lines :: nat
  ct_is_beyond_content :: bool
  ct_before :: "nat \<times> nat"
  ct_after :: "nat \<times> nat"
  ct_temp :: "nat \<times> nat"

definition track_from :: "cursor \<Rightarrow> cursor_track" where
  "track_from c = \<lparr>ct_num_content_lines = 0, ct_is_beyond_content = False, ct_before = (c_x c, c_y c),
     ct_after = (0, 0), ct_temp = (0, 0)\<rparr>"

definition realloc_lb ::
  "hyperlink_keys option \<Rightarrow> line_buf \<Rightarrow> nat \<Rightarrow> nat \<Rightarrow> (hyperlink_id_type \<times> history_buf) option
   \<Rightarrow> cursor_track \<Rightarrow> cursor_track \<Rightarrow> (py_error + rewrap_result \<times> cursor_track \<times> cursor_track) option" where
  "realloc_lb pool old lines columns hb a b =
     (case linebuf_new lines columns of
        Inl err \<Rightarrow> Some (Inl err)
      | Inr ans \<Rightarrow>
          (case linebuf_rewrap pool old ans hb (ct_before a) (ct_before b) of
             None \<Rightarrow> None
           | Some r \<Rightarrow> Some (Inr (r, a\<lparr>ct_temp := rr_track1 r\<rparr>, b\<lparr>ct_temp := rr_track2 r\<rparr>))))"

definition setup_cursor :: "nat \<Rightarrow> rewrap_result \<Rightarrow> cursor_track \<Rightarrow> cursor_track" where
  "setup_cursor y r t =
     t\<lparr>ct_after := ct_temp t, ct_is_beyond_content := (rr_before r > 0 \<and> y \<ge> rr_before r),
       ct_num_content_lines := rr_after r\<rparr>"

definition set_first_char :: "char_type \<Rightarrow> cell_line \<Rightarrow> cell_line" where
  "set_first_char c l = l\<lparr>l_cpu := (l_cpu l)[0 := (l_cpu l ! 0)\<lparr>p_ch := c\<rparr>]\<rparr>"

text \<open>The search of the prompt at or above line \<open>y\<close>.\<close>

fun find_prompt_line :: "line_buf \<Rightarrow> nat \<Rightarrow> nat option" where
  "find_prompt_line b y =
     (case la_prompt_kind (l_attrs (linebuf_init_line b y)) of
        UNKNOWN_PROMPT_KIND \<Rightarrow> (case y of 0 \<Rightarrow> None | Suc y \<Rightarrow> find_prompt_line b y)
      | OUTPUT_START \<Rightarrow> None
      | _ \<Rightarrow> Some y)"

text \<open>\<open>n\<close> lines from \<open>y\<close> on are cleared; those up to the cursor get a space.\<close>

fun blank_prompt_lines :: "nat \<Rightarrow> nat \<Rightarrow> nat \<Rightarrow> line_buf \<Rightarrow> line_buf" where
  "blank_prompt_lines cursor_y 0 y b = b"
| "blank_prompt_lines cursor_y (Suc n) y b =
     (let b = linebuf_clear_line b y False;
          b = (if y \<le> cursor_y then put_line b y (set_first_char 32 (linebuf_init_line b y)) else b)
      in blank_prompt_lines cursor_y n (y + 1) b)"

definition prevent_current_prompt_from_rewrapping :: "screen \<Rightarrow> screen" where
  "prevent_current_prompt_from_rewrapping s =
     (if \<not> s_redraws_prompts s then s
      else case find_prompt_line (s_main_linebuf s) (cy s) of
             None \<Rightarrow> s
           | Some y \<Rightarrow> s\<lparr>s_main_linebuf :=
               blank_prompt_lines (cy s) (b_ynum (s_main_linebuf s) - y) y (s_main_linebuf s)\<rparr>)"

text \<open>A blank line where output starts gets a character, so that it is not taken for an empty line.\<close>

definition insert_dummy_output :: "screen \<Rightarrow> bool \<times> screen" where
  "insert_dummy_output s =
     (if s_on_main s \<and> cx s = 0 \<and> cy s < s_lines s \<and> la_prompt_kind (b_attrs (s_linebuf s) ! cy s) = OUTPUT_START
         \<and> line_ch (linebuf_init_line (s_linebuf s) (cy s)) 0 = 0
      then (True, set_cursor 1 (cy s) (edit_line (set_first_char 60) (cy s) s))
      else (False, s))"

definition remove_dummy_output :: "bool \<Rightarrow> screen \<Rightarrow> screen" where
  "remove_dummy_output inserted s =
     (if inserted \<and> cy s < s_lines s then set_cursor 0 (cy s) (edit_line (set_first_char 0) (cy s) s) else s)"

text \<open>The macro \<^verbatim>\<open>S\<close>.\<close>

definition place_cursor :: "nat \<Rightarrow> nat \<Rightarrow> cursor_track \<Rightarrow> cursor \<Rightarrow> cursor" where
  "place_cursor lines columns t c = c\<lparr>c_x := min (fst (ct_after t)) (columns - 1), c_y := min (snd (ct_after t)) (lines - 1)\<rparr>"

definition place_beyond_content :: "cursor_track \<Rightarrow> screen \<Rightarrow> screen" where
  "place_beyond_content t s =
     (if ct_is_beyond_content t then
        (if ct_num_content_lines t \<ge> s_lines s then screen_index (set_cursor (cx s) (s_lines s - 1) s)
         else set_cursor (cx s) (ct_num_content_lines t) s)
      else s)"

text \<open>Filling the window from the history: \<open>None\<close> when there is nothing left.\<close>

definition fill_step :: "screen \<Rightarrow> screen option" where
  "fill_step s =
     (case historybuf_pop_line (s_historybuf s) of
        None \<Rightarrow> None
      | Some (l, h) \<Rightarrow>
          (let s = index_down 0 (s_lines s - 1) (s\<lparr>s_historybuf := h\<rparr>);
               s = s\<lparr>s_main_linebuf := linebuf_copy_line_to (s_main_linebuf s) l 0\<rparr>;
               s = set_cursor (cx s) (cy s + 1) s;
               sp = s_main_savepoint s; c = sp_cursor sp
           in Some (s\<lparr>s_main_savepoint := sp\<lparr>sp_cursor := c\<lparr>c_y := min (c_y c + 1) (s_lines s - 1)\<rparr>\<rparr>\<rparr>)))"

lemma fill_step_frame:
  "fill_step s = Some t \<Longrightarrow> cy t = cy s + 1 \<and> s_lines t = s_lines s \<and> s_columns t = s_columns s"
  by (auto simp: fill_step_def Let_def set_cursor_def split: option.splits)

function fill_enlarged_window :: "nat \<Rightarrow> screen \<Rightarrow> screen" where
  "fill_enlarged_window lines_after s =
     (if cy s + 1 < s_lines s \<and> s_lines s - cy s > lines_after then
        (case fill_step s of None \<Rightarrow> s | Some s \<Rightarrow> fill_enlarged_window lines_after s)
      else s)"
  by pat_completeness auto
termination
  by (relation "measure (\<lambda>(n, s). s_lines s - cy s)") (auto dest: fill_step_frame)

declare fill_enlarged_window.simps [simp del]

text \<open>From the two new buffers on.\<close>

definition set_size :: "nat \<Rightarrow> nat \<Rightarrow> screen \<Rightarrow> screen" where
  "set_size lines columns s =
     s\<lparr>s_lines := lines, s_columns := columns, s_margin_top := 0, s_margin_bottom := lines - 1,
       s_main_tabstops := init_tabstops columns, s_alt_tabstops := init_tabstops columns, s_tabs_main := True,
       s_is_dirty := True, s_selections := clear_selection (s_selections s),
       s_url_ranges := clear_selection (s_url_ranges s),
       s_last_visited_prompt := (s_last_visited_prompt s)\<lparr>vp_is_set := False\<rparr>\<rparr>"

definition place_cursors :: "cursor_track \<Rightarrow> cursor_track \<Rightarrow> cursor_track \<Rightarrow> screen \<Rightarrow> screen" where
  "place_cursors t main_saved alt_saved s =
     (let place = place_cursor (s_lines s) (s_columns s) in
      s\<lparr>s_cursor := place t (s_cursor s),
        s_main_savepoint := (s_main_savepoint s)\<lparr>sp_cursor := place main_saved (sp_cursor (s_main_savepoint s))\<rparr>,
        s_alt_savepoint := (s_alt_savepoint s)\<lparr>sp_cursor := place alt_saved (sp_cursor (s_alt_savepoint s))\<rparr>\<rparr>)"

text \<open>What follows the new buffers.\<close>

definition finish_resize :: "bool \<Rightarrow> nat \<Rightarrow> bool \<Rightarrow> cursor_track \<Rightarrow> screen \<Rightarrow> screen" where
  "finish_resize is_main lines_after dummy t s =
     (let s = place_beyond_content t s
      in remove_dummy_output dummy (if is_main \<and> e_fill_enlarged_window (s_env s) then fill_enlarged_window lines_after s else s))"

text \<open>The alternate line buffer, and the rest. The function returns the first component; \<open>None\<close> would be a run that does not end.\<close>

definition resize_alt ::
  "hyperlink_keys option \<Rightarrow> nat \<Rightarrow> nat \<Rightarrow> bool \<Rightarrow> nat \<Rightarrow> bool \<Rightarrow> cursor_track \<Rightarrow> cursor_track \<Rightarrow> cursor_track
   \<Rightarrow> screen \<Rightarrow> (bool \<times> screen) option" where
  "resize_alt pool lines columns is_main lines_after dummy t main_saved alt_saved s =
     (case realloc_lb pool (s_alt_linebuf s) lines columns None t alt_saved of
        None \<Rightarrow> None
      | Some (Inl _) \<Rightarrow> Some (False, s)
      | Some (Inr (r, t, alt_saved)) \<Rightarrow>
          (let s = s\<lparr>s_alt_linebuf := rr_linebuf r\<rparr>;
               t = (if \<not> is_main then setup_cursor (cy s) r t else t);
               alt_saved = setup_cursor (cy s) r alt_saved;
               s = emit (Grman_resize False (s_lines s) lines (s_columns s) columns) s;
               s = place_cursors t main_saved alt_saved (set_size lines columns s)
           in Some (True, finish_resize is_main lines_after dummy t s)))"

text \<open>The main line buffer; the lines that no longer fit go to the history.\<close>

definition resize_main ::
  "hyperlink_keys option \<Rightarrow> nat \<Rightarrow> nat \<Rightarrow> bool \<Rightarrow> nat \<Rightarrow> bool \<Rightarrow> cursor_track \<Rightarrow> cursor_track \<Rightarrow> cursor_track
   \<Rightarrow> screen \<Rightarrow> (bool \<times> screen) option" where
  "resize_main pool lines columns is_main lines_after dummy t main_saved alt_saved s =
     (case realloc_lb pool (s_main_linebuf s) lines columns (Some (s_ansi_active s, s_historybuf s)) t main_saved of
        None \<Rightarrow> None
      | Some (Inl _) \<Rightarrow> Some (False, s)
      | Some (Inr (r, t, main_saved)) \<Rightarrow>
          (let (active, nh) = (case rr_history r of Some p \<Rightarrow> p | None \<Rightarrow> (s_ansi_active s, s_historybuf s));
               s = s\<lparr>s_main_linebuf := rr_linebuf r, s_historybuf := nh, s_ansi_active := active\<rparr>;
               t = (if is_main then setup_cursor (cy s) r t else t);
               main_saved = setup_cursor (cy s) r main_saved;
               s = emit (Grman_resize True (s_lines s) lines (s_columns s) columns) s
           in resize_alt pool lines columns is_main lines_after dummy t main_saved alt_saved s))"

definition screen_resize :: "nat \<Rightarrow> nat \<Rightarrow> screen \<Rightarrow> (bool \<times> screen) option" where
  "screen_resize lines columns s =
     (let lines = max 1 lines; columns = max 1 columns;
          pool = Some (pool_keys (s_pool s));
          is_main = s_on_main s;
          (dummy, s) = insert_dummy_output s;
          lines_after = s_lines s - cy s;
          t = track_from (s_cursor s);
          main_saved = track_from (sp_cursor (s_main_savepoint s));
          alt_saved = track_from (sp_cursor (s_alt_savepoint s))
      in case realloc_hb pool (s_ansi_active s) (s_historybuf s) (h_ynum (s_historybuf s)) columns of
           None \<Rightarrow> None
         | Some (Inl _) \<Rightarrow> Some (False, s)
         | Some (Inr (active, nh)) \<Rightarrow>
             (let s = s\<lparr>s_historybuf := nh, s_ansi_active := active\<rparr>;
                  s = (if is_main then prevent_current_prompt_from_rewrapping s else s)
              in resize_main pool lines columns is_main lines_after dummy t main_saved alt_saved s))"

section \<open>The pieces keep the buffers well formed\<close>

lemma set_first_char_wf: "line_wf l \<Longrightarrow> line_wf (set_first_char c l) \<and> l_xnum (set_first_char c l) = l_xnum l"
  by (simp add: line_wf_def set_first_char_def)

lemma edit_first_char_wf: "screen_wf s \<Longrightarrow> y < s_lines s \<Longrightarrow> screen_wf (edit_line (set_first_char c) y s)"
  by (rule edit_line_wf) (simp_all add: set_first_char_wf)

lemma insert_dummy_output_wf:
  assumes "screen_wf s" "insert_dummy_output s = (d, t)"
  shows "screen_wf t" "s_on_main t = s_on_main s" "s_lines t = s_lines s" "s_columns t = s_columns s" "s_env t = s_env s"
proof -
  have "screen_wf (set_cursor 1 (cy s) (edit_line (set_first_char 60) (cy s) s))"
    using assms(1) by (intro set_cursor_wf edit_first_char_wf) (simp_all add: wf_bounds order_trans [OF _ wf_bounds(1)])
  then show "screen_wf t" using assms by (auto simp: insert_dummy_output_def split: if_splits)
  show "s_on_main t = s_on_main s" "s_lines t = s_lines s" "s_columns t = s_columns s" "s_env t = s_env s"
    using assms(2) by (auto simp: insert_dummy_output_def set_cursor_def split: if_splits)
qed

lemma remove_dummy_output_wf: "screen_wf s \<Longrightarrow> screen_wf (remove_dummy_output d s)"
  by (simp add: remove_dummy_output_def set_cursor_wf edit_first_char_wf)

lemma remove_dummy_output_size: "s_lines (remove_dummy_output d s) = s_lines s \<and> s_columns (remove_dummy_output d s) = s_columns s"
  by (simp add: remove_dummy_output_def set_cursor_def)

lemma blank_prompt_lines_size: "lb_size c n b \<Longrightarrow> y + k \<le> n \<Longrightarrow> lb_size c n (blank_prompt_lines cursor_y k y b)"
proof (induction k arbitrary: y b)
  case (Suc k)
  let ?b = "linebuf_clear_line b y False"
  have b: "lb_size c n ?b"
    using Suc.prems(1) linebuf_clear_line_wf [of b y False] by (simp add: lb_size_def) (simp add: linebuf_clear_line_def)
  have y: "y < n" using Suc.prems by simp
  have l: "line_wf (linebuf_init_line ?b y)" using b y by (simp add: lb_size_def linebuf_init_line_wf)
  have "lb_size c n (put_line ?b y (set_first_char 32 (linebuf_init_line ?b y)))"
    using b set_first_char_wf [OF l, of 32] by (simp add: lb_size_def put_line_wf) (simp add: put_line_def)
  then show ?case using Suc.prems b by (auto simp: Let_def intro!: Suc.IH)
qed simp

declare find_prompt_line.simps [simp del]

lemma find_prompt_line_le: "find_prompt_line b y = Some k \<Longrightarrow> k \<le> y"
proof (induction y)
  case 0
  then show ?case by (subst (asm) find_prompt_line.simps) (auto split: prompt_kind.splits)
next
  case (Suc y)
  from Suc.prems show ?case
    by (subst (asm) find_prompt_line.simps) (auto split: prompt_kind.splits dest: Suc.IH)
qed

lemma prevent_rewrapping_size:
  assumes "lb_size c (s_lines s) (s_main_linebuf s)" "cy s < s_lines s"
  shows "lb_size c (s_lines s) (s_main_linebuf (prevent_current_prompt_from_rewrapping s))"
    "\<exists>b. prevent_current_prompt_from_rewrapping s = s\<lparr>s_main_linebuf := b\<rparr>"
proof -
  show "\<exists>b. prevent_current_prompt_from_rewrapping s = s\<lparr>s_main_linebuf := b\<rparr>"
    by (cases "\<not> s_redraws_prompts s"; cases "find_prompt_line (s_main_linebuf s) (cy s)")
      (auto simp: prevent_current_prompt_from_rewrapping_def intro: exI [of _ "s_main_linebuf s"])
  have "lb_size c (s_lines s) (blank_prompt_lines (cy s) (s_lines s - y) y (s_main_linebuf s))"
    if "find_prompt_line (s_main_linebuf s) (cy s) = Some y" for y
    using find_prompt_line_le [OF that] assms by (intro blank_prompt_lines_size) simp_all
  then show "lb_size c (s_lines s) (s_main_linebuf (prevent_current_prompt_from_rewrapping s))"
    using assms by (auto simp: prevent_current_prompt_from_rewrapping_def lb_size_def split: option.splits)
qed

lemma realloc_hb_returns:
  assumes "history_wf old" "0 < lines" "0 < columns"
  shows "\<exists>a h. realloc_hb pool active old lines columns = Some (Inr (a, h)) \<and> history_wf h \<and> h_xnum h = columns \<and> h_ynum h = lines"
proof -
  obtain ans where c: "create_historybuf columns lines 0 = Inr ans" "h_xnum ans = columns" "h_ynum ans = lines"
    using assms by (simp add: create_historybuf_def add_segment_def)
  have "history_wf (ans\<lparr>h_pagerhist := h_pagerhist old\<rparr>)"
    using create_historybuf_wf [OF c(1)] assms(1) by (auto simp: history_wf_def row_at_def)
  from historybuf_rewrap_ends [OF assms(1) this, of pool active] c show ?thesis by (auto simp: realloc_hb_def)
qed

lemma realloc_lb_returns:
  assumes "lb_wf old" "hist_fits columns hb" "0 < lines" "lines \<le> 50000" "0 < columns" "columns \<le> 5000"
  shows "\<exists>r over ta tb. realloc_lb pool old lines columns hb a b = Some (Inr (r, ta, tb))
    \<and> lb_size columns lines (rr_linebuf r) \<and> hist_got hb (rr_history r) over"
proof -
  obtain ans where c: "linebuf_new lines columns = Inr ans" using assms by (simp add: linebuf_new_def)
  note f = linebuf_new_fresh [OF c assms(2)]
  obtain r over where r: "linebuf_rewrap pool old ans hb (ct_before a) (ct_before b) = Some r" "lb_wf (rr_linebuf r)"
    "b_xnum (rr_linebuf r) = columns" "b_ynum (rr_linebuf r) = lines" "hist_got hb (rr_history r) over"
    using linebuf_rewrap_text [OF assms(1), of ans hb pool "ct_before a" "ct_before b"] f by auto
  then show ?thesis by (auto simp: realloc_lb_def c lb_size_def)
qed

lemma resized_wf:
  assumes "screen_wf s" "2 \<le> c" "c \<le> 5000" "1 \<le> n" "n \<le> 50000" "lb_size c n m" "lb_size c n al" "history_wf h" "h_xnum h = c"
  shows "screen_wf (place_cursors t ms as (set_size n c
    (s\<lparr>s_main_linebuf := m, s_historybuf := h, s_ansi_active := a, s_alt_linebuf := al, s_log := l\<rparr>)))"
  using assms by (auto simp: screen_wf_def place_cursors_def place_cursor_def Let_def set_size_def savepoint_ok_def)

lemma place_cursors_frame:
  "s_lines (place_cursors t ms as (set_size n c s)) = n" "s_columns (place_cursors t ms as (set_size n c s)) = c"
  "s_env (place_cursors t ms as (set_size n c s)) = s_env s"
  by (simp_all add: place_cursors_def set_size_def Let_def)

lemma place_beyond_content_wf:
  "screen_wf s \<Longrightarrow> screen_wf (place_beyond_content t s)"
  "s_lines (place_beyond_content t s) = s_lines s" "s_columns (place_beyond_content t s) = s_columns s"
proof -
  assume s: "screen_wf s"
  note b = wf_bounds [OF s]
  show "screen_wf (place_beyond_content t s)"
    using s b by (simp add: place_beyond_content_def set_cursor_wf screen_index_wf)
qed (simp_all add: place_beyond_content_def set_cursor_def)

lemma savepoint_cursor_wf: "screen_wf s \<Longrightarrow> screen_wf (s\<lparr>s_main_savepoint := (s_main_savepoint s)\<lparr>sp_cursor := c\<rparr>\<rparr>)"
  by (simp add: screen_wf_def savepoint_ok_def)

lemma fill_step_wf: "screen_wf s \<Longrightarrow> cy s + 1 < s_lines s \<Longrightarrow> fill_step s = Some t \<Longrightarrow> screen_wf t"
proof -
  assume s: "screen_wf s" and y: "cy s + 1 < s_lines s" and t: "fill_step s = Some t"
  obtain l h where p: "historybuf_pop_line (s_historybuf s) = Some (l, h)" using t by (auto simp: fill_step_def split: option.splits)
  define u where "u = reverse_scroll_step True 0 (s_lines s - 1) s"
  have u: "screen_wf u" unfolding u_def by (rule reverse_scroll_step_wf [OF s])
  have fr: "s_cursor u = s_cursor s" "s_lines u = s_lines s" by (simp_all add: u_def reverse_scroll_step_def p Let_def)
  define v where "v = set_cursor (cx u) (cy u + 1) u"
  have v: "screen_wf v" unfolding v_def using u y fr wf_bounds(6) [OF u] by (intro set_cursor_wf) simp_all
  have "\<exists>c. t = v\<lparr>s_main_savepoint := (s_main_savepoint v)\<lparr>sp_cursor := c\<rparr>\<rparr>"
    using t unfolding fill_step_def p v_def u_def reverse_scroll_step_def Let_def by auto
  then show "screen_wf t" using savepoint_cursor_wf [OF v] by blast
qed

lemma fill_enlarged_window_wf:
  "screen_wf s \<Longrightarrow> screen_wf (fill_enlarged_window n s) \<and> s_lines (fill_enlarged_window n s) = s_lines s
    \<and> s_columns (fill_enlarged_window n s) = s_columns s"
proof (induction n s rule: fill_enlarged_window.induct)
  case (1 n s)
  show ?case
  proof (cases "(cy s + 1 < s_lines s \<and> s_lines s - cy s > n) \<and> fill_step s \<noteq> None")
    case True
    then obtain t where t: "fill_step s = Some t" by auto
    have "screen_wf t" using fill_step_wf [OF "1.prems" _ t] True by simp
    from "1.IH" [OF _ t this] True fill_step_frame [OF t] show ?thesis
      using t by (subst (1 2 3) fill_enlarged_window.simps) simp
  next
    case False
    then show ?thesis using "1.prems" by (subst (1 2 3) fill_enlarged_window.simps) (auto split: option.splits)
  qed
qed

section \<open>The whole operation\<close>

lemma finish_resize_wf:
  "screen_wf s \<Longrightarrow> screen_wf (finish_resize is_main n dummy t s) \<and> s_lines (finish_resize is_main n dummy t s) = s_lines s
    \<and> s_columns (finish_resize is_main n dummy t s) = s_columns s"
  using fill_enlarged_window_wf [OF place_beyond_content_wf(1), of s n t]
  by (simp add: finish_resize_def Let_def remove_dummy_output_wf remove_dummy_output_size place_beyond_content_wf)

lemma screen_resize_ends:
  assumes wf: "screen_wf s" and size: "2 \<le> columns" "columns \<le> 5000" "lines \<le> 50000"
  shows "\<exists>t. screen_resize lines columns s = Some (True, t) \<and> screen_wf t \<and> s_lines t = max 1 lines \<and> s_columns t = columns"
proof -
  define n where "n = max 1 lines"
  have n: "1 \<le> n" "n \<le> 50000" "max 1 columns = columns" using size by (simp_all add: n_def)
  obtain d s1 where d: "insert_dummy_output s = (d, s1)" by force
  note s1 = insert_dummy_output_wf [OF wf d]
  have h1: "history_wf (s_historybuf s1)" "lb_size (s_columns s1) (s_lines s1) (s_main_linebuf s1)" "cy s1 < s_lines s1"
    "lb_size (s_columns s1) (s_lines s1) (s_alt_linebuf s1)" using s1(1) by (simp_all add: screen_wf_def)
  define pool where "pool = Some (pool_keys (s_pool s))"
  have hy: "0 < h_ynum (s_historybuf s1)" using h1(1) by (simp add: history_wf_def)
  from realloc_hb_returns [OF h1(1) this, of columns pool "s_ansi_active s1"] size obtain a2 nh where
    hb: "realloc_hb pool (s_ansi_active s1) (s_historybuf s1) (h_ynum (s_historybuf s1)) columns = Some (Inr (a2, nh))"
      "history_wf nh" "h_xnum nh = columns" by auto
  define s2 where "s2 = s1\<lparr>s_historybuf := nh, s_ansi_active := a2\<rparr>"
  define s3 where "s3 = (if s_on_main s then prevent_current_prompt_from_rewrapping s2 else s2)"
  have s2: "s_lines s2 = s_lines s1" "cy s2 < s_lines s2" "lb_size (s_columns s1) (s_lines s2) (s_main_linebuf s2)"
    using h1 by (simp_all add: s2_def)
  have "\<exists>m. s3 = s2\<lparr>s_main_linebuf := m\<rparr> \<and> lb_wf m"
    using prevent_rewrapping_size [OF s2(3,2)] s2(3)
    by (cases "s_on_main s") (auto simp: s3_def lb_size_def intro: exI [of _ "s_main_linebuf s2"])
  then obtain m3 where s3: "s3 = s2\<lparr>s_main_linebuf := m3\<rparr>" "lb_wf m3" by blast
  let ?t = "track_from (s_cursor s1)" and ?m = "track_from (sp_cursor (s_main_savepoint s1))"
    and ?a = "track_from (sp_cursor (s_alt_savepoint s1))"
  have fits: "hist_fits columns (Some (a2, nh))" "hist_fits columns None" using hb by (simp_all add: hist_fits_def)
  from realloc_lb_returns [OF s3(2) fits(1), of n pool ?t ?m] n size obtain r over t1 m1 where
    r: "realloc_lb pool m3 n columns (Some (a2, nh)) ?t ?m = Some (Inr (r, t1, m1))" "lb_size columns n (rr_linebuf r)"
      "hist_got (Some (a2, nh)) (rr_history r) over" by fastforce
  obtain a4 h4 where h4: "rr_history r = Some (a4, h4)" "history_wf h4" "h_xnum h4 = columns"
    using r(3) hb by (auto simp: hist_got_def split: option.splits)
  define t2 where "t2 = (if s_on_main s then setup_cursor (cy s1) r t1 else t1)"
  have al: "lb_wf (s_alt_linebuf s1)" using h1(4) by (simp add: lb_size_def)
  from realloc_lb_returns [OF al fits(2), of n pool t2 ?a] n size obtain r' over' t3 a3 where
    r': "realloc_lb pool (s_alt_linebuf s1) n columns None t2 ?a = Some (Inr (r', t3, a3))" "lb_size columns n (rr_linebuf r')"
    by fastforce
  define t4 where "t4 = (if \<not> s_on_main s then setup_cursor (cy s1) r' t3 else t3)"
  define s4 where "s4 = emit (Grman_resize True (s_lines s1) n (s_columns s1) columns)
    (s1\<lparr>s_main_linebuf := rr_linebuf r, s_historybuf := h4, s_ansi_active := a4\<rparr>)"
  define l where "l = Grman_resize False (s_lines s1) n (s_columns s1) columns # s_log s4"
  define s5 where "s5 = place_cursors t4 (setup_cursor (cy s1) r m1) (setup_cursor (cy s1) r' a3) (set_size n columns
    (s1\<lparr>s_main_linebuf := rr_linebuf r, s_historybuf := h4, s_ansi_active := a4, s_alt_linebuf := rr_linebuf r', s_log := l\<rparr>))"
  have s5: "screen_wf s5" unfolding s5_def by (rule resized_wf [OF s1(1) size(1,2) n(1,2) r(2) r'(2) h4(2,3)])
  let ?la = "s_lines s1 - cy s1"
  have "resize_alt pool n columns (s_on_main s) ?la d t2 (setup_cursor (cy s1) r m1) ?a s4
      = Some (True, finish_resize (s_on_main s) ?la d t4 s5)"
    using r'(1) by (simp add: resize_alt_def s4_def emit_def t4_def s5_def l_def Let_def)
  then have "resize_main pool n columns (s_on_main s) ?la d ?t ?m ?a s3 = Some (True, finish_resize (s_on_main s) ?la d t4 s5)"
    using r(1) by (cases "s_on_main s") (simp_all add: resize_main_def s3(1) s2_def h4(1) t2_def s4_def Let_def)
  then have "screen_resize lines columns s = Some (True, finish_resize (s_on_main s) ?la d t4 s5)"
    unfolding screen_resize_def Let_def n_def [symmetric] n(3) d prod.case pool_def [symmetric] hb(1) option.case sum.case
      s2_def [symmetric] s3_def [symmetric] .
  then show ?thesis using finish_resize_wf [OF s5, of "s_on_main s" "s_lines s1 - cy s1" d t4] by (simp add: s5_def place_cursors_frame n_def)
qed

text \<open>
  C11: screen_resize of a well-formed screen to at least 2 and at most 5000 columns and to at most
  50000 lines returns true with a well-formed screen of the new size, at least one line high:
  every buffer, cursor, margin and table of tab stops fits it.
\<close>

theorem screen_resize_returns:
  assumes "screen_wf s" and "2 \<le> columns" and "columns \<le> 5000" and "lines \<le> 50000"
  shows "\<exists>t. screen_resize lines columns s = Some (True, t) \<and> screen_wf t \<and> s_lines t = max 1 lines \<and> s_columns t = columns"
  by (rule screen_resize_ends [OF assms])

lemma screen_resize_returns_witness:
  "\<exists>t. screen_resize 2 7 example_screen = Some (True, t) \<and> screen_wf t \<and> s_lines t = 2 \<and> s_columns t = 7"
  using screen_resize_returns [of example_screen 7 2] example_screen_wf by (simp add: numeral_2_eq_2 del: One_nat_def)

text \<open>
  A size that is refused: the line buffers are kept, but the history has been replaced and has the width that was asked
  for, and the screen is no longer well formed.
\<close>

text \<open>
  C12: When screen_resize refuses a size because it has too many columns, it returns false but has
  already put a history of the refused width in place, so that the screen is no longer well
  formed.
\<close>

theorem refused_resize_changes_history:
  assumes "screen_wf s" and "5000 < columns"
  shows "\<exists>t. screen_resize lines columns s = Some (False, t) \<and> s_columns t = s_columns s
    \<and> b_xnum (s_main_linebuf t) = s_columns t \<and> h_xnum (s_historybuf t) = columns \<and> \<not> screen_wf t"
proof -
  have n: "max 1 columns = columns" using assms(2) by simp
  obtain d s1 where d: "insert_dummy_output s = (d, s1)" by force
  note s1 = insert_dummy_output_wf [OF assms(1) d]
  have h1: "history_wf (s_historybuf s1)" "lb_size (s_columns s1) (s_lines s1) (s_main_linebuf s1)" "cy s1 < s_lines s1"
    "s_columns s1 \<le> 5000" using s1(1) by (simp_all add: screen_wf_def)
  define pool where "pool = Some (pool_keys (s_pool s))"
  have hy: "0 < h_ynum (s_historybuf s1)" using h1(1) by (simp add: history_wf_def)
  from realloc_hb_returns [OF h1(1) this, of columns pool "s_ansi_active s1"] assms(2) obtain a2 nh where
    hb: "realloc_hb pool (s_ansi_active s1) (s_historybuf s1) (h_ynum (s_historybuf s1)) columns = Some (Inr (a2, nh))"
      "h_xnum nh = columns" by auto
  define s2 where "s2 = s1\<lparr>s_historybuf := nh, s_ansi_active := a2\<rparr>"
  define s3 where "s3 = (if s_on_main s then prevent_current_prompt_from_rewrapping s2 else s2)"
  have s2: "cy s2 < s_lines s2" "lb_size (s_columns s1) (s_lines s2) (s_main_linebuf s2)" using h1 by (simp_all add: s2_def)
  have "\<exists>m. s3 = s2\<lparr>s_main_linebuf := m\<rparr> \<and> lb_size (s_columns s1) (s_lines s1) m"
    using prevent_rewrapping_size [OF s2(2,1)] h1(2)
    by (cases "s_on_main s") (auto simp: s3_def s2_def intro: exI [of _ "s_main_linebuf s1"])
  then obtain m3 where s3: "s3 = s2\<lparr>s_main_linebuf := m3\<rparr>" "lb_size (s_columns s1) (s_lines s1) m3" by blast
  have "linebuf_new y columns = Inl ValueError" for y using assms(2) by (simp add: linebuf_new_def)
  then have "resize_main pool y columns im la d t ms as s3 = Some (False, s3)" for y im la d t ms as
    by (simp add: resize_main_def realloc_lb_def)
  then have "screen_resize lines columns s = Some (False, s3)"
    unfolding screen_resize_def Let_def n d prod.case pool_def [symmetric] hb(1) option.case sum.case
      s2_def [symmetric] s3_def [symmetric] by simp
  then show ?thesis using s1(4) s3 hb(2) h1(4) assms(2) by (auto simp: s2_def screen_wf_def lb_size_def)
qed

lemma refused_resize_changes_history_witness:
  "\<exists>t. screen_resize 3 6000 example_screen = Some (False, t) \<and> s_columns t = 4 \<and> h_xnum (s_historybuf t) = 6000 \<and> \<not> screen_wf t"
  using refused_resize_changes_history [of example_screen 6000 3] example_screen_wf example_screen_fields by auto

end
