(* ===== verification/Terminal.thy ===== *)
theory Terminal
  imports Screen_Parsing Screen_Resize
begin

text \<open>
  The life of a terminal: it is created, its child writes, time passes and the window is resized. The states it reaches
  keep the invariant of the screen and the bounds of the parser.
\<close>

section \<open>The states a terminal reaches\<close>

text \<open>
  A read happens at the time \<open>now\<close>; \<open>clock\<close> is what \<^verbatim>\<open>monotonic()\<close> returns from then on. The screen of
  one column is left out: there \<^verbatim>\<open>draw_codepoint\<close> puts a wide character beyond the end of its line.
\<close>

inductive terminal_reaches :: "screen parser \<Rightarrow> bool" where
  created: "screen_new e d lines columns scrollback cw cht psz = Inr s \<Longrightarrow> 2 \<le> columns \<Longrightarrow> terminal_reaches (fresh_parser s)"
| read_output: "terminal_reaches p \<Longrightarrow> do_parse_bytes screen_exec now bs p = Some q \<Longrightarrow> terminal_reaches q"
| clock_ticks: "terminal_reaches p \<Longrightarrow> terminal_reaches (p\<lparr>dec := (dec p)\<lparr>now_monotonic := clock\<rparr>\<rparr>)"
| resized: "terminal_reaches p \<Longrightarrow> 2 \<le> columns \<Longrightarrow> columns \<le> 5000 \<Longrightarrow> lines \<le> 50000 \<Longrightarrow>
    screen_resize lines columns (scr p) = Some (ok, t) \<Longrightarrow> terminal_reaches (p\<lparr>scr := t\<rparr>)"

lemma terminal_chunk_ok: "terminal_reaches p \<Longrightarrow> smelly_screen.chunk_ok p"
proof (induction rule: terminal_reaches.induct)
  case (created e d lines columns scrollback cw cht psz s)
  then show ?case using fresh_chunk_ok screen_new_wf by blast
next
  case (read_output p now bs q)
  then show ?case using smelly_screen.do_parse_bytes_chunk_ok by blast
next
  case (clock_ticks p clock)
  then show ?case by (simp add: smelly_screen.chunk_ok_def)
next
  case (resized p columns lines ok t)
  then have "screen_wf (scr p)" by (simp add: smelly_screen.chunk_ok_def)
  then have "screen_wf t" using screen_resize_ends [of "scr p" columns lines] resized by auto
  then show ?case using resized by (simp add: smelly_screen.chunk_ok_def)
qed

text \<open>
  C1: In every state that a new terminal of at least two columns reaches by calls of
  do_parse_bytes on any bytes, with pending mode on or off, by the clock and by resizing to at
  least two columns and at most 5000 columns and 50000 lines, the screen has its invariant: it has
  at least two columns, the buffers keep their sizes and distinct rows, the cursor, the margins
  and the tab stops stay inside, the history and the colour stack stay well formed, no link number
  is used twice, and every saved decoder state is between two characters. (With one column
  draw_codepoint writes a wide character beyond the line, and the overrun of parser_buf by an
  overlong CSI code is recorded apart, in buf_overrun.)
\<close>

theorem terminal_keeps_invariant:
  assumes "terminal_reaches p"
  shows "screen_wf (scr p)"
  using terminal_chunk_ok [OF assms] by (simp add: smelly_screen.chunk_ok_def)

lemma terminal_keeps_invariant_witness:
  "\<exists>p q t. do_parse_bytes screen_exec 3 [0x1b, 0x5b, 0x32] (fresh_parser example_screen) = Some p
     \<and> screen_resize 2 7 (scr p) = Some (True, t) \<and> do_parse_bytes screen_exec 4 [0x4a, 0xc3] (p\<lparr>scr := t\<rparr>) = Some q
     \<and> screen_wf (scr q)"
proof -
  obtain p where p: "do_parse_bytes screen_exec 3 [0x1b, 0x5b, 0x32] (fresh_parser example_screen) = Some p"
    using do_parse_bytes_terminates by blast
  have rp: "terminal_reaches p" by (rule read_output [OF created [OF example_screen_new] p]) simp
  from terminal_chunk_ok [OF this] have "screen_wf (scr p)" by (simp add: smelly_screen.chunk_ok_def)
  with screen_resize_ends [of "scr p" 7 2] obtain t where t: "screen_resize 2 7 (scr p) = Some (True, t)" by auto
  obtain q where q: "do_parse_bytes screen_exec 4 [0x4a, 0xc3] (p\<lparr>scr := t\<rparr>) = Some q"
    using do_parse_bytes_terminates by blast
  have "terminal_reaches q" by (rule read_output [OF resized [OF rp _ _ _ t] q]) simp_all
  with p t q terminal_keeps_invariant show ?thesis by blast
qed

section \<open>The bounds of the parser\<close>

text \<open>
  C2: do_parse_bytes on the screen of screen.c, with any bytes and with pending mode on or off,
  keeps the bounds of the parser: parser_buf has its 8192 elements, parser_buf_pos is at most
  8192, and inside an OSC, DCS, APC or PM code it is less than 8192, so that an element is left
  behind the code; the used part of the pending buffer fits its capacity, which is 0 or at least
  16 KiB.
\<close>

theorem do_parse_bytes_bounds:
  assumes "parser_bounds p" and "code_room p" and "do_parse_bytes screen_exec now bs p = Some p'"
  shows "parser_bounds p' \<and> code_room p'"
  using bounds_do_parse_bytes [OF assms(1,3)] smelly_pending.do_parse_bytes_room [OF assms(3,2)] by simp

theorem do_parse_bytes_bounds_witness:
  "\<exists>p'. do_parse_bytes screen_exec 5 [0x1b, 0x5d, 0x33, 0x6d] (fresh_parser example_screen) = Some p'
     \<and> parser_bounds p' \<and> code_room p'"
proof -
  obtain p' where p': "do_parse_bytes screen_exec 5 [0x1b, 0x5d, 0x33, 0x6d] (fresh_parser example_screen) = Some p'"
    using do_parse_bytes_terminates by blast
  have "code_room (fresh_parser example_screen)" by (simp add: code_room_def fresh_parser_def)
  from do_parse_bytes_bounds [OF fresh_parser_bounds this p'] p' show ?thesis by blast
qed

end
