(* ===== verification/Key_Encoding.thy ===== *)
theory Key_Encoding
  imports Utf8 Sgr
begin

text \<open>
  The bytes a key event becomes for the program in the terminal, \<^verbatim>\<open>smelly/key_encoding.c\<close>: the legacy encodings and the
  CSI u encoding. The output buffer is a parameter; a write outside it is \<open>None\<close>. The theorems are in \<open>Key_Encoding_Text\<close>.
\<close>

section \<open>Keys and modifiers\<close>

abbreviation (input) KEY_BUFFER_SIZE :: nat where "KEY_BUFFER_SIZE \<equiv> 128"
abbreviation (input) SEND_TEXT_TO_CHILD :: int where "SEND_TEXT_TO_CHILD \<equiv> - 2147483648"

abbreviation (input) SHIFT :: u32 where "SHIFT \<equiv> 1"
abbreviation (input) ALT :: u32 where "ALT \<equiv> 2"
abbreviation (input) CTRL :: u32 where "CTRL \<equiv> 4"
abbreviation (input) SUPER :: u32 where "SUPER \<equiv> 8"
abbreviation (input) HYPER :: u32 where "HYPER \<equiv> 16"
abbreviation (input) META :: u32 where "META \<equiv> 32"
abbreviation (input) CAPS_LOCK :: u32 where "CAPS_LOCK \<equiv> 64"
abbreviation (input) NUM_LOCK :: u32 where "NUM_LOCK \<equiv> 128"

abbreviation (input) GLFW_FKEY_FIRST :: u32 where "GLFW_FKEY_FIRST \<equiv> 0xe000"
abbreviation (input) GLFW_FKEY_ESCAPE :: u32 where "GLFW_FKEY_ESCAPE \<equiv> 0xe000"
abbreviation (input) GLFW_FKEY_ENTER :: u32 where "GLFW_FKEY_ENTER \<equiv> 0xe001"
abbreviation (input) GLFW_FKEY_TAB :: u32 where "GLFW_FKEY_TAB \<equiv> 0xe002"
abbreviation (input) GLFW_FKEY_BACKSPACE :: u32 where "GLFW_FKEY_BACKSPACE \<equiv> 0xe003"
abbreviation (input) GLFW_FKEY_MENU :: u32 where "GLFW_FKEY_MENU \<equiv> 0xe013"
abbreviation (input) GLFW_FKEY_KP_0 :: u32 where "GLFW_FKEY_KP_0 \<equiv> 0xe037"
abbreviation (input) GLFW_FKEY_KP_9 :: u32 where "GLFW_FKEY_KP_9 \<equiv> 0xe040"
abbreviation (input) GLFW_FKEY_KP_BEGIN :: u32 where "GLFW_FKEY_KP_BEGIN \<equiv> 0xe053"
abbreviation (input) GLFW_FKEY_LEFT_SHIFT :: u32 where "GLFW_FKEY_LEFT_SHIFT \<equiv> 0xe061"
abbreviation (input) GLFW_FKEY_ISO_LEVEL5_SHIFT :: u32 where "GLFW_FKEY_ISO_LEVEL5_SHIFT \<equiv> 0xe06e"
abbreviation (input) GLFW_FKEY_LAST :: u32 where "GLFW_FKEY_LAST \<equiv> 0xe06e"

text \<open>The modifiers in \<^verbatim>\<open>GLFWkeyevent\<close> are numbered in another way.\<close>

abbreviation (input) GLFW_LOCK_MASK :: u32 where "GLFW_LOCK_MASK \<equiv> 0xc0"

datatype key_action = PRESS | REPEAT | RELEASE

definition action_number :: "key_action \<Rightarrow> nat" where
  "action_number a = (case a of PRESS \<Rightarrow> 0 | REPEAT \<Rightarrow> 1 | RELEASE \<Rightarrow> 2)"

record key_mods =
  m_shift :: bool
  m_alt :: bool
  m_ctrl :: bool
  m_super :: bool
  m_hyper :: bool
  m_meta :: bool
  m_numlock :: bool
  m_capslock :: bool
  m_value :: u32
  m_encoded :: "u8 list"

definition zero_mods :: key_mods where
  "zero_mods = \<lparr>m_shift = False, m_alt = False, m_ctrl = False, m_super = False, m_hyper = False, m_meta = False,
     m_numlock = False, m_capslock = False, m_value = 0, m_encoded = []\<rparr>"

text \<open>C strings are lists without the final NUL.\<close>

record key_event =
  ke_key :: u32
  ke_shifted_key :: u32
  ke_alternate_key :: u32
  ke_mods :: key_mods
  ke_action :: key_action
  ke_cursor_key_mode :: bool
  ke_disambiguate :: bool
  ke_report_all_event_types :: bool
  ke_report_alternate_key :: bool
  ke_report_text :: bool
  ke_embed_text :: bool
  ke_text :: "u8 list option"
  ke_has_text :: bool

record encoding_data =
  ed_key :: u32
  ed_shifted_key :: u32
  ed_alternate_key :: u32
  ed_add_alternates :: bool
  ed_has_mods :: bool
  ed_add_actions :: bool
  ed_add_text :: bool
  ed_encoded_mods :: "u8 list"
  ed_text :: "u8 list"
  ed_action :: key_action

record glfw_key_event =
  g_key :: u32
  g_shifted_key :: u32
  g_alternate_key :: u32
  g_mods :: u32
  g_action :: int
  g_text :: "u8 list option"

section \<open>Printing\<close>

text \<open>\<^verbatim>\<open>"%u"\<close>.\<close>

definition u_digits :: "nat \<Rightarrow> u8 list" where
  "u_digits n = map ucast (decimal n)"

text \<open>\<^verbatim>\<open>snprintf(out + pos, size, "%s", s)\<close> writes at most \<^verbatim>\<open>size - 1\<close> characters and a NUL.\<close>

definition snprintf :: "u8 list \<Rightarrow> nat \<Rightarrow> nat \<Rightarrow> u8 list \<Rightarrow> u8 list" where
  "snprintf out pos siz s = (if siz = 0 then out else overwrite out pos (take (siz - 1) s @ [0]))"

text \<open>The macro \<^verbatim>\<open>P\<close> of \<^verbatim>\<open>serialize\<close>; it adds the length of the whole string to the position.\<close>

definition print_at :: "u8 list \<Rightarrow> nat \<times> u8 list \<Rightarrow> nat \<times> u8 list" where
  "print_at s st =
     (case st of (pos, out) \<Rightarrow>
        (pos + length s, snprintf out pos (if KEY_BUFFER_SIZE - 2 \<le> pos then 0 else KEY_BUFFER_SIZE - 2 - pos) s))"

text \<open>\<^verbatim>\<open>snprintf(output, KEY_BUFFER_SIZE, ..)\<close> for the whole result.\<close>

definition print_all :: "u8 list \<Rightarrow> u8 list \<Rightarrow> int \<times> u8 list" where
  "print_all s out = (int (length s), snprintf out 0 KEY_BUFFER_SIZE s)"

definition convert_glfw_mods :: "u32 \<Rightarrow> u32 \<Rightarrow> key_mods" where
  "convert_glfw_mods mods key_encoding_flags =
     (let mods = (if key_encoding_flags = 0 then mods AND NOT GLFW_LOCK_MASK else mods);
          on = (\<lambda>m. mods AND m \<noteq> 0);
          value =
            (if on 1 then SHIFT else 0) OR (if on 2 then ALT else 0) OR (if on 4 then CTRL else 0)
            OR (if on 8 then SUPER else 0) OR (if on 16 then HYPER else 0) OR (if on 32 then META else 0)
            OR (if on 64 then CAPS_LOCK else 0) OR (if on 128 then NUM_LOCK else 0)
      in \<lparr>m_shift = on 1, m_alt = on 2, m_ctrl = on 4, m_super = on 8, m_hyper = on 16, m_meta = on 32,
          m_numlock = on 128, m_capslock = on 64, m_value = value,
          m_encoded = take 3 (u_digits (unat (value + 1)))\<rparr>)"

definition init_encoding_data :: "key_event \<Rightarrow> encoding_data" where
  "init_encoding_data ev =
     (let enc = m_encoded (ke_mods ev);
          alternates = (ke_report_alternate_key ev
            \<and> (ke_shifted_key ev > 0 \<and> m_shift (ke_mods ev) \<or> ke_alternate_key ev > 0))
      in \<lparr>ed_key = ke_key ev,
          ed_shifted_key = (if alternates \<and> m_shift (ke_mods ev) then ke_shifted_key ev else 0),
          ed_alternate_key = (if alternates then ke_alternate_key ev else 0),
          ed_add_alternates = alternates,
          ed_has_mods = (enc \<noteq> [] \<and> (hd enc \<noteq> 0x31 \<or> length enc > 1)),
          ed_add_actions = (ke_report_all_event_types ev \<and> ke_action ev \<noteq> PRESS),
          ed_add_text = (ke_embed_text ev \<and> ke_text ev \<noteq> None \<and> ke_text ev \<noteq> Some []),
          ed_encoded_mods = enc,
          ed_text = (case ke_text ev of None \<Rightarrow> [] | Some t \<Rightarrow> t),
          ed_action = ke_action ev\<rparr>)"

text \<open>The embedded text. The decoder starts anew after every byte.\<close>

fun print_text :: "u8 list \<Rightarrow> bool \<Rightarrow> nat \<times> u8 list \<Rightarrow> nat \<times> u8 list" where
  "print_text [] is_first st = st"
| "print_text (p # ps) is_first st =
     (case decode_utf8 UTF8_ACCEPT 0 p of (state, codep) \<Rightarrow>
        if state = UTF8_ACCEPT
        then print_text ps False (print_at ((if is_first then 0x3b else 0x3a) # u_digits (unat codep)) st)
        else print_text ps is_first st)"

definition serialize :: "encoding_data \<Rightarrow> u8 list \<Rightarrow> u8 \<Rightarrow> (int \<times> u8 list) option" where
  "serialize data output csi_trailer =
     (let second_field_not_empty = ed_has_mods data \<or> ed_add_actions data;
          third_field_not_empty = ed_add_text data;
          st = print_at [0x1b, 0x5b] (0, output);
          st = (if ed_key data \<noteq> 1 \<or> ed_add_alternates data \<or> second_field_not_empty \<or> third_field_not_empty
                then print_at (u_digits (unat (ed_key data))) st else st);
          st = (if ed_add_alternates data then
                  (let st = print_at [0x3a] st;
                       st = (if ed_shifted_key data \<noteq> 0 then print_at (u_digits (unat (ed_shifted_key data))) st else st)
                   in if ed_alternate_key data \<noteq> 0 then print_at (0x3a # u_digits (unat (ed_alternate_key data))) st else st)
                else st);
          st = (if second_field_not_empty \<or> third_field_not_empty then
                  (let st = print_at [0x3b] st;
                       st = (if second_field_not_empty then print_at (ed_encoded_mods data) st else st)
                   in if ed_add_actions data then print_at (0x3a # u_digits (action_number (ed_action data) + 1)) st else st)
                else st);
          st = (if third_field_not_empty then print_text (ed_text data) True st else st)
      in case st of (pos, out) \<Rightarrow>
           if pos + 1 < length out then Some (int (pos + 1), out[pos := csi_trailer, pos + 1 := 0]) else None)"

section \<open>Legacy encodings\<close>

text \<open>\<^verbatim>\<open>S(x)\<close>: the key of the main block for a key of the keypad.\<close>

definition kp_keys :: "(u32 \<times> u32) list" where
  "kp_keys =
     [(0xe046, 0xe001), (0xe04f, 0xe00c), (0xe050, 0xe00d), (0xe051, 0xe004), (0xe052, 0xe005), (0xe04d, 0xe00a),
      (0xe04e, 0xe00b), (0xe04b, 0xe008), (0xe04c, 0xe009), (0xe049, 0xe006), (0xe04a, 0xe007),
      (GLFW_FKEY_KP_0, 0x30), (GLFW_FKEY_KP_9, 0x39), (0xe041, 0x2e), (0xe042, 0x2f), (0xe043, 0x2a), (0xe044, 0x2d),
      (0xe045, 0x2b), (0xe047, 0x3d)]"

definition convert_kp_key_to_normal_key :: "u32 \<Rightarrow> u32" where
  "convert_kp_key_to_normal_key key_number =
     (case map_of kp_keys key_number of Some k \<Rightarrow> k | None \<Rightarrow> key_number)"

text \<open>\<open>None\<close> is the result \<^verbatim>\<open>-1\<close>.\<close>

definition legacy_functional_key_encoding_with_modifiers :: "u32 \<Rightarrow> key_event \<Rightarrow> u8 list \<Rightarrow> (int \<times> u8 list) option" where
  "legacy_functional_key_encoding_with_modifiers key_number ev output =
     (let mods = m_value (ke_mods ev);
          prefix = (if mods AND ALT \<noteq> 0 then [0x1b] else [])
      in if key_number = GLFW_FKEY_ENTER then Some (print_all (prefix @ [0x0d]) output)
         else if key_number = GLFW_FKEY_ESCAPE then Some (print_all (prefix @ [0x1b]) output)
         else if key_number = GLFW_FKEY_BACKSPACE then
           Some (print_all (prefix @ [if mods AND CTRL \<noteq> 0 then 0x08 else 0x7f]) output)
         else if key_number = GLFW_FKEY_TAB then
           Some (print_all
             (if mods AND SHIFT \<noteq> 0 then (if mods AND ALT \<noteq> 0 then [0x1b, 0x1b] else [0x1b]) @ [0x5b, 0x5a]
              else prefix @ [0x09]) output)
         else None)"

text \<open>The final characters of the SS3 codes of the cursor keys, and of the first function keys.\<close>

definition cursor_mode_keys :: "(u32 \<times> u8) list" where
  "cursor_mode_keys =
     [(0xe008, 0x41), (0xe009, 0x42), (0xe007, 0x43), (0xe006, 0x44), (GLFW_FKEY_KP_BEGIN, 0x45), (0xe00d, 0x46), (0xe00c, 0x48)]"

definition f1_to_f4 :: "(u32 \<times> u8) list" where
  "f1_to_f4 = [(0xe014, 0x50), (0xe015, 0x51), (0xe016, 0x52), (0xe017, 0x53)]"

text \<open>The number and the final character of the CSI code of a functional key.\<close>

definition special_numbers :: "(u32 \<times> u32 \<times> u8) list" where
  "special_numbers =
     [(GLFW_FKEY_ESCAPE, 27, 0x75), (GLFW_FKEY_ENTER, 13, 0x75), (GLFW_FKEY_TAB, 9, 0x75), (GLFW_FKEY_BACKSPACE, 127, 0x75),
      (0xe004, 2, 0x7e), (0xe005, 3, 0x7e), (0xe006, 1, 0x44), (0xe007, 1, 0x43), (0xe008, 1, 0x41), (0xe009, 1, 0x42),
      (0xe00a, 5, 0x7e), (0xe00b, 6, 0x7e), (0xe00c, 1, 0x48), (0xe00d, 1, 0x46),
      (0xe014, 1, 0x50), (0xe015, 1, 0x51), (0xe016, 13, 0x7e), (0xe017, 1, 0x53), (0xe018, 15, 0x7e), (0xe019, 17, 0x7e),
      (0xe01a, 18, 0x7e), (0xe01b, 19, 0x7e), (0xe01c, 20, 0x7e), (0xe01d, 21, 0x7e), (0xe01e, 23, 0x7e), (0xe01f, 24, 0x7e),
      (GLFW_FKEY_KP_BEGIN, 1, 0x45)]"

text \<open>The part of \<^verbatim>\<open>encode_function_key\<close> before the CSI codes.\<close>

definition simple_function_key :: "key_event \<Rightarrow> bool \<Rightarrow> u8 list \<Rightarrow> (int \<times> u8 list) option" where
  "simple_function_key ev legacy_mode output =
     (let key_number = ke_key ev; no_mods = (m_value (ke_mods ev) = 0) in
      case (if ke_cursor_key_mode ev \<and> legacy_mode \<and> no_mods then map_of cursor_mode_keys key_number else None) of
        Some c \<Rightarrow> Some (print_all [0x1b, 0x4f, c] output)
      | None \<Rightarrow>
          if no_mods then
            (if \<not> ke_disambiguate ev \<and> \<not> ke_report_text ev \<and> key_number = GLFW_FKEY_ESCAPE then Some (print_all [0x1b] output)
             else case (if legacy_mode then map_of f1_to_f4 key_number else None) of
               Some c \<Rightarrow> Some (print_all [0x1b, 0x4f, c] output)
             | None \<Rightarrow>
                 if ke_report_text ev then None
                 else if key_number = GLFW_FKEY_ENTER then Some (print_all [0x0d] output)
                 else if key_number = GLFW_FKEY_BACKSPACE then Some (print_all [0x7f] output)
                 else if key_number = GLFW_FKEY_TAB then Some (print_all [0x09] output)
                 else None)
          else if legacy_mode then legacy_functional_key_encoding_with_modifiers key_number ev output
          else None)"

definition encode_function_key :: "key_event \<Rightarrow> u8 list \<Rightarrow> (int \<times> u8 list) option" where
  "encode_function_key ev output =
     (let legacy_mode = (\<not> ke_report_all_event_types ev \<and> \<not> ke_disambiguate ev) in
      case simple_function_key ev legacy_mode output of
        Some r \<Rightarrow> Some r
      | None \<Rightarrow>
          (let (key_number, csi_trailer) =
             (case map_of special_numbers (ke_key ev) of
                Some x \<Rightarrow> x
              | None \<Rightarrow> if ke_key ev = GLFW_FKEY_MENU \<and> legacy_mode then (29, 0x7e) else (ke_key ev, 0x75))
           in serialize ((init_encoding_data ev)\<lparr>ed_key := key_number, ed_add_alternates := False\<rparr>) output csi_trailer))"

definition ctrl_mapping :: "(u8 \<times> u8) list" where
  "ctrl_mapping =
     [(0x20, 0), (0x2f, 31), (0x30, 48), (0x31, 49), (0x32, 0), (0x33, 27), (0x34, 28), (0x35, 29), (0x36, 30), (0x37, 31),
      (0x38, 127), (0x39, 57), (0x3f, 127), (0x40, 0), (0x5b, 27), (0x5c, 28), (0x5d, 29), (0x5e, 30), (0x5f, 31),
      (0x61, 1), (0x62, 2), (0x63, 3), (0x64, 4), (0x65, 5), (0x66, 6), (0x67, 7), (0x68, 8), (0x69, 9), (0x6a, 10),
      (0x6b, 11), (0x6c, 12), (0x6d, 13), (0x6e, 14), (0x6f, 15), (0x70, 16), (0x71, 17), (0x72, 18), (0x73, 19), (0x74, 20),
      (0x75, 21), (0x76, 22), (0x77, 23), (0x78, 24), (0x79, 25), (0x7a, 26), (0x7e, 30)]"

definition ctrled_key :: "u8 \<Rightarrow> u8" where
  "ctrled_key key = (case map_of ctrl_mapping key of Some c \<Rightarrow> c | None \<Rightarrow> key)"

text \<open>The results are never empty but for the last one, so \<open>None\<close> stands for the result 0. A \<^verbatim>\<open>char\<close> is signed.\<close>

definition encode_printable_ascii_key_legacy :: "key_event \<Rightarrow> u8 list \<Rightarrow> (int \<times> u8 list) option" where
  "encode_printable_ascii_key_legacy ev output =
     (let mods = m_value (ke_mods ev); key = (ucast (ke_key ev) :: u8); shifted = (ucast (ke_shifted_key ev) :: u8) in
      if mods = 0 then Some (print_all [key] output)
      else
        (let use_shifted = (mods AND SHIFT \<noteq> 0 \<and> shifted \<noteq> 0 \<and> shifted \<noteq> key
               \<and> (mods AND CTRL = 0 \<or> sint key < 0x61 \<or> sint key > 0x7a));
             key = (if use_shifted then shifted else key);
             mods = (if use_shifted then mods AND NOT SHIFT else mods)
         in if m_value (ke_mods ev) = SHIFT then Some (print_all [key] output)
            else if mods = ALT then Some (print_all [0x1b, key] output)
            else if mods = CTRL then Some (print_all [ctrled_key key] output)
            else if mods = CTRL OR ALT then Some (print_all [0x1b, ctrled_key key] output)
            else if key = 0x20 \<and> mods = CTRL OR SHIFT then Some (print_all [ctrled_key key] output)
            else if key = 0x20 \<and> mods = ALT OR SHIFT then Some (print_all [0x1b, key] output)
            else None))"

definition is_legacy_ascii_key :: "u32 \<Rightarrow> bool" where
  "is_legacy_ascii_key key =
     (0x61 \<le> key \<and> key \<le> 0x7a \<or> 0x30 \<le> key \<and> key \<le> 0x39
      \<or> key \<in> set [0x21, 0x40, 0x23, 0x24, 0x25, 0x5e, 0x26, 0x2a, 0x28, 0x29, 0x60, 0x7e, 0x2d, 0x5f, 0x3d, 0x2b, 0x5b, 0x7b,
           0x5d, 0x7d, 0x5c, 0x7c, 0x3b, 0x3a, 0x27, 0x22, 0x2c, 0x3c, 0x2e, 0x3e, 0x2f, 0x3f, 0x20])"

section \<open>Key events\<close>

text \<open>The two legacy attempts of \<^verbatim>\<open>encode_key\<close>.\<close>

definition encode_key_legacy :: "key_event \<Rightarrow> u8 list \<Rightarrow> (int \<times> u8 list) option" where
  "encode_key_legacy ev output =
     (let attempt =
        (if is_legacy_ascii_key (ke_key ev) \<or> ke_shifted_key ev \<noteq> 0 \<and> is_legacy_ascii_key (ke_shifted_key ev)
         then encode_printable_ascii_key_legacy ev output else None)
      in case attempt of
           Some r \<Rightarrow> Some r
         | None \<Rightarrow>
             (let mods = m_value (ke_mods ev) in
              if (mods = CTRL \<or> mods = ALT \<or> mods = CTRL OR ALT) \<and> ke_alternate_key ev \<noteq> 0
                 \<and> \<not> is_legacy_ascii_key (ke_key ev) \<and> is_legacy_ascii_key (ke_alternate_key ev)
              then encode_printable_ascii_key_legacy
                (ev\<lparr>ke_key := ke_alternate_key ev, ke_alternate_key := 0, ke_shifted_key := 0\<rparr>) output
              else None))"

definition encode_key :: "key_event \<Rightarrow> u8 list \<Rightarrow> (int \<times> u8 list) option" where
  "encode_key ev output =
     (if \<not> ke_report_all_event_types ev \<and> ke_action ev = RELEASE then Some (0, output)
      else if GLFW_FKEY_FIRST \<le> ke_key ev \<and> ke_key ev \<le> GLFW_FKEY_LAST then encode_function_key ev output
      else
        (let ed = init_encoding_data ev;
             simple_encoding_ok = (\<not> ed_add_actions ed \<and> \<not> ed_add_alternates ed \<and> \<not> ed_add_text ed)
         in if simple_encoding_ok \<and> \<not> ed_has_mods ed then
              (if ke_report_text ev then serialize ed output 0x75
               else Some (int (length (encode_utf8 (ke_key ev))), overwrite output 0 (encode_utf8 (ke_key ev))))
            else
              (case (if simple_encoding_ok \<and> \<not> ke_disambiguate ev \<and> \<not> ke_report_text ev
                     then encode_key_legacy ev output else None) of
                 Some r \<Rightarrow> Some r
               | None \<Rightarrow> serialize ed output 0x75)))"

fun startswith_ascii_control_char_loop :: "u8 list \<Rightarrow> bool" where
  "startswith_ascii_control_char_loop [] = False"
| "startswith_ascii_control_char_loop (p # ps) =
     (case decode_utf8 UTF8_ACCEPT 0 p of (state, codep) \<Rightarrow>
        if state = UTF8_ACCEPT then codep < 32 \<or> codep = 127 else startswith_ascii_control_char_loop ps)"

definition startswith_ascii_control_char :: "u8 list \<Rightarrow> bool" where
  "startswith_ascii_control_char p = (p = [] \<or> startswith_ascii_control_char_loop p)"

definition is_modifier_key :: "u32 \<Rightarrow> bool" where
  "is_modifier_key key =
     (GLFW_FKEY_LEFT_SHIFT \<le> key \<and> key \<le> GLFW_FKEY_ISO_LEVEL5_SHIFT \<or> key = 0xe00e \<or> key = 0xe00f \<or> key = 0xe010)"

definition glfw_action :: "int \<Rightarrow> key_action" where
  "glfw_action a = (if a = 2 then REPEAT else if a = 0 then RELEASE else PRESS)"

definition encode_glfw_key_event :: "glfw_key_event \<Rightarrow> bool \<Rightarrow> u32 \<Rightarrow> u8 list \<Rightarrow> (int \<times> u8 list) option" where
  "encode_glfw_key_event e cursor_key_mode key_encoding_flags output =
     (let ev = \<lparr>ke_key = g_key e, ke_shifted_key = g_shifted_key e, ke_alternate_key = g_alternate_key e, ke_mods = zero_mods,
            ke_action = PRESS, ke_cursor_key_mode = cursor_key_mode, ke_disambiguate = key_encoding_flags AND 1 \<noteq> 0,
            ke_report_all_event_types = key_encoding_flags AND 2 \<noteq> 0, ke_report_alternate_key = key_encoding_flags AND 4 \<noteq> 0,
            ke_report_text = key_encoding_flags AND 8 \<noteq> 0, ke_embed_text = key_encoding_flags AND 16 \<noteq> 0,
            ke_text = g_text e, ke_has_text = False\<rparr>
      in if \<not> ke_report_text ev \<and> is_modifier_key (g_key e) then Some (0, output)
         else
           (let ev = ev\<lparr>ke_has_text := (case g_text e of None \<Rightarrow> False | Some t \<Rightarrow> \<not> startswith_ascii_control_char t)\<rparr> in
            if ke_key ev = 0 \<and> \<not> ke_has_text ev then Some (0, output)
            else
              (let send_text_standalone = (\<not> ke_report_text ev);
                   ev = (if \<not> ke_disambiguate ev \<and> GLFW_FKEY_KP_0 \<le> ke_key ev \<and> ke_key ev \<le> GLFW_FKEY_KP_BEGIN
                         then ev\<lparr>ke_key := convert_kp_key_to_normal_key (ke_key ev)\<rparr> else ev);
                   ev = ev\<lparr>ke_action := glfw_action (g_action e)\<rparr>
               in if send_text_standalone \<and> ke_has_text ev \<and> (ke_action ev = PRESS \<or> ke_action ev = REPEAT)
                  then Some (SEND_TEXT_TO_CHILD, output)
                  else encode_key (ev\<lparr>ke_mods := convert_glfw_mods (g_mods e) key_encoding_flags\<rparr>) output)))"

end
