(* ===== verification/Key_Encoding_Text.thy ===== *)
theory Key_Encoding_Text
  imports Key_Encoding
begin

text \<open>
  The text of CSI key codes: what \<^verbatim>\<open>serialize\<close> prints when it fits, that it fits when the embedded text is
  short, that it writes outside the buffer when it is long, and that a program can read the event
  back from it.
\<close>

section \<open>Printing into the buffer\<close>

text \<open>\<open>t\<close> was printed so far; the buffer has it as long as it is short.\<close>

definition printed :: "nat \<Rightarrow> u8 list \<Rightarrow> nat \<times> u8 list \<Rightarrow> bool" where
  "printed n t st = (fst st = length t \<and> length (snd st) = n \<and> (length t \<le> 125 \<longrightarrow> take (length t) (snd st) = t))"

lemma printed_at:
  assumes "printed n t st" "128 \<le> n"
  shows "printed n (t @ s) (print_at s st)"
proof -
  obtain pos out where st: "st = (pos, out)" by force
  have p: "pos = length t" "length out = n" "length t \<le> 125 \<longrightarrow> take (length t) out = t" using assms(1) by (simp_all add: printed_def st)
  show ?thesis
    using p assms(2) by (auto simp: printed_def print_at_def st snprintf_def overwrite_def)
qed

lemma printed_if: "printed n t st \<Longrightarrow> 128 \<le> n \<Longrightarrow> printed n (t @ (if b then s else [])) (if b then print_at s st else st)"
  by (simp add: printed_at)

text \<open>Only ASCII characters are printed.\<close>

lemma decode_first_byte: "fst (decode_utf8 0 0 p) = 0 \<longleftrightarrow> unat p < 128" "unat p < 128 \<Longrightarrow> snd (decode_utf8 0 0 p) = ucast p"
  using decode_utf8_lead_codep [of 0 p]
  by (auto simp: decode_utf8_state utf8_next_def utf8_class_def word_unat_eq_iff)

fun text_field :: "bool \<Rightarrow> u8 list \<Rightarrow> u8 list" where
  "text_field is_first [] = []"
| "text_field is_first (p # ps) =
     (if unat p < 128 then ((if is_first then 0x3b else 0x3a) # u_digits (unat p)) @ text_field False ps
      else text_field is_first ps)"

lemma printed_text: "printed n t st \<Longrightarrow> 128 \<le> n \<Longrightarrow> printed n (t @ text_field b ps) (print_text ps b st)"
proof (induction ps b st arbitrary: t rule: print_text.induct)
  case (2 p ps b st)
  show ?case
  proof (cases "unat p < 128")
    case True
    let ?s = "(if b then 0x3b else 0x3a) # u_digits (unat p)"
    have d: "decode_utf8 0 0 p = (0, ucast p)" using decode_first_byte [of p] True by (metis prod.collapse)
    have "printed n ((t @ ?s) @ text_field False ps) (print_text ps False (print_at ?s st))"
      using 2(1) [OF d [symmetric], of "t @ ?s"] printed_at [OF 2(3,4), of ?s] 2(4) by simp
    then show ?thesis using True d by simp
  next
    case False
    obtain state c where d: "decode_utf8 0 0 p = (state, c)" "state \<noteq> 0" using decode_first_byte [of p] False by (metis prod.collapse)
    show ?thesis using 2(2) [OF d(1) [symmetric] d(2) 2(3,4)] False d by simp
  qed
qed simp

definition key_code_body :: "encoding_data \<Rightarrow> u8 list" where
  "key_code_body d =
     (let second = ed_has_mods d \<or> ed_add_actions d in
      [0x1b, 0x5b]
      @ (if ed_key d \<noteq> 1 \<or> ed_add_alternates d \<or> second \<or> ed_add_text d then u_digits (unat (ed_key d)) else [])
      @ (if ed_add_alternates d then
           [0x3a] @ (if ed_shifted_key d \<noteq> 0 then u_digits (unat (ed_shifted_key d)) else [])
           @ (if ed_alternate_key d \<noteq> 0 then 0x3a # u_digits (unat (ed_alternate_key d)) else []) else [])
      @ (if second \<or> ed_add_text d then
           [0x3b] @ (if second then ed_encoded_mods d else [])
           @ (if ed_add_actions d then 0x3a # u_digits (action_number (ed_action d) + 1) else []) else [])
      @ (if ed_add_text d then text_field True (ed_text d) else []))"

lemma serialize_text:
  assumes "128 \<le> length out"
  shows "(length (key_code_body d) + 1 < length out \<longrightarrow>
      (\<exists>out'. serialize d out tr = Some (int (length (key_code_body d) + 1), out') \<and> length out' = length out
        \<and> (length (key_code_body d) \<le> 125 \<longrightarrow> take (length (key_code_body d) + 1) out' = key_code_body d @ [tr])))
    \<and> (\<not> length (key_code_body d) + 1 < length out \<longrightarrow> serialize d out tr = None)"
proof -
  let ?n = "length out" and ?second = "ed_has_mods d \<or> ed_add_actions d" and ?third = "ed_add_text d"
  note pi = printed_if [OF _ assms]
  define s1 where "s1 = print_at [0x1b, 0x5b] (0, out)"
  define s2 where "s2 = (if ed_key d \<noteq> 1 \<or> ed_add_alternates d \<or> ?second \<or> ?third then print_at (u_digits (unat (ed_key d))) s1 else s1)"
  define s3 where "s3 = (if ed_add_alternates d then
                  (let st = print_at [0x3a] s2;
                       st = (if ed_shifted_key d \<noteq> 0 then print_at (u_digits (unat (ed_shifted_key d))) st else st)
                   in if ed_alternate_key d \<noteq> 0 then print_at (0x3a # u_digits (unat (ed_alternate_key d))) st else st)
                else s2)"
  define s4 where "s4 = (if ?second \<or> ?third then
                  (let st = print_at [0x3b] s3;
                       st = (if ?second then print_at (ed_encoded_mods d) st else st)
                   in if ed_add_actions d then print_at (0x3a # u_digits (action_number (ed_action d) + 1)) st else st)
                else s3)"
  define s5 where "s5 = (if ?third then print_text (ed_text d) True s4 else s4)"
  have p0: "printed ?n [] (0, out)" by (simp add: printed_def)
  have p1: "printed ?n [0x1b, 0x5b] s1" using printed_at [OF p0 assms] by (simp add: s1_def)
  have p2: "printed ?n ([0x1b, 0x5b] @ (if ed_key d \<noteq> 1 \<or> ed_add_alternates d \<or> ?second \<or> ?third then u_digits (unat (ed_key d)) else [])) s2"
    unfolding s2_def by (rule pi [OF p1])
  have p3: "printed ?n (t @ (if ed_add_alternates d then
           [0x3a] @ (if ed_shifted_key d \<noteq> 0 then u_digits (unat (ed_shifted_key d)) else [])
           @ (if ed_alternate_key d \<noteq> 0 then 0x3a # u_digits (unat (ed_alternate_key d)) else []) else [])) s3" if "printed ?n t s2" for t
  proof (cases "ed_add_alternates d")
    case True
    show ?thesis using pi [OF pi [OF printed_at [OF that assms]]] True unfolding s3_def Let_def append_assoc if_P [OF True] by blast
  qed (use that in \<open>simp add: s3_def\<close>)
  have p4: "printed ?n (t @ (if ?second \<or> ?third then
           [0x3b] @ (if ?second then ed_encoded_mods d else [])
           @ (if ed_add_actions d then 0x3a # u_digits (action_number (ed_action d) + 1) else []) else [])) s4" if "printed ?n t s3" for t
  proof (cases "?second \<or> ?third")
    case True
    show ?thesis using pi [OF pi [OF printed_at [OF that assms]]] unfolding s4_def Let_def if_P [OF True] append_assoc by blast
  qed (use that in \<open>simp add: s4_def\<close>)
  have p5: "printed ?n (t @ (if ?third then text_field True (ed_text d) else [])) s5" if "printed ?n t s4" for t
    using printed_text [OF that assms] that by (simp add: s5_def)
  have p: "printed ?n (key_code_body d) s5"
    using p5 [OF p4 [OF p3 [OF p2]]] unfolding key_code_body_def Let_def append_assoc .
  obtain pos o' where s5: "s5 = (pos, o')" by force
  have o': "pos = length (key_code_body d)" "length o' = ?n" "length (key_code_body d) \<le> 125 \<longrightarrow> take (length (key_code_body d)) o' = key_code_body d"
    using p by (simp_all add: printed_def s5)
  have ser: "serialize d out tr = (if pos + 1 < length o' then Some (int (pos + 1), o'[pos := tr, pos + 1 := 0]) else None)"
    unfolding serialize_def Let_def s1_def [symmetric] s2_def [symmetric]
    unfolding s3_def [unfolded Let_def, symmetric] s4_def [unfolded Let_def, symmetric] s5_def [symmetric] s5 prod.case ..
  have "take (pos + 1) (o'[pos := tr, pos + 1 := 0]) = take pos o' @ [tr]" if "pos + 1 < length o'"
    using that by (simp add: take_Suc_conv_app_nth)
  then show ?thesis using ser o' by (auto simp: Let_def)
qed

section \<open>It fits\<close>

lemma length_u_digits_word: "length (u_digits (unat (x :: u32))) \<le> 10"
  using length_decimal [of "unat x" 9] unsigned_less [of x, where 'a = nat] by (simp add: u_digits_def)

lemma length_u_digits_small: "n < 1000 \<Longrightarrow> length (u_digits n) \<le> 3"
  using length_decimal [of n 2] by (simp add: u_digits_def)

lemma length_u_digits_action: "length (u_digits (Suc (action_number a))) = 1"
  by (cases a) (simp_all add: action_number_def u_digits_def)

lemma length_text_field: "length (text_field b ps) \<le> 4 * length ps"
proof (induction b ps rule: text_field.induct)
  case (2 b p ps)
  then show ?case using length_u_digits_small [of "unat p"] by auto
qed simp

lemma length_csi_body:
  "length (ed_encoded_mods d) \<le> 3 \<Longrightarrow> length (key_code_body d) \<le> 40 + (if ed_add_text d then 4 * length (ed_text d) else 0)"
  using length_u_digits_word [of "ed_key d"] length_u_digits_word [of "ed_shifted_key d"] length_u_digits_word [of "ed_alternate_key d"]
    length_text_field [of True "ed_text d"]
  by (auto simp: key_code_body_def Let_def length_u_digits_action)

text \<open>The result of an encoder: a length inside the buffer, which keeps its size.\<close>

definition fits :: "nat \<Rightarrow> (int \<times> u8 list) option \<Rightarrow> bool" where
  "fits n r = (\<exists>k out. r = Some (k, out) \<and> length out = n \<and> (k = SEND_TEXT_TO_CHILD \<or> 0 \<le> k \<and> k < int n))"

lemma fits_if: "(c \<Longrightarrow> fits n a) \<Longrightarrow> (\<not> c \<Longrightarrow> fits n b) \<Longrightarrow> fits n (if c then a else b)"
  by simp

lemma fits_print_all: "128 \<le> n \<Longrightarrow> length out = n \<Longrightarrow> length s < n \<Longrightarrow> fits n (Some (print_all s out))"
  by (auto simp: fits_def print_all_def snprintf_def overwrite_def)

definition short_text :: "key_event \<Rightarrow> bool" where
  "short_text ev = (length (m_encoded (ke_mods ev)) \<le> 3
     \<and> (ke_embed_text ev \<longrightarrow> (\<forall>t. ke_text ev = Some t \<longrightarrow> length t \<le> 21)))"

lemma fits_serialize:
  assumes "128 \<le> length out" "short_text ev"
  shows "fits (length out) (serialize ((init_encoding_data ev)\<lparr>ed_key := k, ed_add_alternates := b\<rparr>) out tr)"
    "fits (length out) (serialize (init_encoding_data ev) out tr)"
proof -
  let ?d = "(init_encoding_data ev)\<lparr>ed_key := k, ed_add_alternates := b\<rparr>"
  have "length (key_code_body ?d) \<le> 124" "length (key_code_body (init_encoding_data ev)) \<le> 124"
    using length_csi_body [of ?d] length_csi_body [of "init_encoding_data ev"] assms(2)
    by (auto simp: init_encoding_data_def Let_def short_text_def split: if_splits option.splits)
  then show "fits (length out) (serialize ?d out tr)" "fits (length out) (serialize (init_encoding_data ev) out tr)"
    using serialize_text [OF assms(1), of ?d tr] serialize_text [OF assms(1), of "init_encoding_data ev" tr] assms(1)
    by (auto simp: fits_def)
qed

lemma fits_legacy:
  assumes "128 \<le> length out"
  shows "encode_printable_ascii_key_legacy ev out = Some r \<Longrightarrow> fits (length out) (Some r)"
    "encode_key_legacy ev out = Some r \<Longrightarrow> fits (length out) (Some r)"
    "legacy_functional_key_encoding_with_modifiers k ev out = Some r \<Longrightarrow> fits (length out) (Some r)"
proof -
  have p: "encode_printable_ascii_key_legacy ev out = Some r \<Longrightarrow> fits (length out) (Some r)" for ev r
    using fits_print_all [OF assms refl] assms
    by (auto simp: encode_printable_ascii_key_legacy_def Let_def split: if_splits)
  then show "encode_printable_ascii_key_legacy ev out = Some r \<Longrightarrow> fits (length out) (Some r)" .
  show "encode_key_legacy ev out = Some r \<Longrightarrow> fits (length out) (Some r)"
    using p by (auto simp: encode_key_legacy_def Let_def split: if_splits option.splits)
  show "legacy_functional_key_encoding_with_modifiers k ev out = Some r \<Longrightarrow> fits (length out) (Some r)"
    using fits_print_all [OF assms refl] assms
    by (auto simp: legacy_functional_key_encoding_with_modifiers_def Let_def split: if_splits)
qed

lemma fits_function_key: "128 \<le> length out \<Longrightarrow> short_text ev \<Longrightarrow> fits (length out) (encode_function_key ev out)"
proof -
  assume out: "128 \<le> length out" and ev: "short_text ev"
  have "simple_function_key ev m out = Some r \<Longrightarrow> fits (length out) (Some r)" for m r
    using fits_print_all [OF out refl] fits_legacy(3) [OF out] out
    by (auto simp: simple_function_key_def Let_def split: if_splits option.splits)
  then show ?thesis
    using fits_serialize(1) [OF out ev] by (auto simp: encode_function_key_def Let_def split: option.split prod.split)
qed

lemma fits_encode_key: "128 \<le> length out \<Longrightarrow> short_text ev \<Longrightarrow> fits (length out) (encode_key ev out)"
proof -
  assume out: "128 \<le> length out" and ev: "short_text ev"
  have "out \<noteq> []" using out by auto
  then have zero: "fits (length out) (Some (0, out))" by (simp add: fits_def)
  have utf8: "fits (length out) (Some (int (length (encode_utf8 c)), overwrite out 0 (encode_utf8 c)))" for c
    using out length_encode_utf8 [of c] by (simp add: fits_def)
  show ?thesis
    using fits_serialize(2) [OF out ev] fits_function_key [OF out ev] fits_legacy(2) [OF out] zero utf8
    by (auto simp: encode_key_def Let_def split: option.split)
qed

lemma short_mods: "length (m_encoded (convert_glfw_mods m f)) \<le> 3"
  by (simp only: convert_glfw_mods_def Let_def key_mods.select_convs length_take min.cobounded2)

lemma key_encoding_ends:
  assumes "length out = 128" and "key_encoding_flags AND 16 = 0 \<or> (\<forall>t. g_text e = Some t \<longrightarrow> length t \<le> 21)"
  shows "\<exists>n out'. encode_glfw_key_event e cursor_key_mode key_encoding_flags out = Some (n, out') \<and> length out' = 128
    \<and> (n = SEND_TEXT_TO_CHILD \<or> 0 \<le> n \<and> n < 128)"
proof -
  have out: "128 \<le> length out" using assms(1) by simp
  have zero: "fits (length out) (Some (0, out))" "fits (length out) (Some (SEND_TEXT_TO_CHILD, out))"
    using out by (auto simp: fits_def)
  have ok: "key_encoding_flags AND 16 \<noteq> 0 \<longrightarrow> (\<forall>t. g_text e = Some t \<longrightarrow> length t \<le> 21)" using assms(2) by blast
  have "fits (length out) (encode_glfw_key_event e cursor_key_mode key_encoding_flags out)"
    unfolding encode_glfw_key_event_def Let_def
    by (intro fits_if zero fits_encode_key [OF out]) (simp (no_asm) add: short_text_def short_mods ok)
  then show ?thesis using assms(1) by (auto simp: fits_def)
qed

text \<open>
  C19: encode_glfw_key_event writes only inside its buffer of 128 bytes and returns less than 128,
  for every event and every flags, unless text of more than 21 bytes is to be embedded.
\<close>

theorem key_encoding_fits:
  assumes "length out = 128" and "key_encoding_flags AND 16 = 0 \<or> (\<forall>t. g_text e = Some t \<longrightarrow> length t \<le> 21)"
  shows "\<exists>n out'. encode_glfw_key_event e cursor_key_mode key_encoding_flags out = Some (n, out') \<and> length out' = 128
    \<and> (n = SEND_TEXT_TO_CHILD \<or> 0 \<le> n \<and> n < 128)"
  by (rule key_encoding_ends [OF assms])

lemma key_encoding_fits_witness:
  "\<exists>n out'. encode_glfw_key_event \<lparr>g_key = 0x61, g_shifted_key = 0x41, g_alternate_key = 0, g_mods = 1, g_action = 1, g_text = Some [0x41]\<rparr>
     False 31 (replicate 128 0) = Some (n, out') \<and> length out' = 128 \<and> (n = SEND_TEXT_TO_CHILD \<or> 0 \<le> n \<and> n < 128)"
  using key_encoding_fits [of "replicate 128 0" 31
    "\<lparr>g_key = 0x61, g_shifted_key = 0x41, g_alternate_key = 0, g_mods = 1, g_action = 1, g_text = Some [0x41]\<rparr>" False] by simp

section \<open>With all the flags of the protocol\<close>

text \<open>The event that is encoded then.\<close>

definition full_event :: "glfw_key_event \<Rightarrow> bool \<Rightarrow> u32 \<Rightarrow> key_event" where
  "full_event e cursor_key_mode key_encoding_flags =
     \<lparr>ke_key = g_key e, ke_shifted_key = g_shifted_key e, ke_alternate_key = g_alternate_key e,
      ke_mods = convert_glfw_mods (g_mods e) key_encoding_flags,
      ke_action = glfw_action (g_action e), ke_cursor_key_mode = cursor_key_mode, ke_disambiguate = True,
      ke_report_all_event_types = True, ke_report_alternate_key = True,
      ke_report_text = True, ke_embed_text = True, ke_text = g_text e,
      ke_has_text = (case g_text e of None \<Rightarrow> False | Some t \<Rightarrow> \<not> startswith_ascii_control_char t)\<rparr>"

definition is_text_key :: "u32 \<Rightarrow> bool" where
  "is_text_key key = (key \<noteq> 0 \<and> \<not> (GLFW_FKEY_FIRST \<le> key \<and> key \<le> GLFW_FKEY_LAST))"

lemma all_flags:
  assumes "f AND 31 = (31 :: u32)"
  shows "f AND 1 \<noteq> 0" "f AND 2 \<noteq> 0" "f AND 4 \<noteq> 0" "f AND 8 \<noteq> 0" "f AND 16 \<noteq> 0"
proof -
  have "f AND k = k" if "31 AND k = k" for k
    using assms that by (metis and.assoc)
  from this [of 1] this [of 2] this [of 4] this [of 8] this [of 16]
  show "f AND 1 \<noteq> 0" "f AND 2 \<noteq> 0" "f AND 4 \<noteq> 0" "f AND 8 \<noteq> 0" "f AND 16 \<noteq> 0" by simp_all
qed

lemma encode_full:
  assumes f: "f AND 31 = 31" and k: "is_text_key (g_key e)"
  shows "encode_glfw_key_event e m f out = serialize (init_encoding_data (full_event e m f)) out 0x75"
proof -
  let ?ev = "full_event e m f"
  have s: "encode_key ?ev out = serialize (init_encoding_data ?ev) out 0x75"
    using k by (auto simp: encode_key_def full_event_def is_text_key_def Let_def)
  have "encode_glfw_key_event e m f out = encode_key ?ev out"
    using k all_flags [OF f] by (simp add: encode_glfw_key_event_def Let_def full_event_def is_text_key_def)
  with s show ?thesis by simp
qed

lemma text_field_long: "list_all (\<lambda>c. 100 \<le> unat c \<and> unat c < 128) ps \<Longrightarrow> length (text_field b ps) = 4 * length ps"
proof (induction b ps rule: text_field.induct)
  case (2 b p ps)
  have "length (decimal n) = 3" if "100 \<le> n" "n < 128" for n
  proof -
    have "10 \<le> n div 10" "n div 10 \<le> 12" using div_le_mono [OF that(1), of 10] div_le_mono [of n 127 10] that by simp_all
    moreover from this have "n div 10 div 10 \<le> 1" using div_le_mono [of "n div 10" 12 10] by simp
    ultimately have "\<not> n < 10" "\<not> n div 10 < 10" "n div 10 div 10 < 10" using that by simp_all
    then show ?thesis by (simp add: decimal.simps [of n] decimal.simps [of "n div 10"] decimal.simps [of "n div 10 div 10"])
  qed
  then show ?case using 2 by (simp add: u_digits_def)
qed simp

theorem key_encoding_overruns:
  assumes "key_encoding_flags AND 31 = 31" and "is_text_key (g_key e)" and "g_text e = Some t"
    and "list_all (\<lambda>c. 100 \<le> unat c \<and> unat c < 128) t" and "32 \<le> length t" and "length out = 128"
  shows "encode_glfw_key_event e cursor_key_mode key_encoding_flags out = None"
proof -
  let ?d = "init_encoding_data (full_event e cursor_key_mode key_encoding_flags)"
  have d: "ed_add_text ?d" "ed_text ?d = t" using assms(3,5) by (auto simp: init_encoding_data_def Let_def full_event_def)
  have "length (text_field True t) \<le> length (key_code_body ?d)" unfolding key_code_body_def Let_def using d by simp
  then have "\<not> length (key_code_body ?d) + 1 < length out" using text_field_long [OF assms(4), of True] assms(5,6) by simp
  then show ?thesis using serialize_text [of out ?d] encode_full [OF assms(1,2)] assms(6) by simp
qed

lemma key_encoding_overruns_witness:
  "encode_glfw_key_event \<lparr>g_key = 0x61, g_shifted_key = 0, g_alternate_key = 0, g_mods = 0, g_action = 1, g_text = Some (replicate 32 0x65)\<rparr>
     False 31 (replicate 128 0) = None"
  by (rule key_encoding_overruns [of 31 _ "replicate 32 0x65"]) (simp_all add: is_text_key_def list_all_length)

section \<open>Reading the event back\<close>

text \<open>The syntax of the protocol: fields are separated by semicolons, their parts by colons; an empty or missing number has a default.\<close>

fun split_on :: "u8 \<Rightarrow> u8 list \<Rightarrow> u8 list \<Rightarrow> u8 list list" where
  "split_on sep cur [] = [cur]"
| "split_on sep cur (c # cs) = (if c = sep then cur # split_on sep [] cs else split_on sep (cur @ [c]) cs)"

definition number :: "u8 list \<Rightarrow> nat" where
  "number cs = fold (\<lambda>c n. 10 * n + (unat c - 0x30)) cs 0"

definition part :: "nat \<Rightarrow> nat \<Rightarrow> u8 list list \<Rightarrow> nat" where
  "part d i ps = (if i < length ps \<and> ps ! i \<noteq> [] then number (ps ! i) else d)"

definition field :: "nat \<Rightarrow> u8 list list \<Rightarrow> u8 list list" where
  "field i fs = (if i < length fs then split_on 0x3a [] (fs ! i) else [])"

record read_event =
  re_key :: nat
  re_shifted :: nat
  re_alternate :: nat
  re_mods :: nat
  re_action :: nat
  re_text :: "nat list"

definition read_key_event :: "u8 list \<Rightarrow> read_event option" where
  "read_key_event bs =
     (if take 2 bs = [0x1b, 0x5b] \<and> last bs = 0x75 then
        (let fs = split_on 0x3b [] (butlast (drop 2 bs)); ks = field 0 fs; ms = field 1 fs in
         Some \<lparr>re_key = part 1 0 ks, re_shifted = part 0 1 ks, re_alternate = part 0 2 ks,
               re_mods = part 1 0 ms, re_action = part 1 1 ms, re_text = map number (field 2 fs)\<rparr>)
      else None)"

lemma split_on_sep: "sep \<notin> set xs \<Longrightarrow> split_on sep cur (xs @ sep # ys) = (cur @ xs) # split_on sep [] ys"
  by (induction xs arbitrary: cur) auto

lemma split_on_end: "sep \<notin> set xs \<Longrightarrow> split_on sep cur xs = [cur @ xs]"
  by (induction xs arbitrary: cur) auto

lemma number_snoc: "number (cs @ [c]) = 10 * number cs + (unat c - 0x30)"
  by (simp add: number_def)

lemma u_digits_props: "number (u_digits n) = n \<and> u_digits n \<noteq> [] \<and> (\<forall>c \<in> set (u_digits n). 0x30 \<le> c \<and> c \<le> 0x39)"
proof (induction n rule: decimal.induct)
  case (1 n)
  have digit: "unat (ucast (word_of_nat (48 + k) :: u32) :: u8) = 48 + k" if "k < 10" for k
    using that by (simp add: unsigned_ucast_eq unat_word_of_nat_u32 take_bit_eq_mod del: of_nat_add)
  have le: "0x30 \<le> c \<and> c \<le> (0x39 :: u8)" if "unat c = 48 + k" "k < 10" for c k
    using that by (simp add: word_le_nat_alt)
  show ?case
  proof (cases "n < 10")
    case True
    then show ?thesis using digit [OF True] le [OF digit [OF True] True] by (simp add: u_digits_def decimal.simps [of n] number_def)
  next
    case False
    have m: "n mod 10 < 10" by simp
    have d: "u_digits n = u_digits (n div 10) @ [ucast (word_of_nat (48 + n mod 10) :: u32)]"
      using False by (simp add: u_digits_def decimal.simps [of n])
    show ?thesis
      using 1 [OF False] digit [OF m] le [OF digit [OF m] m] unfolding d number_snoc by auto
  qed
qed

lemma u_digits_no_sep: "0x3a \<notin> set (u_digits n)" "0x3b \<notin> set (u_digits n)"
  using u_digits_props [of n] by (auto dest!: bspec)

text \<open>The fields of the text.\<close>

definition key_field :: "encoding_data \<Rightarrow> u8 list" where
  "key_field d =
     (if ed_key d \<noteq> 1 \<or> ed_add_alternates d \<or> ed_has_mods d \<or> ed_add_actions d \<or> ed_add_text d
      then u_digits (unat (ed_key d)) else [])
     @ (if ed_add_alternates d then
           [0x3a] @ (if ed_shifted_key d \<noteq> 0 then u_digits (unat (ed_shifted_key d)) else [])
           @ (if ed_alternate_key d \<noteq> 0 then 0x3a # u_digits (unat (ed_alternate_key d)) else []) else [])"

definition mods_field :: "encoding_data \<Rightarrow> u8 list" where
  "mods_field d =
     (if ed_has_mods d \<or> ed_add_actions d then ed_encoded_mods d else [])
     @ (if ed_add_actions d then 0x3a # u_digits (action_number (ed_action d) + 1) else [])"

lemma csi_body_fields:
  "key_code_body d = [0x1b, 0x5b] @ key_field d
     @ (if ed_has_mods d \<or> ed_add_actions d \<or> ed_add_text d then 0x3b # mods_field d else [])
     @ (if ed_add_text d then text_field True (ed_text d) else [])"
  by (simp add: key_code_body_def key_field_def mods_field_def Let_def)

lemma split_text:
  "list_all (\<lambda>c. unat c < 128) ps \<Longrightarrow> 0x3a \<notin> set x \<Longrightarrow>
   split_on 0x3a cur (x @ text_field False ps) = (cur @ x) # map (\<lambda>c. u_digits (unat c)) ps"
proof (induction ps arbitrary: x cur)
  case (Cons p ps)
  then have "split_on 0x3a [] (u_digits (unat p) @ text_field False ps) = ([] @ u_digits (unat p)) # map (\<lambda>c. u_digits (unat c)) ps"
    by (intro Cons.IH) (simp_all add: u_digits_no_sep)
  then show ?case using Cons.prems split_on_sep [OF Cons.prems(2), of cur "u_digits (unat p) @ text_field False ps"] by simp
qed (simp add: split_on_end)

lemma text_field_no_semicolon: "0x3b \<notin> set (text_field False ps)"
  by (induction False ps rule: text_field.induct) (auto simp: u_digits_no_sep)

lemma key_field_parts:
  assumes "ed_add_alternates d \<or> ed_shifted_key d = 0 \<and> ed_alternate_key d = 0"
  shows "part 1 0 (split_on 0x3a [] (key_field d)) = unat (ed_key d)"
    "part 0 1 (split_on 0x3a [] (key_field d)) = unat (ed_shifted_key d)"
    "part 0 2 (split_on 0x3a [] (key_field d)) = unat (ed_alternate_key d)"
    "0x3b \<notin> set (key_field d)"
  using assms
  by (auto simp: key_field_def split_on_sep split_on_end u_digits_no_sep part_def u_digits_props)

lemma mods_field_parts:
  assumes "ed_encoded_mods d = u_digits m" "\<not> ed_has_mods d \<Longrightarrow> m = 1" "\<not> ed_add_actions d \<Longrightarrow> ed_action d = PRESS"
  shows "part 1 0 (split_on 0x3a [] (mods_field d)) = m"
    "part 1 1 (split_on 0x3a [] (mods_field d)) = action_number (ed_action d) + 1"
    "0x3b \<notin> set (mods_field d)"
  using assms
  by (auto simp: mods_field_def split_on_sep split_on_end u_digits_no_sep part_def u_digits_props action_number_def)

lemma fields_of_body:
  assumes "0x3b \<notin> set (key_field d)" "0x3b \<notin> set (mods_field d)" "ed_add_text d \<longrightarrow> ed_text d \<noteq> []"
    "list_all (\<lambda>c. unat c < 128) (ed_text d)"
  shows "split_on 0x3b [] (drop 2 (key_code_body d)) =
      [key_field d] @ (if ed_has_mods d \<or> ed_add_actions d \<or> ed_add_text d then [mods_field d] else [])
      @ (if ed_add_text d then [u_digits (unat (hd (ed_text d))) @ text_field False (tl (ed_text d))] else [])"
proof (cases "ed_add_text d")
  case True
  then obtain c cs where t: "ed_text d = c # cs" using assms(3) by (cases "ed_text d") auto
  have x: "text_field True (ed_text d) = 0x3b # u_digits (unat c) @ text_field False cs" using assms(4) by (simp add: t)
  have "split_on 0x3b [] (u_digits (unat c) @ text_field False cs) = [u_digits (unat c) @ text_field False cs]"
    by (subst split_on_end) (simp_all add: u_digits_no_sep text_field_no_semicolon)
  then show ?thesis using True assms(1,2) unfolding csi_body_fields x by (simp add: split_on_sep t)
next
  case False
  then show ?thesis using assms(1,2) by (simp add: csi_body_fields split_on_sep split_on_end)
qed

lemma mods_encoded: "m_encoded (convert_glfw_mods m f) = u_digits (unat (m_value (convert_glfw_mods m f)) + 1)"
proof -
  let ?v = "m_value (convert_glfw_mods m f)"
  have b: "(if c then k else 0) AND 255 = (if c then k else (0 :: u32))" if "k AND 255 = k" for c k
    using that by simp
  have "?v AND 255 = ?v"
    unfolding convert_glfw_mods_def Let_def key_mods.select_convs bit.conj_disj_distrib2 by (subst b, simp)+ (rule refl)
  moreover have "(255 :: u32) = mask 8" by (simp add: mask_eq_exp_minus_1)
  ultimately have "unat ?v = unat ?v mod 2 ^ 8" using unat_and_mask [of 255 8 ?v] by simp
  moreover have "unat ?v mod 2 ^ 8 < 256" by simp
  ultimately have v: "unat ?v < 256" by linarith
  have "m_encoded (convert_glfw_mods m f) = take 3 (u_digits (unat (?v + 1)))"
    by (simp only: convert_glfw_mods_def Let_def key_mods.select_convs)
  moreover have "unat (?v + 1) = unat ?v + 1" using v by (simp add: unat_word_ariths)
  ultimately show ?thesis using length_u_digits_small [of "unat ?v + 1"] v by simp
qed

text \<open>
  C18: With all progressive enhancements of the keyboard protocol enabled, the escape code written
  for any event of a text key, with an ASCII text of up to 21 characters, reads back to the key,
  its shifted and alternate keys, the modifiers, the action and the text.
\<close>

theorem key_event_roundtrip:
  assumes "key_encoding_flags AND 31 = 31" and "is_text_key (g_key e)"
    and "list_all (\<lambda>c. unat c < 128) (case_option [] id (g_text e))" and "length (case_option [] id (g_text e)) \<le> 21"
    and "length out = 128"
  shows "\<exists>n out'. encode_glfw_key_event e cursor_key_mode key_encoding_flags out = Some (int n, out')
    \<and> read_key_event (take n out') = Some
        \<lparr>re_key = unat (g_key e), re_shifted = (if g_mods e AND 1 \<noteq> 0 then unat (g_shifted_key e) else 0),
         re_alternate = unat (g_alternate_key e),
         re_mods = unat (m_value (convert_glfw_mods (g_mods e) key_encoding_flags)) + 1,
         re_action = action_number (glfw_action (g_action e)) + 1, re_text = map unat (case_option [] id (g_text e))\<rparr>"
proof -
  let ?ev = "full_event e cursor_key_mode key_encoding_flags" and ?t = "case_option [] id (g_text e)"
  let ?m = "convert_glfw_mods (g_mods e) key_encoding_flags"
  define d where "d = init_encoding_data ?ev"
  have f: "ed_key d = g_key e" "ed_text d = ?t" "ed_action d = glfw_action (g_action e)" "ed_encoded_mods d = m_encoded ?m"
    "ed_add_actions d = (glfw_action (g_action e) \<noteq> PRESS)" "ed_add_text d = (?t \<noteq> [])"
    by (auto simp: d_def init_encoding_data_def Let_def full_event_def split: option.splits)
  have sh: "m_shift ?m = (g_mods e AND 1 \<noteq> 0)"
  proof -
    have "key_encoding_flags \<noteq> 0" using assms(1) by auto
    then show ?thesis by (simp only: convert_glfw_mods_def Let_def key_mods.select_convs if_False)
  qed
  have alt: "ed_add_alternates d \<or> ed_shifted_key d = 0 \<and> ed_alternate_key d = 0"
    "ed_shifted_key d = (if g_mods e AND 1 \<noteq> 0 then g_shifted_key e else 0)" "ed_alternate_key d = g_alternate_key e"
    by (auto simp: d_def init_encoding_data_def Let_def full_event_def sh word_gt_0)
  have one: "unat (m_value ?m) + 1 = 1" if "\<not> ed_has_mods d"
  proof -
    have "u_digits (unat (m_value ?m) + 1) = [0x31]"
      using that u_digits_props [of "unat (m_value ?m) + 1"]
      by (cases "u_digits (unat (m_value ?m) + 1)") (auto simp: d_def init_encoding_data_def Let_def full_event_def mods_encoded)
    then show ?thesis using u_digits_props [of "unat (m_value ?m) + 1"] by (simp add: number_def)
  qed
  note kf = key_field_parts [OF alt(1)]
  have mf: "part 1 0 (split_on 0x3a [] (mods_field d)) = unat (m_value ?m) + 1"
    "part 1 1 (split_on 0x3a [] (mods_field d)) = action_number (ed_action d) + 1" "0x3b \<notin> set (mods_field d)"
    using mods_field_parts [of d "unat (m_value ?m) + 1"] f one mods_encoded [of "g_mods e" key_encoding_flags] by simp_all
  have no_mods: "unat (m_value ?m) + 1 = 1 \<and> action_number (ed_action d) + 1 = 1" if "\<not> (ed_has_mods d \<or> ed_add_actions d \<or> ed_add_text d)"
    using that one f by (simp add: action_number_def)
  have fs: "split_on 0x3b [] (drop 2 (key_code_body d)) =
      [key_field d] @ (if ed_has_mods d \<or> ed_add_actions d \<or> ed_add_text d then [mods_field d] else [])
      @ (if ed_add_text d then [u_digits (unat (hd (ed_text d))) @ text_field False (tl (ed_text d))] else [])"
    by (rule fields_of_body) (use kf mf f assms(3) in simp_all)
  have codes: "map number (split_on 0x3a [] (u_digits (unat (hd (ed_text d))) @ text_field False (tl (ed_text d)))) = map unat ?t" if "?t \<noteq> []"
    using split_text [of "tl ?t" "u_digits (unat (hd ?t))" "[]"] assms(3) that
    by (cases ?t) (simp_all add: f u_digits_no_sep u_digits_props comp_def)
  have len: "length (key_code_body d) \<le> 124"
    using length_csi_body [of d] assms(4) short_mods [of "g_mods e" key_encoding_flags] by (auto simp: f split: if_splits)
  obtain out' where o': "serialize d out 0x75 = Some (int (length (key_code_body d) + 1), out')"
    "take (length (key_code_body d) + 1) out' = key_code_body d @ [0x75]"
    using serialize_text [of out d "0x75"] len assms(5) by auto
  have "read_key_event (key_code_body d @ [0x75]) = Some
      \<lparr>re_key = unat (ed_key d), re_shifted = unat (ed_shifted_key d), re_alternate = unat (ed_alternate_key d),
       re_mods = unat (m_value ?m) + 1, re_action = action_number (ed_action d) + 1, re_text = map unat ?t\<rparr>"
  proof -
    have "take 2 (key_code_body d) = [0x1b, 0x5b]" "2 \<le> length (key_code_body d)" by (simp_all add: key_code_body_def Let_def)
    then have "read_key_event (key_code_body d @ [0x75]) =
        (let fs = split_on 0x3b [] (drop 2 (key_code_body d)); ks = field 0 fs; ms = field 1 fs in
         Some \<lparr>re_key = part 1 0 ks, re_shifted = part 0 1 ks, re_alternate = part 0 2 ks,
               re_mods = part 1 0 ms, re_action = part 1 1 ms, re_text = map number (field 2 fs)\<rparr>)"
      by (simp add: read_key_event_def butlast_append)
    then show ?thesis
      using kf mf no_mods codes f(6) unfolding fs Let_def
      by (cases "ed_has_mods d \<or> ed_add_actions d \<or> ed_add_text d"; cases "?t = []") (simp_all add: field_def part_def [of _ _ "[]"])
  qed
  then show ?thesis
    using o' encode_full [OF assms(1,2), of cursor_key_mode out, folded d_def]
    by (intro exI [of _ "length (key_code_body d) + 1"] exI [of _ out']) (simp add: f alt if_distrib [of unat])
qed

lemma key_event_roundtrip_witness:
  "\<exists>n out'. encode_glfw_key_event \<lparr>g_key = 0x61, g_shifted_key = 0x41, g_alternate_key = 0x441, g_mods = 5, g_action = 0, g_text = Some [0x41]\<rparr>
     False 31 (replicate 128 0) = Some (int n, out')
    \<and> read_key_event (take n out') = Some \<lparr>re_key = 0x61, re_shifted = 0x41, re_alternate = 0x441, re_mods = 6, re_action = 3, re_text = [0x41]\<rparr>"
proof -
  have "m_value (convert_glfw_mods 5 31) = 5" by (simp add: convert_glfw_mods_def)
  then show ?thesis
    using key_event_roundtrip [of 31 "\<lparr>g_key = 0x61, g_shifted_key = 0x41, g_alternate_key = 0x441, g_mods = 5, g_action = 0, g_text = Some [0x41]\<rparr>"
        "replicate 128 0" False]
    by (simp add: is_text_key_def glfw_action_def action_number_def)
qed

end
