(* ===== verification/Key_Input.thy ===== *)
theory Key_Input
  imports Screen_Modes Key_Encoding_Text
begin

text \<open>
  A key event in a window, \<^verbatim>\<open>on_key_input\<close> and \<^verbatim>\<open>fake_scroll\<close> of \<^verbatim>\<open>smelly/keys.c\<close>: the input method, the shortcuts, which the
  program in Python handles and which swallow their release events, and what is written to the child.
\<close>

section \<open>The state and the outside\<close>

datatype ime_state = IME_NONE | IME_PREEDIT_CHANGED | IME_COMMIT_TEXT | IME_WAYLAND_DONE_EVENT | IME_INVALID

text \<open>The active window. \<open>kw_exists\<close> gets false when the code in Python closes it.\<close>

record key_window =
  kw_screen :: screen
  kw_last_special_key_pressed :: u32
  kw_exists :: bool

datatype key_output =
  Write_to_child "u8 list"
| Draw_overlay_text "u8 list option"
| Update_ime_position
| Hide_mouse

text \<open>What a call into Python returns: whether it succeeded, whether it returned true, and whether the window exists after it.\<close>

record dispatch_result =
  dr_ok :: bool
  dr_consumed :: bool
  dr_window_exists :: bool

record key_env =
  k_hide_mouse :: bool
  k_in_sequence_mode :: bool
  k_process_sequence :: "glfw_key_event \<Rightarrow> dispatch_result"
  k_dispatch_possible_special_key :: "glfw_key_event \<Rightarrow> dispatch_result"
  k_send_signal_for_key :: "u8 \<Rightarrow> bool"

section \<open>The operations\<close>

text \<open>The part after the shortcuts: encoding and writing. \<open>None\<close> is a write outside the buffer.\<close>

definition send_key :: "key_env \<Rightarrow> glfw_key_event \<Rightarrow> screen \<Rightarrow> key_output list option" where
  "send_key env ev s =
     (case encode_glfw_key_event ev (mDECCKM (s_modes s)) (ucast (screen_current_key_encoding_flags s)) (replicate KEY_BUFFER_SIZE 0) of
        None \<Rightarrow> None
      | Some (n, encoded_key) \<Rightarrow>
          Some (if n = SEND_TEXT_TO_CHILD then [Write_to_child (case g_text ev of Some t \<Rightarrow> t | None \<Rightarrow> [])]
                else if n > 0 then
                  (if n = 1 \<and> mHANDLE_TERMIOS_SIGNALS (s_modes s) \<and> k_send_signal_for_key env (hd encoded_key) then []
                   else [Write_to_child (take (nat n) encoded_key)])
                else []))"

text \<open>Shortcuts: whether the event is handled, and the window after that.\<close>

definition handle_shortcut :: "key_env \<Rightarrow> glfw_key_event \<Rightarrow> key_window \<Rightarrow> bool \<times> key_window" where
  "handle_shortcut env ev w =
     (if g_action ev = 1 \<or> g_action ev = 2 then
        (let r = k_dispatch_possible_special_key env ev;
             w = w\<lparr>kw_last_special_key_pressed := 0, kw_exists := dr_window_exists r\<rparr>
         in if dr_ok r \<and> dr_consumed r
            then (True, if kw_exists w then w\<lparr>kw_last_special_key_pressed := g_key ev\<rparr> else w)
            else (\<not> kw_exists w, w))
      else if kw_last_special_key_pressed w = g_key ev then (True, w\<lparr>kw_last_special_key_pressed := 0\<rparr>)
      else (False, w))"

definition on_key_input ::
  "key_env \<Rightarrow> glfw_key_event \<Rightarrow> ime_state \<Rightarrow> key_window \<Rightarrow> (key_window \<times> key_output list) option" where
  "on_key_input env ev ime w =
     (if \<not> kw_exists w then Some (w, [])
      else
        (let hide = (if k_hide_mouse env \<and> \<not> is_modifier_key (g_key ev) then [Hide_mouse] else []);
             committed = (case g_text ev of Some t \<Rightarrow> t | None \<Rightarrow> [])
         in case ime of
              IME_WAYLAND_DONE_EVENT \<Rightarrow> Some (w, hide @ [Draw_overlay_text None])
            | IME_PREEDIT_CHANGED \<Rightarrow> Some (w, hide @ [Update_ime_position, Draw_overlay_text (Some committed)])
            | IME_COMMIT_TEXT \<Rightarrow>
                Some (w, hide @ (if committed \<noteq> [] then [Write_to_child committed] else []) @ [Draw_overlay_text None])
            | IME_INVALID \<Rightarrow> Some (w, hide)
            | IME_NONE \<Rightarrow>
                (let outs = hide @ [Update_ime_position] in
                 if k_in_sequence_mode env then
                   (let r = k_process_sequence env ev; w = w\<lparr>kw_exists := dr_window_exists r\<rparr> in
                    Some (if dr_ok r \<and> dr_consumed r \<and> g_action ev \<noteq> 0 \<and> kw_exists w \<and> \<not> is_modifier_key (g_key ev)
                          then w\<lparr>kw_last_special_key_pressed := g_key ev\<rparr> else w, outs))
                 else
                   (case handle_shortcut env ev w of
                      (True, w) \<Rightarrow> Some (w, outs)
                    | (False, w) \<Rightarrow>
                        if g_action ev = 2 \<and> \<not> mDECARM (s_modes (kw_screen w)) then Some (w, outs)
                        else
                          (let s = kw_screen w;
                               s = (if s_scrolled_by s \<noteq> 0 \<and> g_action ev = 1 \<and> \<not> is_modifier_key (g_key ev)
                                    then snd (screen_history_scroll SCROLL_FULL False s) else s)
                           in case send_key env ev s of
                                None \<Rightarrow> None
                              | Some sent \<Rightarrow> Some (w\<lparr>kw_screen := s\<rparr>, outs @ sent))))))"

text \<open>\<^verbatim>\<open>fake_scroll\<close>: the result is what is written.\<close>

definition arrow_event :: "bool \<Rightarrow> int \<Rightarrow> glfw_key_event" where
  "arrow_event upwards action =
     \<lparr>g_key = (if upwards then 0xe008 else 0xe009), g_shifted_key = 0, g_alternate_key = 0, g_mods = 0, g_action = action,
      g_text = None\<rparr>"

definition fake_key :: "screen \<Rightarrow> glfw_key_event \<Rightarrow> u8 list \<Rightarrow> (u8 list list \<times> u8 list) option" where
  "fake_key s ev encoded_key =
     (case encode_glfw_key_event ev (mDECCKM (s_modes s)) (ucast (screen_current_key_encoding_flags s)) encoded_key of
        None \<Rightarrow> None
      | Some (n, encoded_key) \<Rightarrow> Some (if n > 0 then [take (nat n) encoded_key] else [], encoded_key))"

fun fake_scroll_loop :: "nat \<Rightarrow> bool \<Rightarrow> screen \<Rightarrow> u8 list \<Rightarrow> u8 list list option" where
  "fake_scroll_loop 0 upwards s encoded_key = Some []"
| "fake_scroll_loop (Suc amount) upwards s encoded_key =
     (case fake_key s (arrow_event upwards 1) encoded_key of
        None \<Rightarrow> None
      | Some (press, encoded_key) \<Rightarrow>
          (case fake_key s (arrow_event upwards 0) encoded_key of
             None \<Rightarrow> None
           | Some (release, encoded_key) \<Rightarrow>
               (case fake_scroll_loop amount upwards s encoded_key of
                  None \<Rightarrow> None
                | Some rest \<Rightarrow> Some (press @ release @ rest))))"

definition fake_scroll :: "nat \<Rightarrow> bool \<Rightarrow> screen \<Rightarrow> u8 list list option" where
  "fake_scroll amount upwards s = fake_scroll_loop amount upwards s (replicate KEY_BUFFER_SIZE 0)"

section \<open>Properties\<close>

text \<open>What is written for an event.\<close>

definition writes :: "key_output list \<Rightarrow> u8 list list" where
  "writes outs = concat (map (\<lambda>e. case e of Write_to_child b \<Rightarrow> [b] | _ \<Rightarrow> []) outs)"

theorem shortcut_key_never_reaches_child:
  assumes "kw_exists w" and "\<not> k_in_sequence_mode env" and "g_action press = 1" and "g_action release = 0"
    and "g_key release = g_key press"
    and "dr_ok (k_dispatch_possible_special_key env press)" and "dr_consumed (k_dispatch_possible_special_key env press)"
    and "dr_window_exists (k_dispatch_possible_special_key env press)"
  shows "\<exists>w1 o1 w2 o2. on_key_input env press IME_NONE w = Some (w1, o1) \<and> on_key_input env release IME_NONE w1 = Some (w2, o2)
    \<and> writes o1 = [] \<and> writes o2 = [] \<and> kw_screen w2 = kw_screen w \<and> kw_last_special_key_pressed w2 = 0"
  using assms by (simp add: on_key_input_def handle_shortcut_def Let_def writes_def)

definition arrow_code :: "bool \<Rightarrow> bool \<Rightarrow> u8 list" where
  "arrow_code upwards cursor_key_mode =
     [0x1b, if cursor_key_mode then 0x4f else 0x5b, if upwards then 0x41 else 0x42]"

lemma zero_flags_mods: "convert_glfw_mods 0 0 = zero_mods\<lparr>m_encoded := [0x31]\<rparr>"
  by code_simp

lemma take_print_all: "length s < 128 \<Longrightarrow> 128 \<le> length out \<Longrightarrow> take (length s) (snd (print_all s out)) = s \<and> length (snd (print_all s out)) = length out"
proof -
  assume s: "length s < 128" "128 \<le> length out"
  have "snd (print_all s out) = overwrite out 0 (s @ [0])" using s(1) by (simp add: print_all_def snprintf_def)
  then show ?thesis using s by (simp add: overwrite_def)
qed

lemma arrow_press:
  assumes "length out = 128"
  shows "\<exists>out'. encode_glfw_key_event (arrow_event upwards 1) m 0 out = Some (3, out') \<and> length out' = 128
    \<and> take 3 out' = arrow_code upwards m"
proof -
  define c where "c = (if upwards then 0x41 else 0x42 :: u8)"
  define ev where "ev = \<lparr>ke_key = (if upwards then 0xe008 else 0xe009), ke_shifted_key = 0, ke_alternate_key = 0,
     ke_mods = zero_mods\<lparr>m_encoded := [0x31]\<rparr>, ke_action = PRESS, ke_cursor_key_mode = m, ke_disambiguate = False,
     ke_report_all_event_types = False, ke_report_alternate_key = False, ke_report_text = False, ke_embed_text = False,
     ke_text = None, ke_has_text = False\<rparr>"
  have e: "encode_glfw_key_event (arrow_event upwards 1) m 0 out = encode_function_key ev out"
    by (simp add: encode_glfw_key_event_def arrow_event_def Let_def is_modifier_key_def glfw_action_def zero_flags_mods
        encode_key_def ev_def)
  show ?thesis
  proof (cases m)
    case True
    then have "encode_function_key ev out = Some (print_all [0x1b, 0x4f, c] out)"
      by (simp add: encode_function_key_def simple_function_key_def Let_def ev_def zero_mods_def cursor_mode_keys_def c_def)
    then show ?thesis
      using take_print_all [of "[0x1b, 0x4f, c]" out] assms True
      unfolding e by (intro exI [of _ "snd (print_all [0x1b, 0x4f, c] out)"]) (simp add: arrow_code_def c_def print_all_def numeral_3_eq_3)
  next
    case False
    define d where "d = (init_encoding_data ev)\<lparr>ed_key := 1, ed_add_alternates := False\<rparr>"
    have body: "key_code_body d = [0x1b, 0x5b]"
      by (simp add: d_def key_code_body_def init_encoding_data_def Let_def ev_def zero_mods_def)
    have "encode_function_key ev out = serialize d out c"
      using False
      by (simp add: encode_function_key_def simple_function_key_def Let_def ev_def zero_mods_def f1_to_f4_def special_numbers_def c_def d_def)
    then show ?thesis
      unfolding e using serialize_text [of out d c] assms False by (auto simp: body arrow_code_def c_def numeral_3_eq_3)
  qed
qed

lemma arrow_release: "encode_glfw_key_event (arrow_event upwards 0) m 0 out = Some (0, out)"
  by (simp add: encode_glfw_key_event_def arrow_event_def Let_def is_modifier_key_def glfw_action_def encode_key_def)

theorem fake_scroll_writes_arrows:
  assumes "screen_current_key_encoding_flags s = 0"
  shows "fake_scroll n upwards s = Some (replicate n (arrow_code upwards (mDECCKM (s_modes s))))"
proof -
  have "fake_scroll_loop n upwards s out = Some (replicate n (arrow_code upwards (mDECCKM (s_modes s))))" if "length out = 128" for out
    using that
  proof (induction n arbitrary: out)
    case (Suc n)
    obtain out' where o': "encode_glfw_key_event (arrow_event upwards 1) (mDECCKM (s_modes s)) 0 out = Some (3, out')"
      "length out' = 128" "take 3 out' = arrow_code upwards (mDECCKM (s_modes s))"
      using arrow_press [OF Suc.prems] by blast
    show ?case using Suc.IH [OF o'(2)] o' assms by (simp add: fake_key_def arrow_release)
  qed simp
  then show ?thesis by (simp add: fake_scroll_def)
qed

lemma fake_scroll_writes_arrows_witness:
  "fake_scroll 2 True example_screen = Some [[0x1b, 0x5b, 0x41], [0x1b, 0x5b, 0x41]]"
proof -
  have "screen_current_key_encoding_flags example_screen = 0"
    by (simp add: screen_current_key_encoding_flags_def s_keys_def example_screen_fields) code_simp
  from fake_scroll_writes_arrows [OF this, of 2 True] show ?thesis
    by (simp add: arrow_code_def example_screen_fields empty_modes_def numeral_2_eq_2)
qed

definition shortcut_env :: key_env where
  "shortcut_env = \<lparr>k_hide_mouse = False, k_in_sequence_mode = False,
     k_process_sequence = \<lambda>_. \<lparr>dr_ok = True, dr_consumed = False, dr_window_exists = True\<rparr>,
     k_dispatch_possible_special_key = \<lambda>ev. \<lparr>dr_ok = True, dr_consumed = (g_key ev = 0x74), dr_window_exists = True\<rparr>,
     k_send_signal_for_key = \<lambda>_. False\<rparr>"

lemma shortcut_key_never_reaches_child_witness:
  "\<exists>w1 o1 w2 o2. on_key_input shortcut_env \<lparr>g_key = 0x74, g_shifted_key = 0, g_alternate_key = 0, g_mods = 5, g_action = 1, g_text = None\<rparr>
       IME_NONE \<lparr>kw_screen = example_screen, kw_last_special_key_pressed = 0, kw_exists = True\<rparr> = Some (w1, o1)
    \<and> on_key_input shortcut_env \<lparr>g_key = 0x74, g_shifted_key = 0, g_alternate_key = 0, g_mods = 0, g_action = 0, g_text = None\<rparr>
       IME_NONE w1 = Some (w2, o2)
    \<and> writes o1 = [] \<and> writes o2 = [] \<and> kw_screen w2 = example_screen \<and> kw_last_special_key_pressed w2 = 0"
  using shortcut_key_never_reaches_child
    [of "\<lparr>kw_screen = example_screen, kw_last_special_key_pressed = 0, kw_exists = True\<rparr>" shortcut_env
        "\<lparr>g_key = 0x74, g_shifted_key = 0, g_alternate_key = 0, g_mods = 5, g_action = 1, g_text = None\<rparr>"
        "\<lparr>g_key = 0x74, g_shifted_key = 0, g_alternate_key = 0, g_mods = 0, g_action = 0, g_text = None\<rparr>"]
  by (simp add: shortcut_env_def)

end
