(* ===== verification/Mouse_Encoding.thy ===== *)
theory Mouse_Encoding
  imports Complex_Main Key_Encoding_Text Screen_State
begin

text \<open>
  The reports of mouse events, first part of \<^verbatim>\<open>smelly/mouse.c\<close>: the five protocols. The texts are bounded by the buffer,
  and in the SGR protocol the event can be read back; with two of the older protocols it cannot.
\<close>

section \<open>Encoding\<close>

datatype mouse_action = MOUSE_PRESS | MOUSE_RELEASE | MOUSE_DRAG | MOUSE_MOVE

abbreviation (input) UINT_MAX :: u32 where "UINT_MAX \<equiv> 0xffffffff"
abbreviation (input) SHIFT_INDICATOR :: u32 where "SHIFT_INDICATOR \<equiv> 4"
abbreviation (input) ALT_INDICATOR :: u32 where "ALT_INDICATOR \<equiv> 8"
abbreviation (input) CONTROL_INDICATOR :: u32 where "CONTROL_INDICATOR \<equiv> 16"
abbreviation (input) MOTION_INDICATOR :: u32 where "MOTION_INDICATOR \<equiv> 32"
abbreviation (input) SCROLL_BUTTON_INDICATOR :: u32 where "SCROLL_BUTTON_INDICATOR \<equiv> 64"
abbreviation (input) EXTRA_BUTTON_INDICATOR :: u32 where "EXTRA_BUTTON_INDICATOR \<equiv> 128"

text \<open>The cell is \<^verbatim>\<open>unsigned\<close>; \<^verbatim>\<open>int x = cell_x + 1\<close> wraps around.\<close>

record mouse_position =
  mp_cell_x :: u32
  mp_cell_y :: u32
  mp_global_x :: real
  mp_global_y :: real

definition button_map :: "int \<Rightarrow> u32" where
  "button_map button =
     (if button = 0 then 1 else if button = 1 then 3 else if button = 2 then 2
      else if 3 \<le> button \<and> button \<le> 7 then word_of_int (button + 5)
      else UINT_MAX)"

definition encode_button :: "u32 \<Rightarrow> u32" where
  "encode_button button =
     (if button \<ge> 8 \<and> button \<le> 11 then (button - 8) OR EXTRA_BUTTON_INDICATOR
      else if button \<ge> 4 \<and> button \<le> 7 then (button - 4) OR SCROLL_BUTTON_INDICATOR
      else if button \<ge> 1 \<and> button \<le> 3 then button - 1
      else UINT_MAX)"

text \<open>\<^verbatim>\<open>"%d"\<close>, and \<^verbatim>\<open>round\<close>, which rounds halves away from zero.\<close>

definition decimal_int :: "int \<Rightarrow> u8 list" where
  "decimal_int n = (if n < 0 then 0x2d # u_digits (nat (- n)) else u_digits (nat n))"

definition c_round :: "real \<Rightarrow> int" where
  "c_round r = (if r \<ge> 0 then \<lfloor>r + 1 / 2\<rfloor> else - \<lfloor>1 / 2 - r\<rfloor>)"

text \<open>The number of the button and the modifiers; \<open>None\<close> is the early return of 0.\<close>

definition mouse_code :: "u32 \<Rightarrow> mouse_action \<Rightarrow> u32 \<Rightarrow> mouse_tracking_protocol \<Rightarrow> u32 option" where
  "mouse_code button action mods protocol =
     (let cb = encode_button button in
      if action \<noteq> MOUSE_MOVE \<and> cb = UINT_MAX then None
      else
        (let cb = (if action = MOUSE_MOVE then (if cb = UINT_MAX then 3 else cb) + 32 else cb);
             cb = (if action = MOUSE_DRAG \<or> action = MOUSE_MOVE then cb OR MOTION_INDICATOR
                   else if action = MOUSE_RELEASE \<and> (protocol = NORMAL_PROTOCOL \<or> protocol = UTF8_PROTOCOL) then 3
                   else cb);
             cb = (if mods AND 1 \<noteq> 0 then cb OR SHIFT_INDICATOR else cb);
             cb = (if mods AND 2 \<noteq> 0 then cb OR ALT_INDICATOR else cb)
         in Some (if mods AND 4 \<noteq> 0 then cb OR CONTROL_INDICATOR else cb)))"

definition encode_mouse_event_impl ::
  "mouse_position \<Rightarrow> mouse_tracking_protocol \<Rightarrow> u32 \<Rightarrow> mouse_action \<Rightarrow> u32 \<Rightarrow> u8 list" where
  "encode_mouse_event_impl mpos protocol button action mods =
     (case mouse_code button action mods protocol of
        None \<Rightarrow> []
      | Some cb \<Rightarrow>
          (let x = sint (mp_cell_x mpos + 1); y = sint (mp_cell_y mpos + 1);
               sgr = (\<lambda>x y. 0x3c # decimal_int (sint cb) @ 0x3b # decimal_int x @ 0x3b # decimal_int y
                        @ [if action = MOUSE_RELEASE then 0x6d else 0x4d])
           in case protocol of
                SGR_PIXEL_PROTOCOL \<Rightarrow> sgr (c_round (mp_global_x mpos)) (c_round (mp_global_y mpos))
              | SGR_PROTOCOL \<Rightarrow> sgr x y
              | URXVT_PROTOCOL \<Rightarrow> decimal_int (sint (cb + 32)) @ 0x3b # decimal_int x @ 0x3b # decimal_int y @ [0x4d]
              | UTF8_PROTOCOL \<Rightarrow>
                  [0x4d, ucast (cb + 32)] @ encode_utf8 (word_of_int (x + 32)) @ encode_utf8 (word_of_int (y + 32))
              | NORMAL_PROTOCOL \<Rightarrow>
                  (if x > 223 \<or> y > 223 then []
                   else [0x4d, ucast (cb + 32), word_of_int (x + 32), word_of_int (y + 32)])))"

definition encode_mouse_event :: "screen \<Rightarrow> mouse_position \<Rightarrow> u32 \<Rightarrow> mouse_action \<Rightarrow> u32 \<Rightarrow> u8 list" where
  "encode_mouse_event s mpos button action mods =
     encode_mouse_event_impl mpos (mouse_protocol (s_modes s)) button action mods"

text \<open>The window and the button of the drag that is followed.\<close>

record tracked_drag =
  drag_in_window :: nat
  drag_button :: int

definition encode_mouse_button ::
  "screen \<Rightarrow> nat \<Rightarrow> mouse_position \<Rightarrow> int \<Rightarrow> mouse_action \<Rightarrow> u32 \<Rightarrow> tracked_drag \<Rightarrow> u8 list \<times> tracked_drag" where
  "encode_mouse_button s window_id mpos button action mods drag =
     (let drag =
        (if button = 0 then
           (case action of
              MOUSE_PRESS \<Rightarrow> \<lparr>drag_in_window = window_id, drag_button = button\<rparr>
            | MOUSE_RELEASE \<Rightarrow> \<lparr>drag_in_window = 0, drag_button = - 1\<rparr>
            | _ \<Rightarrow> drag)
         else drag)
      in (encode_mouse_event s mpos (button_map button) action mods, drag))"

definition encode_mouse_scroll :: "screen \<Rightarrow> mouse_position \<Rightarrow> u32 \<Rightarrow> u32 \<Rightarrow> u8 list" where
  "encode_mouse_scroll s mpos button mods = encode_mouse_event s mpos button MOUSE_PRESS mods"

section \<open>The buffer is long enough\<close>

lemma and_or_small: "x AND m = x \<Longrightarrow> y AND m = y \<Longrightarrow> (x OR y) AND m = x OR (y :: u32)"
  by (simp add: bit.conj_disj_distrib2)

lemma encode_button_values:
  "encode_button 1 = 0" "encode_button 2 = 1" "encode_button 3 = 2" "encode_button 4 = 64" "encode_button 5 = 65"
  "encode_button 6 = 66" "encode_button 7 = 67" "encode_button 8 = 128" "encode_button 9 = 129" "encode_button 10 = 130"
  "encode_button 11 = 131"
  by (simp_all add: encode_button_def word_le_nat_alt)

lemma encode_button_cases:
  "encode_button b = UINT_MAX \<or> encode_button b \<in> {0, 1, 2, 64, 65, 66, 67, 128, 129, 130, 131}"
proof (cases "1 \<le> unat b \<and> unat b \<le> 11")
  case True
  then have "unat b \<in> set [1 ..< 12]" by simp
  moreover have e: "set [1 ..< 12] = {1, 2, 3, 4, 5, 6, 7, 8, 9, 10, 11 :: nat}" by code_simp
  ultimately have "unat b \<in> {1, 2, 3, 4, 5, 6, 7, 8, 9, 10, 11}" by (simp only: e)
  moreover have "b = word_of_nat (unat b)" by simp
  ultimately have "b \<in> {1, 2, 3, 4, 5, 6, 7, 8, 9, 10, 11}" by (metis (no_types) insert_iff of_nat_1 of_nat_numeral singleton_iff)
  then show ?thesis by (elim insertE emptyE; simp add: encode_button_values)
next
  case False
  then have "\<not> (unat b \<ge> 8 \<and> unat b \<le> 11)" "\<not> (unat b \<ge> 4 \<and> unat b \<le> 7)" "\<not> (unat b \<ge> 1 \<and> unat b \<le> 3)" by linarith+
  then have "\<not> (b \<ge> 8 \<and> b \<le> 11)" "\<not> (b \<ge> 4 \<and> b \<le> 7)" "\<not> (b \<ge> 1 \<and> b \<le> 3)" by (simp_all add: word_le_nat_alt)
  then have "encode_button b = UINT_MAX" by (simp only: encode_button_def if_False)
  then show ?thesis ..
qed

lemma mouse_code_small:
  assumes "mouse_code button action mods p = Some cb"
  shows "unat cb < 256"
proof -
  have button: "encode_button button \<noteq> UINT_MAX \<Longrightarrow> encode_button button AND 255 = encode_button button"
    "encode_button button \<noteq> UINT_MAX \<Longrightarrow> (encode_button button + 32) AND 255 = encode_button button + 32"
    using encode_button_cases [of button] by auto
  have "cb AND 255 = cb"
    using assms button by (auto simp: mouse_code_def Let_def and_or_small split: if_splits)
  moreover have "unat (cb AND 255) = unat cb mod 2 ^ 8" by (rule unat_and_mask) (simp add: mask_eq_exp_minus_1)
  moreover have "unat cb mod 2 ^ 8 < 256" by simp
  ultimately show ?thesis by simp
qed

lemma length_decimal_int: "\<bar>n\<bar> < 10 ^ Suc k \<Longrightarrow> length (decimal_int n) \<le> k + 2"
  using length_decimal [of "nat \<bar>n\<bar>" k] by (auto simp: decimal_int_def u_digits_def nat_less_iff)

lemma sint_small:
  assumes "unat (cb :: u32) < 512"
  shows "sint cb = uint cb \<and> 0 \<le> uint cb \<and> uint cb < 512"
proof -
  have "int (unat cb) < 512" using assms by linarith
  then have u: "uint cb < 512" by simp
  have "signed_take_bit 31 (uint cb) = uint cb" by (rule signed_take_bit_int_eq_self) (use u in \<open>simp_all add: order_trans [OF _ uint_ge_0]\<close>)
  moreover have "sint cb = signed_take_bit 31 (uint cb)" by (simp only: sint_uint len_num0 len_bit0 len_num1) simp
  ultimately show ?thesis using u by simp
qed

lemma sint_bound: "\<bar>sint (w :: u32)\<bar> \<le> 2 ^ 31"
  using sint_ge [of w] sint_lt [of w] by (simp add: abs_le_iff)

lemma sint_next_cell:
  assumes "unat (w :: u32) + 1 < 2 ^ 31"
  shows "sint (w + 1) = int (unat w + 1)"
proof -
  have "unat (w + 1) = unat w + 1" using assms by (simp add: unat_word_ariths)
  then have u: "uint (w + 1) = int (unat w + 1)" by (metis uint_nat)
  moreover have "int (unat w + 1) < int (2 ^ 31)" using assms by (simp only: of_nat_less_iff)
  ultimately have "signed_take_bit 31 (uint (w + 1)) = uint (w + 1)"
    by (intro signed_take_bit_int_eq_self) (simp_all add: order_trans [OF _ of_nat_0_le_iff])
  moreover have "sint (w + 1) = signed_take_bit 31 (uint (w + 1))"
    by (simp only: sint_uint len_num0 len_bit0 len_num1) simp
  ultimately show ?thesis using u by simp
qed

text \<open>
  C21: The report of a mouse event is shorter than its buffer of 64 bytes in all five protocols,
  for all cells, also where the coordinate wraps around, and for all pixel coordinates whose
  rounding is less than 2 to the 31.
\<close>

theorem mouse_report_fits:
  assumes "\<bar>c_round (mp_global_x mpos)\<bar> < 2 ^ 31" and "\<bar>c_round (mp_global_y mpos)\<bar> < 2 ^ 31"
  shows "length (encode_mouse_event_impl mpos protocol button action mods) < 64"
proof (cases "mouse_code button action mods protocol")
  case None
  then show ?thesis by (simp add: encode_mouse_event_impl_def)
next
  case (Some cb)
  have cb: "unat cb < 256" by (rule mouse_code_small [OF Some])
  have "unat (cb + 32) = unat cb + 32" using cb by (simp add: unat_word_ariths)
  then have "\<bar>sint cb\<bar> < 10 ^ Suc 2" "\<bar>sint (cb + 32)\<bar> < 10 ^ Suc 2"
    using cb sint_small [of cb] sint_small [of "cb + 32"] by simp_all
  note n = this [THEN length_decimal_int]
  have l: "length (decimal_int i) \<le> 11" if "\<bar>i\<bar> \<le> 2 ^ 31" for i
    using length_decimal_int [of i 9] that by simp
  note xy = l [OF sint_bound [of "mp_cell_x mpos + 1"]] l [OF sint_bound [of "mp_cell_y mpos + 1"]]
  note g = l [OF order_less_imp_le, OF assms(1)] l [OF order_less_imp_le, OF assms(2)]
  show ?thesis
    using n xy g length_encode_utf8 [of "word_of_int (sint (mp_cell_x mpos + 1) + 32)"]
      length_encode_utf8 [of "word_of_int (sint (mp_cell_y mpos + 1) + 32)"]
    unfolding encode_mouse_event_impl_def Some option.case Let_def
    by (cases protocol) simp_all
qed

text \<open>The position of row 100, column 80 in a window.\<close>

definition example_position :: mouse_position where
  "example_position = \<lparr>mp_cell_x = 79, mp_cell_y = 99, mp_global_x = 800, mp_global_y = 2000\<rparr>"

lemma mouse_report_fits_witness:
  "length (encode_mouse_event_impl example_position SGR_PIXEL_PROTOCOL 1 MOUSE_PRESS 0) < 64"
  by (rule mouse_report_fits) (simp_all add: example_position_def c_round_def floor_unique)

section \<open>Reading a report\<close>

record mouse_report =
  mr_button :: nat
  mr_motion :: bool
  mr_shift :: bool
  mr_alt :: bool
  mr_control :: bool
  mr_release :: bool
  mr_x :: nat
  mr_y :: nat

definition button_of_code :: "u32 \<Rightarrow> nat" where
  "button_of_code cb =
     unat (cb AND 3) + (if cb AND EXTRA_BUTTON_INDICATOR \<noteq> 0 then 8 else if cb AND SCROLL_BUTTON_INDICATOR \<noteq> 0 then 4 else 1)"

definition read_sgr_report :: "u8 list \<Rightarrow> mouse_report option" where
  "read_sgr_report bs =
     (case split_on 0x3b [] (butlast (tl bs)) of
        [c, x, y] \<Rightarrow>
          (let cb = word_of_nat (number c) in
           if hd bs = 0x3c \<and> last bs \<in> {0x4d, 0x6d} then
             Some \<lparr>mr_button = button_of_code cb, mr_motion = (cb AND MOTION_INDICATOR \<noteq> 0),
                   mr_shift = (cb AND SHIFT_INDICATOR \<noteq> 0), mr_alt = (cb AND ALT_INDICATOR \<noteq> 0),
                   mr_control = (cb AND CONTROL_INDICATOR \<noteq> 0), mr_release = (last bs = 0x6d),
                   mr_x = number x, mr_y = number y\<rparr>
           else None)
      | _ \<Rightarrow> None)"

lemma code_of_button:
  assumes "1 \<le> button" "button \<le> 11" "action \<noteq> MOUSE_MOVE"
  shows "\<exists>cb. mouse_code (word_of_nat button) action mods SGR_PROTOCOL = Some cb \<and> button_of_code cb = button
    \<and> (cb AND MOTION_INDICATOR \<noteq> 0) = (action = MOUSE_DRAG) \<and> (cb AND SHIFT_INDICATOR \<noteq> 0) = (mods AND 1 \<noteq> 0)
    \<and> (cb AND ALT_INDICATOR \<noteq> 0) = (mods AND 2 \<noteq> 0) \<and> (cb AND CONTROL_INDICATOR \<noteq> 0) = (mods AND 4 \<noteq> 0)"
proof -
  define d s a c where "d = (action = MOUSE_DRAG)" and "s = (mods AND 1 \<noteq> 0)" and "a = (mods AND 2 \<noteq> 0)" and "c = (mods AND 4 \<noteq> 0)"
  define cb where "cb = (\<lambda>b :: u32. \<lambda>d s a c. encode_button b OR (if d then MOTION_INDICATOR else 0) OR (if s then SHIFT_INDICATOR else 0)
    OR (if a then ALT_INDICATOR else 0) OR (if c then CONTROL_INDICATOR else 0))"
  define e where "e = encode_button (word_of_nat button)"
  have "button \<in> set [1 ..< 12]" using assms(1,2) by simp
  moreover have b: "set [1 ..< 12] = {1, 2, 3, 4, 5, 6, 7, 8, 9, 10, 11 :: nat}" by code_simp
  ultimately have "button \<in> {1, 2, 3, 4, 5, 6, 7, 8, 9, 10, 11}" by (simp only: b)
  then have e: "e \<noteq> UINT_MAX \<and> button_of_code e = button \<and> e AND 4 = 0 \<and> e AND 8 = 0 \<and> e AND 16 = 0 \<and> e AND 32 = 0"
    unfolding e_def by (elim insertE emptyE; simp add: encode_button_values button_of_code_def)
  have bits: "(if b then k else 0) AND 3 = 0 \<and> (if b then k else 0) AND 64 = 0 \<and> (if b then k else 0) AND 128 = 0
      \<and> (if b then k else 0) AND j = (if b \<and> k = j then k else (0 :: u32))"
    if "k \<in> {4, 8, 16, 32}" "j \<in> {4, 8, 16, 32}" for b k j
    using that by (elim insertE emptyE; simp)
  define w where "w = cb (word_of_nat button) d s a c"
  have w: "w = e OR (if d then 32 else 0) OR (if s then 4 else 0) OR (if a then 8 else 0) OR (if c then 16 else 0)"
    by (simp add: w_def cb_def e_def)
  have low: "w AND 3 = e AND 3" "w AND 64 = e AND 64" "w AND 128 = e AND 128"
    unfolding w bit.conj_disj_distrib2 using bits [of _ 4] by simp_all
  have all: "(w AND MOTION_INDICATOR \<noteq> 0) = d" "(w AND SHIFT_INDICATOR \<noteq> 0) = s" "(w AND ALT_INDICATOR \<noteq> 0) = a"
    "(w AND CONTROL_INDICATOR \<noteq> 0) = c"
    unfolding w bit.conj_disj_distrib2 using e bits by simp_all
  have "button_of_code w = button_of_code e" by (simp only: button_of_code_def low)
  then have "button_of_code w = button" using e by simp
  moreover have "mouse_code (word_of_nat button) action mods SGR_PROTOCOL = Some w"
    using e assms(3)
    by (cases action; cases s; cases a; cases c) (simp_all add: mouse_code_def Let_def w d_def s_def a_def c_def e_def or.assoc)
  ultimately show ?thesis using all by (auto simp: d_def s_def a_def c_def)
qed

lemma decimal_int_of_nat: "decimal_int (int n) = u_digits n"
  by (simp add: decimal_int_def)

text \<open>
  C20: In the SGR protocol the report of a press, release or drag of any of the eleven buttons
  reads back to the button, the kind of the event, the modifiers and the position, for cells whose
  numbers, counted from 1, are below 2 to the 31 (int x = cell_x + 1 wraps around beyond).
\<close>

theorem sgr_mouse_roundtrip:
  assumes "1 \<le> button" and "button \<le> 11" and "action \<noteq> MOUSE_MOVE"
    and "unat (mp_cell_x mpos) + 1 < 2 ^ 31" and "unat (mp_cell_y mpos) + 1 < 2 ^ 31"
  shows "read_sgr_report (encode_mouse_event_impl mpos SGR_PROTOCOL (word_of_nat button) action mods)
    = Some \<lparr>mr_button = button, mr_motion = (action = MOUSE_DRAG), mr_shift = (mods AND 1 \<noteq> 0), mr_alt = (mods AND 2 \<noteq> 0),
        mr_control = (mods AND 4 \<noteq> 0), mr_release = (action = MOUSE_RELEASE),
        mr_x = unat (mp_cell_x mpos) + 1, mr_y = unat (mp_cell_y mpos) + 1\<rparr>"
proof -
  obtain cb where cb: "mouse_code (word_of_nat button) action mods SGR_PROTOCOL = Some cb" "button_of_code cb = button"
    "(cb AND MOTION_INDICATOR \<noteq> 0) = (action = MOUSE_DRAG)" "(cb AND SHIFT_INDICATOR \<noteq> 0) = (mods AND 1 \<noteq> 0)"
    "(cb AND ALT_INDICATOR \<noteq> 0) = (mods AND 2 \<noteq> 0)" "(cb AND CONTROL_INDICATOR \<noteq> 0) = (mods AND 4 \<noteq> 0)"
    using code_of_button [OF assms(1-3)] by metis
  have "sint cb = int (unat cb)" using sint_small [of cb] mouse_code_small [OF cb(1)] by simp
  then have c: "decimal_int (sint cb) = u_digits (unat cb)" by (simp only: decimal_int_of_nat)
  have xy: "decimal_int (sint (mp_cell_x mpos + 1)) = u_digits (unat (mp_cell_x mpos) + 1)"
    "decimal_int (sint (mp_cell_y mpos + 1)) = u_digits (unat (mp_cell_y mpos) + 1)"
    by (simp_all only: sint_next_cell [OF assms(4)] sint_next_cell [OF assms(5)] decimal_int_of_nat)
  have split: "split_on 0x3b [] (u_digits a @ 0x3b # u_digits b @ 0x3b # u_digits d) = [u_digits a, u_digits b, u_digits d]" for a b d
    by (simp add: split_on_sep split_on_end u_digits_no_sep)
  have "encode_mouse_event_impl mpos SGR_PROTOCOL (word_of_nat button) action mods
    = 0x3c # u_digits (unat cb) @ 0x3b # u_digits (unat (mp_cell_x mpos) + 1) @ 0x3b # u_digits (unat (mp_cell_y mpos) + 1)
      @ [if action = MOUSE_RELEASE then 0x6d else 0x4d]"
    by (simp only: encode_mouse_event_impl_def cb(1) option.case mouse_tracking_protocol.case c xy Let_def)
  then show ?thesis
    by (simp add: read_sgr_report_def butlast_append split u_digits_props cb(2) cb(3-) [symmetric])
qed

lemma sgr_mouse_roundtrip_witness:
  "read_sgr_report (encode_mouse_event_impl example_position SGR_PROTOCOL (word_of_nat 3) MOUSE_RELEASE 4)
    = Some \<lparr>mr_button = 3, mr_motion = False, mr_shift = False, mr_alt = False, mr_control = True, mr_release = True,
        mr_x = 80, mr_y = 100\<rparr>"
  using sgr_mouse_roundtrip [of 3 MOUSE_RELEASE example_position 4] by (simp add: example_position_def)

text \<open>In the URXVT protocol the release of a button is reported exactly like its press.\<close>

lemma urxvt_release_looks_like_press:
  "encode_mouse_event_impl mpos URXVT_PROTOCOL button MOUSE_RELEASE mods
    = encode_mouse_event_impl mpos URXVT_PROTOCOL button MOUSE_PRESS mods"
proof -
  have "mouse_code button MOUSE_RELEASE mods URXVT_PROTOCOL = mouse_code button MOUSE_PRESS mods URXVT_PROTOCOL"
    by (simp add: mouse_code_def Let_def)
  then show ?thesis unfolding encode_mouse_event_impl_def mouse_tracking_protocol.case by (simp only: Let_def)
qed

end
