(* ===== verification/Screen_Select.thy ===== *)
theory Screen_Select
  imports Screen_Scroll
begin

text \<open>
  Selections on the screen of \<^verbatim>\<open>smelly/screen.c\<close>: the cells a selection stands for, what is marked for
  rendering, its text, and the operations of the mouse that start, extend and mark. The state is in \<open>Selection\<close>.
\<close>

section \<open>The visible lines\<close>

definition visual_line :: "screen \<Rightarrow> int \<Rightarrow> cell_line" where
  "visual_line s vy =
     (let y = nat (max 0 vy) in
      if y < s_scrolled_by s then historybuf_init_line (s_historybuf s) (s_scrolled_by s - 1 - y)
      else init_line s (y - s_scrolled_by s))"

definition screen_visual_line :: "screen \<Rightarrow> nat \<Rightarrow> cell_line option" where
  "screen_visual_line s y = (if y \<ge> s_lines s then None else Some (visual_line s (int y)))"

section \<open>Boundaries\<close>

text \<open>The lines of these boundaries are counted upwards: the oldest line has the highest number.\<close>

definition selection_boundary_less_than :: "selection_boundary \<Rightarrow> selection_boundary \<Rightarrow> bool" where
  "selection_boundary_less_than a b =
     (if sb_y a > sb_y b then True else if sb_y a < sb_y b then False
      else if sb_x a < sb_x b then True else if sb_x a > sb_x b then False
      else sb_in_left_half a \<and> \<not> sb_in_left_half b)"

definition num_cells_between_selection_boundaries :: "screen \<Rightarrow> selection_boundary \<Rightarrow> selection_boundary \<Rightarrow> u32" where
  "num_cells_between_selection_boundaries s a b =
     (let (before, after) = (if selection_boundary_less_than a b then (a, b) else (b, a));
          columns = word_of_nat (s_columns s);
          ans = (if sb_y before + 1 < sb_y after then columns * (sb_y after - sb_y before - 1) else 0)
      in if sb_y before = sb_y after then ans + (sb_x after - sb_x before)
         else ans + ((columns - sb_x before) + sb_x after))"

definition num_lines_between_selection_boundaries :: "selection_boundary \<Rightarrow> selection_boundary \<Rightarrow> u32" where
  "num_lines_between_selection_boundaries a b =
     (let (before, after) = (if selection_boundary_less_than a b then (a, b) else (b, a))
      in sb_y before - sb_y after)"

section \<open>The cells of a selection\<close>

definition selection_is_left_to_right :: "selection \<Rightarrow> bool" where
  "selection_is_left_to_right s =
     (sb_x (sel_input_start s) < sb_x (sel_input_current s)
      \<or> sb_x (sel_input_start s) = sb_x (sel_input_current s) \<and> sb_in_left_half (sel_input_start s))"

text \<open>The first cell to the right of a boundary and the cell after the last one to the left of it.\<close>

definition boundary_first :: "selection_boundary \<Rightarrow> u32" where
  "boundary_first b = sb_x b + (if sb_in_left_half b then 0 else 1)"

definition boundary_limit :: "selection_boundary \<Rightarrow> u32" where
  "boundary_limit b = 1 + sb_x b + (if sb_in_left_half b then - 1 else 0)"

text \<open>The ranges of the first line, of the lines between and of the last line; \<open>None\<close> for an empty selection.\<close>

definition rectangle_ranges :: "selection \<Rightarrow> (xrange \<times> xrange \<times> xrange) option" where
  "rectangle_ranges sel =
     (let start = sel_start sel; stop = sel_end sel in
      if sb_x start = sb_x stop \<and> (\<not> sb_in_left_half start \<or> sb_in_left_half stop) then None
      else
        (let r = (if sb_x start = sb_x stop then \<lparr>xr_x = sb_x start, xr_x_limit = sb_x start + 1\<rparr>
                  else if selection_is_left_to_right sel then \<lparr>xr_x = boundary_first start, xr_x_limit = boundary_limit stop\<rparr>
                  else \<lparr>xr_x = boundary_first stop, xr_x_limit = boundary_limit start\<rparr>)
         in Some (r, r, r)))"

definition line_ranges :: "u32 \<Rightarrow> selection \<Rightarrow> (xrange \<times> xrange \<times> xrange) option" where
  "line_ranges line_limit sel =
     (let start = sel_start sel; stop = sel_end sel; start_y = start_line sel; end_y = end_line sel;
          from_to = (\<lambda>a b. Some (\<lparr>xr_x = boundary_first a, xr_x_limit = line_limit\<rparr>, \<lparr>xr_x = 0, xr_x_limit = line_limit\<rparr>,
                                 \<lparr>xr_x = 0, xr_x_limit = boundary_limit b\<rparr>))
      in if start_y = end_y then
           (if sb_x start = sb_x stop then
              (if sb_in_left_half start \<and> \<not> sb_in_left_half stop then
                 (let r = \<lparr>xr_x = sb_x start, xr_x_limit = sb_x start + 1\<rparr> in Some (r, r, r))
               else None)
            else if sb_x start \<le> sb_x stop
            then Some (\<lparr>xr_x = boundary_first start, xr_x_limit = boundary_limit stop\<rparr>, zero_xrange, zero_xrange)
            else Some (\<lparr>xr_x = boundary_first stop, xr_x_limit = boundary_limit start\<rparr>, zero_xrange, zero_xrange))
         else if start_y < end_y then from_to start stop
         else from_to stop start)"

definition iteration_data_for :: "screen \<Rightarrow> selection \<Rightarrow> int \<Rightarrow> bool \<Rightarrow> iteration_data" where
  "iteration_data_for s sel min_y add_scrolled_by =
     (let start = sel_start sel; stop = sel_end sel; start_y = start_line sel; end_y = end_line sel in
      if sb_x start = sb_x stop \<and> start_y = end_y \<and> sb_in_left_half start = sb_in_left_half stop then zero_iteration_data
      else
        (case (if sel_rectangle_select sel then rectangle_ranges sel else line_ranges (word_of_nat (s_columns s)) sel) of
           None \<Rightarrow> zero_iteration_data
         | Some (top_range, body, bottom_range) \<Rightarrow>
             (let y = min start_y end_y; y_limit = max start_y end_y + 1;
                  (y, y_limit) = (if add_scrolled_by then (to_int (y + int (s_scrolled_by s)), to_int (y_limit + int (s_scrolled_by s)))
                                  else (y, y_limit));
                  y = max y min_y
              in \<lparr>id_y = y, id_y_limit = max y y_limit, id_first = top_range, id_body = body, id_last = bottom_range\<rparr>)))"

definition xrange_for_iteration :: "iteration_data \<Rightarrow> int \<Rightarrow> cell_line \<Rightarrow> xrange" where
  "xrange_for_iteration idata y l =
     (let r = (if y = id_y idata then id_first idata else if y = id_y_limit idata - 1 then id_last idata else id_body idata)
      in \<lparr>xr_x = xr_x r, xr_x_limit = min (xr_x_limit r) (word_of_nat (xlimit_for_line l))\<rparr>)"

definition iteration_data_is_empty :: "screen \<Rightarrow> iteration_data \<Rightarrow> bool" where
  "iteration_data_is_empty s idata =
     (if id_y idata \<ge> id_y_limit idata then True
      else list_all (\<lambda>r. \<not> xr_x r < min (xr_x_limit r) (word_of_nat (s_columns s))) [id_first idata, id_body idata, id_last idata])"

text \<open>\<^verbatim>\<open>-self->historybuf->count\<close>, passed as an \<^verbatim>\<open>int\<close>.\<close>

definition history_min_y :: "screen \<Rightarrow> int" where
  "history_min_y s = to_int (- int (h_count (s_historybuf s)))"

definition screen_has_selection :: "screen \<Rightarrow> bool" where
  "screen_has_selection s =
     list_ex (\<lambda>sel. \<not> is_selection_empty sel
                   \<and> \<not> iteration_data_is_empty s (iteration_data_for s sel (history_min_y s) True)) (sels_items (s_selections s))"

section \<open>Marking for rendering\<close>

text \<open>A write outside \<^verbatim>\<open>data\<close> is \<open>None\<close>.\<close>

definition apply_line :: "screen \<Rightarrow> iteration_data \<Rightarrow> u8 \<Rightarrow> nat \<Rightarrow> u8 list option \<Rightarrow> u8 list option" where
  "apply_line s idata set_mask y marked =
     (case marked of None \<Rightarrow> None
      | Some data \<Rightarrow>
          (let xr = xrange_for_iteration idata (int y) (visual_line s (int y)); n = unat (xr_x_limit xr) - unat (xr_x xr) in
           if n > 0 \<and> s_columns s * y + unat (xr_x_limit xr) > length data then None
           else Some (update_range (\<lambda>b. b OR set_mask) (s_columns s * y + unat (xr_x xr)) n data)))"

definition apply_selection :: "screen \<Rightarrow> u8 \<Rightarrow> selection \<Rightarrow> u8 list option \<Rightarrow> u8 list option \<times> selection" where
  "apply_selection s set_mask sel data =
     (let idata = iteration_data_for s sel (history_min_y s) True;
          data = fold (apply_line s idata set_mask) [nat (id_y idata) ..< min (nat (id_y_limit idata)) (s_lines s)] data
      in (data, sel\<lparr>sel_last_rendered := idata\<lparr>id_y := max 0 (id_y idata)\<rparr>\<rparr>))"

fun apply_selections :: "screen \<Rightarrow> u8 \<Rightarrow> selection list \<Rightarrow> u8 list option \<Rightarrow> u8 list option \<times> selection list" where
  "apply_selections s set_mask [] data = (data, [])"
| "apply_selections s set_mask (sel # sels) data =
     (let (data, sel) = apply_selection s set_mask sel data; (data, sels) = apply_selections s set_mask sels data
      in (data, sel # sels))"

definition screen_apply_selection :: "screen \<Rightarrow> nat \<Rightarrow> u8 list option \<times> screen" where
  "screen_apply_selection s siz =
     (let (data, items) = apply_selections s 1 (sels_items (s_selections s)) (Some (replicate siz 0));
          sels = (s_selections s)\<lparr>sels_items := items, sels_last_rendered_count := length items\<rparr>;
          (data, items) = apply_selections s 2 (sels_items (s_url_ranges s)) data;
          urls = (s_url_ranges s)\<lparr>sels_items := items, sels_last_rendered_count := length items\<rparr>
      in (data, s\<lparr>s_selections := sels, s_url_ranges := urls\<rparr>))"

text \<open>Whether the marks have to be computed anew; the record is compared as a whole.\<close>

definition screen_is_selection_dirty :: "screen \<Rightarrow> nat \<Rightarrow> bool" where
  "screen_is_selection_dirty s last_rendered_scrolled_by =
     (s_scrolled_by s \<noteq> last_rendered_scrolled_by
      \<or> sels_last_rendered_count (s_selections s) \<noteq> length (sels_items (s_selections s))
      \<or> sels_last_rendered_count (s_url_ranges s) \<noteq> length (sels_items (s_url_ranges s))
      \<or> list_ex (\<lambda>sel. iteration_data_for s sel 0 True \<noteq> sel_last_rendered sel)
          (sels_items (s_selections s) @ sels_items (s_url_ranges s)))"

section \<open>Marks stay on the screen\<close>

lemma init_line_xnum: "l_xnum (init_line s y) = b_xnum (s_linebuf s)"
  by (simp add: init_line_def Let_def linebuf_init_line_def)

lemma visual_line_xnum: "screen_wf s \<Longrightarrow> l_xnum (visual_line s y) = s_columns s"
  by (simp add: visual_line_def Let_def init_line_xnum historybuf_init_line_def history_init_line_def s_linebuf_def screen_wf_def
      lb_size_def split: prod.split)

lemma xrange_limit:
  assumes "screen_wf s"
  shows "unat (xr_x_limit (xrange_for_iteration idata y (visual_line s y))) \<le> s_columns s"
proof -
  have c: "xlimit_for_line (visual_line s y) \<le> s_columns s" "s_columns s \<le> 5000"
    using xlimit_for_line_le [of "visual_line s y"] visual_line_xnum [OF assms, of y] assms by (simp_all add: screen_wf_def)
  then have "unat (word_of_nat (xlimit_for_line (visual_line s y)) :: u32) = xlimit_for_line (visual_line s y)"
    by (simp add: unat_of_nat)
  moreover have "xr_x_limit (xrange_for_iteration idata y (visual_line s y)) \<le> word_of_nat (xlimit_for_line (visual_line s y))"
    by (simp add: xrange_for_iteration_def Let_def)
  ultimately show ?thesis using c(1) by (simp add: word_le_nat_alt)
qed

text \<open>What can be marked: as many cells as the screen has.\<close>

definition marks_ok :: "screen \<Rightarrow> u8 list option \<Rightarrow> bool" where
  "marks_ok s data = (\<exists>d. data = Some d \<and> length d = s_columns s * s_lines s)"

lemma apply_line_ok:
  assumes "screen_wf s" "y < s_lines s" "marks_ok s data"
  shows "marks_ok s (apply_line s idata m y data)"
proof -
  obtain d where d: "data = Some d" "length d = s_columns s * s_lines s" using assms(3) by (auto simp: marks_ok_def)
  have "s_columns s * Suc y \<le> s_columns s * s_lines s" using assms(2) by (intro mult_le_mono2) simp
  then have "s_columns s * y + unat (xr_x_limit (xrange_for_iteration idata (int y) (visual_line s (int y)))) \<le> length d"
    using xrange_limit [OF assms(1), of idata "int y"] d(2) by simp
  then show ?thesis using d by (simp add: apply_line_def marks_ok_def Let_def)
qed

lemma apply_lines_ok:
  "screen_wf s \<Longrightarrow> set ys \<subseteq> {..< s_lines s} \<Longrightarrow> marks_ok s data \<Longrightarrow> marks_ok s (fold (apply_line s idata m) ys data)"
  by (induction ys arbitrary: data) (simp_all add: apply_line_ok)

lemma apply_selections_ok: "screen_wf s \<Longrightarrow> marks_ok s data \<Longrightarrow> marks_ok s (fst (apply_selections s m sels data))"
proof (induction sels arbitrary: data)
  case (Cons sel sels)
  have "marks_ok s (fst (apply_selection s m sel data))"
    using Cons.prems by (auto simp: apply_selection_def Let_def intro!: apply_lines_ok)
  then show ?case using Cons.IH [OF Cons.prems(1)] by (simp add: Let_def split: prod.split) (metis fst_conv)
qed simp

text \<open>
  C22: Marking the cells of the selections and URL ranges for rendering writes only inside an
  array with one byte for each cell of the screen, wherever the selections lie and however far the
  screen is scrolled back.
\<close>

theorem selection_marks_in_bounds:
  assumes "screen_wf s"
  shows "\<exists>data. fst (screen_apply_selection s (s_columns s * s_lines s)) = Some data \<and> length data = s_columns s * s_lines s"
proof -
  have "marks_ok s (Some (replicate (s_columns s * s_lines s) 0))" by (simp add: marks_ok_def)
  then have "marks_ok s (fst (screen_apply_selection s (s_columns s * s_lines s)))"
    using apply_selections_ok [OF assms] by (simp add: screen_apply_selection_def Let_def split: prod.split) (metis fst_conv)
  then show ?thesis by (simp add: marks_ok_def)
qed

lemma selection_marks_in_bounds_witness:
  "\<exists>data. fst (screen_apply_selection example_screen (s_columns example_screen * s_lines example_screen)) = Some data
    \<and> length data = s_columns example_screen * s_lines example_screen"
  by (rule selection_marks_in_bounds [OF example_screen_wf])

section \<open>Whether the marks are up to date\<close>

definition rendered :: "screen \<Rightarrow> selection \<Rightarrow> selection" where
  "rendered s sel =
     (let idata = iteration_data_for s sel (history_min_y s) True in sel\<lparr>sel_last_rendered := idata\<lparr>id_y := max 0 (id_y idata)\<rparr>\<rparr>)"

lemma apply_selections_items: "snd (apply_selections s m sels data) = map (rendered s) sels"
  by (induction sels arbitrary: data) (simp_all add: apply_selection_def rendered_def Let_def case_prod_beta)

lemma screen_apply_selection_items:
  "sels_items (s_selections (snd (screen_apply_selection s n))) = map (rendered s) (sels_items (s_selections s))"
  "sels_items (s_url_ranges (snd (screen_apply_selection s n))) = map (rendered s) (sels_items (s_url_ranges s))"
  "sels_last_rendered_count (s_selections (snd (screen_apply_selection s n))) = length (sels_items (s_selections s))"
  "sels_last_rendered_count (s_url_ranges (snd (screen_apply_selection s n))) = length (sels_items (s_url_ranges s))"
  "s_columns (snd (screen_apply_selection s n)) = s_columns s" "s_scrolled_by (snd (screen_apply_selection s n)) = s_scrolled_by s"
  by (simp_all add: screen_apply_selection_def Let_def case_prod_beta apply_selections_items)

lemma rendered_fields:
  "start_line (rendered s sel) = start_line sel" "end_line (rendered s sel) = end_line sel" "sel_start (rendered s sel) = sel_start sel"
  "sel_end (rendered s sel) = sel_end sel" "sel_input_start (rendered s sel) = sel_input_start sel"
  "sel_input_current (rendered s sel) = sel_input_current sel" "sel_rectangle_select (rendered s sel) = sel_rectangle_select sel"
  "sel_last_rendered (rendered s sel) = (iteration_data_for s sel (history_min_y s) True)
     \<lparr>id_y := max 0 (id_y (iteration_data_for s sel (history_min_y s) True))\<rparr>"
  by (simp_all add: rendered_def Let_def start_line_def end_line_def)

lemma iteration_data_frame:
  "s_columns t = s_columns s \<Longrightarrow> s_scrolled_by t = s_scrolled_by s \<Longrightarrow>
   iteration_data_for t (rendered s sel) m b = iteration_data_for s sel m b"
  by (simp only: iteration_data_for_def rectangle_ranges_def line_ranges_def selection_is_left_to_right_def rendered_fields)

lemma iteration_data_min_y:
  obtains (empty) "\<And>m. iteration_data_for s sel m b = zero_iteration_data"
  | (lines) y0 l0 r where "\<And>m. iteration_data_for s sel m b = \<lparr>id_y = max y0 m, id_y_limit = max (max y0 m) l0,
      id_first = fst r, id_body = fst (snd r), id_last = snd (snd r)\<rparr>"
proof (cases "sb_x (sel_start sel) = sb_x (sel_end sel) \<and> start_line sel = end_line sel
    \<and> sb_in_left_half (sel_start sel) = sb_in_left_half (sel_end sel)")
  case True
  then show ?thesis by (intro empty) (simp add: iteration_data_for_def)
next
  case False
  show ?thesis
  proof (cases "if sel_rectangle_select sel then rectangle_ranges sel else line_ranges (word_of_nat (s_columns s)) sel")
    case None
    then show ?thesis by (intro empty) (simp only: iteration_data_for_def Let_def if_not_P [OF False] option.case)
  next
    case (Some r)
    then show ?thesis
      by (intro lines [where r = r]) (simp only: iteration_data_for_def Let_def if_not_P [OF False] option.case case_prod_beta)
  qed
qed

lemma rendered_dirty:
  assumes "m \<le> 0"
  shows "(iteration_data_for s sel 0 True \<noteq> (iteration_data_for s sel m True)\<lparr>id_y := max 0 (id_y (iteration_data_for s sel m True))\<rparr>)
    = (id_y_limit (iteration_data_for s sel m True) < 0)"
proof (cases s sel True rule: iteration_data_min_y)
  case empty
  then show ?thesis by (simp add: zero_iteration_data_def)
next
  case (lines y0 l0 r)
  have "max y0 0 = max 0 (max y0 m)" using assms by linarith
  moreover have "(max (max y0 0) l0 \<noteq> max (max y0 m) l0) = (max (max y0 m) l0 < 0)" using assms by linarith
  ultimately show ?thesis by (simp only: lines iteration_data.simps iteration_data.ext_inject simp_thms)
qed

text \<open>
  C23: With less than 2 to the 31 lines in the history, right after the selections were marked for
  rendering, screen_is_selection_dirty answers yes exactly when the exclusive line limit of some
  selection or URL range, relative to the first visible line, is negative, that is when its last
  line is at least two above the first visible one: only such a selection is marked anew for every
  frame.
\<close>

theorem marked_selection_dirty:
  assumes "h_count (s_historybuf s) < 2 ^ 31"
  shows "screen_is_selection_dirty (snd (screen_apply_selection s n)) (s_scrolled_by s)
    = list_ex (\<lambda>sel. id_y_limit (iteration_data_for s sel (history_min_y s) True) < 0)
        (sels_items (s_selections s) @ sels_items (s_url_ranges s))"
proof -
  have "history_min_y s = - int (h_count (s_historybuf s))"
    using assms by (simp only: history_min_y_def, intro to_int_small) simp
  then have m: "history_min_y s \<le> 0" by simp
  have "(iteration_data_for (snd (screen_apply_selection s n)) (rendered s sel) 0 True \<noteq> sel_last_rendered (rendered s sel))
      = (id_y_limit (iteration_data_for s sel (history_min_y s) True) < 0)" for sel
    using rendered_dirty [OF m, of s sel]
    by (simp only: iteration_data_frame [OF screen_apply_selection_items(5,6)] rendered_fields(8))
  then have "list_ex (\<lambda>sel. iteration_data_for (snd (screen_apply_selection s n)) sel 0 True \<noteq> sel_last_rendered sel) (map (rendered s) sels)
      = list_ex (\<lambda>sel. id_y_limit (iteration_data_for s sel (history_min_y s) True) < 0) sels" for sels
    by (induction sels) simp_all
  then show ?thesis
    by (simp only: screen_is_selection_dirty_def screen_apply_selection_items length_map simp_thms map_append [symmetric])
qed

text \<open>A selection in the history while the screen is not scrolled back: it is marked again and again.\<close>

definition selection_above :: selection where
  "selection_above = zero_selection\<lparr>sel_end := \<lparr>sb_x = 2, sb_y = 0, sb_in_left_half = False\<rparr>,
     sel_start_scrolled_by := 2, sel_end_scrolled_by := 2\<rparr>"

definition selected_above :: screen where
  "selected_above = example_screen
     \<lparr>s_historybuf := (s_historybuf example_screen)\<lparr>h_count := 3\<rparr>,
      s_selections := (s_selections example_screen)\<lparr>sels_items := [selection_above]\<rparr>\<rparr>"

lemma marked_selection_dirty_witness:
  "screen_is_selection_dirty (snd (screen_apply_selection selected_above 12)) (s_scrolled_by selected_above)"
proof -
  have c: "h_count (s_historybuf selected_above) < 2 ^ 31" "h_count (s_historybuf selected_above) = 3" by (simp_all add: selected_above_def)
  then have m: "history_min_y selected_above = - 3" by (simp only: history_min_y_def, subst to_int_small) simp_all
  have scrolled: "s_scrolled_by selected_above = 0" "s_columns selected_above = 4"
    by (simp_all add: selected_above_def example_screen_def screen_new_def linebuf_new_def create_historybuf_def Let_def RESET_CHARSETS_def)
  have "start_line selection_above = - 2" "end_line selection_above = - 2"
    by (simp_all add: start_line_def end_line_def selection_above_def zero_selection_def zero_boundary_def)
  then have "id_y_limit (iteration_data_for selected_above selection_above (- 3) True) = - 1"
    by (simp add: iteration_data_for_def line_ranges_def scrolled Let_def to_int_small)
      (simp add: selection_above_def zero_selection_def zero_boundary_def)
  then have "list_ex (\<lambda>sel. id_y_limit (iteration_data_for selected_above sel (history_min_y selected_above) True) < 0)
      (sels_items (s_selections selected_above) @ sels_items (s_url_ranges selected_above))"
    by (simp add: m) (simp add: selected_above_def)
  then show ?thesis using marked_selection_dirty [OF c(1), of 12] by simp
qed

end
