(* ===== verification/Screen_Select_Text.thy ===== *)
theory Screen_Select_Text
  imports Screen_Select
begin

text \<open>
  The text of a selection and of a marked URL, \<^verbatim>\<open>text_for_range\<close>, \<^verbatim>\<open>ansi_for_range\<close> and their callers in
  \<^verbatim>\<open>smelly/screen.c\<close>. The text of a selection does not change while the screen scrolls.
\<close>

section \<open>The text of a range\<close>

fun without_trailing_whitespace :: "cell_line \<Rightarrow> nat \<Rightarrow> nat" where
  "without_trailing_whitespace l 0 = 0"
| "without_trailing_whitespace l (Suc limit) =
     (if p_cc0 (l_cpu l ! limit) \<noteq> 0 \<or> line_ch l limit \<notin> {0x20, 9, 10, 13, 0} then Suc limit
      else without_trailing_whitespace l limit)"

definition limit_without_trailing_whitespace :: "cell_line \<Rightarrow> nat \<Rightarrow> nat" where
  "limit_without_trailing_whitespace l limit = without_trailing_whitespace l (min limit (l_xnum l))"

text \<open>The text of one line; an empty line after stripping is a newline.\<close>

definition range_line_text :: "cell_line \<Rightarrow> xrange \<Rightarrow> bool \<Rightarrow> bool \<Rightarrow> char_type list" where
  "range_line_text l xr newline strip =
     (let x_limit = unat (xr_x_limit xr);
          new_limit = (if strip then limit_without_trailing_whitespace l x_limit else x_limit)
      in if new_limit \<noteq> x_limit \<and> new_limit = 0 then [10]
         else unicode_in_range l (unat (xr_x xr)) new_limit True newline False)"

text \<open>\<open>None\<close> is the error of \<^verbatim>\<open>PyTuple_New\<close> for a negative size.\<close>

definition text_for_range :: "screen \<Rightarrow> selection \<Rightarrow> bool \<Rightarrow> bool \<Rightarrow> char_type list list option" where
  "text_for_range s sel insert_newlines strip =
     (let idata = iteration_data_for s sel (history_min_y s) False;
          limit = min (int (s_lines s)) (id_y_limit idata)
      in if limit < id_y idata then None
         else Some (map (\<lambda>y. let l = range_line s y in
                range_line_text l (xrange_for_iteration idata y l) (insert_newlines \<and> y \<noteq> limit - 1) strip)
              [id_y idata .. limit - 1]))"

text \<open>
  With escape codes; \<open>None\<close> is the error, or the write before the start of an empty tuple. The pool of the buffer is the null pointer, so links are not written; the state between the lines is the
  last cell, whether there were escape codes and whether a newline is due.
\<close>

record ansi_range_state =
  ar_lines :: "char_type list list"
  ar_prev_cell :: "gpu_cell option"
  ar_active :: hyperlink_id_type
  ar_has_escape_codes :: bool
  ar_need_newline :: bool

definition ansi_range_line :: "screen \<Rightarrow> iteration_data \<Rightarrow> bool \<Rightarrow> bool \<Rightarrow> int \<Rightarrow> ansi_range_state \<Rightarrow> ansi_range_state" where
  "ansi_range_line s idata insert_newlines strip y st =
     (let l = range_line s y; xr = xrange_for_iteration idata y l; x_limit = unat (xr_x_limit xr);
          new_limit = (if strip then limit_without_trailing_whitespace l x_limit else x_limit)
      in if new_limit \<noteq> x_limit \<and> new_limit = 0 then st\<lparr>ar_lines := ar_lines st @ [[10]]\<rparr>
         else
           (case line_as_ansi None (ar_active st) l (ar_prev_cell st) (unat (xr_x xr)) new_limit (if ar_need_newline st then 10 else 0) of
              (t, prev, active, escapes) \<Rightarrow>
                st\<lparr>ar_lines := ar_lines st @ [t], ar_prev_cell := prev, ar_active := active,
                   ar_has_escape_codes := (ar_has_escape_codes st \<or> escapes),
                   ar_need_newline := (insert_newlines \<and> \<not> a_wrapped (g_attrs (l_gpu l ! (l_xnum l - 1))))\<rparr>))"

definition ansi_for_range :: "screen \<Rightarrow> selection \<Rightarrow> bool \<Rightarrow> bool \<Rightarrow> char_type list list option" where
  "ansi_for_range s sel insert_newlines strip =
     (let idata = iteration_data_for s sel (history_min_y s) False;
          limit = min (int (s_lines s)) (id_y_limit idata)
      in if limit - id_y idata + 1 \<le> 0 then None
         else
           (let st = fold (ansi_range_line s idata insert_newlines strip) [id_y idata .. limit - 1]
                  \<lparr>ar_lines = [], ar_prev_cell = None, ar_active = 0, ar_has_escape_codes = False, ar_need_newline = False\<rparr>
            in Some (ar_lines st @
                 [(if ar_has_escape_codes st then [0x1b, 0x5b, 0x6d] else [])
                  @ (if ar_active st \<noteq> 0 then [0x1b, 0x5d, 0x38, 0x3b, 0x3b, 0x1b, 0x5c] else [])])))"

text \<open>The texts of all selections; an error ends the loop and is raised.\<close>

fun text_for_items :: "(selection \<Rightarrow> char_type list list option) \<Rightarrow> selection list \<Rightarrow> char_type list list option" where
  "text_for_items f [] = Some []"
| "text_for_items f (sel # sels) =
     (case f sel of
        None \<Rightarrow> None
      | Some t \<Rightarrow> (case text_for_items f sels of None \<Rightarrow> None | Some ts \<Rightarrow> Some (t @ ts)))"

definition text_for_selections :: "screen \<Rightarrow> selections \<Rightarrow> bool \<Rightarrow> bool \<Rightarrow> char_type list list option" where
  "text_for_selections s sels ansi strip =
     text_for_items (\<lambda>sel. if ansi then ansi_for_range s sel True strip else text_for_range s sel True strip) (sels_items sels)"

definition text_for_selection :: "screen \<Rightarrow> bool \<Rightarrow> bool \<Rightarrow> char_type list list option" where
  "text_for_selection s ansi strip = text_for_selections s (s_selections s) ansi strip"

definition text_for_marked_url :: "screen \<Rightarrow> bool \<Rightarrow> bool \<Rightarrow> char_type list list option" where
  "text_for_marked_url s ansi strip = text_for_selections s (s_url_ranges s) ansi strip"

section \<open>The marked URL\<close>

definition range_cells :: "screen \<Rightarrow> iteration_data \<Rightarrow> int \<Rightarrow> cpu_cell list" where
  "range_cells s idata y =
     (let l = range_line s y; xr = xrange_for_iteration idata y l in
      map (\<lambda>x. l_cpu l ! x) [unat (xr_x xr) ..< unat (xr_x_limit xr)])"

definition hyperlink_id_for_range :: "screen \<Rightarrow> selection \<Rightarrow> hyperlink_id_type" where
  "hyperlink_id_for_range s sel =
     (let idata = iteration_data_for s sel (history_min_y s) False;
          cells = concat (map (range_cells s idata) [id_y idata .. min (id_y_limit idata) (int (s_lines s)) - 1])
      in case List.find (\<lambda>c. p_hyperlink_id c \<noteq> 0) cells of Some c \<Rightarrow> p_hyperlink_id c | None \<Rightarrow> 0)"

text \<open>\<open>None\<close> is an error, \<open>Some None\<close> is Python's \<^verbatim>\<open>None\<close>, when no range has cells.\<close>

fun url_texts :: "screen \<Rightarrow> selection list \<Rightarrow> char_type list option \<Rightarrow> char_type list option option" where
  "url_texts s [] ans = Some ans"
| "url_texts s (sel # sels) ans =
     (if is_selection_empty sel then url_texts s sels ans
      else case text_for_range s sel False False of
             None \<Rightarrow> None
           | Some t \<Rightarrow> url_texts s sels (Some (case ans of None \<Rightarrow> concat t | Some a \<Rightarrow> a @ concat t)))"

definition current_url_text :: "screen \<Rightarrow> char_type list option option" where
  "current_url_text s = url_texts s (sels_items (s_url_ranges s)) None"

definition screen_open_url :: "screen \<Rightarrow> bool \<times> screen" where
  "screen_open_url s =
     (case sels_items (s_url_ranges s) of
        [] \<Rightarrow> (False, s)
      | sel # _ \<Rightarrow>
          (let hid = hyperlink_id_for_range s sel in
           case (if hid \<noteq> 0 then get_hyperlink_for_id (s_pool s) hid True else None) of
             Some url \<Rightarrow> (True, callback ''open_url'' [Arg_string url, Arg_int (uint hid)] s)
           | None \<Rightarrow>
               (case current_url_text s of
                  Some (Some t) \<Rightarrow> (True, callback ''open_url'' [Arg_string t, Arg_int 0] s)
                | _ \<Rightarrow> (False, s))))"

section \<open>Selections follow the text\<close>

text \<open>Only the cells of a line are read.\<close>

definition same_cells :: "cell_line \<Rightarrow> cell_line \<Rightarrow> bool" where
  "same_cells l m = (l_cpu l = l_cpu m \<and> l_gpu l = l_gpu m \<and> l_xnum l = l_xnum m)"

lemma same_cells_read:
  assumes "same_cells l m"
  shows "line_ch l i = line_ch m i" "line_width l i = line_width m i" "l_cpu l ! i = l_cpu m ! i" "l_xnum l = l_xnum m"
    "strip_blank_from l n = strip_blank_from m n" "skip_tab_cells l limit j n = skip_tab_cells m limit j n"
    "without_trailing_whitespace l n = without_trailing_whitespace m n"
proof -
  show r: "line_ch l i = line_ch m i" "line_width l i = line_width m i" "l_cpu l ! i = l_cpu m ! i" "l_xnum l = l_xnum m" for i
    using assms by (simp_all add: same_cells_def)
  show "strip_blank_from l n = strip_blank_from m n" by (induction n) (simp_all add: r)
  show "skip_tab_cells l limit j n = skip_tab_cells m limit j n" by (induction n arbitrary: j) (simp_all add: r)
  show "without_trailing_whitespace l n = without_trailing_whitespace m n" by (induction n) (simp_all add: r)
qed

lemma same_cells_unicode_loop:
  "same_cells m l \<Longrightarrow> unicode_loop m limit cc zero i w buf = unicode_loop l limit cc zero i w buf"
proof (induction l limit cc zero i w buf rule: unicode_loop.induct)
  case (1 l limit cc zero i w buf)
  note read = same_cells_read [OF 1(5)]
  show ?case
    using 1(1-4) [OF _ refl _ _] 1(1) [OF _ refl] 1(5)
    by (simp add: unicode_loop.simps [of _ limit cc zero i w buf] read Let_def)
qed

lemma same_cells_text:
  assumes "same_cells m l"
  shows "xrange_for_iteration idata y m = xrange_for_iteration idata y l" "range_line_text m xr nl strip = range_line_text l xr nl strip"
  using assms by (simp_all add: xrange_for_iteration_def xlimit_for_line_def range_line_text_def limit_without_trailing_whitespace_def
      unicode_in_range_def same_cells_read [OF assms] same_cells_unicode_loop [OF assms] same_cells_def Let_def)

text \<open>The lines that selections read are those of the history followed by those of the screen.\<close>

lemma range_line_cells:
  assumes "screen_wf s" "s_on_main s" "- int (h_count (s_historybuf s)) \<le> y" "y < int (s_lines s)"
  shows "(l_cpu (range_line s y), l_gpu (range_line s y)) = screen_text s ! nat (int (h_count (s_historybuf s)) + y)"
    "l_xnum (range_line s y) = s_columns s"
proof -
  let ?h = "s_historybuf s" let ?m = "s_main_linebuf s"
  have w: "h_xnum ?h = s_columns s" "b_xnum ?m = s_columns s" "b_ynum ?m = s_lines s"
    using assms(1) by (simp_all add: screen_wf_def lb_size_def)
  have len: "length (h_lines ?h) = h_count ?h" by (simp add: h_lines_def)
  have "(l_cpu (range_line s y), l_gpu (range_line s y)) = screen_text s ! nat (int (h_count ?h) + y)
    \<and> l_xnum (range_line s y) = s_columns s"
  proof (cases "y < 0")
    case True
    define k where "k = nat (- (y + 1))"
    have k: "k < h_count ?h" "nat (int (h_count ?h) + y) = h_count ?h - 1 - k" using True assms(3) by (simp_all add: k_def)
    then have "index_of ?h k = (h_start_of_data ?h + (h_count ?h - 1 - k)) mod h_ynum ?h" by (simp add: index_of_def)
    then have "row_at ?h (index_of ?h k) = h_lines ?h ! (h_count ?h - 1 - k)" using k by (simp add: h_lines_def)
    moreover have "range_line s y = historybuf_init_line ?h k" using True by (simp add: range_line_def k_def)
    ultimately show ?thesis
      using k w len by (simp add: historybuf_init_line_def history_init_line_def screen_text_def nth_append cells_of_def
          case_prod_beta)
  next
    case False
    then have n: "nat (int (h_count ?h) + y) = h_count ?h + nat y" "nat y < s_lines s" using assms(4) by simp_all
    have "screen_text s ! (h_count ?h + nat y) = cells_of (rows ?m ! nat y)"
      using len n(2) w by (simp add: screen_text_def nth_append)
    then show ?thesis
      using False n w assms(2) by (simp add: range_line_def init_line_def s_linebuf_def Let_def cells_of_def nth_rows row_of_def
          linebuf_init_line_def)
  qed
  then show "(l_cpu (range_line s y), l_gpu (range_line s y)) = screen_text s ! nat (int (h_count ?h) + y)"
    "l_xnum (range_line s y) = s_columns s" by simp_all
qed

text \<open>A selection after the screen has scrolled by one line.\<close>

lemma sint_minus_1: "- (2 ^ 31) < sint (w :: u32) \<Longrightarrow> sint (w - 1) = sint w - 1"
  using sint_lt [of w] by (simp add: sint_word_ariths signed_take_bit_int_eq_self)

lemma index_selection_up_fields:
  assumes "- (2 ^ 31) < start_line sel" "- (2 ^ 31) < end_line sel"
  shows "start_line (index_selection_up sel) = start_line sel - 1" "end_line (index_selection_up sel) = end_line sel - 1"
    "sb_x (sel_start (index_selection_up sel)) = sb_x (sel_start sel)" "sb_x (sel_end (index_selection_up sel)) = sb_x (sel_end sel)"
    "sb_in_left_half (sel_start (index_selection_up sel)) = sb_in_left_half (sel_start sel)"
    "sb_in_left_half (sel_end (index_selection_up sel)) = sb_in_left_half (sel_end sel)"
    "sel_rectangle_select (index_selection_up sel) = sel_rectangle_select sel"
    "selection_is_left_to_right (index_selection_up sel) = selection_is_left_to_right sel"
proof -
  have "sb_y (sel_start (index_selection_up sel)) - sel_start_scrolled_by (index_selection_up sel)
      = (sb_y (sel_start sel) - sel_start_scrolled_by sel) - 1"
    "sb_y (sel_end (index_selection_up sel)) - sel_end_scrolled_by (index_selection_up sel)
      = (sb_y (sel_end sel) - sel_end_scrolled_by sel) - 1"
    by (simp_all add: index_selection_up_def Let_def)
  then show "start_line (index_selection_up sel) = start_line sel - 1" "end_line (index_selection_up sel) = end_line sel - 1"
    using assms by (simp_all add: start_line_def end_line_def sint_minus_1)
qed (simp_all add: index_selection_up_def Let_def boundary_up_def selection_is_left_to_right_def)

text \<open>The ranges without the lines, and the lines from the oldest to the newest.\<close>

definition selection_ranges :: "u32 \<Rightarrow> selection \<Rightarrow> (xrange \<times> xrange \<times> xrange) option" where
  "selection_ranges columns sel =
     (if sb_x (sel_start sel) = sb_x (sel_end sel) \<and> start_line sel = end_line sel
         \<and> sb_in_left_half (sel_start sel) = sb_in_left_half (sel_end sel) then None
      else if sel_rectangle_select sel then rectangle_ranges sel else line_ranges columns sel)"

definition oldest_line :: "selection \<Rightarrow> int" where
  "oldest_line sel = min (start_line sel) (end_line sel)"

definition newest_line :: "selection \<Rightarrow> int" where
  "newest_line sel = max (start_line sel) (end_line sel)"

lemma oldest_newest: "oldest_line sel \<le> newest_line sel"
  by (simp add: oldest_line_def newest_line_def)

lemma iteration_data_unscrolled:
  "iteration_data_for s sel m False =
     (case selection_ranges (word_of_nat (s_columns s)) sel of
        None \<Rightarrow> zero_iteration_data
      | Some (a, b, c) \<Rightarrow>
          \<lparr>id_y = max (oldest_line sel) m, id_y_limit = max (max (oldest_line sel) m) (newest_line sel + 1),
           id_first = a, id_body = b, id_last = c\<rparr>)"
  by (simp add: iteration_data_for_def selection_ranges_def oldest_line_def newest_line_def Let_def split: option.split)

lemma selection_ranges_up:
  assumes "- (2 ^ 31) < oldest_line sel"
  shows "selection_ranges columns (index_selection_up sel) = selection_ranges columns sel"
    "oldest_line (index_selection_up sel) = oldest_line sel - 1" "newest_line (index_selection_up sel) = newest_line sel - 1"
proof -
  note f = index_selection_up_fields [of sel]
  have b: "- (2 ^ 31) < start_line sel" "- (2 ^ 31) < end_line sel" using assms by (simp_all add: oldest_line_def)
  have "(start_line (index_selection_up sel) = end_line (index_selection_up sel)) = (start_line sel = end_line sel)"
    "(start_line (index_selection_up sel) < end_line (index_selection_up sel)) = (start_line sel < end_line sel)"
    by (simp_all add: f(1,2) [OF b])
  then show "selection_ranges columns (index_selection_up sel) = selection_ranges columns sel"
    unfolding selection_ranges_def rectangle_ranges_def line_ranges_def boundary_first_def boundary_limit_def Let_def
    by (simp only: f(3-8) [OF b])
  show "oldest_line (index_selection_up sel) = oldest_line sel - 1" "newest_line (index_selection_up sel) = newest_line sel - 1"
    by (simp_all add: oldest_line_def newest_line_def f [OF b])
qed

lemma upto_minus_1: "map f [a - 1 .. b - 1] = map (\<lambda>y. f (y - 1)) [a .. b :: int]"
  by (rule nth_equalityI) (auto simp: nth_upto algebra_simps)

text \<open>The text of a selection that reaches no line below the screen.\<close>

definition range_texts :: "screen \<Rightarrow> iteration_data \<Rightarrow> bool \<Rightarrow> bool \<Rightarrow> char_type list list" where
  "range_texts s idata nl strip =
     map (\<lambda>y. range_line_text (range_line s y) (xrange_for_iteration idata y (range_line s y)) (nl \<and> y \<noteq> id_y_limit idata - 1) strip)
       [id_y idata .. id_y_limit idata - 1]"

definition unscrolled_data :: "screen \<Rightarrow> selection \<Rightarrow> xrange \<times> xrange \<times> xrange \<Rightarrow> iteration_data" where
  "unscrolled_data s sel r =
     (let y = max (oldest_line sel) (- int (h_count (s_historybuf s))) in
      \<lparr>id_y = y, id_y_limit = max y (newest_line sel + 1), id_first = fst r, id_body = fst (snd r), id_last = snd (snd r)\<rparr>)"

lemma text_for_range_alt:
  assumes "newest_line sel < int (s_lines s)" "h_count (s_historybuf s) < 2 ^ 31"
  shows "text_for_range s sel nl strip =
     (case selection_ranges (word_of_nat (s_columns s)) sel of
        None \<Rightarrow> Some []
      | Some r \<Rightarrow> Some (range_texts s (unscrolled_data s sel r) nl strip))"
proof -
  have m: "history_min_y s = - int (h_count (s_historybuf s))"
    using assms(2) by (simp only: history_min_y_def, intro to_int_small) simp
  have "max (max (oldest_line sel) (- int (h_count (s_historybuf s)))) (newest_line sel + 1) \<le> int (s_lines s)"
    using assms(1) oldest_newest [of sel] by simp
  then show ?thesis
    by (auto simp: text_for_range_def iteration_data_unscrolled m Let_def zero_iteration_data_def min_absorb2 range_texts_def
        unscrolled_data_def split: option.split)
qed

lemma range_texts_shift:
  assumes same: "\<And>y. id_y d \<le> y \<Longrightarrow> y < id_y_limit d \<Longrightarrow> same_cells (range_line t (y - 1)) (range_line s y)"
    and e: "id_y e = id_y d - 1" "id_y_limit e = id_y_limit d - 1" "id_first e = id_first d" "id_body e = id_body d" "id_last e = id_last d"
  shows "range_texts t e nl strip = range_texts s d nl strip"
proof -
  have x: "xrange_for_iteration e (y - 1) l = xrange_for_iteration d y l" for y l
    by (simp add: xrange_for_iteration_def e)
  have n: "(1 + y \<noteq> id_y_limit d) = (y \<noteq> id_y_limit d - 1)" for y by linarith
  show ?thesis
    unfolding range_texts_def e(1,2) upto_minus_1
    by (intro map_cong refl) (simp add: x n same_cells_text [OF same])
qed

text \<open>A line of the screen and, after it has scrolled by one, the line above it.\<close>

lemma index_up_same_cells:
  assumes wf: "screen_wf s" "s_on_main s" "s_margin_top s = 0"
    and room: "h_count (s_historybuf s) < h_ynum (s_historybuf s)"
    and y: "- int (h_count (s_historybuf s)) \<le> y" "y < int (s_lines s)"
  defines "t \<equiv> index_up 0 (s_lines s - 1) s"
  shows "same_cells (range_line t (y - 1)) (range_line s y)" "h_count (s_historybuf t) = h_count (s_historybuf s) + 1"
proof -
  let ?h = "s_historybuf s" let ?i = "nat (int (h_count ?h) + y)"
  have b: "s_lines s - 1 < s_lines s" "s_lines s - 1 + 1 = s_lines s" using wf_bounds(4) [OF wf(1)] by simp_all
  note up = index_up_text [OF wf b(1), folded t_def]
  have frame: "s_lines t = s_lines s" "s_columns t = s_columns s" "s_on_main t" using wf(2) by (simp_all add: t_def)
  have twf: "screen_wf t" using wf(1) b by (simp add: t_def index_up_wf)
  show count: "h_count (s_historybuf t) = h_count ?h + 1" using up(3) room by simp
  have "b_ynum (s_main_linebuf s) = s_lines s" using wf(1) by (simp add: screen_wf_def lb_size_def)
  then have grown: "screen_text t = screen_text s @ [blank_cells (s_columns s)]"
    using up(1) b(2) room by (simp add: screen_text_def)
  have "length (screen_text s) = h_count ?h + s_lines s"
    using wf(1) by (simp add: screen_text_def h_lines_def screen_wf_def lb_size_def)
  then have "?i < length (screen_text s)" using y by linarith
  then have "screen_text t ! ?i = screen_text s ! ?i" by (simp add: grown nth_append)
  moreover have "nat (int (h_count (s_historybuf t)) + (y - 1)) = ?i" by (simp add: count)
  moreover note range_line_cells [OF wf(1,2) y] range_line_cells [OF twf frame(3), of "y - 1"]
  ultimately have "(l_cpu (range_line t (y - 1)), l_gpu (range_line t (y - 1))) = (l_cpu (range_line s y), l_gpu (range_line s y))"
    "l_xnum (range_line t (y - 1)) = l_xnum (range_line s y)"
    using y by (simp_all add: count frame)
  then show "same_cells (range_line t (y - 1)) (range_line s y)" by (simp add: same_cells_def)
qed

lemma index_up_selected_text:
  assumes wf: "screen_wf s" "s_on_main s" "s_margin_top s = 0"
    and room: "h_count (s_historybuf s) < h_ynum (s_historybuf s)" "h_count (s_historybuf s) + 1 < 2 ^ 31"
    and sel: "newest_line sel < int (s_lines s)" "- (2 ^ 31) < oldest_line sel"
  shows "text_for_range (index_up 0 (s_lines s - 1) s) (index_selection_up sel) nl strip = text_for_range s sel nl strip"
proof -
  define t where "t = index_up 0 (s_lines s - 1) s"
  let ?h = "s_historybuf s" let ?sel = "index_selection_up sel"
  have frame: "s_lines t = s_lines s" "s_columns t = s_columns s" by (simp_all add: t_def)
  note r = selection_ranges_up [OF sel(2)]
  have pos: "0 < s_lines s" using wf_bounds(4) [OF wf(1)] by simp
  note same = index_up_same_cells [OF wf room(1), folded t_def]
  have count: "h_count (s_historybuf t) = h_count ?h + 1" using same(2) [of 0] pos by simp
  have texts: "range_texts t (unscrolled_data t ?sel k) nl strip = range_texts s (unscrolled_data s sel k) nl strip" for k
  proof (rule range_texts_shift)
    show "id_y (unscrolled_data t ?sel k) = id_y (unscrolled_data s sel k) - 1"
      "id_y_limit (unscrolled_data t ?sel k) = id_y_limit (unscrolled_data s sel k) - 1"
      by (simp_all add: unscrolled_data_def Let_def r count)
    fix y assume "id_y (unscrolled_data s sel k) \<le> y" "y < id_y_limit (unscrolled_data s sel k)"
    then have "- int (h_count ?h) \<le> y" "y < int (s_lines s)"
      using sel oldest_newest [of sel] by (auto simp: unscrolled_data_def Let_def)
    then show "same_cells (range_line t (y - 1)) (range_line s y)" by (rule same(1))
  qed (simp_all add: unscrolled_data_def Let_def)
  have "newest_line ?sel < int (s_lines t)" "h_count (s_historybuf t) < 2 ^ 31" "h_count ?h < 2 ^ 31"
    using sel room by (simp_all add: r frame count)
  note alt = text_for_range_alt [OF this(1,2)] text_for_range_alt [OF sel(1) this(3)]
  show ?thesis unfolding t_def [symmetric] alt by (simp only: r(1) frame(2) texts)
qed

text \<open>Every selection lies in the history and the screen.\<close>

definition selection_within :: "screen \<Rightarrow> selection \<Rightarrow> bool" where
  "selection_within s sel = (- int (h_count (s_historybuf s)) \<le> oldest_line sel \<and> newest_line sel < int (s_lines s))"

text \<open>
  C7: While the main screen, without margins, scrolls up by any number of lines that the history
  has room for, the text of the selections, wherever in the history and on the screen they lie,
  stays the same.
\<close>

theorem selected_text_follows_scrolling:
  assumes "screen_wf s" and "s_on_main s" and "s_margin_top s = 0" and "s_margin_bottom s = s_lines s - 1"
    and "h_count (s_historybuf s) + n \<le> h_ynum (s_historybuf s)" and "h_ynum (s_historybuf s) < 2 ^ 31"
    and "list_all (selection_within s) (sels_items (s_selections s))"
  shows "text_for_selection (screen_scroll n s) False strip = text_for_selection s False strip"
  using assms
proof (induction n arbitrary: s)
  case (Suc n)
  let ?h = "s_historybuf s" define t where "t = index_up 0 (s_lines s - 1) s"
  have room: "h_count ?h < h_ynum ?h" "h_count ?h + 1 < 2 ^ 31" and b: "s_lines s - 1 < s_lines s"
    using Suc.prems(5,6) wf_bounds(4) [OF Suc.prems(1)] by simp_all
  have up: "h_count (s_historybuf t) = h_count ?h + 1" "h_ynum (s_historybuf t) = h_ynum ?h"
    using index_up_text(2,3) [OF Suc.prems(1-3) b] room by (simp_all add: t_def)
  have items: "sels_items (s_selections t) = map index_selection_up (sels_items (s_selections s))"
    by (simp add: t_def index_up_def Let_def index_selection_def)
  have frame: "screen_wf t" "s_on_main t" "s_margin_top t = 0" "s_margin_bottom t = s_lines t - 1" "s_lines t = s_lines s"
    using Suc.prems(1-4) b by (simp_all add: t_def index_up_wf)
  have within: "selection_within t (index_selection_up sel)" "text_for_range t (index_selection_up sel) True strip = text_for_range s sel True strip"
    if "sel \<in> set (sels_items (s_selections s))" for sel
  proof -
    have w: "- int (h_count ?h) \<le> oldest_line sel" "newest_line sel < int (s_lines s)"
      using Suc.prems(7) that by (auto simp: list_all_iff selection_within_def)
    then have o: "- (2 ^ 31) < oldest_line sel" using room by simp
    show "selection_within t (index_selection_up sel)"
      using w by (simp add: selection_within_def selection_ranges_up [OF o] up frame)
    show "text_for_range t (index_selection_up sel) True strip = text_for_range s sel True strip"
      unfolding t_def by (rule index_up_selected_text [OF Suc.prems(1-3) room w(2) o])
  qed
  have "text_for_selection (screen_scroll n t) False strip = text_for_selection t False strip"
    using Suc.IH [OF frame(1-4)] Suc.prems(5,6) within(1) by (simp add: up items list_all_iff)
  moreover have "text_for_items (\<lambda>sel. text_for_range t sel True strip) (map index_selection_up sels)
      = text_for_items (\<lambda>sel. text_for_range s sel True strip) sels"
    if "set sels \<subseteq> set (sels_items (s_selections s))" for sels
    using that by (induction sels) (simp_all add: within(2) cong: option.case_cong)
  then have "text_for_selection t False strip = text_for_selection s False strip"
    by (simp add: text_for_selection_def text_for_selections_def items)
  moreover have "screen_scroll (Suc n) s = screen_scroll n t"
    using Suc.prems(3,4) frame(3-5) by (simp add: screen_scroll_def t_def)
  ultimately show ?case by (simp only:)
qed (simp add: screen_scroll_def)

text \<open>A selection of the whole first line of the empty screen, before and after it scrolls.\<close>

definition example_selection :: selection where
  "example_selection = zero_selection\<lparr>sel_start := \<lparr>sb_x = 0, sb_y = 0, sb_in_left_half = True\<rparr>,
     sel_end := \<lparr>sb_x = 3, sb_y = 0, sb_in_left_half = False\<rparr>\<rparr>"

definition selecting_screen :: screen where
  "selecting_screen = example_screen\<lparr>s_selections := (s_selections example_screen)\<lparr>sels_items := [example_selection]\<rparr>\<rparr>"

lemma selecting_screen_wf: "screen_wf selecting_screen"
  using example_screen_wf by (simp add: selecting_screen_def screen_wf_def)

lemma example_screen_history:
  "h_count (s_historybuf example_screen) = 0" "h_ynum (s_historybuf example_screen) = 5" "s_scrolled_by example_screen = 0"
  by (simp_all add: example_screen_def screen_new_def linebuf_new_def create_historybuf_def Let_def RESET_CHARSETS_def add_segment_def)

lemma selected_text_follows_scrolling_witness:
  "text_for_selection (screen_scroll 2 selecting_screen) False True = text_for_selection selecting_screen False True"
  by (rule selected_text_follows_scrolling [OF selecting_screen_wf])
    (simp_all add: selecting_screen_def example_screen_fields example_screen_history selection_within_def oldest_line_def newest_line_def
      start_line_def end_line_def example_selection_def zero_selection_def zero_boundary_def)

end
