(* ===== verification/Screen_Select_Mouse.thy ===== *)
theory Screen_Select_Mouse
  imports Screen_Select
begin

text \<open>
  Selecting with the mouse, from \<^verbatim>\<open>smelly/screen.c\<close>: the word and the line under the mouse, starting and changing a
  selection, and marking the URL or the hyperlink under the mouse.
\<close>

section \<open>Options\<close>

text \<open>
  The user's options; an option that is the null pointer is the empty list. \<open>o_qsort\<close> is the sort of \<^verbatim>\<open>iqsort.h\<close>, which need
  not be stable.
\<close>

record select_options =
  o_select_by_word_characters :: "char_type list"
  o_select_by_word_characters_forward :: "char_type list"
  o_url_excluded_characters :: "char_type list"
  o_url_prefixes :: "char_type list list"
  o_max_prefix_len :: nat
  o_qsort :: "(selection \<Rightarrow> selection \<Rightarrow> bool) \<Rightarrow> selection list \<Rightarrow> selection list"

section \<open>Lines and words\<close>

definition CHAR_IS_BLANK :: "char_type \<Rightarrow> bool" where
  "CHAR_IS_BLANK code = (code = 32 \<or> code = 0)"

fun strip_blanks_right :: "cell_line \<Rightarrow> nat \<Rightarrow> nat" where
  "strip_blanks_right l 0 = 0"
| "strip_blanks_right l (Suc n) = (if CHAR_IS_BLANK (line_ch l n) then strip_blanks_right l n else Suc n)"

text \<open>At most \<open>n\<close> steps are left until the limit.\<close>

fun strip_blanks_left :: "cell_line \<Rightarrow> nat \<Rightarrow> nat \<Rightarrow> nat" where
  "strip_blanks_left l 0 x = x"
| "strip_blanks_left l (Suc n) x = (if CHAR_IS_BLANK (line_ch l x) then strip_blanks_left l n (Suc x) else x)"

definition screen_selection_range_for_line :: "screen \<Rightarrow> nat \<Rightarrow> (nat \<times> nat) option" where
  "screen_selection_range_for_line s y =
     (if y \<ge> s_lines s then None
      else
        (let l = visual_line s (int y); xlimit = strip_blanks_right l (l_xnum l) in
         Some (strip_blanks_left l xlimit 0, if xlimit > 0 then xlimit - 1 else 0)))"

definition is_opt_word_char :: "select_options \<Rightarrow> char_type \<Rightarrow> bool \<Rightarrow> bool" where
  "is_opt_word_char opts code forward =
     (if forward \<and> o_select_by_word_characters_forward opts \<noteq> [] then code \<in> set (o_select_by_word_characters_forward opts)
      else code \<in> set (o_select_by_word_characters opts))"

definition is_char_ok_for_word_extension :: "select_options \<Rightarrow> cell_line \<Rightarrow> nat \<Rightarrow> bool \<Rightarrow> bool" where
  "is_char_ok_for_word_extension opts l x forward =
     (let code = line_ch l x in
      is_word_char code \<or> is_opt_word_char opts code forward
      \<or> code = 0x3a \<and> x + 2 < l_xnum l \<and> line_ch l (x + 1) = 0x2f \<and> line_ch l (x + 2) = 0x2f)"

fun word_start_in_line :: "select_options \<Rightarrow> cell_line \<Rightarrow> nat \<Rightarrow> nat" where
  "word_start_in_line opts l 0 = 0"
| "word_start_in_line opts l (Suc x) =
     (if is_char_ok_for_word_extension opts l x False then word_start_in_line opts l x else Suc x)"

fun word_start :: "select_options \<Rightarrow> screen \<Rightarrow> nat \<Rightarrow> nat \<Rightarrow> nat \<times> nat" where
  "word_start opts s 0 x = (0, word_start_in_line opts (visual_line s 0) x)"
| "word_start opts s (Suc y) x =
     (let l = visual_line s (int (Suc y)); start = word_start_in_line opts l x in
      if start > 0 \<or> \<not> la_is_continued (l_attrs l)
         \<or> \<not> is_char_ok_for_word_extension opts (visual_line s (int y)) (s_columns s - 1) False
      then (Suc y, start) else word_start opts s y (s_columns s - 1))"

text \<open>\<open>n\<close> cells are left to the right, \<open>k\<close> lines below.\<close>

fun word_end_in_line :: "select_options \<Rightarrow> cell_line \<Rightarrow> nat \<Rightarrow> nat \<Rightarrow> nat" where
  "word_end_in_line opts l 0 x = x"
| "word_end_in_line opts l (Suc n) x =
     (if is_char_ok_for_word_extension opts l (x + 1) True then word_end_in_line opts l n (x + 1) else x)"

fun word_end :: "select_options \<Rightarrow> screen \<Rightarrow> nat \<Rightarrow> nat \<Rightarrow> nat \<Rightarrow> nat \<times> nat" where
  "word_end opts s k y x =
     (let stop = word_end_in_line opts (visual_line s (int y)) (s_columns s - 1 - x) x in
      case k of
        0 \<Rightarrow> (y, stop)
      | Suc k \<Rightarrow>
          (let l = visual_line s (int (y + 1)) in
           if stop < s_columns s - 1 \<or> \<not> la_is_continued (l_attrs l) \<or> \<not> is_char_ok_for_word_extension opts l 0 True
           then (y, stop) else word_end opts s k (y + 1) 0))"

definition screen_selection_range_for_word ::
  "select_options \<Rightarrow> screen \<Rightarrow> nat \<Rightarrow> nat \<Rightarrow> bool \<Rightarrow> ((nat \<times> nat) \<times> (nat \<times> nat)) option" where
  "screen_selection_range_for_word opts s x y initial_selection =
     (if y \<ge> s_lines s \<or> x \<ge> s_columns s then None
      else if \<not> is_char_ok_for_word_extension opts (visual_line s (int y)) x False then
        (if initial_selection then None else Some ((y, x), (y, x)))
      else Some (word_start opts s y x, word_end opts s (s_lines s - 1 - y) y x))"

section \<open>Starting a selection\<close>

definition boundary_at :: "nat \<Rightarrow> nat \<Rightarrow> bool \<Rightarrow> selection_boundary" where
  "boundary_at x y in_left_half = \<lparr>sb_x = word_of_nat x, sb_y = word_of_nat y, sb_in_left_half = in_left_half\<rparr>"

definition screen_start_selection :: "nat \<Rightarrow> nat \<Rightarrow> bool \<Rightarrow> bool \<Rightarrow> selection_extend_mode \<Rightarrow> screen \<Rightarrow> screen" where
  "screen_start_selection x y in_left_half rectangle_select extend_mode s =
     (let b = boundary_at x y in_left_half; sc = word_of_nat (s_scrolled_by s);
          sel = zero_selection
            \<lparr>sel_last_rendered := zero_iteration_data\<lparr>id_y := 2147483647\<rparr>, sel_start := b, sel_end := b,
             sel_start_scrolled_by := sc, sel_end_scrolled_by := sc, sel_rectangle_select := rectangle_select,
             sel_input_start := b, sel_input_current := b\<rparr>
      in s\<lparr>s_selections := (s_selections s)
             \<lparr>sels_items := [sel], sels_in_progress := True, sels_extend_mode := extend_mode\<rparr>\<rparr>)"

section \<open>Changing a selection\<close>

record selection_update =
  upd_ended :: bool
  upd_start_extended_selection :: bool
  upd_set_as_nearest_extend :: bool

text \<open>\<^verbatim>\<open>set_abs\<close>: lines counted upwards from the last line of the screen.\<close>

definition absolute :: "screen \<Rightarrow> selection_boundary \<Rightarrow> u32 \<Rightarrow> selection_boundary" where
  "absolute s b scrolled_by = b\<lparr>sb_y := scrolled_by + word_of_nat (s_lines s) - 1 - sb_y b\<rparr>"

definition start_is_nearer ::
  "screen \<Rightarrow> selection_extend_mode \<Rightarrow> selection_boundary \<Rightarrow> selection_boundary \<Rightarrow> selection_boundary \<Rightarrow> bool" where
  "start_is_nearer s extend_mode abs_start abs_end cur =
     (if extend_mode = EXTEND_LINE \<or> extend_mode = EXTEND_LINE_FROM_POINT then
        (if sb_y abs_start = sb_y abs_end then
           (if sb_y cur = sb_y abs_start
            then (if selection_boundary_less_than abs_start abs_end then sb_x cur \<le> sb_x abs_start else sb_x cur \<le> sb_x abs_end)
            else (if selection_boundary_less_than abs_start abs_end then sb_y cur > sb_y abs_start else sb_y cur < sb_y abs_end))
         else num_lines_between_selection_boundaries abs_start cur < num_lines_between_selection_boundaries abs_end cur)
      else num_cells_between_selection_boundaries s abs_start cur < num_cells_between_selection_boundaries s abs_end cur)"

text \<open>
  Which end moves: the selection, \<^verbatim>\<open>return_word_sel_to_start_line\<close> and \<^verbatim>\<open>extension_in_progress\<close>.
\<close>

definition choose_end :: "screen \<Rightarrow> selection_update \<Rightarrow> selection \<Rightarrow> selection \<times> bool \<times> bool" where
  "choose_end s upd sel =
     (let extend_mode = sels_extend_mode (s_selections s); extension = sels_extension_in_progress (s_selections s);
          abs_start = absolute s (sel_start sel) (sel_start_scrolled_by sel);
          abs_end = absolute s (sel_end sel) (sel_end_scrolled_by sel);
          cur = absolute s (sel_input_current sel) (word_of_nat (s_scrolled_by s));
          initial_start = absolute s (sel_initial_start sel) (sel_initial_scrolled_by sel);
          initial_end = absolute s (sel_initial_end sel) (sel_initial_scrolled_by sel)
      in if upd_set_as_nearest_extend upd \<or> extension then
           (if start_is_nearer s extend_mode abs_start abs_end cur then sel\<lparr>sel_adjusting_start := True\<rparr> else sel, False, True)
         else if upd_start_extended_selection upd \<or> extend_mode = EXTEND_CELL then (sel, False, extension)
         else if extend_mode = EXTEND_WORD then
           (if sb_y cur = sb_y initial_start \<and> sb_y abs_start \<noteq> sb_y abs_end then
              (sel\<lparr>sel_adjusting_start :=
                 (if sb_y abs_start \<noteq> sb_y initial_start then True
                  else if sb_y abs_end \<noteq> sb_y initial_start then False
                  else selection_boundary_less_than cur initial_end)\<rparr>, True, extension)
            else
              (sel\<lparr>sel_adjusting_start :=
                 selection_boundary_less_than cur (if sel_adjusting_start sel then initial_end else initial_start)\<rparr>, False, extension))
         else if sb_y initial_start = sb_y cur then
           (sel\<lparr>sel_adjusting_start := False, sel_start := sel_initial_start sel, sel_start_scrolled_by := sel_initial_scrolled_by sel,
                sel_end := sel_initial_end sel, sel_end_scrolled_by := sel_initial_scrolled_by sel\<rparr>, False, extension)
         else (sel\<lparr>sel_adjusting_start := (sb_y cur > sb_y initial_start)\<rparr>, False, extension))"

text \<open>The two ends by their roles: \<open>a\<close> is the one that moves.\<close>

definition moved_end :: "selection \<Rightarrow> selection_boundary" where
  "moved_end sel = (if sel_adjusting_start sel then sel_start sel else sel_end sel)"

definition set_moved_end :: "selection_boundary \<Rightarrow> selection \<Rightarrow> selection" where
  "set_moved_end b sel = (if sel_adjusting_start sel then sel\<lparr>sel_start := b\<rparr> else sel\<lparr>sel_end := b\<rparr>)"

definition set_other_end :: "selection_boundary \<Rightarrow> selection \<Rightarrow> selection" where
  "set_other_end b sel = (if sel_adjusting_start sel then sel\<lparr>sel_end := b\<rparr> else sel\<lparr>sel_start := b\<rparr>)"

definition set_scrolled_by :: "screen \<Rightarrow> bool \<Rightarrow> selection \<Rightarrow> selection" where
  "set_scrolled_by s adjust_both_ends sel =
     (let sc = word_of_nat (s_scrolled_by s);
          sel = (if sel_adjusting_start sel \<or> adjust_both_ends then sel\<lparr>sel_start_scrolled_by := sc\<rparr> else sel)
      in if \<not> sel_adjusting_start sel \<or> adjust_both_ends then sel\<lparr>sel_end_scrolled_by := sc\<rparr> else sel)"

definition extend_word :: "select_options \<Rightarrow> screen \<Rightarrow> bool \<Rightarrow> bool \<Rightarrow> selection \<Rightarrow> selection" where
  "extend_word opts s before return_to_start_line sel =
     (let adjust_both_ends = is_selection_empty sel; cur = sel_input_current sel in
      if return_to_start_line then
        (let ox = sb_x (moved_end sel) in
         if sel_adjusting_start sel
         then (let b = sel_initial_start sel in set_moved_end (if ox < sb_x b then b\<lparr>sb_x := ox\<rparr> else b) sel)
         else (let b = sel_initial_end sel in set_moved_end (if ox > sb_x b then b\<lparr>sb_x := ox\<rparr> else b) sel))
      else
        (case screen_selection_range_for_word opts s (unat (sb_x cur)) (unat (sb_y cur)) True of
           Some ((y1, x1), (y2, x2)) \<Rightarrow>
             (let start = boundary_at x1 y1 True; stop = boundary_at x2 y2 False;
                  sel = set_moved_end (if before then start else stop) sel;
                  sel = (if adjust_both_ends then set_other_end (if before then stop else start) sel else sel)
              in set_scrolled_by s adjust_both_ends sel)
         | None \<Rightarrow> set_scrolled_by s False (set_moved_end cur sel)))"

fun continue_line_upwards :: "screen \<Rightarrow> nat \<Rightarrow> nat \<times> nat \<Rightarrow> nat \<times> nat \<times> nat" where
  "continue_line_upwards s 0 r = (0, r)"
| "continue_line_upwards s (Suc y) r =
     (if la_is_continued (l_attrs (visual_line s (int (Suc y)))) then
        (case screen_selection_range_for_line s y of None \<Rightarrow> (Suc y, r) | Some r \<Rightarrow> continue_line_upwards s y r)
      else (Suc y, r))"

text \<open>\<open>k\<close> lines are left below.\<close>

fun continue_line_downwards :: "screen \<Rightarrow> nat \<Rightarrow> nat \<Rightarrow> nat \<times> nat \<Rightarrow> nat \<times> nat \<times> nat" where
  "continue_line_downwards s 0 y r = (y, r)"
| "continue_line_downwards s (Suc k) y r =
     (if la_is_continued (l_attrs (visual_line s (int (y + 1)))) then
        (case screen_selection_range_for_line s (y + 1) of None \<Rightarrow> (y, r) | Some r \<Rightarrow> continue_line_downwards s k (y + 1) r)
      else (y, r))"

text \<open>A new selection of a line, from its start or, with \<open>EXTEND_LINE_FROM_POINT\<close>, from the mouse on.\<close>

definition new_line_selection :: "screen \<Rightarrow> bool \<Rightarrow> nat \<Rightarrow> selection \<Rightarrow> selection" where
  "new_line_selection s from_point x sel =
     (let top = unat (sb_y (sel_input_current sel)) in
      case screen_selection_range_for_line s top of
        None \<Rightarrow> sel
      | Some (up_start, up_end) \<Rightarrow>
          (let (bottom, _, down_end) = continue_line_downwards s (s_lines s - 1 - top) top (up_start, up_end);
               lines = (\<lambda>top start stop. sel\<lparr>sel_start := boundary_at start top True,
                          sel_end := boundary_at (if bottom = top then stop else down_end) bottom False\<rparr>)
           in if from_point then (if x \<le> up_end then lines top (max x up_start) up_end else sel)
              else (let (top, up_start, up_end) = continue_line_upwards s top (up_start, up_end) in lines top up_start up_end)))"

definition extend_line_selection :: "screen \<Rightarrow> bool \<Rightarrow> selection \<Rightarrow> selection" where
  "extend_line_selection s before sel =
     (let cur = sel_input_current sel; y = unat (sb_y cur) in
      case screen_selection_range_for_line s y of
        None \<Rightarrow> sel
      | Some r \<Rightarrow>
          (let (top, up_start, _) = continue_line_upwards s y r;
               (bottom, _, down_end) = continue_line_downwards s (s_lines s - 1 - y) y r;
               a = (if before then boundary_at up_start top True else boundary_at down_end bottom False);
               a = (if sb_y a = word_of_nat top \<and> sb_y cur = word_of_nat top \<and> sb_x cur < sb_x a \<and> before
                    then a\<lparr>sb_x := sb_x cur\<rparr> else a)
           in set_moved_end a sel))"

definition extend_line :: "screen \<Rightarrow> bool \<Rightarrow> bool \<Rightarrow> nat \<Rightarrow> selection \<Rightarrow> selection" where
  "extend_line s from_point before x sel =
     (let adjust_both_ends = is_selection_empty sel; sel = set_scrolled_by s adjust_both_ends sel in
      if adjust_both_ends then new_line_selection s from_point x sel else extend_line_selection s before sel)"

text \<open>The result says whether \<^verbatim>\<open>set_primary_selection\<close> of the boss is called.\<close>

definition screen_update_selection ::
  "select_options \<Rightarrow> nat \<Rightarrow> nat \<Rightarrow> bool \<Rightarrow> selection_update \<Rightarrow> screen \<Rightarrow> screen \<times> bool" where
  "screen_update_selection opts x y in_left_half upd s =
     (case sels_items (s_selections s) of
        [] \<Rightarrow> (s, False)
      | sel # sels \<Rightarrow>
          (let extend_mode = sels_extend_mode (s_selections s);
               sel = sel\<lparr>sel_input_current := boundary_at x y in_left_half\<rparr>;
               abs_start = absolute s (sel_start sel) (sel_start_scrolled_by sel);
               abs_end = absolute s (sel_end sel) (sel_end_scrolled_by sel);
               (sel, return_to_start_line, extension) = choose_end s upd sel;
               before = (if sel_adjusting_start sel then selection_boundary_less_than abs_start abs_end
                         else selection_boundary_less_than abs_end abs_start);
               sel = (case extend_mode of
                        EXTEND_WORD \<Rightarrow> extend_word opts s before return_to_start_line sel
                      | EXTEND_LINE_FROM_POINT \<Rightarrow> extend_line s True before x sel
                      | EXTEND_LINE \<Rightarrow> extend_line s False before x sel
                      | EXTEND_CELL \<Rightarrow> set_scrolled_by s False (set_moved_end (boundary_at x y in_left_half) sel));
               in_progress = (\<not> upd_ended upd);
               sel = (if \<not> in_progress then sel\<lparr>sel_adjusting_start := False\<rparr>
                      else if upd_start_extended_selection upd \<and> extend_mode \<noteq> EXTEND_CELL
                      then sel\<lparr>sel_initial_start := sel_start sel, sel_initial_end := sel_end sel,
                               sel_initial_scrolled_by := sel_start_scrolled_by sel\<rparr>
                      else sel)
           in (s\<lparr>s_selections := (s_selections s)\<lparr>sels_items := sel # sels, sels_in_progress := in_progress,
                  sels_extension_in_progress := (in_progress \<and> extension)\<rparr>\<rparr>, \<not> in_progress)))"

section \<open>URLs under the mouse\<close>

definition add_url_range :: "nat \<Rightarrow> nat \<Rightarrow> nat \<Rightarrow> nat \<Rightarrow> screen \<Rightarrow> screen" where
  "add_url_range start_x start_y end_x end_y s =
     (let sc = word_of_nat (s_scrolled_by s);
          r = zero_selection
            \<lparr>sel_last_rendered := zero_iteration_data\<lparr>id_y := 2147483647\<rparr>, sel_start := boundary_at start_x start_y True,
             sel_end := boundary_at end_x end_y False, sel_start_scrolled_by := sc, sel_end_scrolled_by := sc\<rparr>
      in s\<lparr>s_url_ranges := (s_url_ranges s)\<lparr>sels_items := sels_items (s_url_ranges s) @ [r]\<rparr>\<rparr>)"

definition clear_url_ranges :: "screen \<Rightarrow> screen" where
  "clear_url_ranges s = s\<lparr>s_url_ranges := (s_url_ranges s)\<lparr>sels_items := []\<rparr>\<rparr>"

definition screen_mark_url :: "nat \<Rightarrow> nat \<Rightarrow> nat \<Rightarrow> nat \<Rightarrow> screen \<Rightarrow> screen" where
  "screen_mark_url start_x start_y end_x end_y s =
     (let s = clear_url_ranges s in
      if start_x \<noteq> 0 \<or> start_y \<noteq> 0 \<or> end_x \<noteq> 0 \<or> end_y \<noteq> 0 then add_url_range start_x start_y end_x end_y s else s)"

text \<open>The ranges of the cells from \<open>x\<close> on that carry the link; \<open>start\<close> is where an open range began.\<close>

fun hyperlink_runs :: "hyperlink_id_type \<Rightarrow> nat \<Rightarrow> cpu_cell list \<Rightarrow> nat \<Rightarrow> nat option \<Rightarrow> (nat \<times> nat) list" where
  "hyperlink_runs i columns [] x None = []"
| "hyperlink_runs i columns [] x (Some start) = [(start, columns - 1)]"
| "hyperlink_runs i columns (c # cs) x None =
     hyperlink_runs i columns cs (x + 1) (if p_hyperlink_id c = i then Some x else None)"
| "hyperlink_runs i columns (c # cs) x (Some start) =
     (if p_hyperlink_id c = i then hyperlink_runs i columns cs (x + 1) (Some start)
      else (start, x - 1) # hyperlink_runs i columns cs (x + 1) None)"

definition mark_hyperlinks_in_line :: "cell_line \<Rightarrow> hyperlink_id_type \<Rightarrow> nat \<Rightarrow> screen \<Rightarrow> bool \<times> screen" where
  "mark_hyperlinks_in_line l i y s =
     (let runs = hyperlink_runs i (s_columns s) (take (l_xnum l) (l_cpu l)) 0 None
      in (runs \<noteq> [], fold (\<lambda>(a, b). add_url_range a y b y) runs s))"

definition range_lt :: "selection \<Rightarrow> selection \<Rightarrow> bool" where
  "range_lt a b = (sel_sort_y a < sel_sort_y b \<or> sel_sort_y a = sel_sort_y b \<and> sel_sort_x a < sel_sort_x b)"

definition sort_ranges :: "select_options \<Rightarrow> screen \<Rightarrow> screen" where
  "sort_ranges opts s =
     (let items = map (\<lambda>sel. let a = iteration_data_for s sel 0 False in
                sel\<lparr>sel_sort_x := sint (xr_x (id_first a)), sel_sort_y := id_y a\<rparr>) (sels_items (s_url_ranges s))
      in s\<lparr>s_url_ranges := (s_url_ranges s)\<lparr>sels_items := o_qsort opts range_lt items\<rparr>\<rparr>)"

text \<open>The lines at and above \<open>y\<close>, and \<open>k\<close> lines from \<open>y\<close> on; the search ends five lines after the last one with the link.\<close>

fun mark_hyperlinks_up :: "hyperlink_id_type \<Rightarrow> nat \<Rightarrow> nat \<Rightarrow> screen \<Rightarrow> screen" where
  "mark_hyperlinks_up i 0 last_marked_line s = snd (mark_hyperlinks_in_line (visual_line s 0) i 0 s)"
| "mark_hyperlinks_up i (Suc y) last_marked_line s =
     (let (found, s) = mark_hyperlinks_in_line (visual_line s (int (Suc y))) i (Suc y) s;
          last_marked_line = (if found then Suc y else last_marked_line)
      in if last_marked_line - y < 5 then mark_hyperlinks_up i y last_marked_line s else s)"

fun mark_hyperlinks_down :: "hyperlink_id_type \<Rightarrow> nat \<Rightarrow> nat \<Rightarrow> nat \<Rightarrow> screen \<Rightarrow> screen" where
  "mark_hyperlinks_down i 0 y last_marked_line s = s"
| "mark_hyperlinks_down i (Suc k) y last_marked_line s =
     (if y - last_marked_line < 5 then
        (let (found, s) = mark_hyperlinks_in_line (visual_line s (int y)) i y s
         in mark_hyperlinks_down i k (y + 1) (if found then y else last_marked_line) s)
      else s)"

definition screen_mark_hyperlink :: "select_options \<Rightarrow> nat \<Rightarrow> nat \<Rightarrow> screen \<Rightarrow> hyperlink_id_type \<times> screen" where
  "screen_mark_hyperlink opts x y s =
     (let s = clear_url_ranges s; i = p_hyperlink_id (l_cpu (visual_line s (int y)) ! x) in
      if i = 0 then (0, s)
      else
        (let s = mark_hyperlinks_up i y y s; s = mark_hyperlinks_down i (s_lines s - 1 - (y + 1)) (y + 1) y s
         in (i, if length (sels_items (s_url_ranges s)) > 1 then sort_ranges opts s else s)))"

text \<open>A URL that reaches the end of its line goes on in the next one, for at most \<open>n\<close> lines.\<close>

fun extend_url :: "select_options \<Rightarrow> screen \<Rightarrow> char_type \<Rightarrow> nat \<Rightarrow> nat \<Rightarrow> nat \<Rightarrow> nat \<Rightarrow> nat \<times> nat" where
  "extend_url opts s sentinel 0 xnum x y = (x, y)"
| "extend_url opts s sentinel (Suc n) xnum x y =
     (if x \<noteq> xnum - 1 then (x, y)
      else
        (let starts = line_startswith_url_chars (o_url_excluded_characters opts);
             next_line = (case screen_visual_line s (y + 2) of None \<Rightarrow> False | Some l \<Rightarrow> starts l)
         in case screen_visual_line s (y + 1) of
              None \<Rightarrow> (x, y)
            | Some l \<Rightarrow>
                (let new_x = line_url_end_at (o_url_excluded_characters opts) l 0 False sentinel next_line
                 in if new_x = 0 \<and> \<not> starts l then (x, y) else extend_url opts s sentinel n (l_xnum l) new_x (y + 1))))"

definition get_url_sentinel :: "cell_line \<Rightarrow> nat \<Rightarrow> char_type" where
  "get_url_sentinel l url_start =
     (let before = (if url_start > 0 \<and> url_start < l_xnum l then line_ch l (url_start - 1) else 0) in
      if before \<in> {0x22, 0x27, 0x2a} then before
      else if before = 0x28 then 0x29 else if before = 0x5b then 0x5d else if before = 0x7b then 0x7d
      else if before = 0x3c then 0x3e else 0)"

definition screen_detect_url :: "select_options \<Rightarrow> nat \<Rightarrow> nat \<Rightarrow> screen \<Rightarrow> int \<times> screen" where
  "screen_detect_url opts x y s =
     (case screen_visual_line s y of
        None \<Rightarrow> (0, s)
      | Some l \<Rightarrow>
          if x \<ge> s_columns s then (0, s)
          else if p_hyperlink_id (l_cpu l ! x) \<noteq> 0 then (uint (p_hyperlink_id (l_cpu l ! x)), snd (screen_mark_hyperlink opts x y s))
          else
            (let excluded = o_url_excluded_characters opts;
                 url_start = line_url_start_at excluded (o_url_prefixes opts) (o_max_prefix_len opts) l x;
                 next_line = (y < s_lines s - 1 \<and> line_startswith_url_chars excluded (visual_line s (int (y + 1))));
                 sentinel = get_url_sentinel l url_start;
                 url_end = (if url_start < l_xnum l then line_url_end_at excluded l x True sentinel next_line else 0)
             in if url_end > url_start then
                  (let (end_x, end_y) = extend_url opts s sentinel 10 (l_xnum l) url_end y
                   in (- 1, screen_mark_url url_start y end_x end_y s))
                else (0, screen_mark_url 0 0 0 0 s)))"

section \<open>Only cells of the link are marked\<close>

text \<open>The range of the cells \<open>a\<close> to \<open>b\<close> of line \<open>y\<close>, all of which carry the link.\<close>

definition link_range :: "screen \<Rightarrow> hyperlink_id_type \<Rightarrow> selection \<Rightarrow> bool" where
  "link_range s i sel =
     (\<exists>a b y. sel_start sel = boundary_at a y True \<and> sel_end sel = boundary_at b y False
        \<and> sel_start_scrolled_by sel = word_of_nat (s_scrolled_by s) \<and> sel_end_scrolled_by sel = word_of_nat (s_scrolled_by s)
        \<and> a \<le> b \<and> b < s_columns s \<and> y < s_lines s
        \<and> list_all (\<lambda>x. p_hyperlink_id (l_cpu (visual_line s (int y)) ! x) = i) [a ..< b + 1])"

lemma hyperlink_runs_carry:
  assumes "(a, b) \<in> set (hyperlink_runs i (length cells) (drop x cells) x open)"
    and "\<And>start. open = Some start \<Longrightarrow> start < x \<and> (\<forall>k. start \<le> k \<and> k < x \<longrightarrow> p_hyperlink_id (cells ! k) = i)"
    and "x \<le> length cells"
  shows "a \<le> b \<and> b < length cells \<and> (\<forall>k. a \<le> k \<and> k \<le> b \<longrightarrow> p_hyperlink_id (cells ! k) = i)"
  using assms
proof (induction "length cells - x" arbitrary: x "open")
  case 0
  then show ?case by (cases "open") auto
next
  case (Suc n)
  then have x: "x < length cells" "drop x cells = cells ! x # drop (x + 1) cells" "length cells - (x + 1) = n" "x + 1 \<le> length cells"
    by (simp_all add: Cons_nth_drop_Suc)
  note IH = Suc.hyps(1) [OF x(3) [symmetric] _ _ x(4)]
  show ?case
  proof (cases "open")
    case None
    then have "(a, b) \<in> set (hyperlink_runs i (length cells) (drop (x + 1) cells) (x + 1) (if p_hyperlink_id (cells ! x) = i then Some x else None))"
      using Suc.prems(1) by (simp add: x(2))
    then show ?thesis by (rule IH) (auto split: if_splits simp: less_Suc_eq)
  next
    case (Some start)
    note o = Suc.prems(2) [OF Some]
    show ?thesis
    proof (cases "p_hyperlink_id (cells ! x) = i")
      case True
      then have "(a, b) \<in> set (hyperlink_runs i (length cells) (drop (x + 1) cells) (x + 1) (Some start))"
        using Suc.prems(1) Some by (simp add: x(2))
      then show ?thesis by (rule IH) (use o True in \<open>auto simp: less_Suc_eq\<close>)
    next
      case False
      then consider "a = start" "b = x - 1" | "(a, b) \<in> set (hyperlink_runs i (length cells) (drop (x + 1) cells) (x + 1) None)"
        using Suc.prems(1) Some by (auto simp: x(2))
      then show ?thesis
      proof cases
        case 1
        then show ?thesis using o x(1) by auto
      next
        case 2
        then show ?thesis by (rule IH) simp
      qed
    qed
  qed
qed

lemma visual_line_frame:
  "visual_line (s\<lparr>s_url_ranges := u\<rparr>) y = visual_line s y" "link_range (s\<lparr>s_url_ranges := u\<rparr>) i sel = link_range s i sel"
  by (simp_all add: visual_line_def link_range_def init_line_def s_linebuf_def Let_def)

definition marked :: "screen \<Rightarrow> hyperlink_id_type \<Rightarrow> screen \<Rightarrow> bool" where
  "marked s i t = (\<exists>u. t = s\<lparr>s_url_ranges := u\<rparr> \<and> list_all (link_range s i) (sels_items u))"

lemma init_line_cpu: "l_cpu (init_line s y) = l_cpu (linebuf_init_line (s_linebuf s) y)"
  by (simp add: init_line_def Let_def)

lemma length_visual_line:
  assumes "screen_wf s" "y < s_lines s"
  shows "length (l_cpu (visual_line s (int y))) = s_columns s"
proof (cases "y < s_scrolled_by s")
  case True
  have "history_wf (s_historybuf s)" "h_xnum (s_historybuf s) = s_columns s" using assms(1) by (simp_all add: screen_wf_def)
  moreover from this have "index_of (s_historybuf s) n < h_ynum (s_historybuf s)" for n by (simp add: index_of_def history_wf_def)
  ultimately show ?thesis
    using True by (simp add: visual_line_def historybuf_init_line_def history_init_line_def history_wf_def row_ok_def case_prod_beta)
next
  case False
  have "lb_wf (s_linebuf s)" "b_xnum (s_linebuf s) = s_columns s" "b_ynum (s_linebuf s) = s_lines s"
    using assms(1) by (simp_all add: s_linebuf_def screen_wf_def lb_size_def)
  then have "line_wf (linebuf_init_line (s_linebuf s) (y - s_scrolled_by s))"
    "l_xnum (linebuf_init_line (s_linebuf s) (y - s_scrolled_by s)) = s_columns s"
    using assms(2) by (simp_all add: linebuf_init_line_wf)
  then show ?thesis
    using False by (simp add: visual_line_def init_line_cpu line_wf_def)
qed

lemma add_url_range_marked:
  assumes "marked s i t" "a \<le> b" "b < s_columns s" "y < s_lines s"
    and "list_all (\<lambda>x. p_hyperlink_id (l_cpu (visual_line s (int y)) ! x) = i) [a ..< b + 1]"
  shows "marked s i (add_url_range a y b y t)"
proof -
  obtain u where u: "t = s\<lparr>s_url_ranges := u\<rparr>" "list_all (link_range s i) (sels_items u)" using assms(1) by (auto simp: marked_def)
  define r where "r = zero_selection
    \<lparr>sel_last_rendered := zero_iteration_data\<lparr>id_y := 2147483647\<rparr>, sel_start := boundary_at a y True,
     sel_end := boundary_at b y False, sel_start_scrolled_by := word_of_nat (s_scrolled_by s), sel_end_scrolled_by := word_of_nat (s_scrolled_by s)\<rparr>"
  have "link_range s i r" unfolding link_range_def by (rule exI [of _ a], rule exI [of _ b], rule exI [of _ y]) (use assms(2-5) in \<open>simp add: r_def\<close>)
  moreover have "add_url_range a y b y t = s\<lparr>s_url_ranges := u\<lparr>sels_items := sels_items u @ [r]\<rparr>\<rparr>"
    by (simp add: u(1) add_url_range_def Let_def r_def)
  ultimately show ?thesis using u(2) by (auto simp: marked_def)
qed

lemma add_url_ranges_marked:
  assumes "marked s i t" "y < s_lines s"
    and "\<And>a b. (a, b) \<in> set runs \<Longrightarrow> a \<le> b \<and> b < s_columns s
      \<and> (\<forall>k. a \<le> k \<and> k \<le> b \<longrightarrow> p_hyperlink_id (l_cpu (visual_line s (int y)) ! k) = i)"
  shows "marked s i (fold (\<lambda>(a, b). add_url_range a y b y) runs t)"
  using assms
proof (induction runs arbitrary: t)
  case (Cons r runs)
  obtain a b where r: "r = (a, b)" by force
  have "marked s i (add_url_range a y b y t)"
    using Cons.prems(3) [of a b] Cons.prems(1,2) by (intro add_url_range_marked) (auto simp: r list_all_iff)
  then have "marked s i (fold (\<lambda>(a, b). add_url_range a y b y) runs (add_url_range a y b y t))"
    by (rule Cons.IH [OF _ Cons.prems(2)]) (rule Cons.prems(3), simp)
  then show ?case by (simp add: r)
qed simp

lemma mark_line_marked:
  assumes "screen_wf s" "marked s i t" "y < s_lines s"
  shows "marked s i (snd (mark_hyperlinks_in_line (visual_line t (int y)) i y t))"
proof -
  obtain u where t: "t = s\<lparr>s_url_ranges := u\<rparr>" using assms(2) by (auto simp: marked_def)
  let ?cells = "l_cpu (visual_line s (int y))"
  have len: "length ?cells = s_columns s" by (rule length_visual_line [OF assms(1,3)])
  have runs: "hyperlink_runs i (s_columns t) (take (l_xnum (visual_line t (int y))) (l_cpu (visual_line t (int y)))) 0 None
      = hyperlink_runs i (length ?cells) (drop 0 ?cells) 0 None"
    by (simp add: t visual_line_frame len visual_line_xnum [OF assms(1)])
  have "a \<le> b \<and> b < s_columns s \<and> (\<forall>k. a \<le> k \<and> k \<le> b \<longrightarrow> p_hyperlink_id (?cells ! k) = i)"
    if "(a, b) \<in> set (hyperlink_runs i (length ?cells) (drop 0 ?cells) 0 None)" for a b
    using hyperlink_runs_carry [OF that] by (simp add: len)
  then show ?thesis
    unfolding mark_hyperlinks_in_line_def Let_def snd_conv runs by (rule add_url_ranges_marked [OF assms(2,3)])
qed

lemma mark_up_marked: "screen_wf s \<Longrightarrow> marked s i t \<Longrightarrow> y < s_lines s \<Longrightarrow> marked s i (mark_hyperlinks_up i y l t)"
proof (induction i y l t rule: mark_hyperlinks_up.induct)
  case (1 i l t)
  then show ?case using mark_line_marked [of s i t 0] by simp
next
  case (2 i y l t)
  then show ?case using mark_line_marked [of s i t "Suc y"] by (simp add: Let_def case_prod_beta del: of_nat_Suc)
qed

lemma mark_down_marked:
  "screen_wf s \<Longrightarrow> marked s i t \<Longrightarrow> y + k \<le> s_lines s \<Longrightarrow> marked s i (mark_hyperlinks_down i k y l t)"
proof (induction i k y l t rule: mark_hyperlinks_down.induct)
  case (2 i k y l t)
  then show ?case using mark_line_marked [of s i t y] by (simp add: Let_def case_prod_beta)
qed simp

lemma sort_ranges_marked:
  assumes "marked s i t" "\<And>lt xs. mset (o_qsort opts lt xs) = mset xs"
  shows "marked s i (sort_ranges opts t)"
proof -
  have set_sorted: "set (o_qsort opts lt xs) = set xs" for lt xs by (metis assms(2) set_mset_mset)
  obtain u where u: "t = s\<lparr>s_url_ranges := u\<rparr>" "list_all (link_range s i) (sels_items u)" using assms(1) by (auto simp: marked_def)
  define f where "f = (\<lambda>sel. let a = iteration_data_for t sel 0 False in
      sel\<lparr>sel_sort_x := sint (xr_x (id_first a)), sel_sort_y := id_y a\<rparr>)"
  have "link_range s i (f sel) = link_range s i sel" for sel by (simp add: f_def Let_def link_range_def)
  then have "list_all (link_range s i) (o_qsort opts range_lt (map f (sels_items u)))"
    using u(2) by (simp add: list_all_iff set_sorted)
  moreover have "sort_ranges opts t = s\<lparr>s_url_ranges := u\<lparr>sels_items := o_qsort opts range_lt (map f (sels_items u))\<rparr>\<rparr>"
    by (simp add: sort_ranges_def f_def u(1))
  ultimately show ?thesis by (auto simp: marked_def)
qed

text \<open>
  C8: Marking the hyperlink under the mouse marks only cells of the screen that carry this link,
  in whatever order the ranges are sorted.
\<close>

theorem marked_hyperlink_cells:
  assumes "screen_wf s" and "y < s_lines s" and "\<And>lt xs. mset (o_qsort opts lt xs) = mset xs"
    and "screen_mark_hyperlink opts x y s = (i, t)" and "i \<noteq> 0"
  shows "i = p_hyperlink_id (l_cpu (visual_line s (int y)) ! x) \<and> list_all (link_range s i) (sels_items (s_url_ranges t))"
proof -
  let ?c = "clear_url_ranges s"
  have c: "marked s i ?c" by (auto simp: marked_def clear_url_ranges_def)
  have i: "i = p_hyperlink_id (l_cpu (visual_line s (int y)) ! x)"
    using assms(4,5) by (auto simp: screen_mark_hyperlink_def clear_url_ranges_def visual_line_frame Let_def split: if_splits)
  have up: "marked s i (mark_hyperlinks_up i y y ?c)" by (rule mark_up_marked [OF assms(1) c assms(2)])
  have "s_lines (mark_hyperlinks_up i y y ?c) = s_lines s" using up by (auto simp: marked_def)
  then have "marked s i (mark_hyperlinks_down i (s_lines (mark_hyperlinks_up i y y ?c) - 1 - (y + 1)) (y + 1) y (mark_hyperlinks_up i y y ?c))"
    using assms(2) by (intro mark_down_marked [OF assms(1) up]) simp
  note marks = this sort_ranges_marked [OF this assms(3)]
  have "marked s i t"
    using assms(4,5) marks by (auto simp: screen_mark_hyperlink_def clear_url_ranges_def visual_line_frame Let_def split: if_splits)
  then show ?thesis using i by (auto simp: marked_def)
qed

text \<open>The first cell of the empty screen with a link; the sort is by insertion.\<close>

definition link_options :: select_options where
  "link_options = \<lparr>o_select_by_word_characters = [], o_select_by_word_characters_forward = [], o_url_excluded_characters = [],
     o_url_prefixes = [], o_max_prefix_len = 0,
     o_qsort = (\<lambda>lt xs. foldr (\<lambda>x ys. takeWhile (\<lambda>y. lt y x) ys @ x # dropWhile (\<lambda>y. lt y x) ys) xs [])\<rparr>"

definition linked_screen :: screen where
  "linked_screen = example_screen\<lparr>s_main_linebuf := (s_main_linebuf example_screen)
     \<lparr>b_cpu := replicate 3 (zero_cpu_cell\<lparr>p_ch := 97, p_hyperlink_id := 1\<rparr> # replicate 3 zero_cpu_cell)\<rparr>\<rparr>"

lemma linked_screen_wf: "screen_wf linked_screen"
  using example_screen_wf example_screen_fields(4,5)
  by (simp add: linked_screen_def screen_wf_def lb_size_def lb_wf_def list_all_iff)

lemma marked_hyperlink_cells_witness:
  "list_all (link_range linked_screen 1) (sels_items (s_url_ranges (snd (screen_mark_hyperlink link_options 0 0 linked_screen))))"
proof -
  have sort: "mset (o_qsort link_options lt xs) = mset xs" for lt xs
  proof -
    have "mset (takeWhile P ys @ y # dropWhile P ys) = add_mset y (mset ys)" for P y and ys :: "selection list"
      by (metis mset.simps(2) mset_append takeWhile_dropWhile_id union_mset_add_mset_right)
    then have "mset (foldr (\<lambda>x ys. takeWhile (\<lambda>y. lt y x) ys @ x # dropWhile (\<lambda>y. lt y x) ys) xs []) = mset xs"
      by (induction xs) simp_all
    then show ?thesis by (simp add: link_options_def)
  qed
  have "s_scrolled_by linked_screen = 0" "s_on_main linked_screen" "b_map (s_main_linebuf linked_screen) = [0, 1, 2]"
    by (simp_all add: linked_screen_def example_screen_def screen_new_def linebuf_new_def create_historybuf_def Let_def
        RESET_CHARSETS_def upt_conv_Cons)
  then have "p_hyperlink_id (l_cpu (visual_line linked_screen 0) ! 0) = 1"
    by (simp add: visual_line_def init_line_cpu linebuf_init_line_def s_linebuf_def) (simp add: linked_screen_def numeral_3_eq_3)
  then have "fst (screen_mark_hyperlink link_options 0 0 linked_screen) = 1"
    by (simp add: screen_mark_hyperlink_def clear_url_ranges_def visual_line_frame Let_def)
  then have m: "screen_mark_hyperlink link_options 0 0 linked_screen = (1, snd (screen_mark_hyperlink link_options 0 0 linked_screen))"
    by (metis prod.collapse)
  have "0 < s_lines linked_screen" using linked_screen_wf by (simp add: screen_wf_def)
  from marked_hyperlink_cells [OF linked_screen_wf this sort m] show ?thesis by simp
qed

end
