(* ===== verification/Screen_Select_Drag.thy ===== *)
theory Screen_Select_Drag
  imports Screen_Select_Text Screen_Select_Mouse
begin

text \<open>
  A selection made with the mouse, from \<^verbatim>\<open>screen_start_selection\<close> over \<^verbatim>\<open>screen_update_selection\<close> to its text.
\<close>

section \<open>Dragging\<close>

text \<open>Pressing the button at one place and releasing it at another.\<close>

definition drag ::
  "select_options \<Rightarrow> bool \<Rightarrow> nat \<times> nat \<times> bool \<Rightarrow> nat \<times> nat \<times> bool \<Rightarrow> screen \<Rightarrow> screen" where
  "drag opts rectangle p q s =
     (case (p, q) of ((x1, y1, left1), (x2, y2, left2)) \<Rightarrow>
        fst (screen_update_selection opts x2 y2 left2
          \<lparr>upd_ended = True, upd_start_extended_selection = False, upd_set_as_nearest_extend = False\<rparr>
          (screen_start_selection x1 y1 left1 rectangle EXTEND_CELL s)))"

definition dragged :: "screen \<Rightarrow> bool \<Rightarrow> selection_boundary \<Rightarrow> selection_boundary \<Rightarrow> selection" where
  "dragged s rectangle a b =
     zero_selection
       \<lparr>sel_last_rendered := zero_iteration_data\<lparr>id_y := 2147483647\<rparr>, sel_start := a, sel_end := b,
        sel_start_scrolled_by := word_of_nat (s_scrolled_by s), sel_end_scrolled_by := word_of_nat (s_scrolled_by s),
        sel_rectangle_select := rectangle, sel_input_start := a, sel_input_current := b\<rparr>"

lemma drag_selection:
  assumes "\<not> sels_extension_in_progress (s_selections s)"
  shows "drag opts rectangle (x1, y1, left1) (x2, y2, left2) s =
    s\<lparr>s_selections := (s_selections s)
       \<lparr>sels_items := [dragged s rectangle (boundary_at x1 y1 left1) (boundary_at x2 y2 left2)],
        sels_in_progress := False, sels_extend_mode := EXTEND_CELL\<rparr>\<rparr>"
  using assms by (simp add: drag_def screen_update_selection_def screen_start_selection_def choose_end_def Let_def set_scrolled_by_def
      set_moved_end_def dragged_def zero_selection_def)

text \<open>Which of its two ends came first makes no difference to the cells of a selection.\<close>

lemma dragged_fields:
  "sel_start (dragged s rectangle a b) = a" "sel_end (dragged s rectangle a b) = b"
  "sel_rectangle_select (dragged s rectangle a b) = rectangle"
  "sel_input_start (dragged s rectangle a b) = a" "sel_input_current (dragged s rectangle a b) = b"
  "end_line (dragged s rectangle a b) = start_line (dragged s rectangle b a)"
  by (simp_all add: dragged_def start_line_def end_line_def)

lemma dragged_lines: "(start_line (dragged s rectangle a b) = start_line (dragged s rectangle b a)) = (sb_y a = sb_y b)"
proof -
  have "(sint v = sint w) = (v = w)" for v w :: u32 using signed_word_eqI by blast
  then show ?thesis by (simp add: dragged_def start_line_def)
qed

lemma rectangle_ranges_dragged:
  "sb_x a \<noteq> sb_x b \<Longrightarrow> rectangle_ranges (dragged s rectangle a b) = rectangle_ranges (dragged s rectangle b a)"
  by (auto simp: rectangle_ranges_def dragged_fields selection_is_left_to_right_def Let_def)

lemma line_ranges_dragged:
  assumes "sb_x a \<noteq> sb_x b \<or> sb_y a \<noteq> sb_y b"
  shows "line_ranges c (dragged s rectangle a b) = line_ranges c (dragged s rectangle b a)"
proof (cases "sb_y a = sb_y b")
  case True
  then have "start_line (dragged s rectangle a b) = start_line (dragged s rectangle b a)" by (simp add: dragged_lines)
  then show ?thesis using True assms by (auto simp: line_ranges_def dragged_fields Let_def)
next
  case False
  then have "start_line (dragged s rectangle a b) \<noteq> start_line (dragged s rectangle b a)" by (simp add: dragged_lines)
  then show ?thesis by (auto simp: line_ranges_def dragged_fields Let_def)
qed

text \<open>Within one column a rectangle is selected only from the left half of a cell to the right half of one.\<close>

lemma rectangle_ranges_same_half:
  "sb_x a = sb_x b \<Longrightarrow> sb_in_left_half a = sb_in_left_half b \<Longrightarrow> rectangle_ranges (dragged s rectangle a b) = None"
  by (auto simp: rectangle_ranges_def dragged_fields)

lemma iteration_data_dragged:
  assumes "sb_x a \<noteq> sb_x b \<or> \<not> rectangle \<and> sb_y a \<noteq> sb_y b \<or> sb_in_left_half a = sb_in_left_half b"
  shows "iteration_data_for s (dragged t rectangle a b) m add = iteration_data_for s (dragged t rectangle b a) m add"
proof (cases "sb_x a = sb_x b \<and> sb_y a = sb_y b \<and> sb_in_left_half a = sb_in_left_half b")
  case True
  then have "a = b" by (cases a; cases b) simp
  then show ?thesis by simp
next
  case False
  let ?d = "dragged t rectangle a b" and ?e = "dragged t rectangle b a"
  have d: "\<not> (sb_x (sel_start ?d) = sb_x (sel_end ?d) \<and> start_line ?d = end_line ?d \<and> sb_in_left_half (sel_start ?d) = sb_in_left_half (sel_end ?d))"
    "\<not> (sb_x (sel_start ?e) = sb_x (sel_end ?e) \<and> start_line ?e = end_line ?e \<and> sb_in_left_half (sel_start ?e) = sb_in_left_half (sel_end ?e))"
    using False by (auto simp: dragged_fields dragged_lines)
  have r: "(if rectangle then rectangle_ranges ?d else line_ranges (word_of_nat (s_columns s)) ?d)
      = (if rectangle then rectangle_ranges ?e else line_ranges (word_of_nat (s_columns s)) ?e)"
  proof (cases rectangle)
    case True
    then show ?thesis
      using assms rectangle_ranges_dragged [of a b t rectangle] rectangle_ranges_same_half [of a b t rectangle]
        rectangle_ranges_same_half [of b a t rectangle] by (cases "sb_x a = sb_x b") simp_all
  next
    case False
    then have "sb_x a \<noteq> sb_x b \<or> sb_y a \<noteq> sb_y b" using assms \<open>\<not> (sb_x a = sb_x b \<and> _ \<and> _)\<close> by blast
    from line_ranges_dragged [OF this] show ?thesis using False by simp
  qed
  show ?thesis
    unfolding iteration_data_for_def Let_def if_not_P [OF d(1)] if_not_P [OF d(2)]
    by (simp only: dragged_fields(3,6) r min.commute max.commute)
qed

text \<open>The text is that of the screen, whatever is selected.\<close>

lemma selections_frame:
  "range_line (s\<lparr>s_selections := u\<rparr>) y = range_line s y"
  "iteration_data_for (s\<lparr>s_selections := u\<rparr>) sel m b = iteration_data_for s sel m b"
  "history_min_y (s\<lparr>s_selections := u\<rparr>) = history_min_y s"
proof -
  have "s_columns (s\<lparr>s_selections := u\<rparr>) = s_columns s" "s_scrolled_by (s\<lparr>s_selections := u\<rparr>) = s_scrolled_by s" by simp_all
  then show "iteration_data_for (s\<lparr>s_selections := u\<rparr>) sel m b = iteration_data_for s sel m b"
    by (simp only: iteration_data_for_def)
qed (simp_all add: range_line_def init_line_def s_linebuf_def history_min_y_def)

lemma text_frame:
  "text_for_range (s\<lparr>s_selections := u\<rparr>) sel nl strip = text_for_range s sel nl strip"
  "ansi_for_range (s\<lparr>s_selections := u\<rparr>) sel nl strip = ansi_for_range s sel nl strip"
proof -
  have "ansi_range_line (s\<lparr>s_selections := u\<rparr>) = ansi_range_line s" by (simp add: fun_eq_iff ansi_range_line_def selections_frame)
  then show "ansi_for_range (s\<lparr>s_selections := u\<rparr>) sel nl strip = ansi_for_range s sel nl strip"
    by (simp add: ansi_for_range_def selections_frame Let_def)
qed (simp add: text_for_range_def selections_frame Let_def)

text \<open>
  C9: Dragging the mouse from one place of the screen to another, when no selection is being
  extended, selects the same text as dragging it back, as plain text and with escape codes: for
  selections by lines unless it goes from one half of a cell to the other half of the same cell,
  and for rectangles unless it goes from one half of a cell to the other half of a cell of the
  same column.
\<close>

theorem drag_direction_irrelevant:
  assumes "screen_wf s" and "\<not> sels_extension_in_progress (s_selections s)"
    and "x1 < s_columns s" and "x2 < s_columns s" and "y1 < s_lines s" and "y2 < s_lines s"
    and "x1 \<noteq> x2 \<or> \<not> rectangle \<and> y1 \<noteq> y2 \<or> left1 = left2"
  shows "text_for_selection (drag opts rectangle (x1, y1, left1) (x2, y2, left2) s) ansi strip
    = text_for_selection (drag opts rectangle (x2, y2, left2) (x1, y1, left1) s) ansi strip"
proof -
  have "s_columns s \<le> 5000" "s_lines s \<le> 50000" using assms(1) by (simp_all add: screen_wf_def)
  then have "unat (word_of_nat x1 :: u32) = x1" "unat (word_of_nat x2 :: u32) = x2" "unat (word_of_nat y1 :: u32) = y1"
    "unat (word_of_nat y2 :: u32) = y2"
    using assms(3-6) by (simp_all add: unat_of_nat)
  then have "(word_of_nat x1 :: u32) = word_of_nat x2 \<Longrightarrow> x1 = x2" "(word_of_nat y1 :: u32) = word_of_nat y2 \<Longrightarrow> y1 = y2" by metis+
  then have "sb_x (boundary_at x1 y1 left1) \<noteq> sb_x (boundary_at x2 y2 left2)
      \<or> \<not> rectangle \<and> sb_y (boundary_at x1 y1 left1) \<noteq> sb_y (boundary_at x2 y2 left2)
      \<or> sb_in_left_half (boundary_at x1 y1 left1) = sb_in_left_half (boundary_at x2 y2 left2)"
    using assms(7) by (auto simp: boundary_at_def)
  note same = iteration_data_dragged [OF this]
  let ?d = "dragged s rectangle (boundary_at x1 y1 left1) (boundary_at x2 y2 left2)"
    and ?e = "dragged s rectangle (boundary_at x2 y2 left2) (boundary_at x1 y1 left1)"
  have "text_for_range s ?d nl strip = text_for_range s ?e nl strip" "ansi_for_range s ?d nl strip = ansi_for_range s ?e nl strip" for nl
    by (simp_all add: text_for_range_def ansi_for_range_def same)
  then show ?thesis
    by (simp add: drag_selection [OF assms(2)] text_for_selection_def text_for_selections_def text_frame cong: option.case_cong)
qed

lemma drag_direction_irrelevant_witness:
  "text_for_selection (drag link_options False (0, 0, True) (2, 1, False) linked_screen) False True
    = text_for_selection (drag link_options False (2, 1, False) (0, 0, True) linked_screen) False True"
  by (rule drag_direction_irrelevant [OF linked_screen_wf]) (simp_all add: linked_screen_def example_screen_fields zero_selections_def)

text \<open>
  The exceptions: dragged to the left within one cell, the cell is not selected, and a rectangle within one column is
  selected when dragged from a left half to a right half, but not back.
\<close>

lemma drag_left_in_cell:
  "line_ranges c (dragged s False \<lparr>sb_x = x, sb_y = y, sb_in_left_half = False\<rparr> \<lparr>sb_x = x, sb_y = y, sb_in_left_half = True\<rparr>) = None"
  "line_ranges c (dragged s False \<lparr>sb_x = x, sb_y = y, sb_in_left_half = True\<rparr> \<lparr>sb_x = x, sb_y = y, sb_in_left_half = False\<rparr>) \<noteq> None"
  by (simp_all add: line_ranges_def dragged_def start_line_def end_line_def Let_def)

lemma drag_back_in_column:
  "rectangle_ranges (dragged s True \<lparr>sb_x = x, sb_y = y1, sb_in_left_half = False\<rparr> \<lparr>sb_x = x, sb_y = y2, sb_in_left_half = True\<rparr>) = None"
  "rectangle_ranges (dragged s True \<lparr>sb_x = x, sb_y = y2, sb_in_left_half = True\<rparr> \<lparr>sb_x = x, sb_y = y1, sb_in_left_half = False\<rparr>) \<noteq> None"
  by (simp_all add: rectangle_ranges_def dragged_fields Let_def)

end
