(* ===== verification/Spec2Isabelle.thy ===== *)
theory Spec2Isabelle
  imports Charsets Utf8 Sgr Line_Buf Colors History Graphics_Command Wcswidth Pending Terminal
    Key_Input Mouse_Encoding Screen_Select_Drag
begin

text \<open>
  A verification library for the terminal emulator smelly: its C core under \<^verbatim>\<open>src/smelly\<close>.

  \<^bold>\<open>The program.\<close> Bytes from the child process reach \<^verbatim>\<open>do_parse_bytes\<close> of \<^verbatim>\<open>parser.c\<close>, which decodes
  UTF-8 (\<^verbatim>\<open>charsets.c\<close>), recognizes escape codes and calls the functions of \<^verbatim>\<open>screen.c\<close>. The screen
  edits lines of cells (\<^verbatim>\<open>line.c\<close>, \<^verbatim>\<open>line-buf.c\<close>) with the attributes of its cursor (\<^verbatim>\<open>cursor.c\<close>) and
  moves lines that leave it to the history (\<^verbatim>\<open>history.c\<close>), whose oldest lines become text in a ring
  buffer (\<^verbatim>\<open>ringbuf.c\<close>). Colours live in a profile with a stack (\<^verbatim>\<open>colors.c\<close>).

  \<^bold>\<open>The theories.\<close>

  \<^item> \<open>Prelude\<close>: words, lists and options, \<^verbatim>\<open>utoi\<close>-independent lemmas that all components share.
  \<^item> \<open>Charsets\<close>, \<open>Utf8\<close>: the charset tables, the UTF-8 DFA and encoder, base64; the decoder accepts
    exactly the encodings of Unicode scalar values.
  \<^item> \<open>Unicode\<close>: the character classes, widths and numbers of combining characters of
    \<^verbatim>\<open>unicode-data.c\<close> and \<^verbatim>\<open>wcwidth-std.h\<close>, a switch as the list of its ranges.
  \<^item> \<open>Cells\<close>, \<open>Sgr\<close>: cells, cursor, colours and SGR in both directions.
  \<^item> \<open>Lines\<close>, \<open>Line_Buf\<close>: lines and the indexed line buffer; the operations on \<^verbatim>\<open>line_map\<close> refine
    operations on the list of lines (locale \<open>row_store\<close>).
  \<^item> \<open>Ringbuf\<close>, \<open>History\<close>: the ring buffer and the history; both are bounded queues (locales
    \<open>bounded_queue\<close> and \<open>fifo\<close>).
  \<^item> \<open>Wcswidth\<close>: the width of a string with escape codes.
  \<^item> \<open>Colors\<close>: the colour profile and its stack.
  \<^item> \<open>Graphics_Command\<close>, \<open>Parser_Dispatch\<close>, \<open>Parser\<close>: the parser. A dispatch function is the list of
    the screen's functions it calls; \<open>exec\<close> performs a call on a screen of any type.
    \<open>Parser_Bounds\<close> holds the bounds of the arrays and termination, \<open>Parser_Text\<close> the effect of
    complete escape codes, \<open>Parser_Chunks\<close> independence of how the input is cut into reads (locales
    \<open>decoder_screen\<close>, \<open>utf8_screen\<close>), \<open>Parser_Reads\<close> whole reads by \<^verbatim>\<open>do_parse_bytes\<close>: the room inside a code
    (locale \<open>pending_screen\<close>), what every read keeps, and reads while pending mode is off, and \<open>Pending\<close> pending mode.

  \<^item> \<open>Selection\<close>, \<open>Hyperlinks\<close>, \<open>Key_Flags\<close>: parts of the screen with a state of their own: selections, the pool of
    hyperlinks with its garbage collection, and the stack of keyboard modes, which refines a list (locale in \<open>Key_Flags\<close>).
  \<^item> \<open>Screen_State\<close>, \<open>Screen_Cursor\<close>, \<open>Screen_Scroll\<close>, \<open>Screen_Edit\<close>, \<open>Screen_Modes\<close>, \<open>Screen_Links\<close>, \<open>Screen_Draw\<close>,
    \<open>Screen_Report\<close>: \<^verbatim>\<open>screen.c\<close>, in the order of its sections; the record \<open>screen\<close> is the C struct, and what the screen
    sends to Python, to the child and to the graphics manager is a list of events. Each operation keeps \<open>screen_wf\<close>.
  \<^item> \<open>Screen_Exec\<close>, \<open>Screen_Parsing\<close>, \<open>Screen_Calm\<close>, \<open>Screen_Session\<close>: the parser connected with this screen, which is an
    instance of the locales of \<open>Parser_Chunks\<close> and \<open>Parser_Reads\<close>; round trips of whole sessions. \<open>Terminal\<close>: the states
    reached by reads, the clock and resizing (\<open>terminal_reaches\<close>) keep the invariant. It asks for two columns, since
    \<^verbatim>\<open>draw_codepoint\<close> writes beyond the line of a screen of one column, which the code allows.
  \<^item> \<open>Rewrap\<close>, \<open>Rewrap_Text\<close>, \<open>Rewrap_Lines\<close>, \<open>Rewrap_History\<close>, \<open>Screen_Resize\<close>: \<^verbatim>\<open>rewrap.h\<close> is a template, here a
    function of a record with its macros. In the locale \<open>rewrap_buffers\<close> it keeps the text, in \<open>rewrap_returns\<close> it
    returns; line buffers and histories are the instances. \<^verbatim>\<open>screen_resize\<close> puts both together.
  \<^item> \<open>Key_Encoding\<close>, \<open>Key_Encoding_Text\<close>, \<open>Key_Input\<close>: key events, from the event of the window system to the bytes
    for the child (\<^verbatim>\<open>key_encoding.c\<close>, \<^verbatim>\<open>keys.c\<close>); bounds of the buffer and a reader that inverts the encoding.
  \<^item> \<open>Screen_Select\<close>, \<open>Screen_Select_Text\<close>, \<open>Screen_Select_Mouse\<close>, \<open>Screen_Select_Drag\<close>: what a selection stands for, its
    marks and its text, which does not change while the screen scrolls; selecting with the mouse, and the URL or hyperlink under it.
  \<^item> \<open>Mouse_Encoding\<close>: the reports of mouse events in the five protocols of \<^verbatim>\<open>mouse.c\<close>.

  \<^bold>\<open>Conventions.\<close> Fixed width integers whose wrap-around matters are words; counts and indices are
  \<open>nat\<close>, with \<open>usub32\<close> where an unsigned subtraction can wrap. A C array is a list of its
  length. Functions that report an error return a sum or an option. Loops are structural recursion
  or have a measure; no fuel is used. \<^verbatim>\<open>do_parse_bytes\<close> iterates its round a bounded number of times
  and returns \<open>None\<close> if that is not enough, which never happens.

  \<^bold>\<open>Not modelled.\<close> Fonts, shaders, OpenGL, GLFW, image data, child processes, threads, files and the Python
  object plumbing are input and output or glue. Of \<^verbatim>\<open>screen.c\<close>, what is copied to the GPU, the overlay line of input methods and the
  markers set from Python are left out.
\<close>

end
